(* ===== verification/Oak_Prelude.thy ===== *)
theory Oak_Prelude
  imports Main "HOL-Library.Word"
begin

text \<open>
  Shared vocabulary of the development: the C scalar types the sources use, the result codes of
  \<^verbatim>\<open>include/oakfield/field.h\<close>, the allocation oracle, and the generic facts about words, lists and
  checked arithmetic that the component theories use.

  Conventions. A nullable pointer is an \<open>option\<close> (\<open>None\<close> is \<^verbatim>\<open>NULL\<close>). A \<^verbatim>\<open>size_t\<close> value whose
  overflow matters (extents, element counts, strides, offsets, capacities) is a \<open>64 word\<close>; the
  length of an array that exists in memory, and an index into it, is a \<open>nat\<close>. The allocator is not
  part of the sources: it is a parameter \<open>heap\<close> that says which request sizes are granted.
\<close>

section \<open>Types\<close>

type_synonym u8 = "8 word"
type_synonym u16 = "16 word"
type_synonym u32 = "32 word"
type_synonym u64 = "64 word"
type_synonym size_t = "64 word"

text \<open>The largest \<^verbatim>\<open>size_t\<close>, written \<^verbatim>\<open>(size_t) -1\<close> or \<^verbatim>\<open>SIZE_MAX\<close> in the sources.\<close>

abbreviation size_max :: size_t where
  "size_max \<equiv> - 1"

datatype SimResult =
    SIM_RESULT_OK
  | SIM_RESULT_INVALID_ARGUMENT
  | SIM_RESULT_INVALID_STATE
  | SIM_RESULT_OUT_OF_MEMORY
  | SIM_RESULT_NOT_FOUND
  | SIM_RESULT_NOT_SUPPORTED
  | SIM_RESULT_DEPENDENCY_ERROR
  | SIM_RESULT_TYPE_MISMATCH

text \<open>
  An allocation request of \<open>k\<close> bytes is granted when \<open>heap k\<close>. \<^verbatim>\<open>calloc\<close> checks the product of its
  arguments, \<^verbatim>\<open>malloc\<close> and \<^verbatim>\<open>realloc\<close> get the product already reduced to a \<^verbatim>\<open>size_t\<close>.
\<close>

type_synonym heap = "nat \<Rightarrow> bool"

definition calloc_ok :: "heap \<Rightarrow> nat \<Rightarrow> nat \<Rightarrow> bool" where
  "calloc_ok h n k \<longleftrightarrow> n * k < 2 ^ 64 \<and> h (n * k)"

definition malloc_ok :: "heap \<Rightarrow> nat \<Rightarrow> bool" where
  "malloc_ok h k \<longleftrightarrow> h (k mod 2 ^ 64)"

text \<open>
  Allocators grant no request of half the address space or more (the bound \<^verbatim>\<open>PTRDIFF_MAX\<close> that
  \<^verbatim>\<open>malloc\<close> enforces).
\<close>

definition bounded_heap :: "heap \<Rightarrow> bool" where
  "bounded_heap h \<longleftrightarrow> (\<forall>k. h k \<longrightarrow> k < 2 ^ 63)"

section \<open>Collections of facts\<close>

named_theorems size_arith \<open>moving checked \<^verbatim>\<open>size_t\<close> arithmetic to the naturals\<close>

section \<open>Checked arithmetic on words\<close>

lemma unat_size_max [size_arith]: "unat size_max = 2 ^ 64 - 1"
  by (simp add: unsigned_minus_1_eq_mask mask_eq_exp_minus_1)

text \<open>The overflow test the sources write as \<^verbatim>\<open>a > SIZE_MAX / b\<close>.\<close>

lemma le_size_max_div_iff [size_arith]:
  fixes a b :: size_t
  assumes "b \<noteq> 0"
  shows "a \<le> size_max div b \<longleftrightarrow> unat a * unat b < 2 ^ 64"
proof -
  have "0 < unat b" using assms by (simp add: unat_gt_0)
  have "a \<le> size_max div b \<longleftrightarrow> unat a \<le> (2 ^ 64 - 1) div unat b"
    by (simp add: word_le_nat_alt unat_div unat_size_max)
  also have "\<dots> \<longleftrightarrow> unat a * unat b \<le> 2 ^ 64 - 1"
    using \<open>0 < unat b\<close> by (simp add: less_eq_div_iff_mult_less_eq)
  also have "\<dots> \<longleftrightarrow> unat a * unat b < 2 ^ 64" by auto
  finally show ?thesis .
qed

lemma gt_size_max_div_iff [size_arith]:
  fixes a b :: size_t
  assumes "b \<noteq> 0"
  shows "a > size_max div b \<longleftrightarrow> 2 ^ 64 \<le> unat a * unat b"
  using le_size_max_div_iff [OF assms, of a] by (simp add: not_le [symmetric] not_less)

lemma unat_mult_exact [size_arith]:
  fixes a b :: size_t
  shows "unat a * unat b < 2 ^ 64 \<Longrightarrow> unat (a * b) = unat a * unat b"
  by (simp add: unat_word_ariths)

lemma unat_add_exact [size_arith]:
  fixes a b :: size_t
  shows "unat a + unat b < 2 ^ 64 \<Longrightarrow> unat (a + b) = unat a + unat b"
  by (simp add: unat_word_ariths)

lemma unat_mult_le:
  fixes a b :: size_t
  shows "unat (a * b) \<le> unat a * unat b"
  by (simp add: unat_word_ariths)

lemma unat_lt_64: "unat (x :: size_t) < 2 ^ 64"
  using unsigned_less [of x] by simp

lemma unat_word_of_nat_64: "n < 2 ^ 64 \<Longrightarrow> unat (word_of_nat n :: size_t) = n"
  by (simp add: unat_of_nat)

text \<open>Blocks of \<open>k\<close> bytes at different element positions do not overlap.\<close>

lemma block_before:
  fixes i j k :: nat
  shows "i < j \<Longrightarrow> i * k + k \<le> j * k"
  using mult_le_mono1 [of "Suc i" j k] by simp

lemma blocks_apart:
  fixes i j k :: nat
  shows "i \<noteq> j \<Longrightarrow> i * k + k \<le> j * k \<or> j * k + k \<le> i * k"
  using block_before by (metis linorder_neqE_nat)

section \<open>Loops that may fail\<close>

text \<open>A loop over a list whose body may stop the function: \<open>None\<close> is the early exit.\<close>

fun fold_option :: "('a \<Rightarrow> 's \<Rightarrow> 's option) \<Rightarrow> 'a list \<Rightarrow> 's \<Rightarrow> 's option" where
  "fold_option f [] s = Some s"
| "fold_option f (x # xs) s = (case f x s of None \<Rightarrow> None | Some s' \<Rightarrow> fold_option f xs s')"

lemma fold_option_append:
  "fold_option f (xs @ ys) s =
     (case fold_option f xs s of None \<Rightarrow> None | Some s' \<Rightarrow> fold_option f ys s')"
  by (induction xs arbitrary: s) (auto split: option.split)

text \<open>The same with an error code: \<open>Inl\<close> is the early return.\<close>

fun fold_sum :: "('a \<Rightarrow> 's \<Rightarrow> 'e + 's) \<Rightarrow> 'a list \<Rightarrow> 's \<Rightarrow> 'e + 's" where
  "fold_sum f [] s = Inr s"
| "fold_sum f (x # xs) s = (case f x s of Inl e \<Rightarrow> Inl e | Inr s' \<Rightarrow> fold_sum f xs s')"

lemma fold_sum_append:
  "fold_sum f (xs @ ys) s = (case fold_sum f xs s of Inl e \<Rightarrow> Inl e | Inr s' \<Rightarrow> fold_sum f ys s')"
  by (induction xs arbitrary: s) (auto split: sum.split)

end
