(* ===== verification/Sim_Seed.thy ===== *)
theory Sim_Seed
  imports Oak_Prelude
begin

text \<open>
  \<^verbatim>\<open>core/src/sim_seed.c\<close>: derivation of deterministic random streams from one base seed. The mixing
  function is a permutation of the 64-bit words, so the seeds derived for different indices of one
  tag differ, and no derived seed is zero.
\<close>

unbundle bit_operations_syntax

section \<open>Operations\<close>

definition SIM_SEED_DEFAULT :: u64 where
  "SIM_SEED_DEFAULT = 0xA5A5A5A5A5A5A5A5"

definition sim_seed_normalize :: "u64 \<Rightarrow> u64" where
  "sim_seed_normalize seed = (if seed = 0 then SIM_SEED_DEFAULT else seed)"

definition sim_seed_mix64 :: "u64 \<Rightarrow> u64" where
  "sim_seed_mix64 value0 =
     (let v = value0 + 0x9E3779B97F4A7C15;
          v = (v XOR drop_bit 30 v) * 0xBF58476D1CE4E5B9;
          v = (v XOR drop_bit 27 v) * 0x94D049BB133111EB
      in v XOR drop_bit 31 v)"

text \<open>The bytes of a C string up to its terminator, read as \<^verbatim>\<open>unsigned char\<close>.\<close>

fun sim_seed_tag_loop :: "u64 \<Rightarrow> u8 list \<Rightarrow> u64" where
  "sim_seed_tag_loop hash [] = hash"
| "sim_seed_tag_loop hash (c # cs) =
     sim_seed_tag_loop ((hash XOR ucast c) * 1099511628211) cs"

definition sim_seed_tag :: "u8 list option \<Rightarrow> u64" where
  "sim_seed_tag tag =
     (case tag of
        None \<Rightarrow> sim_seed_mix64 14695981039346656037
      | Some bytes \<Rightarrow> sim_seed_mix64 (sim_seed_tag_loop 14695981039346656037 bytes))"

definition sim_seed_derive :: "u64 \<Rightarrow> u64 \<Rightarrow> u64 \<Rightarrow> u64" where
  "sim_seed_derive base_seed tag_hash index =
     (let base = sim_seed_normalize base_seed;
          mixed = base XOR tag_hash XOR (index * 0xD1342543DE82EF95);
          seed = sim_seed_mix64 mixed
      in if seed = 0 then SIM_SEED_DEFAULT else seed)"

text \<open>The pair of values stored through the two out-parameters.\<close>

definition sim_seed_stream :: "u64 \<Rightarrow> u8 list option \<Rightarrow> u64 \<Rightarrow> u64 \<times> u64" where
  "sim_seed_stream base_seed tag index =
     (let tag_hash = sim_seed_tag tag;
          state = sim_seed_derive base_seed tag_hash index;
          inc = sim_seed_derive base_seed (tag_hash XOR 0x8C9E37F02E1A9C63) index
      in (state, push_bit 1 inc OR 1))"

section \<open>The mixing steps are injective\<close>

lemma inj_xorshift:
  assumes "0 < k"
  shows "inj (\<lambda>v :: u64. v XOR drop_bit k v)"
proof (rule injI)
  fix x y :: u64
  assume eq: "x XOR drop_bit k x = y XOR drop_bit k y"
  have xs: "bit (v XOR drop_bit k v) i \<longleftrightarrow> bit v i \<noteq> bit v (i + k)" for v :: u64 and i
    unfolding bit_xor_iff bit_drop_bit_eq o_def by (simp add: add.commute [of k])
  have step: "(bit x i \<noteq> bit x (i + k)) = (bit y i \<noteq> bit y (i + k))" for i
    using xs [of x i] xs [of y i] unfolding eq by blast
  have "bit x (64 - n) = bit y (64 - n)" if "n \<le> 64" for n
    using that
  proof (induction n rule: less_induct)
    case (less n)
    show ?case
    proof (cases "64 - n + k < 64")
      case True
      then have m: "64 - n + k = 64 - (n - k)" "n - k < n" "n - k \<le> 64"
        using less.prems assms by auto
      have "bit x (64 - n + k) = bit y (64 - n + k)"
        unfolding m(1) by (rule less.IH [OF m(2) m(3)])
      with step [of "64 - n"] show ?thesis by blast
    next
      case False
      then have "\<not> bit x (64 - n + k)" "\<not> bit y (64 - n + k)"
        by (auto simp: bit_word.rep_eq dest: bit_imp_le_length)
      with step [of "64 - n"] show ?thesis by blast
    qed
  qed
  from this [of "64 - i" for i] have "bit x i = bit y i" if "i < 64" for i
    using that by (metis diff_diff_cancel diff_le_self less_imp_le)
  then show "x = y" by (intro bit_word_eqI) simp
qed

lemma inj_mult_unit:
  fixes c d :: u64
  assumes "c * d = 1"
  shows "inj (\<lambda>v. v * c)"
proof (rule injI)
  fix x y :: u64
  assume "x * c = y * c"
  then have "x * (c * d) = y * (c * d)" by (simp add: mult.assoc [symmetric])
  then show "x = y" by (simp add: assms)
qed

lemma inj_sim_seed_mix64: "inj sim_seed_mix64"
proof -
  have 1: "inj (\<lambda>v :: u64. v + 0x9E3779B97F4A7C15)" by (simp add: inj_def)
  have 2: "inj (\<lambda>v :: u64. v * 0xBF58476D1CE4E5B9)"
    by (rule inj_mult_unit [where d = "0x96DE1B173F119089"]) simp
  have 3: "inj (\<lambda>v :: u64. v * 0x94D049BB133111EB)"
    by (rule inj_mult_unit [where d = "0x319642B2D24D8EC3"]) simp
  have eq: "sim_seed_mix64 =
      (\<lambda>v. v XOR drop_bit 31 v) \<circ> (\<lambda>v. v * 0x94D049BB133111EB) \<circ> (\<lambda>v. v XOR drop_bit 27 v) \<circ>
      (\<lambda>v. v * 0xBF58476D1CE4E5B9) \<circ> (\<lambda>v. v XOR drop_bit 30 v) \<circ> (\<lambda>v. v + 0x9E3779B97F4A7C15)"
    by (simp add: fun_eq_iff sim_seed_mix64_def Let_def)
  show ?thesis unfolding eq by (intro inj_compose 1 2 3 inj_xorshift) simp_all
qed

section \<open>Properties\<close>

text \<open>
  The mixing function is a permutation of the 64-bit words: it loses no entropy of its input.
\<close>

theorem sim_seed_mix64_bij: "bij sim_seed_mix64"
proof -
  have "surj sim_seed_mix64"
    by (rule finite_UNIV_inj_surj [OF finite inj_sim_seed_mix64])
  then show ?thesis by (simp add: bij_def inj_sim_seed_mix64)
qed

lemma sim_seed_derive_mixed:
  "sim_seed_derive b t i =
     (let s = sim_seed_mix64 (sim_seed_normalize b XOR t XOR (i * 0xD1342543DE82EF95))
      in if s = 0 then SIM_SEED_DEFAULT else s)"
  by (simp add: sim_seed_derive_def Let_def)

lemma derive_index_cancel:
  fixes i j b t :: u64
  assumes "b XOR t XOR (i * 0xD1342543DE82EF95) = b XOR t XOR (j * 0xD1342543DE82EF95)"
  shows "i = j"
proof -
  have "(b XOR t) XOR ((b XOR t) XOR (i * 0xD1342543DE82EF95)) =
        (b XOR t) XOR ((b XOR t) XOR (j * 0xD1342543DE82EF95))"
    using assms by (simp only: xor.assoc)
  then have "i * 0xD1342543DE82EF95 = j * 0xD1342543DE82EF95"
    by (simp only: xor.assoc [symmetric] xor_self_eq xor.left_neutral)
  then show ?thesis
    by (rule injD [OF inj_mult_unit [where d = "0x572B5EE77A54E3BD"], rotated]) simp
qed

text \<open>
  A derived seed is never zero, and two different indices of one base seed and tag get the same
  seed only when one of them hit the zero replacement.
\<close>

theorem sim_seed_derive_distinct:
  assumes "i \<noteq> j"
  shows "sim_seed_derive b t i \<noteq> 0 \<and>
    (sim_seed_derive b t i \<noteq> SIM_SEED_DEFAULT \<longrightarrow> sim_seed_derive b t i \<noteq> sim_seed_derive b t j)"
proof -
  let ?m = "\<lambda>i :: u64. sim_seed_mix64 (sim_seed_normalize b XOR t XOR (i * 0xD1342543DE82EF95))"
  have "?m i \<noteq> ?m j"
    using derive_index_cancel [of "sim_seed_normalize b" t i j] assms
    by (simp only: inj_eq [OF inj_sim_seed_mix64]) blast
  then show ?thesis
    by (auto simp: sim_seed_derive_mixed Let_def SIM_SEED_DEFAULT_def)
qed

theorem sim_seed_derive_distinct_witness:
  "(0 :: u64) \<noteq> 1 \<and> sim_seed_derive 7 (sim_seed_tag None) 0 \<noteq> sim_seed_derive 7 (sim_seed_tag None) 1"
proof -
  have ne: "(0 :: u64) \<noteq> 1" by simp
  have "sim_seed_derive 7 (sim_seed_tag None) 0 \<noteq> SIM_SEED_DEFAULT" by code_simp
  with sim_seed_derive_distinct [OF ne, of 7 "sim_seed_tag None"] ne show ?thesis by blast
qed

text \<open>
  Every stream has a non-zero state and an odd increment, whatever the base seed, tag and index:
  the two conditions a permuted congruential generator puts on its parameters.
\<close>

theorem sim_seed_stream_well_formed:
  "fst (sim_seed_stream b tag i) \<noteq> 0 \<and> odd (snd (sim_seed_stream b tag i))"
proof -
  have "sim_seed_derive b t i \<noteq> 0" for t
    by (auto simp: sim_seed_derive_mixed Let_def SIM_SEED_DEFAULT_def)
  then show ?thesis
    by (simp add: sim_seed_stream_def Let_def even_iff_mod_2_eq_zero [symmetric] even_or_iff)
qed

end
