(* ===== verification/Plan_Graph.thy ===== *)
theory Plan_Graph
  imports Oak_Prelude "HOL-Library.While_Combinator"
begin

text \<open>
  The graph phase of \<^verbatim>\<open>sim_operator_resolve_plan_with_logger\<close> (\<^verbatim>\<open>core/src/operator.c\<close>): the compressed
  adjacency arrays built from the out-degrees, and the queue loop that emits the order. The arrays
  are lists; \<open>queue\<close> and \<open>order\<close> are the used prefixes of the source's arrays of \<open>n\<close> entries. The
  lemmas say what the arrays hold for any edge list whose degrees were counted correctly, that the
  loop ends, and that it emits a topological order of exactly the acyclic graphs.
\<close>

section \<open>Operations\<close>

fun csr_offsets_from :: "nat \<Rightarrow> nat list \<Rightarrow> nat list" where
  "csr_offsets_from a [] = [a]"
| "csr_offsets_from a (d # ds) = a # csr_offsets_from (a + d) ds"

definition csr_offsets :: "nat list \<Rightarrow> nat list" where
  "csr_offsets out_degree = csr_offsets_from 0 out_degree"

text \<open>One store into the adjacency array: the cursor of \<open>from\<close> moves by one.\<close>

fun csr_put :: "nat list \<Rightarrow> nat \<times> nat \<Rightarrow> nat list \<times> nat list \<Rightarrow> nat list \<times> nat list" where
  "csr_put offsets (from, to) (cursor, adjacency) =
     (let offset = offsets ! from + cursor ! from
      in (cursor[from := cursor ! from + 1], adjacency[offset := to]))"

text \<open>The inner loop over the neighbours of one node.\<close>

fun kahn_relax :: "nat list \<Rightarrow> nat list \<times> nat list \<Rightarrow> nat list \<times> nat list" where
  "kahn_relax [] (indegree, queue) = (indegree, queue)"
| "kahn_relax (neighbor # rest) (indegree, queue) =
     (if indegree ! neighbor = 0 then kahn_relax rest (indegree, queue)
      else let indegree' = indegree[neighbor := indegree ! neighbor - 1]
           in kahn_relax rest
                (indegree', if indegree' ! neighbor = 0 then queue @ [neighbor] else queue))"

record kahn_state =
  k_indegree :: "nat list"
  k_queue :: "nat list"
  k_head :: nat
  k_order :: "nat list"

definition csr_neighbors :: "nat list \<Rightarrow> nat list \<Rightarrow> nat \<Rightarrow> nat list" where
  "csr_neighbors offsets adjacency node =
     map (\<lambda>edge_index. adjacency ! edge_index) [offsets ! node ..< offsets ! (node + 1)]"

definition kahn_step :: "nat list \<Rightarrow> nat list \<Rightarrow> kahn_state \<Rightarrow> kahn_state" where
  "kahn_step offsets adjacency s =
     (let node = k_queue s ! k_head s;
          (indegree', queue') =
            kahn_relax (csr_neighbors offsets adjacency node) (k_indegree s, k_queue s)
      in \<lparr>k_indegree = indegree', k_queue = queue', k_head = k_head s + 1,
          k_order = k_order s @ [node]\<rparr>)"

definition kahn_loop :: "nat list \<Rightarrow> nat list \<Rightarrow> kahn_state \<Rightarrow> kahn_state option" where
  "kahn_loop offsets adjacency s =
     while_option (\<lambda>s. k_head s < length (k_queue s)) (kahn_step offsets adjacency) s"

section \<open>Specification vocabulary\<close>

text \<open>\<open>a\<close> occurs in \<open>xs\<close> at a smaller position than \<open>b\<close>.\<close>

definition precedes :: "'a list \<Rightarrow> 'a \<Rightarrow> 'a \<Rightarrow> bool" where
  "precedes xs a b \<longleftrightarrow> (\<exists>i j. i < j \<and> j < length xs \<and> xs ! i = a \<and> xs ! j = b)"

definition edge_targets :: "(nat \<times> nat) list \<Rightarrow> nat \<Rightarrow> nat list" where
  "edge_targets es v = map snd (filter (\<lambda>e. fst e = v) es)"

definition edges_within :: "nat \<Rightarrow> (nat \<times> nat) list \<Rightarrow> bool" where
  "edges_within n es \<longleftrightarrow> (\<forall>(u, v) \<in> set es. u < n \<and> v < n)"

definition degrees_of :: "nat \<Rightarrow> nat list \<Rightarrow> nat list" where
  "degrees_of n vs = map (count_list vs) [0..<n]"

lemma length_degrees_of [simp]: "length (degrees_of n vs) = n"
  by (simp add: degrees_of_def)

lemma nth_degrees_of [simp]: "v < n \<Longrightarrow> degrees_of n vs ! v = count_list vs v"
  by (simp add: degrees_of_def)

lemma length_edge_targets: "length (edge_targets es v) = count_list (map fst es) v"
  by (induction es) (auto simp: edge_targets_def)

lemma edge_targets_append [simp]: "edge_targets (es @ fs) v = edge_targets es v @ edge_targets fs v"
  by (simp add: edge_targets_def)

lemma edge_targets_single [simp]: "edge_targets [(a, b)] v = (if a = v then [b] else [])"
  by (simp add: edge_targets_def)

lemma set_edge_targets: "w \<in> set (edge_targets es v) \<longleftrightarrow> (v, w) \<in> set es"
  by (force simp: edge_targets_def)

section \<open>The adjacency arrays\<close>

lemma length_csr_offsets_from [simp]: "length (csr_offsets_from a ds) = length ds + 1"
  by (induction ds arbitrary: a) auto

lemma nth_csr_offsets_from:
  "v \<le> length ds \<Longrightarrow> csr_offsets_from a ds ! v = a + sum_list (take v ds)"
proof (induction ds arbitrary: a v)
  case (Cons d ds)
  then show ?case by (cases v) auto
qed simp

lemma nth_csr_offsets: "v \<le> length ds \<Longrightarrow> csr_offsets ds ! v = sum_list (take v ds)"
  by (simp add: csr_offsets_def nth_csr_offsets_from)

lemma csr_offsets_Suc:
  "v < length ds \<Longrightarrow> csr_offsets ds ! Suc v = csr_offsets ds ! v + ds ! v"
  by (simp add: nth_csr_offsets take_Suc_conv_app_nth)

lemma csr_offsets_mono:
  assumes "v \<le> w" "w \<le> length ds"
  shows "csr_offsets ds ! v \<le> csr_offsets ds ! w"
  using assms
proof (induction w rule: dec_induct)
  case (step m)
  then show ?case by (simp add: csr_offsets_Suc)
qed simp

lemma csr_offsets_le_sum: "v \<le> length ds \<Longrightarrow> csr_offsets ds ! v \<le> sum_list ds"
  using csr_offsets_mono [of v "length ds" ds] by (simp add: nth_csr_offsets)

text \<open>Slots of different nodes do not meet.\<close>

lemma csr_slot_disjoint:
  assumes "v < length ds" "w < length ds" "v \<noteq> w" "k < ds ! v" "m < ds ! w"
  shows "csr_offsets ds ! v + k \<noteq> csr_offsets ds ! w + m"
proof (cases "v < w")
  case True
  then have "csr_offsets ds ! v + ds ! v \<le> csr_offsets ds ! w"
    using csr_offsets_mono [of "Suc v" w ds] assms by (simp add: csr_offsets_Suc)
  then show ?thesis using assms by linarith
next
  case False
  then have "csr_offsets ds ! w + ds ! w \<le> csr_offsets ds ! v"
    using csr_offsets_mono [of "Suc w" v ds] assms by (simp add: csr_offsets_Suc)
  then show ?thesis using assms by linarith
qed

lemma csr_slot_in_range:
  assumes "v < length ds" "k < ds ! v"
  shows "csr_offsets ds ! v + k < sum_list ds"
proof -
  have "csr_offsets ds ! v + ds ! v = csr_offsets ds ! Suc v"
    using assms by (simp add: csr_offsets_Suc)
  also have "\<dots> \<le> sum_list ds" using assms by (intro csr_offsets_le_sum) simp
  finally show ?thesis using assms by linarith
qed

text \<open>
  The state of the fill after the edges \<open>ps\<close>: every cursor has counted the edges of its node, and
  the slots below it hold their targets in order.
\<close>

definition csr_filled :: "nat list \<Rightarrow> (nat \<times> nat) list \<Rightarrow> nat list \<times> nat list \<Rightarrow> bool" where
  "csr_filled ds ps st \<longleftrightarrow>
     length (fst st) = length ds \<and> sum_list ds \<le> length (snd st) \<and>
     (\<forall>v < length ds. fst st ! v = length (edge_targets ps v) \<and>
        (\<forall>k < fst st ! v. snd st ! (csr_offsets ds ! v + k) = edge_targets ps v ! k))"

lemma csr_filled_Nil:
  "m = length ds \<Longrightarrow> sum_list ds \<le> length adj \<Longrightarrow> csr_filled ds [] (replicate m 0, adj)"
  by (simp add: csr_filled_def edge_targets_def)

lemma csr_filled_put:
  assumes filled: "csr_filled ds ps st"
    and u: "u < length ds"
    and room: "length (edge_targets ps u) < ds ! u"
    and bounded: "\<And>v. v < length ds \<Longrightarrow> length (edge_targets ps v) \<le> ds ! v"
  shows "csr_filled ds (ps @ [(u, w)]) (csr_put (csr_offsets ds) (u, w) st)"
proof -
  obtain cur adj where st: "st = (cur, adj)" by (cases st)
  have cur: "length cur = length ds" "\<And>v. v < length ds \<Longrightarrow> cur ! v = length (edge_targets ps v)"
    and adj: "\<And>v k. v < length ds \<Longrightarrow> k < cur ! v \<Longrightarrow>
      adj ! (csr_offsets ds ! v + k) = edge_targets ps v ! k"
    and len: "sum_list ds \<le> length adj"
    using filled by (auto simp: csr_filled_def st)
  let ?slot = "csr_offsets ds ! u + cur ! u"
  have slot: "?slot < length adj"
    using csr_slot_in_range [OF u room] cur(2) [OF u] len by simp
  have other: "adj[?slot := w] ! (csr_offsets ds ! v + k) = adj ! (csr_offsets ds ! v + k)"
    if "v < length ds" "k < cur ! v" for v k
  proof -
    have "?slot \<noteq> csr_offsets ds ! v + k"
    proof (cases "v = u")
      case True with that show ?thesis by simp
    next
      case False
      then show ?thesis
        using csr_slot_disjoint [of u ds v "cur ! u" k] u room that cur bounded [of v] by fastforce
    qed
    then show ?thesis by simp
  qed
  have "(adj[?slot := w]) ! (csr_offsets ds ! v + k) = edge_targets (ps @ [(u, w)]) v ! k"
    if "v < length ds" "k < cur[u := cur ! u + 1] ! v" for v k
  proof (cases "v = u \<and> k = cur ! u")
    case True
    then show ?thesis using slot cur(2) [OF u] by (simp add: nth_append)
  next
    case False
    then have k: "k < cur ! v"
      using that cur(1) u by (cases "v = u") (auto simp: nth_list_update split: if_splits)
    then show ?thesis
      using other [OF that(1) k] adj [OF that(1) k] cur(2) [OF that(1)] by (simp add: nth_append)
  qed
  then show ?thesis
    using cur len u by (auto simp: csr_filled_def st Let_def nth_list_update)
qed

lemma csr_fill:
  assumes "edges_within (length ds) es"
    and "\<And>v. v < length ds \<Longrightarrow> ds ! v = length (edge_targets es v)"
    and "csr_filled ds [] st"
  shows "csr_filled ds es (fold (csr_put (csr_offsets ds)) es st)"
proof -
  have "csr_filled ds ps (fold (csr_put (csr_offsets ds)) ps st)" if "es = ps @ rest" for ps rest
    using that
  proof (induction ps arbitrary: rest rule: rev_induct)
    case Nil
    then show ?case using assms(3) by simp
  next
    case (snoc e ps)
    obtain u w where e: "e = (u, w)" by (cases e)
    have IH: "csr_filled ds ps (fold (csr_put (csr_offsets ds)) ps st)"
      using snoc.IH [of "e # rest"] snoc.prems by simp
    have u: "u < length ds"
      using assms(1) snoc.prems by (auto simp: edges_within_def e)
    have deg: "ds ! v = length (edge_targets ps v) + length (edge_targets ([e] @ rest) v)"
      if "v < length ds" for v
      using assms(2) [OF that] snoc.prems by (simp add: edge_targets_def)
    have "length (edge_targets ps u) < ds ! u"
      using deg [OF u] by (simp add: e edge_targets_def)
    moreover have "length (edge_targets ps v) \<le> ds ! v" if "v < length ds" for v
      using deg [OF that] by simp
    ultimately show ?case using csr_filled_put [OF IH u] by (simp add: e)
  qed
  then show ?thesis by simp
qed

lemma csr_filled_neighbors:
  assumes "csr_filled ds es (cur, adj)" "v < length ds" "ds ! v = length (edge_targets es v)"
  shows "csr_neighbors (csr_offsets ds) adj v = edge_targets es v"
proof (rule nth_equalityI)
  show len: "length (csr_neighbors (csr_offsets ds) adj v) = length (edge_targets es v)"
    using assms by (simp add: csr_neighbors_def csr_offsets_Suc)
  fix k assume "k < length (csr_neighbors (csr_offsets ds) adj v)"
  then show "csr_neighbors (csr_offsets ds) adj v ! k = edge_targets es v ! k"
    using assms len by (simp add: csr_neighbors_def csr_filled_def csr_offsets_Suc)
qed

section \<open>The queue loop\<close>

text \<open>The number of edges into \<open>v\<close> whose source is not in \<open>P\<close>.\<close>

definition open_indegree :: "(nat \<times> nat) list \<Rightarrow> nat set \<Rightarrow> nat \<Rightarrow> nat" where
  "open_indegree es P v = length (filter (\<lambda>e. snd e = v \<and> fst e \<notin> P) es)"

lemma open_indegree_empty: "open_indegree es {} v = count_list (map snd es) v"
  by (induction es) (auto simp: open_indegree_def)

lemma open_indegree_insert:
  "u \<notin> P \<Longrightarrow>
     open_indegree es P v = open_indegree es (insert u P) v + count_list (edge_targets es u) v"
  by (induction es) (auto simp: open_indegree_def edge_targets_def)

lemma open_indegree_zero: "open_indegree es P v = 0 \<longleftrightarrow> (\<forall>u. (u, v) \<in> set es \<longrightarrow> u \<in> P)"
  by (auto simp: open_indegree_def filter_empty_conv)

text \<open>
  The relaxation of a node removes one unit per edge, and queues a neighbour exactly when its last
  unit goes. The test for a zero in-degree never fires on counted degrees.
\<close>

lemma kahn_relax_spec:
  assumes "\<forall>v < n. indeg ! v = a v + count_list vs v" "length indeg = n" "set vs \<subseteq> {..<n}"
    and "distinct q" "set q \<subseteq> {..<n}" "\<forall>v < n. v \<in> set q \<longleftrightarrow> indeg ! v = 0"
    and "kahn_relax vs (indeg, q) = (indeg', q')"
  shows "length indeg' = n \<and> (\<forall>v < n. indeg' ! v = a v) \<and> distinct q' \<and> set q' \<subseteq> {..<n} \<and>
    (\<forall>v < n. v \<in> set q' \<longleftrightarrow> indeg' ! v = 0) \<and> (\<exists>added. q' = q @ added)"
  using assms
proof (induction vs arbitrary: indeg q)
  case Nil
  then show ?case by simp
next
  case (Cons x vs)
  let ?d = "indeg[x := indeg ! x - 1]"
  let ?q = "if ?d ! x = 0 then q @ [x] else q"
  have x: "x < n" "0 < indeg ! x" "x \<notin> set q" using Cons.prems by auto
  have "\<forall>v < n. ?d ! v = a v + count_list vs v"
    using Cons.prems(1,2) x by (auto simp: nth_list_update)
  moreover have "kahn_relax vs (?d, ?q) = (indeg', q')"
    using Cons.prems(7) x by (simp add: Let_def)
  moreover have "\<forall>v < n. v \<in> set ?q \<longleftrightarrow> ?d ! v = 0"
    using Cons.prems(2,6) x by (auto simp: nth_list_update)
  ultimately have "length indeg' = n \<and> (\<forall>v < n. indeg' ! v = a v) \<and> distinct q' \<and>
      set q' \<subseteq> {..<n} \<and> (\<forall>v < n. v \<in> set q' \<longleftrightarrow> indeg' ! v = 0) \<and> (\<exists>added. q' = ?q @ added)"
    using Cons.prems x by (intro Cons.IH) auto
  then show ?case by (auto split: if_splits)
qed

definition kahn_inv :: "nat \<Rightarrow> (nat \<times> nat) list \<Rightarrow> kahn_state \<Rightarrow> bool" where
  "kahn_inv n es s \<longleftrightarrow>
     k_head s \<le> length (k_queue s) \<and> k_order s = take (k_head s) (k_queue s) \<and>
     distinct (k_queue s) \<and> set (k_queue s) \<subseteq> {..<n} \<and> length (k_indegree s) = n \<and>
     (\<forall>v < n. k_indegree s ! v = open_indegree es (set (k_order s)) v) \<and>
     (\<forall>v < n. v \<in> set (k_queue s) \<longleftrightarrow> k_indegree s ! v = 0) \<and>
     (\<forall>j < length (k_queue s). \<forall>u. (u, k_queue s ! j) \<in> set es \<longrightarrow> u \<in> set (take j (k_queue s)))"

lemma kahn_inv_step:
  assumes inv: "kahn_inv n es s" and more: "k_head s < length (k_queue s)"
    and within: "edges_within n es"
    and nbs: "\<And>v. v < n \<Longrightarrow> csr_neighbors offsets adj v = edge_targets es v"
  shows "kahn_inv n es (kahn_step offsets adj s)"
proof -
  let ?q = "k_queue s" and ?h = "k_head s"
  let ?node = "?q ! ?h"
  note I = inv [unfolded kahn_inv_def]
  have node: "?node < n" using I more nth_mem by blast
  have fresh: "?node \<notin> set (k_order s)"
    using I more by (auto simp: in_set_conv_nth nth_eq_iff_index_eq)
  obtain d' q' where relax: "kahn_relax (edge_targets es ?node) (k_indegree s, ?q) = (d', q')"
    by fastforce
  have in_n: "set (edge_targets es ?node) \<subseteq> {..<n}"
    using within by (auto simp: set_edge_targets edges_within_def)
  have "\<forall>v < n. k_indegree s ! v =
      open_indegree es (insert ?node (set (k_order s))) v + count_list (edge_targets es ?node) v"
    using I fresh by (simp add: open_indegree_insert [OF fresh])
  from kahn_relax_spec [OF this _ in_n _ _ _ relax] I
  have d': "length d' = n" "\<forall>v < n. d' ! v = open_indegree es (insert ?node (set (k_order s))) v"
    and q': "distinct q'" "set q' \<subseteq> {..<n}" "\<forall>v < n. v \<in> set q' \<longleftrightarrow> d' ! v = 0"
    and "\<exists>added. q' = ?q @ added"
    by auto
  then obtain added where added: "q' = ?q @ added" by blast
  have order: "k_order s @ [?node] = take (Suc ?h) q'"
    using I more by (simp add: added take_Suc_conv_app_nth)
  have done_set: "set (take (Suc ?h) q') = insert ?node (set (k_order s))"
    by (simp add: order [symmetric])
  have len: "Suc ?h \<le> length q'" using more by (simp add: added)
  have preds: "u \<in> set (take j q')" if j: "j < length q'" and e: "(u, q' ! j) \<in> set es" for j u
  proof (cases "j < length ?q")
    case True
    then show ?thesis using I e by (auto simp: added nth_append)
  next
    case False
    have "q' ! j < n" using q'(2) j nth_mem by blast
    then have "open_indegree es (insert ?node (set (k_order s))) (q' ! j) = 0"
      using q'(3) d'(2) j by auto
    then have "u \<in> set (take (Suc ?h) q')"
      using e by (auto simp: open_indegree_zero order [symmetric])
    then show ?thesis
      using False more set_take_subset_set_take [of "Suc ?h" j q'] by auto
  qed
  have "kahn_step offsets adj s = \<lparr>k_indegree = d', k_queue = q', k_head = Suc ?h,
      k_order = take (Suc ?h) q'\<rparr>"
    by (simp add: kahn_step_def nbs [OF node] relax order)
  then show ?thesis
    using d' q' preds len by (simp add: kahn_inv_def done_set)
qed

text \<open>
  The loop returns: each turn moves the head, and the queue never holds more than the \<open>n\<close> nodes.
\<close>

lemma kahn_loop_returns:
  assumes "kahn_inv n es s" "edges_within n es"
    and "\<And>v. v < n \<Longrightarrow> csr_neighbors offsets adj v = edge_targets es v"
  shows "\<exists>t. kahn_loop offsets adj s = Some t \<and> kahn_inv n es t \<and> k_order t = k_queue t"
proof -
  let ?b = "\<lambda>s. k_head s < length (k_queue s)"
  have bound: "length (k_queue t) \<le> n" if "kahn_inv n es t" for t
    using that subset_eq_atLeast0_lessThan_card distinct_card [of "k_queue t"]
    by (metis card_lessThan card_mono finite_lessThan kahn_inv_def)
  have "\<exists>t. while_option ?b (kahn_step offsets adj) s = Some t"
  proof (rule measure_while_option_Some [where P = "kahn_inv n es" and f = "\<lambda>s. n - k_head s"])
    fix t assume t: "kahn_inv n es t" "?b t"
    then have "kahn_inv n es (kahn_step offsets adj t)" using kahn_inv_step assms by blast
    moreover have "k_head (kahn_step offsets adj t) = Suc (k_head t)"
      by (simp add: kahn_step_def Let_def split: prod.split)
    ultimately show "kahn_inv n es (kahn_step offsets adj t) \<and>
        n - k_head (kahn_step offsets adj t) < n - k_head t"
      using bound [OF t(1)] t(2) by simp
  qed (rule assms(1))
  then obtain t where t: "while_option ?b (kahn_step offsets adj) s = Some t" by blast
  have inv: "kahn_inv n es t"
    by (rule while_option_rule [OF _ t, where P = "kahn_inv n es"])
      (use kahn_inv_step assms in blast)+
  moreover have "k_order t = k_queue t"
    using while_option_stop [OF t] inv by (simp add: kahn_inv_def)
  ultimately show ?thesis using t by (auto simp: kahn_loop_def)
qed

text \<open>A list that puts every source of an edge before its target.\<close>

lemma precedes_index:
  assumes "distinct xs" "v \<in> set xs" "j < length xs" "xs ! j = v" "u \<in> set (take j xs)"
  shows "precedes xs u v"
proof -
  obtain i where "i < j" "xs ! i = u" using assms by (auto simp: in_set_conv_nth)
  then show ?thesis using assms by (auto simp: precedes_def)
qed

lemma topological_acyclic:
  assumes "distinct xs" "\<forall>(u, v) \<in> E. precedes xs u v"
  shows "acyclic E"
proof -
  define pos where "pos = (\<lambda>x. THE i. i < length xs \<and> xs ! i = x)"
  have pos: "pos (xs ! i) = i" if "i < length xs" for i
    unfolding pos_def using that assms(1) by (auto simp: nth_eq_iff_index_eq)
  have "pos u < pos v" if uv: "(u, v) \<in> E" for u v
  proof -
    have "precedes xs u v" using assms(2) uv by blast
    then obtain i j where "i < j" "j < length xs" "u = xs ! i" "v = xs ! j"
      by (auto simp: precedes_def)
    then show ?thesis using pos [of i] pos [of j] by simp
  qed
  then have "E \<subseteq> measure pos" by auto
  then have "wf E" by (rule wf_subset [OF wf_measure])
  then show ?thesis by (rule wf_acyclic)
qed

lemma acyclic_has_source:
  assumes "acyclic E" "finite E" "x \<in> S" "\<forall>v \<in> S. \<exists>u \<in> S. (u, v) \<in> E"
  shows False
proof -
  have "wf E" using assms(1,2) by (rule finite_acyclic_wf [rotated])
  then obtain z where "z \<in> S" "\<forall>y. (y, z) \<in> E \<longrightarrow> y \<notin> S"
    using assms(3) wfE_min by metis
  then show False using assms(4) by blast
qed

lemma kahn_result:
  assumes inv: "kahn_inv n es t" and fin: "k_order t = k_queue t" and within: "edges_within n es"
  shows "distinct (k_order t)" "set (k_order t) \<subseteq> {..<n}"
    and "(u, v) \<in> set es \<Longrightarrow> v \<in> set (k_order t) \<Longrightarrow> precedes (k_order t) u v"
    and "length (k_order t) = n \<longleftrightarrow> acyclic (set es)"
proof -
  note I = inv [unfolded kahn_inv_def fin [symmetric]]
  show d: "distinct (k_order t)" and sub: "set (k_order t) \<subseteq> {..<n}" using I by auto
  show pre: "precedes (k_order t) u v" if e: "(u, v) \<in> set es" and v: "v \<in> set (k_order t)" for u v
  proof -
    obtain j where j: "j < length (k_order t)" "k_order t ! j = v"
      using v by (auto simp: in_set_conv_nth)
    then have "u \<in> set (take j (k_order t))" using I e by blast
    then show ?thesis using precedes_index [OF d v] j by blast
  qed
  have full: "length (k_order t) = n \<longleftrightarrow> set (k_order t) = {..<n}"
    using d sub by (metis card_lessThan card_subset_eq distinct_card finite_lessThan)
  show "length (k_order t) = n \<longleftrightarrow> acyclic (set es)"
  proof
    assume "length (k_order t) = n"
    then have "\<forall>(u, v) \<in> set es. precedes (k_order t) u v"
      using full pre within by (auto simp: edges_within_def)
    with d show "acyclic (set es)" by (rule topological_acyclic)
  next
    assume ac: "acyclic (set es)"
    let ?S = "{..<n} - set (k_order t)"
    have "\<exists>u \<in> ?S. (u, v) \<in> set es" if "v \<in> ?S" for v
    proof -
      have "open_indegree es (set (k_order t)) v \<noteq> 0" using I that by auto
      then show ?thesis using within by (auto simp: open_indegree_zero edges_within_def)
    qed
    then have "?S = {}" using acyclic_has_source [OF ac finite_set, of _ ?S] by (meson equals0I)
    then show "length (k_order t) = n" using full sub by blast
  qed
qed

end
