(* ===== verification/Operator_Plan.thy ===== *)
theory Operator_Plan
  imports Plan_Graph
begin

text \<open>
  The scheduler of \<^verbatim>\<open>core/src/operator.c\<close>: reader lists, hazard edges and
  \<^verbatim>\<open>sim_operator_resolve_plan_with_logger\<close>, which turns the registered operators into an execution
  order. An operator declares explicit dependencies and the fields it reads and writes, as a 64-bit
  mask and as extended index lists. The scan phase derives the read-after-write, write-after-read and
  write-after-write hazards between operators in registration order; the graph phase is in
  \<open>Plan_Graph\<close>. The cycle report of \<^verbatim>\<open>sim_operator_log_cycle\<close> only prints and is left out.
\<close>

unbundle bit_operations_syntax

section \<open>Data\<close>

text \<open>The fields of \<^verbatim>\<open>SimOperator\<close> the scheduler reads; the counts are the lengths of the lists.\<close>

record SimOperator =
  op_name :: string
  op_guid :: u64
  op_dependencies :: "nat list"
  op_read_mask :: u64
  op_write_mask :: u64
  op_read_indices :: "nat list"
  op_write_indices :: "nat list"

text \<open>\<^verbatim>\<open>SimOperatorPlan\<close>: \<open>order\<close> is empty where the pointer is \<^verbatim>\<open>NULL\<close>.\<close>

record SimOperatorPlan =
  plan_order :: "nat list"
  plan_count :: nat

record SimHazardEdge =
  hz_from :: nat
  hz_to :: nat
  hz_from_guid :: u64
  hz_to_guid :: u64

record SimReaderList =
  rl_indices :: "nat list"
  rl_capacity :: nat

text \<open>The locals of the resolver that the scan over the operators changes.\<close>

record plan_scan =
  s_indegree :: "nat list"
  s_out_degree :: "nat list"
  s_total_edges :: nat
  s_hazards :: "SimHazardEdge list"
  s_hazard_capacity :: nat
  s_readers :: "SimReaderList list"
  s_last_writer :: "nat list"

text \<open>The value \<^verbatim>\<open>(size_t) (-1)\<close> that marks a field without a writer.\<close>

definition no_writer :: nat where
  "no_writer = 2 ^ 64 - 1"

section \<open>Bit masks\<close>

definition ctzll :: "u64 \<Rightarrow> nat" where
  "ctzll w = length (takeWhile (\<lambda>i. \<not> bit w i) [0..<64])"

definition clzll :: "u64 \<Rightarrow> nat" where
  "clzll w = length (takeWhile (\<lambda>i. \<not> bit w (63 - i)) [0..<64])"

lemma ctzll_bit:
  assumes "w \<noteq> 0"
  shows "ctzll w < 64" "bit w (ctzll w)" "i < ctzll w \<Longrightarrow> \<not> bit w i"
proof -
  obtain k where k: "k < 64" "bit w k"
    using assms bit_word_eqI [of w 0] by auto
  let ?xs = "[0..<64]" and ?P = "\<lambda>i. \<not> bit w i"
  have lt: "length (takeWhile ?P ?xs) < length ?xs"
    using k takeWhile_eq_all_conv [of ?P ?xs] length_takeWhile_le [of ?P ?xs]
    by (metis (no_types, lifting) atLeast_upt lessThan_iff nat_less_le takeWhile_eq_take take_all_iff)
  then show c: "ctzll w < 64" by (simp add: ctzll_def)
  show "bit w (ctzll w)"
    using nth_length_takeWhile [OF lt] c by (simp add: ctzll_def)
  show "\<not> bit w i" if "i < ctzll w"
    using that c set_takeWhileD [of i ?P ?xs] nth_mem [of i "takeWhile ?P ?xs"]
    by (metis add.left_neutral ctzll_def nth_upt order.strict_trans takeWhile_nth)
qed

lemma bit_clear_lowest: "bit (w AND NOT (2 ^ b)) i \<longleftrightarrow> bit w i \<and> i \<noteq> b" for w :: u64
  by (auto simp: bit_simps dest: bit_imp_le_length)

lemma clear_lowest_less:
  fixes w :: u64
  assumes "bit w b"
  shows "w AND NOT (2 ^ b) < w"
proof -
  have "w AND NOT (2 ^ b) \<le> w"
    by (simp add: word_and_le2)
  moreover have "w AND NOT (2 ^ b) \<noteq> w"
    using assms bit_clear_lowest [of w b b] by metis
  ultimately show ?thesis by simp
qed

text \<open>The loop \<^verbatim>\<open>while (mask != 0) { bit = ctz(mask); mask &= ~(1 << bit); ... }\<close>.\<close>

function mask_fields :: "u64 \<Rightarrow> nat list" where
  "mask_fields w =
     (if w = 0 then []
      else ctzll w # mask_fields (w AND NOT (push_bit (ctzll w) 1)))"
  by pat_completeness auto
termination
  by (relation "measure unat")
    (simp_all add: word_less_nat_alt [symmetric] clear_lowest_less ctzll_bit)

declare mask_fields.simps [simp del]

lemma set_mask_fields: "set (mask_fields w) = {f. bit w f}"
proof (induction w rule: mask_fields.induct)
  case (1 w)
  show ?case
  proof (cases "w = 0")
    case True
    then show ?thesis by (simp add: mask_fields.simps)
  next
    case False
    then have "set (mask_fields w) = insert (ctzll w) {f. bit w f \<and> f \<noteq> ctzll w}"
      using 1 by (simp add: mask_fields.simps [of w] bit_clear_lowest)
    then show ?thesis using ctzll_bit(2) [OF False] by auto
  qed
qed

section \<open>Reader lists and hazard edges\<close>

definition sim_reader_list_append :: "heap \<Rightarrow> SimReaderList \<Rightarrow> nat \<Rightarrow> SimReaderList option" where
  "sim_reader_list_append h l v =
     (if length (rl_indices l) = rl_capacity l then
        let new_capacity = (if rl_capacity l = 0 then 4 else rl_capacity l * 2)
        in if malloc_ok h (new_capacity * 8)
           then Some \<lparr>rl_indices = rl_indices l @ [v], rl_capacity = new_capacity\<rparr>
           else None
      else Some (l\<lparr>rl_indices := rl_indices l @ [v]\<rparr>))"

definition operator_guid :: "SimOperator list \<Rightarrow> nat \<Rightarrow> u64" where
  "operator_guid ops i = (if i < length ops then op_guid (ops ! i) else 0)"

definition sim_hazard_append ::
  "heap \<Rightarrow> SimOperator list \<Rightarrow> nat \<Rightarrow> nat \<Rightarrow> plan_scan \<Rightarrow> plan_scan option" where
  "sim_hazard_append h ops from to st =
     (let new_capacity =
            (if s_hazard_capacity st = 0 then 8 else s_hazard_capacity st * 2);
          edge = \<lparr>hz_from = from, hz_to = to, hz_from_guid = operator_guid ops from,
                  hz_to_guid = operator_guid ops to\<rparr>
      in if length (s_hazards st) = s_hazard_capacity st then
           (if malloc_ok h (new_capacity * 32)
            then Some (st\<lparr>s_hazards := s_hazards st @ [edge], s_hazard_capacity := new_capacity\<rparr>)
            else None)
         else Some (st\<lparr>s_hazards := s_hazards st @ [edge]\<rparr>))"

definition sim_hazard_contains :: "SimHazardEdge list \<Rightarrow> nat \<Rightarrow> nat \<Rightarrow> bool" where
  "sim_hazard_contains edges from to = list_ex (\<lambda>e. hz_from e = from \<and> hz_to e = to) edges"

definition sim_resolve_add_hazard ::
  "heap \<Rightarrow> SimOperator list \<Rightarrow> nat \<Rightarrow> nat \<Rightarrow> plan_scan \<Rightarrow> plan_scan option" where
  "sim_resolve_add_hazard h ops from to st =
     (if from = no_writer \<or> to = no_writer \<or> from = to then Some st
      else if from \<in> set (op_dependencies (ops ! to)) then Some st
      else if sim_hazard_contains (s_hazards st) from to then Some st
      else case sim_hazard_append h ops from to st of
             None \<Rightarrow> None
           | Some st' \<Rightarrow>
               Some (st'\<lparr>s_indegree := (s_indegree st')[to := s_indegree st' ! to + 1],
                         s_out_degree := (s_out_degree st')[from := s_out_degree st' ! from + 1],
                         s_total_edges := s_total_edges st' + 1\<rparr>))"

section \<open>The scan over the operators\<close>

text \<open>
  The running maximum \<^verbatim>\<open>max_field\<close>, with \<open>None\<close> for \<^verbatim>\<open>!have_fields\<close>, and the fields of one operator:
  the highest bit of its masks and the entries of its index lists.
\<close>

definition raise_field :: "nat \<Rightarrow> nat option \<Rightarrow> nat option" where
  "raise_field field bound =
     (case bound of None \<Rightarrow> Some field | Some m \<Rightarrow> Some (if field > m then field else m))"

definition operator_field_bound :: "SimOperator \<Rightarrow> nat option \<Rightarrow> nat option" where
  "operator_field_bound op bound =
     (let fields = op_read_mask op OR op_write_mask op;
          bound = (if fields \<noteq> 0 then raise_field (63 - clzll fields) bound else bound);
          bound = fold raise_field (op_read_indices op) bound
      in fold raise_field (op_write_indices op) bound)"

text \<open>\<^verbatim>\<open>field_slots\<close>: one more than the highest field, reduced to a \<^verbatim>\<open>size_t\<close>; zero without fields.\<close>

definition plan_field_slots :: "SimOperator list \<Rightarrow> nat" where
  "plan_field_slots ops =
     (case fold operator_field_bound ops None of
        None \<Rightarrow> 0
      | Some max_field \<Rightarrow> (max_field + 1) mod 2 ^ 64)"

text \<open>The body of the two read loops, for one field; \<open>seen\<close> is bit 0 of the source's array.\<close>

definition scan_read ::
  "heap \<Rightarrow> SimOperator list \<Rightarrow> nat \<Rightarrow> nat \<Rightarrow> nat \<Rightarrow> bool list \<times> plan_scan \<Rightarrow>
   (bool list \<times> plan_scan) option" where
  "scan_read h ops field_slots i field = (\<lambda>(seen, st).
     if field < field_slots \<and> \<not> seen ! field then
       (let seen' = seen[field := True]
        in case (if s_last_writer st ! field \<noteq> no_writer
                 then sim_resolve_add_hazard h ops (s_last_writer st ! field) i st
                 else Some st) of
             None \<Rightarrow> None
           | Some st' \<Rightarrow>
               (case sim_reader_list_append h (s_readers st' ! field) i of
                  None \<Rightarrow> None
                | Some l \<Rightarrow> Some (seen', st'\<lparr>s_readers := (s_readers st')[field := l]\<rparr>)))
     else Some (seen, st))"

text \<open>The body of the two write loops; \<open>seen\<close> is bit 1 of the source's array.\<close>

definition scan_write ::
  "heap \<Rightarrow> SimOperator list \<Rightarrow> nat \<Rightarrow> nat \<Rightarrow> nat \<Rightarrow> bool list \<times> plan_scan \<Rightarrow>
   (bool list \<times> plan_scan) option" where
  "scan_write h ops field_slots i field = (\<lambda>(seen, st).
     if field < field_slots \<and> \<not> seen ! field then
       (let seen' = seen[field := True]
        in case (if s_last_writer st ! field \<noteq> no_writer
                 then sim_resolve_add_hazard h ops (s_last_writer st ! field) i st
                 else Some st) of
             None \<Rightarrow> None
           | Some st' \<Rightarrow>
               (case fold_option (\<lambda>r. sim_resolve_add_hazard h ops r i)
                       (rl_indices (s_readers st' ! field)) st' of
                  None \<Rightarrow> None
                | Some st'' \<Rightarrow>
                    Some (seen',
                          st''\<lparr>s_readers := (s_readers st'')
                                 [field := (s_readers st'' ! field)\<lparr>rl_indices := []\<rparr>],
                               s_last_writer := (s_last_writer st'')[field := i]\<rparr>)))
     else Some (seen, st))"

definition scan_dependency :: "nat \<Rightarrow> nat \<Rightarrow> nat \<Rightarrow> plan_scan \<Rightarrow> SimResult + plan_scan" where
  "scan_dependency n i dep st =
     (if dep \<ge> n then Inl SIM_RESULT_INVALID_ARGUMENT
      else Inr (st\<lparr>s_indegree := (s_indegree st)[i := s_indegree st ! i + 1],
                   s_out_degree := (s_out_degree st)[dep := s_out_degree st ! dep + 1],
                   s_total_edges := s_total_edges st + 1\<rparr>))"

definition scan_fields ::
  "heap \<Rightarrow> SimOperator list \<Rightarrow> nat \<Rightarrow> nat \<Rightarrow> plan_scan \<Rightarrow> plan_scan option" where
  "scan_fields h ops field_slots i st =
     (let op = ops ! i; unseen = replicate field_slots False in
      case fold_option (scan_read h ops field_slots i) (mask_fields (op_read_mask op)) (unseen, st) of
        None \<Rightarrow> None
      | Some (seen, st) \<Rightarrow>
      (case fold_option (scan_read h ops field_slots i) (op_read_indices op) (seen, st) of
        None \<Rightarrow> None
      | Some (_, st) \<Rightarrow>
      (case fold_option (scan_write h ops field_slots i) (mask_fields (op_write_mask op)) (unseen, st) of
        None \<Rightarrow> None
      | Some (seen, st) \<Rightarrow>
      (case fold_option (scan_write h ops field_slots i) (op_write_indices op) (seen, st) of
        None \<Rightarrow> None
      | Some (_, st) \<Rightarrow> Some st))))"

definition scan_operator ::
  "heap \<Rightarrow> SimOperator list \<Rightarrow> nat \<Rightarrow> nat \<Rightarrow> plan_scan \<Rightarrow> SimResult + plan_scan" where
  "scan_operator h ops field_slots i st =
     (let op = ops ! i in
      case fold_sum (scan_dependency (length ops) i) (op_dependencies op) st of
        Inl e \<Rightarrow> Inl e
      | Inr st \<Rightarrow>
          if field_slots > 0 \<and> (op_read_mask op \<noteq> 0 \<or> op_write_mask op \<noteq> 0 \<or>
               op_read_indices op \<noteq> [] \<or> op_write_indices op \<noteq> []) then
            (if \<not> calloc_ok h field_slots 1 then Inl SIM_RESULT_OUT_OF_MEMORY
             else case scan_fields h ops field_slots i st of
                    None \<Rightarrow> Inl SIM_RESULT_OUT_OF_MEMORY
                  | Some st \<Rightarrow> Inr st)
          else Inr st)"

definition scan_init :: "nat \<Rightarrow> nat \<Rightarrow> plan_scan" where
  "scan_init n field_slots =
     \<lparr>s_indegree = replicate n 0, s_out_degree = replicate n 0, s_total_edges = 0,
      s_hazards = [], s_hazard_capacity = (if n > 0 then n * 4 else 1),
      s_readers = replicate field_slots \<lparr>rl_indices = [], rl_capacity = 0\<rparr>,
      s_last_writer = replicate field_slots no_writer\<rparr>"

section \<open>The resolver\<close>

definition fill_dependencies ::
  "SimOperator list \<Rightarrow> nat list \<Rightarrow> nat list \<times> nat list \<Rightarrow> nat list \<times> nat list" where
  "fill_dependencies ops offsets =
     fold (\<lambda>i. fold (\<lambda>dep. csr_put offsets (dep, i)) (op_dependencies (ops ! i))) [0..<length ops]"

definition fill_hazards ::
  "nat \<Rightarrow> SimHazardEdge list \<Rightarrow> nat list \<Rightarrow> nat list \<times> nat list \<Rightarrow> nat list \<times> nat list" where
  "fill_hazards n hazards offsets =
     fold (\<lambda>e st. if hz_from e \<ge> n \<or> hz_to e \<ge> n then st
                  else csr_put offsets (hz_from e, hz_to e) st) hazards"

definition plan_emit :: "SimOperator list \<Rightarrow> plan_scan \<Rightarrow> (SimResult + nat list) option" where
  "plan_emit ops st =
     (let n = length ops;
          offsets = csr_offsets (s_out_degree st);
          arrays = (replicate n 0, replicate (if s_total_edges st > 0 then s_total_edges st else 1) 0);
          (cursor, adjacency) =
            fill_hazards n (s_hazards st) offsets (fill_dependencies ops offsets arrays);
          queue = filter (\<lambda>i. s_indegree st ! i = 0) [0..<n]
      in case kahn_loop offsets adjacency
                \<lparr>k_indegree = s_indegree st, k_queue = queue, k_head = 0, k_order = []\<rparr> of
           None \<Rightarrow> None
         | Some t \<Rightarrow>
             Some (if length (k_order t) \<noteq> n then Inl SIM_RESULT_DEPENDENCY_ERROR
                   else Inr (k_order t)))"

definition resolve_order :: "heap \<Rightarrow> SimOperator list \<Rightarrow> (SimResult + nat list) option" where
  "resolve_order h ops =
     (let n = length ops; field_slots = plan_field_slots ops in
      if \<not> calloc_ok h n 8 then Some (Inl SIM_RESULT_OUT_OF_MEMORY)
      else if fold operator_field_bound ops None \<noteq> None \<and>
              \<not> (calloc_ok h field_slots 24 \<and> malloc_ok h (field_slots * 8))
        then Some (Inl SIM_RESULT_OUT_OF_MEMORY)
      else if \<not> calloc_ok h (n * 4) 32 then Some (Inl SIM_RESULT_OUT_OF_MEMORY)
      else case fold_sum (scan_operator h ops field_slots) [0..<n] (scan_init n field_slots) of
             Inl e \<Rightarrow> Some (Inl e)
           | Inr st \<Rightarrow>
               if \<not> (calloc_ok h (n + 1) 8 \<and> calloc_ok h n 8 \<and>
                     calloc_ok h (if s_total_edges st > 0 then s_total_edges st else 1) 8)
               then Some (Inl SIM_RESULT_OUT_OF_MEMORY)
               else plan_emit ops st)"

definition sim_operator_plan_reset :: "SimOperatorPlan \<Rightarrow> SimOperatorPlan" where
  "sim_operator_plan_reset plan = plan\<lparr>plan_order := [], plan_count := 0\<rparr>"

text \<open>
  The whole resolver: the result code and the plan it leaves behind. The outer \<open>option\<close> is \<open>None\<close>
  where the queue loop would not return.
\<close>

definition sim_operator_resolve_plan ::
  "heap \<Rightarrow> SimOperator list option \<Rightarrow> SimOperatorPlan option \<Rightarrow>
   (SimResult \<times> SimOperatorPlan option) option" where
  "sim_operator_resolve_plan h registry plan =
     (case (registry, plan) of
        (Some ops, Some p) \<Rightarrow>
          (let p = sim_operator_plan_reset p in
           if length ops = 0 then Some (SIM_RESULT_OK, Some p)
           else case resolve_order h ops of
                  None \<Rightarrow> None
                | Some (Inl e) \<Rightarrow> Some (e, Some (sim_operator_plan_reset p))
                | Some (Inr order) \<Rightarrow>
                    Some (SIM_RESULT_OK, Some (p\<lparr>plan_order := order, plan_count := length ops\<rparr>)))
      | _ \<Rightarrow> Some (SIM_RESULT_INVALID_ARGUMENT, plan))"

end
