(* ===== verification/Plan_Correct.thy ===== *)
theory Plan_Correct
  imports Operator_Plan "HOL-Library.Multiset"
begin

text \<open>
  Correctness of the operator scheduler. The order constraints an operator list imposes are stated
  declaratively (\<open>depends\<close>, \<open>conflict\<close>); the scan's edge set is proved to generate exactly their
  transitive closure, so that the resolver succeeds exactly when the constraints are acyclic, and its
  plan is a permutation of the operators that obeys every constraint.
\<close>

section \<open>What a plan must obey\<close>

definition reads_field :: "SimOperator \<Rightarrow> nat \<Rightarrow> bool" where
  "reads_field op f \<longleftrightarrow> bit (op_read_mask op) f \<or> f \<in> set (op_read_indices op)"

definition writes_field :: "SimOperator \<Rightarrow> nat \<Rightarrow> bool" where
  "writes_field op f \<longleftrightarrow> bit (op_write_mask op) f \<or> f \<in> set (op_write_indices op)"

text \<open>Operator \<open>j\<close> names operator \<open>i\<close> as a dependency.\<close>

definition depends :: "SimOperator list \<Rightarrow> (nat \<times> nat) set" where
  "depends ops = {(i, j). j < length ops \<and> i \<in> set (op_dependencies (ops ! j))}"

text \<open>Operators \<open>i < j\<close> touch a common field and one of them writes it.\<close>

definition conflict :: "SimOperator list \<Rightarrow> (nat \<times> nat) set" where
  "conflict ops = {(i, j). i < j \<and> j < length ops \<and>
     (\<exists>f. (writes_field (ops ! i) f \<and> reads_field (ops ! j) f) \<or>
          (reads_field (ops ! i) f \<and> writes_field (ops ! j) f) \<or>
          (writes_field (ops ! i) f \<and> writes_field (ops ! j) f))}"

text \<open>The registry's counts and field indices fit their \<^verbatim>\<open>size_t\<close>, short of the reserved value.\<close>

definition registry_fits :: "SimOperator list \<Rightarrow> bool" where
  "registry_fits ops \<longleftrightarrow> length ops < no_writer \<and>
     (\<forall>op \<in> set ops. (\<forall>f \<in> set (op_read_indices op). f < no_writer) \<and>
                     (\<forall>f \<in> set (op_write_indices op). f < no_writer))"

definition dependencies_known :: "SimOperator list \<Rightarrow> bool" where
  "dependencies_known ops \<longleftrightarrow> (\<forall>op \<in> set ops. \<forall>d \<in> set (op_dependencies op). d < length ops)"

section \<open>The edges the scan has recorded\<close>

definition dep_edges :: "SimOperator list \<Rightarrow> nat \<Rightarrow> (nat \<times> nat) list" where
  "dep_edges ops k = concat (map (\<lambda>i. map (\<lambda>d. (d, i)) (op_dependencies (ops ! i))) [0..<k])"

definition hazard_pairs :: "plan_scan \<Rightarrow> (nat \<times> nat) list" where
  "hazard_pairs st = map (\<lambda>e. (hz_from e, hz_to e)) (s_hazards st)"

definition counted :: "nat \<Rightarrow> (nat \<times> nat) list \<Rightarrow> plan_scan \<Rightarrow> bool" where
  "counted n es st \<longleftrightarrow> edges_within n es \<and> s_indegree st = degrees_of n (map snd es) \<and>
     s_out_degree st = degrees_of n (map fst es) \<and> s_total_edges st = length es"

lemma degrees_of_snoc:
  "v < n \<Longrightarrow> degrees_of n (vs @ [v]) = (degrees_of n vs)[v := degrees_of n vs ! v + 1]"
  by (rule nth_equalityI) (auto simp: nth_list_update)

lemma degrees_of_perm: "mset vs = mset ws \<Longrightarrow> degrees_of n vs = degrees_of n ws"
  by (simp add: degrees_of_def count_mset [symmetric])

lemma counted_snoc:
  assumes "counted n es st" "u < n" "v < n"
  shows "counted n (es @ [(u, v)])
    (st\<lparr>s_indegree := (s_indegree st)[v := s_indegree st ! v + 1],
         s_out_degree := (s_out_degree st)[u := s_out_degree st ! u + 1],
         s_total_edges := s_total_edges st + 1\<rparr>)"
  using assms degrees_of_snoc [of v n "map snd es"] degrees_of_snoc [of u n "map fst es"]
  by (auto simp: counted_def edges_within_def)

lemma counted_cong:
  assumes "counted n es st" "s_indegree st' = s_indegree st" "s_out_degree st' = s_out_degree st"
    and "s_total_edges st' = s_total_edges st"
  shows "counted n es st'"
  using assms by (simp add: counted_def)

lemma counted_perm: "counted n es st \<Longrightarrow> mset es = mset fs \<Longrightarrow> counted n fs st"
  using degrees_of_perm [of "map snd es" "map snd fs" n] degrees_of_perm [of "map fst es" "map fst fs" n]
    mset_eq_setD [of es fs] mset_eq_length [of es fs]
  by (simp add: counted_def edges_within_def mset_map)

lemma dep_edges_Suc:
  "dep_edges ops (Suc i) = dep_edges ops i @ map (\<lambda>d. (d, i)) (op_dependencies (ops ! i))"
  by (simp add: dep_edges_def)

lemma set_dep_edges_all: "set (dep_edges ops (length ops)) = depends ops"
  by (force simp: dep_edges_def depends_def)

subsection \<open>Explicit dependencies\<close>

lemma scan_dependencies:
  assumes "i < n" "counted n es st"
  shows "case fold_sum (scan_dependency n i) ds st of
      Inl e \<Rightarrow> e = SIM_RESULT_INVALID_ARGUMENT \<and> (\<exists>d \<in> set ds. n \<le> d)
    | Inr st' \<Rightarrow> (\<forall>d \<in> set ds. d < n) \<and> counted n (es @ map (\<lambda>d. (d, i)) ds) st' \<and>
        s_hazards st' = s_hazards st \<and> s_readers st' = s_readers st \<and>
        s_last_writer st' = s_last_writer st"
  using assms(2)
proof (induction ds arbitrary: es st)
  case Nil
  then show ?case by simp
next
  case (Cons d ds)
  show ?case
  proof (cases "d < n")
    case False
    then show ?thesis by (auto simp: scan_dependency_def)
  next
    case True
    let ?st = "st\<lparr>s_indegree := (s_indegree st)[i := s_indegree st ! i + 1],
                   s_out_degree := (s_out_degree st)[d := s_out_degree st ! d + 1],
                   s_total_edges := s_total_edges st + 1\<rparr>"
    have "counted n (es @ [(d, i)]) ?st"
      by (rule counted_snoc [OF Cons.prems True assms(1)])
    from Cons.IH [OF this] show ?thesis
      using True by (auto simp: scan_dependency_def not_le split: sum.splits)
  qed
qed

subsection \<open>Hazard edges\<close>

text \<open>What is preserved between two scan states when only hazard edges are added.\<close>

definition hazards_grow :: "plan_scan \<Rightarrow> plan_scan \<Rightarrow> bool" where
  "hazards_grow st st' \<longleftrightarrow> s_readers st' = s_readers st \<and> s_last_writer st' = s_last_writer st \<and>
     set (hazard_pairs st) \<subseteq> set (hazard_pairs st')"

lemma hazards_grow_refl [simp]: "hazards_grow st st"
  by (simp add: hazards_grow_def)

lemma hazards_grow_trans: "hazards_grow a b \<Longrightarrow> hazards_grow b c \<Longrightarrow> hazards_grow a c"
  by (auto simp: hazards_grow_def)

lemma sim_hazard_append_cases:
  assumes "sim_hazard_append h ops from to st = Some st'"
  shows "hazard_pairs st' = hazard_pairs st @ [(from, to)]"
    and "s_readers st' = s_readers st" "s_last_writer st' = s_last_writer st"
    and "s_indegree st' = s_indegree st" "s_out_degree st' = s_out_degree st"
    and "s_total_edges st' = s_total_edges st"
  using assms by (auto simp: sim_hazard_append_def hazard_pairs_def Let_def split: if_splits)

lemma sim_hazard_contains_iff:
  "sim_hazard_contains (s_hazards st) from to \<longleftrightarrow> (from, to) \<in> set (hazard_pairs st)"
  by (auto simp: sim_hazard_contains_def hazard_pairs_def list_ex_iff)

text \<open>
  Adding a hazard between two different operators: afterwards the edge is there, as an explicit
  dependency or as a hazard, the degrees count it once, and the only new pair is the requested one.
\<close>

lemma add_hazard_spec:
  assumes "sim_resolve_add_hazard h ops from to st = Some st'"
    and "counted n (ds @ hazard_pairs st) st" "from < n" "to < n" "n < no_writer"
    and "\<forall>d \<in> set (op_dependencies (ops ! to)). (d, to) \<in> set ds"
  shows "counted n (ds @ hazard_pairs st') st'" and "hazards_grow st st'"
    and "from \<noteq> to \<Longrightarrow> (from, to) \<in> set (ds @ hazard_pairs st')"
    and "set (hazard_pairs st') \<subseteq> insert (from, to) (set (hazard_pairs st))"
    and "from = to \<Longrightarrow> st' = st"
proof -
  consider (skip) "st' = st" "from = to \<or> (from, to) \<in> set (ds @ hazard_pairs st)"
    | (new) st1 where "sim_hazard_append h ops from to st = Some st1" "from \<noteq> to"
        "st' = st1\<lparr>s_indegree := (s_indegree st1)[to := s_indegree st1 ! to + 1],
                   s_out_degree := (s_out_degree st1)[from := s_out_degree st1 ! from + 1],
                   s_total_edges := s_total_edges st1 + 1\<rparr>"
    using assms(1,3-6)
    by (auto simp: sim_resolve_add_hazard_def sim_hazard_contains_iff split: if_splits option.splits)
  then have "counted n (ds @ hazard_pairs st') st' \<and> hazards_grow st st' \<and>
    (from \<noteq> to \<longrightarrow> (from, to) \<in> set (ds @ hazard_pairs st')) \<and>
    set (hazard_pairs st') \<subseteq> insert (from, to) (set (hazard_pairs st)) \<and> (from = to \<longrightarrow> st' = st)"
  proof cases
    case skip
    then show ?thesis using assms(2) by auto
  next
    case new
    note a = sim_hazard_append_cases [OF new(1)]
    have hp: "hazard_pairs st' = hazard_pairs st @ [(from, to)]"
      using a(1) by (simp add: new(3) hazard_pairs_def)
    have "counted n ((ds @ hazard_pairs st) @ [(from, to)]) st'"
      using counted_snoc [OF counted_cong [OF assms(2) a(4-6)] assms(3,4)] by (simp add: new(3))
    moreover have "hazards_grow st st'"
      using a(2,3) by (auto simp: hazards_grow_def hp) (simp_all add: new(3))
    ultimately show ?thesis using new(2) by (auto simp: hp)
  qed
  then show "counted n (ds @ hazard_pairs st') st'" "hazards_grow st st'"
    "from \<noteq> to \<Longrightarrow> (from, to) \<in> set (ds @ hazard_pairs st')"
    "set (hazard_pairs st') \<subseteq> insert (from, to) (set (hazard_pairs st))"
    "from = to \<Longrightarrow> st' = st"
    by auto
qed

subsection \<open>Writers and readers of a field\<close>

text \<open>
  \<open>Rd\<close> and \<open>Wr\<close> are the accesses (operator, field) the scan has seen. The last writer of a field comes
  after every other writer; a reader is either still listed or before the last writer; and any two
  conflicting accesses seen so far are joined by a path.
\<close>

definition reaches :: "(nat \<times> nat) set \<Rightarrow> nat \<Rightarrow> nat \<Rightarrow> bool" where
  "reaches E i j \<longleftrightarrow> i = j \<or> (i, j) \<in> E\<^sup>+"

definition field_inv ::
  "nat \<Rightarrow> (nat \<times> nat) set \<Rightarrow> (nat \<times> nat) set \<Rightarrow> (nat \<times> nat) set \<Rightarrow> plan_scan \<Rightarrow> bool" where
  "field_inv slots E Rd Wr st \<longleftrightarrow>
     length (s_readers st) = slots \<and> length (s_last_writer st) = slots \<and>
     (\<forall>f < slots.
        (s_last_writer st ! f = no_writer \<longrightarrow> (\<forall>i. (i, f) \<notin> Wr)) \<and>
        (s_last_writer st ! f \<noteq> no_writer \<longrightarrow>
           (s_last_writer st ! f, f) \<in> Wr \<and>
           (\<forall>i. (i, f) \<in> Wr \<longrightarrow> reaches E i (s_last_writer st ! f))) \<and>
        (\<forall>r \<in> set (rl_indices (s_readers st ! f)). (r, f) \<in> Rd) \<and>
        (\<forall>i. (i, f) \<in> Rd \<longrightarrow> i \<in> set (rl_indices (s_readers st ! f)) \<or>
           s_last_writer st ! f \<noteq> no_writer \<and> reaches E i (s_last_writer st ! f)))"

definition accesses_ordered ::
  "(nat \<times> nat) set \<Rightarrow> (nat \<times> nat) set \<Rightarrow> (nat \<times> nat) set \<Rightarrow> bool" where
  "accesses_ordered E Rd Wr \<longleftrightarrow> (\<forall>i j f. i < j \<longrightarrow>
     ((i, f) \<in> Wr \<and> (j, f) \<in> Rd \<union> Wr \<or> (i, f) \<in> Rd \<and> (j, f) \<in> Wr) \<longrightarrow> (i, j) \<in> E\<^sup>+)"

lemma reaches_mono: "reaches E i j \<Longrightarrow> E \<subseteq> E' \<Longrightarrow> reaches E' i j"
  by (auto simp: reaches_def intro: trancl_mono)

lemma reaches_edge: "reaches E i j \<Longrightarrow> (j, k) \<in> E \<Longrightarrow> (i, k) \<in> E\<^sup>+"
  by (auto simp: reaches_def intro: trancl.trancl_into_trancl)

lemma accesses_ordered_mono: "accesses_ordered E Rd Wr \<Longrightarrow> E \<subseteq> E' \<Longrightarrow> accesses_ordered E' Rd Wr"
  unfolding accesses_ordered_def by (meson trancl_mono)

lemma field_inv_mono:
  assumes "field_inv slots E Rd Wr st" "E \<subseteq> E'" "s_readers st' = s_readers st"
    and "s_last_writer st' = s_last_writer st"
  shows "field_inv slots E' Rd Wr st'"
  using assms reaches_mono [OF _ assms(2)] unfolding field_inv_def by fastforce

text \<open>Recording a read of \<open>f\<close> by \<open>i\<close>, once the edge from the last writer is there.\<close>

lemma field_inv_read:
  assumes "field_inv slots E Rd Wr st" "f < slots"
    and "rl_indices l = rl_indices (s_readers st ! f) @ [i]"
  shows "field_inv slots E (insert (i, f) Rd) Wr (st\<lparr>s_readers := (s_readers st)[f := l]\<rparr>)"
  using assms unfolding field_inv_def by (auto simp: nth_list_update)

lemma accesses_ordered_read:
  assumes "field_inv slots E Rd Wr st" "accesses_ordered E Rd Wr" "f < slots"
    and "s_last_writer st ! f \<noteq> no_writer \<Longrightarrow> (s_last_writer st ! f, i) \<in> E"
    and "\<And>j g. (j, g) \<in> Rd \<union> Wr \<Longrightarrow> j \<le> i" "(i, f) \<notin> Wr"
  shows "accesses_ordered E (insert (i, f) Rd) Wr"
proof -
  have "(j, i) \<in> E\<^sup>+" if "(j, f) \<in> Wr" for j
  proof -
    have "s_last_writer st ! f \<noteq> no_writer" "reaches E j (s_last_writer st ! f)"
      using assms(1,3) that by (auto simp: field_inv_def)
    then show ?thesis using assms(4) reaches_edge by blast
  qed
  moreover have "\<not> i < b" if "(b, g) \<in> Wr" for b g
    using assms(5) [of b g] that by auto
  ultimately show ?thesis using assms(2) unfolding accesses_ordered_def by blast
qed

text \<open>Recording a write of \<open>f\<close> by \<open>i\<close>, once the edges from last writer and readers are there.\<close>

lemma write_after_access:
  assumes "field_inv slots E Rd Wr st" "f < slots"
    and "s_last_writer st ! f \<noteq> no_writer \<Longrightarrow> (s_last_writer st ! f, i) \<in> E"
    and "\<And>r. r \<in> set (rl_indices (s_readers st ! f)) \<Longrightarrow> r \<noteq> i \<Longrightarrow> (r, i) \<in> E"
    and "(j, f) \<in> Rd \<union> Wr" "j \<noteq> i"
  shows "(j, i) \<in> E\<^sup>+"
proof -
  have "j \<in> set (rl_indices (s_readers st ! f)) \<or>
      s_last_writer st ! f \<noteq> no_writer \<and> reaches E j (s_last_writer st ! f)"
    using assms(1,2,5) by (auto simp: field_inv_def)
  then show ?thesis using assms(3,4,6) reaches_edge by blast
qed

lemma field_inv_write:
  assumes "field_inv slots E Rd Wr st" "f < slots" "i < no_writer"
    and before: "\<And>j. (j, f) \<in> Rd \<union> Wr \<Longrightarrow> j \<noteq> i \<Longrightarrow> (j, i) \<in> E\<^sup>+"
    and "rl_indices l = []"
  shows "field_inv slots E Rd (insert (i, f) Wr)
    (st\<lparr>s_readers := (s_readers st)[f := l], s_last_writer := (s_last_writer st)[f := i]\<rparr>)"
proof -
  have "reaches E j i" if "(j, f) \<in> Rd \<union> Wr" for j
    using before [OF that] by (auto simp: reaches_def)
  then show ?thesis
    using assms(1-3,5) unfolding field_inv_def by (auto simp: nth_list_update reaches_def)
qed

lemma accesses_ordered_write:
  assumes "accesses_ordered E Rd Wr" "\<And>j g. (j, g) \<in> Rd \<union> Wr \<Longrightarrow> j \<le> i"
    and "\<And>j. (j, f) \<in> Rd \<union> Wr \<Longrightarrow> j \<noteq> i \<Longrightarrow> (j, i) \<in> E\<^sup>+"
  shows "accesses_ordered E Rd (insert (i, f) Wr)"
proof -
  have "\<not> i < b" if "(b, g) \<in> Rd \<union> Wr" for b g
    using assms(2) [OF that] by simp
  then show ?thesis using assms(1,3) unfolding accesses_ordered_def by blast
qed

subsection \<open>The invariant of the scan\<close>

definition scan_inv ::
  "SimOperator list \<Rightarrow> nat \<Rightarrow> (nat \<times> nat) list \<Rightarrow> nat \<Rightarrow> (nat \<times> nat) set \<Rightarrow> (nat \<times> nat) set \<Rightarrow>
   plan_scan \<Rightarrow> bool" where
  "scan_inv ops slots ds i Rd Wr st \<longleftrightarrow>
     counted (length ops) (ds @ hazard_pairs st) st \<and>
     set (hazard_pairs st) \<subseteq> conflict ops \<and>
     field_inv slots (set (ds @ hazard_pairs st)) Rd Wr st \<and>
     accesses_ordered (set (ds @ hazard_pairs st)) Rd Wr \<and>
     (\<forall>j f. (j, f) \<in> Rd \<longrightarrow> j \<le> i \<and> reads_field (ops ! j) f) \<and>
     (\<forall>j f. (j, f) \<in> Wr \<longrightarrow> j \<le> i \<and> writes_field (ops ! j) f)"

lemma sim_reader_list_append_indices:
  "sim_reader_list_append h l v = Some l' \<Longrightarrow> rl_indices l' = rl_indices l @ [v]"
  by (auto simp: sim_reader_list_append_def Let_def split: if_splits)

text \<open>The operator under scan: its explicit dependencies are already among the edges \<open>ds\<close>.\<close>

definition scanning :: "SimOperator list \<Rightarrow> (nat \<times> nat) list \<Rightarrow> nat \<Rightarrow> bool" where
  "scanning ops ds i \<longleftrightarrow> i < length ops \<and> length ops < no_writer \<and>
     (\<forall>d \<in> set (op_dependencies (ops ! i)). (d, i) \<in> set ds)"

text \<open>One hazard edge from an earlier access to operator \<open>i\<close>.\<close>

lemma scan_inv_hazard:
  assumes "scan_inv ops slots ds i Rd Wr st" "sim_resolve_add_hazard h ops from i st = Some st'"
    and sc: "scanning ops ds i" and "from \<le> i" "from \<noteq> i \<Longrightarrow> (from, i) \<in> conflict ops"
  shows "scan_inv ops slots ds i Rd Wr st'" and "hazards_grow st st'"
    and "from \<noteq> i \<Longrightarrow> (from, i) \<in> set (ds @ hazard_pairs st')"
proof -
  have sc': "i < length ops" "length ops < no_writer"
    "\<forall>d \<in> set (op_dependencies (ops ! i)). (d, i) \<in> set ds"
    using sc by (auto simp: scanning_def)
  note I = assms(1) [unfolded scan_inv_def]
  have c: "counted (length ops) (ds @ hazard_pairs st) st" using I by blast
  have f: "from < length ops" using assms(4) sc'(1) by simp
  note a = add_hazard_spec [OF assms(2) c f sc']
  show g: "hazards_grow st st'" by (rule a(2))
  show "from \<noteq> i \<Longrightarrow> (from, i) \<in> set (ds @ hazard_pairs st')" by (rule a(3))
  have sub: "set (ds @ hazard_pairs st) \<subseteq> set (ds @ hazard_pairs st')"
    using g by (auto simp: hazards_grow_def)
  have "set (hazard_pairs st') \<subseteq> conflict ops"
    using a(4,5) I assms(5) by (cases "from = i") auto
  moreover have "field_inv slots (set (ds @ hazard_pairs st')) Rd Wr st'"
    using I g by (intro field_inv_mono [OF _ sub]) (auto simp: hazards_grow_def)
  moreover have "accesses_ordered (set (ds @ hazard_pairs st')) Rd Wr"
    using I by (intro accesses_ordered_mono [OF _ sub]) auto
  ultimately show "scan_inv ops slots ds i Rd Wr st'"
    using a(1) I by (simp add: scan_inv_def)
qed

lemma scan_inv_readers:
  assumes "scan_inv ops slots ds i Rd Wr st"
    and "fold_option (\<lambda>r. sim_resolve_add_hazard h ops r i) rs st = Some st'"
    and sc: "scanning ops ds i"
    and "\<And>r. r \<in> set rs \<Longrightarrow> r \<le> i" "\<And>r. r \<in> set rs \<Longrightarrow> r \<noteq> i \<Longrightarrow> (r, i) \<in> conflict ops"
  shows "scan_inv ops slots ds i Rd Wr st' \<and> hazards_grow st st' \<and>
    (\<forall>r \<in> set rs. r \<noteq> i \<longrightarrow> (r, i) \<in> set (ds @ hazard_pairs st'))"
  using assms(1,2,4,5)
proof (induction rs arbitrary: st)
  case Nil
  then show ?case by simp
next
  case (Cons r rs)
  from Cons.prems(2) obtain st1 where s1: "sim_resolve_add_hazard h ops r i st = Some st1"
    and rest: "fold_option (\<lambda>r. sim_resolve_add_hazard h ops r i) rs st1 = Some st'"
    by (auto split: option.splits)
  have r: "r \<le> i" "r \<noteq> i \<Longrightarrow> (r, i) \<in> conflict ops" using Cons.prems(3,4) by auto
  note a = scan_inv_hazard [OF Cons.prems(1) s1 sc r]
  have b: "scan_inv ops slots ds i Rd Wr st' \<and> hazards_grow st1 st' \<and>
      (\<forall>r \<in> set rs. r \<noteq> i \<longrightarrow> (r, i) \<in> set (ds @ hazard_pairs st'))"
    using Cons.prems(3,4) by (intro Cons.IH [OF a(1) rest]) auto
  then have "r \<noteq> i \<Longrightarrow> (r, i) \<in> set (ds @ hazard_pairs st')"
    using a(3) by (auto simp: hazards_grow_def)
  then show ?case using a(2) b hazards_grow_trans [of st st1 st'] by simp
qed

text \<open>The edge from the last writer, which both loops add first.\<close>

lemma scan_inv_last_writer:
  assumes inv: "scan_inv ops slots ds i Rd Wr st" and sc: "scanning ops ds i" and f: "f < slots"
    and acc: "reads_field (ops ! i) f \<or> writes_field (ops ! i) f" and noW: "(i, f) \<notin> Wr"
    and step: "(if s_last_writer st ! f \<noteq> no_writer
           then sim_resolve_add_hazard h ops (s_last_writer st ! f) i st else Some st) = Some st'"
  shows "scan_inv ops slots ds i Rd Wr st'" and "hazards_grow st st'"
    and "s_last_writer st' ! f \<noteq> no_writer \<Longrightarrow>
      (s_last_writer st' ! f, i) \<in> set (ds @ hazard_pairs st')"
proof -
  let ?w = "s_last_writer st ! f"
  have "scan_inv ops slots ds i Rd Wr st' \<and> hazards_grow st st' \<and>
    (?w \<noteq> no_writer \<longrightarrow> (?w, i) \<in> set (ds @ hazard_pairs st'))"
  proof (cases "?w = no_writer")
    case True
    then show ?thesis using inv step by simp
  next
    case False
    then have w: "(?w, f) \<in> Wr" using inv f by (auto simp: scan_inv_def field_inv_def)
    then have "?w \<le> i" "writes_field (ops ! ?w) f" using inv by (auto simp: scan_inv_def)
    moreover have ne: "?w \<noteq> i" using w noW by blast
    moreover have "i < length ops" using sc by (simp add: scanning_def)
    ultimately have "?w \<le> i" "(?w, i) \<in> conflict ops"
      using acc by (auto simp: conflict_def)
    then show ?thesis
      using scan_inv_hazard [OF inv _ sc, of h ?w st'] step False ne by auto
  qed
  then show "scan_inv ops slots ds i Rd Wr st'" "hazards_grow st st'"
    "s_last_writer st' ! f \<noteq> no_writer \<Longrightarrow> (s_last_writer st' ! f, i) \<in> set (ds @ hazard_pairs st')"
    by (auto simp: hazards_grow_def)
qed

text \<open>The fields marked as seen are those whose access is recorded.\<close>

definition seen_ok :: "nat \<Rightarrow> nat \<Rightarrow> bool list \<Rightarrow> (nat \<times> nat) set \<Rightarrow> bool" where
  "seen_ok slots i seen A \<longleftrightarrow> length seen = slots \<and> (\<forall>g < slots. seen ! g \<longleftrightarrow> (i, g) \<in> A)"

lemma seen_ok_update:
  "seen_ok slots i seen A \<Longrightarrow> seen_ok slots i (seen[f := True]) (insert (i, f) A)"
  by (simp add: seen_ok_def nth_list_update split: if_split)
    (metis nth_list_update_eq nth_list_update_neq)

lemma scan_inv_cong_degrees:
  "counted n es st \<Longrightarrow> counted n es (st\<lparr>s_readers := r, s_last_writer := w\<rparr>)"
  "counted n es st \<Longrightarrow> counted n es (st\<lparr>s_readers := r\<rparr>)"
  by (simp_all add: counted_def)

lemma hazard_pairs_cong [simp]:
  "hazard_pairs (st\<lparr>s_readers := r\<rparr>) = hazard_pairs st"
  "hazard_pairs (st\<lparr>s_readers := r, s_last_writer := w\<rparr>) = hazard_pairs st"
  by (simp_all add: hazard_pairs_def)

lemma scan_read_step:
  assumes inv: "scan_inv ops slots ds i Rd Wr st" and sc: "scanning ops ds i" and f: "f < slots"
    and acc: "reads_field (ops ! i) f" and noW: "\<And>g. (i, g) \<notin> Wr"
    and seen: "seen_ok slots i seen Rd"
    and step: "scan_read h ops slots i f (seen, st) = Some (seen', st')"
  shows "scan_inv ops slots ds i (insert (i, f) Rd) Wr st' \<and> seen_ok slots i seen' (insert (i, f) Rd)"
proof (cases "seen ! f")
  case True
  then have "insert (i, f) Rd = Rd" using seen f by (auto simp: seen_ok_def)
  then show ?thesis using True step inv seen by (simp add: scan_read_def)
next
  case False
  from step False f obtain st1 l where
    s1: "(if s_last_writer st ! f \<noteq> no_writer
          then sim_resolve_add_hazard h ops (s_last_writer st ! f) i st else Some st) = Some st1"
    and l: "sim_reader_list_append h (s_readers st1 ! f) i = Some l"
    and st': "st' = st1\<lparr>s_readers := (s_readers st1)[f := l]\<rparr>" and seen': "seen' = seen[f := True]"
    by (auto simp: scan_read_def Let_def split: if_splits option.splits)
  note a = scan_inv_last_writer [OF inv sc f disjI1 [OF acc] noW s1]
  note I = a(1) [unfolded scan_inv_def]
  have ind: "rl_indices l = rl_indices (s_readers st1 ! f) @ [i]"
    by (rule sim_reader_list_append_indices [OF l])
  have "field_inv slots (set (ds @ hazard_pairs st1)) (insert (i, f) Rd) Wr st'"
    unfolding st' using I by (intro field_inv_read [OF _ f ind]) blast
  moreover have "accesses_ordered (set (ds @ hazard_pairs st1)) (insert (i, f) Rd) Wr"
    using I a(3) noW by (intro accesses_ordered_read [OF _ _ f]) blast+
  moreover have "\<forall>j g. (j, g) \<in> insert (i, f) Rd \<longrightarrow> j \<le> i \<and> reads_field (ops ! j) g"
    using I acc by blast
  moreover have "counted (length ops) (ds @ hazard_pairs st1) st'"
    unfolding st' using I scan_inv_cong_degrees(2) by blast
  ultimately have "scan_inv ops slots ds i (insert (i, f) Rd) Wr st'"
    using I by (simp add: scan_inv_def st')
  then show ?thesis using seen_ok_update [OF seen] by (simp add: seen')
qed

lemma scan_write_step:
  assumes inv: "scan_inv ops slots ds i Rd Wr st" and sc: "scanning ops ds i" and f: "f < slots"
    and acc: "writes_field (ops ! i) f"
    and seen: "seen_ok slots i seen Wr"
    and step: "scan_write h ops slots i f (seen, st) = Some (seen', st')"
  shows "scan_inv ops slots ds i Rd (insert (i, f) Wr) st' \<and> seen_ok slots i seen' (insert (i, f) Wr)"
proof (cases "seen ! f")
  case True
  then have "insert (i, f) Wr = Wr" using seen f by (auto simp: seen_ok_def)
  then show ?thesis using True step inv seen by (simp add: scan_write_def)
next
  case False
  from step False f obtain st1 st2 where
    s1: "(if s_last_writer st ! f \<noteq> no_writer
          then sim_resolve_add_hazard h ops (s_last_writer st ! f) i st else Some st) = Some st1"
    and s2: "fold_option (\<lambda>r. sim_resolve_add_hazard h ops r i)
       (rl_indices (s_readers st1 ! f)) st1 = Some st2"
    and st': "st' = st2\<lparr>s_readers := (s_readers st2)[f := (s_readers st2 ! f)\<lparr>rl_indices := []\<rparr>],
       s_last_writer := (s_last_writer st2)[f := i]\<rparr>" and seen': "seen' = seen[f := True]"
    by (auto simp: scan_write_def Let_def split: if_splits option.splits)
  have fresh: "(i, f) \<notin> Wr" using False seen f by (auto simp: seen_ok_def)
  note a = scan_inv_last_writer [OF inv sc f disjI2 [OF acc] fresh s1]
  have i: "i < length ops" "i < no_writer" using sc by (auto simp: scanning_def)
  have rd: "r \<le> i" "r \<noteq> i \<Longrightarrow> (r, i) \<in> conflict ops"
    if "r \<in> set (rl_indices (s_readers st1 ! f))" for r
  proof -
    have "(r, f) \<in> Rd" using a(1) f that by (auto simp: scan_inv_def field_inv_def)
    then have "r \<le> i" "reads_field (ops ! r) f" using a(1) by (auto simp: scan_inv_def)
    then show "r \<le> i" "r \<noteq> i \<Longrightarrow> (r, i) \<in> conflict ops"
      using acc i by (auto simp: conflict_def)
  qed
  from scan_inv_readers [OF a(1) s2 sc rd]
  have b: "scan_inv ops slots ds i Rd Wr st2" "hazards_grow st1 st2"
    "\<forall>r \<in> set (rl_indices (s_readers st1 ! f)). r \<noteq> i \<longrightarrow> (r, i) \<in> set (ds @ hazard_pairs st2)"
    by auto
  note I = b(1) [unfolded scan_inv_def]
  let ?E = "set (ds @ hazard_pairs st2)"
  have lw: "s_last_writer st2 ! f \<noteq> no_writer \<Longrightarrow> (s_last_writer st2 ! f, i) \<in> ?E"
    using a(3) b(2) by (auto simp: hazards_grow_def)
  have before: "(j, i) \<in> ?E\<^sup>+" if "(j, f) \<in> Rd \<union> Wr" "j \<noteq> i" for j
    using I lw b(2,3) that
    by (intro write_after_access [of slots ?E Rd Wr st2 f i j]) (auto simp: hazards_grow_def f)
  have "field_inv slots ?E Rd (insert (i, f) Wr) st'"
    unfolding st' using I by (intro field_inv_write [OF _ f i(2) before]) auto
  moreover have "accesses_ordered ?E Rd (insert (i, f) Wr)"
    using I by (intro accesses_ordered_write [OF _ _ before]) blast+
  moreover have "counted (length ops) (ds @ hazard_pairs st2) st'"
    unfolding st' using I scan_inv_cong_degrees(1) by blast
  moreover have "\<forall>j g. (j, g) \<in> insert (i, f) Wr \<longrightarrow> j \<le> i \<and> writes_field (ops ! j) g"
    using I acc by blast
  ultimately have "scan_inv ops slots ds i Rd (insert (i, f) Wr) st'"
    using I by (simp add: scan_inv_def st')
  then show ?thesis using seen_ok_update [OF seen] by (simp add: seen')
qed

text \<open>The loops over the fields of one operator.\<close>

lemma scan_reads:
  assumes "scan_inv ops slots ds i Rd Wr st" "scanning ops ds i" "\<And>g. (i, g) \<notin> Wr"
    and "seen_ok slots i seen Rd" "\<forall>f \<in> set fs. f < slots \<and> reads_field (ops ! i) f"
    and "fold_option (scan_read h ops slots i) fs (seen, st) = Some (seen', st')"
  shows "scan_inv ops slots ds i (Rd \<union> {i} \<times> set fs) Wr st' \<and>
    seen_ok slots i seen' (Rd \<union> {i} \<times> set fs)"
  using assms(1,4-6)
proof (induction fs arbitrary: Rd st seen)
  case Nil
  then show ?case by simp
next
  case (Cons f fs)
  from Cons.prems(4) obtain seen1 st1 where
    s1: "scan_read h ops slots i f (seen, st) = Some (seen1, st1)"
    and rest: "fold_option (scan_read h ops slots i) fs (seen1, st1) = Some (seen', st')"
    by (auto split: option.splits)
  have f: "f < slots" "reads_field (ops ! i) f" using Cons.prems(3) by auto
  from scan_read_step [OF Cons.prems(1) assms(2) f assms(3) Cons.prems(2) s1]
  have "scan_inv ops slots ds i (insert (i, f) Rd \<union> {i} \<times> set fs) Wr st' \<and>
      seen_ok slots i seen' (insert (i, f) Rd \<union> {i} \<times> set fs)"
    using Cons.prems(3) rest by (intro Cons.IH) auto
  moreover have "insert (i, f) Rd \<union> {i} \<times> set fs = Rd \<union> {i} \<times> set (f # fs)" by auto
  ultimately show ?case by simp
qed

lemma scan_writes:
  assumes "scan_inv ops slots ds i Rd Wr st" "scanning ops ds i"
    and "seen_ok slots i seen Wr" "\<forall>f \<in> set fs. f < slots \<and> writes_field (ops ! i) f"
    and "fold_option (scan_write h ops slots i) fs (seen, st) = Some (seen', st')"
  shows "scan_inv ops slots ds i Rd (Wr \<union> {i} \<times> set fs) st' \<and>
    seen_ok slots i seen' (Wr \<union> {i} \<times> set fs)"
  using assms(1,3-5)
proof (induction fs arbitrary: Wr st seen)
  case Nil
  then show ?case by simp
next
  case (Cons f fs)
  from Cons.prems(4) obtain seen1 st1 where
    s1: "scan_write h ops slots i f (seen, st) = Some (seen1, st1)"
    and rest: "fold_option (scan_write h ops slots i) fs (seen1, st1) = Some (seen', st')"
    by (auto split: option.splits)
  have f: "f < slots" "writes_field (ops ! i) f" using Cons.prems(3) by auto
  from scan_write_step [OF Cons.prems(1) assms(2) f Cons.prems(2) s1]
  have "scan_inv ops slots ds i Rd (insert (i, f) Wr \<union> {i} \<times> set fs) st' \<and>
      seen_ok slots i seen' (insert (i, f) Wr \<union> {i} \<times> set fs)"
    using Cons.prems(3) rest by (intro Cons.IH) auto
  moreover have "insert (i, f) Wr \<union> {i} \<times> set fs = Wr \<union> {i} \<times> set (f # fs)" by auto
  ultimately show ?case by simp
qed

definition op_accesses :: "(SimOperator \<Rightarrow> nat \<Rightarrow> bool) \<Rightarrow> SimOperator list \<Rightarrow> nat \<Rightarrow> (nat \<times> nat) set" where
  "op_accesses acc ops k = {(j, f). j < k \<and> acc (ops ! j) f}"

lemma op_accesses_Suc:
  "op_accesses acc ops (Suc i) = op_accesses acc ops i \<union> {i} \<times> {f. acc (ops ! i) f}"
  by (auto simp: op_accesses_def less_Suc_eq)

lemma seen_ok_none: "(\<And>g. (i, g) \<notin> A) \<Longrightarrow> seen_ok slots i (replicate slots False) A"
  by (simp add: seen_ok_def)

lemma scan_fields_inv:
  assumes inv: "scan_inv ops slots ds i (op_accesses reads_field ops i) (op_accesses writes_field ops i) st"
    and sc: "scanning ops ds i"
    and bound: "\<forall>f. reads_field (ops ! i) f \<or> writes_field (ops ! i) f \<longrightarrow> f < slots"
    and step: "scan_fields h ops slots i st = Some st'"
  shows "scan_inv ops slots ds i
    (op_accesses reads_field ops (Suc i)) (op_accesses writes_field ops (Suc i)) st'"
proof -
  let ?op = "ops ! i" and ?u = "replicate slots False"
  let ?R0 = "op_accesses reads_field ops i" and ?W0 = "op_accesses writes_field ops i"
  from step obtain e1 e2 e3 e4 s1 s2 s3 where
    1: "fold_option (scan_read h ops slots i) (mask_fields (op_read_mask ?op)) (?u, st) = Some (e1, s1)"
    and 2: "fold_option (scan_read h ops slots i) (op_read_indices ?op) (e1, s1) = Some (e2, s2)"
    and 3: "fold_option (scan_write h ops slots i) (mask_fields (op_write_mask ?op)) (?u, s2) = Some (e3, s3)"
    and 4: "fold_option (scan_write h ops slots i) (op_write_indices ?op) (e3, s3) = Some (e4, st')"
    by (auto simp: scan_fields_def Let_def split: option.splits)
  have W0: "(i, g) \<notin> ?W0" and R0: "(i, g) \<notin> ?R0" for g by (auto simp: op_accesses_def)
  have rb: "\<forall>f \<in> set (mask_fields (op_read_mask ?op)). f < slots \<and> reads_field ?op f"
    "\<forall>f \<in> set (op_read_indices ?op). f < slots \<and> reads_field ?op f"
    "\<forall>f \<in> set (mask_fields (op_write_mask ?op)). f < slots \<and> writes_field ?op f"
    "\<forall>f \<in> set (op_write_indices ?op). f < slots \<and> writes_field ?op f"
    using bound by (auto simp: set_mask_fields reads_field_def writes_field_def)
  note a1 = scan_reads [OF inv sc W0 seen_ok_none [OF R0] rb(1) 1]
  note a2 = scan_reads [OF conjunct1 [OF a1] sc W0 conjunct2 [OF a1] rb(2) 2]
  note a3 = scan_writes [OF conjunct1 [OF a2] sc seen_ok_none [OF W0] rb(3) 3]
  note a4 = scan_writes [OF conjunct1 [OF a3] sc conjunct2 [OF a3] rb(4) 4]
  have "?R0 \<union> {i} \<times> set (mask_fields (op_read_mask ?op)) \<union> {i} \<times> set (op_read_indices ?op) =
      op_accesses reads_field ops (Suc i)"
    "?W0 \<union> {i} \<times> set (mask_fields (op_write_mask ?op)) \<union> {i} \<times> set (op_write_indices ?op) =
      op_accesses writes_field ops (Suc i)"
    by (auto simp: op_accesses_Suc set_mask_fields reads_field_def writes_field_def)
  with a4 show ?thesis by simp
qed

subsection \<open>Every named field has a slot\<close>

definition covers :: "nat option \<Rightarrow> nat \<Rightarrow> bool" where
  "covers b f \<longleftrightarrow> (\<exists>m. b = Some m \<and> f \<le> m)"

definition below :: "nat \<Rightarrow> nat option \<Rightarrow> bool" where
  "below k b \<longleftrightarrow> (\<forall>m. b = Some m \<longrightarrow> m < k)"

lemma raise_field_covers: "covers (raise_field f b) f" "covers b g \<Longrightarrow> covers (raise_field f b) g"
  by (auto simp: covers_def raise_field_def split: option.split)

lemma raise_field_below: "below k b \<Longrightarrow> f < k \<Longrightarrow> below k (raise_field f b)"
  by (auto simp: below_def raise_field_def split: option.split)

lemma fold_raise_covers:
  "covers b g \<Longrightarrow> covers (fold raise_field fs b) g"
  "f \<in> set fs \<Longrightarrow> covers (fold raise_field fs b) f"
proof -
  show mono: "covers b g \<Longrightarrow> covers (fold raise_field fs b) g" for b g fs
    by (induction fs arbitrary: b) (auto intro: raise_field_covers)
  show "f \<in> set fs \<Longrightarrow> covers (fold raise_field fs b) f"
    by (induction fs arbitrary: b) (auto intro: mono raise_field_covers)
qed

lemma fold_raise_below: "below k b \<Longrightarrow> \<forall>f \<in> set fs. f < k \<Longrightarrow> below k (fold raise_field fs b)"
  by (induction fs arbitrary: b) (auto intro: raise_field_below)

lemma clzll_highest:
  assumes "bit w f"
  shows "f \<le> 63 - clzll w"
proof -
  have f: "f < 64" using assms by (auto dest: bit_imp_le_length)
  let ?P = "\<lambda>i. \<not> bit w (63 - i)"
  have "clzll w \<le> 63 - f"
  proof (rule ccontr)
    assume "\<not> ?thesis"
    then have lt: "63 - f < length (takeWhile ?P [0..<64])" by (simp add: clzll_def)
    then have "?P (takeWhile ?P [0..<64] ! (63 - f))" using nth_mem set_takeWhileD by fastforce
    moreover have "takeWhile ?P [0..<64] ! (63 - f) = 63 - f"
      using takeWhile_nth [OF lt] f by simp
    ultimately show False using assms f by simp
  qed
  then show ?thesis using f by simp
qed

lemma operator_field_bound_covers:
  "covers b g \<Longrightarrow> covers (operator_field_bound op b) g"
  "reads_field op f \<or> writes_field op f \<Longrightarrow> covers (operator_field_bound op b) f"
proof -
  let ?m = "op_read_mask op OR op_write_mask op"
  let ?b = "if ?m \<noteq> 0 then raise_field (63 - clzll ?m) b else b"
  have eq: "operator_field_bound op b =
      fold raise_field (op_write_indices op) (fold raise_field (op_read_indices op) ?b)"
    by (simp add: operator_field_bound_def Let_def)
  show "covers b g \<Longrightarrow> covers (operator_field_bound op b) g"
    unfolding eq by (intro fold_raise_covers(1)) (simp add: raise_field_covers)
  have "covers ?b f" if "bit ?m f"
    using that raise_field_covers(1) [of "63 - clzll ?m" b] clzll_highest [OF that]
    by (auto simp: covers_def)
  moreover assume "reads_field op f \<or> writes_field op f"
  ultimately consider "covers ?b f" | "f \<in> set (op_read_indices op)" | "f \<in> set (op_write_indices op)"
    unfolding reads_field_def writes_field_def bit_or_iff by blast
  then show "covers (operator_field_bound op b) f"
    unfolding eq
    by cases (rule fold_raise_covers(1), rule fold_raise_covers, assumption,
      rule fold_raise_covers(1), rule fold_raise_covers(2), assumption, rule fold_raise_covers(2))
qed

lemma operator_field_bound_below:
  assumes "below k b" "64 \<le> k" "\<forall>f \<in> set (op_read_indices op). f < k"
    and "\<forall>f \<in> set (op_write_indices op). f < k"
  shows "below k (operator_field_bound op b)"
  using assms unfolding operator_field_bound_def Let_def
  by (auto intro!: fold_raise_below raise_field_below)

lemma fold_field_bound_covers:
  "covers b g \<Longrightarrow> covers (fold operator_field_bound ops b) g"
  "op \<in> set ops \<Longrightarrow> reads_field op f \<or> writes_field op f \<Longrightarrow>
     covers (fold operator_field_bound ops b) f"
proof -
  show mono: "covers b g \<Longrightarrow> covers (fold operator_field_bound ops b) g" for b g ops
    by (induction ops arbitrary: b) (auto intro: operator_field_bound_covers)
  show "op \<in> set ops \<Longrightarrow> reads_field op f \<or> writes_field op f \<Longrightarrow>
      covers (fold operator_field_bound ops b) f"
    by (induction ops arbitrary: b) (auto intro: mono operator_field_bound_covers)
qed

lemma plan_field_slots_bound:
  assumes "registry_fits ops" "i < length ops"
    and "reads_field (ops ! i) f \<or> writes_field (ops ! i) f"
  shows "f < plan_field_slots ops"
proof -
  have "below no_writer (fold operator_field_bound xs b)"
    if "below no_writer b" "set xs \<subseteq> set ops" for xs b
    using that
  proof (induction xs arbitrary: b)
    case (Cons x xs)
    then have "x \<in> set ops" by simp
    then have "below no_writer (operator_field_bound x b)"
      using assms(1) Cons.prems
      by (intro operator_field_bound_below) (auto simp: registry_fits_def no_writer_def)
    then show ?case using Cons by simp
  qed simp
  then have b: "below no_writer (fold operator_field_bound ops None)"
    by (metis below_def option.distinct(1) order_refl)
  have "ops ! i \<in> set ops" using assms(2) by simp
  then have c: "covers (fold operator_field_bound ops None) f"
    using fold_field_bound_covers(2) assms(3) by blast
  then obtain m where m: "fold operator_field_bound ops None = Some m" "f \<le> m"
    by (auto simp: covers_def)
  with b have "m < no_writer" by (simp add: below_def)
  then have "(m + 1) mod 2 ^ 64 = m + 1" by (intro mod_less) (simp add: no_writer_def)
  with m show ?thesis by (simp add: plan_field_slots_def)
qed

subsection \<open>The whole scan\<close>

text \<open>The state between two operators: the first \<open>k\<close> have been scanned.\<close>

definition op_inv :: "SimOperator list \<Rightarrow> nat \<Rightarrow> nat \<Rightarrow> plan_scan \<Rightarrow> bool" where
  "op_inv ops slots k st \<longleftrightarrow>
     counted (length ops) (dep_edges ops k @ hazard_pairs st) st \<and>
     set (hazard_pairs st) \<subseteq> conflict ops \<and>
     field_inv slots (set (dep_edges ops k @ hazard_pairs st))
       (op_accesses reads_field ops k) (op_accesses writes_field ops k) st \<and>
     accesses_ordered (set (dep_edges ops k @ hazard_pairs st))
       (op_accesses reads_field ops k) (op_accesses writes_field ops k)"

lemma op_inv_init: "op_inv ops slots 0 (scan_init (length ops) slots)"
  by (auto simp: op_inv_def scan_init_def counted_def edges_within_def hazard_pairs_def dep_edges_def
      field_inv_def accesses_ordered_def op_accesses_def degrees_of_def intro: nth_equalityI)

lemma op_inv_dependencies:
  assumes "op_inv ops slots k st" "k < length ops"
    and "fold_sum (scan_dependency (length ops) k) (op_dependencies (ops ! k)) st = Inr st'"
  shows "scan_inv ops slots (dep_edges ops (Suc k)) k
      (op_accesses reads_field ops k) (op_accesses writes_field ops k) st'"
    and "\<forall>d \<in> set (op_dependencies (ops ! k)). d < length ops"
proof -
  let ?new = "map (\<lambda>d. (d, k)) (op_dependencies (ops ! k))"
  note I = assms(1) [unfolded op_inv_def]
  have c: "counted (length ops) (dep_edges ops k @ hazard_pairs st) st" using I by blast
  note d = scan_dependencies [OF assms(2) c, of "op_dependencies (ops ! k)", unfolded assms(3) sum.case]
  show "\<forall>d \<in> set (op_dependencies (ops ! k)). d < length ops" using d by blast
  have hz: "hazard_pairs st' = hazard_pairs st" using d by (simp add: hazard_pairs_def)
  have c': "counted (length ops) (dep_edges ops (Suc k) @ hazard_pairs st') st'"
    using d by (elim conjE counted_perm) (simp add: hz dep_edges_Suc)
  have sub: "set (dep_edges ops k @ hazard_pairs st) \<subseteq> set (dep_edges ops (Suc k) @ hazard_pairs st')"
    by (auto simp: hz dep_edges_Suc)
  have "field_inv slots (set (dep_edges ops (Suc k) @ hazard_pairs st'))
      (op_accesses reads_field ops k) (op_accesses writes_field ops k) st'"
    using I d by (intro field_inv_mono [OF _ sub]) blast+
  moreover have "accesses_ordered (set (dep_edges ops (Suc k) @ hazard_pairs st'))
      (op_accesses reads_field ops k) (op_accesses writes_field ops k)"
    using I by (intro accesses_ordered_mono [OF _ sub]) blast
  ultimately show "scan_inv ops slots (dep_edges ops (Suc k)) k
      (op_accesses reads_field ops k) (op_accesses writes_field ops k) st'"
    using c' I unfolding scan_inv_def hz by (auto simp: op_accesses_def)
qed

lemma op_inv_from_scan:
  "scan_inv ops slots (dep_edges ops k) i (op_accesses reads_field ops k) (op_accesses writes_field ops k) st
   \<Longrightarrow> op_inv ops slots k st"
  by (simp add: scan_inv_def op_inv_def)

lemma scan_operator_spec:
  assumes fits: "registry_fits ops" and inv: "op_inv ops (plan_field_slots ops) k st"
    and k: "k < length ops"
  shows "case scan_operator h ops (plan_field_slots ops) k st of
      Inl e \<Rightarrow> e = SIM_RESULT_OUT_OF_MEMORY \<or>
        e = SIM_RESULT_INVALID_ARGUMENT \<and> (\<exists>d \<in> set (op_dependencies (ops ! k)). length ops \<le> d)
    | Inr st' \<Rightarrow> op_inv ops (plan_field_slots ops) (Suc k) st' \<and>
        (\<forall>d \<in> set (op_dependencies (ops ! k)). d < length ops)"
proof (cases "fold_sum (scan_dependency (length ops) k) (op_dependencies (ops ! k)) st")
  case (Inl e)
  have c: "counted (length ops) (dep_edges ops k @ hazard_pairs st) st"
    using inv by (simp add: op_inv_def)
  show ?thesis
    using scan_dependencies [OF k c, of "op_dependencies (ops ! k)"] Inl
    by (auto simp: scan_operator_def Let_def)
next
  case (Inr st1)
  let ?s = "plan_field_slots ops" and ?op = "ops ! k"
  note a = op_inv_dependencies [OF inv k Inr]
  have bound: "\<forall>f. reads_field ?op f \<or> writes_field ?op f \<longrightarrow> f < ?s"
    using plan_field_slots_bound [OF fits k] by blast
  have sc: "scanning ops (dep_edges ops (Suc k)) k"
    using fits k by (auto simp: scanning_def registry_fits_def dep_edges_Suc)
  show ?thesis
  proof (cases "?s > 0 \<and> (op_read_mask ?op \<noteq> 0 \<or> op_write_mask ?op \<noteq> 0 \<or>
       op_read_indices ?op \<noteq> [] \<or> op_write_indices ?op \<noteq> [])")
    case True
    show ?thesis
    proof (cases "scan_fields h ops ?s k st1")
      case None
      then show ?thesis using Inr True by (simp add: scan_operator_def Let_def)
    next
      case (Some st2)
      then show ?thesis
        using Inr True a(2) op_inv_from_scan [OF scan_fields_inv [OF a(1) sc bound Some]]
        by (auto simp: scan_operator_def Let_def)
    qed
  next
    case False
    then have "\<not> reads_field ?op f" "\<not> writes_field ?op f" for f
      using bound by (auto simp: reads_field_def writes_field_def)
    then have eq: "op_accesses reads_field ops (Suc k) = op_accesses reads_field ops k"
      "op_accesses writes_field ops (Suc k) = op_accesses writes_field ops k"
      by (simp_all add: op_accesses_Suc)
    have "op_inv ops ?s (Suc k) st1"
      using a(1) by (intro op_inv_from_scan) (simp add: eq)
    then show ?thesis using Inr False a(2) by (auto simp: scan_operator_def Let_def)
  qed
qed

lemma scan_all_spec:
  assumes fits: "registry_fits ops"
  shows "case fold_sum (scan_operator h ops (plan_field_slots ops)) [0..<length ops]
      (scan_init (length ops) (plan_field_slots ops)) of
      Inl e \<Rightarrow> e = SIM_RESULT_OUT_OF_MEMORY \<or>
        e = SIM_RESULT_INVALID_ARGUMENT \<and> \<not> dependencies_known ops
    | Inr st \<Rightarrow> op_inv ops (plan_field_slots ops) (length ops) st \<and> dependencies_known ops"
proof -
  let ?s = "plan_field_slots ops"
  have "case fold_sum (scan_operator h ops ?s) [0..<k] (scan_init (length ops) ?s) of
      Inl e \<Rightarrow> e = SIM_RESULT_OUT_OF_MEMORY \<or>
        e = SIM_RESULT_INVALID_ARGUMENT \<and> \<not> dependencies_known ops
    | Inr st \<Rightarrow> op_inv ops ?s k st \<and>
        (\<forall>i < k. \<forall>d \<in> set (op_dependencies (ops ! i)). d < length ops)"
    if "k \<le> length ops" for k
    using that
  proof (induction k)
    case 0
    then show ?case by (simp add: op_inv_init)
  next
    case (Suc k)
    then have k: "k < length ops" by simp
    then have mem: "ops ! k \<in> set ops" by simp
    show ?case
    proof (cases "fold_sum (scan_operator h ops ?s) [0..<k] (scan_init (length ops) ?s)")
      case (Inl e)
      then show ?thesis using Suc by (simp add: fold_sum_append)
    next
      case (Inr st)
      then have "op_inv ops ?s k st"
        and old: "\<forall>i < k. \<forall>d \<in> set (op_dependencies (ops ! i)). d < length ops"
        using Suc by auto
      from scan_operator_spec [OF fits this(1) k, of h] mem show ?thesis
        using Inr old
        by (auto simp: fold_sum_append dependencies_known_def less_Suc_eq not_less split: sum.splits)
    qed
  qed
  from this [of "length ops"] show ?thesis
    by (auto simp: dependencies_known_def all_set_conv_all_nth split: sum.splits)
qed

section \<open>The emitted order\<close>

lemma fill_dependencies_fold:
  "fill_dependencies ops offsets st = fold (csr_put offsets) (dep_edges ops (length ops)) st"
proof -
  have "fold (\<lambda>i. fold (\<lambda>dep. csr_put offsets (dep, i)) (op_dependencies (ops ! i))) xs st =
      fold (csr_put offsets) (concat (map (\<lambda>i. map (\<lambda>d. (d, i)) (op_dependencies (ops ! i))) xs)) st"
    for xs
    by (induction xs arbitrary: st) (auto simp: fold_map o_def)
  then show ?thesis by (simp add: fill_dependencies_def dep_edges_def)
qed

lemma fill_hazards_fold:
  assumes "edges_within n (hazard_pairs st)"
  shows "fill_hazards n (s_hazards st) offsets arr = fold (csr_put offsets) (hazard_pairs st) arr"
proof -
  have "fold (\<lambda>e st. if hz_from e \<ge> n \<or> hz_to e \<ge> n then st
         else csr_put offsets (hz_from e, hz_to e) st) es arr =
      fold (csr_put offsets) (map (\<lambda>e. (hz_from e, hz_to e)) es) arr"
    if "edges_within n (map (\<lambda>e. (hz_from e, hz_to e)) es)" for es
    using that by (induction es arbitrary: arr) (auto simp: edges_within_def)
  then show ?thesis using assms by (simp add: fill_hazards_def hazard_pairs_def)
qed

lemma counted_out_degree:
  "counted n es st \<Longrightarrow> v < n \<Longrightarrow> s_out_degree st ! v = length (edge_targets es v)"
  by (simp add: counted_def length_edge_targets)

lemma sum_list_counts:
  assumes "\<forall>v \<in> set vs. v < n"
  shows "sum_list (map (count_list vs) [0..<n]) = length vs"
  using assms
proof (induction vs)
  case (Cons a vs)
  have "count_list (a # vs) = (\<lambda>v. (if v = a then 1 else 0) + count_list vs v)"
    by auto
  then have "sum_list (map (count_list (a # vs)) [0..<n]) =
      sum_list (map (\<lambda>v. if v = a then 1 else 0) [0..<n]) + sum_list (map (count_list vs) [0..<n])"
    by (simp only: sum_list_addf)
  moreover have "sum_list (map (\<lambda>v. if v = a then 1 else (0 :: nat)) [0..<n]) = 1"
    using Cons.prems by (simp add: interv_sum_list_conv_sum_set_nat)
  ultimately show ?case using Cons by (simp del: count_list.simps)
qed simp

lemma counted_total: "counted n es st \<Longrightarrow> sum_list (s_out_degree st) = s_total_edges st"
  using sum_list_counts [of "map fst es" n]
  by (fastforce simp: counted_def degrees_of_def edges_within_def)

text \<open>
  The graph phase on correctly counted degrees: it returns, reports a cycle exactly when there is one,
  and otherwise emits a permutation that respects the edges.
\<close>

lemma plan_emit_spec:
  assumes c: "counted (length ops) es st"
    and es: "es = dep_edges ops (length ops) @ hazard_pairs st"
  shows "\<exists>r. plan_emit ops st = Some r \<and> (case r of
      Inl e \<Rightarrow> e = SIM_RESULT_DEPENDENCY_ERROR \<and> \<not> acyclic (set es)
    | Inr order \<Rightarrow> acyclic (set es) \<and> distinct order \<and> set order = {..<length ops} \<and>
        (\<forall>(u, v) \<in> set es. precedes order u v))"
proof -
  let ?n = "length ops" and ?off = "csr_offsets (s_out_degree st)"
  have within: "edges_within ?n es" using c by (simp add: counted_def)
  then have hz: "edges_within ?n (hazard_pairs st)" by (auto simp: edges_within_def es)
  have len: "length (s_out_degree st) = ?n" using c by (simp add: counted_def)
  let ?arr = "(replicate ?n 0, replicate (if s_total_edges st > 0 then s_total_edges st else 1) 0)"
  obtain cur adj where fill: "fold (csr_put ?off) es ?arr = (cur, adj)" by fastforce
  have "csr_filled (s_out_degree st) es (fold (csr_put ?off) es ?arr)"
    using within counted_out_degree [OF c] counted_total [OF c] len
    by (intro csr_fill csr_filled_Nil) auto
  then have nb: "csr_neighbors ?off adj v = edge_targets es v" if "v < ?n" for v
    using csr_filled_neighbors that counted_out_degree [OF c that] len fill by metis
  let ?s0 = "\<lparr>k_indegree = s_indegree st, k_queue = filter (\<lambda>i. s_indegree st ! i = 0) [0..<?n],
      k_head = 0, k_order = []\<rparr>"
  have s0: "kahn_inv ?n es ?s0"
  proof -
    have preds: "False" if "(u, v) \<in> set es" "v < ?n" "s_indegree st ! v = 0" for u v
      using that c open_indegree_zero [of es "{}" v] by (simp add: counted_def open_indegree_empty)
    have "?thesis \<longleftrightarrow> (\<forall>j < length (k_queue ?s0). \<forall>u. (u, k_queue ?s0 ! j) \<in> set es \<longrightarrow>
        u \<in> set (take j (k_queue ?s0)))"
      using c by (auto simp: kahn_inv_def counted_def open_indegree_empty)
    then show ?thesis
      using preds nth_mem [of _ "k_queue ?s0"] by fastforce
  qed
  obtain t where t: "kahn_loop ?off adj ?s0 = Some t" "kahn_inv ?n es t" "k_order t = k_queue t"
    using kahn_loop_returns [OF s0 within nb] by blast
  note r = kahn_result [OF t(2,3) within]
  have emit: "plan_emit ops st = Some (if length (k_order t) \<noteq> ?n then Inl SIM_RESULT_DEPENDENCY_ERROR
      else Inr (k_order t))"
    using fill t(1)
    by (simp add: plan_emit_def Let_def fill_dependencies_fold fill_hazards_fold [OF hz] es)
  have full: "length (k_order t) = ?n \<Longrightarrow> set (k_order t) = {..<?n}"
    using r(1,2) by (metis card_lessThan card_subset_eq distinct_card finite_lessThan)
  then have "\<forall>(u, v) \<in> set es. precedes (k_order t) u v" if "length (k_order t) = ?n"
    using r(3) within that by (auto simp: edges_within_def)
  then show ?thesis using emit r(1,4) full by auto
qed

section \<open>Edges and constraints generate the same order\<close>

lemma precedes_trans:
  assumes "distinct xs" "precedes xs a b" "precedes xs b c"
  shows "precedes xs a c"
proof -
  obtain i j where ij: "i < j" "j < length xs" "xs ! i = a" "xs ! j = b"
    using assms(2) by (auto simp: precedes_def)
  obtain j' k where jk: "j' < k" "k < length xs" "xs ! j' = b" "xs ! k = c"
    using assms(3) by (auto simp: precedes_def)
  have "j = j'" using assms(1) ij jk nth_eq_iff_index_eq [of xs j j'] by simp
  then have "i < k" using ij jk by simp
  then show ?thesis using ij jk unfolding precedes_def by blast
qed

lemma precedes_trancl:
  assumes "distinct xs" "\<forall>(u, v) \<in> E. precedes xs u v" "(a, b) \<in> E\<^sup>+"
  shows "precedes xs a b"
  using assms(3)
proof (induction rule: trancl_induct)
  case (base y)
  then show ?case using assms(2) by blast
next
  case (step y z)
  have "precedes xs y z" using assms(2) step.hyps(2) by blast
  with step.IH show ?case by (rule precedes_trans [OF assms(1)])
qed

lemma op_inv_edges:
  assumes "op_inv ops slots (length ops) st"
  defines "E \<equiv> set (dep_edges ops (length ops) @ hazard_pairs st)"
  shows "depends ops \<subseteq> E" "E \<subseteq> depends ops \<union> conflict ops" "conflict ops \<subseteq> E\<^sup>+"
proof -
  show "depends ops \<subseteq> E" by (simp add: E_def set_dep_edges_all)
  show "E \<subseteq> depends ops \<union> conflict ops"
    using assms(1) by (auto simp: E_def set_dep_edges_all op_inv_def)
  let ?R = "op_accesses reads_field ops (length ops)"
    and ?W = "op_accesses writes_field ops (length ops)"
  have ordered: "accesses_ordered E ?R ?W"
    using assms(1) by (simp add: E_def op_inv_def)
  have "(i, j) \<in> E\<^sup>+" if "(i, j) \<in> conflict ops" for i j
  proof -
    from that have "i < j" by (simp add: conflict_def)
    moreover from that obtain f where
      "(i, f) \<in> ?W \<and> (j, f) \<in> ?R \<union> ?W \<or> (i, f) \<in> ?R \<and> (j, f) \<in> ?W"
      by (auto simp: conflict_def op_accesses_def)
    ultimately show ?thesis using ordered unfolding accesses_ordered_def by blast
  qed
  then show "conflict ops \<subseteq> E\<^sup>+" by auto
qed

lemma acyclic_generators:
  assumes "D \<subseteq> E" "E \<subseteq> D \<union> C" "C \<subseteq> E\<^sup>+"
  shows "acyclic E \<longleftrightarrow> acyclic (D \<union> C)"
proof
  assume "acyclic E"
  then have "acyclic (E\<^sup>+)" by (simp add: acyclic_def)
  moreover have "D \<union> C \<subseteq> E\<^sup>+" using assms by auto
  ultimately show "acyclic (D \<union> C)" by (rule acyclic_subset)
next
  assume "acyclic (D \<union> C)"
  then show "acyclic E" using assms(2) by (rule acyclic_subset)
qed

lemma resolve_order_spec:
  assumes fits: "registry_fits ops"
  shows "\<exists>r. resolve_order h ops = Some r \<and> (case r of
      Inl e \<Rightarrow> e = SIM_RESULT_OUT_OF_MEMORY \<or>
        e = SIM_RESULT_INVALID_ARGUMENT \<and> \<not> dependencies_known ops \<or>
        e = SIM_RESULT_DEPENDENCY_ERROR \<and> dependencies_known ops \<and>
          \<not> acyclic (depends ops \<union> conflict ops)
    | Inr order \<Rightarrow> dependencies_known ops \<and> acyclic (depends ops \<union> conflict ops) \<and>
        distinct order \<and> set order = {..<length ops} \<and>
        (\<forall>(u, v) \<in> depends ops \<union> conflict ops. precedes order u v))"
proof (cases "fold_sum (scan_operator h ops (plan_field_slots ops)) [0..<length ops]
      (scan_init (length ops) (plan_field_slots ops))")
  case (Inl e)
  then show ?thesis
    using scan_all_spec [OF fits, of h] by (auto simp: resolve_order_def Let_def)
next
  case (Inr st)
  let ?es = "dep_edges ops (length ops) @ hazard_pairs st"
  have inv: "op_inv ops (plan_field_slots ops) (length ops) st" and known: "dependencies_known ops"
    using scan_all_spec [OF fits, of h] Inr by auto
  note E = op_inv_edges [OF inv]
  have ac: "acyclic (set ?es) \<longleftrightarrow> acyclic (depends ops \<union> conflict ops)"
    by (rule acyclic_generators [OF E])
  have "counted (length ops) ?es st" using inv by (simp add: op_inv_def)
  then obtain r where r: "plan_emit ops st = Some r" "case r of
      Inl e \<Rightarrow> e = SIM_RESULT_DEPENDENCY_ERROR \<and> \<not> acyclic (set ?es)
    | Inr order \<Rightarrow> acyclic (set ?es) \<and> distinct order \<and> set order = {..<length ops} \<and>
        (\<forall>(u, v) \<in> set ?es. precedes order u v)"
    using plan_emit_spec by blast
  have "\<forall>(u, v) \<in> depends ops \<union> conflict ops. precedes order u v"
    if "distinct order" "\<forall>(u, v) \<in> set ?es. precedes order u v" for order
    using precedes_trancl [OF that] E by blast
  then show ?thesis
    using Inr r known ac by (auto simp: resolve_order_def Let_def split: sum.splits)
qed

section \<open>A small registry\<close>

text \<open>
  Three operators for the witnesses: a writer that waits for the third operator, a reader of what it
  writes, and an independent one.
\<close>

definition demo_op :: "nat list \<Rightarrow> nat list \<Rightarrow> nat list \<Rightarrow> SimOperator" where
  "demo_op deps r w = \<lparr>op_name = ''op'', op_guid = 1, op_dependencies = deps, op_read_mask = 0,
     op_write_mask = 0, op_read_indices = r, op_write_indices = w\<rparr>"

definition demo_ops :: "SimOperator list" where
  "demo_ops = [demo_op [2] [] [0], demo_op [] [0] [1], demo_op [] [2] [2]]"

definition demo_plan :: SimOperatorPlan where
  "demo_plan = \<lparr>plan_order = [7], plan_count = 1\<rparr>"

lemma demo_op_simps [simp]:
  "op_dependencies (demo_op d r w) = d" "op_read_mask (demo_op d r w) = 0"
  "op_write_mask (demo_op d r w) = 0" "op_read_indices (demo_op d r w) = r"
  "op_write_indices (demo_op d r w) = w" "op_guid (demo_op d r w) = 1"
  by (simp_all add: demo_op_def)

lemma demo_fits: "registry_fits demo_ops"
  by (simp add: registry_fits_def demo_ops_def no_writer_def)

lemma demo_bound: "fold operator_field_bound demo_ops None = Some 2"
  by (simp add: demo_ops_def operator_field_bound_def raise_field_def)

lemma demo_slots: "plan_field_slots demo_ops = 3"
  by (simp add: plan_field_slots_def demo_bound)

definition demo_scan :: plan_scan where
  "demo_scan = \<lparr>s_indegree = [1, 1, 0], s_out_degree = [1, 0, 1], s_total_edges = 2,
     s_hazards = [\<lparr>hz_from = 0, hz_to = 1, hz_from_guid = 1, hz_to_guid = 1\<rparr>],
     s_hazard_capacity = 12,
     s_readers = [\<lparr>rl_indices = [1], rl_capacity = 4\<rparr>, \<lparr>rl_indices = [], rl_capacity = 0\<rparr>,
                  \<lparr>rl_indices = [], rl_capacity = 4\<rparr>],
     s_last_writer = [0, 1, 2]\<rparr>"

lemmas scan_eval = scan_operator_def scan_fields_def scan_read_def scan_write_def scan_dependency_def
  scan_init_def sim_resolve_add_hazard_def sim_hazard_contains_def sim_hazard_append_def
  sim_reader_list_append_def operator_guid_def no_writer_def calloc_ok_def malloc_ok_def

lemma demo_scan_eval:
  "fold_sum (scan_operator (\<lambda>_. True) demo_ops 3) [0, 1, 2] (scan_init 3 3) = Inr demo_scan"
  by (simp add: scan_eval demo_ops_def demo_scan_def Let_def numeral_3_eq_3 mask_fields.simps)

lemma demo_emit: "plan_emit demo_ops demo_scan = Some (Inr [2, 0, 1])"
  by code_simp

lemma demo_resolves:
  "sim_operator_resolve_plan (\<lambda>_. True) (Some demo_ops) (Some demo_plan) =
     Some (SIM_RESULT_OK, Some \<lparr>plan_order = [2, 0, 1], plan_count = 3\<rparr>)"
proof -
  have n: "length demo_ops = 3" by (simp add: demo_ops_def)
  have upt: "[0..<3] = [0, 1, 2]" by (simp add: upt_rec)
  have "resolve_order (\<lambda>_. True) demo_ops = Some (Inr [2, 0, 1])"
    unfolding resolve_order_def Let_def n demo_slots demo_bound upt demo_scan_eval sum.case demo_emit
    by (simp add: calloc_ok_def malloc_ok_def demo_scan_def)
  then show ?thesis
    by (simp add: sim_operator_resolve_plan_def sim_operator_plan_reset_def n demo_plan_def)
qed

section \<open>Properties of the resolver\<close>

lemma resolve_plan_cases:
  "sim_operator_resolve_plan h (Some ops) (Some p) =
     (if ops = [] then Some (SIM_RESULT_OK, Some (sim_operator_plan_reset p))
      else case resolve_order h ops of
             None \<Rightarrow> None
           | Some (Inl e) \<Rightarrow> Some (e, Some (sim_operator_plan_reset p))
           | Some (Inr order) \<Rightarrow>
               Some (SIM_RESULT_OK, Some (p\<lparr>plan_order := order, plan_count := length ops\<rparr>)))"
  by (auto simp: sim_operator_resolve_plan_def sim_operator_plan_reset_def Let_def
      split: option.splits sum.splits)

text \<open>
  C1. A plan the resolver returns with \<^verbatim>\<open>SIM_RESULT_OK\<close> schedules every registered operator exactly
  once, puts every explicit dependency before its dependent, and keeps any two operators that touch a
  common field, one of them writing it, in registration order (no read-after-write,
  write-after-read or write-after-write hazard is reordered).
\<close>

theorem resolve_plan_sound:
  assumes "registry_fits ops"
    and "sim_operator_resolve_plan h (Some ops) (Some p) = Some (SIM_RESULT_OK, Some plan)"
  shows "plan_count plan = length ops \<and> distinct (plan_order plan) \<and>
    set (plan_order plan) = {..<length ops} \<and>
    (\<forall>(i, j) \<in> depends ops \<union> conflict ops. precedes (plan_order plan) i j)"
proof (cases "ops = []")
  case True
  then show ?thesis
    using assms(2)
    by (auto simp: resolve_plan_cases sim_operator_plan_reset_def depends_def conflict_def)
next
  case False
  obtain r where r: "resolve_order h ops = Some r" using resolve_order_spec [OF assms(1)] by blast
  show ?thesis
  proof (cases r)
    case (Inl e)
    then have "e = SIM_RESULT_OK" using assms(2) False r by (simp add: resolve_plan_cases)
    then show ?thesis using resolve_order_spec [OF assms(1), of h] r Inl by simp
  next
    case (Inr order)
    then have "plan = p\<lparr>plan_order := order, plan_count := length ops\<rparr>"
      using assms(2) r False by (simp add: resolve_plan_cases)
    then show ?thesis using resolve_order_spec [OF assms(1), of h] r Inr by simp
  qed
qed

theorem resolve_plan_sound_witness:
  "registry_fits demo_ops \<and> (2, 0) \<in> depends demo_ops \<and> (0, 1) \<in> conflict demo_ops \<and>
   precedes [2, 0, 1 :: nat] 2 0 \<and> precedes [2, 0, 1 :: nat] 0 1"
proof -
  have d: "(2, 0) \<in> depends demo_ops" by (simp add: depends_def demo_ops_def)
  have c: "(0, 1) \<in> conflict demo_ops"
    by (auto simp: conflict_def demo_ops_def reads_field_def writes_field_def)
  from resolve_plan_sound [OF demo_fits demo_resolves]
  have "\<forall>(i, j) \<in> depends demo_ops \<union> conflict demo_ops. precedes [2, 0, 1] i j" by simp
  then show ?thesis using d c demo_fits by blast
qed

text \<open>
  C2. The resolver always returns, and unless an allocation fails it decides its input: an unknown
  dependency index is \<^verbatim>\<open>SIM_RESULT_INVALID_ARGUMENT\<close>; otherwise it succeeds exactly when dependencies
  and field conflicts together are acyclic, and reports \<^verbatim>\<open>SIM_RESULT_DEPENDENCY_ERROR\<close> when not.
\<close>

theorem resolve_plan_decides:
  assumes "registry_fits ops"
  shows "\<exists>res plan. sim_operator_resolve_plan h (Some ops) (Some p) = Some (res, Some plan) \<and>
    (res = SIM_RESULT_OUT_OF_MEMORY \<or>
     res = (if \<not> dependencies_known ops then SIM_RESULT_INVALID_ARGUMENT
            else if acyclic (depends ops \<union> conflict ops) then SIM_RESULT_OK
            else SIM_RESULT_DEPENDENCY_ERROR))"
proof (cases "ops = []")
  case True
  then have "depends ops \<union> conflict ops = {}" by (auto simp: depends_def conflict_def)
  then have "acyclic (depends ops \<union> conflict ops)" by (simp add: acyclic_def)
  then show ?thesis using True by (simp add: resolve_plan_cases dependencies_known_def)
next
  case False
  obtain r where r: "resolve_order h ops = Some r" using resolve_order_spec [OF assms] by blast
  show ?thesis
    using resolve_order_spec [OF assms, of h] False r
    by (cases r) (auto simp: resolve_plan_cases)
qed

theorem resolve_plan_decides_witness:
  "registry_fits demo_ops \<and> dependencies_known demo_ops \<and>
   acyclic (depends demo_ops \<union> conflict demo_ops)"
proof -
  have k: "dependencies_known demo_ops" by (simp add: dependencies_known_def demo_ops_def)
  obtain res plan where
    "sim_operator_resolve_plan (\<lambda>_. True) (Some demo_ops) (Some demo_plan) = Some (res, Some plan)"
    "res = SIM_RESULT_OUT_OF_MEMORY \<or>
     res = (if \<not> dependencies_known demo_ops then SIM_RESULT_INVALID_ARGUMENT
            else if acyclic (depends demo_ops \<union> conflict demo_ops) then SIM_RESULT_OK
            else SIM_RESULT_DEPENDENCY_ERROR)"
    using resolve_plan_decides [OF demo_fits, of "\<lambda>_. True" demo_plan] by blast
  then have "acyclic (depends demo_ops \<union> conflict demo_ops)"
    using k by (auto simp: demo_resolves split: if_splits)
  then show ?thesis using k demo_fits by blast
qed

text \<open>
  A failed resolution leaves an empty plan behind, never a stale or partial order; a null registry
  or plan is refused and changes nothing.
\<close>

theorem resolve_plan_failure_clears:
  assumes "sim_operator_resolve_plan h reg plan = Some (res, plan')" "res \<noteq> SIM_RESULT_OK"
  shows "plan' = (if reg = None \<or> plan = None then plan
    else Some (the plan\<lparr>plan_order := [], plan_count := 0\<rparr>))"
  using assms
  by (auto simp: sim_operator_resolve_plan_def sim_operator_plan_reset_def Let_def
      split: option.splits sum.splits if_splits)

theorem resolve_plan_failure_clears_witness:
  "sim_operator_resolve_plan (\<lambda>_. False) (Some demo_ops) (Some demo_plan) =
     Some (SIM_RESULT_OUT_OF_MEMORY, Some \<lparr>plan_order = [], plan_count = 0\<rparr>)"
proof -
  have ne: "SIM_RESULT_OUT_OF_MEMORY \<noteq> SIM_RESULT_OK" by simp
  have "\<exists>p'. sim_operator_resolve_plan (\<lambda>_. False) (Some demo_ops) (Some demo_plan) =
      Some (SIM_RESULT_OUT_OF_MEMORY, p')"
    by (simp add: resolve_plan_cases resolve_order_def Let_def calloc_ok_def demo_ops_def)
  then obtain p' where
    r: "sim_operator_resolve_plan (\<lambda>_. False) (Some demo_ops) (Some demo_plan) =
      Some (SIM_RESULT_OUT_OF_MEMORY, p')" ..
  from resolve_plan_failure_clears [OF r ne] r show ?thesis by (simp add: demo_plan_def)
qed

text \<open>
  Operators that only depend on operators registered before them can always be scheduled: field
  hazards follow registration order and add no cycle, so the resolver succeeds unless memory runs out.
\<close>

theorem resolve_plan_backward_dependencies:
  assumes "registry_fits ops"
    and "\<forall>i < length ops. \<forall>d \<in> set (op_dependencies (ops ! i)). d < i"
  shows "\<exists>res plan. sim_operator_resolve_plan h (Some ops) (Some p) = Some (res, Some plan) \<and>
    res \<in> {SIM_RESULT_OK, SIM_RESULT_OUT_OF_MEMORY}"
proof -
  have "depends ops \<union> conflict ops \<subseteq> less_than"
    using assms(2) by (auto simp: depends_def conflict_def)
  then have ac: "acyclic (depends ops \<union> conflict ops)"
    by (rule acyclic_subset [OF wf_acyclic [OF wf_less_than]])
  have known: "dependencies_known ops"
    using assms(2) unfolding dependencies_known_def by (metis in_set_conv_nth order.strict_trans)
  obtain r where r: "resolve_order h ops = Some r" using resolve_order_spec [OF assms(1)] by blast
  show ?thesis
    using resolve_order_spec [OF assms(1), of h] r ac known
    by (cases r) (auto simp: resolve_plan_cases)
qed

theorem resolve_plan_backward_dependencies_witness:
  "\<exists>plan. sim_operator_resolve_plan (\<lambda>_. False) (Some [demo_op [] [] [0], demo_op [0] [0] [0]])
     (Some demo_plan) = Some (SIM_RESULT_OUT_OF_MEMORY, Some plan)"
proof -
  let ?ops = "[demo_op [] [] [0], demo_op [0] [0] [0]]"
  have f: "registry_fits ?ops" by (simp add: registry_fits_def no_writer_def)
  have b: "\<forall>i < length ?ops. \<forall>d \<in> set (op_dependencies (?ops ! i)). d < i"
    by (auto simp: less_Suc_eq)
  have "resolve_order (\<lambda>_. False) ?ops = Some (Inl SIM_RESULT_OUT_OF_MEMORY)"
    by (simp add: resolve_order_def Let_def calloc_ok_def)
  then show ?thesis
    using resolve_plan_backward_dependencies [OF f b, of "\<lambda>_. False" demo_plan]
    by (auto simp: resolve_plan_cases)
qed

end
