(* ===== verification/Row_Major.thy ===== *)
theory Row_Major
  imports Oak_Prelude
begin

text \<open>
  The reference semantics of row-major storage, on natural numbers without overflow: the flat
  position of a multi-index, the multi-index of a flat position, and the strides. Fields
  (\<^verbatim>\<open>core/src/field.c\<close>), buffers (\<^verbatim>\<open>core/src/sim_buffer.c\<close>) and patches (\<^verbatim>\<open>core/src/field_patch.c\<close>) are
  compared with it. The last axis varies fastest.
\<close>

section \<open>Positions and multi-indices\<close>

fun row_major :: "nat list \<Rightarrow> nat list \<Rightarrow> nat" where
  "row_major (d # ds) (i # is) = i * prod_list ds + row_major ds is"
| "row_major _ _ = 0"

fun unravel :: "nat list \<Rightarrow> nat \<Rightarrow> nat list" where
  "unravel [] n = []"
| "unravel (d # ds) n = n div prod_list ds mod d # unravel ds n"

definition in_box :: "nat list \<Rightarrow> nat list \<Rightarrow> bool" where
  "in_box ds is = list_all2 (\<lambda>i d. i < d) is ds"

fun row_major_strides :: "nat list \<Rightarrow> nat list" where
  "row_major_strides [] = []"
| "row_major_strides (d # ds) = prod_list ds # row_major_strides ds"

definition dot :: "nat list \<Rightarrow> nat list \<Rightarrow> nat" where
  "dot xs ys = sum_list (map2 (*) xs ys)"

lemma in_box_Nil [simp]: "in_box [] is \<longleftrightarrow> is = []" "in_box ds [] \<longleftrightarrow> ds = []"
  by (auto simp: in_box_def)

lemma in_box_Cons [simp]: "in_box (d # ds) (i # is) \<longleftrightarrow> i < d \<and> in_box ds is"
  by (simp add: in_box_def)

lemma in_box_length: "in_box ds is \<Longrightarrow> length is = length ds"
  by (auto simp: in_box_def dest: list_all2_lengthD)

lemma in_box_nth: "in_box ds is \<Longrightarrow> k < length ds \<Longrightarrow> is ! k < ds ! k"
  by (auto simp: in_box_def list_all2_conv_all_nth)

lemma in_boxI: "length is = length ds \<Longrightarrow> (\<And>k. k < length ds \<Longrightarrow> is ! k < ds ! k) \<Longrightarrow> in_box ds is"
  by (auto simp: in_box_def list_all2_conv_all_nth)

lemma in_box_snoc [simp]: "in_box (ds @ [d]) (is @ [i]) \<longleftrightarrow> i < d \<and> in_box ds is"
  unfolding in_box_def by (subst list_all2_rev [symmetric]) (simp add: list_all2_rev)

lemma in_box_cases:
  assumes "in_box (ds @ [d]) is"
  obtains js i where "is = js @ [i]" "i < d" "in_box ds js"
  using assms by (cases "is" rule: rev_cases) auto

lemma row_major_less: "in_box ds is \<Longrightarrow> row_major ds is < prod_list ds"
proof (induction ds "is" rule: row_major.induct)
  case (1 d ds i "is")
  then have "row_major (d # ds) (i # is) < Suc i * prod_list ds" by simp
  also have "\<dots> \<le> d * prod_list ds" using 1 by (intro mult_le_mono1) simp
  finally show ?case by simp
qed auto

lemma unravel_shift: "unravel ds (k * prod_list ds + n) = unravel ds n"
proof (induction ds arbitrary: k n)
  case (Cons d ds)
  have "k * prod_list (d # ds) + n = (k * d) * prod_list ds + n" by simp
  moreover have "(k * d * prod_list ds + n) div prod_list ds mod d = n div prod_list ds mod d"
    by (cases "prod_list ds = 0") simp_all
  ultimately show ?case using Cons.IH [of "k * d" n] by (simp add: mult.assoc)
qed simp

lemma unravel_row_major: "in_box ds is \<Longrightarrow> unravel ds (row_major ds is) = is"
proof (induction ds "is" rule: row_major.induct)
  case (1 d ds i "is")
  then have "row_major ds is < prod_list ds" by (simp add: row_major_less)
  then show ?case using 1 by (simp add: unravel_shift)
qed auto

lemma in_box_unravel: "n < prod_list ds \<Longrightarrow> in_box ds (unravel ds n)"
proof -
  have "0 \<notin> set ds \<Longrightarrow> in_box ds (unravel ds n)" for n by (induction ds) auto
  then show "n < prod_list ds \<Longrightarrow> ?thesis" by (metis less_nat_zero_code prod_list_zero_iff)
qed

lemma row_major_unravel: "n < prod_list ds \<Longrightarrow> row_major ds (unravel ds n) = n"
proof (induction ds arbitrary: n)
  case (Cons d ds)
  then have pos: "0 < prod_list ds" by (metis gr_zeroI less_nat_zero_code mult_0_right prod_list.Cons)
  have "n div prod_list ds < d" using Cons.prems pos by (simp add: less_mult_imp_div_less)
  moreover have "unravel ds n = unravel ds (n mod prod_list ds)"
    using unravel_shift [of ds "n div prod_list ds" "n mod prod_list ds"] by simp
  ultimately show ?case using Cons.IH [of "n mod prod_list ds"] pos by simp
qed simp

lemma row_major_inj:
  "in_box ds is \<Longrightarrow> in_box ds js \<Longrightarrow> row_major ds is = row_major ds js \<Longrightarrow> is = js"
  by (metis unravel_row_major)

lemma row_major_snoc:
  "length is = length ds \<Longrightarrow> row_major (ds @ [d]) (is @ [i]) = row_major ds is * d + i"
  by (induction ds "is" rule: list_induct2') (auto simp: algebra_simps)

lemma unravel_snoc: "unravel (ds @ [d]) n = unravel ds (n div d) @ [n mod d]"
  by (induction ds) (auto simp: div_mult2_eq mult.commute)

lemma length_row_major_strides [simp]: "length (row_major_strides ds) = length ds"
  by (induction ds) auto

lemma row_major_strides_snoc:
  "row_major_strides (ds @ [d]) = map (\<lambda>s. s * d) (row_major_strides ds) @ [1]"
  by (induction ds) auto

lemma dot_Cons [simp]: "dot (x # xs) (y # ys) = x * y + dot xs ys"
  by (simp add: dot_def)

lemma dot_Nil [simp]: "dot [] ys = 0" "dot xs [] = 0"
  by (simp_all add: dot_def)

lemma dot_snoc: "length xs = length ys \<Longrightarrow> dot (xs @ [x]) (ys @ [y]) = dot xs ys + x * y"
  by (simp add: dot_def)

lemma dot_row_major_strides:
  "length is = length ds \<Longrightarrow> dot is (row_major_strides ds) = row_major ds is"
  by (induction ds "is" rule: list_induct2') auto

section \<open>Addressing\<close>

text \<open>
  What a client of an indexed store relies on: for a well-formed layout the valid indices have
  offsets inside the store, and different valid indices have different offsets. Then elements do not
  alias: writing one leaves the others alone.
\<close>

locale addressing =
  fixes wf_layout :: "'l \<Rightarrow> bool"
    and valid_index :: "'l \<Rightarrow> 'i \<Rightarrow> bool"
    and offset_of :: "'l \<Rightarrow> 'i \<Rightarrow> nat"
    and extent :: "'l \<Rightarrow> nat"
  assumes offset_bound: "wf_layout l \<Longrightarrow> valid_index l i \<Longrightarrow> offset_of l i < extent l"
    and offset_inj: "wf_layout l \<Longrightarrow> valid_index l i \<Longrightarrow> valid_index l j \<Longrightarrow>
      offset_of l i = offset_of l j \<Longrightarrow> i = j"
begin

lemma element_bytes_bound:
  assumes "wf_layout l" "valid_index l i"
  shows "offset_of l i * k + k \<le> extent l * k"
  using offset_bound [OF assms] by (rule block_before)

lemma elements_disjoint:
  assumes "wf_layout l" "valid_index l i" "valid_index l j" "i \<noteq> j"
  shows "{offset_of l i * k ..< offset_of l i * k + k} \<inter>
         {offset_of l j * k ..< offset_of l j * k + k} = {}"
proof -
  have "offset_of l i \<noteq> offset_of l j" using offset_inj assms by blast
  from blocks_apart [OF this, of k] show ?thesis by auto
qed

lemma update_frame:
  assumes "wf_layout l" "valid_index l i" "valid_index l j" "length store = extent l"
  shows "store[offset_of l i := v] ! offset_of l j = (if i = j then v else store ! offset_of l j)"
  using offset_inj [OF assms(1-3)] offset_bound [OF assms(1,3)] assms(4)
  by (metis nth_list_update_eq nth_list_update_neq)

end

interpretation row_major_box: addressing "\<lambda>_. True" in_box row_major prod_list
  by unfold_locales (auto intro: row_major_less row_major_inj)

end
