(* ===== verification/Scalar_Domain.thy ===== *)
theory Scalar_Domain
  imports Oak_Prelude
begin

text \<open>
  The metadata vocabulary of \<^verbatim>\<open>include/oakfield/field.h\<close> and the pure functions on it of
  \<^verbatim>\<open>core/src/field.c\<close> and \<^verbatim>\<open>core/src/sim_buffer.c\<close>: scalar domains, their capabilities, the names
  they are parsed from and printed as, and the storage types of buffers.

  A parser of the source returns a flag and stores its result through a pointer; here it returns an
  \<open>option\<close>, \<open>None\<close> for \<^verbatim>\<open>false\<close>.
\<close>

unbundle bit_operations_syntax

section \<open>Data\<close>

datatype SimFieldDomain =
    SIM_FIELD_DOMAIN_UNKNOWN
  | SIM_FIELD_DOMAIN_PHYSICAL
  | SIM_FIELD_DOMAIN_SPECTRAL
  | SIM_FIELD_DOMAIN_HYBRID

datatype SimFieldValueKind =
    SIM_FIELD_VALUE_REAL_SCALAR
  | SIM_FIELD_VALUE_COMPLEX_SCALAR
  | SIM_FIELD_VALUE_COMPLEX_REAL_CONSTRAINT
  | SIM_FIELD_VALUE_COMPLEX_IMAG_ZERO_CONSTRAINT
  | SIM_FIELD_VALUE_UNKNOWN

record SimFieldRepresentation =
  repr_domain :: SimFieldDomain
  repr_value_kind :: SimFieldValueKind

datatype SimScalarDomainKind =
    SIM_SCALAR_DOMAIN_UNKNOWN
  | SIM_SCALAR_DOMAIN_REAL
  | SIM_SCALAR_DOMAIN_COMPLEX
  | SIM_SCALAR_DOMAIN_INTEGER
  | SIM_SCALAR_DOMAIN_MODULAR

record SimScalarDomain =
  sd_kind :: SimScalarDomainKind
  sd_bit_width :: u16
  sd_is_signed :: bool
  sd_modulus :: u64

datatype SimBufferDataType =
    SIM_BUFFER_DOUBLE
  | SIM_BUFFER_COMPLEX_DOUBLE
  | SIM_BUFFER_UNKNOWN
  | SIM_BUFFER_I32
  | SIM_BUFFER_I64
  | SIM_BUFFER_U32
  | SIM_BUFFER_U64
  | SIM_BUFFER_I8
  | SIM_BUFFER_U8

section \<open>Scalar domains\<close>

definition sim_scalar_domain_make ::
  "SimScalarDomainKind \<Rightarrow> u16 \<Rightarrow> bool \<Rightarrow> u64 \<Rightarrow> SimScalarDomain" where
  "sim_scalar_domain_make kind bit_width is_signed modulus =
     \<lparr>sd_kind = kind, sd_bit_width = bit_width, sd_is_signed = is_signed, sd_modulus = modulus\<rparr>"

definition sim_scalar_domain_unknown :: SimScalarDomain where
  "sim_scalar_domain_unknown = sim_scalar_domain_make SIM_SCALAR_DOMAIN_UNKNOWN 0 False 0"

definition sim_scalar_domain_f64 :: SimScalarDomain where
  "sim_scalar_domain_f64 = sim_scalar_domain_make SIM_SCALAR_DOMAIN_REAL 64 True 0"

definition sim_scalar_domain_c64 :: SimScalarDomain where
  "sim_scalar_domain_c64 = sim_scalar_domain_make SIM_SCALAR_DOMAIN_COMPLEX 64 True 0"

definition sim_scalar_domain_i8 :: SimScalarDomain where
  "sim_scalar_domain_i8 = sim_scalar_domain_make SIM_SCALAR_DOMAIN_INTEGER 8 True 0"

definition sim_scalar_domain_i32 :: SimScalarDomain where
  "sim_scalar_domain_i32 = sim_scalar_domain_make SIM_SCALAR_DOMAIN_INTEGER 32 True 0"

definition sim_scalar_domain_i64 :: SimScalarDomain where
  "sim_scalar_domain_i64 = sim_scalar_domain_make SIM_SCALAR_DOMAIN_INTEGER 64 True 0"

definition sim_scalar_domain_u8 :: SimScalarDomain where
  "sim_scalar_domain_u8 = sim_scalar_domain_make SIM_SCALAR_DOMAIN_INTEGER 8 False 0"

definition sim_scalar_domain_u32 :: SimScalarDomain where
  "sim_scalar_domain_u32 = sim_scalar_domain_make SIM_SCALAR_DOMAIN_INTEGER 32 False 0"

definition sim_scalar_domain_u64 :: SimScalarDomain where
  "sim_scalar_domain_u64 = sim_scalar_domain_make SIM_SCALAR_DOMAIN_INTEGER 64 False 0"

lemmas scalar_domain_consts =
  sim_scalar_domain_make_def sim_scalar_domain_unknown_def sim_scalar_domain_f64_def
  sim_scalar_domain_c64_def sim_scalar_domain_i8_def sim_scalar_domain_i32_def
  sim_scalar_domain_i64_def sim_scalar_domain_u8_def sim_scalar_domain_u32_def
  sim_scalar_domain_u64_def

definition sim_scalar_domain_from_legacy_complex_flag :: "bool \<Rightarrow> SimScalarDomain" where
  "sim_scalar_domain_from_legacy_complex_flag is_complex =
     (if is_complex then sim_scalar_domain_c64 else sim_scalar_domain_f64)"

definition sim_scalar_domain_equal :: "SimScalarDomain \<Rightarrow> SimScalarDomain \<Rightarrow> bool" where
  "sim_scalar_domain_equal lhs rhs \<longleftrightarrow>
     sd_kind lhs = sd_kind rhs \<and> sd_bit_width lhs = sd_bit_width rhs \<and>
     sd_is_signed lhs = sd_is_signed rhs \<and> sd_modulus lhs = sd_modulus rhs"

definition sim_scalar_domain_validate :: "SimScalarDomain \<Rightarrow> bool" where
  "sim_scalar_domain_validate d =
     (case sd_kind d of
        SIM_SCALAR_DOMAIN_UNKNOWN \<Rightarrow> sd_bit_width d = 0 \<and> \<not> sd_is_signed d \<and> sd_modulus d = 0
      | SIM_SCALAR_DOMAIN_REAL \<Rightarrow> sd_bit_width d = 64 \<and> sd_modulus d = 0
      | SIM_SCALAR_DOMAIN_COMPLEX \<Rightarrow> sd_bit_width d = 64 \<and> sd_modulus d = 0
      | SIM_SCALAR_DOMAIN_INTEGER \<Rightarrow>
          (sd_bit_width d = 8 \<or> sd_bit_width d = 32 \<or> sd_bit_width d = 64) \<and> sd_modulus d = 0
      | SIM_SCALAR_DOMAIN_MODULAR \<Rightarrow>
          sd_bit_width d > 0 \<and> sd_bit_width d \<le> 64 \<and> sd_modulus d > 1)"

definition sim_scalar_domain_is_complex :: "SimScalarDomain \<Rightarrow> bool" where
  "sim_scalar_domain_is_complex d \<longleftrightarrow> sd_kind d = SIM_SCALAR_DOMAIN_COMPLEX"

definition sim_scalar_domain_is_integer :: "SimScalarDomain \<Rightarrow> bool" where
  "sim_scalar_domain_is_integer d \<longleftrightarrow> sd_kind d = SIM_SCALAR_DOMAIN_INTEGER"

section \<open>Capabilities\<close>

definition SIM_SCALAR_CAP_NONE :: u32 where "SIM_SCALAR_CAP_NONE = 0"

definition SIM_SCALAR_CAP_ADDITIVE_ARITHMETIC :: u32 where
  "SIM_SCALAR_CAP_ADDITIVE_ARITHMETIC = push_bit 0 1"

definition SIM_SCALAR_CAP_MULTIPLICATIVE_ARITHMETIC :: u32 where
  "SIM_SCALAR_CAP_MULTIPLICATIVE_ARITHMETIC = push_bit 1 1"

definition SIM_SCALAR_CAP_DIVISION :: u32 where "SIM_SCALAR_CAP_DIVISION = push_bit 2 1"

definition SIM_SCALAR_CAP_ORDERING :: u32 where "SIM_SCALAR_CAP_ORDERING = push_bit 3 1"

definition SIM_SCALAR_CAP_FLOOR :: u32 where "SIM_SCALAR_CAP_FLOOR = push_bit 4 1"

definition SIM_SCALAR_CAP_MODULO :: u32 where "SIM_SCALAR_CAP_MODULO = push_bit 5 1"

definition SIM_SCALAR_CAP_ANALYTIC_CALL :: u32 where "SIM_SCALAR_CAP_ANALYTIC_CALL = push_bit 6 1"

definition SIM_SCALAR_CAP_CONJUGATION :: u32 where "SIM_SCALAR_CAP_CONJUGATION = push_bit 7 1"

definition SIM_SCALAR_CAP_COMPLEX_ROTATION :: u32 where
  "SIM_SCALAR_CAP_COMPLEX_ROTATION = push_bit 8 1"

definition SIM_SCALAR_CAP_POWER :: u32 where "SIM_SCALAR_CAP_POWER = push_bit 9 1"

lemmas scalar_cap_consts =
  SIM_SCALAR_CAP_NONE_def SIM_SCALAR_CAP_ADDITIVE_ARITHMETIC_def
  SIM_SCALAR_CAP_MULTIPLICATIVE_ARITHMETIC_def SIM_SCALAR_CAP_DIVISION_def
  SIM_SCALAR_CAP_ORDERING_def SIM_SCALAR_CAP_FLOOR_def SIM_SCALAR_CAP_MODULO_def
  SIM_SCALAR_CAP_ANALYTIC_CALL_def SIM_SCALAR_CAP_CONJUGATION_def
  SIM_SCALAR_CAP_COMPLEX_ROTATION_def SIM_SCALAR_CAP_POWER_def

definition sim_scalar_domain_capabilities :: "SimScalarDomain \<Rightarrow> u32" where
  "sim_scalar_domain_capabilities d =
     (if \<not> sim_scalar_domain_validate d then SIM_SCALAR_CAP_NONE
      else case sd_kind d of
        SIM_SCALAR_DOMAIN_REAL \<Rightarrow>
          SIM_SCALAR_CAP_ADDITIVE_ARITHMETIC OR SIM_SCALAR_CAP_MULTIPLICATIVE_ARITHMETIC OR
          SIM_SCALAR_CAP_DIVISION OR SIM_SCALAR_CAP_ORDERING OR SIM_SCALAR_CAP_FLOOR OR
          SIM_SCALAR_CAP_MODULO OR SIM_SCALAR_CAP_ANALYTIC_CALL OR SIM_SCALAR_CAP_POWER
      | SIM_SCALAR_DOMAIN_COMPLEX \<Rightarrow>
          SIM_SCALAR_CAP_ADDITIVE_ARITHMETIC OR SIM_SCALAR_CAP_MULTIPLICATIVE_ARITHMETIC OR
          SIM_SCALAR_CAP_DIVISION OR SIM_SCALAR_CAP_CONJUGATION OR
          SIM_SCALAR_CAP_COMPLEX_ROTATION OR SIM_SCALAR_CAP_POWER
      | SIM_SCALAR_DOMAIN_INTEGER \<Rightarrow>
          SIM_SCALAR_CAP_ADDITIVE_ARITHMETIC OR SIM_SCALAR_CAP_MULTIPLICATIVE_ARITHMETIC OR
          SIM_SCALAR_CAP_DIVISION OR SIM_SCALAR_CAP_ORDERING OR SIM_SCALAR_CAP_FLOOR OR
          SIM_SCALAR_CAP_MODULO OR SIM_SCALAR_CAP_POWER
      | SIM_SCALAR_DOMAIN_MODULAR \<Rightarrow>
          SIM_SCALAR_CAP_ADDITIVE_ARITHMETIC OR SIM_SCALAR_CAP_MULTIPLICATIVE_ARITHMETIC
      | SIM_SCALAR_DOMAIN_UNKNOWN \<Rightarrow> SIM_SCALAR_CAP_NONE)"

definition sim_scalar_domain_supports :: "SimScalarDomain \<Rightarrow> u32 \<Rightarrow> bool" where
  "sim_scalar_domain_supports d capability_mask =
     (let available = sim_scalar_domain_capabilities d
      in if capability_mask = 0 then True else available AND capability_mask = capability_mask)"

section \<open>Value kinds\<close>

definition sim_field_value_kind_is_complex_valued :: "SimFieldValueKind \<Rightarrow> bool" where
  "sim_field_value_kind_is_complex_valued kind \<longleftrightarrow>
     kind = SIM_FIELD_VALUE_COMPLEX_SCALAR \<or> kind = SIM_FIELD_VALUE_COMPLEX_REAL_CONSTRAINT \<or>
     kind = SIM_FIELD_VALUE_COMPLEX_IMAG_ZERO_CONSTRAINT"

definition sim_field_value_kind_has_imag_zero_constraint :: "SimFieldValueKind \<Rightarrow> bool" where
  "sim_field_value_kind_has_imag_zero_constraint kind \<longleftrightarrow>
     kind = SIM_FIELD_VALUE_COMPLEX_IMAG_ZERO_CONSTRAINT"

definition sim_field_value_kind_has_spectral_real_constraint :: "SimFieldValueKind \<Rightarrow> bool" where
  "sim_field_value_kind_has_spectral_real_constraint kind \<longleftrightarrow>
     kind = SIM_FIELD_VALUE_COMPLEX_REAL_CONSTRAINT"

definition sim_field_representation_requires_complex_storage :: "SimFieldRepresentation \<Rightarrow> bool" where
  "sim_field_representation_requires_complex_storage repr =
     sim_field_value_kind_is_complex_valued (repr_value_kind repr)"

definition sim_scalar_domain_from_field_representation ::
  "SimFieldRepresentation \<Rightarrow> SimScalarDomain" where
  "sim_scalar_domain_from_field_representation repr =
     (if repr_value_kind repr = SIM_FIELD_VALUE_REAL_SCALAR then sim_scalar_domain_f64
      else if sim_field_value_kind_is_complex_valued (repr_value_kind repr) then sim_scalar_domain_c64
      else sim_scalar_domain_unknown)"

definition sim_field_representation_has_imag_zero_constraint :: "SimFieldRepresentation \<Rightarrow> bool" where
  "sim_field_representation_has_imag_zero_constraint repr =
     sim_field_value_kind_has_imag_zero_constraint (repr_value_kind repr)"

definition sim_field_representation_has_spectral_real_constraint ::
  "SimFieldRepresentation \<Rightarrow> bool" where
  "sim_field_representation_has_spectral_real_constraint repr \<longleftrightarrow>
     repr_domain repr = SIM_FIELD_DOMAIN_SPECTRAL \<and>
     sim_field_value_kind_has_spectral_real_constraint (repr_value_kind repr)"

section \<open>Storage types\<close>

definition sim_buffer_element_size :: "SimBufferDataType \<Rightarrow> size_t" where
  "sim_buffer_element_size type =
     (case type of
        SIM_BUFFER_DOUBLE \<Rightarrow> 8
      | SIM_BUFFER_COMPLEX_DOUBLE \<Rightarrow> 16
      | SIM_BUFFER_I8 \<Rightarrow> 1
      | SIM_BUFFER_U8 \<Rightarrow> 1
      | SIM_BUFFER_I32 \<Rightarrow> 4
      | SIM_BUFFER_I64 \<Rightarrow> 8
      | SIM_BUFFER_U32 \<Rightarrow> 4
      | SIM_BUFFER_U64 \<Rightarrow> 8
      | SIM_BUFFER_UNKNOWN \<Rightarrow> 0)"

definition sim_buffer_data_type_from_element_size :: "size_t \<Rightarrow> SimBufferDataType" where
  "sim_buffer_data_type_from_element_size element_size =
     (if element_size = 8 then SIM_BUFFER_DOUBLE
      else if element_size = 16 then SIM_BUFFER_COMPLEX_DOUBLE
      else SIM_BUFFER_UNKNOWN)"

definition sim_buffer_data_type_from_scalar_domain :: "SimScalarDomain \<Rightarrow> SimBufferDataType" where
  "sim_buffer_data_type_from_scalar_domain d =
     (if \<not> sim_scalar_domain_validate d then SIM_BUFFER_UNKNOWN
      else case sd_kind d of
        SIM_SCALAR_DOMAIN_REAL \<Rightarrow>
          if sd_bit_width d = 64 then SIM_BUFFER_DOUBLE else SIM_BUFFER_UNKNOWN
      | SIM_SCALAR_DOMAIN_COMPLEX \<Rightarrow>
          if sd_bit_width d = 64 then SIM_BUFFER_COMPLEX_DOUBLE else SIM_BUFFER_UNKNOWN
      | SIM_SCALAR_DOMAIN_INTEGER \<Rightarrow>
          if sd_bit_width d = 8 then if sd_is_signed d then SIM_BUFFER_I8 else SIM_BUFFER_U8
          else if sd_bit_width d = 32 then if sd_is_signed d then SIM_BUFFER_I32 else SIM_BUFFER_U32
          else if sd_bit_width d = 64 then if sd_is_signed d then SIM_BUFFER_I64 else SIM_BUFFER_U64
          else SIM_BUFFER_UNKNOWN
      | SIM_SCALAR_DOMAIN_UNKNOWN \<Rightarrow> SIM_BUFFER_UNKNOWN
      | SIM_SCALAR_DOMAIN_MODULAR \<Rightarrow> SIM_BUFFER_UNKNOWN)"

definition sim_buffer_data_type_to_scalar_domain :: "SimBufferDataType \<Rightarrow> SimScalarDomain" where
  "sim_buffer_data_type_to_scalar_domain type =
     (case type of
        SIM_BUFFER_DOUBLE \<Rightarrow> sim_scalar_domain_f64
      | SIM_BUFFER_COMPLEX_DOUBLE \<Rightarrow> sim_scalar_domain_c64
      | SIM_BUFFER_I8 \<Rightarrow> sim_scalar_domain_i8
      | SIM_BUFFER_U8 \<Rightarrow> sim_scalar_domain_u8
      | SIM_BUFFER_I32 \<Rightarrow> sim_scalar_domain_i32
      | SIM_BUFFER_I64 \<Rightarrow> sim_scalar_domain_i64
      | SIM_BUFFER_U32 \<Rightarrow> sim_scalar_domain_u32
      | SIM_BUFFER_U64 \<Rightarrow> sim_scalar_domain_u64
      | SIM_BUFFER_UNKNOWN \<Rightarrow> sim_scalar_domain_unknown)"

definition sim_buffer_data_type_name :: "SimBufferDataType \<Rightarrow> string" where
  "sim_buffer_data_type_name type =
     (case type of
        SIM_BUFFER_DOUBLE \<Rightarrow> ''double''
      | SIM_BUFFER_COMPLEX_DOUBLE \<Rightarrow> ''complex_double''
      | SIM_BUFFER_I8 \<Rightarrow> ''i8''
      | SIM_BUFFER_U8 \<Rightarrow> ''u8''
      | SIM_BUFFER_I32 \<Rightarrow> ''i32''
      | SIM_BUFFER_I64 \<Rightarrow> ''i64''
      | SIM_BUFFER_U32 \<Rightarrow> ''u32''
      | SIM_BUFFER_U64 \<Rightarrow> ''u64''
      | SIM_BUFFER_UNKNOWN \<Rightarrow> ''unknown'')"

definition sim_field_default_scalar_domain :: "size_t \<Rightarrow> SimScalarDomain" where
  "sim_field_default_scalar_domain element_size =
     sim_buffer_data_type_to_scalar_domain (sim_buffer_data_type_from_element_size element_size)"

definition sim_field_element_size_for_scalar_domain :: "SimScalarDomain \<Rightarrow> size_t" where
  "sim_field_element_size_for_scalar_domain d =
     sim_buffer_element_size (sim_buffer_data_type_from_scalar_domain d)"

definition sim_field_storage_matches_scalar_domain :: "size_t \<Rightarrow> SimScalarDomain \<Rightarrow> bool" where
  "sim_field_storage_matches_scalar_domain element_size d =
     (if element_size = 0 \<or> \<not> sim_scalar_domain_validate d then False
      else case sd_kind d of
        SIM_SCALAR_DOMAIN_UNKNOWN \<Rightarrow> True
      | SIM_SCALAR_DOMAIN_REAL \<Rightarrow> element_size = 8
      | SIM_SCALAR_DOMAIN_COMPLEX \<Rightarrow> element_size = 16
      | SIM_SCALAR_DOMAIN_INTEGER \<Rightarrow> ucast (sd_bit_width d) = element_size * 8
      | SIM_SCALAR_DOMAIN_MODULAR \<Rightarrow> ucast (sd_bit_width d) = element_size * 8)"

section \<open>Names\<close>

text \<open>\<^verbatim>\<open>tolower\<close> of the C locale, and the comparison loop over two terminated strings.\<close>

definition tolower :: "char \<Rightarrow> char" where
  "tolower c = (let n = of_char c :: nat in if 65 \<le> n \<and> n \<le> 90 then char_of (n + 32) else c)"

fun text_iequals_loop :: "string \<Rightarrow> string \<Rightarrow> bool" where
  "text_iequals_loop (a # as) (b # bs) =
     (if tolower a \<noteq> tolower b then False else text_iequals_loop as bs)"
| "text_iequals_loop as bs = (as = [] \<and> bs = [])"

definition sim_field_text_iequals :: "string option \<Rightarrow> string option \<Rightarrow> bool" where
  "sim_field_text_iequals a b =
     (case (a, b) of (Some as, Some bs) \<Rightarrow> text_iequals_loop as bs | _ \<Rightarrow> False)"

text \<open>
  The parsers are chains of comparisons with the literals of the source, tried in order; the first
  entry that matches decides.
\<close>

definition first_match :: "(string \<times> 'a) list \<Rightarrow> string option \<Rightarrow> 'a option" where
  "first_match table text =
     map_option snd (find (\<lambda>(literal, _). sim_field_text_iequals text (Some literal)) table)"

definition sim_scalar_domain_kind_name :: "SimScalarDomainKind \<Rightarrow> string" where
  "sim_scalar_domain_kind_name kind =
     (case kind of
        SIM_SCALAR_DOMAIN_REAL \<Rightarrow> ''real''
      | SIM_SCALAR_DOMAIN_COMPLEX \<Rightarrow> ''complex''
      | SIM_SCALAR_DOMAIN_INTEGER \<Rightarrow> ''integer''
      | SIM_SCALAR_DOMAIN_MODULAR \<Rightarrow> ''modular''
      | SIM_SCALAR_DOMAIN_UNKNOWN \<Rightarrow> ''unknown'')"

definition sim_scalar_domain_kind_from_name :: "string option \<Rightarrow> SimScalarDomainKind option" where
  "sim_scalar_domain_kind_from_name = first_match
     [(''unknown'', SIM_SCALAR_DOMAIN_UNKNOWN),
      (''real'', SIM_SCALAR_DOMAIN_REAL),
      (''complex'', SIM_SCALAR_DOMAIN_COMPLEX),
      (''integer'', SIM_SCALAR_DOMAIN_INTEGER),
      (''modular'', SIM_SCALAR_DOMAIN_MODULAR)]"

definition sim_scalar_domain_name :: "SimScalarDomain \<Rightarrow> string" where
  "sim_scalar_domain_name d =
     (if sd_kind d = SIM_SCALAR_DOMAIN_UNKNOWN then ''unknown''
      else if sd_kind d = SIM_SCALAR_DOMAIN_REAL \<and> sd_bit_width d = 64 then ''f64''
      else if sd_kind d = SIM_SCALAR_DOMAIN_COMPLEX \<and> sd_bit_width d = 64 then ''c64''
      else if sd_kind d = SIM_SCALAR_DOMAIN_INTEGER \<and> sd_bit_width d = 8 \<and> sd_is_signed d then ''i8''
      else if sd_kind d = SIM_SCALAR_DOMAIN_INTEGER \<and> sd_bit_width d = 32 \<and> sd_is_signed d
        then ''i32''
      else if sd_kind d = SIM_SCALAR_DOMAIN_INTEGER \<and> sd_bit_width d = 64 \<and> sd_is_signed d
        then ''i64''
      else if sd_kind d = SIM_SCALAR_DOMAIN_INTEGER \<and> sd_bit_width d = 8 \<and> \<not> sd_is_signed d
        then ''u8''
      else if sd_kind d = SIM_SCALAR_DOMAIN_INTEGER \<and> sd_bit_width d = 32 \<and> \<not> sd_is_signed d
        then ''u32''
      else if sd_kind d = SIM_SCALAR_DOMAIN_INTEGER \<and> sd_bit_width d = 64 \<and> \<not> sd_is_signed d
        then ''u64''
      else sim_scalar_domain_kind_name (sd_kind d))"

definition sim_scalar_domain_from_name :: "string option \<Rightarrow> SimScalarDomain option" where
  "sim_scalar_domain_from_name = first_match
     [(''unknown'', sim_scalar_domain_unknown),
      (''f64'', sim_scalar_domain_f64), (''real'', sim_scalar_domain_f64),
      (''c64'', sim_scalar_domain_c64), (''complex'', sim_scalar_domain_c64),
      (''i8'', sim_scalar_domain_i8),
      (''i32'', sim_scalar_domain_i32),
      (''i64'', sim_scalar_domain_i64), (''integer'', sim_scalar_domain_i64),
      (''u32'', sim_scalar_domain_u32),
      (''u8'', sim_scalar_domain_u8),
      (''u64'', sim_scalar_domain_u64)]"

definition sim_field_domain_name :: "SimFieldDomain \<Rightarrow> string" where
  "sim_field_domain_name d =
     (case d of
        SIM_FIELD_DOMAIN_PHYSICAL \<Rightarrow> ''physical''
      | SIM_FIELD_DOMAIN_SPECTRAL \<Rightarrow> ''spectral''
      | SIM_FIELD_DOMAIN_HYBRID \<Rightarrow> ''hybrid''
      | SIM_FIELD_DOMAIN_UNKNOWN \<Rightarrow> ''unknown'')"

definition sim_field_domain_from_name :: "string option \<Rightarrow> SimFieldDomain option" where
  "sim_field_domain_from_name = first_match
     [(''unknown'', SIM_FIELD_DOMAIN_UNKNOWN),
      (''physical'', SIM_FIELD_DOMAIN_PHYSICAL), (''spatial'', SIM_FIELD_DOMAIN_PHYSICAL),
      (''spectral'', SIM_FIELD_DOMAIN_SPECTRAL), (''frequency'', SIM_FIELD_DOMAIN_SPECTRAL),
      (''hybrid'', SIM_FIELD_DOMAIN_HYBRID)]"

definition sim_field_value_kind_name :: "SimFieldValueKind \<Rightarrow> string" where
  "sim_field_value_kind_name kind =
     (case kind of
        SIM_FIELD_VALUE_REAL_SCALAR \<Rightarrow> ''real''
      | SIM_FIELD_VALUE_COMPLEX_SCALAR \<Rightarrow> ''complex''
      | SIM_FIELD_VALUE_COMPLEX_IMAG_ZERO_CONSTRAINT \<Rightarrow> ''complex(imag-zero-constraint)''
      | SIM_FIELD_VALUE_COMPLEX_REAL_CONSTRAINT \<Rightarrow> ''complex(real-constraint)''
      | SIM_FIELD_VALUE_UNKNOWN \<Rightarrow> ''unknown'')"

definition sim_field_value_kind_from_name :: "string option \<Rightarrow> SimFieldValueKind option" where
  "sim_field_value_kind_from_name = first_match
     [(''unknown'', SIM_FIELD_VALUE_UNKNOWN),
      (''real'', SIM_FIELD_VALUE_REAL_SCALAR), (''real_scalar'', SIM_FIELD_VALUE_REAL_SCALAR),
      (''scalar'', SIM_FIELD_VALUE_REAL_SCALAR),
      (''complex'', SIM_FIELD_VALUE_COMPLEX_SCALAR),
      (''complex_scalar'', SIM_FIELD_VALUE_COMPLEX_SCALAR),
      (''complex_imag_zero_constraint'', SIM_FIELD_VALUE_COMPLEX_IMAG_ZERO_CONSTRAINT),
      (''imag_zero_constraint'', SIM_FIELD_VALUE_COMPLEX_IMAG_ZERO_CONSTRAINT),
      (''imag_zero'', SIM_FIELD_VALUE_COMPLEX_IMAG_ZERO_CONSTRAINT),
      (''complex_real_constraint'', SIM_FIELD_VALUE_COMPLEX_REAL_CONSTRAINT),
      (''real_constraint'', SIM_FIELD_VALUE_COMPLEX_REAL_CONSTRAINT),
      (''hermitian'', SIM_FIELD_VALUE_COMPLEX_REAL_CONSTRAINT),
      (''conjugate_symmetric'', SIM_FIELD_VALUE_COMPLEX_REAL_CONSTRAINT)]"

section \<open>Text comparison\<close>

lemma text_iequals_loop_iff: "text_iequals_loop a b \<longleftrightarrow> map tolower a = map tolower b"
  by (induction a b rule: text_iequals_loop.induct) auto

lemma first_match_case:
  assumes "map tolower s = map tolower t"
  shows "first_match table (Some s) = first_match table (Some t)"
  using assms by (simp add: first_match_def sim_field_text_iequals_def text_iequals_loop_iff)

text \<open>
  The contract between a printer and a case-insensitive parser of names, on a set of values that
  survive the trip.
\<close>

locale name_codec =
  fixes name :: "'a \<Rightarrow> string"
    and from_name :: "string option \<Rightarrow> 'a option"
    and faithful :: "'a set"
  assumes trip: "a \<in> faithful \<Longrightarrow> from_name (Some (name a)) = Some a"
    and case_blind: "map tolower s = map tolower t \<Longrightarrow> from_name (Some s) = from_name (Some t)"
begin

lemma names_distinct: "inj_on name faithful"
  by (intro inj_onI) (metis trip option.inject)

lemma any_capitalisation:
  "a \<in> faithful \<Longrightarrow> map tolower s = map tolower (name a) \<Longrightarrow> from_name (Some s) = Some a"
  using case_blind trip by metis

end

interpretation domain_kind_names:
  name_codec sim_scalar_domain_kind_name sim_scalar_domain_kind_from_name UNIV
proof
  fix a show "sim_scalar_domain_kind_from_name (Some (sim_scalar_domain_kind_name a)) = Some a"
    by (induction a) code_simp+
qed (unfold sim_scalar_domain_kind_from_name_def, rule first_match_case)

interpretation field_domain_names: name_codec sim_field_domain_name sim_field_domain_from_name UNIV
proof
  fix a show "sim_field_domain_from_name (Some (sim_field_domain_name a)) = Some a"
    by (induction a) code_simp+
qed (unfold sim_field_domain_from_name_def, rule first_match_case)

section \<open>Scalar domains and their names\<close>

text \<open>The scalar domains that have a storage type: the ones the constructors above build.\<close>

definition storable :: "SimScalarDomain set" where
  "storable = range sim_buffer_data_type_to_scalar_domain"

lemma storable_cases [consumes 1]:
  assumes "d \<in> storable"
  obtains type where "d = sim_buffer_data_type_to_scalar_domain type"
  using assms by (auto simp: storable_def)

lemma all_data_types:
  "(UNIV :: SimBufferDataType set) = {SIM_BUFFER_UNKNOWN, SIM_BUFFER_DOUBLE,
     SIM_BUFFER_COMPLEX_DOUBLE, SIM_BUFFER_I8, SIM_BUFFER_I32, SIM_BUFFER_I64, SIM_BUFFER_U8,
     SIM_BUFFER_U32, SIM_BUFFER_U64}"
proof (rule UNIV_eq_I)
  show "type \<in> {SIM_BUFFER_UNKNOWN, SIM_BUFFER_DOUBLE, SIM_BUFFER_COMPLEX_DOUBLE, SIM_BUFFER_I8,
     SIM_BUFFER_I32, SIM_BUFFER_I64, SIM_BUFFER_U8, SIM_BUFFER_U32, SIM_BUFFER_U64}" for type
    by (cases type) simp_all
qed

lemma storable_enum:
  "storable = {sim_scalar_domain_unknown, sim_scalar_domain_f64, sim_scalar_domain_c64,
     sim_scalar_domain_i8, sim_scalar_domain_i32, sim_scalar_domain_i64, sim_scalar_domain_u8,
     sim_scalar_domain_u32, sim_scalar_domain_u64}"
  by (simp add: storable_def all_data_types sim_buffer_data_type_to_scalar_domain_def)

lemma from_name_of_storable:
  "sim_scalar_domain_from_name (Some (sim_scalar_domain_name
     (sim_buffer_data_type_to_scalar_domain type))) = Some (sim_buffer_data_type_to_scalar_domain type)"
  by (induction type) code_simp+

interpretation scalar_domain_names:
  name_codec sim_scalar_domain_name sim_scalar_domain_from_name storable
proof
  fix a assume "a \<in> storable"
  then show "sim_scalar_domain_from_name (Some (sim_scalar_domain_name a)) = Some a"
    by (cases rule: storable_cases) (simp add: from_name_of_storable)
qed (unfold sim_scalar_domain_from_name_def, rule first_match_case)

lemma first_match_range: "first_match table text = Some v \<Longrightarrow> v \<in> snd ` set table"
  by (auto simp: first_match_def find_Some_iff) (metis image_eqI nth_mem snd_conv)

lemma from_name_storable:
  "sim_scalar_domain_from_name text = Some d \<Longrightarrow> d \<in> storable"
  unfolding sim_scalar_domain_from_name_def
  by (drule first_match_range) (auto simp: storable_enum)

lemma storable_valid: "d \<in> storable \<Longrightarrow> sim_scalar_domain_validate d"
  by (erule storable_cases)
    (simp add: sim_buffer_data_type_to_scalar_domain_def sim_scalar_domain_validate_def
      scalar_domain_consts split: SimBufferDataType.splits)

lemma storable_iff:
  assumes "sim_scalar_domain_validate d"
  shows "d \<in> storable \<longleftrightarrow> sd_kind d \<noteq> SIM_SCALAR_DOMAIN_MODULAR \<and>
    (sd_kind d = SIM_SCALAR_DOMAIN_REAL \<or> sd_kind d = SIM_SCALAR_DOMAIN_COMPLEX \<longrightarrow> sd_is_signed d)"
proof
  show "d \<in> storable \<Longrightarrow> sd_kind d \<noteq> SIM_SCALAR_DOMAIN_MODULAR \<and>
    (sd_kind d = SIM_SCALAR_DOMAIN_REAL \<or> sd_kind d = SIM_SCALAR_DOMAIN_COMPLEX \<longrightarrow> sd_is_signed d)"
    by (erule storable_cases) (simp add: sim_buffer_data_type_to_scalar_domain_def
      scalar_domain_consts split: SimBufferDataType.splits)
next
  assume "sd_kind d \<noteq> SIM_SCALAR_DOMAIN_MODULAR \<and>
    (sd_kind d = SIM_SCALAR_DOMAIN_REAL \<or> sd_kind d = SIM_SCALAR_DOMAIN_COMPLEX \<longrightarrow> sd_is_signed d)"
  then have "sim_buffer_data_type_to_scalar_domain (sim_buffer_data_type_from_scalar_domain d) = d"
    using assms
    by (cases d) (auto simp: sim_buffer_data_type_from_scalar_domain_def
        sim_buffer_data_type_to_scalar_domain_def sim_scalar_domain_validate_def
        scalar_domain_consts split: SimScalarDomainKind.splits)
  then show "d \<in> storable" unfolding storable_def by (metis rangeI)
qed

text \<open>
  Printing a valid scalar domain and parsing the text back, in any capitalisation, gives the same
  domain exactly when it is not modular and, for real and complex lanes, carries the sign flag; a
  modular domain and an unsigned floating-point lane are not representable by name.
\<close>

theorem scalar_domain_name_roundtrip:
  assumes "sim_scalar_domain_validate d"
    and "map tolower text = map tolower (sim_scalar_domain_name d)"
  shows "sim_scalar_domain_from_name (Some text) = Some d \<longleftrightarrow>
    sd_kind d \<noteq> SIM_SCALAR_DOMAIN_MODULAR \<and>
    (sd_kind d = SIM_SCALAR_DOMAIN_REAL \<or> sd_kind d = SIM_SCALAR_DOMAIN_COMPLEX \<longrightarrow> sd_is_signed d)"
  unfolding storable_iff [OF assms(1), symmetric]
  using from_name_storable scalar_domain_names.any_capitalisation [OF _ assms(2)] by blast

theorem scalar_domain_name_roundtrip_witness:
  "sim_scalar_domain_validate sim_scalar_domain_u32 \<and>
   sim_scalar_domain_from_name (Some ''U32'') = Some sim_scalar_domain_u32"
proof -
  have v: "sim_scalar_domain_validate sim_scalar_domain_u32" by code_simp
  have t: "map tolower ''U32'' = map tolower (sim_scalar_domain_name sim_scalar_domain_u32)"
    by code_simp
  from scalar_domain_name_roundtrip [OF v t] v show ?thesis
    by (simp add: sim_scalar_domain_u32_def sim_scalar_domain_make_def)
qed

text \<open>
  Storage types and scalar domains correspond: a storage type is recovered from its domain, its
  element size is the one the domain asks for and matches that domain unless the type is unknown, and
  exactly the valid domains of known, non-modular kind have a storage type.
\<close>

theorem storage_type_roundtrip:
  "sim_buffer_data_type_from_scalar_domain (sim_buffer_data_type_to_scalar_domain type) = type \<and>
   sim_field_element_size_for_scalar_domain (sim_buffer_data_type_to_scalar_domain type) =
     sim_buffer_element_size type \<and>
   (sim_field_storage_matches_scalar_domain (sim_buffer_element_size type)
      (sim_buffer_data_type_to_scalar_domain type) \<longleftrightarrow> type \<noteq> SIM_BUFFER_UNKNOWN) \<and>
   (sim_buffer_data_type_from_scalar_domain d \<noteq> SIM_BUFFER_UNKNOWN \<longleftrightarrow>
      sim_scalar_domain_validate d \<and>
      sd_kind d \<notin> {SIM_SCALAR_DOMAIN_UNKNOWN, SIM_SCALAR_DOMAIN_MODULAR})"
proof -
  have trip: "sim_buffer_data_type_from_scalar_domain
      (sim_buffer_data_type_to_scalar_domain type) = type"
    by (induction type) code_simp+
  have matches: "sim_field_storage_matches_scalar_domain (sim_buffer_element_size type)
      (sim_buffer_data_type_to_scalar_domain type) \<longleftrightarrow> type \<noteq> SIM_BUFFER_UNKNOWN"
    by (induction type) code_simp+
  have "sim_buffer_data_type_from_scalar_domain d \<noteq> SIM_BUFFER_UNKNOWN \<longleftrightarrow>
      sim_scalar_domain_validate d \<and>
      sd_kind d \<notin> {SIM_SCALAR_DOMAIN_UNKNOWN, SIM_SCALAR_DOMAIN_MODULAR}"
    by (auto simp: sim_buffer_data_type_from_scalar_domain_def sim_scalar_domain_validate_def
        split: SimScalarDomainKind.splits)
  with trip matches show ?thesis by (simp add: sim_field_element_size_for_scalar_domain_def)
qed

section \<open>Capabilities of a domain\<close>

lemma supports_union:
  "sim_scalar_domain_supports d (a OR b) \<longleftrightarrow>
   sim_scalar_domain_supports d a \<and> sim_scalar_domain_supports d b"
proof -
  have "c AND (a OR b) = a OR b \<longleftrightarrow> c AND a = a \<and> c AND b = b" for c :: u32
    by (auto simp: bit_eq_iff bit_simps)
  moreover have "sim_scalar_domain_supports d m \<longleftrightarrow> sim_scalar_domain_capabilities d AND m = m" for m
    by (simp add: sim_scalar_domain_supports_def Let_def)
  ultimately show ?thesis by simp
qed

lemma supports_kind:
  "sim_scalar_domain_supports d SIM_SCALAR_CAP_ORDERING \<longleftrightarrow> sim_scalar_domain_validate d \<and>
     sd_kind d \<in> {SIM_SCALAR_DOMAIN_REAL, SIM_SCALAR_DOMAIN_INTEGER}"
  "sim_scalar_domain_supports d SIM_SCALAR_CAP_ANALYTIC_CALL \<longleftrightarrow> sim_scalar_domain_validate d \<and>
     sd_kind d = SIM_SCALAR_DOMAIN_REAL"
  "sim_scalar_domain_supports d SIM_SCALAR_CAP_CONJUGATION \<longleftrightarrow> sim_scalar_domain_validate d \<and>
     sd_kind d = SIM_SCALAR_DOMAIN_COMPLEX"
  "sim_scalar_domain_supports d SIM_SCALAR_CAP_ADDITIVE_ARITHMETIC \<longleftrightarrow>
     sim_scalar_domain_validate d \<and> sd_kind d \<noteq> SIM_SCALAR_DOMAIN_UNKNOWN"
  by (simp_all add: sim_scalar_domain_supports_def sim_scalar_domain_capabilities_def
      scalar_cap_consts split: SimScalarDomainKind.splits)

text \<open>
  A capability mask is supported exactly when each of its parts is; ordering needs a real or
  integer domain, analytic calls a real one, conjugation a complex one, and an invalid or unknown
  domain supports nothing.
\<close>

theorem scalar_domain_supports_exactly:
  "(sim_scalar_domain_supports d (a OR b) \<longleftrightarrow>
      sim_scalar_domain_supports d a \<and> sim_scalar_domain_supports d b) \<and>
   (sim_scalar_domain_supports d SIM_SCALAR_CAP_ORDERING \<longleftrightarrow> sim_scalar_domain_validate d \<and>
      sd_kind d \<in> {SIM_SCALAR_DOMAIN_REAL, SIM_SCALAR_DOMAIN_INTEGER}) \<and>
   (sim_scalar_domain_supports d SIM_SCALAR_CAP_ANALYTIC_CALL \<longleftrightarrow>
      sim_scalar_domain_validate d \<and> sd_kind d = SIM_SCALAR_DOMAIN_REAL) \<and>
   (sim_scalar_domain_supports d SIM_SCALAR_CAP_CONJUGATION \<longleftrightarrow>
      sim_scalar_domain_validate d \<and> sd_kind d = SIM_SCALAR_DOMAIN_COMPLEX) \<and>
   (sim_scalar_domain_supports d SIM_SCALAR_CAP_ADDITIVE_ARITHMETIC \<longleftrightarrow>
      sim_scalar_domain_validate d \<and> sd_kind d \<noteq> SIM_SCALAR_DOMAIN_UNKNOWN)"
  using supports_union supports_kind by simp

section \<open>Value kinds and field domains\<close>

lemma value_kind_case:
  "map tolower s = map tolower t \<Longrightarrow>
   sim_field_value_kind_from_name (Some s) = sim_field_value_kind_from_name (Some t)"
  unfolding sim_field_value_kind_from_name_def by (rule first_match_case)

lemma value_kind_trip:
  "sim_field_value_kind_from_name (Some (sim_field_value_kind_name kind)) =
     (if kind \<in> {SIM_FIELD_VALUE_COMPLEX_REAL_CONSTRAINT, SIM_FIELD_VALUE_COMPLEX_IMAG_ZERO_CONSTRAINT}
      then None else Some kind)"
  by (induction kind) code_simp+

interpretation value_kind_names: name_codec sim_field_value_kind_name sim_field_value_kind_from_name
  "- {SIM_FIELD_VALUE_COMPLEX_REAL_CONSTRAINT, SIM_FIELD_VALUE_COMPLEX_IMAG_ZERO_CONSTRAINT}"
  by unfold_locales (simp_all only: value_kind_trip Compl_iff if_False, erule value_kind_case)

text \<open>
  Field domains survive printing and parsing in any capitalisation and have distinct names; of the
  value kinds the unconstrained ones do, while the printed name of a constrained complex kind is one
  the parser rejects.
\<close>

theorem representation_name_roundtrip:
  "(map tolower text = map tolower (sim_field_domain_name fd) \<longrightarrow>
      sim_field_domain_from_name (Some text) = Some fd) \<and>
   inj sim_field_domain_name \<and>
   sim_field_value_kind_from_name (Some (sim_field_value_kind_name kind)) =
     (if kind = SIM_FIELD_VALUE_COMPLEX_REAL_CONSTRAINT \<or>
         kind = SIM_FIELD_VALUE_COMPLEX_IMAG_ZERO_CONSTRAINT then None else Some kind)"
  using field_domain_names.any_capitalisation field_domain_names.names_distinct value_kind_trip
  by auto

theorem representation_name_roundtrip_witness:
  "sim_field_domain_from_name (Some ''Spectral'') = Some SIM_FIELD_DOMAIN_SPECTRAL"
proof -
  have "map tolower ''Spectral'' = map tolower (sim_field_domain_name SIM_FIELD_DOMAIN_SPECTRAL)"
    by code_simp
  with representation_name_roundtrip [of "''Spectral''" SIM_FIELD_DOMAIN_SPECTRAL] show ?thesis by blast
qed

end
