(* ===== verification/Sim_Buffer.thy ===== *)
theory Sim_Buffer
  imports Row_Major Scalar_Domain
begin

text \<open>
  \<^verbatim>\<open>core/src/sim_buffer.c\<close>: typed buffers and the views on them.

  A block of memory is the list of its bytes; the data of a view is the list of the bytes that can be
  reached from its pointer. A pair of \<^verbatim>\<open>rank\<close> and \<^verbatim>\<open>shape\<close> arguments is the list of the first \<^verbatim>\<open>rank\<close>
  extents. Multi-byte values are stored little-endian, a \<^verbatim>\<open>double\<close> is its IEEE-754 bit pattern.
\<close>

unbundle bit_operations_syntax

type_synonym f64 = u64

record SimComplexDouble =
  re :: f64
  im :: f64

record SimFieldLayout =
  lay_rank :: nat
  lay_shape :: "size_t list option"
  lay_strides :: "size_t list option"
  lay_contiguous :: bool

record SimBufferView =
  view_data :: "u8 list option"
  view_count :: size_t
  view_type :: SimBufferDataType
  view_layout :: SimFieldLayout
  view_logical_to_physical :: "size_t list option"

record SimBuffer =
  buf_data :: "u8 list option"
  buf_count :: size_t
  buf_bytes :: size_t
  buf_type :: SimBufferDataType
  buf_shape_storage :: "size_t list option"
  buf_stride_storage :: "size_t list option"
  buf_layout :: SimFieldLayout

definition empty_layout :: SimFieldLayout where
  "empty_layout = \<lparr>lay_rank = 0, lay_shape = None, lay_strides = None, lay_contiguous = False\<rparr>"

section \<open>Shapes\<close>

fun shape_count_loop :: "size_t \<Rightarrow> size_t list \<Rightarrow> size_t option" where
  "shape_count_loop count [] = Some count"
| "shape_count_loop count (d # ds) =
     (if d \<noteq> 0 \<and> count > size_max div d then None else shape_count_loop (count * d) ds)"

definition sim_buffer_shape_count :: "nat \<Rightarrow> size_t list option \<Rightarrow> size_t option" where
  "sim_buffer_shape_count rank shape =
     (case shape of
        None \<Rightarrow> None
      | Some ds \<Rightarrow> if rank = 0 then None else shape_count_loop 1 (take rank ds))"

definition sim_buffer_layout_count :: "SimFieldLayout \<Rightarrow> size_t option" where
  "sim_buffer_layout_count l =
     (if lay_rank l = 0 \<or> lay_shape l = None then None
      else sim_buffer_shape_count (lay_rank l) (lay_shape l))"

text \<open>The loop over the axes from the last to the first, on pairs of extent and index.\<close>

fun shape_linear_index_loop :: "size_t \<Rightarrow> size_t \<Rightarrow> (size_t \<times> size_t) list \<Rightarrow> size_t option" where
  "shape_linear_index_loop stride linear_index [] = Some linear_index"
| "shape_linear_index_loop stride linear_index ((extent, index) # axes) =
     (if index \<ge> extent then None
      else if index > 0 \<and> stride > size_max div index then None
      else let term = index * stride in
        if linear_index > size_max - term then None
        else if extent > 0 \<and> stride > size_max div extent then None
        else shape_linear_index_loop (stride * (if extent > 0 then extent else 1))
               (linear_index + term) axes)"

definition sim_buffer_shape_linear_index ::
  "nat \<Rightarrow> size_t list option \<Rightarrow> size_t list option \<Rightarrow> size_t option" where
  "sim_buffer_shape_linear_index rank shape indices =
     (case (shape, indices) of
        (Some ds, Some is) \<Rightarrow>
          if rank = 0 then None
          else shape_linear_index_loop 1 0 (rev (zip (take rank ds) (take rank is)))
      | _ \<Rightarrow> None)"

definition sim_buffer_layout_reset :: "SimBuffer \<Rightarrow> SimBuffer" where
  "sim_buffer_layout_reset b =
     b\<lparr>buf_shape_storage := None, buf_stride_storage := None, buf_layout := empty_layout\<rparr>"

text \<open>The strides, computed from the last axis; \<open>None\<close> is the overflow exit.\<close>

fun layout_strides_loop :: "size_t \<Rightarrow> size_t list \<Rightarrow> size_t list \<Rightarrow> size_t list option" where
  "layout_strides_loop stride [] acc = Some acc"
| "layout_strides_loop stride (d # ds) acc =
     (if d > 0 \<and> stride > size_max div d then None
      else layout_strides_loop (stride * (if d > 0 then d else 1)) ds (stride # acc))"

definition sim_buffer_layout_assign ::
  "heap \<Rightarrow> SimBuffer \<Rightarrow> nat \<Rightarrow> size_t list option \<Rightarrow> SimBuffer option" where
  "sim_buffer_layout_assign h b rank shape =
     (case shape of
        None \<Rightarrow> None
      | Some ds \<Rightarrow>
          if rank = 0 then None
          else if \<not> calloc_ok h rank 8 then None
          else let local_shape = take rank ds in
            case layout_strides_loop 1 (rev local_shape) [] of
              None \<Rightarrow> None
            | Some local_strides \<Rightarrow>
                Some ((sim_buffer_layout_reset b)
                  \<lparr>buf_shape_storage := Some local_shape,
                   buf_stride_storage := Some local_strides,
                   buf_layout := \<lparr>lay_rank = rank, lay_shape = Some local_shape,
                                  lay_strides = Some local_strides, lay_contiguous = True\<rparr>\<rparr>))"

section \<open>Views\<close>

definition sim_buffer_view_is_valid :: "SimBufferView option \<Rightarrow> bool" where
  "sim_buffer_view_is_valid view =
     (case view of
        None \<Rightarrow> False
      | Some v \<Rightarrow> view_data v \<noteq> None \<and> view_count v > 0 \<and> sim_buffer_element_size (view_type v) > 0)"

text \<open>A view without usable shape metadata is addressed linearly.\<close>

definition view_is_linear :: "SimBufferView \<Rightarrow> bool" where
  "view_is_linear v \<longleftrightarrow> lay_rank (view_layout v) = 0 \<or> lay_shape (view_layout v) = None \<or>
     lay_strides (view_layout v) = None"

fun linear_offset_loop :: "size_t \<Rightarrow> size_t \<Rightarrow> (size_t \<times> size_t) list \<Rightarrow> size_t option" where
  "linear_offset_loop logical_index offset [] = (if logical_index \<noteq> 0 then None else Some offset)"
| "linear_offset_loop logical_index offset ((extent, stride) # axes) =
     (if extent = 0 then None
      else linear_offset_loop (logical_index div extent)
             (offset + (logical_index mod extent) * stride) axes)"

definition layout_axes :: "SimFieldLayout \<Rightarrow> (size_t \<times> size_t) list" where
  "layout_axes l = zip (take (lay_rank l) (the (lay_shape l))) (take (lay_rank l) (the (lay_strides l)))"

definition sim_buffer_view_offset_for_linear_index ::
  "SimBufferView option \<Rightarrow> size_t \<Rightarrow> size_t option" where
  "sim_buffer_view_offset_for_linear_index view logical_index =
     (case view of
        None \<Rightarrow> None
      | Some v \<Rightarrow>
          if logical_index \<ge> view_count v then None
          else case view_logical_to_physical v of
            Some table \<Rightarrow> Some (table ! unat logical_index)
          | None \<Rightarrow>
              if view_is_linear v then Some logical_index
              else if sim_buffer_layout_count (view_layout v) \<noteq> Some (view_count v) then None
              else linear_offset_loop logical_index 0 (rev (layout_axes (view_layout v))))"

fun indices_offset_loop :: "size_t \<Rightarrow> (size_t \<times> size_t \<times> size_t) list \<Rightarrow> size_t option" where
  "indices_offset_loop offset [] = Some offset"
| "indices_offset_loop offset ((index, extent, stride) # axes) =
     (if index \<ge> extent then None else indices_offset_loop (offset + index * stride) axes)"

definition sim_buffer_view_offset_for_indices ::
  "SimBufferView option \<Rightarrow> size_t list option \<Rightarrow> nat \<Rightarrow> size_t option" where
  "sim_buffer_view_offset_for_indices view indices index_count =
     (case (view, indices) of
        (Some v, Some is) \<Rightarrow>
          if view_is_linear v then
            (if index_count \<noteq> 1 \<or> is ! 0 \<ge> view_count v then None else Some (is ! 0))
          else if index_count \<noteq> lay_rank (view_layout v) then None
          else if view_logical_to_physical v \<noteq> None then
            (case sim_buffer_shape_linear_index (lay_rank (view_layout v))
                    (lay_shape (view_layout v)) (Some is) of
               None \<Rightarrow> None
             | Some logical_index \<Rightarrow> sim_buffer_view_offset_for_linear_index view logical_index)
          else indices_offset_loop 0 (zip (take (lay_rank (view_layout v)) is) (layout_axes (view_layout v)))
      | _ \<Rightarrow> None)"

section \<open>Elements\<close>

text \<open>Little-endian loads and stores of \<open>k\<close> bytes at a byte offset.\<close>

definition load_le :: "nat \<Rightarrow> u8 list \<Rightarrow> nat \<Rightarrow> u64" where
  "load_le k bytes at = foldr (\<lambda>b acc. ucast b OR push_bit 8 acc) (take k (drop at bytes)) 0"

fun bytes_le :: "nat \<Rightarrow> u64 \<Rightarrow> u8 list" where
  "bytes_le 0 w = []"
| "bytes_le (Suc k) w = ucast w # bytes_le k (drop_bit 8 w)"

definition memcpy_at :: "u8 list \<Rightarrow> nat \<Rightarrow> u8 list \<Rightarrow> u8 list" where
  "memcpy_at dst at bytes = take at dst @ bytes @ drop (at + length bytes) dst"

fun highest_bit :: "nat \<Rightarrow> nat" where
  "highest_bit n = (if n < 2 then 0 else Suc (highest_bit (n div 2)))"

declare highest_bit.simps [simp del]

text \<open>
  Conversion of an integer to the nearest \<^verbatim>\<open>double\<close>, ties to even: \<open>e\<close> is the position of the highest
  set bit, a carry out of the significand moves on into the exponent field.
\<close>

definition f64_of_nat :: "nat \<Rightarrow> nat" where
  "f64_of_nat n =
     (if n = 0 then 0
      else let e = highest_bit n in
        if e \<le> 52 then (e + 1023) * 2 ^ 52 + (n * 2 ^ (52 - e) - 2 ^ 52)
        else let s = e - 52; q = n div 2 ^ s; r = n mod 2 ^ s; half = 2 ^ (s - 1);
                 q' = (if r > half \<or> (r = half \<and> odd q) then q + 1 else q)
             in (e + 1023) * 2 ^ 52 + (q' - 2 ^ 52))"

definition f64_of_int :: "int \<Rightarrow> f64" where
  "f64_of_int n =
     (if n < 0 then set_bit 63 (word_of_nat (f64_of_nat (nat (- n))))
      else word_of_nat (f64_of_nat (nat n)))"

text \<open>\<^verbatim>\<open>x != 0.0\<close> on the bit pattern: anything but the two zeros, a NaN included.\<close>

definition f64_nonzero :: "f64 \<Rightarrow> bool" where
  "f64_nonzero x \<longleftrightarrow> x AND 0x7FFFFFFFFFFFFFFF \<noteq> 0"

definition sim_buffer_view_get_complex ::
  "SimBufferView option \<Rightarrow> size_t \<Rightarrow> SimComplexDouble option" where
  "sim_buffer_view_get_complex view logical_index =
     (case view of
        None \<Rightarrow> None
      | Some v \<Rightarrow>
         (case (view_data v, sim_buffer_view_offset_for_linear_index view logical_index) of
            (Some bytes, Some offset) \<Rightarrow>
              (let at = (\<lambda>k. unat offset * k);
                   real_of = (\<lambda>n. Some \<lparr>re = f64_of_int n, im = 0\<rparr>)
               in case view_type v of
                    SIM_BUFFER_DOUBLE \<Rightarrow> Some \<lparr>re = load_le 8 bytes (at 8), im = 0\<rparr>
                  | SIM_BUFFER_COMPLEX_DOUBLE \<Rightarrow>
                      Some \<lparr>re = load_le 8 bytes (at 16), im = load_le 8 bytes (at 16 + 8)\<rparr>
                  | SIM_BUFFER_I8 \<Rightarrow> real_of (sint (ucast (load_le 1 bytes (at 1)) :: 8 word))
                  | SIM_BUFFER_U8 \<Rightarrow> real_of (uint (load_le 1 bytes (at 1)))
                  | SIM_BUFFER_I32 \<Rightarrow> real_of (sint (ucast (load_le 4 bytes (at 4)) :: 32 word))
                  | SIM_BUFFER_U32 \<Rightarrow> real_of (uint (load_le 4 bytes (at 4)))
                  | SIM_BUFFER_I64 \<Rightarrow> real_of (sint (load_le 8 bytes (at 8)))
                  | SIM_BUFFER_U64 \<Rightarrow> real_of (uint (load_le 8 bytes (at 8)))
                  | SIM_BUFFER_UNKNOWN \<Rightarrow> None)
          | _ \<Rightarrow> None))"

text \<open>The flag of the setter and the view with its bytes after the call.\<close>

definition sim_buffer_view_set_complex ::
  "SimBufferView option \<Rightarrow> size_t \<Rightarrow> SimComplexDouble \<Rightarrow> bool \<times> SimBufferView option" where
  "sim_buffer_view_set_complex view logical_index value =
     (case view of
        None \<Rightarrow> (False, None)
      | Some v \<Rightarrow>
         (case (view_data v, sim_buffer_view_offset_for_linear_index view logical_index) of
            (Some bytes, Some offset) \<Rightarrow>
              (case view_type v of
                 SIM_BUFFER_DOUBLE \<Rightarrow>
                   if f64_nonzero (im value) then (False, Some v)
                   else (True, Some (v\<lparr>view_data :=
                           Some (memcpy_at bytes (unat offset * 8) (bytes_le 8 (re value)))\<rparr>))
               | SIM_BUFFER_COMPLEX_DOUBLE \<Rightarrow>
                   (True, Some (v\<lparr>view_data :=
                      Some (memcpy_at bytes (unat offset * 16)
                        (bytes_le 8 (re value) @ bytes_le 8 (im value)))\<rparr>))
               | _ \<Rightarrow> (False, Some v))
          | _ \<Rightarrow> (False, Some v)))"

section \<open>Buffers\<close>

text \<open>\<^verbatim>\<open>sizeof(SimBuffer)\<close> and a freshly \<^verbatim>\<open>calloc\<close>ed record.\<close>

definition sizeof_SimBuffer :: nat where
  "sizeof_SimBuffer = 80"

definition zero_buffer :: SimBuffer where
  "zero_buffer =
     \<lparr>buf_data = None, buf_count = 0, buf_bytes = 0, buf_type = SIM_BUFFER_DOUBLE,
      buf_shape_storage = None, buf_stride_storage = None, buf_layout = empty_layout\<rparr>"

definition sim_buffer_create ::
  "heap \<Rightarrow> nat \<Rightarrow> size_t list option \<Rightarrow> SimBufferDataType \<Rightarrow> SimBuffer option" where
  "sim_buffer_create h rank shape type =
     (let element_size = sim_buffer_element_size type in
      case (if element_size = 0 then None else sim_buffer_shape_count rank shape) of
        None \<Rightarrow> None
      | Some count \<Rightarrow>
          if count > size_max div element_size then None
          else if \<not> calloc_ok h 1 sizeof_SimBuffer then None
          else case sim_buffer_layout_assign h zero_buffer rank shape of
            None \<Rightarrow> None
          | Some b \<Rightarrow>
              (let bytes = count * element_size;
                   done = (\<lambda>data. Some (b\<lparr>buf_data := data, buf_count := count, buf_bytes := bytes,
                                           buf_type := type\<rparr>))
               in if bytes > 0 then
                    (if calloc_ok h (unat count) (unat element_size)
                     then done (Some (replicate (unat bytes) 0)) else None)
                  else done None))"

definition sim_buffer_create_1d :: "heap \<Rightarrow> size_t \<Rightarrow> SimBufferDataType \<Rightarrow> SimBuffer option" where
  "sim_buffer_create_1d h count type = sim_buffer_create h 1 (Some [count]) type"

text \<open>The copying loop: \<open>None\<close> where an element has no offset (the buffer is destroyed).\<close>

definition clone_element ::
  "SimBufferView \<Rightarrow> size_t \<Rightarrow> u8 list \<Rightarrow> nat \<Rightarrow> u8 list \<Rightarrow> u8 list option" where
  "clone_element v element_size src i dst =
     (case sim_buffer_view_offset_for_linear_index (Some v) (word_of_nat i) of
        None \<Rightarrow> None
      | Some offset \<Rightarrow>
          Some (memcpy_at dst (unat (word_of_nat i * element_size))
            (take (unat element_size) (drop (unat (offset * element_size)) src))))"

definition sim_buffer_clone_view :: "heap \<Rightarrow> SimBufferView option \<Rightarrow> SimBuffer option" where
  "sim_buffer_clone_view h view =
     (case view of
        None \<Rightarrow> None
      | Some v \<Rightarrow>
          (let element_size = sim_buffer_element_size (view_type v); l = view_layout v in
           if element_size = 0 then None
           else case (if lay_rank l > 0 \<and> lay_shape l \<noteq> None then
                        (if sim_buffer_layout_count l \<noteq> Some (view_count v) then None
                         else sim_buffer_create h (lay_rank l) (lay_shape l) (view_type v))
                      else sim_buffer_create h 1 (Some [view_count v]) (view_type v)) of
             None \<Rightarrow> None
           | Some b \<Rightarrow>
               if view_count v = 0 then Some b
               else case (buf_data b, view_data v) of
                 (Some dst, Some src) \<Rightarrow>
                   (case fold_option (clone_element v element_size src)
                           [0..<unat (view_count v)] dst of
                      None \<Rightarrow> None
                    | Some dst' \<Rightarrow> Some (b\<lparr>buf_data := Some dst'\<rparr>))
               | _ \<Rightarrow> None))"

definition sim_buffer_reshape ::
  "heap \<Rightarrow> SimBuffer option \<Rightarrow> nat \<Rightarrow> size_t list option \<Rightarrow> SimResult \<times> SimBuffer option" where
  "sim_buffer_reshape h buffer rank shape =
     (case (buffer, sim_buffer_shape_count rank shape) of
        (Some b, Some new_count) \<Rightarrow>
          if new_count \<noteq> buf_count b then (SIM_RESULT_INVALID_ARGUMENT, buffer)
          else (case sim_buffer_layout_assign h b rank shape of
                  None \<Rightarrow> (SIM_RESULT_OUT_OF_MEMORY, buffer)
                | Some b' \<Rightarrow> (SIM_RESULT_OK, Some b'))
      | _ \<Rightarrow> (SIM_RESULT_INVALID_ARGUMENT, buffer))"

definition sim_buffer_data :: "SimBuffer option \<Rightarrow> u8 list option" where
  "sim_buffer_data buffer = (case buffer of Some b \<Rightarrow> buf_data b | None \<Rightarrow> None)"

definition sim_buffer_count :: "SimBuffer option \<Rightarrow> size_t" where
  "sim_buffer_count buffer = (case buffer of Some b \<Rightarrow> buf_count b | None \<Rightarrow> 0)"

definition sim_buffer_bytes :: "SimBuffer option \<Rightarrow> size_t" where
  "sim_buffer_bytes buffer = (case buffer of Some b \<Rightarrow> buf_bytes b | None \<Rightarrow> 0)"

definition sim_buffer_type :: "SimBuffer option \<Rightarrow> SimBufferDataType" where
  "sim_buffer_type buffer = (case buffer of Some b \<Rightarrow> buf_type b | None \<Rightarrow> SIM_BUFFER_UNKNOWN)"

definition sim_buffer_view :: "SimBuffer option \<Rightarrow> SimBufferView" where
  "sim_buffer_view buffer =
     (case buffer of
        None \<Rightarrow> \<lparr>view_data = None, view_count = 0, view_type = SIM_BUFFER_DOUBLE,
                 view_layout = empty_layout, view_logical_to_physical = None\<rparr>
      | Some b \<Rightarrow> \<lparr>view_data = buf_data b, view_count = buf_count b, view_type = buf_type b,
                   view_layout = buf_layout b, view_logical_to_physical = None\<rparr>)"

end
