(* ===== verification/Sim_Field.thy ===== *)
theory Sim_Field
  imports Sim_Buffer
begin

text \<open>
  \<^verbatim>\<open>core/src/field.c\<close>: multidimensional fields. A \<^verbatim>\<open>SimField *\<close> argument is a \<open>SimField option\<close>; an
  operation that changes the field returns its result code and the field it leaves behind. The
  allocator callbacks of a field are not part of the sources: \<open>al_allocate\<close> says which request sizes
  the callback grants (\<open>None\<close> for a null pointer), \<open>al_release\<close> whether a release callback is set.
\<close>

unbundle bit_operations_syntax

section \<open>Data\<close>

datatype SimFieldStorage = SIM_FIELD_STORAGE_ROW_MAJOR

record SimFieldAllocator =
  al_allocate :: "heap option"
  al_release :: bool

record SimField =
  f_layout :: SimFieldLayout
  f_element_size :: size_t
  f_data :: "u8 list option"
  f_storage :: SimFieldStorage
  f_allocator :: SimFieldAllocator
  f_owns_data :: bool
  f_complex_mode :: bool
  f_repr :: SimFieldRepresentation
  f_scalar_domain :: SimScalarDomain
  f_magic :: u64

definition SIM_FIELD_MAGIC :: u64 where
  "SIM_FIELD_MAGIC = 0x53494D4649454C44"

definition sim_field_is_initialized :: "SimField option \<Rightarrow> bool" where
  "sim_field_is_initialized field =
     (case field of None \<Rightarrow> False | Some f \<Rightarrow> f_magic f = SIM_FIELD_MAGIC)"

section \<open>Layouts\<close>

text \<open>The stride loop of a field does not check for overflow: the product wraps.\<close>

fun field_strides_loop :: "size_t \<Rightarrow> size_t list \<Rightarrow> size_t list \<Rightarrow> size_t list" where
  "field_strides_loop stride [] acc = acc"
| "field_strides_loop stride (d # ds) acc =
     field_strides_loop (stride * (if d > 0 then d else 1)) ds (stride # acc)"

definition sim_field_layout_init ::
  "heap \<Rightarrow> SimFieldLayout \<Rightarrow> nat \<Rightarrow> size_t list option \<Rightarrow> SimResult \<times> SimFieldLayout" where
  "sim_field_layout_init h layout rank shape =
     (case shape of
        None \<Rightarrow> (SIM_RESULT_INVALID_ARGUMENT, layout)
      | Some ds \<Rightarrow>
          if rank = 0 then (SIM_RESULT_INVALID_ARGUMENT, layout)
          else if \<not> calloc_ok h rank 8 then (SIM_RESULT_OUT_OF_MEMORY, empty_layout)
          else (SIM_RESULT_OK,
                \<lparr>lay_rank = rank, lay_shape = Some (take rank ds),
                 lay_strides = Some (field_strides_loop 1 (rev (take rank ds)) []),
                 lay_contiguous = True\<rparr>))"

fun element_count_loop :: "size_t \<Rightarrow> size_t list \<Rightarrow> size_t" where
  "element_count_loop n [] = n"
| "element_count_loop n (d # ds) = (if d = 0 then 0 else element_count_loop (n * d) ds)"

definition sim_field_element_count :: "SimFieldLayout \<Rightarrow> size_t" where
  "sim_field_element_count layout =
     (if lay_rank layout = 0 then 0
      else element_count_loop 1 (take (lay_rank layout) (the (lay_shape layout))))"

section \<open>Representation queries\<close>

definition sim_field_storage_is_complex :: "SimField option \<Rightarrow> bool" where
  "sim_field_storage_is_complex field \<longleftrightarrow>
     sim_field_is_initialized field \<and> f_element_size (the field) = 16"

definition sim_field_representation :: "SimField option \<Rightarrow> SimFieldRepresentation" where
  "sim_field_representation field =
     (if \<not> sim_field_is_initialized field
      then \<lparr>repr_domain = SIM_FIELD_DOMAIN_UNKNOWN, repr_value_kind = SIM_FIELD_VALUE_UNKNOWN\<rparr>
      else let repr = f_repr (the field);
               repr = (if repr_domain repr = SIM_FIELD_DOMAIN_UNKNOWN
                       then repr\<lparr>repr_domain := SIM_FIELD_DOMAIN_PHYSICAL\<rparr> else repr)
           in if repr_value_kind repr = SIM_FIELD_VALUE_REAL_SCALAR \<and> sim_field_storage_is_complex field
              then repr\<lparr>repr_value_kind := SIM_FIELD_VALUE_COMPLEX_SCALAR\<rparr> else repr)"

definition sim_scalar_domain_from_field :: "SimField option \<Rightarrow> SimScalarDomain" where
  "sim_scalar_domain_from_field field =
     (if \<not> sim_field_is_initialized field then sim_scalar_domain_unknown
      else let f = the field;
               domain = sim_scalar_domain_from_field_representation (sim_field_representation field)
           in if sim_scalar_domain_validate (f_scalar_domain f) \<and>
                 sd_kind (f_scalar_domain f) \<noteq> SIM_SCALAR_DOMAIN_UNKNOWN then f_scalar_domain f
              else if sd_kind domain \<noteq> SIM_SCALAR_DOMAIN_UNKNOWN then domain
              else if f_complex_mode f then sim_scalar_domain_c64
              else if f_element_size f = 8 then sim_scalar_domain_f64
              else if f_element_size f = 16 then sim_scalar_domain_c64
              else sim_scalar_domain_unknown)"

definition sim_field_scalar_domain :: "SimField option \<Rightarrow> SimScalarDomain" where
  "sim_field_scalar_domain field =
     (if \<not> sim_field_is_initialized field then sim_scalar_domain_unknown
      else if sim_scalar_domain_validate (f_scalar_domain (the field)) \<and>
              sd_kind (f_scalar_domain (the field)) \<noteq> SIM_SCALAR_DOMAIN_UNKNOWN
        then f_scalar_domain (the field)
      else sim_scalar_domain_from_field field)"

definition sim_field_storage_scalar_domain :: "SimField option \<Rightarrow> SimScalarDomain" where
  "sim_field_storage_scalar_domain field =
     (case field of
        None \<Rightarrow> sim_scalar_domain_unknown
      | Some f \<Rightarrow> sim_field_default_scalar_domain (f_element_size f))"

definition sim_field_promotion_source_domain :: "SimField option \<Rightarrow> SimScalarDomain" where
  "sim_field_promotion_source_domain field =
     (if \<not> sim_field_is_initialized field then sim_scalar_domain_unknown
      else let domain = sim_scalar_domain_from_field_representation (sim_field_representation field)
           in if sd_kind domain \<noteq> SIM_SCALAR_DOMAIN_UNKNOWN then domain
              else sim_field_storage_scalar_domain field)"

definition sim_field_complex_mode :: "SimField option \<Rightarrow> bool" where
  "sim_field_complex_mode field =
     (if \<not> sim_field_is_initialized field then False
      else if sim_field_representation_requires_complex_storage (sim_field_representation field)
        then True
      else f_complex_mode (the field))"

definition sim_field_domain_is_complex :: "SimField option \<Rightarrow> bool" where
  "sim_field_domain_is_complex field =
     (if \<not> sim_field_is_initialized field then False
      else if sim_field_complex_mode field then True
      else sim_scalar_domain_is_complex (sim_scalar_domain_from_field field))"

definition sim_field_is_complex :: "SimField option \<Rightarrow> bool" where
  "sim_field_is_complex field = sim_field_storage_is_complex field"

definition sim_field_components :: "SimField option \<Rightarrow> size_t" where
  "sim_field_components field =
     (if \<not> sim_field_is_initialized field \<or> f_element_size (the field) = 0 then 0
      else let domain = sim_scalar_domain_from_field field; k = f_element_size (the field)
           in if sim_scalar_domain_is_complex domain then 2
              else if sd_kind domain = SIM_SCALAR_DOMAIN_INTEGER \<or>
                      sd_kind domain = SIM_SCALAR_DOMAIN_MODULAR then 1
              else if k mod 8 = 0 then k div 8
              else 1)"

section \<open>Changing representation and scalar domain\<close>

definition sim_field_validate_representation ::
  "SimField option \<Rightarrow> SimFieldRepresentation \<Rightarrow> SimResult" where
  "sim_field_validate_representation field repr =
     (if \<not> sim_field_is_initialized field then SIM_RESULT_INVALID_ARGUMENT
      else case repr_domain repr of
        SIM_FIELD_DOMAIN_HYBRID \<Rightarrow> SIM_RESULT_NOT_SUPPORTED
      | SIM_FIELD_DOMAIN_UNKNOWN \<Rightarrow> SIM_RESULT_INVALID_ARGUMENT
      | _ \<Rightarrow>
          (let requires = sim_field_representation_requires_complex_storage repr;
               domain = f_scalar_domain (the field)
           in if repr_value_kind repr = SIM_FIELD_VALUE_UNKNOWN then SIM_RESULT_INVALID_ARGUMENT
              else if sim_field_value_kind_has_spectral_real_constraint (repr_value_kind repr) \<and>
                      repr_domain repr \<noteq> SIM_FIELD_DOMAIN_SPECTRAL then SIM_RESULT_INVALID_ARGUMENT
              else if repr_domain repr = SIM_FIELD_DOMAIN_SPECTRAL \<and>
                      repr_value_kind repr = SIM_FIELD_VALUE_REAL_SCALAR then SIM_RESULT_TYPE_MISMATCH
              else if sim_scalar_domain_validate domain \<and>
                      sd_kind domain \<noteq> SIM_SCALAR_DOMAIN_UNKNOWN \<and>
                      sim_scalar_domain_is_complex domain \<noteq> requires then SIM_RESULT_TYPE_MISMATCH
              else if requires \<noteq> sim_field_storage_is_complex field then SIM_RESULT_TYPE_MISMATCH
              else SIM_RESULT_OK))"

definition sim_field_set_representation ::
  "SimField option \<Rightarrow> SimFieldRepresentation \<Rightarrow> SimResult \<times> SimField option" where
  "sim_field_set_representation field repr =
     (if \<not> sim_field_is_initialized field then (SIM_RESULT_INVALID_ARGUMENT, field)
      else let rc = sim_field_validate_representation field repr in
        if rc \<noteq> SIM_RESULT_OK then (rc, field)
        else (SIM_RESULT_OK,
              Some ((the field)\<lparr>f_repr := repr,
                 f_complex_mode := sim_field_representation_requires_complex_storage repr\<rparr>)))"

definition sim_field_set_scalar_domain ::
  "SimField option \<Rightarrow> SimScalarDomain \<Rightarrow> SimResult \<times> SimField option" where
  "sim_field_set_scalar_domain field domain =
     (if \<not> sim_field_is_initialized field \<or> \<not> sim_scalar_domain_validate domain
        then (SIM_RESULT_INVALID_ARGUMENT, field)
      else if sd_kind domain \<noteq> SIM_SCALAR_DOMAIN_UNKNOWN \<and>
              \<not> sim_field_storage_matches_scalar_domain (f_element_size (the field)) domain
        then (SIM_RESULT_TYPE_MISMATCH, field)
      else if sd_kind domain \<noteq> SIM_SCALAR_DOMAIN_UNKNOWN \<and>
              sim_scalar_domain_is_complex domain \<noteq>
                sim_field_representation_requires_complex_storage (sim_field_representation field)
        then (SIM_RESULT_TYPE_MISMATCH, field)
      else (SIM_RESULT_OK, Some ((the field)\<lparr>f_scalar_domain := domain\<rparr>)))"

section \<open>Lifecycle\<close>

definition sim_field_reset :: "SimField \<Rightarrow> SimField" where
  "sim_field_reset f =
     \<lparr>f_layout = empty_layout, f_element_size = 0, f_data = None,
      f_storage = SIM_FIELD_STORAGE_ROW_MAJOR,
      f_allocator = \<lparr>al_allocate = None, al_release = False\<rparr>, f_owns_data = False,
      f_complex_mode = False,
      f_repr = \<lparr>repr_domain = SIM_FIELD_DOMAIN_UNKNOWN, repr_value_kind = SIM_FIELD_VALUE_UNKNOWN\<rparr>,
      f_scalar_domain = sim_scalar_domain_unknown, f_magic = 0\<rparr>"

definition sim_field_destroy :: "SimField option \<Rightarrow> SimField option" where
  "sim_field_destroy field = map_option sim_field_reset field"

definition sim_field_allocator_default :: "heap \<Rightarrow> SimFieldAllocator" where
  "sim_field_allocator_default h = \<lparr>al_allocate = Some h, al_release = True\<rparr>"

text \<open>The representation and scalar domain a new field of a given element size starts with.\<close>

definition initial_repr :: "size_t \<Rightarrow> SimFieldRepresentation" where
  "initial_repr element_size =
     \<lparr>repr_domain = SIM_FIELD_DOMAIN_PHYSICAL,
      repr_value_kind = (if element_size = 16 then SIM_FIELD_VALUE_COMPLEX_SCALAR
                         else SIM_FIELD_VALUE_REAL_SCALAR)\<rparr>"

definition sim_field_init ::
  "heap \<Rightarrow> SimField option \<Rightarrow> nat \<Rightarrow> size_t list option \<Rightarrow> size_t \<Rightarrow> SimFieldStorage \<Rightarrow>
   SimFieldAllocator option \<Rightarrow> SimResult \<times> SimField option" where
  "sim_field_init h field rank shape element_size storage allocator =
     (if field = None \<or> shape = None \<or> element_size = 0 then (SIM_RESULT_INVALID_ARGUMENT, field)
      else let f = sim_field_reset (the field);
               (result, layout) = sim_field_layout_init h (f_layout f) rank shape
           in if result \<noteq> SIM_RESULT_OK then (result, Some (f\<lparr>f_layout := layout\<rparr>))
              else let al = (case allocator of None \<Rightarrow> sim_field_allocator_default h | Some a \<Rightarrow> a);
                       f = f\<lparr>f_layout := layout, f_allocator := al\<rparr>;
                       total_elements = sim_field_element_count layout;
                       total_bytes = total_elements * element_size
                   in if al_allocate al = None \<or> \<not> al_release al
                        then (SIM_RESULT_INVALID_ARGUMENT, Some (sim_field_reset f))
                      else if total_elements = 0
                        then (SIM_RESULT_INVALID_ARGUMENT, Some (sim_field_reset f))
                      else if element_size > 0 \<and> total_elements > size_max div element_size
                        then (SIM_RESULT_INVALID_ARGUMENT, Some (sim_field_reset f))
                      else if \<not> (the (al_allocate al)) (unat total_bytes)
                        then (SIM_RESULT_OUT_OF_MEMORY, Some (sim_field_reset f))
                      else (SIM_RESULT_OK,
                            Some (f\<lparr>f_data := Some (replicate (unat total_bytes) 0),
                                    f_element_size := element_size, f_storage := storage,
                                    f_complex_mode := False, f_repr := initial_repr element_size,
                                    f_scalar_domain := sim_field_default_scalar_domain element_size,
                                    f_owns_data := True, f_magic := SIM_FIELD_MAGIC\<rparr>)))"

definition sim_field_wrap ::
  "heap \<Rightarrow> SimField option \<Rightarrow> SimFieldLayout option \<Rightarrow> size_t \<Rightarrow> SimFieldStorage \<Rightarrow> u8 list option \<Rightarrow>
   SimResult \<times> SimField option" where
  "sim_field_wrap h field layout element_size storage data =
     (case (field, layout) of
        (Some f0, Some l) \<Rightarrow>
          if lay_shape l = None \<or> lay_strides l = None \<or> lay_rank l = 0 \<or> data = None \<or>
             element_size = 0 then (SIM_RESULT_INVALID_ARGUMENT, field)
          else let f = sim_field_reset f0;
                   (result, own) = sim_field_layout_init h (f_layout f) (lay_rank l) (lay_shape l)
               in if result \<noteq> SIM_RESULT_OK then (result, Some (f\<lparr>f_layout := own\<rparr>))
                  else (SIM_RESULT_OK,
                        Some (f\<lparr>f_layout := own\<lparr>lay_strides :=
                                  Some (take (lay_rank l) (the (lay_strides l))),
                                  lay_contiguous := lay_contiguous l\<rparr>,
                                f_data := data, f_element_size := element_size,
                                f_storage := storage, f_complex_mode := False,
                                f_repr := initial_repr element_size,
                                f_scalar_domain := sim_field_default_scalar_domain element_size,
                                f_owns_data := False, f_magic := SIM_FIELD_MAGIC\<rparr>))
      | _ \<Rightarrow> (SIM_RESULT_INVALID_ARGUMENT, field))"

text \<open>
  The two typed constructors share their frame: check the domain, build the field with the element
  size the domain asks for, then install the domain and destroy the field if that fails.
\<close>

definition typed_constructor ::
  "SimField option \<Rightarrow> SimScalarDomain \<Rightarrow> (size_t \<Rightarrow> SimResult \<times> SimField option) \<Rightarrow>
   SimResult \<times> SimField option" where
  "typed_constructor field domain build =
     (if \<not> sim_scalar_domain_validate domain \<or> sd_kind domain = SIM_SCALAR_DOMAIN_UNKNOWN
        then (SIM_RESULT_INVALID_ARGUMENT, field)
      else let element_size = sim_field_element_size_for_scalar_domain domain in
        if element_size = 0 then (SIM_RESULT_NOT_SUPPORTED, field)
        else case build element_size of
          (result, f) \<Rightarrow>
            if result \<noteq> SIM_RESULT_OK then (result, f)
            else case sim_field_set_scalar_domain f domain of
              (result, f') \<Rightarrow>
                if result \<noteq> SIM_RESULT_OK then (result, sim_field_destroy f')
                else (SIM_RESULT_OK, f'))"

definition sim_field_init_typed ::
  "heap \<Rightarrow> SimField option \<Rightarrow> nat \<Rightarrow> size_t list option \<Rightarrow> SimScalarDomain \<Rightarrow> SimFieldStorage \<Rightarrow>
   SimFieldAllocator option \<Rightarrow> SimResult \<times> SimField option" where
  "sim_field_init_typed h field rank shape domain storage allocator =
     typed_constructor field domain
       (\<lambda>element_size. sim_field_init h field rank shape element_size storage allocator)"

definition sim_field_wrap_typed ::
  "heap \<Rightarrow> SimField option \<Rightarrow> SimFieldLayout option \<Rightarrow> SimScalarDomain \<Rightarrow> SimFieldStorage \<Rightarrow>
   u8 list option \<Rightarrow> SimResult \<times> SimField option" where
  "sim_field_wrap_typed h field layout domain storage data =
     typed_constructor field domain
       (\<lambda>element_size. sim_field_wrap h field layout element_size storage data)"

section \<open>Promotion to complex storage\<close>

text \<open>Each \<^verbatim>\<open>double\<close> becomes the real part of a pair, followed by eight zero bytes.\<close>

definition promote_bytes :: "nat \<Rightarrow> u8 list \<Rightarrow> u8 list" where
  "promote_bytes n bytes = concat (map (\<lambda>i. take 8 (drop (i * 8) bytes) @ replicate 8 0) [0..<n])"

definition complex_repr :: "SimFieldRepresentation \<Rightarrow> SimFieldRepresentation" where
  "complex_repr repr =
     (let repr = (if repr_domain repr = SIM_FIELD_DOMAIN_UNKNOWN
                  then repr\<lparr>repr_domain := SIM_FIELD_DOMAIN_PHYSICAL\<rparr> else repr)
      in if \<not> sim_field_value_kind_is_complex_valued (repr_value_kind repr)
         then repr\<lparr>repr_value_kind := SIM_FIELD_VALUE_COMPLEX_SCALAR\<rparr> else repr)"

definition set_complex_metadata :: "SimField \<Rightarrow> SimField" where
  "set_complex_metadata f =
     (let repr = complex_repr (sim_field_representation (Some f))
      in f\<lparr>f_repr := repr,
           f_complex_mode := sim_field_representation_requires_complex_storage repr,
           f_scalar_domain := sim_scalar_domain_c64\<rparr>)"

definition promotable_source :: "SimScalarDomain \<Rightarrow> bool" where
  "promotable_source domain \<longleftrightarrow>
     sd_kind domain = SIM_SCALAR_DOMAIN_REAL \<or> sd_kind domain = SIM_SCALAR_DOMAIN_COMPLEX \<or>
     sd_kind domain = SIM_SCALAR_DOMAIN_UNKNOWN"

definition sim_field_promote_inplace_to_complex ::
  "heap \<Rightarrow> SimField option \<Rightarrow> SimResult \<times> SimField option" where
  "sim_field_promote_inplace_to_complex h field =
     (if \<not> sim_field_is_initialized field \<or> f_data (the field) = None
        then (SIM_RESULT_INVALID_ARGUMENT, field)
      else let f = the field; n = sim_field_element_count (f_layout f) in
        if f_element_size f = 16 then (SIM_RESULT_OK, field)
        else if n = 0 then (SIM_RESULT_OK, field)
        else if \<not> lay_contiguous (f_layout f) then (SIM_RESULT_INVALID_STATE, field)
        else if \<not> promotable_source (sim_field_promotion_source_domain field)
          then (SIM_RESULT_DEPENDENCY_ERROR, field)
        else if f_element_size f \<noteq> 8 then (SIM_RESULT_DEPENDENCY_ERROR, field)
        else let bytes = n * 16;
                 grant = (case al_allocate (f_allocator f) of None \<Rightarrow> h | Some a \<Rightarrow> a)
             in if \<not> grant (unat bytes) then (SIM_RESULT_OUT_OF_MEMORY, field)
                else let al = (if f_owns_data f then (f_allocator f)\<lparr>al_release := True\<rparr>
                               else f_allocator f);
                         f = f\<lparr>f_allocator := al,
                               f_data := Some (promote_bytes (unat n) (the (f_data f))),
                               f_element_size := 16\<rparr>
                     in (SIM_RESULT_OK,
                         Some ((set_complex_metadata f)\<lparr>f_owns_data := True, f_magic := SIM_FIELD_MAGIC\<rparr>)))"

definition sim_field_require_complex :: "heap \<Rightarrow> SimField option \<Rightarrow> SimResult \<times> SimField option" where
  "sim_field_require_complex h field =
     (if \<not> sim_field_is_initialized field \<or> f_data (the field) = None
        then (SIM_RESULT_INVALID_ARGUMENT, field)
      else if \<not> promotable_source (sim_field_promotion_source_domain field)
        then (SIM_RESULT_DEPENDENCY_ERROR, field)
      else case (if sim_field_storage_is_complex field then (SIM_RESULT_OK, field)
                 else sim_field_promote_inplace_to_complex h field) of
        (promote, field') \<Rightarrow>
          if promote \<noteq> SIM_RESULT_OK then (promote, field')
          else (SIM_RESULT_OK, Some (set_complex_metadata (the field'))))"

section \<open>Indices\<close>

definition sim_field_element_index ::
  "SimField option \<Rightarrow> size_t list option \<Rightarrow> nat \<Rightarrow> SimResult + size_t" where
  "sim_field_element_index field indices rank =
     (case (field, indices) of
        (Some f, Some is) \<Rightarrow>
          if lay_shape (f_layout f) = None \<or> lay_strides (f_layout f) = None \<or>
             rank \<noteq> lay_rank (f_layout f) \<or> rank = 0 then Inl SIM_RESULT_INVALID_ARGUMENT
          else (case indices_offset_loop 0 (zip (take rank is) (layout_axes (f_layout f))) of
                  None \<Rightarrow> Inl SIM_RESULT_INVALID_ARGUMENT
                | Some offset \<Rightarrow> Inr offset)
      | _ \<Rightarrow> Inl SIM_RESULT_INVALID_ARGUMENT)"

definition sim_field_index_offset :: "SimField option \<Rightarrow> size_t list option \<Rightarrow> SimResult + size_t" where
  "sim_field_index_offset field indices =
     (case sim_field_element_index field indices
             (case field of None \<Rightarrow> 0 | Some f \<Rightarrow> lay_rank (f_layout f)) of
        Inl rc \<Rightarrow> Inl rc
      | Inr elem_index \<Rightarrow> Inr (elem_index * f_element_size (the field)))"

definition sim_field_data :: "SimField option \<Rightarrow> u8 list option" where
  "sim_field_data field = (if \<not> sim_field_is_initialized field then None else f_data (the field))"

definition sim_field_bytes :: "SimField option \<Rightarrow> size_t" where
  "sim_field_bytes field =
     (if \<not> sim_field_is_initialized field then 0
      else sim_field_element_count (f_layout (the field)) * f_element_size (the field))"

definition sim_field_rank :: "SimField option \<Rightarrow> nat" where
  "sim_field_rank field =
     (if \<not> sim_field_is_initialized field then 0 else lay_rank (f_layout (the field)))"

definition sim_field_shape :: "SimField option \<Rightarrow> size_t list option" where
  "sim_field_shape field =
     (if \<not> sim_field_is_initialized field then None else lay_shape (f_layout (the field)))"

definition sim_field_strides :: "SimField option \<Rightarrow> size_t list option" where
  "sim_field_strides field =
     (if \<not> sim_field_is_initialized field then None else lay_strides (f_layout (the field)))"

definition sim_field_width :: "SimField option \<Rightarrow> size_t" where
  "sim_field_width field =
     (if \<not> sim_field_is_initialized field \<or> lay_shape (f_layout (the field)) = None \<or>
         lay_rank (f_layout (the field)) = 0 then 0
      else the (lay_shape (f_layout (the field))) ! (lay_rank (f_layout (the field)) - 1))"

definition sim_field_height :: "SimField option \<Rightarrow> size_t" where
  "sim_field_height field =
     (if \<not> sim_field_is_initialized field \<or> lay_shape (f_layout (the field)) = None \<or>
         lay_rank (f_layout (the field)) = 0 then 0
      else if lay_rank (f_layout (the field)) = 1 then 1
      else the (lay_shape (f_layout (the field))) ! (lay_rank (f_layout (the field)) - 2))"

definition sim_field_index_to_xy :: "SimField option \<Rightarrow> size_t \<Rightarrow> SimResult + (size_t \<times> size_t)" where
  "sim_field_index_to_xy field index =
     (if \<not> sim_field_is_initialized field then Inl SIM_RESULT_INVALID_ARGUMENT
      else let l = f_layout (the field); rank = lay_rank l; count = sim_field_element_count l in
        if lay_shape l = None \<or> lay_strides l = None \<or> rank = 0 then Inl SIM_RESULT_INVALID_ARGUMENT
        else if count = 0 \<or> index \<ge> count then Inl SIM_RESULT_INVALID_ARGUMENT
        else if rank = 1 then Inr (index, 0)
        else let extent_x = the (lay_shape l) ! (rank - 1); extent_y = the (lay_shape l) ! (rank - 2);
                 stride_x = the (lay_strides l) ! (rank - 1);
                 stride_y = the (lay_strides l) ! (rank - 2)
             in if extent_x = 0 \<or> extent_y = 0 \<or> stride_x = 0 \<or> stride_y = 0
                then Inl SIM_RESULT_INVALID_ARGUMENT
                else Inr ((index div stride_x) mod extent_x, (index div stride_y) mod extent_y))"

definition sim_field_xy_to_index :: "SimField option \<Rightarrow> size_t \<Rightarrow> size_t \<Rightarrow> SimResult + size_t" where
  "sim_field_xy_to_index field x y =
     (if \<not> sim_field_is_initialized field then Inl SIM_RESULT_INVALID_ARGUMENT
      else let l = f_layout (the field); rank = lay_rank l in
        if lay_shape l = None \<or> lay_strides l = None \<or> rank = 0 then Inl SIM_RESULT_INVALID_ARGUMENT
        else let extent_x = the (lay_shape l) ! (rank - 1);
                 stride_x = the (lay_strides l) ! (rank - 1)
             in if extent_x = 0 \<or> stride_x = 0 then Inl SIM_RESULT_INVALID_ARGUMENT
                else if rank = 1 then
                  (if y \<noteq> 0 \<or> x \<ge> extent_x then Inl SIM_RESULT_INVALID_ARGUMENT
                   else Inr (x * stride_x))
                else let extent_y = the (lay_shape l) ! (rank - 2);
                         stride_y = the (lay_strides l) ! (rank - 2)
                     in if extent_y = 0 \<or> stride_y = 0 then Inl SIM_RESULT_INVALID_ARGUMENT
                        else if x \<ge> extent_x \<or> y \<ge> extent_y then Inl SIM_RESULT_INVALID_ARGUMENT
                        else Inr (x * stride_x + y * stride_y))"

section \<open>Typed accessors\<close>

text \<open>Each returns the data pointer or \<^verbatim>\<open>NULL\<close>; the \<^verbatim>\<open>_const\<close> variants of the source are the same.\<close>

definition sim_field_real_data :: "SimField option \<Rightarrow> u8 list option" where
  "sim_field_real_data field =
     (if \<not> sim_field_is_initialized field then None
      else let domain = sim_scalar_domain_from_field field; k = f_element_size (the field)
           in if sd_kind domain = SIM_SCALAR_DOMAIN_INTEGER \<or>
                 sd_kind domain = SIM_SCALAR_DOMAIN_MODULAR \<or>
                 sim_scalar_domain_is_complex domain \<or> k = 0 \<or> k mod 8 \<noteq> 0 then None
              else f_data (the field))"

definition integer_data :: "SimScalarDomain \<Rightarrow> SimField option \<Rightarrow> u8 list option" where
  "integer_data domain field =
     (if \<not> sim_field_is_initialized field \<or>
         \<not> sim_scalar_domain_equal (sim_scalar_domain_from_field field) domain then None
      else f_data (the field))"

definition sim_field_i8_data :: "SimField option \<Rightarrow> u8 list option" where
  "sim_field_i8_data = integer_data sim_scalar_domain_i8"

definition sim_field_i32_data :: "SimField option \<Rightarrow> u8 list option" where
  "sim_field_i32_data = integer_data sim_scalar_domain_i32"

definition sim_field_i64_data :: "SimField option \<Rightarrow> u8 list option" where
  "sim_field_i64_data = integer_data sim_scalar_domain_i64"

definition sim_field_u8_data :: "SimField option \<Rightarrow> u8 list option" where
  "sim_field_u8_data = integer_data sim_scalar_domain_u8"

definition sim_field_u32_data :: "SimField option \<Rightarrow> u8 list option" where
  "sim_field_u32_data = integer_data sim_scalar_domain_u32"

definition sim_field_u64_data :: "SimField option \<Rightarrow> u8 list option" where
  "sim_field_u64_data = integer_data sim_scalar_domain_u64"

definition sim_field_complex_data :: "SimField option \<Rightarrow> u8 list option" where
  "sim_field_complex_data field =
     (if \<not> sim_field_is_initialized field \<or> \<not> sim_field_storage_is_complex field then None
      else f_data (the field))"

end
