(* ===== verification/Field_Patch.thy ===== *)
theory Field_Patch
  imports Sim_Field
begin

text \<open>
  \<^verbatim>\<open>core/src/field_patch.c\<close>: rectangular patches of the two fastest axes of a field, views on them, row
  iteration and tiling. The conversion of a normalized floating-point region to cell bounds is
  modelled from the bounds on (\<open>patch_from_cell_bounds\<close>): the two multiplications and roundings of
  \<^verbatim>\<open>sim_field_patch_from_normalized_region\<close> are not.
\<close>

unbundle bit_operations_syntax

section \<open>Patches\<close>

definition SIM_FIELD_PATCH_FLAG_NONE :: u32 where "SIM_FIELD_PATCH_FLAG_NONE = 0"

definition SIM_FIELD_PATCH_FLAG_COVERS_FULL_ROWS :: u32 where
  "SIM_FIELD_PATCH_FLAG_COVERS_FULL_ROWS = push_bit 0 1"

definition SIM_FIELD_PATCH_FLAG_IS_FULL_FIELD :: u32 where
  "SIM_FIELD_PATCH_FLAG_IS_FULL_FIELD = push_bit 1 1"

definition SIM_FIELD_PATCH_FLAG_TOUCHES_BOUNDARY :: u32 where
  "SIM_FIELD_PATCH_FLAG_TOUCHES_BOUNDARY = push_bit 2 1"

record SimFieldPatch =
  p_x0 :: size_t
  p_y0 :: size_t
  p_width :: size_t
  p_height :: size_t
  p_field_width :: size_t
  p_field_height :: size_t
  p_flags :: u32

definition sim_field_patch_compute_flags ::
  "size_t \<Rightarrow> size_t \<Rightarrow> size_t \<Rightarrow> size_t \<Rightarrow> size_t \<Rightarrow> size_t \<Rightarrow> u32" where
  "sim_field_patch_compute_flags field_width field_height x0 y0 width height =
     (let flags = SIM_FIELD_PATCH_FLAG_NONE;
          flags = (if x0 = 0 \<and> width = field_width
                   then flags OR SIM_FIELD_PATCH_FLAG_COVERS_FULL_ROWS else flags);
          flags = (if flags AND SIM_FIELD_PATCH_FLAG_COVERS_FULL_ROWS \<noteq> 0 \<and> y0 = 0 \<and>
                      height = field_height
                   then flags OR SIM_FIELD_PATCH_FLAG_IS_FULL_FIELD else flags)
      in if x0 = 0 \<or> y0 = 0 \<or> x0 + width = field_width \<or> y0 + height = field_height
         then flags OR SIM_FIELD_PATCH_FLAG_TOUCHES_BOUNDARY else flags)"

definition sim_field_patch_is_valid :: "SimFieldPatch option \<Rightarrow> bool" where
  "sim_field_patch_is_valid patch =
     (case patch of
        None \<Rightarrow> False
      | Some p \<Rightarrow>
          if p_field_width p = 0 \<or> p_field_height p = 0 \<or> p_width p = 0 \<or> p_height p = 0 then False
          else if p_x0 p \<ge> p_field_width p \<or> p_y0 p \<ge> p_field_height p then False
          else if p_width p > p_field_width p - p_x0 p \<or> p_height p > p_field_height p - p_y0 p
            then False
          else True)"

definition sim_field_patch_from_xywh ::
  "size_t \<Rightarrow> size_t \<Rightarrow> size_t \<Rightarrow> size_t \<Rightarrow> size_t \<Rightarrow> size_t \<Rightarrow> SimResult + SimFieldPatch" where
  "sim_field_patch_from_xywh field_width field_height x0 y0 width height =
     (if field_width = 0 \<or> field_height = 0 \<or> width = 0 \<or> height = 0 \<or> x0 \<ge> field_width \<or>
         y0 \<ge> field_height \<or> width > field_width - x0 \<or> height > field_height - y0
      then Inl SIM_RESULT_INVALID_ARGUMENT
      else Inr \<lparr>p_x0 = x0, p_y0 = y0, p_width = width, p_height = height,
                p_field_width = field_width, p_field_height = field_height,
                p_flags = sim_field_patch_compute_flags field_width field_height x0 y0 width height\<rparr>)"

definition sim_field_patch_full :: "size_t \<Rightarrow> size_t \<Rightarrow> SimResult + SimFieldPatch" where
  "sim_field_patch_full field_width field_height =
     sim_field_patch_from_xywh field_width field_height 0 0 field_width field_height"

definition sim_field_patch_intersect ::
  "SimFieldPatch option \<Rightarrow> SimFieldPatch option \<Rightarrow> SimFieldPatch option" where
  "sim_field_patch_intersect lhs rhs =
     (if \<not> sim_field_patch_is_valid lhs \<or> \<not> sim_field_patch_is_valid rhs then None
      else let l = the lhs; r = the rhs in
        if p_field_width l \<noteq> p_field_width r \<or> p_field_height l \<noteq> p_field_height r then None
        else let x0 = (if p_x0 l > p_x0 r then p_x0 l else p_x0 r);
                 y0 = (if p_y0 l > p_y0 r then p_y0 l else p_y0 r);
                 x1 = (if p_x0 l + p_width l < p_x0 r + p_width r then p_x0 l + p_width l
                       else p_x0 r + p_width r);
                 y1 = (if p_y0 l + p_height l < p_y0 r + p_height r then p_y0 l + p_height l
                       else p_y0 r + p_height r)
             in if x1 \<le> x0 \<or> y1 \<le> y0 then None
                else case sim_field_patch_from_xywh (p_field_width l) (p_field_height l) x0 y0
                            (x1 - x0) (y1 - y0) of
                       Inl _ \<Rightarrow> None
                     | Inr p \<Rightarrow> Some p)"

text \<open>
  The integer half of \<^verbatim>\<open>sim_field_patch_from_normalized_region\<close>: \<open>x0\<close>, \<open>y0\<close>, \<open>x1\<close>, \<open>y1\<close> are the
  floors and ceilings of the scaled region.
\<close>

definition patch_from_cell_bounds ::
  "size_t \<Rightarrow> size_t \<Rightarrow> size_t \<Rightarrow> size_t \<Rightarrow> size_t \<Rightarrow> size_t \<Rightarrow> SimResult + SimFieldPatch" where
  "patch_from_cell_bounds field_width field_height x0 y0 x1 y1 =
     (let x0 = (if x0 \<ge> field_width then field_width - 1 else x0);
          y0 = (if y0 \<ge> field_height then field_height - 1 else y0);
          x1 = (if x1 = 0 then 1 else x1);
          y1 = (if y1 = 0 then 1 else y1);
          x1 = (if x1 > field_width then field_width else x1);
          y1 = (if y1 > field_height then field_height else y1);
          x1 = (if x1 \<le> x0 then x0 + 1 else x1);
          y1 = (if y1 \<le> y0 then y0 + 1 else y1)
      in if x1 > field_width \<or> y1 > field_height then Inl SIM_RESULT_INVALID_ARGUMENT
         else sim_field_patch_from_xywh field_width field_height x0 y0 (x1 - x0) (y1 - y0))"

section \<open>Views\<close>

text \<open>
  The view of a patch. \<open>pv_owns_layout\<close> says that the shape and stride pointers of its buffer view
  point to the arrays of the same record, the identity the source compares.
\<close>

record SimFieldPatchView =
  pv_buffer_view :: SimBufferView
  pv_patch :: SimFieldPatch
  pv_row_stride :: size_t
  pv_readonly :: bool
  pv_zero_copy :: bool
  pv_shape_storage :: "size_t list"
  pv_stride_storage :: "size_t list"
  pv_owns_layout :: bool

definition sim_field_patch_view_is_valid :: "SimFieldPatchView option \<Rightarrow> bool" where
  "sim_field_patch_view_is_valid view =
     (case view of
        None \<Rightarrow> False
      | Some v \<Rightarrow>
          if \<not> sim_field_patch_is_valid (Some (pv_patch v)) \<or>
             \<not> sim_buffer_view_is_valid (Some (pv_buffer_view v)) then False
          else if view_count (pv_buffer_view v) \<noteq> p_width (pv_patch v) * p_height (pv_patch v) \<or>
                  pv_row_stride v < p_width (pv_patch v) then False
          else if lay_rank (view_layout (pv_buffer_view v)) = 1 then
            pv_owns_layout v \<and> pv_shape_storage v ! 0 = p_width (pv_patch v) \<and>
            pv_stride_storage v ! 0 = 1 \<and> lay_contiguous (view_layout (pv_buffer_view v))
          else if lay_rank (view_layout (pv_buffer_view v)) \<noteq> 2 \<or> \<not> pv_owns_layout v then False
          else pv_shape_storage v ! 0 = p_height (pv_patch v) \<and>
               pv_shape_storage v ! 1 = p_width (pv_patch v) \<and> pv_stride_storage v ! 1 = 1 \<and>
               pv_stride_storage v ! 0 = pv_row_stride v)"

definition sim_field_patch_view_from_field ::
  "SimField option \<Rightarrow> SimFieldPatch option \<Rightarrow> bool \<Rightarrow> SimResult + SimFieldPatchView" where
  "sim_field_patch_view_from_field field patch readonly =
     (if field = None \<or> \<not> sim_field_patch_is_valid patch then Inl SIM_RESULT_INVALID_ARGUMENT
      else let f = the field; p = the patch; rank = sim_field_rank field in
        if rank = 0 \<or> sim_field_data field = None \<or> sim_field_width field \<noteq> p_field_width p \<or>
           sim_field_height field \<noteq> p_field_height p then Inl SIM_RESULT_INVALID_ARGUMENT
        else if rank > 2 \<or> f_storage f \<noteq> SIM_FIELD_STORAGE_ROW_MAJOR \<or>
                lay_shape (f_layout f) = None \<or> lay_strides (f_layout f) = None
          then Inl SIM_RESULT_NOT_SUPPORTED
        else let strides = the (lay_strides (f_layout f)) in
          if strides ! (rank - 1) \<noteq> 1 then Inl SIM_RESULT_NOT_SUPPORTED
          else case sim_field_xy_to_index field (p_x0 p) (p_y0 p) of
            Inl _ \<Rightarrow> Inl SIM_RESULT_INVALID_ARGUMENT
          | Inr base_index \<Rightarrow>
              (let type = sim_buffer_data_type_from_scalar_domain (sim_field_scalar_domain field);
                   element_size = sim_buffer_element_size type
               in if element_size = 0 then Inl SIM_RESULT_NOT_SUPPORTED
                  else let shape = (if rank = 1 then [p_width p] else [p_height p, p_width p]);
                           stride = (if rank = 1 then [1]
                                     else [strides ! (rank - 2), strides ! (rank - 1)]);
                           row_stride = (if rank = 1 then p_width p else stride ! 0);
                           contiguous = (if rank = 1 then True
                             else p_flags p AND SIM_FIELD_PATCH_FLAG_COVERS_FULL_ROWS \<noteq> 0);
                           view = \<lparr>pv_buffer_view =
                               \<lparr>view_data = Some (drop (unat (base_index * element_size))
                                                   (the (sim_field_data field))),
                                view_count = p_width p * p_height p, view_type = type,
                                view_layout = \<lparr>lay_rank = (if rank = 1 then 1 else 2),
                                  lay_shape = Some shape, lay_strides = Some stride,
                                  lay_contiguous = contiguous\<rparr>,
                                view_logical_to_physical = None\<rparr>,
                             pv_patch = p, pv_row_stride = row_stride, pv_readonly = readonly,
                             pv_zero_copy = True, pv_shape_storage = shape,
                             pv_stride_storage = stride, pv_owns_layout = True\<rparr>
                       in if \<not> sim_field_patch_view_is_valid (Some view)
                          then Inl SIM_RESULT_INVALID_STATE else Inr view))"

text \<open>
  Row iteration: the callback gets the row number, the bytes reachable from the row pointer, the row
  length and its user data, and the first failure ends the iteration.
\<close>

fun iter_rows_loop ::
  "(size_t \<Rightarrow> u8 list \<Rightarrow> size_t \<Rightarrow> 's \<Rightarrow> SimResult \<times> 's) \<Rightarrow> SimFieldPatchView \<Rightarrow> nat list \<Rightarrow> 's \<Rightarrow>
   SimResult \<times> 's" where
  "iter_rows_loop row_fn v [] userdata = (SIM_RESULT_OK, userdata)"
| "iter_rows_loop row_fn v (row # rows) userdata =
     (let elem_size = sim_buffer_element_size (view_type (pv_buffer_view v));
          row_data = drop (unat (word_of_nat row * pv_row_stride v * elem_size))
                       (the (view_data (pv_buffer_view v)));
          (rc, userdata') = row_fn (word_of_nat row) row_data (p_width (pv_patch v)) userdata
      in if rc \<noteq> SIM_RESULT_OK then (rc, userdata') else iter_rows_loop row_fn v rows userdata')"

definition sim_field_patch_iter_rows ::
  "SimFieldPatchView option \<Rightarrow> (size_t \<Rightarrow> u8 list \<Rightarrow> size_t \<Rightarrow> 's \<Rightarrow> SimResult \<times> 's) option \<Rightarrow> 's \<Rightarrow>
   SimResult \<times> 's" where
  "sim_field_patch_iter_rows view row_fn userdata =
     (case (view, row_fn) of
        (Some v, Some fn) \<Rightarrow>
          if \<not> sim_field_patch_view_is_valid view then (SIM_RESULT_INVALID_ARGUMENT, userdata)
          else let row_count = (if lay_rank (view_layout (pv_buffer_view v)) = 1 then 1
                                else p_height (pv_patch v))
               in iter_rows_loop fn v [0..<unat row_count] userdata
      | _ \<Rightarrow> (SIM_RESULT_INVALID_ARGUMENT, userdata))"

section \<open>Tiling\<close>

text \<open>
  The two nested loops of \<^verbatim>\<open>sim_field_patch_split_tiles\<close> over a state of the tile count and the output
  array. The loop counters are \<^verbatim>\<open>size_t\<close> and can wrap, so the loops are partial: \<open>None\<close> means that
  the code does not return.
\<close>

definition put_tile ::
  "SimFieldPatch \<Rightarrow> size_t \<Rightarrow> size_t \<Rightarrow> size_t \<Rightarrow> size_t \<Rightarrow> size_t \<Rightarrow>
   size_t \<times> SimFieldPatch list option \<Rightarrow> size_t \<times> SimFieldPatch list option" where
  "put_tile p out_capacity x y local_width local_height = (\<lambda>(count, out_tiles).
     (count + 1,
      case out_tiles of
        None \<Rightarrow> None
      | Some tiles \<Rightarrow>
          Some (if count < out_capacity then
                  (case sim_field_patch_from_xywh (p_field_width p) (p_field_height p)
                          (p_x0 p + x) (p_y0 p + y) local_width local_height of
                     Inl _ \<Rightarrow> tiles
                   | Inr tile \<Rightarrow> tiles[unat count := tile])
                else tiles)))"

partial_function (option) split_row ::
  "SimFieldPatch \<Rightarrow> size_t \<Rightarrow> size_t \<Rightarrow> size_t \<Rightarrow> size_t \<Rightarrow> size_t \<Rightarrow>
   size_t \<times> SimFieldPatch list option \<Rightarrow> (size_t \<times> SimFieldPatch list option) option" where
  "split_row p out_capacity tile_width y local_height x st =
     (if x < p_width p then
        let local_width = (if p_width p - x > tile_width then tile_width else p_width p - x)
        in split_row p out_capacity tile_width y local_height (x + tile_width)
             (put_tile p out_capacity x y local_width local_height st)
      else Some st)"

partial_function (option) split_rows ::
  "SimFieldPatch \<Rightarrow> size_t \<Rightarrow> size_t \<Rightarrow> size_t \<Rightarrow> size_t \<Rightarrow>
   size_t \<times> SimFieldPatch list option \<Rightarrow> (size_t \<times> SimFieldPatch list option) option" where
  "split_rows p out_capacity tile_width tile_height y st =
     (if y < p_height p then
        let local_height = (if p_height p - y > tile_height then tile_height else p_height p - y)
        in Option.bind (split_row p out_capacity tile_width y local_height 0 st)
             (\<lambda>st'. split_rows p out_capacity tile_width tile_height (y + tile_height) st')
      else Some st)"

declare split_row.simps [code] split_rows.simps [code]

definition sim_field_patch_split_tiles ::
  "SimFieldPatch option \<Rightarrow> size_t \<Rightarrow> size_t \<Rightarrow> SimFieldPatch list option \<Rightarrow> size_t \<Rightarrow>
   (size_t \<times> SimFieldPatch list option) option" where
  "sim_field_patch_split_tiles patch tile_width tile_height out_tiles out_capacity =
     (if \<not> sim_field_patch_is_valid patch then Some (0, out_tiles)
      else let p = the patch;
               tile_width = (if tile_width = 0 \<or> tile_width > p_width p then p_width p else tile_width);
               tile_height = (if tile_height = 0 \<or> tile_height > p_height p then p_height p
                              else tile_height)
           in split_rows p out_capacity tile_width tile_height 0 (0, out_tiles))"

end
