(* ===== verification/Buffer_Correct.thy ===== *)
theory Buffer_Correct
  imports Sim_Buffer
begin

text \<open>
  Correctness of \<^verbatim>\<open>core/src/sim_buffer.c\<close>: the shape arithmetic is exact or fails, views address
  elements in row-major order, and every buffer operation keeps the buffer invariant.
\<close>

section \<open>Element counts\<close>

abbreviation extents :: "size_t list \<Rightarrow> nat list" where
  "extents ds \<equiv> map unat ds"

lemma shape_count_loop_exact:
  "shape_count_loop c ds =
     (if \<forall>k \<le> length ds. unat c * prod_list (extents (take k ds)) < 2 ^ 64
      then Some (c * word_of_nat (prod_list (extents ds))) else None)"
proof (induction ds arbitrary: c)
  case Nil
  then show ?case using unat_lt_64 [of c] by simp
next
  case (Cons d ds)
  let ?fits = "\<lambda>c ds. \<forall>k \<le> length ds. unat c * prod_list (extents (take k ds)) < 2 ^ 64"
  have split: "?fits c (d # ds) \<longleftrightarrow>
      (\<forall>k \<le> length ds. unat c * unat d * prod_list (extents (take k ds)) < 2 ^ 64)"
    (is "?l = ?r")
  proof
    assume ?l
    then have "unat c * prod_list (extents (take (Suc k) (d # ds))) < 2 ^ 64" if "k \<le> length ds" for k
      using that by (metis Suc_le_mono length_Cons)
    then show ?r by (simp add: mult.assoc)
  next
    assume r: ?r
    show ?l
    proof (intro allI impI)
      fix k assume "k \<le> length (d # ds)"
      then show "unat c * prod_list (extents (take k (d # ds))) < 2 ^ 64"
        using r unat_lt_64 [of c] by (cases k) (simp_all add: mult.assoc)
    qed
  qed
  show ?case
  proof (cases "d \<noteq> 0 \<and> c > size_max div d")
    case True
    then have "2 ^ 64 \<le> unat c * unat d" using gt_size_max_div_iff by blast
    then have "\<not> ?fits c (d # ds)" unfolding split by force
    then show ?thesis using True by simp
  next
    case False
    then have exact: "unat (c * d) = unat c * unat d"
      using le_size_max_div_iff [of d c] by (cases "d = 0") (auto simp: not_less size_arith)
    have "c * d * word_of_nat (prod_list (extents ds)) = c * word_of_nat (prod_list (extents (d # ds)))"
      by (simp add: mult.assoc)
    moreover have "shape_count_loop c (d # ds) = shape_count_loop (c * d) ds"
      unfolding shape_count_loop.simps using False by (rule if_not_P)
    ultimately show ?thesis using Cons.IH [of "c * d"] unfolding split exact by simp
  qed
qed

text \<open>The count of a shape, in mathematical terms: the product of the extents.\<close>

definition shape_fits :: "size_t list \<Rightarrow> bool" where
  "shape_fits ds \<longleftrightarrow> (\<forall>k \<le> length ds. prod_list (extents (take k ds)) < 2 ^ 64)"

lemma shape_fits_total: "shape_fits ds \<Longrightarrow> prod_list (extents ds) < 2 ^ 64"
  unfolding shape_fits_def by (drule spec [of _ "length ds"]) simp

lemma shape_fits_positive:
  assumes "0 \<notin> set ds"
  shows "shape_fits ds \<longleftrightarrow> prod_list (extents ds) < 2 ^ 64"
proof
  assume less: "prod_list (extents ds) < 2 ^ 64"
  have "prod_list (extents (take k ds)) \<le> prod_list (extents ds)" for k
  proof -
    have "prod_list (extents ds) = prod_list (extents (take k ds)) * prod_list (extents (drop k ds))"
      by (metis append_take_drop_id map_append prod_list.append)
    moreover have "0 \<notin> set (extents (drop k ds))"
      using assms in_set_dropD by (fastforce simp: unat_eq_0)
    ultimately show ?thesis by (metis Suc_leI mult.right_neutral mult_le_mono2 neq0_conv One_nat_def
          prod_list_zero_iff)
  qed
  then show "shape_fits ds" unfolding shape_fits_def using less by (meson le_less_trans)
qed (rule shape_fits_total)

lemma shape_count_exact:
  "sim_buffer_shape_count rank (Some ds) =
     (if rank \<noteq> 0 \<and> shape_fits (take rank ds)
      then Some (word_of_nat (prod_list (extents (take rank ds)))) else None)"
  by (simp add: sim_buffer_shape_count_def shape_count_loop_exact shape_fits_def)

lemma shape_count_unat:
  assumes "sim_buffer_shape_count rank (Some ds) = Some count"
  shows "unat count = prod_list (extents (take rank ds))" "rank \<noteq> 0" "shape_fits (take rank ds)"
  using assms shape_fits_total [of "take rank ds"]
  by (auto simp: shape_count_exact unat_of_nat split: if_splits)

section \<open>Strides\<close>

text \<open>Extents with zero counted as one, the way the stride loops treat them.\<close>

definition stride_extents :: "size_t list \<Rightarrow> nat list" where
  "stride_extents ds = map (\<lambda>d. max 1 (unat d)) ds"

lemma stride_extents_simps [simp]:
  "stride_extents [] = []"
  "stride_extents (d # ds) = max 1 (unat d) # stride_extents ds"
  "stride_extents (ds @ es) = stride_extents ds @ stride_extents es"
  "stride_extents (rev ds) = rev (stride_extents ds)"
  by (simp_all add: stride_extents_def rev_map)

lemma stride_extents_pos: "0 < prod_list (stride_extents ds)"
  by (induction ds) auto

lemma stride_extents_positive: "0 \<notin> set ds \<Longrightarrow> stride_extents ds = extents ds"
  by (induction ds) (auto simp: max_def unat_eq_0 Suc_le_eq)

lemma unat_stride_step:
  fixes stride d :: size_t
  shows "unat (if d > 0 then d else 1) = max 1 (unat d)"
  by (auto simp: max_def word_gt_0 unat_eq_0 Suc_le_eq)

lemma stride_check:
  fixes stride d :: size_t
  shows "d > 0 \<and> stride > size_max div d \<longleftrightarrow> 2 ^ 64 \<le> unat stride * max 1 (unat d)"
proof (cases "d = 0")
  case True
  then show ?thesis using unat_lt_64 [of stride] by simp
next
  case False
  then have "max 1 (unat d) = unat d" by (simp add: max_def Suc_le_eq unat_eq_0)
  then show ?thesis using gt_size_max_div_iff [OF False, of stride] False by (simp add: word_gt_0)
qed

lemma layout_strides_loop_exact:
  "layout_strides_loop stride ds acc =
     (if unat stride * prod_list (stride_extents ds) < 2 ^ 64
      then Some (map (\<lambda>s. stride * word_of_nat s) (row_major_strides (rev (stride_extents ds))) @ acc)
      else None)"
proof (induction ds arbitrary: stride acc)
  case Nil
  then show ?case using unat_lt_64 [of stride] by simp
next
  case (Cons d ds)
  let ?n = "max 1 (unat d)" and ?d = "if d > 0 then d else 1"
  have n: "word_of_nat ?n = ?d" by (simp only: unat_stride_step [symmetric]) simp
  show ?case
  proof (cases "2 ^ 64 \<le> unat stride * ?n")
    case True
    then have "2 ^ 64 \<le> unat stride * ?n" .
    also have "\<dots> \<le> unat stride * (?n * prod_list (stride_extents ds))"
      using stride_extents_pos [of ds] by (intro mult_le_mono2) (cases "prod_list (stride_extents ds)", simp_all)
    finally show ?thesis using True by (simp only: layout_strides_loop.simps stride_check) simp
  next
    case False
    then have "unat (stride * ?d) = unat stride * ?n"
      using unat_mult_exact [of stride ?d] by (simp only: unat_stride_step)
    then show ?thesis using False Cons.IH [of "stride * ?d" "stride # acc"] n
      by (simp only: layout_strides_loop.simps stride_check)
        (simp add: row_major_strides_snoc comp_def ac_simps)
  qed
qed

lemma layout_strides_exact:
  "layout_strides_loop 1 (rev ds) [] =
     (if prod_list (stride_extents ds) < 2 ^ 64
      then Some (map word_of_nat (row_major_strides (stride_extents ds))) else None)"
  by (simp add: layout_strides_loop_exact prod_list.rev)

section \<open>Linear indices\<close>

lemma extents_rev_zip:
  "map fst (rev axes) = rev (map fst axes)" "map snd (rev axes) = rev (map snd axes)"
  by (simp_all add: rev_map)

lemma in_box_prod_pos: "in_box ds is \<Longrightarrow> 0 < prod_list ds"
  using row_major_less by fastforce

lemma le_mult_pos:
  fixes n a b c :: nat
  shows "n \<le> a * b \<Longrightarrow> 0 < c \<Longrightarrow> n \<le> a * (b * c)"
  by (cases c) (auto simp: algebra_simps intro: trans_le_add1)

lemma prod_list_rev_nat: "prod_list (rev (ds :: nat list)) = prod_list ds"
  by (simp add: prod_list.rev)

lemma shape_linear_index_loop_exact:
  assumes "unat linear_index < unat stride"
  shows "shape_linear_index_loop stride linear_index axes =
    (if in_box (rev (extents (map fst axes))) (rev (extents (map snd axes))) \<and>
        unat stride * prod_list (extents (map fst axes)) < 2 ^ 64
     then Some (linear_index + stride * word_of_nat
            (row_major (rev (extents (map fst axes))) (rev (extents (map snd axes)))))
     else None)"
  using assms
proof (induction axes arbitrary: stride linear_index)
  case Nil
  then show ?case using unat_lt_64 [of stride] by simp
next
  case (Cons axis axes)
  obtain e i where axis: "axis = (e, i)" by fastforce
  let ?es = "rev (extents (map fst axes))" and ?is = "rev (extents (map snd axes))"
  let ?P = "prod_list (extents (map fst axes))"
  show ?case
  proof (cases "i < e")
    case False
    then show ?thesis by (simp add: axis word_less_nat_alt not_less word_le_nat_alt)
  next
    case i: True
    then have pos: "0 < unat e" "e > 0" "(if e > 0 then e else 1) = e"
      by (auto simp: word_less_nat_alt)
    have i': "unat i < unat e" using i by (simp add: word_less_nat_alt)
    show ?thesis
    proof (cases "2 ^ 64 \<le> unat stride * unat e")
      case True
      then have "stride > size_max div e" using gt_size_max_div_iff [of e stride] pos by simp
      moreover have "2 ^ 64 \<le> unat stride * (unat e * ?P)" if "in_box ?es ?is"
        using le_mult_pos [OF True] in_box_prod_pos [OF that] by (simp add: prod_list_rev_nat)
      ultimately show ?thesis using i i' pos by (force simp: axis Let_def)
    next
      case False
      have step: "unat stride + unat i * unat stride \<le> unat stride * unat e"
        using i' mult_le_mono2 [of "Suc (unat i)" "unat e" "unat stride"] by (simp add: mult.commute)
      then have small: "unat i * unat stride < 2 ^ 64" using False by linarith
      have "\<not> (i > 0 \<and> stride > size_max div i)"
        using gt_size_max_div_iff [of i stride] small by (auto simp: mult.commute)
      moreover have trm: "unat (i * stride) = unat i * unat stride" using small by (rule unat_mult_exact)
      moreover have sum: "unat linear_index + unat (i * stride) < unat stride * unat e"
        using Cons.prems step unfolding trm by linarith
      moreover have "\<not> linear_index > size_max - i * stride"
        using sum False by (simp add: word_less_nat_alt unat_sub_if_size unat_size_max word_size)
      moreover have "\<not> stride > size_max div e"
        using gt_size_max_div_iff [of e stride] pos False by simp
      ultimately have "shape_linear_index_loop stride linear_index (axis # axes) =
          shape_linear_index_loop (stride * e) (linear_index + i * stride) axes"
        using i pos by (auto simp: axis Let_def)
      moreover have "unat (stride * e) = unat stride * unat e" using False by (simp add: unat_mult_exact)
      moreover have "unat (linear_index + i * stride) < unat stride * unat e"
        using sum False by (simp add: unat_add_exact)
      ultimately show ?thesis using Cons.IH [of "linear_index + i * stride" "stride * e"] i'
        by (simp add: axis row_major_snoc mult.assoc algebra_simps)
    qed
  qed
qed

lemma linear_offset_loop_exact:
  "linear_offset_loop logical_index offset axes =
     (if 0 \<notin> set (map fst axes) \<and> unat logical_index < prod_list (extents (map fst axes))
      then Some (offset + word_of_nat (dot (unravel (rev (extents (map fst axes))) (unat logical_index))
             (rev (extents (map snd axes)))))
      else None)"
proof (induction axes arbitrary: logical_index offset)
  case Nil
  then show ?case by (auto simp: unat_eq_0)
next
  case (Cons axis axes)
  obtain e st where axis: "axis = (e, st)" by fastforce
  show ?case
  proof (cases "e = 0")
    case True
    then show ?thesis by (simp add: axis)
  next
    case False
    then have pos: "0 < unat e" by (simp add: unat_gt_0)
    let ?P = "prod_list (extents (map fst axes))"
    have less: "unat logical_index div unat e < ?P \<longleftrightarrow> unat logical_index < unat e * ?P"
      using pos by (metis div_less_iff_less_mult mult.commute)
    have len: "length (unravel ds n) = length ds" for ds n by (induction ds) auto
    have "word_of_nat (unat logical_index mod unat e * unat st) = (logical_index mod e) * st"
      by (simp flip: unat_mod)
    then show ?thesis using False Cons.IH [of "logical_index div e"]
      by (simp add: axis unat_div less unravel_snoc dot_snoc len add.assoc add.commute
          del: map_map)
  qed
qed

section \<open>The buffer invariant\<close>

text \<open>
  A live buffer: its shape is non-empty, its count is the product of the extents, its byte size is the
  count times the element size without overflow, its storage has that many bytes (none at all for an
  empty buffer), and the layout is row-major over the owned arrays.
\<close>

definition buffer_shape :: "SimBuffer \<Rightarrow> size_t list" where
  "buffer_shape b = the (buf_shape_storage b)"

definition row_major_layout :: "size_t list \<Rightarrow> SimFieldLayout \<Rightarrow> bool" where
  "row_major_layout ds l \<longleftrightarrow> lay_rank l = length ds \<and> lay_shape l = Some ds \<and>
     lay_strides l = Some (map word_of_nat (row_major_strides (stride_extents ds))) \<and>
     lay_contiguous l"

definition storage_ok :: "u8 list option \<Rightarrow> size_t \<Rightarrow> bool" where
  "storage_ok data bytes =
     (case data of None \<Rightarrow> bytes = 0 | Some block \<Rightarrow> 0 < bytes \<and> length block = unat bytes)"

definition buffer_ok :: "SimBuffer \<Rightarrow> bool" where
  "buffer_ok b \<longleftrightarrow>
     (let ds = buffer_shape b; k = sim_buffer_element_size (buf_type b) in
      buf_shape_storage b = Some ds \<and> ds \<noteq> [] \<and> k \<noteq> 0 \<and>
      prod_list (stride_extents ds) < 2 ^ 64 \<and>
      unat (buf_count b) = prod_list (extents ds) \<and>
      unat (buf_bytes b) = prod_list (extents ds) * unat k \<and>
      row_major_layout ds (buf_layout b) \<and> buf_stride_storage b = lay_strides (buf_layout b) \<and>
      storage_ok (buf_data b) (buf_bytes b))"

lemma layout_assign_cases:
  "sim_buffer_layout_assign h b rank (Some ds) =
     (if rank = 0 \<or> \<not> calloc_ok h rank 8 \<or> 2 ^ 64 \<le> prod_list (stride_extents (take rank ds)) then None
      else let strides = map word_of_nat (row_major_strides (stride_extents (take rank ds))) in
        Some (b\<lparr>buf_shape_storage := Some (take rank ds), buf_stride_storage := Some strides,
          buf_layout := \<lparr>lay_rank = rank, lay_shape = Some (take rank ds), lay_strides = Some strides,
                         lay_contiguous = True\<rparr>\<rparr>))"
  by (auto simp: sim_buffer_layout_assign_def layout_strides_exact sim_buffer_layout_reset_def Let_def)

lemma buffer_ok_create:
  assumes "sim_buffer_create h rank (Some ds) type = Some b" "rank \<le> length ds"
  shows "buffer_ok b" "buf_type b = type" "buffer_shape b = take rank ds"
    and "unat (buf_count b) = prod_list (extents (take rank ds))"
    and "buf_data b = (if buf_bytes b = 0 then None else Some (replicate (unat (buf_bytes b)) 0))"
proof -
  let ?k = "sim_buffer_element_size type"
  obtain count where k: "?k \<noteq> 0" and count: "sim_buffer_shape_count rank (Some ds) = Some count"
    and fit: "\<not> count > size_max div ?k"
    using assms(1) by (auto simp: sim_buffer_create_def Let_def split: if_splits option.splits)
  note c = shape_count_unat [OF count]
  have bytes: "unat (count * ?k) = unat count * unat ?k"
    using fit gt_size_max_div_iff [OF k, of count] by (simp add: unat_mult_exact)
  have b: "2 ^ 64 > prod_list (stride_extents (take rank ds)) \<and>
     b = \<lparr>buf_data = (if count * ?k = 0 then None else Some (replicate (unat (count * ?k)) 0)),
          buf_count = count, buf_bytes = count * ?k, buf_type = type,
          buf_shape_storage = Some (take rank ds),
          buf_stride_storage = Some (map word_of_nat (row_major_strides (stride_extents (take rank ds)))),
          buf_layout = \<lparr>lay_rank = rank, lay_shape = Some (take rank ds),
            lay_strides = Some (map word_of_nat (row_major_strides (stride_extents (take rank ds)))),
            lay_contiguous = True\<rparr>\<rparr>"
    using assms(1) k fit c(2)
    by (auto simp: sim_buffer_create_def count Let_def layout_assign_cases zero_buffer_def word_gt_0
        split: if_splits)
  then show "buf_type b = type" "buffer_shape b = take rank ds"
    "unat (buf_count b) = prod_list (extents (take rank ds))"
    "buf_data b = (if buf_bytes b = 0 then None else Some (replicate (unat (buf_bytes b)) 0))"
    by (simp_all add: buffer_shape_def c(1))
  have "take rank ds \<noteq> []" using c(2) assms(2) by auto
  then show "buffer_ok b" using b k bytes c(1) assms(2)
    by (auto simp: buffer_ok_def buffer_shape_def row_major_layout_def Let_def word_gt_0 min_def storage_ok_def)
qed

lemma buffer_ok_reshape:
  assumes "buffer_ok b" "rank \<le> length ds"
  shows "sim_buffer_reshape h (Some b) rank (Some ds) = (SIM_RESULT_OK, Some b') \<Longrightarrow>
    buffer_ok b' \<and> buffer_shape b' = take rank ds \<and> buf_data b' = buf_data b \<and>
    buf_count b' = buf_count b \<and> buf_bytes b' = buf_bytes b \<and> buf_type b' = buf_type b"
proof -
  assume r: "sim_buffer_reshape h (Some b) rank (Some ds) = (SIM_RESULT_OK, Some b')"
  then have count: "sim_buffer_shape_count rank (Some ds) = Some (buf_count b)"
    by (auto simp: sim_buffer_reshape_def split: option.splits if_splits)
  note c = shape_count_unat [OF this]
  have "take rank ds \<noteq> []" using c(2) assms(2) by auto
  moreover have "sim_buffer_layout_assign h b rank (Some ds) = Some b'"
    using r by (simp add: sim_buffer_reshape_def count split: option.splits)
  then have "prod_list (stride_extents (take rank ds)) < 2 ^ 64" and "b' = b\<lparr>
      buf_shape_storage := Some (take rank ds),
      buf_stride_storage := Some (map word_of_nat (row_major_strides (stride_extents (take rank ds)))),
      buf_layout := \<lparr>lay_rank = rank, lay_shape = Some (take rank ds),
        lay_strides = Some (map word_of_nat (row_major_strides (stride_extents (take rank ds)))),
        lay_contiguous = True\<rparr>\<rparr>"
    by (simp_all add: layout_assign_cases Let_def not_le split: if_splits)
  ultimately show ?thesis using assms c(1)
    by (simp add: buffer_ok_def buffer_shape_def row_major_layout_def Let_def)
qed

lemma reshape_failure_keeps:
  "sim_buffer_reshape h buffer rank shape = (res, buffer') \<Longrightarrow> res \<noteq> SIM_RESULT_OK \<Longrightarrow> buffer' = buffer"
  by (auto simp: sim_buffer_reshape_def split: option.splits if_splits prod.splits)

section \<open>Addressing through the view of a buffer\<close>

lemma view_of_buffer:
  assumes "buffer_ok b"
  shows "\<not> view_is_linear (sim_buffer_view (Some b))"
    and "view_logical_to_physical (sim_buffer_view (Some b)) = None"
    and "view_count (sim_buffer_view (Some b)) = buf_count b"
    and "layout_axes (view_layout (sim_buffer_view (Some b))) =
      zip (buffer_shape b) (map word_of_nat (row_major_strides (stride_extents (buffer_shape b))))"
  using assms
  by (auto simp: buffer_ok_def Let_def sim_buffer_view_def view_is_linear_def row_major_layout_def
      layout_axes_def stride_extents_def)

lemma length_stride_extents [simp]: "length (stride_extents ds) = length ds"
  by (simp add: stride_extents_def)

lemma strides_bounded:
  assumes "prod_list ds < 2 ^ 64" "0 \<notin> set ds"
  shows "map (unat \<circ> (word_of_nat :: nat \<Rightarrow> size_t)) (row_major_strides ds) = row_major_strides ds"
  using assms
proof (induction ds)
  case (Cons d ds)
  have "prod_list ds \<le> d * prod_list ds" using Cons.prems by (cases d) auto
  also have "\<dots> < 2 ^ 64" using Cons.prems by simp
  finally have "prod_list ds < 2 ^ 64" .
  then show ?case using Cons by (simp add: unat_of_nat)
qed simp

lemma buffer_offset_linear:
  assumes "buffer_ok b"
  shows "sim_buffer_view_offset_for_linear_index (Some (sim_buffer_view (Some b))) i =
    (if i < buf_count b then Some i else None)"
proof (cases "i < buf_count b")
  case False
  then show ?thesis
    by (simp add: sim_buffer_view_offset_for_linear_index_def view_of_buffer [OF assms] not_less)
next
  case True
  let ?ds = "buffer_shape b" and ?v = "sim_buffer_view (Some b)"
  have less: "unat i < prod_list (extents ?ds)"
    using True assms by (simp add: buffer_ok_def Let_def word_less_nat_alt)
  then have nz: "0 \<notin> set ?ds" by (metis image_eqI less_nat_zero_code list.set_map prod_list_zero_iff unat_0)
  have fit: "prod_list (extents ?ds) < 2 ^ 64"
    using assms unat_lt_64 [of "buf_count b"] by (simp add: buffer_ok_def Let_def)
  have len: "?ds \<noteq> []" using assms by (simp add: buffer_ok_def Let_def)
  have lay: "lay_rank (view_layout ?v) = length ?ds" "lay_shape (view_layout ?v) = Some ?ds"
    using assms by (auto simp: buffer_ok_def Let_def row_major_layout_def sim_buffer_view_def)
  have "prod_list (extents ?ds) = unat (buf_count b)" using assms by (simp add: buffer_ok_def Let_def)
  then have "word_of_nat (prod_list (extents ?ds)) = buf_count b" by simp
  then have "sim_buffer_layout_count (view_layout ?v) = Some (buf_count b)"
    using fit len nz by (simp add: sim_buffer_layout_count_def lay shape_count_exact shape_fits_positive)
  moreover have "dot (unravel (extents ?ds) (unat i)) (row_major_strides (extents ?ds)) = unat i"
    using less by (simp add: dot_row_major_strides in_box_length [OF in_box_unravel [OF less]]
        row_major_unravel)
  moreover have "map unat (map word_of_nat (row_major_strides (extents ?ds)) :: size_t list) =
      row_major_strides (extents ?ds)"
    using strides_bounded [OF fit] nz by (simp add: image_iff unat_eq_0 unat_0_iff)
  ultimately show ?thesis using True nz less fit
    by (simp add: sim_buffer_view_offset_for_linear_index_def view_of_buffer [OF assms]
        linear_offset_loop_exact rev_map [symmetric] prod_list_rev_nat stride_extents_positive
        del: map_map)
qed

lemma indices_offset_loop_exact:
  assumes "length is = length ds" "length ds = length ss"
  shows "indices_offset_loop offset (zip is (zip ds ss)) =
    (if in_box (extents ds) (extents is)
     then Some (offset + word_of_nat (dot (extents is) (extents ss))) else None)"
  using assms
proof (induction "is" ds ss arbitrary: offset rule: list_induct3)
  case (Cons i "is" d ds s ss)
  have "word_of_nat (unat i * unat s) = i * s" by simp
  then show ?case using Cons by (simp add: word_less_nat_alt word_le_nat_alt not_less add.assoc)
qed simp

lemma buffer_offset_indices:
  assumes "buffer_ok b" "length is = length (buffer_shape b)"
  shows "sim_buffer_view_offset_for_indices (Some (sim_buffer_view (Some b))) (Some is) (length is) =
    (if in_box (extents (buffer_shape b)) (extents is)
     then Some (word_of_nat (row_major (extents (buffer_shape b)) (extents is))) else None)"
proof -
  let ?ds = "buffer_shape b" and ?v = "sim_buffer_view (Some b)"
  let ?ss = "map word_of_nat (row_major_strides (stride_extents ?ds)) :: size_t list"
  have len: "length ?ds = length ?ss" by simp
  have "lay_rank (view_layout ?v) = length ?ds"
    using assms(1) by (auto simp: buffer_ok_def Let_def row_major_layout_def sim_buffer_view_def)
  then have "sim_buffer_view_offset_for_indices (Some ?v) (Some is) (length is) =
      indices_offset_loop 0 (zip is (zip ?ds ?ss))"
    using assms(2) by (simp add: sim_buffer_view_offset_for_indices_def view_of_buffer [OF assms(1)])
  also have "\<dots> = (if in_box (extents ?ds) (extents is)
      then Some (word_of_nat (dot (extents is) (extents ?ss))) else None)"
    using indices_offset_loop_exact [OF assms(2) len, of 0] unfolding add_0 .
  finally have off: "sim_buffer_view_offset_for_indices (Some ?v) (Some is) (length is) =
      (if in_box (extents ?ds) (extents is)
       then Some (word_of_nat (dot (extents is) (extents ?ss))) else None)" .
  have "dot (extents is) (extents ?ss) = row_major (extents ?ds) (extents is)"
    if box: "in_box (extents ?ds) (extents is)"
  proof -
    have nz: "0 \<notin> set ?ds" using in_box_prod_pos [OF box]
      by (metis image_eqI less_nat_zero_code list.set_map prod_list_zero_iff unat_0)
    have "prod_list (extents ?ds) < 2 ^ 64"
      using assms(1) unat_lt_64 [of "buf_count b"] by (simp add: buffer_ok_def Let_def)
    then have "extents ?ss = row_major_strides (extents ?ds)"
      using strides_bounded [of "extents ?ds"] nz
      by (simp add: image_iff unat_eq_0 unat_0_iff stride_extents_positive)
    then show ?thesis using assms(2) by (simp add: dot_row_major_strides del: map_map)
  qed
  then show ?thesis unfolding off by (cases "in_box (extents ?ds) (extents is)") (simp_all only: if_True if_False)
qed

definition buffer_index_valid :: "SimBuffer \<Rightarrow> size_t list \<Rightarrow> bool" where
  "buffer_index_valid b is \<longleftrightarrow> length is = length (buffer_shape b) \<and>
     sim_buffer_view_offset_for_indices (Some (sim_buffer_view (Some b))) (Some is) (length is) \<noteq> None"

definition buffer_index_offset :: "SimBuffer \<Rightarrow> size_t list \<Rightarrow> nat" where
  "buffer_index_offset b is =
     unat (the (sim_buffer_view_offset_for_indices (Some (sim_buffer_view (Some b))) (Some is)
       (length is)))"

lemma buffer_index_offset_row_major:
  assumes "buffer_ok b" "buffer_index_valid b is"
  shows "in_box (extents (buffer_shape b)) (extents is)"
    and "buffer_index_offset b is = row_major (extents (buffer_shape b)) (extents is)"
proof -
  have len: "length is = length (buffer_shape b)" using assms(2) by (simp add: buffer_index_valid_def)
  note off = buffer_offset_indices [OF assms(1) len]
  show box: "in_box (extents (buffer_shape b)) (extents is)"
    using assms(2) off by (auto simp: buffer_index_valid_def split: if_splits)
  have "prod_list (extents (buffer_shape b)) < 2 ^ 64"
    using assms(1) unat_lt_64 [of "buf_count b"] by (simp add: buffer_ok_def Let_def)
  then have "row_major (extents (buffer_shape b)) (extents is) < 2 ^ 64"
    using row_major_less [OF box] by linarith
  then show "buffer_index_offset b is = row_major (extents (buffer_shape b)) (extents is)"
    using box off by (simp add: buffer_index_offset_def unat_of_nat)
qed

interpretation buffer_store:
  addressing buffer_ok buffer_index_valid buffer_index_offset "\<lambda>b. unat (buf_count b)"
proof
  fix b "is" js assume ok: "buffer_ok b" and i: "buffer_index_valid b is"
  note box = buffer_index_offset_row_major [OF ok i]
  show "buffer_index_offset b is < unat (buf_count b)"
    using row_major_less [OF box(1)] box(2) ok by (simp add: buffer_ok_def Let_def)
  assume j: "buffer_index_valid b js" and eq: "buffer_index_offset b is = buffer_index_offset b js"
  have "extents is = extents js"
    using row_major_inj [OF box(1) buffer_index_offset_row_major(1) [OF ok j]] eq box(2)
      buffer_index_offset_row_major(2) [OF ok j] by simp
  then show "is = js" by (simp add: inj_map_eq_map [OF injI [of unat]] word_unat_eq_iff)
qed

section \<open>Loads and stores\<close>

lemma length_bytes_le [simp]: "length (bytes_le k w) = k"
  by (induction k arbitrary: w) auto

lemma load_bytes_le:
  "k \<le> 8 \<Longrightarrow> foldr (\<lambda>b acc. ucast b OR push_bit 8 acc) (bytes_le k w) 0 = take_bit (8 * k) (w :: u64)"
proof (induction k arbitrary: w)
  case (Suc k)
  then have "foldr (\<lambda>b acc. ucast b OR push_bit 8 acc) (bytes_le (Suc k) w) 0 =
      ucast (ucast w :: u8) OR push_bit 8 (take_bit (8 * k) (drop_bit 8 w))" by simp
  also have "\<dots> = take_bit (8 * Suc k) w"
    by (rule bit_word_eqI) (auto simp: bit_simps)
  finally show ?case .
qed simp

lemma length_memcpy_at [simp]:
  "at + length bytes \<le> length dst \<Longrightarrow> length (memcpy_at dst at bytes) = length dst"
  by (simp add: memcpy_at_def)

lemma memcpy_at_same:
  "at \<le> length dst \<Longrightarrow> take (length bytes) (drop at (memcpy_at dst at bytes)) = bytes"
  by (simp add: memcpy_at_def)

lemma nth_memcpy_at:
  assumes "at + length bytes \<le> length dst" "i < length dst"
  shows "memcpy_at dst at bytes ! i =
    (if at \<le> i \<and> i < at + length bytes then bytes ! (i - at) else dst ! i)"
  using assms by (auto simp: memcpy_at_def nth_append)

lemma memcpy_at_other:
  assumes "at + length bytes \<le> length dst" "from + k \<le> length dst"
    "from + k \<le> at \<or> at + length bytes \<le> from"
  shows "take k (drop from (memcpy_at dst at bytes)) = take k (drop from dst)"
  using assms by (intro nth_equalityI) (auto simp: nth_memcpy_at)

lemma load_stored: "length dst \<ge> at \<Longrightarrow> k \<le> 8 \<Longrightarrow>
    load_le k (memcpy_at dst at (bytes_le k w)) at = take_bit (8 * k) w"
  using memcpy_at_same [of at dst "bytes_le k w"] by (simp add: load_le_def load_bytes_le)

lemma offset_ignores_data [simp]:
  "sim_buffer_view_offset_for_linear_index (Some (v\<lparr>view_data := d\<rparr>)) i =
   sim_buffer_view_offset_for_linear_index (Some v) i"
  by (cases "view_logical_to_physical v")
    (simp_all add: sim_buffer_view_offset_for_linear_index_def view_is_linear_def)

text \<open>The element of a view: the bytes at its offset.\<close>

definition view_element :: "SimBufferView \<Rightarrow> size_t \<Rightarrow> u8 list" where
  "view_element v offset =
     (let k = unat (sim_buffer_element_size (view_type v))
      in take k (drop (unat offset * k) (the (view_data v))))"

definition element_in_store :: "SimBufferView \<Rightarrow> size_t \<Rightarrow> bool" where
  "element_in_store v offset \<longleftrightarrow>
     (case view_data v of
        None \<Rightarrow> False
      | Some bytes \<Rightarrow>
          unat offset * unat (sim_buffer_element_size (view_type v)) +
          unat (sim_buffer_element_size (view_type v)) \<le> length bytes)"

definition element_value :: "SimBufferDataType \<Rightarrow> u8 list \<Rightarrow> SimComplexDouble option" where
  "element_value type bytes =
     (case type of
        SIM_BUFFER_DOUBLE \<Rightarrow> Some \<lparr>re = load_le 8 bytes 0, im = 0\<rparr>
      | SIM_BUFFER_COMPLEX_DOUBLE \<Rightarrow> Some \<lparr>re = load_le 8 bytes 0, im = load_le 8 bytes 8\<rparr>
      | SIM_BUFFER_I8 \<Rightarrow> Some \<lparr>re = f64_of_int (sint (ucast (load_le 1 bytes 0) :: 8 word)), im = 0\<rparr>
      | SIM_BUFFER_U8 \<Rightarrow> Some \<lparr>re = f64_of_int (uint (load_le 1 bytes 0)), im = 0\<rparr>
      | SIM_BUFFER_I32 \<Rightarrow> Some \<lparr>re = f64_of_int (sint (ucast (load_le 4 bytes 0) :: 32 word)), im = 0\<rparr>
      | SIM_BUFFER_U32 \<Rightarrow> Some \<lparr>re = f64_of_int (uint (load_le 4 bytes 0)), im = 0\<rparr>
      | SIM_BUFFER_I64 \<Rightarrow> Some \<lparr>re = f64_of_int (sint (load_le 8 bytes 0)), im = 0\<rparr>
      | SIM_BUFFER_U64 \<Rightarrow> Some \<lparr>re = f64_of_int (uint (load_le 8 bytes 0)), im = 0\<rparr>
      | SIM_BUFFER_UNKNOWN \<Rightarrow> None)"

lemma load_le_element: "i + k \<le> n \<Longrightarrow> load_le k (take n (drop at bytes)) i = load_le k bytes (at + i)"
  by (simp add: load_le_def drop_take min_def add.commute)

lemma get_complex_element:
  assumes "view_data v \<noteq> None" "sim_buffer_view_offset_for_linear_index (Some v) i = Some offset"
  shows "sim_buffer_view_get_complex (Some v) i = element_value (view_type v) (view_element v offset)"
  using assms
  by (auto simp: sim_buffer_view_get_complex_def view_element_def element_value_def Let_def
      load_le_element sim_buffer_element_size_def split: SimBufferDataType.split)

lemma set_complex_element:
  assumes "sim_buffer_view_set_complex (Some v) i z = (True, Some v')"
    and "sim_buffer_view_offset_for_linear_index (Some v) i = Some offset" "element_in_store v offset"
  shows "element_value (view_type v) (view_element v' offset) =
      Some (if view_type v = SIM_BUFFER_DOUBLE then z\<lparr>im := 0\<rparr> else z)"
    and "offset' \<noteq> offset \<Longrightarrow> element_in_store v offset' \<Longrightarrow>
      view_element v' offset' = view_element v offset'"
    and "\<exists>bytes. v' = v\<lparr>view_data := Some bytes\<rparr>"
proof -
  let ?k = "unat (sim_buffer_element_size (view_type v))"
  let ?b = "if view_type v = SIM_BUFFER_DOUBLE then bytes_le 8 (re z)
            else bytes_le 8 (re z) @ bytes_le 8 (im z)"
  obtain bytes where data: "view_data v = Some bytes" "unat offset * ?k + ?k \<le> length bytes"
    using assms(3) by (auto simp: element_in_store_def split: option.splits)
  have type: "view_type v = SIM_BUFFER_DOUBLE \<or> view_type v = SIM_BUFFER_COMPLEX_DOUBLE"
    and v': "v' = v\<lparr>view_data := Some (memcpy_at bytes (unat offset * ?k) ?b)\<rparr>"
    using assms(1,2) data(1)
    by (auto simp: sim_buffer_view_set_complex_def sim_buffer_element_size_def
        split: SimBufferDataType.splits if_splits)
  have len: "length ?b = ?k" using type by (auto simp: sim_buffer_element_size_def)
  have "view_element v' offset = ?b"
    using memcpy_at_same [of "unat offset * ?k" bytes ?b] data(2) len
    by (simp add: v' view_element_def Let_def)
  moreover have "load_le 8 (bytes_le 8 x @ ys) 0 = x" "load_le 8 (ys' @ bytes_le 8 x) (length ys') = x"
    for x ys ys'
    using load_bytes_le [of 8 x] by (simp_all add: load_le_def take_bit_word_eq_self)
  from this(1) [of _ "[]"] this(1) this(2) [of "bytes_le 8 (re z)" "im z"]
  have "element_value (view_type v) ?b =
      Some (if view_type v = SIM_BUFFER_DOUBLE then z\<lparr>im := 0\<rparr> else z)"
    using type by (auto simp: element_value_def)
  ultimately show "element_value (view_type v) (view_element v' offset) =
      Some (if view_type v = SIM_BUFFER_DOUBLE then z\<lparr>im := 0\<rparr> else z)" by simp
  show "\<exists>bytes. v' = v\<lparr>view_data := Some bytes\<rparr>" using v' by blast
  assume ne: "offset' \<noteq> offset" and st: "element_in_store v offset'"
  have "unat offset' \<noteq> unat offset" using ne by (simp add: word_unat_eq_iff)
  from blocks_apart [OF this, of ?k] show "view_element v' offset' = view_element v offset'"
    using memcpy_at_other [of "unat offset * ?k" ?b bytes "unat offset' * ?k" ?k] data st len
    by (simp add: v' view_element_def element_in_store_def Let_def)
qed

section \<open>Cloning a view\<close>

text \<open>The offsets a view gives out point into its storage, which is an object of the address space.\<close>

definition view_readable :: "SimBufferView \<Rightarrow> bool" where
  "view_readable v \<longleftrightarrow>
     (case lay_shape (view_layout v) of None \<Rightarrow> True | Some ds \<Rightarrow> lay_rank (view_layout v) \<le> length ds) \<and>
     (case view_data v of None \<Rightarrow> True | Some bytes \<Rightarrow> length bytes < 2 ^ 64 \<and>
       (\<forall>i < unat (view_count v).
          case sim_buffer_view_offset_for_linear_index (Some v) (word_of_nat i) of
            None \<Rightarrow> True | Some offset \<Rightarrow> element_in_store v offset))"

lemma clone_fold:
  assumes "fold_option (clone_element v k src) [0..<n] dst = Some dst'"
    and "view_data v = Some src" "view_readable v" "k = sim_buffer_element_size (view_type v)"
    and "n \<le> unat (view_count v)" "unat (view_count v) * unat k \<le> length dst" "length dst < 2 ^ 64"
  shows "length dst' = length dst \<and>
    (\<forall>i < n. \<exists>offset. sim_buffer_view_offset_for_linear_index (Some v) (word_of_nat i) = Some offset \<and>
       take (unat k) (drop (i * unat k) dst') = view_element v offset)"
  using assms(1,5)
proof (induction n arbitrary: dst')
  case 0
  then show ?case by simp
next
  case (Suc n)
  let ?k = "unat k"
  obtain d where d: "fold_option (clone_element v k src) [0..<n] dst = Some d"
    and step: "clone_element v k src n d = Some dst'"
    using Suc.prems(1) by (auto simp: fold_option_append split: option.splits)
  from step obtain offset where
    off: "sim_buffer_view_offset_for_linear_index (Some v) (word_of_nat n) = Some offset"
    by (auto simp: clone_element_def split: option.splits)
  have n: "n < unat (view_count v)" using Suc.prems(2) by simp
  have "element_in_store v offset" and src: "length src < 2 ^ 64"
    using assms(2,3) n off by (auto simp: view_readable_def)
  then have fits: "unat offset * ?k + ?k \<le> length src"
    using assms(2) by (simp add: element_in_store_def assms(4))
  have IH: "length d = length dst" "\<And>i. i < n \<Longrightarrow>
      \<exists>offset. sim_buffer_view_offset_for_linear_index (Some v) (word_of_nat i) = Some offset \<and>
        take ?k (drop (i * ?k) d) = view_element v offset"
    using Suc.IH [OF d] n by auto
  have len: "length (view_element v offset) = ?k"
    using fits assms(2) by (simp add: view_element_def Let_def assms(4))
  have at: "n * ?k + ?k \<le> length dst"
    using block_before [OF n, of ?k] assms(6) by linarith
  have "unat (word_of_nat n :: size_t) = n"
    using n unat_lt_64 [of "view_count v"] by (intro unat_word_of_nat_64) simp
  then have "unat (word_of_nat n * k) = n * ?k"
    using at assms(7) unat_mult_exact [of "word_of_nat n" k] by simp
  moreover have "unat (offset * k) = unat offset * ?k" using fits src by (intro unat_mult_exact) simp
  ultimately have dst': "dst' = memcpy_at d (n * ?k) (view_element v offset)"
    using step assms(2) by (simp add: clone_element_def off view_element_def Let_def assms(4))
  have same: "take ?k (drop (n * ?k) dst') = view_element v offset"
    using memcpy_at_same [of "n * ?k" d "view_element v offset"] at IH(1) len by (simp add: dst')
  have other: "take ?k (drop (i * ?k) dst') = take ?k (drop (i * ?k) d)" if "i < n" for i
    using block_before [OF that, of ?k] at IH(1) len
    by (simp add: dst' memcpy_at_other)
  have "length dst' = length dst" using at IH(1) len by (simp add: dst')
  moreover have "\<exists>offset. sim_buffer_view_offset_for_linear_index (Some v) (word_of_nat i) = Some offset \<and>
       take ?k (drop (i * ?k) dst') = view_element v offset" if "i < Suc n" for i
    using that same off IH(2) [of i] other [of i] by (cases "i = n") auto
  ultimately show ?case by blast
qed

lemma clone_creates:
  assumes "sim_buffer_clone_view h (Some v) = Some b" "view_readable v"
  obtains rank ds b0 where "sim_buffer_create h rank (Some ds) (view_type v) = Some b0"
    "rank \<le> length ds" "buf_count b0 = view_count v"
    "view_count v = 0 \<and> b = b0 \<or>
     (\<exists>dst src dst'. buf_data b0 = Some dst \<and> view_data v = Some src \<and> b = b0\<lparr>buf_data := Some dst'\<rparr> \<and>
        fold_option (clone_element v (sim_buffer_element_size (view_type v)) src)
          [0..<unat (view_count v)] dst = Some dst')"
proof -
  let ?l = "view_layout v"
  let ?make = "if lay_rank ?l > 0 \<and> lay_shape ?l \<noteq> None then
      (if sim_buffer_layout_count ?l \<noteq> Some (view_count v) then None
       else sim_buffer_create h (lay_rank ?l) (lay_shape ?l) (view_type v))
    else sim_buffer_create h 1 (Some [view_count v]) (view_type v)"
  obtain b0 where make: "?make = Some b0" and
    rest: "view_count v = 0 \<and> b = b0 \<or>
     (\<exists>dst src dst'. buf_data b0 = Some dst \<and> view_data v = Some src \<and> b = b0\<lparr>buf_data := Some dst'\<rparr> \<and>
        fold_option (clone_element v (sim_buffer_element_size (view_type v)) src)
          [0..<unat (view_count v)] dst = Some dst')"
    using assms(1) unfolding sim_buffer_clone_view_def Let_def option.case
    by (cases ?make) (auto split: if_splits option.splits simp del: not_None_eq)
  show ?thesis
  proof (cases "lay_rank ?l > 0 \<and> lay_shape ?l \<noteq> None")
    case True
    then obtain ds where ds: "lay_shape ?l = Some ds" by blast
    have c: "sim_buffer_layout_count ?l = Some (view_count v)"
      and create: "sim_buffer_create h (lay_rank ?l) (Some ds) (view_type v) = Some b0"
      using make True ds by (auto split: if_splits)
    have le: "lay_rank ?l \<le> length ds" using assms(2) ds by (simp add: view_readable_def)
    have "unat (view_count v) = prod_list (extents (take (lay_rank ?l) ds))"
      using c True ds shape_count_unat(1) by (simp add: sim_buffer_layout_count_def)
    then have "buf_count b0 = view_count v"
      using buffer_ok_create(4) [OF create le] by (simp add: word_unat_eq_iff)
    then show ?thesis using that create le rest by blast
  next
    case False
    then have create: "sim_buffer_create h 1 (Some [view_count v]) (view_type v) = Some b0"
      using make by (simp split: if_splits)
    then have "buf_count b0 = view_count v"
      using buffer_ok_create(4) [OF create] by (simp add: word_unat_eq_iff)
    then show ?thesis using that [OF create] rest by simp
  qed
qed

lemma clone_elements:
  assumes "sim_buffer_clone_view h (Some v) = Some b" "view_readable v"
  shows "buffer_ok b" "buf_type b = view_type v" "buf_count b = view_count v"
    and "i < view_count v \<Longrightarrow> \<exists>offset. sim_buffer_view_offset_for_linear_index (Some v) i = Some offset \<and>
      view_data v \<noteq> None \<and> view_element (sim_buffer_view (Some b)) i = view_element v offset"
proof -
  let ?k = "sim_buffer_element_size (view_type v)"
  from assms obtain rank ds b0 where create: "sim_buffer_create h rank (Some ds) (view_type v) = Some b0"
    "rank \<le> length ds" and count: "buf_count b0 = view_count v"
    and rest: "view_count v = 0 \<and> b = b0 \<or>
     (\<exists>dst src dst'. buf_data b0 = Some dst \<and> view_data v = Some src \<and> b = b0\<lparr>buf_data := Some dst'\<rparr> \<and>
        fold_option (clone_element v ?k src) [0..<unat (view_count v)] dst = Some dst')"
    by (rule clone_creates)
  note b0 = buffer_ok_create [OF create]
  have copied: "length dst' = length dst \<and> (\<forall>i < unat (view_count v). \<exists>offset.
       sim_buffer_view_offset_for_linear_index (Some v) (word_of_nat i) = Some offset \<and>
       take (unat ?k) (drop (i * unat ?k) dst') = view_element v offset)"
    if "buf_data b0 = Some dst" "view_data v = Some src"
      "fold_option (clone_element v ?k src) [0..<unat (view_count v)] dst = Some dst'" for dst src dst'
  proof (rule clone_fold [OF that(3,2) assms(2) refl order_refl])
    have "length dst = unat (buf_bytes b0)" using that(1) b0(1)
      by (simp add: buffer_ok_def storage_ok_def Let_def)
    then show "unat (view_count v) * unat ?k \<le> length dst" "length dst < 2 ^ 64"
      using b0(1,2) count unat_lt_64 [of "buf_bytes b0"] by (simp_all add: buffer_ok_def Let_def)
  qed
  show "buf_type b = view_type v" "buf_count b = view_count v" using rest b0(2) count by auto
  show "buffer_ok b"
    using rest b0(1) copied
    by (auto simp: buffer_ok_def Let_def storage_ok_def buffer_shape_def)
  assume i: "i < view_count v"
  then have nz: "view_count v \<noteq> 0" by auto
  with rest obtain dst src dst' where r: "buf_data b0 = Some dst" "view_data v = Some src"
    "fold_option (clone_element v ?k src) [0..<unat (view_count v)] dst = Some dst'"
    and b: "b = b0\<lparr>buf_data := Some dst'\<rparr>" by blast
  from copied [OF r] i obtain offset where
    "sim_buffer_view_offset_for_linear_index (Some v) i = Some offset"
    "take (unat ?k) (drop (unat i * unat ?k) dst') = view_element v offset"
    by (auto simp: word_less_nat_alt)
  then show "\<exists>offset. sim_buffer_view_offset_for_linear_index (Some v) i = Some offset \<and>
      view_data v \<noteq> None \<and> view_element (sim_buffer_view (Some b)) i = view_element v offset"
    using r(2) b0(2) by (simp add: b view_element_def sim_buffer_view_def)
qed

section \<open>Properties\<close>

text \<open>
  C8. Creation succeeds exactly for a known element type and a shape whose element count, byte size
  and strides fit a \<^verbatim>\<open>size_t\<close> (when memory is granted), and then gives a zeroed row-major buffer of
  that shape that satisfies the buffer invariant: overflow is always rejected, never wrapped.
\<close>

theorem buffer_create_exact:
  assumes "rank \<le> length ds" "\<forall>n. h n"
  shows "((\<exists>b. sim_buffer_create h rank (Some ds) type = Some b) \<longleftrightarrow>
      type \<noteq> SIM_BUFFER_UNKNOWN \<and> 0 < rank \<and> rank * 8 < 2 ^ 64 \<and> shape_fits (take rank ds) \<and>
      prod_list (extents (take rank ds)) * unat (sim_buffer_element_size type) < 2 ^ 64 \<and>
      prod_list (stride_extents (take rank ds)) < 2 ^ 64) \<and>
    (\<forall>b. sim_buffer_create h rank (Some ds) type = Some b \<longrightarrow>
      buffer_ok b \<and> buf_type b = type \<and> buffer_shape b = take rank ds \<and>
      buf_data b = (if buf_bytes b = 0 then None else Some (replicate (unat (buf_bytes b)) 0)))"
proof (intro conjI allI impI)
  let ?k = "sim_buffer_element_size type"
  have k: "?k = 0 \<longleftrightarrow> type = SIM_BUFFER_UNKNOWN"
    by (simp add: sim_buffer_element_size_def split: SimBufferDataType.split)
  show "(\<exists>b. sim_buffer_create h rank (Some ds) type = Some b) \<longleftrightarrow>
      type \<noteq> SIM_BUFFER_UNKNOWN \<and> 0 < rank \<and> rank * 8 < 2 ^ 64 \<and> shape_fits (take rank ds) \<and>
      prod_list (extents (take rank ds)) * unat ?k < 2 ^ 64 \<and>
      prod_list (stride_extents (take rank ds)) < 2 ^ 64"
  proof (cases "type \<noteq> SIM_BUFFER_UNKNOWN \<and> rank \<noteq> 0 \<and> shape_fits (take rank ds)")
    case True
    define count :: size_t where "count = word_of_nat (prod_list (extents (take rank ds)))"
    have count: "sim_buffer_shape_count rank (Some ds) = Some count"
      using True by (simp add: shape_count_exact count_def)
    have "count > size_max div ?k \<longleftrightarrow> \<not> prod_list (extents (take rank ds)) * unat ?k < 2 ^ 64"
      using gt_size_max_div_iff [of ?k count] True k shape_count_unat(1) [OF count]
      by (simp add: not_less)
    moreover have "calloc_ok h (unat count) (unat ?k) \<longleftrightarrow>
        prod_list (extents (take rank ds)) * unat ?k < 2 ^ 64"
      using assms(2) shape_count_unat(1) [OF count] by (simp add: calloc_ok_def)
    moreover have "calloc_ok h rank 8 \<longleftrightarrow> rank * 8 < 2 ^ 64" "calloc_ok h 1 sizeof_SimBuffer"
      using assms(2) by (simp_all add: calloc_ok_def sizeof_SimBuffer_def)
    ultimately show ?thesis using True k
      by (simp add: sim_buffer_create_def Let_def count layout_assign_cases not_less)
  next
    case False
    then show ?thesis using k by (auto simp: sim_buffer_create_def shape_count_exact Let_def)
  qed
next
  fix b assume "sim_buffer_create h rank (Some ds) type = Some b"
  from buffer_ok_create [OF this assms(1)] show "buffer_ok b" "buf_type b = type"
    "buffer_shape b = take rank ds"
    "buf_data b = (if buf_bytes b = 0 then None else Some (replicate (unat (buf_bytes b)) 0))"
    by blast+
qed

theorem buffer_create_exact_witness:
  "(\<exists>b. sim_buffer_create (\<lambda>_. True) 2 (Some [2, 3]) SIM_BUFFER_I32 = Some b \<and> buffer_ok b) \<and>
   \<not> (\<exists>b. sim_buffer_create (\<lambda>_. True) 2 (Some [0x100000000, 0x100000000]) SIM_BUFFER_U8 = Some b)"
proof -
  have r: "(2 :: nat) \<le> length [2, 3 :: size_t]"
    "(2 :: nat) \<le> length [0x100000000, 0x100000000 :: size_t]" by simp_all
  have h: "\<forall>n. (\<lambda>_. True) (n :: nat)" by simp
  have f: "shape_fits [2, 3]" by (subst shape_fits_positive) simp_all
  have nf: "\<not> shape_fits [0x100000000, 0x100000000]" by (subst shape_fits_positive) simp_all
  from buffer_create_exact [OF r(1) h, of SIM_BUFFER_I32] f
  have "\<exists>b. sim_buffer_create (\<lambda>_. True) 2 (Some [2, 3]) SIM_BUFFER_I32 = Some b \<and> buffer_ok b"
    by (auto simp: sim_buffer_element_size_def)
  moreover from buffer_create_exact [OF r(2) h, of SIM_BUFFER_U8] nf
  have "\<not> (\<exists>b. sim_buffer_create (\<lambda>_. True) 2 (Some [0x100000000, 0x100000000]) SIM_BUFFER_U8 = Some b)"
    by simp
  ultimately show ?thesis by blast
qed

text \<open>
  C9. In a live buffer every multi-index below the shape is addressed at its row-major position, which
  lies inside the storage; different multi-indices occupy disjoint byte ranges, and the linear index
  of the view is the position itself.
\<close>

theorem buffer_addressing:
  assumes "buffer_ok b" "length is = length (buffer_shape b)"
  defines "view \<equiv> sim_buffer_view (Some b)" and "k \<equiv> unat (sim_buffer_element_size (buf_type b))"
  shows "(buffer_index_valid b is \<longleftrightarrow> in_box (extents (buffer_shape b)) (extents is)) \<and>
    (buffer_index_valid b is \<longrightarrow>
       buffer_index_offset b is = row_major (extents (buffer_shape b)) (extents is) \<and>
       buffer_index_offset b is * k + k \<le> unat (buf_count b) * k \<and>
       sim_buffer_view_offset_for_linear_index (Some view) (word_of_nat (buffer_index_offset b is)) =
         Some (word_of_nat (buffer_index_offset b is)) \<and>
       (\<forall>js. buffer_index_valid b js \<and> js \<noteq> is \<longrightarrow>
          {buffer_index_offset b is * k ..< buffer_index_offset b is * k + k} \<inter>
          {buffer_index_offset b js * k ..< buffer_index_offset b js * k + k} = {}))"
proof (intro conjI impI allI)
  show "buffer_index_valid b is \<longleftrightarrow> in_box (extents (buffer_shape b)) (extents is)"
    unfolding buffer_index_valid_def buffer_offset_indices [OF assms(1,2)] using assms(2) by simp
  assume v: "buffer_index_valid b is"
  show "buffer_index_offset b is = row_major (extents (buffer_shape b)) (extents is)"
    by (rule buffer_index_offset_row_major [OF assms(1) v])
  show "buffer_index_offset b is * k + k \<le> unat (buf_count b) * k"
    by (rule buffer_store.element_bytes_bound [OF assms(1) v])
  have "buffer_index_offset b is < unat (buf_count b)"
    by (rule buffer_store.offset_bound [OF assms(1) v])
  moreover from this have "buffer_index_offset b is < 2 ^ 64"
    using unat_lt_64 [of "buf_count b"] by linarith
  ultimately show "sim_buffer_view_offset_for_linear_index (Some view)
      (word_of_nat (buffer_index_offset b is)) = Some (word_of_nat (buffer_index_offset b is))"
    by (simp add: view_def buffer_offset_linear [OF assms(1)] word_less_nat_alt unat_word_of_nat_64)
  fix js assume "buffer_index_valid b js \<and> js \<noteq> is"
  then show "{buffer_index_offset b is * k ..< buffer_index_offset b is * k + k} \<inter>
      {buffer_index_offset b js * k ..< buffer_index_offset b js * k + k} = {}"
    by (intro buffer_store.elements_disjoint [OF assms(1) v]) auto
qed

text \<open>A concrete buffer: two rows of three 32-bit integers.\<close>

definition demo_buffer :: SimBuffer where
  "demo_buffer =
     \<lparr>buf_data = Some (replicate 24 0), buf_count = 6, buf_bytes = 24, buf_type = SIM_BUFFER_I32,
      buf_shape_storage = Some [2, 3], buf_stride_storage = Some [3, 1],
      buf_layout = \<lparr>lay_rank = 2, lay_shape = Some [2, 3], lay_strides = Some [3, 1],
                     lay_contiguous = True\<rparr>\<rparr>"

lemma demo_buffer_ok: "buffer_ok demo_buffer"
  by (simp add: buffer_ok_def demo_buffer_def buffer_shape_def row_major_layout_def storage_ok_def
      sim_buffer_element_size_def)

theorem buffer_addressing_witness:
  "buffer_ok demo_buffer \<and> buffer_index_valid demo_buffer [1, 2] \<and> buffer_index_offset demo_buffer [1, 2] = 5"
proof -
  have len: "length [1, 2 :: size_t] = length (buffer_shape demo_buffer)"
    by (simp add: demo_buffer_def buffer_shape_def)
  have "in_box (extents (buffer_shape demo_buffer)) (extents [1, 2])"
    "row_major (extents (buffer_shape demo_buffer)) (extents [1, 2]) = 5"
    by (simp_all add: demo_buffer_def buffer_shape_def)
  then show ?thesis using buffer_addressing [OF demo_buffer_ok len] demo_buffer_ok by simp
qed

text \<open>
  C31. A value stored through a view is read back from the same logical index (a real-valued view keeps
  the real part, and refuses a value with a non-zero imaginary part), and every logical index that
  maps to another offset reads what it read before.
\<close>

theorem view_set_get:
  assumes "sim_buffer_view_set_complex (Some v) i z = (True, Some v')"
    and "sim_buffer_view_offset_for_linear_index (Some v) i = Some oi" "element_in_store v oi"
    and "sim_buffer_view_offset_for_linear_index (Some v) j = Some oj" "element_in_store v oj"
  shows "sim_buffer_view_get_complex (Some v') i =
      Some (if view_type v = SIM_BUFFER_DOUBLE then z\<lparr>im := 0\<rparr> else z) \<and>
    (oi \<noteq> oj \<longrightarrow> sim_buffer_view_get_complex (Some v') j = sim_buffer_view_get_complex (Some v) j)"
proof -
  from set_complex_element(3) [OF assms(1-3)] obtain bytes where v': "v' = v\<lparr>view_data := Some bytes\<rparr>" ..
  have "sim_buffer_view_get_complex (Some v') k = element_value (view_type v) (view_element v' ok)"
    if "sim_buffer_view_offset_for_linear_index (Some v) k = Some ok" for k ok
    using get_complex_element [of v' k ok] that by (simp add: v')
  moreover have "view_data v \<noteq> None" using assms(3) by (auto simp: element_in_store_def split: option.splits)
  ultimately show ?thesis
    using set_complex_element(1,2) [OF assms(1-3)] get_complex_element [of v j oj] assms(2,4,5) by auto
qed

definition demo_view :: SimBufferView where
  "demo_view =
     \<lparr>view_data = Some (replicate 32 0), view_count = 2, view_type = SIM_BUFFER_COMPLEX_DOUBLE,
      view_layout = empty_layout, view_logical_to_physical = Some [1, 0]\<rparr>"

theorem view_set_get_witness:
  "\<exists>v'. sim_buffer_view_set_complex (Some demo_view) 0 \<lparr>re = 7, im = 9\<rparr> = (True, Some v') \<and>
     sim_buffer_view_get_complex (Some v') 0 = Some \<lparr>re = 7, im = 9\<rparr> \<and>
     sim_buffer_view_get_complex (Some v') 1 = sim_buffer_view_get_complex (Some demo_view) 1"
proof -
  have o: "sim_buffer_view_offset_for_linear_index (Some demo_view) 0 = Some 1"
    "sim_buffer_view_offset_for_linear_index (Some demo_view) 1 = Some 0"
    by (simp_all add: sim_buffer_view_offset_for_linear_index_def demo_view_def word_le_nat_alt)
  have e: "element_in_store demo_view 1" "element_in_store demo_view 0"
    by (simp_all add: element_in_store_def demo_view_def sim_buffer_element_size_def)
  obtain v' where s: "sim_buffer_view_set_complex (Some demo_view) 0 \<lparr>re = 7, im = 9\<rparr> = (True, Some v')"
    using o(1) by (simp add: sim_buffer_view_set_complex_def demo_view_def)
  from view_set_get [OF s o(1) e(1) o(2) e(2)] s show ?thesis by (simp add: demo_view_def)
qed

text \<open>
  C10. A clone of a readable view is a live buffer of the view's type and count whose element at every
  logical index is the view's element there, whatever strides or index table the view uses.
\<close>

theorem clone_view_correct:
  assumes "sim_buffer_clone_view h (Some v) = Some b" "view_readable v"
  shows "buffer_ok b \<and> buf_type b = view_type v \<and> buf_count b = view_count v \<and>
    (\<forall>i < view_count v. sim_buffer_view_get_complex (Some (sim_buffer_view (Some b))) i =
       sim_buffer_view_get_complex (Some v) i)"
proof (intro conjI allI impI)
  note clone = clone_elements [OF assms]
  show "buffer_ok b" "buf_type b = view_type v" "buf_count b = view_count v" by (fact clone)+
  fix i assume i: "i < view_count v"
  from clone(4) [OF this] obtain offset where
    off: "sim_buffer_view_offset_for_linear_index (Some v) i = Some offset" "view_data v \<noteq> None"
    and el: "view_element (sim_buffer_view (Some b)) i = view_element v offset" by blast
  have o: "sim_buffer_view_offset_for_linear_index (Some (sim_buffer_view (Some b))) i = Some i"
    using buffer_offset_linear [OF clone(1)] i clone(3) by simp
  have k: "sim_buffer_element_size (buf_type b) \<noteq> 0" and "0 < unat (buf_count b)"
    using clone(1,3) i by (auto simp: buffer_ok_def Let_def word_less_nat_alt)
  moreover have "unat (buf_bytes b) = unat (buf_count b) * unat (sim_buffer_element_size (buf_type b))"
    using clone(1) by (simp add: buffer_ok_def Let_def)
  ultimately have "0 < unat (buf_bytes b)" by (simp add: unat_gt_0)
  then have "view_data (sim_buffer_view (Some b)) \<noteq> None"
    using clone(1) by (auto simp: buffer_ok_def Let_def storage_ok_def sim_buffer_view_def
        split: option.splits)
  from get_complex_element [OF this o] get_complex_element [OF off(2,1)] el clone(2)
  show "sim_buffer_view_get_complex (Some (sim_buffer_view (Some b))) i =
      sim_buffer_view_get_complex (Some v) i" by (simp add: sim_buffer_view_def)
qed

definition demo_strided :: SimBufferView where
  "demo_strided =
     \<lparr>view_data = Some [10, 11, 12, 13], view_count = 2, view_type = SIM_BUFFER_U8,
      view_layout = \<lparr>lay_rank = 1, lay_shape = Some [2], lay_strides = Some [2], lay_contiguous = False\<rparr>,
      view_logical_to_physical = None\<rparr>"

theorem clone_view_correct_witness:
  "\<exists>b. sim_buffer_clone_view (\<lambda>_. True) (Some demo_strided) = Some b \<and> buffer_ok b \<and>
     buf_data b = Some [10, 12]"
proof -
  have o: "sim_buffer_view_offset_for_linear_index (Some demo_strided) 0 = Some 0"
    "sim_buffer_view_offset_for_linear_index (Some demo_strided) 1 = Some 2"
    by code_simp+
  have two: "unat (view_count demo_strided) = 2" by (simp add: demo_strided_def)
  have e: "element_in_store demo_strided 0" "element_in_store demo_strided 2"
    by (simp_all add: element_in_store_def demo_strided_def sim_buffer_element_size_def)
  have "case sim_buffer_view_offset_for_linear_index (Some demo_strided) (word_of_nat i) of
      None \<Rightarrow> True | Some offset \<Rightarrow> element_in_store demo_strided offset" if "i < 2" for i
  proof -
    from that have "i = 0 \<or> i = 1" by linarith
    then show ?thesis using o e by auto
  qed
  then have r: "view_readable demo_strided"
    using two by (simp add: view_readable_def) (simp add: demo_strided_def)
  have fit: "shape_fits [2]" by (subst shape_fits_positive) simp_all
  have "sim_buffer_layout_count (view_layout demo_strided) = Some 2"
    using fit by (simp add: demo_strided_def sim_buffer_layout_count_def shape_count_exact)
  moreover obtain b0 where b0: "sim_buffer_create (\<lambda>_. True) 1 (Some [2]) SIM_BUFFER_U8 = Some b0"
    using fit by (simp add: sim_buffer_create_def shape_count_exact layout_assign_cases Let_def
        calloc_ok_def sizeof_SimBuffer_def sim_buffer_element_size_def)
  moreover have "buf_data b0 = Some [0, 0]"
  proof -
    have "unat (buf_bytes b0) = 2" using buffer_ok_create(1-3) [OF b0]
      by (simp add: buffer_ok_def Let_def sim_buffer_element_size_def)
    then show ?thesis using buffer_ok_create(5) [OF b0] by (auto simp: numeral_2_eq_2)
  qed
  moreover have "fold_option (clone_element demo_strided 1 [10, 11, 12, 13]) [0..<2] [0, 0] = Some [10, 12]"
    by (simp add: clone_element_def o memcpy_at_def upt_rec)
  ultimately obtain b where c: "sim_buffer_clone_view (\<lambda>_. True) (Some demo_strided) = Some b"
    and d: "buf_data b = Some [10, 12]"
    using two by (simp add: sim_buffer_clone_view_def Let_def)
      (simp add: demo_strided_def sim_buffer_element_size_def)
  from clone_view_correct [OF c r] c d show ?thesis by blast
qed

text \<open>
  A successful reshape keeps the invariant, the bytes, the count and the element type and installs
  the new shape; a failed one leaves the buffer as it was.
\<close>

theorem reshape_preserves:
  assumes "buffer_ok b" "rank \<le> length ds"
    and "sim_buffer_reshape h (Some b) rank (Some ds) = (res, Some b')"
  shows "buffer_ok b' \<and> buf_data b' = buf_data b \<and> buf_count b' = buf_count b \<and>
    buf_type b' = buf_type b \<and>
    (if res = SIM_RESULT_OK then buffer_shape b' = take rank ds else b' = b)"
  using buffer_ok_reshape [OF assms(1,2), of h b'] reshape_failure_keeps [OF assms(3)] assms
  by (cases "res = SIM_RESULT_OK") auto

theorem reshape_preserves_witness:
  "\<exists>b'. sim_buffer_reshape (\<lambda>_. True) (Some demo_buffer) 2 (Some [3, 2]) = (SIM_RESULT_OK, Some b') \<and>
     buffer_ok b' \<and> buffer_shape b' = [3, 2]"
proof -
  have rank: "2 \<le> length [3, 2 :: size_t]" by simp
  obtain b' where r: "sim_buffer_reshape (\<lambda>_. True) (Some demo_buffer) 2 (Some [3, 2]) =
      (SIM_RESULT_OK, Some b')"
  proof -
    have "shape_fits [3, 2]" by (subst shape_fits_positive) simp_all
    then show ?thesis using that
      by (simp add: sim_buffer_reshape_def shape_count_exact layout_assign_cases demo_buffer_def
          calloc_ok_def Let_def)
  qed
  from reshape_preserves [OF demo_buffer_ok rank r] r show ?thesis by simp
qed

section \<open>Integer elements read as doubles\<close>

text \<open>The integer part of the value a bit pattern stands for: sign, exponent and significand.\<close>

definition f64_int_value :: "f64 \<Rightarrow> int" where
  "f64_int_value x =
     (let n = unat (take_bit 63 x); e = n div 2 ^ 52; m = n mod 2 ^ 52;
          magnitude = (if n = 0 then 0 else (2 ^ 52 + m) * 2 ^ e div 2 ^ 1075)
      in if bit x 63 then - int magnitude else int magnitude)"

text \<open>The integer a view element stores, for the element types no wider than 32 bits.\<close>

definition small_integer :: "SimBufferDataType \<Rightarrow> u8 list \<Rightarrow> int option" where
  "small_integer type bytes =
     (case type of
        SIM_BUFFER_I8 \<Rightarrow> Some (sint (ucast (load_le 1 bytes 0) :: 8 word))
      | SIM_BUFFER_U8 \<Rightarrow> Some (uint (load_le 1 bytes 0))
      | SIM_BUFFER_I32 \<Rightarrow> Some (sint (ucast (load_le 4 bytes 0) :: 32 word))
      | SIM_BUFFER_U32 \<Rightarrow> Some (uint (load_le 4 bytes 0))
      | _ \<Rightarrow> None)"

lemma highest_bit_bounds: "0 < n \<Longrightarrow> 2 ^ highest_bit n \<le> n \<and> n < 2 ^ Suc (highest_bit n)"
proof (induction n rule: highest_bit.induct)
  case (1 n)
  show ?case
  proof (cases "n < 2")
    case True
    then show ?thesis using 1 by (simp add: highest_bit.simps)
  next
    case False
    then have "2 ^ highest_bit (n div 2) \<le> n div 2" "n div 2 < 2 ^ Suc (highest_bit (n div 2))"
      using 1 by auto
    then have "2 * 2 ^ highest_bit (n div 2) \<le> n \<and> n < 2 * 2 ^ Suc (highest_bit (n div 2))"
      using div_mult_mod_eq [of n 2] mod_less_divisor [of 2 n] by linarith
    then show ?thesis using False by (simp add: highest_bit.simps [of n])
  qed
qed

lemma f64_of_nat_decode:
  assumes "0 < n" "n < 2 ^ 53"
  shows "f64_of_nat n < 2 ^ 63" "0 < f64_of_nat n"
    and "(2 ^ 52 + f64_of_nat n mod 2 ^ 52) * 2 ^ (f64_of_nat n div 2 ^ 52) div 2 ^ 1075 = n"
proof -
  define e where "e = highest_bit n"
  have b: "2 ^ e \<le> n" "n < 2 ^ Suc e" using highest_bit_bounds [OF assms(1)] by (auto simp: e_def)
  have "(2 :: nat) ^ e < 2 ^ 53" using b(1) assms(2) by linarith
  then have e: "e \<le> 52" by (metis less_Suc_eq_le numeral_eq_Suc pred_numeral_simps(3) eval_nat_numeral(3)
        one_less_numeral_iff power_strict_increasing_iff semiring_norm(76))
  define q where "q = n * 2 ^ (52 - e)"
  have p: "(2 :: nat) ^ e * 2 ^ (52 - e) = 2 ^ 52" using e by (simp flip: power_add)
  have q1: "2 ^ 52 \<le> q" using mult_le_mono1 [OF b(1), of "2 ^ (52 - e)"] p by (simp add: q_def)
  have "q < 2 ^ Suc e * 2 ^ (52 - e)" using b(2) unfolding q_def by (intro mult_strict_right_mono) simp_all
  also have "\<dots> = 2 ^ 53" using p by simp
  finally have q: "2 ^ 52 \<le> q" "q < 2 ^ 53" using q1 by simp_all
  have f: "f64_of_nat n = (e + 1023) * 2 ^ 52 + (q - 2 ^ 52)"
    using assms(1) e by (simp add: f64_of_nat_def e_def q_def Let_def)
  have "q - 2 ^ 52 < 2 ^ 52" using q by simp
  then have dm: "f64_of_nat n div 2 ^ 52 = e + 1023" "f64_of_nat n mod 2 ^ 52 = q - 2 ^ 52"
    unfolding f by (simp_all only: div_mult_self3 mod_mult_self3 div_less mod_less add_0_right)
  have "q * 2 ^ (e + 1023) = n * 2 ^ 1075"
    using e by (simp add: q_def mult.assoc flip: power_add)
  then show "(2 ^ 52 + f64_of_nat n mod 2 ^ 52) * 2 ^ (f64_of_nat n div 2 ^ 52) div 2 ^ 1075 = n"
    unfolding dm using q(1) by simp
  have "(e + 1023) * 2 ^ 52 \<le> 1075 * (2 ^ 52 :: nat)" using e by (intro mult_le_mono1) simp
  then show "f64_of_nat n < 2 ^ 63" "0 < f64_of_nat n" using q unfolding f by simp_all
qed

lemma f64_int_value_of_int:
  assumes "\<bar>k\<bar> < 2 ^ 53"
  shows "f64_int_value (f64_of_int k) = k"
proof (cases "k = 0")
  case True
  then show ?thesis by (simp add: f64_int_value_def f64_of_int_def f64_of_nat_def)
next
  case False
  define n where "n = nat \<bar>k\<bar>"
  have n: "0 < n" "n < 2 ^ 53" using False assms by (auto simp: n_def)
  note d = f64_of_nat_decode [OF n]
  define w :: u64 where "w = word_of_nat (f64_of_nat n)"
  have uw: "unat w = f64_of_nat n" using d(1) by (simp add: w_def unat_of_nat)
  then have "take_bit 63 w = w" using d(1)
    by (simp add: word_unat_eq_iff unsigned_take_bit_eq take_bit_nat_eq_self)
  moreover from this have "\<not> bit w 63" by (metis bit_take_bit_iff less_irrefl)
  moreover have "take_bit 63 (set_bit 63 w) = take_bit 63 w"
    by (rule bit_word_eqI) (auto simp: bit_simps)
  ultimately have take: "take_bit 63 (f64_of_int k) = w" and sign: "bit (f64_of_int k) 63 \<longleftrightarrow> k < 0"
    by (auto simp: f64_of_int_def n_def w_def bit_simps)
  have "f64_int_value (f64_of_int k) = (if k < 0 then - int n else int n)"
    unfolding f64_int_value_def take sign uw Let_def d(3) using d(2) by simp
  then show ?thesis by (simp add: n_def)
qed

lemma load_le_bound: "unat (load_le k bytes at) < 2 ^ (8 * k)"
proof -
  let ?f = "\<lambda>bs. foldr (\<lambda>b acc. ucast b OR push_bit 8 acc) bs 0 :: u64"
  have high: "bit (?f bs) i \<Longrightarrow> i < 8 * length bs" for bs :: "u8 list" and i
  proof (induction bs arbitrary: i)
    case (Cons b bs)
    then show ?case
      by (auto simp: bit_simps dest: bit_imp_le_length Cons.IH)
  qed simp
  have "bit (load_le k bytes at) i \<Longrightarrow> i < 8 * k" for i
    using high [of "take k (drop at bytes)" i] by (simp add: load_le_def)
  then have "take_bit (8 * k) (load_le k bytes at) = load_le k bytes at"
    by (intro bit_word_eqI) (auto simp: bit_take_bit_iff)
  then show ?thesis
    by (metis take_bit_nat_less_exp unsigned_take_bit_eq)
qed

lemma small_integer_bound:
  assumes "small_integer type bytes = Some k"
  shows "\<bar>k\<bar> < 2 ^ 53"
proof -
  have "unat (load_le 1 bytes 0) < 256" "unat (load_le 4 bytes 0) < 4294967296"
    using load_le_bound [of 1 bytes 0] load_le_bound [of 4 bytes 0] by simp_all
  then have "int (unat (load_le 1 bytes 0)) < 256" "int (unat (load_le 4 bytes 0)) < 4294967296"
    by linarith+
  then have u: "\<bar>uint (load_le 1 bytes 0)\<bar> < 2 ^ 53" "\<bar>uint (load_le 4 bytes 0)\<bar> < 2 ^ 53"
    by simp_all
  have s: "\<bar>sint (x :: 8 word)\<bar> < 2 ^ 53" "\<bar>sint (y :: 32 word)\<bar> < 2 ^ 53" for x y
    using sint_greater_eq [of x] sint_less [of x] sint_greater_eq [of y] sint_less [of y]
    by (simp_all add: abs_less_iff)
  show ?thesis using assms s u unfolding small_integer_def by (cases type) auto
qed

text \<open>
  Reading an 8-bit or 32-bit integer element as a complex value loses nothing: the real part is a
  \<^verbatim>\<open>double\<close> whose value is exactly the stored integer, and the imaginary part is zero.
\<close>

theorem view_get_integer_exact:
  assumes "view_data v \<noteq> None"
    and "sim_buffer_view_offset_for_linear_index (Some v) i = Some offset"
    and "small_integer (view_type v) (view_element v offset) = Some k"
  shows "\<exists>z. sim_buffer_view_get_complex (Some v) i = Some z \<and> f64_int_value (re z) = k \<and> im z = 0"
proof -
  have "element_value (view_type v) (view_element v offset) = Some \<lparr>re = f64_of_int k, im = 0\<rparr>"
    using assms(3) unfolding small_integer_def element_value_def by (cases "view_type v") auto
  then show ?thesis
    using get_complex_element [OF assms(1,2)] f64_int_value_of_int small_integer_bound [OF assms(3)]
    by simp
qed

theorem view_get_integer_exact_witness:
  "\<exists>z. sim_buffer_view_get_complex (Some demo_strided) 1 = Some z \<and> f64_int_value (re z) = 12"
proof -
  have d: "view_data demo_strided \<noteq> None" by (simp add: demo_strided_def)
  have o: "sim_buffer_view_offset_for_linear_index (Some demo_strided) 1 = Some 2" by code_simp
  have k: "small_integer (view_type demo_strided) (view_element demo_strided 2) = Some 12" by code_simp
  from view_get_integer_exact [OF d o k] show ?thesis by blast
qed

end
