(* ===== verification/Field_Correct.thy ===== *)
theory Field_Correct
  imports Sim_Field Buffer_Correct
begin

text \<open>
  Correctness of \<^verbatim>\<open>core/src/field.c\<close>: the invariant of a live field, its preservation by every
  operation that changes a field, addressing, promotion to complex storage, and the two places where
  the code leaves the invariant.
\<close>

section \<open>Layout arithmetic\<close>

lemma element_count_loop_exact:
  "element_count_loop n ds = n * word_of_nat (prod_list (extents ds))"
  by (induction ds arbitrary: n) (auto simp: mult.assoc)

lemma field_strides_loop_exact:
  "field_strides_loop stride ds acc =
     map (\<lambda>s. stride * word_of_nat s) (row_major_strides (rev (stride_extents ds))) @ acc"
proof (induction ds arbitrary: stride acc)
  case (Cons d ds)
  have "word_of_nat (max 1 (unat d)) = (if d > 0 then d else 1)"
    by (simp only: unat_stride_step [symmetric]) simp
  then show ?case using Cons.IH [of "stride * (if d > 0 then d else 1)" "stride # acc"]
    by (simp add: row_major_strides_snoc comp_def ac_simps)
qed simp

lemma layout_init_ok:
  assumes "sim_field_layout_init h l rank (Some ds) = (SIM_RESULT_OK, l')" "rank \<le> length ds"
  shows "row_major_layout (take rank ds) l'" "take rank ds \<noteq> []"
  using assms
  by (auto simp: sim_field_layout_init_def row_major_layout_def field_strides_loop_exact min_def
      split: if_splits)

lemma element_count_row_major:
  assumes "row_major_layout ds l" "ds \<noteq> []"
  shows "sim_field_element_count l = word_of_nat (prod_list (extents ds))"
  using assms by (simp add: row_major_layout_def sim_field_element_count_def element_count_loop_exact)

section \<open>The invariant of a live field\<close>

definition field_shape :: "SimField \<Rightarrow> size_t list" where
  "field_shape f = the (lay_shape (f_layout f))"

definition field_storage_ok :: "SimField \<Rightarrow> bool" where
  "field_storage_ok f \<longleftrightarrow>
     row_major_layout (field_shape f) (f_layout f) \<and> field_shape f \<noteq> [] \<and> 0 \<notin> set (field_shape f) \<and>
     f_element_size f \<noteq> 0 \<and>
     (\<exists>bytes. f_data f = Some bytes \<and> length bytes < 2 ^ 63 \<and>
        length bytes = prod_list (extents (field_shape f)) * unat (f_element_size f)) \<and>
     (\<forall>a. al_allocate (f_allocator f) = Some a \<longrightarrow> bounded_heap a)"

text \<open>The scalar domain, if known, fits the element size and agrees with the representation.\<close>

definition field_metadata_ok :: "SimField \<Rightarrow> bool" where
  "field_metadata_ok f \<longleftrightarrow>
     sim_scalar_domain_validate (f_scalar_domain f) \<and>
     (sd_kind (f_scalar_domain f) \<noteq> SIM_SCALAR_DOMAIN_UNKNOWN \<longrightarrow>
        sim_field_storage_matches_scalar_domain (f_element_size f) (f_scalar_domain f) \<and>
        sim_scalar_domain_is_complex (f_scalar_domain f) =
          sim_field_representation_requires_complex_storage (sim_field_representation (Some f)))"

definition field_ok :: "SimField \<Rightarrow> bool" where
  "field_ok f \<longleftrightarrow> f_magic f = SIM_FIELD_MAGIC \<and> field_storage_ok f \<and> field_metadata_ok f"

lemma initialized_Some [simp]: "sim_field_is_initialized (Some f) \<longleftrightarrow> f_magic f = SIM_FIELD_MAGIC"
  by (simp add: sim_field_is_initialized_def)

lemma initialized_None [simp]: "\<not> sim_field_is_initialized None"
  by (simp add: sim_field_is_initialized_def)

lemma storage_is_complex_Some [simp]:
  "sim_field_storage_is_complex (Some f) \<longleftrightarrow> f_magic f = SIM_FIELD_MAGIC \<and> f_element_size f = 16"
  by (simp add: sim_field_storage_is_complex_def)

lemmas value_kind_defs =
  sim_field_representation_requires_complex_storage_def sim_field_value_kind_is_complex_valued_def

lemma default_domain_metadata:
  assumes "f_magic f = SIM_FIELD_MAGIC" "f_repr f = initial_repr (f_element_size f)"
    "f_scalar_domain f = sim_field_default_scalar_domain (f_element_size f)"
  shows "field_metadata_ok f"
  using assms
  by (auto simp: field_metadata_ok_def sim_field_default_scalar_domain_def initial_repr_def
      sim_buffer_data_type_from_element_size_def sim_buffer_data_type_to_scalar_domain_def
      scalar_domain_consts sim_scalar_domain_validate_def sim_field_storage_matches_scalar_domain_def
      sim_scalar_domain_is_complex_def sim_field_representation_def value_kind_defs Let_def)

lemma field_ok_init:
  assumes "sim_field_init h (Some f0) rank (Some ds) k storage allocator = (SIM_RESULT_OK, Some f)"
    and "rank \<le> length ds" "prod_list (extents (take rank ds)) < 2 ^ 64"
    and "bounded_heap h" "\<And>al a. allocator = Some al \<Longrightarrow> al_allocate al = Some a \<Longrightarrow> bounded_heap a"
  shows "field_ok f" "field_shape f = take rank ds" "f_element_size f = k"
    and "\<exists>n. f_data f = Some (replicate n 0)"
proof -
  define al where "al = (case allocator of None \<Rightarrow> sim_field_allocator_default h | Some a \<Rightarrow> a)"
  obtain l where l: "sim_field_layout_init h empty_layout rank (Some ds) = (SIM_RESULT_OK, l)"
    and total: "sim_field_element_count l \<noteq> 0" "\<not> sim_field_element_count l > size_max div k" "k \<noteq> 0"
    and alloc: "al_allocate al \<noteq> None" "(the (al_allocate al)) (unat (sim_field_element_count l * k))"
    and f: "f = (sim_field_reset f0)\<lparr>f_layout := l, f_allocator := al,
        f_data := Some (replicate (unat (sim_field_element_count l * k)) 0), f_element_size := k,
        f_storage := storage, f_complex_mode := False, f_repr := initial_repr k,
        f_scalar_domain := sim_field_default_scalar_domain k, f_owns_data := True,
        f_magic := SIM_FIELD_MAGIC\<rparr>"
    using assms(1)
    by (auto simp: sim_field_init_def Let_def al_def sim_field_reset_def word_gt_0
        split: if_splits prod.splits)
  note lay = layout_init_ok [OF l assms(2)]
  have count: "sim_field_element_count l = word_of_nat (prod_list (extents (take rank ds)))"
    by (rule element_count_row_major [OF lay])
  then have n: "unat (sim_field_element_count l) = prod_list (extents (take rank ds))"
    using assms(3) by (simp add: unat_word_of_nat_64)
  have bytes: "unat (sim_field_element_count l * k) = prod_list (extents (take rank ds)) * unat k"
    using total(2) gt_size_max_div_iff [OF total(3), of "sim_field_element_count l"] n
    by (simp add: unat_mult_exact)
  have "prod_list (extents (take rank ds)) \<noteq> 0" using total(1) n by (simp add: unat_eq_0 flip: n)
  then have nz: "0 \<notin> set (take rank ds)" by (metis image_eqI list.set_map prod_list_zero_iff unat_0)
  have ba: "bounded_heap a" if "al_allocate al = Some a" for a
    using that assms(4,5) by (auto simp: al_def sim_field_allocator_default_def split: option.splits)
  show shape: "field_shape f = take rank ds" and "f_element_size f = k"
    and "\<exists>n. f_data f = Some (replicate n 0)"
    using lay(1) by (auto simp: f field_shape_def row_major_layout_def)
  have "unat (sim_field_element_count l * k) < 2 ^ 63"
    using alloc ba by (auto simp: bounded_heap_def)
  then have "field_storage_ok f"
    using lay nz total(3) bytes ba shape unfolding field_storage_ok_def shape
    by (simp add: f)
  moreover have "field_metadata_ok f" by (rule default_domain_metadata) (simp_all add: f)
  ultimately show "field_ok f" by (simp add: field_ok_def f)
qed

lemma field_ok_wrap:
  assumes "sim_field_wrap h (Some f0) (Some l) k storage (Some bytes) = (SIM_RESULT_OK, Some f)"
    and "row_major_layout ds l" "0 \<notin> set ds"
    and "length bytes = prod_list (extents ds) * unat k" "length bytes < 2 ^ 63"
  shows "field_ok f" "field_shape f = ds" "f_element_size f = k"
proof -
  have l: "lay_rank l = length ds" "lay_shape l = Some ds"
    "lay_strides l = Some (map word_of_nat (row_major_strides (stride_extents ds)))" "lay_contiguous l"
    using assms(2) by (simp_all add: row_major_layout_def)
  from assms(1) l have k: "k \<noteq> 0" and ne: "ds \<noteq> []"
    by (auto simp: sim_field_wrap_def split: if_splits)
  obtain own where own: "sim_field_layout_init h empty_layout (length ds) (Some ds) = (SIM_RESULT_OK, own)"
    and f: "f = (sim_field_reset f0)\<lparr>f_layout := own\<lparr>lay_strides := lay_strides l, lay_contiguous := True\<rparr>,
        f_data := Some bytes, f_element_size := k, f_storage := storage, f_complex_mode := False,
        f_repr := initial_repr k, f_scalar_domain := sim_field_default_scalar_domain k,
        f_owns_data := False, f_magic := SIM_FIELD_MAGIC\<rparr>"
    using assms(1) l k ne
    by (auto simp: sim_field_wrap_def sim_field_reset_def Let_def split: if_splits prod.splits)
  have lay: "row_major_layout ds own" using layout_init_ok(1) [OF own] by simp
  show shape: "field_shape f = ds" and "f_element_size f = k"
    using lay by (auto simp: f field_shape_def row_major_layout_def)
  have "field_storage_ok f"
    using lay l(3) assms(3-5) k ne unfolding field_storage_ok_def shape
    by (simp add: f sim_field_reset_def row_major_layout_def)
  moreover have "field_metadata_ok f" by (rule default_domain_metadata) (simp_all add: f)
  ultimately show "field_ok f" by (simp add: field_ok_def f)
qed

lemma field_storage_ok_cong:
  assumes "field_storage_ok f" "f_layout f' = f_layout f" "f_element_size f' = f_element_size f"
    "f_data f' = f_data f" "f_allocator f' = f_allocator f"
  shows "field_storage_ok f'"
  using assms by (simp add: field_storage_ok_def field_shape_def)

lemma set_scalar_domain_ok:
  assumes "field_ok f" "sim_field_set_scalar_domain (Some f) d = (res, Some f')"
  shows "field_ok f'" "res = SIM_RESULT_OK \<Longrightarrow> f' = f\<lparr>f_scalar_domain := d\<rparr>"
    "res \<noteq> SIM_RESULT_OK \<Longrightarrow> f' = f"
proof -
  show eq: "res = SIM_RESULT_OK \<Longrightarrow> f' = f\<lparr>f_scalar_domain := d\<rparr>" "res \<noteq> SIM_RESULT_OK \<Longrightarrow> f' = f"
    using assms(2) by (auto simp: sim_field_set_scalar_domain_def split: if_splits)
  show "field_ok f'"
  proof (cases "res = SIM_RESULT_OK")
    case True
    have "sim_field_representation (Some (f\<lparr>f_scalar_domain := d\<rparr>)) = sim_field_representation (Some f)"
      by (simp add: sim_field_representation_def)
    then have "field_metadata_ok (f\<lparr>f_scalar_domain := d\<rparr>)"
      using assms(2) True
      by (auto simp: field_metadata_ok_def sim_field_set_scalar_domain_def split: if_splits)
    moreover have "field_storage_ok (f\<lparr>f_scalar_domain := d\<rparr>)"
      using assms(1) by (auto simp: field_ok_def intro: field_storage_ok_cong)
    ultimately show ?thesis using assms(1) eq(1) [OF True] by (simp add: field_ok_def)
  qed (use assms(1) eq(2) in simp)
qed

lemma validate_representation_iff:
  assumes "f_magic f = SIM_FIELD_MAGIC"
  shows "sim_field_validate_representation (Some f) repr = SIM_RESULT_OK \<longleftrightarrow>
    (repr_domain repr = SIM_FIELD_DOMAIN_PHYSICAL \<or> repr_domain repr = SIM_FIELD_DOMAIN_SPECTRAL) \<and>
    repr_value_kind repr \<noteq> SIM_FIELD_VALUE_UNKNOWN \<and>
    (sim_field_value_kind_has_spectral_real_constraint (repr_value_kind repr) \<longrightarrow>
       repr_domain repr = SIM_FIELD_DOMAIN_SPECTRAL) \<and>
    (repr_domain repr = SIM_FIELD_DOMAIN_SPECTRAL \<longrightarrow>
       repr_value_kind repr \<noteq> SIM_FIELD_VALUE_REAL_SCALAR) \<and>
    (sim_scalar_domain_validate (f_scalar_domain f) \<and>
       sd_kind (f_scalar_domain f) \<noteq> SIM_SCALAR_DOMAIN_UNKNOWN \<longrightarrow>
       sim_scalar_domain_is_complex (f_scalar_domain f) =
         sim_field_representation_requires_complex_storage repr) \<and>
    sim_field_representation_requires_complex_storage repr = (f_element_size f = 16)"
  using assms by (cases "repr_domain repr") (auto simp: sim_field_validate_representation_def Let_def)

lemma set_representation_ok:
  assumes "field_ok f" "sim_field_set_representation (Some f) repr = (res, Some f')"
  shows "field_ok f'" "res \<noteq> SIM_RESULT_OK \<Longrightarrow> f' = f"
    and "res = SIM_RESULT_OK \<Longrightarrow> sim_field_representation (Some f') = repr"
proof -
  have magic: "f_magic f = SIM_FIELD_MAGIC" using assms(1) by (simp add: field_ok_def)
  show keep: "res \<noteq> SIM_RESULT_OK \<Longrightarrow> f' = f"
    using assms(2) magic by (auto simp: sim_field_set_representation_def Let_def split: if_splits)
  have new: "f' = f\<lparr>f_repr := repr,
      f_complex_mode := sim_field_representation_requires_complex_storage repr\<rparr>"
    and v: "sim_field_validate_representation (Some f) repr = SIM_RESULT_OK" if "res = SIM_RESULT_OK"
    using assms(2) that magic by (auto simp: sim_field_set_representation_def Let_def split: if_splits)
  show repr: "sim_field_representation (Some f') = repr" if "res = SIM_RESULT_OK"
    using new [OF that] v [OF that] magic
    by (auto simp: validate_representation_iff sim_field_representation_def Let_def value_kind_defs)
  show "field_ok f'"
  proof (cases "res = SIM_RESULT_OK")
    case True
    have "field_metadata_ok f'"
      using v [OF True] repr [OF True] assms(1) magic unfolding field_metadata_ok_def field_ok_def
      by (simp add: validate_representation_iff new [OF True])
    moreover have "field_storage_ok f'"
      using assms(1) new [OF True] by (auto simp: field_ok_def intro: field_storage_ok_cong)
    ultimately show ?thesis using magic new [OF True] by (simp add: field_ok_def)
  qed (use assms(1) keep in simp)
qed

section \<open>Promotion\<close>

lemma length_promote_bytes:
  "length bytes = n * 8 \<Longrightarrow> length (promote_bytes n bytes) = n * 16"
proof -
  assume len: "length bytes = n * 8"
  have "length (take 8 (drop (i * 8) bytes) @ replicate 8 (0 :: u8)) = 16" if "i < n" for i
    using block_before [OF that, of 8] len by simp
  then have "length (concat (map (\<lambda>i. take 8 (drop (i * 8) bytes) @ replicate 8 0) [0..<m])) = m * 16"
    if "m \<le> n" for m using that by (induction m) simp_all
  from this [of n] show ?thesis by (simp add: promote_bytes_def)
qed

lemma promote_bytes_element:
  assumes "length bytes = n * 8" "i < n"
  shows "take 16 (drop (i * 16) (promote_bytes n bytes)) = take 8 (drop (i * 8) bytes) @ replicate 8 0"
proof -
  let ?e = "\<lambda>i. take 8 (drop (i * 8) bytes) @ replicate 8 (0 :: u8)"
  have e: "length (?e i) = 16" if "i < n" for i using block_before [OF that, of 8] assms(1) by simp
  then have pre: "length (concat (map ?e [0..<m])) = m * 16" if "m \<le> n" for m
    using that by (induction m) simp_all
  have "[0..<n] = [0..<i] @ i # [Suc i..<n]" using assms(2)
    by (metis add_0 le_add_diff_inverse less_imp_le upt_add_eq_append upt_conv_Cons zero_le)
  then have "promote_bytes n bytes =
      concat (map ?e [0..<i]) @ ?e i @ concat (map ?e [Suc i..<n])"
    by (simp add: promote_bytes_def)
  then show ?thesis using pre [of i] e [OF assms(2)] assms(2) by simp
qed

lemma complex_metadata:
  assumes "f_magic f = SIM_FIELD_MAGIC" "f_element_size f = 16"
  shows "field_metadata_ok (set_complex_metadata f)"
    and "sim_field_representation_requires_complex_storage
      (sim_field_representation (Some (set_complex_metadata f)))"
  using assms
  by (auto simp: set_complex_metadata_def complex_repr_def sim_field_representation_def Let_def
      field_metadata_ok_def scalar_domain_consts sim_scalar_domain_validate_def
      sim_field_storage_matches_scalar_domain_def sim_scalar_domain_is_complex_def value_kind_defs)

text \<open>What a successful promotion of a real field does to storage and metadata.\<close>

lemma promote_cases:
  assumes "field_ok f" "bounded_heap h"
    and "sim_field_promote_inplace_to_complex h (Some f) = (res, Some f')"
  shows "res \<noteq> SIM_RESULT_OK \<Longrightarrow> f' = f"
    and "res = SIM_RESULT_OK \<Longrightarrow> f_element_size f = 16 \<Longrightarrow> f' = f"
    and "res = SIM_RESULT_OK \<Longrightarrow> f_element_size f \<noteq> 16 \<Longrightarrow>
      f_element_size f = 8 \<and> field_ok f' \<and> f_element_size f' = 16 \<and> f_layout f' = f_layout f \<and>
      f_data f' = Some (promote_bytes (prod_list (extents (field_shape f))) (the (f_data f))) \<and>
      sim_field_representation_requires_complex_storage (sim_field_representation (Some f')) \<and>
      f_scalar_domain f' = sim_scalar_domain_c64 \<and> f_owns_data f'"
proof -
  let ?n = "prod_list (extents (field_shape f))" and ?N = "sim_field_element_count (f_layout f)"
  have ok: "f_magic f = SIM_FIELD_MAGIC" "field_storage_ok f" using assms(1) by (simp_all add: field_ok_def)
  obtain bytes where bytes: "f_data f = Some bytes" "length bytes < 2 ^ 63"
    "length bytes = ?n * unat (f_element_size f)" using ok(2) by (auto simp: field_storage_ok_def)
  have lay: "row_major_layout (field_shape f) (f_layout f)" "field_shape f \<noteq> []" "0 \<notin> set (field_shape f)"
    and k: "f_element_size f \<noteq> 0"
    using ok(2) by (simp_all add: field_storage_ok_def)
  have "0 < unat (f_element_size f)" using k by (simp add: unat_gt_0)
  then have "?n \<le> length bytes" using bytes(3) by (cases "unat (f_element_size f)") simp_all
  then have small: "?n < 2 ^ 64" using bytes(2) by simp
  then have n: "unat ?N = ?n" using element_count_row_major [OF lay(1,2)] by (simp add: unat_word_of_nat_64)
  have pos: "0 < ?n" using lay(3) by (metis image_iff list.set_map neq0_conv prod_list_zero_iff unat_eq_zero)
  then have N: "?N \<noteq> 0" using n by auto
  show "res \<noteq> SIM_RESULT_OK \<Longrightarrow> f' = f" "res = SIM_RESULT_OK \<Longrightarrow> f_element_size f = 16 \<Longrightarrow> f' = f"
    using assms(3) ok(1) bytes(1)
    by (auto simp: sim_field_promote_inplace_to_complex_def Let_def split: if_splits)
  assume res: "res = SIM_RESULT_OK" and real: "f_element_size f \<noteq> 16"
  let ?grant = "case al_allocate (f_allocator f) of None \<Rightarrow> h | Some a \<Rightarrow> a"
  define g where "g = f\<lparr>f_allocator := (if f_owns_data f then (f_allocator f)\<lparr>al_release := True\<rparr>
      else f_allocator f), f_data := Some (promote_bytes (unat ?N) bytes), f_element_size := 16\<rparr>"
  have e8: "f_element_size f = 8" and grant: "?grant (unat (?N * 16))"
    and f': "f' = (set_complex_metadata g)\<lparr>f_owns_data := True, f_magic := SIM_FIELD_MAGIC\<rparr>"
    using assms(3) ok(1) bytes(1) res real N
    by (auto simp: sim_field_promote_inplace_to_complex_def g_def Let_def split: if_splits)
  have len: "length bytes = ?n * 8" using bytes(3) e8 by simp
  have "unat (?N * 16) = ?n * 16" using unat_mult_exact [of ?N 16] n len bytes(2) by simp
  moreover have "bounded_heap ?grant"
    using assms(2) ok(2) by (auto simp: field_storage_ok_def split: option.splits)
  ultimately have lim: "?n * 16 < 2 ^ 63" using grant by (auto simp: bounded_heap_def)
  have upd: "set_complex_metadata (g\<lparr>f_owns_data := True\<rparr>) = f'" "f_magic g = SIM_FIELD_MAGIC"
    using ok(1) by (simp_all add: f' g_def set_complex_metadata_def sim_field_representation_def Let_def)
  note meta = complex_metadata [of "g\<lparr>f_owns_data := True\<rparr>", unfolded upd(1)]
  have keep: "f_layout f' = f_layout f" "f_element_size f' = 16" "f_magic f' = SIM_FIELD_MAGIC"
    "f_data f' = Some (promote_bytes ?n bytes)" "f_scalar_domain f' = sim_scalar_domain_c64"
    "al_allocate (f_allocator f') = al_allocate (f_allocator f)" "f_owns_data f'"
    by (simp_all add: f' g_def set_complex_metadata_def Let_def n)
  have "field_storage_ok f'"
    using ok(2) keep lim length_promote_bytes [OF len] by (simp add: field_storage_ok_def field_shape_def)
  then show "f_element_size f = 8 \<and> field_ok f' \<and> f_element_size f' = 16 \<and> f_layout f' = f_layout f \<and>
      f_data f' = Some (promote_bytes ?n (the (f_data f))) \<and>
      sim_field_representation_requires_complex_storage (sim_field_representation (Some f')) \<and>
      f_scalar_domain f' = sim_scalar_domain_c64 \<and> f_owns_data f'"
    using e8 keep meta upd(2) bytes(1) by (simp add: field_ok_def g_def)
qed

lemma promote_ok:
  assumes "field_ok f" "bounded_heap h"
    and "sim_field_promote_inplace_to_complex h (Some f) = (res, Some f')"
  shows "field_ok f'" "res = SIM_RESULT_OK \<Longrightarrow> f_element_size f' = 16"
  using promote_cases [OF assms] assms(1) by (metis, metis)

lemma set_complex_metadata_ok:
  assumes "field_ok f" "f_element_size f = 16"
  shows "field_ok (set_complex_metadata f)"
proof -
  have "field_storage_ok (set_complex_metadata f)"
    using assms(1) by (auto simp: field_ok_def set_complex_metadata_def Let_def intro: field_storage_ok_cong)
  then show ?thesis using complex_metadata(1) [of f] assms
    by (simp add: field_ok_def) (simp add: set_complex_metadata_def Let_def)
qed

lemma require_complex_ok:
  assumes "field_ok f" "bounded_heap h" "sim_field_require_complex h (Some f) = (res, Some f')"
  shows "field_ok f'" "res = SIM_RESULT_OK \<Longrightarrow> f_element_size f' = 16 \<and>
    f_scalar_domain f' = sim_scalar_domain_c64"
proof -
  let ?p = "if sim_field_storage_is_complex (Some f) then (SIM_RESULT_OK, Some f)
            else sim_field_promote_inplace_to_complex h (Some f)"
  obtain r g where p: "?p = (r, g)" by (cases ?p) auto
  have some: "\<exists>g'. g = Some g'" using p
    by (auto simp: sim_field_promote_inplace_to_complex_def Let_def split: if_splits)
  then obtain g' where g: "g = Some g'" by blast
  have gok: "field_ok g'" "r = SIM_RESULT_OK \<Longrightarrow> f_element_size g' = 16"
    using p g assms(1) promote_ok [OF assms(1,2), of r g'] by (auto split: if_splits)
  have cases: "f' = f \<and> res \<noteq> SIM_RESULT_OK \<or> f' = g' \<and> res \<noteq> SIM_RESULT_OK \<or>
      r = SIM_RESULT_OK \<and> f' = set_complex_metadata g'"
    using assms(3) p g unfolding sim_field_require_complex_def by (auto split: if_splits prod.splits)
  show "field_ok f'" using cases gok assms(1) set_complex_metadata_ok by metis
  show "res = SIM_RESULT_OK \<Longrightarrow> f_element_size f' = 16 \<and> f_scalar_domain f' = sim_scalar_domain_c64"
    using cases gok(2) by (auto simp: set_complex_metadata_def Let_def)
qed

section \<open>Reachable fields\<close>

lemma typed_constructor_ok:
  assumes "typed_constructor field d build = (SIM_RESULT_OK, Some f)"
    and "\<And>g. build (sim_field_element_size_for_scalar_domain d) = (SIM_RESULT_OK, Some g) \<Longrightarrow> field_ok g"
    and "\<And>k. fst (build k) = SIM_RESULT_OK \<Longrightarrow> snd (build k) \<noteq> None"
  shows "field_ok f \<and> f_scalar_domain f = d"
proof -
  let ?k = "sim_field_element_size_for_scalar_domain d"
  obtain g where build: "build ?k = (SIM_RESULT_OK, Some g)"
    using assms(1) assms(3) [of ?k]
    by (cases "build ?k") (auto simp: typed_constructor_def Let_def split: if_splits)
  then have "sim_field_set_scalar_domain (Some g) d = (SIM_RESULT_OK, Some f)"
    using assms(1) by (auto simp: typed_constructor_def Let_def split: if_splits prod.splits)
  from set_scalar_domain_ok [OF assms(2) [OF build] this] show ?thesis by simp
qed

text \<open>
  Fields within the limits of the representation: built by one of the constructors under conditions
  that the constructors do not check, and then changed by the operations of the interface, successful or
  not. The conditions: the true element count of the shape is below \<open>2^64\<close>, so that the product
  \<^verbatim>\<open>sim_field_element_count\<close> computes does not wrap (\<open>field_init_count_wraps\<close> below has a field that
  breaks the invariant without it); an allocator of the caller is bounded like the default one; and a wrapped
  field has a row-major layout and caller storage of exactly the size its shape and elements ask for, which
  only the caller knows.
\<close>

inductive field_within_limits :: "heap \<Rightarrow> SimField \<Rightarrow> bool" for h where
  init: "sim_field_init h (Some f0) rank (Some ds) k storage allocator = (SIM_RESULT_OK, Some f) \<Longrightarrow>
    rank \<le> length ds \<Longrightarrow> prod_list (extents (take rank ds)) < 2 ^ 64 \<Longrightarrow>
    (\<And>al a. allocator = Some al \<Longrightarrow> al_allocate al = Some a \<Longrightarrow> bounded_heap a) \<Longrightarrow>
    field_within_limits h f"
| init_typed: "sim_field_init_typed h (Some f0) rank (Some ds) d storage allocator =
      (SIM_RESULT_OK, Some f) \<Longrightarrow>
    rank \<le> length ds \<Longrightarrow> prod_list (extents (take rank ds)) < 2 ^ 64 \<Longrightarrow>
    (\<And>al a. allocator = Some al \<Longrightarrow> al_allocate al = Some a \<Longrightarrow> bounded_heap a) \<Longrightarrow>
    field_within_limits h f"
| wrap: "sim_field_wrap h (Some f0) (Some l) k storage (Some bytes) = (SIM_RESULT_OK, Some f) \<Longrightarrow>
    row_major_layout ds l \<Longrightarrow> 0 \<notin> set ds \<Longrightarrow> length bytes = prod_list (extents ds) * unat k \<Longrightarrow>
    length bytes < 2 ^ 63 \<Longrightarrow> field_within_limits h f"
| wrap_typed: "sim_field_wrap_typed h (Some f0) (Some l) d storage (Some bytes) =
      (SIM_RESULT_OK, Some f) \<Longrightarrow>
    row_major_layout ds l \<Longrightarrow> 0 \<notin> set ds \<Longrightarrow>
    length bytes = prod_list (extents ds) * unat (sim_field_element_size_for_scalar_domain d) \<Longrightarrow>
    length bytes < 2 ^ 63 \<Longrightarrow> field_within_limits h f"
| set_representation: "field_within_limits h f \<Longrightarrow>
    sim_field_set_representation (Some f) repr = (res, Some f') \<Longrightarrow> field_within_limits h f'"
| set_scalar_domain: "field_within_limits h f \<Longrightarrow>
    sim_field_set_scalar_domain (Some f) d = (res, Some f') \<Longrightarrow> field_within_limits h f'"
| promote: "field_within_limits h f \<Longrightarrow>
    sim_field_promote_inplace_to_complex h (Some f) = (res, Some f') \<Longrightarrow> field_within_limits h f'"
| require_complex: "field_within_limits h f \<Longrightarrow>
    sim_field_require_complex h (Some f) = (res, Some f') \<Longrightarrow> field_within_limits h f'"

lemma init_result_Some:
  "fst (sim_field_init h field rank (Some ds) k storage allocator) = SIM_RESULT_OK \<Longrightarrow>
   snd (sim_field_init h field rank (Some ds) k storage allocator) \<noteq> None"
  by (auto simp: sim_field_init_def Let_def split: if_splits prod.splits)

lemma wrap_result_Some:
  "fst (sim_field_wrap h field (Some l) k storage data) = SIM_RESULT_OK \<Longrightarrow>
   snd (sim_field_wrap h field (Some l) k storage data) \<noteq> None"
  by (auto simp: sim_field_wrap_def Let_def split: if_splits prod.splits option.splits)

lemma field_within_limits_ok:
  assumes "field_within_limits h f" "bounded_heap h"
  shows "field_ok f"
  using assms(1)
proof induction
  case (init f0 rank ds k storage allocator f)
  then show ?case using field_ok_init(1) assms(2) by blast
next
  case (init_typed f0 rank ds d storage allocator f)
  show ?case
  proof (rule conjunct1 [OF typed_constructor_ok])
    show "typed_constructor (Some f0) d
        (\<lambda>k. sim_field_init h (Some f0) rank (Some ds) k storage allocator) = (SIM_RESULT_OK, Some f)"
      using init_typed(1) by (simp add: sim_field_init_typed_def)
  next
    fix g assume "sim_field_init h (Some f0) rank (Some ds)
        (sim_field_element_size_for_scalar_domain d) storage allocator = (SIM_RESULT_OK, Some g)"
    then show "field_ok g" using field_ok_init(1) assms(2) init_typed(2-4) by blast
  qed (rule init_result_Some)
next
  case (wrap f0 l k storage bytes f ds)
  then show ?case using field_ok_wrap(1) by blast
next
  case (wrap_typed f0 l d storage bytes f ds)
  show ?case
  proof (rule conjunct1 [OF typed_constructor_ok])
    show "typed_constructor (Some f0) d
        (\<lambda>k. sim_field_wrap h (Some f0) (Some l) k storage (Some bytes)) = (SIM_RESULT_OK, Some f)"
      using wrap_typed(1) by (simp add: sim_field_wrap_typed_def)
  next
    fix g assume "sim_field_wrap h (Some f0) (Some l) (sim_field_element_size_for_scalar_domain d)
        storage (Some bytes) = (SIM_RESULT_OK, Some g)"
    then show "field_ok g" using field_ok_wrap(1) wrap_typed(2-5) by blast
  qed (rule wrap_result_Some)
next
  case (set_representation f repr res f')
  then show ?case using set_representation_ok(1) by blast
next
  case (set_scalar_domain f d res f')
  then show ?case using set_scalar_domain_ok(1) by blast
next
  case (promote f res f')
  then show ?case using promote_ok(1) assms(2) by blast
next
  case (require_complex f res f')
  then show ?case using require_complex_ok(1) assms(2) by blast
qed

section \<open>Addressing\<close>

definition field_index_valid :: "SimField \<Rightarrow> size_t list \<Rightarrow> bool" where
  "field_index_valid f is \<longleftrightarrow> length is = length (field_shape f) \<and>
     (\<exists>i. sim_field_element_index (Some f) (Some is) (length is) = Inr i)"

definition field_index_offset :: "SimField \<Rightarrow> size_t list \<Rightarrow> nat" where
  "field_index_offset f is = row_major (extents (field_shape f)) (extents is)"

lemma field_count_fits:
  assumes "field_ok f"
  shows "prod_list (extents (field_shape f)) < 2 ^ 63"
proof -
  obtain bytes where bytes: "f_data f = Some bytes" "length bytes < 2 ^ 63"
    "length bytes = prod_list (extents (field_shape f)) * unat (f_element_size f)"
    and "f_element_size f \<noteq> 0"
    using assms by (auto simp: field_ok_def field_storage_ok_def)
  then have "0 < unat (f_element_size f)" by (simp add: unat_gt_0)
  then have "prod_list (extents (field_shape f)) \<le> length bytes"
    using bytes(3) by (cases "unat (f_element_size f)") simp_all
  then show ?thesis using bytes(2) by linarith
qed

lemma field_count_unat:
  assumes "field_ok f"
  shows "unat (sim_field_element_count (f_layout f)) = prod_list (extents (field_shape f))"
proof -
  have "row_major_layout (field_shape f) (f_layout f)" "field_shape f \<noteq> []"
    using assms by (simp_all add: field_ok_def field_storage_ok_def)
  from element_count_row_major [OF this] show ?thesis
    using field_count_fits [OF assms] by (simp only:) (rule unat_word_of_nat_64, simp)
qed

lemma field_element_index:
  assumes "field_ok f" "length is = length (field_shape f)"
  shows "sim_field_element_index (Some f) (Some is) (length is) =
    (if in_box (extents (field_shape f)) (extents is)
     then Inr (word_of_nat (field_index_offset f is)) else Inl SIM_RESULT_INVALID_ARGUMENT)"
proof -
  let ?ds = "field_shape f"
  let ?ss = "map word_of_nat (row_major_strides (stride_extents ?ds)) :: size_t list"
  have lay: "row_major_layout ?ds (f_layout f)" "?ds \<noteq> []" "0 \<notin> set ?ds"
    using assms(1) by (simp_all add: field_ok_def field_storage_ok_def)
  have fit: "prod_list (extents ?ds) < 2 ^ 64" using field_count_fits [OF assms(1)] by simp
  have len: "length ?ds = length ?ss" by simp
  have ss: "extents ?ss = row_major_strides (extents ?ds)"
    using strides_bounded [OF fit] lay(3)
    by (simp add: image_iff unat_eq_0 unat_0_iff stride_extents_positive)
  have "layout_axes (f_layout f) = zip ?ds ?ss"
    using lay(1) by (simp add: row_major_layout_def layout_axes_def)
  then have "sim_field_element_index (Some f) (Some is) (length is) =
      (case indices_offset_loop 0 (zip is (zip ?ds ?ss)) of
         None \<Rightarrow> Inl SIM_RESULT_INVALID_ARGUMENT | Some offset \<Rightarrow> Inr offset)"
    using lay(1,2) assms(2) by (simp add: sim_field_element_index_def row_major_layout_def)
  then show ?thesis
    unfolding indices_offset_loop_exact [OF assms(2) len] ss field_index_offset_def
    using assms(2) by (simp add: dot_row_major_strides)
qed

interpretation field_store: addressing field_ok field_index_valid field_index_offset
  "\<lambda>f. prod_list (extents (field_shape f))"
proof
  fix f "is" js assume ok: "field_ok f" and i: "field_index_valid f is"
  have box: "in_box (extents (field_shape f)) (extents is)" if "field_index_valid f is" for "is"
    using that field_element_index [OF ok] by (auto simp: field_index_valid_def split: if_splits)
  show "field_index_offset f is < prod_list (extents (field_shape f))"
    using row_major_less [OF box [OF i]] by (simp add: field_index_offset_def)
  assume j: "field_index_valid f js" and eq: "field_index_offset f is = field_index_offset f js"
  have "extents is = extents js"
    using row_major_inj [OF box [OF i] box [OF j]] eq by (simp add: field_index_offset_def)
  then show "is = js" by (simp add: inj_map_eq_map [OF injI [of unat]] word_unat_eq_iff)
qed

section \<open>Properties\<close>

text \<open>A concrete allocator, and the field of two rows and three columns of doubles it gives.\<close>

definition demo_heap :: heap where
  "demo_heap k \<longleftrightarrow> k < 2 ^ 63"

lemma demo_heap_bounded: "bounded_heap demo_heap"
  by (simp add: bounded_heap_def demo_heap_def)

definition blank_field :: SimField where
  "blank_field = sim_field_reset undefined"

lemma blank_field_eq: "sim_field_reset f = blank_field"
  by (simp add: blank_field_def sim_field_reset_def)

definition demo_field :: "size_t \<Rightarrow> SimScalarDomain \<Rightarrow> SimField" where
  "demo_field k d = blank_field\<lparr>
     f_layout := \<lparr>lay_rank = 2, lay_shape = Some [2, 3], lay_strides = Some [3, 1], lay_contiguous = True\<rparr>,
     f_allocator := \<lparr>al_allocate = Some demo_heap, al_release = True\<rparr>,
     f_data := Some (replicate (6 * unat k) 0), f_element_size := k, f_repr := initial_repr k,
     f_scalar_domain := d, f_owns_data := True, f_magic := SIM_FIELD_MAGIC\<rparr>"

lemma demo_layout:
  "sim_field_layout_init demo_heap l 2 (Some [2, 3]) = (SIM_RESULT_OK,
     \<lparr>lay_rank = 2, lay_shape = Some [2, 3], lay_strides = Some [3, 1], lay_contiguous = True\<rparr>)"
  by (simp add: sim_field_layout_init_def calloc_ok_def demo_heap_def)

lemma demo_init:
  assumes "k = 8 \<or> k = 16"
  shows "sim_field_init demo_heap (Some blank_field) 2 (Some [2, 3]) k SIM_FIELD_STORAGE_ROW_MAJOR None =
    (SIM_RESULT_OK, Some (demo_field k (sim_field_default_scalar_domain k)))"
  using assms
  by (auto simp: sim_field_init_def demo_layout Let_def sim_field_element_count_def
      sim_field_allocator_default_def demo_heap_def demo_field_def blank_field_eq
      blank_field_def [unfolded sim_field_reset_def] sim_field_reset_def)

lemma demo_within_limits: "field_within_limits demo_heap (demo_field 8 sim_scalar_domain_f64)"
proof -
  have "sim_field_default_scalar_domain 8 = sim_scalar_domain_f64" by code_simp
  then show ?thesis
    using field_within_limits.init [OF demo_init [of 8]] by simp
qed

lemma demo_field_shape [simp]: "field_shape (demo_field k d) = [2, 3]"
  by (simp add: demo_field_def field_shape_def)

lemma demo_field_simps [simp]:
  "f_magic (demo_field k d) = SIM_FIELD_MAGIC" "f_element_size (demo_field k d) = k"
  "f_data (demo_field k d) = Some (replicate (6 * unat k) 0)"
  "f_layout (demo_field k d) =
     \<lparr>lay_rank = 2, lay_shape = Some [2, 3], lay_strides = Some [3, 1], lay_contiguous = True\<rparr>"
  "f_allocator (demo_field k d) = \<lparr>al_allocate = Some demo_heap, al_release = True\<rparr>"
  "f_repr (demo_field k d) = initial_repr k" "f_scalar_domain (demo_field k d) = d"
  by (simp_all add: demo_field_def)

text \<open>
  C21. A field built within the limits, that is by a constructor over a shape whose true element count is
  below \<open>2^64\<close>, with a bounded allocator, and, when it is wrapped, with a row-major layout and caller storage
  of the matching size, is live, and stays so under every sequence of the operations that set its representation or its scalar
  domain or promote it, whether they succeed or fail: its storage has exactly the bytes its shape and element
  size ask for, and its scalar domain fits the element size and agrees with its representation on being
  complex. Fields outside of the limits are not covered.
\<close>

theorem field_operations_preserve_invariant:
  assumes "field_within_limits h f" "bounded_heap h"
  shows "field_ok f \<and> (\<exists>bytes. sim_field_data (Some f) = Some bytes \<and>
    length bytes = unat (sim_field_bytes (Some f)) \<and>
    length bytes = prod_list (extents (field_shape f)) * unat (f_element_size f))"
proof -
  have ok: "field_ok f" by (rule field_within_limits_ok [OF assms])
  then obtain bytes where magic: "f_magic f = SIM_FIELD_MAGIC" and bytes: "f_data f = Some bytes"
    "length bytes < 2 ^ 63" "length bytes = prod_list (extents (field_shape f)) * unat (f_element_size f)"
    and lay: "row_major_layout (field_shape f) (f_layout f)" "field_shape f \<noteq> []"
    by (auto simp: field_ok_def field_storage_ok_def)
  have "unat (sim_field_element_count (f_layout f)) = prod_list (extents (field_shape f))"
    by (rule field_count_unat [OF ok])
  then have "unat (sim_field_bytes (Some f)) = length bytes"
    using bytes(2,3) magic by (simp add: sim_field_bytes_def unat_mult_exact)
  then show ?thesis using ok bytes magic by (simp add: sim_field_data_def)
qed

theorem field_operations_preserve_invariant_witness:
  "field_within_limits demo_heap (demo_field 8 sim_scalar_domain_f64) \<and> bounded_heap demo_heap \<and>
   field_ok (demo_field 8 sim_scalar_domain_f64)"
  using field_operations_preserve_invariant [OF demo_within_limits demo_heap_bounded] demo_within_limits
    demo_heap_bounded by blast

lemma demo_field_ok: "field_ok (demo_field 8 sim_scalar_domain_f64)"
  by (rule field_within_limits_ok [OF demo_within_limits demo_heap_bounded])

text \<open>
  C30. In a live field the checked index computation accepts exactly the multi-indices below the shape
  and gives their row-major position; the element's bytes lie inside the storage, and the elements of
  different indices do not overlap.
\<close>

theorem field_addressing:
  assumes "field_ok f" "length is = length (field_shape f)"
  defines "k \<equiv> unat (f_element_size f)"
  shows "sim_field_element_index (Some f) (Some is) (length is) =
      (if in_box (extents (field_shape f)) (extents is)
       then Inr (word_of_nat (row_major (extents (field_shape f)) (extents is)))
       else Inl SIM_RESULT_INVALID_ARGUMENT) \<and>
    (in_box (extents (field_shape f)) (extents is) \<longrightarrow>
       (\<exists>offset. sim_field_index_offset (Some f) (Some is) = Inr offset \<and>
          unat offset = row_major (extents (field_shape f)) (extents is) * k \<and>
          unat offset + k \<le> length (the (f_data f)) \<and>
          (\<forall>js offset'. field_index_valid f js \<and> js \<noteq> is \<and>
             sim_field_index_offset (Some f) (Some js) = Inr offset' \<longrightarrow>
             {unat offset ..< unat offset + k} \<inter> {unat offset' ..< unat offset' + k} = {})))"
proof -
  note index = field_element_index [OF assms(1)]
  obtain bytes where bytes: "f_data f = Some bytes" "length bytes < 2 ^ 63"
    "length bytes = prod_list (extents (field_shape f)) * k" and
    lay: "row_major_layout (field_shape f) (f_layout f)"
    using assms(1) by (auto simp: field_ok_def field_storage_ok_def k_def)
  have off: "\<exists>offset. sim_field_index_offset (Some f) (Some js) = Inr offset \<and>
      unat offset = field_index_offset f js * k" if v: "field_index_valid f js" for js
  proof -
    have len: "length js = length (field_shape f)" using v by (simp add: field_index_valid_def)
    then have "sim_field_element_index (Some f) (Some js) (lay_rank (f_layout f)) =
        Inr (word_of_nat (field_index_offset f js))"
      using v index [OF len] lay by (auto simp: field_index_valid_def row_major_layout_def split: if_splits)
    moreover have "field_index_offset f js * k + k \<le> length bytes"
      unfolding bytes(3) by (rule field_store.element_bytes_bound [OF assms(1) v])
    moreover have "unat (word_of_nat (field_index_offset f js) :: size_t) = field_index_offset f js"
      using field_store.offset_bound [OF assms(1) v] field_count_fits [OF assms(1)]
      by (intro unat_word_of_nat_64) simp
    ultimately show ?thesis using bytes(2)
      unat_mult_exact [of "word_of_nat (field_index_offset f js)" "f_element_size f"]
      by (simp add: sim_field_index_offset_def k_def)
  qed
  have valid: "field_index_valid f is \<longleftrightarrow> in_box (extents (field_shape f)) (extents is)"
    using index [OF assms(2)] assms(2) by (simp add: field_index_valid_def)
  have "\<exists>offset. sim_field_index_offset (Some f) (Some is) = Inr offset \<and>
      unat offset = field_index_offset f is * k \<and> unat offset + k \<le> length bytes \<and>
      (\<forall>js offset'. field_index_valid f js \<and> js \<noteq> is \<and>
         sim_field_index_offset (Some f) (Some js) = Inr offset' \<longrightarrow>
         {unat offset ..< unat offset + k} \<inter> {unat offset' ..< unat offset' + k} = {})"
    if box: "in_box (extents (field_shape f)) (extents is)"
  proof -
    have v: "field_index_valid f is" using valid box by simp
    obtain offset where o: "sim_field_index_offset (Some f) (Some is) = Inr offset"
      "unat offset = field_index_offset f is * k" using off [OF v] by blast
    have "{unat offset ..< unat offset + k} \<inter> {unat offset' ..< unat offset' + k} = {}"
      if js: "field_index_valid f js" "js \<noteq> is" "sim_field_index_offset (Some f) (Some js) = Inr offset'"
      for js offset'
      using off [OF js(1)] js(3) field_store.elements_disjoint [OF assms(1) v js(1), of k] js(2) o(2) by auto
    moreover have "unat offset + k \<le> length bytes"
      unfolding o(2) bytes(3) by (rule field_store.element_bytes_bound [OF assms(1) v])
    ultimately show ?thesis using o by blast
  qed
  then show ?thesis using index [OF assms(2)] bytes(1) by (simp add: field_index_offset_def)
qed

theorem field_addressing_witness:
  "sim_field_index_offset (Some (demo_field 8 sim_scalar_domain_f64)) (Some [1, 2]) = Inr 40"
proof -
  let ?f = "demo_field 8 sim_scalar_domain_f64"
  have len: "length [1, 2 :: size_t] = length (field_shape ?f)" by simp
  have "f_element_size ?f = 8" by (simp add: demo_field_def)
  with field_addressing [OF demo_field_ok len] obtain offset where
    "sim_field_index_offset (Some ?f) (Some [1, 2]) = Inr offset" "unat offset = 40" by auto
  moreover from this(2) have "offset = 40" by (simp add: word_unat_eq_iff)
  ultimately show ?thesis by simp
qed

section \<open>Planar coordinates\<close>

lemma field_plane:
  assumes "field_ok f" "length (field_shape f) \<noteq> 1"
  obtains pre H W where "field_shape f = pre @ [H, W]" "0 < H" "0 < W"
    "lay_rank (f_layout f) = length pre + 2" "lay_shape (f_layout f) = Some (pre @ [H, W])"
    "the (lay_strides (f_layout f)) ! (length pre + 1) = 1"
    "the (lay_strides (f_layout f)) ! length pre = W"
    "sim_field_width (Some f) = W" "sim_field_height (Some f) = H"
    "unat H * unat W \<le> unat (sim_field_element_count (f_layout f))" "unat H * unat W < 2 ^ 63"
proof -
  let ?ds = "field_shape f"
  have lay: "row_major_layout ?ds (f_layout f)" "?ds \<noteq> []" "0 \<notin> set ?ds" and magic: "f_magic f = SIM_FIELD_MAGIC"
    using assms(1) by (simp_all add: field_ok_def field_storage_ok_def)
  obtain ds' W where d1: "?ds = ds' @ [W]" using lay(2) by (metis rev_exhaust)
  then obtain pre H where "ds' = pre @ [H]" using assms(2) by (metis append_Nil length_Cons list.size(3)
        One_nat_def rev_exhaust)
  then have ds: "?ds = pre @ [H, W]" using d1 by simp
  have pos: "0 < H" "0 < W" using lay(3) ds by (auto simp: word_gt_0)
  have st: "lay_strides (f_layout f) = Some (map word_of_nat (row_major_strides (extents (pre @ [H] @ [W]))))"
    using lay(1,3) ds by (simp add: row_major_layout_def stride_extents_positive del: stride_extents_simps)
  have strides: "row_major_strides (extents (pre @ [H] @ [W])) =
      map (\<lambda>s. s * unat H * unat W) (row_major_strides (extents pre)) @ [unat W, 1]"
    using row_major_strides_snoc [of "extents (pre @ [H])" "unat W"]
      row_major_strides_snoc [of "extents pre" "unat H"] by (simp add: comp_def)
  have r: "lay_rank (f_layout f) = length pre + 2" "lay_shape (f_layout f) = Some (pre @ [H, W])"
    using lay(1) ds by (simp_all add: row_major_layout_def)
  have "unat (sim_field_element_count (f_layout f)) = prod_list (extents pre) * (unat H * unat W)"
    using field_count_unat [OF assms(1)] ds by simp
  moreover have "0 < prod_list (extents pre)"
    using lay(3) ds by (metis Un_iff image_iff list.set_map neq0_conv prod_list_zero_iff set_append unat_eq_zero)
  ultimately have count: "unat H * unat W \<le> unat (sim_field_element_count (f_layout f))"
    by (cases "prod_list (extents pre)") simp_all
  moreover have "unat (sim_field_element_count (f_layout f)) < 2 ^ 63"
    using field_count_unat [OF assms(1)] field_count_fits [OF assms(1)] by simp
  ultimately have "unat H * unat W < 2 ^ 63" by (rule le_less_trans)
  then show ?thesis
    using that [OF ds pos r] st strides count magic r
    by (simp add: nth_append sim_field_width_def sim_field_height_def)
qed

lemma field_line:
  assumes "field_ok f" "length (field_shape f) = 1"
  obtains W where "field_shape f = [W]" "0 < W" "lay_rank (f_layout f) = 1"
    "lay_shape (f_layout f) = Some [W]" "lay_strides (f_layout f) = Some [1]"
    "sim_field_width (Some f) = W" "sim_field_height (Some f) = 1"
    "sim_field_element_count (f_layout f) = W"
proof -
  obtain W where ds: "field_shape f = [W]" using assms(2) by (metis One_nat_def length_0_conv length_Suc_conv)
  have "row_major_layout [W] (f_layout f)" "W \<noteq> 0" "f_magic f = SIM_FIELD_MAGIC"
    using assms(1) ds by (auto simp: field_ok_def field_storage_ok_def)
  then show ?thesis using that [OF ds]
    by (simp add: row_major_layout_def word_gt_0 sim_field_width_def sim_field_height_def
        element_count_row_major [of "[W]"])
qed

text \<open>
  C38. Planar coordinates: the coordinates of a flat index lie inside the width and height, and lead
  back to the index within its plane; in the other direction, the index of in-range coordinates has
  exactly those coordinates.
\<close>

theorem field_xy_roundtrip:
  assumes "field_ok f"
  shows "(\<forall>i x y. sim_field_index_to_xy (Some f) i = Inr (x, y) \<longrightarrow>
      x < sim_field_width (Some f) \<and> y < sim_field_height (Some f) \<and>
      (\<exists>j. sim_field_xy_to_index (Some f) x y = Inr j \<and>
         unat j = unat i mod (unat (sim_field_width (Some f)) * unat (sim_field_height (Some f))))) \<and>
    (\<forall>x y j. sim_field_xy_to_index (Some f) x y = Inr j \<longrightarrow>
      sim_field_index_to_xy (Some f) j = Inr (x, y))"
proof (cases "length (field_shape f) = 1")
  case True
  obtain W where "field_shape f = [W]" and W: "0 < W" "lay_rank (f_layout f) = 1"
    "lay_shape (f_layout f) = Some [W]" "lay_strides (f_layout f) = Some [1]"
    "sim_field_width (Some f) = W" "sim_field_height (Some f) = 1"
    "sim_field_element_count (f_layout f) = W"
    using field_line [OF assms True] by blast
  then show ?thesis using assms
    by (auto simp: sim_field_index_to_xy_def sim_field_xy_to_index_def field_ok_def Let_def
        word_less_nat_alt word_le_nat_alt not_le split: if_splits)
next
  case False
  obtain pre H W where "field_shape f = pre @ [H, W]" and pos: "0 < H" "0 < W" and
    l: "lay_rank (f_layout f) = length pre + 2" "lay_shape (f_layout f) = Some (pre @ [H, W])"
    "the (lay_strides (f_layout f)) ! (length pre + 1) = 1"
    "the (lay_strides (f_layout f)) ! length pre = W" and
    w: "sim_field_width (Some f) = W" "sim_field_height (Some f) = H" and
    c: "unat H * unat W \<le> unat (sim_field_element_count (f_layout f))" "unat H * unat W < 2 ^ 63"
    using field_plane [OF assms False] by blast
  have magic: "f_magic f = SIM_FIELD_MAGIC" and st: "lay_strides (f_layout f) \<noteq> None"
    using assms by (auto simp: field_ok_def field_storage_ok_def row_major_layout_def)
  have to_xy: "sim_field_index_to_xy (Some f) i =
      (if i < sim_field_element_count (f_layout f) then Inr (i mod W, (i div W) mod H)
       else Inl SIM_RESULT_INVALID_ARGUMENT)" for i
    using magic st l pos
    by (auto simp: sim_field_index_to_xy_def Let_def nth_append word_gt_0 not_le not_less)
  have to_index: "sim_field_xy_to_index (Some f) x y =
      (if x < W \<and> y < H then Inr (x + y * W) else Inl SIM_RESULT_INVALID_ARGUMENT)" for x y
    using magic st l pos
    by (auto simp: sim_field_xy_to_index_def Let_def nth_append word_gt_0 not_le not_less)
  have exact: "unat (x + y * W) = unat x + unat y * unat W \<and> unat (x + y * W) < unat H * unat W"
    if "x < W" "y < H" for x y
  proof -
    have less: "unat x + unat y * unat W < unat H * unat W"
      using that block_before [of "unat y" "unat H" "unat W"] by (simp add: word_less_nat_alt)
    then have "unat (y * W) = unat y * unat W" using c(2) by (intro unat_mult_exact) simp
    then show ?thesis using less c(2) unat_add_exact [of x "y * W"] by simp
  qed
  have fwd: "i mod W < W \<and> (i div W) mod H < H \<and>
      unat (i mod W + (i div W) mod H * W) = unat i mod (unat W * unat H)" for i
    using exact [of "i mod W" "(i div W) mod H"] pos mod_mult2_eq [of "unat i" "unat W" "unat H"]
    by (simp add: word_less_nat_alt unat_mod unat_div mult.commute add.commute)
  have bwd: "(x + y * W) mod W = x \<and> ((x + y * W) div W) mod H = y \<and>
      x + y * W < sim_field_element_count (f_layout f)" if "x < W" "y < H" for x y
    using exact [OF that] c(1) that
    by (simp add: word_unat_eq_iff unat_mod unat_div word_less_nat_alt)
  show ?thesis unfolding w to_xy to_index using fwd bwd by (auto split: if_splits)
qed

theorem field_xy_roundtrip_witness:
  "sim_field_index_to_xy (Some (demo_field 8 sim_scalar_domain_f64)) 5 = Inr (2, 1)"
proof -
  have "sim_field_xy_to_index (Some (demo_field 8 sim_scalar_domain_f64)) 2 1 = Inr 5"
    by (simp add: sim_field_xy_to_index_def demo_field_def word_le_nat_alt)
  with field_xy_roundtrip [OF demo_field_ok] show ?thesis by blast
qed

section \<open>Promotion and metadata\<close>

text \<open>When the test of the source and the allocation let a live field pass.\<close>

lemma source_promotable:
  assumes "f_magic f = SIM_FIELD_MAGIC" "f_element_size f = 8 \<or> f_element_size f = 16"
  shows "promotable_source (sim_field_promotion_source_domain (Some f))"
proof -
  have "promotable_source (sim_field_default_scalar_domain 8)" "promotable_source (sim_field_default_scalar_domain 16)"
    by code_simp+
  with assms show ?thesis
    by (auto simp: sim_field_promotion_source_domain_def sim_field_storage_scalar_domain_def Let_def
        sim_scalar_domain_from_field_representation_def promotable_source_def scalar_domain_consts)
qed

definition promotion_granted :: "heap \<Rightarrow> SimField \<Rightarrow> bool" where
  "promotion_granted h f \<longleftrightarrow>
     (case al_allocate (f_allocator f) of None \<Rightarrow> h | Some a \<Rightarrow> a)
       (unat (sim_field_element_count (f_layout f) * 16))"

lemma require_complex_succeeds:
  assumes "field_ok f" "sim_field_require_complex h (Some f) = (res, out)"
  shows "res = SIM_RESULT_OK \<longleftrightarrow> f_element_size f = 16 \<or> f_element_size f = 8 \<and> promotion_granted h f"
proof -
  have ok: "f_magic f = SIM_FIELD_MAGIC" "f_data f \<noteq> None" "lay_contiguous (f_layout f)"
    using assms(1) by (auto simp: field_ok_def field_storage_ok_def row_major_layout_def)
  have "0 < prod_list (extents (field_shape f))"
    using assms(1) by (auto simp: field_ok_def field_storage_ok_def prod_list_zero_iff image_iff unat_eq_zero
        intro!: gr0I)
  then have "sim_field_element_count (f_layout f) \<noteq> 0" using field_count_unat [OF assms(1)] by (auto simp: unat_eq_zero)
  then show ?thesis
    using assms(2) ok source_promotable [OF ok(1)]
    by (auto simp: sim_field_require_complex_def sim_field_promote_inplace_to_complex_def promotion_granted_def
        Let_def split: if_splits)
qed

text \<open>
  C37. Requiring complex storage of a live field whose domain is real or complex succeeds exactly when it is
  complex already, or has elements of eight bytes and the memory is granted; else it leaves the field as it
  was. On success the field is live, of the same shape, with sixteen-byte elements and the complex scalar
  domain; each element of a real field has become the complex number with the old double as its real part
  and a zero imaginary part, and a field that already was complex keeps its bytes. Fields of other domains
  are left out: those of 64-bit integers are not converted, see the end of this theory.
\<close>

theorem require_complex_correct:
  assumes "field_ok f" "bounded_heap h" "sim_field_require_complex h (Some f) = (res, Some f')"
    and "sd_kind (f_scalar_domain f) = SIM_SCALAR_DOMAIN_REAL \<or> sd_kind (f_scalar_domain f) = SIM_SCALAR_DOMAIN_COMPLEX"
  shows "field_ok f' \<and>
    (res = SIM_RESULT_OK \<longleftrightarrow> f_element_size f = 16 \<or> f_element_size f = 8 \<and> promotion_granted h f) \<and>
    (if res \<noteq> SIM_RESULT_OK then f' = f
     else f_layout f' = f_layout f \<and> f_element_size f' = 16 \<and>
       f_scalar_domain f' = sim_scalar_domain_c64 \<and>
       sim_field_representation_requires_complex_storage (sim_field_representation (Some f')) \<and>
       (if f_element_size f = 16 then f_data f' = f_data f
        else \<forall>i < unat (sim_field_element_count (f_layout f)).
          take 16 (drop (i * 16) (the (f_data f'))) =
          take 8 (drop (i * 8) (the (f_data f))) @ replicate 8 0))"
proof -
  have ok: "f_magic f = SIM_FIELD_MAGIC" "f_data f \<noteq> None"
    using assms(1) by (auto simp: field_ok_def field_storage_ok_def)
  let ?p = "sim_field_promote_inplace_to_complex h (Some f)"
  have "field_ok f' \<and>
    (if res \<noteq> SIM_RESULT_OK then f' = f
     else f_layout f' = f_layout f \<and> f_element_size f' = 16 \<and>
       f_scalar_domain f' = sim_scalar_domain_c64 \<and>
       sim_field_representation_requires_complex_storage (sim_field_representation (Some f')) \<and>
       (if f_element_size f = 16 then f_data f' = f_data f
        else \<forall>i < unat (sim_field_element_count (f_layout f)).
          take 16 (drop (i * 16) (the (f_data f'))) =
          take 8 (drop (i * 8) (the (f_data f))) @ replicate 8 0))"
  proof (cases "f_element_size f = 16 \<or> res \<noteq> SIM_RESULT_OK")
    case True
    have "res \<noteq> SIM_RESULT_OK \<Longrightarrow> f' = f"
      using assms(3) ok promote_cases(1) [OF assms(1,2)]
      by (auto simp: sim_field_require_complex_def split: if_splits prod.splits)
    moreover have "f' = set_complex_metadata f" if "res = SIM_RESULT_OK"
      using assms(3) ok True that by (auto simp: sim_field_require_complex_def split: if_splits prod.splits)
    ultimately show ?thesis
      using require_complex_ok [OF assms(1-3)] complex_metadata(2) [OF ok(1)] True
      by (auto simp: set_complex_metadata_def Let_def)
  next
    case False
    obtain g where p: "?p = (SIM_RESULT_OK, Some g)" and f': "f' = set_complex_metadata g"
    proof -
      obtain r g0 where "?p = (r, g0)" by (cases ?p) auto
      moreover from this have "g0 \<noteq> None"
        by (auto simp: sim_field_promote_inplace_to_complex_def Let_def split: if_splits)
      ultimately show ?thesis using that assms(3) ok False
        by (auto simp: sim_field_require_complex_def split: if_splits)
    qed
    note g = promote_cases(3) [OF assms(1,2) p refl]
    let ?n = "prod_list (extents (field_shape f))"
    have e8: "f_element_size f = 8" using g False by simp
    obtain bytes where bytes: "f_data f = Some bytes" "length bytes = ?n * 8"
      using assms(1) e8 by (auto simp: field_ok_def field_storage_ok_def)
    have keep: "f_layout f' = f_layout f" "f_data f' = Some (promote_bytes ?n bytes)"
      using g False bytes(1) by (simp_all add: f' set_complex_metadata_def Let_def)
    have "f_magic g = SIM_FIELD_MAGIC" "f_element_size g = 16" using g False by (auto simp: field_ok_def)
    from complex_metadata(2) [OF this]
    have "sim_field_representation_requires_complex_storage (sim_field_representation (Some f'))"
      by (simp add: f')
    then show ?thesis
      using require_complex_ok [OF assms(1-3)] False keep promote_bytes_element [OF bytes(2)]
        field_count_unat [OF assms(1)] bytes(1) by simp
  qed
  then show ?thesis using require_complex_succeeds [OF assms(1,3)] by simp
qed

theorem require_complex_correct_witness:
  "\<exists>f'. sim_field_require_complex demo_heap (Some (demo_field 8 sim_scalar_domain_f64)) =
     (SIM_RESULT_OK, Some f') \<and> field_ok f' \<and> f_element_size f' = 16"
proof -
  let ?f = "demo_field 8 sim_scalar_domain_f64"
  have src: "sim_field_promotion_source_domain (Some ?f) = sim_scalar_domain_f64"
    by (simp add: sim_field_promotion_source_domain_def sim_field_representation_def
        sim_scalar_domain_from_field_representation_def initial_repr_def sim_scalar_domain_f64_def
        sim_scalar_domain_make_def)
  have real: "promotable_source sim_scalar_domain_f64" by code_simp
  obtain g where "sim_field_promote_inplace_to_complex demo_heap (Some ?f) = (SIM_RESULT_OK, Some g)"
    by (simp add: sim_field_promote_inplace_to_complex_def src real Let_def
        sim_field_element_count_def demo_heap_def)
  then obtain f' where r: "sim_field_require_complex demo_heap (Some ?f) = (SIM_RESULT_OK, Some f')"
    by (simp add: sim_field_require_complex_def src real)
  have "sd_kind (f_scalar_domain ?f) = SIM_SCALAR_DOMAIN_REAL" by (simp add: scalar_domain_consts)
  with require_complex_correct [OF demo_field_ok demo_heap_bounded r] r show ?thesis by simp
qed

lemma unat_ucast_16_64: "unat (ucast (w :: u16) :: 64 word) = unat w"
proof -
  have "unat w < 2 ^ LENGTH(16)" by (rule unsigned_less)
  then have "unat w < 2 ^ 64" by simp
  then show ?thesis by (simp add: unsigned_ucast_eq take_bit_nat_eq_self)
qed

text \<open>
  A representation is accepted exactly when its domain is physical or spectral, its value kind is
  known, the spectral-only constraint and the ban on real spectral data are met, and it needs complex
  storage exactly when the field has it; an accepted representation is what the field reports
  afterwards, a rejected one changes nothing.
\<close>

theorem set_representation_exact:
  assumes "field_ok f" "sim_field_set_representation (Some f) repr = (res, Some f')"
  shows "field_ok f' \<and>
    (res = SIM_RESULT_OK \<longleftrightarrow>
      (repr_domain repr = SIM_FIELD_DOMAIN_PHYSICAL \<or> repr_domain repr = SIM_FIELD_DOMAIN_SPECTRAL) \<and>
      repr_value_kind repr \<noteq> SIM_FIELD_VALUE_UNKNOWN \<and>
      \<not> (repr_value_kind repr = SIM_FIELD_VALUE_COMPLEX_REAL_CONSTRAINT \<and>
         repr_domain repr \<noteq> SIM_FIELD_DOMAIN_SPECTRAL) \<and>
      \<not> (repr_domain repr = SIM_FIELD_DOMAIN_SPECTRAL \<and>
         repr_value_kind repr = SIM_FIELD_VALUE_REAL_SCALAR) \<and>
      (sim_field_representation_requires_complex_storage repr \<longleftrightarrow> f_element_size f = 16)) \<and>
    (if res = SIM_RESULT_OK then sim_field_representation (Some f') = repr else f' = f)"
proof -
  note ok = set_representation_ok [OF assms]
  have magic: "f_magic f = SIM_FIELD_MAGIC" using assms(1) by (simp add: field_ok_def)
  have res: "res = sim_field_validate_representation (Some f) repr"
    using assms(2) magic by (auto simp: sim_field_set_representation_def Let_def split: if_splits)
  have key: "sim_scalar_domain_is_complex (f_scalar_domain f) \<longleftrightarrow> f_element_size f = 16"
    if "sd_kind (f_scalar_domain f) \<noteq> SIM_SCALAR_DOMAIN_UNKNOWN"
  proof -
    have m: "sim_field_storage_matches_scalar_domain (f_element_size f) (f_scalar_domain f)"
      "sim_scalar_domain_is_complex (f_scalar_domain f) =
        sim_field_representation_requires_complex_storage (sim_field_representation (Some f))"
      using assms(1) that by (auto simp: field_ok_def field_metadata_ok_def)
    show ?thesis
    proof
      assume k: "f_element_size f = 16"
      show "sim_scalar_domain_is_complex (f_scalar_domain f)"
      proof (rule ccontr)
        assume "\<not> sim_scalar_domain_is_complex (f_scalar_domain f)"
        moreover from this m(1) k have "ucast (sd_bit_width (f_scalar_domain f)) = (128 :: 64 word)"
          using that by (auto simp: sim_field_storage_matches_scalar_domain_def
              sim_scalar_domain_is_complex_def split: if_splits SimScalarDomainKind.splits)
        then have "unat (sd_bit_width (f_scalar_domain f)) = 128"
          using unat_ucast_16_64 [of "sd_bit_width (f_scalar_domain f)"] by simp
        ultimately show False using m(1)
          by (auto simp: sim_field_storage_matches_scalar_domain_def sim_scalar_domain_validate_def
              word_le_nat_alt split: if_splits SimScalarDomainKind.splits)
      qed
    qed (use m(1) in \<open>simp add: sim_field_storage_matches_scalar_domain_def
          sim_scalar_domain_is_complex_def split: if_splits\<close>)
  qed
  have "res = SIM_RESULT_OK \<longleftrightarrow>
      (repr_domain repr = SIM_FIELD_DOMAIN_PHYSICAL \<or> repr_domain repr = SIM_FIELD_DOMAIN_SPECTRAL) \<and>
      repr_value_kind repr \<noteq> SIM_FIELD_VALUE_UNKNOWN \<and>
      \<not> (repr_value_kind repr = SIM_FIELD_VALUE_COMPLEX_REAL_CONSTRAINT \<and>
         repr_domain repr \<noteq> SIM_FIELD_DOMAIN_SPECTRAL) \<and>
      \<not> (repr_domain repr = SIM_FIELD_DOMAIN_SPECTRAL \<and>
         repr_value_kind repr = SIM_FIELD_VALUE_REAL_SCALAR) \<and>
      (sim_field_representation_requires_complex_storage repr \<longleftrightarrow> f_element_size f = 16)"
    unfolding res validate_representation_iff [OF magic]
      sim_field_value_kind_has_spectral_real_constraint_def using key by blast
  then show ?thesis using ok by (simp only: split: if_split) blast
qed

theorem set_representation_exact_witness:
  "sim_field_set_representation (Some (demo_field 8 sim_scalar_domain_f64))
     \<lparr>repr_domain = SIM_FIELD_DOMAIN_SPECTRAL, repr_value_kind = SIM_FIELD_VALUE_REAL_SCALAR\<rparr> =
   (SIM_RESULT_TYPE_MISMATCH, Some (demo_field 8 sim_scalar_domain_f64))"
proof -
  let ?f = "demo_field 8 sim_scalar_domain_f64"
  let ?r = "\<lparr>repr_domain = SIM_FIELD_DOMAIN_SPECTRAL, repr_value_kind = SIM_FIELD_VALUE_REAL_SCALAR\<rparr>"
  have "sim_field_validate_representation (Some ?f) ?r = SIM_RESULT_TYPE_MISMATCH"
    by (simp add: sim_field_validate_representation_def Let_def
        sim_field_value_kind_has_spectral_real_constraint_def)
  then obtain f' where s: "sim_field_set_representation (Some ?f) ?r = (SIM_RESULT_TYPE_MISMATCH, Some f')"
    by (simp add: sim_field_set_representation_def Let_def)
  with set_representation_exact [OF demo_field_ok s] s show ?thesis by simp
qed

section \<open>Typed accessors\<close>

text \<open>The accessors with the width of the elements their callers read.\<close>

definition typed_accessors :: "((SimField option \<Rightarrow> u8 list option) \<times> nat) set" where
  "typed_accessors = {(sim_field_i8_data, 1), (sim_field_u8_data, 1), (sim_field_i32_data, 4),
     (sim_field_u32_data, 4), (sim_field_i64_data, 8), (sim_field_u64_data, 8),
     (sim_field_real_data, 8), (sim_field_complex_data, 16)}"

lemma domain_equal_iff: "sim_scalar_domain_equal a b \<longleftrightarrow> a = b"
  by (cases a; cases b) (auto simp: sim_scalar_domain_equal_def)

lemma size_times_8:
  fixes k :: size_t
  assumes "word_of_nat (w * 8) = k * 8" "w * 8 < 2 ^ 64"
  shows "w \<le> unat k"
proof -
  have "w * 8 = unat (k * 8)" using assms by (metis unat_word_of_nat_64)
  also have "\<dots> \<le> unat k * 8" using unat_mult_le [of k 8] by simp
  finally show ?thesis by simp
qed

lemma integer_data_width:
  assumes "field_ok f" "integer_data d (Some f) = Some bytes" "sd_kind d = SIM_SCALAR_DOMAIN_INTEGER"
  shows "unat (sd_bit_width d) div 8 \<le> unat (f_element_size f)" "f_data f = Some bytes"
proof -
  have magic: "f_magic f = SIM_FIELD_MAGIC" using assms(1) by (simp add: field_ok_def)
  have d: "sim_scalar_domain_from_field (Some f) = d" and "f_data f = Some bytes"
    using assms(2) magic by (auto simp: integer_data_def domain_equal_iff split: if_splits)
  then show "f_data f = Some bytes" by simp
  have known: "f_scalar_domain f = d"
    using d assms(3) magic
    by (auto simp: sim_scalar_domain_from_field_def Let_def scalar_domain_consts
        sim_scalar_domain_from_field_representation_def split: if_splits)
  have m: "sim_field_storage_matches_scalar_domain (f_element_size f) d"
    using assms(1,3) known by (auto simp: field_ok_def field_metadata_ok_def)
  then have eq: "ucast (sd_bit_width d) = f_element_size f * 8" and
    bw: "sd_bit_width d = 8 \<or> sd_bit_width d = 32 \<or> sd_bit_width d = 64"
    using assms(3) by (auto simp: sim_field_storage_matches_scalar_domain_def
        sim_scalar_domain_validate_def split: if_splits)
  have "unat (sd_bit_width d) div 8 * 8 = unat (sd_bit_width d)" "unat (sd_bit_width d) \<le> 64"
    using bw by auto
  then show "unat (sd_bit_width d) div 8 \<le> unat (f_element_size f)"
    using eq by (intro size_times_8) simp_all
qed

text \<open>
  C39. Whatever typed accessor hands out the storage of a live field, a caller that reads one value of
  the accessor's type per element stays inside it: no field is ever viewed as a wider type than its
  elements.
\<close>

theorem typed_accessors_safe:
  assumes "field_ok f" "(accessor, w) \<in> typed_accessors" "accessor (Some f) = Some bytes"
  shows "unat (sim_field_element_count (f_layout f)) * w \<le> length bytes"
proof -
  have magic: "f_magic f = SIM_FIELD_MAGIC" and k: "f_element_size f \<noteq> 0"
    using assms(1) by (auto simp: field_ok_def field_storage_ok_def)
  obtain block where block: "f_data f = Some block"
    "length block = prod_list (extents (field_shape f)) * unat (f_element_size f)"
    using assms(1) by (auto simp: field_ok_def field_storage_ok_def)
  have real: "8 \<le> unat (f_element_size f)" if "f_element_size f mod 8 = 0"
  proof -
    have "unat (f_element_size f) mod 8 = 0" using arg_cong [OF that, of unat] by (simp add: unat_mod)
    moreover have "0 < unat (f_element_size f)" using k by (simp add: unat_gt_0)
    ultimately show ?thesis by presburger
  qed
  consider d where "accessor = integer_data d" "sd_kind d = SIM_SCALAR_DOMAIN_INTEGER"
      "unat (sd_bit_width d) div 8 = w"
    | "accessor = sim_field_real_data" "w = 8" | "accessor = sim_field_complex_data" "w = 16"
    using assms(2)
    by (fastforce simp: typed_accessors_def sim_field_i8_data_def sim_field_u8_data_def
        sim_field_i32_data_def sim_field_u32_data_def sim_field_i64_data_def sim_field_u64_data_def
        scalar_domain_consts)
  then have "w \<le> unat (f_element_size f) \<and> bytes = block"
  proof cases
    case 1
    then show ?thesis using integer_data_width [OF assms(1)] assms(3) block(1) by fastforce
  next
    case 2
    then show ?thesis using assms(3) magic real block(1)
      by (auto simp: sim_field_real_data_def Let_def split: if_splits)
  next
    case 3
    then show ?thesis using assms(3) magic block(1)
      by (auto simp: sim_field_complex_data_def split: if_splits)
  qed
  then show ?thesis using block(2) field_count_unat [OF assms(1)] by simp
qed

theorem typed_accessors_safe_witness:
  "\<exists>bytes. sim_field_real_data (Some (demo_field 8 sim_scalar_domain_f64)) = Some bytes \<and>
     unat (sim_field_element_count (f_layout (demo_field 8 sim_scalar_domain_f64))) * 8 \<le> length bytes"
proof -
  let ?f = "demo_field 8 sim_scalar_domain_f64"
  have a: "(sim_field_real_data, 8) \<in> typed_accessors" by (simp add: typed_accessors_def)
  have "sim_scalar_domain_validate sim_scalar_domain_f64"
    "sd_kind sim_scalar_domain_f64 = SIM_SCALAR_DOMAIN_REAL" by code_simp+
  then obtain bytes where r: "sim_field_real_data (Some ?f) = Some bytes"
    by (simp add: sim_field_real_data_def sim_scalar_domain_from_field_def Let_def
        sim_scalar_domain_is_complex_def)
  from typed_accessors_safe [OF demo_field_ok a r] r show ?thesis by blast
qed

section \<open>Where the code leaves the invariant\<close>

text \<open>
  The element count of a field is not checked for overflow. For the extents \<open>2 ^ 63 + 1\<close> and \<open>2\<close> the
  product wraps to two, the field is built with two one-byte elements, and the checked index
  computation accepts an index whose offset lies behind the storage.
\<close>

lemma field_init_count_wraps:
  "\<exists>f. sim_field_init demo_heap (Some blank_field) 2 (Some [0x8000000000000001, 2]) 1
         SIM_FIELD_STORAGE_ROW_MAJOR None = (SIM_RESULT_OK, Some f) \<and>
       length (the (f_data f)) = 2 \<and> sim_field_element_index (Some f) (Some [1, 0]) 2 = Inr 2"
proof -
  have l: "sim_field_layout_init demo_heap l 2 (Some [0x8000000000000001, 2]) = (SIM_RESULT_OK,
     \<lparr>lay_rank = 2, lay_shape = Some [0x8000000000000001, 2], lay_strides = Some [2, 1],
      lay_contiguous = True\<rparr>)" for l
    by (simp add: sim_field_layout_init_def calloc_ok_def demo_heap_def)
  show ?thesis
    by (simp add: sim_field_init_def l Let_def sim_field_element_count_def
        sim_field_allocator_default_def demo_heap_def sim_field_element_index_def layout_axes_def
        word_le_nat_alt)
qed

text \<open>
  The promotion test looks at the representation, which every constructor sets to a real scalar
  unless the elements have sixteen bytes, and not at the scalar domain. A field of 64-bit integers
  passes it, and its integers are taken for the bit patterns of doubles: the integer one becomes a
  number that is not one.
\<close>

lemma promotion_reinterprets_integers:
  fixes f
  defines "f \<equiv> (demo_field 8 sim_scalar_domain_i64)\<lparr>f_data := Some (concat (replicate 6 (bytes_le 8 1)))\<rparr>"
  shows "sim_field_scalar_domain (Some f) = sim_scalar_domain_i64 \<and>
    (\<exists>f'. sim_field_require_complex demo_heap (Some f) = (SIM_RESULT_OK, Some f') \<and>
       load_le 8 (the (f_data f')) 0 = 1 \<and> f64_of_int 1 \<noteq> 1)"
proof -
  have dom: "sim_field_scalar_domain (Some f) = sim_scalar_domain_i64"
    by (simp add: f_def sim_field_scalar_domain_def sim_scalar_domain_validate_def scalar_domain_consts)
  have src: "sim_field_promotion_source_domain (Some f) = sim_scalar_domain_f64"
    by (simp add: f_def sim_field_promotion_source_domain_def sim_field_representation_def
        sim_scalar_domain_from_field_representation_def initial_repr_def sim_scalar_domain_f64_def
        sim_scalar_domain_make_def)
  have real: "promotable_source sim_scalar_domain_f64" by code_simp
  have data: "f_data f = Some (concat (replicate 6 (bytes_le 8 1)))" "f_magic f = SIM_FIELD_MAGIC"
    "f_element_size f = 8" "f_allocator f = \<lparr>al_allocate = Some demo_heap, al_release = True\<rparr>"
    "f_layout f = \<lparr>lay_rank = 2, lay_shape = Some [2, 3], lay_strides = Some [3, 1], lay_contiguous = True\<rparr>"
    by (simp_all add: f_def)
  obtain g where g: "sim_field_promote_inplace_to_complex demo_heap (Some f) = (SIM_RESULT_OK, Some g)"
    and gd: "f_data g = Some (promote_bytes 6 (concat (replicate 6 (bytes_le 8 1))))"
    by (simp add: sim_field_promote_inplace_to_complex_def src real Let_def data
        set_complex_metadata_def sim_field_element_count_def demo_heap_def)
  have "load_le 8 (promote_bytes 6 (concat (replicate 6 (bytes_le 8 1)))) 0 = 1" by code_simp
  moreover have "f64_of_int 1 \<noteq> 1"
    by (simp add: f64_of_int_def f64_of_nat_def highest_bit.simps)
  moreover obtain f' where "sim_field_require_complex demo_heap (Some f) = (SIM_RESULT_OK, Some f')"
    "f_data f' = f_data g"
    using g by (simp add: sim_field_require_complex_def src real data set_complex_metadata_def Let_def)
  ultimately show ?thesis using dom gd by auto
qed

end
