(* ===== verification/Patch_Correct.thy ===== *)
theory Patch_Correct
  imports Field_Patch Field_Correct
begin

text \<open>
  Correctness of \<^verbatim>\<open>core/src/field_patch.c\<close>: patches as sets of cells, intersection, the bytes a patch
  view reaches in its field, and tilings that partition a patch.
\<close>

section \<open>Patches as sets of cells\<close>

definition patch_cells :: "SimFieldPatch \<Rightarrow> (nat \<times> nat) set" where
  "patch_cells p = {unat (p_x0 p) ..< unat (p_x0 p) + unat (p_width p)} \<times>
                   {unat (p_y0 p) ..< unat (p_y0 p) + unat (p_height p)}"

definition patch_inside :: "SimFieldPatch \<Rightarrow> bool" where
  "patch_inside p \<longleftrightarrow> 0 < unat (p_width p) \<and> 0 < unat (p_height p) \<and>
     unat (p_x0 p) + unat (p_width p) \<le> unat (p_field_width p) \<and>
     unat (p_y0 p) + unat (p_height p) \<le> unat (p_field_height p)"

lemma span_iff:
  fixes x w n :: size_t
  shows "(n \<noteq> 0 \<and> w \<noteq> 0 \<and> x < n \<and> w \<le> n - x) \<longleftrightarrow> 0 < unat w \<and> unat x + unat w \<le> unat n"
proof (cases "x < n")
  case True
  then have "unat (n - x) = unat n - unat x" by (simp add: unat_sub)
  then show ?thesis using True by (auto simp: word_le_nat_alt word_less_nat_alt unat_gt_0)
next
  case False
  then have "unat n \<le> unat x" by (simp add: word_less_nat_alt)
  then show ?thesis using False by auto
qed

lemma patch_valid_iff: "sim_field_patch_is_valid (Some p) \<longleftrightarrow> patch_inside p"
  using span_iff [of "p_field_width p" "p_width p" "p_x0 p"]
    span_iff [of "p_field_height p" "p_height p" "p_y0 p"]
  by (auto simp: sim_field_patch_is_valid_def patch_inside_def not_le not_less)

lemma from_xywh_iff:
  "(\<exists>p. sim_field_patch_from_xywh fw fh x y w h = Inr p) \<longleftrightarrow>
     0 < unat w \<and> 0 < unat h \<and> unat x + unat w \<le> unat fw \<and> unat y + unat h \<le> unat fh"
  using span_iff [of fw w x] span_iff [of fh h y]
  by (auto simp: sim_field_patch_from_xywh_def not_le not_less)

lemma from_xywh_fields:
  assumes "sim_field_patch_from_xywh fw fh x y w h = Inr p"
  shows "p_x0 p = x" "p_y0 p = y" "p_width p = w" "p_height p = h" "p_field_width p = fw"
    "p_field_height p = fh" "p_flags p = sim_field_patch_compute_flags fw fh x y w h"
  using assms by (auto simp: sim_field_patch_from_xywh_def split: if_splits)

lemma from_xywh_inside:
  assumes "sim_field_patch_from_xywh fw fh x y w h = Inr p"
  shows "patch_inside p"
  using from_xywh_iff [of fw fh x y w h] assms from_xywh_fields [OF assms] by (auto simp: patch_inside_def)

lemma inside_from_xywh:
  assumes "0 < unat w" "0 < unat h" "unat x + unat w \<le> unat fw" "unat y + unat h \<le> unat fh"
  shows "\<exists>p. sim_field_patch_from_xywh fw fh x y w h = Inr p"
  using assms from_xywh_iff by blast

lemma unat_span_end:
  fixes x w n :: size_t
  shows "unat x + unat w \<le> unat n \<Longrightarrow> unat (x + w) = unat x + unat w"
  using unat_lt_64 [of n] by (intro unat_add_exact) linarith

text \<open>Intersection on one axis.\<close>

lemma axis_intersect:
  fixes a w b v n :: size_t
  assumes "unat a + unat w \<le> unat n" "unat b + unat v \<le> unat n"
  defines "lo \<equiv> if a > b then a else b" and "hi \<equiv> if a + w < b + v then a + w else b + v"
  shows "{unat a ..< unat a + unat w} \<inter> {unat b ..< unat b + unat v} = {unat lo ..< unat hi}"
    and "\<not> hi \<le> lo \<Longrightarrow> 0 < unat (hi - lo) \<and> unat lo + unat (hi - lo) = unat hi \<and> unat hi \<le> unat n"
proof -
  have e: "unat (a + w) = unat a + unat w" "unat (b + v) = unat b + unat v"
    using assms(1,2) by (auto intro: unat_span_end)
  have lo: "unat lo = max (unat a) (unat b)" by (auto simp: lo_def max_def word_less_nat_alt)
  have hi: "unat hi = min (unat a + unat w) (unat b + unat v)"
    using e by (auto simp: hi_def min_def word_less_nat_alt)
  show "{unat a ..< unat a + unat w} \<inter> {unat b ..< unat b + unat v} = {unat lo ..< unat hi}"
    unfolding lo hi by auto
  assume ne: "\<not> hi \<le> lo"
  then have "unat (hi - lo) = unat hi - unat lo" "unat lo < unat hi"
    by (auto simp: unat_sub word_le_nat_alt)
  then show "0 < unat (hi - lo) \<and> unat lo + unat (hi - lo) = unat hi \<and> unat hi \<le> unat n"
    using hi assms(1,2) by simp
qed

text \<open>
  The intersection of two valid patches of one field is the set intersection of their cells: it
  is reported as absent exactly when no cell is shared, and otherwise is a valid patch with exactly
  the shared cells.
\<close>

theorem patch_intersect_exact:
  assumes "sim_field_patch_is_valid (Some l)" "sim_field_patch_is_valid (Some r)"
    and "p_field_width l = p_field_width r" "p_field_height l = p_field_height r"
  shows "case sim_field_patch_intersect (Some l) (Some r) of
      None \<Rightarrow> patch_cells l \<inter> patch_cells r = {}
    | Some p \<Rightarrow> sim_field_patch_is_valid (Some p) \<and> patch_cells p = patch_cells l \<inter> patch_cells r \<and>
        p_field_width p = p_field_width l \<and> p_field_height p = p_field_height l"
proof -
  define x0 where "x0 = (if p_x0 l > p_x0 r then p_x0 l else p_x0 r)"
  define y0 where "y0 = (if p_y0 l > p_y0 r then p_y0 l else p_y0 r)"
  define x1 where "x1 = (if p_x0 l + p_width l < p_x0 r + p_width r then p_x0 l + p_width l
                       else p_x0 r + p_width r)"
  define y1 where "y1 = (if p_y0 l + p_height l < p_y0 r + p_height r then p_y0 l + p_height l
                       else p_y0 r + p_height r)"
  have in_l: "unat (p_x0 l) + unat (p_width l) \<le> unat (p_field_width l)"
    "unat (p_y0 l) + unat (p_height l) \<le> unat (p_field_height l)"
    "unat (p_x0 r) + unat (p_width r) \<le> unat (p_field_width l)"
    "unat (p_y0 r) + unat (p_height r) \<le> unat (p_field_height l)"
    using assms by (simp_all add: patch_valid_iff patch_inside_def)
  note X = axis_intersect [OF in_l(1,3), folded x0_def x1_def]
  note Y = axis_intersect [OF in_l(2,4), folded y0_def y1_def]
  have cells: "patch_cells l \<inter> patch_cells r = {unat x0 ..< unat x1} \<times> {unat y0 ..< unat y1}"
    unfolding patch_cells_def Times_Int_Times X(1) Y(1) ..
  show ?thesis
  proof (cases "x1 \<le> x0 \<or> y1 \<le> y0")
    case True
    then have "sim_field_patch_intersect (Some l) (Some r) = None"
      using assms unfolding sim_field_patch_intersect_def
      by (simp add: x0_def [symmetric] x1_def [symmetric] y0_def [symmetric] y1_def [symmetric] Let_def)
    moreover have "patch_cells l \<inter> patch_cells r = {}"
      using True unfolding cells by (auto simp: word_le_nat_alt)
    ultimately show ?thesis by simp
  next
    case False
    note dx = X(2) and dy = Y(2)
    from inside_from_xywh [of "x1 - x0" "y1 - y0" x0 "p_field_width l" y0 "p_field_height l"]
    obtain p where p: "sim_field_patch_from_xywh (p_field_width l) (p_field_height l) x0 y0
        (x1 - x0) (y1 - y0) = Inr p" using dx dy False by auto
    then have "sim_field_patch_intersect (Some l) (Some r) = Some p"
      using assms False unfolding sim_field_patch_intersect_def
      by (simp add: x0_def [symmetric] x1_def [symmetric] y0_def [symmetric] y1_def [symmetric] Let_def)
    moreover have "patch_cells p = {unat x0 ..< unat x1} \<times> {unat y0 ..< unat y1}"
      unfolding patch_cells_def from_xywh_fields [OF p] using dx dy False by simp
    then have "patch_cells p = patch_cells l \<inter> patch_cells r" unfolding cells .
    ultimately show ?thesis
      using from_xywh_inside [OF p] from_xywh_fields [OF p] by (simp add: patch_valid_iff)
  qed
qed

definition demo_patch :: "size_t \<Rightarrow> size_t \<Rightarrow> size_t \<Rightarrow> size_t \<Rightarrow> SimFieldPatch" where
  "demo_patch x y w h = \<lparr>p_x0 = x, p_y0 = y, p_width = w, p_height = h, p_field_width = 8,
     p_field_height = 8, p_flags = sim_field_patch_compute_flags 8 8 x y w h\<rparr>"

theorem patch_intersect_exact_witness:
  "sim_field_patch_intersect (Some (demo_patch 0 0 4 4)) (Some (demo_patch 2 3 4 4)) =
     Some (demo_patch 2 3 2 1) \<and>
   patch_cells (demo_patch 2 3 2 1) = patch_cells (demo_patch 0 0 4 4) \<inter> patch_cells (demo_patch 2 3 4 4)"
proof -
  have v: "sim_field_patch_is_valid (Some (demo_patch 0 0 4 4))"
    "sim_field_patch_is_valid (Some (demo_patch 2 3 4 4))" by code_simp+
  have w: "p_field_width (demo_patch 0 0 4 4) = p_field_width (demo_patch 2 3 4 4)"
    "p_field_height (demo_patch 0 0 4 4) = p_field_height (demo_patch 2 3 4 4)"
    by (simp_all add: demo_patch_def)
  have i: "sim_field_patch_intersect (Some (demo_patch 0 0 4 4)) (Some (demo_patch 2 3 4 4)) =
     Some (demo_patch 2 3 2 1)" by code_simp
  from patch_intersect_exact [OF v w] i show ?thesis by simp
qed

section \<open>Segments of an axis\<close>

text \<open>The starting points of the segments of length \<open>t\<close> that a loop from \<open>x\<close> visits below \<open>n\<close>.\<close>

function segs :: "nat \<Rightarrow> nat \<Rightarrow> nat \<Rightarrow> nat list" where
  "segs n t x = (if x < n \<and> 0 < t then x # segs n t (x + t) else [])"
  by pat_completeness auto
termination by (relation "measure (\<lambda>(n, t, x). n - x)") auto

declare segs.simps [simp del]

lemma set_segs:
  assumes "0 < t"
  shows "set (segs n t (k * t)) = {j * t | j. k \<le> j \<and> j * t < n}"
proof (induction "n - k * t" arbitrary: k rule: less_induct)
  case less
  show ?case
  proof (cases "k * t < n")
    case True
    have "set (segs n t (Suc k * t)) = {j * t | j. Suc k \<le> j \<and> j * t < n}"
      using True assms by (intro less.hyps) (simp add: diff_less_mono2)
    then have "set (segs n t (k * t)) = insert (k * t) {j * t | j. Suc k \<le> j \<and> j * t < n}"
      using True assms by (simp add: segs.simps [of n t "k * t"] add.commute)
    also have "\<dots> = {j * t | j. k \<le> j \<and> j * t < n}"
      using True by (auto simp: Suc_le_eq le_less)
    finally show ?thesis .
  next
    case False
    have "\<not> j * t < n" if "k \<le> j" for j using mult_le_mono1 [OF that, of t] False by linarith
    then show ?thesis using False by (auto simp: segs.simps [of n t "k * t"])
  qed
qed

lemma segs_lower: "y \<in> set (segs n t x) \<Longrightarrow> x \<le> y"
  by (induction n t x rule: segs.induct) (subst (asm) (2) segs.simps, auto split: if_splits)

lemma distinct_segs: "distinct (segs n t x)"
proof (induction n t x rule: segs.induct)
  case (1 n t x)
  then show ?case using segs_lower [of x n t "x + t"] by (subst segs.simps) auto
qed

lemma length_segs: "0 < t \<Longrightarrow> length (segs n t x) \<le> n - x"
proof (induction n t x rule: segs.induct)
  case (1 n t x)
  then show ?case by (subst segs.simps) auto
qed

lemma segment_of:
  assumes "0 < t" "s \<in> set (segs n t 0)"
  shows "s \<le> i \<and> i < s + min t (n - s) \<longleftrightarrow> i < n \<and> s = i div t * t"
proof -
  obtain j where s: "s = j * t" "s < n" using assms set_segs [of t n 0] by auto
  have "s \<le> i \<and> i < s + t \<longleftrightarrow> i div t = j"
  proof
    assume "s \<le> i \<and> i < s + t"
    then show "i div t = j" using s by (intro div_nat_eqI) (auto simp: algebra_simps)
  next
    assume "i div t = j"
    then show "s \<le> i \<and> i < s + t"
      using div_mult_mod_eq [of i t] mod_less_divisor [OF assms(1), of i] s by (intro conjI) auto
  qed
  then show ?thesis using s assms(1) by (auto simp: min_def)
qed

lemma shifted_segment:
  assumes "0 < t" "s \<in> set (segs n t 0)"
  shows "a \<in> {k + s ..< k + s + min t (n - s)} \<longleftrightarrow> a \<in> {k ..< k + n} \<and> s = (a - k) div t * t"
proof (cases "k \<le> a")
  case True
  then obtain i where a: "a = k + i" using le_Suc_ex by blast
  show ?thesis using segment_of [OF assms, of i] unfolding a by (simp add: add.assoc)
qed auto

lemma segment_exists: "0 < t \<Longrightarrow> i < n \<Longrightarrow> i div t * t \<in> set (segs n t 0)"
  using set_segs [of t n 0] by (auto intro: le_less_trans [OF div_times_less_eq_dividend])

section \<open>Tiles\<close>

text \<open>The tile at an offset inside the patch, the list of all of them, and how one is emitted.\<close>

definition tile_at :: "SimFieldPatch \<Rightarrow> nat \<Rightarrow> nat \<Rightarrow> nat \<Rightarrow> nat \<Rightarrow> SimFieldPatch" where
  "tile_at p tw th y x =
     (case sim_field_patch_from_xywh (p_field_width p) (p_field_height p)
             (p_x0 p + word_of_nat x) (p_y0 p + word_of_nat y)
             (word_of_nat (min tw (unat (p_width p) - x)))
             (word_of_nat (min th (unat (p_height p) - y))) of
        Inl _ \<Rightarrow> p | Inr tile \<Rightarrow> tile)"

definition tiles_of :: "SimFieldPatch \<Rightarrow> nat \<Rightarrow> nat \<Rightarrow> SimFieldPatch list" where
  "tiles_of p tw th =
     concat (map (\<lambda>y. map (tile_at p tw th y) (segs (unat (p_width p)) tw 0))
       (segs (unat (p_height p)) th 0))"

definition emit ::
  "size_t \<Rightarrow> SimFieldPatch \<Rightarrow> size_t \<times> SimFieldPatch list option \<Rightarrow>
   size_t \<times> SimFieldPatch list option" where
  "emit cap tile = (\<lambda>(count, out).
     (count + 1, map_option (\<lambda>tiles. if count < cap then tiles[unat count := tile] else tiles) out))"

lemma tile_at_built:
  assumes "patch_inside p" "x < unat (p_width p)" "y < unat (p_height p)" "0 < tw" "0 < th"
  shows "sim_field_patch_from_xywh (p_field_width p) (p_field_height p)
      (p_x0 p + word_of_nat x) (p_y0 p + word_of_nat y)
      (word_of_nat (min tw (unat (p_width p) - x))) (word_of_nat (min th (unat (p_height p) - y))) =
    Inr (tile_at p tw th y x)"
    and "patch_cells (tile_at p tw th y x) =
      {unat (p_x0 p) + x ..< unat (p_x0 p) + x + min tw (unat (p_width p) - x)} \<times>
      {unat (p_y0 p) + y ..< unat (p_y0 p) + y + min th (unat (p_height p) - y)}"
proof -
  have axis: "unat (a + word_of_nat i :: size_t) = unat a + i"
    "unat (word_of_nat (min t (unat w - i)) :: size_t) = min t (unat w - i)"
    if "unat a + unat w \<le> unat n" "i < unat w" for a w n :: size_t and i t
  proof -
    have i: "unat (word_of_nat i :: size_t) = i"
      using that(2) unat_lt_64 [of w] by (intro unat_word_of_nat_64) linarith
    then have "unat a + unat (word_of_nat i :: size_t) < 2 ^ 64"
      using that unat_lt_64 [of n] by linarith
    from unat_add_exact [OF this] i show "unat (a + word_of_nat i :: size_t) = unat a + i" by simp
    show "unat (word_of_nat (min t (unat w - i)) :: size_t) = min t (unat w - i)"
      using unat_lt_64 [of w] by (intro unat_word_of_nat_64) linarith
  qed
  have px: "unat (p_x0 p) + unat (p_width p) \<le> unat (p_field_width p)"
    and py: "unat (p_y0 p) + unat (p_height p) \<le> unat (p_field_height p)"
    using assms(1) by (simp_all add: patch_inside_def)
  note X = axis [OF px assms(2)] and Y = axis [OF py assms(3)]
  have "\<exists>t. sim_field_patch_from_xywh (p_field_width p) (p_field_height p)
      (p_x0 p + word_of_nat x) (p_y0 p + word_of_nat y)
      (word_of_nat (min tw (unat (p_width p) - x))) (word_of_nat (min th (unat (p_height p) - y))) = Inr t"
    using assms px py by (intro inside_from_xywh) (simp_all add: X Y)
  then show b: "sim_field_patch_from_xywh (p_field_width p) (p_field_height p)
      (p_x0 p + word_of_nat x) (p_y0 p + word_of_nat y)
      (word_of_nat (min tw (unat (p_width p) - x))) (word_of_nat (min th (unat (p_height p) - y))) =
    Inr (tile_at p tw th y x)" by (auto simp: tile_at_def)
  show "patch_cells (tile_at p tw th y x) =
      {unat (p_x0 p) + x ..< unat (p_x0 p) + x + min tw (unat (p_width p) - x)} \<times>
      {unat (p_y0 p) + y ..< unat (p_y0 p) + y + min th (unat (p_height p) - y)}"
    unfolding patch_cells_def from_xywh_fields [OF b] X Y ..
qed

lemma put_tile_emit:
  assumes "patch_inside p" "x < unat (p_width p)" "y < unat (p_height p)" "0 < tw" "0 < th"
  shows "put_tile p cap (word_of_nat x) (word_of_nat y) (word_of_nat (min tw (unat (p_width p) - x)))
      (word_of_nat (min th (unat (p_height p) - y))) = emit cap (tile_at p tw th y x)"
  unfolding put_tile_def emit_def tile_at_built(1) [OF assms]
  by (auto simp: fun_eq_iff split: option.splits)

lemma clipped:
  fixes w t x :: size_t
  assumes "x < w"
  shows "(if w - x > t then t else w - x) = word_of_nat (min (unat t) (unat w - unat x))"
proof -
  have d: "unat (w - x) = unat w - unat x" using assms by (simp add: unat_sub)
  show ?thesis
  proof (cases "w - x > t")
    case True
    then have "min (unat t) (unat w - unat x) = unat t" using d by (simp add: word_less_nat_alt)
    then show ?thesis using True by simp
  next
    case False
    then have "min (unat t) (unat w - unat x) = unat (w - x)" using d by (simp add: word_less_nat_alt)
    then show ?thesis using False by simp
  qed
qed

lemma split_row_fold:
  assumes "patch_inside p" "y < unat (p_height p)" "0 < unat tw" "0 < th"
    and "unat (p_width p) + unat tw \<le> 2 ^ 64"
  shows "split_row p cap tw (word_of_nat y) (word_of_nat (min th (unat (p_height p) - y))) x st =
    Some (fold (emit cap) (map (tile_at p (unat tw) th y) (segs (unat (p_width p)) (unat tw) (unat x))) st)"
proof (induction "unat (p_width p) - unat x" arbitrary: x st rule: less_induct)
  case less
  show ?case
  proof (cases "x < p_width p")
    case True
    then have xw: "unat x < unat (p_width p)" by (simp add: word_less_nat_alt)
    then have next_x: "unat (x + tw) = unat x + unat tw" using assms(5) by (intro unat_add_exact) simp
    let ?st = "emit cap (tile_at p (unat tw) th y (unat x)) st"
    have "split_row p cap tw (word_of_nat y) (word_of_nat (min th (unat (p_height p) - y))) x st =
        split_row p cap tw (word_of_nat y) (word_of_nat (min th (unat (p_height p) - y))) (x + tw) ?st"
      using put_tile_emit [OF assms(1) xw assms(2-4), of cap] True
      by (subst split_row.simps) (simp add: clipped Let_def)
    also have "\<dots> = Some (fold (emit cap) (map (tile_at p (unat tw) th y)
        (segs (unat (p_width p)) (unat tw) (unat (x + tw)))) ?st)"
      using xw assms(3) next_x by (intro less.hyps) simp
    finally show ?thesis using xw assms(3) next_x
      by (simp add: segs.simps [of "unat (p_width p)" "unat tw" "unat x"])
  next
    case False
    then have "segs (unat (p_width p)) (unat tw) (unat x) = []"
      by (subst segs.simps) (simp add: word_less_nat_alt)
    then show ?thesis using False by (subst split_row.simps) simp
  qed
qed

lemma split_rows_fold:
  assumes "patch_inside p" "0 < unat tw" "0 < unat th"
    and "unat (p_width p) + unat tw \<le> 2 ^ 64" "unat (p_height p) + unat th \<le> 2 ^ 64"
  shows "split_rows p cap tw th y st =
    Some (fold (emit cap) (concat (map (\<lambda>y. map (tile_at p (unat tw) (unat th) y)
      (segs (unat (p_width p)) (unat tw) 0)) (segs (unat (p_height p)) (unat th) (unat y)))) st)"
proof (induction "unat (p_height p) - unat y" arbitrary: y st rule: less_induct)
  case less
  let ?row = "\<lambda>y. map (tile_at p (unat tw) (unat th) y) (segs (unat (p_width p)) (unat tw) 0)"
  show ?case
  proof (cases "y < p_height p")
    case True
    then have yh: "unat y < unat (p_height p)" by (simp add: word_less_nat_alt)
    then have next_y: "unat (y + th) = unat y + unat th" using assms(5) by (intro unat_add_exact) simp
    have row: "split_row p cap tw y (word_of_nat (min (unat th) (unat (p_height p) - unat y))) 0 st =
        Some (fold (emit cap) (?row (unat y)) st)"
      using split_row_fold [OF assms(1) yh assms(2,3,4), of cap 0 st] by simp
    have "split_rows p cap tw th y st =
        split_rows p cap tw th (y + th) (fold (emit cap) (?row (unat y)) st)"
      using True by (subst split_rows.simps) (simp add: clipped row Let_def)
    also have "\<dots> = Some (fold (emit cap) (concat (map ?row
        (segs (unat (p_height p)) (unat th) (unat (y + th))))) (fold (emit cap) (?row (unat y)) st))"
      using yh assms(3) next_y by (intro less.hyps) simp
    finally show ?thesis using yh assms(3) next_y
      by (simp add: segs.simps [of "unat (p_height p)" "unat th" "unat y"])
  next
    case False
    then have "segs (unat (p_height p)) (unat th) (unat y) = []"
      by (subst segs.simps) (simp add: word_less_nat_alt)
    then show ?thesis using False by (subst split_rows.simps) simp
  qed
qed

lemma fold_emit:
  assumes "c + length ts < 2 ^ 64" "unat cap \<le> length buf"
  shows "\<exists>buf'. fold (emit cap) ts (word_of_nat c, Some buf) = (word_of_nat (c + length ts), Some buf') \<and>
    length buf' = length buf \<and>
    (\<forall>i < length buf. buf' ! i = (if c \<le> i \<and> i < c + length ts \<and> i < unat cap then ts ! (i - c) else buf ! i))"
  using assms
proof (induction ts arbitrary: c buf)
  case (Cons t ts)
  have c: "unat (word_of_nat c :: size_t) = c" using Cons.prems(1) by (intro unat_word_of_nat_64) simp
  let ?buf = "if c < unat cap then buf[c := t] else buf"
  have "emit cap t (word_of_nat c, Some buf) = (word_of_nat (Suc c), Some ?buf)"
    by (simp add: emit_def word_less_nat_alt c add.commute)
  moreover have p: "Suc c + length ts < 2 ^ 64" "unat cap \<le> length ?buf" using Cons.prems by simp_all
  moreover from Cons.IH [OF p] obtain buf' where buf': "fold (emit cap) ts (word_of_nat (Suc c), Some ?buf) =
      (word_of_nat (Suc c + length ts), Some buf')" "length buf' = length ?buf"
    "\<forall>i < length ?buf. buf' ! i =
      (if Suc c \<le> i \<and> i < Suc c + length ts \<and> i < unat cap then ts ! (i - Suc c) else ?buf ! i)"
    by blast
  moreover have "buf' ! i = (if c \<le> i \<and> i < c + length (t # ts) \<and> i < unat cap
      then (t # ts) ! (i - c) else buf ! i)" if "i < length buf" for i
    using buf'(3) that by (cases "i = c") (auto simp: nth_Cons' Suc_le_eq)
  ultimately show ?case using buf'(2) by simp
qed auto

lemma tiles_partition:
  assumes "patch_inside p" "0 < tw" "0 < th"
  shows "\<forall>t \<in> set (tiles_of p tw th). patch_inside t"
    and "(\<Union>t \<in> set (tiles_of p tw th). patch_cells t) = patch_cells p"
    and "distinct (tiles_of p tw th)"
    and "\<forall>t \<in> set (tiles_of p tw th). \<forall>u \<in> set (tiles_of p tw th). t \<noteq> u \<longrightarrow> patch_cells t \<inter> patch_cells u = {}"
proof -
  let ?w = "unat (p_width p)" and ?h = "unat (p_height p)"
  let ?xs = "segs ?w tw 0" and ?ys = "segs ?h th 0"
  have set_t: "set (tiles_of p tw th) = (\<lambda>(y, x). tile_at p tw th y x) ` (set ?ys \<times> set ?xs)"
    by (auto simp: tiles_of_def)
  have xs: "x < ?w" if "x \<in> set ?xs" for x using that set_segs [OF assms(2), of ?w 0] by auto
  have ys: "y < ?h" if "y \<in> set ?ys" for y using that set_segs [OF assms(3), of ?h 0] by auto
  note built = tile_at_built [OF assms(1) xs ys assms(2,3)]
  show "\<forall>t \<in> set (tiles_of p tw th). patch_inside t"
  proof
    fix t assume "t \<in> set (tiles_of p tw th)"
    then obtain x y where "t = tile_at p tw th y x" "x \<in> set ?xs" "y \<in> set ?ys" by (auto simp: set_t)
    then show "patch_inside t" using from_xywh_inside [OF built(1)] by blast
  qed
  have cell: "(a, b) \<in> patch_cells (tile_at p tw th y x) \<longleftrightarrow>
      (a, b) \<in> patch_cells p \<and> x = (a - unat (p_x0 p)) div tw * tw \<and> y = (b - unat (p_y0 p)) div th * th"
    if "x \<in> set ?xs" "y \<in> set ?ys" for a b x y
    unfolding built(2) [OF that] patch_cells_def [of p] mem_Sigma_iff
      shifted_segment [OF assms(2) that(1)] shifted_segment [OF assms(3) that(2)] by blast
  show "(\<Union>t \<in> set (tiles_of p tw th). patch_cells t) = patch_cells p"
  proof (intro equalityI subsetI)
    fix c assume "c \<in> (\<Union>t \<in> set (tiles_of p tw th). patch_cells t)"
    then show "c \<in> patch_cells p" using cell by (cases c) (auto simp: set_t)
  next
    fix c assume c: "c \<in> patch_cells p"
    obtain a b where ab: "c = (a, b)" by fastforce
    let ?x = "(a - unat (p_x0 p)) div tw * tw" and ?y = "(b - unat (p_y0 p)) div th * th"
    have x: "?x \<in> set ?xs" and y: "?y \<in> set ?ys"
      using c ab assms(2,3) by (auto simp: patch_cells_def intro!: segment_exists)
    then have "c \<in> patch_cells (tile_at p tw th ?y ?x)" using cell [OF x y, of a b] c ab by simp
    then show "c \<in> (\<Union>t \<in> set (tiles_of p tw th). patch_cells t)"
      using x y by (auto simp: set_t)
  qed
  show "\<forall>t \<in> set (tiles_of p tw th). \<forall>u \<in> set (tiles_of p tw th). t \<noteq> u \<longrightarrow> patch_cells t \<inter> patch_cells u = {}"
  proof (intro ballI impI)
    fix t u assume "t \<in> set (tiles_of p tw th)" "u \<in> set (tiles_of p tw th)" and ne: "t \<noteq> u"
    then obtain x y x' y' where t: "t = tile_at p tw th y x" "x \<in> set ?xs" "y \<in> set ?ys"
      and u: "u = tile_at p tw th y' x'" "x' \<in> set ?xs" "y' \<in> set ?ys" by (auto simp: set_t)
    have "False" if "(a, b) \<in> patch_cells t" "(a, b) \<in> patch_cells u" for a b
      using cell [OF t(2,3), of a b] cell [OF u(2,3), of a b] that ne t(1) u(1) by auto
    then show "patch_cells t \<inter> patch_cells u = {}" by auto
  qed
  have inj: "x = x' \<and> y = y'" if "tile_at p tw th y x = tile_at p tw th y' x'" "x \<in> set ?xs" "y \<in> set ?ys"
    "x' \<in> set ?xs" "y' \<in> set ?ys" for x y x' y'
  proof -
    have "(unat (p_x0 p) + x, unat (p_y0 p) + y) \<in> patch_cells (tile_at p tw th y x)"
      using xs [OF that(2)] ys [OF that(3)] assms(2,3) unfolding built(2) [OF that(2,3)] by simp
    then show ?thesis using that(1) cell [OF that(2,3)] cell [OF that(4,5)] by metis
  qed
  have "distinct (map (tile_at p tw th y) ?xs)" if "y \<in> set ?ys" for y
    using distinct_segs inj that by (auto simp: distinct_map inj_on_def)
  moreover have "distinct (map (\<lambda>y. map (tile_at p tw th y) ?xs) ?ys)"
  proof -
    have "?xs \<noteq> []" using assms(1,2) by (simp add: segs.simps [of ?w tw 0] patch_inside_def)
    then obtain x0 where "x0 \<in> set ?xs" using hd_in_set by blast
    then show ?thesis using distinct_segs inj
      by (auto simp: distinct_map inj_on_def)
  qed
  ultimately show "distinct (tiles_of p tw th)"
    unfolding tiles_of_def by (intro distinct_concat) (auto dest: inj)
qed

lemma length_tiles:
  assumes "0 < tw" "0 < th"
  shows "length (tiles_of p tw th) \<le> unat (p_width p) * unat (p_height p)"
proof -
  have "length (tiles_of p tw th) =
      length (segs (unat (p_height p)) th 0) * length (segs (unat (p_width p)) tw 0)"
    by (simp add: tiles_of_def length_concat comp_def sum_list_triv)
  also have "\<dots> \<le> unat (p_height p) * unat (p_width p)"
    using length_segs [OF assms(1), of "unat (p_width p)" 0] length_segs [OF assms(2), of "unat (p_height p)" 0]
    by (intro mult_le_mono) simp_all
  finally show ?thesis by (simp add: mult.commute)
qed

text \<open>The tile size the code settles on: the whole extent for zero or an oversized request.\<close>

definition tile_extent :: "size_t \<Rightarrow> size_t \<Rightarrow> nat" where
  "tile_extent extent requested =
     (if requested = 0 \<or> requested > extent then unat extent else unat requested)"

lemma split_tiles_runs:
  assumes "patch_inside p" "unat (p_width p) * unat (p_height p) < 2 ^ 63"
  shows "sim_field_patch_split_tiles (Some p) tw th out cap =
      Some (fold (emit cap) (tiles_of p (tile_extent (p_width p) tw) (tile_extent (p_height p) th)) (0, out))"
    and "0 < tile_extent (p_width p) tw" "0 < tile_extent (p_height p) th"
proof -
  let ?w = "unat (p_width p)" and ?h = "unat (p_height p)"
  define tw' where "tw' = (if tw = 0 \<or> tw > p_width p then p_width p else tw)"
  define th' where "th' = (if th = 0 \<or> th > p_height p then p_height p else th)"
  have pos: "0 < ?w" "0 < ?h" using assms(1) by (auto simp: patch_inside_def)
  have "?w \<le> ?w * ?h" "?h \<le> ?w * ?h" using pos by simp_all
  then have small: "?w < 2 ^ 63" "?h < 2 ^ 63" using assms(2) by linarith+
  have tw': "0 < unat tw'" "unat tw' \<le> ?w" "unat tw' = tile_extent (p_width p) tw"
    using pos by (auto simp: tw'_def tile_extent_def word_less_nat_alt unat_gt_0)
  have th': "0 < unat th'" "unat th' \<le> ?h" "unat th' = tile_extent (p_height p) th"
    using pos by (auto simp: th'_def tile_extent_def word_less_nat_alt unat_gt_0)
  show "0 < tile_extent (p_width p) tw" "0 < tile_extent (p_height p) th" using tw' th' by simp_all
  have "sim_field_patch_split_tiles (Some p) tw th out cap = split_rows p cap tw' th' 0 (0, out)"
    using assms(1) by (simp add: sim_field_patch_split_tiles_def patch_valid_iff tw'_def th'_def)
  also have "\<dots> = Some (fold (emit cap) (tiles_of p (unat tw') (unat th')) (0, out))"
    using split_rows_fold [OF assms(1) tw'(1) th'(1), of cap 0 "(0, out)"] tw'(2) th'(2) small
    by (simp add: tiles_of_def)
  finally show "sim_field_patch_split_tiles (Some p) tw th out cap =
      Some (fold (emit cap) (tiles_of p (tile_extent (p_width p) tw) (tile_extent (p_height p) th)) (0, out))"
    using tw'(3) th'(3) by simp
qed

text \<open>
  C36. Splitting a patch of less than \<open>2 ^ 63\<close> cells always returns, for every requested tile size. The
  tiles it counts are valid patches that partition the patch: distinct, pairwise disjoint and together
  exactly its cells. The output array receives the first ones up to its capacity and nothing else is
  written.
\<close>

theorem split_tiles_partition:
  assumes "sim_field_patch_is_valid (Some p)" "unat (p_width p) * unat (p_height p) < 2 ^ 63"
    and "unat cap \<le> length buf"
  shows "\<exists>ts count buf'. sim_field_patch_split_tiles (Some p) tw th (Some buf) cap = Some (count, Some buf') \<and>
    unat count = length ts \<and> distinct ts \<and> (\<forall>t \<in> set ts. sim_field_patch_is_valid (Some t)) \<and>
    (\<Union>t \<in> set ts. patch_cells t) = patch_cells p \<and>
    (\<forall>t \<in> set ts. \<forall>u \<in> set ts. t \<noteq> u \<longrightarrow> patch_cells t \<inter> patch_cells u = {}) \<and>
    length buf' = length buf \<and>
    (\<forall>i < length buf. buf' ! i = (if i < length ts \<and> i < unat cap then ts ! i else buf ! i))"
proof -
  have p: "patch_inside p" using assms(1) by (simp add: patch_valid_iff)
  let ?ts = "tiles_of p (tile_extent (p_width p) tw) (tile_extent (p_height p) th)"
  note run = split_tiles_runs [OF p assms(2)]
  have len: "length ?ts < 2 ^ 63" using length_tiles [OF run(2,3), of p tw th] assms(2) by (rule le_less_trans)
  then have "0 + length ?ts < 2 ^ 64" by simp
  from fold_emit [OF this assms(3)] obtain buf' where
    "fold (emit cap) ?ts (0, Some buf) = (word_of_nat (length ?ts), Some buf')" "length buf' = length buf"
    "\<forall>i < length buf. buf' ! i = (if i < length ?ts \<and> i < unat cap then ?ts ! i else buf ! i)"
    by auto
  moreover have "unat (word_of_nat (length ?ts) :: size_t) = length ?ts"
    using len by (intro unat_word_of_nat_64) simp
  ultimately show ?thesis using run(1) [of tw th "Some buf" cap] tiles_partition [OF p run(2,3), of tw th]
    by (intro exI [of _ ?ts] exI [of _ "word_of_nat (length ?ts)"] exI [of _ buf']) (simp add: patch_valid_iff)
qed

theorem split_tiles_partition_witness:
  "\<exists>buf'. sim_field_patch_split_tiles (Some (demo_patch 1 1 5 3)) 2 0 (Some [demo_patch 0 0 1 1]) 1 =
     Some (3, Some buf')"
proof -
  have v: "sim_field_patch_is_valid (Some (demo_patch 1 1 5 3))" by code_simp
  have a: "unat (p_width (demo_patch 1 1 5 3)) * unat (p_height (demo_patch 1 1 5 3)) < 2 ^ 63"
    by (simp add: demo_patch_def)
  have c: "unat (1 :: size_t) \<le> length [demo_patch 0 0 1 1]" by simp
  have run: "map_option fst (sim_field_patch_split_tiles (Some (demo_patch 1 1 5 3)) 2 0
      (Some [demo_patch 0 0 1 1]) 1) = Some 3" by code_simp
  from split_tiles_partition [OF v a c, of 2 0] run show ?thesis by auto
qed

section \<open>Views of patches\<close>

text \<open>A field whose scalar domain is known and asks for the field's element size.\<close>

definition field_typed :: "SimField \<Rightarrow> bool" where
  "field_typed f \<longleftrightarrow> sd_kind (f_scalar_domain f) \<noteq> SIM_SCALAR_DOMAIN_UNKNOWN \<and>
     f_element_size f = sim_field_element_size_for_scalar_domain (f_scalar_domain f)"

lemma typed_field_type:
  assumes "field_ok f" "field_typed f"
  shows "sim_field_scalar_domain (Some f) = f_scalar_domain f"
    and "sim_buffer_element_size (sim_buffer_data_type_from_scalar_domain (f_scalar_domain f)) =
      f_element_size f"
  using assms
  by (auto simp: field_ok_def field_metadata_ok_def field_typed_def sim_field_scalar_domain_def
      sim_field_element_size_for_scalar_domain_def)

text \<open>The flat position of a cell of a two-dimensional field.\<close>

definition cell_position :: "SimField \<Rightarrow> nat \<Rightarrow> nat \<Rightarrow> nat" where
  "cell_position f x y = y * unat (sim_field_width (Some f)) + x"

lemma patch_base:
  assumes "field_ok f" "length (field_shape f) \<le> 2" "patch_inside p"
    and "p_field_width p = sim_field_width (Some f)" "p_field_height p = sim_field_height (Some f)"
  shows "\<exists>base. sim_field_xy_to_index (Some f) (p_x0 p) (p_y0 p) = Inr base \<and>
    unat base = cell_position f (unat (p_x0 p)) (unat (p_y0 p))"
    and "unat (p_width p) * unat (p_height p) \<le> prod_list (extents (field_shape f))"
proof -
  have magic: "f_magic f = SIM_FIELD_MAGIC" using assms(1) by (simp add: field_ok_def)
  have in_x: "unat (p_x0 p) + unat (p_width p) \<le> unat (sim_field_width (Some f))" "0 < unat (p_width p)"
    and in_y: "unat (p_y0 p) + unat (p_height p) \<le> unat (sim_field_height (Some f))" "0 < unat (p_height p)"
    using assms(3-5) by (auto simp: patch_inside_def)
  have both: "(\<exists>base. sim_field_xy_to_index (Some f) (p_x0 p) (p_y0 p) = Inr base \<and>
      unat base = cell_position f (unat (p_x0 p)) (unat (p_y0 p))) \<and>
      unat (sim_field_width (Some f)) * unat (sim_field_height (Some f)) \<le> prod_list (extents (field_shape f))"
  proof (cases "length (field_shape f) = 1")
    case True
    obtain W where ds: "field_shape f = [W]" and pos: "0 < W" and
      l: "lay_rank (f_layout f) = 1" "lay_shape (f_layout f) = Some [W]" "lay_strides (f_layout f) = Some [1]" and
      w: "sim_field_width (Some f) = W" "sim_field_height (Some f) = 1"
      using field_line [OF assms(1) True] by blast
    have "unat (p_y0 p) = 0" "p_x0 p < W" using in_x in_y w by (auto simp: word_less_nat_alt)
    then have "p_y0 p = 0" "p_x0 p < W" by (simp_all add: unat_eq_0)
    then have "sim_field_xy_to_index (Some f) (p_x0 p) (p_y0 p) = Inr (p_x0 p)"
      using magic l pos by (simp add: sim_field_xy_to_index_def Let_def word_gt_0 linorder_not_le)
    then show ?thesis using ds w \<open>p_y0 p = 0\<close> by (simp add: cell_position_def)
  next
    case False
    obtain pre H W where ds: "field_shape f = pre @ [H, W]" and pos: "0 < H" "0 < W" and
      l: "lay_rank (f_layout f) = length pre + 2" "lay_shape (f_layout f) = Some (pre @ [H, W])"
      "the (lay_strides (f_layout f)) ! (length pre + 1) = 1"
      "the (lay_strides (f_layout f)) ! length pre = W" and
      w: "sim_field_width (Some f) = W" "sim_field_height (Some f) = H" and c: "unat H * unat W < 2 ^ 63"
      using field_plane [OF assms(1) False] by blast
    have pre: "pre = []" using ds assms(2) by simp
    have st: "lay_strides (f_layout f) \<noteq> None"
      using assms(1) by (auto simp: field_ok_def field_storage_ok_def row_major_layout_def)
    have less: "p_x0 p < W" "p_y0 p < H" using in_x in_y w by (auto simp: word_less_nat_alt)
    then have idx: "sim_field_xy_to_index (Some f) (p_x0 p) (p_y0 p) = Inr (p_x0 p + p_y0 p * W)"
      using magic st l pos pre by (auto simp: sim_field_xy_to_index_def Let_def word_gt_0 not_le not_less)
    have bound: "unat (p_x0 p) + unat (p_y0 p) * unat W < unat H * unat W"
      using block_before [of "unat (p_y0 p)" "unat H" "unat W"] less by (simp add: word_less_nat_alt)
    then have "unat (p_y0 p * W) = unat (p_y0 p) * unat W" using c by (intro unat_mult_exact) simp
    then have "unat (p_x0 p + p_y0 p * W) = cell_position f (unat (p_x0 p)) (unat (p_y0 p))"
      using bound c unat_add_exact [of "p_x0 p" "p_y0 p * W"] w by (simp add: cell_position_def)
    then show ?thesis using idx ds pre w by (simp add: mult.commute)
  qed
  then show "\<exists>base. sim_field_xy_to_index (Some f) (p_x0 p) (p_y0 p) = Inr base \<and>
    unat base = cell_position f (unat (p_x0 p)) (unat (p_y0 p))" by blast
  have "unat (p_width p) * unat (p_height p) \<le> unat (sim_field_width (Some f)) * unat (sim_field_height (Some f))"
    using in_x in_y by (intro mult_le_mono) linarith+
  then show "unat (p_width p) * unat (p_height p) \<le> prod_list (extents (field_shape f))"
    using both by linarith
qed

text \<open>The view the code builds for a patch of a live field, spelled out.\<close>

definition built_view :: "SimField \<Rightarrow> SimFieldPatch \<Rightarrow> bool \<Rightarrow> size_t \<Rightarrow> SimFieldPatchView" where
  "built_view f p readonly base =
     (let two = length (field_shape f) \<noteq> 1; W = sim_field_width (Some f);
          shape = (if two then [p_height p, p_width p] else [p_width p]);
          stride = (if two then [W, 1] else [1])
      in \<lparr>pv_buffer_view =
            \<lparr>view_data = Some (drop (unat (base * f_element_size f)) (the (f_data f))),
             view_count = p_width p * p_height p,
             view_type = sim_buffer_data_type_from_scalar_domain (f_scalar_domain f),
             view_layout = \<lparr>lay_rank = length shape, lay_shape = Some shape, lay_strides = Some stride,
               lay_contiguous = (two \<longrightarrow> p_flags p AND SIM_FIELD_PATCH_FLAG_COVERS_FULL_ROWS \<noteq> 0)\<rparr>,
             view_logical_to_physical = None\<rparr>,
          pv_patch = p, pv_row_stride = (if two then W else p_width p), pv_readonly = readonly,
          pv_zero_copy = True, pv_shape_storage = shape, pv_stride_storage = stride,
          pv_owns_layout = True\<rparr>)"

lemma view_from_field_built:
  assumes "field_ok f" "field_typed f" "length (field_shape f) \<le> 2" "sim_field_patch_is_valid (Some p)"
    and "p_field_width p = sim_field_width (Some f)" "p_field_height p = sim_field_height (Some f)"
    and "sim_field_xy_to_index (Some f) (p_x0 p) (p_y0 p) = Inr base"
  shows "sim_field_patch_view_from_field (Some f) (Some p) readonly = Inr (built_view f p readonly base)"
proof -
  have magic: "f_magic f = SIM_FIELD_MAGIC" and data: "f_data f \<noteq> None"
    and lay: "lay_rank (f_layout f) = length (field_shape f)" "lay_shape (f_layout f) = Some (field_shape f)"
      "lay_strides (f_layout f) \<noteq> None" "field_shape f \<noteq> []" and k: "f_element_size f \<noteq> 0"
    using assms(1) by (auto simp: field_ok_def field_storage_ok_def row_major_layout_def)
  have inside: "patch_inside p" using assms(4) by (simp add: patch_valid_iff)
  have area: "unat (p_width p) * unat (p_height p) < 2 ^ 63"
    using patch_base(2) [OF assms(1,3) inside assms(5,6)] field_count_fits [OF assms(1)] by linarith
  then have "unat (p_width p * p_height p) = unat (p_width p) * unat (p_height p)"
    by (intro unat_mult_exact) simp
  moreover have "0 < unat (p_width p)" "0 < unat (p_height p)" using inside by (auto simp: patch_inside_def)
  ultimately have "0 < unat (p_width p * p_height p)" by simp
  then have pos: "0 < p_width p * p_height p" by (simp add: word_less_nat_alt)
  have le: "p_width p \<le> sim_field_width (Some f)"
    using inside assms(5) by (simp add: patch_inside_def word_le_nat_alt)
  note type = typed_field_type [OF assms(1,2)]
  have storage: "f_storage f = SIM_FIELD_STORAGE_ROW_MAJOR" by (cases "f_storage f") simp
  show ?thesis
  proof (cases "length (field_shape f) = 1")
    case True
    obtain W where l: "lay_rank (f_layout f) = 1" "lay_strides (f_layout f) = Some [1]"
      using field_line [OF assms(1) True] by blast
    have "sim_field_patch_view_is_valid (Some (built_view f p readonly base))"
      using True pos k type assms(4)
      by (simp add: sim_field_patch_view_is_valid_def built_view_def Let_def sim_buffer_view_is_valid_def
          word_gt_0)
    then show ?thesis
      using assms magic data lay l True k type storage
      by (simp add: sim_field_patch_view_from_field_def sim_field_rank_def sim_field_data_def Let_def
          built_view_def)
  next
    case False
    obtain pre H W where ds: "field_shape f = pre @ [H, W]" and
      l: "the (lay_strides (f_layout f)) ! (length pre + 1) = 1"
      "the (lay_strides (f_layout f)) ! length pre = W" and w: "sim_field_width (Some f) = W"
      using field_plane [OF assms(1) False] by blast
    have pre: "pre = []" using ds assms(3) by simp
    have two: "length (field_shape f) = 2" using ds pre by simp
    show ?thesis
      using assms magic data lay l two pre k type w storage pos le
      by (simp add: sim_field_patch_view_from_field_def sim_field_rank_def sim_field_data_def Let_def
          built_view_def sim_field_patch_view_is_valid_def sim_buffer_view_is_valid_def word_gt_0)
  qed
qed

section \<open>Iterating over the rows of a patch\<close>

text \<open>The bytes of one row of a patch, and the callback that copies the rows it is given.\<close>

definition patch_row_bytes :: "SimField \<Rightarrow> SimFieldPatch \<Rightarrow> nat \<Rightarrow> u8 list" where
  "patch_row_bytes f p r =
     take (unat (p_width p) * unat (f_element_size f))
       (drop (cell_position f (unat (p_x0 p)) (unat (p_y0 p) + r) * unat (f_element_size f)) (the (f_data f)))"

definition copy_row ::
  "nat \<Rightarrow> size_t \<Rightarrow> u8 list \<Rightarrow> size_t \<Rightarrow> (size_t \<times> u8 list) list \<Rightarrow> SimResult \<times> (size_t \<times> u8 list) list" where
  "copy_row k row row_data width rows = (SIM_RESULT_OK, rows @ [(row, take (unat width * k) row_data)])"

lemma iter_rows_loop_copy:
  "iter_rows_loop (copy_row k) v rs rows = (SIM_RESULT_OK, rows @ map (\<lambda>r. (word_of_nat r,
     take (unat (p_width (pv_patch v)) * k)
       (drop (unat (word_of_nat r * pv_row_stride v * sim_buffer_element_size (view_type (pv_buffer_view v))))
         (the (view_data (pv_buffer_view v)))))) rs)"
  by (induction rs arbitrary: rows) (simp_all add: copy_row_def)

lemma patch_row_inside:
  assumes "field_ok f" "length (field_shape f) \<le> 2" "patch_inside p"
    and "p_field_width p = sim_field_width (Some f)" "p_field_height p = sim_field_height (Some f)"
    and "r < unat (p_height p)"
  shows "cell_position f (unat (p_x0 p)) (unat (p_y0 p) + r) + unat (p_width p) \<le> prod_list (extents (field_shape f))"
proof -
  let ?W = "unat (sim_field_width (Some f))" and ?H = "unat (sim_field_height (Some f))"
  have in_x: "unat (p_x0 p) + unat (p_width p) \<le> ?W" and in_y: "unat (p_y0 p) + r < ?H"
    using assms(3-6) by (auto simp: patch_inside_def)
  have "(unat (p_y0 p) + r) * ?W + ?W \<le> ?H * ?W"
    using mult_le_mono1 [of "Suc (unat (p_y0 p) + r)" ?H ?W] in_y by simp
  moreover have "?H * ?W \<le> prod_list (extents (field_shape f))"
  proof (cases "length (field_shape f) = 1")
    case True
    obtain W where "field_shape f = [W]" "sim_field_width (Some f) = W" "sim_field_height (Some f) = 1"
      using field_line [OF assms(1) True] by blast
    then show ?thesis by simp
  next
    case False
    obtain pre H W where "field_shape f = pre @ [H, W]" "sim_field_width (Some f) = W"
      "sim_field_height (Some f) = H"
      using field_plane [OF assms(1) False] by blast
    then show ?thesis using assms(2) by simp
  qed
  ultimately show ?thesis using in_x by (simp add: cell_position_def)
qed

lemma built_view_row:
  assumes "field_ok f" "field_typed f" "length (field_shape f) \<le> 2" "patch_inside p"
    and "p_field_width p = sim_field_width (Some f)" "p_field_height p = sim_field_height (Some f)"
    and "unat base = cell_position f (unat (p_x0 p)) (unat (p_y0 p))" "r < unat (p_height p)"
    and v: "v = built_view f p readonly base"
  shows "take (unat (p_width p) * unat (f_element_size f))
      (drop (unat (word_of_nat r * pv_row_stride v * sim_buffer_element_size (view_type (pv_buffer_view v))))
        (the (view_data (pv_buffer_view v)))) = patch_row_bytes f p r"
    and "length (patch_row_bytes f p r) = unat (p_width p) * unat (f_element_size f)"
proof -
  let ?k = "unat (f_element_size f)" and ?W = "unat (sim_field_width (Some f))"
  obtain bytes where bytes: "f_data f = Some bytes" "length bytes < 2 ^ 63"
    "length bytes = prod_list (extents (field_shape f)) * ?k"
    using assms(1) by (auto simp: field_ok_def field_storage_ok_def)
  have fits: "cell_position f (unat (p_x0 p)) (unat (p_y0 p) + r) * ?k + unat (p_width p) * ?k \<le> length bytes"
    using mult_le_mono1 [OF patch_row_inside [OF assms(1,3-6,8)], of ?k] bytes(3)
    by (simp add: add_mult_distrib)
  then show "length (patch_row_bytes f p r) = unat (p_width p) * ?k"
    using bytes(1) by (simp add: patch_row_bytes_def)
  have pos: "cell_position f (unat (p_x0 p)) (unat (p_y0 p) + r) = unat base + r * ?W"
    by (simp add: assms(7) cell_position_def add_mult_distrib)
  have small: "unat base * ?k + r * ?W * ?k < 2 ^ 64"
    using fits bytes(2) by (simp add: pos add_mult_distrib)
  have "unat (base * f_element_size f) = unat base * ?k" using small by (intro unat_mult_exact) linarith
  moreover have "unat (word_of_nat r * pv_row_stride v * f_element_size f) = r * ?W * ?k"
  proof (cases "length (field_shape f) = 1")
    case True
    obtain W where "sim_field_height (Some f) = 1" using field_line [OF assms(1) True] by blast
    then have "r = 0" using assms(4,6,8) by (simp add: patch_inside_def)
    then show ?thesis by simp
  next
    case False
    have k0: "0 < ?k" using assms(1) by (simp add: field_ok_def field_storage_ok_def unat_gt_0)
    have "r * ?W \<le> r * ?W * ?k" using k0 by (cases ?k) simp_all
    then have rw: "r * ?W < 2 ^ 64" using small by linarith
    have r: "unat (word_of_nat r :: size_t) = r"
      using assms(8) unat_lt_64 [of "p_height p"] by (intro unat_word_of_nat_64) linarith
    have "unat (word_of_nat r * sim_field_width (Some f)) = r * ?W"
      using unat_mult_exact [of "word_of_nat r" "sim_field_width (Some f)"] rw r by simp
    then have "unat (word_of_nat r * sim_field_width (Some f) * f_element_size f) = r * ?W * ?k"
      using unat_mult_exact [of "word_of_nat r * sim_field_width (Some f)" "f_element_size f"] small by simp
    then show ?thesis using False by (simp add: v built_view_def Let_def)
  qed
  ultimately show "take (unat (p_width p) * ?k)
      (drop (unat (word_of_nat r * pv_row_stride v * sim_buffer_element_size (view_type (pv_buffer_view v))))
        (the (view_data (pv_buffer_view v)))) = patch_row_bytes f p r"
    using typed_field_type [OF assms(1,2)] bytes(1) unfolding patch_row_bytes_def pos
    by (simp add: v built_view_def Let_def add_mult_distrib add.commute)
qed

text \<open>
  Viewing a valid patch of a live field succeeds, and iterating over the rows of the view hands the
  callback the rows of the patch in order, each with the bytes of exactly its cells of the field's
  storage and none outside of it.
\<close>

theorem patch_rows_exact:
  assumes "field_ok f" "field_typed f" "length (field_shape f) \<le> 2" "sim_field_patch_is_valid (Some p)"
    and "p_field_width p = sim_field_width (Some f)" "p_field_height p = sim_field_height (Some f)"
  shows "\<exists>v. sim_field_patch_view_from_field (Some f) (Some p) readonly = Inr v \<and>
    sim_field_patch_iter_rows (Some v) (Some (copy_row (unat (f_element_size f)))) [] =
      (SIM_RESULT_OK, map (\<lambda>r. (word_of_nat r, patch_row_bytes f p r)) [0..<unat (p_height p)]) \<and>
    (\<forall>r < unat (p_height p). length (patch_row_bytes f p r) = unat (p_width p) * unat (f_element_size f))"
proof -
  have inside: "patch_inside p" using assms(4) by (simp add: patch_valid_iff)
  obtain base where base: "sim_field_xy_to_index (Some f) (p_x0 p) (p_y0 p) = Inr base"
    "unat base = cell_position f (unat (p_x0 p)) (unat (p_y0 p))"
    using patch_base(1) [OF assms(1,3) inside assms(5,6)] by blast
  let ?v = "built_view f p readonly base"
  note built = view_from_field_built [OF assms base(1), of readonly]
  have valid: "sim_field_patch_view_is_valid (Some ?v)"
    using built by (auto simp: sim_field_patch_view_from_field_def Let_def split: if_splits sum.splits)
  have count: "(if lay_rank (view_layout (pv_buffer_view ?v)) = 1 then 1 else p_height p) = p_height p"
  proof (cases "length (field_shape f) = 1")
    case True
    obtain W where "sim_field_height (Some f) = 1" using field_line [OF assms(1) True] by blast
    then have "unat (p_height p) = 1" using inside assms(6) by (simp add: patch_inside_def)
    then have "p_height p = 1" by (simp add: word_unat_eq_iff)
    then show ?thesis by simp
  qed (simp add: built_view_def Let_def)
  have patch: "pv_patch ?v = p" by (simp add: built_view_def Let_def)
  have "sim_field_patch_iter_rows (Some ?v) (Some (copy_row (unat (f_element_size f)))) [] =
      (SIM_RESULT_OK, map (\<lambda>r. (word_of_nat r, patch_row_bytes f p r)) [0..<unat (p_height p)])"
    using valid built_view_row(1) [OF assms(1-3) inside assms(5,6) base(2) _ refl]
    unfolding sim_field_patch_iter_rows_def Let_def option.case prod.case patch count iter_rows_loop_copy
    by simp
  then show ?thesis
    using built built_view_row(2) [OF assms(1-3) inside assms(5,6) base(2) _ refl] by blast
qed

definition demo_region :: SimFieldPatch where
  "demo_region = \<lparr>p_x0 = 1, p_y0 = 0, p_width = 2, p_height = 2, p_field_width = 3,
     p_field_height = 2, p_flags = sim_field_patch_compute_flags 3 2 1 0 2 2\<rparr>"

theorem patch_rows_exact_witness:
  "\<exists>v. sim_field_patch_view_from_field (Some (demo_field 8 sim_scalar_domain_f64)) (Some demo_region) True =
      Inr v \<and>
    sim_field_patch_iter_rows (Some v) (Some (copy_row 8)) [] =
      (SIM_RESULT_OK, [(0, replicate 16 0), (1, replicate 16 0)])"
proof -
  let ?f = "demo_field 8 sim_scalar_domain_f64"
  have t: "field_typed ?f" by (simp add: field_typed_def demo_field_def; code_simp)
  have p: "sim_field_patch_is_valid (Some demo_region)" by code_simp
  have wh: "p_field_width demo_region = sim_field_width (Some ?f)"
    "p_field_height demo_region = sim_field_height (Some ?f)"
    by (simp_all add: demo_region_def demo_field_def sim_field_width_def sim_field_height_def)
  have k: "f_element_size ?f = 8" and r: "length (field_shape ?f) \<le> 2"
    by (simp add: demo_field_def, simp)
  have b: "patch_row_bytes ?f demo_region 0 = replicate 16 0" "patch_row_bytes ?f demo_region (Suc 0) = replicate 16 0"
    by (simp_all add: patch_row_bytes_def demo_region_def demo_field_def cell_position_def sim_field_width_def)
  have h: "[0..<unat (p_height demo_region)] = [0, 1]" by (simp add: demo_region_def upt_rec)
  show ?thesis using patch_rows_exact [OF demo_field_ok t r p wh, of True] unfolding h
    by (auto simp: k b)
qed

text \<open>
  Without a scalar domain the view is typed from the representation alone: over a field of six
  four-byte elements, the view of all of them spans six eight-byte elements.
\<close>

lemma untyped_view_overruns:
  defines "f \<equiv> demo_field 4 sim_scalar_domain_unknown"
  shows "\<exists>v. sim_field_patch_view_from_field (Some f)
      (Some \<lparr>p_x0 = 0, p_y0 = 0, p_width = 3, p_height = 2, p_field_width = 3, p_field_height = 2, p_flags = 7\<rparr>)
      True = Inr v \<and> sim_buffer_element_size (view_type (pv_buffer_view v)) = 8 \<and>
      view_count (pv_buffer_view v) = 6 \<and> length (the (view_data (pv_buffer_view v))) = 24"
proof -
  have "sim_scalar_domain_from_field (Some f) = sim_scalar_domain_f64"
    by (simp add: f_def demo_field_def sim_scalar_domain_from_field_def sim_field_representation_def
        initial_repr_def Let_def; code_simp)
  moreover have "sim_buffer_element_size (sim_buffer_data_type_from_scalar_domain sim_scalar_domain_f64) = 8"
    by code_simp
  moreover have "f_storage f = SIM_FIELD_STORAGE_ROW_MAJOR" by (cases "f_storage f") simp
  ultimately show ?thesis unfolding f_def
    by (simp add: demo_field_def sim_field_patch_view_from_field_def sim_field_rank_def
        sim_field_data_def sim_field_width_def sim_field_height_def Let_def sim_field_patch_is_valid_def
        sim_field_xy_to_index_def sim_field_patch_view_is_valid_def sim_buffer_view_is_valid_def
        sim_field_scalar_domain_def sim_scalar_domain_unknown_def sim_scalar_domain_make_def)
qed

end
