(* ===== verification/Bounded_History.thy ===== *)
theory Bounded_History
  imports Main
begin

text \<open>
  Buffers that keep the newest entries: the bound on what a list of entries retains, and the contract of
  an append operation that drops the oldest entry when it is full. The asynchronous logger and the
  history of step metrics provide it.
\<close>

definition newest :: "nat \<Rightarrow> 'a list \<Rightarrow> 'a list" where
  "newest n xs = drop (length xs - n) xs"

lemma newest_newest: "newest n (newest n xs @ ys) = newest n (xs @ ys)"
proof (cases "length xs \<le> n")
  case False
  then show ?thesis
    by (cases "length ys \<le> n") (simp_all add: newest_def add.commute)
qed (simp add: newest_def)

lemma length_newest: "length (newest n xs) = min n (length xs)"
  by (simp add: newest_def)

text \<open>
  \<open>room\<close> is the number of insertions the buffer still supports (the counters of an implementation are
  finite), \<open>contents\<close> its entries, oldest first.
\<close>

locale bounded_history =
  fixes invar :: "'s \<Rightarrow> bool"
    and room :: "'s \<Rightarrow> nat"
    and bound :: "'s \<Rightarrow> nat"
    and contents :: "'s \<Rightarrow> 'e list"
    and accepts :: "'i \<Rightarrow> bool"
    and entry :: "'i \<Rightarrow> 'e"
    and append :: "'i \<Rightarrow> 's \<Rightarrow> 's"
  assumes append_law: "invar s \<Longrightarrow> 0 < room s \<Longrightarrow> accepts i \<Longrightarrow>
      invar (append i s) \<and> room s \<le> Suc (room (append i s)) \<and> bound (append i s) = bound s \<and>
      contents (append i s) = newest (bound s) (contents s @ [entry i])"
begin

lemma append_all:
  assumes "invar s" "length is \<le> room s" "\<forall>i \<in> set is. accepts i"
  shows "invar (fold append is s) \<and> bound (fold append is s) = bound s \<and>
    newest (bound s) (contents (fold append is s)) = newest (bound s) (contents s @ map entry is)"
  using assms
proof (induction "is" arbitrary: s)
  case (Cons i "is")
  have s: "invar (append i s)" "room s \<le> Suc (room (append i s))" "bound (append i s) = bound s"
    "contents (append i s) = newest (bound s) (contents s @ [entry i])"
    using append_law [of s i] Cons.prems by auto
  have "invar (fold append is (append i s)) \<and> bound (fold append is (append i s)) = bound (append i s) \<and>
    newest (bound (append i s)) (contents (fold append is (append i s))) =
      newest (bound (append i s)) (contents (append i s) @ map entry is)"
    using s Cons.prems by (intro Cons.IH) auto
  then show ?case
    using s newest_newest [of "bound s" "contents s @ [entry i]" "map entry is"] by simp
qed simp

end

end
