(* ===== verification/Async_Logger.thy ===== *)
theory Async_Logger
  imports Oak_Prelude Bounded_History
begin

text \<open>
  \<^verbatim>\<open>core/src/async_logger.c\<close>: the ring buffer behind the asynchronous logger, with its operations run
  one at a time. \<open>head\<close> and \<open>tail\<close> are 64-bit counters; the monotonic clock and the identity of the
  calling thread are arguments of the operation that reads them. A message is the list of its bytes
  before the terminator. The operations refine a bounded queue that drops its oldest entry; the
  interleavings of several threads are the subject of theory \<open>Logger_Steps\<close>.
\<close>

unbundle bit_operations_syntax

section \<open>Data\<close>

definition SIM_ASYNC_LOGGER_MESSAGE_MAX :: nat where
  "SIM_ASYNC_LOGGER_MESSAGE_MAX = 255"

datatype SimLogLevel =
    SIM_LOG_LEVEL_TRACE
  | SIM_LOG_LEVEL_DEBUG
  | SIM_LOG_LEVEL_INFO
  | SIM_LOG_LEVEL_WARN
  | SIM_LOG_LEVEL_ERROR
  | SIM_LOG_LEVEL_FATAL

record SimAsyncLogRecord =
  lr_timestamp_ns :: u64
  lr_thread_id :: u32
  lr_level :: SimLogLevel
  lr_message :: "u8 list"

record SimAsyncLogger =
  lg_records :: "SimAsyncLogRecord list option"
  lg_capacity :: size_t
  lg_head :: size_t
  lg_tail :: size_t

text \<open>The record of all zero bytes, as \<^verbatim>\<open>calloc\<close> leaves it, and the logger \<^verbatim>\<open>memset\<close> leaves.\<close>

definition zero_record :: SimAsyncLogRecord where
  "zero_record = \<lparr>lr_timestamp_ns = 0, lr_thread_id = 0, lr_level = SIM_LOG_LEVEL_TRACE,
     lr_message = replicate (SIM_ASYNC_LOGGER_MESSAGE_MAX + 1) 0\<rparr>"

definition zero_logger :: SimAsyncLogger where
  "zero_logger = \<lparr>lg_records = None, lg_capacity = 0, lg_head = 0, lg_tail = 0\<rparr>"

definition sizeof_log_record :: nat where
  "sizeof_log_record = 272"

section \<open>Operations\<close>

partial_function (option) pow2_loop :: "size_t \<Rightarrow> size_t \<Rightarrow> size_t option" where
  "pow2_loop val n = (if n < val then pow2_loop val (push_bit 1 n) else Some n)"

declare pow2_loop.simps [code]

definition sim_async_logger_next_pow2 :: "size_t \<Rightarrow> size_t option" where
  "sim_async_logger_next_pow2 val =
     (if val = 0 then Some 64
      else Option.bind (pow2_loop val 1) (\<lambda>n. Some (if n < 64 then 64 else n)))"

text \<open>The value \<open>None\<close> of the outer option is a call that does not return.\<close>

definition sim_async_logger_init ::
  "heap \<Rightarrow> SimAsyncLogger option \<Rightarrow> size_t \<Rightarrow> (SimResult \<times> SimAsyncLogger option) option" where
  "sim_async_logger_init heap logger capacity =
     (case logger of
        None \<Rightarrow> Some (SIM_RESULT_INVALID_ARGUMENT, None)
      | Some _ \<Rightarrow>
          Option.bind (sim_async_logger_next_pow2 capacity) (\<lambda>n.
            if \<not> calloc_ok heap (unat n) sizeof_log_record
            then Some (SIM_RESULT_OUT_OF_MEMORY, Some zero_logger)
            else Some (SIM_RESULT_OK, Some (zero_logger\<lparr>lg_capacity := n,
                   lg_records := Some (replicate (unat n) zero_record), lg_head := 0, lg_tail := 0\<rparr>))))"

definition sim_async_logger_destroy :: "SimAsyncLogger option \<Rightarrow> SimAsyncLogger option" where
  "sim_async_logger_destroy logger =
     map_option (\<lambda>l. l\<lparr>lg_records := None, lg_capacity := 0, lg_head := 0, lg_tail := 0\<rparr>) logger"

text \<open>The atomic compare-and-swap: whether it succeeded, and the new value of the variable.\<close>

definition compare_exchange :: "size_t \<Rightarrow> size_t \<Rightarrow> size_t \<Rightarrow> bool \<times> size_t" where
  "compare_exchange current expected desired =
     (if current = expected then (True, desired) else (False, current))"

text \<open>
  \<^verbatim>\<open>snprintf(buf, sizeof buf, "%s", s)\<close> writes at most all but one byte and a terminator and leaves
  the rest of the buffer as it was; the source then terminates the buffer again at its last byte.
\<close>

definition snprintf_s :: "u8 list \<Rightarrow> u8 list \<Rightarrow> u8 list" where
  "snprintf_s buf s =
     (let n = min (length buf - 1) (length s) in take n s @ [0] @ drop (Suc n) buf)"

definition store_message :: "u8 list \<Rightarrow> u8 list \<Rightarrow> u8 list" where
  "store_message buf s = (snprintf_s buf s)[SIM_ASYNC_LOGGER_MESSAGE_MAX := 0]"

definition slot_index :: "SimAsyncLogger \<Rightarrow> size_t \<Rightarrow> nat" where
  "slot_index l slot = unat (slot AND (lg_capacity l - 1))"

definition write_record ::
  "u64 \<Rightarrow> u32 \<Rightarrow> SimLogLevel \<Rightarrow> u8 list \<Rightarrow> SimAsyncLogRecord \<Rightarrow> SimAsyncLogRecord" where
  "write_record now_ns thread_id level message r =
     r\<lparr>lr_timestamp_ns := now_ns, lr_thread_id := thread_id, lr_level := level,
       lr_message := store_message (lr_message r) message\<rparr>"

definition sim_async_logger_log ::
  "u64 \<Rightarrow> u32 \<Rightarrow> SimAsyncLogger option \<Rightarrow> SimLogLevel \<Rightarrow> u8 list option \<Rightarrow>
   SimResult \<times> SimAsyncLogger option" where
  "sim_async_logger_log now_ns thread_id logger level message =
     (case (logger, message) of
        (Some l, Some msg) \<Rightarrow>
          (case lg_records l of
             None \<Rightarrow> (SIM_RESULT_INVALID_ARGUMENT, logger)
           | Some records \<Rightarrow>
               (let slot = lg_head l;
                    l = l\<lparr>lg_head := lg_head l + 1\<rparr>;
                    index = slot_index l slot;
                    tail = lg_tail l;
                    l = (if slot - tail \<ge> lg_capacity l
                         then l\<lparr>lg_tail := snd (compare_exchange (lg_tail l) tail (tail + 1))\<rparr> else l)
                in (SIM_RESULT_OK, Some (l\<lparr>lg_records :=
                      Some (records[index := write_record now_ns thread_id level msg (records ! index)])\<rparr>))))
      | _ \<Rightarrow> (SIM_RESULT_INVALID_ARGUMENT, logger))"

text \<open>The claiming loop of \<^verbatim>\<open>sim_async_logger_pop\<close>: the claimed tail, or nothing when the ring is empty.\<close>

partial_function (option) pop_claim :: "SimAsyncLogger \<Rightarrow> (size_t \<times> SimAsyncLogger) option option" where
  "pop_claim l =
     (let tail = lg_tail l; head = lg_head l
      in if tail \<ge> head then Some None
         else let (claimed, tail') = compare_exchange (lg_tail l) tail (tail + 1)
              in if claimed then Some (Some (tail, l\<lparr>lg_tail := tail'\<rparr>))
                 else pop_claim (l\<lparr>lg_tail := tail'\<rparr>))"

declare pop_claim.simps [code]

definition sim_async_logger_pop ::
  "SimAsyncLogger option \<Rightarrow> (bool \<times> SimAsyncLogRecord option \<times> SimAsyncLogger option) option" where
  "sim_async_logger_pop logger =
     (case logger of
        None \<Rightarrow> Some (False, None, logger)
      | Some l \<Rightarrow>
          (case lg_records l of
             None \<Rightarrow> Some (False, None, logger)
           | Some records \<Rightarrow>
               Option.bind (pop_claim l) (\<lambda>claim.
                 case claim of
                   None \<Rightarrow> Some (False, None, logger)
                 | Some (tail, l') \<Rightarrow> Some (True, Some (records ! slot_index l' tail), Some l'))))"

definition sim_async_logger_clear :: "SimAsyncLogger option \<Rightarrow> SimAsyncLogger option" where
  "sim_async_logger_clear logger = map_option (\<lambda>l. l\<lparr>lg_tail := lg_head l\<rparr>) logger"

section \<open>Rounding the capacity\<close>

lemma pow2_loop_returns:
  assumes "k \<le> m" "m \<le> 63" "\<And>j. k \<le> j \<Longrightarrow> j < m \<Longrightarrow> 2 ^ j < unat val" "unat val \<le> 2 ^ m"
  shows "pow2_loop val (word_of_nat (2 ^ k)) = Some (word_of_nat (2 ^ m))"
  using assms
proof (induction "m - k" arbitrary: k)
  case 0
  then have "k = m" by simp
  have "(2 :: nat) ^ m < 2 ^ 64" using 0 by (intro power_strict_increasing) simp_all
  then have "unat (word_of_nat (2 ^ m) :: size_t) = 2 ^ m" by (rule unat_word_of_nat_64)
  then have "\<not> (word_of_nat (2 ^ m) :: size_t) < val" using 0 by (simp add: word_less_nat_alt)
  then show ?case unfolding \<open>k = m\<close> by (subst pow2_loop.simps) simp
next
  case (Suc d)
  then have km: "k < m" by simp
  have "(2 :: nat) ^ k < 2 ^ 64" using km Suc.prems by (intro power_strict_increasing) simp_all
  then have "unat (word_of_nat (2 ^ k) :: size_t) = 2 ^ k" by (rule unat_word_of_nat_64)
  then have "(word_of_nat (2 ^ k) :: size_t) < val" using Suc.prems(3) [of k] km by (simp add: word_less_nat_alt)
  moreover have "push_bit 1 (word_of_nat (2 ^ k)) = (word_of_nat (2 ^ Suc k) :: size_t)"
    by (simp add: push_bit_eq_mult mult.commute)
  moreover have "pow2_loop val (word_of_nat (2 ^ Suc k)) = Some (word_of_nat (2 ^ m))"
    using Suc.hyps(1) [of "Suc k"] Suc.hyps(2) Suc.prems km by simp
  ultimately show ?case by (subst pow2_loop.simps) (simp only: if_True)
qed

lemma least_pow2:
  assumes "0 < v" "v \<le> 2 ^ 63"
  obtains m where "m \<le> 63" "v \<le> 2 ^ m" "\<And>j. j < m \<Longrightarrow> 2 ^ j < (v :: nat)"
proof
  let ?m = "LEAST m. v \<le> 2 ^ m"
  show "?m \<le> 63" "v \<le> 2 ^ ?m" 
    using Least_le [of "\<lambda>m. v \<le> 2 ^ m", OF assms(2)] LeastI [of "\<lambda>m. v \<le> 2 ^ m", OF assms(2)] by simp_all
  show "2 ^ j < v" if "j < ?m" for j using not_less_Least [OF that] by simp
qed

lemma unat_pow2: "m \<le> 63 \<Longrightarrow> unat (word_of_nat (2 ^ m) :: size_t) = 2 ^ m"
  by (intro unat_word_of_nat_64 power_strict_increasing) simp_all

text \<open>Above \<open>2 ^ 63\<close> the shifted value reaches zero and the loop never ends.\<close>

lemma pow2_loop_diverges:
  assumes "pow2_loop val n = Some y"
  shows "unat val \<le> 2 ^ 63 \<or> n \<noteq> 0 \<and> (\<forall>k. n \<noteq> 2 ^ k)"
proof (rule pow2_loop.raw_induct [where P = "\<lambda>val n y. unat val \<le> 2 ^ 63 \<or> n \<noteq> 0 \<and> (\<forall>k. n \<noteq> 2 ^ k)", OF _ assms])
  fix f and val n y :: size_t
  assume IH: "\<And>val n y. f val n = Some y \<Longrightarrow> unat val \<le> 2 ^ 63 \<or> n \<noteq> 0 \<and> (\<forall>k. n \<noteq> 2 ^ k)"
    and run: "(if n < val then f val (push_bit 1 n) else Some n) = Some y"
  show "unat val \<le> 2 ^ 63 \<or> n \<noteq> 0 \<and> (\<forall>k. n \<noteq> 2 ^ k)"
  proof (rule ccontr)
    assume "\<not> ?thesis"
    then have big: "\<not> unat val \<le> 2 ^ 63" and n: "n = 0 \<or> (\<exists>k. n = 2 ^ k)" by auto
    have "push_bit 1 n = 0 \<or> (\<exists>k. push_bit 1 n = 2 ^ k)"
      using n by (auto simp: push_bit_eq_mult mult.commute intro: exI [of _ "Suc _"])
    then have "\<not> n < val" using IH [of val "push_bit 1 n" y] run big by auto
    then have ge: "unat val \<le> unat n" by (simp add: word_le_nat_alt not_less)
    then have "n \<noteq> 0" using big by auto
    then obtain k where k: "n = 2 ^ k" using n by blast
    show False
    proof (cases "k \<le> 63")
      case True
      then have "unat n = 2 ^ k" using unat_pow2 [of k] k by simp
      moreover have "(2 :: nat) ^ k \<le> 2 ^ 63" using True by (intro power_increasing) simp_all
      ultimately show False using ge big by linarith
    next
      case False
      then have "n = 0" using k by (simp add: exp_eq_zero_iff)
      then show False using \<open>n \<noteq> 0\<close> by simp
    qed
  qed
qed

lemma next_pow2_small:
  assumes small: "unat val \<le> 2 ^ 63"
  shows "\<exists>m \<ge> 6. sim_async_logger_next_pow2 val = Some (2 ^ m) \<and> m \<le> 63 \<and>
      unat val \<le> 2 ^ m \<and> (\<forall>j \<in> {6..<m}. 2 ^ j < unat val)"
proof (cases "val = 0")
  case True
  then show ?thesis by (auto simp: sim_async_logger_next_pow2_def intro!: exI [of _ 6])
next
  case False
  then have "0 < unat val" by (simp add: unat_gt_0)
  then obtain m where m: "m \<le> 63" "unat val \<le> 2 ^ m" "\<And>j. j < m \<Longrightarrow> 2 ^ j < unat val"
    using least_pow2 [OF _ small] by blast
  have "pow2_loop val 1 = Some (word_of_nat (2 ^ m))"
    using pow2_loop_returns [of 0 m val] m by simp
  moreover have "(word_of_nat (2 ^ m) :: size_t) < 64 \<longleftrightarrow> m < 6"
  proof -
    have "(word_of_nat (2 ^ m) :: size_t) < 64 \<longleftrightarrow> (2 :: nat) ^ m < 2 ^ 6"
      using unat_pow2 [OF m(1)] by (simp add: word_less_nat_alt)
    also have "\<dots> \<longleftrightarrow> m < 6" by (rule power_strict_increasing_iff) simp
    finally show ?thesis .
  qed
  moreover have "unat val \<le> 64" if "m < 6"
    using m(2) power_increasing [of m 6 "2 :: nat"] that by simp
  ultimately show ?thesis using False small m
    by (cases "m < 6") (auto simp: sim_async_logger_next_pow2_def max_def intro!: exI [of _ "max 6 m"])
qed

lemma next_pow2_large:
  assumes "\<not> unat val \<le> 2 ^ 63"
  shows "sim_async_logger_next_pow2 val = None"
proof -
  have "pow2_loop val 1 = None"
    using pow2_loop_diverges [of val 1] assms by (cases "pow2_loop val 1") (auto dest: spec [of _ 0])
  moreover have "val \<noteq> 0" using assms by auto
  ultimately show ?thesis by (simp add: sim_async_logger_next_pow2_def)
qed

lemma next_pow2_power:
  assumes "sim_async_logger_next_pow2 val = Some n"
  obtains m where "n = 2 ^ m" "m \<le> 63" "unat val \<le> 2 ^ m"
  using assms next_pow2_small [of val] next_pow2_large [of val] by fastforce

text \<open>
  Rounding a capacity returns the least power of two that is at least the request and at least
  64, for every request up to \<open>2 ^ 63\<close>; on a larger request it never returns.
\<close>

theorem next_pow2_exact:
  "if unat val \<le> 2 ^ 63
   then \<exists>m \<ge> 6. sim_async_logger_next_pow2 val = Some (2 ^ m) \<and> m \<le> 63 \<and>
     unat val \<le> 2 ^ m \<and> (\<forall>j \<in> {6..<m}. 2 ^ j < unat val)
   else sim_async_logger_next_pow2 val = None"
  using next_pow2_small next_pow2_large by presburger

theorem next_pow2_exact_witness:
  "sim_async_logger_next_pow2 (2 ^ 63 + 1) = None"
  using next_pow2_exact [of "2 ^ 63 + 1"] by simp

section \<open>Bounded queues that drop their oldest entry\<close>

text \<open>Taking entries until none is left, at most \<open>n\<close> times.\<close>

fun drain :: "('s \<Rightarrow> ('e \<times> 's) option) \<Rightarrow> nat \<Rightarrow> 's \<Rightarrow> 'e list" where
  "drain take_first 0 s = []"
| "drain take_first (Suc n) s =
     (case take_first s of None \<Rightarrow> [] | Some (e, s') \<Rightarrow> e # drain take_first n s')"

text \<open>A bounded history whose oldest entry can be taken out.\<close>

locale drop_oldest_queue = bounded_history invar room bound contents accepts entry append
  for invar :: "'s \<Rightarrow> bool"
    and room :: "'s \<Rightarrow> nat"
    and bound :: "'s \<Rightarrow> nat"
    and contents :: "'s \<Rightarrow> 'e list"
    and accepts :: "'i \<Rightarrow> bool"
    and entry :: "'i \<Rightarrow> 'e"
    and append :: "'i \<Rightarrow> 's \<Rightarrow> 's" +
  fixes take_first :: "'s \<Rightarrow> ('e \<times> 's) option"
  assumes take_empty: "invar s \<Longrightarrow> contents s = [] \<Longrightarrow> take_first s = None"
    and take_some: "invar s \<Longrightarrow> contents s = e # es \<Longrightarrow>
      \<exists>s'. take_first s = Some (e, s') \<and> invar s' \<and> contents s' = es"
begin

lemma drain_contents: "invar s \<Longrightarrow> length (contents s) \<le> n \<Longrightarrow> drain take_first n s = contents s"
proof (induction n arbitrary: s)
  case (Suc n)
  show ?case
  proof (cases "contents s")
    case Nil
    then show ?thesis using take_empty [OF Suc.prems(1)] by simp
  next
    case (Cons e es)
    then obtain s' where "take_first s = Some (e, s')" "invar s'" "contents s' = es"
      using take_some [OF Suc.prems(1)] by blast
    then show ?thesis using Suc.IH [of s'] Suc.prems Cons by simp
  qed
qed simp

end

section \<open>The ring is such a queue\<close>

type_synonym log_entry = "u64 \<times> u32 \<times> SimLogLevel \<times> u8 list"

definition record_entry :: "SimAsyncLogRecord \<Rightarrow> log_entry" where
  "record_entry r =
     (lr_timestamp_ns r, lr_thread_id r, lr_level r, takeWhile (\<lambda>b. b \<noteq> 0) (lr_message r))"

definition ring_ok :: "SimAsyncLogger \<Rightarrow> bool" where
  "ring_ok l \<longleftrightarrow>
     (\<exists>rs m. lg_records l = Some rs \<and> lg_capacity l = 2 ^ m \<and> m \<le> 63 \<and> length rs = 2 ^ m \<and>
        (\<forall>r \<in> set rs. length (lr_message r) = SIM_ASYNC_LOGGER_MESSAGE_MAX + 1)) \<and>
     lg_tail l \<le> lg_head l \<and> unat (lg_head l) - unat (lg_tail l) \<le> unat (lg_capacity l)"

definition ring_entry :: "SimAsyncLogger \<Rightarrow> nat \<Rightarrow> log_entry" where
  "ring_entry l i = record_entry (the (lg_records l) ! (i mod unat (lg_capacity l)))"

definition ring_contents :: "SimAsyncLogger \<Rightarrow> log_entry list" where
  "ring_contents l = map (ring_entry l) [unat (lg_tail l)..<unat (lg_head l)]"

definition ring_room :: "SimAsyncLogger \<Rightarrow> nat" where
  "ring_room l = 2 ^ 64 - 1 - unat (lg_head l)"

fun input_entry :: "u64 \<times> u32 \<times> SimLogLevel \<times> u8 list \<Rightarrow> log_entry" where
  "input_entry (now, thread, level, msg) = (now, thread, level, take SIM_ASYNC_LOGGER_MESSAGE_MAX msg)"

fun c_string :: "u64 \<times> u32 \<times> SimLogLevel \<times> u8 list \<Rightarrow> bool" where
  "c_string (now, thread, level, msg) \<longleftrightarrow> 0 \<notin> set msg"

fun log_input :: "u64 \<times> u32 \<times> SimLogLevel \<times> u8 list \<Rightarrow> SimAsyncLogger \<Rightarrow> SimAsyncLogger" where
  "log_input (now, thread, level, msg) l =
     the (snd (sim_async_logger_log now thread (Some l) level (Some msg)))"

definition pop_entry :: "SimAsyncLogger \<Rightarrow> (log_entry \<times> SimAsyncLogger) option" where
  "pop_entry l =
     (case sim_async_logger_pop (Some l) of
        Some (True, Some r, Some l') \<Rightarrow> Some (record_entry r, l')
      | _ \<Rightarrow> None)"

lemma unat_exp: "m \<le> 63 \<Longrightarrow> unat (2 ^ m :: size_t) = 2 ^ m"
  using unat_pow2 [of m] by simp

lemma slot_index_mod:
  assumes "lg_capacity l = 2 ^ m" "m \<le> 63"
  shows "slot_index l slot = unat slot mod unat (lg_capacity l)"
proof -
  have "slot AND (2 ^ m - 1) = take_bit m slot"
    by (simp add: take_bit_eq_mask mask_eq_exp_minus_1)
  then have "slot_index l slot = unat (take_bit m slot)" by (simp only: slot_index_def assms(1))
  also have "\<dots> = take_bit m (unat slot)" by (rule unsigned_take_bit_eq)
  also have "\<dots> = unat slot mod 2 ^ m" by (rule take_bit_eq_mod)
  finally show ?thesis using unat_exp [OF assms(2)] assms(1) by simp
qed

lemma update_terminator: "\<exists>zs. (0 # ys)[k := 0] = 0 # zs"
  by (cases k) auto

lemma stored_string:
  assumes "length buf = SIM_ASYNC_LOGGER_MESSAGE_MAX + 1" "0 \<notin> set msg"
  shows "length (store_message buf msg) = SIM_ASYNC_LOGGER_MESSAGE_MAX + 1"
    and "takeWhile (\<lambda>b. b \<noteq> 0) (store_message buf msg) = take SIM_ASYNC_LOGGER_MESSAGE_MAX msg"
proof -
  let ?n = "min SIM_ASYNC_LOGGER_MESSAGE_MAX (length msg)"
  have s: "snprintf_s buf msg = take ?n msg @ 0 # drop (Suc ?n) buf"
    using assms(1) by (simp add: snprintf_s_def Let_def)
  have "store_message buf msg = take ?n msg @ (0 # drop (Suc ?n) buf)[SIM_ASYNC_LOGGER_MESSAGE_MAX - ?n := 0]"
    unfolding store_message_def s by (simp add: list_update_append)
  moreover obtain zs where "(0 # drop (Suc ?n) buf)[SIM_ASYNC_LOGGER_MESSAGE_MAX - ?n := 0] = 0 # zs"
    using update_terminator by blast
  ultimately have eq: "store_message buf msg = take ?n msg @ 0 # zs" by simp
  have "\<forall>b \<in> set (take ?n msg). b \<noteq> 0" using assms(2) by (metis in_set_takeD)
  then show "takeWhile (\<lambda>b. b \<noteq> 0) (store_message buf msg) = take SIM_ASYNC_LOGGER_MESSAGE_MAX msg"
    unfolding eq by (subst takeWhile_append2) (auto simp: min_def)
  show "length (store_message buf msg) = SIM_ASYNC_LOGGER_MESSAGE_MAX + 1"
    unfolding store_message_def s using assms(1) by (simp add: min_def)
qed

lemma apart_mod:
  fixes i h c :: nat
  assumes "i < h" "h - i < c"
  shows "i mod c \<noteq> h mod c"
proof
  assume "i mod c = h mod c"
  then have "c dvd h - i" using assms(1) mod_eq_dvd_iff_nat [of i h c] by simp
  then show False using assms by (auto dest: dvd_imp_le)
qed

lemma ring_okE:
  assumes "ring_ok l"
  obtains rs m where "lg_records l = Some rs" "lg_capacity l = 2 ^ m" "m \<le> 63" "length rs = unat (lg_capacity l)"
    "0 < unat (lg_capacity l)" "\<forall>r \<in> set rs. length (lr_message r) = SIM_ASYNC_LOGGER_MESSAGE_MAX + 1"
    "unat (lg_tail l) \<le> unat (lg_head l)" "unat (lg_head l) - unat (lg_tail l) \<le> unat (lg_capacity l)"
  using assms unat_exp unfolding ring_ok_def word_le_nat_alt by (metis zero_less_numeral zero_less_power)

text \<open>What one call of the logging operation does to a ring that satisfies its invariant.\<close>

lemma log_shape:
  assumes "ring_ok l" "unat (lg_head l) < 2 ^ 64 - 1"
  shows "\<exists>l'. sim_async_logger_log now thread (Some l) level (Some msg) = (SIM_RESULT_OK, Some l') \<and>
    lg_capacity l' = lg_capacity l \<and> unat (lg_head l') = Suc (unat (lg_head l)) \<and>
    unat (lg_tail l') = max (unat (lg_tail l)) (Suc (unat (lg_head l)) - unat (lg_capacity l)) \<and>
    (let i = unat (lg_head l) mod unat (lg_capacity l); rs = the (lg_records l)
     in lg_records l' = Some (rs[i := write_record now thread level msg (rs ! i)]))"
proof -
  obtain rs m where r: "lg_records l = Some rs" "lg_capacity l = 2 ^ m" "m \<le> 63" "0 < unat (lg_capacity l)"
    and le: "unat (lg_tail l) \<le> unat (lg_head l)"
    and c: "unat (lg_head l) - unat (lg_tail l) \<le> unat (lg_capacity l)"
    using assms(1) by (elim ring_okE) blast
  have "lg_tail l \<le> lg_head l" using le by (simp add: word_le_nat_alt)
  then have d: "unat (lg_head l - lg_tail l) = unat (lg_head l) - unat (lg_tail l)" by (simp add: unat_sub)
  then have full: "lg_capacity l \<le> lg_head l - lg_tail l \<longleftrightarrow> unat (lg_capacity l) = unat (lg_head l) - unat (lg_tail l)"
    using c by (auto simp: word_le_nat_alt)
  have h: "unat (lg_head l + 1) = Suc (unat (lg_head l))"
    using unat_add_exact [of "lg_head l" 1] assms(2) by simp
  have t: "unat (lg_tail l + 1) = Suc (unat (lg_tail l))"
    using unat_add_exact [of "lg_tail l" 1] assms(2) le by simp
  show ?thesis
    using r le c full h t slot_index_mod [of "l\<lparr>lg_head := lg_head l + 1\<rparr>" m "lg_head l"]
    by (auto simp: sim_async_logger_log_def Let_def compare_exchange_def max_def)
qed

lemma log_step:
  assumes "ring_ok l" "0 < ring_room l" "c_string i"
  shows "ring_ok (log_input i l)" "ring_room l = Suc (ring_room (log_input i l))"
    "lg_capacity (log_input i l) = lg_capacity l"
    "ring_contents (log_input i l) = newest (unat (lg_capacity l)) (ring_contents l @ [input_entry i])"
proof -
  obtain now thread level msg where i: "i = (now, thread, level, msg)" by (cases i)
  let ?h = "unat (lg_head l)" and ?t = "unat (lg_tail l)" and ?c = "unat (lg_capacity l)"
  let ?l = "log_input i l" and ?rs = "the (lg_records l)"
  let ?w = "write_record now thread level msg (?rs ! (?h mod ?c))"
  have wrap: "?h < 2 ^ 64 - 1" using assms(2) by (simp add: ring_room_def)
  have l': "lg_capacity ?l = lg_capacity l" "unat (lg_head ?l) = Suc ?h" "unat (lg_tail ?l) = max ?t (Suc ?h - ?c)"
    "lg_records ?l = Some (?rs[?h mod ?c := ?w])"
    using log_shape [OF assms(1) wrap, of now thread level msg] by (auto simp: i Let_def)
  then show "lg_capacity ?l = lg_capacity l" "ring_room l = Suc (ring_room ?l)"
    using wrap by (auto simp: ring_room_def)
  obtain m where m: "lg_records l = Some ?rs" "lg_capacity l = 2 ^ m" "m \<le> 63" "length ?rs = ?c" "0 < ?c" "?t \<le> ?h"
    "\<forall>r \<in> set ?rs. length (lr_message r) = SIM_ASYNC_LOGGER_MESSAGE_MAX + 1" "?h - ?t \<le> ?c"
    using assms(1) by (elim ring_okE) simp
  have old: "length (lr_message (?rs ! (?h mod ?c))) = SIM_ASYNC_LOGGER_MESSAGE_MAX + 1" using m by simp
  note stored = stored_string [OF old, of msg]
  have msgs: "\<forall>r \<in> set (?rs[?h mod ?c := ?w]). length (lr_message r) = SIM_ASYNC_LOGGER_MESSAGE_MAX + 1"
    using m(7) stored(1) assms(3) i
    by (auto simp: write_record_def dest!: set_update_subset_insert [THEN subsetD])
  show "ring_ok ?l"
    unfolding ring_ok_def l'(4) word_le_nat_alt l'(1-3) using m msgs unat_exp by auto
  have same: "ring_entry ?l k = ring_entry l k" if "k < ?h" "?h - k < ?c" for k
    using apart_mod [OF that] by (simp add: ring_entry_def l')
  have new: "ring_entry ?l ?h = input_entry i"
    unfolding ring_entry_def l'(1,4) using m(4,5) stored(2) assms(3)
    by (simp add: i record_entry_def write_record_def)
  have "ring_contents ?l = map (ring_entry l) [max ?t (Suc ?h - ?c)..<?h] @ [input_entry i]"
    using m(5,6) by (auto simp: ring_contents_def l' new intro!: same)
  also have "\<dots> = newest ?c (ring_contents l @ [input_entry i])"
  proof -
    have "max ?t (Suc ?h - ?c) = ?t + (Suc ?h - (?t + ?c))" by simp
    then show ?thesis using m(5,6,8) by (simp add: newest_def ring_contents_def drop_map Suc_diff_le)
  qed
  finally show "ring_contents ?l = newest ?c (ring_contents l @ [input_entry i])" .
qed

lemma pop_claim_alone:
  "pop_claim l =
     Some (if lg_tail l \<ge> lg_head l then None else Some (lg_tail l, l\<lparr>lg_tail := lg_tail l + 1\<rparr>))"
  by (subst pop_claim.simps) (simp add: compare_exchange_def Let_def)

lemma pop_empty:
  assumes "ring_ok l" "ring_contents l = []"
  shows "sim_async_logger_pop (Some l) = Some (False, None, Some l)"
  using assms
  by (auto simp: sim_async_logger_pop_def pop_claim_alone ring_contents_def word_le_nat_alt
      split: option.splits)

lemma pop_step:
  assumes "ring_ok l" "ring_contents l = e # es"
  shows "\<exists>r l'. sim_async_logger_pop (Some l) = Some (True, Some r, Some l') \<and> record_entry r = e \<and>
    ring_ok l' \<and> ring_contents l' = es"
proof -
  let ?t = "unat (lg_tail l)" and ?h = "unat (lg_head l)" and ?l = "l\<lparr>lg_tail := lg_tail l + 1\<rparr>"
  obtain rs m where r: "lg_records l = Some rs" "lg_capacity l = 2 ^ m" "m \<le> 63"
    using assms(1) by (elim ring_okE) blast
  have less: "?t < ?h" using assms(2) by (cases "?t < ?h") (auto simp: ring_contents_def)
  then have t: "unat (lg_tail l + 1) = Suc ?t"
    using unat_add_exact [of "lg_tail l" 1] unat_lt_64 [of "lg_head l"] by simp
  have split: "ring_entry l ?t = e" "map (ring_entry l) [Suc ?t..<?h] = es"
    using assms(2) less by (auto simp: ring_contents_def upt_conv_Cons)
  have "ring_ok ?l" using assms(1) less t by (auto simp: ring_ok_def word_le_nat_alt)
  moreover have "ring_contents ?l = es" using split(2) t by (auto simp: ring_contents_def ring_entry_def)
  moreover have "sim_async_logger_pop (Some l) =
      Some (True, Some (rs ! (?t mod unat (lg_capacity l))), Some ?l)"
    using less r slot_index_mod [of ?l m "lg_tail l"]
    by (simp add: sim_async_logger_pop_def pop_claim_alone word_le_nat_alt not_le)
  ultimately show ?thesis using split(1) r(1) by (auto simp: ring_entry_def)
qed

interpretation ring: drop_oldest_queue ring_ok ring_room "\<lambda>l. unat (lg_capacity l)" ring_contents
  c_string input_entry log_input pop_entry
proof unfold_locales
  show "ring_ok (log_input i l) \<and> ring_room l \<le> Suc (ring_room (log_input i l)) \<and>
      unat (lg_capacity (log_input i l)) = unat (lg_capacity l) \<and>
      ring_contents (log_input i l) = newest (unat (lg_capacity l)) (ring_contents l @ [input_entry i])"
    if "ring_ok l" "0 < ring_room l" "c_string i" for l i
    using log_step [OF that] by simp
  show "pop_entry l = None" if "ring_ok l" "ring_contents l = []" for l
    using pop_empty [OF that] by (simp add: pop_entry_def)
  show "\<exists>l'. pop_entry l = Some (e, l') \<and> ring_ok l' \<and> ring_contents l' = es"
    if "ring_ok l" "ring_contents l = e # es" for l e es
    using pop_step [OF that] by (auto simp: pop_entry_def)
qed

lemma init_ring:
  assumes "sim_async_logger_init heap (Some g) capacity = Some (SIM_RESULT_OK, Some l)"
  shows "ring_ok l" "ring_contents l = []" "ring_room l = 2 ^ 64 - 1" "unat capacity \<le> unat (lg_capacity l)"
proof -
  obtain n where n: "sim_async_logger_next_pow2 capacity = Some n"
    and l: "l = zero_logger\<lparr>lg_capacity := n, lg_records := Some (replicate (unat n) zero_record)\<rparr>"
    using assms by (auto simp: sim_async_logger_init_def bind_eq_Some_conv zero_logger_def split: if_splits)
  obtain m where m: "n = 2 ^ m" "m \<le> 63" "unat capacity \<le> 2 ^ m"
    using next_pow2_power [OF n] by blast
  then have "unat n = 2 ^ m" using unat_exp by simp
  then show "ring_ok l" "ring_contents l = []" "ring_room l = 2 ^ 64 - 1" "unat capacity \<le> unat (lg_capacity l)"
    using m by (auto simp: l ring_ok_def zero_logger_def zero_record_def ring_contents_def ring_room_def)
qed

text \<open>
  C11. The logger refines a bounded queue of entries that drops its oldest one: logging appends the
  entry (with its message cut at 255 bytes) and keeps the newest \<open>capacity\<close> entries, popping returns and
  removes the oldest one and reports an empty ring exactly when there is none, and clearing empties it.
\<close>

theorem logger_refines_queue:
  assumes "ring_ok l" "unat (lg_head l) < 2 ^ 64 - 1" "0 \<notin> set msg"
  shows "(\<exists>l'. sim_async_logger_log now thread (Some l) level (Some msg) = (SIM_RESULT_OK, Some l') \<and>
      ring_ok l' \<and> ring_contents l' = newest (unat (lg_capacity l))
        (ring_contents l @ [(now, thread, level, take SIM_ASYNC_LOGGER_MESSAGE_MAX msg)])) \<and>
    (case ring_contents l of
       [] \<Rightarrow> sim_async_logger_pop (Some l) = Some (False, None, Some l)
     | e # es \<Rightarrow> \<exists>r l'. sim_async_logger_pop (Some l) = Some (True, Some r, Some l') \<and>
         record_entry r = e \<and> ring_ok l' \<and> ring_contents l' = es) \<and>
    (\<exists>l'. sim_async_logger_clear (Some l) = Some l' \<and> ring_ok l' \<and> ring_contents l' = [])"
proof (intro conjI)
  let ?i = "(now, thread, level, msg)"
  have c: "0 < ring_room l" "c_string ?i" using assms(2,3) by (simp_all add: ring_room_def)
  show "\<exists>l'. sim_async_logger_log now thread (Some l) level (Some msg) = (SIM_RESULT_OK, Some l') \<and>
      ring_ok l' \<and> ring_contents l' = newest (unat (lg_capacity l))
        (ring_contents l @ [(now, thread, level, take SIM_ASYNC_LOGGER_MESSAGE_MAX msg)])"
    using log_shape [OF assms(1,2), of now thread level msg] log_step(1,4) [OF assms(1) c] by auto
  show "case ring_contents l of
       [] \<Rightarrow> sim_async_logger_pop (Some l) = Some (False, None, Some l)
     | e # es \<Rightarrow> \<exists>r l'. sim_async_logger_pop (Some l) = Some (True, Some r, Some l') \<and>
         record_entry r = e \<and> ring_ok l' \<and> ring_contents l' = es"
    using pop_empty [OF assms(1)] pop_step [OF assms(1)] by (auto split: list.split)
  show "\<exists>l'. sim_async_logger_clear (Some l) = Some l' \<and> ring_ok l' \<and> ring_contents l' = []"
    using assms(1) by (auto simp: sim_async_logger_clear_def ring_ok_def ring_contents_def)
qed

text \<open>
  C32. A freshly initialized logger that is given fewer than \<open>2 ^ 64\<close> messages and then popped until it
  is empty returns the newest of them, as many as its capacity holds, in the order they were logged.
\<close>

theorem logger_delivers_newest:
  assumes "sim_async_logger_init heap (Some g) capacity = Some (SIM_RESULT_OK, Some l)"
    and "length msgs < 2 ^ 64" "\<forall>i \<in> set msgs. c_string i"
  shows "drain pop_entry (unat (lg_capacity l)) (fold log_input msgs l) =
      newest (unat (lg_capacity l)) (map input_entry msgs) \<and>
    unat capacity \<le> unat (lg_capacity l)"
proof -
  note init = init_ring [OF assms(1)]
  let ?l = "fold log_input msgs l"
  have all: "ring_ok ?l" "unat (lg_capacity ?l) = unat (lg_capacity l)"
    "newest (unat (lg_capacity l)) (ring_contents ?l) = newest (unat (lg_capacity l)) (map input_entry msgs)"
    using ring.append_all [OF init(1), of msgs] init assms(2,3) by auto
  have "length (ring_contents ?l) \<le> unat (lg_capacity l)"
    using all(1) unfolding all(2) [symmetric] by (elim ring_okE) (simp add: ring_contents_def)
  then show ?thesis using ring.drain_contents [OF all(1)] all(3) init(4) by (simp add: newest_def)
qed

definition demo_logger :: SimAsyncLogger where
  "demo_logger = zero_logger\<lparr>lg_capacity := 64, lg_records := Some (replicate 64 zero_record)\<rparr>"

lemma demo_logger_init:
  "sim_async_logger_init (\<lambda>k. k < 2 ^ 63) (Some zero_logger) 10 = Some (SIM_RESULT_OK, Some demo_logger)"
proof -
  have "pow2_loop 10 1 = Some 16" by (simp add: pow2_loop.simps push_bit_eq_mult)
  then show ?thesis
    by (simp add: sim_async_logger_init_def sim_async_logger_next_pow2_def calloc_ok_def
        sizeof_log_record_def demo_logger_def zero_logger_def)
qed

theorem logger_refines_queue_witness:
  "\<exists>l'. sim_async_logger_log 7 1 (Some demo_logger) SIM_LOG_LEVEL_WARN (Some [104, 105]) =
     (SIM_RESULT_OK, Some l') \<and> ring_ok l' \<and> ring_contents l' = [(7, 1, SIM_LOG_LEVEL_WARN, [104, 105])]"
proof -
  have h: "unat (lg_head demo_logger) < 2 ^ 64 - 1" and z: "0 \<notin> set [104, 105 :: u8]"
    by (simp_all add: demo_logger_def zero_logger_def)
  have "newest (unat (lg_capacity demo_logger))
      (ring_contents demo_logger @ [(7, 1, SIM_LOG_LEVEL_WARN, take SIM_ASYNC_LOGGER_MESSAGE_MAX [104, 105])]) =
    [(7, 1, SIM_LOG_LEVEL_WARN, [104, 105])]"
    by (simp add: newest_def ring_contents_def demo_logger_def zero_logger_def SIM_ASYNC_LOGGER_MESSAGE_MAX_def)
  then show ?thesis
    using logger_refines_queue [OF init_ring(1) [OF demo_logger_init] h z, of 7 1 SIM_LOG_LEVEL_WARN] by simp
qed

theorem logger_delivers_newest_witness:
  "drain pop_entry 64 (fold log_input [(7, 1, SIM_LOG_LEVEL_WARN, [104]), (9, 2, SIM_LOG_LEVEL_INFO, [105])]
     demo_logger) = [(7, 1, SIM_LOG_LEVEL_WARN, [104]), (9, 2, SIM_LOG_LEVEL_INFO, [105])]"
  using logger_delivers_newest [OF demo_logger_init,
      of "[(7, 1, SIM_LOG_LEVEL_WARN, [104]), (9, 2, SIM_LOG_LEVEL_INFO, [105])]"]
  by (simp add: demo_logger_def zero_logger_def newest_def SIM_ASYNC_LOGGER_MESSAGE_MAX_def)

end
