(* ===== verification/Logger_Steps.thy ===== *)
theory Logger_Steps
  imports Async_Logger
begin

text \<open>
  Several threads on one logger. Every atomic access of \<^verbatim>\<open>sim_async_logger_log\<close> and
  \<^verbatim>\<open>sim_async_logger_pop\<close> is a step of the thread that performs it; filling in a record and copying
  one out are one step each. A run is any interleaving of calls and steps, with the events that change
  the two counters. \<^verbatim>\<open>sim_async_logger_clear\<close> is not among the concurrent operations: its header
  promises nothing about threads.
\<close>

section \<open>Threads\<close>

datatype log_pc =
    Idle
  | Log_claim SimLogLevel "u8 list"
  | Log_load_tail size_t SimLogLevel "u8 list"
  | Log_check size_t size_t SimLogLevel "u8 list"
  | Log_fill size_t SimLogLevel "u8 list"
  | Log_done
  | Pop_load_tail
  | Pop_load_head size_t
  | Pop_swap size_t
  | Pop_copy size_t
  | Pop_done "SimAsyncLogRecord option"

datatype log_event = Claim size_t | Drop size_t | Pop size_t | Retry | Silent

text \<open>One step of a thread: the event, where it continues, and the shared state after it.\<close>

fun thread_step ::
  "u64 \<Rightarrow> u32 \<Rightarrow> log_pc \<Rightarrow> SimAsyncLogger \<Rightarrow> (log_event \<times> log_pc \<times> SimAsyncLogger) option" where
  "thread_step now tid (Log_claim level msg) l =
     (if lg_records l = None then Some (Silent, Log_done, l)
      else Some (Claim (lg_head l), Log_load_tail (lg_head l) level msg, l\<lparr>lg_head := lg_head l + 1\<rparr>))"
| "thread_step now tid (Log_load_tail slot level msg) l =
     Some (Silent, Log_check slot (lg_tail l) level msg, l)"
| "thread_step now tid (Log_check slot tail level msg) l =
     (if slot - tail \<ge> lg_capacity l then
        let (swapped, tail') = compare_exchange (lg_tail l) tail (tail + 1)
        in Some (if swapped then Drop tail else Silent, Log_fill slot level msg, l\<lparr>lg_tail := tail'\<rparr>)
      else Some (Silent, Log_fill slot level msg, l))"
| "thread_step now tid (Log_fill slot level msg) l =
     (let records = the (lg_records l); index = slot_index l slot
      in Some (Silent, Log_done,
           l\<lparr>lg_records := Some (records[index := write_record now tid level msg (records ! index)])\<rparr>))"
| "thread_step now tid Pop_load_tail l =
     (if lg_records l = None then Some (Silent, Pop_done None, l)
      else Some (Silent, Pop_load_head (lg_tail l), l))"
| "thread_step now tid (Pop_load_head tail) l =
     Some (Silent, if tail \<ge> lg_head l then Pop_done None else Pop_swap tail, l)"
| "thread_step now tid (Pop_swap tail) l =
     (let (swapped, tail') = compare_exchange (lg_tail l) tail (tail + 1)
      in if swapped then Some (Pop tail, Pop_copy tail, l\<lparr>lg_tail := tail'\<rparr>)
         else Some (Retry, Pop_load_tail, l))"
| "thread_step now tid (Pop_copy tail) l =
     Some (Silent, Pop_done (Some (the (lg_records l) ! slot_index l tail)), l)"
| "thread_step now tid _ l = None"

record log_sys =
  ls_ring :: SimAsyncLogger
  ls_pcs :: "nat \<Rightarrow> log_pc"

fun at_rest :: "log_pc \<Rightarrow> bool" where
  "at_rest Idle = True"
| "at_rest Log_done = True"
| "at_rest (Pop_done _) = True"
| "at_rest _ = False"

fun call_entry :: "log_pc \<Rightarrow> bool" where
  "call_entry (Log_claim _ _) = True"
| "call_entry Pop_load_tail = True"
| "call_entry _ = False"

inductive log_run :: "SimAsyncLogger \<Rightarrow> (nat \<times> log_event) list \<Rightarrow> log_sys \<Rightarrow> bool" for l0 where
  start: "log_run l0 [] \<lparr>ls_ring = l0, ls_pcs = \<lambda>_. Idle\<rparr>"
| call: "log_run l0 evs s \<Longrightarrow> at_rest (ls_pcs s t) \<Longrightarrow> call_entry pc \<Longrightarrow>
    log_run l0 evs (s\<lparr>ls_pcs := (ls_pcs s)(t := pc)\<rparr>)"
| step: "log_run l0 evs s \<Longrightarrow> thread_step now tid (ls_pcs s t) (ls_ring s) = Some (ev, pc, l) \<Longrightarrow>
    log_run l0 (evs @ [(t, ev)]) (s\<lparr>ls_ring := l, ls_pcs := (ls_pcs s)(t := pc)\<rparr>)"

inductive_cases log_run_snocE: "log_run l0 (evs @ [e]) s"

fun claims :: "(nat \<times> log_event) list \<Rightarrow> size_t list" where
  "claims [] = []"
| "claims ((t, Claim slot) # evs) = slot # claims evs"
| "claims (_ # evs) = claims evs"

fun departures :: "(nat \<times> log_event) list \<Rightarrow> size_t list" where
  "departures [] = []"
| "departures ((t, Pop slot) # evs) = slot # departures evs"
| "departures ((t, Drop slot) # evs) = slot # departures evs"
| "departures (_ # evs) = departures evs"

fun retries :: "nat \<Rightarrow> (nat \<times> log_event) list \<Rightarrow> nat" where
  "retries u [] = 0"
| "retries u ((t, Retry) # evs) = (if t = u then 1 else 0) + retries u evs"
| "retries u (_ # evs) = retries u evs"

lemma claims_append: "claims (xs @ ys) = claims xs @ claims ys"
  by (induction xs rule: claims.induct) simp_all

lemma departures_append: "departures (xs @ ys) = departures xs @ departures ys"
  by (induction xs rule: departures.induct) simp_all

lemma retries_append: "retries u (xs @ ys) = retries u xs + retries u ys"
  by (induction u xs rule: retries.induct) simp_all

lemmas event_appends = claims_append departures_append retries_append

section \<open>What every interleaving keeps\<close>

text \<open>A thread in the middle of a pop has seen a tail that is not ahead of the present one, and at its
  swap one that some producer has claimed; every retry is paid for by a departure.\<close>

fun pop_view_ok :: "SimAsyncLogger \<Rightarrow> nat \<Rightarrow> log_pc \<Rightarrow> bool" where
  "pop_view_ok l n (Pop_load_head tail) \<longleftrightarrow> n \<le> unat tail \<and> tail \<le> lg_tail l"
| "pop_view_ok l n (Pop_swap tail) \<longleftrightarrow> n \<le> unat tail \<and> tail \<le> lg_tail l \<and> tail < lg_head l"
| "pop_view_ok l n _ \<longleftrightarrow> n \<le> unat (lg_tail l)"

definition popped :: "(nat \<times> log_event) list \<Rightarrow> size_t set" where
  "popped evs = {slot. \<exists>t. (t, Pop slot) \<in> set evs}"

definition run_ok :: "(nat \<times> log_event) list \<Rightarrow> log_sys \<Rightarrow> bool" where
  "run_ok evs s \<longleftrightarrow>
     map unat (claims evs) = [0..<unat (lg_head (ls_ring s))] \<and>
     map unat (departures evs) = [0..<unat (lg_tail (ls_ring s))] \<and>
     (\<forall>slot \<in> popped evs. slot < lg_head (ls_ring s)) \<and>
     (\<forall>t. pop_view_ok (ls_ring s) (retries t evs) (ls_pcs s t))"

lemma length_claims: "length (claims evs) \<le> length evs"
  by (induction evs rule: claims.induct) simp_all

lemma length_departures: "length (departures evs) \<le> length evs"
  by (induction evs rule: departures.induct) simp_all

lemma counters_bounded:
  assumes "run_ok evs s"
  shows "unat (lg_head (ls_ring s)) \<le> length evs" "unat (lg_tail (ls_ring s)) \<le> length evs"
proof -
  have "length (map unat (claims evs)) = length [0..<unat (lg_head (ls_ring s))]"
    "length (map unat (departures evs)) = length [0..<unat (lg_tail (ls_ring s))]"
    using assms unfolding run_ok_def by metis+
  then show "unat (lg_head (ls_ring s)) \<le> length evs" "unat (lg_tail (ls_ring s)) \<le> length evs"
    using length_claims [of evs] length_departures [of evs] by simp_all
qed

text \<open>The views of the other threads survive a step that only moves the counters forward.\<close>

lemma pop_view_mono:
  assumes "pop_view_ok l n pc" "lg_tail l \<le> lg_tail l'" "lg_head l \<le> lg_head l'"
  shows "pop_view_ok l' n pc"
  using assms by (cases pc) (auto simp: word_le_nat_alt word_less_nat_alt)

lemma thread_step_counters:
  assumes "thread_step now tid pc l = Some (ev, pc', l')"
  shows "case ev of
      Claim slot \<Rightarrow> slot = lg_head l \<and> lg_head l' = slot + 1 \<and> lg_tail l' = lg_tail l
    | Drop slot \<Rightarrow> slot = lg_tail l \<and> lg_tail l' = slot + 1 \<and> lg_head l' = lg_head l
    | Pop slot \<Rightarrow> slot = lg_tail l \<and> lg_tail l' = slot + 1 \<and> lg_head l' = lg_head l
    | _ \<Rightarrow> lg_tail l' = lg_tail l \<and> lg_head l' = lg_head l"
  using assms by (cases pc) (auto simp: Let_def compare_exchange_def split: if_splits prod.splits)

lemma thread_step_view:
  assumes "thread_step now tid pc l = Some (ev, pc', l')" "pop_view_ok l n pc"
    and "unat (lg_tail l) < 2 ^ 64 - 1"
  shows "pop_view_ok l' (n + (if ev = Retry then 1 else 0)) pc'"
    and "ev = Pop slot \<Longrightarrow> slot < lg_head l"
proof -
  have next_tail: "unat (lg_tail l + 1) = Suc (unat (lg_tail l))"
    using unat_add_exact [of "lg_tail l" 1] assms(3) by simp
  have "n < unat (lg_tail l)" if "lg_tail l \<noteq> tail" "unat tail \<le> unat (lg_tail l)" "n \<le> unat tail" for tail
    using that by (simp add: word_unat_eq_iff)
  then show "pop_view_ok l' (n + (if ev = Retry then 1 else 0)) pc'"
    using assms(1,2) next_tail
    by (cases pc) (auto simp: Let_def compare_exchange_def word_le_nat_alt word_less_nat_alt not_le
        Suc_le_eq split: if_splits prod.splits)
  show "slot < lg_head l" if "ev = Pop slot"
    using assms(1,2) that by (cases pc) (auto simp: Let_def compare_exchange_def split: if_splits prod.splits)
qed

lemma popped_snoc: "popped (evs @ [(t, ev)]) = popped evs \<union> (case ev of Pop slot \<Rightarrow> {slot} | _ \<Rightarrow> {})"
  by (auto simp: popped_def split: log_event.splits)

lemma counter_snoc:
  assumes "map unat xs = [0..<unat n]" "unat n < 2 ^ 64 - 1"
  shows "map unat (xs @ [n]) = [0..<unat (n + 1 :: size_t)]" "n \<le> n + 1"
proof -
  have "unat (n + 1) = Suc (unat n)" using unat_add_exact [of n 1] assms(2) by simp
  then show "map unat (xs @ [n]) = [0..<unat (n + 1)]" "n \<le> n + 1" using assms(1) by (simp_all add: word_le_nat_alt)
qed

lemma run_step_ok:
  assumes "run_ok evs s" "length evs < 2 ^ 64 - 1"
    and "thread_step now tid (ls_pcs s t) (ls_ring s) = Some (ev, pc, l)"
  shows "run_ok (evs @ [(t, ev)]) (s\<lparr>ls_ring := l, ls_pcs := (ls_pcs s)(t := pc)\<rparr>)"
proof -
  let ?l = "ls_ring s"
  have h: "unat (lg_head ?l) < 2 ^ 64 - 1" and t: "unat (lg_tail ?l) < 2 ^ 64 - 1"
    using counters_bounded [OF assms(1)] assms(2) by linarith+
  note moved = thread_step_counters [OF assms(3)]
  have inv: "map unat (claims evs) = [0..<unat (lg_head ?l)]" "map unat (departures evs) = [0..<unat (lg_tail ?l)]"
    "\<forall>slot \<in> popped evs. slot < lg_head ?l" "\<And>u. pop_view_ok ?l (retries u evs) (ls_pcs s u)"
    using assms(1) by (auto simp: run_ok_def)
  have mono: "lg_tail ?l \<le> lg_tail l" "lg_head ?l \<le> lg_head l"
    using moved counter_snoc(2) [OF inv(1) h] counter_snoc(2) [OF inv(2) t] by (auto split: log_event.splits)
  have "map unat (claims (evs @ [(t, ev)])) = [0..<unat (lg_head l)]"
    using moved counter_snoc(1) [OF inv(1) h] inv(1) by (cases ev) (auto simp: event_appends)
  moreover have "map unat (departures (evs @ [(t, ev)])) = [0..<unat (lg_tail l)]"
    using moved counter_snoc(1) [OF inv(2) t] inv(2) by (cases ev) (auto simp: event_appends)
  moreover have "\<forall>slot \<in> popped (evs @ [(t, ev)]). slot < lg_head l"
    using inv(3) mono(2) thread_step_view(2) [OF assms(3) inv(4) t]
    by (fastforce simp: popped_snoc split: log_event.splits)
  moreover have "pop_view_ok l (retries u (evs @ [(t, ev)])) (((ls_pcs s)(t := pc)) u)" for u
  proof (cases "u = t")
    case True
    then show ?thesis using thread_step_view(1) [OF assms(3) inv(4) t]
      by (cases ev) (auto simp: event_appends)
  next
    case False
    then have "retries u (evs @ [(t, ev)]) = retries u evs" by (cases ev) (auto simp: event_appends)
    then show ?thesis using False pop_view_mono [OF inv(4) mono] by simp
  qed
  ultimately show ?thesis by (simp add: run_ok_def)
qed

lemma run_invariant:
  assumes "log_run l0 evs s" "lg_head l0 = 0" "lg_tail l0 = 0" "length evs < 2 ^ 64"
  shows "run_ok evs s"
  using assms(1,4)
proof induction
  case start
  then show ?case using assms(2,3) by (simp add: run_ok_def popped_def)
next
  case (call evs s t pc)
  have "pop_view_ok (ls_ring s) (retries t evs) pc"
  proof -
    have "pop_view_ok (ls_ring s) (retries t evs) (ls_pcs s t)" using call by (simp add: run_ok_def)
    then have "retries t evs \<le> unat (lg_tail (ls_ring s))" using call.hyps(2) by (cases "ls_pcs s t") auto
    then show ?thesis using call.hyps(3) by (cases pc) auto
  qed
  then show ?case using call by (simp add: run_ok_def)
next
  case (step evs s now tid t ev pc l)
  then show ?case using run_step_ok [of evs s now tid t ev pc l] by simp
qed

text \<open>
  C13. However the calls of any number of threads interleave, every slot number is given to exactly one
  producer, every slot number leaves the ring exactly once and in order (popped by one consumer, or
  dropped by a producer that found the ring full), and a consumer only takes a slot that some
  producer has claimed before.
\<close>

theorem slots_claimed_and_leave_once:
  assumes "log_run l0 evs s" "lg_head l0 = 0" "lg_tail l0 = 0" "length evs < 2 ^ 64"
  shows "map unat (claims evs) = [0..<unat (lg_head (ls_ring s))] \<and>
    map unat (departures evs) = [0..<unat (lg_tail (ls_ring s))] \<and> popped evs \<subseteq> set (claims evs)"
proof -
  have ok: "run_ok evs s" by (rule run_invariant [OF assms])
  have "slot \<in> set (claims evs)" if "slot \<in> popped evs" for slot
  proof -
    have "unat slot < unat (lg_head (ls_ring s))"
      using ok that by (simp add: run_ok_def word_less_nat_alt)
    then have "unat slot \<in> set (map unat (claims evs))" using ok by (simp add: run_ok_def)
    then show ?thesis by (auto simp flip: word_unat_eq_iff)
  qed
  then show ?thesis using ok by (auto simp: run_ok_def)
qed

text \<open>
  C14. Popping is lock-free: in every interleaving, the number of times a thread had to start its claim
  over is at most the number of records that have left the ring, so retries cannot go on while nothing
  is delivered or dropped.
\<close>

theorem pop_retries_bounded:
  assumes "log_run l0 evs s" "lg_head l0 = 0" "lg_tail l0 = 0" "length evs < 2 ^ 64"
  shows "retries t evs \<le> length (departures evs)"
proof -
  have ok: "run_ok evs s" by (rule run_invariant [OF assms])
  then have "length (departures evs) = unat (lg_tail (ls_ring s))"
    unfolding run_ok_def by (metis length_map length_upt diff_zero)
  moreover have "pop_view_ok (ls_ring s) (retries t evs) (ls_pcs s t)" using ok by (simp add: run_ok_def)
  then have "retries t evs \<le> unat (lg_tail (ls_ring s))"
    by (cases "ls_pcs s t") (auto simp: word_le_nat_alt)
  ultimately show ?thesis by simp
qed

section \<open>Running a schedule\<close>

datatype log_action = Call nat log_pc | Act nat u64

fun run_schedule ::
  "log_action list \<Rightarrow> (nat \<times> log_event) list \<Rightarrow> log_sys \<Rightarrow> ((nat \<times> log_event) list \<times> log_sys) option" where
  "run_schedule [] evs s = Some (evs, s)"
| "run_schedule (Call t pc # as) evs s =
     (if at_rest (ls_pcs s t) \<and> call_entry pc
      then run_schedule as evs (s\<lparr>ls_pcs := (ls_pcs s)(t := pc)\<rparr>) else None)"
| "run_schedule (Act t now # as) evs s =
     (case thread_step now (word_of_nat t) (ls_pcs s t) (ls_ring s) of
        None \<Rightarrow> None
      | Some (ev, pc, l) \<Rightarrow>
          run_schedule as (evs @ [(t, ev)]) (s\<lparr>ls_ring := l, ls_pcs := (ls_pcs s)(t := pc)\<rparr>))"

lemma run_schedule_runs:
  "log_run l0 evs s \<Longrightarrow> run_schedule as evs s = Some (evs', s') \<Longrightarrow> log_run l0 evs' s'"
proof (induction as evs s rule: run_schedule.induct)
  case (2 t pc as evs s)
  then show ?case by (auto split: if_splits intro: log_run.call)
next
  case (3 t now as evs s)
  then obtain ev pc l where st: "thread_step now (word_of_nat t) (ls_pcs s t) (ls_ring s) = Some (ev, pc, l)"
    by (auto split: option.splits)
  then show ?case using "3.IH" [OF st refl refl] log_run.step [OF "3.prems"(1) st] "3.prems"(2) by simp
qed simp

text \<open>A consumer that overtakes the producer of the only record.\<close>

definition overtaking_schedule :: "log_action list" where
  "overtaking_schedule =
     [Call 0 (Log_claim SIM_LOG_LEVEL_INFO [104]), Act 0 0,
      Call 1 Pop_load_tail, Act 1 0, Act 1 0, Act 1 0, Act 1 0, Act 0 0, Act 0 0, Act 0 0]"

lemma overtaking_run:
  obtains evs s where "log_run demo_logger evs s" "length evs < 2 ^ 64"
    "ls_pcs s 0 = Log_done" "ls_pcs s 1 = Pop_done (Some zero_record)"
    "claims evs = [0]" "departures evs = [0, 1]" "popped evs = {0}"
    "lg_head (ls_ring s) = 1" "lg_tail (ls_ring s) = 2" "lg_capacity (ls_ring s) = 64"
    "lg_records (ls_ring s) \<noteq> None"
proof -
  let ?s0 = "\<lparr>ls_ring = demo_logger, ls_pcs = \<lambda>_. Idle\<rparr>"
  have cap: "(64 :: size_t) \<le> - 1" by (simp add: word_le_nat_alt unat_size_max)
  have "\<exists>s. run_schedule overtaking_schedule [] ?s0 =
      Some ([(0, Claim 0), (1, Silent), (1, Silent), (1, Pop 0), (1, Silent), (0, Silent), (0, Drop 1), (0, Silent)], s) \<and>
      ls_pcs s 0 = Log_done \<and> ls_pcs s 1 = Pop_done (Some zero_record) \<and>
      lg_head (ls_ring s) = 1 \<and> lg_tail (ls_ring s) = 2 \<and> lg_capacity (ls_ring s) = 64 \<and>
      lg_records (ls_ring s) \<noteq> None"
    using cap
    by (simp add: overtaking_schedule_def demo_logger_def zero_logger_def compare_exchange_def slot_index_def Let_def)
  then show ?thesis
    using that run_schedule_runs [OF log_run.start, of overtaking_schedule]
    by (fastforce simp: popped_def)
qed

section \<open>A tail ahead of the head\<close>

text \<open>
  The check of a producer subtracts without asking which counter is ahead. Once a consumer has taken
  the producer's own slot, the difference wraps, the producer drops a record that does not exist, and
  the tail is ahead of the head for good.
\<close>

definition overtaken :: "SimAsyncLogger \<Rightarrow> bool" where
  "overtaken l \<longleftrightarrow> lg_records l \<noteq> None \<and> lg_capacity l \<le> 2 ^ 63 \<and> lg_head l < lg_tail l \<and>
     unat (lg_tail l) - unat (lg_head l) \<le> 2 ^ 63"

lemma wrapped_difference:
  fixes a b :: size_t
  assumes "a < b" "unat b - unat a \<le> 2 ^ 63"
  shows "2 ^ 63 \<le> a - b"
proof -
  have less: "uint a < uint b" using assms(1) by (simp add: word_less_def)
  have bounds: "0 \<le> uint a" "uint b < 2 ^ 64" using unsigned_less [of b] by simp_all
  have "unat b \<le> unat a + 2 ^ 63" using assms(2) by simp
  then have "int (unat b) \<le> int (unat a + 2 ^ 63)" by (simp only: of_nat_le_iff)
  then have near: "uint b \<le> uint a + 2 ^ 63" by simp
  have "uint (a - b) = (uint a - uint b) mod 2 ^ 64" by (simp add: uint_word_ariths)
  also have "\<dots> = (uint a - uint b + 2 ^ 64) mod 2 ^ 64" by simp
  also have "\<dots> = uint a - uint b + 2 ^ 64" using less bounds by (intro mod_pos_pos_trivial) linarith+
  finally have "2 ^ 63 \<le> uint (a - b)" using near by simp
  then show ?thesis by (simp add: word_le_def)
qed

lemma log_overtaken:
  assumes "overtaken l" "unat (lg_tail l) < 2 ^ 64 - 1"
  shows "overtaken (log_input i l)" "unat (lg_tail (log_input i l)) = Suc (unat (lg_tail l))"
proof -
  obtain now thread level msg where i: "i = (now, thread, level, msg)" by (cases i)
  obtain rs where rs: "lg_records l = Some rs" using assms(1) by (auto simp: overtaken_def)
  have full: "lg_capacity l \<le> lg_head l - lg_tail l"
    using wrapped_difference [of "lg_head l" "lg_tail l"] assms(1) unfolding overtaken_def
    by (meson order_trans)
  have t: "unat (lg_tail l + 1) = Suc (unat (lg_tail l))" "unat (lg_head l + 1) = Suc (unat (lg_head l))"
    using unat_add_exact [of "lg_tail l" 1] unat_add_exact [of "lg_head l" 1] assms
    by (simp_all add: overtaken_def word_less_nat_alt)
  have "lg_head (log_input i l) = lg_head l + 1" "lg_tail (log_input i l) = lg_tail l + 1"
    "lg_capacity (log_input i l) = lg_capacity l" "lg_records (log_input i l) \<noteq> None"
    using rs full by (simp_all add: i sim_async_logger_log_def Let_def compare_exchange_def)
  then show "overtaken (log_input i l)" "unat (lg_tail (log_input i l)) = Suc (unat (lg_tail l))"
    using assms(1) t by (simp_all add: overtaken_def word_less_nat_alt)
qed

lemma overtaken_for_good:
  assumes "overtaken l" "unat (lg_tail l) + length msgs < 2 ^ 64"
  shows "overtaken (fold log_input msgs l)"
  using assms
proof (induction msgs arbitrary: l)
  case (Cons i msgs)
  then show ?case using Cons.IH [of "log_input i l"] log_overtaken [of l i] by simp
qed simp

lemma pop_overtaken: "overtaken l \<Longrightarrow> sim_async_logger_pop (Some l) = Some (False, None, Some l)"
  by (auto simp: sim_async_logger_pop_def overtaken_def pop_claim_alone)

text \<open>
  One producer and one consumer on a fresh logger can reach a state, with both calls finished, in
  which the consumer was given a record that the producer had not filled in yet, and from which every
  later message is lost: whatever is logged, popping reports that there is nothing.
\<close>

theorem logger_race_loses_messages:
  "\<exists>evs s. log_run demo_logger evs s \<and> ls_pcs s 0 = Log_done \<and> ls_pcs s 1 = Pop_done (Some zero_record) \<and>
     (\<forall>msgs. length msgs < 2 ^ 63 \<longrightarrow>
        sim_async_logger_pop (Some (fold log_input msgs (ls_ring s))) =
          Some (False, None, Some (fold log_input msgs (ls_ring s))))"
proof -
  obtain evs s where run: "log_run demo_logger evs s" "ls_pcs s 0 = Log_done" "ls_pcs s 1 = Pop_done (Some zero_record)"
    and ring: "lg_head (ls_ring s) = 1" "lg_tail (ls_ring s) = 2" "lg_capacity (ls_ring s) = 64"
      "lg_records (ls_ring s) \<noteq> None"
    by (rule overtaking_run)
  have "overtaken (ls_ring s)" using ring by (simp add: overtaken_def word_le_nat_alt word_less_nat_alt)
  then have "overtaken (fold log_input msgs (ls_ring s))" if "length msgs < 2 ^ 63" for msgs
    using overtaken_for_good [of "ls_ring s" msgs] ring that by simp
  then show ?thesis using run pop_overtaken by blast
qed

theorem logger_race_loses_messages_witness:
  "\<exists>s :: log_sys. sim_async_logger_pop (Some (fold log_input [(0, 0, SIM_LOG_LEVEL_INFO, [104])] (ls_ring s))) =
     Some (False, None, Some (fold log_input [(0, 0, SIM_LOG_LEVEL_INFO, [104])] (ls_ring s)))"
proof -
  have "length [(0 :: u64, 0 :: u32, SIM_LOG_LEVEL_INFO, [104 :: u8])] < 2 ^ 63" by simp
  then show ?thesis using logger_race_loses_messages by blast
qed

theorem slots_claimed_and_leave_once_witness:
  "\<exists>evs s. log_run demo_logger evs s \<and> claims evs = [0] \<and> departures evs = [0, 1] \<and> popped evs \<subseteq> set (claims evs)"
proof -
  have z: "lg_head demo_logger = 0" "lg_tail demo_logger = 0" by (simp_all add: demo_logger_def zero_logger_def)
  show ?thesis by (rule overtaking_run) (use slots_claimed_and_leave_once [OF _ z] in blast)
qed

theorem pop_retries_bounded_witness:
  "\<exists>evs s. log_run demo_logger evs s \<and> retries 1 evs \<le> 2"
proof -
  have z: "lg_head demo_logger = 0" "lg_tail demo_logger = 0" by (simp_all add: demo_logger_def zero_logger_def)
  show ?thesis
  proof (rule overtaking_run)
    fix evs s
    assume "log_run demo_logger evs s" "length evs < 2 ^ 64" "departures evs = [0, 1]"
    then show ?thesis using pop_retries_bounded [OF _ z, of evs s 1] by auto
  qed
qed

end
