(* ===== verification/Float_Bits.thy ===== *)
theory Float_Bits
  imports Sim_Buffer
begin

text \<open>
  The part of IEEE-754 double precision the sources use outside of arithmetic: classification,
  comparison and the exact conversion of integral values, on the bit pattern. Rounded arithmetic and
  the functions of \<^verbatim>\<open>libm\<close> are arguments of the definitions that use them.
\<close>

unbundle bit_operations_syntax

definition f64_magnitude :: "f64 \<Rightarrow> nat" where
  "f64_magnitude x = unat (take_bit 63 x)"

definition f64_negative :: "f64 \<Rightarrow> bool" where
  "f64_negative x \<longleftrightarrow> bit x 63"

definition f64_exponent :: "f64 \<Rightarrow> nat" where
  "f64_exponent x = f64_magnitude x div 2 ^ 52"

definition f64_isfinite :: "f64 \<Rightarrow> bool" where
  "f64_isfinite x \<longleftrightarrow> f64_exponent x < 2047"

definition f64_isnan :: "f64 \<Rightarrow> bool" where
  "f64_isnan x \<longleftrightarrow> f64_magnitude x > 2047 * 2 ^ 52"

text \<open>
  The order of doubles that are not NaN is the order of their signed magnitudes; both zeros are \<open>0\<close>.
  Every comparison with a NaN but \<^verbatim>\<open>!=\<close> is false.
\<close>

definition f64_rank :: "f64 \<Rightarrow> int" where
  "f64_rank x = (if f64_negative x then - int (f64_magnitude x) else int (f64_magnitude x))"

definition f64_less :: "f64 \<Rightarrow> f64 \<Rightarrow> bool" where
  "f64_less x y \<longleftrightarrow> \<not> f64_isnan x \<and> \<not> f64_isnan y \<and> f64_rank x < f64_rank y"

definition f64_le :: "f64 \<Rightarrow> f64 \<Rightarrow> bool" where
  "f64_le x y \<longleftrightarrow> \<not> f64_isnan x \<and> \<not> f64_isnan y \<and> f64_rank x \<le> f64_rank y"

definition f64_eq :: "f64 \<Rightarrow> f64 \<Rightarrow> bool" where
  "f64_eq x y \<longleftrightarrow> \<not> f64_isnan x \<and> \<not> f64_isnan y \<and> f64_rank x = f64_rank y"

definition f64_fabs :: "f64 \<Rightarrow> f64" where
  "f64_fabs x = take_bit 63 x"

abbreviation f64_zero :: f64 where "f64_zero \<equiv> 0"

definition f64_one :: f64 where "f64_one = 0x3FF0000000000000"

definition f64_million :: f64 where "f64_million = 0x412E848000000000"

definition f64_minus_million :: f64 where "f64_minus_million = 0xC12E848000000000"

definition f64_millionth :: f64 where "f64_millionth = 0x3EB0C6F7A0B5ED8D"

text \<open>
  The integer a double stands for, if it stands for one: its significand times a power of two, where a
  negative power has to divide the significand.
\<close>

definition f64_significand :: "f64 \<Rightarrow> nat" where
  "f64_significand x =
     (if f64_exponent x = 0 then f64_magnitude x mod 2 ^ 52 else 2 ^ 52 + f64_magnitude x mod 2 ^ 52)"

definition f64_integer :: "f64 \<Rightarrow> int option" where
  "f64_integer x =
     (let m = f64_significand x; e = max 1 (f64_exponent x);
          n = (if e \<ge> 1075 then Some (m * 2 ^ (e - 1075))
               else if m mod 2 ^ (1075 - e) = 0 then Some (m div 2 ^ (1075 - e)) else None)
      in if \<not> f64_isfinite x then None
         else map_option (\<lambda>n. if f64_negative x then - int n else int n) n)"

section \<open>Facts\<close>

lemma f64_magnitude_less: "f64_magnitude x < 2 ^ 63"
  using take_bit_nat_less_exp [of 63 "unat x"] by (simp add: f64_magnitude_def unsigned_take_bit_eq)

lemma f64_finite_not_nan: "f64_isfinite x \<Longrightarrow> \<not> f64_isnan x"
  by (simp add: f64_isfinite_def f64_isnan_def f64_exponent_def div_less_iff_less_mult)

lemma f64_zero_facts [simp]:
  "f64_magnitude 0 = 0" "\<not> f64_negative 0" "f64_isfinite 0" "\<not> f64_isnan 0" "f64_rank 0 = 0"
  by (simp_all add: f64_magnitude_def f64_negative_def f64_isfinite_def f64_exponent_def f64_isnan_def
      f64_rank_def)

lemma f64_eq_refl: "\<not> f64_isnan x \<Longrightarrow> f64_eq x x"
  by (simp add: f64_eq_def)

text \<open>Equal doubles have the same bits, zero excepted.\<close>

lemma f64_eq_bits:
  assumes "f64_eq x y" "f64_rank x \<noteq> 0"
  shows "x = y"
proof -
  have sign: "f64_negative x = f64_negative y" and mag: "f64_magnitude x = f64_magnitude y"
    using assms by (auto simp: f64_eq_def f64_rank_def split: if_splits)
  show ?thesis
  proof (rule bit_word_eqI)
    fix k :: nat
    assume "k < LENGTH(64)"
    then consider "k = 63" | "k < 63" by fastforce
    then show "bit x k = bit y k"
    proof cases
      case 2
      have "take_bit 63 x = take_bit 63 y" using mag by (simp add: f64_magnitude_def word_unat_eq_iff)
      then have "bit (take_bit 63 x) k = bit (take_bit 63 y) k" by simp
      then show ?thesis using 2 by (simp add: bit_take_bit_iff)
    qed (use sign in \<open>simp add: f64_negative_def\<close>)
  qed
qed

end
