(* ===== verification/Kernel_IR.thy ===== *)
theory Kernel_IR
  imports Float_Bits
begin

text \<open>
  The data of the kernel intermediate representation and the operations that build it:
  \<^verbatim>\<open>include/oakfield/kernel_ir.h\<close>, \<^verbatim>\<open>core/src/internal/kernel_ir_internal.h\<close>, the type helpers of
  \<^verbatim>\<open>core/src/kernel_ir.c\<close>, and \<^verbatim>\<open>core/src/kernel_ir_builder.c\<close>.

  A node identifier is an index into the node array; the sentinel is the largest \<^verbatim>\<open>size_t\<close>. The array
  of a builder is the list of its valid entries, \<open>None\<close> when nothing was ever allocated. The union of
  a node is a datatype with a constructor for each member. Capacities are those of arrays in memory,
  so that doubling one stays far below \<open>2 ^ 64\<close>; the byte count of a request is reduced to a
  \<^verbatim>\<open>size_t\<close> all the same. A function or user pointer that is only stored is its address.
\<close>

unbundle bit_operations_syntax

section \<open>Data\<close>

type_synonym SimIRNodeId = nat

definition SIM_IR_INVALID_NODE :: SimIRNodeId where
  "SIM_IR_INVALID_NODE = 2 ^ 64 - 1"

definition SIM_IR_INVALID_CONSTANT_INDEX :: nat where
  "SIM_IR_INVALID_CONSTANT_INDEX = 2 ^ 64 - 1"

definition SIM_IR_SMALL_CONSTANT_CAPACITY :: nat where
  "SIM_IR_SMALL_CONSTANT_CAPACITY = 4"

datatype SimWarpLevel =
    SIM_WARP_LEVEL_NONE
  | SIM_WARP_LEVEL_LEVEL0
  | SIM_WARP_LEVEL_LEVEL1
  | SIM_WARP_LEVEL_LEVEL2

datatype SimIROpcode =
    OAK_OP_DIFF
  | OAK_OP_CONV
  | OAK_OP_DISP
  | OAK_OP_DIFFUSE
  | OAK_OP_WARP
  | OAK_OP_NOISE
  | OAK_OP_FLOW
  | OAK_OP_MISC
  | OAK_OP_CORE

datatype SimIRValueKind = SIM_IR_VALUE_SCALAR | SIM_IR_VALUE_VECTOR

record SimIRType =
  ty_kind :: SimIRValueKind
  ty_components :: nat
  ty_scalar_domain :: SimScalarDomain

record SimIRShape =
  sh_rank :: nat
  sh_shape :: "nat list"
  sh_has_shape :: bool

datatype SimIRBoundaryPolicy =
    SIM_IR_BOUNDARY_NEUMANN
  | SIM_IR_BOUNDARY_DIRICHLET
  | SIM_IR_BOUNDARY_PERIODIC
  | SIM_IR_BOUNDARY_REFLECTIVE

datatype SimIRDiffMethod =
    SIM_IR_DIFF_METHOD_AUTO
  | SIM_IR_DIFF_METHOD_CENTRAL
  | SIM_IR_DIFF_METHOD_FORWARD
  | SIM_IR_DIFF_METHOD_BACKWARD

datatype SimIRNoiseLaw = SIM_IR_NOISE_LAW_ITO | SIM_IR_NOISE_LAW_STRATONOVICH

datatype SimIRNoiseDistribution =
    SIM_IR_NOISE_DISTRIBUTION_UNIFORM
  | SIM_IR_NOISE_DISTRIBUTION_GAUSSIAN

datatype SimIRParamKind =
    SIM_IR_PARAM_DT
  | SIM_IR_PARAM_STEP_INDEX
  | SIM_IR_PARAM_SQRT_DT
  | SIM_IR_PARAM_TIME

datatype SimIRWarpProfile =
    SIM_IR_WARP_PROFILE_DIGAMMA
  | SIM_IR_WARP_PROFILE_TRIGAMMA
  | SIM_IR_WARP_PROFILE_DIGAMMA_7_TAIL
  | SIM_IR_WARP_PROFILE_DIGAMMA_5_TAIL
  | SIM_IR_WARP_PROFILE_DIGAMMA_ADAPTIVE
  | SIM_IR_WARP_PROFILE_DIGAMMA_MORTICI

datatype SimIRCallKind =
    SIM_IR_CALL_SIN
  | SIM_IR_CALL_COS
  | SIM_IR_CALL_EXP
  | SIM_IR_CALL_ABS
  | SIM_IR_CALL_LOG
  | SIM_IR_CALL_TANH
  | SIM_IR_CALL_SINH
  | SIM_IR_CALL_SIGN

datatype SimIRNodeType =
    SIM_IR_NODE_CONSTANT
  | SIM_IR_NODE_FIELD_REF
  | SIM_IR_NODE_ADD
  | SIM_IR_NODE_SUB
  | SIM_IR_NODE_MUL
  | SIM_IR_NODE_DIV
  | SIM_IR_NODE_POW
  | SIM_IR_NODE_DIFF
  | SIM_IR_NODE_NOISE
  | SIM_IR_NODE_WARP
  | SIM_IR_NODE_PARAM
  | SIM_IR_NODE_COMPLEX_PACK
  | SIM_IR_NODE_COMPLEX_ROTATE
  | SIM_IR_NODE_INDEX
  | SIM_IR_NODE_CALL
  | SIM_IR_NODE_FLOOR
  | SIM_IR_NODE_MOD
  | SIM_IR_NODE_COORD
  | SIM_IR_NODE_STATEFUL

text \<open>The continuity modes of \<^verbatim>\<open>operator.h\<close>, which a guard stores as an \<^verbatim>\<open>int\<close>.\<close>

datatype SimContinuityMode =
    SIM_CONTINUITY_NONE
  | SIM_CONTINUITY_STRICT
  | SIM_CONTINUITY_CLAMPED
  | SIM_CONTINUITY_LIMITED

fun continuity_int :: "SimContinuityMode \<Rightarrow> int" where
  "continuity_int SIM_CONTINUITY_NONE = 0"
| "continuity_int SIM_CONTINUITY_STRICT = 1"
| "continuity_int SIM_CONTINUITY_CLAMPED = 2"
| "continuity_int SIM_CONTINUITY_LIMITED = 3"

record SimIRWarpGuard =
  wg_mode :: int
  wg_clamp_min :: f64
  wg_clamp_max :: f64
  wg_tolerance :: f64

record SimIRDiffSpec =
  ds_operand :: SimIRNodeId
  ds_axis :: nat
  ds_dx :: f64
  ds_scale :: f64
  ds_order :: nat
  ds_stencil_order :: nat
  ds_method :: SimIRDiffMethod
  ds_consistency_constant :: f64
  ds_boundary :: SimIRBoundaryPolicy
  ds_result_type :: SimIRType

record SimIRWarpSpec =
  ws_operand :: SimIRNodeId
  ws_bias :: f64
  ws_delta :: f64
  ws_lambda :: f64
  ws_tolerance :: f64
  ws_profile :: SimIRWarpProfile
  ws_warp_class :: SimWarpLevel
  ws_guard :: SimIRWarpGuard
  ws_result_type :: SimIRType

record SimIRNoiseSpec =
  ns_seed :: u32
  ns_amplitude :: f64
  ns_variance :: f64
  ns_law :: SimIRNoiseLaw
  ns_distribution :: SimIRNoiseDistribution
  ns_value_type :: SimIRType

record SimIRStatefulSpec =
  ss_eval :: "nat option"
  ss_userdata :: "nat option"
  ss_label :: "string option"
  ss_value_type :: SimIRType

text \<open>The structs of the union that have more than two members.\<close>

record SimIRConstant =
  cs_scalar :: f64
  cs_signed_scalar :: u64
  cs_unsigned_scalar :: u64
  cs_exact_integer :: bool
  cs_constant_index :: nat
  cs_small :: "f64 list"

record SimIRDiff =
  df_operand :: SimIRNodeId
  df_axis :: nat
  df_dx :: f64
  df_scale :: f64
  df_order :: nat
  df_stencil_order :: nat
  df_method :: SimIRDiffMethod
  df_consistency_constant :: f64
  df_boundary :: SimIRBoundaryPolicy

record SimIRNoise =
  no_seed :: u32
  no_amplitude :: f64
  no_variance :: f64
  no_law :: SimIRNoiseLaw
  no_distribution :: SimIRNoiseDistribution

record SimIRWarp =
  wp_operand :: SimIRNodeId
  wp_bias :: f64
  wp_delta :: f64
  wp_lambda :: f64
  wp_tolerance :: f64
  wp_profile :: SimIRWarpProfile
  wp_guard :: SimIRWarpGuard

datatype SimIRNodeData =
    Data_constant SimIRConstant
  | Data_field nat
  | Data_binary SimIRNodeId SimIRNodeId
  | Data_diff SimIRDiff
  | Data_noise SimIRNoise
  | Data_warp SimIRWarp
  | Data_param SimIRParamKind
  | Data_complex_rotate SimIRNodeId SimIRNodeId
  | Data_complex_pack SimIRNodeId SimIRNodeId
  | Data_call SimIRNodeId SimIRCallKind
  | Data_unary SimIRNodeId
  | Data_coord nat nat
  | Data_stateful "nat option" "nat option" "string option"
  | Data_index

record SimIRNode =
  nd_type :: SimIRNodeType
  nd_id :: SimIRNodeId
  nd_value_type :: SimIRType
  nd_opcode :: SimIROpcode
  nd_inferred_shape :: SimIRShape
  nd_warp_class :: SimWarpLevel
  nd_is_local :: bool
  nd_data :: SimIRNodeData

record SimIRBuilder =
  b_nodes :: "SimIRNode list option"
  b_capacity :: nat
  b_default_boundary :: SimIRBoundaryPolicy
  b_constants_data :: "f64 list option"
  b_constants_offsets :: "nat list"
  b_constants_components :: "nat list"
  b_constants_capacity :: nat
  b_constants_data_capacity :: nat

text \<open>\<^verbatim>\<open>builder->nodes\<close> and \<^verbatim>\<open>builder->count\<close>.\<close>

definition ir_nodes :: "SimIRBuilder \<Rightarrow> SimIRNode list" where
  "ir_nodes b = (case b_nodes b of None \<Rightarrow> [] | Some ns \<Rightarrow> ns)"

definition ir_count :: "SimIRBuilder \<Rightarrow> nat" where
  "ir_count b = length (ir_nodes b)"

definition ir_constants :: "SimIRBuilder \<Rightarrow> f64 list" where
  "ir_constants b = (case b_constants_data b of None \<Rightarrow> [] | Some ds \<Rightarrow> ds)"

section \<open>Exact integers\<close>

definition sim_ir_positive_or_default :: "f64 \<Rightarrow> f64 \<Rightarrow> f64" where
  "sim_ir_positive_or_default v fallback =
     (if \<not> f64_isfinite v \<or> f64_le v f64_zero then fallback else v)"

definition sim_ir_canonicalize_constant :: "f64 \<Rightarrow> f64" where
  "sim_ir_canonicalize_constant v = (if f64_eq v f64_zero then f64_zero else v)"

definition sim_ir_domain_is_exact_integer :: "SimScalarDomain \<Rightarrow> bool" where
  "sim_ir_domain_is_exact_integer domain = sim_scalar_domain_is_integer domain"

definition sim_ir_integer_mask :: "SimScalarDomain \<Rightarrow> u64" where
  "sim_ir_integer_mask domain =
     (if sd_bit_width domain \<ge> 64 then - 1 else push_bit (unat (sd_bit_width domain)) 1 - 1)"

definition sim_ir_integer_truncate :: "u64 \<Rightarrow> SimScalarDomain \<Rightarrow> u64" where
  "sim_ir_integer_truncate raw domain =
     (if sd_bit_width domain \<ge> 64 then raw else raw AND sim_ir_integer_mask domain)"

text \<open>An \<^verbatim>\<open>int64_t\<close> is its 64 bits; \<open>sint\<close> reads it.\<close>

definition sim_ir_integer_as_i64 :: "u64 \<Rightarrow> SimScalarDomain \<Rightarrow> u64" where
  "sim_ir_integer_as_i64 raw domain =
     (let raw = sim_ir_integer_truncate raw domain
      in if \<not> sd_is_signed domain then raw
         else if sd_bit_width domain \<ge> 64 then raw
         else let bits = sim_ir_integer_mask domain;
                  sign_bit = push_bit (unat (sd_bit_width domain - 1)) 1
              in if raw AND sign_bit \<noteq> 0 then raw OR NOT bits else raw)"

definition sim_ir_integer_from_i64 :: "u64 \<Rightarrow> SimScalarDomain \<Rightarrow> u64" where
  "sim_ir_integer_from_i64 v domain = sim_ir_integer_truncate v domain"

definition sim_ir_integer_raw_from_signed :: "u64 \<Rightarrow> SimScalarDomain \<Rightarrow> u64 option" where
  "sim_ir_integer_raw_from_signed v domain =
     (if \<not> sim_ir_domain_is_exact_integer domain \<or> \<not> sd_is_signed domain then None
      else if sd_bit_width domain = 32 \<and> (sint v < - (2 ^ 31) \<or> sint v > 2 ^ 31 - 1) then None
      else if sd_bit_width domain \<noteq> 32 \<and> sd_bit_width domain \<noteq> 64 then None
      else Some (sim_ir_integer_from_i64 v domain))"

definition sim_ir_integer_raw_from_unsigned :: "u64 \<Rightarrow> SimScalarDomain \<Rightarrow> u64 option" where
  "sim_ir_integer_raw_from_unsigned v domain =
     (if \<not> sim_ir_domain_is_exact_integer domain \<or> sd_is_signed domain then None
      else if sd_bit_width domain = 32 \<and> v > 2 ^ 32 - 1 then None
      else if sd_bit_width domain \<noteq> 32 \<and> sd_bit_width domain \<noteq> 64 then None
      else Some (sim_ir_integer_truncate v domain))"

text \<open>
  \<^verbatim>\<open>trunc(value) != value\<close> rejects what is not integral, so the value is an integer \<open>z\<close>. The bounds
  \<^verbatim>\<open>(double) INT64_MAX\<close> and \<^verbatim>\<open>(double) UINT64_MAX\<close> round up to \<open>2 ^ 63\<close> and \<open>2 ^ 64\<close>, so the conversion of
  exactly these two values is out of range: what the platform makes of it is the argument \<open>cast\<close>.
\<close>

definition sim_ir_integer_raw_from_double ::
  "(int \<Rightarrow> u64) \<Rightarrow> f64 \<Rightarrow> SimScalarDomain \<Rightarrow> u64 option" where
  "sim_ir_integer_raw_from_double cast v domain =
     (if \<not> sim_ir_domain_is_exact_integer domain then None
      else case f64_integer v of
        None \<Rightarrow> None
      | Some z \<Rightarrow>
          let to_i64 = (if z < 2 ^ 63 then word_of_int z else cast z);
              to_u64 = (if z < 2 ^ 64 then word_of_int z else cast z)
          in if sd_is_signed domain then
               if sd_bit_width domain = 32 then
                 if z < - (2 ^ 31) \<or> z > 2 ^ 31 - 1 then None
                 else sim_ir_integer_raw_from_signed to_i64 domain
               else if z < - (2 ^ 63) \<or> z > 2 ^ 63 then None
               else sim_ir_integer_raw_from_signed to_i64 domain
             else if z < 0 then None
             else if sd_bit_width domain = 32 then
               if z > 2 ^ 32 - 1 then None else sim_ir_integer_raw_from_unsigned to_u64 domain
             else if z > 2 ^ 64 then None
             else sim_ir_integer_raw_from_unsigned to_u64 domain)"

definition sim_ir_integer_raw_to_double :: "u64 \<Rightarrow> SimScalarDomain \<Rightarrow> f64" where
  "sim_ir_integer_raw_to_double raw domain =
     (if sd_is_signed domain then f64_of_int (sint (sim_ir_integer_as_i64 raw domain))
      else f64_of_int (uint (sim_ir_integer_truncate raw domain)))"

section \<open>Types\<close>

definition sim_ir_type_normalize :: "SimIRType \<Rightarrow> SimIRType" where
  "sim_ir_type_normalize t =
     (let t = (if ty_components t = 0 then t\<lparr>ty_components := 1\<rparr> else t);
          t = (if \<not> sim_scalar_domain_validate (ty_scalar_domain t) \<or>
                  sd_kind (ty_scalar_domain t) = SIM_SCALAR_DOMAIN_UNKNOWN
               then t\<lparr>ty_scalar_domain := sim_scalar_domain_f64\<rparr> else t);
          t = (if sim_scalar_domain_is_complex (ty_scalar_domain t) \<and> ty_components t < 2
               then t\<lparr>ty_components := 2\<rparr> else t)
      in if ty_components t \<le> 1 then t\<lparr>ty_kind := SIM_IR_VALUE_SCALAR, ty_components := 1\<rparr>
         else t\<lparr>ty_kind := SIM_IR_VALUE_VECTOR\<rparr>)"

definition sim_ir_type_scalar :: SimIRType where
  "sim_ir_type_scalar =
     \<lparr>ty_kind = SIM_IR_VALUE_SCALAR, ty_components = 1, ty_scalar_domain = sim_scalar_domain_f64\<rparr>"

definition sim_ir_type_scalar_domain_typed :: "SimScalarDomain \<Rightarrow> SimIRType" where
  "sim_ir_type_scalar_domain_typed domain =
     sim_ir_type_normalize
       \<lparr>ty_kind = SIM_IR_VALUE_SCALAR, ty_components = 1, ty_scalar_domain = domain\<rparr>"

definition sim_ir_type_vector :: "nat \<Rightarrow> SimIRType" where
  "sim_ir_type_vector n =
     \<lparr>ty_kind = (if n \<le> 1 then SIM_IR_VALUE_SCALAR else SIM_IR_VALUE_VECTOR),
      ty_components = (if n = 0 then 1 else n), ty_scalar_domain = sim_scalar_domain_f64\<rparr>"

definition sim_ir_type_complex :: SimIRType where
  "sim_ir_type_complex =
     \<lparr>ty_kind = SIM_IR_VALUE_VECTOR, ty_components = 2, ty_scalar_domain = sim_scalar_domain_c64\<rparr>"

definition sim_ir_type_is_scalar :: "SimIRType \<Rightarrow> bool" where
  "sim_ir_type_is_scalar t \<longleftrightarrow> ty_kind (sim_ir_type_normalize t) = SIM_IR_VALUE_SCALAR"

definition sim_ir_type_equal :: "SimIRType \<Rightarrow> SimIRType \<Rightarrow> bool" where
  "sim_ir_type_equal lhs rhs =
     (let lhs = sim_ir_type_normalize lhs; rhs = sim_ir_type_normalize rhs
      in ty_kind lhs = ty_kind rhs \<and> ty_components lhs = ty_components rhs \<and>
         sim_scalar_domain_equal (ty_scalar_domain lhs) (ty_scalar_domain rhs))"

definition sim_ir_type_scalar_domain :: "SimIRType \<Rightarrow> SimScalarDomain" where
  "sim_ir_type_scalar_domain t = ty_scalar_domain (sim_ir_type_normalize t)"

end
