(* ===== verification/Kernel_IR_Builder.thy ===== *)
theory Kernel_IR_Builder
  imports Kernel_IR
begin

text \<open>
  \<^verbatim>\<open>core/src/kernel_ir_builder.c\<close>: growth of the node and constant arrays, one function per node kind,
  opcode tagging and the collection of reachable nodes. An operation on a builder takes the pointer
  and returns the new node identifier together with the builder.
\<close>

unbundle bit_operations_syntax

section \<open>Storage\<close>

text \<open>The doubling loop \<^verbatim>\<open>while (new_capacity < required) new_capacity *= 2U\<close>.\<close>

function grow_capacity :: "nat \<Rightarrow> nat \<Rightarrow> nat" where
  "grow_capacity new_capacity required =
     (if 0 < new_capacity \<and> new_capacity < required then grow_capacity (new_capacity * 2) required
      else new_capacity)"
  by pat_completeness auto
termination by (relation "measure (\<lambda>(c, r). r - c)") auto

declare grow_capacity.simps [simp del]

definition sizeof_ir_node :: nat where
  "sizeof_ir_node = 192"

definition sim_ir_builder_reserve :: "heap \<Rightarrow> SimIRBuilder \<Rightarrow> nat \<Rightarrow> SimResult \<times> SimIRBuilder" where
  "sim_ir_builder_reserve heap b additional =
     (if additional = 0 then (SIM_RESULT_OK, b)
      else if ir_count b + additional \<le> b_capacity b then (SIM_RESULT_OK, b)
      else let required = ir_count b + additional;
               new_capacity = grow_capacity (if b_capacity b = 0 then 8 else b_capacity b) required
           in if \<not> malloc_ok heap (new_capacity * sizeof_ir_node) then (SIM_RESULT_OUT_OF_MEMORY, b)
              else (SIM_RESULT_OK, b\<lparr>b_nodes := Some (ir_nodes b), b_capacity := new_capacity\<rparr>))"

definition empty_builder :: SimIRBuilder where
  "empty_builder = \<lparr>b_nodes = None, b_capacity = 0, b_default_boundary = SIM_IR_BOUNDARY_NEUMANN,
     b_constants_data = None, b_constants_offsets = [], b_constants_components = [],
     b_constants_capacity = 0, b_constants_data_capacity = 0\<rparr>"

definition sim_ir_builder_init :: "SimIRBuilder option \<Rightarrow> SimResult \<times> SimIRBuilder option" where
  "sim_ir_builder_init builder =
     (case builder of
        None \<Rightarrow> (SIM_RESULT_INVALID_ARGUMENT, None)
      | Some _ \<Rightarrow> (SIM_RESULT_OK, Some empty_builder))"

definition sim_ir_builder_destroy :: "SimIRBuilder option \<Rightarrow> SimIRBuilder option" where
  "sim_ir_builder_destroy builder = map_option (\<lambda>_. empty_builder) builder"

definition sim_ir_builder_set_default_boundary ::
  "SimIRBuilder option \<Rightarrow> SimIRBoundaryPolicy \<Rightarrow> SimIRBuilder option" where
  "sim_ir_builder_set_default_boundary builder boundary =
     map_option (\<lambda>b. b\<lparr>b_default_boundary := boundary\<rparr>) builder"

definition sim_ir_builder_reset :: "SimIRBuilder option \<Rightarrow> SimIRBuilder option" where
  "sim_ir_builder_reset builder =
     map_option (\<lambda>b. b\<lparr>b_nodes := map_option (\<lambda>_. []) (b_nodes b),
       b_constants_data := map_option (\<lambda>_. []) (b_constants_data b),
       b_constants_offsets := [], b_constants_components := []\<rparr>) builder"

definition sim_ir_diff_spec_init :: "SimIRBuilder option \<Rightarrow> SimIRDiffSpec" where
  "sim_ir_diff_spec_init builder =
     \<lparr>ds_operand = SIM_IR_INVALID_NODE, ds_axis = 0, ds_dx = f64_one, ds_scale = f64_one, ds_order = 1,
      ds_stencil_order = 1, ds_method = SIM_IR_DIFF_METHOD_AUTO, ds_consistency_constant = f64_zero,
      ds_boundary = (case builder of None \<Rightarrow> SIM_IR_BOUNDARY_NEUMANN | Some b \<Rightarrow> b_default_boundary b),
      ds_result_type = sim_ir_type_scalar\<rparr>"

text \<open>The node \<^verbatim>\<open>memset\<close> leaves, with the two members \<^verbatim>\<open>sim_ir_builder_append\<close> sets afterwards.\<close>

definition zero_constant :: SimIRConstant where
  "zero_constant = \<lparr>cs_scalar = 0, cs_signed_scalar = 0, cs_unsigned_scalar = 0, cs_exact_integer = False,
     cs_constant_index = 0, cs_small = replicate SIM_IR_SMALL_CONSTANT_CAPACITY 0\<rparr>"

definition fresh_node :: SimIRNode where
  "fresh_node = \<lparr>nd_type = SIM_IR_NODE_CONSTANT, nd_id = 0,
     nd_value_type = \<lparr>ty_kind = SIM_IR_VALUE_SCALAR, ty_components = 0,
       ty_scalar_domain = sim_scalar_domain_unknown\<rparr>,
     nd_opcode = OAK_OP_MISC,
     nd_inferred_shape = \<lparr>sh_rank = 0, sh_shape = replicate 4 0, sh_has_shape = False\<rparr>,
     nd_warp_class = SIM_WARP_LEVEL_NONE, nd_is_local = False, nd_data = Data_constant zero_constant\<rparr>"

definition sim_ir_builder_append :: "heap \<Rightarrow> SimIRBuilder \<Rightarrow> SimIRNodeId \<times> SimIRBuilder" where
  "sim_ir_builder_append heap b =
     (let (result, b) = sim_ir_builder_reserve heap b 1
      in if result \<noteq> SIM_RESULT_OK then (SIM_IR_INVALID_NODE, b)
         else (ir_count b, b\<lparr>b_nodes := Some (ir_nodes b @ [fresh_node])\<rparr>))"

text \<open>
  What every constructor of nodes does after its checks: append, give up when that failed, and fill in
  the new node.
\<close>

definition append_filled ::
  "heap \<Rightarrow> SimIRBuilder \<Rightarrow> (SimIRNodeId \<Rightarrow> SimIRNode \<Rightarrow> SimIRNode) \<Rightarrow> SimIRNodeId \<times> SimIRBuilder" where
  "append_filled heap b fill =
     (let (node_id, b) = sim_ir_builder_append heap b
      in if node_id = SIM_IR_INVALID_NODE then (SIM_IR_INVALID_NODE, b)
         else (node_id, b\<lparr>b_nodes := Some ((ir_nodes b)[node_id := fill node_id (ir_nodes b ! node_id)])\<rparr>))"

definition fill_node ::
  "SimIRNodeType \<Rightarrow> SimIRType \<Rightarrow> bool \<Rightarrow> SimIRNodeData \<Rightarrow> SimIRNodeId \<Rightarrow> SimIRNode \<Rightarrow> SimIRNode" where
  "fill_node type value_type is_local data node_id node =
     node\<lparr>nd_type := type, nd_id := node_id, nd_value_type := value_type, nd_is_local := is_local,
          nd_data := data\<rparr>"

text \<open>The check \<^verbatim>\<open>builder == NULL\<close> that opens every constructor.\<close>

definition on_builder ::
  "(SimIRBuilder \<Rightarrow> SimIRNodeId \<times> SimIRBuilder) \<Rightarrow> SimIRBuilder option \<Rightarrow>
   SimIRNodeId \<times> SimIRBuilder option" where
  "on_builder f builder =
     (case builder of
        None \<Rightarrow> (SIM_IR_INVALID_NODE, None)
      | Some b \<Rightarrow> (case f b of (node_id, b') \<Rightarrow> (node_id, Some b')))"

text \<open>The check \<^verbatim>\<open>id == SIM_IR_INVALID_NODE || id >= builder->count\<close>, negated.\<close>

definition valid_node :: "SimIRBuilder \<Rightarrow> SimIRNodeId \<Rightarrow> bool" where
  "valid_node b node_id \<longleftrightarrow> \<not> (node_id = SIM_IR_INVALID_NODE \<or> node_id \<ge> ir_count b)"

section \<open>Accessors\<close>

definition sim_ir_builder_get :: "SimIRBuilder option \<Rightarrow> SimIRNodeId \<Rightarrow> SimIRNode option" where
  "sim_ir_builder_get builder node_id =
     (case builder of
        None \<Rightarrow> None
      | Some b \<Rightarrow> if \<not> valid_node b node_id then None else Some (ir_nodes b ! node_id))"

definition sim_ir_builder_node_type :: "SimIRBuilder option \<Rightarrow> SimIRNodeId \<Rightarrow> SimIRType" where
  "sim_ir_builder_node_type builder node_id =
     (case sim_ir_builder_get builder node_id of
        None \<Rightarrow> sim_ir_type_scalar
      | Some node \<Rightarrow> sim_ir_type_normalize (nd_value_type node))"

definition sim_ir_builder_node_warp_class :: "SimIRBuilder option \<Rightarrow> SimIRNodeId \<Rightarrow> SimWarpLevel" where
  "sim_ir_builder_node_warp_class builder node_id =
     (case sim_ir_builder_get builder node_id of
        None \<Rightarrow> SIM_WARP_LEVEL_NONE
      | Some node \<Rightarrow> nd_warp_class node)"

definition sim_ir_builder_set_node_warp_class ::
  "SimIRBuilder option \<Rightarrow> SimIRNodeId \<Rightarrow> SimWarpLevel \<Rightarrow> SimResult \<times> SimIRBuilder option" where
  "sim_ir_builder_set_node_warp_class builder node_id warp_class =
     (case builder of
        None \<Rightarrow> (SIM_RESULT_INVALID_ARGUMENT, None)
      | Some b \<Rightarrow>
          if \<not> valid_node b node_id then (SIM_RESULT_INVALID_ARGUMENT, builder)
          else (SIM_RESULT_OK, Some (b\<lparr>b_nodes :=
                  Some ((ir_nodes b)[node_id := (ir_nodes b ! node_id)\<lparr>nd_warp_class := warp_class\<rparr>])\<rparr>)))"

section \<open>Constants\<close>

definition sim_ir_builder_constant_integer_raw_typed ::
  "heap \<Rightarrow> SimIRBuilder option \<Rightarrow> u64 \<Rightarrow> SimIRType \<Rightarrow> SimIRNodeId \<times> SimIRBuilder option" where
  "sim_ir_builder_constant_integer_raw_typed heap builder raw t = on_builder (\<lambda>b.
     let normalized = sim_ir_type_normalize t;
         domain = ty_scalar_domain normalized
     in if \<not> sim_ir_type_is_scalar normalized \<or> \<not> sim_ir_domain_is_exact_integer domain
        then (SIM_IR_INVALID_NODE, b)
        else append_filled heap b (fill_node SIM_IR_NODE_CONSTANT normalized True
               (Data_constant (zero_constant\<lparr>cs_scalar := sim_ir_integer_raw_to_double raw domain,
                  cs_signed_scalar := sim_ir_integer_as_i64 raw domain,
                  cs_unsigned_scalar := sim_ir_integer_truncate raw domain,
                  cs_exact_integer := True, cs_constant_index := SIM_IR_INVALID_CONSTANT_INDEX\<rparr>)))) builder"

definition sim_ir_builder_constant_typed ::
  "heap \<Rightarrow> (int \<Rightarrow> u64) \<Rightarrow> SimIRBuilder option \<Rightarrow> f64 \<Rightarrow> SimIRType \<Rightarrow> SimIRNodeId \<times> SimIRBuilder option" where
  "sim_ir_builder_constant_typed heap cast builder v t =
     (let normalized = sim_ir_type_normalize t;
          domain = ty_scalar_domain normalized
      in if builder = None then (SIM_IR_INVALID_NODE, None)
         else if sim_ir_domain_is_exact_integer domain then
           (case sim_ir_integer_raw_from_double cast v domain of
              None \<Rightarrow> (SIM_IR_INVALID_NODE, builder)
            | Some raw \<Rightarrow> sim_ir_builder_constant_integer_raw_typed heap builder raw normalized)
         else on_builder (\<lambda>b. append_filled heap b (fill_node SIM_IR_NODE_CONSTANT normalized True
                (Data_constant (zero_constant\<lparr>cs_scalar := sim_ir_canonicalize_constant v,
                   cs_signed_scalar := 0, cs_unsigned_scalar := 0, cs_exact_integer := False,
                   cs_constant_index := SIM_IR_INVALID_CONSTANT_INDEX\<rparr>)))) builder)"

definition sim_ir_builder_constant_i64_typed ::
  "heap \<Rightarrow> SimIRBuilder option \<Rightarrow> u64 \<Rightarrow> SimIRType \<Rightarrow> SimIRNodeId \<times> SimIRBuilder option" where
  "sim_ir_builder_constant_i64_typed heap builder v t =
     (let normalized = sim_ir_type_normalize t;
          domain = ty_scalar_domain normalized
      in if builder = None then (SIM_IR_INVALID_NODE, None)
         else case sim_ir_integer_raw_from_signed v domain of
           None \<Rightarrow> (SIM_IR_INVALID_NODE, builder)
         | Some raw \<Rightarrow> sim_ir_builder_constant_integer_raw_typed heap builder raw normalized)"

definition sim_ir_builder_constant_u64_typed ::
  "heap \<Rightarrow> SimIRBuilder option \<Rightarrow> u64 \<Rightarrow> SimIRType \<Rightarrow> SimIRNodeId \<times> SimIRBuilder option" where
  "sim_ir_builder_constant_u64_typed heap builder v t =
     (let normalized = sim_ir_type_normalize t;
          domain = ty_scalar_domain normalized
      in if builder = None then (SIM_IR_INVALID_NODE, None)
         else case sim_ir_integer_raw_from_unsigned v domain of
           None \<Rightarrow> (SIM_IR_INVALID_NODE, builder)
         | Some raw \<Rightarrow> sim_ir_builder_constant_integer_raw_typed heap builder raw normalized)"

definition sim_ir_builder_constants_reserve ::
  "heap \<Rightarrow> SimIRBuilder \<Rightarrow> nat \<Rightarrow> SimResult \<times> SimIRBuilder" where
  "sim_ir_builder_constants_reserve heap b additional =
     (let required = length (b_constants_offsets b) + additional
      in if additional = 0 then (SIM_RESULT_OK, b)
         else if required \<le> b_constants_capacity b then (SIM_RESULT_OK, b)
         else let new_capacity =
                    grow_capacity (if b_constants_capacity b = 0 then 4 else b_constants_capacity b) required
              in if \<not> malloc_ok heap (new_capacity * 8) then (SIM_RESULT_OUT_OF_MEMORY, b)
                 else (SIM_RESULT_OK, b\<lparr>b_constants_capacity := new_capacity\<rparr>))"

text \<open>The search for an equal entry of the constant pool.\<close>

definition pool_match :: "SimIRBuilder \<Rightarrow> f64 list \<Rightarrow> nat \<Rightarrow> bool" where
  "pool_match b vs k \<longleftrightarrow>
     b_constants_components b ! k = length vs \<and> b_constants_data b \<noteq> None \<and>
     (\<forall>c < length vs. f64_eq (ir_constants b ! (b_constants_offsets b ! k + c))
        (sim_ir_canonicalize_constant (vs ! c)))"

definition pool_find :: "SimIRBuilder \<Rightarrow> f64 list \<Rightarrow> nat option" where
  "pool_find b vs = find (pool_match b vs) [0..<length (b_constants_offsets b)]"

text \<open>
  Adding an entry to the pool: room for its offset and its length, room for its values, and the
  values. Returns the index of the entry, or nothing when an allocation fails.
\<close>

definition pool_grow_data :: "heap \<Rightarrow> SimIRBuilder \<Rightarrow> nat \<Rightarrow> SimIRBuilder option" where
  "pool_grow_data heap b needed =
     (if needed > b_constants_data_capacity b then
        let new_capacity = grow_capacity
              (if b_constants_data_capacity b = 0 then needed else b_constants_data_capacity b) needed
        in if \<not> malloc_ok heap (new_capacity * 8) then None
           else Some (b\<lparr>b_constants_data := Some (ir_constants b), b_constants_data_capacity := new_capacity\<rparr>)
      else Some b)"

definition pool_add :: "heap \<Rightarrow> SimIRBuilder \<Rightarrow> f64 list \<Rightarrow> nat option \<times> SimIRBuilder" where
  "pool_add heap b vs =
     (let (res, b) = sim_ir_builder_constants_reserve heap b 1
      in if res \<noteq> SIM_RESULT_OK then (None, b)
         else let idx = length (b_constants_offsets b);
                  offset = length (ir_constants b);
                  needed = offset + length vs
              in case pool_grow_data heap b needed of
                   None \<Rightarrow> (None, b)
                 | Some b \<Rightarrow>
                     if b_constants_data b = None then (None, b)
                     else (Some idx, b\<lparr>b_constants_offsets := b_constants_offsets b @ [offset],
                             b_constants_components := b_constants_components b @ [length vs],
                             b_constants_data :=
                               Some (ir_constants b @ map sim_ir_canonicalize_constant vs)\<rparr>))"

text \<open>An array argument with its length: \<open>vals\<close> are the \<^verbatim>\<open>components\<close> values, \<open>None\<close> a null pointer.\<close>

definition sim_ir_builder_constant_vector_typed ::
  "heap \<Rightarrow> SimIRBuilder option \<Rightarrow> f64 list option \<Rightarrow> SimIRType \<Rightarrow> SimIRNodeId \<times> SimIRBuilder option" where
  "sim_ir_builder_constant_vector_typed heap builder vals t =
     (case vals of
        None \<Rightarrow> (SIM_IR_INVALID_NODE, builder)
      | Some vs \<Rightarrow> on_builder (\<lambda>b.
          let normalized = sim_ir_type_normalize t;
              pooled = (\<lambda>k. fill_node SIM_IR_NODE_CONSTANT normalized True
                              (Data_constant (zero_constant\<lparr>cs_constant_index := k\<rparr>)))
          in if length vs = 0 \<or> ty_components normalized \<noteq> length vs \<or>
                sim_ir_domain_is_exact_integer (ty_scalar_domain normalized)
             then (SIM_IR_INVALID_NODE, b)
             else if length vs \<le> SIM_IR_SMALL_CONSTANT_CAPACITY then
               append_filled heap b (fill_node SIM_IR_NODE_CONSTANT normalized True
                 (Data_constant (zero_constant\<lparr>cs_constant_index := SIM_IR_INVALID_CONSTANT_INDEX,
                    cs_small := map sim_ir_canonicalize_constant vs @
                                drop (length vs) (cs_small zero_constant)\<rparr>)))
             else case pool_find b vs of
               Some k \<Rightarrow> append_filled heap b (pooled k)
             | None \<Rightarrow>
                 (case pool_add heap b vs of
                    (None, b) \<Rightarrow> (SIM_IR_INVALID_NODE, b)
                  | (Some idx, b) \<Rightarrow> append_filled heap b (pooled idx))) builder)"

definition sim_ir_builder_constant_vector ::
  "heap \<Rightarrow> SimIRBuilder option \<Rightarrow> f64 list option \<Rightarrow> SimIRNodeId \<times> SimIRBuilder option" where
  "sim_ir_builder_constant_vector heap builder vals =
     sim_ir_builder_constant_vector_typed heap builder vals
       (sim_ir_type_vector (case vals of None \<Rightarrow> 0 | Some vs \<Rightarrow> length vs))"

definition sim_ir_builder_constant ::
  "heap \<Rightarrow> (int \<Rightarrow> u64) \<Rightarrow> SimIRBuilder option \<Rightarrow> f64 \<Rightarrow> SimIRNodeId \<times> SimIRBuilder option" where
  "sim_ir_builder_constant heap cast builder v =
     sim_ir_builder_constant_typed heap cast builder v sim_ir_type_scalar"

definition sim_ir_builder_constant_complex ::
  "heap \<Rightarrow> SimIRBuilder option \<Rightarrow> f64 \<Rightarrow> f64 \<Rightarrow> SimIRNodeId \<times> SimIRBuilder option" where
  "sim_ir_builder_constant_complex heap builder real imag =
     sim_ir_builder_constant_vector_typed heap builder (Some [real, imag]) sim_ir_type_complex"

section \<open>Leaves\<close>

text \<open>The enumerators are all there are, so every parameter and opcode is a valid one.\<close>

definition sim_ir_opcode_sanitize :: "SimIROpcode \<Rightarrow> SimIROpcode" where
  "sim_ir_opcode_sanitize opcode = opcode"

definition sim_ir_builder_param ::
  "heap \<Rightarrow> SimIRBuilder option \<Rightarrow> SimIRParamKind \<Rightarrow> SimIRNodeId \<times> SimIRBuilder option" where
  "sim_ir_builder_param heap builder param = on_builder (\<lambda>b.
     append_filled heap b (fill_node SIM_IR_NODE_PARAM
       (if param = SIM_IR_PARAM_STEP_INDEX then sim_ir_type_scalar_domain_typed sim_scalar_domain_u64
        else sim_ir_type_scalar) True (Data_param param))) builder"

definition sim_ir_builder_index ::
  "heap \<Rightarrow> SimIRBuilder option \<Rightarrow> SimIRNodeId \<times> SimIRBuilder option" where
  "sim_ir_builder_index heap builder = on_builder (\<lambda>b.
     append_filled heap b (fill_node SIM_IR_NODE_INDEX
       (sim_ir_type_scalar_domain_typed sim_scalar_domain_u64) True Data_index)) builder"

definition sim_ir_builder_coord ::
  "heap \<Rightarrow> SimIRBuilder option \<Rightarrow> nat \<Rightarrow> nat \<Rightarrow> SimIRNodeId \<times> SimIRBuilder option" where
  "sim_ir_builder_coord heap builder field_id axis = on_builder (\<lambda>b.
     append_filled heap b (fill_node SIM_IR_NODE_COORD
       (sim_ir_type_scalar_domain_typed sim_scalar_domain_u64) True (Data_coord field_id axis))) builder"

definition sim_ir_builder_field_ref_typed ::
  "heap \<Rightarrow> SimIRBuilder option \<Rightarrow> nat \<Rightarrow> SimIRType \<Rightarrow> SimIRNodeId \<times> SimIRBuilder option" where
  "sim_ir_builder_field_ref_typed heap builder field_id t = on_builder (\<lambda>b.
     append_filled heap b (fill_node SIM_IR_NODE_FIELD_REF (sim_ir_type_normalize t) True
       (Data_field field_id))) builder"

definition sim_ir_builder_field_ref ::
  "heap \<Rightarrow> SimIRBuilder option \<Rightarrow> nat \<Rightarrow> SimIRNodeId \<times> SimIRBuilder option" where
  "sim_ir_builder_field_ref heap builder field_id =
     sim_ir_builder_field_ref_typed heap builder field_id sim_ir_type_scalar"

text \<open>
  The variance of a noise node falls back to the square of its amplitude: \<open>mul\<close> is the rounded
  product of doubles.
\<close>

definition sim_ir_builder_noise_spec ::
  "heap \<Rightarrow> (f64 \<Rightarrow> f64 \<Rightarrow> f64) \<Rightarrow> SimIRBuilder option \<Rightarrow> SimIRNoiseSpec option \<Rightarrow>
   SimIRNodeId \<times> SimIRBuilder option" where
  "sim_ir_builder_noise_spec heap mul builder spec = on_builder (\<lambda>b.
     let local_spec = (case spec of
           None \<Rightarrow> \<lparr>ns_seed = 0, ns_amplitude = f64_one, ns_variance = f64_one,
                     ns_law = SIM_IR_NOISE_LAW_ITO, ns_distribution = SIM_IR_NOISE_DISTRIBUTION_UNIFORM,
                     ns_value_type = sim_ir_type_scalar\<rparr>
         | Some s \<Rightarrow> s)
     in if f64_less (ns_amplitude local_spec) f64_zero then (SIM_IR_INVALID_NODE, b)
        else let variance = (if f64_less (ns_variance local_spec) f64_zero \<or>
                                \<not> f64_isfinite (ns_variance local_spec)
                             then mul (ns_amplitude local_spec) (ns_amplitude local_spec)
                             else ns_variance local_spec)
             in append_filled heap b (fill_node SIM_IR_NODE_NOISE
                  (sim_ir_type_normalize (ns_value_type local_spec)) True
                  (Data_noise \<lparr>no_seed = ns_seed local_spec, no_amplitude = ns_amplitude local_spec,
                     no_variance = variance, no_law = ns_law local_spec,
                     no_distribution = ns_distribution local_spec\<rparr>))) builder"

definition sim_ir_builder_noise ::
  "heap \<Rightarrow> (f64 \<Rightarrow> f64 \<Rightarrow> f64) \<Rightarrow> SimIRBuilder option \<Rightarrow> u32 \<Rightarrow> f64 \<Rightarrow> SimIRNodeId \<times> SimIRBuilder option" where
  "sim_ir_builder_noise heap mul builder seed amplitude =
     sim_ir_builder_noise_spec heap mul builder
       (Some \<lparr>ns_seed = seed, ns_amplitude = amplitude, ns_variance = mul amplitude amplitude,
          ns_law = SIM_IR_NOISE_LAW_ITO, ns_distribution = SIM_IR_NOISE_DISTRIBUTION_UNIFORM,
          ns_value_type = sim_ir_type_scalar\<rparr>)"

definition sim_ir_builder_stateful_spec ::
  "heap \<Rightarrow> SimIRBuilder option \<Rightarrow> SimIRStatefulSpec option \<Rightarrow> SimIRNodeId \<times> SimIRBuilder option" where
  "sim_ir_builder_stateful_spec heap builder spec =
     (case spec of
        None \<Rightarrow> (SIM_IR_INVALID_NODE, builder)
      | Some s \<Rightarrow> on_builder (\<lambda>b.
          if ss_eval s = None then (SIM_IR_INVALID_NODE, b)
          else let result_type = sim_ir_type_normalize
                     (if ty_components (ss_value_type s) = 0 then sim_ir_type_scalar else ss_value_type s)
               in append_filled heap b (fill_node SIM_IR_NODE_STATEFUL result_type False
                    (Data_stateful (ss_eval s) (ss_userdata s) (ss_label s)))) builder)"

definition sim_ir_builder_stateful ::
  "heap \<Rightarrow> SimIRBuilder option \<Rightarrow> nat option \<Rightarrow> nat option \<Rightarrow> string option \<Rightarrow>
   SimIRNodeId \<times> SimIRBuilder option" where
  "sim_ir_builder_stateful heap builder eval userdata label =
     sim_ir_builder_stateful_spec heap builder
       (Some \<lparr>ss_eval = eval, ss_userdata = userdata, ss_label = label, ss_value_type = sim_ir_type_scalar\<rparr>)"

section \<open>Nodes with operands\<close>

definition sim_ir_builder_call ::
  "heap \<Rightarrow> SimIRBuilder option \<Rightarrow> SimIRCallKind \<Rightarrow> SimIRNodeId \<Rightarrow> SimIRNodeId \<times> SimIRBuilder option" where
  "sim_ir_builder_call heap builder kind operand = on_builder (\<lambda>b.
     if \<not> valid_node b operand then (SIM_IR_INVALID_NODE, b)
     else let operand_type = sim_ir_type_normalize (nd_value_type (ir_nodes b ! operand));
              operand_domain = sim_ir_type_scalar_domain operand_type
          in if \<not> sim_scalar_domain_supports operand_domain SIM_SCALAR_CAP_ANALYTIC_CALL
             then (SIM_IR_INVALID_NODE, b)
             else append_filled heap b (fill_node SIM_IR_NODE_CALL operand_type
                    (nd_is_local (ir_nodes b ! operand)) (Data_call operand kind))) builder"

definition sim_ir_builder_floor ::
  "heap \<Rightarrow> SimIRBuilder option \<Rightarrow> SimIRNodeId \<Rightarrow> SimIRNodeId \<times> SimIRBuilder option" where
  "sim_ir_builder_floor heap builder operand = on_builder (\<lambda>b.
     if \<not> valid_node b operand then (SIM_IR_INVALID_NODE, b)
     else let operand_type = sim_ir_type_normalize (nd_value_type (ir_nodes b ! operand));
              operand_domain = sim_ir_type_scalar_domain operand_type
          in if \<not> sim_ir_type_is_scalar operand_type \<or>
                \<not> sim_scalar_domain_supports operand_domain SIM_SCALAR_CAP_FLOOR
             then (SIM_IR_INVALID_NODE, b)
             else append_filled heap b (fill_node SIM_IR_NODE_FLOOR operand_type
                    (nd_is_local (ir_nodes b ! operand)) (Data_unary operand))) builder"

definition sim_ir_builder_mod ::
  "heap \<Rightarrow> SimIRBuilder option \<Rightarrow> SimIRNodeId \<Rightarrow> SimIRNodeId \<Rightarrow> SimIRNodeId \<times> SimIRBuilder option" where
  "sim_ir_builder_mod heap builder lhs rhs = on_builder (\<lambda>b.
     if \<not> valid_node b lhs \<or> \<not> valid_node b rhs then (SIM_IR_INVALID_NODE, b)
     else let lhs_type = sim_ir_type_normalize (nd_value_type (ir_nodes b ! lhs));
              rhs_type = sim_ir_type_normalize (nd_value_type (ir_nodes b ! rhs));
              lhs_domain = sim_ir_type_scalar_domain lhs_type;
              rhs_domain = sim_ir_type_scalar_domain rhs_type
          in if \<not> sim_ir_type_is_scalar lhs_type \<or> \<not> sim_ir_type_equal lhs_type rhs_type \<or>
                \<not> sim_scalar_domain_supports lhs_domain SIM_SCALAR_CAP_MODULO \<or>
                \<not> sim_ir_type_is_scalar rhs_type \<or>
                \<not> sim_scalar_domain_supports rhs_domain SIM_SCALAR_CAP_MODULO
             then (SIM_IR_INVALID_NODE, b)
             else append_filled heap b (fill_node SIM_IR_NODE_MOD lhs_type
                    (nd_is_local (ir_nodes b ! lhs) \<and> nd_is_local (ir_nodes b ! rhs))
                    (Data_binary lhs rhs))) builder"

definition sim_ir_builder_binary ::
  "heap \<Rightarrow> SimIRBuilder option \<Rightarrow> SimIRNodeType \<Rightarrow> SimIRNodeId \<Rightarrow> SimIRNodeId \<Rightarrow>
   SimIRNodeId \<times> SimIRBuilder option" where
  "sim_ir_builder_binary heap builder type lhs rhs = on_builder (\<lambda>b.
     if \<not> (type = SIM_IR_NODE_ADD \<or> type = SIM_IR_NODE_SUB \<or> type = SIM_IR_NODE_MUL \<or>
           type = SIM_IR_NODE_DIV \<or> type = SIM_IR_NODE_POW) then (SIM_IR_INVALID_NODE, b)
     else if \<not> valid_node b lhs \<or> \<not> valid_node b rhs then (SIM_IR_INVALID_NODE, b)
     else if \<not> sim_ir_type_equal (nd_value_type (ir_nodes b ! lhs)) (nd_value_type (ir_nodes b ! rhs))
       then (SIM_IR_INVALID_NODE, b)
     else let value_type = sim_ir_type_normalize (nd_value_type (ir_nodes b ! lhs));
              value_domain = sim_ir_type_scalar_domain value_type
          in if ((type = SIM_IR_NODE_ADD \<or> type = SIM_IR_NODE_SUB) \<and>
                 \<not> sim_scalar_domain_supports value_domain SIM_SCALAR_CAP_ADDITIVE_ARITHMETIC) \<or>
                (type = SIM_IR_NODE_MUL \<and>
                 \<not> sim_scalar_domain_supports value_domain SIM_SCALAR_CAP_MULTIPLICATIVE_ARITHMETIC) \<or>
                (type = SIM_IR_NODE_DIV \<and>
                 \<not> sim_scalar_domain_supports value_domain SIM_SCALAR_CAP_DIVISION) \<or>
                (type = SIM_IR_NODE_POW \<and>
                 \<not> sim_scalar_domain_supports value_domain SIM_SCALAR_CAP_POWER)
             then (SIM_IR_INVALID_NODE, b)
             else append_filled heap b (fill_node type value_type
                    (nd_is_local (ir_nodes b ! lhs) \<and> nd_is_local (ir_nodes b ! rhs))
                    (Data_binary lhs rhs))) builder"

definition sim_ir_builder_pow ::
  "heap \<Rightarrow> SimIRBuilder option \<Rightarrow> SimIRNodeId \<Rightarrow> SimIRNodeId \<Rightarrow> SimIRNodeId \<times> SimIRBuilder option" where
  "sim_ir_builder_pow heap builder lhs rhs = sim_ir_builder_binary heap builder SIM_IR_NODE_POW lhs rhs"

definition sim_ir_builder_diff_spec ::
  "heap \<Rightarrow> SimIRBuilder option \<Rightarrow> SimIRDiffSpec option \<Rightarrow> SimIRNodeId \<times> SimIRBuilder option" where
  "sim_ir_builder_diff_spec heap builder spec =
     (case spec of
        None \<Rightarrow> (SIM_IR_INVALID_NODE, builder)
      | Some s \<Rightarrow> on_builder (\<lambda>b.
          if \<not> valid_node b (ds_operand s) then (SIM_IR_INVALID_NODE, b)
          else if f64_le (ds_dx s) f64_zero then (SIM_IR_INVALID_NODE, b)
          else let order = (if ds_order s = 0 then 1 else ds_order s);
                   stencil_order = (if ds_stencil_order s = 0 then order else ds_stencil_order s);
                   consistency = (if \<not> f64_isfinite (ds_consistency_constant s) \<or>
                                     f64_less (ds_consistency_constant s) f64_zero
                                  then f64_zero else ds_consistency_constant s);
                   operand_type = nd_value_type (ir_nodes b ! ds_operand s);
                   result_type = sim_ir_type_normalize
                     (if ty_components (ds_result_type s) = 0 then operand_type else ds_result_type s)
               in append_filled heap b (fill_node SIM_IR_NODE_DIFF result_type False
                    (Data_diff \<lparr>df_operand = ds_operand s, df_axis = ds_axis s, df_dx = ds_dx s,
                       df_scale = ds_scale s, df_order = order, df_stencil_order = stencil_order,
                       df_method = ds_method s, df_consistency_constant = consistency,
                       df_boundary = ds_boundary s\<rparr>))) builder)"

definition sim_ir_builder_diff ::
  "heap \<Rightarrow> SimIRBuilder option \<Rightarrow> SimIRNodeId \<Rightarrow> nat \<Rightarrow> f64 \<Rightarrow> f64 \<Rightarrow> SimIRNodeId \<times> SimIRBuilder option" where
  "sim_ir_builder_diff heap builder operand axis dx scale =
     (case builder of
        None \<Rightarrow> (SIM_IR_INVALID_NODE, None)
      | Some b \<Rightarrow>
          if \<not> valid_node b operand then (SIM_IR_INVALID_NODE, builder)
          else sim_ir_builder_diff_spec heap builder
                 (Some \<lparr>ds_operand = operand, ds_axis = axis, ds_dx = dx, ds_scale = scale, ds_order = 1,
                    ds_stencil_order = 1, ds_method = SIM_IR_DIFF_METHOD_AUTO,
                    ds_consistency_constant = f64_zero, ds_boundary = b_default_boundary b,
                    ds_result_type = nd_value_type (ir_nodes b ! operand)\<rparr>))"

definition sim_ir_guard_normalize :: "SimIRWarpGuard \<Rightarrow> SimIRWarpGuard" where
  "sim_ir_guard_normalize guard =
     (let mode = (if wg_mode guard \<in> {0, 1, 2, 3} then wg_mode guard else continuity_int SIM_CONTINUITY_NONE);
          guard = guard\<lparr>wg_mode := mode\<rparr>
      in if mode = continuity_int SIM_CONTINUITY_CLAMPED \<or> mode = continuity_int SIM_CONTINUITY_LIMITED then
           let lo = (if \<not> f64_isfinite (wg_clamp_min guard) then f64_minus_million else wg_clamp_min guard);
               hi = (if \<not> f64_isfinite (wg_clamp_max guard) then f64_million else wg_clamp_max guard);
               (lo, hi) = (if f64_less hi lo then (hi, lo) else (lo, hi))
           in guard\<lparr>wg_clamp_min := lo, wg_clamp_max := hi,
                wg_tolerance := sim_ir_positive_or_default (wg_tolerance guard) f64_millionth\<rparr>
         else guard\<lparr>wg_clamp_min := f64_zero, wg_clamp_max := f64_zero, wg_tolerance := f64_zero\<rparr>)"

definition sim_ir_warp_level_from_profile :: "SimIRWarpProfile \<Rightarrow> SimWarpLevel" where
  "sim_ir_warp_level_from_profile profile = SIM_WARP_LEVEL_LEVEL2"

text \<open>The normalization of the local copy of a warp specification.\<close>

definition warp_spec_normalize :: "SimIRWarpSpec \<Rightarrow> SimIRWarpSpec" where
  "warp_spec_normalize s =
     s\<lparr>ws_bias := (if \<not> f64_isfinite (ws_bias s) then f64_zero else ws_bias s),
       ws_lambda := (if \<not> f64_isfinite (ws_lambda s) then f64_one else ws_lambda s),
       ws_delta := (if \<not> f64_isfinite (ws_delta s) then f64_millionth
                    else if f64_le (f64_fabs (ws_delta s)) f64_zero then f64_millionth
                    else f64_fabs (ws_delta s)),
       ws_tolerance := (if \<not> f64_isfinite (ws_tolerance s) \<or> f64_le (ws_tolerance s) f64_zero
                        then f64_zero else ws_tolerance s),
       ws_guard := sim_ir_guard_normalize (ws_guard s)\<rparr>"

definition sim_ir_builder_warp_spec ::
  "heap \<Rightarrow> SimIRBuilder option \<Rightarrow> SimIRWarpSpec option \<Rightarrow> SimIRNodeId \<times> SimIRBuilder option" where
  "sim_ir_builder_warp_spec heap builder spec =
     (case spec of
        None \<Rightarrow> (SIM_IR_INVALID_NODE, builder)
      | Some spec \<Rightarrow> on_builder (\<lambda>b.
          if \<not> valid_node b (ws_operand spec) then (SIM_IR_INVALID_NODE, b)
          else let s = warp_spec_normalize spec;
                   operand_type = nd_value_type (ir_nodes b ! ws_operand s)
               in if \<not> sim_ir_type_is_scalar operand_type then (SIM_IR_INVALID_NODE, b)
                  else let result_type = sim_ir_type_normalize
                             (if ty_components (ws_result_type s) = 0 then operand_type
                              else ws_result_type s)
                       in if \<not> sim_ir_type_is_scalar result_type then (SIM_IR_INVALID_NODE, b)
                          else let warp_class = (if ws_warp_class s = SIM_WARP_LEVEL_NONE
                                                 then sim_ir_warp_level_from_profile (ws_profile s)
                                                 else ws_warp_class s)
                               in append_filled heap b (\<lambda>node_id node.
                                    (fill_node SIM_IR_NODE_WARP result_type True
                                       (Data_warp \<lparr>wp_operand = ws_operand s, wp_bias = ws_bias s,
                                          wp_delta = ws_delta s, wp_lambda = ws_lambda s,
                                          wp_tolerance = ws_tolerance s, wp_profile = ws_profile s,
                                          wp_guard = ws_guard s\<rparr>) node_id node)
                                    \<lparr>nd_warp_class := warp_class\<rparr>)) builder)"

definition sim_ir_builder_warp ::
  "heap \<Rightarrow> SimIRBuilder option \<Rightarrow> SimIRNodeId \<Rightarrow> SimIRWarpProfile \<Rightarrow> f64 \<Rightarrow> f64 \<Rightarrow> f64 \<Rightarrow>
   SimIRNodeId \<times> SimIRBuilder option" where
  "sim_ir_builder_warp heap builder operand profile bias delta lambda =
     sim_ir_builder_warp_spec heap builder
       (Some \<lparr>ws_operand = operand, ws_bias = bias, ws_delta = delta, ws_lambda = lambda,
          ws_tolerance = f64_zero, ws_profile = profile, ws_warp_class = SIM_WARP_LEVEL_NONE,
          ws_guard = \<lparr>wg_mode = continuity_int SIM_CONTINUITY_NONE, wg_clamp_min = f64_zero,
            wg_clamp_max = f64_zero, wg_tolerance = f64_zero\<rparr>,
          ws_result_type = sim_ir_type_scalar\<rparr>)"

definition sim_ir_builder_complex_rotate ::
  "heap \<Rightarrow> SimIRBuilder option \<Rightarrow> SimIRNodeId \<Rightarrow> SimIRNodeId \<Rightarrow> SimIRNodeId \<times> SimIRBuilder option" where
  "sim_ir_builder_complex_rotate heap builder operand angle = on_builder (\<lambda>b.
     if \<not> valid_node b operand \<or> \<not> valid_node b angle then (SIM_IR_INVALID_NODE, b)
     else let operand_type = sim_ir_type_normalize (nd_value_type (ir_nodes b ! operand));
              angle_type = sim_ir_type_normalize (nd_value_type (ir_nodes b ! angle));
              operand_domain = sim_ir_type_scalar_domain operand_type;
              angle_domain = sim_ir_type_scalar_domain angle_type
          in if ty_components operand_type \<noteq> 2 \<or>
                \<not> sim_scalar_domain_supports operand_domain SIM_SCALAR_CAP_COMPLEX_ROTATION
             then (SIM_IR_INVALID_NODE, b)
             else if \<not> sim_ir_type_is_scalar angle_type \<or>
                     \<not> sim_scalar_domain_supports angle_domain SIM_SCALAR_CAP_ORDERING
             then (SIM_IR_INVALID_NODE, b)
             else append_filled heap b (fill_node SIM_IR_NODE_COMPLEX_ROTATE operand_type
                    (nd_is_local (ir_nodes b ! operand)) (Data_complex_rotate operand angle))) builder"

definition sim_ir_builder_complex_pack ::
  "heap \<Rightarrow> SimIRBuilder option \<Rightarrow> SimIRNodeId \<Rightarrow> SimIRNodeId \<Rightarrow> SimIRNodeId \<times> SimIRBuilder option" where
  "sim_ir_builder_complex_pack heap builder real imag = on_builder (\<lambda>b.
     if \<not> valid_node b real \<or> \<not> valid_node b imag then (SIM_IR_INVALID_NODE, b)
     else let real_type = sim_ir_type_normalize (nd_value_type (ir_nodes b ! real));
              imag_type = sim_ir_type_normalize (nd_value_type (ir_nodes b ! imag));
              real_domain = sim_ir_type_scalar_domain real_type;
              imag_domain = sim_ir_type_scalar_domain imag_type
          in if \<not> sim_ir_type_is_scalar real_type \<or> sim_scalar_domain_is_complex real_domain \<or>
                \<not> sim_scalar_domain_supports real_domain SIM_SCALAR_CAP_ADDITIVE_ARITHMETIC \<or>
                \<not> sim_ir_type_is_scalar imag_type \<or> sim_scalar_domain_is_complex imag_domain \<or>
                \<not> sim_scalar_domain_supports imag_domain SIM_SCALAR_CAP_ADDITIVE_ARITHMETIC
             then (SIM_IR_INVALID_NODE, b)
             else append_filled heap b (fill_node SIM_IR_NODE_COMPLEX_PACK sim_ir_type_complex
                    (nd_is_local (ir_nodes b ! real) \<and> nd_is_local (ir_nodes b ! imag))
                    (Data_complex_pack real imag))) builder"

section \<open>Reachable nodes and opcodes\<close>

text \<open>
  The operands a node refers to, in the order the traversals visit them. A union whose member does not
  fit the tag of its node is \<open>None\<close>; no operation builds one.
\<close>

definition node_operands :: "SimIRNode \<Rightarrow> SimIRNodeId list option" where
  "node_operands node =
     (case (nd_type node, nd_data node) of
        (SIM_IR_NODE_CONSTANT, Data_constant _) \<Rightarrow> Some []
      | (SIM_IR_NODE_FIELD_REF, Data_field _) \<Rightarrow> Some []
      | (SIM_IR_NODE_PARAM, Data_param _) \<Rightarrow> Some []
      | (SIM_IR_NODE_INDEX, Data_index) \<Rightarrow> Some []
      | (SIM_IR_NODE_NOISE, Data_noise _) \<Rightarrow> Some []
      | (SIM_IR_NODE_COORD, Data_coord _ _) \<Rightarrow> Some []
      | (SIM_IR_NODE_STATEFUL, Data_stateful _ _ _) \<Rightarrow> Some []
      | (SIM_IR_NODE_ADD, Data_binary lhs rhs) \<Rightarrow> Some [lhs, rhs]
      | (SIM_IR_NODE_SUB, Data_binary lhs rhs) \<Rightarrow> Some [lhs, rhs]
      | (SIM_IR_NODE_MUL, Data_binary lhs rhs) \<Rightarrow> Some [lhs, rhs]
      | (SIM_IR_NODE_DIV, Data_binary lhs rhs) \<Rightarrow> Some [lhs, rhs]
      | (SIM_IR_NODE_POW, Data_binary lhs rhs) \<Rightarrow> Some [lhs, rhs]
      | (SIM_IR_NODE_MOD, Data_binary lhs rhs) \<Rightarrow> Some [lhs, rhs]
      | (SIM_IR_NODE_DIFF, Data_diff d) \<Rightarrow> Some [df_operand d]
      | (SIM_IR_NODE_CALL, Data_call operand _) \<Rightarrow> Some [operand]
      | (SIM_IR_NODE_FLOOR, Data_unary operand) \<Rightarrow> Some [operand]
      | (SIM_IR_NODE_WARP, Data_warp w) \<Rightarrow> Some [wp_operand w]
      | (SIM_IR_NODE_COMPLEX_PACK, Data_complex_pack real imag) \<Rightarrow> Some [real, imag]
      | (SIM_IR_NODE_COMPLEX_ROTATE, Data_complex_rotate operand angle) \<Rightarrow> Some [operand, angle]
      | _ \<Rightarrow> None)"

text \<open>
  The depth-first traversal, over the two flag arrays \<^verbatim>\<open>reachable\<close> and \<^verbatim>\<open>stack_flags\<close>. The first argument
  bounds the depth of the recursion, \<open>None\<close> is a recursion that is deeper.
\<close>

fun sim_ir_collect_reachable_node ::
  "nat \<Rightarrow> SimIRBuilder \<Rightarrow> SimIRNodeId \<Rightarrow> bool list \<times> bool list \<Rightarrow> (SimResult \<times> bool list \<times> bool list) option"
and collect_operands ::
  "nat \<Rightarrow> SimIRBuilder \<Rightarrow> SimIRNodeId list \<Rightarrow> bool list \<times> bool list \<Rightarrow>
   (SimResult \<times> bool list \<times> bool list) option" where
  "sim_ir_collect_reachable_node 0 b node_id st = None"
| "sim_ir_collect_reachable_node (Suc depth) b node_id (reachable, stack_flags) =
     (if \<not> valid_node b node_id then Some (SIM_RESULT_INVALID_ARGUMENT, reachable, stack_flags)
      else if stack_flags ! node_id then Some (SIM_RESULT_DEPENDENCY_ERROR, reachable, stack_flags)
      else if reachable ! node_id then Some (SIM_RESULT_OK, reachable, stack_flags)
      else case node_operands (ir_nodes b ! node_id) of
        None \<Rightarrow> Some (SIM_RESULT_INVALID_ARGUMENT, reachable[node_id := True], stack_flags)
      | Some operands \<Rightarrow>
          map_option (\<lambda>(result, reachable, stack_flags). (result, reachable, stack_flags[node_id := False]))
            (collect_operands depth b operands (reachable[node_id := True], stack_flags[node_id := True])))"
| "collect_operands depth b [] st = Some (SIM_RESULT_OK, st)"
| "collect_operands depth b (x # xs) st =
     (case sim_ir_collect_reachable_node depth b x st of
        None \<Rightarrow> None
      | Some (result, st') \<Rightarrow>
          if result \<noteq> SIM_RESULT_OK then Some (result, st') else collect_operands depth b xs st')"

text \<open>
  An array of roots with its length: \<open>None\<close> is a null pointer with a nonzero count. The length of the
  output array is \<^verbatim>\<open>reachable_count\<close>.
\<close>

definition sim_ir_collect_reachable ::
  "heap \<Rightarrow> SimIRBuilder option \<Rightarrow> SimIRNodeId list option \<Rightarrow> bool list option \<Rightarrow>
   (SimResult \<times> bool list option) option" where
  "sim_ir_collect_reachable heap builder roots out_reachable =
     (case (builder, out_reachable) of
        (Some b, Some out) \<Rightarrow>
          if ir_count b > length out then Some (SIM_RESULT_INVALID_ARGUMENT, Some out)
          else (case roots of
            None \<Rightarrow> Some (SIM_RESULT_INVALID_ARGUMENT, Some out)
          | Some rs \<Rightarrow>
              if ir_count b = 0 then Some (SIM_RESULT_OK, Some out)
              else let n = ir_count b; cleared = replicate n False @ drop n out
                   in if \<not> calloc_ok heap n 1 then Some (SIM_RESULT_OUT_OF_MEMORY, Some cleared)
                      else map_option (\<lambda>(result, reachable, _). (result, Some reachable))
                             (collect_operands (Suc n) b rs (cleared, replicate n False)))
      | _ \<Rightarrow> Some (SIM_RESULT_INVALID_ARGUMENT, out_reachable))"

definition retag :: "SimIROpcode \<Rightarrow> bool \<Rightarrow> SimIRNode \<Rightarrow> SimIRNode" where
  "retag opcode preserve_existing node =
     (if \<not> preserve_existing \<or> nd_opcode node = OAK_OP_MISC
      then node\<lparr>nd_opcode := sim_ir_opcode_sanitize opcode\<rparr> else node)"

definition sim_ir_builder_apply_opcode ::
  "SimIRBuilder option \<Rightarrow> SimIROpcode \<Rightarrow> bool \<Rightarrow> SimIRBuilder option" where
  "sim_ir_builder_apply_opcode builder opcode preserve_existing =
     map_option (\<lambda>b. case b_nodes b of
       None \<Rightarrow> b
     | Some nodes \<Rightarrow> b\<lparr>b_nodes := Some (map (retag opcode preserve_existing) nodes)\<rparr>) builder"

definition sim_ir_builder_apply_opcode_reachable ::
  "heap \<Rightarrow> SimIRBuilder option \<Rightarrow> SimIROpcode \<Rightarrow> bool \<Rightarrow> SimIRNodeId list option \<Rightarrow>
   (SimResult \<times> SimIRBuilder option) option" where
  "sim_ir_builder_apply_opcode_reachable heap builder opcode preserve_existing roots =
     (case builder of
        None \<Rightarrow> Some (SIM_RESULT_INVALID_ARGUMENT, None)
      | Some b \<Rightarrow>
          (case b_nodes b of
             None \<Rightarrow> Some (SIM_RESULT_INVALID_ARGUMENT, builder)
           | Some nodes \<Rightarrow>
               if nodes = [] then Some (SIM_RESULT_OK, builder)
               else if \<not> calloc_ok heap (length nodes) 1 then Some (SIM_RESULT_OUT_OF_MEMORY, builder)
               else map_option (\<lambda>(result, reachable).
                      (result,
                       if result = SIM_RESULT_OK
                       then Some (b\<lparr>b_nodes := Some (map (\<lambda>(node, flag).
                              if flag then retag opcode preserve_existing node else node)
                            (zip nodes (the reachable)))\<rparr>)
                       else builder))
                    (sim_ir_collect_reachable heap builder roots (Some (replicate (length nodes) False)))))"

end
