(* ===== verification/IR_Correct.thy ===== *)
theory IR_Correct
  imports Kernel_IR_Builder
begin

text \<open>
  The invariant of a builder. Every node carries its own index and a normalized type, its operands
  precede it, and it obeys the typing rule of its kind; the entries of the constant pool lie inside
  the pool's storage. Every sequence of operations keeps it.
\<close>

section \<open>Types\<close>

lemma normalize_components: "1 \<le> ty_components (sim_ir_type_normalize t)"
  by (auto simp: sim_ir_type_normalize_def Let_def)

lemma normalize_domain:
  "ty_scalar_domain (sim_ir_type_normalize t) =
     (if sim_scalar_domain_validate (ty_scalar_domain t) \<and>
         sd_kind (ty_scalar_domain t) \<noteq> SIM_SCALAR_DOMAIN_UNKNOWN
      then ty_scalar_domain t else sim_scalar_domain_f64)"
  by (auto simp: sim_ir_type_normalize_def Let_def)

lemma f64_domain_facts [simp]:
  "sim_scalar_domain_validate sim_scalar_domain_f64" "sd_kind sim_scalar_domain_f64 = SIM_SCALAR_DOMAIN_REAL"
  "\<not> sim_scalar_domain_is_complex sim_scalar_domain_f64"
  by code_simp+

lemma normalized_iff:
  "sim_ir_type_normalize t = t \<longleftrightarrow>
     sim_scalar_domain_validate (ty_scalar_domain t) \<and>
     sd_kind (ty_scalar_domain t) \<noteq> SIM_SCALAR_DOMAIN_UNKNOWN \<and> 1 \<le> ty_components t \<and>
     (sim_scalar_domain_is_complex (ty_scalar_domain t) \<longrightarrow> 2 \<le> ty_components t) \<and>
     (ty_kind t = SIM_IR_VALUE_SCALAR \<longleftrightarrow> ty_components t = 1)"
proof (cases "ty_kind t")
  case SIM_IR_VALUE_SCALAR
  then show ?thesis
    by (cases t) (auto simp: sim_ir_type_normalize_def Let_def sim_scalar_domain_is_complex_def)
next
  case SIM_IR_VALUE_VECTOR
  then show ?thesis
    by (cases t) (auto simp: sim_ir_type_normalize_def Let_def sim_scalar_domain_is_complex_def)
qed

lemma normalize_idem [simp]: "sim_ir_type_normalize (sim_ir_type_normalize t) = sim_ir_type_normalize t"
  unfolding normalized_iff by (auto simp: sim_ir_type_normalize_def Let_def)

lemma normalize_constants [simp]:
  "sim_ir_type_normalize sim_ir_type_scalar = sim_ir_type_scalar"
  "sim_ir_type_normalize sim_ir_type_complex = sim_ir_type_complex"
  "sim_ir_type_normalize (sim_ir_type_scalar_domain_typed d) = sim_ir_type_scalar_domain_typed d"
  by (code_simp, code_simp, simp add: sim_ir_type_scalar_domain_typed_def)

lemma type_equal_iff: "sim_ir_type_equal s t \<longleftrightarrow> sim_ir_type_normalize s = sim_ir_type_normalize t"
  unfolding sim_ir_type_equal_def sim_scalar_domain_equal_def Let_def
  by (cases "sim_ir_type_normalize s"; cases "sim_ir_type_normalize t";
      cases "ty_scalar_domain (sim_ir_type_normalize s)"; cases "ty_scalar_domain (sim_ir_type_normalize t)")
    simp

section \<open>The invariant\<close>

definition binary_capability :: "SimIRNodeType \<Rightarrow> u32" where
  "binary_capability type =
     (case type of
        SIM_IR_NODE_MUL \<Rightarrow> SIM_SCALAR_CAP_MULTIPLICATIVE_ARITHMETIC
      | SIM_IR_NODE_DIV \<Rightarrow> SIM_SCALAR_CAP_DIVISION
      | SIM_IR_NODE_POW \<Rightarrow> SIM_SCALAR_CAP_POWER
      | SIM_IR_NODE_MOD \<Rightarrow> SIM_SCALAR_CAP_MODULO
      | _ \<Rightarrow> SIM_SCALAR_CAP_ADDITIVE_ARITHMETIC)"

text \<open>
  The typing rules: \<open>ty\<close> gives the types of the operands, \<open>pool\<close> the lengths of the entries of the
  constant pool.
\<close>

definition node_typed :: "(SimIRNodeId \<Rightarrow> SimIRType) \<Rightarrow> nat list \<Rightarrow> SimIRNode \<Rightarrow> bool" where
  "node_typed ty pool node =
     (let t = nd_value_type node; d = ty_scalar_domain t
      in case nd_data node of
           Data_constant c \<Rightarrow>
             (if cs_constant_index c = SIM_IR_INVALID_CONSTANT_INDEX
              then cs_exact_integer c = (sim_ir_domain_is_exact_integer d \<and> sim_ir_type_is_scalar t)
              else \<not> cs_exact_integer c \<and> cs_constant_index c < length pool \<and>
                   pool ! cs_constant_index c = ty_components t)
         | Data_binary lhs rhs \<Rightarrow>
             ty lhs = t \<and> ty rhs = t \<and> sim_scalar_domain_supports d (binary_capability (nd_type node)) \<and>
             (nd_type node = SIM_IR_NODE_MOD \<longrightarrow> sim_ir_type_is_scalar t)
         | Data_call operand _ \<Rightarrow>
             ty operand = t \<and> sim_scalar_domain_supports d SIM_SCALAR_CAP_ANALYTIC_CALL
         | Data_unary operand \<Rightarrow>
             ty operand = t \<and> sim_ir_type_is_scalar t \<and> sim_scalar_domain_supports d SIM_SCALAR_CAP_FLOOR
         | Data_warp w \<Rightarrow> sim_ir_type_is_scalar (ty (wp_operand w)) \<and> sim_ir_type_is_scalar t
         | Data_complex_rotate operand angle \<Rightarrow>
             ty operand = t \<and> ty_components t = 2 \<and>
             sim_scalar_domain_supports d SIM_SCALAR_CAP_COMPLEX_ROTATION \<and>
             sim_ir_type_is_scalar (ty angle) \<and>
             sim_scalar_domain_supports (ty_scalar_domain (ty angle)) SIM_SCALAR_CAP_ORDERING
         | Data_complex_pack real imag \<Rightarrow>
             t = sim_ir_type_complex \<and>
             (\<forall>part \<in> {real, imag}. sim_ir_type_is_scalar (ty part) \<and>
                \<not> sim_scalar_domain_is_complex (ty_scalar_domain (ty part)))
         | Data_param param \<Rightarrow>
             t = (if param = SIM_IR_PARAM_STEP_INDEX
                  then sim_ir_type_scalar_domain_typed sim_scalar_domain_u64 else sim_ir_type_scalar)
         | Data_index \<Rightarrow> t = sim_ir_type_scalar_domain_typed sim_scalar_domain_u64
         | Data_coord _ _ \<Rightarrow> t = sim_ir_type_scalar_domain_typed sim_scalar_domain_u64
         | _ \<Rightarrow> True)"

definition node_ok :: "SimIRNode list \<Rightarrow> nat list \<Rightarrow> nat \<Rightarrow> SimIRNode \<Rightarrow> bool" where
  "node_ok ns pool i node \<longleftrightarrow>
     nd_id node = i \<and> sim_ir_type_normalize (nd_value_type node) = nd_value_type node \<and>
     (\<exists>ops. node_operands node = Some ops \<and> (\<forall>j \<in> set ops. j < i)) \<and>
     node_typed (\<lambda>j. nd_value_type (ns ! j)) pool node"

definition pool_ok :: "SimIRBuilder \<Rightarrow> bool" where
  "pool_ok b \<longleftrightarrow>
     length (b_constants_components b) = length (b_constants_offsets b) \<and>
     length (b_constants_offsets b) \<le> b_constants_capacity b \<and>
     length (ir_constants b) \<le> b_constants_data_capacity b \<and>
     b_constants_capacity b * 8 < 2 ^ 63 \<and>
     (b_constants_data_capacity b \<noteq> 0 \<longrightarrow> b_constants_data b \<noteq> None) \<and>
     (\<forall>k < length (b_constants_offsets b).
        b_constants_offsets b ! k + b_constants_components b ! k \<le> length (ir_constants b))"

definition nodes_ok :: "SimIRBuilder \<Rightarrow> bool" where
  "nodes_ok b \<longleftrightarrow>
     ir_count b \<le> b_capacity b \<and> b_capacity b * sizeof_ir_node < 2 ^ 63 \<and>
     (\<forall>i < ir_count b. node_ok (ir_nodes b) (b_constants_components b) i (ir_nodes b ! i))"

definition ir_ok :: "SimIRBuilder \<Rightarrow> bool" where
  "ir_ok b \<longleftrightarrow> nodes_ok b \<and> pool_ok b"

lemma node_typed_cong:
  assumes "node_operands node = Some ops" "\<And>j. j \<in> set ops \<Longrightarrow> ty j = ty' j"
  shows "node_typed ty pool node = node_typed ty' pool node"
  using assms
  by (cases "nd_data node"; cases "nd_type node") (auto simp: node_typed_def node_operands_def Let_def)

lemma node_typed_pool_append:
  "node_typed ty pool node \<Longrightarrow> node_typed ty (pool @ extra) node"
  by (auto simp: node_typed_def Let_def nth_append split: SimIRNodeData.splits)

lemma node_ok_prefix:
  assumes "node_ok ns pool i node" "\<And>j. j < i \<Longrightarrow> nd_value_type (ns' ! j) = nd_value_type (ns ! j)"
  shows "node_ok ns' pool i node"
proof -
  obtain ops where ops: "node_operands node = Some ops" "\<forall>j \<in> set ops. j < i"
    using assms(1) by (auto simp: node_ok_def)
  have "node_typed (\<lambda>j. nd_value_type (ns' ! j)) pool node =
      node_typed (\<lambda>j. nd_value_type (ns ! j)) pool node"
    using ops assms(2) by (intro node_typed_cong [OF ops(1)]) auto
  then show ?thesis using assms(1) ops by (auto simp: node_ok_def)
qed

section \<open>Appending a node\<close>

lemma grow_capacity_ge: "0 < c \<Longrightarrow> r \<le> grow_capacity c r"
  by (induction c r rule: grow_capacity.induct) (subst grow_capacity.simps, auto)

lemma grow_capacity_full: "0 < c \<Longrightarrow> grow_capacity c (Suc c) = c * 2"
  by (subst grow_capacity.simps, subst grow_capacity.simps) simp

lemma grow_capacity_enough: "r \<le> c \<Longrightarrow> grow_capacity c r = c"
  by (subst grow_capacity.simps) simp

text \<open>A granted request for twice the capacity of a live array does not wrap.\<close>

lemma grown_fits:
  assumes "bounded_heap heap" "c * k < 2 ^ 63" "n \<le> c" "\<not> n + 1 \<le> c" "0 < i" "i * k < 2 ^ 63"
    and g: "g = grow_capacity (if c = 0 then i else c) (n + 1)" and "malloc_ok heap (g * k)"
  shows "g * k < 2 ^ 63" "n + 1 \<le> g"
proof -
  have n: "n = c" using assms(3,4) by simp
  have "g = (if c = 0 then i else c * 2)"
    using n assms(5) by (simp add: g grow_capacity_full grow_capacity_enough)
  then have "g * k < 2 ^ 64" using assms(2,6) by auto
  then show "g * k < 2 ^ 63" using assms(1,8) by (simp add: malloc_ok_def bounded_heap_def)
  show "n + 1 \<le> g" unfolding g using assms(5) by (intro grow_capacity_ge) simp
qed

lemma ir_nodes_update [simp]: "ir_nodes (b\<lparr>b_nodes := Some ns\<rparr>) = ns"
  by (simp add: ir_nodes_def)

lemma reserve_ok:
  assumes "ir_ok b" "bounded_heap heap" "sim_ir_builder_reserve heap b 1 = (r, b')"
  shows "ir_ok b'" "ir_nodes b' = ir_nodes b" "b_constants_components b' = b_constants_components b"
    and "r = SIM_RESULT_OK \<Longrightarrow> ir_count b' < b_capacity b'"
proof -
  let ?g = "grow_capacity (if b_capacity b = 0 then 8 else b_capacity b) (ir_count b + 1)"
  have fits: "?g * sizeof_ir_node < 2 ^ 63 \<and> ir_count b + 1 \<le> ?g"
    if "\<not> ir_count b + 1 \<le> b_capacity b" "malloc_ok heap (?g * sizeof_ir_node)"
    using grown_fits [OF assms(2) _ _ that(1) _ _ refl that(2)] assms(1)
    by (simp add: ir_ok_def nodes_ok_def sizeof_ir_node_def)
  have kept: "ir_nodes (b\<lparr>b_nodes := Some (ir_nodes b), b_capacity := ?g\<rparr>) = ir_nodes b" by (simp add: ir_nodes_def)
  show "ir_ok b'" "ir_nodes b' = ir_nodes b" "b_constants_components b' = b_constants_components b"
    and "r = SIM_RESULT_OK \<Longrightarrow> ir_count b' < b_capacity b'"
    using assms(1,3) fits kept
    by (auto simp: sim_ir_builder_reserve_def Let_def ir_ok_def nodes_ok_def pool_ok_def ir_count_def
        ir_constants_def split: if_splits)
qed

lemma append_filled_cases:
  assumes "ir_ok b" "bounded_heap heap" "append_filled heap b fill = (r, b')"
    and "node_ok (ir_nodes b) (b_constants_components b) (ir_count b) (fill (ir_count b) fresh_node)"
  shows "ir_ok b' \<and> (r = SIM_IR_INVALID_NODE \<and> ir_nodes b' = ir_nodes b \<or>
    r = ir_count b \<and> ir_nodes b' = ir_nodes b @ [fill (ir_count b) fresh_node])"
proof -
  obtain res b1 where r: "sim_ir_builder_reserve heap b 1 = (res, b1)" by fastforce
  note ok = reserve_ok [OF assms(1,2) r]
  show ?thesis
  proof (cases "res = SIM_RESULT_OK")
    case False
    then show ?thesis using assms(3) r ok by (simp add: append_filled_def sim_ir_builder_append_def)
  next
    case True
    let ?n = "fill (ir_count b) fresh_node" and ?ns = "ir_nodes b @ [fill (ir_count b) fresh_node]"
    have cap: "ir_count b < b_capacity b1" "b_capacity b1 * sizeof_ir_node < 2 ^ 63"
      using ok(1,2) ok(4) [OF True] by (simp_all add: ir_ok_def nodes_ok_def ir_count_def)
    then have small: "ir_count b \<noteq> SIM_IR_INVALID_NODE"
      by (simp add: SIM_IR_INVALID_NODE_def sizeof_ir_node_def)
    have b': "b' = b1\<lparr>b_nodes := Some ?ns\<rparr>" "r = ir_count b"
      using assms(3) r True ok(2) small
      by (auto simp: append_filled_def sim_ir_builder_append_def ir_count_def)
    have ns: "ir_nodes b' = ?ns" by (simp add: b' ir_nodes_def)
    have "node_ok ?ns (b_constants_components b) i (?ns ! i)" if "i < length ?ns" for i
    proof (cases "i < ir_count b")
      case True
      then have "node_ok (ir_nodes b) (b_constants_components b) i (ir_nodes b ! i)"
        using assms(1) by (simp add: ir_ok_def nodes_ok_def)
      then show ?thesis using True node_ok_prefix [of "ir_nodes b" _ i _ ?ns]
        by (simp add: ir_count_def nth_append)
    next
      case False
      then have "i = ir_count b" using that by (simp add: ir_count_def)
      then show ?thesis using assms(4) node_ok_prefix [of "ir_nodes b" _ i _ ?ns]
        by (simp add: ir_count_def nth_append)
    qed
    then have "nodes_ok b'" using cap ok(3) ns by (simp add: nodes_ok_def ir_count_def b')
    moreover have "pool_ok b'" using ok(1) by (simp add: ir_ok_def pool_ok_def b' ir_constants_def)
    ultimately show ?thesis using b' ns by (simp add: ir_ok_def)
  qed
qed

section \<open>Every constructor of nodes keeps the invariant\<close>

text \<open>The outcome of a constructor: it refused and left the nodes alone, or it appended one node.\<close>

definition extends :: "SimIRBuilder \<Rightarrow> SimIRNodeId \<Rightarrow> SimIRBuilder \<Rightarrow> bool" where
  "extends b r b' \<longleftrightarrow> ir_ok b' \<and>
     (r = SIM_IR_INVALID_NODE \<and> ir_nodes b' = ir_nodes b \<or>
      r = ir_count b \<and> (\<exists>node. ir_nodes b' = ir_nodes b @ [node]))"

lemma refuse_extends: "ir_ok b \<Longrightarrow> extends b SIM_IR_INVALID_NODE b"
  by (simp add: extends_def)

lemma append_filled_extends:
  assumes "append_filled heap b fill = (r, b')" "ir_ok b" "bounded_heap heap"
    and "node_ok (ir_nodes b) (b_constants_components b) (ir_count b) (fill (ir_count b) fresh_node)"
  shows "extends b r b'"
  using append_filled_cases [OF assms(2,3,1,4)] by (auto simp: extends_def)

lemma valid_operand:
  assumes "ir_ok b" "valid_node b j"
  shows "j < ir_count b" "sim_ir_type_normalize (nd_value_type (ir_nodes b ! j)) = nd_value_type (ir_nodes b ! j)"
    "sim_ir_type_scalar_domain (nd_value_type (ir_nodes b ! j)) = ty_scalar_domain (nd_value_type (ir_nodes b ! j))"
  using assms by (auto simp: valid_node_def ir_ok_def nodes_ok_def node_ok_def sim_ir_type_scalar_domain_def)

lemma type_scalar_domain_normalize [simp]:
  "sim_ir_type_scalar_domain (sim_ir_type_normalize t) = ty_scalar_domain (sim_ir_type_normalize t)"
  by (simp add: sim_ir_type_scalar_domain_def)

lemma is_scalar_normalize [simp]: "sim_ir_type_is_scalar (sim_ir_type_normalize t) = sim_ir_type_is_scalar t"
  by (simp add: sim_ir_type_is_scalar_def)

lemma fill_node_ok:
  "node_ok ns pool i (fill_node type t loc data i fresh_node) \<longleftrightarrow>
     sim_ir_type_normalize t = t \<and>
     (\<exists>ops. node_operands (fill_node type t loc data i fresh_node) = Some ops \<and> (\<forall>j \<in> set ops. j < i)) \<and>
     node_typed (\<lambda>j. nd_value_type (ns ! j)) pool (fill_node type t loc data i fresh_node)"
  by (simp add: node_ok_def fill_node_def)

lemma fill_node_fields [simp]:
  "nd_type (fill_node type t loc data i node) = type" "nd_value_type (fill_node type t loc data i node) = t"
  "nd_data (fill_node type t loc data i node) = data" "nd_is_local (fill_node type t loc data i node) = loc"
  by (simp_all add: fill_node_def)

lemma on_builder_Some: "on_builder f (Some b) = (r, builder') \<Longrightarrow> \<exists>b'. builder' = Some b' \<and> f b = (r, b')"
  by (auto simp: on_builder_def split: prod.splits)

lemmas constructor_simps = fill_node_ok node_operands_def node_typed_def Let_def

lemma param_extends:
  assumes "ir_ok b" "bounded_heap heap" "sim_ir_builder_param heap (Some b) p = (r, Some b')"
  shows "extends b r b'"
  using on_builder_Some [OF assms(3) [unfolded sim_ir_builder_param_def]] assms(1,2)
  by (auto intro!: refuse_extends append_filled_extends simp: constructor_simps split: if_splits)

lemma index_extends:
  assumes "ir_ok b" "bounded_heap heap" "sim_ir_builder_index heap (Some b) = (r, Some b')"
  shows "extends b r b'"
  using on_builder_Some [OF assms(3) [unfolded sim_ir_builder_index_def]] assms(1,2)
  by (auto intro!: refuse_extends append_filled_extends simp: constructor_simps split: if_splits)

lemma coord_extends:
  assumes "ir_ok b" "bounded_heap heap" "sim_ir_builder_coord heap (Some b) fid axis = (r, Some b')"
  shows "extends b r b'"
  using on_builder_Some [OF assms(3) [unfolded sim_ir_builder_coord_def]] assms(1,2)
  by (auto intro!: refuse_extends append_filled_extends simp: constructor_simps split: if_splits)

lemma field_ref_extends:
  assumes "ir_ok b" "bounded_heap heap" "sim_ir_builder_field_ref_typed heap (Some b) fid t = (r, Some b')"
  shows "extends b r b'"
  using on_builder_Some [OF assms(3) [unfolded sim_ir_builder_field_ref_typed_def]] assms(1,2)
  by (auto intro!: refuse_extends append_filled_extends simp: constructor_simps split: if_splits)

lemma noise_extends:
  assumes "ir_ok b" "bounded_heap heap" "sim_ir_builder_noise_spec heap mul (Some b) spec = (r, Some b')"
  shows "extends b r b'"
  using on_builder_Some [OF assms(3) [unfolded sim_ir_builder_noise_spec_def]] assms(1,2)
  by (auto intro!: refuse_extends append_filled_extends simp: constructor_simps split: if_splits)

lemma call_extends:
  assumes "ir_ok b" "bounded_heap heap" "sim_ir_builder_call heap (Some b) kind operand = (r, Some b')"
  shows "extends b r b'"
  using on_builder_Some [OF assms(3) [unfolded sim_ir_builder_call_def]] assms(1,2) valid_operand [of b operand]
  by (auto intro!: refuse_extends append_filled_extends simp: constructor_simps split: if_splits)

lemma floor_extends:
  assumes "ir_ok b" "bounded_heap heap" "sim_ir_builder_floor heap (Some b) operand = (r, Some b')"
  shows "extends b r b'"
  using on_builder_Some [OF assms(3) [unfolded sim_ir_builder_floor_def]] assms(1,2) valid_operand [of b operand]
  by (auto intro!: refuse_extends append_filled_extends simp: constructor_simps split: if_splits)

lemma mod_extends:
  assumes "ir_ok b" "bounded_heap heap" "sim_ir_builder_mod heap (Some b) lhs rhs = (r, Some b')"
  shows "extends b r b'"
  using on_builder_Some [OF assms(3) [unfolded sim_ir_builder_mod_def]] assms(1,2) valid_operand [of b lhs] valid_operand [of b rhs]
  by (auto intro!: refuse_extends append_filled_extends simp: constructor_simps type_equal_iff binary_capability_def split: if_splits)

lemma rotate_extends:
  assumes "ir_ok b" "bounded_heap heap" "sim_ir_builder_complex_rotate heap (Some b) operand angle = (r, Some b')"
  shows "extends b r b'"
  using on_builder_Some [OF assms(3) [unfolded sim_ir_builder_complex_rotate_def]] assms(1,2) valid_operand [of b operand] valid_operand [of b angle]
  by (auto intro!: refuse_extends append_filled_extends simp: constructor_simps split: if_splits)

lemma pack_extends:
  assumes "ir_ok b" "bounded_heap heap" "sim_ir_builder_complex_pack heap (Some b) real imag = (r, Some b')"
  shows "extends b r b'"
  using on_builder_Some [OF assms(3) [unfolded sim_ir_builder_complex_pack_def]] assms(1,2) valid_operand [of b real] valid_operand [of b imag]
  by (auto intro!: refuse_extends append_filled_extends simp: constructor_simps split: if_splits)

lemma integer_constant_extends:
  assumes "ir_ok b" "bounded_heap heap"
    and "sim_ir_builder_constant_integer_raw_typed heap (Some b) raw t = (r, Some b')"
  shows "extends b r b'"
  using on_builder_Some [OF assms(3) [unfolded sim_ir_builder_constant_integer_raw_typed_def]] assms(1,2)
  by (auto intro!: refuse_extends append_filled_extends simp: constructor_simps split: if_splits)

lemma binary_extends:
  assumes "ir_ok b" "bounded_heap heap" "sim_ir_builder_binary heap (Some b) type lhs rhs = (r, Some b')"
  shows "extends b r b'"
  using on_builder_Some [OF assms(3) [unfolded sim_ir_builder_binary_def]] assms(1,2)
    valid_operand [of b lhs] valid_operand [of b rhs]
  by (cases type) (auto intro!: refuse_extends append_filled_extends
      simp: constructor_simps type_equal_iff binary_capability_def split: if_splits)

lemma stateful_extends:
  assumes "ir_ok b" "bounded_heap heap" "sim_ir_builder_stateful_spec heap (Some b) spec = (r, Some b')"
  shows "extends b r b'"
proof (cases spec)
  case None
  then show ?thesis using assms by (auto simp: sim_ir_builder_stateful_spec_def intro: refuse_extends)
next
  case (Some sp)
  show ?thesis
    using on_builder_Some [OF assms(3) [unfolded sim_ir_builder_stateful_spec_def Some option.case]] assms(1,2)
    by (auto intro!: refuse_extends append_filled_extends simp: constructor_simps split: if_splits)
qed

lemma diff_extends:
  assumes "ir_ok b" "bounded_heap heap" "sim_ir_builder_diff_spec heap (Some b) spec = (r, Some b')"
  shows "extends b r b'"
proof (cases spec)
  case None
  then show ?thesis using assms by (auto simp: sim_ir_builder_diff_spec_def intro: refuse_extends)
next
  case (Some sp)
  show ?thesis
    using on_builder_Some [OF assms(3) [unfolded sim_ir_builder_diff_spec_def Some option.case]] assms(1,2)
      valid_operand [of b "ds_operand sp"]
    by (auto intro!: refuse_extends append_filled_extends simp: constructor_simps split: if_splits)
qed

lemma warp_class_ok [simp]:
  "node_ok ns pool i (node\<lparr>nd_warp_class := c\<rparr>) = node_ok ns pool i node"
  by (cases "nd_data node") (simp_all add: node_ok_def node_operands_def node_typed_def Let_def)

lemma warp_spec_operand: "ws_operand (warp_spec_normalize s) = ws_operand s"
  by (simp add: warp_spec_normalize_def)

lemma warp_extends:
  assumes "ir_ok b" "bounded_heap heap" "sim_ir_builder_warp_spec heap (Some b) spec = (r, Some b')"
  shows "extends b r b'"
proof (cases spec)
  case None
  then show ?thesis using assms by (auto simp: sim_ir_builder_warp_spec_def intro: refuse_extends)
next
  case (Some sp)
  show ?thesis
    using on_builder_Some [OF assms(3) [unfolded sim_ir_builder_warp_spec_def Some option.case]] assms(1,2)
      valid_operand [of b "ws_operand sp"] warp_spec_operand [of sp]
    by (auto intro!: refuse_extends append_filled_extends simp: constructor_simps split: if_splits)
qed

lemma constant_extends:
  assumes "ir_ok b" "bounded_heap heap" "sim_ir_builder_constant_typed heap cast (Some b) v t = (r, Some b')"
  shows "extends b r b'"
proof (cases "sim_ir_domain_is_exact_integer (ty_scalar_domain (sim_ir_type_normalize t))")
  case True
  then show ?thesis using assms integer_constant_extends [OF assms(1,2)]
    by (auto simp: sim_ir_builder_constant_typed_def Let_def intro: refuse_extends split: option.splits)
next
  case False
  then have "on_builder (\<lambda>b. append_filled heap b (fill_node SIM_IR_NODE_CONSTANT (sim_ir_type_normalize t) True
      (Data_constant (zero_constant\<lparr>cs_scalar := sim_ir_canonicalize_constant v,
         cs_signed_scalar := 0, cs_unsigned_scalar := 0, cs_exact_integer := False,
         cs_constant_index := SIM_IR_INVALID_CONSTANT_INDEX\<rparr>)))) (Some b) = (r, Some b')"
    using assms(3) by (simp add: sim_ir_builder_constant_typed_def Let_def)
  then show ?thesis using on_builder_Some assms(1,2) False
    by (fastforce intro!: append_filled_extends simp: constructor_simps)
qed

lemma i64_extends:
  assumes "ir_ok b" "bounded_heap heap" "sim_ir_builder_constant_i64_typed heap (Some b) v t = (r, Some b')"
  shows "extends b r b'"
  using assms integer_constant_extends [OF assms(1,2)]
  by (auto simp: sim_ir_builder_constant_i64_typed_def Let_def intro: refuse_extends split: option.splits)

lemma u64_extends:
  assumes "ir_ok b" "bounded_heap heap" "sim_ir_builder_constant_u64_typed heap (Some b) v t = (r, Some b')"
  shows "extends b r b'"
  using assms integer_constant_extends [OF assms(1,2)]
  by (auto simp: sim_ir_builder_constant_u64_typed_def Let_def intro: refuse_extends split: option.splits)

section \<open>The constant pool\<close>

lemma ir_constants_update [simp]: "ir_constants (b\<lparr>b_constants_data := Some ds\<rparr>) = ds"
  by (simp add: ir_constants_def)

lemma nodes_ok_pool:
  assumes "nodes_ok b" "b_nodes b' = b_nodes b" "b_capacity b' = b_capacity b"
    and "b_constants_components b' = b_constants_components b @ extra"
  shows "nodes_ok b'"
proof -
  have "ir_nodes b' = ir_nodes b" using assms(2) by (simp add: ir_nodes_def)
  then show ?thesis
    using assms node_typed_pool_append by (simp add: nodes_ok_def ir_count_def node_ok_def)
qed

lemma constants_reserve_ok:
  assumes "ir_ok b" "bounded_heap heap" "sim_ir_builder_constants_reserve heap b 1 = (r, b')"
  shows "ir_ok b'" "b_nodes b' = b_nodes b" "b_constants_components b' = b_constants_components b"
    and "b_constants_offsets b' = b_constants_offsets b" "b_constants_data b' = b_constants_data b"
    and "r = SIM_RESULT_OK \<Longrightarrow> length (b_constants_offsets b') < b_constants_capacity b'"
proof -
  let ?n = "length (b_constants_offsets b)"
  let ?g = "grow_capacity (if b_constants_capacity b = 0 then 4 else b_constants_capacity b) (?n + 1)"
  have fits: "?g * 8 < 2 ^ 63 \<and> ?n + 1 \<le> ?g"
    if "\<not> ?n + 1 \<le> b_constants_capacity b" "malloc_ok heap (?g * 8)"
    using grown_fits [OF assms(2) _ _ that(1) _ _ refl that(2)] assms(1) by (simp add: ir_ok_def pool_ok_def)
  show "ir_ok b'" "b_nodes b' = b_nodes b" "b_constants_components b' = b_constants_components b"
    "b_constants_offsets b' = b_constants_offsets b" "b_constants_data b' = b_constants_data b"
    and "r = SIM_RESULT_OK \<Longrightarrow> length (b_constants_offsets b') < b_constants_capacity b'"
    using assms(1,3) fits
    by (auto simp: sim_ir_builder_constants_reserve_def Let_def ir_ok_def nodes_ok_def pool_ok_def ir_count_def
        ir_nodes_def ir_constants_def split: if_splits)
qed

lemma pool_grow_data_ok:
  assumes "ir_ok b" "pool_grow_data heap b needed = Some b'" "0 < needed"
  shows "ir_ok b'" "b_nodes b' = b_nodes b" "b_constants_components b' = b_constants_components b"
    "b_constants_offsets b' = b_constants_offsets b" "b_constants_capacity b' = b_constants_capacity b"
    "ir_constants b' = ir_constants b" "needed \<le> b_constants_data_capacity b'"
proof -
  let ?c = "b_constants_data_capacity b"
  have ge: "needed \<le> grow_capacity (if ?c = 0 then needed else ?c) needed"
    using assms(3) by (intro grow_capacity_ge) simp
  show "ir_ok b'" "b_nodes b' = b_nodes b" "b_constants_components b' = b_constants_components b"
    "b_constants_offsets b' = b_constants_offsets b" "b_constants_capacity b' = b_constants_capacity b"
    "ir_constants b' = ir_constants b" "needed \<le> b_constants_data_capacity b'"
    using assms ge
    by (auto simp: pool_grow_data_def Let_def ir_ok_def nodes_ok_def pool_ok_def ir_count_def ir_nodes_def
        ir_constants_def split: if_splits option.splits)
qed

lemma pool_add_ok:
  assumes "ir_ok b" "bounded_heap heap" "vs \<noteq> []" "pool_add heap b vs = (res, b')"
  shows "ir_ok b' \<and> ir_nodes b' = ir_nodes b \<and>
    (case res of
       None \<Rightarrow> True
     | Some k \<Rightarrow> k = length (b_constants_offsets b) \<and> k < length (b_constants_components b') \<and>
         b_constants_components b' ! k = length vs \<and>
         b_constants_offsets b' = b_constants_offsets b @ [length (ir_constants b)] \<and>
         ir_constants b' = ir_constants b @ map sim_ir_canonicalize_constant vs \<and> b_constants_data b' \<noteq> None)"
proof -
  obtain r b1 where r: "sim_ir_builder_constants_reserve heap b 1 = (r, b1)" by fastforce
  note ok = constants_reserve_ok [OF assms(1,2) r]
  have same: "ir_nodes b1 = ir_nodes b" "ir_constants b1 = ir_constants b"
    using ok by (simp_all add: ir_nodes_def ir_constants_def)
  let ?needed = "length (ir_constants b1) + length vs"
  show ?thesis
  proof (cases "r = SIM_RESULT_OK \<and> (\<exists>b2. pool_grow_data heap b1 ?needed = Some b2 \<and> b_constants_data b2 \<noteq> None)")
    case False
    then consider "res = None" "b' = b1"
      | b2 where "res = None" "b' = b2" "pool_grow_data heap b1 ?needed = Some b2"
      using assms(4) r by (auto simp: pool_add_def Let_def split: if_splits option.splits)
    then show ?thesis
    proof cases
      case 1
      then show ?thesis using ok(1) same by simp
    next
      case 2
      then show ?thesis using pool_grow_data_ok(1,2) [OF ok(1) 2(3)] assms(3) ok(2) by (simp add: ir_nodes_def)
    qed
  next
    case True
    then obtain b2 where b2: "pool_grow_data heap b1 ?needed = Some b2" "b_constants_data b2 \<noteq> None" by blast
    note g = pool_grow_data_ok [OF ok(1) b2(1)]
    have b': "b' = b2\<lparr>b_constants_offsets := b_constants_offsets b2 @ [length (ir_constants b2)],
        b_constants_components := b_constants_components b2 @ [length vs],
        b_constants_data := Some (ir_constants b2 @ map sim_ir_canonicalize_constant vs)\<rparr>"
      and res: "res = Some (length (b_constants_offsets b2))"
      using assms(3,4) r True b2 g by (auto simp: pool_add_def Let_def)
    have pos: "0 < ?needed" using assms(3) by simp
    have ok2: "nodes_ok b2" "pool_ok b2" using g(1) [OF pos] by (simp_all add: ir_ok_def)
    have "nodes_ok b'" by (rule nodes_ok_pool [OF ok2(1)]) (simp_all add: b')
    moreover have "pool_ok b'"
      using ok2(2) g [OF pos] ok(6) True
      by (auto simp: pool_ok_def b' nth_append less_Suc_eq trans_le_add1)
    moreover have "ir_nodes b' = ir_nodes b" using g(2) [OF pos] same by (simp add: b' ir_nodes_def)
    ultimately show ?thesis
      using g [OF pos] ok same ok2(2) by (auto simp: ir_ok_def res b' pool_ok_def nth_append)
  qed
qed

lemma vector_extends:
  assumes "ir_ok b" "bounded_heap heap" "sim_ir_builder_constant_vector_typed heap (Some b) vals t = (r, Some b')"
  shows "extends b r b'"
proof (cases vals)
  case None
  then show ?thesis using assms by (auto simp: sim_ir_builder_constant_vector_typed_def intro: refuse_extends)
next
  case (Some vs)
  let ?t = "sim_ir_type_normalize t"
  let ?refuse = "length vs = 0 \<or> ty_components ?t \<noteq> length vs \<or> sim_ir_domain_is_exact_integer (ty_scalar_domain ?t)"
  have run: "(case on_builder f (Some b) of (r, bb) \<Rightarrow> (r, bb)) = on_builder f (Some b)" for f by simp
  note body = on_builder_Some [OF assms(3) [unfolded sim_ir_builder_constant_vector_typed_def Some option.case]]
  show ?thesis
  proof (cases "?refuse \<or> length vs \<le> SIM_IR_SMALL_CONSTANT_CAPACITY")
    case True
    then show ?thesis using body assms(1,2)
      by (auto intro!: refuse_extends append_filled_extends simp: constructor_simps zero_constant_def split: if_splits)
  next
    case False
    have pooled: "node_ok (ir_nodes c) (b_constants_components c) (ir_count c) (fill_node SIM_IR_NODE_CONSTANT ?t True
        (Data_constant (zero_constant\<lparr>cs_constant_index := k\<rparr>)) (ir_count c) fresh_node)"
      if "ir_ok c" "k < length (b_constants_components c)" "b_constants_components c ! k = length vs" for c k
    proof -
      have "b_constants_capacity c * 8 < 2 ^ 63" "length (b_constants_components c) \<le> b_constants_capacity c"
        using that(1) by (simp_all add: ir_ok_def pool_ok_def)
      then have "k \<noteq> SIM_IR_INVALID_CONSTANT_INDEX" using that(2) by (simp add: SIM_IR_INVALID_CONSTANT_INDEX_def)
      then show ?thesis using that False by (simp add: constructor_simps zero_constant_def)
    qed
    show ?thesis
    proof (cases "pool_find b vs")
      case (Some k)
      then have k: "k < length (b_constants_offsets b)" "pool_match b vs k"
        by (auto simp: pool_find_def find_Some_iff)
      then have "k < length (b_constants_components b)" "b_constants_components b ! k = length vs"
        using assms(1) by (simp_all add: ir_ok_def pool_ok_def pool_match_def)
      then show ?thesis using body False Some assms(1,2) pooled [OF assms(1)]
        by (auto intro!: append_filled_extends simp: Let_def)
    next
      case None
      obtain res b1 where add: "pool_add heap b vs = (res, b1)" by fastforce
      have "vs \<noteq> []" using False by auto
      note added = pool_add_ok [OF assms(1,2) this add]
      show ?thesis
      proof (cases res)
        case None
        then have "b' = b1" "r = SIM_IR_INVALID_NODE"
          using body False \<open>pool_find b vs = None\<close> add by (auto simp: Let_def)
        then show ?thesis using added by (simp add: extends_def)
      next
        case (Some k)
        then have "append_filled heap b1 (fill_node SIM_IR_NODE_CONSTANT ?t True
            (Data_constant (zero_constant\<lparr>cs_constant_index := k\<rparr>))) = (r, b')"
          using body False \<open>pool_find b vs = None\<close> add by (auto simp: Let_def)
        then have "extends b1 r b'"
          using added Some pooled [of b1 k] assms(2) by (intro append_filled_extends) auto
        then show ?thesis using added by (simp add: extends_def ir_count_def)
      qed
    qed
  qed
qed

section \<open>Operations that only retag nodes\<close>

definition same_shape :: "SimIRNode \<Rightarrow> SimIRNode \<Rightarrow> bool" where
  "same_shape m n \<longleftrightarrow> nd_type m = nd_type n \<and> nd_id m = nd_id n \<and> nd_value_type m = nd_value_type n \<and>
     nd_data m = nd_data n \<and> nd_is_local m = nd_is_local n"

lemma retag_same_shape: "same_shape (retag opcode preserve n) n"
  by (simp add: retag_def same_shape_def)

lemma same_shape_refl: "same_shape n n"
  by (simp add: same_shape_def)

lemma same_shape_ok: "same_shape m n \<Longrightarrow> node_ok ns pool i m = node_ok ns pool i n"
  by (cases "nd_data n") (simp_all add: same_shape_def node_ok_def node_operands_def node_typed_def Let_def)

lemma retagged_ok:
  assumes "ir_ok b" "length ns = ir_count b" "\<And>i. i < length ns \<Longrightarrow> same_shape (ns ! i) (ir_nodes b ! i)"
  shows "ir_ok (b\<lparr>b_nodes := Some ns\<rparr>)"
proof -
  have "node_ok ns (b_constants_components b) i (ns ! i)" if "i < length ns" for i
  proof -
    have "node_ok (ir_nodes b) (b_constants_components b) i (ns ! i)"
      using that assms(1,2) same_shape_ok [OF assms(3) [OF that]] by (simp add: ir_ok_def nodes_ok_def)
    moreover have "nd_value_type (ns ! j) = nd_value_type (ir_nodes b ! j)" if "j < i" for j
      using assms(3) [of j] that \<open>i < length ns\<close> by (simp add: same_shape_def)
    ultimately show ?thesis by (rule node_ok_prefix)
  qed
  then show ?thesis
    using assms(1,2) by (simp add: ir_ok_def nodes_ok_def pool_ok_def ir_count_def ir_constants_def)
qed

lemma set_warp_class_ok:
  assumes "ir_ok b" "sim_ir_builder_set_node_warp_class (Some b) i c = (r, Some b')"
  shows "ir_ok b'"
proof -
  let ?ns = "(ir_nodes b)[i := (ir_nodes b ! i)\<lparr>nd_warp_class := c\<rparr>]"
  have "same_shape (?ns ! j) (ir_nodes b ! j)" if "j < length ?ns" for j
    using that by (cases "i = j") (simp_all add: same_shape_def)
  then have "ir_ok (b\<lparr>b_nodes := Some ?ns\<rparr>)" by (intro retagged_ok [OF assms(1)]) (simp_all add: ir_count_def)
  then show ?thesis using assms by (auto simp: sim_ir_builder_set_node_warp_class_def split: if_splits)
qed

lemma apply_opcode_ok:
  assumes "ir_ok b" "sim_ir_builder_apply_opcode (Some b) opcode preserve = Some b'"
  shows "ir_ok b'"
  using assms retagged_ok [OF assms(1), of "map (retag opcode preserve) (ir_nodes b)"] retag_same_shape
  by (auto simp: sim_ir_builder_apply_opcode_def ir_count_def ir_nodes_def split: option.splits)

lemma collect_lengths:
  "sim_ir_collect_reachable_node d b x st = Some (r, st') \<Longrightarrow>
     length (fst st') = length (fst st) \<and> length (snd st') = length (snd st)"
  "collect_operands d b xs st = Some (r, st') \<Longrightarrow>
     length (fst st') = length (fst st) \<and> length (snd st') = length (snd st)"
proof (induction d b x st and d b xs st arbitrary: r st' and r st'
    rule: sim_ir_collect_reachable_node_collect_operands.induct)
  case (2 d b x reachable stack_flags)
  then show ?case by (fastforce split: if_splits option.splits)
next
  case (4 d b x xs st)
  then obtain r1 st1 where first: "sim_ir_collect_reachable_node d b x st = Some (r1, st1)"
    by (cases "sim_ir_collect_reachable_node d b x st") auto
  show ?case
  proof (cases "r1 = SIM_RESULT_OK")
    case True
    then show ?thesis using "4.IH"(1) [OF first] "4.IH"(2) [OF first refl] "4.prems" first by simp
  next
    case False
    then show ?thesis using "4.IH"(1) [OF first] "4.prems" first by simp
  qed
qed simp_all

lemma apply_opcode_reachable_ok:
  assumes "ir_ok b"
    and "sim_ir_builder_apply_opcode_reachable heap (Some b) opcode preserve roots = Some (r, Some b')"
  shows "ir_ok b'"
proof (cases "b' = b")
  case False
  let ?n = "ir_count b"
  obtain nodes flags where nodes: "b_nodes b = Some nodes" "nodes \<noteq> []"
    and run: "sim_ir_collect_reachable heap (Some b) roots (Some (replicate ?n False)) = Some (SIM_RESULT_OK, flags)"
    and b': "b' = b\<lparr>b_nodes := Some (map (\<lambda>(node, flag). if flag then retag opcode preserve node else node)
      (zip nodes (the flags)))\<rparr>"
    using assms(2) False
    by (auto simp: sim_ir_builder_apply_opcode_reachable_def ir_count_def ir_nodes_def split: option.splits if_splits)
  have count: "length nodes = ?n" "ir_nodes b = nodes" "?n \<noteq> 0" using nodes by (simp_all add: ir_count_def ir_nodes_def)
  obtain rs reachable stack where "collect_operands (Suc ?n) b rs (replicate ?n False, replicate ?n False) =
      Some (SIM_RESULT_OK, reachable, stack)" "flags = Some reachable"
    using run count by (auto simp: sim_ir_collect_reachable_def Let_def split: option.splits if_splits)
  then have "length (the flags) = ?n" using collect_lengths(2) by fastforce
  then show ?thesis unfolding b' using count retag_same_shape same_shape_refl
    by (intro retagged_ok [OF assms(1)]) auto
qed (use assms(1) in simp)

section \<open>Builders that the interface can produce\<close>

inductive ir_built :: "heap \<Rightarrow> (int \<Rightarrow> u64) \<Rightarrow> (f64 \<Rightarrow> f64 \<Rightarrow> f64) \<Rightarrow> SimIRBuilder \<Rightarrow> bool"
  for heap cast mul where
  init: "ir_built heap cast mul empty_builder"
| add_param: "ir_built heap cast mul b \<Longrightarrow> sim_ir_builder_param heap (Some b) param = (r, Some b') \<Longrightarrow> ir_built heap cast mul b'"
| add_index: "ir_built heap cast mul b \<Longrightarrow> sim_ir_builder_index heap (Some b) = (r, Some b') \<Longrightarrow> ir_built heap cast mul b'"
| add_coord: "ir_built heap cast mul b \<Longrightarrow> sim_ir_builder_coord heap (Some b) field_id axis = (r, Some b') \<Longrightarrow> ir_built heap cast mul b'"
| add_field_ref: "ir_built heap cast mul b \<Longrightarrow> sim_ir_builder_field_ref_typed heap (Some b) field_id t = (r, Some b') \<Longrightarrow> ir_built heap cast mul b'"
| add_noise: "ir_built heap cast mul b \<Longrightarrow> sim_ir_builder_noise_spec heap mul (Some b) noise_spec = (r, Some b') \<Longrightarrow> ir_built heap cast mul b'"
| add_stateful: "ir_built heap cast mul b \<Longrightarrow> sim_ir_builder_stateful_spec heap (Some b) stateful_spec = (r, Some b') \<Longrightarrow> ir_built heap cast mul b'"
| add_call: "ir_built heap cast mul b \<Longrightarrow> sim_ir_builder_call heap (Some b) kind operand = (r, Some b') \<Longrightarrow> ir_built heap cast mul b'"
| add_floor: "ir_built heap cast mul b \<Longrightarrow> sim_ir_builder_floor heap (Some b) operand = (r, Some b') \<Longrightarrow> ir_built heap cast mul b'"
| add_mod: "ir_built heap cast mul b \<Longrightarrow> sim_ir_builder_mod heap (Some b) lhs rhs = (r, Some b') \<Longrightarrow> ir_built heap cast mul b'"
| add_binary: "ir_built heap cast mul b \<Longrightarrow> sim_ir_builder_binary heap (Some b) type lhs rhs = (r, Some b') \<Longrightarrow> ir_built heap cast mul b'"
| add_diff: "ir_built heap cast mul b \<Longrightarrow> sim_ir_builder_diff_spec heap (Some b) diff_spec = (r, Some b') \<Longrightarrow> ir_built heap cast mul b'"
| add_warp: "ir_built heap cast mul b \<Longrightarrow> sim_ir_builder_warp_spec heap (Some b) warp_spec = (r, Some b') \<Longrightarrow> ir_built heap cast mul b'"
| add_rotate: "ir_built heap cast mul b \<Longrightarrow> sim_ir_builder_complex_rotate heap (Some b) operand angle = (r, Some b') \<Longrightarrow> ir_built heap cast mul b'"
| add_pack: "ir_built heap cast mul b \<Longrightarrow> sim_ir_builder_complex_pack heap (Some b) real imag = (r, Some b') \<Longrightarrow> ir_built heap cast mul b'"
| add_constant: "ir_built heap cast mul b \<Longrightarrow> sim_ir_builder_constant_typed heap cast (Some b) v t = (r, Some b') \<Longrightarrow> ir_built heap cast mul b'"
| add_i64: "ir_built heap cast mul b \<Longrightarrow> sim_ir_builder_constant_i64_typed heap (Some b) raw t = (r, Some b') \<Longrightarrow> ir_built heap cast mul b'"
| add_u64: "ir_built heap cast mul b \<Longrightarrow> sim_ir_builder_constant_u64_typed heap (Some b) raw t = (r, Some b') \<Longrightarrow> ir_built heap cast mul b'"
| add_vector: "ir_built heap cast mul b \<Longrightarrow> sim_ir_builder_constant_vector_typed heap (Some b) vals t = (r, Some b') \<Longrightarrow> ir_built heap cast mul b'"
| add_boundary: "ir_built heap cast mul b \<Longrightarrow> sim_ir_builder_set_default_boundary (Some b) boundary = Some b' \<Longrightarrow>
    ir_built heap cast mul b'"
| add_reset: "ir_built heap cast mul b \<Longrightarrow> sim_ir_builder_reset (Some b) = Some b' \<Longrightarrow> ir_built heap cast mul b'"
| add_warp_class: "ir_built heap cast mul b \<Longrightarrow>
    sim_ir_builder_set_node_warp_class (Some b) node_id warp_class = (res, Some b') \<Longrightarrow> ir_built heap cast mul b'"
| add_opcode: "ir_built heap cast mul b \<Longrightarrow> sim_ir_builder_apply_opcode (Some b) opcode preserve = Some b' \<Longrightarrow>
    ir_built heap cast mul b'"
| add_opcode_reachable: "ir_built heap cast mul b \<Longrightarrow>
    sim_ir_builder_apply_opcode_reachable heap (Some b) opcode preserve roots = Some (res, Some b') \<Longrightarrow>
    ir_built heap cast mul b'"

lemma empty_ok: "ir_ok empty_builder"
  by (simp add: empty_builder_def ir_ok_def nodes_ok_def pool_ok_def ir_count_def ir_nodes_def ir_constants_def)

lemma reset_ok: "ir_ok b \<Longrightarrow> sim_ir_builder_reset (Some b) = Some b' \<Longrightarrow> ir_ok b'"
  by (auto simp: sim_ir_builder_reset_def ir_ok_def nodes_ok_def pool_ok_def ir_count_def ir_nodes_def ir_constants_def
      split: option.splits)

lemma boundary_ok: "ir_ok b \<Longrightarrow> sim_ir_builder_set_default_boundary (Some b) p = Some b' \<Longrightarrow> ir_ok b'"
  by (auto simp: sim_ir_builder_set_default_boundary_def ir_ok_def nodes_ok_def pool_ok_def ir_count_def ir_nodes_def
      ir_constants_def)

lemma extends_ok: "extends b r b' \<Longrightarrow> ir_ok b'"
  by (simp add: extends_def)

lemmas constructors_extend =
  param_extends index_extends coord_extends field_ref_extends noise_extends stateful_extends call_extends
  floor_extends mod_extends binary_extends diff_extends warp_extends rotate_extends pack_extends
  constant_extends i64_extends u64_extends vector_extends

lemma built_ok:
  assumes "ir_built heap cast mul b" "bounded_heap heap"
  shows "ir_ok b"
  using assms(1)
proof induction
  case init
  show ?case by (rule empty_ok)
qed (use assms(2) in \<open>blast intro: extends_ok constructors_extend reset_ok boundary_ok set_warp_class_ok
      apply_opcode_ok apply_opcode_reachable_ok\<close>)+

text \<open>
  C3. Every builder that the operations produce, in any order and with any arguments, is well typed:
  each node holds its own index and a normalized type, its operands have smaller indices, the operands
  of an arithmetic node have the node's type and its scalar domain supports the operation, and the
  constant pool entries lie inside the pool.
\<close>

theorem built_well_typed:
  assumes "ir_built heap cast mul b" "bounded_heap heap" "i < ir_count b"
  shows "nd_id (ir_nodes b ! i) = i \<and>
    sim_ir_type_normalize (nd_value_type (ir_nodes b ! i)) = nd_value_type (ir_nodes b ! i) \<and>
    (\<exists>ops. node_operands (ir_nodes b ! i) = Some ops \<and> (\<forall>j \<in> set ops. j < i)) \<and>
    node_typed (\<lambda>j. nd_value_type (ir_nodes b ! j)) (b_constants_components b) (ir_nodes b ! i) \<and>
    (\<forall>k < length (b_constants_offsets b).
       b_constants_offsets b ! k + b_constants_components b ! k \<le> length (ir_constants b))"
  using built_ok [OF assms(1,2)] assms(3) by (simp add: ir_ok_def nodes_ok_def node_ok_def pool_ok_def)

section \<open>A small kernel\<close>

text \<open>The kernel \<open>3 + step_index\<close> over 64-bit unsigned integers, and an unused index node.\<close>

definition demo_grants :: heap where
  "demo_grants k \<longleftrightarrow> k < 2 ^ 63"

definition demo_type :: SimIRType where
  "demo_type = sim_ir_type_scalar_domain_typed sim_scalar_domain_u64"

definition demo_nodes :: "SimIRNode list" where
  "demo_nodes =
     [fill_node SIM_IR_NODE_CONSTANT demo_type True
        (Data_constant (zero_constant\<lparr>cs_scalar := sim_ir_integer_raw_to_double 3 sim_scalar_domain_u64,
           cs_signed_scalar := 3, cs_unsigned_scalar := 3, cs_exact_integer := True,
           cs_constant_index := SIM_IR_INVALID_CONSTANT_INDEX\<rparr>)) 0 fresh_node,
      fill_node SIM_IR_NODE_PARAM demo_type True (Data_param SIM_IR_PARAM_STEP_INDEX) 1 fresh_node,
      fill_node SIM_IR_NODE_ADD demo_type True (Data_binary 0 1) 2 fresh_node,
      fill_node SIM_IR_NODE_INDEX demo_type True Data_index 3 fresh_node]"

definition demo_ir :: "nat \<Rightarrow> SimIRBuilder" where
  "demo_ir n = empty_builder\<lparr>b_nodes := Some (take n demo_nodes), b_capacity := 8\<rparr>"

lemma demo_grants_bounded: "bounded_heap demo_grants"
  by (simp add: bounded_heap_def demo_grants_def)

lemma demo_type_facts [simp]:
  "sim_ir_type_normalize demo_type = demo_type" "ty_scalar_domain demo_type = sim_scalar_domain_u64"
  "sim_ir_type_is_scalar demo_type"
  by (simp_all add: demo_type_def) code_simp+

lemma demo_append_first:
  "append_filled demo_grants empty_builder fill =
     (0, empty_builder\<lparr>b_nodes := Some [fill 0 fresh_node], b_capacity := 8\<rparr>)"
  by (simp add: append_filled_def sim_ir_builder_append_def sim_ir_builder_reserve_def empty_builder_def
      ir_count_def ir_nodes_def grow_capacity_enough malloc_ok_def demo_grants_def sizeof_ir_node_def SIM_IR_INVALID_NODE_def)

lemma demo_append_next:
  assumes "length p < 8"
  shows "append_filled demo_grants (empty_builder\<lparr>b_nodes := Some p, b_capacity := 8\<rparr>) fill =
     (length p, empty_builder\<lparr>b_nodes := Some (p @ [fill (length p) fresh_node]), b_capacity := 8\<rparr>)"
  using assms
  by (simp add: append_filled_def sim_ir_builder_append_def sim_ir_builder_reserve_def ir_count_def ir_nodes_def
      SIM_IR_INVALID_NODE_def empty_builder_def)

lemma demo_append:
  assumes "n < 4"
  shows "append_filled demo_grants (demo_ir n) fill =
     (n, empty_builder\<lparr>b_nodes := Some (take n demo_nodes @ [fill n fresh_node]), b_capacity := 8\<rparr>)"
proof -
  have "length (take n demo_nodes) = n" using assms by (simp add: demo_nodes_def)
  then show ?thesis using demo_append_next [of "take n demo_nodes" fill] assms by (simp add: demo_ir_def)
qed

lemma demo_built: "ir_built demo_grants cast mul (demo_ir 4)"
proof -
  have u: "sim_ir_integer_raw_from_unsigned 3 sim_scalar_domain_u64 = Some 3"
    "sim_ir_integer_truncate 3 sim_scalar_domain_u64 = 3" "sim_ir_integer_as_i64 3 sim_scalar_domain_u64 = 3"
    "sim_ir_domain_is_exact_integer sim_scalar_domain_u64"
    "sim_scalar_domain_supports sim_scalar_domain_u64 SIM_SCALAR_CAP_ADDITIVE_ARITHMETIC" by code_simp+
  have b1: "ir_built demo_grants cast mul (demo_ir 1)"
    by (rule ir_built.add_u64 [OF ir_built.init, where raw = 3 and t = demo_type and r = 0])
      (simp add: sim_ir_builder_constant_u64_typed_def sim_ir_builder_constant_integer_raw_typed_def u
        on_builder_def demo_append_first demo_ir_def demo_nodes_def)
  have b2: "ir_built demo_grants cast mul (demo_ir 2)"
    by (rule ir_built.add_param [OF b1, where param = SIM_IR_PARAM_STEP_INDEX and r = 1])
      (simp add: sim_ir_builder_param_def on_builder_def demo_append flip: demo_type_def, simp add: demo_ir_def demo_nodes_def)
  have types: "nd_value_type (ir_nodes (demo_ir 2) ! 0) = demo_type" "nd_value_type (ir_nodes (demo_ir 2) ! Suc 0) = demo_type"
    "nd_is_local (ir_nodes (demo_ir 2) ! 0)" "nd_is_local (ir_nodes (demo_ir 2) ! Suc 0)"
    "ir_count (demo_ir 2) = 2"
    by (simp_all add: demo_ir_def demo_nodes_def ir_nodes_def ir_count_def)
  have b3: "ir_built demo_grants cast mul (demo_ir 3)"
    by (rule ir_built.add_binary [OF b2, where type = SIM_IR_NODE_ADD and lhs = 0 and rhs = 1 and r = 2])
      (simp add: sim_ir_builder_binary_def on_builder_def demo_append types valid_node_def type_equal_iff u
        sim_ir_type_scalar_domain_def SIM_IR_INVALID_NODE_def, simp add: demo_ir_def demo_nodes_def)
  show ?thesis
    by (rule ir_built.add_index [OF b3, where r = 3])
      (simp add: sim_ir_builder_index_def on_builder_def demo_append flip: demo_type_def, simp add: demo_ir_def demo_nodes_def)
qed

theorem built_well_typed_witness:
  "nd_id (ir_nodes (demo_ir 4) ! 2) = 2 \<and> node_operands (ir_nodes (demo_ir 4) ! 2) = Some [0, 1] \<and>
   node_typed (\<lambda>j. nd_value_type (ir_nodes (demo_ir 4) ! j)) [] (ir_nodes (demo_ir 4) ! 2)"
proof -
  have c: "2 < ir_count (demo_ir 4)" "b_constants_components (demo_ir 4) = []"
    "node_operands (ir_nodes (demo_ir 4) ! 2) = Some [0, 1]"
    by (simp_all add: demo_ir_def demo_nodes_def ir_nodes_def ir_count_def empty_builder_def node_operands_def)
  show ?thesis using built_well_typed [OF demo_built demo_grants_bounded c(1)] c(2,3) by simp
qed

end
