(* ===== verification/IR_Reach.thy ===== *)
theory IR_Reach
  imports IR_Correct
begin

text \<open>
  The traversal of \<^verbatim>\<open>kernel_ir_builder.c\<close> marks exactly the nodes the roots depend on, it always
  returns, and on a builder that satisfies its invariant it never reports a cycle.
\<close>

section \<open>Reachability\<close>

definition ir_edge :: "SimIRBuilder \<Rightarrow> nat \<Rightarrow> nat \<Rightarrow> bool" where
  "ir_edge b i j \<longleftrightarrow> i < ir_count b \<and> (\<exists>ops. node_operands (ir_nodes b ! i) = Some ops \<and> j \<in> set ops)"

definition depends :: "SimIRBuilder \<Rightarrow> nat \<Rightarrow> nat set" where
  "depends b i = {j. (ir_edge b)\<^sup>*\<^sup>* i j}"

definition marked :: "bool list \<Rightarrow> nat set" where
  "marked flags = {i. i < length flags \<and> flags ! i}"

lemma depends_refl [simp]: "i \<in> depends b i"
  by (simp add: depends_def)

lemma depends_trans: "j \<in> depends b i \<Longrightarrow> depends b j \<subseteq> depends b i"
  by (auto simp: depends_def)

lemma depends_operands:
  assumes "i < ir_count b" "node_operands (ir_nodes b ! i) = Some ops"
  shows "depends b i = insert i (\<Union>j \<in> set ops. depends b j)"
proof -
  have "depends b i \<subseteq> insert i (\<Union>j \<in> set ops. depends b j)"
  proof
    fix k assume "k \<in> depends b i"
    then have "(ir_edge b)\<^sup>*\<^sup>* i k" by (simp add: depends_def)
    then show "k \<in> insert i (\<Union>j \<in> set ops. depends b j)"
      by (cases rule: converse_rtranclpE) (auto simp: ir_edge_def depends_def assms(2))
  qed
  moreover have "ir_edge b i j" if "j \<in> set ops" for j using that assms by (auto simp: ir_edge_def)
  then have "depends b j \<subseteq> depends b i" if "j \<in> set ops" for j
    using that by (intro depends_trans) (auto simp: depends_def)
  ultimately show ?thesis by auto
qed

lemma operands_smaller:
  assumes "ir_ok b" "i < ir_count b"
  obtains ops where "node_operands (ir_nodes b ! i) = Some ops" "\<And>j. j \<in> set ops \<Longrightarrow> j < i"
  using assms by (auto simp: ir_ok_def nodes_ok_def node_ok_def)

lemma valid_node_iff:
  assumes "ir_ok b"
  shows "valid_node b i \<longleftrightarrow> i < ir_count b"
  using assms
  by (auto simp: valid_node_def ir_ok_def nodes_ok_def sizeof_ir_node_def SIM_IR_INVALID_NODE_def)

lemma marked_update: "i < length flags \<Longrightarrow> marked (flags[i := True]) = insert i (marked flags)"
  by (auto simp: marked_def nth_list_update)

section \<open>The traversal\<close>

text \<open>
  What holds when the traversal enters node \<open>x\<close>: neither \<open>x\<close> nor a smaller node is on the stack, and
  what a marked node off the stack depends on is marked.
\<close>

definition closed_off_stack :: "SimIRBuilder \<Rightarrow> bool list \<Rightarrow> bool list \<Rightarrow> bool" where
  "closed_off_stack b flags stack \<longleftrightarrow> (\<forall>i \<in> marked flags - marked stack. depends b i \<subseteq> marked flags)"

definition enters :: "SimIRBuilder \<Rightarrow> nat \<Rightarrow> bool list \<Rightarrow> bool list \<Rightarrow> bool" where
  "enters b x flags stack \<longleftrightarrow>
     x < ir_count b \<and> ir_count b \<le> length flags \<and> length stack = ir_count b \<and>
     (\<forall>y \<le> x. \<not> stack ! y) \<and> closed_off_stack b flags stack"

definition marks :: "SimIRBuilder \<Rightarrow> nat \<Rightarrow> nat \<Rightarrow> bool" where
  "marks b depth x \<longleftrightarrow> (\<forall>flags stack. enters b x flags stack \<longrightarrow>
     (\<exists>flags'. sim_ir_collect_reachable_node depth b x (flags, stack) = Some (SIM_RESULT_OK, flags', stack) \<and>
        length flags' = length flags \<and> marked flags' = marked flags \<union> depends b x))"

lemma closed_marked:
  assumes "closed_off_stack b flags stack" "marked flags' = marked flags \<union> depends b x"
  shows "closed_off_stack b flags' stack"
  using assms depends_trans unfolding closed_off_stack_def by blast

lemma collect_operands_marks:
  assumes "\<And>x. x \<in> set xs \<Longrightarrow> marks b depth x" "\<And>x. x \<in> set xs \<Longrightarrow> enters b x flags stack"
  shows "\<exists>flags'. collect_operands depth b xs (flags, stack) = Some (SIM_RESULT_OK, flags', stack) \<and>
    length flags' = length flags \<and> marked flags' = marked flags \<union> (\<Union>x \<in> set xs. depends b x)"
  using assms
proof (induction xs arbitrary: flags)
  case (Cons x xs)
  obtain f1 where f1: "sim_ir_collect_reachable_node depth b x (flags, stack) = Some (SIM_RESULT_OK, f1, stack)"
    "length f1 = length flags" "marked f1 = marked flags \<union> depends b x"
    using Cons.prems(1) [of x] Cons.prems(2) [of x] unfolding marks_def by (meson list.set_intros(1))
  have "enters b y f1 stack" if "y \<in> set xs" for y
    using Cons.prems(2) [of y] that f1(2) closed_marked [OF _ f1(3)] by (simp add: enters_def)
  then show ?case using Cons.IH [of f1] Cons.prems(1) f1 by fastforce
qed simp

lemma node_marks:
  assumes "ir_ok b" "x < depth"
  shows "marks b depth x"
  using assms(2)
proof (induction x arbitrary: depth rule: less_induct)
  case (less x)
  then obtain d where d: "depth = Suc d" "x \<le> d" by (cases depth) auto
  show ?case unfolding marks_def
  proof (intro allI impI)
    fix flags stack
    assume "enters b x flags stack"
    then have x: "x < ir_count b" and len: "ir_count b \<le> length flags" "length stack = ir_count b"
      and off: "\<And>y. y \<le> x \<Longrightarrow> \<not> stack ! y" and closed: "closed_off_stack b flags stack"
      by (auto simp: enters_def)
    obtain ops where ops: "node_operands (ir_nodes b ! x) = Some ops" "\<And>j. j \<in> set ops \<Longrightarrow> j < x"
      using operands_smaller [OF assms(1) x] by blast
    have valid: "valid_node b x" using valid_node_iff [OF assms(1)] x by simp
    show "\<exists>flags'. sim_ir_collect_reachable_node depth b x (flags, stack) = Some (SIM_RESULT_OK, flags', stack) \<and>
        length flags' = length flags \<and> marked flags' = marked flags \<union> depends b x"
    proof (cases "flags ! x")
      case True
      then have "x \<in> marked flags - marked stack" using x len off by (simp add: marked_def)
      then have "depends b x \<subseteq> marked flags" using closed by (auto simp: closed_off_stack_def)
      then show ?thesis using True valid off d by (auto simp: d(1))
    next
      case False
      let ?f = "flags[x := True]" and ?s = "stack[x := True]"
      have f: "marked ?f = insert x (marked flags)" and s: "marked ?s = insert x (marked stack)"
        using x len by (simp_all add: marked_update)
      have "closed_off_stack b ?f ?s" using closed by (auto simp: closed_off_stack_def f s)
      then have "enters b j ?f ?s" if "j \<in> set ops" for j
        using that ops(2) [OF that] x len off by (auto simp: enters_def)
      moreover have "marks b d j" if "j \<in> set ops" for j
        using less.IH [of j d] ops(2) [OF that] d by simp
      ultimately obtain f' where f': "collect_operands d b ops (?f, ?s) = Some (SIM_RESULT_OK, f', ?s)"
        "length f' = length ?f" "marked f' = marked ?f \<union> (\<Union>j \<in> set ops. depends b j)"
        using collect_operands_marks [of ops b d ?f ?s] by blast
      have "marked f' = marked flags \<union> depends b x"
        using f'(3) f depends_operands [OF x ops(1)] by auto
      moreover have "?s[x := False] = stack" using off [of x] x len by (metis list_update_overwrite list_update_id order_refl)
      ultimately show ?thesis using False valid off [of x] f'(1,2) ops(1) by (simp add: d(1))
    qed
  qed
qed

lemma collect_roots:
  assumes "ir_ok b" "ir_count b \<le> length flags" "marked flags = {}" "\<And>r. r \<in> set rs \<Longrightarrow> r < ir_count b"
  shows "\<exists>flags'. collect_operands (Suc (ir_count b)) b rs (flags, replicate (ir_count b) False) =
      Some (SIM_RESULT_OK, flags', replicate (ir_count b) False) \<and> length flags' = length flags \<and>
    marked flags' = (\<Union>r \<in> set rs. depends b r)"
proof -
  have "enters b r flags (replicate (ir_count b) False)" if "r \<in> set rs" for r
    using assms(1-3) assms(4) [OF that] by (simp add: enters_def closed_off_stack_def)
  then show ?thesis
    using collect_operands_marks [of rs b "Suc (ir_count b)" flags "replicate (ir_count b) False"]
      node_marks [OF assms(1)] assms(3,4) by (metis Un_empty_left less_SucI)
qed

lemma collect_operands_append:
  "collect_operands d b (xs @ ys) st =
     (case collect_operands d b xs st of
        None \<Rightarrow> None
      | Some (r, st') \<Rightarrow> if r \<noteq> SIM_RESULT_OK then Some (r, st') else collect_operands d b ys st')"
  by (induction xs arbitrary: st) (auto split: option.splits)

text \<open>
  Collecting the reachable nodes of a builder made by the operations always returns. With valid
  roots it succeeds and flags a node exactly when some root depends on it; with an invalid root it
  reports an invalid argument; it never reports a cycle.
\<close>

theorem collect_reachable_exact:
  assumes "ir_built heap cast mul b" "bounded_heap heap" "heap (ir_count b)" "length out = ir_count b"
  shows "\<exists>res flags. sim_ir_collect_reachable heap (Some b) (Some roots) (Some out) = Some (res, Some flags) \<and>
    length flags = ir_count b \<and>
    (if \<forall>r \<in> set roots. r < ir_count b
     then res = SIM_RESULT_OK \<and> (\<forall>i < ir_count b. flags ! i \<longleftrightarrow> (\<exists>r \<in> set roots. i \<in> depends b r))
     else ir_count b = 0 \<or> res = SIM_RESULT_INVALID_ARGUMENT)"
proof (cases "ir_count b = 0")
  case True
  then show ?thesis using assms(4) by (simp add: sim_ir_collect_reachable_def)
next
  case False
  let ?n = "ir_count b" and ?clear = "replicate (ir_count b) False"
  have ok: "ir_ok b" using built_ok assms(1,2) by blast
  have small: "?n < 2 ^ 64"
    using ok by (simp add: ir_ok_def nodes_ok_def sizeof_ir_node_def)
  have run: "sim_ir_collect_reachable heap (Some b) (Some roots) (Some out) =
      map_option (\<lambda>(result, reachable, _). (result, Some reachable))
        (collect_operands (Suc ?n) b roots (?clear, ?clear))"
    using False assms(3,4) small by (simp add: sim_ir_collect_reachable_def calloc_ok_def Let_def)
  have clear: "marked ?clear = {}" by (simp add: marked_def)
  show ?thesis
  proof (cases "\<forall>r \<in> set roots. r < ?n")
    case True
    obtain flags where flags: "collect_operands (Suc ?n) b roots (?clear, ?clear) = Some (SIM_RESULT_OK, flags, ?clear)"
      "length flags = ?n" "marked flags = (\<Union>r \<in> set roots. depends b r)"
      using collect_roots [OF ok _ clear, of roots] True by auto
    have "flags ! i \<longleftrightarrow> (\<exists>r \<in> set roots. i \<in> depends b r)" if "i < ?n" for i
    proof -
      have "flags ! i \<longleftrightarrow> i \<in> marked flags" using that flags(2) by (simp add: marked_def)
      then show ?thesis using flags(3) by simp
    qed
    then show ?thesis using True run flags(1,2) by simp
  next
    case bad: False
    then obtain xs r ys where split: "roots = xs @ r # ys" "\<not> r < ?n" "\<forall>x \<in> set xs. x < ?n"
      using split_list_first_prop [of roots "\<lambda>r. \<not> r < ?n"] by auto
    obtain flags where flags: "collect_operands (Suc ?n) b xs (?clear, ?clear) = Some (SIM_RESULT_OK, flags, ?clear)"
      "length flags = ?n"
      using collect_roots [OF ok _ clear, of xs] split(3) by auto
    have "\<not> valid_node b r" using valid_node_iff [OF ok] split(2) by simp
    then have "collect_operands (Suc ?n) b roots (?clear, ?clear) =
        Some (SIM_RESULT_INVALID_ARGUMENT, flags, ?clear)"
      using flags by (simp add: split(1) collect_operands_append)
    then show ?thesis using bad run flags(2) by auto
  qed
qed

text \<open>
  C6. Tagging the nodes reachable from valid roots sets the opcode of exactly the nodes some root
  depends on, except where an opcode is to be preserved, and changes nothing else of the builder.
\<close>

theorem apply_opcode_reachable_exact:
  assumes "ir_built heap cast mul b" "bounded_heap heap" "heap (ir_count b)" "0 < ir_count b"
    and "\<forall>r \<in> set roots. r < ir_count b"
  shows "\<exists>ns. sim_ir_builder_apply_opcode_reachable heap (Some b) opcode preserve (Some roots) =
      Some (SIM_RESULT_OK, Some (b\<lparr>b_nodes := Some ns\<rparr>)) \<and> length ns = ir_count b \<and>
    (\<forall>i < ir_count b. ns ! i =
       (if (\<exists>r \<in> set roots. i \<in> depends b r) \<and> (preserve \<longrightarrow> nd_opcode (ir_nodes b ! i) = OAK_OP_MISC)
        then (ir_nodes b ! i)\<lparr>nd_opcode := opcode\<rparr> else ir_nodes b ! i))"
proof -
  let ?n = "ir_count b"
  have ok: "ir_ok b" using built_ok assms(1,2) by blast
  have nodes: "b_nodes b = Some (ir_nodes b)" "ir_nodes b \<noteq> []"
    using assms(4) by (auto simp: ir_count_def ir_nodes_def split: option.splits)
  have small: "?n < 2 ^ 64" using ok by (simp add: ir_ok_def nodes_ok_def sizeof_ir_node_def)
  obtain flags where flags: "collect_operands (Suc ?n) b roots (replicate ?n False, replicate ?n False) =
      Some (SIM_RESULT_OK, flags, replicate ?n False)"
    "length flags = ?n" "marked flags = (\<Union>r \<in> set roots. depends b r)"
    using collect_roots [OF ok, of "replicate ?n False" roots] assms(5) by (auto simp: marked_def)
  let ?ns = "map (\<lambda>(node, flag). if flag then retag opcode preserve node else node) (zip (ir_nodes b) flags)"
  have run: "sim_ir_collect_reachable heap (Some b) (Some roots) (Some (replicate ?n False)) =
      Some (SIM_RESULT_OK, Some flags)"
    using assms(3,4) small flags(1) by (simp add: sim_ir_collect_reachable_def calloc_ok_def Let_def)
  have "sim_ir_builder_apply_opcode_reachable heap (Some b) opcode preserve (Some roots) =
      Some (SIM_RESULT_OK, Some (b\<lparr>b_nodes := Some ?ns\<rparr>))"
    using nodes small assms(3) run
    by (simp add: sim_ir_builder_apply_opcode_reachable_def calloc_ok_def flip: ir_count_def)
  moreover have "?ns ! i =
      (if (\<exists>r \<in> set roots. i \<in> depends b r) \<and> (preserve \<longrightarrow> nd_opcode (ir_nodes b ! i) = OAK_OP_MISC)
       then (ir_nodes b ! i)\<lparr>nd_opcode := opcode\<rparr> else ir_nodes b ! i)" if "i < ?n" for i
  proof -
    have "flags ! i \<longleftrightarrow> i \<in> marked flags" using that flags(2) by (simp add: marked_def)
    then show ?thesis using that flags(2,3) by (auto simp: ir_count_def retag_def sim_ir_opcode_sanitize_def)
  qed
  ultimately show ?thesis using flags(2) by (intro exI [of _ ?ns]) (simp add: ir_count_def)
qed

lemma demo_depends: "ir_count (demo_ir 4) = 4" "depends (demo_ir 4) 2 = {0, 1, 2}"
proof -
  show c: "ir_count (demo_ir 4) = 4" by (simp add: demo_ir_def demo_nodes_def ir_nodes_def ir_count_def)
  have ops: "node_operands (ir_nodes (demo_ir 4) ! 0) = Some []" "node_operands (ir_nodes (demo_ir 4) ! 1) = Some []"
    "node_operands (ir_nodes (demo_ir 4) ! 2) = Some [0, 1]"
    by (simp_all add: demo_ir_def demo_nodes_def ir_nodes_def node_operands_def)
  show "depends (demo_ir 4) 2 = {0, 1, 2}"
    using depends_operands [OF _ ops(1)] depends_operands [OF _ ops(2)] depends_operands [OF _ ops(3)] c by auto
qed

theorem collect_reachable_exact_witness:
  "\<exists>flags. sim_ir_collect_reachable demo_grants (Some (demo_ir 4)) (Some [2]) (Some (replicate 4 False)) =
     Some (SIM_RESULT_OK, Some flags) \<and> flags ! 0 \<and> flags ! 2 \<and> \<not> flags ! 3"
proof -
  have "demo_grants (ir_count (demo_ir 4))" "length (replicate 4 False) = ir_count (demo_ir 4)"
    by (simp_all add: demo_depends demo_grants_def)
  from collect_reachable_exact [OF demo_built demo_grants_bounded this, of "[2]"]
  show ?thesis by (auto simp: demo_depends)
qed

theorem apply_opcode_reachable_exact_witness:
  "\<exists>ns. sim_ir_builder_apply_opcode_reachable demo_grants (Some (demo_ir 4)) OAK_OP_FLOW True (Some [2]) =
      Some (SIM_RESULT_OK, Some ((demo_ir 4)\<lparr>b_nodes := Some ns\<rparr>)) \<and>
    nd_opcode (ns ! 0) = OAK_OP_FLOW \<and> ns ! 3 = ir_nodes (demo_ir 4) ! 3"
proof -
  have h: "demo_grants (ir_count (demo_ir 4))" "0 < ir_count (demo_ir 4)" "\<forall>r \<in> set [2]. r < ir_count (demo_ir 4)"
    by (simp_all add: demo_depends demo_grants_def)
  have m: "nd_opcode (ir_nodes (demo_ir 4) ! 0) = OAK_OP_MISC"
    by (simp add: demo_ir_def demo_nodes_def ir_nodes_def fill_node_def fresh_node_def)
  from apply_opcode_reachable_exact [OF demo_built demo_grants_bounded h, of OAK_OP_FLOW True]
  show ?thesis by (auto simp: demo_depends m)
qed

end
