(* ===== verification/Kernel_IR_Eval.thy ===== *)
theory Kernel_IR_Eval
  imports Kernel_IR_Builder "HOL-Library.Signed_Division"
begin

text \<open>
  The evaluators of \<^verbatim>\<open>core/src/kernel_ir_eval.c\<close>, \<^verbatim>\<open>kernel_ir_eval_complex.c\<close> and
  \<^verbatim>\<open>kernel_ir_eval_domain.c\<close>. All three have the same frame: look the node up in the cache, refuse a
  node that is being evaluated, evaluate the operands the node's kind asks for from left to right up to
  the first failure, compute, and store the result. The frame is \<open>memo_eval\<close>; what a node computes from
  its operands is the rule of the evaluator (\<open>real_rule\<close>, \<open>complex_rule\<close>, \<open>integer_rule\<close>).

  Rounded arithmetic and \<^verbatim>\<open>libm\<close> are the argument \<open>fpu\<close>; sampling an analytic warp
  (\<^verbatim>\<open>sim_ir_warp_sample_response\<close>) is the argument \<open>warp\<close>. A callback of the caller is a function of its
  arguments that returns the result code and the value it stored.
\<close>

unbundle bit_operations_syntax

section \<open>The frame\<close>

record 'v eval_state =
  es_cache :: "'v list"
  es_flags :: "nat list"

type_synonym 'v node_rule = "SimIRNodeId list \<times> ('v list \<Rightarrow> SimResult + 'v)"

text \<open>
  The first argument is \<^verbatim>\<open>builder->count\<close>, the second the rule of a node, the third tells the nodes whose
  failure returns at once and leaves the node marked as being evaluated, the fourth bounds the depth of
  the recursion; \<open>None\<close> is a recursion that is deeper.
\<close>

fun memo_eval ::
  "nat \<Rightarrow> (SimIRNodeId \<Rightarrow> 'v node_rule) \<Rightarrow> (SimIRNodeId \<Rightarrow> bool) \<Rightarrow> nat \<Rightarrow> 'v eval_state \<Rightarrow> SimIRNodeId \<Rightarrow>
   ((SimResult + 'v) \<times> 'v eval_state) option"
and memo_operands ::
  "nat \<Rightarrow> (SimIRNodeId \<Rightarrow> 'v node_rule) \<Rightarrow> (SimIRNodeId \<Rightarrow> bool) \<Rightarrow> nat \<Rightarrow> 'v eval_state \<Rightarrow> SimIRNodeId list \<Rightarrow>
   ((SimResult + 'v list) \<times> 'v eval_state) option" where
  "memo_eval count rule early 0 st node_id = None"
| "memo_eval count rule early (Suc depth) st node_id =
     (if node_id = SIM_IR_INVALID_NODE \<or> node_id \<ge> count then Some (Inl SIM_RESULT_INVALID_ARGUMENT, st)
      else if es_flags st ! node_id = 2 then Some (Inr (es_cache st ! node_id), st)
      else if es_flags st ! node_id = 1 then Some (Inl SIM_RESULT_DEPENDENCY_ERROR, st)
      else case memo_operands count rule early depth (st\<lparr>es_flags := (es_flags st)[node_id := 1]\<rparr>)
                  (fst (rule node_id)) of
             None \<Rightarrow> None
           | Some (operands, st) \<Rightarrow>
               (case (case operands of Inl e \<Rightarrow> Inl e | Inr vs \<Rightarrow> snd (rule node_id) vs) of
                  Inl e \<Rightarrow> Some (Inl e, if early node_id then st else st\<lparr>es_flags := (es_flags st)[node_id := 0]\<rparr>)
                | Inr v \<Rightarrow> Some (Inr v, st\<lparr>es_cache := (es_cache st)[node_id := v],
                                          es_flags := (es_flags st)[node_id := 2]\<rparr>)))"
| "memo_operands count rule early depth st [] = Some (Inr [], st)"
| "memo_operands count rule early depth st (x # xs) =
     (case memo_eval count rule early depth st x of
        None \<Rightarrow> None
      | Some (Inl e, st) \<Rightarrow> Some (Inl e, st)
      | Some (Inr v, st) \<Rightarrow>
          (case memo_operands count rule early depth st xs of
             None \<Rightarrow> None
           | Some (Inl e, st) \<Rightarrow> Some (Inl e, st)
           | Some (Inr vs, st) \<Rightarrow> Some (Inr (v # vs), st)))"

section \<open>Arithmetic\<close>

record fpu =
  fp_add :: "f64 \<Rightarrow> f64 \<Rightarrow> f64"
  fp_sub :: "f64 \<Rightarrow> f64 \<Rightarrow> f64"
  fp_mul :: "f64 \<Rightarrow> f64 \<Rightarrow> f64"
  fp_div :: "f64 \<Rightarrow> f64 \<Rightarrow> f64"
  fp_pow :: "f64 \<Rightarrow> f64 \<Rightarrow> f64"
  fp_fmod :: "f64 \<Rightarrow> f64 \<Rightarrow> f64"
  fp_floor :: "f64 \<Rightarrow> f64"
  fp_sin :: "f64 \<Rightarrow> f64"
  fp_cos :: "f64 \<Rightarrow> f64"
  fp_exp :: "f64 \<Rightarrow> f64"
  fp_log :: "f64 \<Rightarrow> f64"
  fp_tanh :: "f64 \<Rightarrow> f64"
  fp_sinh :: "f64 \<Rightarrow> f64"
  fp_cpow :: "SimComplexDouble \<Rightarrow> SimComplexDouble \<Rightarrow> SimComplexDouble"

definition f64_copysign_one :: "f64 \<Rightarrow> f64" where
  "f64_copysign_one x = (if f64_negative x then set_bit 63 f64_one else f64_one)"

fun from_callback :: "SimResult \<times> 'v \<Rightarrow> SimResult + 'v" where
  "from_callback (rc, v) = (if rc = SIM_RESULT_OK then Inr v else Inl rc)"

definition call_value :: "fpu \<Rightarrow> SimIRCallKind \<Rightarrow> f64 \<Rightarrow> f64" where
  "call_value m kind x =
     (case kind of
        SIM_IR_CALL_SIN \<Rightarrow> fp_sin m x
      | SIM_IR_CALL_COS \<Rightarrow> fp_cos m x
      | SIM_IR_CALL_EXP \<Rightarrow> fp_exp m x
      | SIM_IR_CALL_ABS \<Rightarrow> f64_fabs x
      | SIM_IR_CALL_LOG \<Rightarrow> fp_log m x
      | SIM_IR_CALL_TANH \<Rightarrow> fp_tanh m x
      | SIM_IR_CALL_SINH \<Rightarrow> fp_sinh m x
      | SIM_IR_CALL_SIGN \<Rightarrow> f64_copysign_one x)"

definition sim_ir_constant_component :: "SimIRBuilder \<Rightarrow> SimIRNode \<Rightarrow> nat \<Rightarrow> f64 option" where
  "sim_ir_constant_component b node component =
     (case (nd_type node, nd_data node) of
        (SIM_IR_NODE_CONSTANT, Data_constant c) \<Rightarrow>
          if cs_constant_index c = SIM_IR_INVALID_CONSTANT_INDEX then
            if ty_components (nd_value_type node) \<le> SIM_IR_SMALL_CONSTANT_CAPACITY \<and>
               \<not> sim_ir_type_is_scalar (nd_value_type node) then
              if component \<ge> ty_components (nd_value_type node) then None
              else Some (cs_small c ! component)
            else Some (cs_scalar c)
          else if b_constants_data b = None \<or> cs_constant_index c \<ge> length (b_constants_offsets b) then None
          else let idx = cs_constant_index c
               in if component \<ge> b_constants_components b ! idx then None
                  else Some (ir_constants b ! (b_constants_offsets b ! idx + component))
      | _ \<Rightarrow> None)"

section \<open>Real values\<close>

record SimIREvaluator =
  ev_field_value :: "(nat \<Rightarrow> SimIRType \<Rightarrow> SimResult \<times> f64) option"
  ev_differential :: "(SimIRNode \<Rightarrow> SimIRNodeId \<Rightarrow> f64 \<Rightarrow> SimResult \<times> f64) option"
  ev_noise :: "(SimIRNode \<Rightarrow> SimResult \<times> f64) option"
  ev_param_value :: "(SimIRParamKind \<Rightarrow> SimResult \<times> f64) option"

type_synonym warp_sampler = "SimIRWarp \<Rightarrow> f64 \<Rightarrow> SimResult \<times> f64"

text \<open>A callback the evaluator lacks is \<^verbatim>\<open>SIM_RESULT_NOT_FOUND\<close>.\<close>

definition with_callback :: "'c option \<Rightarrow> ('c \<Rightarrow> SimResult \<times> 'v) \<Rightarrow> SimResult + 'v" where
  "with_callback cb run =
     (case cb of None \<Rightarrow> Inl SIM_RESULT_NOT_FOUND | Some f \<Rightarrow> from_callback (run f))"

definition is_real_scalar :: "SimIRType \<Rightarrow> bool" where
  "is_real_scalar t \<longleftrightarrow>
     sim_ir_type_is_scalar t \<and> \<not> sim_scalar_domain_is_complex (sim_ir_type_scalar_domain t) \<and>
     \<not> sim_ir_domain_is_exact_integer (sim_ir_type_scalar_domain t)"

definition real_rule ::
  "fpu \<Rightarrow> warp_sampler \<Rightarrow> SimIREvaluator option \<Rightarrow> SimIRBuilder \<Rightarrow> SimIRNode \<Rightarrow> f64 node_rule" where
  "real_rule m warp ev b node =
     (if \<not> is_real_scalar (sim_ir_type_normalize (nd_value_type node))
      then ([], \<lambda>_. Inl SIM_RESULT_INVALID_ARGUMENT)
      else case (nd_type node, nd_data node) of
        (SIM_IR_NODE_CONSTANT, Data_constant c) \<Rightarrow>
          ([], \<lambda>_. case sim_ir_constant_component b node 0 of
                    None \<Rightarrow> Inl SIM_RESULT_INVALID_ARGUMENT | Some v \<Rightarrow> Inr v)
      | (SIM_IR_NODE_FIELD_REF, Data_field field) \<Rightarrow>
          ([], \<lambda>_. with_callback (Option.bind ev ev_field_value) (\<lambda>f. f field (nd_value_type node)))
      | (SIM_IR_NODE_ADD, Data_binary l r) \<Rightarrow> ([l, r], \<lambda>vs. Inr (fp_add m (vs ! 0) (vs ! 1)))
      | (SIM_IR_NODE_SUB, Data_binary l r) \<Rightarrow> ([l, r], \<lambda>vs. Inr (fp_sub m (vs ! 0) (vs ! 1)))
      | (SIM_IR_NODE_MUL, Data_binary l r) \<Rightarrow> ([l, r], \<lambda>vs. Inr (fp_mul m (vs ! 0) (vs ! 1)))
      | (SIM_IR_NODE_DIV, Data_binary l r) \<Rightarrow> ([l, r], \<lambda>vs. Inr (fp_div m (vs ! 0) (vs ! 1)))
      | (SIM_IR_NODE_POW, Data_binary l r) \<Rightarrow> ([l, r], \<lambda>vs. Inr (fp_pow m (vs ! 0) (vs ! 1)))
      | (SIM_IR_NODE_DIFF, Data_diff d) \<Rightarrow>
          ([df_operand d], \<lambda>vs. with_callback (Option.bind ev ev_differential)
             (\<lambda>f. f node (df_operand d) (vs ! 0)))
      | (SIM_IR_NODE_NOISE, Data_noise _) \<Rightarrow>
          ([], \<lambda>_. with_callback (Option.bind ev ev_noise) (\<lambda>f. f node))
      | (SIM_IR_NODE_PARAM, Data_param param) \<Rightarrow>
          ([], \<lambda>_. with_callback (Option.bind ev ev_param_value) (\<lambda>f. f param))
      | (SIM_IR_NODE_CALL, Data_call operand kind) \<Rightarrow> ([operand], \<lambda>vs. Inr (call_value m kind (vs ! 0)))
      | (SIM_IR_NODE_FLOOR, Data_unary operand) \<Rightarrow> ([operand], \<lambda>vs. Inr (fp_floor m (vs ! 0)))
      | (SIM_IR_NODE_MOD, Data_binary l r) \<Rightarrow>
          ([l, r], \<lambda>vs. Inr (if f64_eq (vs ! 1) f64_zero then f64_zero else fp_fmod m (vs ! 0) (vs ! 1)))
      | (SIM_IR_NODE_WARP, Data_warp w) \<Rightarrow> ([wp_operand w], \<lambda>vs. from_callback (warp w (vs ! 0)))
      | _ \<Rightarrow> ([], \<lambda>_. Inl SIM_RESULT_INVALID_ARGUMENT))"

definition sim_ir_evaluate_impl ::
  "fpu \<Rightarrow> warp_sampler \<Rightarrow> SimIREvaluator option \<Rightarrow> SimIRBuilder \<Rightarrow> nat \<Rightarrow> f64 eval_state \<Rightarrow> SimIRNodeId \<Rightarrow>
   ((SimResult + f64) \<times> f64 eval_state) option" where
  "sim_ir_evaluate_impl m warp ev b =
     memo_eval (ir_count b) (\<lambda>i. real_rule m warp ev b (ir_nodes b ! i)) (\<lambda>_. False)"

definition sim_ir_evaluate ::
  "heap \<Rightarrow> fpu \<Rightarrow> warp_sampler \<Rightarrow> SimIRBuilder option \<Rightarrow> SimIRNodeId \<Rightarrow> SimIREvaluator option \<Rightarrow>
   (SimResult + f64) option" where
  "sim_ir_evaluate heap m warp builder root ev =
     (case builder of
        None \<Rightarrow> Some (Inl SIM_RESULT_INVALID_ARGUMENT)
      | Some b \<Rightarrow>
          if \<not> valid_node b root then Some (Inl SIM_RESULT_INVALID_ARGUMENT)
          else if \<not> is_real_scalar (sim_ir_type_normalize (nd_value_type (ir_nodes b ! root)))
            then Some (Inl SIM_RESULT_INVALID_ARGUMENT)
          else if \<not> calloc_ok heap (ir_count b) 8 \<or> \<not> calloc_ok heap (ir_count b) 1
            then Some (Inl SIM_RESULT_OUT_OF_MEMORY)
          else map_option fst (sim_ir_evaluate_impl m warp ev b (Suc (ir_count b))
                 \<lparr>es_cache = replicate (ir_count b) f64_zero, es_flags = replicate (ir_count b) 0\<rparr> root))"

section \<open>Complex values\<close>

record SimIREvaluatorComplex =
  evc_field_value_c :: "(nat \<Rightarrow> SimIRType \<Rightarrow> SimResult \<times> SimComplexDouble) option"
  evc_differential_c :: "(SimIRNode \<Rightarrow> SimIRNodeId \<Rightarrow> SimComplexDouble \<Rightarrow> SimResult \<times> SimComplexDouble) option"
  evc_noise_c :: "(SimIRNode \<Rightarrow> SimResult \<times> SimComplexDouble) option"
  evc_param_value :: "(SimIRParamKind \<Rightarrow> SimResult \<times> f64) option"

abbreviation cx :: "f64 \<Rightarrow> f64 \<Rightarrow> SimComplexDouble" where
  "cx x y \<equiv> \<lparr>re = x, im = y\<rparr>"

definition complex_binary :: "fpu \<Rightarrow> SimIRNodeType \<Rightarrow> SimComplexDouble \<Rightarrow> SimComplexDouble \<Rightarrow> SimComplexDouble" where
  "complex_binary m type l r =
     (case type of
        SIM_IR_NODE_ADD \<Rightarrow> cx (fp_add m (re l) (re r)) (fp_add m (im l) (im r))
      | SIM_IR_NODE_SUB \<Rightarrow> cx (fp_sub m (re l) (re r)) (fp_sub m (im l) (im r))
      | SIM_IR_NODE_MUL \<Rightarrow>
          cx (fp_sub m (fp_mul m (re l) (re r)) (fp_mul m (im l) (im r)))
             (fp_add m (fp_mul m (re l) (im r)) (fp_mul m (im l) (re r)))
      | SIM_IR_NODE_DIV \<Rightarrow>
          (let denom = fp_add m (fp_mul m (re r) (re r)) (fp_mul m (im r) (im r))
           in cx (fp_div m (fp_add m (fp_mul m (re l) (re r)) (fp_mul m (im l) (im r))) denom)
                 (fp_div m (fp_sub m (fp_mul m (im l) (re r)) (fp_mul m (re l) (im r))) denom))
      | SIM_IR_NODE_POW \<Rightarrow> fp_cpow m l r
      | _ \<Rightarrow> cx 0 0)"

text \<open>A component of a warped value: zero when the sample fails or is not finite.\<close>

definition warp_component :: "SimResult \<times> f64 \<Rightarrow> f64" where
  "warp_component = (\<lambda>(rc, v). if rc = SIM_RESULT_OK \<and> f64_isfinite v then v else f64_zero)"

definition complex_warp :: "warp_sampler \<Rightarrow> SimIRWarp \<Rightarrow> SimComplexDouble \<Rightarrow> SimResult + SimComplexDouble" where
  "complex_warp warp w v =
     (let re_sample = warp w (re v); im_sample = warp w (im v);
          rc = (if fst re_sample \<noteq> SIM_RESULT_OK then fst re_sample else fst im_sample)
      in if rc = SIM_RESULT_OK then Inr (cx (warp_component re_sample) (warp_component im_sample))
         else Inl rc)"

definition complex_constant :: "SimIRBuilder \<Rightarrow> SimIRNode \<Rightarrow> SimIRConstant \<Rightarrow> SimComplexDouble" where
  "complex_constant b node c =
     (if ty_components (nd_value_type node) \<ge> 2 then
        cx (case sim_ir_constant_component b node 0 of None \<Rightarrow> cs_scalar c | Some v \<Rightarrow> v)
           (case sim_ir_constant_component b node 1 of None \<Rightarrow> f64_zero | Some v \<Rightarrow> v)
      else cx (cs_scalar c) f64_zero)"

definition complex_rule ::
  "fpu \<Rightarrow> warp_sampler \<Rightarrow> SimIREvaluatorComplex option \<Rightarrow> SimIRBuilder \<Rightarrow> SimIRNode \<Rightarrow>
   SimComplexDouble node_rule" where
  "complex_rule m warp ev b node =
     (case (nd_type node, nd_data node) of
        (SIM_IR_NODE_CONSTANT, Data_constant c) \<Rightarrow> ([], \<lambda>_. Inr (complex_constant b node c))
      | (SIM_IR_NODE_FIELD_REF, Data_field field) \<Rightarrow>
          ([], \<lambda>_. with_callback (Option.bind ev evc_field_value_c) (\<lambda>f. f field (nd_value_type node)))
      | (SIM_IR_NODE_ADD, Data_binary l r) \<Rightarrow> ([l, r], \<lambda>vs. Inr (complex_binary m SIM_IR_NODE_ADD (vs ! 0) (vs ! 1)))
      | (SIM_IR_NODE_SUB, Data_binary l r) \<Rightarrow> ([l, r], \<lambda>vs. Inr (complex_binary m SIM_IR_NODE_SUB (vs ! 0) (vs ! 1)))
      | (SIM_IR_NODE_MUL, Data_binary l r) \<Rightarrow> ([l, r], \<lambda>vs. Inr (complex_binary m SIM_IR_NODE_MUL (vs ! 0) (vs ! 1)))
      | (SIM_IR_NODE_DIV, Data_binary l r) \<Rightarrow> ([l, r], \<lambda>vs. Inr (complex_binary m SIM_IR_NODE_DIV (vs ! 0) (vs ! 1)))
      | (SIM_IR_NODE_POW, Data_binary l r) \<Rightarrow> ([l, r], \<lambda>vs. Inr (complex_binary m SIM_IR_NODE_POW (vs ! 0) (vs ! 1)))
      | (SIM_IR_NODE_DIFF, Data_diff d) \<Rightarrow>
          ([df_operand d], \<lambda>vs. with_callback (Option.bind ev evc_differential_c)
             (\<lambda>f. f node (df_operand d) (vs ! 0)))
      | (SIM_IR_NODE_NOISE, Data_noise _) \<Rightarrow>
          ([], \<lambda>_. with_callback (Option.bind ev evc_noise_c) (\<lambda>f. f node))
      | (SIM_IR_NODE_WARP, Data_warp w) \<Rightarrow> ([wp_operand w], \<lambda>vs. complex_warp warp w (vs ! 0))
      | (SIM_IR_NODE_PARAM, Data_param param) \<Rightarrow>
          ([], \<lambda>_. with_callback (Option.bind ev evc_param_value)
             (\<lambda>f. case f param of (rc, x) \<Rightarrow> (rc, cx x f64_zero)))
      | (SIM_IR_NODE_COMPLEX_PACK, Data_complex_pack real imag) \<Rightarrow>
          ([real, imag], \<lambda>vs. Inr (cx (re (vs ! 0)) (re (vs ! 1))))
      | (SIM_IR_NODE_COMPLEX_ROTATE, Data_complex_rotate operand angle) \<Rightarrow>
          ([operand, angle], \<lambda>vs.
             let v = vs ! 0; theta = re (vs ! 1); s = fp_sin m theta; c = fp_cos m theta
             in Inr (cx (fp_sub m (fp_mul m (re v) c) (fp_mul m (im v) s))
                        (fp_add m (fp_mul m (re v) s) (fp_mul m (im v) c))))
      | _ \<Rightarrow> ([], \<lambda>_. Inl SIM_RESULT_INVALID_ARGUMENT))"

text \<open>A field reference without a callback returns before the flag of its node is reset.\<close>

definition missing_field_callback :: "SimIREvaluatorComplex option \<Rightarrow> SimIRNode \<Rightarrow> bool" where
  "missing_field_callback ev node \<longleftrightarrow>
     nd_type node = SIM_IR_NODE_FIELD_REF \<and> Option.bind ev evc_field_value_c = None"

definition sim_ir_evaluate_impl_complex ::
  "fpu \<Rightarrow> warp_sampler \<Rightarrow> SimIREvaluatorComplex option \<Rightarrow> SimIRBuilder \<Rightarrow> nat \<Rightarrow>
   SimComplexDouble eval_state \<Rightarrow> SimIRNodeId \<Rightarrow>
   ((SimResult + SimComplexDouble) \<times> SimComplexDouble eval_state) option" where
  "sim_ir_evaluate_impl_complex m warp ev b =
     memo_eval (ir_count b) (\<lambda>i. complex_rule m warp ev b (ir_nodes b ! i))
       (\<lambda>i. missing_field_callback ev (ir_nodes b ! i))"

definition sim_ir_evaluate_complex ::
  "heap \<Rightarrow> fpu \<Rightarrow> warp_sampler \<Rightarrow> SimIRBuilder option \<Rightarrow> SimIRNodeId \<Rightarrow> SimIREvaluatorComplex option \<Rightarrow>
   (SimResult + SimComplexDouble) option" where
  "sim_ir_evaluate_complex heap m warp builder root ev =
     (case builder of
        None \<Rightarrow> Some (Inl SIM_RESULT_INVALID_ARGUMENT)
      | Some b \<Rightarrow>
          if \<not> valid_node b root then Some (Inl SIM_RESULT_INVALID_ARGUMENT)
          else if \<not> calloc_ok heap (ir_count b) 16 \<or> \<not> calloc_ok heap (ir_count b) 1
            then Some (Inl SIM_RESULT_OUT_OF_MEMORY)
          else map_option fst (sim_ir_evaluate_impl_complex m warp ev b (Suc (ir_count b))
                 \<lparr>es_cache = replicate (ir_count b) (cx 0 0), es_flags = replicate (ir_count b) 0\<rparr> root))"

section \<open>Exact integers\<close>

text \<open>
  A value of any domain: the union of the source is 16 bytes, a complex number is both halves, the
  other payloads are the low half.
\<close>

record SimIRDomainValue =
  dv_domain :: SimScalarDomain
  dv_low :: u64
  dv_high :: u64

definition sim_ir_domain_value_zero :: "SimScalarDomain \<Rightarrow> SimIRDomainValue" where
  "sim_ir_domain_value_zero domain = \<lparr>dv_domain = domain, dv_low = 0, dv_high = 0\<rparr>"

definition sim_ir_domain_value_from_integer_raw :: "SimScalarDomain \<Rightarrow> u64 \<Rightarrow> SimIRDomainValue" where
  "sim_ir_domain_value_from_integer_raw domain raw =
     (let raw = sim_ir_integer_truncate raw domain
      in (sim_ir_domain_value_zero domain)\<lparr>dv_low :=
           if sd_is_signed domain then sim_ir_integer_as_i64 raw domain else raw\<rparr>)"

definition sim_ir_domain_value_to_integer_raw :: "SimIRDomainValue \<Rightarrow> SimScalarDomain \<Rightarrow> u64 option" where
  "sim_ir_domain_value_to_integer_raw v expected =
     (if \<not> sim_ir_domain_is_exact_integer expected then None
      else let v = (if sd_kind (dv_domain v) = SIM_SCALAR_DOMAIN_UNKNOWN then v\<lparr>dv_domain := expected\<rparr> else v)
           in if \<not> sim_scalar_domain_equal (dv_domain v) expected then None
              else if sd_is_signed expected then sim_ir_integer_raw_from_signed (dv_low v) expected
              else sim_ir_integer_raw_from_unsigned (dv_low v) expected)"

record SimIREvaluatorDomain =
  evd_field_value :: "(nat \<Rightarrow> SimIRType \<Rightarrow> SimScalarDomain \<Rightarrow> SimResult \<times> SimIRDomainValue) option"
  evd_differential ::
    "(SimIRNode \<Rightarrow> SimIRNodeId \<Rightarrow> SimScalarDomain \<Rightarrow> SimIRDomainValue \<Rightarrow> SimResult \<times> SimIRDomainValue) option"
  evd_noise :: "(SimIRNode \<Rightarrow> SimScalarDomain \<Rightarrow> SimResult \<times> SimIRDomainValue) option"
  evd_param_value :: "(SimIRParamKind \<Rightarrow> SimScalarDomain \<Rightarrow> SimResult \<times> SimIRDomainValue) option"

definition sim_ir_constant_integer_raw :: "(int \<Rightarrow> u64) \<Rightarrow> SimIRNode \<Rightarrow> u64 option" where
  "sim_ir_constant_integer_raw cast node =
     (case (nd_type node, nd_data node) of
        (SIM_IR_NODE_CONSTANT, Data_constant c) \<Rightarrow>
          (let domain = sim_ir_type_scalar_domain (nd_value_type node)
           in if \<not> sim_ir_domain_is_exact_integer domain then None
              else if cs_exact_integer c then Some (sim_ir_integer_truncate (cs_unsigned_scalar c) domain)
              else sim_ir_integer_raw_from_double cast (cs_scalar c) domain)
      | _ \<Rightarrow> None)"

text \<open>The square-and-multiply loop of the power case.\<close>

function pow_loop :: "SimScalarDomain \<Rightarrow> u64 \<Rightarrow> u64 \<Rightarrow> u64 \<Rightarrow> u64" where
  "pow_loop domain exponent base accum =
     (if exponent > 0 then
        let accum = (if exponent AND 1 \<noteq> 0 then sim_ir_integer_truncate (accum * base) domain else accum);
            exponent = drop_bit 1 exponent;
            base = (if exponent > 0 then sim_ir_integer_truncate (base * base) domain else base)
        in pow_loop domain exponent base accum
      else accum)"
  by pat_completeness auto
termination
  by (relation "measure (\<lambda>(domain, exponent, base, accum). unat exponent)")
    (auto simp: drop_bit_eq_div unat_div word_gt_0 unat_gt_0 intro!: div_less_dividend)

declare pow_loop.simps [simp del]

definition integer_division ::
  "SimIRNodeType \<Rightarrow> SimScalarDomain \<Rightarrow> u64 \<Rightarrow> u64 \<Rightarrow> SimResult + u64" where
  "integer_division type domain lhs_raw rhs_raw =
     (if sim_ir_integer_truncate rhs_raw domain = 0 then Inl SIM_RESULT_INVALID_ARGUMENT
      else if sd_is_signed domain then
        let lhs = sint (sim_ir_integer_as_i64 lhs_raw domain);
            rhs = sint (sim_ir_integer_as_i64 rhs_raw domain)
        in if type = SIM_IR_NODE_DIV then
             if lhs = - (2 ^ 63) \<and> rhs = - 1 \<and> sd_bit_width domain = 64
             then Inr (sim_ir_integer_from_i64 (word_of_int (- (2 ^ 63))) domain)
             else Inr (sim_ir_integer_from_i64 (word_of_int (lhs sdiv rhs)) domain)
           else Inr (sim_ir_integer_from_i64 (word_of_int (if rhs = - 1 then 0 else lhs smod rhs)) domain)
      else let lhs = sim_ir_integer_truncate lhs_raw domain;
               rhs = sim_ir_integer_truncate rhs_raw domain
           in Inr (if type = SIM_IR_NODE_DIV then lhs div rhs else lhs mod rhs))"

definition integer_power :: "SimScalarDomain \<Rightarrow> u64 \<Rightarrow> u64 \<Rightarrow> SimResult + u64" where
  "integer_power domain lhs_raw rhs_raw =
     (let base = sim_ir_integer_truncate lhs_raw domain;
          accum = sim_ir_integer_truncate 1 domain
      in if sd_is_signed domain then
           let signed_exp = sim_ir_integer_as_i64 rhs_raw domain
           in if sint signed_exp < 0 then Inl SIM_RESULT_INVALID_ARGUMENT
              else Inr (pow_loop domain signed_exp base accum)
         else Inr (pow_loop domain (sim_ir_integer_truncate rhs_raw domain) base accum))"

definition integer_binary ::
  "SimIRNodeType \<Rightarrow> SimScalarDomain \<Rightarrow> u64 \<Rightarrow> u64 \<Rightarrow> SimResult + u64" where
  "integer_binary type domain lhs_raw rhs_raw =
     (case type of
        SIM_IR_NODE_ADD \<Rightarrow> Inr (sim_ir_integer_truncate (lhs_raw + rhs_raw) domain)
      | SIM_IR_NODE_SUB \<Rightarrow> Inr (sim_ir_integer_truncate (lhs_raw - rhs_raw) domain)
      | SIM_IR_NODE_MUL \<Rightarrow> Inr (sim_ir_integer_truncate (lhs_raw * rhs_raw) domain)
      | SIM_IR_NODE_POW \<Rightarrow> integer_power domain lhs_raw rhs_raw
      | _ \<Rightarrow> integer_division type domain lhs_raw rhs_raw)"

text \<open>A value a callback produced, as the raw bits of the node's domain.\<close>

definition callback_raw :: "SimScalarDomain \<Rightarrow> SimResult + SimIRDomainValue \<Rightarrow> SimResult + u64" where
  "callback_raw domain r =
     (case r of
        Inl e \<Rightarrow> Inl e
      | Inr v \<Rightarrow> (case sim_ir_domain_value_to_integer_raw v domain of
                    None \<Rightarrow> Inl SIM_RESULT_TYPE_MISMATCH | Some raw \<Rightarrow> Inr raw))"

definition integer_step ::
  "(int \<Rightarrow> u64) \<Rightarrow> SimIREvaluatorDomain option \<Rightarrow> SimIRNode \<Rightarrow> u64 node_rule" where
  "integer_step cast ev node =
     (let domain = sim_ir_type_scalar_domain (nd_value_type node)
      in case (nd_type node, nd_data node) of
        (SIM_IR_NODE_CONSTANT, Data_constant c) \<Rightarrow>
          ([], \<lambda>_. case sim_ir_constant_integer_raw cast node of
                    None \<Rightarrow> Inl SIM_RESULT_INVALID_ARGUMENT | Some raw \<Rightarrow> Inr raw)
      | (SIM_IR_NODE_FIELD_REF, Data_field field) \<Rightarrow>
          ([], \<lambda>_. callback_raw domain
             (with_callback (Option.bind ev evd_field_value) (\<lambda>f. f field (nd_value_type node) domain)))
      | (SIM_IR_NODE_ADD, Data_binary l r) \<Rightarrow> ([l, r], \<lambda>vs. integer_binary SIM_IR_NODE_ADD domain (vs ! 0) (vs ! 1))
      | (SIM_IR_NODE_SUB, Data_binary l r) \<Rightarrow> ([l, r], \<lambda>vs. integer_binary SIM_IR_NODE_SUB domain (vs ! 0) (vs ! 1))
      | (SIM_IR_NODE_MUL, Data_binary l r) \<Rightarrow> ([l, r], \<lambda>vs. integer_binary SIM_IR_NODE_MUL domain (vs ! 0) (vs ! 1))
      | (SIM_IR_NODE_DIV, Data_binary l r) \<Rightarrow> ([l, r], \<lambda>vs. integer_binary SIM_IR_NODE_DIV domain (vs ! 0) (vs ! 1))
      | (SIM_IR_NODE_MOD, Data_binary l r) \<Rightarrow> ([l, r], \<lambda>vs. integer_binary SIM_IR_NODE_MOD domain (vs ! 0) (vs ! 1))
      | (SIM_IR_NODE_POW, Data_binary l r) \<Rightarrow> ([l, r], \<lambda>vs. integer_binary SIM_IR_NODE_POW domain (vs ! 0) (vs ! 1))
      | (SIM_IR_NODE_FLOOR, Data_unary operand) \<Rightarrow> ([operand], \<lambda>vs. Inr (vs ! 0))
      | (SIM_IR_NODE_PARAM, Data_param param) \<Rightarrow>
          ([], \<lambda>_. callback_raw domain
             (with_callback (Option.bind ev evd_param_value) (\<lambda>f. f param domain)))
      | _ \<Rightarrow> ([], \<lambda>_. Inl SIM_RESULT_INVALID_ARGUMENT))"

text \<open>The type check before the switch, and the truncation of the result at \<^verbatim>\<open>done\<close>.\<close>

definition integer_rule ::
  "(int \<Rightarrow> u64) \<Rightarrow> SimIREvaluatorDomain option \<Rightarrow> SimIRNode \<Rightarrow> u64 node_rule" where
  "integer_rule cast ev node =
     (let domain = sim_ir_type_scalar_domain (nd_value_type node)
      in if \<not> sim_ir_type_is_scalar (nd_value_type node) \<or> \<not> sim_ir_domain_is_exact_integer domain
         then ([], \<lambda>_. Inl SIM_RESULT_INVALID_ARGUMENT)
         else (fst (integer_step cast ev node),
               \<lambda>vs. case snd (integer_step cast ev node) vs of
                      Inl e \<Rightarrow> Inl e | Inr raw \<Rightarrow> Inr (sim_ir_integer_truncate raw domain)))"

definition sim_ir_evaluate_impl_integer ::
  "(int \<Rightarrow> u64) \<Rightarrow> SimIREvaluatorDomain option \<Rightarrow> SimIRBuilder \<Rightarrow> nat \<Rightarrow> u64 eval_state \<Rightarrow> SimIRNodeId \<Rightarrow>
   ((SimResult + u64) \<times> u64 eval_state) option" where
  "sim_ir_evaluate_impl_integer cast ev b =
     memo_eval (ir_count b) (\<lambda>i. integer_rule cast ev (ir_nodes b ! i)) (\<lambda>_. False)"

section \<open>Values of any domain\<close>

text \<open>
  The adapters that present a domain-aware evaluator to the real and the complex one. A callback that
  left the domain of its value unknown is taken to have meant the requested one.
\<close>

definition adopt_domain :: "SimScalarDomain \<Rightarrow> SimIRDomainValue \<Rightarrow> SimIRDomainValue" where
  "adopt_domain domain v =
     (if sd_kind (dv_domain v) = SIM_SCALAR_DOMAIN_UNKNOWN then v\<lparr>dv_domain := domain\<rparr> else v)"

definition adapt_real :: "SimScalarDomain \<Rightarrow> SimResult \<times> SimIRDomainValue \<Rightarrow> SimResult \<times> f64" where
  "adapt_real domain = (\<lambda>(rc, v).
     if rc \<noteq> SIM_RESULT_OK then (rc, 0)
     else let v = adopt_domain domain v
          in if \<not> sim_scalar_domain_equal (dv_domain v) domain \<or> sim_scalar_domain_is_complex domain \<or>
                sim_ir_domain_is_exact_integer domain
             then (SIM_RESULT_TYPE_MISMATCH, 0) else (SIM_RESULT_OK, dv_low v))"

definition adapt_complex :: "SimScalarDomain \<Rightarrow> SimResult \<times> SimIRDomainValue \<Rightarrow> SimResult \<times> SimComplexDouble" where
  "adapt_complex domain = (\<lambda>(rc, v).
     if rc \<noteq> SIM_RESULT_OK then (rc, cx 0 0)
     else let v = adopt_domain domain v
          in if \<not> sim_scalar_domain_equal (dv_domain v) domain then (SIM_RESULT_TYPE_MISMATCH, cx 0 0)
             else (SIM_RESULT_OK, cx (dv_low v) (dv_high v)))"

definition missing_callback :: "'c option \<Rightarrow> 'v \<Rightarrow> ('c \<Rightarrow> SimResult \<times> 'v) \<Rightarrow> SimResult \<times> 'v" where
  "missing_callback cb dflt run = (case cb of None \<Rightarrow> (SIM_RESULT_NOT_FOUND, dflt) | Some f \<Rightarrow> run f)"

definition sim_ir_eval_domain_field_real :: "SimIREvaluatorDomain \<Rightarrow> nat \<Rightarrow> SimIRType \<Rightarrow> SimResult \<times> f64" where
  "sim_ir_eval_domain_field_real ev field_id t =
     (let domain = sim_ir_type_scalar_domain t
      in missing_callback (evd_field_value ev) 0 (\<lambda>f. adapt_real domain (f field_id t domain)))"

definition sim_ir_eval_domain_diff_real ::
  "SimIREvaluatorDomain \<Rightarrow> SimIRNode \<Rightarrow> SimIRNodeId \<Rightarrow> f64 \<Rightarrow> SimResult \<times> f64" where
  "sim_ir_eval_domain_diff_real ev node operand operand_value =
     (let domain = sim_ir_type_scalar_domain (nd_value_type node)
      in missing_callback (evd_differential ev) 0 (\<lambda>f. adapt_real domain
           (f node operand domain \<lparr>dv_domain = domain, dv_low = operand_value, dv_high = 0\<rparr>)))"

definition sim_ir_eval_domain_noise_real :: "SimIREvaluatorDomain \<Rightarrow> SimIRNode \<Rightarrow> SimResult \<times> f64" where
  "sim_ir_eval_domain_noise_real ev node =
     (let domain = sim_ir_type_scalar_domain (nd_value_type node)
      in missing_callback (evd_noise ev) 0 (\<lambda>f. adapt_real domain (f node domain)))"

definition sim_ir_eval_domain_param_real :: "SimIREvaluatorDomain \<Rightarrow> SimIRParamKind \<Rightarrow> SimResult \<times> f64" where
  "sim_ir_eval_domain_param_real ev param =
     missing_callback (evd_param_value ev) 0
       (\<lambda>f. adapt_real sim_scalar_domain_f64 (f param sim_scalar_domain_f64))"

definition sim_ir_eval_domain_field_complex ::
  "SimIREvaluatorDomain \<Rightarrow> nat \<Rightarrow> SimIRType \<Rightarrow> SimResult \<times> SimComplexDouble" where
  "sim_ir_eval_domain_field_complex ev field_id t =
     (let domain = sim_ir_type_scalar_domain t
      in missing_callback (evd_field_value ev) (cx 0 0) (\<lambda>f. adapt_complex domain (f field_id t domain)))"

definition sim_ir_eval_domain_diff_complex ::
  "SimIREvaluatorDomain \<Rightarrow> SimIRNode \<Rightarrow> SimIRNodeId \<Rightarrow> SimComplexDouble \<Rightarrow> SimResult \<times> SimComplexDouble" where
  "sim_ir_eval_domain_diff_complex ev node operand v =
     (let domain = sim_ir_type_scalar_domain (nd_value_type node)
      in missing_callback (evd_differential ev) (cx 0 0) (\<lambda>f. adapt_complex domain
           (f node operand domain \<lparr>dv_domain = domain, dv_low = re v, dv_high = im v\<rparr>)))"

definition sim_ir_eval_domain_noise_complex ::
  "SimIREvaluatorDomain \<Rightarrow> SimIRNode \<Rightarrow> SimResult \<times> SimComplexDouble" where
  "sim_ir_eval_domain_noise_complex ev node =
     (let domain = sim_ir_type_scalar_domain (nd_value_type node)
      in missing_callback (evd_noise ev) (cx 0 0) (\<lambda>f. adapt_complex domain (f node domain)))"

definition sim_ir_eval_domain_param_complex ::
  "SimIREvaluatorDomain \<Rightarrow> SimIRParamKind \<Rightarrow> SimResult \<times> f64" where
  "sim_ir_eval_domain_param_complex ev param =
     missing_callback (evd_param_value ev) 0 (\<lambda>f.
       case f param sim_scalar_domain_f64 of (rc, v) \<Rightarrow>
         if rc \<noteq> SIM_RESULT_OK then (rc, 0)
         else let v = adopt_domain sim_scalar_domain_f64 v
              in if \<not> sim_scalar_domain_equal (dv_domain v) sim_scalar_domain_f64
                 then (SIM_RESULT_TYPE_MISMATCH, 0) else (SIM_RESULT_OK, dv_low v))"

definition real_adapter :: "SimIREvaluatorDomain \<Rightarrow> SimIREvaluator" where
  "real_adapter ev =
     \<lparr>ev_field_value = Some (sim_ir_eval_domain_field_real ev),
      ev_differential = Some (sim_ir_eval_domain_diff_real ev),
      ev_noise = Some (sim_ir_eval_domain_noise_real ev),
      ev_param_value = Some (sim_ir_eval_domain_param_real ev)\<rparr>"

definition complex_adapter :: "SimIREvaluatorDomain \<Rightarrow> SimIREvaluatorComplex" where
  "complex_adapter ev =
     \<lparr>evc_field_value_c = Some (sim_ir_eval_domain_field_complex ev),
      evc_differential_c = Some (sim_ir_eval_domain_diff_complex ev),
      evc_noise_c = Some (sim_ir_eval_domain_noise_complex ev),
      evc_param_value = Some (sim_ir_eval_domain_param_complex ev)\<rparr>"

text \<open>The result code and what the call stored in \<^verbatim>\<open>*out_value\<close>.\<close>

definition sim_ir_evaluate_domain ::
  "heap \<Rightarrow> fpu \<Rightarrow> warp_sampler \<Rightarrow> (int \<Rightarrow> u64) \<Rightarrow> SimIRBuilder option \<Rightarrow> SimIRNodeId \<Rightarrow>
   SimIREvaluatorDomain option \<Rightarrow> (SimResult \<times> SimIRDomainValue) option" where
  "sim_ir_evaluate_domain heap m warp cast builder root ev =
     (case builder of
        None \<Rightarrow> Some (SIM_RESULT_INVALID_ARGUMENT, sim_ir_domain_value_zero sim_scalar_domain_unknown)
      | Some b \<Rightarrow>
          if \<not> valid_node b root
          then Some (SIM_RESULT_INVALID_ARGUMENT, sim_ir_domain_value_zero sim_scalar_domain_unknown)
          else let root_type = sim_ir_type_normalize (nd_value_type (ir_nodes b ! root));
                   domain = sim_ir_type_scalar_domain root_type;
                   failed = (\<lambda>rc. (rc, sim_ir_domain_value_zero domain))
               in if \<not> sim_ir_type_is_scalar root_type \<and> \<not> sim_scalar_domain_is_complex domain
                  then Some (SIM_RESULT_INVALID_ARGUMENT, sim_ir_domain_value_zero sim_scalar_domain_unknown)
                  else if sim_ir_domain_is_exact_integer domain then
                    if \<not> calloc_ok heap (ir_count b) 8 \<or> \<not> calloc_ok heap (ir_count b) 1
                    then Some (failed SIM_RESULT_OUT_OF_MEMORY)
                    else map_option (\<lambda>(r, _). case r of
                             Inl e \<Rightarrow> failed e
                           | Inr raw \<Rightarrow> (SIM_RESULT_OK, sim_ir_domain_value_from_integer_raw domain raw))
                           (sim_ir_evaluate_impl_integer cast ev b (Suc (ir_count b))
                             \<lparr>es_cache = replicate (ir_count b) 0, es_flags = replicate (ir_count b) 0\<rparr> root)
                  else if sim_scalar_domain_is_complex domain then
                    map_option (\<lambda>r. case r of
                        Inl e \<Rightarrow> failed e
                      | Inr v \<Rightarrow> (SIM_RESULT_OK, \<lparr>dv_domain = domain, dv_low = re v, dv_high = im v\<rparr>))
                      (sim_ir_evaluate_complex heap m warp builder root (map_option complex_adapter ev))
                  else
                    map_option (\<lambda>r. case r of
                        Inl e \<Rightarrow> failed e
                      | Inr v \<Rightarrow> (SIM_RESULT_OK, \<lparr>dv_domain = domain, dv_low = v, dv_high = 0\<rparr>))
                      (sim_ir_evaluate heap m warp builder root (map_option real_adapter ev)))"

end
