(* ===== verification/IR_Integer.thy ===== *)
theory IR_Integer
  imports IR_Correct Kernel_IR_Eval
begin

text \<open>
  The exact integers of the kernel representation. A raw 64-bit pattern of an integer domain stands for
  an integer; the operations of the integer evaluator are arithmetic on these integers reduced to the
  range of the domain, with the truncating division of C.
\<close>

unbundle bit_operations_syntax

section \<open>Patterns and integers\<close>

definition int_width :: "SimScalarDomain \<Rightarrow> nat" where
  "int_width d = unat (sd_bit_width d)"

definition integer_domain :: "SimScalarDomain \<Rightarrow> bool" where
  "integer_domain d \<longleftrightarrow> sim_scalar_domain_validate d \<and> sim_ir_domain_is_exact_integer d"

text \<open>The representative of an integer in the range of the domain, and the integer of a pattern.\<close>

definition int_wrap :: "SimScalarDomain \<Rightarrow> int \<Rightarrow> int" where
  "int_wrap d z = (if sd_is_signed d then signed_take_bit (int_width d - 1) z else take_bit (int_width d) z)"

definition int_value :: "SimScalarDomain \<Rightarrow> u64 \<Rightarrow> int" where
  "int_value d raw =
     (if sd_is_signed d then sint (sim_ir_integer_as_i64 raw d) else uint (sim_ir_integer_truncate raw d))"

lemma integer_domain_cases:
  assumes "integer_domain d"
  obtains "sd_bit_width d = 8" | "sd_bit_width d = 32" | "sd_bit_width d = 64"
  using assms
  by (auto simp: integer_domain_def sim_scalar_domain_validate_def sim_ir_domain_is_exact_integer_def
      sim_scalar_domain_is_integer_def)

lemma int_width_bounds:
  assumes "integer_domain d"
  shows "0 < int_width d" "int_width d \<le> 64"
  using assms by (cases rule: integer_domain_cases; simp add: int_width_def)+

lemma take_bit_full: "take_bit 64 (w :: u64) = w"
  by (rule bit_word_eqI) (simp add: bit_take_bit_iff)

lemma truncate_take_bit:
  assumes "integer_domain d"
  shows "sim_ir_integer_truncate raw d = take_bit (int_width d) raw"
proof (cases "sd_bit_width d \<ge> 64")
  case True
  with assms have "int_width d = 64" by (cases rule: integer_domain_cases) (simp_all add: int_width_def)
  then show ?thesis using True by (simp add: sim_ir_integer_truncate_def take_bit_full)
next
  case False
  then show ?thesis
    by (simp add: sim_ir_integer_truncate_def sim_ir_integer_mask_def int_width_def take_bit_eq_mask mask_eq_exp_minus_1
      push_bit_eq_mult)
qed

lemma sint_sign_extend:
  assumes "0 < n" "n < 64"
  shows "sint (if bit (raw :: u64) (n - 1) then take_bit n raw OR NOT (Bit_Operations.mask n) else take_bit n raw) =
    signed_take_bit (n - 1) (uint raw)"
proof (rule bit_eqI)
  fix k
  have "k < n \<longleftrightarrow> k \<le> n - 1" using assms(1) by linarith
  then show "bit (sint (if bit raw (n - 1) then take_bit n raw OR NOT (Bit_Operations.mask n) else take_bit n raw)) k =
      bit (signed_take_bit (n - 1) (uint raw)) k"
    using assms
    by (cases "k < 64")
      (auto simp: bit_sint_iff bit_signed_take_bit_iff bit_uint_iff bit_take_bit_iff bit_or_iff bit_not_iff bit_mask_iff
        min_def not_less)
qed

lemma as_i64_sint:
  assumes "integer_domain d" "sd_is_signed d"
  shows "sint (sim_ir_integer_as_i64 raw d) = signed_take_bit (int_width d - 1) (uint raw)"
proof (cases "sd_bit_width d \<ge> 64")
  case True
  with assms(1) have "int_width d = 64" by (cases rule: integer_domain_cases) (simp_all add: int_width_def)
  then show ?thesis using True assms by (simp add: sim_ir_integer_as_i64_def sim_ir_integer_truncate_def sint_uint)
next
  case False
  let ?n = "int_width d"
  from assms(1) have "0 < ?n \<and> ?n < 64 \<and> unat (sd_bit_width d - 1) = ?n - 1"
    by (cases rule: integer_domain_cases) (use False in \<open>simp_all add: int_width_def\<close>)
  then have n: "0 < ?n" "?n < 64" "unat (sd_bit_width d - 1) = ?n - 1" by simp_all
  have bits: "sim_ir_integer_mask d = Bit_Operations.mask ?n"
    using False by (simp add: sim_ir_integer_mask_def int_width_def mask_eq_exp_minus_1 push_bit_eq_mult)
  have "take_bit ?n raw AND push_bit (?n - 1) 1 \<noteq> 0 \<longleftrightarrow> bit raw (?n - 1)"
    using n by (simp add: push_bit_eq_mult and_exp_eq_0_iff_not_bit bit_take_bit_iff)
  then show ?thesis
    using sint_sign_extend [of ?n raw] n False assms bits truncate_take_bit [OF assms(1)]
    by (simp add: sim_ir_integer_as_i64_def Let_def)
qed

lemma int_value_wrap:
  assumes "integer_domain d"
  shows "int_value d raw = int_wrap d (uint raw)"
  using as_i64_sint [OF assms] truncate_take_bit [OF assms]
  by (simp add: int_value_def int_wrap_def unsigned_take_bit_eq)

lemma int_wrap_eq_iff:
  assumes "integer_domain d"
  shows "int_wrap d a = int_wrap d b \<longleftrightarrow> take_bit (int_width d) a = take_bit (int_width d) b"
  using int_width_bounds [OF assms] by (simp add: int_wrap_def signed_take_bit_eq_iff_take_bit_eq)

lemma take_bit_int_value:
  assumes "integer_domain d"
  shows "take_bit (int_width d) (int_value d raw) = take_bit (int_width d) (uint raw)"
  using int_width_bounds [OF assms] by (simp add: int_value_wrap [OF assms] int_wrap_def take_bit_signed_take_bit)

lemma int_value_truncate [simp]:
  assumes "integer_domain d"
  shows "int_value d (sim_ir_integer_truncate raw d) = int_value d raw"
  using assms by (simp add: int_value_wrap int_wrap_eq_iff truncate_take_bit unsigned_take_bit_eq)

text \<open>What a word computes modulo its width determines the value of the truncated result.\<close>

lemma int_value_congr:
  assumes "integer_domain d" "take_bit (int_width d) (uint raw) = take_bit (int_width d) z"
  shows "int_value d raw = int_wrap d z"
  using assms by (simp add: int_value_wrap int_wrap_eq_iff)

lemma take_bit_uint_word_of_int:
  assumes "n \<le> 64"
  shows "take_bit n (uint (word_of_int z :: u64)) = take_bit n z"
  using assms by (simp add: unsigned_of_int min_def)

lemma take_bit_uint_arith:
  assumes "n \<le> 64"
  shows "take_bit n (uint ((x :: u64) + y)) = take_bit n (uint x + uint y)"
    "take_bit n (uint (x - y)) = take_bit n (uint x - uint y)"
    "take_bit n (uint (x * y)) = take_bit n (uint x * uint y)"
proof -
  show "take_bit n (uint (x + y)) = take_bit n (uint x + uint y)"
    using take_bit_uint_word_of_int [OF assms, of "uint x + uint y"] by (simp only: of_int_add word_of_int_uint)
  show "take_bit n (uint (x - y)) = take_bit n (uint x - uint y)"
    using take_bit_uint_word_of_int [OF assms, of "uint x - uint y"] by (simp only: of_int_diff word_of_int_uint)
  show "take_bit n (uint (x * y)) = take_bit n (uint x * uint y)"
    using take_bit_uint_word_of_int [OF assms, of "uint x * uint y"] by (simp only: of_int_mult word_of_int_uint)
qed

lemma take_bit_cong_mult:
  "take_bit n a = take_bit n a' \<Longrightarrow> take_bit n c = take_bit n c' \<Longrightarrow> take_bit n (a * c) = take_bit n (a' * c')"
  for a a' c c' :: int
  using take_bit_mult [of n a c] take_bit_mult [of n a' c'] by simp

lemma take_bit_cong_power: "take_bit n a = take_bit n a' \<Longrightarrow> take_bit n (a ^ k) = take_bit n (a' ^ k)"
  for a a' :: int
  by (induction k) (simp, unfold power_Suc, rule take_bit_cong_mult, assumption, simp)

section \<open>The power loop\<close>

lemma pow_loop_mod:
  assumes "integer_domain d"
  shows "take_bit (int_width d) (uint (pow_loop d e x acc)) =
    take_bit (int_width d) (uint acc * uint x ^ unat e)"
  using assms
proof (induction d e x acc rule: pow_loop.induct)
  case (1 d e x acc)
  let ?n = "int_width d" and ?tr = "\<lambda>w. sim_ir_integer_truncate w d"
  have tr: "take_bit ?n (uint (?tr (u * v))) = take_bit ?n (uint u * uint v)" for u v
    using int_width_bounds(2) [OF 1(2)] take_bit_uint_arith(3) [of ?n u v]
    by (simp add: truncate_take_bit [OF 1(2)] unsigned_take_bit_eq)
  show ?case
  proof (cases "0 < e")
    case True
    define acc' where "acc' = (if e AND 1 \<noteq> 0 then ?tr (acc * x) else acc)"
    define e' where "e' = drop_bit 1 e"
    define x' where "x' = (if 0 < e' then ?tr (x * x) else x)"
    have half: "unat e' = unat e div 2" by (simp add: e'_def drop_bit_eq_div unat_div)
    have odd: "e AND 1 \<noteq> 0 \<longleftrightarrow> odd (unat e)" by (simp add: and_one_eq unat_mod odd_iff_mod_2_eq_one word_unat_eq_iff)
    have acc: "take_bit ?n (uint acc') = take_bit ?n (uint acc * uint x ^ (unat e mod 2))"
      using tr [of acc x] odd by (auto simp: acc'_def odd_iff_mod_2_eq_one)
    have x: "take_bit ?n (uint x' ^ unat e') = take_bit ?n ((uint x * uint x) ^ unat e')"
    proof (cases "0 < e'")
      case True
      then show ?thesis using tr [of x x] by (intro take_bit_cong_power) (simp add: x'_def)
    qed (simp add: word_gt_0)
    have "pow_loop d e x acc = pow_loop d e' x' acc'"
      by (subst pow_loop.simps) (simp add: True Let_def acc'_def x'_def e'_def)
    then have "take_bit ?n (uint (pow_loop d e x acc)) = take_bit ?n (uint acc' * uint x' ^ unat e')"
      using "1.IH" [OF True acc'_def e'_def x'_def 1(2)] by simp
    also have "\<dots> = take_bit ?n (uint acc * uint x ^ (unat e mod 2) * (uint x * uint x) ^ unat e')"
      by (rule take_bit_cong_mult [OF acc x])
    also have "uint acc * uint x ^ (unat e mod 2) * (uint x * uint x) ^ unat e' = uint acc * uint x ^ unat e"
      by (simp add: half mult.assoc flip: power2_eq_square power_mult power_add)
    finally show ?thesis .
  qed (simp add: pow_loop.simps [of d 0] word_gt_0)
qed

section \<open>The operations\<close>

text \<open>The operations on integers that the node kinds stand for.\<close>

definition int_operation :: "SimIRNodeType \<Rightarrow> SimScalarDomain \<Rightarrow> int \<Rightarrow> int \<Rightarrow> SimResult + int" where
  "int_operation type d x y =
     (case type of
        SIM_IR_NODE_ADD \<Rightarrow> Inr (int_wrap d (x + y))
      | SIM_IR_NODE_SUB \<Rightarrow> Inr (int_wrap d (x - y))
      | SIM_IR_NODE_MUL \<Rightarrow> Inr (int_wrap d (x * y))
      | SIM_IR_NODE_POW \<Rightarrow> if y < 0 then Inl SIM_RESULT_INVALID_ARGUMENT else Inr (int_wrap d (x ^ nat y))
      | SIM_IR_NODE_DIV \<Rightarrow> if y = 0 then Inl SIM_RESULT_INVALID_ARGUMENT else Inr (int_wrap d (x sdiv y))
      | _ \<Rightarrow> if y = 0 then Inl SIM_RESULT_INVALID_ARGUMENT else Inr (x smod y))"

lemma nonzero_iff:
  assumes "integer_domain d"
  shows "sim_ir_integer_truncate raw d = 0 \<longleftrightarrow> int_value d raw = 0"
proof -
  have "int_value d raw = 0 \<longleftrightarrow> int_wrap d (uint raw) = int_wrap d 0"
    by (simp add: int_value_wrap [OF assms]) (simp add: int_wrap_def)
  also have "\<dots> \<longleftrightarrow> take_bit (int_width d) raw = 0"
    using int_wrap_eq_iff [OF assms] by (simp add: word_uint_eq_iff unsigned_take_bit_eq)
  finally show ?thesis by (simp add: truncate_take_bit [OF assms])
qed

lemma int_value_of_int:
  assumes "integer_domain d"
  shows "int_value d (word_of_int z) = int_wrap d z"
  by (rule int_value_congr [OF assms], rule take_bit_uint_word_of_int, rule int_width_bounds(2) [OF assms])

lemma int_value_arith:
  assumes "integer_domain d"
  shows "int_value d (x + y) = int_wrap d (int_value d x + int_value d y)"
    "int_value d (x - y) = int_wrap d (int_value d x - int_value d y)"
    "int_value d (x * y) = int_wrap d (int_value d x * int_value d y)"
proof -
  let ?n = "int_width d"
  note tb = take_bit_int_value [OF assms] and n = int_width_bounds(2) [OF assms]
  have "take_bit ?n (int_value d x + int_value d y) = take_bit ?n (uint x + uint y)"
    using take_bit_add [of ?n "int_value d x" "int_value d y"] take_bit_add [of ?n "uint x" "uint y"] tb by simp
  then show "int_value d (x + y) = int_wrap d (int_value d x + int_value d y)"
    by (intro int_value_congr [OF assms]) (simp add: take_bit_uint_arith(1) [OF n])
  have "take_bit ?n (int_value d x - int_value d y) = take_bit ?n (uint x - uint y)"
    using take_bit_diff [of ?n "int_value d x" "int_value d y"] take_bit_diff [of ?n "uint x" "uint y"] tb by simp
  then show "int_value d (x - y) = int_wrap d (int_value d x - int_value d y)"
    by (intro int_value_congr [OF assms]) (simp add: take_bit_uint_arith(2) [OF n])
  have "take_bit ?n (int_value d x * int_value d y) = take_bit ?n (uint x * uint y)"
    by (rule take_bit_cong_mult [OF tb tb])
  then show "int_value d (x * y) = int_wrap d (int_value d x * int_value d y)"
    by (intro int_value_congr [OF assms]) (simp add: take_bit_uint_arith(3) [OF n])
qed

lemma int_wrap_in_range:
  assumes "integer_domain d"
    and "if sd_is_signed d then - (2 ^ (int_width d - 1)) \<le> z \<and> z < 2 ^ (int_width d - 1) else 0 \<le> z \<and> z < 2 ^ int_width d"
  shows "int_wrap d z = z"
  using assms(2) by (auto simp: int_wrap_def signed_take_bit_int_eq_self take_bit_int_eq_self split: if_splits)

lemma int_value_range:
  assumes "integer_domain d"
  shows "if sd_is_signed d then - (2 ^ (int_width d - 1)) \<le> int_value d raw \<and> int_value d raw < 2 ^ (int_width d - 1)
    else 0 \<le> int_value d raw \<and> int_value d raw < 2 ^ int_width d"
  by (simp add: int_value_wrap [OF assms] int_wrap_def signed_take_bit_int_greater_eq_minus_exp signed_take_bit_int_less_exp)

lemma power_exact:
  assumes "integer_domain d"
  shows "map_sum id (int_value d) (integer_power d x y) =
    int_operation SIM_IR_NODE_POW d (int_value d x) (int_value d y)"
proof -
  let ?n = "int_width d"
  have loop: "int_value d (pow_loop d e (sim_ir_integer_truncate x d) (sim_ir_integer_truncate 1 d)) =
      int_wrap d (int_value d x ^ unat e)" for e
  proof (rule int_value_congr [OF assms], unfold pow_loop_mod [OF assms])
    have base: "take_bit ?n (uint (sim_ir_integer_truncate x d)) = take_bit ?n (int_value d x)"
      by (simp add: truncate_take_bit [OF assms] unsigned_take_bit_eq take_bit_int_value [OF assms])
    have one: "take_bit ?n (uint (sim_ir_integer_truncate 1 d)) = take_bit ?n 1"
      by (simp add: truncate_take_bit [OF assms] unsigned_take_bit_eq)
    show "take_bit ?n (uint (sim_ir_integer_truncate 1 d) * uint (sim_ir_integer_truncate x d) ^ unat e) =
        take_bit ?n (int_value d x ^ unat e)"
      using take_bit_cong_mult [OF one take_bit_cong_power [OF base, of "unat e"]] by simp
  qed
  show ?thesis
  proof (cases "sd_is_signed d")
    case True
    let ?e = "sim_ir_integer_as_i64 y d"
    have "int_value d y = sint ?e" using True by (simp add: int_value_def)
    moreover have "unat ?e = nat (sint ?e)" if "0 \<le> sint ?e"
      using that sint_lt [of ?e] by (simp add: uint_sint take_bit_int_eq_self flip: nat_uint_eq)
    ultimately show ?thesis using loop [of ?e] True by (simp add: integer_power_def int_operation_def Let_def)
  next
    case False
    let ?e = "sim_ir_integer_truncate y d"
    have "int_value d y = uint ?e" using False by (simp add: int_value_def)
    then show ?thesis using loop [of ?e] False
      by (simp add: integer_power_def int_operation_def Let_def flip: nat_uint_eq)
  qed
qed

lemma division_exact:
  assumes "integer_domain d" "type \<in> {SIM_IR_NODE_DIV, SIM_IR_NODE_MOD}"
  shows "map_sum id (int_value d) (integer_division type d x y) = int_operation type d (int_value d x) (int_value d y)"
proof (cases "int_value d y = 0")
  case True
  then show ?thesis using assms(2)
    by (auto simp: integer_division_def int_operation_def nonzero_iff [OF assms(1)])
next
  case nz: False
  let ?x = "int_value d x" and ?y = "int_value d y"
  note range = int_value_range [OF assms(1)]
  show ?thesis
  proof (cases "sd_is_signed d")
    case True
    have v: "sint (sim_ir_integer_as_i64 x d) = ?x" "sint (sim_ir_integer_as_i64 y d) = ?y"
      using True by (simp_all add: int_value_def)
    have overflow: "int_wrap d (- (2 ^ 63)) = int_wrap d (2 ^ 63)" if "sd_bit_width d = 64"
      unfolding int_wrap_eq_iff [OF assms(1)] by (simp add: int_width_def that take_bit_eq_mod)
    have zero: "int_wrap d 0 = 0" "z smod 1 = 0" for z :: int by (simp_all add: int_wrap_def smod_int_alt_def)
    have least: "int_value d (- 9223372036854775808) = int_wrap d (- (2 ^ 63))"
      using int_value_of_int [OF assms(1), of "- (2 ^ 63)"] by simp
    have smod: "int_wrap d (?x smod ?y) = ?x smod ?y"
      using smod_int_range [OF nz, of ?x] range [of y] True by (intro int_wrap_in_range [OF assms(1)]) auto
    show ?thesis using assms nz True overflow smod
      by (auto simp: zero least integer_division_def int_operation_def nonzero_iff [OF assms(1)] v int_value_of_int [OF assms(1)]
          sim_ir_integer_from_i64_def Let_def)
  next
    case False
    let ?l = "sim_ir_integer_truncate x d" and ?r = "sim_ir_integer_truncate y d"
    have v: "uint ?l = ?x" "uint ?r = ?y" using False by (simp_all add: int_value_def)
    have pos: "0 \<le> ?x" "0 \<le> ?y" using range False by simp_all
    have div: "int_value d (?l div ?r) = int_wrap d (?x sdiv ?y)"
    proof -
      have "?x sdiv ?y = ?x div ?y"
        using pos by (cases "?x = 0"; cases "?y = 0"; simp add: signed_divide_int_def)
      then show ?thesis by (simp add: int_value_wrap [OF assms(1), of "?l div ?r"] uint_div v)
    qed
    have mod: "int_value d (?l mod ?r) = ?x smod ?y"
    proof -
      have "int_wrap d (?x mod ?y) = ?x mod ?y"
        using pos nz range [of y] False
        by (intro int_wrap_in_range [OF assms(1)]) (simp add: order.strict_trans [OF pos_mod_bound])
      then show ?thesis using pos
        by (simp add: int_value_wrap [OF assms(1), of "?l mod ?r"] uint_mod v smod_mod_positive)
    qed
    show ?thesis using assms nz False div mod
      by (auto simp: integer_division_def int_operation_def nonzero_iff [OF assms(1)] Let_def)
  qed
qed

text \<open>
  C5. The integer evaluator's arithmetic refines arithmetic on the integers: reading the patterns of a
  valid 8, 32 or 64 bit domain, signed or not, as integers, every binary operation is the operation on
  integers reduced to the range of the domain; quotients truncate, the remainder has the sign of the
  dividend and is never reduced, and the operation fails exactly on a zero divisor or a negative exponent.
\<close>

theorem integer_binary_exact:
  assumes "integer_domain d"
    and "type \<in> {SIM_IR_NODE_ADD, SIM_IR_NODE_SUB, SIM_IR_NODE_MUL, SIM_IR_NODE_POW, SIM_IR_NODE_DIV, SIM_IR_NODE_MOD}"
  shows "map_sum id (int_value d) (integer_binary type d x y) = int_operation type d (int_value d x) (int_value d y)"
  using assms power_exact [OF assms(1), of x y] division_exact [OF assms(1), of type x y]
  by (auto simp: integer_binary_def int_operation_def int_value_arith)

theorem integer_binary_exact_witness:
  "map_sum id (int_value sim_scalar_domain_i8) (integer_binary SIM_IR_NODE_ADD sim_scalar_domain_i8 100 100) = Inr (- 56) \<and>
   map_sum id (int_value sim_scalar_domain_i64) (integer_binary SIM_IR_NODE_MOD sim_scalar_domain_i64 (- 7) 2) = Inr (- 1)"
proof -
  have d: "integer_domain sim_scalar_domain_i8" "integer_domain sim_scalar_domain_i64"
    "sd_is_signed sim_scalar_domain_i8" "sd_is_signed sim_scalar_domain_i64"
    "int_width sim_scalar_domain_i8 = 8" "int_width sim_scalar_domain_i64 = 64"
    by (code_simp, code_simp, code_simp, code_simp, simp_all add: int_width_def sim_scalar_domain_i8_def
        sim_scalar_domain_i64_def sim_scalar_domain_make_def)
  have v: "int_value sim_scalar_domain_i8 100 = 100" "int_value sim_scalar_domain_i64 (- 7) = - 7"
    "int_value sim_scalar_domain_i64 2 = 2" "int_wrap sim_scalar_domain_i8 200 = - 56"
    using int_value_of_int [OF d(1), of 100] int_value_of_int [OF d(2), of "- 7"] int_value_of_int [OF d(2), of 2]
    by (simp_all add: int_wrap_def d signed_take_bit_int_eq_self)
  show ?thesis
    using integer_binary_exact [OF d(1), of SIM_IR_NODE_ADD 100 100] integer_binary_exact [OF d(2), of SIM_IR_NODE_MOD "- 7" 2]
    by (simp add: int_operation_def v smod_int_alt_def)
qed

end
