(* ===== verification/IR_Eval_Correct.thy ===== *)
theory IR_Eval_Correct
  imports IR_Reach IR_Integer
begin

text \<open>
  The memoizing evaluators compute the denotation of a node: the value its rule gives to the
  denotations of its operands, without cache, flags or sharing. Evaluation always returns, the cycle
  check never fires on a builder made by the operations, and integer nodes compute arithmetic modulo
  a power of two.
\<close>

section \<open>The denotation of a node\<close>

text \<open>The first failure of a list of results, or all the values.\<close>

fun gather :: "('e + 'v) list \<Rightarrow> 'e + 'v list" where
  "gather [] = Inr []"
| "gather (Inl e # rs) = Inl e"
| "gather (Inr v # rs) = (case gather rs of Inl e \<Rightarrow> Inl e | Inr vs \<Rightarrow> Inr (v # vs))"

function denote :: "(nat \<Rightarrow> 'v node_rule) \<Rightarrow> nat \<Rightarrow> SimResult + 'v" where
  "denote rule i =
     (if \<forall>j \<in> set (fst (rule i)). j < i then
        (case gather (map (denote rule) (fst (rule i))) of
           Inl e \<Rightarrow> Inl e
         | Inr vs \<Rightarrow> snd (rule i) vs)
      else Inl SIM_RESULT_DEPENDENCY_ERROR)"
  by pat_completeness auto
termination by (relation "measure snd") auto

declare denote.simps [simp del]

text \<open>What the cache may hold, and which nodes are under evaluation.\<close>

definition cache_ok :: "nat \<Rightarrow> (nat \<Rightarrow> 'v node_rule) \<Rightarrow> 'v eval_state \<Rightarrow> bool" where
  "cache_ok n rule st \<longleftrightarrow>
     length (es_cache st) = n \<and> length (es_flags st) = n \<and>
     (\<forall>i < n. es_flags st ! i = 2 \<longrightarrow> denote rule i = Inr (es_cache st ! i))"

definition active :: "'v eval_state \<Rightarrow> nat set" where
  "active st = {i. i < length (es_flags st) \<and> es_flags st ! i = 1}"

lemma active_mark:
  assumes "x < length (es_flags st)"
  shows "active (st\<lparr>es_flags := (es_flags st)[x := k]\<rparr>) = (if k = 1 then insert x (active st) else active st - {x})"
  using assms unfolding active_def by (cases "k = 1") (auto simp: nth_list_update)

text \<open>A node evaluates when a run gives its denotation and, if that is a value, keeps the state well formed.\<close>

definition evaluates :: "nat \<Rightarrow> (nat \<Rightarrow> 'v node_rule) \<Rightarrow> (nat \<Rightarrow> bool) \<Rightarrow> nat \<Rightarrow> nat \<Rightarrow> bool" where
  "evaluates n rule early depth x \<longleftrightarrow>
     (\<forall>st. cache_ok n rule st \<and> active st \<inter> {..x} = {} \<longrightarrow>
        (\<exists>st'. memo_eval n rule early depth st x = Some (denote rule x, st') \<and>
           (\<forall>v. denote rule x = Inr v \<longrightarrow> cache_ok n rule st' \<and> active st' = active st)))"

lemma operands_evaluate:
  assumes "\<And>x. x \<in> set xs \<Longrightarrow> evaluates n rule early depth x" "\<And>x. x \<in> set xs \<Longrightarrow> active st \<inter> {..x} = {}"
    and "cache_ok n rule st"
  shows "\<exists>st'. memo_operands n rule early depth st xs = Some (gather (map (denote rule) xs), st') \<and>
    (\<forall>vs. gather (map (denote rule) xs) = Inr vs \<longrightarrow> cache_ok n rule st' \<and> active st' = active st)"
  using assms
proof (induction xs arbitrary: st)
  case (Cons x xs)
  obtain st1 where st1: "memo_eval n rule early depth st x = Some (denote rule x, st1)"
    "\<forall>v. denote rule x = Inr v \<longrightarrow> cache_ok n rule st1 \<and> active st1 = active st"
    using Cons.prems(1) [of x] Cons.prems(2) [of x] Cons.prems(3) unfolding evaluates_def
    by (meson list.set_intros(1))
  show ?case
  proof (cases "denote rule x")
    case (Inl e)
    then show ?thesis using st1(1) by simp
  next
    case (Inr v)
    then have ok: "cache_ok n rule st1" "active st1 = active st" using st1(2) by simp_all
    obtain st2 where "memo_operands n rule early depth st1 xs = Some (gather (map (denote rule) xs), st2)"
      "\<forall>vs. gather (map (denote rule) xs) = Inr vs \<longrightarrow> cache_ok n rule st2 \<and> active st2 = active st"
      using Cons.IH [of st1] Cons.prems(1,2) ok by auto
    then show ?thesis using st1(1) Inr by (cases "gather (map (denote rule) xs)") auto
  qed
qed simp

text \<open>The contract of an evaluator: operands come before the nodes that use them.\<close>

locale memoized_dag =
  fixes wf :: "'b \<Rightarrow> bool"
    and size_of :: "'b \<Rightarrow> nat"
    and rule_of :: "'b \<Rightarrow> nat \<Rightarrow> 'v node_rule"
  assumes operands_before: "wf b \<Longrightarrow> i < size_of b \<Longrightarrow> j \<in> set (fst (rule_of b i)) \<Longrightarrow> j < i"
    and ids_valid: "wf b \<Longrightarrow> size_of b \<le> SIM_IR_INVALID_NODE"
begin

lemma node_evaluates:
  assumes "wf b" "x < size_of b" "x < depth"
  shows "evaluates (size_of b) (rule_of b) early depth x"
  using assms(2,3)
proof (induction x arbitrary: depth rule: less_induct)
  case (less x)
  let ?n = "size_of b" and ?rule = "rule_of b"
  obtain d where d: "depth = Suc d" "x \<le> d" using less.prems by (cases depth) auto
  have valid: "x \<noteq> SIM_IR_INVALID_NODE" using less.prems(1) ids_valid [OF assms(1)] by simp
  show ?case unfolding evaluates_def
  proof (intro allI impI, elim conjE)
    fix st :: "'v eval_state"
    assume ok: "cache_ok ?n ?rule st" and free: "active st \<inter> {..x} = {}"
    have len: "length (es_flags st) = ?n" "length (es_cache st) = ?n" using ok by (simp_all add: cache_ok_def)
    have off: "es_flags st ! x \<noteq> 1" using free less.prems(1) len by (auto simp: active_def)
    show "\<exists>st'. memo_eval ?n ?rule early depth st x = Some (denote ?rule x, st') \<and>
        (\<forall>v. denote ?rule x = Inr v \<longrightarrow> cache_ok ?n ?rule st' \<and> active st' = active st)"
    proof (cases "es_flags st ! x = 2")
      case True
      then have "denote ?rule x = Inr (es_cache st ! x)" using ok less.prems(1) by (simp add: cache_ok_def)
      then show ?thesis using True ok valid less.prems(1) by (simp add: d(1))
    next
      case False
      let ?st = "st\<lparr>es_flags := (es_flags st)[x := 1]\<rparr>" and ?ops = "fst (?rule x)"
      have act: "active ?st = insert x (active st)"
        using less.prems(1) len by (simp add: active_mark)
      have "cache_ok ?n ?rule ?st" using ok less.prems(1) by (auto simp: cache_ok_def nth_list_update)
      moreover have before: "j < x" if "j \<in> set ?ops" for j using operands_before assms(1) less.prems(1) that by blast
      then have "active ?st \<inter> {..j} = {}" if "j \<in> set ?ops" for j using that act free by fastforce
      moreover have "evaluates ?n ?rule early d j" if "j \<in> set ?ops" for j
        using less.IH [of j d] before [OF that] less.prems(1) d by simp
      ultimately obtain st1 where st1:
        "memo_operands ?n ?rule early d ?st ?ops = Some (gather (map (denote ?rule) ?ops), st1)"
        "\<And>vs. gather (map (denote ?rule) ?ops) = Inr vs \<Longrightarrow> cache_ok ?n ?rule st1 \<and> active st1 = insert x (active st)"
        using operands_evaluate [of ?ops ?n ?rule early d ?st] act by auto
      have den: "denote ?rule x = (case gather (map (denote ?rule) ?ops) of Inl e \<Rightarrow> Inl e | Inr vs \<Rightarrow> snd (?rule x) vs)"
        using before by (subst denote.simps) auto
      show ?thesis
      proof (cases "denote ?rule x")
        case (Inl e)
        have "memo_eval ?n ?rule early depth st x =
            Some (Inl e, if early x then st1 else st1\<lparr>es_flags := (es_flags st1)[x := 0]\<rparr>)"
          using st1(1) trans [OF den [symmetric] Inl] valid less.prems(1) False off by (simp add: d(1))
        then show ?thesis using Inl by auto
      next
        case (Inr v)
        let ?fin = "st1\<lparr>es_cache := (es_cache st1)[x := v], es_flags := (es_flags st1)[x := 2]\<rparr>"
        obtain vs where "gather (map (denote ?rule) ?ops) = Inr vs"
          using den Inr by (cases "gather (map (denote ?rule) ?ops)") auto
        then have ok1: "cache_ok ?n ?rule st1" "active st1 = insert x (active st)" using st1(2) by blast+
        have len1: "length (es_flags st1) = ?n" "length (es_cache st1) = ?n" using ok1(1) by (simp_all add: cache_ok_def)
        have "x \<notin> active st" using free by auto
        then have "active (st1\<lparr>es_flags := (es_flags st1)[x := 2]\<rparr>) = active st"
          using ok1(2) less.prems(1) len1 by (simp add: active_mark)
        then have "active ?fin = active st" by (simp add: active_def)
        moreover have "memo_eval ?n ?rule early depth st x = Some (Inr v, ?fin)"
          using st1(1) trans [OF den [symmetric] Inr] valid less.prems(1) False off by (simp add: d(1))
        moreover have "cache_ok ?n ?rule ?fin" using ok1(1) less.prems(1) Inr
          by (auto simp: cache_ok_def nth_list_update split: if_splits)
        ultimately show ?thesis using Inr by auto
      qed
    qed
  qed
qed

lemma fresh_evaluation:
  assumes "wf b" "x < size_of b"
  shows "map_option fst (memo_eval (size_of b) (rule_of b) early (Suc (size_of b))
    \<lparr>es_cache = replicate (size_of b) z, es_flags = replicate (size_of b) 0\<rparr> x) = Some (denote (rule_of b) x)"
proof -
  let ?st = "\<lparr>es_cache = replicate (size_of b) z, es_flags = replicate (size_of b) 0\<rparr>"
  have "cache_ok (size_of b) (rule_of b) ?st" "active ?st = {}" by (auto simp: cache_ok_def active_def)
  then show ?thesis using node_evaluates [OF assms(1,2), of "Suc (size_of b)" early] assms(2)
    unfolding evaluates_def by fastforce
qed

end

declare memo_eval.simps [simp del]

section \<open>The three evaluators\<close>

lemma real_rule_operands:
  "j \<in> set (fst (real_rule m warp ev b node)) \<Longrightarrow> \<exists>ops. node_operands node = Some ops \<and> j \<in> set ops"
  unfolding real_rule_def node_operands_def
  by (cases "is_real_scalar (sim_ir_type_normalize (nd_value_type node))"; cases "nd_data node"; cases "nd_type node"; simp)

lemma complex_rule_operands:
  "j \<in> set (fst (complex_rule m warp ev b node)) \<Longrightarrow> \<exists>ops. node_operands node = Some ops \<and> j \<in> set ops"
  unfolding complex_rule_def node_operands_def by (cases "nd_data node"; cases "nd_type node"; simp)

lemma integer_step_operands:
  "j \<in> set (fst (integer_step cast ev node)) \<Longrightarrow> \<exists>ops. node_operands node = Some ops \<and> j \<in> set ops"
  unfolding integer_step_def node_operands_def Let_def by (cases "nd_data node"; cases "nd_type node"; simp)

lemma integer_rule_operands:
  "j \<in> set (fst (integer_rule cast ev node)) \<Longrightarrow> \<exists>ops. node_operands node = Some ops \<and> j \<in> set ops"
  by (intro integer_step_operands [of j cast ev node]) (simp add: integer_rule_def Let_def split: if_splits)

lemma operand_before:
  assumes "ir_ok b" "i < ir_count b" "\<exists>ops. node_operands (ir_nodes b ! i) = Some ops \<and> j \<in> set ops"
  shows "j < i"
  using operands_smaller [OF assms(1,2)] assms(3) by (metis option.inject)

lemma count_below_invalid: "ir_ok b \<Longrightarrow> ir_count b \<le> SIM_IR_INVALID_NODE"
  by (auto simp: ir_ok_def nodes_ok_def sizeof_ir_node_def SIM_IR_INVALID_NODE_def)

interpretation real_eval: memoized_dag ir_ok ir_count "\<lambda>b i. real_rule m warp ev b (ir_nodes b ! i)" for m warp ev
  by unfold_locales (blast intro: operand_before real_rule_operands, rule count_below_invalid)

interpretation complex_eval: memoized_dag ir_ok ir_count "\<lambda>b i. complex_rule m warp ev b (ir_nodes b ! i)"
  for m warp ev
  by unfold_locales (blast intro: operand_before complex_rule_operands, rule count_below_invalid)

interpretation integer_eval: memoized_dag ir_ok ir_count "\<lambda>b i. integer_rule cast ev (ir_nodes b ! i)" for cast ev
  by unfold_locales (blast intro: operand_before integer_rule_operands, rule count_below_invalid)

lemma evaluate_complex_denotes:
  assumes "ir_ok b" "root < ir_count b" "calloc_ok heap (ir_count b) 16" "calloc_ok heap (ir_count b) 1"
  shows "sim_ir_evaluate_complex heap m warp (Some b) root ev =
    Some (denote (\<lambda>i. complex_rule m warp ev b (ir_nodes b ! i)) root)"
  using complex_eval.fresh_evaluation [OF assms(1,2)] assms(2-4) valid_node_iff [OF assms(1)]
  by (simp add: sim_ir_evaluate_complex_def sim_ir_evaluate_impl_complex_def)

lemma evaluate_real_denotes:
  assumes "ir_ok b" "root < ir_count b" "is_real_scalar (nd_value_type (ir_nodes b ! root))"
    and "calloc_ok heap (ir_count b) 8" "calloc_ok heap (ir_count b) 1"
  shows "sim_ir_evaluate heap m warp (Some b) root ev =
    Some (denote (\<lambda>i. real_rule m warp ev b (ir_nodes b ! i)) root)"
proof -
  have "sim_ir_type_normalize (nd_value_type (ir_nodes b ! root)) = nd_value_type (ir_nodes b ! root)"
    using assms(1,2) by (simp add: ir_ok_def nodes_ok_def node_ok_def)
  then show ?thesis using real_eval.fresh_evaluation [OF assms(1,2)] assms(2-5) valid_node_iff [OF assms(1)]
    by (simp add: sim_ir_evaluate_def sim_ir_evaluate_impl_def)
qed

lemma evaluate_integer_denotes:
  assumes "ir_ok b" "root < ir_count b"
  shows "\<exists>st. sim_ir_evaluate_impl_integer cast ev b (Suc (ir_count b))
      \<lparr>es_cache = replicate (ir_count b) 0, es_flags = replicate (ir_count b) 0\<rparr> root =
    Some (denote (\<lambda>i. integer_rule cast ev (ir_nodes b ! i)) root, st)"
  using integer_eval.fresh_evaluation [OF assms] unfolding sim_ir_evaluate_impl_integer_def by fastforce

text \<open>
  C33. The real evaluator is equivalent to the reference semantics: on a kernel the builder's operations
  produced, and with memory for its two tables, evaluating a real scalar node returns (the depth bound
  is never met, the cycle check never fires) and gives what the recursive definition without cache and
  flags gives, whatever the floating-point operations and the caller's callbacks are.
\<close>

theorem evaluate_denotes:
  assumes "ir_built heap cast mul b" "bounded_heap heap" "root < ir_count b"
    and "is_real_scalar (nd_value_type (ir_nodes b ! root))"
    and "calloc_ok heap (ir_count b) 8" "calloc_ok heap (ir_count b) 1"
  shows "sim_ir_evaluate heap m warp (Some b) root ev =
    Some (denote (\<lambda>i. real_rule m warp ev b (ir_nodes b ! i)) root)"
  using evaluate_real_denotes [OF built_ok [OF assms(1,2)] assms(3-6)] .

text \<open>
  C4. The evaluator over any scalar domain dispatches to the reference semantics of that domain: on a
  kernel the operations produced, evaluating a node of a scalar or complex type returns, and gives the
  code and value of the integer, complex or real denotation of the node, with the value zero of the
  domain where the denotation is an error.
\<close>

theorem evaluate_domain_denotes:
  assumes "ir_built heap cast mul b" "bounded_heap heap" "root < ir_count b"
    and "d = ty_scalar_domain (nd_value_type (ir_nodes b ! root))"
    and "sim_ir_type_is_scalar (nd_value_type (ir_nodes b ! root)) \<or> sim_scalar_domain_is_complex d"
    and "calloc_ok heap (ir_count b) 16" "calloc_ok heap (ir_count b) 8" "calloc_ok heap (ir_count b) 1"
  shows "sim_ir_evaluate_domain heap m warp cast (Some b) root ev = Some (
    let failed = (\<lambda>e. (e, sim_ir_domain_value_zero d))
    in if sim_ir_domain_is_exact_integer d then
         (case denote (\<lambda>i. integer_rule cast ev (ir_nodes b ! i)) root of
            Inl e \<Rightarrow> failed e
          | Inr raw \<Rightarrow> (SIM_RESULT_OK, sim_ir_domain_value_from_integer_raw d raw))
       else if sim_scalar_domain_is_complex d then
         (case denote (\<lambda>i. complex_rule m warp (map_option complex_adapter ev) b (ir_nodes b ! i)) root of
            Inl e \<Rightarrow> failed e
          | Inr v \<Rightarrow> (SIM_RESULT_OK, \<lparr>dv_domain = d, dv_low = re v, dv_high = im v\<rparr>))
       else
         (case denote (\<lambda>i. real_rule m warp (map_option real_adapter ev) b (ir_nodes b ! i)) root of
            Inl e \<Rightarrow> failed e
          | Inr v \<Rightarrow> (SIM_RESULT_OK, \<lparr>dv_domain = d, dv_low = v, dv_high = 0\<rparr>)))"
proof -
  have ok: "ir_ok b" using built_ok [OF assms(1,2)] .
  have t: "sim_ir_type_normalize (nd_value_type (ir_nodes b ! root)) = nd_value_type (ir_nodes b ! root)"
    using ok assms(3) by (simp add: ir_ok_def nodes_ok_def node_ok_def)
  note dom = sim_ir_type_scalar_domain_def t assms(4) [symmetric]
  show ?thesis
  proof (cases "sim_ir_domain_is_exact_integer d")
    case True
    then have "\<not> sim_scalar_domain_is_complex d"
      by (simp add: sim_ir_domain_is_exact_integer_def sim_scalar_domain_is_integer_def sim_scalar_domain_is_complex_def)
    moreover obtain st where "sim_ir_evaluate_impl_integer cast ev b (Suc (ir_count b))
        \<lparr>es_cache = replicate (ir_count b) 0, es_flags = replicate (ir_count b) 0\<rparr> root =
      Some (denote (\<lambda>i. integer_rule cast ev (ir_nodes b ! i)) root, st)"
      using evaluate_integer_denotes [OF ok assms(3)] by blast
    ultimately show ?thesis
      using True assms(3,5-8) valid_node_iff [OF ok]
      by (simp add: sim_ir_evaluate_domain_def dom Let_def split: sum.split)
  next
    case False
    then show ?thesis
      using assms(3,5-8) valid_node_iff [OF ok] evaluate_complex_denotes [OF ok assms(3,6,8)]
        evaluate_real_denotes [OF ok assms(3) _ assms(7,8)]
      by (cases "sim_scalar_domain_is_complex d") (simp_all add: sim_ir_evaluate_domain_def dom Let_def is_real_scalar_def split: sum.split)
  qed
qed

section \<open>Integer constants\<close>

lemma normalized_domain_valid: "sim_scalar_domain_validate (ty_scalar_domain (sim_ir_type_normalize t))"
  by (simp add: normalize_domain)

lemma raw_from_signed_value:
  assumes "integer_domain d" "sim_ir_integer_raw_from_signed v d = Some raw"
  shows "sd_is_signed d" "raw = sim_ir_integer_truncate v d" "sim_ir_integer_as_i64 raw d = v"
proof -
  have s: "sd_is_signed d" and raw: "raw = sim_ir_integer_truncate v d"
    and w: "sd_bit_width d = 32 \<and> - (2 ^ 31) \<le> sint v \<and> sint v < 2 ^ 31 \<or> sd_bit_width d = 64"
    using assms(2) by (auto simp: sim_ir_integer_raw_from_signed_def sim_ir_integer_from_i64_def split: if_splits)
  then show "sd_is_signed d" "raw = sim_ir_integer_truncate v d" by simp_all
  have range: "- (2 ^ (int_width d - 1)) \<le> sint v \<and> sint v < 2 ^ (int_width d - 1)"
    using w sint_greater_eq [of v] sint_less [of v] by (auto simp: int_width_def)
  have "sint (sim_ir_integer_as_i64 raw d) = int_value d v"
    using s int_value_truncate [OF assms(1), of v] by (simp add: raw int_value_def)
  also have "\<dots> = int_value d (word_of_int (sint v))" by simp
  also have "\<dots> = sint v"
    unfolding int_value_of_int [OF assms(1)] using s range by (intro int_wrap_in_range [OF assms(1)]) simp
  finally show "sim_ir_integer_as_i64 raw d = v" by (rule signed_word_eqI)
qed

lemma raw_from_unsigned_value:
  assumes "integer_domain d" "sim_ir_integer_raw_from_unsigned v d = Some raw"
  shows "\<not> sd_is_signed d" "raw = v" "sim_ir_integer_truncate v d = v"
proof -
  have s: "\<not> sd_is_signed d" and raw: "raw = sim_ir_integer_truncate v d"
    and w: "sd_bit_width d = 32 \<and> v \<le> 2 ^ 32 - 1 \<or> sd_bit_width d = 64"
    using assms(2) by (auto simp: sim_ir_integer_raw_from_unsigned_def split: if_splits)
  have "uint v < 2 ^ int_width d"
  proof (cases "sd_bit_width d = 64")
    case True
    then show ?thesis using uint_lt2p [of v] by (simp add: int_width_def)
  next
    case False
    then show ?thesis using w by (simp add: int_width_def word_le_def)
  qed
  then have "take_bit (int_width d) v = v"
    by (simp add: word_uint_eq_iff unsigned_take_bit_eq take_bit_int_eq_self)
  then show "\<not> sd_is_signed d" "raw = v" "sim_ir_integer_truncate v d = v"
    using s raw truncate_take_bit [OF assms(1)] by simp_all
qed

lemma constant_node_evaluates:
  assumes "ir_ok b" "bounded_heap heap" "sim_ir_builder_constant_integer_raw_typed heap (Some b) raw t = (r, Some b')"
    and "r \<noteq> SIM_IR_INVALID_NODE" "d = ty_scalar_domain (sim_ir_type_normalize t)"
    and "calloc_ok heap (ir_count b') 8" "calloc_ok heap (ir_count b') 1"
  shows "sim_ir_evaluate_domain heap m warp cast (Some b') r ev =
    Some (SIM_RESULT_OK, sim_ir_domain_value_from_integer_raw d (sim_ir_integer_truncate raw d))"
proof -
  let ?t = "sim_ir_type_normalize t"
  let ?c = "zero_constant\<lparr>cs_scalar := sim_ir_integer_raw_to_double raw d, cs_signed_scalar := sim_ir_integer_as_i64 raw d,
    cs_unsigned_scalar := sim_ir_integer_truncate raw d, cs_exact_integer := True,
    cs_constant_index := SIM_IR_INVALID_CONSTANT_INDEX\<rparr>"
  let ?fill = "fill_node SIM_IR_NODE_CONSTANT ?t True (Data_constant ?c)"
  have t: "sim_ir_type_is_scalar t" "sim_ir_domain_is_exact_integer d"
    and app: "append_filled heap b ?fill = (r, b')"
    using assms(3-5) by (auto simp: sim_ir_builder_constant_integer_raw_typed_def on_builder_def Let_def
        split: if_splits prod.splits)
  have "node_ok (ir_nodes b) (b_constants_components b) (ir_count b) (?fill (ir_count b) fresh_node)"
    using t assms(5) by (simp add: constructor_simps)
  from append_filled_cases [OF assms(1,2) app this] assms(4)
  have ok: "ir_ok b'" and r: "r < ir_count b'" and node: "ir_nodes b' ! r = ?fill r fresh_node"
    by (auto simp: ir_count_def)
  have dom: "integer_domain d" using t(2) assms(5) normalized_domain_valid [of t] by (simp add: integer_domain_def)
  have trunc: "sim_ir_integer_truncate (sim_ir_integer_truncate raw d) d = sim_ir_integer_truncate raw d" for raw
    by (simp add: truncate_take_bit [OF dom])
  have "denote (\<lambda>i. integer_rule cast ev (ir_nodes b' ! i)) r = Inr (sim_ir_integer_truncate raw d)"
    using t assms(5)
    by (subst denote.simps) (simp add: node integer_rule_def integer_step_def Let_def sim_ir_type_scalar_domain_def
        sim_ir_constant_integer_raw_def trunc [unfolded assms(5)])
  moreover obtain st where "sim_ir_evaluate_impl_integer cast ev b' (Suc (ir_count b'))
      \<lparr>es_cache = replicate (ir_count b') 0, es_flags = replicate (ir_count b') 0\<rparr> r =
    Some (denote (\<lambda>i. integer_rule cast ev (ir_nodes b' ! i)) r, st)"
    using evaluate_integer_denotes [OF ok r] by blast
  ultimately show ?thesis using r t assms(5-7) valid_node_iff [OF ok]
    by (simp add: sim_ir_evaluate_domain_def node sim_ir_type_scalar_domain_def Let_def)
qed

text \<open>
  C34. An exact integer constant survives the kernel: the node that the typed constructors of signed and of
  unsigned 64-bit constants return evaluates to exactly the value it was given, in the domain of the type
  that was asked for, for every domain they accept.
\<close>

theorem integer_constant_roundtrip:
  assumes "ir_built heap cast mul b" "bounded_heap heap" "r \<noteq> SIM_IR_INVALID_NODE"
    and "sim_ir_builder_constant_i64_typed heap (Some b) v t = (r, Some b') \<or>
         sim_ir_builder_constant_u64_typed heap (Some b) v t = (r, Some b')"
    and "calloc_ok heap (ir_count b') 8" "calloc_ok heap (ir_count b') 1"
  shows "sim_ir_evaluate_domain heap m warp cast (Some b') r ev =
    Some (SIM_RESULT_OK, \<lparr>dv_domain = sim_ir_type_scalar_domain t, dv_low = v, dv_high = 0\<rparr>)"
proof -
  let ?d = "ty_scalar_domain (sim_ir_type_normalize t)"
  obtain raw where raw: "sim_ir_integer_raw_from_signed v ?d = Some raw \<or> sim_ir_integer_raw_from_unsigned v ?d = Some raw"
    and add: "sim_ir_builder_constant_integer_raw_typed heap (Some b) raw (sim_ir_type_normalize t) = (r, Some b')"
    using assms(3,4)
    by (auto simp: sim_ir_builder_constant_i64_typed_def sim_ir_builder_constant_u64_typed_def Let_def split: option.splits)
  have dom: "integer_domain ?d"
    using raw normalized_domain_valid [of t]
    by (auto simp: integer_domain_def sim_ir_integer_raw_from_signed_def sim_ir_integer_raw_from_unsigned_def split: if_splits)
  have trunc: "sim_ir_integer_truncate (sim_ir_integer_truncate raw d) d = sim_ir_integer_truncate raw d"
    if "integer_domain d" for raw d by (simp add: truncate_take_bit [OF that])
  have "sim_ir_domain_value_from_integer_raw ?d (sim_ir_integer_truncate raw ?d) =
      \<lparr>dv_domain = ?d, dv_low = v, dv_high = 0\<rparr>"
    using raw
  proof (elim disjE)
    assume "sim_ir_integer_raw_from_signed v ?d = Some raw"
    note s = raw_from_signed_value [OF dom this]
    have "sim_ir_integer_as_i64 (sim_ir_integer_truncate raw ?d) ?d = v" using s(2,3) trunc [OF dom, of v] by simp
    then show ?thesis using s(1)
      by (simp add: sim_ir_domain_value_from_integer_raw_def sim_ir_domain_value_zero_def trunc [OF dom])
  next
    assume "sim_ir_integer_raw_from_unsigned v ?d = Some raw"
    note u = raw_from_unsigned_value [OF dom this]
    show ?thesis unfolding u(2) using u(1,3)
      by (simp add: sim_ir_domain_value_from_integer_raw_def sim_ir_domain_value_zero_def)
  qed
  then show ?thesis
    using constant_node_evaluates [OF built_ok [OF assms(1,2)] assms(2) add assms(3) _ assms(5,6)]
    by (simp add: sim_ir_type_scalar_domain_def)
qed

section \<open>Constants of a vector type\<close>

text \<open>
  A constant of a complex type, or of a vector type whose elements are complex, with at most as many
  components as a node stores inline, built from one number evaluates to zero whatever the number is:
  the constructor stores the number in the scalar field of the node, the evaluator reads the inline
  components, which stay cleared.
\<close>

theorem complex_constant_reads_zero:
  assumes "ir_built heap cast mul b" "bounded_heap heap" "r \<noteq> SIM_IR_INVALID_NODE"
    and "sim_ir_builder_constant_typed heap cast (Some b) v t = (r, Some b')"
    and "sim_scalar_domain_is_complex (sim_ir_type_scalar_domain t)"
    and "ty_components (sim_ir_type_normalize t) \<le> SIM_IR_SMALL_CONSTANT_CAPACITY"
    and "calloc_ok heap (ir_count b') 16" "calloc_ok heap (ir_count b') 1"
  shows "sim_ir_evaluate_domain heap m warp cast (Some b') r ev =
    Some (SIM_RESULT_OK, \<lparr>dv_domain = sim_ir_type_scalar_domain t, dv_low = f64_zero, dv_high = f64_zero\<rparr>)"
proof -
  let ?t = "sim_ir_type_normalize t"
  let ?c = "zero_constant\<lparr>cs_scalar := sim_ir_canonicalize_constant v, cs_signed_scalar := 0,
    cs_unsigned_scalar := 0, cs_exact_integer := False, cs_constant_index := SIM_IR_INVALID_CONSTANT_INDEX\<rparr>"
  let ?fill = "fill_node SIM_IR_NODE_CONSTANT ?t True (Data_constant ?c)"
  have d: "sim_scalar_domain_is_complex (ty_scalar_domain ?t)" using assms(5) by (simp add: sim_ir_type_scalar_domain_def)
  then have int: "\<not> sim_ir_domain_is_exact_integer (ty_scalar_domain ?t)"
    by (simp add: sim_ir_domain_is_exact_integer_def sim_scalar_domain_is_integer_def sim_scalar_domain_is_complex_def)
  have two: "2 \<le> ty_components ?t" "\<not> sim_ir_type_is_scalar t"
    using d normalized_iff [of ?t] by (auto simp: sim_ir_type_is_scalar_def)
  have ok0: "ir_ok b" using built_ok [OF assms(1,2)] .
  have app: "append_filled heap b ?fill = (r, b')"
    using assms(4) int by (auto simp: sim_ir_builder_constant_typed_def on_builder_def Let_def split: prod.splits)
  have "node_ok (ir_nodes b) (b_constants_components b) (ir_count b) (?fill (ir_count b) fresh_node)"
    using int by (simp add: constructor_simps)
  from append_filled_cases [OF ok0 assms(2) app this] assms(3)
  have ok: "ir_ok b'" and r: "r < ir_count b'" and node: "ir_nodes b' ! r = ?fill r fresh_node"
    by (auto simp: ir_count_def)
  have small: "sim_ir_constant_component b' (?fill r fresh_node) k = Some f64_zero" if "k < 2" for k
    using that two assms(6)
    by (cases k) (auto simp: sim_ir_constant_component_def zero_constant_def SIM_IR_SMALL_CONSTANT_CAPACITY_def
        nth_replicate less_Suc_eq)
  have "denote (\<lambda>i. complex_rule m warp (map_option complex_adapter ev) b' (ir_nodes b' ! i)) r = Inr (cx f64_zero f64_zero)"
    using two by (subst denote.simps) (simp add: node complex_rule_def complex_constant_def small)
  then show ?thesis
    using evaluate_complex_denotes [OF ok r assms(7,8)] valid_node_iff [OF ok] r d int
    by (simp add: sim_ir_evaluate_domain_def node sim_ir_type_scalar_domain_def Let_def)
qed

section \<open>Small kernels\<close>

text \<open>The kernel \<open>3 + step_index\<close> at step 7, and a kernel of one constant.\<close>

definition demo_evaluator :: SimIREvaluatorDomain where
  "demo_evaluator =
     \<lparr>evd_field_value = None, evd_differential = None, evd_noise = None,
      evd_param_value = Some (\<lambda>param domain. (SIM_RESULT_OK, \<lparr>dv_domain = domain, dv_low = 7, dv_high = 0\<rparr>))\<rparr>"

definition demo_constant :: SimIRBuilder where
  "demo_constant = empty_builder\<lparr>b_nodes := Some
     [fill_node SIM_IR_NODE_CONSTANT sim_ir_type_scalar True
        (Data_constant (zero_constant\<lparr>cs_scalar := f64_one, cs_signed_scalar := 0, cs_unsigned_scalar := 0,
           cs_exact_integer := False, cs_constant_index := SIM_IR_INVALID_CONSTANT_INDEX\<rparr>)) 0 fresh_node],
     b_capacity := 8\<rparr>"

lemma demo_callocs:
  assumes "0 < n" "n \<le> 16" "0 < k" "k \<le> 16"
  shows "calloc_ok demo_grants n k"
proof -
  have "n * k \<le> 16 * 16" by (rule mult_le_mono [OF assms(2,4)])
  then show ?thesis by (simp add: calloc_ok_def demo_grants_def)
qed

lemma u64_facts:
  "sim_ir_domain_is_exact_integer sim_scalar_domain_u64" "sim_ir_integer_truncate v sim_scalar_domain_u64 = v"
  "\<not> sd_is_signed sim_scalar_domain_u64" "sim_ir_integer_raw_from_unsigned v sim_scalar_domain_u64 = Some v"
  "sd_kind sim_scalar_domain_u64 \<noteq> SIM_SCALAR_DOMAIN_UNKNOWN"
  by (simp_all add: sim_scalar_domain_u64_def sim_scalar_domain_make_def sim_ir_domain_is_exact_integer_def
      sim_scalar_domain_is_integer_def sim_ir_integer_truncate_def sim_ir_integer_raw_from_unsigned_def)

lemma demo_denotes:
  "denote (\<lambda>i. integer_rule cast (Some demo_evaluator) (ir_nodes (demo_ir 4) ! i)) 2 = Inr 10"
proof -
  let ?rule = "\<lambda>i. integer_rule cast (Some demo_evaluator) (ir_nodes (demo_ir 4) ! i)"
  have "denote ?rule 0 = Inr 3"
    by (subst denote.simps) (simp add: demo_ir_def demo_nodes_def ir_nodes_def fill_node_def integer_rule_def
        integer_step_def sim_ir_constant_integer_raw_def sim_ir_type_scalar_domain_def u64_facts Let_def)
  moreover have "denote ?rule 1 = Inr 7"
    by (subst denote.simps) (simp add: demo_ir_def demo_nodes_def ir_nodes_def fill_node_def integer_rule_def
        integer_step_def sim_ir_type_scalar_domain_def u64_facts Let_def callback_raw_def with_callback_def
        demo_evaluator_def sim_ir_domain_value_to_integer_raw_def sim_scalar_domain_equal_def)
  ultimately show ?thesis
    by (subst denote.simps) (simp add: demo_ir_def demo_nodes_def ir_nodes_def fill_node_def integer_rule_def
        integer_step_def sim_ir_type_scalar_domain_def u64_facts Let_def integer_binary_def)
qed

theorem evaluate_domain_denotes_witness:
  "\<forall>m warp cast. sim_ir_evaluate_domain demo_grants m warp cast (Some (demo_ir 4)) 2 (Some demo_evaluator) =
     Some (SIM_RESULT_OK, \<lparr>dv_domain = sim_scalar_domain_u64, dv_low = 10, dv_high = 0\<rparr>)"
proof (intro allI)
  fix m :: fpu and warp :: warp_sampler and cast :: "int \<Rightarrow> u64"
  have node: "nd_value_type (ir_nodes (demo_ir 4) ! 2) = demo_type" "2 < ir_count (demo_ir 4)"
    by (simp_all add: demo_ir_def demo_nodes_def ir_nodes_def ir_count_def)
  have "sim_scalar_domain_u64 = ty_scalar_domain (nd_value_type (ir_nodes (demo_ir 4) ! 2))" by (simp add: node)
  from evaluate_domain_denotes [OF demo_built demo_grants_bounded node(2) this, where ev = "Some demo_evaluator"]
  show "sim_ir_evaluate_domain demo_grants m warp cast (Some (demo_ir 4)) 2 (Some demo_evaluator) =
     Some (SIM_RESULT_OK, \<lparr>dv_domain = sim_scalar_domain_u64, dv_low = 10, dv_high = 0\<rparr>)"
    by (simp add: node demo_callocs demo_depends demo_denotes u64_facts sim_ir_domain_value_from_integer_raw_def
        sim_ir_domain_value_zero_def)
qed

lemma demo_constant_built: "ir_built demo_grants cast mul demo_constant"
proof -
  have "take_bit 63 f64_one \<noteq> 0" by (simp add: f64_one_def)
  then have "uint (take_bit 63 f64_one) \<noteq> 0" by (simp only: uint_0_iff not_False_eq_True)
  then have "sim_ir_canonicalize_constant f64_one = f64_one"
    by (simp add: sim_ir_canonicalize_constant_def f64_eq_def f64_rank_def f64_magnitude_def)
  moreover have "\<not> sim_ir_domain_is_exact_integer sim_scalar_domain_f64"
    "ty_scalar_domain sim_ir_type_scalar = sim_scalar_domain_f64" by code_simp+
  ultimately have c: "\<not> sim_ir_domain_is_exact_integer sim_scalar_domain_f64"
    "sim_ir_canonicalize_constant f64_one = f64_one" "ty_scalar_domain sim_ir_type_scalar = sim_scalar_domain_f64"
    by simp_all
  show ?thesis
    by (rule ir_built.add_constant [OF ir_built.init, where v = f64_one and t = sim_ir_type_scalar and r = 0])
      (simp add: sim_ir_builder_constant_typed_def on_builder_def demo_append_first demo_constant_def c)
qed

theorem evaluate_denotes_witness:
  "\<forall>m warp. sim_ir_evaluate demo_grants m warp (Some demo_constant) 0 None = Some (Inr f64_one)"
proof (intro allI)
  fix m :: fpu and warp :: warp_sampler
  have node: "0 < ir_count demo_constant" "ir_count demo_constant = 1"
    "is_real_scalar (nd_value_type (ir_nodes demo_constant ! 0))"
    "ty_components (nd_value_type (ir_nodes demo_constant ! 0)) = 1" "sim_ir_type_is_scalar (nd_value_type (ir_nodes demo_constant ! 0))"
    "is_real_scalar (sim_ir_type_normalize (nd_value_type (ir_nodes demo_constant ! 0)))"
    by (simp_all add: demo_constant_def ir_nodes_def ir_count_def) code_simp+
  have "denote (\<lambda>i. real_rule m warp None demo_constant (ir_nodes demo_constant ! i)) 0 = Inr f64_one"
    using node(4-6)
    by (subst denote.simps) (simp add: demo_constant_def ir_nodes_def real_rule_def sim_ir_constant_component_def)
  then show "sim_ir_evaluate demo_grants m warp (Some demo_constant) 0 None = Some (Inr f64_one)"
    using evaluate_denotes [OF demo_constant_built demo_grants_bounded node(1,3), of m warp None] demo_callocs [of 1]
    by (simp add: node(2))
qed

theorem integer_constant_roundtrip_witness:
  "\<forall>m warp cast. \<exists>b'. sim_ir_builder_constant_i64_typed demo_grants (Some empty_builder) (- 5)
       (sim_ir_type_scalar_domain_typed sim_scalar_domain_i32) = (0, Some b') \<and>
     sim_ir_evaluate_domain demo_grants m warp cast (Some b') 0 None =
     Some (SIM_RESULT_OK, \<lparr>dv_domain = sim_scalar_domain_i32, dv_low = - 5, dv_high = 0\<rparr>)"
proof (intro allI)
  fix m :: fpu and warp :: warp_sampler and cast :: "int \<Rightarrow> u64"
  let ?t = "sim_ir_type_scalar_domain_typed sim_scalar_domain_i32"
  let ?d = "ty_scalar_domain ?t"
  let ?c = "zero_constant\<lparr>cs_scalar := sim_ir_integer_raw_to_double 0xFFFFFFFB ?d,
    cs_signed_scalar := sim_ir_integer_as_i64 0xFFFFFFFB ?d, cs_unsigned_scalar := sim_ir_integer_truncate 0xFFFFFFFB ?d,
    cs_exact_integer := True, cs_constant_index := SIM_IR_INVALID_CONSTANT_INDEX\<rparr>"
  define b' where "b' = empty_builder\<lparr>b_nodes := Some [fill_node SIM_IR_NODE_CONSTANT ?t True (Data_constant ?c) 0
    fresh_node], b_capacity := 8\<rparr>"
  have "sim_ir_integer_raw_from_signed (- 5) ?d = Some 0xFFFFFFFB" "sim_ir_type_is_scalar ?t"
    "sim_ir_domain_is_exact_integer ?d" by code_simp+
  then have b': "sim_ir_builder_constant_i64_typed demo_grants (Some empty_builder) (- 5) ?t = (0, Some b')"
    by (simp add: sim_ir_builder_constant_i64_typed_def sim_ir_builder_constant_integer_raw_typed_def
        on_builder_def demo_append_first b'_def Let_def)
  have count: "ir_count b' = 1" by (simp add: b'_def ir_count_def ir_nodes_def)
  have "sim_ir_type_scalar_domain ?t = sim_scalar_domain_i32" by code_simp
  moreover have "(0 :: nat) \<noteq> SIM_IR_INVALID_NODE" by (simp add: SIM_IR_INVALID_NODE_def)
  ultimately have "sim_ir_evaluate_domain demo_grants m warp cast (Some b') 0 None =
     Some (SIM_RESULT_OK, \<lparr>dv_domain = sim_scalar_domain_i32, dv_low = - 5, dv_high = 0\<rparr>)"
    using integer_constant_roundtrip [OF ir_built.init demo_grants_bounded _ disjI1 [OF b'], of m warp cast None]
      demo_callocs [of 1] count by simp
  then show "\<exists>b'. sim_ir_builder_constant_i64_typed demo_grants (Some empty_builder) (- 5)
       (sim_ir_type_scalar_domain_typed sim_scalar_domain_i32) = (0, Some b') \<and>
     sim_ir_evaluate_domain demo_grants m warp cast (Some b') 0 None =
     Some (SIM_RESULT_OK, \<lparr>dv_domain = sim_scalar_domain_i32, dv_low = - 5, dv_high = 0\<rparr>)" using b' by blast
qed

theorem complex_constant_reads_zero_witness:
  "\<forall>m warp cast. \<exists>b'. sim_ir_builder_constant_typed demo_grants cast (Some empty_builder) f64_one sim_ir_type_complex = (0, Some b') \<and>
     sim_ir_evaluate_domain demo_grants m warp cast (Some b') 0 None =
     Some (SIM_RESULT_OK, \<lparr>dv_domain = sim_scalar_domain_c64, dv_low = 0, dv_high = 0\<rparr>)"
proof (intro allI)
  fix m :: fpu and warp :: warp_sampler and cast :: "int \<Rightarrow> u64"
  let ?c = "zero_constant\<lparr>cs_scalar := sim_ir_canonicalize_constant f64_one, cs_signed_scalar := 0,
    cs_unsigned_scalar := 0, cs_exact_integer := False, cs_constant_index := SIM_IR_INVALID_CONSTANT_INDEX\<rparr>"
  define b' where "b' = empty_builder\<lparr>b_nodes := Some [fill_node SIM_IR_NODE_CONSTANT sim_ir_type_complex True
    (Data_constant ?c) 0 fresh_node], b_capacity := 8\<rparr>"
  have t: "\<not> sim_ir_domain_is_exact_integer (ty_scalar_domain sim_ir_type_complex)"
    "sim_scalar_domain_is_complex (sim_ir_type_scalar_domain sim_ir_type_complex)"
    "sim_ir_type_scalar_domain sim_ir_type_complex = sim_scalar_domain_c64"
    "ty_components sim_ir_type_complex \<le> SIM_IR_SMALL_CONSTANT_CAPACITY" by code_simp+
  have b': "sim_ir_builder_constant_typed demo_grants cast (Some empty_builder) f64_one sim_ir_type_complex = (0, Some b')"
    using t(1) by (simp add: sim_ir_builder_constant_typed_def on_builder_def demo_append_first b'_def)
  have count: "ir_count b' = 1" by (simp add: b'_def ir_count_def ir_nodes_def)
  have "(0 :: nat) \<noteq> SIM_IR_INVALID_NODE" by (simp add: SIM_IR_INVALID_NODE_def)
  then show "\<exists>b'. sim_ir_builder_constant_typed demo_grants cast (Some empty_builder) f64_one sim_ir_type_complex = (0, Some b') \<and>
     sim_ir_evaluate_domain demo_grants m warp cast (Some b') 0 None =
     Some (SIM_RESULT_OK, \<lparr>dv_domain = sim_scalar_domain_c64, dv_low = 0, dv_high = 0\<rparr>)"
    using complex_constant_reads_zero [OF ir_built.init demo_grants_bounded _ b', of m warp None] t(2-4) b'
      demo_callocs [of 1] count by simp
qed

end
