(* ===== verification/Operator_Info.thy ===== *)
theory Operator_Info
  imports Scalar_Domain Float_Bits Kernel_IR_Builder
begin

text \<open>
  The metadata of an operator, from \<^verbatim>\<open>include/oakfield/operator.h\<close>, \<^verbatim>\<open>core/src/operator.c\<close> and
  \<^verbatim>\<open>core/src/operator_identity.c\<close>: names of enumerations and their parsers, the configuration and its
  normal form, the information record and its normal form, and the opcode an identity stands for.

  A C object of an enumeration type holds one of the named constants or another integer. Where the code
  has a \<^verbatim>\<open>default:\<close> branch for the latter, the member has type \<open>'e c_enum\<close>.
\<close>

section \<open>Data\<close>

datatype 'e c_enum = Named 'e | Unnamed int

datatype SimOperatorCategory =
    SIM_OPERATOR_CATEGORY_UNKNOWN
  | SIM_OPERATOR_CATEGORY_DIFFUSION
  | SIM_OPERATOR_CATEGORY_ADVECTION
  | SIM_OPERATOR_CATEGORY_REACTION
  | SIM_OPERATOR_CATEGORY_POTENTIAL
  | SIM_OPERATOR_CATEGORY_MEASUREMENT
  | SIM_OPERATOR_CATEGORY_COUPLING
  | SIM_OPERATOR_CATEGORY_NOISE
  | SIM_OPERATOR_CATEGORY_BOUNDARY
  | SIM_OPERATOR_CATEGORY_THERMOSTAT
  | SIM_OPERATOR_CATEGORY_UTILITY
  | SIM_OPERATOR_CATEGORY_NONLINEAR

datatype SimContinuityLimiterStrategy =
    SIM_LIMITER_STRATEGY_HARD_CLIP
  | SIM_LIMITER_STRATEGY_SOFT_CLIP
  | SIM_LIMITER_STRATEGY_SIGMOID_COMPRESSION
  | SIM_LIMITER_STRATEGY_ADAPTIVE_BIAS
  | SIM_LIMITER_STRATEGY_STAT_AWARE
  | SIM_LIMITER_STRATEGY_PER_FIELD_OVERRIDE

datatype SimRepresentationMode =
    SIM_REPRESENTATION_MODE_STRICT
  | SIM_REPRESENTATION_MODE_RELAXED
  | SIM_REPRESENTATION_MODE_EXPLORATION

datatype SimNeuralDeterminismPolicy =
    SIM_NEURAL_DETERMINISM_INHERIT
  | SIM_NEURAL_DETERMINISM_STRICT
  | SIM_NEURAL_DETERMINISM_BEST_EFFORT
  | SIM_NEURAL_DETERMINISM_OFF

datatype SimNeuralDeviceRequirement =
    SIM_NEURAL_DEVICE_ANY
  | SIM_NEURAL_DEVICE_CPU_ONLY
  | SIM_NEURAL_DEVICE_ACCELERATOR_PREFERRED
  | SIM_NEURAL_DEVICE_ACCELERATOR_REQUIRED

datatype SimNeuralPrecisionMode =
    SIM_NEURAL_PRECISION_DEFAULT
  | SIM_NEURAL_PRECISION_FP32
  | SIM_NEURAL_PRECISION_FP64
  | SIM_NEURAL_PRECISION_MIXED
  | SIM_NEURAL_PRECISION_FP16
  | SIM_NEURAL_PRECISION_BF16

datatype SimOperatorInvariantKind =
    SIM_OPERATOR_INVARIANT_NONE
  | SIM_OPERATOR_INVARIANT_L2_NORM
  | SIM_OPERATOR_INVARIANT_L1_NORM
  | SIM_OPERATOR_INVARIANT_ENERGY
  | SIM_OPERATOR_INVARIANT_MASS
  | SIM_OPERATOR_INVARIANT_MEAN
  | SIM_OPERATOR_INVARIANT_VARIANCE

definition SIM_OPERATOR_NAME_MAX :: nat where "SIM_OPERATOR_NAME_MAX = 63"

definition SIM_OPERATOR_SCHEMA_KEY_MAX :: nat where "SIM_OPERATOR_SCHEMA_KEY_MAX = 127"

definition SIM_OPERATOR_MAX_SPACING_DIMS :: nat where "SIM_OPERATOR_MAX_SPACING_DIMS = 4"

definition SIM_OPERATOR_MAX_INVARIANTS :: nat where "SIM_OPERATOR_MAX_INVARIANTS = 4"

definition SIM_NEURAL_CHANNEL_AXIS_AUTO :: u8 where "SIM_NEURAL_CHANNEL_AXIS_AUTO = 255"

text \<open>The bits of \<^verbatim>\<open>SimDeterminismFlags\<close>.\<close>

definition SIM_DET_NONE :: u32 where "SIM_DET_NONE = 0"
definition SIM_DET_PURE_TIME :: u32 where "SIM_DET_PURE_TIME = 1"
definition SIM_DET_REWIND_SAFE :: u32 where "SIM_DET_REWIND_SAFE = 2"
definition SIM_DET_NO_STATEFUL_NODES :: u32 where "SIM_DET_NO_STATEFUL_NODES = 4"
definition SIM_DET_DETERMINISTIC_RNG_ONLY :: u32 where "SIM_DET_DETERMINISTIC_RNG_ONLY = 8"

record SimOperatorConfig =
  cf_continuity :: "SimContinuityMode c_enum"
  cf_clamp_min :: f64
  cf_clamp_max :: f64
  cf_continuity_tol :: f64
  cf_boundary :: "SimIRBoundaryPolicy c_enum"
  cf_spacing_rank :: u8
  cf_spacing :: "f64 list"
  cf_norm_budget :: f64
  cf_norm_budget_softness :: f64
  cf_representation_mode_override_enabled :: bool
  cf_representation_mode_override :: "SimRepresentationMode c_enum"

record SimOperatorRepresentation =
  or_domain :: "SimFieldDomain c_enum"
  or_value_kind :: "SimFieldValueKind c_enum"
  or_requires_complex_input :: bool
  or_preserves_real_subspace :: bool
  or_requires_complex_representation :: bool
  or_boundary :: "SimIRBoundaryPolicy c_enum"
  or_spacing_hint_rank :: u8
  or_spacing_hint :: "f64 list"

record SimOperatorApproximation =
  ap_spatial_order :: f64
  ap_stencil_order :: f64
  ap_error_constant :: f64
  ap_temporal_order :: f64

record SimNeuralShapeConstraints =
  ns_min_rank :: u8
  ns_max_rank :: u8
  ns_channel_axis :: u8
  ns_min_channels :: u32
  ns_max_channels :: u32
  ns_channels_last :: bool
  ns_allow_complex_input :: bool

record SimOperatorNeuralContract =
  nc_enabled :: bool
  nc_determinism_policy :: "SimNeuralDeterminismPolicy c_enum"
  nc_device_requirement :: "SimNeuralDeviceRequirement c_enum"
  nc_precision_mode :: "SimNeuralPrecisionMode c_enum"
  nc_shape :: SimNeuralShapeConstraints

record SimOperatorInvariant =
  iv_kind :: SimOperatorInvariantKind
  iv_tolerance :: f64

text \<open>
  \<^verbatim>\<open>SimOperatorInfo\<close>. A callback is a handle of its code, here \<open>abstract_id_fn\<close>; what the code does is an
  argument of the functions that call it. The key is the text the pointer leads to.
\<close>

record SimOperatorInfo =
  oi_category :: "SimOperatorCategory c_enum"
  oi_warp_level :: SimWarpLevel
  oi_schema_key :: "string option"
  oi_has_ir_opcode :: bool
  oi_ir_opcode :: "SimIROpcode c_enum"
  oi_is_noise :: bool
  oi_is_differentiable :: bool
  oi_is_spectral :: bool
  oi_is_local :: bool
  oi_is_nonlocal :: bool
  oi_is_linear :: bool
  oi_is_warp :: bool
  oi_preserves_real :: bool
  oi_preferred_dt :: f64
  oi_abstract_id :: "string option"
  oi_abstract_id_fn :: "nat option"
  oi_algebraic_flags :: u32
  oi_determinism_flags :: u32
  oi_neural :: SimOperatorNeuralContract
  oi_representation :: SimOperatorRepresentation
  oi_approximation :: SimOperatorApproximation
  oi_invariants :: "SimOperatorInvariant list"
  oi_invariant_count :: u8

section \<open>Names of enumerations\<close>

definition sim_continuity_mode_name :: "SimContinuityMode c_enum \<Rightarrow> string" where
  "sim_continuity_mode_name mode =
     (case mode of
        Named SIM_CONTINUITY_NONE \<Rightarrow> ''none''
      | Named SIM_CONTINUITY_STRICT \<Rightarrow> ''strict''
      | Named SIM_CONTINUITY_CLAMPED \<Rightarrow> ''clamped''
      | Named SIM_CONTINUITY_LIMITED \<Rightarrow> ''limited''
      | Unnamed _ \<Rightarrow> ''none'')"

definition sim_continuity_mode_from_string :: "string option \<Rightarrow> SimContinuityMode option" where
  "sim_continuity_mode_from_string = first_match
     [(''none'', SIM_CONTINUITY_NONE), (''strict'', SIM_CONTINUITY_STRICT),
      (''clamped'', SIM_CONTINUITY_CLAMPED), (''limited'', SIM_CONTINUITY_LIMITED)]"

definition sim_continuity_limiter_name :: "SimContinuityLimiterStrategy c_enum \<Rightarrow> string" where
  "sim_continuity_limiter_name strategy =
     (case strategy of
        Named SIM_LIMITER_STRATEGY_HARD_CLIP \<Rightarrow> ''hard-clip''
      | Named SIM_LIMITER_STRATEGY_SOFT_CLIP \<Rightarrow> ''soft-clip''
      | Named SIM_LIMITER_STRATEGY_SIGMOID_COMPRESSION \<Rightarrow> ''sigmoid''
      | Named SIM_LIMITER_STRATEGY_ADAPTIVE_BIAS \<Rightarrow> ''adaptive-bias''
      | Named SIM_LIMITER_STRATEGY_STAT_AWARE \<Rightarrow> ''stat-aware''
      | Named SIM_LIMITER_STRATEGY_PER_FIELD_OVERRIDE \<Rightarrow> ''per-field-override''
      | Unnamed _ \<Rightarrow> ''unknown'')"

definition sim_boundary_policy_name :: "SimIRBoundaryPolicy c_enum \<Rightarrow> string" where
  "sim_boundary_policy_name policy =
     (case policy of
        Named SIM_IR_BOUNDARY_NEUMANN \<Rightarrow> ''neumann''
      | Named SIM_IR_BOUNDARY_DIRICHLET \<Rightarrow> ''dirichlet''
      | Named SIM_IR_BOUNDARY_PERIODIC \<Rightarrow> ''periodic''
      | Named SIM_IR_BOUNDARY_REFLECTIVE \<Rightarrow> ''reflective''
      | Unnamed _ \<Rightarrow> ''neumann'')"

definition sim_boundary_policy_from_string :: "string option \<Rightarrow> SimIRBoundaryPolicy option" where
  "sim_boundary_policy_from_string = first_match
     [(''neumann'', SIM_IR_BOUNDARY_NEUMANN), (''dirichlet'', SIM_IR_BOUNDARY_DIRICHLET),
      (''periodic'', SIM_IR_BOUNDARY_PERIODIC), (''reflective'', SIM_IR_BOUNDARY_REFLECTIVE),
      (''reflect'', SIM_IR_BOUNDARY_REFLECTIVE)]"

definition sim_ir_opcode_name :: "SimIROpcode c_enum \<Rightarrow> string" where
  "sim_ir_opcode_name opcode =
     (case opcode of
        Named OAK_OP_DIFF \<Rightarrow> ''diff''
      | Named OAK_OP_CONV \<Rightarrow> ''conv''
      | Named OAK_OP_DISP \<Rightarrow> ''disp''
      | Named OAK_OP_DIFFUSE \<Rightarrow> ''diffuse''
      | Named OAK_OP_WARP \<Rightarrow> ''warp''
      | Named OAK_OP_NOISE \<Rightarrow> ''noise''
      | Named OAK_OP_FLOW \<Rightarrow> ''flow''
      | Named OAK_OP_CORE \<Rightarrow> ''core''
      | Named OAK_OP_MISC \<Rightarrow> ''misc''
      | Unnamed _ \<Rightarrow> ''misc'')"

text \<open>
  The prefix test compares with the terminator too: a text shorter than the prefix differs from it
  there.
\<close>

fun sim_ascii_starts_with_ci :: "string \<Rightarrow> string \<Rightarrow> bool" where
  "sim_ascii_starts_with_ci text [] = True"
| "sim_ascii_starts_with_ci [] (p # ps) = False"
| "sim_ascii_starts_with_ci (t # ts) (p # ps) =
     (if tolower t \<noteq> tolower p then False else sim_ascii_starts_with_ci ts ps)"

definition sim_ascii_equal_ci :: "string option \<Rightarrow> string option \<Rightarrow> bool" where
  "sim_ascii_equal_ci lhs rhs =
     (case (lhs, rhs) of (Some l, Some r) \<Rightarrow> text_iequals_loop l r | _ \<Rightarrow> False)"

definition opcode_keys :: "(string \<times> SimIROpcode) list" where
  "opcode_keys =
     [(''diff'', OAK_OP_DIFF),
      (''conv'', OAK_OP_CONV), (''convolution'', OAK_OP_CONV),
      (''disp'', OAK_OP_DISP), (''dispersion'', OAK_OP_DISP),
      (''diffuse'', OAK_OP_DIFFUSE), (''diffusion'', OAK_OP_DIFFUSE),
      (''warp'', OAK_OP_WARP),
      (''noise'', OAK_OP_NOISE),
      (''flow'', OAK_OP_FLOW),
      (''core'', OAK_OP_CORE),
      (''misc'', OAK_OP_MISC)]"

definition sim_ir_opcode_from_string :: "string option \<Rightarrow> SimIROpcode option" where
  "sim_ir_opcode_from_string text =
     (case text of
        None \<Rightarrow> None
      | Some key \<Rightarrow>
          let key = (if sim_ascii_starts_with_ci key ''oak_op_'' then drop 7 key else key)
          in map_option snd (find (\<lambda>(literal, _). sim_ascii_equal_ci (Some key) (Some literal)) opcode_keys))"

section \<open>Configuration\<close>

definition sim_operator_resolve_continuity :: "SimContinuityMode c_enum \<Rightarrow> SimContinuityMode c_enum" where
  "sim_operator_resolve_continuity mode =
     (case mode of Named m \<Rightarrow> Named m | Unnamed _ \<Rightarrow> Named SIM_CONTINUITY_NONE)"

definition sim_operator_config_defaults :: SimOperatorConfig where
  "sim_operator_config_defaults =
     \<lparr>cf_continuity = Named SIM_CONTINUITY_NONE,
      cf_clamp_min = f64_zero,
      cf_clamp_max = f64_zero,
      cf_continuity_tol = f64_zero,
      cf_boundary = Named SIM_IR_BOUNDARY_NEUMANN,
      cf_spacing_rank = 0,
      cf_spacing = replicate SIM_OPERATOR_MAX_SPACING_DIMS f64_zero,
      cf_norm_budget = f64_zero,
      cf_norm_budget_softness = f64_zero,
      cf_representation_mode_override_enabled = False,
      cf_representation_mode_override = Named SIM_REPRESENTATION_MODE_RELAXED\<rparr>"

text \<open>The array of a caller and its length; \<open>None\<close> is a null pointer.\<close>

definition sim_operator_config_set_spacing ::
  "SimOperatorConfig option \<Rightarrow> f64 list option \<Rightarrow> SimOperatorConfig option" where
  "sim_operator_config_set_spacing config spacing =
     map_option (\<lambda>c.
       case spacing of
         None \<Rightarrow> c\<lparr>cf_spacing_rank := 0, cf_spacing := replicate SIM_OPERATOR_MAX_SPACING_DIMS f64_zero\<rparr>
       | Some sp \<Rightarrow>
           if sp = []
           then c\<lparr>cf_spacing_rank := 0, cf_spacing := replicate SIM_OPERATOR_MAX_SPACING_DIMS f64_zero\<rparr>
           else let rank = min (length sp) SIM_OPERATOR_MAX_SPACING_DIMS
                in c\<lparr>cf_spacing := take rank sp @ replicate (SIM_OPERATOR_MAX_SPACING_DIMS - rank) f64_zero,
                     cf_spacing_rank := word_of_nat rank\<rparr>) config"

text \<open>A nonnegative finite number, or zero; a positive finite number, or zero.\<close>

definition finite_nonnegative :: "f64 \<Rightarrow> f64" where
  "finite_nonnegative x = (if \<not> f64_isfinite x \<or> f64_less x f64_zero then f64_zero else x)"

definition finite_positive :: "f64 \<Rightarrow> f64" where
  "finite_positive x = (if \<not> f64_isfinite x \<or> f64_le x f64_zero then f64_zero else x)"

definition normalize_clamp :: "SimOperatorConfig \<Rightarrow> SimOperatorConfig" where
  "normalize_clamp c =
     (if \<not> f64_isfinite (cf_clamp_min c) \<or> \<not> f64_isfinite (cf_clamp_max c)
         \<or> f64_le (cf_clamp_max c) (cf_clamp_min c)
      then c\<lparr>cf_clamp_min := f64_zero, cf_clamp_max := f64_zero\<rparr> else c)"

definition normalize_spacing :: "SimOperatorConfig \<Rightarrow> SimOperatorConfig" where
  "normalize_spacing c =
     (let rank = (if cf_spacing_rank c > 4 then 4 else cf_spacing_rank c)
      in c\<lparr>cf_spacing_rank := rank,
           cf_spacing := map finite_positive (take (unat rank) (cf_spacing c))
                         @ drop (unat rank) (cf_spacing c)\<rparr>)"

definition normalize_representation_mode :: "SimOperatorConfig \<Rightarrow> SimOperatorConfig" where
  "normalize_representation_mode c =
     (if cf_representation_mode_override_enabled c
      then (case cf_representation_mode_override c of
              Named _ \<Rightarrow> c
            | Unnamed _ \<Rightarrow> c\<lparr>cf_representation_mode_override_enabled := False,
                 cf_representation_mode_override := Named SIM_REPRESENTATION_MODE_RELAXED\<rparr>)
      else c)"

definition named_boundary :: "SimIRBoundaryPolicy c_enum \<Rightarrow> SimIRBoundaryPolicy c_enum" where
  "named_boundary policy = (case policy of Named p \<Rightarrow> Named p | Unnamed _ \<Rightarrow> Named SIM_IR_BOUNDARY_NEUMANN)"

definition sim_operator_config_normalize :: "SimOperatorConfig \<Rightarrow> SimOperatorConfig" where
  "sim_operator_config_normalize c =
     (let c = c\<lparr>cf_continuity := sim_operator_resolve_continuity (cf_continuity c)\<rparr>;
          c = normalize_clamp c;
          c = c\<lparr>cf_continuity_tol := finite_nonnegative (cf_continuity_tol c)\<rparr>;
          c = c\<lparr>cf_norm_budget := finite_nonnegative (cf_norm_budget c)\<rparr>;
          c = c\<lparr>cf_norm_budget_softness := finite_nonnegative (cf_norm_budget_softness c)\<rparr>;
          c = c\<lparr>cf_boundary := named_boundary (cf_boundary c)\<rparr>;
          c = normalize_spacing c
      in normalize_representation_mode c)"

section \<open>Information record\<close>

definition sim_operator_ir_opcode_is_valid :: "SimIROpcode c_enum \<Rightarrow> bool" where
  "sim_operator_ir_opcode_is_valid opcode = (case opcode of Named _ \<Rightarrow> True | Unnamed _ \<Rightarrow> False)"

definition no_invariant :: SimOperatorInvariant where
  "no_invariant = \<lparr>iv_kind = SIM_OPERATOR_INVARIANT_NONE, iv_tolerance = f64_zero\<rparr>"

definition sim_operator_info_defaults :: SimOperatorInfo where
  "sim_operator_info_defaults =
     \<lparr>oi_category = Named SIM_OPERATOR_CATEGORY_UNKNOWN,
      oi_warp_level = SIM_WARP_LEVEL_NONE,
      oi_schema_key = None,
      oi_has_ir_opcode = False,
      oi_ir_opcode = Named OAK_OP_MISC,
      oi_is_noise = False,
      oi_is_differentiable = True,
      oi_is_spectral = False,
      oi_is_local = False,
      oi_is_nonlocal = False,
      oi_is_linear = False,
      oi_is_warp = False,
      oi_preserves_real = False,
      oi_preferred_dt = f64_zero,
      oi_abstract_id = None,
      oi_abstract_id_fn = None,
      oi_algebraic_flags = 0,
      oi_determinism_flags = SIM_DET_NONE,
      oi_neural =
        \<lparr>nc_enabled = False,
         nc_determinism_policy = Named SIM_NEURAL_DETERMINISM_INHERIT,
         nc_device_requirement = Named SIM_NEURAL_DEVICE_ANY,
         nc_precision_mode = Named SIM_NEURAL_PRECISION_DEFAULT,
         nc_shape =
           \<lparr>ns_min_rank = 1, ns_max_rank = 0, ns_channel_axis = SIM_NEURAL_CHANNEL_AXIS_AUTO,
            ns_min_channels = 0, ns_max_channels = 0, ns_channels_last = True,
            ns_allow_complex_input = True\<rparr>\<rparr>,
      oi_representation =
        \<lparr>or_domain = Named SIM_FIELD_DOMAIN_PHYSICAL,
         or_value_kind = Named SIM_FIELD_VALUE_REAL_SCALAR,
         or_requires_complex_input = False,
         or_preserves_real_subspace = False,
         or_requires_complex_representation = False,
         or_boundary = Named SIM_IR_BOUNDARY_NEUMANN,
         or_spacing_hint_rank = 0,
         or_spacing_hint = replicate SIM_OPERATOR_MAX_SPACING_DIMS f64_zero\<rparr>,
      oi_approximation =
        \<lparr>ap_spatial_order = f64_zero, ap_stencil_order = f64_zero, ap_error_constant = f64_zero,
         ap_temporal_order = f64_zero\<rparr>,
      oi_invariants = replicate SIM_OPERATOR_MAX_INVARIANTS no_invariant,
      oi_invariant_count = 0\<rparr>"

text \<open>
  The switches over the enumerations of the representation and the neural contract: the listed
  constants stay, every other value is replaced by the default.
\<close>

definition normalize_representation :: "SimOperatorRepresentation \<Rightarrow> SimOperatorRepresentation" where
  "normalize_representation r =
     (let defaults = oi_representation sim_operator_info_defaults;
          rank = (if or_spacing_hint_rank r > 4 then 4 else or_spacing_hint_rank r)
      in r\<lparr>or_spacing_hint_rank := rank,
           or_spacing_hint :=
             take (unat rank) (or_spacing_hint r)
             @ replicate (SIM_OPERATOR_MAX_SPACING_DIMS - unat rank) f64_zero,
           or_boundary := (case or_boundary r of Named p \<Rightarrow> Named p | Unnamed _ \<Rightarrow> or_boundary defaults),
           or_domain :=
             (case or_domain r of
                Named SIM_FIELD_DOMAIN_PHYSICAL \<Rightarrow> or_domain r
              | Named SIM_FIELD_DOMAIN_SPECTRAL \<Rightarrow> or_domain r
              | Named SIM_FIELD_DOMAIN_HYBRID \<Rightarrow> or_domain r
              | _ \<Rightarrow> or_domain defaults),
           or_value_kind :=
             (case or_value_kind r of
                Named SIM_FIELD_VALUE_REAL_SCALAR \<Rightarrow> or_value_kind r
              | Named SIM_FIELD_VALUE_COMPLEX_SCALAR \<Rightarrow> or_value_kind r
              | Named SIM_FIELD_VALUE_COMPLEX_IMAG_ZERO_CONSTRAINT \<Rightarrow> or_value_kind r
              | Named SIM_FIELD_VALUE_COMPLEX_REAL_CONSTRAINT \<Rightarrow> or_value_kind r
              | _ \<Rightarrow> or_value_kind defaults)\<rparr>)"

definition normalize_shape :: "SimNeuralShapeConstraints \<Rightarrow> SimNeuralShapeConstraints" where
  "normalize_shape s =
     (let defaults = nc_shape (oi_neural sim_operator_info_defaults);
          s = (if ns_min_rank s = 0 then s\<lparr>ns_min_rank := ns_min_rank defaults\<rparr> else s);
          s = (if ns_max_rank s > 0 \<and> ns_max_rank s < ns_min_rank s
               then s\<lparr>ns_max_rank := ns_min_rank s\<rparr> else s);
          s = (if ns_channel_axis s \<noteq> SIM_NEURAL_CHANNEL_AXIS_AUTO \<and> ns_channel_axis s > 15
               then s\<lparr>ns_channel_axis := ns_channel_axis defaults\<rparr> else s)
      in if ns_max_channels s > 0 \<and> ns_max_channels s < ns_min_channels s
         then s\<lparr>ns_max_channels := ns_min_channels s\<rparr> else s)"

definition normalize_neural :: "SimOperatorNeuralContract \<Rightarrow> SimOperatorNeuralContract" where
  "normalize_neural n =
     (let defaults = oi_neural sim_operator_info_defaults
      in n\<lparr>nc_determinism_policy :=
             (case nc_determinism_policy n of Named p \<Rightarrow> Named p | Unnamed _ \<Rightarrow> nc_determinism_policy defaults),
           nc_device_requirement :=
             (case nc_device_requirement n of Named p \<Rightarrow> Named p | Unnamed _ \<Rightarrow> nc_device_requirement defaults),
           nc_precision_mode :=
             (case nc_precision_mode n of Named p \<Rightarrow> Named p | Unnamed _ \<Rightarrow> nc_precision_mode defaults),
           nc_shape := normalize_shape (nc_shape n)\<rparr>)"

definition normalize_invariants :: "SimOperatorInfo \<Rightarrow> SimOperatorInfo" where
  "normalize_invariants info =
     (let count = (if oi_invariant_count info > 4 then 4 else oi_invariant_count info)
      in info\<lparr>oi_invariant_count := count,
              oi_invariants := take (unat count) (oi_invariants info)
                @ replicate (SIM_OPERATOR_MAX_INVARIANTS - unat count)
                    (oi_invariants sim_operator_info_defaults ! 0)\<rparr>)"

definition sim_operator_info_normalize :: "SimOperatorInfo \<Rightarrow> SimOperatorInfo" where
  "sim_operator_info_normalize info =
     (let info = (if oi_schema_key info = Some [] then info\<lparr>oi_schema_key := None\<rparr> else info);
          info = (if \<not> oi_has_ir_opcode info \<or> \<not> sim_operator_ir_opcode_is_valid (oi_ir_opcode info)
                  then info\<lparr>oi_has_ir_opcode := False,
                            oi_ir_opcode := oi_ir_opcode sim_operator_info_defaults\<rparr>
                  else info);
          info = info\<lparr>oi_representation := normalize_representation (oi_representation info)\<rparr>;
          info = info\<lparr>oi_neural := normalize_neural (oi_neural info)\<rparr>
      in normalize_invariants info)"

section \<open>Identity\<close>

text \<open>The switch over the category; \<^verbatim>\<open>BOUNDARY\<close> has no case of its own.\<close>

definition opcode_of_category :: "SimOperatorCategory c_enum \<Rightarrow> SimIROpcode" where
  "opcode_of_category category =
     (case category of
        Named SIM_OPERATOR_CATEGORY_DIFFUSION \<Rightarrow> OAK_OP_DIFFUSE
      | Named SIM_OPERATOR_CATEGORY_NOISE \<Rightarrow> OAK_OP_NOISE
      | Named SIM_OPERATOR_CATEGORY_ADVECTION \<Rightarrow> OAK_OP_FLOW
      | Named SIM_OPERATOR_CATEGORY_COUPLING \<Rightarrow> OAK_OP_FLOW
      | Named SIM_OPERATOR_CATEGORY_THERMOSTAT \<Rightarrow> OAK_OP_FLOW
      | Named SIM_OPERATOR_CATEGORY_POTENTIAL \<Rightarrow> OAK_OP_FLOW
      | Named SIM_OPERATOR_CATEGORY_UTILITY \<Rightarrow> OAK_OP_CORE
      | Named SIM_OPERATOR_CATEGORY_MEASUREMENT \<Rightarrow> OAK_OP_CORE
      | Named SIM_OPERATOR_CATEGORY_REACTION \<Rightarrow> OAK_OP_CORE
      | _ \<Rightarrow> OAK_OP_MISC)"

definition sim_operator_ir_opcode_for_identity ::
  "SimOperatorInfo option \<Rightarrow> string option \<Rightarrow> SimIROpcode" where
  "sim_operator_ir_opcode_for_identity info schema_key =
     (if schema_key = Some ''dispersion'' then OAK_OP_DISP
      else if schema_key = Some ''spatial_derivative'' then OAK_OP_DIFF
      else if schema_key = Some ''analytic_warp'' then OAK_OP_WARP
      else if schema_key = Some ''minimal_convolution'' \<or> schema_key = Some ''sieve'' then OAK_OP_CONV
      else (case info of
              None \<Rightarrow> OAK_OP_MISC
            | Some i \<Rightarrow> if oi_is_noise i then OAK_OP_NOISE else opcode_of_category (oi_category i)))"

definition nonempty_key :: "string option \<Rightarrow> string option" where
  "nonempty_key key = (if key = Some [] then None else key)"

definition sim_operator_info_set_identity ::
  "SimOperatorInfo \<Rightarrow> string option \<Rightarrow> SimIROpcode c_enum \<Rightarrow> SimOperatorInfo" where
  "sim_operator_info_set_identity info schema_key ir_opcode =
     (let info = info\<lparr>oi_schema_key := nonempty_key schema_key\<rparr>
      in if sim_operator_ir_opcode_is_valid ir_opcode
         then info\<lparr>oi_ir_opcode := ir_opcode, oi_has_ir_opcode := True\<rparr>
         else info\<lparr>oi_ir_opcode := Named OAK_OP_MISC, oi_has_ir_opcode := False\<rparr>)"

definition sim_operator_info_set_schema_identity ::
  "SimOperatorInfo \<Rightarrow> string option \<Rightarrow> SimOperatorInfo" where
  "sim_operator_info_set_schema_identity info schema_key =
     sim_operator_info_set_identity info schema_key
       (Named (sim_operator_ir_opcode_for_identity (Some info) schema_key))"

text \<open>
  \<^verbatim>\<open>sim_operator_info_apply_ir_metadata\<close>: one step of the loop over the nodes, and what follows it. The
  orders are counts, converted to \<^verbatim>\<open>double\<close> and compared with the maximum as doubles.
\<close>

record ir_metadata =
  im_saw_diff :: bool
  im_order :: f64
  im_stencil :: f64
  im_constant :: f64
  im_boundary :: "SimIRBoundaryPolicy c_enum"

definition raise_maximum :: "f64 \<Rightarrow> f64 \<Rightarrow> f64" where
  "raise_maximum x maximum = (if f64_less maximum x then x else maximum)"

definition ir_metadata_step :: "ir_metadata \<Rightarrow> SimIRNode \<Rightarrow> ir_metadata" where
  "ir_metadata_step acc node =
     (case (nd_type node, nd_data node) of
        (SIM_IR_NODE_DIFF, Data_diff d) \<Rightarrow>
          \<lparr>im_saw_diff = True,
           im_order = raise_maximum (f64_of_int (int (df_order d))) (im_order acc),
           im_stencil = raise_maximum (f64_of_int (int (df_stencil_order d))) (im_stencil acc),
           im_constant = raise_maximum (df_consistency_constant d) (im_constant acc),
           im_boundary =
             (if im_boundary acc = Named SIM_IR_BOUNDARY_NEUMANN \<and> df_boundary d \<noteq> SIM_IR_BOUNDARY_NEUMANN
              then Named (df_boundary d) else im_boundary acc)\<rparr>
      | _ \<Rightarrow> acc)"

definition default_when_unset :: "f64 \<Rightarrow> f64 \<Rightarrow> f64" where
  "default_when_unset x d = (if f64_le x f64_zero then d else x)"

definition sim_operator_info_apply_ir_metadata :: "SimOperatorInfo \<Rightarrow> SimIRBuilder \<Rightarrow> SimOperatorInfo" where
  "sim_operator_info_apply_ir_metadata info b =
     (let acc = foldl (\<lambda>acc node. ir_metadata_step acc node)
                  \<lparr>im_saw_diff = False, im_order = f64_zero, im_stencil = f64_zero, im_constant = f64_zero,
                   im_boundary = or_boundary (oi_representation info)\<rparr> (ir_nodes b);
          info = info\<lparr>oi_representation := (oi_representation info)\<lparr>or_boundary := im_boundary acc\<rparr>\<rparr>;
          a = oi_approximation info
      in if im_saw_diff acc
         then info\<lparr>oi_approximation :=
                a\<lparr>ap_spatial_order := default_when_unset (ap_spatial_order a) (im_order acc),
                  ap_stencil_order := default_when_unset (ap_stencil_order a) (im_stencil acc),
                  ap_error_constant := default_when_unset (ap_error_constant a) (im_constant acc)\<rparr>\<rparr>
         else info)"

section \<open>Names and their parsers\<close>

lemma starts_with_ci_take:
  "sim_ascii_starts_with_ci s pre \<longleftrightarrow>
     length pre \<le> length s \<and> map tolower (take (length pre) s) = map tolower pre"
  by (induction s pre rule: sim_ascii_starts_with_ci.induct) auto

lemma starts_with_ci_case:
  assumes "map tolower s = map tolower t"
  shows "sim_ascii_starts_with_ci s pre = sim_ascii_starts_with_ci t pre"
  using assms map_eq_imp_length_eq [OF assms]
  by (simp add: starts_with_ci_take take_map [symmetric])

lemma ascii_equal_ci_iff: "sim_ascii_equal_ci (Some s) (Some t) \<longleftrightarrow> map tolower s = map tolower t"
  by (simp add: sim_ascii_equal_ci_def text_iequals_loop_iff)

lemma opcode_case_blind:
  assumes "map tolower s = map tolower t"
  shows "sim_ir_opcode_from_string (Some s) = sim_ir_opcode_from_string (Some t)"
proof -
  have "map tolower (drop 7 s) = map tolower (drop 7 t)"
    using assms by (simp add: drop_map [symmetric])
  then show ?thesis
    using assms starts_with_ci_case [OF assms, of "''oak_op_''"]
    by (simp add: sim_ir_opcode_from_string_def ascii_equal_ci_iff Let_def)
qed

interpretation continuity_names:
  name_codec "\<lambda>m. sim_continuity_mode_name (Named m)" sim_continuity_mode_from_string UNIV
proof
  fix a show "sim_continuity_mode_from_string (Some (sim_continuity_mode_name (Named a))) = Some a"
    by (induction a) code_simp+
qed (unfold sim_continuity_mode_from_string_def, rule first_match_case)

interpretation boundary_names:
  name_codec "\<lambda>p. sim_boundary_policy_name (Named p)" sim_boundary_policy_from_string UNIV
proof
  fix a show "sim_boundary_policy_from_string (Some (sim_boundary_policy_name (Named a))) = Some a"
    by (induction a) code_simp+
qed (unfold sim_boundary_policy_from_string_def, rule first_match_case)

interpretation opcode_names:
  name_codec "\<lambda>p. sim_ir_opcode_name (Named p)" sim_ir_opcode_from_string UNIV
proof
  fix a show "sim_ir_opcode_from_string (Some (sim_ir_opcode_name (Named a))) = Some a"
    by (induction a) code_simp+
qed (rule opcode_case_blind)

section \<open>Normal configurations\<close>

text \<open>
  What the consumers of a configuration may rely on: named enumerations, a proper finite clamp interval
  or none (both bounds zero), finite nonnegative tolerances, and at most four spacings, each positive
  and finite or zero.
\<close>

definition clamp_normal :: "SimOperatorConfig \<Rightarrow> bool" where
  "clamp_normal c \<longleftrightarrow>
     cf_clamp_min c = f64_zero \<and> cf_clamp_max c = f64_zero
     \<or> f64_isfinite (cf_clamp_min c) \<and> f64_isfinite (cf_clamp_max c)
       \<and> f64_less (cf_clamp_min c) (cf_clamp_max c)"

definition config_normal :: "SimOperatorConfig \<Rightarrow> bool" where
  "config_normal c \<longleftrightarrow>
     (\<exists>m. cf_continuity c = Named m) \<and> (\<exists>p. cf_boundary c = Named p) \<and> clamp_normal c
     \<and> (\<forall>x \<in> {cf_continuity_tol c, cf_norm_budget c, cf_norm_budget_softness c}.
          f64_isfinite x \<and> f64_le f64_zero x)
     \<and> cf_spacing_rank c \<le> 4
     \<and> (\<forall>x \<in> set (take (unat (cf_spacing_rank c)) (cf_spacing c)).
          x = f64_zero \<or> f64_isfinite x \<and> f64_less f64_zero x)
     \<and> (cf_representation_mode_override_enabled c \<longrightarrow>
          (\<exists>m. cf_representation_mode_override c = Named m))"

lemma finite_not_nan: "f64_isfinite x \<Longrightarrow> \<not> f64_isnan x"
  by (auto simp: f64_isfinite_def f64_isnan_def f64_exponent_def div_less_iff_less_mult)

lemma finite_zero [simp]: "f64_isfinite f64_zero"
  by (simp add: f64_isfinite_def f64_exponent_def f64_magnitude_def)

lemma zero_le_zero [simp]: "f64_le f64_zero f64_zero"
  by (simp add: f64_le_def finite_not_nan)

lemma finite_order:
  assumes "f64_isfinite x" "f64_isfinite y"
  shows "\<not> f64_le y x \<longleftrightarrow> f64_less x y" "\<not> f64_less y x \<longleftrightarrow> f64_le x y"
  using assms by (auto simp: f64_le_def f64_less_def finite_not_nan)

lemma finite_nonnegative_normal:
  "f64_isfinite (finite_nonnegative x) \<and> f64_le f64_zero (finite_nonnegative x)"
  by (auto simp: finite_nonnegative_def finite_order)

lemma finite_nonnegative_id: "f64_isfinite x \<Longrightarrow> f64_le f64_zero x \<Longrightarrow> finite_nonnegative x = x"
  by (auto simp: finite_nonnegative_def finite_order(2) [OF finite_zero, symmetric])

lemma finite_positive_normal:
  "finite_positive x = f64_zero \<or> f64_isfinite (finite_positive x) \<and> f64_less f64_zero (finite_positive x)"
  by (auto simp: finite_positive_def finite_order)

lemma finite_positive_id:
  "x = f64_zero \<or> f64_isfinite x \<and> f64_less f64_zero x \<Longrightarrow> finite_positive x = x"
  by (auto simp: finite_positive_def finite_order(1) [OF finite_zero, symmetric])

lemma clamp_normalize: "clamp_normal (normalize_clamp c)"
  by (auto simp: clamp_normal_def normalize_clamp_def finite_order)

lemma clamp_normal_id: "clamp_normal c \<Longrightarrow> normalize_clamp c = c"
  by (auto simp: clamp_normal_def normalize_clamp_def finite_order(1) [symmetric])

lemma spacing_rank_le: "cf_spacing_rank (normalize_spacing c) \<le> 4"
  by (auto simp: normalize_spacing_def Let_def)

lemma spacing_normalize:
  assumes "x \<in> set (take (unat (cf_spacing_rank (normalize_spacing c))) (cf_spacing (normalize_spacing c)))"
  shows "x = f64_zero \<or> f64_isfinite x \<and> f64_less f64_zero x"
proof -
  let ?r = "unat (if cf_spacing_rank c > 4 then 4 else cf_spacing_rank c)"
  have "x \<in> set (take ?r (map finite_positive (take ?r (cf_spacing c)) @ drop ?r (cf_spacing c)))"
    using assms by (simp add: normalize_spacing_def Let_def)
  then have "x \<in> set (map finite_positive (take ?r (cf_spacing c)))"
    by (cases "?r \<le> length (cf_spacing c)") (auto simp: min_def)
  then show ?thesis using finite_positive_normal by auto
qed

lemma spacing_normal_id:
  assumes "cf_spacing_rank c \<le> 4"
    and "\<forall>x \<in> set (take (unat (cf_spacing_rank c)) (cf_spacing c)).
           x = f64_zero \<or> f64_isfinite x \<and> f64_less f64_zero x"
  shows "normalize_spacing c = c"
proof -
  have "map finite_positive (take (unat (cf_spacing_rank c)) (cf_spacing c))
        = take (unat (cf_spacing_rank c)) (cf_spacing c)"
    using assms(2) by (intro map_idI finite_positive_id) blast
  then show ?thesis using assms(1) by (simp add: normalize_spacing_def not_less)
qed

lemma normalize_mode_fields:
  "cf_continuity (normalize_representation_mode c) = cf_continuity c"
  "cf_clamp_min (normalize_representation_mode c) = cf_clamp_min c"
  "cf_clamp_max (normalize_representation_mode c) = cf_clamp_max c"
  "cf_continuity_tol (normalize_representation_mode c) = cf_continuity_tol c"
  "cf_boundary (normalize_representation_mode c) = cf_boundary c"
  "cf_spacing_rank (normalize_representation_mode c) = cf_spacing_rank c"
  "cf_spacing (normalize_representation_mode c) = cf_spacing c"
  "cf_norm_budget (normalize_representation_mode c) = cf_norm_budget c"
  "cf_norm_budget_softness (normalize_representation_mode c) = cf_norm_budget_softness c"
  by (auto simp: normalize_representation_mode_def split: c_enum.split)

lemma normalize_spacing_fields:
  "cf_continuity (normalize_spacing c) = cf_continuity c"
  "cf_clamp_min (normalize_spacing c) = cf_clamp_min c"
  "cf_clamp_max (normalize_spacing c) = cf_clamp_max c"
  "cf_continuity_tol (normalize_spacing c) = cf_continuity_tol c"
  "cf_boundary (normalize_spacing c) = cf_boundary c"
  "cf_norm_budget (normalize_spacing c) = cf_norm_budget c"
  "cf_norm_budget_softness (normalize_spacing c) = cf_norm_budget_softness c"
  by (simp_all add: normalize_spacing_def Let_def)

lemma normalize_clamp_fields:
  "cf_continuity (normalize_clamp c) = cf_continuity c"
  "cf_continuity_tol (normalize_clamp c) = cf_continuity_tol c"
  "cf_boundary (normalize_clamp c) = cf_boundary c"
  "cf_norm_budget (normalize_clamp c) = cf_norm_budget c"
  "cf_norm_budget_softness (normalize_clamp c) = cf_norm_budget_softness c"
  by (simp_all add: normalize_clamp_def)

lemmas normalize_fields = normalize_mode_fields normalize_spacing_fields normalize_clamp_fields

lemma config_normalize_fields:
  "cf_continuity (sim_operator_config_normalize c) = sim_operator_resolve_continuity (cf_continuity c)"
  "cf_boundary (sim_operator_config_normalize c) = named_boundary (cf_boundary c)"
  "cf_continuity_tol (sim_operator_config_normalize c) = finite_nonnegative (cf_continuity_tol c)"
  "cf_norm_budget (sim_operator_config_normalize c) = finite_nonnegative (cf_norm_budget c)"
  "cf_norm_budget_softness (sim_operator_config_normalize c) =
     finite_nonnegative (cf_norm_budget_softness c)"
  by (simp_all add: sim_operator_config_normalize_def normalize_fields Let_def)

lemma config_normalize_clamp: "clamp_normal (sim_operator_config_normalize c)"
  using clamp_normalize [of "c\<lparr>cf_continuity := sim_operator_resolve_continuity (cf_continuity c)\<rparr>"]
  by (simp add: clamp_normal_def sim_operator_config_normalize_def normalize_mode_fields
      normalize_spacing_fields Let_def)

lemma config_normalize_normal: "config_normal (sim_operator_config_normalize c)"
proof -
  let ?n = "sim_operator_config_normalize c"
  obtain c' where n: "?n = normalize_representation_mode (normalize_spacing c')"
    unfolding sim_operator_config_normalize_def Let_def by blast
  have "\<exists>m. cf_continuity ?n = Named m"
    by (simp add: config_normalize_fields sim_operator_resolve_continuity_def split: c_enum.split)
  moreover have "\<exists>p. cf_boundary ?n = Named p"
    by (simp add: config_normalize_fields named_boundary_def split: c_enum.split)
  moreover have "\<forall>x \<in> {cf_continuity_tol ?n, cf_norm_budget ?n, cf_norm_budget_softness ?n}.
      f64_isfinite x \<and> f64_le f64_zero x"
    by (simp add: config_normalize_fields finite_nonnegative_normal)
  moreover have "cf_spacing_rank ?n \<le> 4"
    unfolding n normalize_mode_fields by (rule spacing_rank_le)
  moreover have "\<forall>x \<in> set (take (unat (cf_spacing_rank ?n)) (cf_spacing ?n)).
      x = f64_zero \<or> f64_isfinite x \<and> f64_less f64_zero x"
    unfolding n normalize_mode_fields by (intro ballI spacing_normalize)
  moreover have "cf_representation_mode_override_enabled ?n \<longrightarrow>
      (\<exists>m. cf_representation_mode_override ?n = Named m)"
    unfolding n normalize_representation_mode_def by (auto split: c_enum.splits)
  ultimately show ?thesis using config_normalize_clamp unfolding config_normal_def by blast
qed

lemma config_normal_id:
  assumes "config_normal c" shows "sim_operator_config_normalize c = c"
proof -
  note n = assms [unfolded config_normal_def]
  have "c\<lparr>cf_continuity := sim_operator_resolve_continuity (cf_continuity c)\<rparr> = c"
    using n by (auto simp: sim_operator_resolve_continuity_def)
  moreover have "c\<lparr>cf_continuity_tol := finite_nonnegative (cf_continuity_tol c)\<rparr> = c"
    "c\<lparr>cf_norm_budget := finite_nonnegative (cf_norm_budget c)\<rparr> = c"
    "c\<lparr>cf_norm_budget_softness := finite_nonnegative (cf_norm_budget_softness c)\<rparr> = c"
    using n by (simp_all add: finite_nonnegative_id)
  moreover have "c\<lparr>cf_boundary := named_boundary (cf_boundary c)\<rparr> = c"
    using n by (auto simp: named_boundary_def)
  moreover have "normalize_representation_mode c = c"
    using n by (auto simp: normalize_representation_mode_def)
  ultimately show ?thesis
    using n by (simp add: sim_operator_config_normalize_def clamp_normal_id spacing_normal_id)
qed

text \<open>
  C40. Normalization of an operator configuration always reaches the normal form, and changes nothing in a
  configuration that is in normal form already.
\<close>

theorem config_normalize_canonical:
  "config_normal (sim_operator_config_normalize c)
   \<and> sim_operator_config_normalize (sim_operator_config_normalize c) = sim_operator_config_normalize c"
  using config_normalize_normal config_normal_id by blast

section \<open>Opcode names\<close>

lemma opcode_prefix_strip:
  assumes "map tolower pre = map tolower ''oak_op_''" "\<not> sim_ascii_starts_with_ci s ''oak_op_''"
  shows "sim_ir_opcode_from_string (Some (pre @ s)) = sim_ir_opcode_from_string (Some s)"
proof -
  have l: "length pre = 7" using map_eq_imp_length_eq [OF assms(1)] by simp
  then have "sim_ascii_starts_with_ci (pre @ s) ''oak_op_''"
    using assms(1) by (simp add: starts_with_ci_take)
  then show ?thesis using assms(2) l by (simp add: sim_ir_opcode_from_string_def)
qed

lemma opcode_name_no_prefix:
  assumes "map tolower s = map tolower (sim_ir_opcode_name (Named opcode))"
  shows "\<not> sim_ascii_starts_with_ci s ''oak_op_''"
  unfolding starts_with_ci_case [OF assms] by (cases opcode; hypsubst; code_simp)

text \<open>
  The name of every opcode parses back to it in any capitalisation, with or without the prefix
  \<^verbatim>\<open>oak_op_\<close>, itself in any capitalisation.
\<close>

theorem opcode_name_roundtrip:
  assumes "map tolower s = map tolower (sim_ir_opcode_name (Named opcode))"
    and "pre = '''' \<or> map tolower pre = map tolower ''oak_op_''"
  shows "sim_ir_opcode_from_string (Some (pre @ s)) = Some opcode"
proof -
  have "sim_ir_opcode_from_string (Some s) = Some opcode"
    by (rule opcode_names.any_capitalisation [OF UNIV_I assms(1)])
  then show ?thesis
    using assms(2) opcode_prefix_strip [OF _ opcode_name_no_prefix [OF assms(1)], of pre]
    by (cases "pre = []") (simp_all only: append_Nil simp_thms)
qed

lemma opcode_name_roundtrip_witness:
  "sim_ir_opcode_from_string (Some (''OAK_op_'' @ ''Diffuse'')) = Some OAK_OP_DIFFUSE"
proof (rule opcode_name_roundtrip)
  show "map tolower ''Diffuse'' = map tolower (sim_ir_opcode_name (Named OAK_OP_DIFFUSE))" by code_simp
  show "''OAK_op_'' = '''' \<or> map tolower ''OAK_op_'' = map tolower ''oak_op_''" by code_simp
qed

end
