(* ===== verification/Operator_Registry.thy ===== *)
theory Operator_Registry
  imports Operator_Info Operator_Plan IR_Reach
begin

text \<open>
  The operator registry of \<^verbatim>\<open>core/src/operator.c\<close>: a registered operator extends the record the
  scheduler reads; registration copies a descriptor, its index sets, its dependencies and its kernel
  with the builder, tags the builder's nodes with the opcode of the operator, and appends the result.

  Callbacks and payloads are handles. What a call of \<^verbatim>\<open>destroy\<close> does is not part of the sources: the
  operations return the list of the calls they make, each with its payload. The counter behind the
  identifiers is a global of the file; the operations take it and return it. The seed \<open>epoch\<close> that the
  first call reads from the clock is an argument.
\<close>

unbundle bit_operations_syntax

section \<open>Data\<close>

datatype SimKernelComplexSemantics =
    SIM_KERNEL_COMPLEX_SEMANTICS_TRUE_COMPLEX
  | SIM_KERNEL_COMPLEX_SEMANTICS_COMPONENTWISE

text \<open>A binding names a field of the context by its index; all but the first member are clear until the kernel is bound.\<close>

record SimKernelIRBinding =
  kb_field_index :: nat
  kb_field :: "nat option"
  kb_shape :: "size_t list option"
  kb_strides :: "size_t list option"
  kb_rank :: nat

record SimKernelIROutput =
  ko_field_index :: nat
  ko_expression :: SimIRNodeId

record SimOperatorKernelBindingDescriptor =
  bd_ir_field_index :: nat
  bd_context_field_index :: nat

record SimOperatorKernelOutputDescriptor =
  od_ir_field_index :: nat
  od_expression :: SimIRNodeId

text \<open>An array with its count is a list; \<open>None\<close> is a null array. \<open>kd_param_count\<close> may go with no array.\<close>

record SimOperatorKernelDescriptor =
  kd_builder :: "SimIRBuilder option"
  kd_bindings :: "SimOperatorKernelBindingDescriptor list option"
  kd_outputs :: "SimOperatorKernelOutputDescriptor list option"
  kd_params :: "f64 list option"
  kd_param_count :: nat
  kd_required_features :: u64
  kd_complex_semantics :: SimKernelComplexSemantics

text \<open>\<^verbatim>\<open>SimOperatorKernel\<close> with the members of the \<^verbatim>\<open>KernelIR\<close> inside, which point to the same arrays.\<close>

record SimOperatorKernel =
  kn_builder :: SimIRBuilder
  kn_binding_map :: "SimOperatorKernelBindingDescriptor list"
  kn_bindings :: "SimKernelIRBinding list"
  kn_output_map :: "SimOperatorKernelOutputDescriptor list"
  kn_outputs :: "SimKernelIROutput list"
  kn_params :: "f64 list"
  kn_required_features :: u64
  kn_complex_semantics :: SimKernelComplexSemantics

record SimOperatorDescriptor =
  dc_name :: "string option"
  dc_config :: SimOperatorConfig
  dc_evaluate :: "nat option"
  dc_destroy :: "nat option"
  dc_userdata :: "nat option"
  dc_dependencies :: "nat list"
  dc_kernel :: "SimOperatorKernelDescriptor option"
  dc_info :: SimOperatorInfo
  dc_read_mask :: u64
  dc_write_mask :: u64
  dc_read_indices :: "nat list"
  dc_write_indices :: "nat list"
  dc_required_features :: u64
  dc_catalog_metadata :: "nat option"
  dc_save_state :: "nat option"
  dc_restore_state :: "nat option"
  dc_config_adapter :: "nat option"
  dc_graph_ir_view :: "nat option"

record SimOperatorEntry = SimOperator +
  op_schema_key :: string
  op_evaluate :: "nat option"
  op_save_state :: "nat option"
  op_restore_state :: "nat option"
  op_destroy :: "nat option"
  op_userdata :: "nat option"
  op_kernel :: "SimOperatorKernel option"
  op_info :: SimOperatorInfo
  op_config :: SimOperatorConfig
  op_required_features :: u64
  op_catalog_metadata :: "nat option"
  op_config_adapter :: "nat option"
  op_graph_ir_view :: "nat option"

record SimOperatorRegistry =
  rg_records :: "SimOperatorEntry list"
  rg_capacity :: nat

text \<open>A call of a \<^verbatim>\<open>destroy\<close> callback: the callback and its payload.\<close>

type_synonym destroy_call = "nat \<times> nat option"

definition sizeof_SimOperator :: nat where "sizeof_SimOperator = 696"
definition sizeof_SimOperatorKernel :: nat where "sizeof_SimOperatorKernel = 136"
definition sizeof_SimKernelIRBinding :: nat where "sizeof_SimKernelIRBinding = 40"
definition sizeof_SimIRBuilder :: nat where "sizeof_SimIRBuilder = 88"

section \<open>Identifiers\<close>

definition sim_operator_next_guid :: "u64 \<Rightarrow> u64 \<Rightarrow> u64 \<times> u64" where
  "sim_operator_next_guid epoch counter =
     (let counter = counter + 1;
          guid = counter XOR (push_bit 17 epoch)
      in (if guid = 0 then counter XOR 0x9E3779B97F4A7C15 else guid, counter))"

section \<open>Kernels\<close>

text \<open>The copy of a builder: the arrays keep their capacities, only the live entries are copied.\<close>

definition copy_builder :: "heap \<Rightarrow> SimIRBuilder \<Rightarrow> SimIRBuilder option" where
  "copy_builder heap src =
     (if \<not> calloc_ok heap 1 sizeof_SimIRBuilder then None
      else if b_capacity src > 0 \<and> \<not> malloc_ok heap (b_capacity src * sizeof_ir_node) then None
      else
        let copy = empty_builder\<lparr>b_capacity := b_capacity src,
               b_default_boundary := b_default_boundary src,
               b_nodes := (if b_capacity src > 0 then Some (ir_nodes src) else None)\<rparr>;
            count = length (b_constants_components src)
        in if count = 0 then Some copy
           else
             let entry_capacity = max (b_constants_capacity src) count;
                 used = length (ir_constants src);
                 data_capacity = max (b_constants_data_capacity src) used
             in if \<not> malloc_ok heap (entry_capacity * 8) then None
                else
                  let copy = copy\<lparr>b_constants_capacity := entry_capacity,
                        b_constants_offsets := b_constants_offsets src,
                        b_constants_components := b_constants_components src\<rparr>
                  in if used = 0 then Some copy
                     else if \<not> malloc_ok heap (data_capacity * 8) then None
                     else Some (copy\<lparr>b_constants_data_capacity := data_capacity,
                                     b_constants_data := Some (ir_constants src)\<rparr>))"

text \<open>
  \<^verbatim>\<open>params\<close> is an array of \<open>kd_param_count\<close> entries, cleared by \<^verbatim>\<open>calloc\<close> where the descriptor has none.
\<close>

definition copy_params :: "SimOperatorKernelDescriptor \<Rightarrow> f64 list" where
  "copy_params d = (case kd_params d of
     None \<Rightarrow> replicate (kd_param_count d) f64_zero
   | Some ps \<Rightarrow> take (kd_param_count d) ps)"

definition sim_operator_kernel_init ::
  "heap \<Rightarrow> SimOperatorKernelDescriptor option \<Rightarrow> SimResult + SimOperatorKernel option" where
  "sim_operator_kernel_init heap descriptor =
     (case descriptor of
        None \<Rightarrow> Inr None
      | Some d \<Rightarrow>
          (case (kd_builder d, kd_bindings d, kd_outputs d) of
             (Some src, Some bindings, Some outputs) \<Rightarrow>
               if bindings = [] \<or> outputs = [] then Inl SIM_RESULT_INVALID_ARGUMENT
               else if \<not> calloc_ok heap 1 sizeof_SimOperatorKernel then Inl SIM_RESULT_OUT_OF_MEMORY
               else if \<not> calloc_ok heap (length bindings) sizeof_SimKernelIRBinding
                     \<or> \<not> calloc_ok heap (length bindings) 16
                     \<or> \<not> calloc_ok heap (length outputs) 16 then Inl SIM_RESULT_OUT_OF_MEMORY
               else if kd_param_count d > 0 \<and> \<not> calloc_ok heap (kd_param_count d) 8
                 then Inl SIM_RESULT_OUT_OF_MEMORY
               else (case copy_builder heap src of
                       None \<Rightarrow> Inl SIM_RESULT_OUT_OF_MEMORY
                     | Some copy \<Rightarrow> Inr (Some
                         \<lparr>kn_builder = copy,
                          kn_binding_map = bindings,
                          kn_bindings = map (\<lambda>b. \<lparr>kb_field_index = bd_ir_field_index b, kb_field = None, kb_shape = None,
                                                 kb_strides = None, kb_rank = 0\<rparr>) bindings,
                          kn_output_map = outputs,
                          kn_outputs = map (\<lambda>o'. \<lparr>ko_field_index = od_ir_field_index o',
                                                 ko_expression = od_expression o'\<rparr>) outputs,
                          kn_params = copy_params d,
                          kn_required_features = kd_required_features d,
                          kn_complex_semantics = kd_complex_semantics d\<rparr>))
           | _ \<Rightarrow> Inl SIM_RESULT_INVALID_ARGUMENT))"

section \<open>Operators\<close>

definition sim_operator_descriptor_schema_key :: "SimOperatorDescriptor \<Rightarrow> string option" where
  "sim_operator_descriptor_schema_key d = nonempty_key (oi_schema_key (dc_info d))"

definition sim_operator_set_schema_key :: "SimOperatorEntry \<Rightarrow> string option \<Rightarrow> SimOperatorEntry" where
  "sim_operator_set_schema_key op schema_key =
     (let op = op\<lparr>op_schema_key := [], op_info := (op_info op)\<lparr>oi_schema_key := None\<rparr>\<rparr>
      in case schema_key of
           None \<Rightarrow> op
         | Some key \<Rightarrow>
             if key = [] then op
             else op\<lparr>op_schema_key := take SIM_OPERATOR_SCHEMA_KEY_MAX key,
                     op_info := (op_info op)\<lparr>oi_schema_key := Some (take SIM_OPERATOR_SCHEMA_KEY_MAX key)\<rparr>\<rparr>)"

definition sim_operator_config_set :: "SimOperatorEntry \<Rightarrow> SimOperatorConfig option \<Rightarrow> SimOperatorEntry" where
  "sim_operator_config_set op config =
     op\<lparr>op_config := sim_operator_config_normalize
          (case config of None \<Rightarrow> sim_operator_config_defaults | Some c \<Rightarrow> c)\<rparr>"

definition sim_operator_config_get :: "SimOperatorEntry option \<Rightarrow> SimOperatorConfig option" where
  "sim_operator_config_get op = map_option op_config op"

definition sim_operator_schema_key :: "SimOperatorEntry option \<Rightarrow> string option" where
  "sim_operator_schema_key op =
     (case op of
        None \<Rightarrow> None
      | Some o' \<Rightarrow>
          if op_schema_key o' \<noteq> [] then Some (op_schema_key o')
          else nonempty_key (oi_schema_key (op_info o')))"

definition sim_operator_schema_key_or :: "SimOperatorEntry option \<Rightarrow> string option \<Rightarrow> string option" where
  "sim_operator_schema_key_or op fallback =
     (case sim_operator_schema_key op of
        None \<Rightarrow> fallback
      | Some key \<Rightarrow> if key \<noteq> [] then Some key else fallback)"

definition sim_operator_ir_opcode :: "SimOperatorEntry option \<Rightarrow> SimIROpcode" where
  "sim_operator_ir_opcode op =
     (case op of
        None \<Rightarrow> OAK_OP_MISC
      | Some o' \<Rightarrow>
          (case oi_ir_opcode (op_info o') of
             Named opcode \<Rightarrow>
               if oi_has_ir_opcode (op_info o') then opcode
               else sim_operator_ir_opcode_for_identity (Some (op_info o')) (sim_operator_schema_key op)
           | Unnamed _ \<Rightarrow>
               sim_operator_ir_opcode_for_identity (Some (op_info o')) (sim_operator_schema_key op)))"

text \<open>The callback that may supply the identifier is an argument: its result for this operator.\<close>

definition sim_operator_abstract_id ::
  "(nat \<Rightarrow> SimOperatorEntry \<Rightarrow> string option) \<Rightarrow> SimOperatorEntry option \<Rightarrow> string option" where
  "sim_operator_abstract_id call op =
     (case op of
        None \<Rightarrow> None
      | Some o' \<Rightarrow>
          let own = (case oi_abstract_id (op_info o') of
                       Some ident \<Rightarrow> Some ident
                     | None \<Rightarrow> Some (op_name o'))
          in case oi_abstract_id_fn (op_info o') of
               None \<Rightarrow> own
             | Some f \<Rightarrow> (case call f o' of Some ident \<Rightarrow> Some ident | None \<Rightarrow> own))"

definition sim_operator_payload :: "SimOperatorEntry option \<Rightarrow> nat option" where
  "sim_operator_payload op = (case op of None \<Rightarrow> None | Some o' \<Rightarrow> op_userdata o')"

definition sim_operator_info :: "SimOperatorEntry option \<Rightarrow> SimOperatorInfo" where
  "sim_operator_info op = (case op of None \<Rightarrow> sim_operator_info_defaults | Some o' \<Rightarrow> op_info o')"

definition sim_operator_dependencies :: "SimOperatorEntry option \<Rightarrow> nat list" where
  "sim_operator_dependencies op = (case op of None \<Rightarrow> [] | Some o' \<Rightarrow> op_dependencies o')"

text \<open>The record \<^verbatim>\<open>memset\<close> leaves.\<close>

definition zero_operator :: SimOperatorEntry where
  "zero_operator =
     \<lparr>op_name = [], op_guid = 0, op_dependencies = [], op_read_mask = 0, op_write_mask = 0,
      op_read_indices = [], op_write_indices = [], op_schema_key = [], op_evaluate = None,
      op_save_state = None, op_restore_state = None, op_destroy = None, op_userdata = None,
      op_kernel = None, op_info = sim_operator_info_defaults, op_config = sim_operator_config_defaults,
      op_required_features = 0, op_catalog_metadata = None, op_config_adapter = None,
      op_graph_ir_view = None\<rparr>"

text \<open>The call \<^verbatim>\<open>sim_operator_reset\<close> makes; the record itself is then outside the live part of the array.\<close>

definition destroy_calls :: "SimOperatorEntry \<Rightarrow> destroy_call list" where
  "destroy_calls op = (case op_destroy op of None \<Rightarrow> [] | Some f \<Rightarrow> [(f, op_userdata op)])"

text \<open>
  The opcode reaches the nodes the outputs depend on; when the traversal fails it is given to every
  node. \<open>None\<close>: the traversal does not return.
\<close>

definition tag_kernel :: "heap \<Rightarrow> SimIROpcode \<Rightarrow> SimOperatorKernel \<Rightarrow> SimOperatorKernel option" where
  "tag_kernel heap opcode k =
     (let tag_all = (case sim_ir_builder_apply_opcode (Some (kn_builder k)) opcode True of
                       None \<Rightarrow> kn_builder k | Some b \<Rightarrow> b)
      in if \<not> calloc_ok heap (length (kn_outputs k)) 8 then Some (k\<lparr>kn_builder := tag_all\<rparr>)
         else (case sim_ir_builder_apply_opcode_reachable heap (Some (kn_builder k)) opcode True
                      (Some (map ko_expression (kn_outputs k))) of
                 None \<Rightarrow> None
               | Some (result, tagged) \<Rightarrow>
                   if result = SIM_RESULT_OK
                   then Some (k\<lparr>kn_builder := (case tagged of None \<Rightarrow> kn_builder k | Some b \<Rightarrow> b)\<rparr>)
                   else Some (k\<lparr>kn_builder := tag_all\<rparr>)))"

text \<open>
  \<^verbatim>\<open>sim_operator_assign\<close>. \<open>Inl (result, calls)\<close>: the early returns; those after the callbacks are in
  place go through \<^verbatim>\<open>sim_operator_reset\<close>. The second component is the counter of identifiers.
\<close>

definition assign_basic :: "u64 \<Rightarrow> string \<Rightarrow> SimOperatorDescriptor \<Rightarrow> SimOperatorEntry" where
  "assign_basic guid name d =
     (let op = zero_operator
          \<lparr>op_guid := guid,
           op_name := take SIM_OPERATOR_NAME_MAX name,
           op_evaluate := dc_evaluate d,
           op_save_state := dc_save_state d,
           op_restore_state := dc_restore_state d,
           op_destroy := dc_destroy d,
           op_userdata := dc_userdata d,
           op_info := sim_operator_info_normalize (dc_info d)\<rparr>;
          op = sim_operator_config_set op (Some (dc_config d))
      in op\<lparr>op_read_mask := dc_read_mask d, op_write_mask := dc_write_mask d\<rparr>)"

definition assign_metadata :: "SimOperatorEntry \<Rightarrow> SimOperatorDescriptor \<Rightarrow> SimOperatorEntry" where
  "assign_metadata op d =
     sim_operator_set_schema_key
       (op\<lparr>op_required_features := dc_required_features d,
           op_catalog_metadata := dc_catalog_metadata d,
           op_config_adapter := dc_config_adapter d,
           op_graph_ir_view := dc_graph_ir_view d\<rparr>)
       (sim_operator_descriptor_schema_key d)"

definition assign_kernel ::
  "heap \<Rightarrow> SimOperatorEntry \<Rightarrow> SimOperatorDescriptor \<Rightarrow> (SimResult + SimOperatorEntry) option" where
  "assign_kernel heap op d =
     (case dc_kernel d of
        None \<Rightarrow> Some (Inr op)
      | Some kd \<Rightarrow>
          (case sim_operator_kernel_init heap (Some kd) of
             Inl e \<Rightarrow> Some (Inl e)
           | Inr None \<Rightarrow> Some (Inr op)
           | Inr (Some k) \<Rightarrow>
               map_option
                 (\<lambda>k'. Inr (op\<lparr>op_kernel := Some k',
                    op_info := sim_operator_info_apply_ir_metadata (op_info op) (kn_builder k')\<rparr>))
                 (tag_kernel heap (sim_operator_ir_opcode (Some op)) k)))"

definition assign_dependencies ::
  "heap \<Rightarrow> SimOperatorEntry \<Rightarrow> SimOperatorDescriptor \<Rightarrow> SimResult + SimOperatorEntry" where
  "assign_dependencies heap op d =
     (if dc_dependencies d = [] then Inr op
      else if \<not> calloc_ok heap (length (dc_dependencies d)) 8 then Inl SIM_RESULT_OUT_OF_MEMORY
      else Inr (op\<lparr>op_dependencies := dc_dependencies d\<rparr>))"

definition sim_operator_assign ::
  "heap \<Rightarrow> u64 \<Rightarrow> u64 \<Rightarrow> SimOperatorDescriptor \<Rightarrow>
   (((SimResult \<times> destroy_call list) + SimOperatorEntry) \<times> u64) option" where
  "sim_operator_assign heap epoch counter d =
     (case dc_name d of
        None \<Rightarrow> Some (Inl (SIM_RESULT_INVALID_ARGUMENT, []), counter)
      | Some name \<Rightarrow>
          if dc_evaluate d = None \<and> dc_kernel d = None
          then Some (Inl (SIM_RESULT_INVALID_ARGUMENT, []), counter)
          else
            let (guid, counter) = sim_operator_next_guid epoch counter;
                op = assign_basic guid name d;
                reset = (\<lambda>e. Some (Inl (e, destroy_calls op), counter))
            in if dc_read_indices d \<noteq> [] \<and> \<not> calloc_ok heap (length (dc_read_indices d)) 8
                 then reset SIM_RESULT_OUT_OF_MEMORY
               else
                 let op = op\<lparr>op_read_indices := dc_read_indices d\<rparr>
                 in if dc_write_indices d \<noteq> [] \<and> \<not> calloc_ok heap (length (dc_write_indices d)) 8
                      then reset SIM_RESULT_OUT_OF_MEMORY
                    else
                      let op = assign_metadata (op\<lparr>op_write_indices := dc_write_indices d\<rparr>) d
                      in case assign_kernel heap op d of
                           None \<Rightarrow> None
                         | Some (Inl e) \<Rightarrow> reset e
                         | Some (Inr op) \<Rightarrow>
                             (case assign_dependencies heap op d of
                                Inl e \<Rightarrow> reset e
                              | Inr op \<Rightarrow> Some (Inr op, counter)))"

section \<open>The registry\<close>

definition empty_registry :: SimOperatorRegistry where
  "empty_registry = \<lparr>rg_records = [], rg_capacity = 0\<rparr>"

definition sim_operator_registry_init :: "SimOperatorRegistry option \<Rightarrow> SimResult \<times> SimOperatorRegistry option" where
  "sim_operator_registry_init registry =
     (case registry of
        None \<Rightarrow> (SIM_RESULT_INVALID_ARGUMENT, None)
      | Some _ \<Rightarrow> (SIM_RESULT_OK, Some empty_registry))"

definition sim_operator_registry_destroy :: "SimOperatorRegistry \<Rightarrow> SimOperatorRegistry \<times> destroy_call list" where
  "sim_operator_registry_destroy registry =
     (empty_registry, concat (map destroy_calls (rg_records registry)))"

definition sim_operator_grow :: "heap \<Rightarrow> SimOperatorRegistry \<Rightarrow> SimResult \<times> SimOperatorRegistry" where
  "sim_operator_grow heap registry =
     (if length (rg_records registry) < rg_capacity registry then (SIM_RESULT_OK, registry)
      else
        let new_capacity = (if rg_capacity registry = 0 then 4 else rg_capacity registry * 2)
        in if \<not> malloc_ok heap (new_capacity * sizeof_SimOperator) then (SIM_RESULT_OUT_OF_MEMORY, registry)
           else (SIM_RESULT_OK, registry\<lparr>rg_capacity := new_capacity\<rparr>))"

text \<open>
  What registration returns: the result, the index written on success, the registry, the counter and the
  calls of \<^verbatim>\<open>destroy\<close>.
\<close>

record registration =
  rn_result :: SimResult
  rn_index :: "nat option"
  rn_registry :: SimOperatorRegistry
  rn_counter :: u64
  rn_destroyed :: "destroy_call list"

definition sim_operator_registry_register ::
  "heap \<Rightarrow> u64 \<Rightarrow> u64 \<Rightarrow> SimOperatorRegistry \<Rightarrow> SimOperatorDescriptor option \<Rightarrow> registration option" where
  "sim_operator_registry_register heap epoch counter registry descriptor =
     (case descriptor of
        None \<Rightarrow> Some \<lparr>rn_result = SIM_RESULT_INVALID_ARGUMENT, rn_index = None, rn_registry = registry,
                      rn_counter = counter, rn_destroyed = []\<rparr>
      | Some d \<Rightarrow>
          let (result, registry) = sim_operator_grow heap registry
          in if result \<noteq> SIM_RESULT_OK
             then Some \<lparr>rn_result = result, rn_index = None, rn_registry = registry,
                        rn_counter = counter, rn_destroyed = []\<rparr>
             else (case sim_operator_assign heap epoch counter d of
                     None \<Rightarrow> None
                   | Some (Inl (e, calls), counter) \<Rightarrow>
                       Some \<lparr>rn_result = e, rn_index = None, rn_registry = registry,
                             rn_counter = counter, rn_destroyed = calls\<rparr>
                   | Some (Inr op, counter) \<Rightarrow>
                       Some \<lparr>rn_result = SIM_RESULT_OK, rn_index = Some (length (rg_records registry)),
                             rn_registry = registry\<lparr>rg_records := rg_records registry @ [op]\<rparr>,
                             rn_counter = counter, rn_destroyed = []\<rparr>))"

definition sim_operator_registry_get :: "SimOperatorRegistry \<Rightarrow> nat \<Rightarrow> SimOperatorEntry option" where
  "sim_operator_registry_get registry index =
     (if index \<ge> length (rg_records registry) then None else Some (rg_records registry ! index))"

text \<open>What the scheduler sees of a registry.\<close>

definition scheduled_operators :: "SimOperatorRegistry \<Rightarrow> SimOperator list" where
  "scheduled_operators registry = map SimOperator.truncate (rg_records registry)"

section \<open>The traversal of the opcode tagger returns\<close>

definition unmarked :: "bool list \<Rightarrow> nat" where
  "unmarked flags = length (filter Not flags)"

lemma unmarked_update:
  assumes "i < length flags" "\<not> flags ! i"
  shows "Suc (unmarked (flags[i := True])) = unmarked flags"
  using assms
  by (induction flags arbitrary: i) (auto simp: unmarked_def nth_Cons split: nat.splits)

lemma collect_returns:
  shows "unmarked (fst st) < depth \<Longrightarrow> ir_count b \<le> length (fst st) \<Longrightarrow>
      \<exists>r flags stack. sim_ir_collect_reachable_node depth b x st = Some (r, flags, stack)
        \<and> unmarked flags \<le> unmarked (fst st) \<and> length flags = length (fst st)"
    and "unmarked (fst st) < depth \<Longrightarrow> ir_count b \<le> length (fst st) \<Longrightarrow>
      \<exists>r flags stack. collect_operands depth b xs st = Some (r, flags, stack)
        \<and> unmarked flags \<le> unmarked (fst st) \<and> length flags = length (fst st)"
proof (induction depth b x st and depth b xs st
    rule: sim_ir_collect_reachable_node_collect_operands.induct)
  case (2 depth b node_id reachable stack_flags)
  show ?case
  proof (cases "\<not> valid_node b node_id \<or> stack_flags ! node_id \<or> reachable ! node_id")
    case False
    then have i: "node_id < length reachable" "\<not> reachable ! node_id"
      using 2(3) by (auto simp: valid_node_def)
    note u = unmarked_update [OF i]
    show ?thesis
    proof (cases "node_operands (ir_nodes b ! node_id)")
      case None
      then show ?thesis using False u by auto
    next
      case (Some ops)
      with 2(1) [OF _ _ _ Some] False u 2(2,3)
      show ?thesis by fastforce
    qed
  qed auto
next
  case (4 depth b x xs st)
  from 4(1) [OF 4(3,4)] obtain r flags stack where n:
    "sim_ir_collect_reachable_node depth b x st = Some (r, flags, stack)"
    "unmarked flags \<le> unmarked (fst st)" "length flags = length (fst st)" by blast
  show ?case
  proof (cases "r = SIM_RESULT_OK")
    case True
    then show ?thesis using 4(2) [OF n(1) refl] n 4(3,4) by fastforce
  qed (use n in auto)
qed auto

lemma apply_opcode_returns:
  "\<exists>r b'. sim_ir_builder_apply_opcode_reachable heap (Some b) opcode preserve (Some roots) = Some (r, b')"
proof (cases "b_nodes b = None \<or> b_nodes b = Some [] \<or> \<not> calloc_ok heap (ir_count b) 1")
  case True
  then show ?thesis
    by (cases "b_nodes b") (auto simp: sim_ir_builder_apply_opcode_reachable_def ir_count_def ir_nodes_def)
next
  case False
  then obtain nodes where nodes: "b_nodes b = Some nodes" "nodes \<noteq> []" by auto
  then have n: "ir_count b = length nodes" "ir_nodes b = nodes" by (simp_all add: ir_count_def ir_nodes_def)
  have "unmarked (replicate (length nodes) False) < Suc (length nodes)" by (simp add: unmarked_def)
  with collect_returns(2) [of "(replicate (length nodes) False, replicate (length nodes) False)"
      "Suc (length nodes)" b roots]
  obtain r flags stack where "collect_operands (Suc (length nodes)) b roots
      (replicate (length nodes) False, replicate (length nodes) False) = Some (r, flags, stack)"
    using n by auto
  then show ?thesis
    using False nodes n by (auto simp: sim_ir_builder_apply_opcode_reachable_def
        sim_ir_collect_reachable_def Let_def)
qed

lemma tag_kernel_returns: "\<exists>k'. tag_kernel heap opcode k = Some k'"
  using apply_opcode_returns [of heap "kn_builder k" opcode True "map ko_expression (kn_outputs k)"]
  by (auto simp: tag_kernel_def Let_def)

lemma assign_kernel_returns [simp]: "assign_kernel heap op d \<noteq> None"
proof (cases "dc_kernel d")
  case (Some kd)
  show ?thesis
  proof (cases "sim_operator_kernel_init heap (Some kd)")
    case (Inr k)
    show ?thesis
    proof (cases k)
      case (Some kn)
      obtain k' where "tag_kernel heap (sim_operator_ir_opcode (Some op)) kn = Some k'"
        using tag_kernel_returns by blast
      then show ?thesis using Inr Some \<open>dc_kernel d = Some kd\<close> by (simp add: assign_kernel_def)
    qed (use Inr Some in \<open>simp add: assign_kernel_def\<close>)
  qed (simp add: assign_kernel_def Some)
qed (simp add: assign_kernel_def)

section \<open>What registration does\<close>

text \<open>A descriptor that passes the checks before the slot is written.\<close>

definition descriptor_valid :: "SimOperatorDescriptor \<Rightarrow> bool" where
  "descriptor_valid d \<longleftrightarrow> dc_name d \<noteq> None \<and> (dc_evaluate d \<noteq> None \<or> dc_kernel d \<noteq> None)"

text \<open>
  The parts of a kernel descriptor that must be there, and the requests made while a kernel is copied.
\<close>

definition kernel_complete :: "SimOperatorKernelDescriptor \<Rightarrow> bool" where
  "kernel_complete kd \<longleftrightarrow> kd_builder kd \<noteq> None \<and> kd_bindings kd \<noteq> None \<and> kd_bindings kd \<noteq> Some []
     \<and> kd_outputs kd \<noteq> None \<and> kd_outputs kd \<noteq> Some []"

definition builder_granted :: "heap \<Rightarrow> SimIRBuilder \<Rightarrow> bool" where
  "builder_granted heap src \<longleftrightarrow>
     calloc_ok heap 1 sizeof_SimIRBuilder
     \<and> (0 < b_capacity src \<longrightarrow> malloc_ok heap (b_capacity src * sizeof_ir_node))
     \<and> (b_constants_components src \<noteq> [] \<longrightarrow>
          malloc_ok heap (max (b_constants_capacity src) (length (b_constants_components src)) * 8)
          \<and> (ir_constants src \<noteq> [] \<longrightarrow>
               malloc_ok heap (max (b_constants_data_capacity src) (length (ir_constants src)) * 8)))"

definition kernel_granted :: "heap \<Rightarrow> SimOperatorKernelDescriptor \<Rightarrow> bool" where
  "kernel_granted heap kd \<longleftrightarrow>
     calloc_ok heap 1 sizeof_SimOperatorKernel
     \<and> calloc_ok heap (length (the (kd_bindings kd))) sizeof_SimKernelIRBinding
     \<and> calloc_ok heap (length (the (kd_bindings kd))) 16 \<and> calloc_ok heap (length (the (kd_outputs kd))) 16
     \<and> (0 < kd_param_count kd \<longrightarrow> calloc_ok heap (kd_param_count kd) 8)
     \<and> builder_granted heap (the (kd_builder kd))"

text \<open>The array of an index set, empty or of granted memory.\<close>

definition indices_granted :: "heap \<Rightarrow> nat list \<Rightarrow> bool" where
  "indices_granted heap indices \<longleftrightarrow> (indices \<noteq> [] \<longrightarrow> calloc_ok heap (length indices) 8)"

definition entry_granted :: "heap \<Rightarrow> SimOperatorDescriptor \<Rightarrow> bool" where
  "entry_granted heap d \<longleftrightarrow>
     indices_granted heap (dc_read_indices d) \<and> indices_granted heap (dc_write_indices d)
     \<and> indices_granted heap (dc_dependencies d)
     \<and> (\<forall>kd. dc_kernel d = Some kd \<longrightarrow> kernel_complete kd \<and> kernel_granted heap kd)"

text \<open>
  The nodes that take the opcode of the operator: those the outputs depend on, or all of them when the
  traversal is not granted its memory or an output names no node.
\<close>

definition tagged_nodes :: "heap \<Rightarrow> SimIRBuilder \<Rightarrow> SimOperatorKernelOutputDescriptor list \<Rightarrow> nat set" where
  "tagged_nodes heap src outputs =
     (if calloc_ok heap (length outputs) 8 \<and> calloc_ok heap (ir_count src) 1
       \<and> (\<forall>out \<in> set outputs. od_expression out < ir_count src)
      then \<Union>out \<in> set outputs. depends src (od_expression out) else {..<ir_count src})"

text \<open>The private copy of a builder: the same nodes, except for the opcode of those in \<open>T\<close>, and the same constants.\<close>

definition builder_described :: "SimIROpcode \<Rightarrow> nat set \<Rightarrow> SimIRBuilder \<Rightarrow> SimIRBuilder \<Rightarrow> bool" where
  "builder_described opcode T src copy \<longleftrightarrow>
     b_capacity copy = b_capacity src \<and> b_default_boundary copy = b_default_boundary src
     \<and> ir_count copy = (if b_capacity src = 0 then 0 else ir_count src)
     \<and> (\<forall>i < ir_count copy. ir_nodes copy ! i =
          (if i \<in> T \<and> nd_opcode (ir_nodes src ! i) = OAK_OP_MISC
           then (ir_nodes src ! i)\<lparr>nd_opcode := opcode\<rparr> else ir_nodes src ! i))
     \<and> b_constants_components copy = b_constants_components src
     \<and> (b_constants_components src \<noteq> [] \<longrightarrow>
          b_constants_offsets copy = b_constants_offsets src \<and> ir_constants copy = ir_constants src)"

text \<open>
  The kernel made from a descriptor. Its fields are not bound yet. For a builder that satisfies its
  invariant the nodes tagged are the ones above.
\<close>

definition kernel_described ::
  "heap \<Rightarrow> SimIROpcode \<Rightarrow> SimOperatorKernelDescriptor \<Rightarrow> SimOperatorKernel \<Rightarrow> bool" where
  "kernel_described heap opcode kd k \<longleftrightarrow>
     (\<exists>src bindings outputs T.
        kd_builder kd = Some src \<and> kd_bindings kd = Some bindings \<and> kd_outputs kd = Some outputs
        \<and> bindings \<noteq> [] \<and> outputs \<noteq> []
        \<and> builder_described opcode T src (kn_builder k) \<and> (ir_ok src \<longrightarrow> T = tagged_nodes heap src outputs)
        \<and> kn_binding_map k = bindings
        \<and> map kb_field_index (kn_bindings k) = map bd_ir_field_index bindings
        \<and> (\<forall>b \<in> set (kn_bindings k). kb_field b = None \<and> kb_shape b = None \<and> kb_strides b = None \<and> kb_rank b = 0)
        \<and> kn_output_map k = outputs
        \<and> map ko_field_index (kn_outputs k) = map od_ir_field_index outputs
        \<and> map ko_expression (kn_outputs k) = map od_expression outputs
        \<and> kn_params k = (case kd_params kd of
              None \<Rightarrow> replicate (kd_param_count kd) f64_zero | Some ps \<Rightarrow> take (kd_param_count kd) ps)
        \<and> kn_required_features k = kd_required_features kd
        \<and> kn_complex_semantics k = kd_complex_semantics kd)"

text \<open>
  The metadata of the entry before its kernel is looked at, the opcode that follows from it, and what the
  kernel adds: nothing when there is none, else the orders and the boundary its differential nodes supply.
\<close>

definition described_info :: "SimOperatorDescriptor \<Rightarrow> SimOperatorInfo" where
  "described_info d = (sim_operator_info_normalize (dc_info d))\<lparr>oi_schema_key :=
     map_option (take SIM_OPERATOR_SCHEMA_KEY_MAX) (sim_operator_descriptor_schema_key d)\<rparr>"

definition described_opcode :: "SimOperatorDescriptor \<Rightarrow> SimIROpcode" where
  "described_opcode d = sim_operator_ir_opcode (Some (zero_operator\<lparr>op_info := described_info d\<rparr>))"

definition kernel_registered ::
  "heap \<Rightarrow> SimIROpcode \<Rightarrow> SimOperatorInfo \<Rightarrow> SimOperatorKernelDescriptor option \<Rightarrow> SimOperatorEntry \<Rightarrow> bool" where
  "kernel_registered heap opcode info described op \<longleftrightarrow>
     (case described of
        None \<Rightarrow> op_kernel op = None \<and> op_info op = info
      | Some kd \<Rightarrow> \<exists>k. op_kernel op = Some k \<and> kernel_described heap opcode kd k
          \<and> op_info op = sim_operator_info_apply_ir_metadata info (kn_builder k))"

text \<open>The entry a descriptor turns into: every member of the record but the identifier.\<close>

definition registered_from :: "heap \<Rightarrow> SimOperatorDescriptor \<Rightarrow> SimOperatorEntry \<Rightarrow> bool" where
  "registered_from heap d op \<longleftrightarrow>
     descriptor_valid d \<and> op_name op = take SIM_OPERATOR_NAME_MAX (the (dc_name d))
     \<and> op_evaluate op = dc_evaluate d \<and> op_save_state op = dc_save_state d
     \<and> op_restore_state op = dc_restore_state d \<and> op_destroy op = dc_destroy d
     \<and> op_userdata op = dc_userdata d
     \<and> op_config op = sim_operator_config_normalize (dc_config d)
     \<and> op_read_mask op = dc_read_mask d \<and> op_write_mask op = dc_write_mask d
     \<and> op_read_indices op = dc_read_indices d \<and> op_write_indices op = dc_write_indices d
     \<and> op_dependencies op = dc_dependencies d
     \<and> op_required_features op = dc_required_features d
     \<and> op_catalog_metadata op = dc_catalog_metadata d \<and> op_config_adapter op = dc_config_adapter d
     \<and> op_graph_ir_view op = dc_graph_ir_view d
     \<and> sim_operator_schema_key (Some op) =
         map_option (take SIM_OPERATOR_SCHEMA_KEY_MAX) (sim_operator_descriptor_schema_key d)
     \<and> kernel_registered heap (described_opcode d) (described_info d) (dc_kernel d) op"

section \<open>The copy of a kernel\<close>

lemma copy_builder_granted: "copy_builder heap src = None \<longleftrightarrow> \<not> builder_granted heap src"
  by (auto simp: copy_builder_def builder_granted_def Let_def)

lemma copy_builder_fields:
  assumes "copy_builder heap src = Some c"
  shows "b_capacity c = b_capacity src" "b_default_boundary c = b_default_boundary src"
    "b_nodes c = (if b_capacity src = 0 then None else Some (ir_nodes src))"
    "b_constants_components c = b_constants_components src"
    "b_constants_components src \<noteq> [] \<Longrightarrow> b_constants_offsets c = b_constants_offsets src"
    "b_constants_components src \<noteq> [] \<Longrightarrow> ir_constants c = ir_constants src"
  using assms
  by (auto simp: copy_builder_def Let_def empty_builder_def ir_constants_def split: if_splits)

lemma copy_builder_counts:
  assumes "copy_builder heap src = Some c"
  shows "ir_nodes c = (if b_capacity src = 0 then [] else ir_nodes src)"
    "ir_count c = (if b_capacity src = 0 then 0 else ir_count src)"
  by (simp_all add: ir_nodes_def [of c] ir_count_def copy_builder_fields [OF assms])

lemma copy_builder_pool:
  assumes "copy_builder heap src = Some c" "pool_ok src"
  shows "pool_ok c"
  using assms
  by (auto simp: copy_builder_def Let_def empty_builder_def pool_ok_def ir_constants_def max_def split: if_splits)

lemma copy_builder_ok:
  assumes "copy_builder heap src = Some c" "ir_ok src"
  shows "ir_ok c" "ir_count c = ir_count src" "ir_nodes c = ir_nodes src"
proof -
  have n: "nodes_ok src" and p: "pool_ok src" using assms(2) by (simp_all add: ir_ok_def)
  have "b_capacity src = 0 \<Longrightarrow> ir_count src = 0" using n by (simp add: nodes_ok_def)
  then show c: "ir_count c = ir_count src" "ir_nodes c = ir_nodes src"
    using copy_builder_counts [OF assms(1)] by (auto simp: ir_count_def)
  have "nodes_ok c"
    using n unfolding nodes_ok_def c copy_builder_fields(1,4) [OF assms(1)] by simp
  then show "ir_ok c" using copy_builder_pool [OF assms(1) p] by (simp add: ir_ok_def)
qed

lemma depends_same_nodes:
  assumes "ir_nodes b = ir_nodes b'"
  shows "depends b = depends b'"
proof -
  have "ir_edge b = ir_edge b'" using assms by (intro ext) (simp add: ir_edge_def ir_count_def)
  then show ?thesis by (intro ext) (simp add: depends_def)
qed

text \<open>The traversal from cleared flags succeeds exactly when every root is a node.\<close>

lemma collect_from_clear:
  assumes "ir_ok b"
  shows "\<exists>r flags stack. collect_operands (Suc (ir_count b)) b roots
      (replicate (ir_count b) False, replicate (ir_count b) False) = Some (r, flags, stack) \<and>
    (r = SIM_RESULT_OK \<longleftrightarrow> (\<forall>x \<in> set roots. x < ir_count b)) \<and>
    (r = SIM_RESULT_OK \<longrightarrow> length flags = ir_count b \<and> marked flags = (\<Union>x \<in> set roots. depends b x))"
proof (cases "\<forall>x \<in> set roots. x < ir_count b")
  case True
  then show ?thesis
    using collect_roots [OF assms, of "replicate (ir_count b) False" roots] by (auto simp: marked_def)
next
  case False
  let ?clear = "replicate (ir_count b) False"
  obtain xs x ys where split: "roots = xs @ x # ys" "\<not> x < ir_count b" "\<forall>y \<in> set xs. y < ir_count b"
    using False split_list_first_prop [of roots "\<lambda>r. \<not> r < ir_count b"] by auto
  obtain flags where "collect_operands (Suc (ir_count b)) b xs (?clear, ?clear) = Some (SIM_RESULT_OK, flags, ?clear)"
    using collect_roots [OF assms, of ?clear xs] split(3) by (auto simp: marked_def)
  then have "collect_operands (Suc (ir_count b)) b roots (?clear, ?clear) =
      Some (SIM_RESULT_INVALID_ARGUMENT, flags, ?clear)"
    using split(2) by (simp add: split(1) collect_operands_append valid_node_iff [OF assms])
  then show ?thesis using False by auto
qed

text \<open>What tagging with a set of nodes does to a builder.\<close>

definition tagged_as :: "SimIROpcode \<Rightarrow> nat set \<Rightarrow> SimIRBuilder \<Rightarrow> SimIRBuilder \<Rightarrow> bool" where
  "tagged_as opcode T b b' \<longleftrightarrow>
     b' = b\<lparr>b_nodes := b_nodes b'\<rparr> \<and> ir_count b' = ir_count b \<and>
     (\<forall>i < ir_count b. ir_nodes b' ! i =
        (if i \<in> T \<and> nd_opcode (ir_nodes b ! i) = OAK_OP_MISC
         then (ir_nodes b ! i)\<lparr>nd_opcode := opcode\<rparr> else ir_nodes b ! i))"

lemma tagged_as_none: "ir_count b = 0 \<Longrightarrow> tagged_as opcode T b b"
  by (simp add: tagged_as_def)

lemma tagged_as_all:
  assumes "b_nodes b = Some nodes"
  shows "tagged_as opcode {..<ir_count b} b (b\<lparr>b_nodes := Some (map (retag opcode True) nodes)\<rparr>)"
  using assms by (auto simp: tagged_as_def ir_count_def ir_nodes_def retag_def sim_ir_opcode_sanitize_def)

lemma tagged_as_flags:
  assumes "b_nodes b = Some nodes" "length flags = length nodes"
  shows "tagged_as opcode (marked flags) b
    (b\<lparr>b_nodes := Some (map (\<lambda>(node, flag). if flag then retag opcode True node else node) (zip nodes flags))\<rparr>)"
  using assms by (auto simp: tagged_as_def ir_count_def ir_nodes_def retag_def sim_ir_opcode_sanitize_def marked_def)

lemma apply_reachable_tags:
  assumes "ir_ok b" "b_nodes b = Some nodes" "nodes \<noteq> []" "calloc_ok heap (ir_count b) 1"
  shows "if \<forall>x \<in> set roots. x < ir_count b
    then \<exists>b'. sim_ir_builder_apply_opcode_reachable heap (Some b) opcode True (Some roots) =
        Some (SIM_RESULT_OK, Some b') \<and> tagged_as opcode (\<Union>x \<in> set roots. depends b x) b b'
    else \<exists>r b'. sim_ir_builder_apply_opcode_reachable heap (Some b) opcode True (Some roots) = Some (r, b') \<and>
        r \<noteq> SIM_RESULT_OK"
proof -
  have n: "ir_count b = length nodes" using assms(2) by (simp add: ir_count_def ir_nodes_def)
  obtain r flags stack where run: "collect_operands (Suc (ir_count b)) b roots
      (replicate (ir_count b) False, replicate (ir_count b) False) = Some (r, flags, stack)"
    and ok: "r = SIM_RESULT_OK \<longleftrightarrow> (\<forall>x \<in> set roots. x < ir_count b)"
    and flags: "r = SIM_RESULT_OK \<Longrightarrow> length flags = ir_count b \<and> marked flags = (\<Union>x \<in> set roots. depends b x)"
    using collect_from_clear [OF assms(1), of roots] by (elim exE conjE) (rule that, assumption, assumption, erule (1) mp)
  have "sim_ir_collect_reachable heap (Some b) (Some roots) (Some (replicate (length nodes) False)) =
      Some (r, Some flags)"
    using assms(3,4) n run by (simp add: sim_ir_collect_reachable_def Let_def)
  then have out: "sim_ir_builder_apply_opcode_reachable heap (Some b) opcode True (Some roots) =
      Some (r, if r = SIM_RESULT_OK
        then Some (b\<lparr>b_nodes := Some (map (\<lambda>(node, flag). if flag then retag opcode True node else node)
               (zip nodes flags))\<rparr>)
        else Some b)"
    using assms(2-4) n by (simp add: sim_ir_builder_apply_opcode_reachable_def)
  show ?thesis
  proof (cases "r = SIM_RESULT_OK")
    case True
    then show ?thesis
      using out ok flags [OF True] tagged_as_flags [OF assms(2), of flags opcode] n by simp
  next
    case False
    then have "\<not> (\<forall>x \<in> set roots. x < ir_count b)" using ok by blast
    then show ?thesis unfolding if_not_P [OF \<open>\<not> (\<forall>x \<in> set roots. x < ir_count b)\<close>] out
      using False by blast
  qed
qed

lemma apply_reachable_any:
  assumes "b_nodes b = Some nodes" "nodes \<noteq> []" "calloc_ok heap (ir_count b) 1"
  shows "\<exists>r b'. sim_ir_builder_apply_opcode_reachable heap (Some b) opcode True (Some roots) = Some (r, b') \<and>
    (r = SIM_RESULT_OK \<longrightarrow> (\<exists>b'' T. b' = Some b'' \<and> tagged_as opcode T b b''))"
proof -
  have n: "ir_count b = length nodes" using assms(1) by (simp add: ir_count_def ir_nodes_def)
  have "unmarked (replicate (length nodes) False) < Suc (length nodes)" by (simp add: unmarked_def)
  with collect_returns(2) [of "(replicate (length nodes) False, replicate (length nodes) False)"
      "Suc (length nodes)" b roots]
  obtain r flags stack where run: "collect_operands (Suc (length nodes)) b roots
      (replicate (length nodes) False, replicate (length nodes) False) = Some (r, flags, stack)"
    and len: "length flags = length nodes"
    using n by auto
  have "sim_ir_collect_reachable heap (Some b) (Some roots) (Some (replicate (length nodes) False)) =
      Some (r, Some flags)"
    using assms(2,3) n run by (simp add: sim_ir_collect_reachable_def Let_def)
  then show ?thesis
    using assms n tagged_as_flags [OF assms(1) len, of opcode]
    by (auto simp: sim_ir_builder_apply_opcode_reachable_def)
qed

lemma tag_kernel_tags:
  assumes "tag_kernel heap opcode k = Some k'"
  shows "k' = k\<lparr>kn_builder := kn_builder k'\<rparr> \<and>
    (\<exists>T. tagged_as opcode T (kn_builder k) (kn_builder k') \<and>
      (ir_ok (kn_builder k) \<longrightarrow>
        T = (if calloc_ok heap (length (kn_outputs k)) 8 \<and> calloc_ok heap (ir_count (kn_builder k)) 1
               \<and> (\<forall>out \<in> set (kn_outputs k). ko_expression out < ir_count (kn_builder k))
             then \<Union>out \<in> set (kn_outputs k). depends (kn_builder k) (ko_expression out)
             else {..<ir_count (kn_builder k)})))"
    (is "_ \<and> (\<exists>T. _ \<and> (_ \<longrightarrow> T = ?T))")
proof -
  let ?b = "kn_builder k" and ?roots = "map ko_expression (kn_outputs k)"
  consider "b_nodes ?b = None" | "b_nodes ?b = Some []" | nodes where "b_nodes ?b = Some nodes" "nodes \<noteq> []"
    by (cases "b_nodes ?b") auto
  then show ?thesis
  proof cases
    case 1
    then have "k' = k"
      using assms by (auto simp: tag_kernel_def sim_ir_builder_apply_opcode_def
          sim_ir_builder_apply_opcode_reachable_def Let_def split: if_splits)
    moreover have "ir_count ?b = 0" using 1 by (simp add: ir_count_def ir_nodes_def)
    ultimately show ?thesis using tagged_as_none by auto
  next
    case 2
    then have "?b\<lparr>b_nodes := Some []\<rparr> = ?b" by (cases ?b) simp
    then have "k' = k"
      using assms 2 by (auto simp: tag_kernel_def sim_ir_builder_apply_opcode_def
          sim_ir_builder_apply_opcode_reachable_def Let_def split: if_splits)
    moreover have "ir_count ?b = 0" using 2 by (simp add: ir_count_def ir_nodes_def)
    ultimately show ?thesis using tagged_as_none by auto
  next
    case (3 nodes)
    let ?all = "?b\<lparr>b_nodes := Some (map (retag opcode True) nodes)\<rparr>"
    have all: "tagged_as opcode {..<ir_count ?b} ?b ?all" using tagged_as_all [OF 3(1)] .
    have tag: "sim_ir_builder_apply_opcode (Some ?b) opcode True = Some ?all"
      using 3 by (simp add: sim_ir_builder_apply_opcode_def)
    have n: "length nodes = ir_count ?b" using 3 by (simp add: ir_count_def ir_nodes_def)
    show ?thesis
    proof (cases "calloc_ok heap (length (kn_outputs k)) 8 \<and> calloc_ok heap (ir_count ?b) 1")
      case False
      have "sim_ir_builder_apply_opcode_reachable heap (Some ?b) opcode True (Some ?roots) =
          Some (SIM_RESULT_OUT_OF_MEMORY, Some ?b)" if "\<not> calloc_ok heap (ir_count ?b) 1"
        using that 3 n by (simp add: sim_ir_builder_apply_opcode_reachable_def)
      then have "k' = k\<lparr>kn_builder := ?all\<rparr>"
        using assms False by (auto simp: tag_kernel_def tag Let_def split: if_splits)
      then show ?thesis using all False by auto
    next
      case True
      obtain r b' where any: "sim_ir_builder_apply_opcode_reachable heap (Some ?b) opcode True (Some ?roots) =
          Some (r, b')" and t: "r = SIM_RESULT_OK \<Longrightarrow> \<exists>b'' T. b' = Some b'' \<and> tagged_as opcode T ?b b''"
        using apply_reachable_any [OF 3, of heap opcode ?roots] True by blast
      have k': "k' = k\<lparr>kn_builder := (if r = SIM_RESULT_OK then (case b' of None \<Rightarrow> ?b | Some b \<Rightarrow> b) else ?all)\<rparr>"
        using assms True by (auto simp: tag_kernel_def tag any Let_def split: if_splits)
      show ?thesis
      proof (cases "ir_ok ?b")
        case False
        then show ?thesis using k' t all by (cases "r = SIM_RESULT_OK") auto
      next
        case ok: True
        show ?thesis
        proof (cases "\<forall>out \<in> set (kn_outputs k). ko_expression out < ir_count ?b")
          case valid: True
          obtain b'' where "sim_ir_builder_apply_opcode_reachable heap (Some ?b) opcode True (Some ?roots) =
              Some (SIM_RESULT_OK, Some b'')"
            "tagged_as opcode (\<Union>x \<in> set ?roots. depends ?b x) ?b b''"
            using apply_reachable_tags [OF ok 3, of heap ?roots opcode] True valid by auto
          then show ?thesis using k' any True valid by auto
        next
          case invalid: False
          then have "r \<noteq> SIM_RESULT_OK"
            using apply_reachable_tags [OF ok 3, of heap ?roots opcode] True any by (auto split: if_splits)
          then show ?thesis using k' all invalid True by auto
        qed
      qed
    qed
  qed
qed

lemma tag_kernel_described:
  assumes "sim_operator_kernel_init heap (Some kd) = Inr (Some kn)" "tag_kernel heap opcode kn = Some k"
  shows "kernel_described heap opcode kd k"
proof -
  obtain src bindings outputs copy where d: "kd_builder kd = Some src" "kd_bindings kd = Some bindings"
    "kd_outputs kd = Some outputs" "bindings \<noteq> []" "outputs \<noteq> []" and copy: "copy_builder heap src = Some copy"
    and kn: "kn = \<lparr>kn_builder = copy, kn_binding_map = bindings,
      kn_bindings = map (\<lambda>b. \<lparr>kb_field_index = bd_ir_field_index b, kb_field = None, kb_shape = None,
                             kb_strides = None, kb_rank = 0\<rparr>) bindings,
      kn_output_map = outputs,
      kn_outputs = map (\<lambda>o'. \<lparr>ko_field_index = od_ir_field_index o', ko_expression = od_expression o'\<rparr>) outputs,
      kn_params = copy_params kd, kn_required_features = kd_required_features kd,
      kn_complex_semantics = kd_complex_semantics kd\<rparr>"
    using assms(1) by (auto simp: sim_operator_kernel_init_def split: option.splits if_splits)
  obtain T where k: "k = kn\<lparr>kn_builder := kn_builder k\<rparr>" and t: "tagged_as opcode T copy (kn_builder k)"
    and T: "ir_ok copy \<Longrightarrow> T =
      (if calloc_ok heap (length outputs) 8 \<and> calloc_ok heap (ir_count copy) 1
         \<and> (\<forall>out \<in> set outputs. od_expression out < ir_count copy)
       then \<Union>out \<in> set outputs. depends copy (od_expression out) else {..<ir_count copy})"
    using tag_kernel_tags [OF assms(2)] by (auto simp: kn)
  have "ir_ok src \<longrightarrow> T = tagged_nodes heap src outputs"
    using T copy_builder_ok [OF copy] depends_same_nodes [of copy src] by (simp add: tagged_nodes_def)
  moreover have "builder_described opcode T src (kn_builder k)"
  proof -
    obtain ns where b: "kn_builder k = copy\<lparr>b_nodes := ns\<rparr>" using t by (metis tagged_as_def)
    show ?thesis
      using t copy_builder_fields [OF copy] copy_builder_counts [OF copy]
      unfolding builder_described_def tagged_as_def b
      by (auto simp: ir_constants_def)
  qed
  ultimately show ?thesis
    unfolding kernel_described_def using d
    by (intro exI [of _ src] exI [of _ bindings] exI [of _ outputs] exI [of _ T]) (subst k; simp add: kn o_def copy_params_def)+
qed

lemma kernel_init_some: "sim_operator_kernel_init heap (Some kd) \<noteq> Inr None"
  by (auto simp: sim_operator_kernel_init_def split: option.splits)

lemma ir_metadata_schema_key [simp]:
  "oi_schema_key (sim_operator_info_apply_ir_metadata info b) = oi_schema_key info"
  by (simp add: sim_operator_info_apply_ir_metadata_def Let_def)

lemma set_schema_key_fields [simp]:
  "op_name (sim_operator_set_schema_key op key) = op_name op"
  "op_guid (sim_operator_set_schema_key op key) = op_guid op"
  "op_dependencies (sim_operator_set_schema_key op key) = op_dependencies op"
  "op_read_mask (sim_operator_set_schema_key op key) = op_read_mask op"
  "op_write_mask (sim_operator_set_schema_key op key) = op_write_mask op"
  "op_read_indices (sim_operator_set_schema_key op key) = op_read_indices op"
  "op_write_indices (sim_operator_set_schema_key op key) = op_write_indices op"
  "op_evaluate (sim_operator_set_schema_key op key) = op_evaluate op"
  "op_save_state (sim_operator_set_schema_key op key) = op_save_state op"
  "op_restore_state (sim_operator_set_schema_key op key) = op_restore_state op"
  "op_destroy (sim_operator_set_schema_key op key) = op_destroy op"
  "op_userdata (sim_operator_set_schema_key op key) = op_userdata op"
  "op_kernel (sim_operator_set_schema_key op key) = op_kernel op"
  "op_config (sim_operator_set_schema_key op key) = op_config op"
  "op_required_features (sim_operator_set_schema_key op key) = op_required_features op"
  "op_catalog_metadata (sim_operator_set_schema_key op key) = op_catalog_metadata op"
  "op_config_adapter (sim_operator_set_schema_key op key) = op_config_adapter op"
  "op_graph_ir_view (sim_operator_set_schema_key op key) = op_graph_ir_view op"
  by (simp_all add: sim_operator_set_schema_key_def Let_def split: option.split)

lemma set_schema_key_key:
  assumes "key \<noteq> Some []"
  shows "sim_operator_schema_key (Some (sim_operator_set_schema_key op key)) =
     map_option (take SIM_OPERATOR_SCHEMA_KEY_MAX) key"
  using assms by (cases key) (auto simp: sim_operator_set_schema_key_def sim_operator_schema_key_def
      Let_def nonempty_key_def SIM_OPERATOR_SCHEMA_KEY_MAX_def)

text \<open>The entry before its kernel and its dependencies.\<close>

definition assigned :: "u64 \<Rightarrow> string \<Rightarrow> SimOperatorDescriptor \<Rightarrow> SimOperatorEntry" where
  "assigned guid name d = assign_metadata
     (assign_basic guid name d\<lparr>op_read_indices := dc_read_indices d, op_write_indices := dc_write_indices d\<rparr>) d"

lemma assigned_fields:
  "op_name (assigned g n d) = take SIM_OPERATOR_NAME_MAX n" "op_guid (assigned g n d) = g"
  "op_dependencies (assigned g n d) = []"
  "op_read_mask (assigned g n d) = dc_read_mask d" "op_write_mask (assigned g n d) = dc_write_mask d"
  "op_read_indices (assigned g n d) = dc_read_indices d"
  "op_write_indices (assigned g n d) = dc_write_indices d"
  "op_evaluate (assigned g n d) = dc_evaluate d" "op_save_state (assigned g n d) = dc_save_state d"
  "op_restore_state (assigned g n d) = dc_restore_state d" "op_destroy (assigned g n d) = dc_destroy d"
  "op_userdata (assigned g n d) = dc_userdata d" "op_kernel (assigned g n d) = None"
  "op_config (assigned g n d) = sim_operator_config_normalize (dc_config d)"
  "op_required_features (assigned g n d) = dc_required_features d"
  "op_catalog_metadata (assigned g n d) = dc_catalog_metadata d"
  "op_config_adapter (assigned g n d) = dc_config_adapter d"
  "op_graph_ir_view (assigned g n d) = dc_graph_ir_view d"
  by (simp_all add: assigned_def assign_metadata_def assign_basic_def sim_operator_config_set_def
      zero_operator_def Let_def)

lemma assigned_key:
  "sim_operator_schema_key (Some (assigned g n d)) =
     map_option (take SIM_OPERATOR_SCHEMA_KEY_MAX) (sim_operator_descriptor_schema_key d)"
  unfolding assigned_def assign_metadata_def
  by (rule set_schema_key_key) (simp add: sim_operator_descriptor_schema_key_def nonempty_key_def)

lemma descriptor_key_nonempty: "sim_operator_descriptor_schema_key d \<noteq> Some []"
  by (simp add: sim_operator_descriptor_schema_key_def nonempty_key_def)

lemma assigned_info: "op_info (assigned g n d) = described_info d"
  using descriptor_key_nonempty [of d]
  by (cases "sim_operator_descriptor_schema_key d")
    (simp_all add: assigned_def assign_metadata_def assign_basic_def sim_operator_config_set_def
      sim_operator_set_schema_key_def described_info_def Let_def)

lemma ir_opcode_cong:
  assumes "op_info op = op_info op'" "sim_operator_schema_key (Some op) = sim_operator_schema_key (Some op')"
  shows "sim_operator_ir_opcode (Some op) = sim_operator_ir_opcode (Some op')"
  unfolding sim_operator_ir_opcode_def option.case assms ..

lemma described_key:
  "sim_operator_schema_key (Some (zero_operator\<lparr>op_info := described_info d\<rparr>)) =
     map_option (take SIM_OPERATOR_SCHEMA_KEY_MAX) (sim_operator_descriptor_schema_key d)"
  using descriptor_key_nonempty [of d]
  by (cases "sim_operator_descriptor_schema_key d")
    (simp_all add: sim_operator_schema_key_def zero_operator_def described_info_def nonempty_key_def
      SIM_OPERATOR_SCHEMA_KEY_MAX_def)

lemma assigned_opcode: "sim_operator_ir_opcode (Some (assigned g n d)) = described_opcode d"
  unfolding described_opcode_def
  by (rule ir_opcode_cong) (simp_all add: assigned_info assigned_key described_key)

text \<open>What the later steps add to it.\<close>

definition completed :: "heap \<Rightarrow> SimOperatorEntry \<Rightarrow> SimOperatorDescriptor \<Rightarrow> SimOperatorEntry \<Rightarrow> bool" where
  "completed heap op0 d op \<longleftrightarrow>
     (\<exists>k info. op = op0\<lparr>op_kernel := k, op_info := info, op_dependencies := dc_dependencies d\<rparr>
        \<and> oi_schema_key info = oi_schema_key (op_info op0)
        \<and> kernel_registered heap (sim_operator_ir_opcode (Some op0)) (op_info op0) (dc_kernel d) op)"

lemma kernel_init_granted:
  "(\<exists>k. sim_operator_kernel_init heap (Some kd) = Inr k) \<longleftrightarrow> kernel_complete kd \<and> kernel_granted heap kd"
  using copy_builder_granted [of heap "the (kd_builder kd)"]
  by (auto simp: sim_operator_kernel_init_def kernel_complete_def kernel_granted_def
      split: option.splits)

lemma assign_kernel_granted:
  assumes "assign_kernel heap op d = Some r"
  shows "(\<exists>op'. r = Inr op') \<longleftrightarrow> (\<forall>kd. dc_kernel d = Some kd \<longrightarrow> kernel_complete kd \<and> kernel_granted heap kd)"
proof (cases "dc_kernel d")
  case None
  then show ?thesis using assms by (auto simp: assign_kernel_def)
next
  case (Some kd)
  then show ?thesis using assms kernel_init_granted [of heap kd] kernel_init_some [of heap kd]
    by (auto simp: assign_kernel_def split: sum.splits option.splits)
qed

lemma assign_kernel_result:
  assumes "assign_kernel heap op d = Some (Inr op')" "op_kernel op = None"
  shows "\<exists>k info. op' = op\<lparr>op_kernel := k, op_info := info\<rparr> \<and> oi_schema_key info = oi_schema_key (op_info op) \<and>
    kernel_registered heap (sim_operator_ir_opcode (Some op)) (op_info op) (dc_kernel d) op'"
proof (cases "dc_kernel d")
  case None
  then have "op' = op\<lparr>op_kernel := None, op_info := op_info op\<rparr>"
    using assms by (simp add: assign_kernel_def)
  then show ?thesis using None assms(2)
    by (intro exI [of _ None] exI [of _ "op_info op"]) (simp add: kernel_registered_def)
next
  case (Some kd)
  from assms(1) Some obtain k where k: "sim_operator_kernel_init heap (Some kd) = Inr k"
    by (cases "sim_operator_kernel_init heap (Some kd)") (simp_all add: assign_kernel_def)
  then obtain kn where kn: "k = Some kn" using kernel_init_some [of heap kd] by (cases k) simp_all
  then obtain k' where k': "tag_kernel heap (sim_operator_ir_opcode (Some op)) kn = Some k'"
    using tag_kernel_returns by blast
  then have op': "op\<lparr>op_kernel := Some k',
       op_info := sim_operator_info_apply_ir_metadata (op_info op) (kn_builder k')\<rparr> = op'"
    using assms(1) Some k kn by (simp add: assign_kernel_def)
  have "kernel_registered heap (sim_operator_ir_opcode (Some op)) (op_info op) (dc_kernel d) op'"
    using tag_kernel_described [OF k [unfolded kn] k'] by (simp add: kernel_registered_def Some flip: op')
  with op' [symmetric] show ?thesis
    by (intro exI [of _ "Some k'"]
        exI [of _ "sim_operator_info_apply_ir_metadata (op_info op) (kn_builder k')"]) simp
qed

lemma assign_dependencies_result:
  assumes "assign_dependencies heap op d = Inr op'" "op_dependencies op = []"
  shows "op' = op\<lparr>op_dependencies := dc_dependencies d\<rparr>"
  using assms by (auto simp: assign_dependencies_def split: if_splits)

lemma completed_registered:
  assumes "completed heap (assigned g n d) d op" "dc_name d = Some n"
    and "dc_evaluate d \<noteq> None \<or> dc_kernel d \<noteq> None"
  shows "registered_from heap d op" "op_guid op = g"
proof -
  let ?a = "assigned g n d"
  obtain k info where op: "op = ?a\<lparr>op_kernel := k, op_info := info, op_dependencies := dc_dependencies d\<rparr>"
    and i: "oi_schema_key info = oi_schema_key (op_info ?a)"
    and k: "kernel_registered heap (described_opcode d) (described_info d) (dc_kernel d) op"
    using assms(1) unfolding completed_def assigned_opcode assigned_info by blast
  have key: "sim_operator_schema_key (Some op) = sim_operator_schema_key (Some ?a)"
    by (simp add: op sim_operator_schema_key_def i)
  show "registered_from heap d op"
    unfolding registered_from_def key assigned_key descriptor_valid_def
    using assms(2,3) k by (simp add: op assigned_fields)
  show "op_guid op = g" by (simp add: op assigned_fields)
qed

text \<open>The outcomes of an assignment.\<close>

lemma assign_cases:
  obtains
    (invalid) "\<not> descriptor_valid d"
      "sim_operator_assign heap epoch counter d = Some (Inl (SIM_RESULT_INVALID_ARGUMENT, []), counter)"
  | (failed) e where "descriptor_valid d" "\<not> entry_granted heap d" "e \<noteq> SIM_RESULT_OK"
      "sim_operator_assign heap epoch counter d =
         Some (Inl (e, case dc_destroy d of None \<Rightarrow> [] | Some f \<Rightarrow> [(f, dc_userdata d)]), counter + 1)"
  | (assigned) op where "registered_from heap d op" "op_guid op = fst (sim_operator_next_guid epoch counter)"
      "entry_granted heap d" "sim_operator_assign heap epoch counter d = Some (Inr op, counter + 1)"
proof -
  consider "dc_name d = None \<or> dc_evaluate d = None \<and> dc_kernel d = None"
    | n where "dc_name d = Some n" "dc_evaluate d \<noteq> None \<or> dc_kernel d \<noteq> None" by fastforce
  then show thesis
  proof cases
    case 1
    then show thesis
      by (intro invalid) (auto simp: sim_operator_assign_def descriptor_valid_def split: option.split)
  next
    case 2
    then have valid: "descriptor_valid d" by (simp add: descriptor_valid_def)
    obtain g where gc: "sim_operator_next_guid epoch counter = (g, counter + 1)"
      by (simp add: sim_operator_next_guid_def Let_def)
    let ?calls = "case dc_destroy d of None \<Rightarrow> [] | Some f \<Rightarrow> [(f, dc_userdata d)]"
    let ?made = "destroy_calls (assign_basic g n d)"
    have calls: "?made = ?calls"
      by (simp add: destroy_calls_def assign_basic_def sim_operator_config_set_def Let_def split: option.split)
    show thesis
    proof (cases "(dc_read_indices d \<noteq> [] \<and> \<not> calloc_ok heap (length (dc_read_indices d)) 8) \<or>
        (dc_write_indices d \<noteq> [] \<and> \<not> calloc_ok heap (length (dc_write_indices d)) 8)")
      case True
      then have "\<not> entry_granted heap d" by (auto simp: entry_granted_def indices_granted_def)
      with True show thesis using 2 gc calls valid
        by (intro failed [of SIM_RESULT_OUT_OF_MEMORY]) (auto simp: sim_operator_assign_def Let_def)
    next
      case False
      have rest0: "sim_operator_assign heap epoch counter d =
          (case assign_kernel heap (assigned g n d) d of
             None \<Rightarrow> None
           | Some (Inl e) \<Rightarrow> Some (Inl (e, ?made), counter + 1)
           | Some (Inr op) \<Rightarrow>
               (case assign_dependencies heap op d of
                  Inl e \<Rightarrow> Some (Inl (e, ?made), counter + 1)
                | Inr op \<Rightarrow> Some (Inr op, counter + 1)))"
        using 2 False gc calls by (auto simp: sim_operator_assign_def assigned_def Let_def)
      note rest = rest0 [unfolded calls]
      show thesis
      proof (cases "assign_kernel heap (assigned g n d) d")
        case None
        then show thesis by simp
      next
        case (Some r)
        show thesis
        proof (cases r)
          case (Inl e)
          then have "e \<noteq> SIM_RESULT_OK"
            using Some by (auto simp: assign_kernel_def sim_operator_kernel_init_def
                split: option.splits sum.splits if_splits)
          moreover have "\<not> entry_granted heap d"
            using assign_kernel_granted [OF Some] Inl by (auto simp: entry_granted_def)
          ultimately show thesis using rest Some Inl valid by (intro failed [of e]) auto
        next
          case (Inr op)
          show thesis
          proof (cases "assign_dependencies heap op d")
            case (Inl e)
            then have "e \<noteq> SIM_RESULT_OK" "\<not> entry_granted heap d"
              by (auto simp: assign_dependencies_def entry_granted_def indices_granted_def split: if_splits)
            then show thesis using rest Some Inr Inl valid by (intro failed [of e]) auto
          next
            case i: (Inr op')
            obtain k info where op: "op = (assigned g n d)\<lparr>op_kernel := k, op_info := info\<rparr>"
              "oi_schema_key info = oi_schema_key (op_info (assigned g n d))"
              and kr: "kernel_registered heap (sim_operator_ir_opcode (Some (assigned g n d)))
                (op_info (assigned g n d)) (dc_kernel d) op"
              using assign_kernel_result [of heap "assigned g n d" d op] Some Inr
              by (auto simp: assigned_fields)
            then have op': "op' = op\<lparr>op_dependencies := dc_dependencies d\<rparr>"
              by (intro assign_dependencies_result [OF i]) (simp add: assigned_fields)
            then have "completed heap (assigned g n d) d op'"
              unfolding completed_def using op kr [unfolded kernel_registered_def]
              by (intro exI [of _ k] exI [of _ info]) (simp add: kernel_registered_def cong del: option.case_cong)
            moreover have "entry_granted heap d"
              using assign_kernel_granted [OF Some] Inr False i
              by (auto simp: entry_granted_def indices_granted_def assign_dependencies_def split: if_splits)
            ultimately show thesis
              using completed_registered [OF _ 2] rest Some Inr i by (intro assigned [of op']) (auto simp: gc)
          qed
        qed
      qed
    qed
  qed
qed

section \<open>Identifiers are distinct\<close>

lemma guid_parts:
  "fst (sim_operator_next_guid epoch c) =
     (if (c + 1) XOR push_bit 17 epoch = 0 then (c + 1) XOR 0x9E3779B97F4A7C15
      else (c + 1) XOR push_bit 17 epoch)"
  "snd (sim_operator_next_guid epoch c) = c + 1"
  by (simp_all add: sim_operator_next_guid_def Let_def)

lemma xor_zero_eq: "(a :: 'a :: len word) XOR b = 0 \<longleftrightarrow> a = b"
proof
  assume "a XOR b = 0"
  then have "(a XOR b) XOR b = b" by simp
  then show "a = b" by (simp add: xor.assoc)
qed simp

lemma xor_left_cancel: "(a :: 'a :: len word) XOR e = b XOR e \<longleftrightarrow> a = b"
  by (metis xor.assoc xor_self_eq xor.right_neutral)

text \<open>
  The counters of a run are below \<open>2^63\<close>; the constant that replaces a vanishing identifier is not.
\<close>

lemma guid_distinct:
  assumes "unat a < 2 ^ 63 - 1" "unat b < 2 ^ 63 - 1"
    and eq: "fst (sim_operator_next_guid epoch a) = fst (sim_operator_next_guid epoch b)"
  shows "a = b"
proof -
  let ?G = "0x9E3779B97F4A7C15 :: u64" and ?E = "push_bit 17 epoch"
  have small: "unat (x + 1) < 2 ^ 63" if "unat x < 2 ^ 63 - 1" for x :: u64
    using that by (simp add: unat_add_exact)
  have big: "x + 1 \<noteq> ?G" if "unat x < 2 ^ 63 - 1" for x :: u64
    using small [OF that] by auto
  have swap: "(x + 1) XOR ?G = (y + 1) XOR ?E \<Longrightarrow> x + 1 = ?E \<Longrightarrow> y + 1 = ?G" for x y :: u64
    by (metis xor.commute xor_left_cancel)
  have "a + 1 = b + 1"
    using eq big [OF assms(1)] big [OF assms(2)] swap [of a b] swap [of b a]
    unfolding guid_parts xor_zero_eq xor_left_cancel
    by (cases "a + 1 = ?E"; cases "b + 1 = ?E") (simp_all only: if_True if_False xor_left_cancel simp_thms)
  then show ?thesis by simp
qed

lemma guid_nonzero:
  assumes "unat a < 2 ^ 63 - 1"
  shows "fst (sim_operator_next_guid epoch a) \<noteq> 0"
proof -
  have "unat (a + 1) < 2 ^ 63" using assms by (simp add: unat_add_exact)
  then have "a + 1 \<noteq> 0x9E3779B97F4A7C15" by auto
  then show ?thesis by (auto simp: guid_parts xor_zero_eq)
qed

text \<open>
  The identifiers do not grow with the registrations: with the seed 1 the one made at the counter
  \<open>2^17\<close> is smaller than the one before it.
\<close>

lemma guid_not_monotonic:
  "fst (sim_operator_next_guid 1 (2 ^ 17)) < fst (sim_operator_next_guid 1 (2 ^ 17 - 2))"
  by code_simp

section \<open>Registration\<close>

definition registry_ok :: "SimOperatorRegistry \<Rightarrow> bool" where
  "registry_ok reg \<longleftrightarrow>
     length (rg_records reg) \<le> rg_capacity reg \<and> rg_capacity reg * sizeof_SimOperator < 2 ^ 63
     \<and> (\<forall>op \<in> set (rg_records reg). \<exists>heap d. registered_from heap d op)"

lemma grow_records: "rg_records (snd (sim_operator_grow heap reg)) = rg_records reg"
  by (simp add: sim_operator_grow_def Let_def)

lemma grow_ok:
  assumes "registry_ok reg" "bounded_heap heap" "sim_operator_grow heap reg = (r, reg')"
  shows "registry_ok reg'" "r = SIM_RESULT_OK \<Longrightarrow> length (rg_records reg') < rg_capacity reg'"
    "r = SIM_RESULT_OK \<or> r = SIM_RESULT_OUT_OF_MEMORY"
proof -
  let ?n = "if rg_capacity reg = 0 then 4 else rg_capacity reg * 2"
  have fits: "?n * sizeof_SimOperator < 2 ^ 63" if "malloc_ok heap (?n * sizeof_SimOperator)"
  proof -
    have "?n * sizeof_SimOperator < 2 ^ 64" using assms(1) by (auto simp: registry_ok_def sizeof_SimOperator_def)
    then show ?thesis using that assms(2) by (simp add: malloc_ok_def bounded_heap_def)
  qed
  have small: "length (rg_records reg) < ?n" using assms(1) by (auto simp: registry_ok_def)
  show "registry_ok reg'" using assms(1,3) fits small
    by (auto simp: sim_operator_grow_def registry_ok_def Let_def split: if_splits)
  show "r = SIM_RESULT_OK \<Longrightarrow> length (rg_records reg') < rg_capacity reg'"
    "r = SIM_RESULT_OK \<or> r = SIM_RESULT_OUT_OF_MEMORY" using assms(3) small
    by (auto simp: sim_operator_grow_def Let_def split: if_splits)
qed

definition payload_released :: "SimOperatorDescriptor \<Rightarrow> destroy_call list" where
  "payload_released d = (case dc_destroy d of None \<Rightarrow> [] | Some f \<Rightarrow> [(f, dc_userdata d)])"

lemma register_cases:
  obtains
    (failed) rn where "sim_operator_registry_register heap epoch counter reg (Some d) = Some rn"
      "rn_result rn \<noteq> SIM_RESULT_OK" "rn_index rn = None"
      "rn_registry rn = snd (sim_operator_grow heap reg)"
      "\<not> (fst (sim_operator_grow heap reg) = SIM_RESULT_OK \<and> descriptor_valid d \<and> entry_granted heap d)"
      "rn_counter rn = counter \<or> rn_counter rn = counter + 1"
      "rn_destroyed rn =
         (if fst (sim_operator_grow heap reg) = SIM_RESULT_OK \<and> descriptor_valid d
          then payload_released d else [])"
  | (registered) rn op where "sim_operator_registry_register heap epoch counter reg (Some d) = Some rn"
      "rn_result rn = SIM_RESULT_OK" "rn_index rn = Some (length (rg_records reg))"
      "rn_registry rn = (snd (sim_operator_grow heap reg))\<lparr>rg_records := rg_records reg @ [op]\<rparr>"
      "fst (sim_operator_grow heap reg) = SIM_RESULT_OK"
      "rn_counter rn = counter + 1" "rn_destroyed rn = []"
      "registered_from heap d op" "op_guid op = fst (sim_operator_next_guid epoch counter)"
      "descriptor_valid d" "entry_granted heap d"
proof -
  obtain r reg' where g: "sim_operator_grow heap reg = (r, reg')" by fastforce
  have rec: "rg_records reg' = rg_records reg" using grow_records [of heap reg] g by simp
  show thesis
  proof (cases "r = SIM_RESULT_OK")
    case False
    show thesis
      using False g
      by (intro that(1) [of "\<lparr>rn_result = r, rn_index = None, rn_registry = reg', rn_counter = counter,
          rn_destroyed = []\<rparr>"])
        (simp_all add: sim_operator_registry_register_def)
  next
    case True
    show thesis
    proof (cases rule: assign_cases [of d heap epoch counter])
      case invalid
      then show thesis using True g
        by (intro failed [of "\<lparr>rn_result = SIM_RESULT_INVALID_ARGUMENT, rn_index = None,
            rn_registry = reg', rn_counter = counter, rn_destroyed = []\<rparr>"])
          (auto simp: sim_operator_registry_register_def descriptor_valid_def)
    next
      case (failed e)
      then show thesis using True g
        by (intro that(1) [of "\<lparr>rn_result = e, rn_index = None, rn_registry = reg',
            rn_counter = counter + 1, rn_destroyed = payload_released d\<rparr>"])
          (simp_all add: sim_operator_registry_register_def descriptor_valid_def payload_released_def)
    next
      case (assigned op)
      then show thesis using True g rec
        by (intro registered [of "\<lparr>rn_result = SIM_RESULT_OK, rn_index = Some (length (rg_records reg)),
            rn_registry = reg'\<lparr>rg_records := rg_records reg @ [op]\<rparr>, rn_counter = counter + 1,
            rn_destroyed = []\<rparr>" op])
          (simp_all add: sim_operator_registry_register_def registered_from_def)
    qed
  qed
qed

text \<open>
  C7. Registering a descriptor always returns, and it succeeds exactly when the array can take one operator
  more, the descriptor has a name and a callback or a kernel, a kernel descriptor is complete, and the memory
  for the copies is granted. On success the registry has exactly one operator more, at the index reported,
  with every member as described: the descriptor's callbacks, field sets and dependencies, its configuration
  and metadata in normal form, its names cut to their buffers, and a private copy of its kernel, with the
  bindings, outputs and parameters of the descriptor and the nodes and constants of its builder, where
  exactly the unlabelled nodes the outputs depend on have got the opcode of the operator. The operators
  before it are unchanged. On failure the operators are unchanged and no index is reported, but once the
  checks are passed the descriptor's payload has been released, with one call of its \<^verbatim>\<open>destroy\<close>: the caller
  must not use it again.
\<close>

theorem register_exact:
  "\<exists>rn. sim_operator_registry_register heap epoch counter reg (Some d) = Some rn \<and>
     (rn_result rn = SIM_RESULT_OK \<longleftrightarrow>
        fst (sim_operator_grow heap reg) = SIM_RESULT_OK \<and> descriptor_valid d \<and> entry_granted heap d) \<and>
     (if rn_result rn = SIM_RESULT_OK
      then rn_index rn = Some (length (rg_records reg)) \<and> rn_destroyed rn = []
        \<and> (\<exists>op. rg_records (rn_registry rn) = rg_records reg @ [op] \<and> registered_from heap d op)
      else rn_index rn = None \<and> rg_records (rn_registry rn) = rg_records reg
        \<and> rn_destroyed rn =
            (if fst (sim_operator_grow heap reg) = SIM_RESULT_OK \<and> descriptor_valid d
             then payload_released d else []))"
proof (cases rule: register_cases [of heap epoch counter reg d])
  case (failed rn)
  then show ?thesis by (intro exI [of _ rn]) (auto simp: grow_records)
next
  case (registered rn op)
  then show ?thesis by (intro exI [of _ rn]) (auto simp: grow_records)
qed

section \<open>Registries of a run\<close>

text \<open>The registries \<open>n\<close> calls of the registration function lead to, from the empty one.\<close>

inductive registry_built :: "heap \<Rightarrow> u64 \<Rightarrow> nat \<Rightarrow> SimOperatorRegistry \<Rightarrow> u64 \<Rightarrow> bool"
  for heap epoch where
  built_init: "registry_built heap epoch 0 empty_registry 0"
| built_register: "registry_built heap epoch n reg counter \<Longrightarrow>
     sim_operator_registry_register heap epoch counter reg (Some d) = Some rn \<Longrightarrow>
     registry_built heap epoch (Suc n) (rn_registry rn) (rn_counter rn)"

lemma registry_built_ok:
  assumes "registry_built heap epoch n reg counter" "bounded_heap heap"
  shows "registry_ok reg"
  using assms(1)
proof induction
  case built_init
  show ?case by (simp add: registry_ok_def empty_registry_def)
next
  case (built_register n reg counter d rn)
  obtain r reg' where g: "sim_operator_grow heap reg = (r, reg')" by fastforce
  note ok = grow_ok [OF built_register.IH assms(2) g]
  from grow_records [of heap reg] g have rec: "rg_records reg' = rg_records reg" by simp
  show ?case
  proof (cases rule: register_cases [of heap epoch counter reg d])
    case (failed rn')
    then show ?thesis using built_register(2) ok(1) g by simp
  next
    case (registered rn' op)
    then show ?thesis using built_register(2) ok g rec by (auto simp: registry_ok_def)
  qed
qed

text \<open>The counter values the identifiers of a registry come from.\<close>

lemma registry_built_guids:
  assumes "registry_built heap epoch n reg counter" "n < 2 ^ 63"
  shows "unat counter \<le> n \<and>
    (\<exists>cs. distinct cs \<and> (\<forall>c \<in> set cs. unat c < unat counter) \<and>
       map op_guid (rg_records reg) = map (\<lambda>c. fst (sim_operator_next_guid epoch c)) cs)"
  using assms
proof induction
  case built_init
  show ?case by (simp add: empty_registry_def)
next
  case (built_register n reg counter d rn)
  then obtain cs where cs: "unat counter \<le> n" "distinct cs" "\<forall>c \<in> set cs. unat c < unat counter"
    "map op_guid (rg_records reg) = map (\<lambda>c. fst (sim_operator_next_guid epoch c)) cs" by auto
  have up: "unat (counter + 1) = unat counter + 1"
    using cs(1) built_register.prems by (simp add: unat_add_exact)
  show ?case
  proof (cases rule: register_cases [of heap epoch counter reg d])
    case (failed rn')
    then have "rg_records (rn_registry rn) = rg_records reg" "rn = rn'"
      using built_register(2) by (simp_all add: grow_records)
    then show ?thesis using failed(6) cs up by (auto intro!: exI [of _ cs])
  next
    case (registered rn' op)
    then have "rn = rn'" using built_register(2) by simp
    then show ?thesis
      using registered cs up by (auto intro!: exI [of _ "cs @ [counter]"] intro: less_SucI)
  qed
qed

text \<open>
  C16. In a registry made by fewer than \<open>2^63\<close> registrations, whatever failed in between, the operators
  have pairwise different identifiers, none of them zero, and the array has room for all of them.
\<close>

theorem registry_identities_distinct:
  assumes "registry_built heap epoch n reg counter" "n < 2 ^ 63" "bounded_heap heap"
  shows "distinct (map op_guid (rg_records reg)) \<and> 0 \<notin> op_guid ` set (rg_records reg)
    \<and> length (rg_records reg) \<le> rg_capacity reg \<and> rg_capacity reg * sizeof_SimOperator < 2 ^ 63"
proof -
  obtain cs where cs: "unat counter \<le> n" "distinct cs" "\<forall>c \<in> set cs. unat c < unat counter"
    and g: "map op_guid (rg_records reg) = map (\<lambda>c. fst (sim_operator_next_guid epoch c)) cs"
    using registry_built_guids [OF assms(1,2)] by blast
  have small: "unat c < 2 ^ 63 - 1" if "c \<in> set cs" for c
    using cs(1,3) assms(2) that by fastforce
  have "inj_on (\<lambda>c. fst (sim_operator_next_guid epoch c)) (set cs)"
    by (intro inj_onI) (rule guid_distinct, erule small, erule small)
  then have "distinct (map op_guid (rg_records reg))" unfolding g by (simp add: distinct_map cs(2))
  moreover have "op_guid ` set (rg_records reg) = (\<lambda>c. fst (sim_operator_next_guid epoch c)) ` set cs"
    unfolding set_map [symmetric] g by (rule refl)
  moreover have "0 \<notin> (\<lambda>c. fst (sim_operator_next_guid epoch c)) ` set cs"
    using guid_nonzero [OF small] by (metis imageE)
  moreover have "length (rg_records reg) \<le> rg_capacity reg"
    "rg_capacity reg * sizeof_SimOperator < 2 ^ 63"
    using registry_built_ok [OF assms(1,3)] unfolding registry_ok_def by blast+
  ultimately show ?thesis by (simp only: simp_thms)
qed

text \<open>A descriptor with a callback, a payload and two fields.\<close>

definition demo_descriptor :: SimOperatorDescriptor where
  "demo_descriptor =
     \<lparr>dc_name = Some ''demo'', dc_config = sim_operator_config_defaults, dc_evaluate = Some 1,
      dc_destroy = Some 2, dc_userdata = Some 3, dc_dependencies = [], dc_kernel = None,
      dc_info = sim_operator_info_defaults, dc_read_mask = 1, dc_write_mask = 2, dc_read_indices = [],
      dc_write_indices = [], dc_required_features = 0, dc_catalog_metadata = None, dc_save_state = None,
      dc_restore_state = None, dc_config_adapter = None, dc_graph_ir_view = None\<rparr>"

definition ample_heap :: heap where
  "ample_heap k \<longleftrightarrow> k < 2 ^ 63"

lemma ample_heap_bounded: "bounded_heap ample_heap"
  by (simp add: bounded_heap_def ample_heap_def)

lemma demo_registered:
  "\<exists>rn. sim_operator_registry_register ample_heap 1 0 empty_registry (Some demo_descriptor) = Some rn
     \<and> rn_result rn = SIM_RESULT_OK"
  by (simp add: sim_operator_registry_register_def sim_operator_grow_def empty_registry_def malloc_ok_def
      ample_heap_def sizeof_SimOperator_def sim_operator_assign_def demo_descriptor_def
      sim_operator_next_guid_def assign_kernel_def assign_dependencies_def Let_def)

lemma registry_identities_distinct_witness:
  "\<exists>rn. sim_operator_registry_register ample_heap 1 0 empty_registry (Some demo_descriptor) = Some rn
     \<and> length (rg_records (rn_registry rn)) = 1
     \<and> 0 \<notin> op_guid ` set (rg_records (rn_registry rn))"
proof -
  obtain rn where rn: "sim_operator_registry_register ample_heap 1 0 empty_registry (Some demo_descriptor)
      = Some rn" "rn_result rn = SIM_RESULT_OK"
    using demo_registered by blast
  have "length (rg_records (rn_registry rn)) = 1"
    using rn by (cases rule: register_cases [of ample_heap 1 0 empty_registry demo_descriptor])
      (auto simp: empty_registry_def)
  then show ?thesis
    using rn registry_identities_distinct [OF built_register [OF built_init rn(1)] _ ample_heap_bounded]
    by auto
qed

end
