(* ===== verification/Capacity_Loop.thy ===== *)
theory Capacity_Loop
  imports Oak_Prelude
begin

text \<open>
  The doubling loop \<^verbatim>\<open>while (new_capacity < required) new_capacity *= 2U\<close> with which
  \<^verbatim>\<open>core/src/sim_world.c\<close> and \<^verbatim>\<open>core/src/sim_runtime_state.c\<close> grow their arrays, on \<^verbatim>\<open>size_t\<close> values: the
  product wraps, and a capacity that has wrapped to zero is never large enough. \<open>None\<close> is a loop that
  does not end.
\<close>

partial_function (option) double_until :: "size_t \<Rightarrow> size_t \<Rightarrow> size_t option" where
  "double_until new_capacity required =
     (if new_capacity < required then double_until (new_capacity * 2) required else Some new_capacity)"

declare double_until.simps [code]

text \<open>The capacity to start from: a power of two, four for an empty array.\<close>

definition grown_capacity :: "size_t \<Rightarrow> size_t \<Rightarrow> size_t option" where
  "grown_capacity capacity required = double_until (if capacity = 0 then 4 else capacity) required"

lemma double_until_done: "\<not> c < required \<Longrightarrow> double_until c required = Some c"
  by (simp add: double_until.simps)

lemma double_until_returns:
  assumes "0 < unat c" "unat required \<le> 2 ^ 63"
  shows "\<exists>r. double_until c required = Some r \<and> required \<le> r \<and> c \<le> r \<and>
    (c < required \<longrightarrow> unat r < 2 * unat required)"
  using assms
proof (induction "unat required - unat c" arbitrary: c rule: less_induct)
  case less
  show ?case
  proof (cases "c < required")
    case True
    then have lt: "unat c < unat required" by (simp add: word_less_nat_alt)
    then have d: "unat (c * 2) = unat c * 2" using less.prems(2) by (intro trans [OF unat_mult_exact]) auto
    obtain r where r: "double_until (c * 2) required = Some r" "required \<le> r" "c * 2 \<le> r"
      "c * 2 < required \<longrightarrow> unat r < 2 * unat required"
      using less.hyps [of "c * 2"] d less.prems lt diff_less_mono2 [of "unat c" "unat c * 2" "unat required"]
      by auto
    have "unat r < 2 * unat required"
    proof (cases "c * 2 < required")
      case False
      then have "r = c * 2" using r(1) double_until_done by simp
      then show ?thesis using d lt by simp
    qed (use r in simp)
    moreover have "c \<le> r" using r(3) d by (simp add: word_le_nat_alt)
    ultimately show ?thesis using r True by (subst double_until.simps) simp
  qed (use double_until_done in auto)
qed

lemma double_until_zero:
  assumes "double_until c required = Some r"
  shows "c = 0 \<longrightarrow> required = 0"
proof (rule double_until.raw_induct [where P = "\<lambda>c required r. c = 0 \<longrightarrow> required = 0", OF _ assms])
  fix f and c required r :: size_t
  assume IH: "\<And>c required r. f c required = Some r \<Longrightarrow> c = 0 \<longrightarrow> required = 0"
    and run: "(if c < required then f (c * 2) required else Some c) = Some r"
  show "c = 0 \<longrightarrow> required = 0"
  proof
    assume "c = 0"
    then show "required = 0" using run IH [of 0 required r] by (cases "required = 0") (auto simp: word_gt_0)
  qed
qed

text \<open>A requirement beyond \<open>2^63\<close> keeps the loop running for ever, whatever power of two it starts from.\<close>

lemma double_until_diverges:
  assumes "2 ^ 63 < unat required"
  shows "double_until (2 ^ k) required = None"
proof (induction "64 - k" arbitrary: k)
  case 0
  then have z: "(2 :: size_t) ^ k = 0" by (intro exp_eq_zero_iff [THEN iffD2]) simp
  have "required \<noteq> 0" using assms by auto
  then show ?case
    unfolding z using double_until_zero [of 0 required] by (cases "double_until 0 required") simp_all
next
  case (Suc d)
  then have "(2 :: nat) ^ k < 2 ^ 64" by (intro power_strict_increasing) simp_all
  then have "unat (word_of_nat (2 ^ k) :: size_t) = 2 ^ k" by (rule unat_word_of_nat_64)
  then have "unat ((2 :: size_t) ^ k) = 2 ^ k" by simp
  moreover have "(2 :: nat) ^ k \<le> 2 ^ 63" using Suc.hyps(2) by (intro power_increasing) auto
  ultimately have "(2 :: size_t) ^ k < required" using assms by (simp add: word_less_nat_alt)
  moreover have "double_until (2 ^ Suc k) required = None" using Suc.hyps by (intro Suc.hyps(1)) simp
  ultimately show ?case by (subst double_until.simps) (simp add: mult.commute)
qed

lemma grown_capacity_returns:
  assumes "capacity < required" "unat required \<le> 2 ^ 63"
  shows "\<exists>r. grown_capacity capacity required = Some r \<and> required \<le> r \<and> capacity < r"
proof -
  let ?c = "if capacity = 0 then 4 else capacity"
  have "0 < unat ?c" by (simp add: unat_gt_0)
  from double_until_returns [OF this assms(2)] show ?thesis
    using assms(1) unfolding grown_capacity_def by (meson less_le_trans)
qed

end
