(* ===== verification/Runtime_State.thy ===== *)
theory Runtime_State
  imports Capacity_Loop Bounded_History Operator_Info
begin

text \<open>
  \<^verbatim>\<open>core/src/sim_runtime_state.c\<close> and \<^verbatim>\<open>include/oakfield/sim_runtime_state.h\<close>: the dynamic state of a
  context.

  The per-field arrays are allocated together, have the length \<^verbatim>\<open>continuity_capacity\<close> and are released
  together: the model keeps one list with one record per field. What the statistics, topology and metric
  caches hold is not looked at here: such a cell is the list of its words, \<open>[]\<close> after \<^verbatim>\<open>calloc\<close>. The
  configuration and timing profile of the field statistics and the flux lens are not part of the model.
\<close>

section \<open>Data\<close>

type_synonym cell = "u64 list"

datatype SimTimeModel = SIM_TIME_MODEL_CONTINUOUS | SIM_TIME_MODEL_MAP

datatype SimRuntimeLoopStopReason =
    SIM_RUNTIME_LOOP_STOP_REASON_NONE
  | SIM_RUNTIME_LOOP_STOP_REASON_PAUSED
  | SIM_RUNTIME_LOOP_STOP_REASON_CANCELLED
  | SIM_RUNTIME_LOOP_STOP_REASON_STEPS_EXHAUSTED
  | SIM_RUNTIME_LOOP_STOP_REASON_MAX_SIM_TIME_REACHED
  | SIM_RUNTIME_LOOP_STOP_REASON_MAX_WALL_MS_REACHED
  | SIM_RUNTIME_LOOP_STOP_REASON_RUNTIME_ERROR

datatype SimRuntimeLoopErrorSource =
    SIM_RUNTIME_LOOP_ERROR_SOURCE_NONE
  | SIM_RUNTIME_LOOP_ERROR_SOURCE_SCHEDULER_STEP
  | SIM_RUNTIME_LOOP_ERROR_SOURCE_EXECUTION_FRAME
  | SIM_RUNTIME_LOOP_ERROR_SOURCE_OPERATOR_EXECUTION
  | SIM_RUNTIME_LOOP_ERROR_SOURCE_INTEGRATOR_BRIDGE
  | SIM_RUNTIME_LOOP_ERROR_SOURCE_INTEGRATOR_SEQUENCE
  | SIM_RUNTIME_LOOP_ERROR_SOURCE_LEGACY_STEP

datatype SimRuntimeCallerStepMode =
    SIM_RUNTIME_CALLER_STEP_MODE_NONE
  | SIM_RUNTIME_CALLER_STEP_MODE_MANUAL_STEP
  | SIM_RUNTIME_CALLER_STEP_MODE_INTEGRATOR_STEP

datatype SimRuntimeLoopProgressKind =
    SIM_RUNTIME_LOOP_PROGRESS_NONE
  | SIM_RUNTIME_LOOP_PROGRESS_RUN_STEPS
  | SIM_RUNTIME_LOOP_PROGRESS_RUN_UNTIL
  | SIM_RUNTIME_LOOP_PROGRESS_RUN_INTEGRATOR_STEPS
  | SIM_RUNTIME_LOOP_PROGRESS_RUN_UNTIL_INTEGRATOR
  | SIM_RUNTIME_LOOP_PROGRESS_RUN_PARAMETER_SWEEP
  | SIM_RUNTIME_LOOP_PROGRESS_RUN_PARAMETER_GRID
  | SIM_RUNTIME_LOOP_PROGRESS_RUN_PARAMETER_CONTINUATION

definition SIM_STEP_METRIC_HISTORY :: nat where "SIM_STEP_METRIC_HISTORY = 128"

definition SIM_RUNTIME_VIS_DOWNSAMPLE_TARGET_DEFAULT :: size_t where
  "SIM_RUNTIME_VIS_DOWNSAMPLE_TARGET_DEFAULT = 4096"

definition SIM_RUNTIME_VIS_DOWNSAMPLE_MAX_DEFAULT :: size_t where
  "SIM_RUNTIME_VIS_DOWNSAMPLE_MAX_DEFAULT = 16384"

text \<open>\<^verbatim>\<open>0.0166667f\<close>, converted to \<^verbatim>\<open>double\<close>.\<close>

definition SIM_RUNTIME_DEFAULT_DT :: f64 where
  "SIM_RUNTIME_DEFAULT_DT = 0x3F91111340000000"

record SimStepMetrics =
  sm_step_index :: size_t
  sm_requested_dt :: f64
  sm_accepted_dt :: f64
  sm_next_dt :: f64
  sm_rms_error :: f64
  sm_step_wall_ns :: u64
  sm_integrator_wall_ns :: u64
  sm_operator_wall_ns :: u64
  sm_dirty_write_count :: u64
  sm_stable_write_count :: u64
  sm_integrator_workspace_bytes :: u64
  sm_integrator_drift_scratch_bytes :: u64
  sm_integrator_attempt_count :: u32
  sm_integrator_rejection_count :: u32
  sm_active_warp_mask :: u32

record SimRuntimeLoopError =
  le_valid :: bool
  le_code :: SimResult
  le_source :: SimRuntimeLoopErrorSource
  le_step_index :: size_t

record SimRuntimeLoopProgress =
  lp_active :: bool
  lp_kind :: SimRuntimeLoopProgressKind
  lp_steps_completed :: u64
  lp_checks_completed :: u64
  lp_step_chunk :: u64
  lp_step_budget :: u64
  lp_check_budget :: u64
  lp_sim_time_advanced :: f64
  lp_wall_time_ms :: f64
  lp_sim_time_budget :: f64
  lp_wall_time_budget :: f64
  lp_requested_dt :: f64
  lp_trace_limit :: size_t
  lp_has_step_chunk :: bool
  lp_has_step_budget :: bool
  lp_has_check_budget :: bool
  lp_has_sim_time_budget :: bool
  lp_has_wall_time_budget :: bool
  lp_has_requested_dt :: bool
  lp_has_trace_limit :: bool

text \<open>One position of the per-field arrays; a null pointer is \<open>None\<close>.\<close>

record field_slot =
  fs_dirty_count :: u64
  fs_stable_count :: u64
  fs_phase_ema :: f64
  fs_phase_last_time :: f64
  fs_phase_lock_state :: u8
  fs_phase_initialized :: u8
  fs_drift_stats :: cell
  fs_drift_stats_valid :: bool
  fs_drift_stats_requested :: bool
  fs_snapshot :: "cell option"
  fs_snapshot_capacity :: size_t
  fs_snapshot_count :: size_t
  fs_snapshot_step_index :: size_t
  fs_snapshot_valid :: bool
  fs_snapshot_requested :: bool
  fs_stats_cache :: cell
  fs_stats_cache_step_index :: size_t
  fs_topology_cache :: cell
  fs_health_cache_step_index :: size_t
  fs_health_nan_count :: size_t
  fs_health_inf_count :: size_t
  fs_visual_cache :: "cell option"
  fs_visual_cache_capacity :: size_t
  fs_visual_cache_count :: size_t
  fs_visual_cache_step_index :: size_t
  fs_visual_cache_source_count :: size_t
  fs_visual_cache_stride :: size_t
  fs_visual_cache_valid :: bool
  fs_phase_metrics :: cell
  fs_phase_metrics_step_index :: size_t
  fs_phase_metrics_sample_count :: size_t
  fs_phase_metrics_valid :: bool
  fs_waveform_stats :: cell
  fs_waveform_stats_step_index :: size_t
  fs_waveform_stats_sample_count :: size_t
  fs_waveform_stats_valid :: bool

record measurement_cache =
  mc_step_index :: size_t
  mc_valid :: bool
  mc_energy :: f64
  mc_dissipation :: f64
  mc_remainder :: f64
  mc_remainder_sources :: size_t
  mc_energy_valid :: bool
  mc_dissipation_valid :: bool
  mc_remainder_valid :: bool

record loop_metadata =
  lm_pending_cancel :: bool
  lm_last_stop_reason :: SimRuntimeLoopStopReason
  lm_last_loop_error :: SimRuntimeLoopError
  lm_last_caller_step_mode :: SimRuntimeCallerStepMode
  lm_caller_step_streak :: size_t
  lm_external_driver_depth :: u32
  lm_loop_progress :: SimRuntimeLoopProgress
  lm_last_loop_progress :: SimRuntimeLoopProgress
  lm_last_loop_progress_valid :: bool

text \<open>
  \<^verbatim>\<open>SimRuntimeState\<close>; the measurement taps and the loop metadata are grouped. \<open>rs_slots\<close> holds the
  per-field arrays, its length is their common length.
\<close>

record SimRuntimeState =
  rs_dt :: f64
  rs_time_model :: SimTimeModel
  rs_step_index :: size_t
  rs_time_accumulated :: f64
  rs_drift_mode_depth :: u32
  rs_drift_time_override :: f64
  rs_drift_time_override_active :: bool
  rs_slots :: "field_slot list"
  rs_continuity_capacity :: size_t
  rs_drift_field_stats_step_index :: size_t
  rs_measurement :: measurement_cache
  rs_visual_sample_target_samples :: size_t
  rs_visual_sample_max_samples :: size_t
  rs_current_step_warp_mask :: u32
  rs_step_metrics :: "SimStepMetrics list"
  rs_step_metrics_head :: nat
  rs_step_metrics_count :: nat
  rs_step_metrics_valid :: bool
  rs_step_metrics_latest :: SimStepMetrics
  rs_loop :: loop_metadata

section \<open>Initial values\<close>

definition no_progress :: SimRuntimeLoopProgress where
  "no_progress =
     \<lparr>lp_active = False, lp_kind = SIM_RUNTIME_LOOP_PROGRESS_NONE, lp_steps_completed = 0,
      lp_checks_completed = 0, lp_step_chunk = 0, lp_step_budget = 0, lp_check_budget = 0,
      lp_sim_time_advanced = 0, lp_wall_time_ms = 0, lp_sim_time_budget = 0, lp_wall_time_budget = 0,
      lp_requested_dt = 0, lp_trace_limit = 0, lp_has_step_chunk = False, lp_has_step_budget = False,
      lp_has_check_budget = False, lp_has_sim_time_budget = False, lp_has_wall_time_budget = False,
      lp_has_requested_dt = False, lp_has_trace_limit = False\<rparr>"

definition no_loop_error :: SimRuntimeLoopError where
  "no_loop_error = \<lparr>le_valid = False, le_code = SIM_RESULT_OK, le_source = SIM_RUNTIME_LOOP_ERROR_SOURCE_NONE,
     le_step_index = 0\<rparr>"

definition sim_runtime_state_reset_loop_metadata :: "SimRuntimeState \<Rightarrow> SimRuntimeState" where
  "sim_runtime_state_reset_loop_metadata rs =
     rs\<lparr>rs_loop :=
       \<lparr>lm_pending_cancel = False,
        lm_last_stop_reason = SIM_RUNTIME_LOOP_STOP_REASON_NONE,
        lm_last_loop_error = no_loop_error,
        lm_last_caller_step_mode = SIM_RUNTIME_CALLER_STEP_MODE_NONE,
        lm_caller_step_streak = 0,
        lm_external_driver_depth = 0,
        lm_loop_progress = no_progress,
        lm_last_loop_progress = no_progress,
        lm_last_loop_progress_valid = False\<rparr>\<rparr>"

definition no_measurement :: measurement_cache where
  "no_measurement =
     \<lparr>mc_step_index = size_max, mc_valid = False, mc_energy = 0, mc_dissipation = 0, mc_remainder = 0,
      mc_remainder_sources = 0, mc_energy_valid = False, mc_dissipation_valid = False,
      mc_remainder_valid = False\<rparr>"

definition zero_metrics :: SimStepMetrics where
  "zero_metrics =
     \<lparr>sm_step_index = 0, sm_requested_dt = 0, sm_accepted_dt = 0, sm_next_dt = 0, sm_rms_error = 0,
      sm_step_wall_ns = 0, sm_integrator_wall_ns = 0, sm_operator_wall_ns = 0, sm_dirty_write_count = 0,
      sm_stable_write_count = 0, sm_integrator_workspace_bytes = 0, sm_integrator_drift_scratch_bytes = 0,
      sm_integrator_attempt_count = 0, sm_integrator_rejection_count = 0, sm_active_warp_mask = 0\<rparr>"

text \<open>
  The slot of a new position: cleared, but for the step indices filled with \<^verbatim>\<open>0xFF\<close> bytes and the
  topology cell, which \<^verbatim>\<open>sim_field_topology_runtime_init\<close> initializes to \<open>topology\<close>.
\<close>

definition fresh_slot :: "cell \<Rightarrow> field_slot" where
  "fresh_slot topology =
     \<lparr>fs_dirty_count = 0, fs_stable_count = 0, fs_phase_ema = 0, fs_phase_last_time = 0,
      fs_phase_lock_state = 0, fs_phase_initialized = 0, fs_drift_stats = [],
      fs_drift_stats_valid = False, fs_drift_stats_requested = False, fs_snapshot = None,
      fs_snapshot_capacity = 0, fs_snapshot_count = 0, fs_snapshot_step_index = 0,
      fs_snapshot_valid = False, fs_snapshot_requested = False, fs_stats_cache = [],
      fs_stats_cache_step_index = size_max, fs_topology_cache = topology,
      fs_health_cache_step_index = size_max, fs_health_nan_count = 0, fs_health_inf_count = 0,
      fs_visual_cache = None, fs_visual_cache_capacity = 0, fs_visual_cache_count = 0,
      fs_visual_cache_step_index = size_max, fs_visual_cache_source_count = 0,
      fs_visual_cache_stride = 0, fs_visual_cache_valid = False, fs_phase_metrics = [],
      fs_phase_metrics_step_index = size_max, fs_phase_metrics_sample_count = 0,
      fs_phase_metrics_valid = False, fs_waveform_stats = [], fs_waveform_stats_step_index = size_max,
      fs_waveform_stats_sample_count = 0, fs_waveform_stats_valid = False\<rparr>"

definition sim_runtime_state_init :: "SimRuntimeState \<Rightarrow> SimRuntimeState" where
  "sim_runtime_state_init rs =
     sim_runtime_state_reset_loop_metadata
       (rs\<lparr>rs_dt := SIM_RUNTIME_DEFAULT_DT,
           rs_time_model := SIM_TIME_MODEL_CONTINUOUS,
           rs_step_index := 0,
           rs_time_accumulated := f64_zero,
           rs_drift_mode_depth := 0,
           rs_drift_time_override := f64_zero,
           rs_drift_time_override_active := False,
           rs_slots := [],
           rs_continuity_capacity := 0,
           rs_drift_field_stats_step_index := size_max,
           rs_measurement := no_measurement,
           rs_visual_sample_target_samples := SIM_RUNTIME_VIS_DOWNSAMPLE_TARGET_DEFAULT,
           rs_visual_sample_max_samples := SIM_RUNTIME_VIS_DOWNSAMPLE_MAX_DEFAULT,
           rs_current_step_warp_mask := 0,
           rs_step_metrics := replicate SIM_STEP_METRIC_HISTORY zero_metrics,
           rs_step_metrics_head := 0,
           rs_step_metrics_count := 0,
           rs_step_metrics_valid := False,
           rs_step_metrics_latest := zero_metrics\<rparr>)"

definition sim_runtime_state_release_continuity_buffers :: "SimRuntimeState \<Rightarrow> SimRuntimeState" where
  "sim_runtime_state_release_continuity_buffers rs =
     sim_runtime_state_reset_loop_metadata
       (rs\<lparr>rs_slots := [],
           rs_continuity_capacity := 0,
           rs_drift_field_stats_step_index := size_max,
           rs_measurement := no_measurement\<rparr>)"

definition sim_runtime_state_destroy :: "SimRuntimeState \<Rightarrow> SimRuntimeState" where
  "sim_runtime_state_destroy rs =
     sim_runtime_state_reset_loop_metadata
       ((sim_runtime_state_release_continuity_buffers rs)
          \<lparr>rs_dt := SIM_RUNTIME_DEFAULT_DT,
           rs_time_model := SIM_TIME_MODEL_CONTINUOUS,
           rs_step_index := 0,
           rs_time_accumulated := f64_zero,
           rs_drift_mode_depth := 0,
           rs_drift_time_override := f64_zero,
           rs_drift_time_override_active := False,
           rs_current_step_warp_mask := 0,
           rs_step_metrics_head := 0,
           rs_step_metrics_count := 0,
           rs_step_metrics_valid := False,
           rs_step_metrics_latest := zero_metrics,
           rs_measurement := no_measurement,
           rs_visual_sample_target_samples := SIM_RUNTIME_VIS_DOWNSAMPLE_TARGET_DEFAULT,
           rs_visual_sample_max_samples := SIM_RUNTIME_VIS_DOWNSAMPLE_MAX_DEFAULT\<rparr>)"

section \<open>Growing the per-field arrays\<close>

text \<open>
  The requests of \<^verbatim>\<open>sim_runtime_state_ensure_continuity_capacity\<close>: arrays of bytes and flags, of words and
  pointers, and of the statistics (200 bytes), topology (200), phase (88) and waveform (32) records.
\<close>

definition continuity_granted :: "heap \<Rightarrow> size_t \<Rightarrow> bool" where
  "continuity_granted heap new_capacity \<longleftrightarrow>
     calloc_ok heap (unat new_capacity) 8 \<and> calloc_ok heap (unat new_capacity) 1
     \<and> calloc_ok heap (unat new_capacity) 200 \<and> malloc_ok heap (unat new_capacity * 8)
     \<and> calloc_ok heap (unat new_capacity) 88 \<and> calloc_ok heap (unat new_capacity) 32"

definition sim_runtime_state_ensure_continuity_capacity ::
  "heap \<Rightarrow> cell \<Rightarrow> SimRuntimeState \<Rightarrow> size_t \<Rightarrow> (SimResult \<times> SimRuntimeState) option" where
  "sim_runtime_state_ensure_continuity_capacity heap topology rs required =
     (if required = 0 \<or> required \<le> rs_continuity_capacity rs then Some (SIM_RESULT_OK, rs)
      else (case grown_capacity (rs_continuity_capacity rs) required of
              None \<Rightarrow> None
            | Some new_capacity \<Rightarrow>
                if \<not> continuity_granted heap new_capacity then Some (SIM_RESULT_OUT_OF_MEMORY, rs)
                else
                  let slots = rs_slots rs @ replicate (unat new_capacity - length (rs_slots rs)) (fresh_slot topology)
                  in Some (SIM_RESULT_OK,
                       rs\<lparr>rs_slots := map (\<lambda>s. s\<lparr>fs_drift_stats_valid := False\<rparr>) slots,
                          rs_drift_field_stats_step_index := size_max,
                          rs_continuity_capacity := new_capacity\<rparr>)))"

section \<open>Step metrics\<close>

definition sim_runtime_state_record_step_metrics :: "SimStepMetrics option \<Rightarrow> SimRuntimeState \<Rightarrow> SimRuntimeState" where
  "sim_runtime_state_record_step_metrics metrics rs =
     (case metrics of
        None \<Rightarrow> rs
      | Some m \<Rightarrow>
          rs\<lparr>rs_step_metrics := (rs_step_metrics rs)[rs_step_metrics_head rs := m],
             rs_step_metrics_head := (rs_step_metrics_head rs + 1) mod SIM_STEP_METRIC_HISTORY,
             rs_step_metrics_count :=
               (if rs_step_metrics_count rs < SIM_STEP_METRIC_HISTORY then rs_step_metrics_count rs + 1
                else rs_step_metrics_count rs),
             rs_step_metrics_latest := m,
             rs_step_metrics_valid := True\<rparr>)"

definition sim_runtime_state_latest_step_metrics :: "SimRuntimeState \<Rightarrow> SimStepMetrics option" where
  "sim_runtime_state_latest_step_metrics rs =
     (if \<not> rs_step_metrics_valid rs then None else Some (rs_step_metrics_latest rs))"

text \<open>The entries written to \<open>dest\<close>; their number is the result.\<close>

definition sim_runtime_state_copy_step_metrics :: "SimRuntimeState \<Rightarrow> nat \<Rightarrow> SimStepMetrics list" where
  "sim_runtime_state_copy_step_metrics rs capacity =
     (if capacity = 0 \<or> rs_step_metrics_count rs = 0 then []
      else
        let count = rs_step_metrics_count rs;
            to_copy = (if capacity < count then capacity else count);
            start_index = (rs_step_metrics_head rs + SIM_STEP_METRIC_HISTORY - count) mod SIM_STEP_METRIC_HISTORY
        in map (\<lambda>i. rs_step_metrics rs ! ((start_index + i) mod SIM_STEP_METRIC_HISTORY)) [0..<to_copy])"

section \<open>Loop metadata\<close>

definition sim_runtime_state_set_pending_cancel :: "bool \<Rightarrow> SimRuntimeState \<Rightarrow> SimRuntimeState" where
  "sim_runtime_state_set_pending_cancel pending rs =
     rs\<lparr>rs_loop := (rs_loop rs)\<lparr>lm_pending_cancel := pending\<rparr>\<rparr>"

definition sim_runtime_state_pending_cancel :: "SimRuntimeState option \<Rightarrow> bool" where
  "sim_runtime_state_pending_cancel rs = (case rs of None \<Rightarrow> False | Some s \<Rightarrow> lm_pending_cancel (rs_loop s))"

definition sim_runtime_state_set_last_stop_reason ::
  "SimRuntimeLoopStopReason \<Rightarrow> SimRuntimeState \<Rightarrow> SimRuntimeState" where
  "sim_runtime_state_set_last_stop_reason reason rs =
     rs\<lparr>rs_loop := (rs_loop rs)\<lparr>lm_last_stop_reason := reason\<rparr>\<rparr>"

definition sim_runtime_state_last_stop_reason :: "SimRuntimeState option \<Rightarrow> SimRuntimeLoopStopReason" where
  "sim_runtime_state_last_stop_reason rs =
     (case rs of None \<Rightarrow> SIM_RUNTIME_LOOP_STOP_REASON_NONE | Some s \<Rightarrow> lm_last_stop_reason (rs_loop s))"

definition sim_runtime_state_clear_loop_error :: "SimRuntimeState \<Rightarrow> SimRuntimeState" where
  "sim_runtime_state_clear_loop_error rs = rs\<lparr>rs_loop := (rs_loop rs)\<lparr>lm_last_loop_error := no_loop_error\<rparr>\<rparr>"

definition sim_runtime_state_record_loop_error ::
  "SimResult \<Rightarrow> SimRuntimeLoopErrorSource \<Rightarrow> size_t \<Rightarrow> SimRuntimeState \<Rightarrow> SimRuntimeState" where
  "sim_runtime_state_record_loop_error code source step_index rs =
     rs\<lparr>rs_loop := (rs_loop rs)\<lparr>lm_last_loop_error :=
       \<lparr>le_valid = True, le_code = code, le_source = source, le_step_index = step_index\<rparr>\<rparr>\<rparr>"

definition sim_runtime_state_last_loop_error :: "SimRuntimeState \<Rightarrow> SimRuntimeLoopError option" where
  "sim_runtime_state_last_loop_error rs =
     (if \<not> le_valid (lm_last_loop_error (rs_loop rs)) then None else Some (lm_last_loop_error (rs_loop rs)))"

definition sim_runtime_state_note_caller_step ::
  "SimRuntimeCallerStepMode \<Rightarrow> SimRuntimeState \<Rightarrow> SimRuntimeState" where
  "sim_runtime_state_note_caller_step mode rs =
     (let l = rs_loop rs
      in if mode = SIM_RUNTIME_CALLER_STEP_MODE_NONE then rs
         else if lm_last_caller_step_mode l = mode
         then (if lm_caller_step_streak l < size_max
               then rs\<lparr>rs_loop := l\<lparr>lm_caller_step_streak := lm_caller_step_streak l + 1\<rparr>\<rparr> else rs)
         else rs\<lparr>rs_loop := l\<lparr>lm_last_caller_step_mode := mode, lm_caller_step_streak := 1\<rparr>\<rparr>)"

definition sim_runtime_state_clear_caller_step_history :: "SimRuntimeState \<Rightarrow> SimRuntimeState" where
  "sim_runtime_state_clear_caller_step_history rs =
     rs\<lparr>rs_loop := (rs_loop rs)\<lparr>lm_last_caller_step_mode := SIM_RUNTIME_CALLER_STEP_MODE_NONE,
                                 lm_caller_step_streak := 0\<rparr>\<rparr>"

definition sim_runtime_state_last_caller_step_mode :: "SimRuntimeState option \<Rightarrow> SimRuntimeCallerStepMode" where
  "sim_runtime_state_last_caller_step_mode rs =
     (case rs of None \<Rightarrow> SIM_RUNTIME_CALLER_STEP_MODE_NONE | Some s \<Rightarrow> lm_last_caller_step_mode (rs_loop s))"

definition sim_runtime_state_caller_step_streak :: "SimRuntimeState option \<Rightarrow> size_t" where
  "sim_runtime_state_caller_step_streak rs =
     (case rs of None \<Rightarrow> 0 | Some s \<Rightarrow> lm_caller_step_streak (rs_loop s))"

text \<open>\<^verbatim>\<open>UINT32_MAX\<close> is \<open>- 1\<close>.\<close>

definition sim_runtime_state_acquire_external_driver :: "SimRuntimeState \<Rightarrow> SimRuntimeState" where
  "sim_runtime_state_acquire_external_driver rs =
     (let l = rs_loop rs
      in if lm_external_driver_depth l < - 1
         then rs\<lparr>rs_loop := l\<lparr>lm_external_driver_depth := lm_external_driver_depth l + 1\<rparr>\<rparr> else rs)"

definition sim_runtime_state_release_external_driver :: "SimRuntimeState \<Rightarrow> SimRuntimeState" where
  "sim_runtime_state_release_external_driver rs =
     (let l = rs_loop rs
      in if lm_external_driver_depth l = 0 then rs
         else rs\<lparr>rs_loop := l\<lparr>lm_external_driver_depth := lm_external_driver_depth l - 1\<rparr>\<rparr>)"

definition sim_runtime_state_clear_external_driver :: "SimRuntimeState \<Rightarrow> SimRuntimeState" where
  "sim_runtime_state_clear_external_driver rs = rs\<lparr>rs_loop := (rs_loop rs)\<lparr>lm_external_driver_depth := 0\<rparr>\<rparr>"

definition sim_runtime_state_external_driver_depth :: "SimRuntimeState option \<Rightarrow> size_t" where
  "sim_runtime_state_external_driver_depth rs =
     (case rs of None \<Rightarrow> 0 | Some s \<Rightarrow> ucast (lm_external_driver_depth (rs_loop s)))"

definition sim_runtime_state_clear_loop_progress :: "SimRuntimeState \<Rightarrow> SimRuntimeState" where
  "sim_runtime_state_clear_loop_progress rs =
     (let l = rs_loop rs;
          l = (if lp_kind (lm_loop_progress l) \<noteq> SIM_RUNTIME_LOOP_PROGRESS_NONE
               then l\<lparr>lm_last_loop_progress := (lm_loop_progress l)\<lparr>lp_active := False\<rparr>,
                      lm_last_loop_progress_valid := True\<rparr>
               else l)
      in rs\<lparr>rs_loop := l\<lparr>lm_loop_progress := no_progress\<rparr>\<rparr>)"

definition sim_runtime_state_set_loop_progress ::
  "SimRuntimeLoopProgress option \<Rightarrow> SimRuntimeState \<Rightarrow> SimRuntimeState" where
  "sim_runtime_state_set_loop_progress progress rs =
     (case progress of
        None \<Rightarrow> sim_runtime_state_clear_loop_progress rs
      | Some p \<Rightarrow> rs\<lparr>rs_loop := (rs_loop rs)\<lparr>lm_loop_progress := p\<rparr>\<rparr>)"

definition sim_runtime_state_loop_progress :: "SimRuntimeState \<Rightarrow> SimRuntimeLoopProgress option" where
  "sim_runtime_state_loop_progress rs =
     (if \<not> lp_active (lm_loop_progress (rs_loop rs)) then None else Some (lm_loop_progress (rs_loop rs)))"

definition sim_runtime_state_last_loop_progress :: "SimRuntimeState \<Rightarrow> SimRuntimeLoopProgress option" where
  "sim_runtime_state_last_loop_progress rs =
     (if \<not> lm_last_loop_progress_valid (rs_loop rs) then None else Some (lm_last_loop_progress (rs_loop rs)))"

definition sim_runtime_state_clear_last_loop_progress :: "SimRuntimeState \<Rightarrow> SimRuntimeState" where
  "sim_runtime_state_clear_last_loop_progress rs =
     rs\<lparr>rs_loop := (rs_loop rs)\<lparr>lm_last_loop_progress := no_progress, lm_last_loop_progress_valid := False\<rparr>\<rparr>"

section \<open>Names\<close>

definition sim_runtime_loop_stop_reason_name :: "SimRuntimeLoopStopReason c_enum \<Rightarrow> string" where
  "sim_runtime_loop_stop_reason_name reason =
     (case reason of
        Named SIM_RUNTIME_LOOP_STOP_REASON_PAUSED \<Rightarrow> ''paused''
      | Named SIM_RUNTIME_LOOP_STOP_REASON_CANCELLED \<Rightarrow> ''cancelled''
      | Named SIM_RUNTIME_LOOP_STOP_REASON_STEPS_EXHAUSTED \<Rightarrow> ''steps_exhausted''
      | Named SIM_RUNTIME_LOOP_STOP_REASON_MAX_SIM_TIME_REACHED \<Rightarrow> ''max_sim_time_reached''
      | Named SIM_RUNTIME_LOOP_STOP_REASON_MAX_WALL_MS_REACHED \<Rightarrow> ''max_wall_ms_reached''
      | Named SIM_RUNTIME_LOOP_STOP_REASON_RUNTIME_ERROR \<Rightarrow> ''runtime_error''
      | _ \<Rightarrow> ''none'')"

definition sim_runtime_loop_error_source_name :: "SimRuntimeLoopErrorSource c_enum \<Rightarrow> string" where
  "sim_runtime_loop_error_source_name source =
     (case source of
        Named SIM_RUNTIME_LOOP_ERROR_SOURCE_SCHEDULER_STEP \<Rightarrow> ''scheduler_step''
      | Named SIM_RUNTIME_LOOP_ERROR_SOURCE_EXECUTION_FRAME \<Rightarrow> ''execution_frame''
      | Named SIM_RUNTIME_LOOP_ERROR_SOURCE_OPERATOR_EXECUTION \<Rightarrow> ''operator_execution''
      | Named SIM_RUNTIME_LOOP_ERROR_SOURCE_INTEGRATOR_BRIDGE \<Rightarrow> ''integrator_bridge''
      | Named SIM_RUNTIME_LOOP_ERROR_SOURCE_INTEGRATOR_SEQUENCE \<Rightarrow> ''integrator_sequence''
      | Named SIM_RUNTIME_LOOP_ERROR_SOURCE_LEGACY_STEP \<Rightarrow> ''legacy_step''
      | _ \<Rightarrow> ''none'')"

definition sim_runtime_caller_step_mode_name :: "SimRuntimeCallerStepMode c_enum \<Rightarrow> string" where
  "sim_runtime_caller_step_mode_name mode =
     (case mode of
        Named SIM_RUNTIME_CALLER_STEP_MODE_MANUAL_STEP \<Rightarrow> ''manual_step''
      | Named SIM_RUNTIME_CALLER_STEP_MODE_INTEGRATOR_STEP \<Rightarrow> ''integrator_step''
      | _ \<Rightarrow> ''none'')"

definition sim_runtime_loop_progress_kind_name :: "SimRuntimeLoopProgressKind c_enum \<Rightarrow> string" where
  "sim_runtime_loop_progress_kind_name kind =
     (case kind of
        Named SIM_RUNTIME_LOOP_PROGRESS_RUN_STEPS \<Rightarrow> ''run_steps''
      | Named SIM_RUNTIME_LOOP_PROGRESS_RUN_UNTIL \<Rightarrow> ''run_until''
      | Named SIM_RUNTIME_LOOP_PROGRESS_RUN_INTEGRATOR_STEPS \<Rightarrow> ''run_integrator_steps''
      | Named SIM_RUNTIME_LOOP_PROGRESS_RUN_UNTIL_INTEGRATOR \<Rightarrow> ''run_until_integrator''
      | Named SIM_RUNTIME_LOOP_PROGRESS_RUN_PARAMETER_SWEEP \<Rightarrow> ''run_parameter_sweep''
      | Named SIM_RUNTIME_LOOP_PROGRESS_RUN_PARAMETER_GRID \<Rightarrow> ''run_parameter_grid''
      | Named SIM_RUNTIME_LOOP_PROGRESS_RUN_PARAMETER_CONTINUATION \<Rightarrow> ''run_parameter_continuation''
      | _ \<Rightarrow> ''none'')"

section \<open>The history of step metrics\<close>

definition metrics_ok :: "SimRuntimeState \<Rightarrow> bool" where
  "metrics_ok rs \<longleftrightarrow>
     length (rs_step_metrics rs) = SIM_STEP_METRIC_HISTORY
     \<and> rs_step_metrics_head rs < SIM_STEP_METRIC_HISTORY
     \<and> rs_step_metrics_count rs \<le> SIM_STEP_METRIC_HISTORY
     \<and> (rs_step_metrics_valid rs \<longleftrightarrow> rs_step_metrics_count rs > 0)
     \<and> (rs_step_metrics_count rs > 0 \<longrightarrow>
          rs_step_metrics_latest rs =
            rs_step_metrics rs ! ((rs_step_metrics_head rs + SIM_STEP_METRIC_HISTORY - 1) mod SIM_STEP_METRIC_HISTORY))"

text \<open>The history, oldest first: the \<open>i\<close>-th of \<open>count\<close> entries that end before the head.\<close>

definition metrics_history :: "SimRuntimeState \<Rightarrow> SimStepMetrics list" where
  "metrics_history rs =
     map (\<lambda>i. rs_step_metrics rs !
            ((rs_step_metrics_head rs + SIM_STEP_METRIC_HISTORY - rs_step_metrics_count rs + i)
             mod SIM_STEP_METRIC_HISTORY)) [0..<rs_step_metrics_count rs]"

lemma history_mod: "(x mod SIM_STEP_METRIC_HISTORY + i) mod SIM_STEP_METRIC_HISTORY = (x + i) mod SIM_STEP_METRIC_HISTORY"
  by (simp add: mod_add_left_eq)

lemma copy_history: "sim_runtime_state_copy_step_metrics rs capacity = take capacity (metrics_history rs)"
  by (simp add: sim_runtime_state_copy_step_metrics_def metrics_history_def take_map history_mod Let_def)

text \<open>The positions one to 127 steps behind the head are not the head.\<close>

lemma ring_distinct: "h < 128 \<Longrightarrow> 0 < j \<Longrightarrow> j < 128 \<Longrightarrow> (h + 128 - j) mod 128 \<noteq> (h :: nat)"
proof (cases "j \<le> h")
  case True
  assume h: "h < 128" "0 < j"
  have "h + 128 - j = h - j + 128" using True by linarith
  moreover have "(h - j) mod 128 = h - j" using h by (intro mod_less) linarith
  ultimately have "(h + 128 - j) mod 128 = h - j" by (simp only: mod_add_self2)
  then show ?thesis using h True by linarith
next
  case False
  assume h: "h < 128" "j < 128"
  have "(h + 128 - j) mod 128 = h + 128 - j" using False by (intro mod_less) linarith
  then show ?thesis using h by linarith
qed

lemma record_history:
  assumes "metrics_ok rs"
  shows "metrics_history (sim_runtime_state_record_step_metrics (Some m) rs) =
    newest SIM_STEP_METRIC_HISTORY (metrics_history rs @ [m])"
proof (rule nth_equalityI)
  let ?rs = "sim_runtime_state_record_step_metrics (Some m) rs"
  let ?h = "rs_step_metrics_head rs" and ?c = "rs_step_metrics_count rs" and ?ring = "rs_step_metrics rs"
  have ok: "length ?ring = 128" "?h < 128" "?c \<le> 128"
    using assms by (simp_all add: metrics_ok_def SIM_STEP_METRIC_HISTORY_def)
  let ?c' = "if ?c < 128 then ?c + 1 else ?c"
  have new: "rs_step_metrics ?rs = ?ring[?h := m]" "rs_step_metrics_head ?rs = (?h + 1) mod 128"
    "rs_step_metrics_count ?rs = ?c'"
    by (simp_all add: sim_runtime_state_record_step_metrics_def SIM_STEP_METRIC_HISTORY_def)
  have lens: "length (metrics_history rs) = ?c" "length (metrics_history ?rs) = ?c'"
    unfolding metrics_history_def length_map length_upt new by simp_all
  show "length (metrics_history ?rs) = length (newest SIM_STEP_METRIC_HISTORY (metrics_history rs @ [m]))"
    using ok(3) by (simp add: lens length_newest SIM_STEP_METRIC_HISTORY_def)
  fix i assume "i < length (metrics_history ?rs)"
  then have i: "i < ?c'" by (simp add: lens)
  let ?k = "((?h + 1) mod 128 + 128 - ?c' + i) mod 128"
  have at: "metrics_history ?rs ! i = ?ring[?h := m] ! ?k"
    unfolding metrics_history_def new SIM_STEP_METRIC_HISTORY_def using i by simp
  have k: "?k = (?h + 128 - (?c' - Suc i)) mod 128" 
  proof -
    have c: "?c' \<le> 128" using ok(3) by simp
    have "?k = ((?h + 1) mod 128 + (128 - ?c' + i)) mod 128"
      using c by (intro arg_cong [where f = "\<lambda>x. x mod 128"]) linarith
    also have "\<dots> = (?h + 1 + (128 - ?c' + i)) mod 128" by (rule mod_add_left_eq)
    also have "?h + 1 + (128 - ?c' + i) = ?h + 128 - (?c' - Suc i)" using c i by simp
    finally show ?thesis .
  qed
  show "metrics_history ?rs ! i = newest SIM_STEP_METRIC_HISTORY (metrics_history rs @ [m]) ! i"
  proof (cases "Suc i = ?c'")
    case True
    then have "?k = ?h" using k ok(2) by simp
    then have "metrics_history ?rs ! i = m" using at ok(1,2) by simp
    moreover have "newest 128 (metrics_history rs @ [m]) ! i = m"
      using True ok(3) lens(1) by (auto simp: newest_def nth_append split: if_splits)
    ultimately show ?thesis by (simp add: SIM_STEP_METRIC_HISTORY_def)
  next
    case False
    let ?j = "?c' - Suc i" and ?o = "if ?c < 128 then i else Suc i"
    have j: "0 < ?j" "?j < 128" using False i ok(3) by (auto split: if_splits)
    have "?k \<noteq> ?h" using ring_distinct [OF ok(2) j] k by simp
    then have "metrics_history ?rs ! i = ?ring ! ((?h + 128 - ?j) mod 128)"
      using at unfolding k by simp
    moreover have "newest 128 (metrics_history rs @ [m]) ! i = metrics_history rs ! ?o"
      using False i ok(3) lens(1) by (auto simp: newest_def nth_append split: if_splits)
    moreover have "metrics_history rs ! ?o = ?ring ! ((?h + 128 - ?c + ?o) mod 128)"
      unfolding metrics_history_def SIM_STEP_METRIC_HISTORY_def using False i ok(3)
      by (auto split: if_splits)
    moreover have "?h + 128 - ?c + ?o = ?h + 128 - ?j" using False i ok(3) by (auto split: if_splits)
    ultimately show ?thesis by (simp add: SIM_STEP_METRIC_HISTORY_def)
  qed
qed

lemma record_metrics_ok:
  assumes "metrics_ok rs"
  shows "metrics_ok (sim_runtime_state_record_step_metrics (Some m) rs)"
proof -
  let ?h = "rs_step_metrics_head rs"
  have h: "?h < 128" using assms by (simp add: metrics_ok_def SIM_STEP_METRIC_HISTORY_def)
  have "((?h + 1) mod 128 + 128 - 1) mod 128 = ((?h + 1) mod 128 + 127) mod 128"
    by (intro arg_cong [where f = "\<lambda>x. x mod 128"]) linarith
  also have "\<dots> = (?h + 1 + 127) mod 128" by (rule mod_add_left_eq)
  also have "\<dots> = ?h" using h by simp
  finally have "((?h + 1) mod 128 + 128 - 1) mod 128 = ?h" .
  then show ?thesis
    using assms h by (auto simp: metrics_ok_def sim_runtime_state_record_step_metrics_def
        SIM_STEP_METRIC_HISTORY_def)
qed

text \<open>The history is a bounded history; insertions do not wear it out.\<close>

interpretation step_history: bounded_history metrics_ok "\<lambda>_. n" "\<lambda>_. SIM_STEP_METRIC_HISTORY"
  metrics_history "\<lambda>_. True" "\<lambda>m. m" "\<lambda>m. sim_runtime_state_record_step_metrics (Some m)" for n
  by unfold_locales (simp add: record_history record_metrics_ok)

lemma init_metrics:
  "metrics_ok (sim_runtime_state_init rs)" "metrics_history (sim_runtime_state_init rs) = []"
  by (simp_all add: metrics_ok_def metrics_history_def sim_runtime_state_init_def
      sim_runtime_state_reset_loop_metadata_def SIM_STEP_METRIC_HISTORY_def)

lemma history_last:
  assumes "metrics_ok rs" "rs_step_metrics_count rs > 0"
  shows "last (metrics_history rs) = rs_step_metrics_latest rs"
proof -
  let ?c = "rs_step_metrics_count rs" and ?h = "rs_step_metrics_head rs"
  have "last (metrics_history rs) = metrics_history rs ! (?c - 1)"
    using assms(2) by (subst last_conv_nth) (auto simp: metrics_history_def)
  also have "\<dots> = rs_step_metrics rs ! ((?h + SIM_STEP_METRIC_HISTORY - ?c + (?c - 1)) mod SIM_STEP_METRIC_HISTORY)"
    using assms(2) by (simp add: metrics_history_def)
  also have "?h + SIM_STEP_METRIC_HISTORY - ?c + (?c - 1) = ?h + SIM_STEP_METRIC_HISTORY - 1"
    using assms by (simp add: metrics_ok_def)
  finally show ?thesis using assms by (simp add: metrics_ok_def)
qed

lemma metrics_history_bound: "metrics_ok rs \<Longrightarrow> length (metrics_history rs) \<le> SIM_STEP_METRIC_HISTORY"
  by (simp add: metrics_ok_def metrics_history_def)

text \<open>
  C35. From a fresh state, whatever sequence of step metrics is recorded, a copy into a buffer of \<open>capacity\<close>
  entries yields the newest 128 of them in order, cut at \<open>capacity\<close> from the oldest on, and the latest
  metrics are the last that was recorded.
\<close>

theorem step_metrics_newest:
  "let rs' = fold (\<lambda>m. sim_runtime_state_record_step_metrics (Some m)) ms (sim_runtime_state_init rs)
   in sim_runtime_state_copy_step_metrics rs' capacity = take capacity (newest 128 ms) \<and>
      sim_runtime_state_latest_step_metrics rs' = (if ms = [] then None else Some (last ms))"
proof -
  let ?rs = "fold (\<lambda>m. sim_runtime_state_record_step_metrics (Some m)) ms (sim_runtime_state_init rs)"
  have all: "metrics_ok ?rs" "newest 128 (metrics_history ?rs) = newest 128 ms"
    using step_history.append_all [OF init_metrics(1) order_refl, of ms rs] init_metrics(2)
    by (simp_all add: SIM_STEP_METRIC_HISTORY_def)
  then have h: "metrics_history ?rs = newest 128 ms"
    using metrics_history_bound [OF all(1)] by (simp add: newest_def SIM_STEP_METRIC_HISTORY_def)
  have c: "rs_step_metrics_count ?rs = length (newest 128 ms)"
    using h unfolding metrics_history_def by (metis length_map length_upt minus_nat.diff_0)
  have l: "last (newest 128 ms) = last ms" if "ms \<noteq> []" using that by (simp add: newest_def)
  have "sim_runtime_state_latest_step_metrics ?rs = (if ms = [] then None else Some (last ms))"
    using history_last [OF all(1)] all(1) h c l
    by (auto simp: sim_runtime_state_latest_step_metrics_def metrics_ok_def length_newest)
  then show ?thesis unfolding Let_def copy_history h by simp
qed

section \<open>The per-field arrays\<close>

definition slots_ok :: "SimRuntimeState \<Rightarrow> bool" where
  "slots_ok rs \<longleftrightarrow> length (rs_slots rs) = unat (rs_continuity_capacity rs)"

text \<open>
  Asking for capacity returns for every request up to \<open>2^63\<close>. When it succeeds the arrays are at
  least as long as asked, the first slots are the old ones, except that no cached drift statistics stay
  valid when the arrays have moved, and the rest are fresh; when memory runs out the state is unchanged.
\<close>

theorem continuity_capacity_grows:
  assumes "slots_ok rs" "unat required \<le> 2 ^ 63"
  shows "\<exists>r rs'. sim_runtime_state_ensure_continuity_capacity heap topology rs required = Some (r, rs')
    \<and> slots_ok rs'
    \<and> (if r = SIM_RESULT_OK
       then required \<le> rs_continuity_capacity rs' \<and> rs_continuity_capacity rs \<le> rs_continuity_capacity rs'
         \<and> (rs' = rs \<or>
            (\<forall>i < length (rs_slots rs). rs_slots rs' ! i = (rs_slots rs ! i)\<lparr>fs_drift_stats_valid := False\<rparr>)
            \<and> (\<forall>i < length (rs_slots rs'). length (rs_slots rs) \<le> i \<longrightarrow> rs_slots rs' ! i = fresh_slot topology))
       else r = SIM_RESULT_OUT_OF_MEMORY \<and> rs' = rs)"
proof (cases "required = 0 \<or> required \<le> rs_continuity_capacity rs")
  case True
  then show ?thesis using assms(1) by (auto simp: sim_runtime_state_ensure_continuity_capacity_def)
next
  case False
  then have lt: "rs_continuity_capacity rs < required" by (simp add: not_le)
  obtain n where n: "grown_capacity (rs_continuity_capacity rs) required = Some n" "required \<le> n"
    "rs_continuity_capacity rs < n"
    using grown_capacity_returns [OF lt assms(2)] by blast
  let ?more = "replicate (unat n - length (rs_slots rs)) (fresh_slot topology)"
  let ?rs = "rs\<lparr>rs_slots := map (\<lambda>s. s\<lparr>fs_drift_stats_valid := False\<rparr>) (rs_slots rs @ ?more),
    rs_drift_field_stats_step_index := size_max, rs_continuity_capacity := n\<rparr>"
  have len: "length (rs_slots rs) < unat n"
    using n(3) assms(1) by (simp add: slots_ok_def word_less_nat_alt)
  have fresh: "(fresh_slot topology)\<lparr>fs_drift_stats_valid := False\<rparr> = fresh_slot topology"
    by (simp add: fresh_slot_def)
  have run: "sim_runtime_state_ensure_continuity_capacity heap topology rs required =
      (if \<not> continuity_granted heap n then Some (SIM_RESULT_OUT_OF_MEMORY, rs)
       else Some (SIM_RESULT_OK, ?rs))"
    using False n(1) by (simp add: sim_runtime_state_ensure_continuity_capacity_def Let_def)
  show ?thesis
  proof (cases "continuity_granted heap n")
    case True
    have "slots_ok ?rs" using len by (simp add: slots_ok_def)
    moreover have "\<forall>i < length (rs_slots rs). rs_slots ?rs ! i = (rs_slots rs ! i)\<lparr>fs_drift_stats_valid := False\<rparr>"
      by (simp add: nth_append)
    moreover have "\<forall>i < length (rs_slots ?rs). length (rs_slots rs) \<le> i \<longrightarrow> rs_slots ?rs ! i = fresh_slot topology"
      by (auto simp: nth_append fresh)
    ultimately show ?thesis using run True n(2,3)
      by (intro exI [of _ SIM_RESULT_OK] exI [of _ ?rs]) (simp add: less_imp_le)
  qed (use run assms(1) in simp)
qed

section \<open>Loop metadata\<close>

text \<open>Claims and releases of the external driver that pair up leave its depth as it was.\<close>

lemma external_driver_balanced:
  assumes "lm_external_driver_depth (rs_loop rs) < - 1"
  shows "sim_runtime_state_release_external_driver (sim_runtime_state_acquire_external_driver rs) = rs"
proof -
  let ?d = "lm_external_driver_depth (rs_loop rs)"
  have "?d + 1 \<noteq> 0"
  proof
    assume "?d + 1 = 0"
    then have "?d = - 1" by (simp add: eq_neg_iff_add_eq_0)
    then show False using assms by simp
  qed
  then show ?thesis using assms
    by (simp add: sim_runtime_state_release_external_driver_def sim_runtime_state_acquire_external_driver_def Let_def)
qed

lemma continuity_capacity_grows_witness:
  "\<forall>topology rs. \<exists>rs'. sim_runtime_state_ensure_continuity_capacity (\<lambda>k. k < 2 ^ 63) topology
      (sim_runtime_state_init rs) 5 = Some (SIM_RESULT_OK, rs') \<and> 5 \<le> rs_continuity_capacity rs'"
proof (intro allI)
  fix topology rs
  let ?heap = "\<lambda>k :: nat. k < 2 ^ 63"
  have zero: "rs_continuity_capacity (sim_runtime_state_init rs) = 0"
    by (simp add: sim_runtime_state_init_def sim_runtime_state_reset_loop_metadata_def)
  have ok: "slots_ok (sim_runtime_state_init rs)"
    unfolding slots_ok_def zero by (simp add: sim_runtime_state_init_def sim_runtime_state_reset_loop_metadata_def)
  obtain r rs' where r: "sim_runtime_state_ensure_continuity_capacity ?heap topology
      (sim_runtime_state_init rs) 5 = Some (r, rs')"
    "r = SIM_RESULT_OK \<longrightarrow> 5 \<le> rs_continuity_capacity rs'"
    using continuity_capacity_grows [OF ok, of 5 ?heap topology] by (auto split: if_splits)
  have "grown_capacity 0 5 = Some 8"
    by (simp add: grown_capacity_def double_until.simps)
  then have "r = SIM_RESULT_OK"
    using r(1) by (simp add: sim_runtime_state_ensure_continuity_capacity_def zero continuity_granted_def
        calloc_ok_def malloc_ok_def Let_def)
  then show "\<exists>rs'. sim_runtime_state_ensure_continuity_capacity ?heap topology
      (sim_runtime_state_init rs) 5 = Some (SIM_RESULT_OK, rs') \<and> 5 \<le> rs_continuity_capacity rs'"
    using r by blast
qed

end
