(* ===== verification/Sim_World.thy ===== *)
theory Sim_World
  imports Capacity_Loop Operator_Registry Sim_Field
begin

text \<open>
  \<^verbatim>\<open>core/src/sim_world.c\<close>: the static part of a context, its fields with their continuity overrides, the
  operator registry and the universe specification. The poles of a universe are copied; \<open>uv_pole_count\<close> is
  kept beside the array because the code stores a count without poles.
\<close>

section \<open>Data\<close>

record SimPole =
  pl_x :: f64
  pl_y :: f64
  pl_z :: f64
  pl_residue :: f64
  pl_type :: "string option"

record SimUniverseSpec =
  uv_poles :: "SimPole list option"
  uv_pole_count :: size_t
  uv_q :: f64
  uv_K :: size_t
  uv_epsilon :: f64
  uv_sieve_sigma :: f64

record SimFieldContinuityOverride =
  co_enabled :: bool
  co_config :: SimOperatorConfig

text \<open>\<^verbatim>\<open>field_count\<close> is the length of \<open>w_fields\<close>; the overrides are an array of \<open>w_field_capacity\<close> entries.\<close>

record SimWorld =
  w_fields :: "SimField list"
  w_field_capacity :: size_t
  w_field_continuity :: "SimFieldContinuityOverride list option"
  w_operators :: SimOperatorRegistry
  w_universe :: SimUniverseSpec

definition sizeof_SimField :: nat where "sizeof_SimField = 120"
definition sizeof_SimFieldContinuityOverride :: nat where "sizeof_SimFieldContinuityOverride = 104"
definition sizeof_SimPole :: size_t where "sizeof_SimPole = 40"

text \<open>The \<^verbatim>\<open>float\<close> constants of the header, converted to \<^verbatim>\<open>double\<close>.\<close>

definition SIM_WORLD_DEFAULT_Q :: f64 where "SIM_WORLD_DEFAULT_Q = f64_one"
definition SIM_WORLD_DEFAULT_K :: size_t where "SIM_WORLD_DEFAULT_K = 20"
definition SIM_WORLD_DEFAULT_EPSILON :: f64 where "SIM_WORLD_DEFAULT_EPSILON = 0x3FE0000000000000"
definition SIM_WORLD_DEFAULT_SIEVE_SIGMA :: f64 where "SIM_WORLD_DEFAULT_SIEVE_SIGMA = 0x3FB99999A0000000"

section \<open>The universe\<close>

definition sim_world_copy_universe_defaults :: SimUniverseSpec where
  "sim_world_copy_universe_defaults =
     \<lparr>uv_poles = None, uv_pole_count = 0, uv_q = SIM_WORLD_DEFAULT_Q, uv_K = SIM_WORLD_DEFAULT_K,
      uv_epsilon = SIM_WORLD_DEFAULT_EPSILON, uv_sieve_sigma = SIM_WORLD_DEFAULT_SIEVE_SIGMA\<rparr>"

definition sim_world_copy_universe :: "heap \<Rightarrow> SimUniverseSpec option \<Rightarrow> SimResult \<times> SimUniverseSpec" where
  "sim_world_copy_universe heap src =
     (case src of
        None \<Rightarrow> (SIM_RESULT_OK, sim_world_copy_universe_defaults)
      | Some s \<Rightarrow>
          let dst = s\<lparr>uv_poles := None\<rparr>
          in case uv_poles s of
               None \<Rightarrow> (SIM_RESULT_OK, dst)
             | Some poles \<Rightarrow>
                 if uv_pole_count s = 0 then (SIM_RESULT_OK, dst)
                 else if \<not> malloc_ok heap (unat (uv_pole_count s * sizeof_SimPole))
                   then (SIM_RESULT_OUT_OF_MEMORY, dst\<lparr>uv_pole_count := 0\<rparr>)
                 else (SIM_RESULT_OK, dst\<lparr>uv_poles := Some (take (unat (uv_pole_count s)) poles)\<rparr>))"

definition sim_world_release_universe :: "SimUniverseSpec \<Rightarrow> SimUniverseSpec" where
  "sim_world_release_universe spec = sim_world_copy_universe_defaults"

section \<open>Fields\<close>

definition sim_world_init :: "heap \<Rightarrow> SimUniverseSpec option \<Rightarrow> SimResult \<times> SimWorld" where
  "sim_world_init heap universe_spec =
     (let (result, universe) = sim_world_copy_universe heap universe_spec;
          world = \<lparr>w_fields = [], w_field_capacity = 0, w_field_continuity = None,
                   w_operators = empty_registry, w_universe = universe\<rparr>
      in if result \<noteq> SIM_RESULT_OK
         then (result, world\<lparr>w_universe := sim_world_release_universe universe\<rparr>)
         else (SIM_RESULT_OK, world))"

definition no_override :: SimFieldContinuityOverride where
  "no_override = \<lparr>co_enabled = False, co_config = sim_operator_config_defaults\<rparr>"

text \<open>\<^verbatim>\<open>field_count + additional\<close> wraps.\<close>

definition sim_world_reserve_fields :: "heap \<Rightarrow> SimWorld \<Rightarrow> size_t \<Rightarrow> (SimResult \<times> SimWorld) option" where
  "sim_world_reserve_fields heap w additional =
     (if additional = 0 then Some (SIM_RESULT_OK, w)
      else
        let required = word_of_nat (length (w_fields w)) + additional
        in if required \<le> w_field_capacity w then Some (SIM_RESULT_OK, w)
           else (case grown_capacity (w_field_capacity w) required of
                   None \<Rightarrow> None
                 | Some new_capacity \<Rightarrow>
                     if \<not> malloc_ok heap (unat new_capacity * sizeof_SimField)
                     then Some (SIM_RESULT_OUT_OF_MEMORY, w)
                     else if \<not> malloc_ok heap (unat new_capacity * sizeof_SimFieldContinuityOverride)
                     then Some (SIM_RESULT_OUT_OF_MEMORY, w)
                     else
                       let old = (case w_field_continuity w of None \<Rightarrow> [] | Some cs \<Rightarrow> cs);
                           previous = unat (w_field_capacity w)
                       in Some (SIM_RESULT_OK,
                            w\<lparr>w_field_continuity :=
                                Some (take previous old @ replicate (unat new_capacity - previous) no_override),
                              w_field_capacity := new_capacity\<rparr>)))"

text \<open>The fields are destroyed one by one, which has no effect beyond the memory they own.\<close>

definition sim_world_reset_fields :: "SimWorld \<Rightarrow> SimWorld" where
  "sim_world_reset_fields w = w\<lparr>w_fields := [], w_field_capacity := 0, w_field_continuity := None\<rparr>"

definition sim_world_destroy :: "SimWorld \<Rightarrow> SimWorld \<times> destroy_call list" where
  "sim_world_destroy w =
     (let w = sim_world_reset_fields w;
          (registry, calls) = sim_operator_registry_destroy (w_operators w)
      in (w\<lparr>w_operators := registry, w_universe := sim_world_release_universe (w_universe w)\<rparr>, calls))"

definition sim_world_set_field_continuity_override ::
  "SimWorld \<Rightarrow> nat \<Rightarrow> bool \<Rightarrow> SimOperatorConfig option \<Rightarrow> SimResult \<times> SimWorld" where
  "sim_world_set_field_continuity_override w field_index enabled config =
     (case w_field_continuity w of
        None \<Rightarrow> (SIM_RESULT_INVALID_ARGUMENT, w)
      | Some cs \<Rightarrow>
          if field_index \<ge> length (w_fields w) then (SIM_RESULT_INVALID_ARGUMENT, w)
          else
            let normalized = sim_operator_config_normalize
                  (case config of None \<Rightarrow> sim_operator_config_defaults | Some c \<Rightarrow> c)
            in (SIM_RESULT_OK,
                w\<lparr>w_field_continuity := Some (cs[field_index :=
                    (if \<not> enabled then no_override
                     else \<lparr>co_enabled = True, co_config = normalized\<rparr>)])\<rparr>))"

definition sim_world_field_continuity_override :: "SimWorld \<Rightarrow> nat \<Rightarrow> SimOperatorConfig option" where
  "sim_world_field_continuity_override w field_index =
     (case w_field_continuity w of
        None \<Rightarrow> None
      | Some cs \<Rightarrow>
          if field_index \<ge> length (w_fields w) then None
          else if \<not> co_enabled (cs ! field_index) then None
          else Some (co_config (cs ! field_index)))"

section \<open>Invariant\<close>

definition world_ok :: "SimWorld \<Rightarrow> bool" where
  "world_ok w \<longleftrightarrow>
     length (w_fields w) \<le> unat (w_field_capacity w)
     \<and> (case w_field_continuity w of
          None \<Rightarrow> w_field_capacity w = 0
        | Some cs \<Rightarrow> length cs = unat (w_field_capacity w))"

lemma init_world_ok: "world_ok (snd (sim_world_init heap universe))"
  by (simp add: world_ok_def sim_world_init_def Let_def split: prod.split)

text \<open>
  Reserving room for up to \<open>2^62\<close> fields in a world of at most as many returns. On success there is
  room for them beside the fields present, the overrides in force are kept and every new position starts
  without one; on failure the world is unchanged.
\<close>

theorem reserve_fields_exact:
  assumes "world_ok w" "length (w_fields w) \<le> 2 ^ 62" "unat additional \<le> 2 ^ 62"
  shows "\<exists>r w'. sim_world_reserve_fields heap w additional = Some (r, w') \<and> world_ok w'
    \<and> w_fields w' = w_fields w \<and> w_operators w' = w_operators w \<and> w_universe w' = w_universe w
    \<and> (if r = SIM_RESULT_OK
       then length (w_fields w) + unat additional \<le> unat (w_field_capacity w')
         \<and> (\<forall>i < length (w_fields w). sim_world_field_continuity_override w' i =
                sim_world_field_continuity_override w i)
         \<and> (\<forall>i. unat (w_field_capacity w) \<le> i \<longrightarrow> i < unat (w_field_capacity w') \<longrightarrow>
              the (w_field_continuity w') ! i = no_override)
       else r = SIM_RESULT_OUT_OF_MEMORY \<and> w' = w)"
proof -
  let ?r = "word_of_nat (length (w_fields w)) + additional"
  have n: "unat (word_of_nat (length (w_fields w)) :: size_t) = length (w_fields w)"
    using assms(2) by (intro unat_word_of_nat_64) simp
  have r: "unat ?r = length (w_fields w) + unat additional"
    using assms(2,3) n by (subst unat_add_exact) simp_all
  show ?thesis
  proof (cases "additional = 0 \<or> ?r \<le> w_field_capacity w")
    case True
    then have "sim_world_reserve_fields heap w additional = Some (SIM_RESULT_OK, w)"
      by (auto simp: sim_world_reserve_fields_def)
    moreover have "length (w_fields w) + unat additional \<le> unat (w_field_capacity w)"
      using True r assms(1) by (auto simp: world_ok_def word_le_nat_alt)
    ultimately show ?thesis using assms(1) by auto
  next
    case False
    then have lt: "w_field_capacity w < ?r" by (simp add: not_le)
    obtain c where c: "grown_capacity (w_field_capacity w) ?r = Some c" "?r \<le> c" "w_field_capacity w < c"
      using grown_capacity_returns [OF lt] r assms(2,3) by auto
    let ?old = "case w_field_continuity w of None \<Rightarrow> [] | Some cs \<Rightarrow> cs"
    let ?p = "unat (w_field_capacity w)"
    let ?cs = "take ?p ?old @ replicate (unat c - ?p) no_override"
    let ?w = "w\<lparr>w_field_continuity := Some ?cs, w_field_capacity := c\<rparr>"
    have old: "length ?old = ?p" using assms(1) by (auto simp: world_ok_def split: option.splits)
    have pc: "?p < unat c" using c(3) by (simp add: word_less_nat_alt)
    have room: "length (w_fields w) + unat additional \<le> unat c" using c(2) r by (simp add: word_le_nat_alt)
    have ok: "world_ok ?w" using old pc room by (simp add: world_ok_def)
    have keep: "sim_world_field_continuity_override ?w i = sim_world_field_continuity_override w i"
      if "i < length (w_fields w)" for i
    proof -
      have ip: "i < ?p" using that assms(1) by (simp add: world_ok_def)
      show ?thesis
      proof (cases "w_field_continuity w")
        case None
        then show ?thesis using ip old by simp
      next
        case (Some cs)
        then show ?thesis using ip old that by (simp add: sim_world_field_continuity_override_def nth_append)
      qed
    qed
    have fresh: "?cs ! i = no_override" if "?p \<le> i" "i < unat c" for i
      using that old by (simp add: nth_append)
    have run: "sim_world_reserve_fields heap w additional =
        (if \<not> malloc_ok heap (unat c * sizeof_SimField) then Some (SIM_RESULT_OUT_OF_MEMORY, w)
         else if \<not> malloc_ok heap (unat c * sizeof_SimFieldContinuityOverride)
         then Some (SIM_RESULT_OUT_OF_MEMORY, w) else Some (SIM_RESULT_OK, ?w))"
      using False c(1) by (simp add: sim_world_reserve_fields_def Let_def)
    show ?thesis
    proof (cases "malloc_ok heap (unat c * sizeof_SimField) \<and>
        malloc_ok heap (unat c * sizeof_SimFieldContinuityOverride)")
      case True
      then show ?thesis using run ok room keep fresh
        by (intro exI [of _ SIM_RESULT_OK] exI [of _ ?w]) simp
    next
      case False
      then have "sim_world_reserve_fields heap w additional = Some (SIM_RESULT_OUT_OF_MEMORY, w)"
        using run by auto
      then show ?thesis using assms(1) by auto
    qed
  qed
qed

lemma reserve_fields_exact_witness:
  "\<exists>w'. sim_world_reserve_fields (\<lambda>k. k < 2 ^ 63) (snd (sim_world_init (\<lambda>_. True) None)) 5 =
     Some (SIM_RESULT_OK, w') \<and> 5 \<le> unat (w_field_capacity w')"
proof -
  let ?w = "snd (sim_world_init (\<lambda>_. True) None)"
  have w: "w_fields ?w = []" "w_field_capacity ?w = 0"
    by (simp_all add: sim_world_init_def sim_world_copy_universe_def Let_def)
  obtain r w' where r: "sim_world_reserve_fields (\<lambda>k. k < 2 ^ 63) ?w 5 = Some (r, w')"
    "if r = SIM_RESULT_OK then 5 \<le> unat (w_field_capacity w') else r = SIM_RESULT_OUT_OF_MEMORY"
    using reserve_fields_exact [OF init_world_ok, of "\<lambda>_. True" None 5 "\<lambda>k. k < 2 ^ 63"] w
    by (auto split: if_splits)
  have "grown_capacity 0 5 = Some 8" by (simp add: grown_capacity_def double_until.simps)
  then have "r = SIM_RESULT_OK"
    using r(1) w by (simp add: sim_world_reserve_fields_def malloc_ok_def sizeof_SimField_def
        sizeof_SimFieldContinuityOverride_def Let_def)
  then show ?thesis using r by auto
qed

section \<open>Overrides\<close>

text \<open>
  An override that was set is read back in normal form, one that was disabled is not read back, no
  other field is affected, and a position outside the fields is refused.
\<close>

theorem continuity_override_roundtrip:
  assumes "world_ok w"
  shows "case sim_world_set_field_continuity_override w i enabled config of (r, w') \<Rightarrow>
      world_ok w' \<and> r = (if i < length (w_fields w) then SIM_RESULT_OK else SIM_RESULT_INVALID_ARGUMENT) \<and>
      (\<forall>j. sim_world_field_continuity_override w' j =
         (if j \<noteq> i \<or> r \<noteq> SIM_RESULT_OK then sim_world_field_continuity_override w j
          else if enabled then Some (sim_operator_config_normalize
             (case config of None \<Rightarrow> sim_operator_config_defaults | Some c \<Rightarrow> c))
          else None))"
proof (cases "w_field_continuity w")
  case None
  then show ?thesis using assms
    by (auto simp: sim_world_set_field_continuity_override_def world_ok_def)
next
  case (Some cs)
  show ?thesis
  proof (cases "i < length (w_fields w)")
    case True
    then have "i < length cs" using assms Some by (simp add: world_ok_def)
    then show ?thesis using True assms Some
      by (simp add: sim_world_set_field_continuity_override_def sim_world_field_continuity_override_def
          world_ok_def nth_list_update no_override_def)
  qed (use assms Some in \<open>simp add: sim_world_set_field_continuity_override_def\<close>)
qed

definition one_field_world :: "SimField \<Rightarrow> SimWorld" where
  "one_field_world f =
     \<lparr>w_fields = [f], w_field_capacity = 4, w_field_continuity = Some (replicate 4 no_override),
      w_operators = empty_registry, w_universe = sim_world_copy_universe_defaults\<rparr>"

lemma continuity_override_roundtrip_witness:
  "\<forall>f config. sim_world_field_continuity_override
      (snd (sim_world_set_field_continuity_override (one_field_world f) 0 True (Some config))) 0 =
    Some (sim_operator_config_normalize config)"
proof (intro allI)
  fix f config
  have "world_ok (one_field_world f)" by (simp add: world_ok_def one_field_world_def)
  from continuity_override_roundtrip [OF this, of 0 True "Some config"]
  show "sim_world_field_continuity_override
      (snd (sim_world_set_field_continuity_override (one_field_world f) 0 True (Some config))) 0 =
    Some (sim_operator_config_normalize config)"
    by (simp add: one_field_world_def split: prod.splits)
qed

end
