(* ===== verification/Integrator_State.thy ===== *)
theory Integrator_State
  imports Oak_Prelude
begin

text \<open>
  \<^verbatim>\<open>integrators/src/integrator_registry.c\<close>, the table of integrator factories, and
  \<^verbatim>\<open>core/src/sim_integrator_state.c\<close>, the integrators bound to a context. Factories and integrators are
  handles; calling a factory is an argument. Names are C strings without a zero byte inside.
\<close>

section \<open>Data\<close>

record IntegratorRegistryEntry =
  ie_name :: string
  ie_create :: nat

record IntegratorRegistry =
  ir_entries :: "IntegratorRegistryEntry list"
  ir_capacity :: nat

text \<open>The sequence keeps its storage when it is emptied: \<open>is_sequence_count\<close> says what is in use.\<close>

record SimIntegratorState =
  is_registry :: IntegratorRegistry
  is_active :: "nat option"
  is_stepping :: "nat option"
  is_sequence :: "nat list"
  is_sequence_count :: nat
  is_sequence_capacity :: nat
  is_registry_ready :: bool

text \<open>\<^verbatim>\<open>sizeof entries[i].name\<close> and the size of an entry.\<close>

definition name_size :: nat where "name_size = 32"
definition sizeof_IntegratorRegistryEntry :: nat where "sizeof_IntegratorRegistryEntry = 40"

section \<open>The registry\<close>

text \<open>\<^verbatim>\<open>strncmp(a, b, n) == 0\<close>: the first \<open>n\<close> bytes agree, up to and including the terminator.\<close>

definition strncmp_equal :: "string \<Rightarrow> string \<Rightarrow> nat \<Rightarrow> bool" where
  "strncmp_equal a b n \<longleftrightarrow> take n (a @ [CHR 0x00]) = take n (b @ [CHR 0x00])"

definition integrator_registry_grow :: "heap \<Rightarrow> IntegratorRegistry \<Rightarrow> SimResult \<times> IntegratorRegistry" where
  "integrator_registry_grow heap registry =
     (if length (ir_entries registry) < ir_capacity registry then (SIM_RESULT_OK, registry)
      else
        let new_capacity = (if ir_capacity registry = 0 then 4 else ir_capacity registry * 2)
        in if \<not> malloc_ok heap (new_capacity * sizeof_IntegratorRegistryEntry)
           then (SIM_RESULT_OUT_OF_MEMORY, registry)
           else (SIM_RESULT_OK, registry\<lparr>ir_capacity := new_capacity\<rparr>))"

text \<open>The loops over the entries: the first that matches is updated, or found.\<close>

fun replace_factory :: "string \<Rightarrow> nat \<Rightarrow> IntegratorRegistryEntry list \<Rightarrow> IntegratorRegistryEntry list option" where
  "replace_factory name create_fn [] = None"
| "replace_factory name create_fn (e # es) =
     (if strncmp_equal (ie_name e) name name_size then Some (e\<lparr>ie_create := create_fn\<rparr> # es)
      else map_option (Cons e) (replace_factory name create_fn es))"

definition integrator_registry_register ::
  "heap \<Rightarrow> IntegratorRegistry \<Rightarrow> string option \<Rightarrow> nat option \<Rightarrow> SimResult \<times> IntegratorRegistry" where
  "integrator_registry_register heap registry name create_fn =
     (case (name, create_fn) of
        (Some n, Some create) \<Rightarrow>
          (case replace_factory n create (ir_entries registry) of
             Some es \<Rightarrow> (SIM_RESULT_OK, registry\<lparr>ir_entries := es\<rparr>)
           | None \<Rightarrow>
               let (result, registry) = integrator_registry_grow heap registry
               in if result \<noteq> SIM_RESULT_OK then (result, registry)
                  else
                    let size = (if length n \<ge> name_size then name_size - 1 else length n)
                    in (SIM_RESULT_OK,
                        registry\<lparr>ir_entries := ir_entries registry @
                          [\<lparr>ie_name = take size n, ie_create = create\<rparr>]\<rparr>))
      | _ \<Rightarrow> (SIM_RESULT_INVALID_ARGUMENT, registry))"

definition integrator_registry_lookup :: "IntegratorRegistry option \<Rightarrow> string option \<Rightarrow> nat option" where
  "integrator_registry_lookup registry name =
     (case (registry, name) of
        (Some r, Some n) \<Rightarrow>
          map_option ie_create (find (\<lambda>e. strncmp_equal (ie_name e) n name_size) (ir_entries r))
      | _ \<Rightarrow> None)"

definition integrator_registry_create ::
  "(nat \<Rightarrow> 'config \<Rightarrow> SimResult \<times> 'i) \<Rightarrow> IntegratorRegistry option \<Rightarrow> string option \<Rightarrow> 'config \<Rightarrow> 'i option \<Rightarrow>
   SimResult \<times> 'i option" where
  "integrator_registry_create call registry name config out =
     (case (registry, name, out) of
        (Some r, Some n, Some _) \<Rightarrow>
          (case integrator_registry_lookup registry name of
             None \<Rightarrow> (SIM_RESULT_NOT_FOUND, out)
           | Some factory \<Rightarrow> map_prod id Some (call factory config))
      | _ \<Rightarrow> (SIM_RESULT_INVALID_ARGUMENT, out))"

text \<open>The built-in factories, given by their handles in the order of registration.\<close>

definition builtin_names :: "string list" where
  "builtin_names =
     [''euler'', ''heun'', ''rk4'', ''rkf45'', ''backward_euler'', ''crank_nicolson'', ''etdrk4'',
      ''subordination'']"

fun register_all ::
  "heap \<Rightarrow> IntegratorRegistry \<Rightarrow> (string \<times> nat) list \<Rightarrow> SimResult \<times> IntegratorRegistry" where
  "register_all heap registry [] = (SIM_RESULT_OK, registry)"
| "register_all heap registry ((name, create_fn) # rest) =
     (let (result, registry) = integrator_registry_register heap registry (Some name) (Some create_fn)
      in if result \<noteq> SIM_RESULT_OK then (result, registry) else register_all heap registry rest)"

definition integrator_registry_register_builtin ::
  "heap \<Rightarrow> nat list \<Rightarrow> IntegratorRegistry \<Rightarrow> SimResult \<times> IntegratorRegistry" where
  "integrator_registry_register_builtin heap factories registry =
     register_all heap registry (zip builtin_names factories)"

definition empty_factories :: IntegratorRegistry where
  "empty_factories = \<lparr>ir_entries = [], ir_capacity = 0\<rparr>"

definition integrator_registry_destroy :: "IntegratorRegistry \<Rightarrow> IntegratorRegistry" where
  "integrator_registry_destroy registry = empty_factories"

definition integrator_registry_init :: "heap \<Rightarrow> nat list \<Rightarrow> SimResult \<times> IntegratorRegistry" where
  "integrator_registry_init heap factories =
     (let (result, registry) = integrator_registry_register_builtin heap factories empty_factories
      in if result \<noteq> SIM_RESULT_OK then (result, integrator_registry_destroy registry)
         else (SIM_RESULT_OK, registry))"

section \<open>The integrators of a context\<close>

definition sim_integrator_state_init :: "heap \<Rightarrow> nat list \<Rightarrow> SimResult \<times> SimIntegratorState" where
  "sim_integrator_state_init heap factories =
     (let (result, registry) = integrator_registry_init heap factories;
          state = \<lparr>is_registry = registry, is_active = None, is_stepping = None, is_sequence = [],
                   is_sequence_count = 0, is_sequence_capacity = 0, is_registry_ready = False\<rparr>
      in if result \<noteq> SIM_RESULT_OK then (result, state)
         else (SIM_RESULT_OK, state\<lparr>is_registry_ready := True\<rparr>))"

definition sim_integrator_state_destroy :: "SimIntegratorState \<Rightarrow> SimIntegratorState" where
  "sim_integrator_state_destroy s =
     s\<lparr>is_registry := (if is_registry_ready s then integrator_registry_destroy (is_registry s) else is_registry s),
       is_sequence := [], is_sequence_count := 0, is_sequence_capacity := 0, is_registry_ready := False,
       is_active := None, is_stepping := None\<rparr>"

definition sim_integrator_state_set_active :: "nat option \<Rightarrow> SimIntegratorState \<Rightarrow> SimIntegratorState" where
  "sim_integrator_state_set_active integrator s =
     s\<lparr>is_active := integrator, is_stepping := None, is_sequence_count := 0\<rparr>"

text \<open>
  The array of a caller may hold null entries; the count is its length, and \<open>None\<close> is a null array with a
  nonzero count.
\<close>

definition sim_integrator_state_set_sequence ::
  "heap \<Rightarrow> nat option list option \<Rightarrow> SimIntegratorState \<Rightarrow> SimResult \<times> SimIntegratorState" where
  "sim_integrator_state_set_sequence heap integrators s =
     (case integrators of
        None \<Rightarrow> (SIM_RESULT_INVALID_ARGUMENT, s)
      | Some is \<Rightarrow>
          if is = [] then (SIM_RESULT_OK, s\<lparr>is_sequence_count := 0, is_active := None, is_stepping := None\<rparr>)
          else if None \<in> set is then (SIM_RESULT_INVALID_ARGUMENT, s)
          else
            let count = length is;
                grow = is_sequence_capacity s < count
            in if grow \<and> \<not> malloc_ok heap (count * 8) then (SIM_RESULT_OUT_OF_MEMORY, s)
               else
                 let s = (if grow then s\<lparr>is_sequence_capacity := count\<rparr> else s);
                     sequence = map the is @ drop count (is_sequence s)
                 in (SIM_RESULT_OK,
                     s\<lparr>is_sequence := sequence, is_sequence_count := count,
                       is_active := Some (sequence ! 0), is_stepping := None\<rparr>))"

definition sim_integrator_state_active :: "SimIntegratorState option \<Rightarrow> nat option" where
  "sim_integrator_state_active state = (case state of None \<Rightarrow> None | Some s \<Rightarrow> is_active s)"

definition sim_integrator_state_set_stepping :: "nat option \<Rightarrow> SimIntegratorState \<Rightarrow> SimIntegratorState" where
  "sim_integrator_state_set_stepping integrator s = s\<lparr>is_stepping := integrator\<rparr>"

definition sim_integrator_state_stepping :: "SimIntegratorState option \<Rightarrow> nat option" where
  "sim_integrator_state_stepping state = (case state of None \<Rightarrow> None | Some s \<Rightarrow> is_stepping s)"

definition sim_integrator_state_sequence :: "SimIntegratorState option \<Rightarrow> nat list option" where
  "sim_integrator_state_sequence state =
     (case state of
        None \<Rightarrow> None
      | Some s \<Rightarrow> if is_sequence_count s = 0 then None else Some (take (is_sequence_count s) (is_sequence s)))"

definition sim_integrator_state_registry :: "SimIntegratorState option \<Rightarrow> IntegratorRegistry option" where
  "sim_integrator_state_registry state =
     (case state of None \<Rightarrow> None | Some s \<Rightarrow> if is_registry_ready s then Some (is_registry s) else None)"

section \<open>Tables of factories\<close>

text \<open>
  The contract of a table: what a lookup finds after an insertion that succeeded. A user of the contract
  that inserts a list of entries finds the last one for each name.
\<close>

locale factory_table =
  fixes invar :: "'t \<Rightarrow> bool"
    and fits :: "'k \<Rightarrow> bool"
    and lookup :: "'t \<Rightarrow> 'k \<Rightarrow> 'v option"
    and insert :: "'k \<Rightarrow> 'v \<Rightarrow> 't \<Rightarrow> 't option"
  assumes insert_law: "invar t \<Longrightarrow> fits k \<Longrightarrow> insert k v t = Some t' \<Longrightarrow>
      invar t' \<and> (\<forall>j. fits j \<longrightarrow> lookup t' j = (if j = k then Some v else lookup t j))"
begin

fun insert_all :: "('k \<times> 'v) list \<Rightarrow> 't \<Rightarrow> 't option" where
  "insert_all [] t = Some t"
| "insert_all ((k, v) # es) t = (case insert k v t of None \<Rightarrow> None | Some t' \<Rightarrow> insert_all es t')"

lemma lookup_insert_all:
  assumes "invar t" "\<forall>k \<in> fst ` set es. fits k" "insert_all es t = Some t'" "fits j"
  shows "invar t' \<and> lookup t' j = (case map_of (rev es) j of Some v \<Rightarrow> Some v | None \<Rightarrow> lookup t j)"
  using assms
proof (induction es arbitrary: t)
  case (Cons e es)
  obtain k v where e: "e = (k, v)" by fastforce
  then obtain t1 where t1: "insert k v t = Some t1" "insert_all es t1 = Some t'"
    using Cons.prems(3) by (auto split: option.splits)
  have law: "invar t1" "lookup t1 j = (if j = k then Some v else lookup t j)"
    using insert_law [OF Cons.prems(1) _ t1(1)] Cons.prems(2,4) e by auto
  show ?case
    using Cons.IH [OF law(1) _ t1(2) Cons.prems(4)] Cons.prems(2) law(2) e
    by (auto simp: map_add_def split: option.splits)
qed simp

end

text \<open>The tables of the registry: no stored name fills its buffer.\<close>

definition factories_ok :: "IntegratorRegistry \<Rightarrow> bool" where
  "factories_ok r \<longleftrightarrow> (\<forall>e \<in> set (ir_entries r). length (ie_name e) < name_size \<and> CHR 0x00 \<notin> set (ie_name e))"

definition short_name :: "string \<Rightarrow> bool" where
  "short_name n \<longleftrightarrow> length n < name_size \<and> CHR 0x00 \<notin> set n"

lemma strncmp_stored:
  assumes "length a < name_size" "CHR 0x00 \<notin> set b"
  shows "strncmp_equal a b name_size \<longleftrightarrow> a = b"
proof
  assume eq: "strncmp_equal a b name_size"
  have a: "take name_size (a @ [CHR 0x00]) = a @ [CHR 0x00]" using assms(1) by simp
  show "a = b"
  proof (cases "length b < name_size")
    case True
    then show ?thesis using eq a by (simp add: strncmp_equal_def)
  next
    case False
    then have "a @ [CHR 0x00] = take name_size b" using eq a by (simp add: strncmp_equal_def)
    then have "CHR 0x00 \<in> set (take name_size b)" by (metis in_set_conv_decomp)
    then show ?thesis using assms(2) in_set_takeD by fastforce
  qed
qed (simp add: strncmp_equal_def)

lemma grow_entries: "ir_entries (snd (integrator_registry_grow heap r)) = ir_entries r"
  by (simp add: integrator_registry_grow_def Let_def)

lemma replace_factory_find:
  assumes "\<forall>e \<in> set es. length (ie_name e) < name_size \<and> CHR 0x00 \<notin> set (ie_name e)" "CHR 0x00 \<notin> set k"
    and "CHR 0x00 \<notin> set j"
  shows "case replace_factory k v es of
      None \<Rightarrow> find (\<lambda>e. strncmp_equal (ie_name e) k name_size) es = None
    | Some es' \<Rightarrow> map ie_name es' = map ie_name es
        \<and> map_option ie_create (find (\<lambda>e. strncmp_equal (ie_name e) j name_size) es') =
            (if j = k then Some v else map_option ie_create (find (\<lambda>e. strncmp_equal (ie_name e) j name_size) es))"
  using assms
  by (induction es) (auto simp: strncmp_stored split: option.splits)

text \<open>An insertion that succeeded.\<close>

definition insert_factory :: "heap \<Rightarrow> string \<Rightarrow> nat \<Rightarrow> IntegratorRegistry \<Rightarrow> IntegratorRegistry option" where
  "insert_factory heap n f r =
     (case integrator_registry_register heap r (Some n) (Some f) of
        (result, r') \<Rightarrow> if result = SIM_RESULT_OK then Some r' else None)"

lemma register_law:
  assumes "factories_ok r" "short_name k" "insert_factory heap k v r = Some r'"
  shows "factories_ok r' \<and> (\<forall>j. short_name j \<longrightarrow>
    integrator_registry_lookup (Some r') (Some j) =
      (if j = k then Some v else integrator_registry_lookup (Some r) (Some j)))"
proof (cases "replace_factory k v (ir_entries r)")
  case (Some es)
  then have r': "r' = r\<lparr>ir_entries := es\<rparr>"
    using assms(3) by (simp add: insert_factory_def integrator_registry_register_def)
  have names: "map ie_name es = map ie_name (ir_entries r)"
    using replace_factory_find [of "ir_entries r" k k v] assms(1,2) Some
    by (simp add: factories_ok_def short_name_def)
  then have "ie_name ` set es = ie_name ` set (ir_entries r)" by (metis set_map)
  then have "factories_ok r'" using assms(1) unfolding factories_ok_def r' by (simp add: ball_simps) (metis imageE imageI)
  then show ?thesis
    using replace_factory_find [of "ir_entries r" k _ v] assms(1,2) Some
    by (auto simp: r' factories_ok_def short_name_def integrator_registry_lookup_def)
next
  case None
  obtain g where g: "integrator_registry_grow heap r = (SIM_RESULT_OK, g)"
    and r': "r' = g\<lparr>ir_entries := ir_entries g @ [\<lparr>ie_name = k, ie_create = v\<rparr>]\<rparr>"
    using assms(2,3) None
    by (auto simp: insert_factory_def integrator_registry_register_def short_name_def Let_def
        split: prod.splits if_splits)
  have e: "ir_entries g = ir_entries r" using grow_entries [of heap r] g by simp
  have ok: "factories_ok r'" using assms(1,2) by (auto simp: r' e factories_ok_def short_name_def)
  have "find (\<lambda>e. strncmp_equal (ie_name e) k name_size) (ir_entries r) = None"
    using replace_factory_find [of "ir_entries r" k k v] assms(1,2) None
    by (simp add: factories_ok_def short_name_def)
  moreover have "find P (xs @ [x]) = (case find P xs of None \<Rightarrow> if P x then Some x else None | Some y \<Rightarrow> Some y)"
    for P and xs :: "IntegratorRegistryEntry list" and x
    by (induction xs) auto
  moreover have "strncmp_equal k j name_size \<longleftrightarrow> k = j" if "short_name j" for j
    using assms(2) that by (intro strncmp_stored) (simp_all add: short_name_def)
  ultimately show ?thesis
    using ok by (auto simp: r' e integrator_registry_lookup_def split: option.split)
qed

interpretation factories: factory_table factories_ok short_name
  "\<lambda>r n. integrator_registry_lookup (Some r) (Some n)" "insert_factory heap" for heap
  by unfold_locales (rule register_law)

section \<open>The built-in integrators\<close>

lemma register_all_insert:
  "register_all heap r es = (SIM_RESULT_OK, r') \<longleftrightarrow> factories.insert_all heap es r = Some r'"
  by (induction es arbitrary: r)
    (auto simp: insert_factory_def split: prod.splits if_splits option.splits)

lemma builtin_names_short: "\<forall>n \<in> set builtin_names. short_name n"
  by (simp add: builtin_names_def short_name_def name_size_def)

lemma builtin_names_distinct: "distinct builtin_names" "length builtin_names = 8"
  by (simp_all add: builtin_names_def)

lemma map_of_rev_distinct: "distinct (map fst es) \<Longrightarrow> map_of (rev es) = map_of es"
proof (induction es)
  case (Cons e es)
  then have "fst e \<notin> dom (map_of es)" by (simp add: dom_map_of_conv_image_fst)
  then show ?case using Cons by (auto simp: map_add_def split: option.split)
qed simp

text \<open>
  When the initialization of a registry succeeds, the name of each built-in integrator leads to its
  factory, and no other name that fits its buffer leads anywhere.
\<close>

theorem builtin_factories_found:
  assumes "integrator_registry_init heap factories = (SIM_RESULT_OK, r)" "length factories = 8"
  shows "(\<forall>i < 8. integrator_registry_lookup (Some r) (Some (builtin_names ! i)) = Some (factories ! i)) \<and>
    (\<forall>n. short_name n \<longrightarrow> n \<notin> set builtin_names \<longrightarrow> integrator_registry_lookup (Some r) (Some n) = None)"
proof -
  let ?es = "zip builtin_names factories"
  have "register_all heap empty_factories ?es = (SIM_RESULT_OK, r)"
    using assms(1) by (auto simp: integrator_registry_init_def integrator_registry_register_builtin_def
        split: prod.splits if_splits)
  then have ins: "factories.insert_all heap ?es empty_factories = Some r" by (simp add: register_all_insert)
  have keys: "map fst ?es = builtin_names" using assms(2) builtin_names_distinct(2) by simp
  have fits: "\<forall>k \<in> fst ` set ?es. short_name k"
    using builtin_names_short keys by (metis set_map)
  have empty: "factories_ok empty_factories" "integrator_registry_lookup (Some empty_factories) (Some n) = None" for n
    by (simp_all add: factories_ok_def empty_factories_def integrator_registry_lookup_def)
  have look: "integrator_registry_lookup (Some r) (Some n) = map_of ?es n" if "short_name n" for n
  proof -
    have "distinct (map fst ?es)" using keys builtin_names_distinct by simp
    then have "map_of (rev ?es) n = map_of ?es n" by (simp add: map_of_rev_distinct)
    then show ?thesis
      using factories.lookup_insert_all [OF empty(1) fits ins that] empty(2) by (auto split: option.splits)
  qed
  have "map_of ?es (builtin_names ! i) = Some (factories ! i)" if "i < 8" for i
    using that assms(2) builtin_names_distinct by (intro map_of_zip_nth) auto
  moreover have "map_of ?es n = None" if "n \<notin> set builtin_names" for n
    using that keys by (metis map_of_eq_None_iff set_map)
  moreover have "short_name (builtin_names ! i)" if "i < 8" for i
    using builtin_names_short builtin_names_distinct(2) that by simp
  ultimately show ?thesis using look by simp
qed

lemma register_all_granted: "fst (register_all (\<lambda>_. True) r es) = SIM_RESULT_OK"
  by (induction es arbitrary: r)
    (auto simp: integrator_registry_register_def integrator_registry_grow_def malloc_ok_def Let_def
      split: option.splits prod.splits if_splits)

lemma builtin_factories_found_witness:
  "\<exists>r. integrator_registry_init (\<lambda>_. True) [0, 1, 2, 3, 4, 5, 6, 7] = (SIM_RESULT_OK, r) \<and>
    integrator_registry_lookup (Some r) (Some ''rk4'') = Some 2"
proof -
  let ?heap = "\<lambda>_ :: nat. True" and ?fs = "[0, 1, 2, 3, 4, 5, 6, 7 :: nat]"
  have "fst (integrator_registry_init ?heap ?fs) = SIM_RESULT_OK"
    using register_all_granted [of empty_factories "zip builtin_names ?fs"]
    unfolding integrator_registry_init_def integrator_registry_register_builtin_def
    by (cases "register_all ?heap empty_factories (zip builtin_names ?fs)") simp
  then obtain r where r: "integrator_registry_init ?heap ?fs = (SIM_RESULT_OK, r)"
    by (metis prod.collapse)
  have "builtin_names ! 2 = ''rk4''" "?fs ! 2 = 2" by (simp_all add: builtin_names_def)
  moreover have "integrator_registry_lookup (Some r) (Some (builtin_names ! 2)) = Some (?fs ! 2)"
    using builtin_factories_found [OF r] by simp
  ultimately show ?thesis using r by simp
qed

text \<open>
  A name of 32 characters or more is stored cut to 31, and the comparison of 32 bytes never finds the
  cut name again: registration reports success, but the factory cannot be looked up, and registering the
  name once more adds a second entry instead of replacing the first.
\<close>

theorem long_name_lost:
  assumes "factories_ok r" "name_size \<le> length n" "CHR 0x00 \<notin> set n"
    and "integrator_registry_register heap r (Some n) (Some f) = (SIM_RESULT_OK, r')"
  shows "integrator_registry_lookup (Some r') (Some n) = None \<and>
    length (ir_entries r') = Suc (length (ir_entries r)) \<and> factories_ok r'"
proof -
  have never: "\<not> strncmp_equal s n name_size" if "length s < name_size" "CHR 0x00 \<notin> set s" for s
    using strncmp_stored [OF that(1) assms(3)] that(1) assms(2) by auto
  have none: "find (\<lambda>e. strncmp_equal (ie_name e) n name_size) es = None \<and> replace_factory n f es = None"
    if "\<forall>e \<in> set es. length (ie_name e) < name_size \<and> CHR 0x00 \<notin> set (ie_name e)" for es
    using that by (induction es) (auto simp: never)
  have r: "replace_factory n f (ir_entries r) = None"
    using none [of "ir_entries r"] assms(1) by (simp add: factories_ok_def)
  obtain g where g: "integrator_registry_grow heap r = (SIM_RESULT_OK, g)"
    and r': "r' = g\<lparr>ir_entries := ir_entries g @ [\<lparr>ie_name = take (name_size - 1) n, ie_create = f\<rparr>]\<rparr>"
    using assms(2,4) r
    by (auto simp: integrator_registry_register_def Let_def split: prod.splits if_splits)
  have e: "ir_entries g = ir_entries r" using grow_entries [of heap r] g by simp
  have "length (take (name_size - 1) n) < name_size" "CHR 0x00 \<notin> set (take (name_size - 1) n)"
    using assms(2,3) in_set_takeD by (fastforce simp: name_size_def)+
  then have ok: "factories_ok r'" using assms(1) by (auto simp: factories_ok_def r' e)
  then show ?thesis
    using none [of "ir_entries r'"] by (simp add: factories_ok_def integrator_registry_lookup_def) (simp add: r' e)
qed

lemma long_name_lost_witness:
  "\<exists>r'. integrator_registry_register (\<lambda>k. k < 2 ^ 63) empty_factories (Some (replicate 32 (CHR ''x''))) (Some 7) =
      (SIM_RESULT_OK, r') \<and>
    integrator_registry_lookup (Some r') (Some (replicate 32 (CHR ''x''))) = None"
proof -
  let ?n = "replicate 32 (CHR ''x'')"
  have "fst (integrator_registry_register (\<lambda>k. k < 2 ^ 63) empty_factories (Some ?n) (Some 7)) = SIM_RESULT_OK"
    by (simp add: integrator_registry_register_def empty_factories_def integrator_registry_grow_def
        malloc_ok_def sizeof_IntegratorRegistryEntry_def)
  then obtain r' where r': "integrator_registry_register (\<lambda>k. k < 2 ^ 63) empty_factories (Some ?n) (Some 7) =
      (SIM_RESULT_OK, r')" by (metis prod.collapse)
  have "factories_ok empty_factories" "name_size \<le> length ?n" "CHR 0x00 \<notin> set ?n"
    by (simp_all add: factories_ok_def empty_factories_def name_size_def)
  from long_name_lost [OF this r'] r' show ?thesis by blast
qed

section \<open>Sequences\<close>

text \<open>A sequence of integrators: the first is the active one, and none is stepping.\<close>

definition sequence_ok :: "SimIntegratorState \<Rightarrow> bool" where
  "sequence_ok s \<longleftrightarrow>
     is_sequence_count s \<le> length (is_sequence s) \<and> length (is_sequence s) \<le> is_sequence_capacity s
     \<and> (is_sequence_count s > 0 \<longrightarrow> is_active s = Some (is_sequence s ! 0))"

text \<open>
  Setting a sequence binds exactly the given integrators, the first of them as the active one, or,
  when an entry is null or memory runs out, changes nothing; binding a single integrator or an empty
  sequence empties the sequence.
\<close>

theorem set_sequence_all_or_nothing:
  assumes "sequence_ok s"
  shows "case sim_integrator_state_set_sequence heap (Some ints) s of (r, s') \<Rightarrow>
      sequence_ok s' \<and>
      (if r = SIM_RESULT_OK
       then sim_integrator_state_sequence (Some s') = (if ints = [] then None else Some (map the ints))
         \<and> sim_integrator_state_active (Some s') = (if ints = [] then None else hd ints)
         \<and> sim_integrator_state_stepping (Some s') = None
       else s' = s \<and> (None \<in> set ints \<or> r = SIM_RESULT_OUT_OF_MEMORY))
      \<and> sequence_ok (sim_integrator_state_set_active i s)
      \<and> sim_integrator_state_sequence (Some (sim_integrator_state_set_active i s)) = None"
proof -
  have active: "sequence_ok (sim_integrator_state_set_active i s)"
    "sim_integrator_state_sequence (Some (sim_integrator_state_set_active i s)) = None"
    using assms by (simp_all add: sim_integrator_state_set_active_def sequence_ok_def
        sim_integrator_state_sequence_def)
  show ?thesis
  proof (cases "ints = [] \<or> None \<in> set ints")
    case True
    then show ?thesis using assms active
      by (auto simp: sim_integrator_state_set_sequence_def sequence_ok_def sim_integrator_state_sequence_def
          sim_integrator_state_active_def sim_integrator_state_stepping_def)
  next
    case False
    then obtain x xs where xs: "ints = Some x # xs" by (metis list.exhaust list.set_intros(1) option.exhaust)
    show ?thesis
      using False assms active by (auto simp: xs sim_integrator_state_set_sequence_def sequence_ok_def
          sim_integrator_state_sequence_def sim_integrator_state_active_def
          sim_integrator_state_stepping_def Let_def)
  qed
qed

lemma set_sequence_all_or_nothing_witness:
  "\<exists>s. sim_integrator_state_sequence (Some (snd (sim_integrator_state_set_sequence (\<lambda>_. True)
      (Some [Some 3, Some 5]) s))) = Some [3, 5]"
proof -
  let ?s = "\<lparr>is_registry = empty_factories, is_active = None, is_stepping = None, is_sequence = [],
     is_sequence_count = 0, is_sequence_capacity = 0, is_registry_ready = False\<rparr>"
  have "sequence_ok ?s" by (simp add: sequence_ok_def)
  from set_sequence_all_or_nothing [OF this, where heap = "\<lambda>_. True" and ints = "[Some 3, Some 5]"]
  have "sim_integrator_state_sequence (Some (snd (sim_integrator_state_set_sequence (\<lambda>_. True)
      (Some [Some 3, Some 5]) ?s))) = Some [3, 5]"
    by (simp add: sim_integrator_state_set_sequence_def malloc_ok_def)
  then show ?thesis by blast
qed

end
