(* ===== verification/Kernel_Dispatch.thy ===== *)
theory Kernel_Dispatch
  imports Operator_Registry Sim_Field
begin

text \<open>
  Execution of a kernel on a backend: the handle and the helpers of \<^verbatim>\<open>include/oakfield/backend.h\<close>, the
  dispatch functions at the end of \<^verbatim>\<open>backends/src/cpu/backend_cpu.c\<close>, the tests of \<^verbatim>\<open>core/src/kernel_ir.c\<close>
  and \<^verbatim>\<open>core/src/sim_context.c\<close> that send a kernel to the CPU instead, and the diagnostics of
  \<^verbatim>\<open>include/oakfield/sim_diagnostics.h\<close> that record where it ran.

  What a backend computes is not modelled: its three functions are an argument, \<open>None\<close> for one that was
  not compiled in. A launch may change the backend, the parameters and the fields.
\<close>

unbundle bit_operations_syntax

section \<open>Backends\<close>

datatype SimBackendType = SIM_BACKEND_TYPE_CPU | SIM_BACKEND_TYPE_CUDA | SIM_BACKEND_TYPE_METAL

definition SIM_BACKEND_FEATURE_NONE :: u64 where "SIM_BACKEND_FEATURE_NONE = 0"
definition SIM_BACKEND_FEATURE_ANALYTIC_WARP :: u64 where "SIM_BACKEND_FEATURE_ANALYTIC_WARP = 1"
definition SIM_BACKEND_FEATURE_BOUNDARY_AWARE_DIFFS :: u64 where "SIM_BACKEND_FEATURE_BOUNDARY_AWARE_DIFFS = 2"

record SimBackend =
  bk_type :: "SimBackendType c_enum"
  bk_last_error :: SimResult
  bk_features :: u64
  bk_impl :: "nat option"

definition backend_supports_features :: "SimBackend option \<Rightarrow> u64 \<Rightarrow> bool" where
  "backend_supports_features backend m =
     (case backend of None \<Rightarrow> False | Some b \<Rightarrow> bk_features b AND m = m)"

definition backend_supports_feature :: "SimBackend option \<Rightarrow> u64 \<Rightarrow> bool" where
  "backend_supports_feature backend feature = backend_supports_features backend feature"

definition backend_enable_feature :: "u64 \<Rightarrow> SimBackend \<Rightarrow> SimBackend" where
  "backend_enable_feature feature b = b\<lparr>bk_features := bk_features b OR feature\<rparr>"

definition backend_disable_feature :: "u64 \<Rightarrow> SimBackend \<Rightarrow> SimBackend" where
  "backend_disable_feature feature b = b\<lparr>bk_features := bk_features b AND NOT feature\<rparr>"

definition backend_set_features :: "u64 \<Rightarrow> SimBackend \<Rightarrow> SimBackend" where
  "backend_set_features m b = b\<lparr>bk_features := m\<rparr>"

text \<open>An implementation; a launch returns its result, the backend, the parameters and the fields.\<close>

record backend_impl =
  im_init :: "SimBackend \<Rightarrow> SimResult \<times> SimBackend"
  im_launch :: "SimBackend \<Rightarrow> SimOperatorKernel \<Rightarrow> SimField list \<Rightarrow>
    SimResult \<times> SimBackend \<times> f64 list \<times> SimField list"
  im_destroy :: "SimBackend \<Rightarrow> SimBackend"

record backend_impls =
  bt_cpu :: backend_impl
  bt_cuda :: "backend_impl option"
  bt_metal :: "backend_impl option"

definition optional_impl :: "backend_impls \<Rightarrow> SimBackendType \<Rightarrow> backend_impl option" where
  "optional_impl impls type =
     (case type of
        SIM_BACKEND_TYPE_CPU \<Rightarrow> Some (bt_cpu impls)
      | SIM_BACKEND_TYPE_CUDA \<Rightarrow> bt_cuda impls
      | SIM_BACKEND_TYPE_METAL \<Rightarrow> bt_metal impls)"

definition backend_init :: "backend_impls \<Rightarrow> SimBackend \<Rightarrow> SimBackend" where
  "backend_init impls b =
     (let type = (case bk_type b of Named t \<Rightarrow> t | Unnamed _ \<Rightarrow> SIM_BACKEND_TYPE_CPU);
          b = backend_set_features SIM_BACKEND_FEATURE_NONE (b\<lparr>bk_type := Named type\<rparr>);
          (result, b) = (case optional_impl impls type of
                           None \<Rightarrow> (SIM_RESULT_NOT_FOUND, b)
                         | Some impl \<Rightarrow> im_init impl b)
      in b\<lparr>bk_last_error := result\<rparr>)"

definition backend_launch ::
  "backend_impls \<Rightarrow> SimBackend \<Rightarrow> SimOperatorKernel \<Rightarrow> SimField list \<Rightarrow> SimBackend \<times> SimOperatorKernel \<times> SimField list" where
  "backend_launch impls b kern fs =
     (case bk_type b of
        Unnamed _ \<Rightarrow> (b\<lparr>bk_last_error := SIM_RESULT_INVALID_ARGUMENT\<rparr>, kern, fs)
      | Named type \<Rightarrow>
          (case optional_impl impls type of
             None \<Rightarrow> (b\<lparr>bk_last_error := SIM_RESULT_NOT_FOUND\<rparr>, kern, fs)
           | Some impl \<Rightarrow>
               let (result, b, params, fs) = im_launch impl b kern fs
               in (b\<lparr>bk_last_error := result\<rparr>, kern\<lparr>kn_params := params\<rparr>, fs)))"

definition backend_destroy :: "backend_impls \<Rightarrow> SimBackend \<Rightarrow> SimBackend" where
  "backend_destroy impls b =
     (let b = (case bk_type b of
                 Unnamed _ \<Rightarrow> im_destroy (bt_cpu impls) b
               | Named type \<Rightarrow>
                   (case optional_impl impls type of
                      None \<Rightarrow> b\<lparr>bk_impl := None\<rparr>
                    | Some impl \<Rightarrow> im_destroy impl b))
      in backend_set_features SIM_BACKEND_FEATURE_NONE (b\<lparr>bk_last_error := SIM_RESULT_OK\<rparr>))"

section \<open>Bindings\<close>

definition sim_kernel_binding_width :: "SimKernelIRBinding option \<Rightarrow> size_t" where
  "sim_kernel_binding_width binding =
     (case binding of
        None \<Rightarrow> 0
      | Some b \<Rightarrow>
          (case kb_shape b of
             None \<Rightarrow> 0
           | Some shape \<Rightarrow> if kb_rank b = 0 then 0 else shape ! (kb_rank b - 1)))"

definition sim_kernel_binding_height :: "SimKernelIRBinding option \<Rightarrow> size_t" where
  "sim_kernel_binding_height binding =
     (case binding of
        None \<Rightarrow> 0
      | Some b \<Rightarrow>
          (case kb_shape b of
             None \<Rightarrow> 0
           | Some shape \<Rightarrow>
               if kb_rank b = 0 then 0 else if kb_rank b = 1 then 1 else shape ! (kb_rank b - 2)))"

text \<open>The loop over the extents; the product wraps.\<close>

fun binding_count :: "size_t \<Rightarrow> size_t list \<Rightarrow> size_t option" where
  "binding_count count [] = Some count"
| "binding_count count (d # ds) = (if d = 0 then None else binding_count (count * d) ds)"

definition sim_kernel_binding_index_to_xy ::
  "SimField list \<Rightarrow> SimKernelIRBinding option \<Rightarrow> size_t \<Rightarrow> SimResult + (size_t \<times> size_t)" where
  "sim_kernel_binding_index_to_xy fs binding index =
     (case binding of
        None \<Rightarrow> Inl SIM_RESULT_INVALID_ARGUMENT
      | Some b \<Rightarrow>
          let (shape, strides, rank) =
                (if kb_shape b = None \<or> kb_strides b = None \<or> kb_rank b = 0
                 then (case kb_field b of
                         None \<Rightarrow> (kb_shape b, kb_strides b, kb_rank b)
                       | Some i \<Rightarrow> let l = f_layout (fs ! i) in (lay_shape l, lay_strides l, lay_rank l))
                 else (kb_shape b, kb_strides b, kb_rank b))
          in (case (shape, strides) of
                (Some shape, Some strides) \<Rightarrow>
                  if rank = 0 then Inl SIM_RESULT_INVALID_ARGUMENT
                  else (case binding_count 1 (take rank shape) of
                          None \<Rightarrow> Inl SIM_RESULT_INVALID_ARGUMENT
                        | Some count \<Rightarrow>
                            if index \<ge> count then Inl SIM_RESULT_INVALID_ARGUMENT
                            else if rank = 1 then Inr (index, 0)
                            else
                              let extent_x = shape ! (rank - 1); extent_y = shape ! (rank - 2);
                                  stride_x = strides ! (rank - 1); stride_y = strides ! (rank - 2)
                              in if extent_x = 0 \<or> extent_y = 0 \<or> stride_x = 0 \<or> stride_y = 0
                                 then Inl SIM_RESULT_INVALID_ARGUMENT
                                 else Inr ((index div stride_x) mod extent_x, (index div stride_y) mod extent_y))
              | _ \<Rightarrow> Inl SIM_RESULT_INVALID_ARGUMENT))"

section \<open>Kernels a backend cannot run\<close>

definition sim_ir_node_has_supported_complex_gpu_semantics :: "SimIRNode \<Rightarrow> bool" where
  "sim_ir_node_has_supported_complex_gpu_semantics node =
     (if \<not> sim_scalar_domain_is_complex (sim_ir_type_scalar_domain (nd_value_type node)) then True
      else nd_type node \<in> {SIM_IR_NODE_CONSTANT, SIM_IR_NODE_FIELD_REF, SIM_IR_NODE_ADD, SIM_IR_NODE_SUB,
             SIM_IR_NODE_DIFF, SIM_IR_NODE_WARP, SIM_IR_NODE_COMPLEX_PACK, SIM_IR_NODE_COMPLEX_ROTATE})"

definition sim_ir_kernel_has_unsupported_complex_semantics :: "SimOperatorKernel \<Rightarrow> bool" where
  "sim_ir_kernel_has_unsupported_complex_semantics kern =
     (if kn_complex_semantics kern = SIM_KERNEL_COMPLEX_SEMANTICS_COMPONENTWISE then False
      else list_ex (\<lambda>n. \<not> sim_ir_node_has_supported_complex_gpu_semantics n) (ir_nodes (kn_builder kern)))"

definition sim_kernel_requires_boundary_feature :: "SimOperatorKernel \<Rightarrow> bool" where
  "sim_kernel_requires_boundary_feature kern =
     list_ex (\<lambda>n. nd_type n = SIM_IR_NODE_DIFF \<and>
                  (case nd_data n of
                     Data_diff d \<Rightarrow> df_method d \<noteq> SIM_IR_DIFF_METHOD_AUTO \<or> df_boundary d \<noteq> SIM_IR_BOUNDARY_NEUMANN
                   | _ \<Rightarrow> False))
       (ir_nodes (kn_builder kern))"

definition sim_kernel_contains_node_type :: "SimOperatorKernel \<Rightarrow> SimIRNodeType \<Rightarrow> bool" where
  "sim_kernel_contains_node_type kern type = list_ex (\<lambda>n. nd_type n = type) (ir_nodes (kn_builder kern))"

definition sim_kernel_uses_integer_domain :: "SimField list \<Rightarrow> SimOperatorKernel \<Rightarrow> bool" where
  "sim_kernel_uses_integer_domain fs kern =
     (list_ex (\<lambda>out. ko_expression out \<noteq> SIM_IR_INVALID_NODE \<and> ko_expression out < ir_count (kn_builder kern) \<and>
          sim_scalar_domain_is_integer (sim_ir_type_scalar_domain
            (nd_value_type (ir_nodes (kn_builder kern) ! ko_expression out)))) (kn_outputs kern)
      \<or> list_ex (\<lambda>b. case kb_field b of
          None \<Rightarrow> False
        | Some i \<Rightarrow> sim_scalar_domain_is_integer (sim_scalar_domain_from_field (Some (fs ! i)))) (kn_bindings kern))"

definition sim_kernel_requires_warp_profile_fallback :: "SimOperatorKernel \<Rightarrow> SimBackend \<Rightarrow> bool" where
  "sim_kernel_requires_warp_profile_fallback kern backend =
     (if bk_type backend = Named SIM_BACKEND_TYPE_CPU then False
      else list_ex (\<lambda>n. nd_type n = SIM_IR_NODE_WARP \<and>
                        (case nd_data n of
                           Data_warp w \<Rightarrow> wp_profile w \<noteq> SIM_IR_WARP_PROFILE_DIGAMMA \<and>
                                          wp_profile w \<noteq> SIM_IR_WARP_PROFILE_TRIGAMMA
                         | _ \<Rightarrow> False))
             (ir_nodes (kn_builder kern)))"

definition sim_context_known_backend_fallback_reason ::
  "SimField list \<Rightarrow> SimBackend \<Rightarrow> SimOperatorKernel \<Rightarrow> string option" where
  "sim_context_known_backend_fallback_reason fs backend kern =
     (if bk_type backend = Named SIM_BACKEND_TYPE_CPU then None
      else
        let gpu = (bk_type backend = Named SIM_BACKEND_TYPE_METAL \<or> bk_type backend = Named SIM_BACKEND_TYPE_CUDA)
        in if gpu \<and> sim_kernel_uses_integer_domain fs kern then Some ''integer_domain_not_supported''
           else if gpu \<and> sim_kernel_contains_node_type kern SIM_IR_NODE_STATEFUL
             then Some ''stateful_node_not_supported''
           else if gpu \<and> sim_ir_kernel_has_unsupported_complex_semantics kern
             then Some ''complex_semantics_not_supported''
           else if gpu \<and> length (kn_outputs kern) \<noteq> 1 then Some ''pointwise_backend_requires_single_output''
           else None)"

text \<open>A fresh CPU backend for one launch.\<close>

definition zero_backend :: SimBackend where
  "zero_backend = \<lparr>bk_type = Named SIM_BACKEND_TYPE_CPU, bk_last_error = SIM_RESULT_OK, bk_features = 0, bk_impl = None\<rparr>"

definition sim_context_launch_cpu_fallback ::
  "backend_impls \<Rightarrow> SimOperatorKernel \<Rightarrow> SimField list \<Rightarrow> SimResult \<times> SimOperatorKernel \<times> SimField list" where
  "sim_context_launch_cpu_fallback impls kern fs =
     (let fallback = backend_init impls zero_backend
      in if bk_last_error fallback \<noteq> SIM_RESULT_OK then (bk_last_error fallback, kern, fs)
         else
           let (fallback, kern, fs) = backend_launch impls fallback kern fs
           in (bk_last_error fallback, kern, fs))"

section \<open>Diagnostics\<close>

datatype SimDiagnosticBackendKind =
    SIM_DIAGNOSTIC_BACKEND_CPU
  | SIM_DIAGNOSTIC_BACKEND_CUDA
  | SIM_DIAGNOSTIC_BACKEND_METAL
  | SIM_DIAGNOSTIC_BACKEND_UNKNOWN

datatype SimSpecialFault =
    SIM_SPECIAL_FAULT_NONE
  | SIM_SPECIAL_FAULT_DOMAIN
  | SIM_SPECIAL_FAULT_SINGULARITY
  | SIM_SPECIAL_FAULT_ITERATION_LIMIT
  | SIM_SPECIAL_FAULT_NUMERIC

record SimSpecialEvalReport =
  sr_fault :: SimSpecialFault
  sr_function :: "string option"
  sr_input :: SimComplexDouble
  sr_q_param :: f64
  sr_aux_param :: f64
  sr_exponent_param :: f64
  sr_iteration_count :: int
  sr_residual :: f64
  sr_tolerance :: f64

text \<open>
  The counters of special-function health and the invariant switch are not kept. \<open>dg_fault_last\<close> is
  \<open>None\<close> where the report is cleared.
\<close>

record SimDiagnostics =
  dg_fallback_user :: "nat option"
  dg_fallback_userdata :: "nat option"
  dg_fault_count :: u64
  dg_fault_last :: "SimSpecialEvalReport option"
  dg_fault_function :: string
  dg_kernel_dispatch_count :: u64
  dg_kernel_fallback_count :: u64
  dg_kernel_last_valid :: bool
  dg_kernel_last_fallback_used :: bool
  dg_kernel_last_requested_backend :: SimDiagnosticBackendKind
  dg_kernel_last_executed_backend :: SimDiagnosticBackendKind
  dg_kernel_last_operator :: string
  dg_kernel_last_fallback_reason :: string

definition sim_context_backend_diag_kind :: "SimBackend option \<Rightarrow> SimDiagnosticBackendKind" where
  "sim_context_backend_diag_kind backend =
     (case backend of
        None \<Rightarrow> SIM_DIAGNOSTIC_BACKEND_UNKNOWN
      | Some b \<Rightarrow>
          (case bk_type b of
             Named SIM_BACKEND_TYPE_CPU \<Rightarrow> SIM_DIAGNOSTIC_BACKEND_CPU
           | Named SIM_BACKEND_TYPE_CUDA \<Rightarrow> SIM_DIAGNOSTIC_BACKEND_CUDA
           | Named SIM_BACKEND_TYPE_METAL \<Rightarrow> SIM_DIAGNOSTIC_BACKEND_METAL
           | Unnamed _ \<Rightarrow> SIM_DIAGNOSTIC_BACKEND_UNKNOWN))"

definition sim_context_reset_kernel_dispatch_diag :: "SimDiagnostics \<Rightarrow> SimDiagnostics" where
  "sim_context_reset_kernel_dispatch_diag diag =
     diag\<lparr>dg_kernel_dispatch_count := 0, dg_kernel_fallback_count := 0, dg_kernel_last_valid := False,
          dg_kernel_last_fallback_used := False,
          dg_kernel_last_requested_backend := SIM_DIAGNOSTIC_BACKEND_UNKNOWN,
          dg_kernel_last_executed_backend := SIM_DIAGNOSTIC_BACKEND_UNKNOWN,
          dg_kernel_last_operator := [], dg_kernel_last_fallback_reason := []\<rparr>"

text \<open>\<^verbatim>\<open>snprintf\<close> cuts the strings to the buffers, of 64 and 96 bytes.\<close>

definition sim_context_record_kernel_dispatch ::
  "SimBackend option \<Rightarrow> SimDiagnosticBackendKind \<Rightarrow> bool \<Rightarrow> string option \<Rightarrow> string \<Rightarrow> SimDiagnostics \<Rightarrow> SimDiagnostics" where
  "sim_context_record_kernel_dispatch requested_backend executed_backend fallback_used reason name diag =
     (let operator_name = (if name \<noteq> [] then name else ''<unnamed>'');
          fallback_reason = (case reason of None \<Rightarrow> [] | Some r \<Rightarrow> if fallback_used then r else [])
      in diag\<lparr>dg_kernel_dispatch_count := dg_kernel_dispatch_count diag + 1,
              dg_kernel_fallback_count :=
                (if fallback_used then dg_kernel_fallback_count diag + 1 else dg_kernel_fallback_count diag),
              dg_kernel_last_valid := True,
              dg_kernel_last_fallback_used := fallback_used,
              dg_kernel_last_requested_backend := sim_context_backend_diag_kind requested_backend,
              dg_kernel_last_executed_backend := executed_backend,
              dg_kernel_last_operator := take 63 operator_name,
              dg_kernel_last_fallback_reason := take 95 fallback_reason\<rparr>)"

definition clear_faults :: "SimDiagnostics \<Rightarrow> SimDiagnostics" where
  "clear_faults diag = diag\<lparr>dg_fault_count := 0, dg_fault_last := None, dg_fault_function := []\<rparr>"

section \<open>Coordinates of a bound field\<close>

lemma binding_count_loop:
  "binding_count c ds = (if 0 \<in> set ds then None else Some (element_count_loop c ds))"
  "0 \<in> set ds \<Longrightarrow> element_count_loop c ds = 0"
  by (induction ds arbitrary: c) auto

definition bound_to :: "SimField list \<Rightarrow> nat \<Rightarrow> SimKernelIRBinding \<Rightarrow> bool" where
  "bound_to fs i b \<longleftrightarrow> i < length fs \<and> kb_field b = Some i \<and> kb_shape b = sim_field_shape (Some (fs ! i))
     \<and> kb_strides b = sim_field_strides (Some (fs ! i)) \<and> kb_rank b = sim_field_rank (Some (fs ! i))"

text \<open>
  A backend that turns an element index into coordinates through a binding gets what the field itself
  computes, or refuses the index like the field does.
\<close>

theorem binding_coordinates_agree:
  assumes "bound_to fs i b" "sim_field_is_initialized (Some (fs ! i))"
  shows "sim_kernel_binding_index_to_xy fs (Some b) index = sim_field_index_to_xy (Some (fs ! i)) index"
proof -
  let ?l = "f_layout (fs ! i)"
  have b: "kb_field b = Some i" "kb_shape b = lay_shape ?l" "kb_strides b = lay_strides ?l" "kb_rank b = lay_rank ?l"
    using assms by (simp_all add: bound_to_def sim_field_shape_def sim_field_strides_def sim_field_rank_def)
  have source: "(if kb_shape b = None \<or> kb_strides b = None \<or> kb_rank b = 0
        then (case kb_field b of None \<Rightarrow> (kb_shape b, kb_strides b, kb_rank b)
              | Some i \<Rightarrow> let l = f_layout (fs ! i) in (lay_shape l, lay_strides l, lay_rank l))
        else (kb_shape b, kb_strides b, kb_rank b)) = (lay_shape ?l, lay_strides ?l, lay_rank ?l)"
    by (simp add: b Let_def)
  show ?thesis
  proof (cases "lay_shape ?l = None \<or> lay_strides ?l = None \<or> lay_rank ?l = 0")
    case True
    then show ?thesis using assms(2)
      by (auto simp: sim_kernel_binding_index_to_xy_def source sim_field_index_to_xy_def Let_def split: option.split)
  next
    case False
    then obtain shape strides where s: "lay_shape ?l = Some shape" "lay_strides ?l = Some strides" "lay_rank ?l \<noteq> 0"
      by auto
    show ?thesis
    proof (cases "0 \<in> set (take (lay_rank ?l) shape)")
      case True
      then show ?thesis using assms(2) s
        by (simp add: sim_kernel_binding_index_to_xy_def source sim_field_index_to_xy_def binding_count_loop
            sim_field_element_count_def Let_def)
    next
      case False
      then show ?thesis using assms(2) s
        by (simp add: sim_kernel_binding_index_to_xy_def source sim_field_index_to_xy_def binding_count_loop
            sim_field_element_count_def Let_def)
    qed
  qed
qed

definition demo_grid :: SimField where
  "demo_grid =
     \<lparr>f_layout = \<lparr>lay_rank = 2, lay_shape = Some [2, 3], lay_strides = Some [3, 1], lay_contiguous = True\<rparr>,
      f_element_size = 8, f_data = Some (replicate 48 0), f_storage = SIM_FIELD_STORAGE_ROW_MAJOR,
      f_allocator = \<lparr>al_allocate = None, al_release = False\<rparr>, f_owns_data = True, f_complex_mode = False,
      f_repr = initial_repr 8, f_scalar_domain = sim_scalar_domain_f64, f_magic = SIM_FIELD_MAGIC\<rparr>"

definition demo_binding :: SimKernelIRBinding where
  "demo_binding = \<lparr>kb_field_index = 0, kb_field = Some 0, kb_shape = Some [2, 3], kb_strides = Some [3, 1], kb_rank = 2\<rparr>"

lemma binding_coordinates_agree_witness:
  "sim_kernel_binding_index_to_xy [demo_grid] (Some demo_binding) 4 = Inr (1, 1)"
proof -
  have init: "sim_field_is_initialized (Some ([demo_grid] ! 0))"
    by (simp add: sim_field_is_initialized_def demo_grid_def)
  have "bound_to [demo_grid] 0 demo_binding"
    by (simp add: bound_to_def demo_binding_def demo_grid_def sim_field_shape_def sim_field_strides_def
        sim_field_rank_def sim_field_is_initialized_def)
  from binding_coordinates_agree [OF this init, of 4]
  show ?thesis
    by (simp add: demo_grid_def sim_field_index_to_xy_def sim_field_is_initialized_def
        sim_field_element_count_def Let_def)
qed

end
