(* ===== verification/Sim_Profiler.thy ===== *)
theory Sim_Profiler
  imports Kernel_IR_Eval
begin

text \<open>
  \<^verbatim>\<open>core/src/field/sim_profiler.c\<close>: time and invocations per operator of a frame. The monotonic clock is
  not part of the sources: the reading of a call is an argument, zero where \<^verbatim>\<open>clock_gettime\<close> fails. The
  counters are an array of \<open>operators\<close> entries, \<open>[]\<close> for a null pointer.
\<close>

section \<open>Data\<close>

record SimProfilerSnapshot =
  sn_frame_start_ns :: u64
  sn_frame_end_ns :: u64
  sn_total_ns :: u64
  sn_average_operator_ns :: f64

record SimProfilerCounter =
  pc_inclusive_ns :: u64
  pc_invocations :: u64
  pc_delta_rms_sum :: f64
  pc_delta_sample_count :: u64

record SimProfiler =
  pf_counters :: "SimProfilerCounter list"
  pf_frame_active :: bool
  pf_frame_start_ns :: u64
  pf_frame_end_ns :: u64

definition sizeof_SimProfilerCounter :: nat where "sizeof_SimProfilerCounter = 32"

definition zero_counter :: SimProfilerCounter where
  "zero_counter = \<lparr>pc_inclusive_ns = 0, pc_invocations = 0, pc_delta_rms_sum = 0, pc_delta_sample_count = 0\<rparr>"

definition zero_profiler :: SimProfiler where
  "zero_profiler = \<lparr>pf_counters = [], pf_frame_active = False, pf_frame_start_ns = 0, pf_frame_end_ns = 0\<rparr>"

section \<open>Operations\<close>

definition sim_profiler_init :: "heap \<Rightarrow> nat \<Rightarrow> SimResult \<times> SimProfiler" where
  "sim_profiler_init heap operators =
     (if operators = 0 then (SIM_RESULT_OK, zero_profiler)
      else if \<not> calloc_ok heap operators sizeof_SimProfilerCounter then (SIM_RESULT_OUT_OF_MEMORY, zero_profiler)
      else (SIM_RESULT_OK, zero_profiler\<lparr>pf_counters := replicate operators zero_counter\<rparr>))"

definition sim_profiler_destroy :: "SimProfiler \<Rightarrow> SimProfiler" where
  "sim_profiler_destroy p =
     p\<lparr>pf_counters := [], pf_frame_active := False, pf_frame_start_ns := 0, pf_frame_end_ns := 0\<rparr>"

definition sim_profiler_begin_frame :: "u64 \<Rightarrow> SimProfiler \<Rightarrow> SimProfiler" where
  "sim_profiler_begin_frame now p =
     p\<lparr>pf_counters := map (\<lambda>_. zero_counter) (pf_counters p),
       pf_frame_start_ns := now,
       pf_frame_active := True\<rparr>"

definition sim_profiler_end_frame :: "u64 \<Rightarrow> SimProfiler \<Rightarrow> SimProfiler" where
  "sim_profiler_end_frame now p =
     (if pf_frame_active p then p\<lparr>pf_frame_end_ns := now, pf_frame_active := False\<rparr> else p)"

definition sim_profiler_record_operator :: "SimProfiler \<Rightarrow> nat \<Rightarrow> u64 \<Rightarrow> SimProfiler" where
  "sim_profiler_record_operator p operator_index duration_ns =
     (if operator_index \<ge> length (pf_counters p) then p
      else let c = pf_counters p ! operator_index
           in p\<lparr>pf_counters := (pf_counters p)[operator_index :=
                  c\<lparr>pc_inclusive_ns := pc_inclusive_ns c + duration_ns,
                    pc_invocations := pc_invocations c + 1\<rparr>]\<rparr>)"

text \<open>A single thread: the compare-and-swap loop succeeds in its first round.\<close>

definition sim_profiler_record_operator_delta :: "fpu \<Rightarrow> SimProfiler \<Rightarrow> nat \<Rightarrow> f64 \<Rightarrow> u64 \<Rightarrow> SimProfiler" where
  "sim_profiler_record_operator_delta m p operator_index delta_rms sample_count =
     (if operator_index \<ge> length (pf_counters p) then p
      else let c = pf_counters p ! operator_index;
               add_val = fp_mul m delta_rms (f64_of_int (uint sample_count))
           in p\<lparr>pf_counters := (pf_counters p)[operator_index :=
                  c\<lparr>pc_delta_sample_count := pc_delta_sample_count c + sample_count,
                    pc_delta_rms_sum := fp_add m (pc_delta_rms_sum c) add_val\<rparr>]\<rparr>)"

definition sim_profiler_snapshot :: "fpu \<Rightarrow> SimProfiler \<Rightarrow> SimResult + SimProfilerSnapshot" where
  "sim_profiler_snapshot m p =
     (if pf_frame_start_ns p = 0 \<and> pf_frame_end_ns p = 0 then Inl SIM_RESULT_INVALID_ARGUMENT
      else
        let (total_time, total_invocations) =
              fold (\<lambda>c (time, invocations).
                      (fp_add m time (f64_of_int (uint (pc_inclusive_ns c))),
                       fp_add m invocations (f64_of_int (uint (pc_invocations c)))))
                   (pf_counters p) (f64_zero, f64_zero)
        in Inr \<lparr>sn_frame_start_ns = pf_frame_start_ns p,
                sn_frame_end_ns = pf_frame_end_ns p,
                sn_total_ns = (if pf_frame_end_ns p \<ge> pf_frame_start_ns p
                               then pf_frame_end_ns p - pf_frame_start_ns p else 0),
                sn_average_operator_ns = (if f64_less f64_zero total_invocations
                                          then fp_div m total_time total_invocations else f64_zero)\<rparr>)"

section \<open>Counters of a frame\<close>

lemma record_operator_length [simp]:
  "length (pf_counters (sim_profiler_record_operator p i d)) = length (pf_counters p)"
  by (simp add: sim_profiler_record_operator_def Let_def)

lemma record_operator_invocations:
  assumes "j < length (pf_counters p)"
  shows "pc_invocations (pf_counters (sim_profiler_record_operator p i d) ! j) =
    pc_invocations (pf_counters p ! j) + (if i = j then 1 else 0)"
  using assms by (simp add: sim_profiler_record_operator_def Let_def nth_list_update)

text \<open>
  After a frame was begun, recording a list of operators counts each of them as often as it occurs in the
  list, and the total of the times of an operator, modulo \<open>2^64\<close>.
\<close>

lemma frame_counts:
  assumes "j < length (pf_counters p)" "p' = foldl (\<lambda>p (i, d). sim_profiler_record_operator p i d)
      (sim_profiler_begin_frame now p) ids"
  shows "length (pf_counters p') = length (pf_counters p)
    \<and> pc_invocations (pf_counters p' ! j) = word_of_nat (count_list (map fst ids) j)
    \<and> pc_inclusive_ns (pf_counters p' ! j) = sum_list (map snd (filter (\<lambda>e. fst e = j) ids))"
  using assms(2)
proof (induction ids arbitrary: p' rule: rev_induct)
  case Nil
  then show ?case using assms(1) by (simp add: sim_profiler_begin_frame_def zero_counter_def)
next
  case (snoc e ids)
  obtain i d where e: "e = (i, d)" by fastforce
  let ?q = "foldl (\<lambda>p (i, d). sim_profiler_record_operator p i d) (sim_profiler_begin_frame now p) ids"
  have q: "length (pf_counters ?q) = length (pf_counters p)"
    "pc_invocations (pf_counters ?q ! j) = word_of_nat (count_list (map fst ids) j)"
    "pc_inclusive_ns (pf_counters ?q ! j) = sum_list (map snd (filter (\<lambda>e. fst e = j) ids))"
    using snoc.IH [OF refl] by auto
  have p': "p' = sim_profiler_record_operator ?q i d" using snoc.prems e by simp
  have j: "j < length (pf_counters ?q)" using assms(1) q(1) by simp
  have "pc_inclusive_ns (pf_counters p' ! j) = pc_inclusive_ns (pf_counters ?q ! j) + (if i = j then d else 0)"
    using j by (simp add: p' sim_profiler_record_operator_def Let_def nth_list_update)
  then show ?case
    using p' q e record_operator_invocations [OF j, of i d] by simp
qed

end
