(* ===== verification/Sim_Context.thy ===== *)
theory Sim_Context
  imports Sim_World Runtime_State Integrator_State Kernel_Dispatch Sim_Profiler Sim_Seed
begin

text \<open>
  The context of \<^verbatim>\<open>core/src/sim_context.c\<close> and the scheduler state of \<^verbatim>\<open>core/src/sim_scheduler_state.c\<close>:
  creation and destruction, fields and their memory limits, scratch accounting, seeds, representation
  modes, time, drift evaluation, step metrics, integrators, preferences and special-function faults.
  Planning is in \<open>Context_Plan\<close>, execution in \<open>Context_Execute\<close>.

  The struct a pointer leads to is part of the record that holds the pointer (the backend, the fields);
  callbacks and their data are handles. Neural models and the flux lens are not kept.
\<close>

unbundle bit_operations_syntax

section \<open>Data\<close>

record SimSchedulerPlan =
  sp_ir_builder :: SimIRBuilder
  sp_plan :: SimOperatorPlan
  sp_plan_valid :: bool
  sp_backend :: "SimBackend option"

record SimContextMemoryLimits =
  ml_max_field_elements :: size_t
  ml_max_field_bytes :: size_t
  ml_max_fields :: size_t
  ml_max_total_field_bytes :: size_t
  ml_max_scratch_bytes_per_operator :: size_t

definition SIM_CONTEXT_MAX_FIELD_ELEMENTS_DEFAULT :: size_t where
  "SIM_CONTEXT_MAX_FIELD_ELEMENTS_DEFAULT = 67108864"
definition SIM_CONTEXT_MAX_FIELD_BYTES_DEFAULT :: size_t where
  "SIM_CONTEXT_MAX_FIELD_BYTES_DEFAULT = 536870912"
definition SIM_CONTEXT_MAX_FIELDS_DEFAULT :: size_t where
  "SIM_CONTEXT_MAX_FIELDS_DEFAULT = 256"
definition SIM_CONTEXT_MAX_TOTAL_FIELD_BYTES_DEFAULT :: size_t where
  "SIM_CONTEXT_MAX_TOTAL_FIELD_BYTES_DEFAULT = 2147483648"
definition SIM_CONTEXT_MAX_SCRATCH_BYTES_PER_OPERATOR_DEFAULT :: size_t where
  "SIM_CONTEXT_MAX_SCRATCH_BYTES_PER_OPERATOR_DEFAULT = 268435456"
definition SIM_CONTEXT_PREFERRED_VISUAL_FIELD_CAPACITY :: nat where
  "SIM_CONTEXT_PREFERRED_VISUAL_FIELD_CAPACITY = 256"

text \<open>The \<^verbatim>\<open>preferred_gui_\<close> members.\<close>

record gui_preferences =
  gp_visual_mode :: int
  gp_phase_mode :: int
  gp_visual_auto_scale :: int
  gp_visual_scale :: f64
  gp_visual_field_index :: int
  gp_visual_field_selected :: "bool list"

record SimContext =
  cx_world :: SimWorld
  cx_runtime :: SimRuntimeState
  cx_scheduler :: SimSchedulerPlan
  cx_integrators :: SimIntegratorState
  cx_diag :: SimDiagnostics
  cx_profiler :: SimProfiler
  cx_profiler_ready :: bool
  cx_base_seed :: u64
  cx_representation_mode :: "SimRepresentationMode c_enum"
  cx_memory_limits :: SimContextMemoryLimits
  cx_bytes_fields_in_use :: size_t
  cx_bytes_scratch_in_use :: size_t
  cx_bytes_total_in_use :: size_t
  cx_continuity_override_enabled :: bool
  cx_continuity_override :: SimOperatorConfig
  cx_preferences :: gui_preferences
  cx_log_fn :: "nat option"
  cx_log_userdata :: "nat option"

section \<open>The scheduler state\<close>

definition empty_plan :: SimOperatorPlan where
  "empty_plan = \<lparr>plan_order = [], plan_count = 0\<rparr>"

definition sim_scheduler_plan_init :: "SimResult \<times> SimSchedulerPlan" where
  "sim_scheduler_plan_init =
     (case sim_ir_builder_init (Some empty_builder) of
        (result, builder) \<Rightarrow>
          (result, \<lparr>sp_ir_builder = the builder, sp_plan = empty_plan, sp_plan_valid = False, sp_backend = None\<rparr>))"

definition sim_scheduler_plan_destroy :: "SimSchedulerPlan \<Rightarrow> SimSchedulerPlan" where
  "sim_scheduler_plan_destroy s =
     s\<lparr>sp_plan := sim_operator_plan_reset (sp_plan s),
       sp_ir_builder := the (sim_ir_builder_destroy (Some (sp_ir_builder s))),
       sp_plan_valid := False, sp_backend := None\<rparr>"

definition sim_scheduler_plan_invalidate :: "SimSchedulerPlan \<Rightarrow> SimSchedulerPlan" where
  "sim_scheduler_plan_invalidate s = s\<lparr>sp_plan_valid := False\<rparr>"

section \<open>Creation\<close>

definition sim_context_memory_limits_default :: SimContextMemoryLimits where
  "sim_context_memory_limits_default =
     \<lparr>ml_max_field_elements = SIM_CONTEXT_MAX_FIELD_ELEMENTS_DEFAULT,
      ml_max_field_bytes = SIM_CONTEXT_MAX_FIELD_BYTES_DEFAULT,
      ml_max_fields = SIM_CONTEXT_MAX_FIELDS_DEFAULT,
      ml_max_total_field_bytes = SIM_CONTEXT_MAX_TOTAL_FIELD_BYTES_DEFAULT,
      ml_max_scratch_bytes_per_operator = SIM_CONTEXT_MAX_SCRATCH_BYTES_PER_OPERATOR_DEFAULT\<rparr>"

definition f64_minus_one :: f64 where "f64_minus_one = 0xBFF0000000000000"

definition default_preferences :: gui_preferences where
  "default_preferences =
     \<lparr>gp_visual_mode = -1, gp_phase_mode = -1, gp_visual_auto_scale = -1, gp_visual_scale = f64_minus_one,
      gp_visual_field_index = -1,
      gp_visual_field_selected = (replicate SIM_CONTEXT_PREFERRED_VISUAL_FIELD_CAPACITY False)[0 := True]\<rparr>"

definition default_diagnostics :: SimDiagnostics where
  "default_diagnostics =
     sim_context_reset_kernel_dispatch_diag
       \<lparr>dg_fallback_user = None, dg_fallback_userdata = None, dg_fault_count = 0, dg_fault_last = None,
        dg_fault_function = [], dg_kernel_dispatch_count = 0, dg_kernel_fallback_count = 0,
        dg_kernel_last_valid = False, dg_kernel_last_fallback_used = False,
        dg_kernel_last_requested_backend = SIM_DIAGNOSTIC_BACKEND_UNKNOWN,
        dg_kernel_last_executed_backend = SIM_DIAGNOSTIC_BACKEND_UNKNOWN,
        dg_kernel_last_operator = [], dg_kernel_last_fallback_reason = []\<rparr>"

text \<open>The runtime state \<^verbatim>\<open>memset\<close> leaves before its initialization.\<close>

definition zero_runtime :: SimRuntimeState where
  "zero_runtime =
     \<lparr>rs_dt = 0, rs_time_model = SIM_TIME_MODEL_CONTINUOUS, rs_step_index = 0, rs_time_accumulated = 0,
      rs_drift_mode_depth = 0, rs_drift_time_override = 0, rs_drift_time_override_active = False,
      rs_slots = [], rs_continuity_capacity = 0, rs_drift_field_stats_step_index = 0,
      rs_measurement = no_measurement\<lparr>mc_step_index := 0\<rparr>,
      rs_visual_sample_target_samples = 0, rs_visual_sample_max_samples = 0, rs_current_step_warp_mask = 0,
      rs_step_metrics = replicate SIM_STEP_METRIC_HISTORY zero_metrics, rs_step_metrics_head = 0,
      rs_step_metrics_count = 0, rs_step_metrics_valid = False, rs_step_metrics_latest = zero_metrics,
      rs_loop = \<lparr>lm_pending_cancel = False, lm_last_stop_reason = SIM_RUNTIME_LOOP_STOP_REASON_NONE,
                 lm_last_loop_error = no_loop_error, lm_last_caller_step_mode = SIM_RUNTIME_CALLER_STEP_MODE_NONE,
                 lm_caller_step_streak = 0, lm_external_driver_depth = 0, lm_loop_progress = no_progress,
                 lm_last_loop_progress = no_progress, lm_last_loop_progress_valid = False\<rparr>\<rparr>"

text \<open>
  A context whose initialization fails is not usable; \<open>Inl\<close> is the result code. \<open>factories\<close> are the
  handles of the built-in integrators.
\<close>

definition sim_context_init_with_universe ::
  "heap \<Rightarrow> nat list \<Rightarrow> SimUniverseSpec option \<Rightarrow> SimResult + SimContext" where
  "sim_context_init_with_universe heap factories universe_spec =
     (let (result, world) = sim_world_init heap universe_spec
      in if result \<noteq> SIM_RESULT_OK then Inl result
         else
           let runtime = sim_runtime_state_init zero_runtime;
               (result, integrators) = sim_integrator_state_init heap factories
           in if result \<noteq> SIM_RESULT_OK then Inl result
              else
                let (result, scheduler) = sim_scheduler_plan_init
                in if result \<noteq> SIM_RESULT_OK then Inl result
                   else Inr
                     \<lparr>cx_world = world, cx_runtime = runtime, cx_scheduler = scheduler,
                      cx_integrators = integrators, cx_diag = default_diagnostics,
                      cx_profiler = zero_profiler, cx_profiler_ready = False,
                      cx_base_seed = SIM_SEED_DEFAULT,
                      cx_representation_mode = Named SIM_REPRESENTATION_MODE_RELAXED,
                      cx_memory_limits = sim_context_memory_limits_default,
                      cx_bytes_fields_in_use = 0, cx_bytes_scratch_in_use = 0, cx_bytes_total_in_use = 0,
                      cx_continuity_override_enabled = False,
                      cx_continuity_override = sim_operator_config_defaults,
                      cx_preferences = default_preferences,
                      cx_log_fn = None, cx_log_userdata = None\<rparr>)"

definition sim_context_init :: "heap \<Rightarrow> nat list \<Rightarrow> SimResult + SimContext" where
  "sim_context_init heap factories = sim_context_init_with_universe heap factories None"

definition sim_context_destroy :: "SimContext \<Rightarrow> SimContext \<times> destroy_call list" where
  "sim_context_destroy c =
     (let (world, calls) = sim_world_destroy (cx_world c);
          scheduler = sim_scheduler_plan_destroy (cx_scheduler c)
      in (c\<lparr>cx_scheduler := scheduler\<lparr>sp_plan_valid := False, sp_backend := None\<rparr>,
            cx_integrators := sim_integrator_state_destroy (cx_integrators c),
            cx_profiler := (if cx_profiler_ready c then sim_profiler_destroy (cx_profiler c) else cx_profiler c),
            cx_profiler_ready := False,
            cx_runtime := sim_runtime_state_destroy (cx_runtime c),
            cx_world := world,
            cx_diag := sim_context_reset_kernel_dispatch_diag
              (clear_faults ((cx_diag c)\<lparr>dg_fallback_user := None, dg_fallback_userdata := None\<rparr>)),
            cx_bytes_fields_in_use := 0, cx_bytes_scratch_in_use := 0, cx_bytes_total_in_use := 0\<rparr>,
          calls))"

section \<open>Settings\<close>

definition sim_context_set_seed :: "u64 \<Rightarrow> SimContext \<Rightarrow> SimContext" where
  "sim_context_set_seed seed c = c\<lparr>cx_base_seed := sim_seed_normalize seed\<rparr>"

definition sim_context_seed :: "SimContext option \<Rightarrow> u64" where
  "sim_context_seed context =
     (case context of None \<Rightarrow> SIM_SEED_DEFAULT | Some c \<Rightarrow> sim_seed_normalize (cx_base_seed c))"

definition sim_context_representation_mode_normalize :: "SimRepresentationMode c_enum \<Rightarrow> SimRepresentationMode c_enum" where
  "sim_context_representation_mode_normalize mode =
     (case mode of Named _ \<Rightarrow> mode | Unnamed _ \<Rightarrow> Named SIM_REPRESENTATION_MODE_RELAXED)"

definition sim_context_set_representation_mode :: "SimRepresentationMode c_enum \<Rightarrow> SimContext \<Rightarrow> SimContext" where
  "sim_context_set_representation_mode mode c =
     c\<lparr>cx_representation_mode := sim_context_representation_mode_normalize mode\<rparr>"

definition sim_context_representation_mode :: "SimContext option \<Rightarrow> SimRepresentationMode c_enum" where
  "sim_context_representation_mode context =
     (case context of
        None \<Rightarrow> Named SIM_REPRESENTATION_MODE_RELAXED
      | Some c \<Rightarrow> sim_context_representation_mode_normalize (cx_representation_mode c))"

definition sim_context_set_logger :: "nat option \<Rightarrow> nat option \<Rightarrow> SimContext \<Rightarrow> SimContext" where
  "sim_context_set_logger log_fn userdata c = c\<lparr>cx_log_fn := log_fn, cx_log_userdata := userdata\<rparr>"

definition sim_context_set_backend :: "SimBackend option \<Rightarrow> SimContext \<Rightarrow> SimContext" where
  "sim_context_set_backend backend c = c\<lparr>cx_scheduler := (cx_scheduler c)\<lparr>sp_backend := backend\<rparr>\<rparr>"

definition sim_context_backend :: "SimContext option \<Rightarrow> SimBackend option" where
  "sim_context_backend context = (case context of None \<Rightarrow> None | Some c \<Rightarrow> sp_backend (cx_scheduler c))"

definition sim_context_allows_determinism_mode :: "SimRepresentationMode c_enum \<Rightarrow> u32 \<Rightarrow> bool" where
  "sim_context_allows_determinism_mode mode flags =
     (if flags = SIM_DET_NONE then mode \<noteq> Named SIM_REPRESENTATION_MODE_STRICT
      else
        let relaxed = SIM_DET_NO_STATEFUL_NODES OR SIM_DET_DETERMINISTIC_RNG_ONLY
        in (case mode of
              Named SIM_REPRESENTATION_MODE_STRICT \<Rightarrow>
                let required = SIM_DET_PURE_TIME OR SIM_DET_REWIND_SAFE OR relaxed in flags AND required = required
            | Named SIM_REPRESENTATION_MODE_EXPLORATION \<Rightarrow> True
            | _ \<Rightarrow> flags AND relaxed = relaxed))"

definition sim_context_allows_determinism :: "SimContext option \<Rightarrow> u32 \<Rightarrow> bool" where
  "sim_context_allows_determinism context flags =
     (case context of
        None \<Rightarrow> False
      | Some _ \<Rightarrow> sim_context_allows_determinism_mode (sim_context_representation_mode context) flags)"

definition sim_context_kernel_allowed_mode ::
  "SimContext option \<Rightarrow> SimRepresentationMode c_enum \<Rightarrow> u64 \<Rightarrow> u32 \<Rightarrow> bool" where
  "sim_context_kernel_allowed_mode context mode required_features determinism_flags =
     (case context of
        None \<Rightarrow> False
      | Some c \<Rightarrow>
          let mode = sim_context_representation_mode_normalize mode
          in (case sim_context_backend context of
                None \<Rightarrow> False
              | Some backend \<Rightarrow>
                  if required_features \<noteq> 0 \<and> bk_features backend AND required_features \<noteq> required_features
                  then False
                  else sim_context_allows_determinism_mode mode determinism_flags))"

definition sim_context_kernel_allowed :: "SimContext option \<Rightarrow> u64 \<Rightarrow> u32 \<Rightarrow> bool" where
  "sim_context_kernel_allowed context required_features determinism_flags =
     (case context of
        None \<Rightarrow> False
      | Some _ \<Rightarrow> sim_context_kernel_allowed_mode context (sim_context_representation_mode context)
                    required_features determinism_flags)"

section \<open>Memory\<close>

definition sim_context_add_size :: "size_t \<Rightarrow> size_t \<Rightarrow> size_t option" where
  "sim_context_add_size a b = (if a > size_max - b then None else Some (a + b))"

definition sim_context_set_memory_limits :: "SimContextMemoryLimits \<Rightarrow> SimContext \<Rightarrow> SimContext" where
  "sim_context_set_memory_limits limits c = c\<lparr>cx_memory_limits := limits\<rparr>"

definition sim_context_get_memory_limits :: "SimContext \<Rightarrow> SimContextMemoryLimits" where
  "sim_context_get_memory_limits c = cx_memory_limits c"

definition sim_context_memory_usage :: "SimContext \<Rightarrow> size_t \<times> size_t \<times> size_t" where
  "sim_context_memory_usage c =
     (cx_bytes_fields_in_use c, cx_bytes_scratch_in_use c, cx_bytes_total_in_use c)"

definition sim_context_check_field_limits :: "SimContext option \<Rightarrow> size_t \<Rightarrow> size_t \<Rightarrow> SimResult" where
  "sim_context_check_field_limits context element_count field_bytes =
     (case context of
        None \<Rightarrow> SIM_RESULT_INVALID_ARGUMENT
      | Some c \<Rightarrow>
          let limits = cx_memory_limits c
          in if element_count = 0 \<or> field_bytes = 0 then SIM_RESULT_INVALID_ARGUMENT
             else if ml_max_field_elements limits > 0 \<and> element_count > ml_max_field_elements limits
               then SIM_RESULT_OUT_OF_MEMORY
             else if ml_max_field_bytes limits > 0 \<and> field_bytes > ml_max_field_bytes limits
               then SIM_RESULT_OUT_OF_MEMORY
             else if ml_max_fields limits > 0 \<and>
                     word_of_nat (length (w_fields (cx_world c))) \<ge> ml_max_fields limits
               then SIM_RESULT_OUT_OF_MEMORY
             else if ml_max_total_field_bytes limits > 0
               then (if field_bytes > ml_max_total_field_bytes limits then SIM_RESULT_OUT_OF_MEMORY
                     else if cx_bytes_fields_in_use c > ml_max_total_field_bytes limits - field_bytes
                       then SIM_RESULT_OUT_OF_MEMORY
                     else SIM_RESULT_OK)
             else if cx_bytes_fields_in_use c > size_max - field_bytes then SIM_RESULT_OUT_OF_MEMORY
             else SIM_RESULT_OK)"

definition sim_context_reserve_scratch :: "SimContext \<Rightarrow> size_t \<Rightarrow> SimResult \<times> SimContext" where
  "sim_context_reserve_scratch c bytes =
     (if bytes = 0 then (SIM_RESULT_OK, c)
      else (case sim_context_add_size (cx_bytes_scratch_in_use c) bytes of
              None \<Rightarrow> (SIM_RESULT_OUT_OF_MEMORY, c)
            | Some new_scratch \<Rightarrow>
                (case sim_context_add_size (cx_bytes_fields_in_use c) new_scratch of
                   None \<Rightarrow> (SIM_RESULT_OUT_OF_MEMORY, c)
                 | Some new_total \<Rightarrow>
                     (SIM_RESULT_OK, c\<lparr>cx_bytes_scratch_in_use := new_scratch, cx_bytes_total_in_use := new_total\<rparr>))))"

definition sim_context_release_scratch :: "SimContext \<Rightarrow> size_t \<Rightarrow> SimContext" where
  "sim_context_release_scratch c bytes =
     (if bytes = 0 then c
      else
        let scratch = (if bytes \<ge> cx_bytes_scratch_in_use c then 0 else cx_bytes_scratch_in_use c - bytes);
            total = (case sim_context_add_size (cx_bytes_fields_in_use c) scratch of
                       None \<Rightarrow> size_max | Some new_total \<Rightarrow> new_total)
        in c\<lparr>cx_bytes_scratch_in_use := scratch, cx_bytes_total_in_use := total\<rparr>)"

section \<open>Fields\<close>

text \<open>
  The slot of a field that is added. The visual, phase-portrait and waveform caches of the slot are left as
  they are; \<open>topology\<close> is what \<^verbatim>\<open>sim_field_topology_runtime_init\<close> writes.
\<close>

definition reset_slot :: "cell \<Rightarrow> f64 \<Rightarrow> field_slot \<Rightarrow> field_slot" where
  "reset_slot topology time s =
     s\<lparr>fs_dirty_count := 0, fs_stable_count := 0, fs_phase_ema := 0, fs_phase_last_time := time,
       fs_phase_lock_state := 0, fs_phase_initialized := 0, fs_stats_cache := [],
       fs_stats_cache_step_index := size_max, fs_topology_cache := topology, fs_health_nan_count := 0,
       fs_health_inf_count := 0, fs_health_cache_step_index := size_max, fs_drift_stats := [],
       fs_drift_stats_valid := False, fs_drift_stats_requested := False, fs_snapshot := None,
       fs_snapshot_capacity := 0, fs_snapshot_count := 0, fs_snapshot_step_index := 0,
       fs_snapshot_valid := False, fs_snapshot_requested := False\<rparr>"

text \<open>The caller's field after its contents moved.\<close>

definition moved_field :: "SimField \<Rightarrow> SimField" where
  "moved_field f =
     f\<lparr>f_data := None,
       f_layout := (f_layout f)\<lparr>lay_shape := None, lay_strides := None, lay_rank := 0\<rparr>,
       f_element_size := 0, f_owns_data := False,
       f_allocator := \<lparr>al_allocate = None, al_release = False\<rparr>,
       f_storage := SIM_FIELD_STORAGE_ROW_MAJOR, f_magic := 0\<rparr>"

text \<open>
  The result, the context, the caller's field and the index written on success; \<open>None\<close> where a loop that
  doubles a capacity does not end.
\<close>

definition sim_context_add_field ::
  "heap \<Rightarrow> cell \<Rightarrow> SimContext \<Rightarrow> SimField option \<Rightarrow>
   (SimResult \<times> SimContext \<times> SimField option \<times> nat option) option" where
  "sim_context_add_field heap topology c field =
     (case field of
        None \<Rightarrow> Some (SIM_RESULT_INVALID_ARGUMENT, c, field, None)
      | Some f \<Rightarrow>
          if f_data f = None \<or> f_element_size f = 0 then Some (SIM_RESULT_INVALID_ARGUMENT, c, field, None)
          else
            let element_count = sim_field_element_count (f_layout f);
                field_bytes = sim_field_bytes field
            in if element_count = 0 \<or> field_bytes = 0 then Some (SIM_RESULT_INVALID_ARGUMENT, c, field, None)
               else
                 let result = sim_context_check_field_limits (Some c) element_count field_bytes
                 in if result \<noteq> SIM_RESULT_OK then Some (result, c, field, None)
                    else (case sim_context_add_size (cx_bytes_fields_in_use c) field_bytes of
                      None \<Rightarrow> Some (SIM_RESULT_OUT_OF_MEMORY, c, field, None)
                    | Some next_fields \<Rightarrow>
                        (case sim_context_add_size next_fields (cx_bytes_scratch_in_use c) of
                          None \<Rightarrow> Some (SIM_RESULT_OUT_OF_MEMORY, c, field, None)
                        | Some next_total \<Rightarrow>
                            (case sim_world_reserve_fields heap (cx_world c) 1 of
                              None \<Rightarrow> None
                            | Some (result, world) \<Rightarrow>
                                let c = c\<lparr>cx_world := world\<rparr>
                                in if result \<noteq> SIM_RESULT_OK then Some (result, c, field, None)
                                   else (case sim_runtime_state_ensure_continuity_capacity heap topology
                                                (cx_runtime c) (word_of_nat (length (w_fields world)) + 1) of
                                     None \<Rightarrow> None
                                   | Some (result, rs) \<Rightarrow>
                                       let c = c\<lparr>cx_runtime := rs\<rparr>
                                       in if result \<noteq> SIM_RESULT_OK then Some (result, c, field, None)
                                          else
                                            let index = length (w_fields world);
                                                rs = rs\<lparr>rs_slots := (rs_slots rs)[index :=
                                                           reset_slot topology (rs_time_accumulated rs)
                                                             (rs_slots rs ! index)],
                                                        rs_drift_field_stats_step_index := size_max\<rparr>
                                            in Some (SIM_RESULT_OK,
                                                 c\<lparr>cx_world := world\<lparr>w_fields := w_fields world @ [f]\<rparr>,
                                                   cx_runtime := rs,
                                                   cx_scheduler := sim_scheduler_plan_invalidate (cx_scheduler c),
                                                   cx_bytes_fields_in_use := next_fields,
                                                   cx_bytes_total_in_use := next_total\<rparr>,
                                                 Some (moved_field f), Some index))))))"

definition sim_context_field :: "SimContext \<Rightarrow> nat \<Rightarrow> SimField option" where
  "sim_context_field c index =
     (if index \<ge> length (w_fields (cx_world c)) then None else Some (w_fields (cx_world c) ! index))"

definition sim_context_field_count :: "SimContext option \<Rightarrow> nat" where
  "sim_context_field_count context = (case context of None \<Rightarrow> 0 | Some c \<Rightarrow> length (w_fields (cx_world c)))"

definition sim_context_truncation_level :: "SimContext option \<Rightarrow> size_t" where
  "sim_context_truncation_level context =
     (case context of None \<Rightarrow> SIM_WORLD_DEFAULT_K | Some c \<Rightarrow> uv_K (w_universe (cx_world c)))"

definition sim_context_epsilon :: "SimContext option \<Rightarrow> f64" where
  "sim_context_epsilon context =
     (case context of None \<Rightarrow> SIM_WORLD_DEFAULT_EPSILON | Some c \<Rightarrow> uv_epsilon (w_universe (cx_world c)))"

definition sim_context_poles :: "SimContext option \<Rightarrow> SimPole list option \<times> size_t" where
  "sim_context_poles context =
     (case context of
        None \<Rightarrow> (None, 0)
      | Some c \<Rightarrow> (uv_poles (w_universe (cx_world c)), uv_pole_count (w_universe (cx_world c))))"

section \<open>Time and drift evaluation\<close>

definition sim_context_set_timestep :: "f64 \<Rightarrow> SimContext \<Rightarrow> SimContext" where
  "sim_context_set_timestep dt c =
     c\<lparr>cx_runtime := (cx_runtime c)\<lparr>rs_dt := (if f64_less f64_zero dt then dt else SIM_RUNTIME_DEFAULT_DT)\<rparr>\<rparr>"

definition sim_context_timestep :: "SimContext option \<Rightarrow> f64" where
  "sim_context_timestep context =
     (case context of
        None \<Rightarrow> SIM_RUNTIME_DEFAULT_DT
      | Some c \<Rightarrow> if f64_le (rs_dt (cx_runtime c)) f64_zero then SIM_RUNTIME_DEFAULT_DT else rs_dt (cx_runtime c))"

definition sim_context_set_time_model :: "SimTimeModel \<Rightarrow> SimContext \<Rightarrow> SimContext" where
  "sim_context_set_time_model model c = c\<lparr>cx_runtime := (cx_runtime c)\<lparr>rs_time_model := model\<rparr>\<rparr>"

definition sim_context_begin_drift :: "SimContext \<Rightarrow> SimContext" where
  "sim_context_begin_drift c =
     (let rs = cx_runtime c
      in if rs_drift_mode_depth rs < - 1
         then c\<lparr>cx_runtime := rs\<lparr>rs_drift_mode_depth := rs_drift_mode_depth rs + 1\<rparr>\<rparr> else c)"

definition sim_context_end_drift :: "SimContext \<Rightarrow> SimContext" where
  "sim_context_end_drift c =
     (let rs = cx_runtime c
      in if rs_drift_mode_depth rs > 0
         then
           let rs = rs\<lparr>rs_drift_mode_depth := rs_drift_mode_depth rs - 1\<rparr>
           in c\<lparr>cx_runtime := (if rs_drift_mode_depth rs = 0
                               then rs\<lparr>rs_drift_time_override_active := False, rs_drift_time_override := f64_zero\<rparr>
                               else rs)\<rparr>
         else c)"

definition sim_context_in_drift :: "SimContext option \<Rightarrow> bool" where
  "sim_context_in_drift context =
     (case context of None \<Rightarrow> False | Some c \<Rightarrow> rs_drift_mode_depth (cx_runtime c) > 0)"

definition sim_context_set_drift_time_override :: "f64 \<Rightarrow> SimContext \<Rightarrow> SimContext" where
  "sim_context_set_drift_time_override time_value c =
     (if rs_drift_mode_depth (cx_runtime c) = 0 then c
      else c\<lparr>cx_runtime := (cx_runtime c)\<lparr>rs_drift_time_override := time_value,
                                           rs_drift_time_override_active := True\<rparr>\<rparr>)"

definition sim_context_clear_drift_time_override :: "SimContext \<Rightarrow> SimContext" where
  "sim_context_clear_drift_time_override c =
     c\<lparr>cx_runtime := (cx_runtime c)\<lparr>rs_drift_time_override_active := False, rs_drift_time_override := f64_zero\<rparr>\<rparr>"

definition sim_context_step_index :: "SimContext option \<Rightarrow> size_t" where
  "sim_context_step_index context = (case context of None \<Rightarrow> 0 | Some c \<Rightarrow> rs_step_index (cx_runtime c))"

definition sim_context_time :: "SimContext option \<Rightarrow> f64" where
  "sim_context_time context =
     (case context of
        None \<Rightarrow> f64_zero
      | Some c \<Rightarrow>
          if rs_drift_time_override_active (cx_runtime c) then rs_drift_time_override (cx_runtime c)
          else rs_time_accumulated (cx_runtime c))"

text \<open>\<open>flux\<close> is \<^verbatim>\<open>flux_lens_update\<close>, which is not modelled.\<close>

definition sim_context_accept_step :: "fpu \<Rightarrow> (SimContext \<Rightarrow> SimContext) \<Rightarrow> f64 \<Rightarrow> SimContext \<Rightarrow> SimContext" where
  "sim_context_accept_step m flux accepted_dt c =
     (let invalid = (\<lambda>dt. \<not> f64_less f64_zero dt \<or> \<not> f64_isfinite dt);
          dt = accepted_dt;
          dt = (if invalid dt then sim_context_timestep (Some c) else dt);
          dt = (if invalid dt then SIM_RUNTIME_DEFAULT_DT else dt);
          rs = cx_runtime c
      in flux (c\<lparr>cx_runtime := rs\<lparr>rs_step_index := rs_step_index rs + 1,
                                   rs_time_accumulated := fp_add m (rs_time_accumulated rs) dt\<rparr>\<rparr>))"

section \<open>Continuity counters\<close>

text \<open>\<^verbatim>\<open>CONTINUITY_MASK_WIDTH\<close>.\<close>

definition continuity_mask_width :: nat where "continuity_mask_width = 64"

definition map_slots :: "nat \<Rightarrow> (field_slot \<Rightarrow> field_slot) \<Rightarrow> SimRuntimeState \<Rightarrow> SimRuntimeState" where
  "map_slots count f rs = rs\<lparr>rs_slots := map f (take count (rs_slots rs)) @ drop count (rs_slots rs)\<rparr>"

definition sim_context_reset_continuity_counters :: "SimContext \<Rightarrow> SimContext" where
  "sim_context_reset_continuity_counters c =
     c\<lparr>cx_runtime := (map_slots (length (w_fields (cx_world c)))
          (\<lambda>s. s\<lparr>fs_dirty_count := 0, fs_stable_count := 0\<rparr>) (cx_runtime c))\<lparr>rs_current_step_warp_mask := 0\<rparr>\<rparr>"

definition sim_context_field_continuity_counts :: "SimContext option \<Rightarrow> nat \<Rightarrow> u64 \<times> u64" where
  "sim_context_field_continuity_counts context field_index =
     (case context of
        None \<Rightarrow> (0, 0)
      | Some c \<Rightarrow>
          if field_index \<ge> length (w_fields (cx_world c)) \<or> rs_slots (cx_runtime c) = [] then (0, 0)
          else let s = rs_slots (cx_runtime c) ! field_index in (fs_dirty_count s, fs_stable_count s))"

definition stabilized_mode :: "SimContinuityMode c_enum \<Rightarrow> bool" where
  "stabilized_mode mode \<longleftrightarrow> mode = Named SIM_CONTINUITY_CLAMPED \<or> mode = Named SIM_CONTINUITY_LIMITED"

definition dirty_mode :: "SimContinuityMode c_enum \<Rightarrow> bool" where
  "dirty_mode mode \<longleftrightarrow> mode = Named SIM_CONTINUITY_NONE \<or> mode = Named SIM_CONTINUITY_STRICT"

text \<open>The loop that shifts the mask reaches the bits of the fields among the first 64, in ascending order.\<close>

definition hit_slot :: "bool \<Rightarrow> field_slot \<Rightarrow> field_slot" where
  "hit_slot stabilized s =
     (if stabilized then s\<lparr>fs_stable_count := fs_stable_count s + 1\<rparr> else s\<lparr>fs_dirty_count := fs_dirty_count s + 1\<rparr>)"

definition sim_context_record_continuity_hit :: "SimContext \<Rightarrow> SimOperatorEntry \<Rightarrow> SimContext" where
  "sim_context_record_continuity_hit c op =
     (let m = op_write_mask op;
          mode = cf_continuity (op_config op)
      in if w_fields (cx_world c) = [] \<or> rs_slots (cx_runtime c) = [] \<or> m = 0 \<or>
            (\<not> stabilized_mode mode \<and> \<not> dirty_mode mode) then c
         else c\<lparr>cx_runtime := (cx_runtime c)\<lparr>rs_slots :=
                fold (\<lambda>i slots. if bit m i \<and> i < length (w_fields (cx_world c))
                               then slots[i := hit_slot (stabilized_mode mode) (slots ! i)] else slots)
                  [0..<continuity_mask_width] (rs_slots (cx_runtime c))\<rparr>\<rparr>)"

definition sim_context_accumulate_continuity_totals :: "SimContext option \<Rightarrow> u64 \<times> u64" where
  "sim_context_accumulate_continuity_totals context =
     (case context of
        None \<Rightarrow> (0, 0)
      | Some c \<Rightarrow>
          let count = length (w_fields (cx_world c));
              capacity = unat (rs_continuity_capacity (cx_runtime c));
              limit = (if capacity < count then capacity else count);
              slots = take limit (rs_slots (cx_runtime c))
          in (fold (\<lambda>s dirty. dirty + fs_dirty_count s) slots 0,
              fold (\<lambda>s stable. stable + fs_stable_count s) slots 0))"

fun warp_level_int :: "SimWarpLevel \<Rightarrow> nat" where
  "warp_level_int SIM_WARP_LEVEL_NONE = 0"
| "warp_level_int SIM_WARP_LEVEL_LEVEL0 = 1"
| "warp_level_int SIM_WARP_LEVEL_LEVEL1 = 2"
| "warp_level_int SIM_WARP_LEVEL_LEVEL2 = 3"

definition sim_context_warp_level_bit :: "SimWarpLevel \<Rightarrow> u32" where
  "sim_context_warp_level_bit level = (if level = SIM_WARP_LEVEL_NONE then 0 else push_bit (warp_level_int level) 1)"

definition sim_context_active_warp_mask :: "SimContext option \<Rightarrow> u32" where
  "sim_context_active_warp_mask context =
     (case context of None \<Rightarrow> 0 | Some c \<Rightarrow> rs_current_step_warp_mask (cx_runtime c))"

section \<open>Integrators\<close>

definition sim_context_set_integrator :: "nat option \<Rightarrow> SimContext \<Rightarrow> SimContext" where
  "sim_context_set_integrator integrator c =
     c\<lparr>cx_integrators := sim_integrator_state_set_active integrator (cx_integrators c)\<rparr>"

definition sim_context_integrator :: "SimContext option \<Rightarrow> nat option" where
  "sim_context_integrator context =
     (case context of None \<Rightarrow> None | Some c \<Rightarrow> sim_integrator_state_active (Some (cx_integrators c)))"

definition sim_context_set_integrator_sequence ::
  "heap \<Rightarrow> SimContext option \<Rightarrow> nat option list option \<Rightarrow> SimResult \<times> SimContext option" where
  "sim_context_set_integrator_sequence heap context integrators =
     (case context of
        None \<Rightarrow> (SIM_RESULT_INVALID_ARGUMENT, None)
      | Some c \<Rightarrow>
          let (result, state) = sim_integrator_state_set_sequence heap integrators (cx_integrators c)
          in (result, Some (c\<lparr>cx_integrators := state\<rparr>)))"

definition sim_context_integrator_sequence_count :: "SimContext option \<Rightarrow> nat" where
  "sim_context_integrator_sequence_count context =
     (case context of
        None \<Rightarrow> 0
      | Some c \<Rightarrow> (case sim_integrator_state_sequence (Some (cx_integrators c)) of None \<Rightarrow> 0 | Some s \<Rightarrow> length s))"

definition sim_context_integrator_sequence_at :: "SimContext option \<Rightarrow> nat \<Rightarrow> nat option" where
  "sim_context_integrator_sequence_at context index =
     (case context of
        None \<Rightarrow> None
      | Some c \<Rightarrow>
          (case sim_integrator_state_sequence (Some (cx_integrators c)) of
             None \<Rightarrow> None
           | Some s \<Rightarrow> if index \<ge> length s then None else Some (s ! index)))"

text \<open>The members of an integrator the context reads and writes; \<open>fbs\<close> holds the feedback of each.\<close>

record integrator_usage =
  iu_workspace_bytes :: u64
  iu_drift_scratch_bytes :: u64
  iu_last_attempt_count :: u32
  iu_last_rejection_count :: u32

definition no_usage :: integrator_usage where
  "no_usage = \<lparr>iu_workspace_bytes = 0, iu_drift_scratch_bytes = 0, iu_last_attempt_count = 0, iu_last_rejection_count = 0\<rparr>"

record split_feedback =
  fb_dt :: f64
  fb_max_error :: f64
  fb_substeps :: u32

definition sim_split_notify_integrator ::
  "fpu \<Rightarrow> SimContext \<Rightarrow> f64 \<Rightarrow> f64 \<Rightarrow> (nat \<Rightarrow> split_feedback) \<Rightarrow> nat \<Rightarrow> split_feedback" where
  "sim_split_notify_integrator m c dt_sub error_estimate fbs =
     (case (case sim_integrator_state_stepping (Some (cx_integrators c)) of
              Some i \<Rightarrow> Some i
            | None \<Rightarrow> sim_integrator_state_active (Some (cx_integrators c))) of
        None \<Rightarrow> fbs
      | Some i \<Rightarrow>
          let dt_sub = (if \<not> f64_isfinite dt_sub \<or> \<not> f64_less f64_zero dt_sub
                        then sim_context_timestep (Some c) else dt_sub);
              fb = fbs i;
              fb = (if f64_less f64_zero dt_sub then fb\<lparr>fb_dt := fp_add m (fb_dt fb) dt_sub\<rparr> else fb);
              fb = (if f64_le f64_zero error_estimate \<and> f64_less (fb_max_error fb) error_estimate
                    then fb\<lparr>fb_max_error := error_estimate\<rparr> else fb);
              fb = (if fb_substeps fb < - 1 then fb\<lparr>fb_substeps := fb_substeps fb + 1\<rparr> else fb)
          in fbs(i := fb))"

section \<open>Step metrics\<close>

text \<open>\<open>usage\<close> is what an integrator reports.\<close>

definition sim_context_record_step_metrics_with_timing ::
  "(nat \<Rightarrow> integrator_usage) \<Rightarrow> SimContext \<Rightarrow> f64 \<Rightarrow> f64 \<Rightarrow> f64 \<Rightarrow> u64 \<Rightarrow> u64 \<Rightarrow> u64 \<Rightarrow> SimContext" where
  "sim_context_record_step_metrics_with_timing usage c requested_dt accepted_dt rms_error
       step_wall_ns integrator_wall_ns operator_wall_ns =
     (if sim_context_in_drift (Some c) then c
      else
        let rs = cx_runtime c;
            u = (case sim_context_integrator (Some c) of None \<Rightarrow> no_usage | Some i \<Rightarrow> usage i);
            requested = (if f64_less f64_zero requested_dt then requested_dt else sim_context_timestep (Some c));
            (dirty, stable) = sim_context_accumulate_continuity_totals (Some c);
            metrics =
              \<lparr>sm_step_index = (if rs_step_index rs > 0 then rs_step_index rs - 1 else 0),
               sm_requested_dt = requested,
               sm_accepted_dt = (if f64_less f64_zero accepted_dt then accepted_dt else requested),
               sm_next_dt = sim_context_timestep (Some c),
               sm_rms_error = (if f64_le f64_zero rms_error then rms_error else f64_zero),
               sm_step_wall_ns = step_wall_ns,
               sm_integrator_wall_ns = integrator_wall_ns,
               sm_operator_wall_ns = operator_wall_ns,
               sm_dirty_write_count = dirty,
               sm_stable_write_count = stable,
               sm_integrator_workspace_bytes = iu_workspace_bytes u,
               sm_integrator_drift_scratch_bytes = iu_drift_scratch_bytes u,
               sm_integrator_attempt_count = iu_last_attempt_count u,
               sm_integrator_rejection_count = iu_last_rejection_count u,
               sm_active_warp_mask = sim_context_active_warp_mask (Some c)\<rparr>
        in c\<lparr>cx_runtime := sim_runtime_state_record_step_metrics (Some metrics) rs\<rparr>)"

definition sim_context_record_step_metrics ::
  "(nat \<Rightarrow> integrator_usage) \<Rightarrow> SimContext \<Rightarrow> f64 \<Rightarrow> f64 \<Rightarrow> f64 \<Rightarrow> SimContext" where
  "sim_context_record_step_metrics usage c requested_dt accepted_dt rms_error =
     sim_context_record_step_metrics_with_timing usage c requested_dt accepted_dt rms_error 0 0 0"

definition sim_context_latest_step_metrics :: "SimContext option \<Rightarrow> SimStepMetrics option" where
  "sim_context_latest_step_metrics context =
     (case context of None \<Rightarrow> None | Some c \<Rightarrow> sim_runtime_state_latest_step_metrics (cx_runtime c))"

definition sim_context_step_metrics_history :: "SimContext option \<Rightarrow> nat \<Rightarrow> SimStepMetrics list" where
  "sim_context_step_metrics_history context capacity =
     (case context of None \<Rightarrow> [] | Some c \<Rightarrow> sim_runtime_state_copy_step_metrics (cx_runtime c) capacity)"

definition sim_context_profiler_counters :: "SimContext option \<Rightarrow> nat \<Rightarrow> SimProfilerCounter list" where
  "sim_context_profiler_counters context capacity =
     (case context of
        None \<Rightarrow> []
      | Some c \<Rightarrow> if \<not> cx_profiler_ready c then [] else take capacity (pf_counters (cx_profiler c)))"

definition sim_context_profiler_snapshot :: "fpu \<Rightarrow> SimContext option \<Rightarrow> SimProfilerSnapshot option" where
  "sim_context_profiler_snapshot m context =
     (case context of
        None \<Rightarrow> None
      | Some c \<Rightarrow>
          if \<not> cx_profiler_ready c then None
          else (case sim_profiler_snapshot m (cx_profiler c) of Inl _ \<Rightarrow> None | Inr s \<Rightarrow> Some s))"

section \<open>Continuity override\<close>

definition sim_context_apply_override_to_operator :: "SimContext \<Rightarrow> SimOperatorEntry \<Rightarrow> SimOperatorEntry" where
  "sim_context_apply_override_to_operator c op = sim_operator_config_set op (Some (cx_continuity_override c))"

definition map_operators :: "(SimOperatorEntry \<Rightarrow> SimOperatorEntry) \<Rightarrow> SimContext \<Rightarrow> SimContext" where
  "map_operators f c =
     c\<lparr>cx_world := (cx_world c)\<lparr>w_operators := (w_operators (cx_world c))
         \<lparr>rg_records := map f (rg_records (w_operators (cx_world c)))\<rparr>\<rparr>\<rparr>"

definition sim_context_set_continuity_override :: "bool \<Rightarrow> SimOperatorConfig option \<Rightarrow> SimContext \<Rightarrow> SimContext" where
  "sim_context_set_continuity_override enabled config c =
     (let normalized = sim_operator_config_normalize
            (case config of None \<Rightarrow> sim_operator_config_defaults | Some k \<Rightarrow> k);
          c = c\<lparr>cx_continuity_override := normalized\<rparr>
      in if \<not> enabled then c\<lparr>cx_continuity_override_enabled := False\<rparr>
         else
           let c = c\<lparr>cx_continuity_override_enabled := True\<rparr>
           in map_operators (sim_context_apply_override_to_operator c) c)"

text \<open>
  The override in force is normalized, so its boundary has a name; the builder is reset and returned.
\<close>

definition sim_context_ir_builder :: "SimContext \<Rightarrow> SimContext" where
  "sim_context_ir_builder c =
     (let builder = sim_ir_builder_reset (Some (sp_ir_builder (cx_scheduler c)));
          builder = (case cf_boundary (cx_continuity_override c) of
                       Named boundary \<Rightarrow> sim_ir_builder_set_default_boundary builder boundary
                     | Unnamed _ \<Rightarrow> builder)
      in c\<lparr>cx_scheduler := (cx_scheduler c)\<lparr>sp_ir_builder := the builder\<rparr>\<rparr>)"

section \<open>Preferences\<close>

definition sim_context_set_preferred_visual_mode :: "int \<Rightarrow> SimContext \<Rightarrow> SimContext" where
  "sim_context_set_preferred_visual_mode mode c =
     c\<lparr>cx_preferences := (cx_preferences c)\<lparr>gp_visual_mode := mode\<rparr>\<rparr>"

definition sim_context_set_preferred_phase_mode :: "int \<Rightarrow> SimContext \<Rightarrow> SimContext" where
  "sim_context_set_preferred_phase_mode mode c =
     c\<lparr>cx_preferences := (cx_preferences c)\<lparr>gp_phase_mode := mode\<rparr>\<rparr>"

definition sim_context_preferred_visual_mode :: "SimContext option \<Rightarrow> int" where
  "sim_context_preferred_visual_mode context =
     (case context of None \<Rightarrow> -1 | Some c \<Rightarrow> gp_visual_mode (cx_preferences c))"

definition sim_context_preferred_phase_mode :: "SimContext option \<Rightarrow> int" where
  "sim_context_preferred_phase_mode context =
     (case context of None \<Rightarrow> -1 | Some c \<Rightarrow> gp_phase_mode (cx_preferences c))"

definition sim_context_set_preferred_visual_auto_scale :: "int \<Rightarrow> SimContext \<Rightarrow> SimContext" where
  "sim_context_set_preferred_visual_auto_scale enabled c =
     c\<lparr>cx_preferences := (cx_preferences c)\<lparr>gp_visual_auto_scale :=
         (if enabled < 0 then -1 else if enabled \<noteq> 0 then 1 else 0)\<rparr>\<rparr>"

definition sim_context_preferred_visual_auto_scale :: "SimContext option \<Rightarrow> int" where
  "sim_context_preferred_visual_auto_scale context =
     (case context of None \<Rightarrow> -1 | Some c \<Rightarrow> gp_visual_auto_scale (cx_preferences c))"

definition sim_context_set_preferred_visual_scale :: "f64 \<Rightarrow> SimContext \<Rightarrow> SimContext" where
  "sim_context_set_preferred_visual_scale scale c =
     c\<lparr>cx_preferences := (cx_preferences c)\<lparr>gp_visual_scale :=
         (if \<not> f64_isfinite scale \<or> f64_le scale f64_zero then f64_minus_one else scale)\<rparr>\<rparr>"

definition sim_context_preferred_visual_scale :: "SimContext option \<Rightarrow> f64" where
  "sim_context_preferred_visual_scale context =
     (case context of None \<Rightarrow> f64_minus_one | Some c \<Rightarrow> gp_visual_scale (cx_preferences c))"

definition sim_context_set_preferred_visual_field_enabled :: "nat \<Rightarrow> bool \<Rightarrow> SimContext \<Rightarrow> SimContext" where
  "sim_context_set_preferred_visual_field_enabled field_index enabled c =
     (if field_index \<ge> SIM_CONTEXT_PREFERRED_VISUAL_FIELD_CAPACITY then c
      else
        let selected = (gp_visual_field_selected (cx_preferences c))[field_index := enabled];
            selected = (if list_ex id selected then selected else selected[0 := True])
        in c\<lparr>cx_preferences := (cx_preferences c)\<lparr>gp_visual_field_selected := selected\<rparr>\<rparr>)"

definition sim_context_preferred_visual_field_enabled :: "SimContext option \<Rightarrow> nat \<Rightarrow> bool" where
  "sim_context_preferred_visual_field_enabled context field_index =
     (case context of
        None \<Rightarrow> False
      | Some c \<Rightarrow> if field_index \<ge> SIM_CONTEXT_PREFERRED_VISUAL_FIELD_CAPACITY then False
                  else gp_visual_field_selected (cx_preferences c) ! field_index)"

section \<open>Special-function faults\<close>

text \<open>
  The operations run under the fault lock, one at a time. \<open>fallback\<close> is what the user's callback does: it
  returns its result and the value it stores through \<^verbatim>\<open>value_out\<close>, \<open>None\<close> where the caller passed none.
\<close>

definition sim_context_special_fallback_dispatch ::
  "(nat \<Rightarrow> nat option \<Rightarrow> SimSpecialEvalReport option \<Rightarrow> SimComplexDouble option \<Rightarrow> SimResult \<times> SimComplexDouble option) \<Rightarrow>
   SimContext option \<Rightarrow> SimSpecialEvalReport option \<Rightarrow> SimComplexDouble option \<Rightarrow>
   SimResult \<times> SimContext option \<times> SimComplexDouble option" where
  "sim_context_special_fallback_dispatch fallback context report value_out =
     (let context = (case (context, report) of
            (Some c, Some r) \<Rightarrow>
              let fn = (case sr_function r of None \<Rightarrow> ''<unknown>'' | Some f \<Rightarrow> if f \<noteq> [] then f else ''<unknown>'');
                  stored = take 63 fn
              in Some (c\<lparr>cx_diag := (cx_diag c)\<lparr>dg_fault_function := stored,
                     dg_fault_last := Some (r\<lparr>sr_function := Some stored\<rparr>),
                     dg_fault_count := dg_fault_count (cx_diag c) + 1\<rparr>\<rparr>)
          | _ \<Rightarrow> context)
      in (case (case context of None \<Rightarrow> None | Some c \<Rightarrow> dg_fallback_user (cx_diag c)) of
            Some user \<Rightarrow>
              let (result, v) = fallback user (dg_fallback_userdata (cx_diag (the context))) report value_out
              in (result, context, v)
          | None \<Rightarrow> (SIM_RESULT_OK, context, map_option (\<lambda>_. \<lparr>re = f64_zero, im = f64_zero\<rparr>) value_out)))"

definition sim_context_set_special_fallback :: "nat option \<Rightarrow> nat option \<Rightarrow> SimContext \<Rightarrow> SimContext" where
  "sim_context_set_special_fallback fallback userdata c =
     c\<lparr>cx_diag := (cx_diag c)\<lparr>dg_fallback_user := fallback, dg_fallback_userdata := userdata\<rparr>\<rparr>"

definition sim_context_special_fault_count :: "SimContext option \<Rightarrow> u64" where
  "sim_context_special_fault_count context = (case context of None \<Rightarrow> 0 | Some c \<Rightarrow> dg_fault_count (cx_diag c))"

definition sim_context_last_special_fault :: "SimContext option \<Rightarrow> SimSpecialEvalReport option" where
  "sim_context_last_special_fault context =
     (case context of
        None \<Rightarrow> None
      | Some c \<Rightarrow> if dg_fault_count (cx_diag c) > 0 then dg_fault_last (cx_diag c) else None)"

definition sim_context_clear_special_faults :: "SimContext \<Rightarrow> SimContext" where
  "sim_context_clear_special_faults c = c\<lparr>cx_diag := clear_faults (cx_diag c)\<rparr>"

end
