(* ===== verification/Context_Plan.thy ===== *)
theory Context_Plan
  imports Sim_Context Plan_Correct Field_Correct
begin

text \<open>
  Planning in \<^verbatim>\<open>core/src/sim_context.c\<close>: registration of operators in a context, promotion of fields to
  complex storage within the memory limits, the checks of representations, and \<^verbatim>\<open>sim_context_prepare_plan\<close>.
  The messages printed on a failed check are left out.
\<close>

section \<open>Operators\<close>

definition sim_context_operator_count :: "SimContext option \<Rightarrow> nat" where
  "sim_context_operator_count context =
     (case context of None \<Rightarrow> 0 | Some c \<Rightarrow> length (rg_records (w_operators (cx_world c))))"

definition sim_context_plan_operator_count :: "SimContext option \<Rightarrow> nat" where
  "sim_context_plan_operator_count context =
     (case context of None \<Rightarrow> 0 | Some c \<Rightarrow> plan_count (sp_plan (cx_scheduler c)))"

definition sim_context_plan_is_valid :: "SimContext option \<Rightarrow> bool" where
  "sim_context_plan_is_valid context =
     (case context of None \<Rightarrow> False | Some c \<Rightarrow> sp_plan_valid (cx_scheduler c))"

definition set_operators :: "SimOperatorRegistry \<Rightarrow> SimContext \<Rightarrow> SimContext" where
  "set_operators registry c = c\<lparr>cx_world := (cx_world c)\<lparr>w_operators := registry\<rparr>\<rparr>"

definition invalidate_plan :: "SimContext \<Rightarrow> SimContext" where
  "invalidate_plan c = c\<lparr>cx_scheduler := sim_scheduler_plan_invalidate (cx_scheduler c)\<rparr>"

text \<open>
  The registration and the context; the registry in the registration is the one of the context without
  the override. The outer \<open>option\<close> is that of the registration.
\<close>

definition sim_context_register_operator ::
  "heap \<Rightarrow> u64 \<Rightarrow> u64 \<Rightarrow> SimContext \<Rightarrow> SimOperatorDescriptor option \<Rightarrow> (registration \<times> SimContext) option" where
  "sim_context_register_operator heap epoch counter c descriptor =
     (case sim_operator_registry_register heap epoch counter (w_operators (cx_world c)) descriptor of
        None \<Rightarrow> None
      | Some rn \<Rightarrow>
          let c = set_operators (rn_registry rn) c
          in if rn_result rn \<noteq> SIM_RESULT_OK then Some (rn, c)
             else
               let c = invalidate_plan c;
                   reg = rn_registry rn;
                   assigned_index = (case rn_index rn of Some i \<Rightarrow> i | None \<Rightarrow> length (rg_records reg) - 1)
               in (case sim_operator_registry_get reg assigned_index of
                     None \<Rightarrow> Some (rn, c)
                   | Some slot \<Rightarrow>
                       if cx_continuity_override_enabled c
                       then Some (rn, set_operators (reg\<lparr>rg_records := (rg_records reg)
                              [assigned_index := sim_context_apply_override_to_operator c slot]\<rparr>) c)
                       else Some (rn, c)))"

definition sim_context_add_operator_dependency ::
  "heap \<Rightarrow> SimContext \<Rightarrow> nat \<Rightarrow> nat \<Rightarrow> SimResult \<times> SimContext" where
  "sim_context_add_operator_dependency heap c operator_index dependency_index =
     (let reg = w_operators (cx_world c);
          count = length (rg_records reg)
      in if operator_index \<ge> count \<or> dependency_index \<ge> count then (SIM_RESULT_INVALID_ARGUMENT, c)
         else if operator_index = dependency_index then (SIM_RESULT_INVALID_ARGUMENT, c)
         else (case sim_operator_registry_get reg operator_index of
                 None \<Rightarrow> (SIM_RESULT_NOT_FOUND, c)
               | Some op \<Rightarrow>
                   if dependency_index \<in> set (op_dependencies op) then (SIM_RESULT_OK, c)
                   else if \<not> malloc_ok heap ((length (op_dependencies op) + 1) * 8)
                     then (SIM_RESULT_OUT_OF_MEMORY, c)
                   else (SIM_RESULT_OK, invalidate_plan (set_operators (reg\<lparr>rg_records := (rg_records reg)
                           [operator_index := op\<lparr>op_dependencies := op_dependencies op @ [dependency_index]\<rparr>]\<rparr>) c))))"

section \<open>Complex fields\<close>

definition set_field :: "nat \<Rightarrow> SimField \<Rightarrow> SimContext \<Rightarrow> SimContext" where
  "set_field i f c = c\<lparr>cx_world := (cx_world c)\<lparr>w_fields := (w_fields (cx_world c))[i := f]\<rparr>\<rparr>"

text \<open>The counters after the promotion of a field, or the reason why it is refused.\<close>

definition promotion_counters :: "SimContext \<Rightarrow> SimField \<Rightarrow> SimResult + (size_t \<times> size_t)" where
  "promotion_counters c field =
     (let limits = cx_memory_limits c;
          element_count = sim_field_element_count (f_layout field);
          old_bytes = sim_field_bytes (Some field);
          new_bytes = element_count * 16;
          baseline_fields = cx_bytes_fields_in_use c - old_bytes
      in if element_count = 0 then Inl SIM_RESULT_INVALID_ARGUMENT
         else if element_count > size_max div 16 then Inl SIM_RESULT_OUT_OF_MEMORY
         else if ml_max_field_elements limits > 0 \<and> element_count > ml_max_field_elements limits
           then Inl SIM_RESULT_OUT_OF_MEMORY
         else if ml_max_field_bytes limits > 0 \<and> new_bytes > ml_max_field_bytes limits
           then Inl SIM_RESULT_OUT_OF_MEMORY
         else if cx_bytes_fields_in_use c < old_bytes then Inl SIM_RESULT_INVALID_STATE
         else if ml_max_total_field_bytes limits > 0 \<and>
                 (new_bytes > ml_max_total_field_bytes limits \<or>
                  baseline_fields > ml_max_total_field_bytes limits - new_bytes)
           then Inl SIM_RESULT_OUT_OF_MEMORY
         else (case sim_context_add_size baseline_fields new_bytes of
                 None \<Rightarrow> Inl SIM_RESULT_OUT_OF_MEMORY
               | Some next_fields \<Rightarrow>
                   (case sim_context_add_size next_fields (cx_bytes_scratch_in_use c) of
                      None \<Rightarrow> Inl SIM_RESULT_OUT_OF_MEMORY
                    | Some next_total \<Rightarrow> Inr (next_fields, next_total))))"

text \<open>One round of the loop: the field's result code and the context.\<close>

definition prepare_complex_field :: "heap \<Rightarrow> nat \<Rightarrow> SimContext \<Rightarrow> SimResult \<times> SimContext" where
  "prepare_complex_field heap i c =
     (let field = w_fields (cx_world c) ! i
      in if \<not> sim_field_complex_mode (Some field) \<or> sim_field_storage_is_complex (Some field)
           then (SIM_RESULT_OK, c)
         else (case promotion_counters c field of
                 Inl e \<Rightarrow> (e, c)
               | Inr (next_fields, next_total) \<Rightarrow>
                   let (promote, field') = sim_field_require_complex heap (Some field);
                       c = set_field i (the field') c
                   in if promote \<noteq> SIM_RESULT_OK then (promote, c)
                      else (SIM_RESULT_OK, c\<lparr>cx_bytes_fields_in_use := next_fields,
                                             cx_bytes_total_in_use := next_total\<rparr>)))"

fun prepare_complex_loop :: "heap \<Rightarrow> nat list \<Rightarrow> SimContext \<Rightarrow> SimResult \<times> SimContext" where
  "prepare_complex_loop heap [] c = (SIM_RESULT_OK, c)"
| "prepare_complex_loop heap (i # is) c =
     (let (result, c) = prepare_complex_field heap i c
      in if result \<noteq> SIM_RESULT_OK then (result, c) else prepare_complex_loop heap is c)"

definition sim_context_prepare_complex_fields :: "heap \<Rightarrow> SimContext \<Rightarrow> SimResult \<times> SimContext" where
  "sim_context_prepare_complex_fields heap c = prepare_complex_loop heap [0..<length (w_fields (cx_world c))] c"

section \<open>Representations\<close>

fun require_complex_domains :: "SimContext \<Rightarrow> nat list \<Rightarrow> SimResult" where
  "require_complex_domains c [] = SIM_RESULT_OK"
| "require_complex_domains c (i # is) =
     (case sim_context_field c i of
        None \<Rightarrow> SIM_RESULT_INVALID_ARGUMENT
      | Some f \<Rightarrow>
          if \<not> sim_scalar_domain_is_complex (sim_scalar_domain_from_field (Some f)) then SIM_RESULT_TYPE_MISMATCH
          else require_complex_domains c is)"

definition resolve_operator_representation :: "SimContext \<Rightarrow> SimOperatorEntry \<Rightarrow> SimResult" where
  "resolve_operator_representation c op =
     (let repr = oi_representation (op_info op);
          need_complex_inputs = or_requires_complex_input repr;
          output_is_complex = (or_value_kind repr \<noteq> Named SIM_FIELD_VALUE_REAL_SCALAR);
          need_complex_outputs = (or_requires_complex_representation repr \<or> output_is_complex);
          inputs = (if need_complex_inputs
                    then require_complex_domains c (mask_fields (op_read_mask op) @ op_read_indices op)
                    else SIM_RESULT_OK)
      in if inputs \<noteq> SIM_RESULT_OK then inputs
         else if need_complex_outputs
           then require_complex_domains c (mask_fields (op_write_mask op) @ op_write_indices op)
         else SIM_RESULT_OK)"

fun first_failure :: "('a \<Rightarrow> SimResult) \<Rightarrow> 'a list \<Rightarrow> SimResult" where
  "first_failure f [] = SIM_RESULT_OK"
| "first_failure f (x # xs) = (let rc = f x in if rc \<noteq> SIM_RESULT_OK then rc else first_failure f xs)"

definition sim_context_resolve_representations :: "SimContext \<Rightarrow> SimResult" where
  "sim_context_resolve_representations c =
     first_failure (resolve_operator_representation c) (rg_records (w_operators (cx_world c)))"

definition sim_context_validate_field_representations :: "SimContext \<Rightarrow> SimResult" where
  "sim_context_validate_field_representations c =
     first_failure (\<lambda>f. sim_field_validate_representation (Some f) (f_repr f)) (w_fields (cx_world c))"

section \<open>The plan\<close>

text \<open>\<open>None\<close> is a resolver that does not return.\<close>

definition sim_context_prepare_plan :: "heap \<Rightarrow> SimContext \<Rightarrow> (SimResult \<times> SimContext) option" where
  "sim_context_prepare_plan heap c =
     (let (result, c) = sim_context_prepare_complex_fields heap c
      in if result \<noteq> SIM_RESULT_OK then Some (result, c)
         else if sim_context_resolve_representations c \<noteq> SIM_RESULT_OK
           then Some (sim_context_resolve_representations c, c)
         else if sim_context_validate_field_representations c \<noteq> SIM_RESULT_OK
           then Some (sim_context_validate_field_representations c, c)
         else if sp_plan_valid (cx_scheduler c) then Some (SIM_RESULT_OK, c)
         else (case sim_operator_resolve_plan heap (Some (scheduled_operators (w_operators (cx_world c))))
                      (Some (sp_plan (cx_scheduler c))) of
                 None \<Rightarrow> None
               | Some (result, plan) \<Rightarrow>
                   let c = c\<lparr>cx_scheduler := (cx_scheduler c)\<lparr>sp_plan := the plan\<rparr>\<rparr>
                   in if result \<noteq> SIM_RESULT_OK then Some (result, c)
                      else Some (SIM_RESULT_OK, c\<lparr>cx_scheduler := (cx_scheduler c)\<lparr>sp_plan_valid := True\<rparr>\<rparr>)))"

end
