(* ===== verification/Context_Execute.thy ===== *)
theory Context_Execute
  imports Context_Plan
begin

text \<open>
  Execution in \<^verbatim>\<open>core/src/sim_context.c\<close>: one operator at a time in plan order, by its kernel on the backend
  of the context or by its callback; drift evaluation saves and restores the state of an operator around it.

  What the sources do not contain is in the record \<open>execution_env\<close>: the allocator, rounded arithmetic, the
  backends, the statistics of a field and the callbacks of the operators. A callback gets its handle, the
  payload, the context and the index of its operator, and returns its result and the context; it does not
  move the operator it runs for. The baseline of \<^verbatim>\<open>sim_context_capture_invariants\<close> is computed and thrown
  away, so it is left out, as are the messages of a failed operator.
\<close>

section \<open>The environment\<close>

type_synonym operator_callback = "nat \<Rightarrow> nat option \<Rightarrow> SimContext \<Rightarrow> nat \<Rightarrow> SimResult \<times> SimContext"

record execution_env =
  ee_heap :: heap
  ee_topology :: cell
  ee_fpu :: fpu
  ee_sqrt :: "f64 \<Rightarrow> f64"
  ee_impls :: backend_impls
  ee_field_stats :: "SimField \<Rightarrow> cell"
  ee_evaluate :: operator_callback
  ee_save_state :: operator_callback
  ee_restore_state :: operator_callback

definition operator_at :: "SimContext \<Rightarrow> nat \<Rightarrow> SimOperatorEntry option" where
  "operator_at c i = sim_operator_registry_get (w_operators (cx_world c)) i"

definition set_operator :: "nat \<Rightarrow> SimOperatorEntry \<Rightarrow> SimContext \<Rightarrow> SimContext" where
  "set_operator i op c =
     set_operators ((w_operators (cx_world c))\<lparr>rg_records := (rg_records (w_operators (cx_world c)))[i := op]\<rparr>) c"

definition set_fields :: "SimField list \<Rightarrow> SimContext \<Rightarrow> SimContext" where
  "set_fields fs c = c\<lparr>cx_world := (cx_world c)\<lparr>w_fields := fs\<rparr>\<rparr>"

section \<open>Kernels\<close>

text \<open>The runtime parameters, as far as the array reaches.\<close>

definition kernel_params :: "execution_env \<Rightarrow> SimContext \<Rightarrow> f64 list \<Rightarrow> f64 list" where
  "kernel_params env c params =
     (let n = length params;
          dt = sim_context_timestep (Some c);
          dt = (if f64_isfinite dt then dt else f64_zero);
          params = (if n > 0 then params[0 := dt] else params);
          params = (if n > 1 then params[1 := f64_of_int (uint (sim_context_step_index (Some c)))] else params);
          params = (if n > 2 then params[2 := (if f64_less f64_zero dt then ee_sqrt env dt else f64_zero)] else params)
      in if n > 3 then params[3 := sim_context_time (Some c)] else params)"

fun bind_fields ::
  "SimContext \<Rightarrow> (SimOperatorKernelBindingDescriptor \<times> SimKernelIRBinding) list \<Rightarrow> SimResult \<times> SimKernelIRBinding list" where
  "bind_fields c [] = (SIM_RESULT_OK, [])"
| "bind_fields c ((d, b) # rest) =
     (case sim_context_field c (bd_context_field_index d) of
        None \<Rightarrow> (SIM_RESULT_INVALID_ARGUMENT, b # map snd rest)
      | Some f \<Rightarrow>
          let (result, bs) = bind_fields c rest
          in (result, \<lparr>kb_field_index = bd_ir_field_index d, kb_field = Some (bd_context_field_index d),
                       kb_shape = sim_field_shape (Some f), kb_strides = sim_field_strides (Some f),
                       kb_rank = sim_field_rank (Some f)\<rparr> # bs))"

text \<open>The reasons to run a kernel on the CPU before the requested backend was tried, in the order of the code.\<close>

definition fallback_reason :: "SimField list \<Rightarrow> SimBackend \<Rightarrow> SimOperatorKernel \<Rightarrow> string option" where
  "fallback_reason fs requested kern =
     (if sim_kernel_requires_boundary_feature kern \<and>
         \<not> backend_supports_feature (Some requested) SIM_BACKEND_FEATURE_BOUNDARY_AWARE_DIFFS
        then Some ''boundary_diff_not_supported''
      else if sim_kernel_requires_warp_profile_fallback kern requested then Some ''warp_profile_not_supported''
      else if \<not> backend_supports_features (Some requested) (kn_required_features kern)
        then Some ''missing_backend_features''
      else sim_context_known_backend_fallback_reason fs requested kern)"

definition store_launch :: "nat \<Rightarrow> SimOperatorEntry \<Rightarrow> SimOperatorKernel \<Rightarrow> SimField list \<Rightarrow> SimContext \<Rightarrow> SimContext" where
  "store_launch i op kern fs c = set_fields fs (set_operator i (op\<lparr>op_kernel := Some kern\<rparr>) c)"

definition record_dispatch ::
  "SimBackend option \<Rightarrow> SimDiagnosticBackendKind \<Rightarrow> bool \<Rightarrow> string option \<Rightarrow> SimOperatorEntry \<Rightarrow> SimContext \<Rightarrow> SimContext" where
  "record_dispatch requested executed fallback_used reason op c =
     c\<lparr>cx_diag := sim_context_record_kernel_dispatch requested executed fallback_used reason (op_name op) (cx_diag c)\<rparr>"

definition run_fallback ::
  "execution_env \<Rightarrow> nat \<Rightarrow> SimOperatorEntry \<Rightarrow> SimOperatorKernel \<Rightarrow> string \<Rightarrow> SimContext \<Rightarrow> SimResult \<times> SimContext" where
  "run_fallback env i op kern reason c =
     (let (result, kern, fs) = sim_context_launch_cpu_fallback (ee_impls env) kern (w_fields (cx_world c));
          requested = sp_backend (cx_scheduler c);
          c = store_launch i op kern fs c
      in (result, record_dispatch requested SIM_DIAGNOSTIC_BACKEND_CPU
                    (sim_context_backend_diag_kind requested \<noteq> SIM_DIAGNOSTIC_BACKEND_CPU) (Some reason) op c))"

text \<open>The kernel was bound; it runs on the requested backend unless there is a reason against it.\<close>

definition dispatch_kernel ::
  "execution_env \<Rightarrow> nat \<Rightarrow> SimOperatorEntry \<Rightarrow> SimOperatorKernel \<Rightarrow> SimBackend \<Rightarrow> SimContext \<Rightarrow> SimResult \<times> SimContext" where
  "dispatch_kernel env i op kern requested c =
     (case fallback_reason (w_fields (cx_world c)) requested kern of
        Some reason \<Rightarrow> run_fallback env i op kern reason c
      | None \<Rightarrow>
          let (b, kern, fs) = backend_launch (ee_impls env) requested kern (w_fields (cx_world c));
              c = sim_context_set_backend (Some b) (store_launch i op kern fs c)
          in if bk_last_error b = SIM_RESULT_NOT_SUPPORTED
             then run_fallback env i op kern ''unsupported_ir_subset'' c
             else (bk_last_error b,
                   record_dispatch (Some b) (sim_context_backend_diag_kind (Some b)) False None op c))"

definition bound_kernel :: "execution_env \<Rightarrow> SimContext \<Rightarrow> SimOperatorKernel \<Rightarrow> SimResult \<times> SimOperatorKernel" where
  "bound_kernel env c kern =
     (let (bound, bindings) = bind_fields c (zip (kn_binding_map kern) (kn_bindings kern))
      in (bound, kern\<lparr>kn_params := kernel_params env c (kn_params kern), kn_bindings := bindings\<rparr>))"

definition sim_context_execute_kernel :: "execution_env \<Rightarrow> SimContext \<Rightarrow> nat \<Rightarrow> SimResult \<times> SimContext" where
  "sim_context_execute_kernel env c i =
     (case operator_at c i of
        None \<Rightarrow> (SIM_RESULT_INVALID_ARGUMENT, c)
      | Some op \<Rightarrow>
          (case op_kernel op of
             None \<Rightarrow> (SIM_RESULT_INVALID_ARGUMENT, c)
           | Some kern \<Rightarrow>
               (case sp_backend (cx_scheduler c) of
                  None \<Rightarrow> (SIM_RESULT_NOT_FOUND, c)
                | Some requested \<Rightarrow>
                    let (bound, kern) = bound_kernel env c kern;
                        c = set_operator i (op\<lparr>op_kernel := Some kern\<rparr>) c
                    in if bound \<noteq> SIM_RESULT_OK then (bound, c)
                       else dispatch_kernel env i op kern requested c)))"

section \<open>The norm budget\<close>

text \<open>The array of distinct indices with its capacity; \<open>None\<close> is a failed \<^verbatim>\<open>realloc\<close>.\<close>

definition append_field :: "heap \<Rightarrow> nat \<Rightarrow> nat list \<times> nat \<Rightarrow> (nat list \<times> nat) option" where
  "append_field heap v acc =
     (let (indices, capacity) = acc
      in if v \<in> set indices then Some acc
         else if length indices = capacity
           then
             let new_cap = (if capacity = 0 then 8 else capacity * 2)
             in if \<not> malloc_ok heap (new_cap * 8) then None else Some (indices @ [v], new_cap)
         else Some (indices @ [v], capacity))"

definition sim_context_collect_unique_fields :: "heap \<Rightarrow> SimOperatorEntry \<Rightarrow> nat list option" where
  "sim_context_collect_unique_fields heap op =
     map_option fst
       (fold_option (append_field heap)
          (mask_fields (if op_write_mask op \<noteq> 0 then op_write_mask op else op_read_mask op)
             @ op_read_indices op @ op_write_indices op)
          ([], 0))"

definition scalars :: "u8 list \<Rightarrow> nat \<Rightarrow> f64 list" where
  "scalars bytes n = map (\<lambda>j. load_le 8 bytes (j * 8)) [0..<n]"

text \<open>One field: scaled when the square root of the sum of squares exceeds the budget.\<close>

definition enforce_budget :: "execution_env \<Rightarrow> f64 \<Rightarrow> SimField \<Rightarrow> SimField" where
  "enforce_budget env budget f =
     (let m = ee_fpu env;
          comps = sim_field_components (Some f);
          elements = sim_field_element_count (f_layout f)
      in if comps = 0 \<or> (f_element_size f \<noteq> 8 \<and> f_element_size f \<noteq> 16) then f
         else if elements = 0 then f
         else (case sim_field_real_data (Some f) of
                 None \<Rightarrow> f
               | Some bytes \<Rightarrow>
                   let total_scalars = unat (elements * comps);
                       xs = scalars bytes total_scalars;
                       norm = ee_sqrt env (foldl (\<lambda>sum_sq v. fp_add m sum_sq (fp_mul m v v)) f64_zero xs)
                   in if f64_less budget norm \<and> f64_less f64_zero norm
                      then f\<lparr>f_data := Some (memcpy_at bytes 0
                              (concat (map (\<lambda>v. bytes_le 8 (fp_mul m v (fp_div m budget norm))) xs)))\<rparr>
                      else f))"

definition sim_context_apply_norm_budget :: "execution_env \<Rightarrow> SimContext \<Rightarrow> SimOperatorEntry \<Rightarrow> SimContext" where
  "sim_context_apply_norm_budget env c op =
     (let budget = cf_norm_budget (op_config op)
      in if \<not> f64_less f64_zero budget then c
         else (case sim_context_collect_unique_fields (ee_heap env) op of
                 None \<Rightarrow> c
               | Some indices \<Rightarrow>
                   set_fields (fold (\<lambda>i fs. if i < length fs then fs[i := enforce_budget env budget (fs ! i)] else fs)
                     indices (w_fields (cx_world c))) c))"

section \<open>One operator\<close>

definition raise_warp_mask :: "SimWarpLevel \<Rightarrow> SimContext \<Rightarrow> SimContext" where
  "raise_warp_mask level c =
     (let warp_bit = sim_context_warp_level_bit level
      in if warp_bit \<noteq> 0
         then c\<lparr>cx_runtime := (cx_runtime c)\<lparr>rs_current_step_warp_mask := rs_current_step_warp_mask (cx_runtime c) OR warp_bit\<rparr>\<rparr>
         else c)"

text \<open>The kernel or the callback.\<close>

definition run_operator :: "execution_env \<Rightarrow> SimContext \<Rightarrow> nat \<Rightarrow> SimResult \<times> SimContext" where
  "run_operator env c i =
     (case operator_at c i of
        None \<Rightarrow> (SIM_RESULT_INVALID_ARGUMENT, c)
      | Some op \<Rightarrow>
          if op_kernel op \<noteq> None then sim_context_execute_kernel env c i
          else (case op_evaluate op of
                  Some f \<Rightarrow> ee_evaluate env f (op_userdata op) c i
                | None \<Rightarrow> (SIM_RESULT_INVALID_ARGUMENT, c)))"

definition restore_operator :: "execution_env \<Rightarrow> bool \<Rightarrow> SimResult \<Rightarrow> SimContext \<Rightarrow> nat \<Rightarrow> SimResult \<times> SimContext" where
  "restore_operator env did_save result c i =
     (case operator_at c i of
        None \<Rightarrow> (result, c)
      | Some op \<Rightarrow>
          (case (did_save, op_restore_state op) of
             (True, Some f) \<Rightarrow>
               let (restore_result, c) = ee_restore_state env f (op_userdata op) c i
               in (if result = SIM_RESULT_OK then restore_result else result, c)
           | _ \<Rightarrow> (result, c)))"

text \<open>After a success outside of drift evaluation.\<close>

definition account_operator :: "execution_env \<Rightarrow> SimContext \<Rightarrow> nat \<Rightarrow> SimContext" where
  "account_operator env c i =
     (case operator_at c i of
        None \<Rightarrow> c
      | Some op \<Rightarrow>
          raise_warp_mask (oi_warp_level (op_info op))
            (sim_context_record_continuity_hit (sim_context_apply_norm_budget env c op) op))"

definition sim_context_apply_operator :: "execution_env \<Rightarrow> SimContext \<Rightarrow> nat \<Rightarrow> SimResult \<times> SimContext" where
  "sim_context_apply_operator env c i =
     (case operator_at c i of
        None \<Rightarrow> (SIM_RESULT_INVALID_ARGUMENT, c)
      | Some op \<Rightarrow>
          let in_drift = sim_context_in_drift (Some c);
              (saved, did_save, c) =
                (case op_save_state op of
                   Some f \<Rightarrow>
                     if in_drift
                     then (let (result, c) = ee_save_state env f (op_userdata op) c i in (result, True, c))
                     else (SIM_RESULT_OK, False, c)
                 | None \<Rightarrow> (SIM_RESULT_OK, False, c))
          in if saved \<noteq> SIM_RESULT_OK then (saved, c)
             else
               let (result, c) = run_operator env c i;
                   (result, c) = restore_operator env did_save result c i
               in if result = SIM_RESULT_OK \<and> \<not> sim_context_in_drift (Some c)
                  then (result, account_operator env c i)
                  else (result, c))"
section \<open>Statistics of a drift evaluation\<close>

definition drop_snapshot :: "field_slot \<Rightarrow> field_slot" where
  "drop_snapshot s = s\<lparr>fs_snapshot_valid := False, fs_snapshot_count := 0\<rparr>"

text \<open>
  The snapshot of one field, of real and imaginary parts in turn. The count of the view is that of the
  layout; its product with the size of an element wraps in the request.
\<close>

definition capture_snapshot :: "heap \<Rightarrow> size_t \<Rightarrow> SimField \<Rightarrow> field_slot \<Rightarrow> field_slot" where
  "capture_snapshot heap step_index f s =
     (if \<not> fs_snapshot_requested s then s
      else
        let count = sim_field_element_count (f_layout f);
            type = sim_buffer_data_type_from_scalar_domain (sim_field_scalar_domain (Some f));
            bytes = (case sim_field_data (Some f) of None \<Rightarrow> [] | Some bs \<Rightarrow> bs);
            grow = (count > fs_snapshot_capacity s \<or> fs_snapshot s = None)
        in if count = 0 then drop_snapshot s
           else if grow \<and> \<not> malloc_ok heap (unat (count * 16)) then drop_snapshot s
           else
             let s = (if grow then s\<lparr>fs_snapshot := Some (case fs_snapshot s of None \<Rightarrow> [] | Some old \<Rightarrow> old),
                                    fs_snapshot_capacity := count\<rparr> else s);
                 taken = (\<lambda>words. s\<lparr>fs_snapshot := Some words, fs_snapshot_count := count,
                                    fs_snapshot_step_index := step_index + 1, fs_snapshot_valid := True\<rparr>)
             in (case type of
                   SIM_BUFFER_COMPLEX_DOUBLE \<Rightarrow> taken (scalars bytes (2 * unat count))
                 | SIM_BUFFER_DOUBLE \<Rightarrow> taken (concat (map (\<lambda>x. [x, f64_zero]) (scalars bytes (unat count))))
                 | _ \<Rightarrow> drop_snapshot s))"

definition capture_stats :: "(SimField \<Rightarrow> cell) \<Rightarrow> SimField \<Rightarrow> field_slot \<Rightarrow> field_slot" where
  "capture_stats stats f s =
     (let s = s\<lparr>fs_drift_stats_valid := False\<rparr>
      in if fs_drift_stats_requested s then s\<lparr>fs_drift_stats := stats f, fs_drift_stats_valid := True\<rparr> else s)"

text \<open>The fields with their slots.\<close>

definition update_slots :: "(SimField \<Rightarrow> field_slot \<Rightarrow> field_slot) \<Rightarrow> SimField list \<Rightarrow> field_slot list \<Rightarrow> field_slot list" where
  "update_slots g fs slots = map2 g fs slots @ drop (length fs) slots"

text \<open>\<open>None\<close> where the loop that doubles the capacity does not end.\<close>

definition sim_context_capture_drift_field_stats :: "execution_env \<Rightarrow> SimContext \<Rightarrow> SimContext option" where
  "sim_context_capture_drift_field_stats env c =
     (let fs = w_fields (cx_world c);
          field_count = length fs;
          rs = cx_runtime c;
          limit = min (unat (rs_continuity_capacity rs)) field_count;
          stats_requested = list_ex fs_drift_stats_requested (take limit (rs_slots rs));
          snapshot_requested = list_ex fs_snapshot_requested (take limit (rs_slots rs))
      in if \<not> sim_context_in_drift (Some c) \<or> field_count < 2 then Some c
         else if \<not> stats_requested \<and> \<not> snapshot_requested then Some c
         else
           (case (if unat (rs_continuity_capacity rs) < field_count
                  then sim_runtime_state_ensure_continuity_capacity (ee_heap env) (ee_topology env) rs
                         (word_of_nat field_count)
                  else Some (SIM_RESULT_OK, rs)) of
              None \<Rightarrow> None
            | Some (result, rs) \<Rightarrow>
                if result \<noteq> SIM_RESULT_OK
                then Some (c\<lparr>cx_runtime :=
                       (map_slots limit (\<lambda>s. s\<lparr>fs_drift_stats_valid := False\<rparr>) rs)
                         \<lparr>rs_drift_field_stats_step_index := size_max\<rparr>\<rparr>)
                else
                  let rs = (if stats_requested
                            then rs\<lparr>rs_slots := update_slots (capture_stats (ee_field_stats env)) fs (rs_slots rs),
                                    rs_drift_field_stats_step_index := rs_step_index rs + 1\<rparr> else rs);
                      rs = (if snapshot_requested
                            then rs\<lparr>rs_slots := update_slots (capture_snapshot (ee_heap env) (rs_step_index rs)) fs
                                      (rs_slots rs)\<rparr> else rs)
                  in Some (c\<lparr>cx_runtime := rs\<rparr>)))"

section \<open>The plan\<close>

definition sim_context_configure_profiler :: "heap \<Rightarrow> SimContext \<Rightarrow> nat \<Rightarrow> bool \<times> SimContext" where
  "sim_context_configure_profiler heap c operators =
     (let destroyed = (\<lambda>c. if cx_profiler_ready c
             then c\<lparr>cx_profiler := sim_profiler_destroy (cx_profiler c), cx_profiler_ready := False\<rparr> else c)
      in if operators = 0 then (False, destroyed c)
         else
           let c = (if \<not> cx_profiler_ready c \<or> length (pf_counters (cx_profiler c)) \<noteq> operators
                    then
                      let c = destroyed c;
                          (result, profiler) = sim_profiler_init heap operators;
                          c = c\<lparr>cx_profiler := profiler\<rparr>
                      in if result = SIM_RESULT_OK then c\<lparr>cx_profiler_ready := True\<rparr> else c
                    else c)
           in (cx_profiler_ready c, c))"

text \<open>
  The clock is read twice per operator: \<open>clock k\<close> is the reading number \<open>k\<close> of the call, the first and the
  last being those of the frame.
\<close>

definition record_time :: "bool \<Rightarrow> (nat \<Rightarrow> u64) \<Rightarrow> nat \<Rightarrow> nat \<Rightarrow> SimContext \<Rightarrow> SimContext" where
  "record_time profiler_ready clock i op_index c =
     (if \<not> profiler_ready then c
      else
        let start_ns = clock (2 * i + 1); end_ns = clock (2 * i + 2)
        in c\<lparr>cx_profiler := sim_profiler_record_operator (cx_profiler c) op_index
                (if end_ns \<ge> start_ns then end_ns - start_ns else 0)\<rparr>)"

text \<open>
  The loop reads the count of the plan again in every round, so it runs until \<open>i\<close> reaches the count of the
  plan of the moment; \<open>None\<close> is a loop that never ends. With the result come the indices of the operators
  that were applied.
\<close>

partial_function (option) execute_loop ::
  "execution_env \<Rightarrow> bool \<Rightarrow> (nat \<Rightarrow> u64) \<Rightarrow> nat \<Rightarrow> SimContext \<Rightarrow> nat list \<Rightarrow> (SimResult \<times> SimContext \<times> nat list) option" where
  "execute_loop env profiler_ready clock i c applied =
     (if i \<ge> plan_count (sp_plan (cx_scheduler c)) then Some (SIM_RESULT_OK, c, applied)
      else
        let op_index = plan_order (sp_plan (cx_scheduler c)) ! i
        in (case operator_at c op_index of
              None \<Rightarrow> Some (SIM_RESULT_INVALID_ARGUMENT, c, applied)
            | Some op \<Rightarrow>
                let (result, c) = sim_context_apply_operator env c op_index;
                    c = record_time profiler_ready clock i op_index c;
                    applied = applied @ [op_index]
                in if result \<noteq> SIM_RESULT_OK then Some (result, c, applied)
                   else execute_loop env profiler_ready clock (i + 1) c applied))"

declare execute_loop.simps [code]

definition sim_context_execute_prepared ::
  "execution_env \<Rightarrow> (nat \<Rightarrow> u64) \<Rightarrow> SimContext \<Rightarrow> (SimResult \<times> SimContext \<times> nat list) option" where
  "sim_context_execute_prepared env clock c =
     (if \<not> sp_plan_valid (cx_scheduler c) then Some (SIM_RESULT_INVALID_STATE, c, [])
      else
        let c = sim_context_reset_continuity_counters c;
            (profiler_ready, c) = sim_context_configure_profiler (ee_heap env) c (plan_count (sp_plan (cx_scheduler c)));
            c = (if profiler_ready then c\<lparr>cx_profiler := sim_profiler_begin_frame (clock 0) (cx_profiler c)\<rparr> else c)
        in (case execute_loop env profiler_ready clock 0 c [] of
              None \<Rightarrow> None
            | Some (result, c, applied) \<Rightarrow>
                if result \<noteq> SIM_RESULT_OK then Some (result, c, applied)
                else
                  let c = (if profiler_ready
                           then c\<lparr>cx_profiler := sim_profiler_end_frame (clock (2 * length applied + 1)) (cx_profiler c)\<rparr>
                           else c)
                  in map_option (\<lambda>c. (SIM_RESULT_OK, c, applied))
                       (if sim_context_in_drift (Some c) then sim_context_capture_drift_field_stats env c else Some c)))"

definition sim_context_execute ::
  "execution_env \<Rightarrow> (nat \<Rightarrow> u64) \<Rightarrow> SimContext \<Rightarrow> (SimResult \<times> SimContext \<times> nat list) option" where
  "sim_context_execute env clock c =
     (case sim_context_prepare_plan (ee_heap env) c of
        None \<Rightarrow> None
      | Some (result, c) \<Rightarrow>
          if result \<noteq> SIM_RESULT_OK then Some (result, c, []) else sim_context_execute_prepared env clock c)"

end
