(* ===== verification/Context_Correct.thy ===== *)
theory Context_Correct
  imports Context_Execute
begin

text \<open>
  Correctness of the context: the invariant that ties its counters, arrays and plan to its fields and
  operators, and its preservation by every operation.
\<close>

section \<open>Byte counters\<close>

lemma add_size_Some:
  "sim_context_add_size a b = Some s \<Longrightarrow> s = a + b \<and> unat s = unat a + unat b"
proof -
  assume s: "sim_context_add_size a b = Some s"
  then have le: "\<not> a > size_max - b" by (auto simp: sim_context_add_size_def split: if_splits)
  have "unat (size_max - b) = 2 ^ 64 - 1 - unat b"
    using unat_lt_64 [of b] by (subst unat_sub) (auto simp: word_le_nat_alt unat_size_max)
  then have "unat a + unat b < 2 ^ 64" using le unat_lt_64 [of b] by (auto simp: word_less_nat_alt)
  then show ?thesis using s le by (auto simp: sim_context_add_size_def unat_add_exact)
qed

lemma field_bytes_exact:
  assumes "field_ok f"
  shows "unat (sim_field_bytes (Some f)) = unat (sim_field_element_count (f_layout f)) * unat (f_element_size f)"
    and "unat (sim_field_bytes (Some f)) = length (the (f_data f))"
    and "0 < unat (sim_field_bytes (Some f))"
    and "sim_field_element_count (f_layout f) \<noteq> 0" "f_data f \<noteq> None" "f_element_size f \<noteq> 0"
proof -
  note n = field_count_unat [OF assms]
  obtain bytes where bytes: "f_data f = Some bytes" "length bytes < 2 ^ 63"
    "length bytes = prod_list (extents (field_shape f)) * unat (f_element_size f)"
    and k: "f_element_size f \<noteq> 0" and magic: "f_magic f = SIM_FIELD_MAGIC" and z: "0 \<notin> set (field_shape f)"
    using assms by (auto simp: field_ok_def field_storage_ok_def)
  have pos: "0 < prod_list (extents (field_shape f))"
    using z by (metis image_iff list.set_map neq0_conv prod_list_zero_iff unat_eq_zero)
  show eq: "unat (sim_field_bytes (Some f)) = unat (sim_field_element_count (f_layout f)) * unat (f_element_size f)"
    using bytes(2,3) magic n by (simp add: sim_field_bytes_def unat_mult_exact)
  then show "unat (sim_field_bytes (Some f)) = length (the (f_data f))" using bytes n by simp
  show "0 < unat (sim_field_bytes (Some f))" using eq n pos k by (simp add: unat_gt_0)
  show "sim_field_element_count (f_layout f) \<noteq> 0" using n pos by (metis less_numeral_extra(3) unat_0)
  show "f_data f \<noteq> None" "f_element_size f \<noteq> 0" using bytes(1) k by simp_all
qed

definition field_bytes_total :: "SimField list \<Rightarrow> nat" where
  "field_bytes_total fs = sum_list (map (\<lambda>f. unat (sim_field_bytes (Some f))) fs)"

lemma field_bytes_total_append [simp]:
  "field_bytes_total (fs @ gs) = field_bytes_total fs + field_bytes_total gs"
  "field_bytes_total [f] = unat (sim_field_bytes (Some f))" "field_bytes_total [] = 0"
  by (simp_all add: field_bytes_total_def)

lemma field_bytes_total_update:
  "i < length fs \<Longrightarrow>
    field_bytes_total (fs[i := f]) + unat (sim_field_bytes (Some (fs ! i))) =
    field_bytes_total fs + unat (sim_field_bytes (Some f))"
  by (induction fs arbitrary: i) (auto simp: field_bytes_total_def nth_Cons split: nat.splits)

section \<open>The invariant\<close>

text \<open>A valid plan schedules every registered operator once and respects every constraint.\<close>

definition plan_respects :: "SimOperator list \<Rightarrow> SimOperatorPlan \<Rightarrow> bool" where
  "plan_respects ops plan \<longleftrightarrow>
     plan_count plan = length ops \<and> distinct (plan_order plan) \<and> set (plan_order plan) = {..<length ops} \<and>
     (\<forall>(i, j) \<in> depends ops \<union> conflict ops. precedes (plan_order plan) i j)"

definition registered_operators :: "SimContext \<Rightarrow> SimOperator list" where
  "registered_operators c = scheduled_operators (w_operators (cx_world c))"

definition plan_current :: "SimContext \<Rightarrow> bool" where
  "plan_current c \<longleftrightarrow>
     (sp_plan_valid (cx_scheduler c) \<longrightarrow> plan_respects (registered_operators c) (sp_plan (cx_scheduler c)))"

definition accounting_ok :: "SimContext \<Rightarrow> bool" where
  "accounting_ok c \<longleftrightarrow>
     unat (cx_bytes_fields_in_use c) = field_bytes_total (w_fields (cx_world c)) \<and>
     unat (cx_bytes_total_in_use c) = unat (cx_bytes_fields_in_use c) + unat (cx_bytes_scratch_in_use c)"

definition arrays_ok :: "SimContext \<Rightarrow> bool" where
  "arrays_ok c \<longleftrightarrow> world_ok (cx_world c) \<and> slots_ok (cx_runtime c) \<and> metrics_ok (cx_runtime c) \<and>
     length (w_fields (cx_world c)) \<le> length (rs_slots (cx_runtime c))"

definition context_ok :: "SimContext \<Rightarrow> bool" where
  "context_ok c \<longleftrightarrow> (\<forall>f \<in> set (w_fields (cx_world c)). field_ok f) \<and> arrays_ok c \<and> accounting_ok c \<and> plan_current c"

lemmas context_ok_defs = context_ok_def arrays_ok_def accounting_ok_def plan_current_def

section \<open>Creation\<close>

lemma init_metrics_ok: "metrics_ok (sim_runtime_state_init rs)" "slots_ok (sim_runtime_state_init rs)"
  using init_metrics
  by (simp_all add: slots_ok_def sim_runtime_state_init_def sim_runtime_state_reset_loop_metadata_def)

lemma init_context_ok:
  assumes "sim_context_init_with_universe heap factories universe = Inr c"
  shows "context_ok c \<and> w_fields (cx_world c) = []"
proof -
  obtain r w where w: "sim_world_init heap universe = (r, w)" by fastforce
  obtain r' ints where i: "sim_integrator_state_init heap factories = (r', ints)" by fastforce
  have "world_ok w" "w_fields w = []"
    using init_world_ok [of heap universe] w
    by (auto simp: sim_world_init_def Let_def split: prod.splits if_splits)
  then show ?thesis
    using assms w i init_metrics_ok
    by (auto simp: sim_context_init_with_universe_def sim_scheduler_plan_init_def sim_ir_builder_init_def
        context_ok_defs Let_def split: if_splits)
qed
section \<open>Adding a field\<close>

lemma ensure_capacity_keeps:
  assumes "sim_runtime_state_ensure_continuity_capacity heap topology rs n = Some (r, rs')"
  shows "metrics_ok rs' = metrics_ok rs" "rs_time_accumulated rs' = rs_time_accumulated rs"
    "rs_drift_mode_depth rs' = rs_drift_mode_depth rs"
  using assms
  by (auto simp: sim_runtime_state_ensure_continuity_capacity_def metrics_ok_def Let_def
      split: if_splits option.splits)

lemma check_limits_cases:
  assumes "element_count \<noteq> 0" "field_bytes \<noteq> 0" "length (w_fields (cx_world c)) < 2 ^ 62"
  shows "sim_context_check_field_limits (Some c) element_count field_bytes \<in> {SIM_RESULT_OK, SIM_RESULT_OUT_OF_MEMORY}"
    and "sim_context_check_field_limits (Some c) element_count field_bytes = SIM_RESULT_OK \<Longrightarrow>
      (let l = cx_memory_limits c
       in (ml_max_field_elements l \<noteq> 0 \<longrightarrow> element_count \<le> ml_max_field_elements l) \<and>
          (ml_max_field_bytes l \<noteq> 0 \<longrightarrow> field_bytes \<le> ml_max_field_bytes l) \<and>
          (ml_max_fields l \<noteq> 0 \<longrightarrow> length (w_fields (cx_world c)) < unat (ml_max_fields l)) \<and>
          (ml_max_total_field_bytes l \<noteq> 0 \<longrightarrow>
             unat (cx_bytes_fields_in_use c) + unat field_bytes \<le> unat (ml_max_total_field_bytes l)))"
proof -
  let ?n = "length (w_fields (cx_world c))" and ?l = "cx_memory_limits c"
  show "sim_context_check_field_limits (Some c) element_count field_bytes \<in> {SIM_RESULT_OK, SIM_RESULT_OUT_OF_MEMORY}"
    using assms(1,2) by (simp add: sim_context_check_field_limits_def Let_def)
  assume ok: "sim_context_check_field_limits (Some c) element_count field_bytes = SIM_RESULT_OK"
  have n: "unat (word_of_nat ?n :: size_t) = ?n" using assms(3) by (intro unat_word_of_nat_64) simp
  have fields: "?n < unat (ml_max_fields ?l)" if "ml_max_fields ?l \<noteq> 0"
    using ok that assms(1,2) n
    by (auto simp: sim_context_check_field_limits_def Let_def word_le_nat_alt word_gt_0 split: if_splits)
  have total: "unat (cx_bytes_fields_in_use c) + unat field_bytes \<le> unat (ml_max_total_field_bytes ?l)"
    if "ml_max_total_field_bytes ?l \<noteq> 0"
  proof -
    have "field_bytes \<le> ml_max_total_field_bytes ?l" "cx_bytes_fields_in_use c \<le> ml_max_total_field_bytes ?l - field_bytes"
      using ok that assms(1,2)
      by (auto simp: sim_context_check_field_limits_def Let_def word_gt_0 not_less split: if_splits)
    then show ?thesis by (simp add: word_le_nat_alt unat_sub)
  qed
  show "let l = ?l in (ml_max_field_elements l \<noteq> 0 \<longrightarrow> element_count \<le> ml_max_field_elements l) \<and>
      (ml_max_field_bytes l \<noteq> 0 \<longrightarrow> field_bytes \<le> ml_max_field_bytes l) \<and>
      (ml_max_fields l \<noteq> 0 \<longrightarrow> ?n < unat (ml_max_fields l)) \<and>
      (ml_max_total_field_bytes l \<noteq> 0 \<longrightarrow>
         unat (cx_bytes_fields_in_use c) + unat field_bytes \<le> unat (ml_max_total_field_bytes l))"
    using ok fields total assms(1,2)
    by (auto simp: sim_context_check_field_limits_def Let_def word_gt_0 not_less split: if_splits)
qed

text \<open>The context after a field was added; \<open>w\<close> and \<open>rs\<close> are the grown world and runtime state.\<close>

definition with_field :: "cell \<Rightarrow> SimField \<Rightarrow> SimContext \<Rightarrow> SimWorld \<Rightarrow> SimRuntimeState \<Rightarrow> size_t \<Rightarrow> size_t \<Rightarrow> SimContext" where
  "with_field topology f c w rs next_fields next_total =
     c\<lparr>cx_world := w\<lparr>w_fields := w_fields w @ [f]\<rparr>,
       cx_runtime := rs\<lparr>rs_slots := (rs_slots rs)[length (w_fields w) :=
           reset_slot topology (rs_time_accumulated rs) (rs_slots rs ! length (w_fields w))],
         rs_drift_field_stats_step_index := size_max\<rparr>,
       cx_scheduler := sim_scheduler_plan_invalidate (cx_scheduler c),
       cx_bytes_fields_in_use := next_fields, cx_bytes_total_in_use := next_total\<rparr>"

lemma with_field_ok:
  assumes "context_ok c" "field_ok f"
    and w: "world_ok w" "w_fields w = w_fields (cx_world c)" "length (w_fields w) + 1 \<le> unat (w_field_capacity w)"
    and rs: "slots_ok rs" "metrics_ok rs" "length (w_fields w) + 1 \<le> length (rs_slots rs)"
    and nf: "unat next_fields = unat (cx_bytes_fields_in_use c) + unat (sim_field_bytes (Some f))"
    and nt: "unat next_total = unat next_fields + unat (cx_bytes_scratch_in_use c)"
  shows "context_ok (with_field topology f c w rs next_fields next_total)"
proof -
  have "metrics_ok (cx_runtime (with_field topology f c w rs next_fields next_total)) = metrics_ok rs"
    by (simp add: metrics_ok_def with_field_def)
  then show ?thesis using assms
    by (auto simp: context_ok_defs with_field_def world_ok_def slots_ok_def sim_scheduler_plan_invalidate_def
        split: option.splits)
qed

lemma with_field_counts:
  assumes "length (w_fields w) < length (rs_slots rs)"
  shows "sim_context_field_continuity_counts (Some (with_field topology f c w rs a b)) (length (w_fields w)) = (0, 0)"
  using assms by (auto simp: sim_context_field_continuity_counts_def with_field_def reset_slot_def Let_def)

lemma add_field_ok:
  assumes "context_ok c" "field_ok f" "length (w_fields (cx_world c)) < 2 ^ 62"
  shows "\<exists>r c' rest index. sim_context_add_field heap topology c (Some f) = Some (r, c', rest, index) \<and> context_ok c' \<and>
    (if r = SIM_RESULT_OK
     then w_fields (cx_world c') = w_fields (cx_world c) @ [f] \<and> index = Some (length (w_fields (cx_world c)))
       \<and> sim_context_field_continuity_counts (Some c') (length (w_fields (cx_world c))) = (0, 0)
       \<and> \<not> sim_field_is_initialized rest \<and> \<not> sp_plan_valid (cx_scheduler c')
       \<and> (let l = cx_memory_limits c
          in (ml_max_field_elements l \<noteq> 0 \<longrightarrow> sim_field_element_count (f_layout f) \<le> ml_max_field_elements l) \<and>
             (ml_max_field_bytes l \<noteq> 0 \<longrightarrow> sim_field_bytes (Some f) \<le> ml_max_field_bytes l) \<and>
             (ml_max_fields l \<noteq> 0 \<longrightarrow> length (w_fields (cx_world c')) \<le> unat (ml_max_fields l)) \<and>
             (ml_max_total_field_bytes l \<noteq> 0 \<longrightarrow>
                field_bytes_total (w_fields (cx_world c')) \<le> unat (ml_max_total_field_bytes l)))
     else r = SIM_RESULT_OUT_OF_MEMORY \<and> rest = Some f \<and> index = None
       \<and> w_fields (cx_world c') = w_fields (cx_world c) \<and> cx_scheduler c' = cx_scheduler c
       \<and> sim_context_memory_usage c' = sim_context_memory_usage c)"
proof -
  let ?n = "length (w_fields (cx_world c))" and ?e = "sim_field_element_count (f_layout f)"
    and ?b = "sim_field_bytes (Some f)"
  have b0: "?b \<noteq> 0" using field_bytes_exact(3) [OF assms(2)] by auto
  note f = field_bytes_exact(4,5,6) [OF assms(2)]
  have ok: "world_ok (cx_world c)" "slots_ok (cx_runtime c)" "metrics_ok (cx_runtime c)"
    and bytes: "unat (cx_bytes_fields_in_use c) = field_bytes_total (w_fields (cx_world c))"
    using assms(1) by (simp_all add: context_ok_defs)
  note limits = check_limits_cases [OF f(1) b0 assms(3)]
  show ?thesis
  proof (cases "sim_context_check_field_limits (Some c) ?e ?b = SIM_RESULT_OK \<and>
      (\<exists>nf nt. sim_context_add_size (cx_bytes_fields_in_use c) ?b = Some nf \<and>
               sim_context_add_size nf (cx_bytes_scratch_in_use c) = Some nt)")
    case False
    have "sim_context_add_field heap topology c (Some f) = Some (SIM_RESULT_OUT_OF_MEMORY, c, Some f, None)"
      using False limits(1) f b0 by (auto simp: sim_context_add_field_def Let_def split: option.split)
    then show ?thesis using assms(1) by auto
  next
    case True
    then obtain nf nt where s: "sim_context_add_size (cx_bytes_fields_in_use c) ?b = Some nf"
      "sim_context_add_size nf (cx_bytes_scratch_in_use c) = Some nt" by blast
    note nf = add_size_Some [OF s(1), THEN conjunct2] and nt = add_size_Some [OF s(2), THEN conjunct2]
    obtain r w where w: "sim_world_reserve_fields heap (cx_world c) 1 = Some (r, w)" "world_ok w"
      "w_fields w = w_fields (cx_world c)" "w_operators w = w_operators (cx_world c)"
      "r = SIM_RESULT_OK \<Longrightarrow> ?n + 1 \<le> unat (w_field_capacity w)"
      "r \<noteq> SIM_RESULT_OK \<Longrightarrow> r = SIM_RESULT_OUT_OF_MEMORY"
      using reserve_fields_exact [OF ok(1), of 1 heap] assms(3) by (auto split: if_splits)
    let ?c = "c\<lparr>cx_world := w\<rparr>"
    have c: "context_ok ?c" using assms(1) w(2-4) by (auto simp: context_ok_defs registered_operators_def)
    show ?thesis
    proof (cases "r = SIM_RESULT_OK")
      case False
      then have "sim_context_add_field heap topology c (Some f) = Some (SIM_RESULT_OUT_OF_MEMORY, ?c, Some f, None)"
        using True s w(1,6) f b0 by (simp add: sim_context_add_field_def Let_def)
      then show ?thesis using c w(3) by (auto simp: sim_context_memory_usage_def)
    next
      case r: True
      have req: "unat (word_of_nat ?n + 1 :: size_t) = ?n + 1"
        using assms(3) unat_word_of_nat_64 [of ?n] by (subst unat_add_exact) simp_all
      obtain r' rs where rs: "sim_runtime_state_ensure_continuity_capacity heap topology (cx_runtime c)
            (word_of_nat ?n + 1) = Some (r', rs)" "slots_ok rs"
          "r' = SIM_RESULT_OK \<Longrightarrow> ?n + 1 \<le> unat (rs_continuity_capacity rs)"
          "r' \<noteq> SIM_RESULT_OK \<Longrightarrow> r' = SIM_RESULT_OUT_OF_MEMORY \<and> rs = cx_runtime c"
        using continuity_capacity_grows [OF ok(2), of "word_of_nat ?n + 1" heap topology] req assms(3)
        by (auto simp: word_le_nat_alt split: if_splits)
      show ?thesis
      proof (cases "r' = SIM_RESULT_OK")
        case False
        then have "sim_context_add_field heap topology c (Some f) =
            Some (SIM_RESULT_OUT_OF_MEMORY, ?c, Some f, None)"
          using True s w(1,3) r rs(1,4) f b0 by (simp add: sim_context_add_field_def Let_def)
        then show ?thesis using c w(3) by (auto simp: sim_context_memory_usage_def)
      next
        case r': True
        let ?d = "with_field topology f ?c w rs nf nt"
        have run: "sim_context_add_field heap topology c (Some f) =
            Some (SIM_RESULT_OK, ?d, Some (moved_field f), Some ?n)"
          using True s w(1,3) r rs(1) r' f b0
          by (simp add: sim_context_add_field_def with_field_def Let_def)
        have len: "?n + 1 \<le> length (rs_slots rs)" using rs(2,3) r' by (simp add: slots_ok_def)
        have met: "metrics_ok rs" using ok(3) ensure_capacity_keeps(1) [OF rs(1)] by simp
        have unats: "unat nf = unat (cx_bytes_fields_in_use ?c) + unat ?b"
          "unat nt = unat nf + unat (cx_bytes_scratch_in_use ?c)" using nf nt by simp_all
        have d: "context_ok ?d"
          by (rule with_field_ok [OF c assms(2) w(2) _ _ rs(2) met _ unats])
             (use w(3,5) r len in simp_all)
        have counts: "sim_context_field_continuity_counts (Some ?d) ?n = (0, 0)"
          using with_field_counts [of w rs topology f ?c nf nt] len w(3) by simp
        have fields: "w_fields (cx_world ?d) = w_fields (cx_world c) @ [f]" using w(3) by (simp add: with_field_def)
        have dead: "\<not> sim_field_is_initialized (Some (moved_field f))"
          by (simp add: moved_field_def SIM_FIELD_MAGIC_def)
        have plan: "\<not> sp_plan_valid (cx_scheduler ?d)"
          by (simp add: with_field_def sim_scheduler_plan_invalidate_def)
        show ?thesis
          using run d counts fields dead plan limits(2) True bytes
          by (intro exI [of _ SIM_RESULT_OK] exI [of _ ?d] exI [of _ "Some (moved_field f)"] exI [of _ "Some ?n"])
             (simp add: Let_def Suc_le_eq)
      qed
    qed
  qed
qed

text \<open>
  C24. Adding a live field to a context always returns. On success the field is the last one, its slot is
  counted from zero, the byte counters have grown by its exact size within every limit in force, the plan is
  no longer valid and the caller's field is dead. Otherwise memory or a limit was exhausted, the caller
  keeps its field, and fields, counters and plan are as before. The invariant holds either way.
\<close>

theorem add_field_exact:
  assumes "context_ok c" "field_ok f" "length (w_fields (cx_world c)) < 2 ^ 62"
  shows "\<exists>r c' rest index. sim_context_add_field heap topology c (Some f) = Some (r, c', rest, index) \<and> context_ok c' \<and>
    (if r = SIM_RESULT_OK
     then w_fields (cx_world c') = w_fields (cx_world c) @ [f] \<and> index = Some (length (w_fields (cx_world c)))
       \<and> sim_context_field_continuity_counts (Some c') (length (w_fields (cx_world c))) = (0, 0)
       \<and> \<not> sim_field_is_initialized rest \<and> \<not> sp_plan_valid (cx_scheduler c')
       \<and> (let l = cx_memory_limits c
          in (ml_max_field_elements l \<noteq> 0 \<longrightarrow> sim_field_element_count (f_layout f) \<le> ml_max_field_elements l) \<and>
             (ml_max_field_bytes l \<noteq> 0 \<longrightarrow> sim_field_bytes (Some f) \<le> ml_max_field_bytes l) \<and>
             (ml_max_fields l \<noteq> 0 \<longrightarrow> length (w_fields (cx_world c')) \<le> unat (ml_max_fields l)) \<and>
             (ml_max_total_field_bytes l \<noteq> 0 \<longrightarrow>
                field_bytes_total (w_fields (cx_world c')) \<le> unat (ml_max_total_field_bytes l)))
     else r = SIM_RESULT_OUT_OF_MEMORY \<and> rest = Some f \<and> index = None
       \<and> w_fields (cx_world c') = w_fields (cx_world c) \<and> cx_scheduler c' = cx_scheduler c
       \<and> sim_context_memory_usage c' = sim_context_memory_usage c)"
  using add_field_ok [OF assms] .

definition granted :: heap where "granted k \<longleftrightarrow> True"

definition new_context :: SimContext where
  "new_context = (case sim_context_init granted [] of Inr c \<Rightarrow> c)"

lemma new_context: "sim_context_init granted [] = Inr new_context"
  by (simp add: new_context_def sim_context_init_def sim_context_init_with_universe_def sim_world_init_def
      sim_world_copy_universe_def sim_integrator_state_init_def integrator_registry_init_def
      integrator_registry_register_builtin_def sim_scheduler_plan_init_def sim_ir_builder_init_def Let_def)

lemma new_context_ok: "context_ok new_context" "w_fields (cx_world new_context) = []"
  using init_context_ok [of granted "[]" None] new_context by (simp_all add: sim_context_init_def)

lemma new_context_simps [simp]:
  "cx_memory_limits new_context = sim_context_memory_limits_default"
  "cx_bytes_fields_in_use new_context = 0" "cx_bytes_scratch_in_use new_context = 0"
  "w_field_capacity (cx_world new_context) = 0" "rs_continuity_capacity (cx_runtime new_context) = 0"
  "rs_slots (cx_runtime new_context) = []" "rs_drift_mode_depth (cx_runtime new_context) = 0"
  "rs_step_index (cx_runtime new_context) = 0" "w_operators (cx_world new_context) = empty_registry"
  "sp_plan_valid (cx_scheduler new_context) = False" "sp_plan (cx_scheduler new_context) = empty_plan"
  "sp_backend (cx_scheduler new_context) = None" "cx_profiler_ready new_context = False"
  by (simp_all add: new_context_def sim_context_init_def sim_context_init_with_universe_def sim_world_init_def
      sim_world_copy_universe_def sim_integrator_state_init_def integrator_registry_init_def
      integrator_registry_register_builtin_def sim_scheduler_plan_init_def sim_ir_builder_init_def Let_def
      sim_runtime_state_init_def sim_runtime_state_reset_loop_metadata_def)

lemma add_demo_field:
  "fst (the (sim_context_add_field granted [] new_context (Some (demo_field 8 sim_scalar_domain_f64)))) = SIM_RESULT_OK"
proof -
  let ?f = "demo_field 8 sim_scalar_domain_f64"
  have b: "sim_field_bytes (Some ?f) = 48" by (simp add: sim_field_bytes_def sim_field_element_count_def)
  have g: "grown_capacity 0 1 = Some 4" by (simp add: grown_capacity_def double_until.simps)
  have a: "sim_context_add_size 0 48 = Some 48" "sim_context_add_size 48 0 = Some 48"
    by (simp_all add: sim_context_add_size_def)
  have d: "f_data ?f \<noteq> None" using field_bytes_exact(5) [OF demo_field_ok] .
  show ?thesis
    using d new_context_ok(2)
    by (simp add: sim_context_add_field_def sim_field_element_count_def b sim_context_check_field_limits_def Let_def
        sim_context_memory_limits_default_def SIM_CONTEXT_MAX_FIELD_ELEMENTS_DEFAULT_def
        SIM_CONTEXT_MAX_FIELD_BYTES_DEFAULT_def SIM_CONTEXT_MAX_FIELDS_DEFAULT_def
        SIM_CONTEXT_MAX_TOTAL_FIELD_BYTES_DEFAULT_def a sim_world_reserve_fields_def g malloc_ok_def granted_def
        sim_runtime_state_ensure_continuity_capacity_def continuity_granted_def calloc_ok_def)
qed

lemma add_field_exact_witness:
  "\<exists>c. fst (the (sim_context_add_field granted [] new_context (Some (demo_field 8 sim_scalar_domain_f64)))) = SIM_RESULT_OK
    \<and> fst (snd (the (sim_context_add_field granted [] new_context (Some (demo_field 8 sim_scalar_domain_f64))))) = c
    \<and> w_fields (cx_world c) = [demo_field 8 sim_scalar_domain_f64] \<and> \<not> sp_plan_valid (cx_scheduler c)"
proof -
  obtain r c rest index where r: "sim_context_add_field granted [] new_context
      (Some (demo_field 8 sim_scalar_domain_f64)) = Some (r, c, rest, index)"
    "if r = SIM_RESULT_OK
     then w_fields (cx_world c) = w_fields (cx_world new_context) @ [demo_field 8 sim_scalar_domain_f64]
       \<and> \<not> sp_plan_valid (cx_scheduler c) else True"
    using add_field_exact [OF new_context_ok(1) demo_field_ok, of granted "[]"] new_context_ok(2)
    by (auto split: if_splits)
  then show ?thesis using add_demo_field new_context_ok(2) by simp
qed

section \<open>Promotion of fields\<close>

lemma require_complex_some: "\<exists>res f'. sim_field_require_complex heap (Some f) = (res, Some f')"
  by (auto simp: sim_field_require_complex_def sim_field_promote_inplace_to_complex_def Let_def
      split: option.splits)

lemma require_complex_keeps:
  assumes "field_ok f" "bounded_heap heap" "sim_field_require_complex heap (Some f) = (res, Some f')"
  shows "f_layout f' = f_layout f" "res \<noteq> SIM_RESULT_OK \<Longrightarrow> f' = f"
proof -
  have meta: "f_layout (set_complex_metadata g) = f_layout g" for g by (simp add: set_complex_metadata_def Let_def)
  have "f_layout f' = f_layout f \<and> (res \<noteq> SIM_RESULT_OK \<longrightarrow> f' = f)"
  proof (cases "f_data f = None \<or> \<not> promotable_source (sim_field_promotion_source_domain (Some f)) \<or>
      sim_field_storage_is_complex (Some f) \<or> \<not> sim_field_is_initialized (Some f)")
    case True
    then show ?thesis using assms(3) meta
      by (auto simp: sim_field_require_complex_def split: if_splits)
  next
    case False
    obtain r g where p: "sim_field_promote_inplace_to_complex heap (Some f) = (r, g)" by fastforce
    then obtain h where g: "g = Some h"
      by (auto simp: sim_field_promote_inplace_to_complex_def Let_def split: if_splits option.splits)
    note cases = promote_cases [OF assms(1,2), of r h]
    have "f_layout h = f_layout f" "r \<noteq> SIM_RESULT_OK \<Longrightarrow> h = f"
      using p g cases by (cases "r = SIM_RESULT_OK"; cases "f_element_size f = 16"; simp)+
    then show ?thesis using assms(3) False p g meta
      by (auto simp: sim_field_require_complex_def split: if_splits)
  qed
  then show "f_layout f' = f_layout f" "res \<noteq> SIM_RESULT_OK \<Longrightarrow> f' = f" by simp_all
qed

text \<open>A field that asks for complex storage has it.\<close>

definition settled :: "SimField \<Rightarrow> bool" where
  "settled f \<longleftrightarrow> (sim_field_complex_mode (Some f) \<longrightarrow> f_element_size f = 16)"

text \<open>What promotion does not touch.\<close>

definition same_frame :: "SimContext \<Rightarrow> SimContext \<Rightarrow> bool" where
  "same_frame c c' \<longleftrightarrow> length (w_fields (cx_world c')) = length (w_fields (cx_world c)) \<and>
     w_operators (cx_world c') = w_operators (cx_world c) \<and> cx_scheduler c' = cx_scheduler c \<and>
     cx_runtime c' = cx_runtime c"

lemma same_frame_refl [simp]: "same_frame c c"
  by (simp add: same_frame_def)

lemma same_frame_trans: "same_frame c d \<Longrightarrow> same_frame d e \<Longrightarrow> same_frame c e"
  by (simp add: same_frame_def)

lemma promoted_context_ok:
  assumes "context_ok c" "i < length (w_fields (cx_world c))" "field_ok f'"
    and "unat nf + unat (sim_field_bytes (Some (w_fields (cx_world c) ! i))) =
      unat (cx_bytes_fields_in_use c) + unat (sim_field_bytes (Some f'))"
    and "unat nt = unat nf + unat (cx_bytes_scratch_in_use c)"
  shows "context_ok ((set_field i f' c)\<lparr>cx_bytes_fields_in_use := nf, cx_bytes_total_in_use := nt\<rparr>)"
proof -
  have "field_bytes_total ((w_fields (cx_world c))[i := f']) = unat nf"
    using assms(1,4) field_bytes_total_update [OF assms(2), of f'] by (simp add: context_ok_defs)
  moreover have "\<forall>f \<in> set ((w_fields (cx_world c))[i := f']). field_ok f"
    using assms(1,3) set_update_subset_insert [of "w_fields (cx_world c)" i f'] by (auto simp: context_ok_def)
  ultimately show ?thesis using assms(1,5)
    by (simp add: context_ok_defs set_field_def world_ok_def registered_operators_def split: option.splits)
qed

lemma promotion_counters_Inr:
  assumes "promotion_counters c f = Inr (nf, nt)"
  shows "unat (sim_field_element_count (f_layout f)) * 16 < 2 ^ 64"
    and "unat nf + unat (sim_field_bytes (Some f)) =
      unat (cx_bytes_fields_in_use c) + unat (sim_field_element_count (f_layout f)) * 16"
    and "unat nt = unat nf + unat (cx_bytes_scratch_in_use c)"
proof -
  let ?n = "sim_field_element_count (f_layout f)" and ?old = "sim_field_bytes (Some f)"
  have run: "sim_context_add_size (cx_bytes_fields_in_use c - ?old) (?n * 16) = Some nf"
    "sim_context_add_size nf (cx_bytes_scratch_in_use c) = Some nt"
    "\<not> ?n > size_max div 16" "\<not> cx_bytes_fields_in_use c < ?old"
    using assms unfolding promotion_counters_def Let_def by (auto split: if_splits option.splits)
  show n: "unat ?n * 16 < 2 ^ 64" using run(3) le_size_max_div_iff [of 16 ?n] by (simp add: not_less)
  then have "unat (?n * 16) = unat ?n * 16" by (subst unat_mult_exact) simp_all
  moreover have "unat (cx_bytes_fields_in_use c - ?old) = unat (cx_bytes_fields_in_use c) - unat ?old"
    "unat ?old \<le> unat (cx_bytes_fields_in_use c)"
    using run(4) by (simp_all add: unat_sub not_less word_le_nat_alt)
  ultimately show "unat nf + unat ?old = unat (cx_bytes_fields_in_use c) + unat ?n * 16"
    using add_size_Some [OF run(1), THEN conjunct2] by simp
  show "unat nt = unat nf + unat (cx_bytes_scratch_in_use c)"
    using add_size_Some [OF run(2), THEN conjunct2] .
qed

lemma promotion_counters_Inl: "promotion_counters c f = Inl e \<Longrightarrow> e \<noteq> SIM_RESULT_OK"
  unfolding promotion_counters_def Let_def by (auto split: if_splits option.splits)

lemma prepare_complex_field_ok:
  assumes "context_ok c" "bounded_heap heap" "i < length (w_fields (cx_world c))"
    and "prepare_complex_field heap i c = (r, c')"
  shows "context_ok c' \<and> same_frame c c' \<and> (r = SIM_RESULT_OK \<longrightarrow> settled (w_fields (cx_world c') ! i)) \<and>
    (\<forall>j. settled (w_fields (cx_world c) ! j) \<longrightarrow> settled (w_fields (cx_world c') ! j))"
proof -
  let ?f = "w_fields (cx_world c) ! i"
  have f: "field_ok ?f" using assms(1,3) by (simp add: context_ok_def)
  then have magic: "f_magic ?f = SIM_FIELD_MAGIC" by (simp add: field_ok_def)
  have unchanged: ?thesis if "c' = c" "r = SIM_RESULT_OK \<longrightarrow> settled ?f"
    using that assms(1) by simp
  show ?thesis
  proof (cases "\<not> sim_field_complex_mode (Some ?f) \<or> sim_field_storage_is_complex (Some ?f)")
    case True
    then have "c' = c" "settled ?f"
      using assms(4) magic by (auto simp: prepare_complex_field_def settled_def Let_def)
    then show ?thesis by (simp add: unchanged assms(1))
  next
    case todo: False
    show ?thesis
    proof (cases "promotion_counters c ?f")
      case (Inl e)
      then have "c' = c" "r \<noteq> SIM_RESULT_OK"
        using todo magic assms(4) promotion_counters_Inl [OF Inl] by (simp_all add: prepare_complex_field_def Let_def)
      then show ?thesis by (simp add: unchanged assms(1))
    next
      case (Inr p)
      then obtain nf nt where sizes: "promotion_counters c ?f = Inr (nf, nt)" by (cases p) auto
      obtain res g where g: "sim_field_require_complex heap (Some ?f) = (res, Some g)"
        using require_complex_some by blast
      note keeps = require_complex_keeps [OF f assms(2) g] and ok = require_complex_ok [OF f assms(2) g]
      show ?thesis
      proof (cases "res = SIM_RESULT_OK")
        case False
        then have "r \<noteq> SIM_RESULT_OK" "c' = c"
          using assms(4) todo magic sizes g keeps(2) by (auto simp: prepare_complex_field_def Let_def set_field_def)
        then show ?thesis by (simp add: unchanged assms(1))
      next
        case res: True
        have g16: "f_element_size g = 16" "field_ok g" using ok res by simp_all
        have bytes: "unat (sim_field_bytes (Some g)) = unat (sim_field_element_count (f_layout ?f)) * 16"
          using field_bytes_exact(1) [OF g16(2)] g16(1) keeps(1) by simp
        have c': "c' = (set_field i g c)\<lparr>cx_bytes_fields_in_use := nf, cx_bytes_total_in_use := nt\<rparr>"
          using assms(4) todo magic sizes g res by (simp add: prepare_complex_field_def Let_def)
        have "context_ok c'" unfolding c'
          using promotion_counters_Inr [OF sizes] bytes
          by (intro promoted_context_ok [OF assms(1,3) g16(2)]) simp_all
        moreover have "same_frame c c'" by (simp add: c' same_frame_def set_field_def)
        moreover have "settled (w_fields (cx_world c') ! j)" if "settled (w_fields (cx_world c) ! j) \<or> j = i" for j
          using that assms(3) g16(1) by (auto simp: c' set_field_def settled_def nth_list_update)
        ultimately show ?thesis by blast
      qed
    qed
  qed
qed

lemma prepare_complex_loop_ok:
  assumes "context_ok c" "bounded_heap heap" "\<forall>i \<in> set is. i < length (w_fields (cx_world c))"
    and "prepare_complex_loop heap is c = (r, c')"
  shows "context_ok c' \<and> same_frame c c' \<and>
    (r = SIM_RESULT_OK \<longrightarrow> (\<forall>j. j \<in> set is \<or> settled (w_fields (cx_world c) ! j) \<longrightarrow> settled (w_fields (cx_world c') ! j)))"
  using assms(1,3,4)
proof (induction "is" arbitrary: c)
  case (Cons i "is")
  obtain r1 c1 where step: "prepare_complex_field heap i c = (r1, c1)" by fastforce
  have one: "context_ok c1" "same_frame c c1" "r1 = SIM_RESULT_OK \<Longrightarrow> settled (w_fields (cx_world c1) ! i)"
    "\<And>j. settled (w_fields (cx_world c) ! j) \<Longrightarrow> settled (w_fields (cx_world c1) ! j)"
    using prepare_complex_field_ok [OF Cons.prems(1) assms(2) _ step] Cons.prems(2) by auto
  show ?case
  proof (cases "r1 = SIM_RESULT_OK")
    case False
    then show ?thesis using Cons.prems(3) step one by simp
  next
    case True
    then have rest: "prepare_complex_loop heap is c1 = (r, c')" using Cons.prems(3) step by simp
    have "\<forall>i \<in> set is. i < length (w_fields (cx_world c1))"
      using Cons.prems(2) one(2) by (simp add: same_frame_def)
    from Cons.IH [OF one(1) this rest] show ?thesis
      using one True same_frame_trans [OF one(2)] by auto
  qed
qed simp

section \<open>Planning\<close>

lemma first_failure_OK: "first_failure f xs = SIM_RESULT_OK \<longleftrightarrow> (\<forall>x \<in> set xs. f x = SIM_RESULT_OK)"
  by (induction xs) (auto simp: Let_def)

definition field_domain_complex :: "SimContext \<Rightarrow> nat \<Rightarrow> bool" where
  "field_domain_complex c i \<longleftrightarrow> i < length (w_fields (cx_world c)) \<and>
     sim_scalar_domain_is_complex (sim_scalar_domain_from_field (Some (w_fields (cx_world c) ! i)))"

lemma require_complex_domains_OK:
  "require_complex_domains c is = SIM_RESULT_OK \<longleftrightarrow> (\<forall>i \<in> set is. field_domain_complex c i)"
  by (induction "is") (auto simp: sim_context_field_def field_domain_complex_def)

text \<open>An operator that computes with complex numbers has complex fields.\<close>

definition representation_met :: "SimContext \<Rightarrow> SimOperatorEntry \<Rightarrow> bool" where
  "representation_met c op \<longleftrightarrow>
     (or_requires_complex_input (oi_representation (op_info op)) \<longrightarrow>
        (\<forall>i. bit (op_read_mask op) i \<or> i \<in> set (op_read_indices op) \<longrightarrow> field_domain_complex c i)) \<and>
     (or_requires_complex_representation (oi_representation (op_info op)) \<or>
      or_value_kind (oi_representation (op_info op)) \<noteq> Named SIM_FIELD_VALUE_REAL_SCALAR \<longrightarrow>
        (\<forall>i. bit (op_write_mask op) i \<or> i \<in> set (op_write_indices op) \<longrightarrow> field_domain_complex c i))"

lemma resolve_representations_OK:
  "sim_context_resolve_representations c = SIM_RESULT_OK \<longleftrightarrow>
     (\<forall>op \<in> set (rg_records (w_operators (cx_world c))). representation_met c op)"
  by (auto simp: sim_context_resolve_representations_def first_failure_OK resolve_operator_representation_def
      representation_met_def require_complex_domains_OK set_mask_fields Let_def split: if_splits)

text \<open>What a plan that was prepared guarantees.\<close>

definition prepared :: "SimContext \<Rightarrow> bool" where
  "prepared c \<longleftrightarrow> sp_plan_valid (cx_scheduler c) \<and>
     plan_respects (registered_operators c) (sp_plan (cx_scheduler c)) \<and>
     (\<forall>op \<in> set (rg_records (w_operators (cx_world c))). representation_met c op) \<and>
     (\<forall>f \<in> set (w_fields (cx_world c)). settled f \<and>
        sim_field_validate_representation (Some f) (f_repr f) = SIM_RESULT_OK)"

lemma resolved_plan_respects:
  assumes "registry_fits ops" "sim_operator_resolve_plan heap (Some ops) (Some p) = Some (res, plan)"
  shows "\<exists>q. plan = Some q \<and> (res = SIM_RESULT_OK \<longrightarrow> plan_respects ops q)"
proof (cases "ops = []")
  case True
  then show ?thesis using assms(2)
    by (auto simp: resolve_plan_cases sim_operator_plan_reset_def plan_respects_def depends_def conflict_def)
next
  case False
  obtain r where r: "resolve_order heap ops = Some r" using resolve_order_spec [OF assms(1)] by blast
  then show ?thesis
    using assms(2) False resolve_order_spec [OF assms(1), of heap]
    by (cases r) (auto simp: resolve_plan_cases plan_respects_def)
qed

lemma resolve_plan_returns:
  assumes "registry_fits ops"
  shows "\<exists>res plan. sim_operator_resolve_plan heap (Some ops) (Some p) = Some (res, Some plan)"
proof -
  obtain r where "resolve_order heap ops = Some r" using resolve_order_spec [OF assms] by blast
  then show ?thesis by (cases r) (simp_all add: resolve_plan_cases)
qed

lemma with_plan_ok:
  assumes "context_ok c" "v \<longrightarrow> plan_respects (registered_operators c) plan"
  shows "context_ok (c\<lparr>cx_scheduler := (cx_scheduler c)\<lparr>sp_plan := plan, sp_plan_valid := v\<rparr>\<rparr>)"
  using assms by (simp add: context_ok_defs registered_operators_def)

lemma prepare_plan_ok:
  assumes "context_ok c" "bounded_heap heap" "registry_fits (registered_operators c)"
  shows "\<exists>r c'. sim_context_prepare_plan heap c = Some (r, c') \<and> context_ok c' \<and>
    w_operators (cx_world c') = w_operators (cx_world c) \<and> cx_runtime c' = cx_runtime c \<and>
    length (w_fields (cx_world c')) = length (w_fields (cx_world c)) \<and>
    (r = SIM_RESULT_OK \<longrightarrow> prepared c') \<and>
    (sp_plan_valid (cx_scheduler c) \<longrightarrow> sp_plan (cx_scheduler c') = sp_plan (cx_scheduler c) \<and>
       sp_plan_valid (cx_scheduler c'))"
proof -
  obtain r1 d where d: "sim_context_prepare_complex_fields heap c = (r1, d)" by fastforce
  then have loop: "prepare_complex_loop heap [0..<length (w_fields (cx_world c))] c = (r1, d)"
    by (simp add: sim_context_prepare_complex_fields_def)
  have dok: "context_ok d" "same_frame c d"
    "r1 = SIM_RESULT_OK \<Longrightarrow> j < length (w_fields (cx_world c)) \<Longrightarrow> settled (w_fields (cx_world d) ! j)" for j
    using prepare_complex_loop_ok [OF assms(1,2) _ loop] by auto
  have ops: "registered_operators d = registered_operators c"
    using dok(2) by (simp add: same_frame_def registered_operators_def)
  show ?thesis
  proof (cases "r1 = SIM_RESULT_OK \<and> sim_context_resolve_representations d = SIM_RESULT_OK \<and>
      sim_context_validate_field_representations d = SIM_RESULT_OK")
    case False
    then have "\<exists>r. sim_context_prepare_plan heap c = Some (r, d) \<and> r \<noteq> SIM_RESULT_OK"
      using d by (auto simp: sim_context_prepare_plan_def)
    then show ?thesis using dok by (auto simp: same_frame_def)
  next
    case checks: True
    have met: "\<forall>op \<in> set (rg_records (w_operators (cx_world d))). representation_met d op"
      using checks by (simp add: resolve_representations_OK)
    have valid: "\<forall>f \<in> set (w_fields (cx_world d)). settled f \<and>
        sim_field_validate_representation (Some f) (f_repr f) = SIM_RESULT_OK"
      using checks dok(2,3)
      by (auto simp: sim_context_validate_field_representations_def first_failure_OK same_frame_def in_set_conv_nth)
    show ?thesis
    proof (cases "sp_plan_valid (cx_scheduler d)")
      case True
      then have "prepared d" using met valid dok(1) by (simp add: prepared_def context_ok_def plan_current_def)
      then show ?thesis using d checks True dok(1,2)
        by (intro exI [of _ SIM_RESULT_OK] exI [of _ d]) (simp add: sim_context_prepare_plan_def same_frame_def)
    next
      case False
      obtain res plan where plan: "sim_operator_resolve_plan heap (Some (registered_operators d))
          (Some (sp_plan (cx_scheduler d))) = Some (res, Some plan)"
        using resolve_plan_returns assms(3) ops by metis
      let ?v = "res = SIM_RESULT_OK"
      let ?e = "d\<lparr>cx_scheduler := (cx_scheduler d)\<lparr>sp_plan := plan, sp_plan_valid := ?v\<rparr>\<rparr>"
      have respects: "?v \<longrightarrow> plan_respects (registered_operators d) plan"
        using resolved_plan_respects [OF _ plan] assms(3) ops by auto
      have run: "sim_context_prepare_plan heap c = Some (res, ?e)"
        using d checks False plan
        by (cases "cx_scheduler d") (simp add: sim_context_prepare_plan_def registered_operators_def Let_def)
      have frame: "w_operators (cx_world d) = w_operators (cx_world c)" "cx_runtime d = cx_runtime c"
        "cx_scheduler d = cx_scheduler c" "length (w_fields (cx_world d)) = length (w_fields (cx_world c))"
        using dok(2) by (simp_all add: same_frame_def)
      have "prepared ?e" if ?v
        using that met valid respects
        by (simp add: prepared_def registered_operators_def representation_met_def field_domain_complex_def)
      then show ?thesis
        using run with_plan_ok [OF dok(1) respects] frame False
        by (intro exI [of _ res] exI [of _ ?e]) simp
    qed
  qed
qed

text \<open>
  C17. Preparing a plan always returns. On success the plan is valid and lists every operator once, after all
  it depends on and in the order of its conflicts; every operator that computes with complex numbers has
  complex fields, every field that asks for complex storage has it and every field passes validation. A
  plan that was valid stays the same, whatever the result, and the byte counters stay exact.
\<close>

theorem prepare_plan_guarantees:
  assumes "context_ok c" "bounded_heap heap" "registry_fits (registered_operators c)"
  shows "\<exists>r c'. sim_context_prepare_plan heap c = Some (r, c') \<and> context_ok c' \<and>
    registered_operators c' = registered_operators c \<and>
    (r = SIM_RESULT_OK \<longrightarrow> prepared c') \<and>
    (sp_plan_valid (cx_scheduler c) \<longrightarrow> sp_plan (cx_scheduler c') = sp_plan (cx_scheduler c) \<and>
       sp_plan_valid (cx_scheduler c'))"
  using prepare_plan_ok [OF assms] by (auto simp: registered_operators_def)

lemma prepare_plan_guarantees_witness:
  "\<exists>c'. sim_context_prepare_plan demo_heap new_context = Some (SIM_RESULT_OK, c') \<and> prepared c' \<and>
     \<not> sp_plan_valid (cx_scheduler new_context)"
proof -
  have ops: "registered_operators new_context = []"
    by (simp add: registered_operators_def scheduled_operators_def empty_registry_def)
  have "registry_fits (registered_operators new_context)" by (simp add: ops registry_fits_def no_writer_def)
  from prepare_plan_guarantees [OF new_context_ok(1) demo_heap_bounded this]
  obtain r c' where r: "sim_context_prepare_plan demo_heap new_context = Some (r, c')"
    "r = SIM_RESULT_OK \<longrightarrow> prepared c'" by auto
  have "fst (the (sim_context_prepare_plan demo_heap new_context)) = SIM_RESULT_OK"
    using ops new_context_ok(2)
    by (simp add: sim_context_prepare_plan_def sim_context_prepare_complex_fields_def registered_operators_def
        sim_context_resolve_representations_def sim_context_validate_field_representations_def
        sim_operator_resolve_plan_def empty_registry_def Let_def)
  then show ?thesis using r by simp
qed

end
