(* ===== verification/Execution_Correct.thy ===== *)
theory Execution_Correct
  imports Context_Correct
begin

text \<open>
  Correctness of execution: the invariant of the context and the schedule survive every operator, so the
  loop over the plan ends and applies the operators in the order of the plan.
\<close>

section \<open>The environment\<close>

text \<open>
  What is assumed of the code outside: a launch writes element data only, and a callback keeps the invariant,
  the plan and the set of operators.
\<close>

definition rewritten :: "SimField \<Rightarrow> SimField \<Rightarrow> bool" where
  "rewritten f f' \<longleftrightarrow> (\<exists>bytes. f' = f\<lparr>f_data := Some bytes\<rparr> \<and> length bytes = length (the (f_data f)))"

definition launch_ok :: "backend_impl \<Rightarrow> bool" where
  "launch_ok impl \<longleftrightarrow> (\<forall>b kern fs r b' ps fs'. (\<forall>f \<in> set fs. field_ok f) \<longrightarrow>
     im_launch impl b kern fs = (r, b', ps, fs') \<longrightarrow> list_all2 rewritten fs fs')"

definition impls_ok :: "backend_impls \<Rightarrow> bool" where
  "impls_ok impls \<longleftrightarrow> (\<forall>type impl. optional_impl impls type = Some impl \<longrightarrow> launch_ok impl)"

definition same_schedule :: "SimContext \<Rightarrow> SimContext \<Rightarrow> bool" where
  "same_schedule c c' \<longleftrightarrow> sp_plan (cx_scheduler c') = sp_plan (cx_scheduler c) \<and>
     sp_plan_valid (cx_scheduler c') = sp_plan_valid (cx_scheduler c) \<and>
     registered_operators c' = registered_operators c"

definition callback_ok :: "operator_callback \<Rightarrow> bool" where
  "callback_ok cb \<longleftrightarrow> (\<forall>f u c i r c'. context_ok c \<longrightarrow> cb f u c i = (r, c') \<longrightarrow> context_ok c' \<and> same_schedule c c')"

definition env_ok :: "execution_env \<Rightarrow> bool" where
  "env_ok env \<longleftrightarrow> bounded_heap (ee_heap env) \<and> impls_ok (ee_impls env) \<and> callback_ok (ee_evaluate env) \<and>
     callback_ok (ee_save_state env) \<and> callback_ok (ee_restore_state env)"

lemma same_schedule_refl [simp]: "same_schedule c c"
  by (simp add: same_schedule_def)

lemma same_schedule_trans: "same_schedule c d \<Longrightarrow> same_schedule d e \<Longrightarrow> same_schedule c e"
  by (simp add: same_schedule_def)

lemma registered_length: "length (rg_records (w_operators (cx_world c))) = length (registered_operators c)"
  by (simp add: registered_operators_def scheduled_operators_def)

section \<open>Field data\<close>

lemma rewritten_field:
  assumes "field_ok f" "rewritten f f'"
  shows "field_ok f' \<and> sim_field_bytes (Some f') = sim_field_bytes (Some f)"
proof -
  obtain bytes where f': "f' = f\<lparr>f_data := Some bytes\<rparr>" "length bytes = length (the (f_data f))"
    using assms(2) by (auto simp: rewritten_def)
  have "field_storage_ok f" "f_magic f = SIM_FIELD_MAGIC" "field_metadata_ok f"
    using assms(1) by (simp_all add: field_ok_def)
  then have "field_storage_ok f'" "f_magic f' = SIM_FIELD_MAGIC" "field_metadata_ok f'"
    using f' by (auto simp: field_storage_ok_def field_shape_def field_metadata_ok_def sim_field_representation_def
        storage_is_complex_Some)
  then show ?thesis using f' by (simp add: field_ok_def sim_field_bytes_def)
qed

lemma rewritten_fields:
  assumes "list_all2 rewritten fs fs'" "\<forall>f \<in> set fs. field_ok f"
  shows "(\<forall>f \<in> set fs'. field_ok f) \<and> field_bytes_total fs' = field_bytes_total fs \<and> length fs' = length fs"
  using assms
proof (induction rule: list_all2_induct)
  case (Cons f fs f' fs')
  then show ?case using rewritten_field [of f f'] by (simp add: field_bytes_total_def)
qed (simp add: field_bytes_total_def)

lemma set_fields_ok:
  assumes "context_ok c" "list_all2 rewritten (w_fields (cx_world c)) fs"
  shows "context_ok (set_fields fs c)" "same_schedule c (set_fields fs c)"
proof -
  have "\<forall>f \<in> set (w_fields (cx_world c)). field_ok f" using assms(1) by (simp add: context_ok_def)
  from rewritten_fields [OF assms(2) this] show "context_ok (set_fields fs c)"
    using assms(1)
    by (simp add: context_ok_defs set_fields_def world_ok_def registered_operators_def split: option.splits)
  show "same_schedule c (set_fields fs c)"
    by (simp add: same_schedule_def set_fields_def registered_operators_def)
qed

lemma rewritten_refl: "field_ok f \<Longrightarrow> rewritten f f"
  by (auto simp: rewritten_def field_ok_def field_storage_ok_def intro!: exI [of _ "the (f_data f)"])

lemma rewritten_trans: "rewritten f g \<Longrightarrow> rewritten g h \<Longrightarrow> rewritten f h"
  by (auto simp: rewritten_def)

lemma all_rewritten_refl: "\<forall>f \<in> set fs. field_ok f \<Longrightarrow> list_all2 rewritten fs fs"
  by (simp add: list_all2_conv_all_nth rewritten_refl)

section \<open>Running an operator keeps the invariant\<close>

lemma set_operator_ok:
  assumes "context_ok c" "operator_at c i = Some op" "SimOperator.truncate op' = SimOperator.truncate op"
  shows "context_ok (set_operator i op' c) \<and> same_schedule c (set_operator i op' c)"
proof -
  have i: "i < length (rg_records (w_operators (cx_world c)))" "rg_records (w_operators (cx_world c)) ! i = op"
    using assms(2) by (auto simp: operator_at_def sim_operator_registry_get_def split: if_splits)
  have "registered_operators (set_operator i op' c) = (registered_operators c)[i := SimOperator.truncate op']"
    by (simp add: registered_operators_def scheduled_operators_def set_operator_def set_operators_def map_update)
  also have "\<dots> = registered_operators c"
    using i assms(3) by (simp add: registered_operators_def scheduled_operators_def list_update_same_conv)
  finally have ops: "registered_operators (set_operator i op' c) = registered_operators c" .
  then show ?thesis using assms(1)
    by (simp add: context_ok_defs same_schedule_def set_operator_def set_operators_def world_ok_def split: option.splits)
qed

lemma set_kernel_ok:
  assumes "context_ok c" "operator_at c i = Some op"
  shows "context_ok (set_operator i (op\<lparr>op_kernel := k\<rparr>) c)"
    "same_schedule c (set_operator i (op\<lparr>op_kernel := k\<rparr>) c)"
    "operator_at (set_operator i (op\<lparr>op_kernel := k\<rparr>) c) i = Some (op\<lparr>op_kernel := k\<rparr>)"
proof -
  have "SimOperator.truncate (op\<lparr>op_kernel := k\<rparr>) = SimOperator.truncate op" by (simp add: SimOperator.truncate_def)
  from set_operator_ok [OF assms this]
  show "context_ok (set_operator i (op\<lparr>op_kernel := k\<rparr>) c)" "same_schedule c (set_operator i (op\<lparr>op_kernel := k\<rparr>) c)"
    by simp_all
  show "operator_at (set_operator i (op\<lparr>op_kernel := k\<rparr>) c) i = Some (op\<lparr>op_kernel := k\<rparr>)"
    using assms(2)
    by (auto simp: operator_at_def sim_operator_registry_get_def set_operator_def set_operators_def split: if_splits)
qed

lemma launch_rewrites:
  assumes "impls_ok impls" "\<forall>f \<in> set fs. field_ok f" "backend_launch impls b kern fs = (b', kern', fs')"
  shows "list_all2 rewritten fs fs'"
proof (cases "bk_type b")
  case (Unnamed n)
  then show ?thesis using assms(2,3) by (auto simp: backend_launch_def intro: all_rewritten_refl)
next
  case (Named type)
  show ?thesis
  proof (cases "optional_impl impls type")
    case None
    then show ?thesis using Named assms(2,3) by (auto simp: backend_launch_def intro: all_rewritten_refl)
  next
    case (Some impl)
    obtain r b1 ps fs1 where l: "im_launch impl b kern fs = (r, b1, ps, fs1)" by (metis prod_cases4)
    then have "fs' = fs1" using Named Some assms(3) by (simp add: backend_launch_def)
    then show ?thesis using assms(1,2) Some l by (auto simp: impls_ok_def launch_ok_def)
  qed
qed

lemma fallback_rewrites:
  assumes "impls_ok impls" "\<forall>f \<in> set fs. field_ok f" "sim_context_launch_cpu_fallback impls kern fs = (r, kern', fs')"
  shows "list_all2 rewritten fs fs'"
proof (cases "bk_last_error (backend_init impls zero_backend) = SIM_RESULT_OK")
  case False
  then show ?thesis using assms(2,3) by (auto simp: sim_context_launch_cpu_fallback_def Let_def intro: all_rewritten_refl)
next
  case True
  obtain b k fs1 where l: "backend_launch impls (backend_init impls zero_backend) kern fs = (b, k, fs1)"
    by (metis prod_cases3)
  then have "fs' = fs1" using True assms(3) by (simp add: sim_context_launch_cpu_fallback_def Let_def)
  then show ?thesis using launch_rewrites [OF assms(1,2) l] by simp
qed

text \<open>The operator at a position, whatever its kernel.\<close>

definition running :: "SimContext \<Rightarrow> nat \<Rightarrow> SimOperatorEntry \<Rightarrow> bool" where
  "running c i op \<longleftrightarrow> (\<exists>k. operator_at c i = Some (op\<lparr>op_kernel := k\<rparr>))"

lemma runningI: "operator_at c i = Some op \<Longrightarrow> running c i op"
  by (auto simp: running_def intro: exI [of _ "op_kernel op"])

lemma set_kernel_running:
  assumes "context_ok c" "running c i op"
  shows "context_ok (set_operator i (op\<lparr>op_kernel := k\<rparr>) c)"
    "same_schedule c (set_operator i (op\<lparr>op_kernel := k\<rparr>) c)"
    "running (set_operator i (op\<lparr>op_kernel := k\<rparr>) c) i op"
proof -
  obtain k0 where "operator_at c i = Some (op\<lparr>op_kernel := k0\<rparr>)" using assms(2) by (auto simp: running_def)
  from set_kernel_ok [OF assms(1) this, of k]
  show "context_ok (set_operator i (op\<lparr>op_kernel := k\<rparr>) c)"
    "same_schedule c (set_operator i (op\<lparr>op_kernel := k\<rparr>) c)"
    "running (set_operator i (op\<lparr>op_kernel := k\<rparr>) c) i op" by (auto simp: running_def)
qed

lemma store_launch_ok:
  assumes "context_ok c" "running c i op" "list_all2 rewritten (w_fields (cx_world c)) fs"
  shows "context_ok (store_launch i op kern fs c)" "same_schedule c (store_launch i op kern fs c)"
    "cx_runtime (store_launch i op kern fs c) = cx_runtime c" "running (store_launch i op kern fs c) i op"
proof -
  let ?d = "set_operator i (op\<lparr>op_kernel := Some kern\<rparr>) c"
  have "w_fields (cx_world ?d) = w_fields (cx_world c)" by (simp add: set_operator_def set_operators_def)
  then have f: "list_all2 rewritten (w_fields (cx_world ?d)) fs" using assms(3) by simp
  note d = set_kernel_running [OF assms(1,2), of "Some kern"]
  show "context_ok (store_launch i op kern fs c)" "same_schedule c (store_launch i op kern fs c)"
    using set_fields_ok [OF d(1) f] same_schedule_trans [OF d(2)] by (simp_all add: store_launch_def)
  show "cx_runtime (store_launch i op kern fs c) = cx_runtime c"
    by (simp add: store_launch_def set_fields_def set_operator_def set_operators_def)
  show "running (store_launch i op kern fs c) i op"
    using d(3) by (simp add: store_launch_def running_def operator_at_def set_fields_def)
qed

text \<open>Members outside the invariant.\<close>

lemma record_dispatch_ok [simp]:
  "context_ok (record_dispatch b k u r op c) = context_ok c"
  "same_schedule d (record_dispatch b k u r op c) = same_schedule d c"
  "cx_runtime (record_dispatch b k u r op c) = cx_runtime c"
  by (simp_all add: record_dispatch_def context_ok_defs same_schedule_def registered_operators_def)

lemma set_backend_ok [simp]:
  "context_ok (sim_context_set_backend b c) = context_ok c"
  "same_schedule d (sim_context_set_backend b c) = same_schedule d c"
  "cx_runtime (sim_context_set_backend b c) = cx_runtime c"
  "w_fields (cx_world (sim_context_set_backend b c)) = w_fields (cx_world c)"
  "running (sim_context_set_backend b c) i op = running c i op"
  by (simp_all add: sim_context_set_backend_def context_ok_defs same_schedule_def registered_operators_def
      running_def operator_at_def)

lemma run_fallback_ok:
  assumes "context_ok c" "impls_ok (ee_impls env)" "running c i op"
    and "run_fallback env i op kern reason c = (r, c')"
  shows "context_ok c' \<and> same_schedule c c' \<and> cx_runtime c' = cx_runtime c"
proof -
  obtain r1 k fs where l: "sim_context_launch_cpu_fallback (ee_impls env) kern (w_fields (cx_world c)) = (r1, k, fs)"
    by (metis prod_cases3)
  have "\<forall>f \<in> set (w_fields (cx_world c)). field_ok f" using assms(1) by (simp add: context_ok_def)
  note fs = fallback_rewrites [OF assms(2) this l]
  show ?thesis using assms(4) l store_launch_ok [OF assms(1,3) fs, of k]
    by (auto simp: run_fallback_def Let_def)
qed

lemma dispatch_kernel_ok:
  assumes "context_ok c" "impls_ok (ee_impls env)" "running c i op"
    and "dispatch_kernel env i op kern requested c = (r, c')"
  shows "context_ok c' \<and> same_schedule c c' \<and> cx_runtime c' = cx_runtime c"
proof (cases "fallback_reason (w_fields (cx_world c)) requested kern")
  case (Some reason)
  then show ?thesis using assms run_fallback_ok [OF assms(1-3)] by (simp add: dispatch_kernel_def)
next
  case None
  have all: "\<forall>f \<in> set (w_fields (cx_world c)). field_ok f" using assms(1) by (simp add: context_ok_def)
  obtain b k fs where l: "backend_launch (ee_impls env) requested kern (w_fields (cx_world c)) = (b, k, fs)"
    by (metis prod_cases3)
  let ?d = "sim_context_set_backend (Some b) (store_launch i op k fs c)"
  have d: "context_ok ?d" "same_schedule c ?d" "running ?d i op" "cx_runtime ?d = cx_runtime c"
    using store_launch_ok [OF assms(1,3) launch_rewrites [OF assms(2) all l], of k] by simp_all
  show ?thesis
  proof (cases "bk_last_error b = SIM_RESULT_NOT_SUPPORTED")
    case True
    then have "run_fallback env i op k ''unsupported_ir_subset'' ?d = (r, c')"
      using assms(4) None l by (simp add: dispatch_kernel_def)
    from run_fallback_ok [OF d(1) assms(2) d(3) this] show ?thesis
      using d(4) same_schedule_trans [OF d(2)] by auto
  next
    case False
    then show ?thesis using assms(4) None l d by (auto simp: dispatch_kernel_def)
  qed
qed

lemma execute_kernel_ok:
  assumes "context_ok c" "impls_ok (ee_impls env)" "sim_context_execute_kernel env c i = (r, c')"
  shows "context_ok c' \<and> same_schedule c c' \<and> cx_runtime c' = cx_runtime c"
proof (cases "\<exists>op kern requested. operator_at c i = Some op \<and> op_kernel op = Some kern \<and> sp_backend (cx_scheduler c) = Some requested")
  case False
  then have "c' = c" using assms(3) by (auto simp: sim_context_execute_kernel_def split: option.splits)
  then show ?thesis using assms(1) by simp
next
  case True
  then obtain op kern requested where op: "operator_at c i = Some op" "op_kernel op = Some kern"
    "sp_backend (cx_scheduler c) = Some requested" by blast
  obtain bound k where b: "bound_kernel env c kern = (bound, k)" by fastforce
  let ?d = "set_operator i (op\<lparr>op_kernel := Some k\<rparr>) c"
  note d = set_kernel_running [OF assms(1) runningI [OF op(1)], of "Some k"]
  have rs: "cx_runtime ?d = cx_runtime c" by (simp add: set_operator_def set_operators_def)
  show ?thesis
  proof (cases "bound = SIM_RESULT_OK")
    case False
    then show ?thesis using assms(3) op b d rs by (auto simp: sim_context_execute_kernel_def)
  next
    case True
    then have "dispatch_kernel env i op k requested ?d = (r, c')"
      using assms(3) op b by (simp add: sim_context_execute_kernel_def)
    from dispatch_kernel_ok [OF d(1) assms(2) d(3) this] show ?thesis
      using rs same_schedule_trans [OF d(2)] by auto
  qed
qed
lemma set_runtime_ok:
  assumes "context_ok c" "length (rs_slots rs) = length (rs_slots (cx_runtime c))"
    and "rs_continuity_capacity rs = rs_continuity_capacity (cx_runtime c)" "metrics_ok rs"
  shows "context_ok (c\<lparr>cx_runtime := rs\<rparr>)" "same_schedule c (c\<lparr>cx_runtime := rs\<rparr>)"
  using assms by (simp_all add: context_ok_defs same_schedule_def registered_operators_def slots_ok_def)

lemma metrics_ok_slots [simp]:
  "metrics_ok (rs\<lparr>rs_slots := slots\<rparr>) = metrics_ok rs"
  "metrics_ok (rs\<lparr>rs_current_step_warp_mask := m\<rparr>) = metrics_ok rs"
  "metrics_ok (rs\<lparr>rs_drift_field_stats_step_index := n\<rparr>) = metrics_ok rs"
  by (simp_all add: metrics_ok_def)

lemma length_scalars [simp]: "length (scalars bytes n) = n"
  by (simp add: scalars_def)

lemma length_concat_map:
  "(\<And>x. length (h x) = k) \<Longrightarrow> length (concat (map h xs)) = k * length xs"
  by (induction xs) simp_all

text \<open>The scaled data, for whatever factor.\<close>

lemma overwrite_all_length:
  "8 * n = length bytes \<Longrightarrow>
    length (memcpy_at bytes 0 (concat (map (\<lambda>v. bytes_le 8 (g v)) (scalars bytes n)))) = length bytes"
  by (simp add: memcpy_at_def length_concat_map [where k = 8])

lemma budget_rewrites:
  assumes "field_ok f"
  shows "rewritten f (enforce_budget env budget f)"
proof (cases "\<exists>bytes. sim_field_real_data (Some f) = Some bytes \<and> (f_element_size f = 8 \<or> f_element_size f = 16)")
  case False
  then have "enforce_budget env budget f = f" by (auto simp: enforce_budget_def Let_def split: option.splits)
  then show ?thesis using rewritten_refl [OF assms] by simp
next
  case True
  then obtain bytes where bytes: "sim_field_real_data (Some f) = Some bytes" by blast
  let ?n = "sim_field_element_count (f_layout f)" and ?k = "f_element_size f"
  have data: "f_data f = Some bytes" "sim_field_components (Some f) = ?k div 8"
    using bytes True
    by (auto simp: sim_field_real_data_def sim_field_components_def Let_def split: if_splits)
  have k: "unat ?k = 8 * unat (?k div 8)" using True by auto
  have len: "unat ?n * unat ?k = length bytes" "length bytes < 2 ^ 64"
    using field_bytes_exact(1,2) [OF assms] data(1) unat_lt_64 [of "sim_field_bytes (Some f)"] by simp_all
  have "unat ?n * unat (?k div 8) \<le> unat ?n * unat ?k" using k by simp
  then have "unat (?n * (?k div 8)) = unat ?n * unat (?k div 8)"
    using len by (intro unat_mult_exact) linarith
  then have total: "8 * unat (?n * (?k div 8)) = length bytes" using len(1) k by simp
  have set: "rewritten f (f\<lparr>f_data := Some bs\<rparr>)" if "length bs = length bytes" for bs
    using that data(1) by (auto simp: rewritten_def)
  have count: "8 * unat (?n * sim_field_components (Some f)) = length bytes" using total data(2) by simp
  show ?thesis
    unfolding enforce_budget_def Let_def bytes option.case
    by (simp only: rewritten_refl [OF assms] set [OF overwrite_all_length [OF count]] if_split simp_thms)
qed

lemma budgets_rewrite:
  assumes "\<forall>f \<in> set fs. field_ok f"
  shows "list_all2 rewritten fs
    (fold (\<lambda>i fs. if i < length fs then fs[i := enforce_budget env budget (fs ! i)] else fs) is fs)"
proof -
  have "list_all2 rewritten fs gs \<Longrightarrow> list_all2 rewritten fs
      (fold (\<lambda>i fs. if i < length fs then fs[i := enforce_budget env budget (fs ! i)] else fs) is gs)" for gs
  proof (induction "is" arbitrary: gs)
    case (Cons i "is")
    have "list_all2 rewritten fs (gs[i := enforce_budget env budget (gs ! i)])" if "i < length gs"
    proof -
      have "field_ok (gs ! i)" using rewritten_fields [OF Cons.prems assms] that by simp
      then have "rewritten (fs ! i) (enforce_budget env budget (gs ! i))"
        using Cons.prems that budget_rewrites rewritten_trans by (metis list_all2_conv_all_nth)
      then show ?thesis using Cons.prems that by (simp add: list_all2_conv_all_nth nth_list_update)
    qed
    then show ?case using Cons.IH Cons.prems by simp
  qed simp
  then show ?thesis using all_rewritten_refl [OF assms] by simp
qed

lemma hit_length:
  "length (fold (\<lambda>i slots. if P i then slots[i := g i slots] else slots) is slots) = length slots"
  by (induction "is" arbitrary: slots) simp_all

lemma norm_budget_ok:
  assumes "context_ok c"
  shows "context_ok (sim_context_apply_norm_budget env c op) \<and> same_schedule c (sim_context_apply_norm_budget env c op)"
proof -
  have all: "\<forall>f \<in> set (w_fields (cx_world c)). field_ok f" using assms by (simp add: context_ok_def)
  show ?thesis
    using assms set_fields_ok [OF assms budgets_rewrite [OF all]]
    by (auto simp: sim_context_apply_norm_budget_def Let_def split: option.split)
qed

lemma continuity_hit_ok:
  assumes "context_ok c"
  shows "context_ok (sim_context_record_continuity_hit c op) \<and> same_schedule c (sim_context_record_continuity_hit c op)"
proof -
  let ?rs = "(cx_runtime c)\<lparr>rs_slots :=
      fold (\<lambda>i slots. if bit (op_write_mask op) i \<and> i < length (w_fields (cx_world c))
             then slots[i := hit_slot (stabilized_mode (cf_continuity (op_config op))) (slots ! i)] else slots)
        [0..<continuity_mask_width] (rs_slots (cx_runtime c))\<rparr>"
  have "sim_context_record_continuity_hit c op = c \<or> sim_context_record_continuity_hit c op = c\<lparr>cx_runtime := ?rs\<rparr>"
    by (simp add: sim_context_record_continuity_hit_def Let_def)
  moreover have "metrics_ok ?rs" using assms by (simp add: context_ok_def arrays_ok_def)
  ultimately show ?thesis
    using set_runtime_ok [OF assms, of ?rs] assms by (auto simp: hit_length)
qed

lemma raise_warp_ok:
  assumes "context_ok c"
  shows "context_ok (raise_warp_mask level c) \<and> same_schedule c (raise_warp_mask level c)"
  using assms set_runtime_ok [OF assms] by (auto simp: raise_warp_mask_def Let_def context_ok_def arrays_ok_def)

lemma account_operator_ok:
  assumes "context_ok c"
  shows "context_ok (account_operator env c i) \<and> same_schedule c (account_operator env c i)"
proof (cases "operator_at c i")
  case (Some op)
  let ?a = "sim_context_apply_norm_budget env c op"
  let ?b = "sim_context_record_continuity_hit ?a op"
  have "context_ok ?a \<and> same_schedule c ?a" by (rule norm_budget_ok [OF assms])
  moreover have "context_ok ?b \<and> same_schedule ?a ?b" using continuity_hit_ok calculation by blast
  moreover have "context_ok (raise_warp_mask l ?b) \<and> same_schedule ?b (raise_warp_mask l ?b)" for l
    using raise_warp_ok calculation by blast
  ultimately show ?thesis using Some by (auto simp: account_operator_def intro: same_schedule_trans)
qed (use assms in \<open>simp add: account_operator_def\<close>)

section \<open>One operator\<close>

definition keeps :: "SimContext \<Rightarrow> SimContext \<Rightarrow> bool" where
  "keeps c c' \<longleftrightarrow> context_ok c' \<and> same_schedule c c'"

lemma keeps_refl: "context_ok c \<Longrightarrow> keeps c c"
  by (simp add: keeps_def)

lemma keeps_trans: "keeps c d \<Longrightarrow> keeps d e \<Longrightarrow> keeps c e"
  by (auto simp: keeps_def intro: same_schedule_trans)

lemma callback_keeps: "callback_ok cb \<Longrightarrow> context_ok c \<Longrightarrow> cb f u c i = (r, c') \<Longrightarrow> keeps c c'"
  by (auto simp: callback_ok_def keeps_def)

lemma run_operator_keeps:
  assumes "env_ok env" "context_ok c" "run_operator env c i = (r, c')"
  shows "keeps c c'"
proof (cases "operator_at c i")
  case None
  then show ?thesis using assms by (simp add: run_operator_def keeps_refl)
next
  case (Some op)
  show ?thesis
  proof (cases "op_kernel op = None")
    case False
    then show ?thesis using execute_kernel_ok [OF assms(2), of env i r c'] assms Some
      by (simp add: run_operator_def env_ok_def keeps_def)
  next
    case True
    then show ?thesis using assms Some callback_keeps [of "ee_evaluate env" c]
      by (auto simp: run_operator_def env_ok_def keeps_refl split: option.splits)
  qed
qed

lemma restore_operator_keeps:
  assumes "env_ok env" "context_ok c" "restore_operator env did_save r0 c i = (r, c')"
  shows "keeps c c'"
proof (cases "\<exists>op f. operator_at c i = Some op \<and> did_save \<and> op_restore_state op = Some f")
  case False
  then show ?thesis using assms by (auto simp: restore_operator_def keeps_refl split: option.splits bool.splits)
next
  case True
  then obtain op f where op: "operator_at c i = Some op" "did_save" "op_restore_state op = Some f" by blast
  obtain r1 d where "ee_restore_state env f (op_userdata op) c i = (r1, d)" by fastforce
  then show ?thesis using assms op callback_keeps [of "ee_restore_state env" c f "op_userdata op" i r1 d]
    by (simp add: restore_operator_def env_ok_def)
qed

text \<open>The state saved before an operator runs in drift evaluation.\<close>

definition save_operator :: "execution_env \<Rightarrow> SimContext \<Rightarrow> nat \<Rightarrow> SimOperatorEntry \<Rightarrow> SimResult \<times> bool \<times> SimContext" where
  "save_operator env c i op =
     (case op_save_state op of
        Some f \<Rightarrow>
          if sim_context_in_drift (Some c)
          then (let (result, c) = ee_save_state env f (op_userdata op) c i in (result, True, c))
          else (SIM_RESULT_OK, False, c)
      | None \<Rightarrow> (SIM_RESULT_OK, False, c))"

lemma save_operator_keeps:
  assumes "env_ok env" "context_ok c" "save_operator env c i op = (r, did, c')"
  shows "keeps c c'"
proof (cases "\<exists>f. op_save_state op = Some f \<and> sim_context_in_drift (Some c)")
  case False
  then show ?thesis using assms by (auto simp: save_operator_def keeps_refl split: option.splits)
next
  case True
  then obtain f where op: "op_save_state op = Some f" "sim_context_in_drift (Some c)" by blast
  obtain r1 d where "ee_save_state env f (op_userdata op) c i = (r1, d)" by fastforce
  then show ?thesis using assms op callback_keeps [of "ee_save_state env" c f "op_userdata op" i r1 d]
    by (simp add: save_operator_def env_ok_def)
qed

lemma apply_operator_steps:
  assumes "operator_at c i = Some op" "save_operator env c i op = (saved, did, c1)"
    and "run_operator env c1 i = (r2, c2)" "restore_operator env did r2 c2 i = (r3, c3)"
  shows "sim_context_apply_operator env c i =
    (if saved \<noteq> SIM_RESULT_OK then (saved, c1)
     else if r3 = SIM_RESULT_OK \<and> \<not> sim_context_in_drift (Some c3) then (r3, account_operator env c3 i)
     else (r3, c3))"
  using assms by (simp add: sim_context_apply_operator_def save_operator_def Let_def)

lemma apply_operator_keeps:
  assumes "env_ok env" "context_ok c" "sim_context_apply_operator env c i = (r, c')"
  shows "keeps c c'"
proof (cases "operator_at c i")
  case None
  then show ?thesis using assms by (simp add: sim_context_apply_operator_def keeps_refl)
next
  case (Some op)
  obtain saved did c1 where 1: "save_operator env c i op = (saved, did, c1)" by (metis prod_cases3)
  obtain r2 c2 where 2: "run_operator env c1 i = (r2, c2)" by fastforce
  obtain r3 c3 where 3: "restore_operator env did r2 c2 i = (r3, c3)" by fastforce
  have k1: "keeps c c1" by (rule save_operator_keeps [OF assms(1,2) 1])
  then have k2: "keeps c1 c2" using run_operator_keeps [OF assms(1) _ 2] by (simp add: keeps_def)
  then have k3: "keeps c2 c3" using restore_operator_keeps [OF assms(1) _ 3] by (simp add: keeps_def)
  then have k4: "keeps c3 (account_operator env c3 i)" using account_operator_ok by (simp add: keeps_def)
  have c3: "keeps c c3" using k1 k2 k3 keeps_trans by blast
  have "c' \<in> {c1, c3, account_operator env c3 i}"
    using assms(3) apply_operator_steps [OF Some 1 2 3] by (auto split: if_splits)
  then show ?thesis using k1 c3 k4 keeps_trans by blast
qed

section \<open>The loop\<close>

lemma profiler_keeps [simp]:
  "keeps c (d\<lparr>cx_profiler := p\<rparr>) = keeps c d" "keeps c (d\<lparr>cx_profiler_ready := b\<rparr>) = keeps c d"
  by (simp_all add: keeps_def context_ok_defs same_schedule_def registered_operators_def)

lemma record_time_keeps: "keeps c d \<Longrightarrow> keeps c (record_time ready clock i k d)"
  by (simp add: record_time_def Let_def)

lemma keeps_operator_at:
  "keeps c d \<Longrightarrow> operator_at d i = None \<longleftrightarrow> operator_at c i = None"
  using registered_length [of c] registered_length [of d]
  by (auto simp: keeps_def same_schedule_def operator_at_def sim_operator_registry_get_def split: if_splits)

lemma execute_loop_returns:
  assumes "env_ok env" "context_ok c"
    and order: "plan_order (sp_plan (cx_scheduler c)) = order" "plan_count (sp_plan (cx_scheduler c)) = length order"
    and ops: "\<forall>k \<in> set order. operator_at c k \<noteq> None" and i: "i \<le> length order" "applied = take i order"
  shows "\<exists>r c' n. execute_loop env ready clock i c applied = Some (r, c', take n order) \<and> keeps c c' \<and>
    i \<le> n \<and> n \<le> length order \<and> (r = SIM_RESULT_OK \<longrightarrow> n = length order) \<and> (r \<noteq> SIM_RESULT_OK \<longrightarrow> i < n)"
  using assms(2-)
proof (induction "length order - i" arbitrary: i c applied)
  case 0
  then have "i = length order" by simp
  then show ?case using 0 by (auto simp: execute_loop.simps keeps_refl)
next
  case (Suc m)
  let ?k = "order ! i"
  have i: "i < length order" using Suc.hyps(2) by simp
  obtain op where op: "operator_at c ?k = Some op" using Suc.prems(4) nth_mem [OF i] by blast
  obtain r d where step: "sim_context_apply_operator env c ?k = (r, d)" by fastforce
  let ?d = "record_time ready clock i ?k d"
  have d: "keeps c ?d" using apply_operator_keeps [OF assms(1) Suc.prems(1) step] by (rule record_time_keeps)
  have take: "take i order @ [?k] = take (i + 1) order" using i by (simp add: take_Suc_conv_app_nth)
  have unfold: "execute_loop env ready clock i c applied =
      (if r \<noteq> SIM_RESULT_OK then Some (r, ?d, take (i + 1) order)
       else execute_loop env ready clock (i + 1) ?d (take (i + 1) order))"
    using Suc.prems(2,3,6) i op step take by (subst execute_loop.simps) (simp add: Let_def)
  show ?case
  proof (cases "r = SIM_RESULT_OK")
    case False
    then show ?thesis using unfold d i
      by (intro exI [of _ r] exI [of _ ?d] exI [of _ "i + 1"]) simp
  next
    case True
    have "\<exists>r' c' n. execute_loop env ready clock (i + 1) ?d (take (i + 1) order) = Some (r', c', take n order) \<and>
        keeps ?d c' \<and> i + 1 \<le> n \<and> n \<le> length order \<and> (r' = SIM_RESULT_OK \<longrightarrow> n = length order) \<and>
        (r' \<noteq> SIM_RESULT_OK \<longrightarrow> i + 1 < n)"
      using d Suc.prems(2-4) i keeps_operator_at [OF d] Suc.hyps(2)
      by (intro Suc.hyps(1)) (auto simp: keeps_def same_schedule_def)
    then obtain r' c' n where rest: "execute_loop env ready clock (i + 1) ?d (take (i + 1) order) = Some (r', c', take n order)"
      "keeps ?d c'" "i + 1 \<le> n" "n \<le> length order" "r' = SIM_RESULT_OK \<longrightarrow> n = length order"
      "r' \<noteq> SIM_RESULT_OK \<longrightarrow> i + 1 < n" by blast
    show ?thesis
      using unfold True keeps_trans [OF d rest(2)] rest
      by (intro exI [of _ r'] exI [of _ c'] exI [of _ n]) simp
  qed
qed

section \<open>Execution\<close>

lemma update_slots_length: "length fs \<le> length slots \<Longrightarrow> length (update_slots g fs slots) = length slots"
  by (simp add: update_slots_def)

text \<open>There is a slot for every field, so the capture of the statistics never has to grow the arrays.\<close>

lemma capture_keeps:
  assumes "context_ok c"
  shows "\<exists>d. sim_context_capture_drift_field_stats env c = Some d \<and> keeps c d"
proof -
  let ?fs = "w_fields (cx_world c)" and ?rs = "cx_runtime c"
  have cap: "\<not> unat (rs_continuity_capacity ?rs) < length ?fs" "length ?fs \<le> length (rs_slots ?rs)" "metrics_ok ?rs"
    using assms by (auto simp: context_ok_def arrays_ok_def slots_ok_def)
  have set: "keeps c (c\<lparr>cx_runtime := rs\<rparr>)" if "length (rs_slots rs) = length (rs_slots ?rs)"
      "rs_continuity_capacity rs = rs_continuity_capacity ?rs" "metrics_ok rs" for rs
    using set_runtime_ok [OF assms that] by (simp add: keeps_def)
  define stats where "stats = list_ex fs_drift_stats_requested (take (min (unat (rs_continuity_capacity ?rs)) (length ?fs)) (rs_slots ?rs))"
  define snap where "snap = list_ex fs_snapshot_requested (take (min (unat (rs_continuity_capacity ?rs)) (length ?fs)) (rs_slots ?rs))"
  define rs1 where "rs1 = (if stats then ?rs\<lparr>rs_slots := update_slots (capture_stats (ee_field_stats env)) ?fs (rs_slots ?rs),
      rs_drift_field_stats_step_index := rs_step_index ?rs + 1\<rparr> else ?rs)"
  define rs2 where "rs2 = (if snap then rs1\<lparr>rs_slots := update_slots (capture_snapshot (ee_heap env) (rs_step_index rs1)) ?fs
      (rs_slots rs1)\<rparr> else rs1)"
  have "length (rs_slots rs2) = length (rs_slots ?rs)" "rs_continuity_capacity rs2 = rs_continuity_capacity ?rs" "metrics_ok rs2"
    using cap by (simp_all add: rs1_def rs2_def update_slots_length)
  moreover have "sim_context_capture_drift_field_stats env c = Some c \<or>
      sim_context_capture_drift_field_stats env c = Some (c\<lparr>cx_runtime := rs2\<rparr>)"
    using cap(1) unfolding sim_context_capture_drift_field_stats_def Let_def
      stats_def [symmetric] snap_def [symmetric]
    by (simp add: rs1_def rs2_def)
  ultimately show ?thesis using set [of rs2] keeps_refl [OF assms] by auto
qed

lemma reset_counters_keeps:
  assumes "context_ok c"
  shows "keeps c (sim_context_reset_continuity_counters c)"
  using set_runtime_ok [OF assms] assms
  by (simp add: sim_context_reset_continuity_counters_def keeps_def map_slots_def metrics_ok_def context_ok_def arrays_ok_def)

lemma configure_profiler_keeps:
  "keeps c d \<Longrightarrow> sim_context_configure_profiler heap d n = (ready, d') \<Longrightarrow> keeps c d'"
  by (auto simp: sim_context_configure_profiler_def Let_def split: if_splits prod.splits)

lemma keeps_plan: "keeps c d \<Longrightarrow> sp_plan (cx_scheduler d) = sp_plan (cx_scheduler c)"
  "keeps c d \<Longrightarrow> sp_plan_valid (cx_scheduler d) = sp_plan_valid (cx_scheduler c)"
  "keeps c d \<Longrightarrow> registered_operators d = registered_operators c"
  by (simp_all add: keeps_def same_schedule_def)

lemma execute_prepared_returns:
  assumes "env_ok env" "context_ok c" "sp_plan_valid (cx_scheduler c)"
  defines "order \<equiv> plan_order (sp_plan (cx_scheduler c))"
  shows "\<exists>r c' n. sim_context_execute_prepared env clock c = Some (r, c', take n order) \<and> keeps c c' \<and>
    n \<le> length order \<and> (r = SIM_RESULT_OK \<longrightarrow> n = length order) \<and> (r \<noteq> SIM_RESULT_OK \<longrightarrow> 0 < n)"
proof -
  have plan: "plan_respects (registered_operators c) (sp_plan (cx_scheduler c))"
    using assms(2,3) by (simp add: context_ok_def plan_current_def)
  then have count: "plan_count (sp_plan (cx_scheduler c)) = length order"
    using distinct_card [of order] by (simp add: plan_respects_def order_def)
  let ?c1 = "sim_context_reset_continuity_counters c"
  have c1: "keeps c ?c1" using reset_counters_keeps [OF assms(2)] .
  obtain ready c2 where conf: "sim_context_configure_profiler (ee_heap env) ?c1 (length order) = (ready, c2)" by fastforce
  define c3 where "c3 = (if ready then c2\<lparr>cx_profiler := sim_profiler_begin_frame (clock 0) (cx_profiler c2)\<rparr> else c2)"
  have c3: "keeps c c3" using configure_profiler_keeps [OF c1 conf] by (simp add: c3_def)
  have at: "\<forall>k \<in> set order. operator_at c3 k \<noteq> None"
    using plan keeps_operator_at [OF c3] registered_length [of c]
    by (auto simp: plan_respects_def order_def operator_at_def sim_operator_registry_get_def)
  obtain r c4 n where loop: "execute_loop env ready clock 0 c3 [] = Some (r, c4, take n order)" "keeps c3 c4"
    "n \<le> length order" "r = SIM_RESULT_OK \<longrightarrow> n = length order" "r \<noteq> SIM_RESULT_OK \<longrightarrow> 0 < n"
    using execute_loop_returns [OF assms(1) _ _ _ at, of 0 "[]" ready clock] c3 count keeps_plan(1) [OF c3]
    by (auto simp: keeps_def order_def)
  define c5 where "c5 = (if ready then c4\<lparr>cx_profiler :=
      sim_profiler_end_frame (clock (2 * length (take n order) + 1)) (cx_profiler c4)\<rparr> else c4)"
  have c4: "keeps c c4" and c5: "keeps c c5" using keeps_trans [OF c3 loop(2)] by (simp_all add: c5_def)
  obtain d where d: "sim_context_capture_drift_field_stats env c5 = Some d" "keeps c5 d"
    using capture_keeps [of c5 env] c5 by (auto simp: keeps_def)
  have run: "sim_context_execute_prepared env clock c =
      (if r \<noteq> SIM_RESULT_OK then Some (r, c4, take n order)
       else map_option (\<lambda>c. (SIM_RESULT_OK, c, take n order))
         (if sim_context_in_drift (Some c5) then sim_context_capture_drift_field_stats env c5 else Some c5))"
    using assms(3) conf loop(1) count keeps_plan(1) [OF c1]
    by (simp add: sim_context_execute_prepared_def Let_def c3_def [symmetric] c5_def [symmetric])
  show ?thesis
  proof (cases "r = SIM_RESULT_OK")
    case False
    then show ?thesis using run c4 loop(3,5) by (intro exI [of _ r] exI [of _ c4] exI [of _ n]) simp
  next
    case True
    then show ?thesis using run c5 d keeps_trans [OF c5 d(2)] loop(3,4)
      by (intro exI [of _ r] exI [of _ "if sim_context_in_drift (Some c5) then d else c5"] exI [of _ n]) simp
  qed
qed

lemma precedes_take:
  assumes "distinct xs" "precedes xs i j" "j \<in> set (take n xs)"
  shows "precedes (take n xs) i j"
proof -
  obtain a b where ab: "a < b" "b < length xs" "xs ! a = i" "xs ! b = j" using assms(2) by (auto simp: precedes_def)
  obtain k where k: "k < length (take n xs)" "take n xs ! k = j" using assms(3) by (auto simp: in_set_conv_nth)
  then have "k = b" using assms(1) ab nth_eq_iff_index_eq [of xs k b] by simp
  then show ?thesis using ab k unfolding precedes_def by (intro exI [of _ a] exI [of _ b]) simp
qed

lemma plan_prefix:
  assumes "plan_respects ops plan" "applied = take n (plan_order plan)"
  shows "distinct applied" "set applied \<subseteq> {..<length ops}"
    "n = length (plan_order plan) \<Longrightarrow> set applied = {..<length ops}"
    "(i, j) \<in> depends ops \<union> conflict ops \<Longrightarrow> j \<in> set applied \<Longrightarrow> precedes applied i j"
proof -
  have d: "distinct (plan_order plan)" "set (plan_order plan) = {..<length ops}" using assms(1) by (simp_all add: plan_respects_def)
  show "distinct applied" "set applied \<subseteq> {..<length ops}"
    "n = length (plan_order plan) \<Longrightarrow> set applied = {..<length ops}"
    using d assms(2) set_take_subset [of n "plan_order plan"] by auto
  assume "(i, j) \<in> depends ops \<union> conflict ops" "j \<in> set applied"
  moreover from this(1) have "precedes (plan_order plan) i j" using assms(1) by (auto simp: plan_respects_def)
  ultimately show "precedes applied i j" using precedes_take [OF d(1)] assms(2) by blast
qed

lemma execute_ok:
  assumes "env_ok env" "context_ok c" "registry_fits (registered_operators c)"
  shows "\<exists>r c' applied. sim_context_execute env clock c = Some (r, c', applied) \<and> context_ok c' \<and>
    registered_operators c' = registered_operators c \<and> distinct applied \<and>
    set applied \<subseteq> {..<length (registered_operators c)} \<and>
    (r = SIM_RESULT_OK \<longrightarrow> set applied = {..<length (registered_operators c)}) \<and>
    (\<forall>(i, j) \<in> depends (registered_operators c) \<union> conflict (registered_operators c).
       j \<in> set applied \<longrightarrow> precedes applied i j)"
proof -
  obtain r d where d: "sim_context_prepare_plan (ee_heap env) c = Some (r, d)" "context_ok d"
      "registered_operators d = registered_operators c" "r = SIM_RESULT_OK \<longrightarrow> prepared d"
    using prepare_plan_ok [OF assms(2) _ assms(3), of "ee_heap env"] assms(1)
    by (auto simp: env_ok_def registered_operators_def)
  show ?thesis
  proof (cases "r = SIM_RESULT_OK")
    case False
    then show ?thesis using d
      by (intro exI [of _ r] exI [of _ d] exI [of _ "[]"]) (simp add: sim_context_execute_def)
  next
    case True
    then have plan: "sp_plan_valid (cx_scheduler d)" "plan_respects (registered_operators c) (sp_plan (cx_scheduler d))"
      using d(3,4) by (simp_all add: prepared_def)
    obtain r' c' n where run: "sim_context_execute_prepared env clock d =
        Some (r', c', take n (plan_order (sp_plan (cx_scheduler d))))" "keeps d c'"
        "r' = SIM_RESULT_OK \<longrightarrow> n = length (plan_order (sp_plan (cx_scheduler d)))"
      using execute_prepared_returns [OF assms(1) d(2) plan(1), of clock] by auto
    note prefix = plan_prefix [OF plan(2) refl, of n]
    have "\<forall>(i, j) \<in> depends (registered_operators c) \<union> conflict (registered_operators c).
        j \<in> set (take n (plan_order (sp_plan (cx_scheduler d)))) \<longrightarrow>
        precedes (take n (plan_order (sp_plan (cx_scheduler d)))) i j"
      using plan_prefix(4) [OF plan(2) refl] by blast
    then show ?thesis using True d(1,3) run prefix(1-3) keeps_plan(3) [OF run(2)]
      by (intro exI [of _ r'] exI [of _ c'] exI [of _ "take n (plan_order (sp_plan (cx_scheduler d)))"])
         (simp add: sim_context_execute_def keeps_def)
  qed
qed

text \<open>
  C12. Executing a context always returns. The operators are applied at most once each, and an operator only
  after all it depends on and all it conflicts with from before; a success has applied every operator, and
  on a failure the operators after the failed one were not applied. The invariant of the context survives.
\<close>

theorem execute_in_order:
  assumes "env_ok env" "context_ok c" "registry_fits (registered_operators c)"
  shows "\<exists>r c' applied. sim_context_execute env clock c = Some (r, c', applied) \<and> context_ok c' \<and>
    registered_operators c' = registered_operators c \<and> distinct applied \<and>
    set applied \<subseteq> {..<length (registered_operators c)} \<and>
    (r = SIM_RESULT_OK \<longrightarrow> set applied = {..<length (registered_operators c)}) \<and>
    (\<forall>(i, j) \<in> depends (registered_operators c) \<union> conflict (registered_operators c).
       j \<in> set applied \<longrightarrow> precedes applied i j)"
  using execute_ok [OF assms] .

text \<open>Two operators that evaluate without effect, the first of which waits for the second.\<close>

definition demo_entry :: "nat list \<Rightarrow> SimOperatorEntry" where
  "demo_entry deps = \<lparr>op_name = ''op'', op_guid = 1, op_dependencies = deps, op_read_mask = 0, op_write_mask = 0,
     op_read_indices = [], op_write_indices = [], op_schema_key = ''op'', op_evaluate = Some 0,
     op_save_state = None, op_restore_state = None, op_destroy = None, op_userdata = None, op_kernel = None,
     op_info = sim_operator_info_defaults, op_config = sim_operator_config_defaults, op_required_features = 0,
     op_catalog_metadata = None, op_config_adapter = None, op_graph_ir_view = None\<rparr>"

definition demo_context :: SimContext where
  "demo_context = set_operators \<lparr>rg_records = [demo_entry [1], demo_entry []], rg_capacity = 4\<rparr> (new_context
     \<lparr>cx_scheduler := (cx_scheduler new_context)\<lparr>sp_plan := \<lparr>plan_order = [1, 0], plan_count = 2\<rparr>, sp_plan_valid := True\<rparr>\<rparr>)"

definition demo_env :: "fpu \<Rightarrow> execution_env" where
  "demo_env m = \<lparr>ee_heap = demo_heap, ee_topology = [], ee_fpu = m, ee_sqrt = (\<lambda>x. 0),
     ee_impls = \<lparr>bt_cpu = \<lparr>im_init = Pair SIM_RESULT_OK, im_launch = (\<lambda>b k fs. (SIM_RESULT_OK, b, kn_params k, fs)),
       im_destroy = (\<lambda>b. b)\<rparr>, bt_cuda = None, bt_metal = None\<rparr>,
     ee_field_stats = (\<lambda>f. []), ee_evaluate = (\<lambda>f u c i. (SIM_RESULT_OK, c)),
     ee_save_state = (\<lambda>f u c i. (SIM_RESULT_OK, c)), ee_restore_state = (\<lambda>f u c i. (SIM_RESULT_OK, c))\<rparr>"

lemma demo_env_ok: "env_ok (demo_env m)"
proof -
  have "launch_ok (bt_cpu (ee_impls (demo_env m)))"
    by (auto simp: launch_ok_def demo_env_def intro: all_rewritten_refl)
  then have "impls_ok (ee_impls (demo_env m))"
    by (auto simp: impls_ok_def optional_impl_def demo_env_def split: SimBackendType.splits)
  then show ?thesis using demo_heap_bounded by (simp add: env_ok_def callback_ok_def demo_env_def)
qed

lemma demo_operators: "registered_operators demo_context = [demo_op [1] [] [], demo_op [] [] []]"
  by (simp add: registered_operators_def scheduled_operators_def demo_context_def set_operators_def demo_entry_def
      demo_op_def SimOperator.truncate_def)

lemma demo_context_ok: "context_ok demo_context"
proof -
  have "precedes [1, 0 :: nat] 1 0" unfolding precedes_def by (intro exI [of _ 0] exI [of _ 1]) simp
  then have "plan_respects (registered_operators demo_context) \<lparr>plan_order = [1, 0], plan_count = 2\<rparr>"
    unfolding demo_operators
    by (auto simp: plan_respects_def Plan_Correct.depends_def conflict_def less_Suc_eq reads_field_def writes_field_def)
  then show ?thesis using new_context_ok(1)
    by (simp add: context_ok_defs demo_operators)
       (simp add: demo_context_def set_operators_def world_ok_def split: option.splits)
qed

text \<open>What an operator without a kernel does here.\<close>

definition demo_state :: "SimContext \<Rightarrow> bool" where
  "demo_state c \<longleftrightarrow> w_operators (cx_world c) = w_operators (cx_world demo_context) \<and>
     sp_plan (cx_scheduler c) = sp_plan (cx_scheduler demo_context) \<and> rs_drift_mode_depth (cx_runtime c) = 0"

lemma account_operator_frame:
  "w_operators (cx_world (account_operator env c i)) = w_operators (cx_world c)"
  "cx_scheduler (account_operator env c i) = cx_scheduler c"
  "rs_drift_mode_depth (cx_runtime (account_operator env c i)) = rs_drift_mode_depth (cx_runtime c)"
  by (simp_all add: account_operator_def sim_context_apply_norm_budget_def set_fields_def raise_warp_mask_def
      sim_context_record_continuity_hit_def Let_def split: option.split)

lemma demo_apply:
  assumes "demo_state c" "i < 2"
  shows "\<exists>d. sim_context_apply_operator (demo_env m) c i = (SIM_RESULT_OK, d) \<and> demo_state d \<and> (\<exists>op. operator_at c i = Some op)"
proof -
  have i: "i = 0 \<or> i = 1" using assms(2) by auto
  then have op: "operator_at c i = Some (demo_entry (if i = 0 then [1] else []))"
    using assms(1)
    by (auto simp: demo_state_def operator_at_def sim_operator_registry_get_def demo_context_def set_operators_def)
  have "sim_context_apply_operator (demo_env m) c i = (SIM_RESULT_OK, account_operator (demo_env m) c i)"
    using op assms(1)
    by (simp add: sim_context_apply_operator_def run_operator_def restore_operator_def demo_entry_def demo_env_def
        sim_context_in_drift_def demo_state_def Let_def)
  then show ?thesis using op assms(1) account_operator_frame [of "demo_env m" c i] by (simp add: demo_state_def)
qed

lemma demo_loop:
  assumes "demo_state c"
  shows "\<exists>d. execute_loop (demo_env m) ready clock 0 c [] = Some (SIM_RESULT_OK, d, [1, 0]) \<and> demo_state d"
proof -
  have plan: "plan_order (sp_plan (cx_scheduler d)) = [1, 0]" "plan_count (sp_plan (cx_scheduler d)) = 2"
    if "demo_state d" for d
    using that by (simp_all add: demo_state_def demo_context_def set_operators_def)
  have step: "\<exists>e. execute_loop (demo_env m) ready clock i d applied =
      execute_loop (demo_env m) ready clock (i + 1) e (applied @ [[1, 0] ! i]) \<and> demo_state e"
    if d: "demo_state d" and i: "i < 2" for d i applied
  proof -
    have "[1, 0] ! i < (2 :: nat)" using i by (auto simp: less_Suc_eq numeral_2_eq_2)
    then obtain e op where e: "sim_context_apply_operator (demo_env m) d ([1, 0] ! i) = (SIM_RESULT_OK, e)" "demo_state e"
      "operator_at d ([1, 0] ! i) = Some op" using demo_apply [OF d] by blast
    then show ?thesis using i plan [OF d]
      by (intro exI [of _ "record_time ready clock i ([1, 0] ! i) e"])
         (subst execute_loop.simps, simp add: demo_state_def record_time_def Let_def)
  qed
  obtain d where d: "execute_loop (demo_env m) ready clock 0 c [] = execute_loop (demo_env m) ready clock 1 d [1]"
    "demo_state d" using step [OF assms, of 0 "[]"] by auto
  obtain e where e: "execute_loop (demo_env m) ready clock 1 d [1] = execute_loop (demo_env m) ready clock 2 e [1, 0]"
    "demo_state e" using step [OF d(2), of 1 "[1]"] by (auto simp: numeral_2_eq_2)
  have "execute_loop (demo_env m) ready clock 2 e [1, 0] = Some (SIM_RESULT_OK, e, [1, 0])"
    using plan [OF e(2)] by (simp add: execute_loop.simps)
  then show ?thesis using d e by simp
qed

lemma execute_in_order_witness:
  "\<forall>m clock. \<exists>c' applied. sim_context_execute (demo_env m) clock demo_context = Some (SIM_RESULT_OK, c', applied) \<and>
     precedes applied 1 0 \<and> set applied = {..<2} \<and> context_ok c'"
proof (intro allI)
  fix m clock
  have fits: "registry_fits (registered_operators demo_context)"
    by (simp add: demo_operators registry_fits_def no_writer_def)
  have wait: "(1, 0) \<in> Plan_Correct.depends (registered_operators demo_context)"
    and two: "length (registered_operators demo_context) = 2"
    by (simp_all add: demo_operators Plan_Correct.depends_def)
  obtain r c' applied where run: "sim_context_execute (demo_env m) clock demo_context = Some (r, c', applied)"
      "context_ok c'" "r = SIM_RESULT_OK \<longrightarrow> set applied = {..<2}"
      "0 \<in> set applied \<longrightarrow> precedes applied 1 0"
    using execute_in_order [OF demo_env_ok demo_context_ok fits, of m clock] wait unfolding two by blast
  have "\<exists>c. sim_context_prepare_plan demo_heap demo_context = Some (SIM_RESULT_OK, c) \<and> demo_state c
      \<and> sp_plan_valid (cx_scheduler c)"
    using new_context_ok(2)
    by (simp add: sim_context_prepare_plan_def sim_context_prepare_complex_fields_def demo_context_def set_operators_def
        sim_context_resolve_representations_def sim_context_validate_field_representations_def demo_entry_def
        resolve_operator_representation_def sim_operator_info_defaults_def demo_state_def Let_def)
  then obtain c where c: "sim_context_prepare_plan demo_heap demo_context = Some (SIM_RESULT_OK, c)" "demo_state c"
    "sp_plan_valid (cx_scheduler c)" by blast
  let ?c1 = "sim_context_reset_continuity_counters c"
  obtain ready c2 where conf: "sim_context_configure_profiler demo_heap ?c1 2 = (ready, c2)" by fastforce
  have plan: "plan_order (sp_plan (cx_scheduler d)) = [1, 0]" "plan_count (sp_plan (cx_scheduler d)) = 2"
    if "demo_state d" for d
    using that by (simp_all add: demo_state_def demo_context_def set_operators_def)
  have profiled [simp]: "demo_state (d\<lparr>cx_profiler := p\<rparr>) = demo_state d" for d p by (simp add: demo_state_def)
  have c1: "demo_state ?c1"
    using c(2) by (simp add: demo_state_def sim_context_reset_continuity_counters_def map_slots_def)
  then have "demo_state c2"
    using conf by (auto simp: sim_context_configure_profiler_def demo_state_def Let_def split: if_splits prod.splits)
  then have c3: "demo_state (if ready then c2\<lparr>cx_profiler := sim_profiler_begin_frame (clock 0) (cx_profiler c2)\<rparr> else c2)"
    (is "demo_state ?c3") by simp
  obtain d1 where "execute_loop (demo_env m) ready clock 0 ?c3 [] = Some (SIM_RESULT_OK, d1, [1, 0])" "demo_state d1"
    using demo_loop [OF c3] by blast
  then have "fst (the (sim_context_execute (demo_env m) clock demo_context)) = SIM_RESULT_OK"
    using c conf plan [OF c1] demo_env_def [of m]
    by (simp add: sim_context_execute_def sim_context_execute_prepared_def sim_context_in_drift_def demo_state_def Let_def)
  then have "r = SIM_RESULT_OK" using run(1) by simp
  then show "\<exists>c' applied. sim_context_execute (demo_env m) clock demo_context = Some (SIM_RESULT_OK, c', applied) \<and>
     precedes applied 1 0 \<and> set applied = {..<2} \<and> context_ok c'" using run by auto
qed

section \<open>Drift evaluation\<close>

text \<open>A callback that leaves the runtime state alone.\<close>

definition quiet :: "operator_callback \<Rightarrow> bool" where
  "quiet cb \<longleftrightarrow> (\<forall>f u c i r c'. cb f u c i = (r, c') \<longrightarrow> cx_runtime c' = cx_runtime c)"

definition quiet_env :: "execution_env \<Rightarrow> bool" where
  "quiet_env env \<longleftrightarrow> quiet (ee_evaluate env) \<and> quiet (ee_save_state env) \<and> quiet (ee_restore_state env)"

lemma quiet_run:
  assumes "env_ok env" "quiet_env env" "context_ok c" "run_operator env c i = (r, c')"
  shows "cx_runtime c' = cx_runtime c"
proof (cases "operator_at c i")
  case None
  then show ?thesis using assms(4) by (simp add: run_operator_def)
next
  case (Some op)
  show ?thesis
  proof (cases "op_kernel op = None")
    case True
    then show ?thesis using assms Some by (auto simp: run_operator_def quiet_env_def quiet_def split: option.splits)
  next
    case False
    then have "sim_context_execute_kernel env c i = (r, c')" using assms(4) Some by (simp add: run_operator_def)
    then show ?thesis using execute_kernel_ok [OF assms(3)] assms(1) by (auto simp: env_ok_def)
  qed
qed

lemma quiet_save:
  "quiet_env env \<Longrightarrow> save_operator env c i op = (r, did, c') \<Longrightarrow> cx_runtime c' = cx_runtime c"
  by (auto simp: save_operator_def quiet_env_def quiet_def split: option.splits if_splits prod.splits)

lemma quiet_restore:
  "quiet_env env \<Longrightarrow> restore_operator env did r0 c i = (r, c') \<Longrightarrow> cx_runtime c' = cx_runtime c"
  by (auto simp: restore_operator_def quiet_env_def quiet_def split: option.splits bool.splits prod.splits)

lemma quiet_apply:
  assumes "env_ok env" "quiet_env env" "context_ok c" "sim_context_in_drift (Some c)"
    and "sim_context_apply_operator env c i = (r, c')"
  shows "cx_runtime c' = cx_runtime c"
proof (cases "operator_at c i")
  case None
  then show ?thesis using assms(5) by (simp add: sim_context_apply_operator_def)
next
  case (Some op)
  obtain saved did c1 where 1: "save_operator env c i op = (saved, did, c1)" by (metis prod_cases3)
  obtain r2 c2 where 2: "run_operator env c1 i = (r2, c2)" by fastforce
  obtain r3 c3 where 3: "restore_operator env did r2 c2 i = (r3, c3)" by fastforce
  have c1: "context_ok c1" "cx_runtime c1 = cx_runtime c"
    using save_operator_keeps [OF assms(1,3) 1] quiet_save [OF assms(2) 1] by (simp_all add: keeps_def)
  have c3: "cx_runtime c3 = cx_runtime c"
    using quiet_restore [OF assms(2) 3] quiet_run [OF assms(1,2) c1(1) 2] c1(2) by simp
  then have "sim_context_in_drift (Some c3)" using assms(4) by (simp add: sim_context_in_drift_def)
  then have "c' = c1 \<or> c' = c3"
    using assms(5) apply_operator_steps [OF Some 1 2 3] by (auto split: if_splits)
  then show ?thesis using c1(2) c3 by auto
qed

lemma record_time_runtime [simp]: "cx_runtime (record_time ready clock i k c) = cx_runtime c"
  by (simp add: record_time_def Let_def)

lemma quiet_loop:
  assumes "env_ok env" "quiet_env env"
  shows "execute_loop env ready clock i c applied = Some (r, c', applied') \<Longrightarrow> context_ok c \<Longrightarrow>
    sim_context_in_drift (Some c) \<Longrightarrow> cx_runtime c' = cx_runtime c"
proof (induction "length (plan_order (sp_plan (cx_scheduler c))) + plan_count (sp_plan (cx_scheduler c)) - i"
    arbitrary: i c applied rule: less_induct)
  case less
  let ?plan = "sp_plan (cx_scheduler c)"
  let ?k = "plan_order ?plan ! i"
  show ?case
  proof (cases "i \<ge> plan_count ?plan \<or> operator_at c ?k = None")
    case True
    then show ?thesis using less.prems(1) by (subst (asm) execute_loop.simps) (auto simp: Let_def split: if_splits)
  next
    case False
    obtain s d where step: "sim_context_apply_operator env c ?k = (s, d)" by fastforce
    let ?d = "record_time ready clock i ?k d"
    have rt: "cx_runtime d = cx_runtime c" by (rule quiet_apply [OF assms less.prems(2,3) step])
    have keep: "keeps c ?d" using apply_operator_keeps [OF assms(1) less.prems(2) step] by (rule record_time_keeps)
    have unfold: "(if s \<noteq> SIM_RESULT_OK then Some (s, ?d, applied @ [?k])
        else execute_loop env ready clock (i + 1) ?d (applied @ [?k])) = Some (r, c', applied')"
      using less.prems(1) False step by (subst (asm) execute_loop.simps) (auto simp: Let_def)
    show ?thesis
    proof (cases "s = SIM_RESULT_OK")
      case False
      then show ?thesis using unfold rt by auto
    next
      case s: True
      have "cx_runtime c' = cx_runtime ?d"
        using s unfold False keep keeps_plan(1) [OF keep] rt less.prems(3)
        by (intro less.hyps [of ?d "i + 1"]) (auto simp: keeps_def sim_context_in_drift_def)
      then show ?thesis using rt by simp
    qed
  qed
qed

definition slot_counts :: "field_slot \<Rightarrow> u64 \<times> u64" where
  "slot_counts s = (fs_dirty_count s, fs_stable_count s)"

lemma capture_slot_counts [simp]:
  "slot_counts (capture_stats stats f s) = slot_counts s" "slot_counts (capture_snapshot heap n f s) = slot_counts s"
  by (simp_all add: slot_counts_def capture_stats_def capture_snapshot_def drop_snapshot_def Let_def
      split: SimBufferDataType.split)

lemma update_slots_counts:
  assumes "length fs \<le> length slots" "\<And>f s. slot_counts (g f s) = slot_counts s"
  shows "map slot_counts (update_slots g fs slots) = map slot_counts slots"
proof -
  have "map slot_counts (map2 g fs slots) = map slot_counts (take (length fs) slots)"
    using assms by (induction fs slots rule: list_induct2') simp_all
  then have "map slot_counts (update_slots g fs slots) = map slot_counts (take (length fs) slots @ drop (length fs) slots)"
    unfolding update_slots_def by (simp only: map_append)
  then show ?thesis by simp
qed

lemma capture_runtime:
  assumes "context_ok c" "sim_context_capture_drift_field_stats env c = Some d"
  shows "\<exists>slots k. cx_runtime d = (cx_runtime c)\<lparr>rs_slots := slots, rs_drift_field_stats_step_index := k\<rparr> \<and>
    map slot_counts slots = map slot_counts (rs_slots (cx_runtime c)) \<and>
    w_fields (cx_world d) = w_fields (cx_world c)"
proof -
  let ?fs = "w_fields (cx_world c)" and ?rs = "cx_runtime c"
  have cap: "\<not> unat (rs_continuity_capacity ?rs) < length ?fs" "length ?fs \<le> length (rs_slots ?rs)"
    using assms(1) by (auto simp: context_ok_def arrays_ok_def slots_ok_def)
  have unchanged: ?thesis if "d = c"
    using that by (intro exI [of _ "rs_slots ?rs"] exI [of _ "rs_drift_field_stats_step_index ?rs"]) simp
  define slots1 where "slots1 = update_slots (capture_stats (ee_field_stats env)) ?fs (rs_slots ?rs)"
  have s1: "map slot_counts slots1 = map slot_counts (rs_slots ?rs)" "length slots1 = length (rs_slots ?rs)"
    using cap(2) by (simp_all add: slots1_def update_slots_counts update_slots_length)
  have s2: "map slot_counts (update_slots (capture_snapshot (ee_heap env) n) ?fs slots) = map slot_counts (rs_slots ?rs)"
    if "map slot_counts slots = map slot_counts (rs_slots ?rs)" "length slots = length (rs_slots ?rs)" for n slots
    using cap(2) that by (simp add: update_slots_counts)
  define a where "a = list_ex fs_drift_stats_requested (take (min (unat (rs_continuity_capacity ?rs)) (length ?fs)) (rs_slots ?rs))"
  define b where "b = list_ex fs_snapshot_requested (take (min (unat (rs_continuity_capacity ?rs)) (length ?fs)) (rs_slots ?rs))"
  have "d = c \<or> d = c\<lparr>cx_runtime :=
      (let rs = (if a then ?rs\<lparr>rs_slots := slots1, rs_drift_field_stats_step_index := rs_step_index ?rs + 1\<rparr> else ?rs)
       in if b then rs\<lparr>rs_slots := update_slots (capture_snapshot (ee_heap env) (rs_step_index rs)) ?fs (rs_slots rs)\<rparr>
          else rs)\<rparr>"
    using assms(2) cap(1)
    unfolding sim_context_capture_drift_field_stats_def Let_def a_def [symmetric] b_def [symmetric]
    by (simp add: slots1_def split: if_split_asm)
  then show ?thesis
  proof
    assume d: "d = c\<lparr>cx_runtime :=
      (let rs = (if a then ?rs\<lparr>rs_slots := slots1, rs_drift_field_stats_step_index := rs_step_index ?rs + 1\<rparr> else ?rs)
       in if b then rs\<lparr>rs_slots := update_slots (capture_snapshot (ee_heap env) (rs_step_index rs)) ?fs (rs_slots rs)\<rparr>
          else rs)\<rparr>"
    let ?slots = "if a then slots1 else rs_slots ?rs"
    let ?slots' = "if b then update_slots (capture_snapshot (ee_heap env) (rs_step_index ?rs)) ?fs ?slots else ?slots"
    show ?thesis
      using d s1 s2 [of ?slots "rs_step_index ?rs"]
      by (intro exI [of _ ?slots'] exI [of _ "if a then rs_step_index ?rs + 1 else rs_drift_field_stats_step_index ?rs"])
         (simp add: Let_def split: if_split_asm)
  qed (rule unchanged)
qed

lemma loop_keeps:
  assumes "env_ok env"
  shows "execute_loop env ready clock i c applied = Some (r, c', applied') \<Longrightarrow> context_ok c \<Longrightarrow> keeps c c'"
proof (induction "plan_count (sp_plan (cx_scheduler c)) - i" arbitrary: i c applied rule: less_induct)
  case less
  let ?plan = "sp_plan (cx_scheduler c)"
  let ?k = "plan_order ?plan ! i"
  show ?case
  proof (cases "i \<ge> plan_count ?plan \<or> operator_at c ?k = None")
    case True
    then show ?thesis using less.prems
      by (subst (asm) execute_loop.simps) (auto simp: Let_def keeps_refl split: if_splits)
  next
    case False
    obtain s d where step: "sim_context_apply_operator env c ?k = (s, d)" by fastforce
    let ?d = "record_time ready clock i ?k d"
    have keep: "keeps c ?d" using apply_operator_keeps [OF assms less.prems(2) step] by (rule record_time_keeps)
    have unfold: "(if s \<noteq> SIM_RESULT_OK then Some (s, ?d, applied @ [?k])
        else execute_loop env ready clock (i + 1) ?d (applied @ [?k])) = Some (r, c', applied')"
      using less.prems(1) False step by (subst (asm) execute_loop.simps) (auto simp: Let_def)
    show ?thesis
    proof (cases "s = SIM_RESULT_OK")
      case s: True
      have "keeps ?d c'"
        using s unfold False keep keeps_plan(1) [OF keep]
        by (intro less.hyps [of ?d "i + 1"]) (auto simp: keeps_def)
      then show ?thesis using keep keeps_trans by blast
    qed (use unfold keep in auto)
  qed
qed

lemma configure_profiler_runtime:
  "sim_context_configure_profiler heap c n = (ready, d) \<Longrightarrow> cx_runtime d = cx_runtime c"
  by (auto simp: sim_context_configure_profiler_def Let_def split: if_splits prod.splits)

lemma reset_slot_counts:
  "i < length (w_fields (cx_world c)) \<Longrightarrow> i < length (rs_slots (cx_runtime c)) \<Longrightarrow>
    slot_counts (rs_slots (cx_runtime (sim_context_reset_continuity_counters c)) ! i) = (0, 0)"
  by (simp add: sim_context_reset_continuity_counters_def map_slots_def nth_append slot_counts_def)

lemma reset_runtime:
  "\<exists>slots. cx_runtime (sim_context_reset_continuity_counters c) =
     (cx_runtime c)\<lparr>rs_slots := slots, rs_current_step_warp_mask := 0\<rparr>"
  by (auto simp: sim_context_reset_continuity_counters_def map_slots_def)

lemma drift_prepared_runtime:
  assumes "env_ok env" "quiet_env env" "context_ok c" "sim_context_in_drift (Some c)"
    and "sim_context_execute_prepared env clock c = Some (r, c', applied)" "sp_plan_valid (cx_scheduler c)"
  shows "\<exists>slots k. cx_runtime c' = (cx_runtime (sim_context_reset_continuity_counters c))
      \<lparr>rs_slots := slots, rs_drift_field_stats_step_index := k\<rparr> \<and>
    map slot_counts slots = map slot_counts (rs_slots (cx_runtime (sim_context_reset_continuity_counters c)))"
proof -
  let ?c1 = "sim_context_reset_continuity_counters c" and ?n = "plan_count (sp_plan (cx_scheduler c))"
  have c1: "keeps c ?c1" using reset_counters_keeps [OF assms(3)] .
  obtain ready c2 where conf: "sim_context_configure_profiler (ee_heap env) ?c1 ?n = (ready, c2)" by fastforce
  define c3 where "c3 = (if ready then c2\<lparr>cx_profiler := sim_profiler_begin_frame (clock 0) (cx_profiler c2)\<rparr> else c2)"
  have c3: "keeps c c3" "cx_runtime c3 = cx_runtime ?c1"
    using configure_profiler_keeps [OF c1 conf] configure_profiler_runtime [OF conf] by (simp_all add: c3_def)
  obtain slots0 where "cx_runtime ?c1 = (cx_runtime c)\<lparr>rs_slots := slots0, rs_current_step_warp_mask := 0\<rparr>"
    using reset_runtime by blast
  then have drift: "sim_context_in_drift (Some c3)" using assms(4) c3(2) by (simp add: sim_context_in_drift_def)
  have run: "(case execute_loop env ready clock 0 c3 [] of
         None \<Rightarrow> None
       | Some (result, c, applied) \<Rightarrow>
           if result \<noteq> SIM_RESULT_OK then Some (result, c, applied)
           else
             let c = (if ready
                      then c\<lparr>cx_profiler := sim_profiler_end_frame (clock (2 * length applied + 1)) (cx_profiler c)\<rparr>
                      else c)
             in map_option (\<lambda>c. (SIM_RESULT_OK, c, applied))
                  (if sim_context_in_drift (Some c) then sim_context_capture_drift_field_stats env c else Some c)) =
       Some (r, c', applied)"
    using assms(5,6) conf keeps_plan(1) [OF c1]
    by (simp add: sim_context_execute_prepared_def Let_def c3_def [symmetric])
  then obtain s c4 where loop: "execute_loop env ready clock 0 c3 [] = Some (s, c4, applied)"
    by (auto simp: Let_def split: option.splits if_splits)
  have c4: "cx_runtime c4 = cx_runtime ?c1"
    using quiet_loop [OF assms(1,2) loop _ drift] c3 by (simp add: keeps_def)
  show ?thesis
  proof (cases "s = SIM_RESULT_OK")
    case False
    then have "c' = c4" using run loop by simp
    then show ?thesis using c4
      by (intro exI [of _ "rs_slots (cx_runtime ?c1)"] exI [of _ "rs_drift_field_stats_step_index (cx_runtime ?c1)"]) simp
  next
    case True
    define c5 where "c5 = (if ready
        then c4\<lparr>cx_profiler := sim_profiler_end_frame (clock (2 * length applied + 1)) (cx_profiler c4)\<rparr> else c4)"
    have c5: "cx_runtime c5 = cx_runtime ?c1" using c4 by (simp add: c5_def)
    then have "sim_context_in_drift (Some c5)" using drift c3(2) by (simp add: sim_context_in_drift_def)
    then have cap: "sim_context_capture_drift_field_stats env c5 = Some c'"
      using run loop True by (simp add: Let_def c5_def [symmetric])
    have "keeps c3 c4" using loop_keeps [OF assms(1) loop] c3(1) by (simp add: keeps_def)
    then have "keeps c3 c5" by (simp add: c5_def)
    then have "context_ok c5" by (simp add: keeps_def)
    from capture_runtime [OF this cap] show ?thesis using c5 by auto
  qed
qed

text \<open>
  What drift mode, which is documented to suppress side effects, does not suppress. With callbacks that leave
  the runtime state alone, executing a prepared context in drift mode returns and leaves the step index, the
  time, the time step and the recorded metrics as they were, but the continuity counters of every field and
  the mask of warp levels, gathered by the steps before, are cleared.
\<close>

lemma drift_execution_effects:
  assumes "env_ok env" "quiet_env env" "context_ok c" "sim_context_in_drift (Some c)" "sp_plan_valid (cx_scheduler c)"
  shows "\<exists>r c' applied slots k. sim_context_execute_prepared env clock c = Some (r, c', applied) \<and>
    cx_runtime c' = (cx_runtime c)\<lparr>rs_slots := slots, rs_current_step_warp_mask := 0, rs_drift_field_stats_step_index := k\<rparr> \<and>
    (\<forall>i < length (w_fields (cx_world c)). sim_context_field_continuity_counts (Some c') i = (0, 0))"
proof -
  let ?c1 = "sim_context_reset_continuity_counters c"
  obtain r c' n where run: "sim_context_execute_prepared env clock c = Some (r, c', n)"
    using execute_prepared_returns [OF assms(1,3,5), of clock] by auto
  obtain slots k where rt: "cx_runtime c' = (cx_runtime ?c1)\<lparr>rs_slots := slots, rs_drift_field_stats_step_index := k\<rparr>"
    "map slot_counts slots = map slot_counts (rs_slots (cx_runtime ?c1))"
    using drift_prepared_runtime [OF assms(1-4) run assms(5)] by blast
  have len: "length (w_fields (cx_world c)) \<le> length slots" "length slots = length (rs_slots (cx_runtime c))"
    using assms(3) map_eq_imp_length_eq [OF rt(2)]
    by (simp_all add: context_ok_def arrays_ok_def sim_context_reset_continuity_counters_def map_slots_def)
  have "slot_counts (slots ! i) = (0, 0)" if "i < length (w_fields (cx_world c))" for i
  proof -
    have i: "i < length slots" "i < length (rs_slots (cx_runtime c))" using that len by simp_all
    have "slot_counts (slots ! i) = slot_counts (rs_slots (cx_runtime ?c1) ! i)"
      using arg_cong [OF rt(2), of "\<lambda>xs. xs ! i"] i map_eq_imp_length_eq [OF rt(2)] by simp
    then show ?thesis using reset_slot_counts [OF that i(2)] by simp
  qed
  then have counts: "\<forall>i < length (w_fields (cx_world c)). sim_context_field_continuity_counts (Some c') i = (0, 0)"
    using rt(1) by (auto simp: sim_context_field_continuity_counts_def slot_counts_def Let_def)
  obtain slots0 where "cx_runtime ?c1 = (cx_runtime c)\<lparr>rs_slots := slots0, rs_current_step_warp_mask := 0\<rparr>"
    using reset_runtime by blast
  then have "cx_runtime c' = (cx_runtime c)\<lparr>rs_slots := slots, rs_current_step_warp_mask := 0, rs_drift_field_stats_step_index := k\<rparr>"
    using rt(1) by simp
  then show ?thesis using run counts by blast
qed

definition demo_drift :: SimContext where
  "demo_drift = demo_context\<lparr>cx_runtime :=
     (cx_runtime demo_context)\<lparr>rs_drift_mode_depth := 1, rs_current_step_warp_mask := 1\<rparr>\<rparr>"

lemma drift_execution_effects_witness:
  "\<forall>m clock. \<exists>r c' applied. sim_context_execute_prepared (demo_env m) clock demo_drift = Some (r, c', applied) \<and>
     rs_current_step_warp_mask (cx_runtime demo_drift) = 1 \<and> rs_current_step_warp_mask (cx_runtime c') = 0 \<and>
     rs_step_index (cx_runtime c') = rs_step_index (cx_runtime demo_drift)"
proof (intro allI)
  fix m clock
  have met: "metrics_ok ((cx_runtime demo_context)\<lparr>rs_drift_mode_depth := 1, rs_current_step_warp_mask := 1\<rparr>)"
    using demo_context_ok by (simp add: context_ok_def arrays_ok_def metrics_ok_def)
  have ok: "context_ok demo_drift" unfolding demo_drift_def
    by (rule set_runtime_ok [OF demo_context_ok _ _ met]) simp_all
  have quiet: "quiet_env (demo_env m)" by (simp add: quiet_env_def quiet_def demo_env_def)
  have drift: "sim_context_in_drift (Some demo_drift)" "sp_plan_valid (cx_scheduler demo_drift)"
    by (simp_all add: sim_context_in_drift_def demo_drift_def demo_context_def set_operators_def)
  obtain r c' applied slots k where run: "sim_context_execute_prepared (demo_env m) clock demo_drift = Some (r, c', applied)"
    "cx_runtime c' = (cx_runtime demo_drift)\<lparr>rs_slots := slots, rs_current_step_warp_mask := 0,
       rs_drift_field_stats_step_index := k\<rparr>"
    using drift_execution_effects [OF demo_env_ok quiet ok drift, of clock] by blast
  moreover have "rs_current_step_warp_mask (cx_runtime demo_drift) = 1" by (simp add: demo_drift_def)
  ultimately show "\<exists>r c' applied. sim_context_execute_prepared (demo_env m) clock demo_drift = Some (r, c', applied) \<and>
     rs_current_step_warp_mask (cx_runtime demo_drift) = 1 \<and> rs_current_step_warp_mask (cx_runtime c') = 0 \<and>
     rs_step_index (cx_runtime c') = rs_step_index (cx_runtime demo_drift)"
    by (intro exI [of _ r] exI [of _ c'] exI [of _ applied]) simp
qed

end
