(* ===== verification/Dispatch_Correct.thy ===== *)
theory Dispatch_Correct
  imports Execution_Correct
begin

text \<open>
  Correctness of kernel dispatch: what the bindings of a launched kernel point to, where a kernel runs that
  the requested backend cannot run, and what the diagnostics say of it.
\<close>

section \<open>Bindings and fallback\<close>

lemma bind_fields_spec:
  "bind_fields c ps = (r, bs) \<Longrightarrow>
    (r = SIM_RESULT_OK \<or> r = SIM_RESULT_INVALID_ARGUMENT) \<and>
    (r = SIM_RESULT_OK \<longleftrightarrow> (\<forall>p \<in> set ps. bd_context_field_index (fst p) < length (w_fields (cx_world c)))) \<and>
    (r = SIM_RESULT_OK \<longrightarrow> length bs = length ps \<and>
       (\<forall>j < length ps. bound_to (w_fields (cx_world c)) (bd_context_field_index (fst (ps ! j))) (bs ! j)))"
proof (induction ps arbitrary: r bs)
  case (Cons p ps)
  obtain d b where p: "p = (d, b)" by fastforce
  show ?case
  proof (cases "bd_context_field_index d < length (w_fields (cx_world c))")
    case False
    then show ?thesis using Cons.prems by (auto simp: p sim_context_field_def)
  next
    case True
    obtain r1 bs1 where rest: "bind_fields c ps = (r1, bs1)" by fastforce
    show ?thesis
      using Cons.IH [OF rest] Cons.prems True rest
      by (auto simp: p sim_context_field_def bound_to_def nth_Cons split: nat.splits)
  qed
qed simp

text \<open>The bindings of a kernel that point to fields of the list, as the fields are in it.\<close>

definition live_kernel :: "SimField list \<Rightarrow> SimOperatorKernel \<Rightarrow> bool" where
  "live_kernel fs k \<longleftrightarrow> length (kn_bindings k) = length (kn_binding_map k) \<and>
     (\<forall>j < length (kn_binding_map k). bound_to fs (bd_context_field_index (kn_binding_map k ! j)) (kn_bindings k ! j))"

lemma live_kernel_params [simp]: "live_kernel fs (k\<lparr>kn_params := ps\<rparr>) = live_kernel fs k"
  by (simp add: live_kernel_def)

text \<open>
  Two sets of implementations that start their backends alike and do the same with every kernel that is live
  for the fields; with a kernel that is not they may do different things.
\<close>

definition impl_agrees :: "SimField list \<Rightarrow> backend_impl \<Rightarrow> backend_impl \<Rightarrow> bool" where
  "impl_agrees F impl impl' \<longleftrightarrow> im_init impl = im_init impl' \<and>
     (\<forall>k. live_kernel F k \<longrightarrow> (\<forall>b fs. im_launch impl b k fs = im_launch impl' b k fs))"

definition agree_on_live :: "SimField list \<Rightarrow> backend_impls \<Rightarrow> backend_impls \<Rightarrow> bool" where
  "agree_on_live F impls impls' \<longleftrightarrow> (\<forall>type. rel_option (impl_agrees F) (optional_impl impls type) (optional_impl impls' type))"

lemma agree_init:
  assumes "agree_on_live F impls impls'"
  shows "backend_init impls b = backend_init impls' b"
proof -
  let ?t = "case bk_type b of Named t \<Rightarrow> t | Unnamed _ \<Rightarrow> SIM_BACKEND_TYPE_CPU"
  have "rel_option (impl_agrees F) (optional_impl impls ?t) (optional_impl impls' ?t)"
    using assms by (simp only: agree_on_live_def simp_thms)
  then show ?thesis by (cases rule: option.rel_cases) (simp_all add: backend_init_def impl_agrees_def Let_def)
qed

lemma agree_launch:
  assumes "agree_on_live F impls impls'" "live_kernel F k"
  shows "backend_launch impls b k fs = backend_launch impls' b k fs"
proof (cases "bk_type b")
  case (Named t)
  have "rel_option (impl_agrees F) (optional_impl impls t) (optional_impl impls' t)"
    using assms(1) by (simp only: agree_on_live_def simp_thms)
  then show ?thesis using assms(2)
    by (cases rule: option.rel_cases) (simp_all add: backend_launch_def Named impl_agrees_def)
qed (simp add: backend_launch_def)

lemma agree_fallback:
  assumes "agree_on_live F impls impls'" "live_kernel F k"
  shows "sim_context_launch_cpu_fallback impls k fs = sim_context_launch_cpu_fallback impls' k fs"
  using agree_init [OF assms(1)] agree_launch [OF assms] by (simp add: sim_context_launch_cpu_fallback_def Let_def)

lemma launch_kernel_fields:
  assumes "backend_launch impls b k fs = (b', k', fs')"
  shows "\<exists>ps. k' = k\<lparr>kn_params := ps\<rparr>"
proof -
  have "k' = k \<or> (\<exists>ps. k' = k\<lparr>kn_params := ps\<rparr>)" using assms
    by (auto simp: backend_launch_def Let_def split: c_enum.splits option.splits prod.splits)
  moreover have "k = k\<lparr>kn_params := kn_params k\<rparr>" by simp
  ultimately show ?thesis by metis
qed

lemma agree_dispatch:
  assumes "agree_on_live F (ee_impls env) impls" "live_kernel F k"
  shows "dispatch_kernel (env\<lparr>ee_impls := impls\<rparr>) i op k b c = dispatch_kernel env i op k b c"
proof -
  have fallback: "run_fallback (env\<lparr>ee_impls := impls\<rparr>) i op k' reason c' = run_fallback env i op k' reason c'"
    if "live_kernel F k'" for k' reason c'
    using agree_fallback [OF assms(1) that] by (simp add: run_fallback_def)
  obtain b' k' fs' where l: "backend_launch (ee_impls env) b k (w_fields (cx_world c)) = (b', k', fs')"
    by (metis prod_cases3)
  then have "live_kernel F k'" using launch_kernel_fields [OF l] assms(2) by auto
  with fallback assms(2) agree_launch [OF assms, symmetric] l show ?thesis
    by (simp add: dispatch_kernel_def Let_def split: option.split)
qed

lemma bound_kernel_impls: "bound_kernel (env\<lparr>ee_impls := impls\<rparr>) c kern = bound_kernel env c kern"
proof -
  have "kernel_params (env\<lparr>ee_impls := impls\<rparr>) c ps = kernel_params env c ps" for ps
    unfolding kernel_params_def Let_def by simp
  then show ?thesis by (simp add: bound_kernel_def)
qed

lemma bound_kernel_live:
  assumes "bound_kernel env c kern = (r, k)" "length (kn_bindings kern) = length (kn_binding_map kern)"
  shows "r = SIM_RESULT_OK \<or> r = SIM_RESULT_INVALID_ARGUMENT"
    "r = SIM_RESULT_OK \<longleftrightarrow>
      (\<forall>d \<in> set (kn_binding_map kern). bd_context_field_index d < length (w_fields (cx_world c)))"
    "r = SIM_RESULT_OK \<Longrightarrow> live_kernel (w_fields (cx_world c)) k"
    "kn_binding_map k = kn_binding_map kern"
proof -
  let ?ps = "zip (kn_binding_map kern) (kn_bindings kern)"
  obtain bs where b: "bind_fields c ?ps = (r, bs)" "kn_bindings k = bs" and m: "kn_binding_map k = kn_binding_map kern"
    using assms(1) by (auto simp: bound_kernel_def Let_def split: prod.splits)
  have maps: "map fst ?ps = kn_binding_map kern" "length ?ps = length (kn_binding_map kern)" using assms(2) by simp_all
  note spec = bind_fields_spec [OF b(1)]
  show "r = SIM_RESULT_OK \<or> r = SIM_RESULT_INVALID_ARGUMENT" using spec by blast
  show "r = SIM_RESULT_OK \<longleftrightarrow>
      (\<forall>d \<in> set (kn_binding_map kern). bd_context_field_index d < length (w_fields (cx_world c)))"
    using spec arg_cong [OF maps(1), of "\<lambda>ds. \<forall>d \<in> set ds. bd_context_field_index d < length (w_fields (cx_world c))"]
    by simp
  show "live_kernel (w_fields (cx_world c)) k" if "r = SIM_RESULT_OK"
    using spec that maps(2) b(2) assms(2) m by (simp add: live_kernel_def)
  show "kn_binding_map k = kn_binding_map kern" by (rule m)
qed

lemma set_operator_simps [simp]:
  "w_fields (cx_world (set_operator i op c)) = w_fields (cx_world c)" "cx_diag (set_operator i op c) = cx_diag c"
  "cx_scheduler (set_operator i op c) = cx_scheduler c"
  by (simp_all add: set_operator_def set_operators_def)

lemma operator_at_set:
  "operator_at c i \<noteq> None \<Longrightarrow> operator_at (set_operator i op c) i = Some op"
  by (auto simp: operator_at_def sim_operator_registry_get_def set_operator_def set_operators_def split: if_splits)

lemma store_launch_simps [simp]:
  "w_fields (cx_world (store_launch i op k fs c)) = fs" "cx_diag (store_launch i op k fs c) = cx_diag c"
  "cx_scheduler (store_launch i op k fs c) = cx_scheduler c"
  "operator_at (store_launch i op k fs c) j = operator_at (set_operator i (op\<lparr>op_kernel := Some k\<rparr>) c) j"
  by (simp_all add: store_launch_def set_fields_def operator_at_def)

lemma record_dispatch_simps [simp]:
  "w_fields (cx_world (record_dispatch rq ex used reason op c)) = w_fields (cx_world c)"
  "cx_scheduler (record_dispatch rq ex used reason op c) = cx_scheduler c"
  "operator_at (record_dispatch rq ex used reason op c) j = operator_at c j"
  "cx_diag (record_dispatch rq ex used reason op c) =
     sim_context_record_kernel_dispatch rq ex used reason (op_name op) (cx_diag c)"
  by (simp_all add: record_dispatch_def operator_at_def)

lemma set_backend_simps [simp]:
  "w_fields (cx_world (sim_context_set_backend b c)) = w_fields (cx_world c)"
  "operator_at (sim_context_set_backend b c) j = operator_at c j"
  "sp_backend (cx_scheduler (sim_context_set_backend b c)) = b"
  by (simp_all add: sim_context_set_backend_def operator_at_def)

text \<open>
  C27. A kernel is launched only with all its bindings pointing to fields of the context, each with the shape,
  the strides and the rank the field has at that moment. What an execution does, with every retry, depends on
  the implementations only through what they do with such kernels: a set of implementations that differs only
  on kernels with other bindings leads to the same outcome. Where there is no reason against the requested
  backend, its implementation is launched once with exactly the bound kernel and the fields of the context, and
  its result, parameters and fields are those of the outcome unless it supports none of the kernel. A binding
  out of range is refused, and then no backend has run: fields, diagnostics and backend are as before.
\<close>

theorem kernel_bindings_live:
  assumes "operator_at c i = Some op" "op_kernel op = Some kern" "sp_backend (cx_scheduler c) = Some b"
    and "length (kn_bindings kern) = length (kn_binding_map kern)" "bound_kernel env c kern = (r, k)"
  shows "(r = SIM_RESULT_OK \<longleftrightarrow>
      (\<forall>d \<in> set (kn_binding_map kern). bd_context_field_index d < length (w_fields (cx_world c)))) \<and>
    (r = SIM_RESULT_OK \<longrightarrow> (\<forall>j < length (kn_binding_map kern).
       bound_to (w_fields (cx_world c)) (bd_context_field_index (kn_binding_map kern ! j)) (kn_bindings k ! j))) \<and>
    (\<forall>impls. agree_on_live (w_fields (cx_world c)) (ee_impls env) impls \<longrightarrow>
       sim_context_execute_kernel (env\<lparr>ee_impls := impls\<rparr>) c i = sim_context_execute_kernel env c i) \<and>
    (\<forall>type impl result b' ps fs.
       r = SIM_RESULT_OK \<and> fallback_reason (w_fields (cx_world c)) b k = None \<and> bk_type b = Named type \<and>
       optional_impl (ee_impls env) type = Some impl \<and>
       im_launch impl b k (w_fields (cx_world c)) = (result, b', ps, fs) \<and> result \<noteq> SIM_RESULT_NOT_SUPPORTED \<longrightarrow>
       (\<exists>c'. sim_context_execute_kernel env c i = (result, c') \<and> w_fields (cx_world c') = fs \<and>
          operator_at c' i = Some (op\<lparr>op_kernel := Some (k\<lparr>kn_params := ps\<rparr>)\<rparr>) \<and>
          sp_backend (cx_scheduler c') = Some (b'\<lparr>bk_last_error := result\<rparr>))) \<and>
    (r \<noteq> SIM_RESULT_OK \<longrightarrow> (\<exists>c'. sim_context_execute_kernel env c i = (SIM_RESULT_INVALID_ARGUMENT, c') \<and>
       w_fields (cx_world c') = w_fields (cx_world c) \<and> cx_diag c' = cx_diag c \<and> cx_scheduler c' = cx_scheduler c))"
proof (intro conjI allI impI)
  let ?F = "w_fields (cx_world c)" and ?c = "set_operator i (op\<lparr>op_kernel := Some k\<rparr>) c"
  note bound = bound_kernel_live [OF assms(5,4)]
  have run: "sim_context_execute_kernel (env\<lparr>ee_impls := impls\<rparr>) c i =
      (if r \<noteq> SIM_RESULT_OK then (r, ?c) else dispatch_kernel (env\<lparr>ee_impls := impls\<rparr>) i op k b ?c)" for impls
    using assms(1-3,5) by (simp add: sim_context_execute_kernel_def bound_kernel_impls)
  have here: "sim_context_execute_kernel env c i =
      (if r \<noteq> SIM_RESULT_OK then (r, ?c) else dispatch_kernel env i op k b ?c)"
    using assms(1-3,5) by (simp add: sim_context_execute_kernel_def)
  show "r = SIM_RESULT_OK \<longleftrightarrow> (\<forall>d \<in> set (kn_binding_map kern). bd_context_field_index d < length ?F)"
    by (rule bound(2))
  show "bound_to ?F (bd_context_field_index (kn_binding_map kern ! j)) (kn_bindings k ! j)"
    if "r = SIM_RESULT_OK" "j < length (kn_binding_map kern)" for j
    using bound(3) [OF that(1)] that(2) bound(4) by (simp add: live_kernel_def)
  show "sim_context_execute_kernel (env\<lparr>ee_impls := impls\<rparr>) c i = sim_context_execute_kernel env c i"
    if "agree_on_live ?F (ee_impls env) impls" for impls
    using agree_dispatch [OF that bound(3)] unfolding run here by simp
  show "\<exists>c'. sim_context_execute_kernel env c i = (result, c') \<and> w_fields (cx_world c') = fs \<and>
      operator_at c' i = Some (op\<lparr>op_kernel := Some (k\<lparr>kn_params := ps\<rparr>)\<rparr>) \<and>
      sp_backend (cx_scheduler c') = Some (b'\<lparr>bk_last_error := result\<rparr>)"
    if "r = SIM_RESULT_OK \<and> fallback_reason ?F b k = None \<and> bk_type b = Named type \<and>
      optional_impl (ee_impls env) type = Some impl \<and> im_launch impl b k ?F = (result, b', ps, fs) \<and>
      result \<noteq> SIM_RESULT_NOT_SUPPORTED" for type impl result b' ps fs
    using that assms(1) unfolding here
    by (simp add: dispatch_kernel_def backend_launch_def operator_at_set)
  show "\<exists>c'. sim_context_execute_kernel env c i = (SIM_RESULT_INVALID_ARGUMENT, c') \<and>
      w_fields (cx_world c') = ?F \<and> cx_diag c' = cx_diag c \<and> cx_scheduler c' = cx_scheduler c"
    if "r \<noteq> SIM_RESULT_OK"
    using that bound(1) unfolding here by simp
qed

text \<open>
  C25. When a reason against the requested backend is known, the kernel runs on the CPU: the CPU
  implementation is started, and if that succeeds it is launched with exactly the bound kernel and the fields
  of the context, and its result, its fields and its parameters are those of the outcome; if it does not start,
  its error is returned with the fields unchanged. What other backends do plays no part. The backend of the
  context stays, and the diagnostics count the dispatch and name the operator and the reason.
\<close>

theorem known_fallback_runs_on_cpu:
  assumes "operator_at c i = Some op" "op_kernel op = Some kern" "sp_backend (cx_scheduler c) = Some b"
    and "bound_kernel env c kern = (SIM_RESULT_OK, k)"
    and "fallback_reason (w_fields (cx_world c)) b k = Some reason" "bk_type b \<noteq> Named SIM_BACKEND_TYPE_CPU"
    and init: "im_init (bt_cpu (ee_impls env)) zero_backend = (started, b0)"
    and cpu: "started = SIM_RESULT_OK \<Longrightarrow> bk_type b0 = Named SIM_BACKEND_TYPE_CPU"
    and launch: "im_launch (bt_cpu (ee_impls env)) (b0\<lparr>bk_last_error := SIM_RESULT_OK\<rparr>) k (w_fields (cx_world c)) =
      (result, b1, ps, fs)"
    and same: "bt_cpu impls = bt_cpu (ee_impls env)"
  shows "\<exists>c'. sim_context_execute_kernel env c i = (if started = SIM_RESULT_OK then result else started, c') \<and>
    sim_context_execute_kernel (env\<lparr>ee_impls := impls\<rparr>) c i = sim_context_execute_kernel env c i \<and>
    w_fields (cx_world c') = (if started = SIM_RESULT_OK then fs else w_fields (cx_world c)) \<and>
    operator_at c' i = Some (op\<lparr>op_kernel := Some (if started = SIM_RESULT_OK then k\<lparr>kn_params := ps\<rparr> else k)\<rparr>) \<and>
    sp_backend (cx_scheduler c') = Some b \<and>
    dg_kernel_dispatch_count (cx_diag c') = dg_kernel_dispatch_count (cx_diag c) + 1 \<and>
    dg_kernel_fallback_count (cx_diag c') = dg_kernel_fallback_count (cx_diag c) + 1 \<and>
    dg_kernel_last_executed_backend (cx_diag c') = SIM_DIAGNOSTIC_BACKEND_CPU \<and>
    dg_kernel_last_requested_backend (cx_diag c') = sim_context_backend_diag_kind (Some b) \<and>
    dg_kernel_last_operator (cx_diag c') = take 63 (if op_name op = [] then ''<unnamed>'' else op_name op) \<and>
    dg_kernel_last_fallback_reason (cx_diag c') = take 95 reason"
proof -
  let ?c = "set_operator i (op\<lparr>op_kernel := Some k\<rparr>) c" and ?F = "w_fields (cx_world c)"
  let ?k = "if started = SIM_RESULT_OK then k\<lparr>kn_params := ps\<rparr> else k"
  let ?fs = "if started = SIM_RESULT_OK then fs else ?F"
  let ?r = "if started = SIM_RESULT_OK then result else started"
  have on_cpu: "sim_context_launch_cpu_fallback j k ?F = (?r, ?k, ?fs)" if "bt_cpu j = bt_cpu (ee_impls env)" for j
  proof -
    have "backend_init j zero_backend = b0\<lparr>bk_last_error := started\<rparr>"
      using init that by (simp add: backend_init_def zero_backend_def optional_impl_def backend_set_features_def
          SIM_BACKEND_FEATURE_NONE_def)
    then show ?thesis using cpu launch that
      by (auto simp: sim_context_launch_cpu_fallback_def backend_launch_def optional_impl_def Let_def)
  qed
  have kind: "sim_context_backend_diag_kind (Some b) \<noteq> SIM_DIAGNOSTIC_BACKEND_CPU"
    using assms(6) by (auto simp: sim_context_backend_diag_kind_def split: c_enum.split SimBackendType.split)
  let ?out = "record_dispatch (Some b) SIM_DIAGNOSTIC_BACKEND_CPU True (Some reason) op (store_launch i op ?k ?fs ?c)"
  have run: "sim_context_execute_kernel (env\<lparr>ee_impls := j\<rparr>) c i = (?r, ?out)"
    if "bt_cpu j = bt_cpu (ee_impls env)" for j
    using assms(1-5) on_cpu [OF that] kind
    by (simp add: sim_context_execute_kernel_def dispatch_kernel_def run_fallback_def bound_kernel_impls
        del: if_image_distrib cong del: if_weak_cong)
  have here: "sim_context_execute_kernel env c i = (?r, ?out)" using run [of "ee_impls env"] by simp
  show ?thesis
  proof (intro exI [of _ ?out] conjI)
    show "sim_context_execute_kernel (env\<lparr>ee_impls := impls\<rparr>) c i = sim_context_execute_kernel env c i"
      using run [OF same] here by simp
  qed (use here assms(1,3) in \<open>simp_all add: operator_at_set sim_context_record_kernel_dispatch_def\<close>)
qed

section \<open>A kernel on a Metal backend that lacks a feature\<close>

definition demo_kernel :: SimOperatorKernel where
  "demo_kernel = \<lparr>kn_builder = empty_builder, kn_binding_map = [\<lparr>bd_ir_field_index = 0, bd_context_field_index = 0\<rparr>],
     kn_bindings = [\<lparr>kb_field_index = 0, kb_field = None, kb_shape = None, kb_strides = None, kb_rank = 0\<rparr>],
     kn_output_map = [], kn_outputs = [], kn_params = [], kn_required_features = 1,
     kn_complex_semantics = SIM_KERNEL_COMPLEX_SEMANTICS_TRUE_COMPLEX\<rparr>"

definition demo_metal :: SimBackend where
  "demo_metal = \<lparr>bk_type = Named SIM_BACKEND_TYPE_METAL, bk_last_error = SIM_RESULT_OK, bk_features = 0, bk_impl = None\<rparr>"

definition kernel_context :: SimContext where
  "kernel_context = set_fields [demo_grid]
     (set_operators \<lparr>rg_records = [(demo_entry [])\<lparr>op_kernel := Some demo_kernel\<rparr>], rg_capacity = 4\<rparr>
       (new_context\<lparr>cx_scheduler := (cx_scheduler new_context)\<lparr>sp_backend := Some demo_metal\<rparr>\<rparr>))"

lemma kernel_context_simps:
  "operator_at kernel_context 0 = Some ((demo_entry [])\<lparr>op_kernel := Some demo_kernel\<rparr>)"
  "sp_backend (cx_scheduler kernel_context) = Some demo_metal" "w_fields (cx_world kernel_context) = [demo_grid]"
  by (simp_all add: kernel_context_def set_fields_def set_operators_def operator_at_def sim_operator_registry_get_def)

lemma demo_bound_kernel: "fst (bound_kernel env kernel_context demo_kernel) = SIM_RESULT_OK"
  "kn_required_features (snd (bound_kernel env kernel_context demo_kernel)) = 1"
  "kn_builder (snd (bound_kernel env kernel_context demo_kernel)) = empty_builder"
  by (simp_all add: bound_kernel_def demo_kernel_def sim_context_field_def kernel_context_simps(3))

text \<open>A CPU implementation that starts and, launched, clears the parameters and drops the fields.\<close>

definition demo_cpu :: backend_impl where
  "demo_cpu = \<lparr>im_init = (\<lambda>b. (SIM_RESULT_OK, b\<lparr>bk_type := Named SIM_BACKEND_TYPE_CPU\<rparr>)),
     im_launch = (\<lambda>b k fs. (SIM_RESULT_NOT_FOUND, b, [], [])), im_destroy = (\<lambda>b. b)\<rparr>"

text \<open>The same context with a CPU backend that has the feature.\<close>

definition demo_local :: SimBackend where
  "demo_local = \<lparr>bk_type = Named SIM_BACKEND_TYPE_CPU, bk_last_error = SIM_RESULT_OK, bk_features = 1, bk_impl = None\<rparr>"

definition local_context :: SimContext where
  "local_context = sim_context_set_backend (Some demo_local) kernel_context"

lemma local_context_simps:
  "operator_at local_context 0 = Some ((demo_entry [])\<lparr>op_kernel := Some demo_kernel\<rparr>)"
  "sp_backend (cx_scheduler local_context) = Some demo_local" "w_fields (cx_world local_context) = [demo_grid]"
  by (simp_all add: local_context_def kernel_context_simps)

lemma kernel_bindings_live_witness:
  "\<forall>m. \<exists>k c'. bound_to [demo_grid] 0 (kn_bindings k ! 0) \<and>
     sim_context_execute_kernel ((demo_env m)\<lparr>ee_impls := \<lparr>bt_cpu = demo_cpu, bt_cuda = None, bt_metal = None\<rparr>\<rparr>)
       local_context 0 = (SIM_RESULT_NOT_FOUND, c') \<and> w_fields (cx_world c') = [] \<and>
     operator_at c' 0 = Some ((demo_entry [])\<lparr>op_kernel := Some (k\<lparr>kn_params := []\<rparr>)\<rparr>)"
proof
  fix m
  let ?env = "(demo_env m)\<lparr>ee_impls := \<lparr>bt_cpu = demo_cpu, bt_cuda = None, bt_metal = None\<rparr>\<rparr>"
  have field: "sim_context_field local_context 0 = Some demo_grid"
    by (simp add: sim_context_field_def local_context_simps(3))
  obtain r k where b: "bound_kernel ?env local_context demo_kernel = (r, k)" by fastforce
  then have k: "r = SIM_RESULT_OK" "kn_required_features k = 1" "kn_builder k = empty_builder"
    by (auto simp: bound_kernel_def demo_kernel_def field)
  have len: "length (kn_bindings demo_kernel) = length (kn_binding_map demo_kernel)" by (simp add: demo_kernel_def)
  have "\<not> sim_kernel_requires_boundary_feature k" "\<not> sim_kernel_requires_warp_profile_fallback k demo_local"
    by (simp_all add: sim_kernel_requires_boundary_feature_def sim_kernel_requires_warp_profile_fallback_def k
        empty_builder_def ir_nodes_def)
  then have reason: "fallback_reason (w_fields (cx_world local_context)) demo_local k = None"
    using k(2) by (simp add: fallback_reason_def backend_supports_features_def demo_local_def
        sim_context_known_backend_fallback_reason_def)
  have type: "bk_type demo_local = Named SIM_BACKEND_TYPE_CPU" by (simp add: demo_local_def)
  have impl: "optional_impl (ee_impls ?env) SIM_BACKEND_TYPE_CPU = Some demo_cpu" by (simp add: optional_impl_def)
  have launch: "im_launch demo_cpu demo_local k (w_fields (cx_world local_context)) =
      (SIM_RESULT_NOT_FOUND, demo_local, [], [])" by (simp add: demo_cpu_def)
  have kern: "op_kernel ((demo_entry [])\<lparr>op_kernel := Some demo_kernel\<rparr>) = Some demo_kernel" by simp
  note all = kernel_bindings_live [OF local_context_simps(1) kern local_context_simps(2) len b]
  have "\<exists>c'. sim_context_execute_kernel ?env local_context 0 = (SIM_RESULT_NOT_FOUND, c') \<and>
      w_fields (cx_world c') = [] \<and>
      operator_at c' 0 = Some ((demo_entry [])\<lparr>op_kernel := Some demo_kernel, op_kernel := Some (k\<lparr>kn_params := []\<rparr>)\<rparr>) \<and>
      sp_backend (cx_scheduler c') = Some (demo_local\<lparr>bk_last_error := SIM_RESULT_NOT_FOUND\<rparr>)"
    by (rule all [THEN conjunct2, THEN conjunct2, THEN conjunct2, THEN conjunct1, THEN spec, THEN spec, THEN spec,
          THEN spec, THEN spec, THEN spec, THEN mp])
      (use k(1) reason type impl launch in simp)
  then have "\<exists>c'. sim_context_execute_kernel ?env local_context 0 = (SIM_RESULT_NOT_FOUND, c') \<and>
      w_fields (cx_world c') = [] \<and>
      operator_at c' 0 = Some ((demo_entry [])\<lparr>op_kernel := Some (k\<lparr>kn_params := []\<rparr>)\<rparr>)" by auto
  moreover have "bound_to [demo_grid] 0 (kn_bindings k ! 0)"
    using all k(1) by (simp add: local_context_simps(3)) (simp add: demo_kernel_def)
  ultimately show "\<exists>k c'. bound_to [demo_grid] 0 (kn_bindings k ! 0) \<and>
     sim_context_execute_kernel ?env local_context 0 = (SIM_RESULT_NOT_FOUND, c') \<and> w_fields (cx_world c') = [] \<and>
     operator_at c' 0 = Some ((demo_entry [])\<lparr>op_kernel := Some (k\<lparr>kn_params := []\<rparr>)\<rparr>)" by blast
qed

lemma known_fallback_runs_on_cpu_witness:
  "\<forall>m. \<exists>c'. sim_context_execute_kernel ((demo_env m)\<lparr>ee_impls := \<lparr>bt_cpu = demo_cpu, bt_cuda = None, bt_metal = None\<rparr>\<rparr>)
        kernel_context 0 = (SIM_RESULT_NOT_FOUND, c') \<and> w_fields (cx_world c') = [] \<and>
     dg_kernel_last_executed_backend (cx_diag c') = SIM_DIAGNOSTIC_BACKEND_CPU \<and>
     dg_kernel_last_fallback_reason (cx_diag c') = ''missing_backend_features''"
proof
  fix m
  let ?env = "(demo_env m)\<lparr>ee_impls := \<lparr>bt_cpu = demo_cpu, bt_cuda = None, bt_metal = None\<rparr>\<rparr>"
  obtain k where b: "bound_kernel ?env kernel_context demo_kernel = (SIM_RESULT_OK, k)"
    using demo_bound_kernel(1) [of ?env] by (metis prod.collapse)
  then have k: "kn_required_features k = 1" "kn_builder k = empty_builder" using demo_bound_kernel(2,3) [of ?env] by simp_all
  have "\<not> sim_kernel_requires_boundary_feature k" "\<not> sim_kernel_requires_warp_profile_fallback k demo_metal"
    by (simp_all add: sim_kernel_requires_boundary_feature_def sim_kernel_requires_warp_profile_fallback_def k
        empty_builder_def ir_nodes_def)
  then have reason: "fallback_reason (w_fields (cx_world kernel_context)) demo_metal k = Some ''missing_backend_features''"
    using k(1) by (simp add: fallback_reason_def backend_supports_features_def demo_metal_def)
  have other: "bk_type demo_metal \<noteq> Named SIM_BACKEND_TYPE_CPU" by (simp add: demo_metal_def)
  have init: "im_init (bt_cpu (ee_impls ?env)) zero_backend = (SIM_RESULT_OK, zero_backend)"
    by (simp add: demo_cpu_def zero_backend_def)
  have launch: "im_launch (bt_cpu (ee_impls ?env)) (zero_backend\<lparr>bk_last_error := SIM_RESULT_OK\<rparr>) k
      (w_fields (cx_world kernel_context)) = (SIM_RESULT_NOT_FOUND, zero_backend, [], [])"
    by (simp add: demo_cpu_def zero_backend_def)
  have cpu: "bk_type zero_backend = Named SIM_BACKEND_TYPE_CPU" by (simp add: zero_backend_def)
  from known_fallback_runs_on_cpu [OF kernel_context_simps(1) _ kernel_context_simps(2) b reason other init cpu launch,
      of "ee_impls ?env"]
  show "\<exists>c'. sim_context_execute_kernel ?env kernel_context 0 = (SIM_RESULT_NOT_FOUND, c') \<and>
     w_fields (cx_world c') = [] \<and> dg_kernel_last_executed_backend (cx_diag c') = SIM_DIAGNOSTIC_BACKEND_CPU \<and>
     dg_kernel_last_fallback_reason (cx_diag c') = ''missing_backend_features''" by auto
qed

end
