(* ===== verification/Context_Reach.thy ===== *)
theory Context_Reach
  imports Dispatch_Correct
begin

text \<open>
  Sixteen calls of the interface of a context as a relation, and the invariant that any sequence of them
  keeps. What a program does to a field through the pointer \<^verbatim>\<open>sim_context_field\<close> returns is not one of them;
  the last section shows what a promotion through that pointer does to the counters.
\<close>

section \<open>Calls\<close>

text \<open>
  One call of the sixteen; calls that fail count too. Left out are the setters of single members, which do not
  touch what the invariant speaks of, and every change of a field from outside of these calls. \<open>flux\<close> stands
  for the update of the flux lens, which is not modelled and keeps the invariant.
\<close>

inductive context_call :: "execution_env \<Rightarrow> SimContext \<Rightarrow> SimContext \<Rightarrow> bool" for env where
  field_added: "field_ok f \<Longrightarrow> length (w_fields (cx_world c)) < 2 ^ 62 \<Longrightarrow>
     sim_context_add_field (ee_heap env) (ee_topology env) c (Some f) = Some (r, c', rest, index) \<Longrightarrow> context_call env c c'"
| operator_registered: "sim_context_register_operator (ee_heap env) epoch counter c d = Some (rn, c') \<Longrightarrow> context_call env c c'"
| dependency_added: "sim_context_add_operator_dependency (ee_heap env) c i j = (r, c') \<Longrightarrow> context_call env c c'"
| override_set: "context_call env c (sim_context_set_continuity_override enabled config c)"
| limits_set: "context_call env c (sim_context_set_memory_limits limits c)"
| backend_set: "context_call env c (sim_context_set_backend backend c)"
| scratch_reserved: "sim_context_reserve_scratch c bytes = (r, c') \<Longrightarrow> context_call env c c'"
| scratch_released: "context_call env c (sim_context_release_scratch c bytes)"
| timestep_set: "context_call env c (sim_context_set_timestep dt c)"
| drift_begun: "context_call env c (sim_context_begin_drift c)"
| drift_ended: "context_call env c (sim_context_end_drift c)"
| drift_time_set: "context_call env c (sim_context_set_drift_time_override t c)"
| step_accepted: "(\<And>d. context_ok d \<Longrightarrow> context_ok (flux d)) \<Longrightarrow>
     context_call env c (sim_context_accept_step (ee_fpu env) flux dt c)"
| metrics_recorded: "context_call env c
     (sim_context_record_step_metrics_with_timing usage c requested accepted rms step_ns integrator_ns operator_ns)"
| plan_prepared: "registry_fits (registered_operators c) \<Longrightarrow>
     sim_context_prepare_plan (ee_heap env) c = Some (r, c') \<Longrightarrow> context_call env c c'"
| executed: "registry_fits (registered_operators c) \<Longrightarrow>
     sim_context_execute env clock c = Some (r, c', applied) \<Longrightarrow> context_call env c c'"

section \<open>Every call keeps the invariant\<close>

lemma runtime_context_ok:
  assumes "context_ok c" "rs_slots rs = rs_slots (cx_runtime c)"
    "rs_continuity_capacity rs = rs_continuity_capacity (cx_runtime c)" "metrics_ok rs"
  shows "context_ok (c\<lparr>cx_runtime := rs\<rparr>)"
  using set_runtime_ok(1) [OF assms(1) _ assms(3,4)] assms(2) by simp

lemma context_metrics_ok: "context_ok c \<Longrightarrow> metrics_ok (cx_runtime c)"
  by (simp add: context_ok_def arrays_ok_def)

lemma unplanned_context_ok:
  assumes "context_ok c"
  shows "context_ok (invalidate_plan (set_operators reg c))"
  using assms
  by (simp add: context_ok_defs invalidate_plan_def set_operators_def sim_scheduler_plan_invalidate_def world_ok_def
      split: option.splits)

lemma same_operators_context_ok:
  assumes "context_ok c" "scheduled_operators reg = registered_operators c"
  shows "context_ok (set_operators reg c)"
  using assms
  by (simp add: context_ok_defs set_operators_def registered_operators_def world_ok_def split: option.splits)

lemma set_operators_again: "set_operators reg (invalidate_plan (set_operators reg' c)) = invalidate_plan (set_operators reg c)"
  by (simp add: set_operators_def invalidate_plan_def)

lemma register_operator_ok:
  assumes "context_ok c" "sim_context_register_operator heap epoch counter c d = Some (rn, c')"
  shows "context_ok c'"
proof -
  have reg: "sim_operator_registry_register heap epoch counter (w_operators (cx_world c)) d = Some rn"
    using assms(2) by (auto simp: sim_context_register_operator_def Let_def split: option.splits if_splits)
  show ?thesis
  proof (cases "rn_result rn = SIM_RESULT_OK")
    case True
    have "\<exists>reg. c' = invalidate_plan (set_operators reg c)"
      using assms(2) reg True set_operators_again
      by (fastforce simp: sim_context_register_operator_def Let_def split: option.splits if_splits)
    then show ?thesis using unplanned_context_ok [OF assms(1)] by blast
  next
    case False
    have "rg_records (rn_registry rn) = rg_records (w_operators (cx_world c))"
      using reg False grow_records [of heap "w_operators (cx_world c)"]
      by (auto simp: sim_operator_registry_register_def Let_def split: option.splits prod.splits sum.splits if_splits)
    then have "scheduled_operators (rn_registry rn) = registered_operators c"
      by (simp add: scheduled_operators_def registered_operators_def)
    then show ?thesis
      using assms reg False same_operators_context_ok [OF assms(1)] by (auto simp: sim_context_register_operator_def)
  qed
qed

lemma add_dependency_ok:
  "context_ok c \<Longrightarrow> sim_context_add_operator_dependency heap c i j = (r, c') \<Longrightarrow> context_ok c'"
  by (auto simp: sim_context_add_operator_dependency_def Let_def unplanned_context_ok split: if_splits option.splits)

lemma override_ok:
  assumes "context_ok c"
  shows "context_ok (sim_context_set_continuity_override enabled config c)"
proof -
  have trunc: "SimOperator.truncate (sim_operator_config_set op k) = SimOperator.truncate op" for op k
    by (simp add: sim_operator_config_set_def SimOperator.truncate_def Let_def split: option.split)
  have member: "context_ok (d\<lparr>cx_continuity_override := k\<rparr>) = context_ok d"
    "context_ok (d\<lparr>cx_continuity_override_enabled := b\<rparr>) = context_ok d" for d k b
    by (simp_all add: context_ok_defs registered_operators_def)
  have map: "context_ok d \<Longrightarrow> context_ok (map_operators (sim_context_apply_override_to_operator e) d)" for d e
    by (simp add: context_ok_defs map_operators_def registered_operators_def scheduled_operators_def world_ok_def
        sim_context_apply_override_to_operator_def trunc comp_def split: option.splits)
  show ?thesis using assms by (simp add: sim_context_set_continuity_override_def Let_def member map)
qed

lemma add_size_granted:
  assumes "unat a + unat b < 2 ^ 64"
  shows "sim_context_add_size a b = Some (a + b)" "unat (a + b) = unat a + unat b"
proof -
  have "unat (size_max - b) = 2 ^ 64 - 1 - unat b"
    using unat_lt_64 [of b] by (subst unat_sub) (auto simp: word_le_nat_alt unat_size_max)
  then have "\<not> a > size_max - b" using assms by (simp add: word_less_nat_alt)
  then show "sim_context_add_size a b = Some (a + b)" by (simp add: sim_context_add_size_def)
  show "unat (a + b) = unat a + unat b" using assms by (simp add: unat_add_exact)
qed

lemma reserve_scratch_ok:
  assumes "context_ok c" "sim_context_reserve_scratch c bytes = (r, c')"
  shows "context_ok c'"
proof (cases "c' = c")
  case False
  then obtain s t where st: "sim_context_add_size (cx_bytes_scratch_in_use c) bytes = Some s"
    "sim_context_add_size (cx_bytes_fields_in_use c) s = Some t"
    "c' = c\<lparr>cx_bytes_scratch_in_use := s, cx_bytes_total_in_use := t\<rparr>"
    using assms(2) by (auto simp: sim_context_reserve_scratch_def split: if_splits option.splits)
  then show ?thesis using assms(1) add_size_Some [OF st(2), THEN conjunct2]
    by (simp add: context_ok_defs registered_operators_def)
qed (use assms in simp)

lemma release_scratch_ok:
  assumes "context_ok c"
  shows "context_ok (sim_context_release_scratch c bytes)"
proof -
  let ?s = "if bytes \<ge> cx_bytes_scratch_in_use c then 0 else cx_bytes_scratch_in_use c - bytes"
  have le: "unat ?s \<le> unat (cx_bytes_scratch_in_use c)" by (simp add: unat_sub word_le_nat_alt)
  have sum: "unat (cx_bytes_fields_in_use c) + unat (cx_bytes_scratch_in_use c) < 2 ^ 64"
    using assms unat_lt_64 [of "cx_bytes_total_in_use c"] by (simp add: context_ok_defs)
  then have "unat (cx_bytes_fields_in_use c) + unat ?s < 2 ^ 64" using le by linarith
  note t = add_size_granted [OF this]
  then show ?thesis using assms
    by (simp add: sim_context_release_scratch_def context_ok_defs registered_operators_def Let_def)
qed


lemma accept_step_ok:
  assumes "context_ok c" "\<And>d. context_ok d \<Longrightarrow> context_ok (flux d)"
  shows "context_ok (sim_context_accept_step m flux dt c)"
  unfolding sim_context_accept_step_def Let_def
  by (intro assms(2) runtime_context_ok [OF assms(1)])
     (use context_metrics_ok [OF assms(1)] in \<open>simp_all add: metrics_ok_def\<close>)

lemma drift_ok:
  assumes "context_ok c"
  shows "context_ok (sim_context_begin_drift c)" "context_ok (sim_context_end_drift c)"
    "context_ok (sim_context_set_drift_time_override t c)" "context_ok (sim_context_set_timestep dt c)"
proof -
  have met: "metrics_ok (cx_runtime c)" using context_metrics_ok [OF assms] .
  show "context_ok (sim_context_begin_drift c)"
    using assms met
    by (auto simp: sim_context_begin_drift_def Let_def metrics_ok_def intro!: runtime_context_ok)
  show "context_ok (sim_context_end_drift c)"
    using assms met
    by (auto simp: sim_context_end_drift_def Let_def metrics_ok_def intro!: runtime_context_ok)
  show "context_ok (sim_context_set_drift_time_override t c)"
    using assms met
    by (auto simp: sim_context_set_drift_time_override_def metrics_ok_def intro!: runtime_context_ok)
  show "context_ok (sim_context_set_timestep dt c)"
    using assms met unfolding sim_context_set_timestep_def
    by (intro runtime_context_ok) (simp_all add: metrics_ok_def)
qed

lemma record_metrics_context_ok:
  assumes "context_ok c"
  shows "context_ok (sim_context_record_step_metrics_with_timing usage c q a e s i p)"
proof -
  have frame: "rs_slots (sim_runtime_state_record_step_metrics m rs) = rs_slots rs"
    "rs_continuity_capacity (sim_runtime_state_record_step_metrics m rs) = rs_continuity_capacity rs" for m rs
    by (simp_all add: sim_runtime_state_record_step_metrics_def Let_def split: option.split)
  have "context_ok (c\<lparr>cx_runtime := sim_runtime_state_record_step_metrics (Some m) (cx_runtime c)\<rparr>)" for m
    by (rule runtime_context_ok [OF assms frame record_metrics_ok [OF context_metrics_ok [OF assms]]])
  then show ?thesis using assms
    by (simp add: sim_context_record_step_metrics_with_timing_def Let_def split: prod.split)
qed

lemma settings_ok:
  "context_ok (sim_context_set_memory_limits limits c) = context_ok c"
  by (simp add: sim_context_set_memory_limits_def context_ok_defs registered_operators_def)

lemma context_call_ok:
  assumes "env_ok env" "context_call env c c'" "context_ok c"
  shows "context_ok c'"
  using assms(2,3)
proof cases
  case (field_added f r rest index)
  then show ?thesis using add_field_ok [OF assms(3), of f "ee_heap env" "ee_topology env"] by auto
next
  case (plan_prepared r)
  then show ?thesis using prepare_plan_ok [OF assms(3), of "ee_heap env"] assms(1) by (auto simp: env_ok_def)
next
  case (executed clock r applied)
  then show ?thesis using execute_ok [OF assms(1,3), of clock] by auto
next
  case (operator_registered epoch counter d rn)
  then show ?thesis using register_operator_ok [OF assms(3)] by blast
next
  case (dependency_added i j r)
  then show ?thesis using add_dependency_ok [OF assms(3)] by blast
next
  case (scratch_reserved bytes r)
  then show ?thesis using reserve_scratch_ok [OF assms(3)] by blast
next
  case (step_accepted flux dt)
  then show ?thesis using accept_step_ok [OF assms(3)] by blast
qed (use override_ok [OF assms(3)] settings_ok release_scratch_ok [OF assms(3)] drift_ok [OF assms(3)]
  record_metrics_context_ok [OF assms(3)] assms(3) set_backend_ok(1) in \<open>simp_all only:\<close>)

text \<open>
  C15. Whatever sequence of the sixteen calls above follows the creation of a context, with callbacks of the
  operators that keep the invariant themselves, the byte counters are exact: the fields in use are the sizes
  of the fields added up, and the total is that and the scratch. A valid plan lists all operators, each after
  what it depends on and what it conflicts with from before, and the metrics and the per-field arrays are
  consistent, with a slot for every field. This says nothing of a program that changes a field through its
  pointer, or that has an operator which does, like the promotion node of \<^verbatim>\<open>graph_ir.c\<close>.
\<close>

theorem context_calls_consistent:
  assumes "env_ok env" "sim_context_init_with_universe heap factories universe = Inr c0"
    and "(context_call env)\<^sup>*\<^sup>* c0 c"
  shows "unat (cx_bytes_fields_in_use c) = field_bytes_total (w_fields (cx_world c)) \<and>
    unat (cx_bytes_total_in_use c) = unat (cx_bytes_fields_in_use c) + unat (cx_bytes_scratch_in_use c) \<and>
    (\<forall>f \<in> set (w_fields (cx_world c)). field_ok f) \<and>
    (sp_plan_valid (cx_scheduler c) \<longrightarrow> plan_respects (registered_operators c) (sp_plan (cx_scheduler c))) \<and>
    metrics_ok (cx_runtime c) \<and> length (w_fields (cx_world c)) \<le> length (rs_slots (cx_runtime c))"
proof -
  have "context_ok c"
    using assms(3) init_context_ok [OF assms(2)]
    by (induction rule: rtranclp_induct) (auto intro: context_call_ok [OF assms(1)])
  then show ?thesis by (simp add: context_ok_defs)
qed

lemma context_calls_consistent_witness:
  "\<forall>m. \<exists>c. (context_call (demo_env m))\<^sup>*\<^sup>* new_context c \<and> cx_bytes_scratch_in_use c = 16 \<and>
     unat (cx_bytes_total_in_use c) = field_bytes_total (w_fields (cx_world c)) + 16"
proof
  fix m
  let ?c = "snd (sim_context_reserve_scratch new_context 16)"
  have "context_call (demo_env m) new_context ?c"
    by (rule scratch_reserved [where r = "fst (sim_context_reserve_scratch new_context 16)"]) simp
  then have steps: "(context_call (demo_env m))\<^sup>*\<^sup>* new_context ?c" by simp
  have scratch: "cx_bytes_scratch_in_use ?c = 16"
    by (simp add: sim_context_reserve_scratch_def sim_context_add_size_def)
  show "\<exists>c. (context_call (demo_env m))\<^sup>*\<^sup>* new_context c \<and> cx_bytes_scratch_in_use c = 16 \<and>
     unat (cx_bytes_total_in_use c) = field_bytes_total (w_fields (cx_world c)) + 16"
    using context_calls_consistent [OF demo_env_ok new_context [unfolded sim_context_init_def] steps] steps scratch
    by (intro exI [of _ ?c]) simp
qed

section \<open>A promotion through the pointer of a field\<close>

text \<open>
  \<^verbatim>\<open>sim_graph_ir_execute_promote\<close> calls \<^verbatim>\<open>sim_field_require_complex\<close> on a field of the context. The field
  doubles and the counters stay: from then on they are below what the fields take.
\<close>

lemma pointer_promotion_uncounted:
  assumes "context_ok c" "bounded_heap h" "i < length (w_fields (cx_world c))"
    and "f_element_size (w_fields (cx_world c) ! i) = 8"
    and "sim_field_require_complex h (Some (w_fields (cx_world c) ! i)) = (SIM_RESULT_OK, Some f')"
  shows "unat (cx_bytes_fields_in_use (set_field i f' c)) < field_bytes_total (w_fields (cx_world (set_field i f' c)))"
proof -
  let ?fs = "w_fields (cx_world c)" and ?f = "w_fields (cx_world c) ! i"
  have f: "field_ok ?f" and total: "unat (cx_bytes_fields_in_use c) = field_bytes_total ?fs"
    using assms(1,3) by (auto simp: context_ok_defs world_ok_def)
  have f': "field_ok f'" by (rule require_complex_ok(1) [OF f assms(2,5)])
  have promoted: "f_layout f' = f_layout ?f" "f_element_size f' = 16"
    using require_complex_keeps(1) [OF f assms(2,5)] require_complex_ok(2) [OF f assms(2,5)] by simp_all
  have "unat (sim_field_bytes (Some ?f)) < unat (sim_field_bytes (Some f'))"
    using field_bytes_exact(1,3) [OF f] field_bytes_exact(1) [OF f'] promoted assms(4) by simp
  then show ?thesis
    using field_bytes_total_update [OF assms(3), of f'] total by (simp add: set_field_def)
qed

end
