(* ===== verification/Operator_Utils.thy ===== *)
theory Operator_Utils
  imports Sim_Context IR_Integer
begin

text \<open>
  The helpers shared by the operator library, \<^verbatim>\<open>core/src/operators/common/operator_utils.c\<close>: exact integers
  in fields, names, clock modes and the policy for kernels. The counter behind the names is a static of
  the file and is passed along; an environment variable is an argument.
\<close>

unbundle bit_operations_syntax

section \<open>Exact integers\<close>

definition sim_operator_domain_is_exact_integer :: "SimScalarDomain \<Rightarrow> bool" where
  "sim_operator_domain_is_exact_integer domain \<longleftrightarrow>
     sim_scalar_domain_is_integer domain \<and>
     (sd_bit_width domain = 8 \<or> sd_bit_width domain = 32 \<or> sd_bit_width domain = 64)"

definition sim_operator_integer_mask :: "SimScalarDomain \<Rightarrow> u64" where
  "sim_operator_integer_mask domain =
     (if sd_bit_width domain = 0 then 0
      else if sd_bit_width domain \<ge> 64 then - 1
      else push_bit (unat (sd_bit_width domain)) 1 - 1)"

definition sim_operator_integer_truncate :: "u64 \<Rightarrow> SimScalarDomain \<Rightarrow> u64" where
  "sim_operator_integer_truncate raw domain =
     (if \<not> sim_operator_domain_is_exact_integer domain then 0
      else if sd_bit_width domain \<ge> 64 then raw
      else raw AND sim_operator_integer_mask domain)"

text \<open>An \<^verbatim>\<open>int64_t\<close> is its 64 bits; \<open>sint\<close> reads it.\<close>

definition sim_operator_integer_as_i64 :: "u64 \<Rightarrow> SimScalarDomain \<Rightarrow> u64" where
  "sim_operator_integer_as_i64 raw domain =
     (let raw = sim_operator_integer_truncate raw domain
      in if \<not> sim_operator_domain_is_exact_integer domain then 0
         else if \<not> sd_is_signed domain \<or> sd_bit_width domain \<ge> 64 then raw
         else
           let bits = sim_operator_integer_mask domain;
               sign_bit = push_bit (unat (sd_bit_width domain - 1)) 1
           in if raw AND sign_bit \<noteq> 0 then raw OR NOT bits else raw)"

definition sim_operator_integer_raw_from_signed :: "u64 \<Rightarrow> SimScalarDomain \<Rightarrow> u64 option" where
  "sim_operator_integer_raw_from_signed val domain =
     (if \<not> sim_operator_domain_is_exact_integer domain \<or> \<not> sd_is_signed domain then None
      else if sd_bit_width domain = 8 \<and> (sint val < - 128 \<or> sint val > 127) then None
      else if sd_bit_width domain = 32 \<and> (sint val < - 2147483648 \<or> sint val > 2147483647) then None
      else Some (sim_operator_integer_truncate val domain))"

definition sim_operator_integer_raw_from_unsigned :: "u64 \<Rightarrow> SimScalarDomain \<Rightarrow> u64 option" where
  "sim_operator_integer_raw_from_unsigned val domain =
     (if \<not> sim_operator_domain_is_exact_integer domain \<or> sd_is_signed domain then None
      else if sd_bit_width domain = 8 \<and> val > 255 then None
      else if sd_bit_width domain = 32 \<and> val > 4294967295 then None
      else Some (sim_operator_integer_truncate val domain))"

text \<open>
  A finite double equals its truncation when it stands for an integer. Up to \<open>2^53\<close> in magnitude the
  comparisons with the converted bounds are those of the integers.
\<close>

definition sim_operator_integer_raw_from_double :: "f64 \<Rightarrow> SimScalarDomain \<Rightarrow> u64 option" where
  "sim_operator_integer_raw_from_double val domain =
     (case f64_integer val of
        None \<Rightarrow> None
      | Some z \<Rightarrow>
          if \<not> sim_operator_domain_is_exact_integer domain \<or> \<bar>z\<bar> > 9007199254740992 then None
          else if sd_is_signed domain then
            if sd_bit_width domain = 8 \<and> (z < - 128 \<or> z > 127) then None
            else if sd_bit_width domain = 32 \<and> (z < - 2147483648 \<or> z > 2147483647) then None
            else sim_operator_integer_raw_from_signed (word_of_int z) domain
          else if z < 0 then None
          else if sd_bit_width domain = 8 \<and> z > 255 then None
          else if sd_bit_width domain = 32 \<and> z > 4294967295 then None
          else sim_operator_integer_raw_from_unsigned (word_of_int z) domain)"

definition sim_operator_integer_compare :: "u64 \<Rightarrow> u64 \<Rightarrow> SimScalarDomain \<Rightarrow> int" where
  "sim_operator_integer_compare lhs_raw rhs_raw domain =
     (if \<not> sim_operator_domain_is_exact_integer domain then 0
      else
        let lhs_raw = sim_operator_integer_truncate lhs_raw domain;
            rhs_raw = sim_operator_integer_truncate rhs_raw domain
        in if sd_is_signed domain then
             let lhs = sint (sim_operator_integer_as_i64 lhs_raw domain);
                 rhs = sint (sim_operator_integer_as_i64 rhs_raw domain)
             in if lhs < rhs then - 1 else if lhs > rhs then 1 else 0
           else if lhs_raw < rhs_raw then - 1 else if lhs_raw > rhs_raw then 1 else 0)"

text \<open>The storage is a block of bytes; a signed element is widened before it is truncated.\<close>

definition widened :: "nat \<Rightarrow> u64 \<Rightarrow> u64" where
  "widened k w = signed_take_bit (8 * k - 1) w"

definition sim_operator_integer_read :: "u8 list option \<Rightarrow> SimScalarDomain \<Rightarrow> nat \<Rightarrow> u64 option" where
  "sim_operator_integer_read data domain index =
     (case data of
        None \<Rightarrow> None
      | Some bytes \<Rightarrow>
          let signed = (\<lambda>k. Some (sim_operator_integer_truncate (widened k (load_le k bytes (k * index))) domain));
              unsigned = (\<lambda>k. Some (sim_operator_integer_truncate (load_le k bytes (k * index)) domain))
          in if \<not> sim_operator_domain_is_exact_integer domain then None
             else if sim_scalar_domain_equal domain sim_scalar_domain_i8 then signed 1
             else if sim_scalar_domain_equal domain sim_scalar_domain_i32 then signed 4
             else if sim_scalar_domain_equal domain sim_scalar_domain_i64 then signed 8
             else if sim_scalar_domain_equal domain sim_scalar_domain_u8 then unsigned 1
             else if sim_scalar_domain_equal domain sim_scalar_domain_u32 then unsigned 4
             else if sim_scalar_domain_equal domain sim_scalar_domain_u64 then unsigned 8
             else None)"

definition sim_operator_integer_write :: "u8 list option \<Rightarrow> SimScalarDomain \<Rightarrow> nat \<Rightarrow> u64 \<Rightarrow> u8 list option" where
  "sim_operator_integer_write data domain index raw =
     (let raw = sim_operator_integer_truncate raw domain
      in (case data of
            None \<Rightarrow> None
          | Some bytes \<Rightarrow>
              let signed = (\<lambda>k. Some (memcpy_at bytes (k * index) (bytes_le k (sim_operator_integer_as_i64 raw domain))));
                  unsigned = (\<lambda>k. Some (memcpy_at bytes (k * index) (bytes_le k (sim_operator_integer_truncate raw domain))))
              in if \<not> sim_operator_domain_is_exact_integer domain then None
                 else if sim_scalar_domain_equal domain sim_scalar_domain_i8 then signed 1
                 else if sim_scalar_domain_equal domain sim_scalar_domain_i32 then signed 4
                 else if sim_scalar_domain_equal domain sim_scalar_domain_i64 then signed 8
                 else if sim_scalar_domain_equal domain sim_scalar_domain_u8 then unsigned 1
                 else if sim_scalar_domain_equal domain sim_scalar_domain_u32 then unsigned 4
                 else if sim_scalar_domain_equal domain sim_scalar_domain_u64 then unsigned 8
                 else None))"

definition sim_operator_field_domain_is_f64 :: "SimField option \<Rightarrow> bool" where
  "sim_operator_field_domain_is_f64 field \<longleftrightarrow>
     field \<noteq> None \<and> sim_scalar_domain_equal (sim_field_scalar_domain field) sim_scalar_domain_f64"

definition sim_operator_field_domain_is_f64_or_c64 :: "SimField option \<Rightarrow> bool" where
  "sim_operator_field_domain_is_f64_or_c64 field \<longleftrightarrow>
     field \<noteq> None \<and>
     (let domain = sim_field_scalar_domain field
      in sim_scalar_domain_equal domain sim_scalar_domain_f64 \<or> sim_scalar_domain_equal domain sim_scalar_domain_c64)"

section \<open>Names\<close>

text \<open>What \<^verbatim>\<open>%llu\<close> prints.\<close>

fun decimal :: "nat \<Rightarrow> string" where
  "decimal n = (if n < 10 then [char_of (48 + n)] else decimal (n div 10) @ [char_of (48 + n mod 10)])"

declare decimal.simps [simp del]

definition sim_operator_make_unique_name :: "nat \<Rightarrow> string option \<Rightarrow> u64 \<Rightarrow> string option \<times> u64" where
  "sim_operator_make_unique_name capacity prefix counter =
     (case prefix of
        None \<Rightarrow> (None, counter)
      | Some p \<Rightarrow>
          if capacity = 0 then (None, counter)
          else (Some (take (capacity - 1) (p @ ''_'' @ decimal (unat (counter + 1)))), counter + 1))"

section \<open>Policies\<close>

datatype SimClockMode =
    SIM_CLOCK_FROM_TIME_PARAM
  | SIM_CLOCK_FROM_STEP_PURE
  | SIM_CLOCK_ACCUMULATED_STATEFUL

definition sim_operator_resolve_scale_by_dt :: "bool \<Rightarrow> bool \<Rightarrow> bool" where
  "sim_operator_resolve_scale_by_dt has_user_value requested = (if has_user_value then requested else True)"

text \<open>The mode of the context, which an operator may override.\<close>

definition operator_mode :: "SimRepresentationMode c_enum \<Rightarrow> SimOperatorConfig option \<Rightarrow> SimRepresentationMode c_enum" where
  "operator_mode mode oconf =
     (case oconf of
        Some c \<Rightarrow> if cf_representation_mode_override_enabled c then cf_representation_mode_override c else mode
      | None \<Rightarrow> mode)"

definition sim_operator_choose_time_mode ::
  "SimContext option \<Rightarrow> SimOperatorConfig option \<Rightarrow> SimClockMode \<Rightarrow> f64 \<Rightarrow> f64 \<Rightarrow> SimClockMode \<times> bool" where
  "sim_operator_choose_time_mode context oconf requested nominal_dt epsilon =
     (let mode = operator_mode
            (case context of None \<Rightarrow> Named SIM_REPRESENTATION_MODE_RELAXED
             | Some _ \<Rightarrow> sim_context_representation_mode context) oconf;
          usable = (f64_isfinite nominal_dt \<and> f64_less epsilon nominal_dt)
      in if mode = Named SIM_REPRESENTATION_MODE_STRICT then
           (case requested of
              SIM_CLOCK_ACCUMULATED_STATEFUL \<Rightarrow>
                (if usable then SIM_CLOCK_FROM_STEP_PURE else SIM_CLOCK_FROM_TIME_PARAM, True)
            | SIM_CLOCK_FROM_STEP_PURE \<Rightarrow>
                if \<not> usable then (SIM_CLOCK_FROM_TIME_PARAM, True) else (requested, False)
            | _ \<Rightarrow> (requested, False))
         else (requested, False))"

definition sim_operator_should_register_kernel ::
  "SimContext option \<Rightarrow> SimOperatorConfig option \<Rightarrow> u64 \<Rightarrow> u32 \<Rightarrow> bool" where
  "sim_operator_should_register_kernel context oconf required_features determinism_flags =
     (case context of
        None \<Rightarrow> False
      | Some _ \<Rightarrow> sim_context_kernel_allowed_mode context
                    (operator_mode (sim_context_representation_mode context) oconf)
                    required_features determinism_flags)"

definition sim_operator_bool_env_enabled :: "string option \<Rightarrow> bool" where
  "sim_operator_bool_env_enabled val =
     (val \<noteq> None \<and> val \<noteq> Some [] \<and>
      list_ex (\<lambda>s. sim_ascii_equal_ci val (Some s)) [''1'', ''true'', ''yes'', ''on''])"

definition split_only_schemas :: "string list" where
  "split_only_schemas =
     [''mixer'', ''analytic_warp'', ''linear_spectral_fusion'', ''linear_dissipative'', ''dispersion'',
      ''phase_rotate'', ''phase_feature'', ''remainder'', ''thermostat'', ''spatial_derivative'',
      ''fractional_memory'', ''minimal_convolution'', ''stochastic_noise'', ''stimulus_sine'',
      ''stimulus_standing'', ''stimulus_chirp'', ''stimulus_spectral_lines'', ''stimulus_checkerboard'',
      ''stimulus_digamma_square'', ''stimulus_fbm'', ''stimulus_fourier'', ''stimulus_gabor'',
      ''stimulus_gaussian'', ''stimulus_random_fourier'', ''stimulus_white_noise'']"

definition sim_operator_schema_split_only_default :: "string option \<Rightarrow> bool" where
  "sim_operator_schema_split_only_default schema_key =
     (case schema_key of None \<Rightarrow> False | Some k \<Rightarrow> k \<noteq> [] \<and> k \<in> set split_only_schemas)"

text \<open>\<open>env\<close> is the value of \<^verbatim>\<open>OAKFIELD_ENABLE_EXPERIMENTAL_LEGACY_KERNELS\<close>.\<close>

definition sim_operator_should_register_kernel_for_schema ::
  "string option \<Rightarrow> SimContext option \<Rightarrow> SimOperatorConfig option \<Rightarrow> u64 \<Rightarrow> u32 \<Rightarrow> string option \<Rightarrow> bool" where
  "sim_operator_should_register_kernel_for_schema env context oconf required_features determinism_flags schema_key =
     (if \<not> sim_operator_should_register_kernel context oconf required_features determinism_flags then False
      else if \<not> sim_operator_schema_split_only_default schema_key then True
      else sim_operator_bool_env_enabled env)"

section \<open>The integers of the operators and of the kernels\<close>

lemma exact_integer_domain:
  assumes "sim_operator_domain_is_exact_integer d"
  shows "integer_domain d \<longleftrightarrow> sd_modulus d = 0"
  using assms
  by (auto simp: sim_operator_domain_is_exact_integer_def integer_domain_def sim_scalar_domain_validate_def
      sim_ir_domain_is_exact_integer_def sim_scalar_domain_is_integer_def)

lemma operator_integers_agree:
  assumes "integer_domain d"
  shows "sim_operator_domain_is_exact_integer d"
    "sim_operator_integer_truncate raw d = sim_ir_integer_truncate raw d"
    "sim_operator_integer_as_i64 raw d = sim_ir_integer_as_i64 raw d"
proof -
  show exact: "sim_operator_domain_is_exact_integer d"
    using assms
    by (auto simp: sim_operator_domain_is_exact_integer_def integer_domain_def sim_scalar_domain_validate_def
        sim_ir_domain_is_exact_integer_def sim_scalar_domain_is_integer_def)
  then have width: "sd_bit_width d \<noteq> 0" by (auto simp: sim_operator_domain_is_exact_integer_def)
  show trunc: "sim_operator_integer_truncate raw d = sim_ir_integer_truncate raw d"
    using exact width
    by (simp add: sim_operator_integer_truncate_def sim_ir_integer_truncate_def sim_operator_integer_mask_def
        sim_ir_integer_mask_def)
  show "sim_operator_integer_as_i64 raw d = sim_ir_integer_as_i64 raw d"
    using exact width trunc
    by (simp add: sim_operator_integer_as_i64_def sim_ir_integer_as_i64_def sim_operator_integer_mask_def
        sim_ir_integer_mask_def Let_def)
qed

lemma compare_sgn:
  assumes "integer_domain d"
  shows "sim_operator_integer_compare l r d = sgn (int_value d l - int_value d r)"
proof -
  note agree = operator_integers_agree [OF assms]
  have "sim_ir_integer_as_i64 (sim_ir_integer_truncate w d) d = sim_ir_integer_as_i64 w d" for w
    using assms by (cases "sd_bit_width d \<ge> 64") (simp_all add: sim_ir_integer_as_i64_def sim_ir_integer_truncate_def)
  then show ?thesis
    by (auto simp: sim_operator_integer_compare_def agree int_value_def Let_def word_less_def)
qed

end
