(* ===== verification/Sieve_Mark.thy ===== *)
theory Sieve_Mark
  imports Operator_Utils Context_Plan
begin

text \<open>
  The marking operators of the segmented sieve, \<^verbatim>\<open>core/src/operators/coupling/segmented_sieve_mark.c\<close> (one
  prime) and \<^verbatim>\<open>segmented_sieve_mark_batch.c\<close> (the primes of a field). A step reads the candidates of one
  field and clears the flags of another field in place. The two may be the same field: \<open>candidates\<close> gives
  the bytes of the candidates as a function of the bytes of the flags.
\<close>

unbundle bit_operations_syntax

section \<open>Configurations\<close>

record SimSegmentedSieveMarkOperatorConfig =
  sm_candidate_field :: nat
  sm_flags_field :: nat
  sm_prime :: u64

record SimSegmentedSieveMarkBatchOperatorConfig =
  sb_candidate_field :: nat
  sb_primes_field :: nat
  sb_flags_field :: nat

text \<open>The arrays of the batch operator are at least as long as the capacity.\<close>

record SimSegmentedSieveMarkBatchOperatorState =
  bs_config :: SimSegmentedSieveMarkBatchOperatorConfig
  bs_prime_cache :: "u64 list"
  bs_prime_values :: "u64 list"
  bs_prime_cache_capacity :: nat

definition sim_field_data_const :: "SimField option \<Rightarrow> u8 list option" where
  "sim_field_data_const field = (if \<not> sim_field_is_initialized field then None else f_data (the field))"

section \<open>One prime\<close>

definition segmented_sieve_mark_prime_to_domain_raw :: "u64 \<Rightarrow> SimScalarDomain \<Rightarrow> u64 option" where
  "segmented_sieve_mark_prime_to_domain_raw prime_value domain =
     (if \<not> sim_operator_domain_is_exact_integer domain \<or> prime_value < 2 then None
      else if sd_is_signed domain then
        if (sd_bit_width domain = 32 \<and> prime_value > 2147483647) \<or>
           (sd_bit_width domain = 64 \<and> prime_value > 9223372036854775807) then None
        else sim_operator_integer_raw_from_signed prime_value domain
      else sim_operator_integer_raw_from_unsigned prime_value domain)"

definition segmented_sieve_mark_flag_domain_supported :: "SimScalarDomain \<Rightarrow> bool" where
  "segmented_sieve_mark_flag_domain_supported domain \<longleftrightarrow>
     sim_operator_domain_is_exact_integer domain \<or> sim_scalar_domain_equal domain sim_scalar_domain_f64"

definition segmented_sieve_mark_validate_fields ::
  "SimField option \<Rightarrow> SimField option \<Rightarrow> SimSegmentedSieveMarkOperatorConfig \<Rightarrow> SimResult" where
  "segmented_sieve_mark_validate_fields candidate_field flags_field conf =
     (case (candidate_field, flags_field) of
        (Some cf, Some ff) \<Rightarrow>
          if sim_field_element_count (f_layout cf) \<noteq> sim_field_element_count (f_layout ff)
            then SIM_RESULT_INVALID_ARGUMENT
          else if sim_field_is_complex (Some cf) \<or> sim_field_is_complex (Some ff) then SIM_RESULT_TYPE_MISMATCH
          else
            let candidate_domain = sim_field_scalar_domain (Some cf);
                flags_domain = sim_field_scalar_domain (Some ff)
            in if \<not> sim_operator_domain_is_exact_integer candidate_domain \<or>
                  \<not> segmented_sieve_mark_flag_domain_supported flags_domain then SIM_RESULT_TYPE_MISMATCH
               else if segmented_sieve_mark_prime_to_domain_raw (sm_prime conf) candidate_domain = None
                 then SIM_RESULT_INVALID_ARGUMENT
               else SIM_RESULT_OK
      | _ \<Rightarrow> SIM_RESULT_INVALID_ARGUMENT)"

text \<open>The remainder of C, of which only the test against zero matters.\<close>

definition segmented_sieve_mark_candidate_hits :: "u64 \<Rightarrow> u64 \<Rightarrow> SimScalarDomain \<Rightarrow> bool" where
  "segmented_sieve_mark_candidate_hits candidate_raw prime_raw domain =
     (if \<not> sim_operator_domain_is_exact_integer domain then False
      else if sim_operator_integer_compare candidate_raw prime_raw domain \<le> 0 then False
      else if sd_is_signed domain then
        let candidate = sint (sim_operator_integer_as_i64 candidate_raw domain);
            prime = sint (sim_operator_integer_as_i64 prime_raw domain)
        in if prime \<le> 1 then False else candidate smod prime = 0
      else
        let candidate_raw = sim_operator_integer_truncate candidate_raw domain;
            prime_raw = sim_operator_integer_truncate prime_raw domain
        in if prime_raw \<le> 1 then False else candidate_raw mod prime_raw = 0)"

text \<open>
  The loop over the elements: the body of one element clears its flag or leaves it, \<open>None\<close> is a failure,
  after which the flags cleared before stay cleared. \<open>hit\<close> is the test of the candidate.
\<close>

fun flag_loop :: "(nat \<Rightarrow> u8 list \<Rightarrow> u8 list option) \<Rightarrow> nat list \<Rightarrow> u8 list \<Rightarrow> SimResult \<times> u8 list" where
  "flag_loop body [] flags = (SIM_RESULT_OK, flags)"
| "flag_loop body (i # is) flags =
     (case body i flags of
        None \<Rightarrow> (SIM_RESULT_INVALID_ARGUMENT, flags)
      | Some flags' \<Rightarrow> flag_loop body is flags')"

definition mark_integer_flag ::
  "(u8 list \<Rightarrow> u8 list) \<Rightarrow> SimScalarDomain \<Rightarrow> SimScalarDomain \<Rightarrow> (u64 \<Rightarrow> bool) \<Rightarrow> nat \<Rightarrow> u8 list \<Rightarrow> u8 list option" where
  "mark_integer_flag candidates candidate_domain flags_domain hit i flags =
     (case sim_operator_integer_read (Some flags) flags_domain i of
        None \<Rightarrow> None
      | Some flag_raw \<Rightarrow>
          if flag_raw = 0 then Some flags
          else (case sim_operator_integer_read (Some (candidates flags)) candidate_domain i of
                  None \<Rightarrow> None
                | Some candidate_raw \<Rightarrow>
                    if \<not> hit candidate_raw then Some flags
                    else sim_operator_integer_write (Some flags) flags_domain i 0))"

definition mark_real_flag ::
  "(u8 list \<Rightarrow> u8 list) \<Rightarrow> SimScalarDomain \<Rightarrow> (u64 \<Rightarrow> bool) \<Rightarrow> nat \<Rightarrow> u8 list \<Rightarrow> u8 list option" where
  "mark_real_flag candidates candidate_domain hit i flags =
     (if f64_eq (load_le 8 flags (8 * i)) f64_zero then Some flags
      else (case sim_operator_integer_read (Some (candidates flags)) candidate_domain i of
              None \<Rightarrow> None
            | Some candidate_raw \<Rightarrow>
                if hit candidate_raw then Some (memcpy_at flags (8 * i) (bytes_le 8 f64_zero)) else Some flags))"

text \<open>The loop over a field of flags, whose domain selects the pointer and the body.\<close>

definition mark_flags ::
  "SimContext \<Rightarrow> nat \<Rightarrow> nat \<Rightarrow> u8 list \<Rightarrow> SimScalarDomain \<Rightarrow> nat \<Rightarrow> (u64 \<Rightarrow> bool) \<Rightarrow> SimResult \<times> SimContext" where
  "mark_flags c candidate_index flags_index candidate_data candidate_domain n hit =
     (let flags_field = the (sim_context_field c flags_index);
          flags_domain = sim_field_scalar_domain (Some flags_field);
          candidates = (\<lambda>flags. if candidate_index = flags_index then flags else candidate_data);
          exact = sim_operator_domain_is_exact_integer flags_domain;
          data = (if exact then sim_field_data (Some flags_field) else sim_field_real_data (Some flags_field));
          body = (if exact then mark_integer_flag candidates candidate_domain flags_domain hit
                  else mark_real_flag candidates candidate_domain hit)
      in (case data of
            None \<Rightarrow> (SIM_RESULT_INVALID_ARGUMENT, c)
          | Some flags_data \<Rightarrow>
              (case flag_loop body [0..<n] flags_data of
                 (result, flags) \<Rightarrow> (result, set_field flags_index (flags_field\<lparr>f_data := Some flags\<rparr>) c))))"

definition segmented_sieve_mark_apply ::
  "SimSegmentedSieveMarkOperatorConfig \<Rightarrow> SimContext \<Rightarrow> SimResult \<times> SimContext" where
  "segmented_sieve_mark_apply conf c =
     (let candidate_field = sim_context_field c (sm_candidate_field conf);
          flags_field = sim_context_field c (sm_flags_field conf);
          validate = segmented_sieve_mark_validate_fields candidate_field flags_field conf
      in if validate \<noteq> SIM_RESULT_OK then (validate, c)
         else
           let candidate_domain = sim_field_scalar_domain candidate_field
           in (case segmented_sieve_mark_prime_to_domain_raw (sm_prime conf) candidate_domain of
                 None \<Rightarrow> (SIM_RESULT_INVALID_ARGUMENT, c)
               | Some prime_raw \<Rightarrow>
                   (case sim_field_data_const candidate_field of
                      None \<Rightarrow> (SIM_RESULT_INVALID_ARGUMENT, c)
                    | Some candidate_data \<Rightarrow>
                        mark_flags c (sm_candidate_field conf) (sm_flags_field conf) candidate_data candidate_domain
                          (unat (sim_field_element_count (f_layout (the candidate_field))))
                          (\<lambda>candidate_raw.
                             segmented_sieve_mark_candidate_hits candidate_raw prime_raw candidate_domain))))"

section \<open>The primes of a field\<close>

definition segmented_sieve_mark_batch_flag_domain_supported :: "SimScalarDomain \<Rightarrow> bool" where
  "segmented_sieve_mark_batch_flag_domain_supported domain = sim_operator_domain_is_exact_integer domain"

definition segmented_sieve_mark_batch_read_positive_prime ::
  "u8 list option \<Rightarrow> SimScalarDomain \<Rightarrow> nat \<Rightarrow> u64 option" where
  "segmented_sieve_mark_batch_read_positive_prime data domain i =
     (if data = None \<or> \<not> sim_operator_domain_is_exact_integer domain then None
      else (case sim_operator_integer_read data domain i of
              None \<Rightarrow> None
            | Some raw \<Rightarrow>
                if sd_is_signed domain then
                  let val = sim_operator_integer_as_i64 raw domain
                  in if sint val < 2 then None else Some val
                else
                  let raw = sim_operator_integer_truncate raw domain
                  in if raw < 2 then None else Some raw))"

definition segmented_sieve_mark_batch_prime_to_candidate_raw :: "u64 \<Rightarrow> SimScalarDomain \<Rightarrow> u64 option" where
  "segmented_sieve_mark_batch_prime_to_candidate_raw prime_value candidate_domain =
     (if \<not> sim_operator_domain_is_exact_integer candidate_domain \<or> prime_value < 2 then None
      else if sd_is_signed candidate_domain then
        if (sd_bit_width candidate_domain = 32 \<and> prime_value > 2147483647) \<or>
           (sd_bit_width candidate_domain = 64 \<and> prime_value > 9223372036854775807) then None
        else sim_operator_integer_raw_from_signed prime_value candidate_domain
      else sim_operator_integer_raw_from_unsigned prime_value candidate_domain)"

definition segmented_sieve_mark_batch_candidate_hits :: "u64 \<Rightarrow> u64 \<Rightarrow> SimScalarDomain \<Rightarrow> bool" where
  "segmented_sieve_mark_batch_candidate_hits candidate_raw prime_raw domain =
     (if \<not> sim_operator_domain_is_exact_integer domain then False
      else if sim_operator_integer_compare candidate_raw prime_raw domain \<le> 0 then False
      else if sd_is_signed domain then
        let candidate = sint (sim_operator_integer_as_i64 candidate_raw domain);
            prime = sint (sim_operator_integer_as_i64 prime_raw domain)
        in if prime \<le> 1 then False else candidate smod prime = 0
      else
        let candidate_raw = sim_operator_integer_truncate candidate_raw domain;
            prime_raw = sim_operator_integer_truncate prime_raw domain
        in if prime_raw \<le> 1 then False else candidate_raw mod prime_raw = 0)"

definition segmented_sieve_mark_batch_nonnegative_value :: "u64 \<Rightarrow> SimScalarDomain \<Rightarrow> u64 option" where
  "segmented_sieve_mark_batch_nonnegative_value raw domain =
     (if \<not> sim_operator_domain_is_exact_integer domain then None
      else if sd_is_signed domain then
        let val = sim_operator_integer_as_i64 raw domain
        in if sint val < 0 then None else Some val
      else Some (sim_operator_integer_truncate raw domain))"

text \<open>Whether the candidates count up by one; the loop carries the first and the previous candidate.\<close>

definition unit_range_step :: "u8 list \<Rightarrow> SimScalarDomain \<Rightarrow> nat \<Rightarrow> u64 \<times> u64 \<Rightarrow> (u64 \<times> u64) option" where
  "unit_range_step data domain i s =
     (case s of (start, prev) \<Rightarrow>
        case sim_operator_integer_read (Some data) domain i of
          None \<Rightarrow> None
        | Some raw \<Rightarrow>
            (case segmented_sieve_mark_batch_nonnegative_value raw domain of
               None \<Rightarrow> None
             | Some val \<Rightarrow>
                 if i = 0 then Some (val, val)
                 else if prev = - 1 \<or> val \<noteq> prev + 1 then None
                 else Some (start, val)))"

definition segmented_sieve_mark_batch_detect_unit_range ::
  "u8 list option \<Rightarrow> SimScalarDomain \<Rightarrow> nat \<Rightarrow> (u64 \<times> u64) option" where
  "segmented_sieve_mark_batch_detect_unit_range candidate_data candidate_domain candidate_count =
     (case candidate_data of
        None \<Rightarrow> None
      | Some data \<Rightarrow>
          if candidate_count = 0 then None
          else fold_option (unit_range_step data candidate_domain) [0..<candidate_count] (0, 0))"

definition segmented_sieve_mark_batch_first_hit :: "u64 \<Rightarrow> u64 \<Rightarrow> u64 \<Rightarrow> u64 option" where
  "segmented_sieve_mark_batch_first_hit range_start range_end prime_value =
     (if prime_value < 2 \<or> range_start > range_end then None
      else if range_end \<le> prime_value then None
      else if range_start \<le> prime_value \<and> prime_value = - 1 then None
      else
        let first_value = (if range_start \<le> prime_value then prime_value + 1 else range_start);
            remainder = first_value mod prime_value;
            delta = prime_value - remainder
        in if remainder \<noteq> 0 \<and> - 1 - first_value < delta then None
           else
             let first_value = (if remainder \<noteq> 0 then first_value + delta else first_value)
             in if first_value > range_end \<or> first_value < range_start then None
                else Some (first_value - range_start))"

text \<open>
  The strided loop. Its counter is a \<^verbatim>\<open>uint64_t\<close>, which could wrap around below the bound again, so it is
  not known to return: \<open>None\<close> is a loop that does not.
\<close>

partial_function (option) stride_loop :: "u64 \<Rightarrow> u64 \<Rightarrow> (u64 \<Rightarrow> u8 list \<Rightarrow> u8 list) \<Rightarrow> u64 \<Rightarrow> u8 list \<Rightarrow> u8 list option" where
  "stride_loop bound stride clear index flags =
     (if index < bound then stride_loop bound stride clear (index + stride) (clear index flags) else Some flags)"

definition clear_element :: "nat \<Rightarrow> u64 \<Rightarrow> u8 list \<Rightarrow> u8 list" where
  "clear_element k index flags = memcpy_at flags (k * unat index) (bytes_le k 0)"

text \<open>The size of the type that the domain of the flags selects.\<close>

definition flag_type_size :: "SimScalarDomain \<Rightarrow> nat option" where
  "flag_type_size domain =
     (if sim_scalar_domain_equal domain sim_scalar_domain_i8 then Some 1
      else if sim_scalar_domain_equal domain sim_scalar_domain_u8 then Some 1
      else if sim_scalar_domain_equal domain sim_scalar_domain_i32 then Some 4
      else if sim_scalar_domain_equal domain sim_scalar_domain_u32 then Some 4
      else if sim_scalar_domain_equal domain sim_scalar_domain_i64 then Some 8
      else if sim_scalar_domain_equal domain sim_scalar_domain_u64 then Some 8
      else None)"

fun unit_range_loop ::
  "SimScalarDomain \<Rightarrow> u64 \<Rightarrow> u64 \<Rightarrow> u64 \<Rightarrow> u64 list \<Rightarrow> u8 list \<Rightarrow> (SimResult \<times> u8 list) option" where
  "unit_range_loop flags_domain range_start range_end n [] flags = Some (SIM_RESULT_OK, flags)"
| "unit_range_loop flags_domain range_start range_end n (prime_value # primes) flags =
     (case segmented_sieve_mark_batch_first_hit range_start range_end prime_value of
        None \<Rightarrow> unit_range_loop flags_domain range_start range_end n primes flags
      | Some start_index \<Rightarrow>
          (case flag_type_size flags_domain of
             None \<Rightarrow> Some (SIM_RESULT_INVALID_ARGUMENT, flags)
           | Some k \<Rightarrow>
               (case stride_loop n prime_value (clear_element k) start_index flags of
                  None \<Rightarrow> None
                | Some flags' \<Rightarrow> unit_range_loop flags_domain range_start range_end n primes flags')))"

definition segmented_sieve_mark_batch_apply_unit_range_integer_flags ::
  "u8 list option \<Rightarrow> SimScalarDomain \<Rightarrow> u64 \<Rightarrow> u64 \<Rightarrow> nat \<Rightarrow> u64 list \<Rightarrow> (SimResult \<times> u8 list option) option" where
  "segmented_sieve_mark_batch_apply_unit_range_integer_flags flags_data flags_domain range_start range_end
     candidate_count prime_values =
     (case flags_data of
        None \<Rightarrow> Some (SIM_RESULT_INVALID_ARGUMENT, None)
      | Some flags \<Rightarrow>
          if \<not> sim_operator_domain_is_exact_integer flags_domain then Some (SIM_RESULT_INVALID_ARGUMENT, flags_data)
          else map_option (\<lambda>(result, flags). (result, Some flags))
                 (unit_range_loop flags_domain range_start range_end (word_of_nat candidate_count) prime_values flags))"

definition segmented_sieve_mark_batch_validate_fields ::
  "SimField option \<Rightarrow> SimField option \<Rightarrow> SimField option \<Rightarrow> SimResult" where
  "segmented_sieve_mark_batch_validate_fields candidate_field primes_field flags_field =
     (case (candidate_field, primes_field, flags_field) of
        (Some cf, Some pf, Some ff) \<Rightarrow>
          if sim_field_is_complex (Some cf) \<or> sim_field_is_complex (Some pf) \<or> sim_field_is_complex (Some ff)
            then SIM_RESULT_TYPE_MISMATCH
          else if sim_field_element_count (f_layout cf) \<noteq> sim_field_element_count (f_layout ff)
            then SIM_RESULT_INVALID_ARGUMENT
          else if \<not> sim_operator_domain_is_exact_integer (sim_field_scalar_domain (Some cf)) \<or>
                  \<not> sim_operator_domain_is_exact_integer (sim_field_scalar_domain (Some pf)) \<or>
                  \<not> segmented_sieve_mark_batch_flag_domain_supported (sim_field_scalar_domain (Some ff))
            then SIM_RESULT_TYPE_MISMATCH
          else SIM_RESULT_OK
      | _ \<Rightarrow> SIM_RESULT_INVALID_ARGUMENT)"

text \<open>
  The arrays grow together: \<open>fresh\<close> is what a grown block holds beyond the old contents. When the second
  \<^verbatim>\<open>realloc\<close> fails, the first array has grown and the capacity has not.
\<close>

definition regrown :: "(nat \<Rightarrow> u64) \<Rightarrow> nat \<Rightarrow> u64 list \<Rightarrow> u64 list" where
  "regrown fresh n xs = take n xs @ map fresh [length xs..<n]"

definition grow_prime_cache ::
  "heap \<Rightarrow> (nat \<Rightarrow> u64) \<Rightarrow> nat \<Rightarrow> SimSegmentedSieveMarkBatchOperatorState \<Rightarrow>
     SimResult \<times> SimSegmentedSieveMarkBatchOperatorState" where
  "grow_prime_cache heap fresh n s =
     (if bs_prime_cache_capacity s < n then
        if \<not> malloc_ok heap (n * 8) then (SIM_RESULT_OUT_OF_MEMORY, s)
        else
          let s = s\<lparr>bs_prime_cache := regrown fresh n (bs_prime_cache s)\<rparr>
          in if \<not> malloc_ok heap (n * 8) then (SIM_RESULT_OUT_OF_MEMORY, s)
             else (SIM_RESULT_OK, s\<lparr>bs_prime_values := regrown fresh n (bs_prime_values s), bs_prime_cache_capacity := n\<rparr>)
      else (SIM_RESULT_OK, s))"

fun fill_prime_cache ::
  "(nat \<Rightarrow> u64 option) \<Rightarrow> (u64 \<Rightarrow> u64 option) \<Rightarrow> nat list \<Rightarrow> SimSegmentedSieveMarkBatchOperatorState \<Rightarrow>
     SimResult \<times> SimSegmentedSieveMarkBatchOperatorState" where
  "fill_prime_cache prime to_raw [] s = (SIM_RESULT_OK, s)"
| "fill_prime_cache prime to_raw (i # is) s =
     (case prime i of
        None \<Rightarrow> (SIM_RESULT_INVALID_ARGUMENT, s)
      | Some prime_value \<Rightarrow>
          (case to_raw prime_value of
             None \<Rightarrow> (SIM_RESULT_INVALID_ARGUMENT, s)
           | Some raw \<Rightarrow>
               fill_prime_cache prime to_raw is
                 (s\<lparr>bs_prime_cache := (bs_prime_cache s)[i := raw], bs_prime_values := (bs_prime_values s)[i := prime_value]\<rparr>)))"

text \<open>The result, the state and the number of primes.\<close>

definition segmented_sieve_mark_batch_ensure_prime_cache ::
  "heap \<Rightarrow> (nat \<Rightarrow> u64) \<Rightarrow> SimSegmentedSieveMarkBatchOperatorState \<Rightarrow> SimField option \<Rightarrow> SimField option \<Rightarrow>
     SimResult \<times> SimSegmentedSieveMarkBatchOperatorState \<times> nat" where
  "segmented_sieve_mark_batch_ensure_prime_cache heap fresh s candidate_field primes_field =
     (case (candidate_field, primes_field) of
        (Some cf, Some pf) \<Rightarrow>
          let candidate_domain = sim_field_scalar_domain (Some cf);
              primes_domain = sim_field_scalar_domain (Some pf);
              primes_data = sim_field_data_const (Some pf);
              prime_count = unat (sim_field_element_count (f_layout pf))
          in if prime_count = 0 then (SIM_RESULT_OK, s, 0)
             else if primes_data = None then (SIM_RESULT_INVALID_ARGUMENT, s, 0)
             else
               (case grow_prime_cache heap fresh prime_count s of
                  (grown, s) \<Rightarrow>
                    if grown \<noteq> SIM_RESULT_OK then (grown, s, 0)
                    else
                      (case fill_prime_cache (segmented_sieve_mark_batch_read_positive_prime primes_data primes_domain)
                          (\<lambda>p. segmented_sieve_mark_batch_prime_to_candidate_raw p candidate_domain) [0..<prime_count] s of
                         (filled, s) \<Rightarrow>
                           if filled \<noteq> SIM_RESULT_OK then (filled, s, 0) else (SIM_RESULT_OK, s, prime_count)))
      | _ \<Rightarrow> (SIM_RESULT_INVALID_ARGUMENT, s, 0))"

text \<open>The result with the state of the operator and the context; \<open>None\<close> when the step does not return.\<close>

definition segmented_sieve_mark_batch_apply ::
  "heap \<Rightarrow> (nat \<Rightarrow> u64) \<Rightarrow> SimSegmentedSieveMarkBatchOperatorState \<Rightarrow> SimContext \<Rightarrow>
     (SimResult \<times> SimSegmentedSieveMarkBatchOperatorState \<times> SimContext) option" where
  "segmented_sieve_mark_batch_apply heap fresh s c =
     (let conf = bs_config s;
          candidate_field = sim_context_field c (sb_candidate_field conf);
          primes_field = sim_context_field c (sb_primes_field conf);
          flags_field = sim_context_field c (sb_flags_field conf);
          validate = segmented_sieve_mark_batch_validate_fields candidate_field primes_field flags_field
      in if validate \<noteq> SIM_RESULT_OK then Some (validate, s, c)
         else
           (case segmented_sieve_mark_batch_ensure_prime_cache heap fresh s candidate_field primes_field of
              (result, s, prime_count) \<Rightarrow>
                if result \<noteq> SIM_RESULT_OK \<or> prime_count = 0 then Some (result, s, c)
                else
                  let candidate_domain = sim_field_scalar_domain candidate_field;
                      flags_domain = sim_field_scalar_domain flags_field;
                      candidate_count = unat (sim_field_element_count (f_layout (the candidate_field)));
                      hit = (\<lambda>candidate_raw. list_ex (\<lambda>prime_raw.
                               segmented_sieve_mark_batch_candidate_hits candidate_raw prime_raw candidate_domain)
                             (take prime_count (bs_prime_cache s)))
                  in (case sim_field_data_const candidate_field of
                        None \<Rightarrow> Some (SIM_RESULT_INVALID_ARGUMENT, s, c)
                      | Some candidate_data \<Rightarrow>
                          if candidate_count = 0 then Some (SIM_RESULT_OK, s, c)
                          else
                            (case segmented_sieve_mark_batch_detect_unit_range (Some candidate_data) candidate_domain
                                    candidate_count of
                               Some (range_start, range_end) \<Rightarrow>
                                 if sim_operator_domain_is_exact_integer flags_domain then
                                   map_option (\<lambda>(result, flags).
                                       (result, s, set_field (sb_flags_field conf) ((the flags_field)\<lparr>f_data := flags\<rparr>) c))
                                     (segmented_sieve_mark_batch_apply_unit_range_integer_flags
                                        (sim_field_data flags_field) flags_domain range_start range_end candidate_count
                                        (take prime_count (bs_prime_values s)))
                                 else
                                   (case mark_flags c (sb_candidate_field conf) (sb_flags_field conf) candidate_data
                                           candidate_domain candidate_count hit of
                                      (result, c) \<Rightarrow> Some (result, s, c))
                             | None \<Rightarrow>
                                 (case mark_flags c (sb_candidate_field conf) (sb_flags_field conf) candidate_data
                                         candidate_domain candidate_count hit of
                                    (result, c) \<Rightarrow> Some (result, s, c))))))"

end
