(* ===== verification/Sieve_Correct.thy ===== *)
theory Sieve_Correct
  imports Sieve_Mark Context_Correct
begin

text \<open>
  What the marking operators of \<open>Sieve_Mark\<close> compute: on live fields the operator with one prime clears
  exactly the flags of the proper multiples of the prime, the batch operator returns and does what the
  single operators do one after the other, by its strided path as well as by its direct one, and with all
  primes up to the square root the flags that remain are those of the primes.
\<close>

unbundle bit_operations_syntax

section \<open>Clearing elements of a block\<close>

definition cleared :: "nat \<Rightarrow> (nat \<Rightarrow> bool) \<Rightarrow> u8 list \<Rightarrow> u8 list" where
  "cleared k P bytes = map (\<lambda>j. if P (j div k) then 0 else bytes ! j) [0..<length bytes]"

lemma length_cleared [simp]: "length (cleared k P bytes) = length bytes"
  by (simp add: cleared_def)

lemma nth_cleared: "j < length bytes \<Longrightarrow> cleared k P bytes ! j = (if P (j div k) then 0 else bytes ! j)"
  by (simp add: cleared_def)

lemma cleared_none [simp]: "cleared k (\<lambda>i. False) bytes = bytes"
  by (simp add: cleared_def map_nth)

lemma cleared_cleared: "cleared k P (cleared k Q bytes) = cleared k (\<lambda>i. P i \<or> Q i) bytes"
  by (rule nth_equalityI) (simp_all add: nth_cleared)

lemma cleared_cong:
  assumes "k * n = length bytes" "\<And>i. i < n \<Longrightarrow> P i = Q i"
  shows "cleared k P bytes = cleared k Q bytes"
proof (rule nth_equalityI)
  fix j
  assume "j < length (cleared k P bytes)"
  then have "j < k * n" using assms(1) by simp
  then have "j div k < n" by (metis mult.commute div_less_iff_less_mult gr0I mult_0 not_less0)
  then show "cleared k P bytes ! j = cleared k Q bytes ! j"
    using \<open>j < k * n\<close> assms by (simp add: nth_cleared)
qed simp

lemma bytes_le_zero [simp]: "bytes_le k 0 = replicate k 0"
  by (induction k) simp_all

lemma clear_element_cleared:
  assumes "0 < k" "k * i + k \<le> length bytes"
  shows "memcpy_at bytes (k * i) (replicate k 0) = cleared k (\<lambda>j. j = i) bytes"
proof (rule nth_equalityI)
  fix j
  assume j: "j < length (memcpy_at bytes (k * i) (replicate k 0))"
  have "j div k = i \<longleftrightarrow> k * i \<le> j \<and> j < k * i + k"
    using assms(1) by (metis add.commute div_nat_eqI dividend_less_div_times times_div_less_eq_dividend mult.commute mult_Suc)
  then show "memcpy_at bytes (k * i) (replicate k 0) ! j = cleared k (\<lambda>j. j = i) bytes ! j"
    using j assms by (auto simp: nth_memcpy_at nth_cleared less_diff_conv2 intro!: nth_replicate)
qed (use assms in simp)

lemma element_cleared:
  assumes "0 < k" "k * i + k \<le> length bytes"
  shows "take k (drop (k * i) (cleared k P bytes)) = (if P i then replicate k 0 else take k (drop (k * i) bytes))"
proof (rule nth_equalityI)
  fix j
  assume "j < length (take k (drop (k * i) (cleared k P bytes)))"
  then have "j < k" by simp
  then show "take k (drop (k * i) (cleared k P bytes)) ! j =
      (if P i then replicate k 0 else take k (drop (k * i) bytes)) ! j"
    using assms by (simp add: nth_cleared)
qed (use assms in simp)

lemma load_zeros [simp]: "(push_bit 8 ^^ k) (0 :: u64) = 0"
  by (induction k) simp_all

lemma load_cleared:
  assumes "0 < k" "k * i + k \<le> length bytes"
  shows "load_le k (cleared k P bytes) (k * i) = (if P i then 0 else load_le k bytes (k * i))"
  by (simp add: load_le_def element_cleared [OF assms])

section \<open>Exact integers in memory\<close>

definition int_bytes :: "SimScalarDomain \<Rightarrow> nat" where
  "int_bytes d = int_width d div 8"

text \<open>The integer that a block of bytes holds at a position.\<close>

definition stored_int :: "SimScalarDomain \<Rightarrow> u8 list \<Rightarrow> nat \<Rightarrow> int" where
  "stored_int d bytes i = int_value d (load_le (int_bytes d) bytes (int_bytes d * i))"

lemma int_bytes_width:
  assumes "integer_domain d"
  shows "8 * int_bytes d = int_width d" "0 < int_bytes d" "int_bytes d \<le> 8"
  using assms by (cases rule: integer_domain_cases; simp add: int_bytes_def int_width_def)+

lemma canonical_integer_domain:
  assumes "integer_domain d"
  obtains "d = sim_scalar_domain_i8" "int_bytes d = 1" "sd_is_signed d"
  | "d = sim_scalar_domain_i32" "int_bytes d = 4" "sd_is_signed d"
  | "d = sim_scalar_domain_i64" "int_bytes d = 8" "sd_is_signed d"
  | "d = sim_scalar_domain_u8" "int_bytes d = 1" "\<not> sd_is_signed d"
  | "d = sim_scalar_domain_u32" "int_bytes d = 4" "\<not> sd_is_signed d"
  | "d = sim_scalar_domain_u64" "int_bytes d = 8" "\<not> sd_is_signed d"
proof -
  have d: "sd_kind d = SIM_SCALAR_DOMAIN_INTEGER" "sd_modulus d = 0"
    using assms
    by (auto simp: integer_domain_def sim_scalar_domain_validate_def sim_ir_domain_is_exact_integer_def
        sim_scalar_domain_is_integer_def)
  have w: "sd_bit_width d = 8 \<or> sd_bit_width d = 32 \<or> sd_bit_width d = 64"
    using assms by (cases rule: integer_domain_cases) simp_all
  show thesis
    using that w d by (cases d; cases "sd_is_signed d") (auto simp: scalar_domain_consts int_bytes_def int_width_def)
qed

lemma widened_value:
  assumes "integer_domain d"
  shows "int_value d (widened (int_bytes d) w) = int_value d w"
proof -
  have "take_bit (int_width d) (signed_take_bit (int_width d - 1) w) = take_bit (int_width d) w"
  proof (rule bit_word_eqI)
    fix n
    have "n = int_width d - 1" if "int_width d - 1 \<le> n" "n < int_width d" using that by linarith
    then show "bit (take_bit (int_width d) (signed_take_bit (int_width d - 1) w)) n = bit (take_bit (int_width d) w) n"
      by (auto simp: bit_take_bit_iff bit_signed_take_bit_iff min_def dest: bit_imp_le_length)
  qed
  then have "take_bit (int_width d) (uint (signed_take_bit (int_width d - 1) w)) = take_bit (int_width d) (uint w)"
    by (metis unsigned_take_bit_eq)
  then show ?thesis
    by (simp add: widened_def int_bytes_width(1) [OF assms] int_value_wrap [OF assms] int_wrap_eq_iff [OF assms])
qed

lemma read_exact:
  assumes "integer_domain d"
  obtains raw where "sim_operator_integer_read (Some bytes) d i = Some raw" "int_value d raw = stored_int d bytes i"
    "raw = 0 \<longleftrightarrow> stored_int d bytes i = 0"
proof -
  let ?w = "load_le (int_bytes d) bytes (int_bytes d * i)"
  have "sim_operator_integer_read (Some bytes) d i =
      Some (sim_ir_integer_truncate (if sd_is_signed d then widened (int_bytes d) ?w else ?w) d)"
    using operator_integers_agree [OF assms]
    by (cases rule: canonical_integer_domain [OF assms])
      (simp_all add: sim_operator_integer_read_def sim_scalar_domain_equal_def scalar_domain_consts)
  then show thesis
    using that assms by (simp add: nonzero_iff stored_int_def widened_value)
qed

lemma write_zero:
  assumes "integer_domain d"
  shows "sim_operator_integer_write (Some bytes) d i 0 =
    Some (memcpy_at bytes (int_bytes d * i) (replicate (int_bytes d) 0))"
proof -
  have "sim_ir_integer_truncate 0 d = 0" "sim_ir_integer_as_i64 0 d = 0"
    by (simp_all add: sim_ir_integer_truncate_def sim_ir_integer_as_i64_def)
  then show ?thesis
    using operator_integers_agree [OF assms]
    by (cases rule: canonical_integer_domain [OF assms])
      (simp_all add: sim_operator_integer_write_def sim_scalar_domain_equal_def scalar_domain_consts Let_def)
qed

section \<open>The test of one candidate\<close>

text \<open>A proper multiple.\<close>

definition struck :: "int \<Rightarrow> int \<Rightarrow> bool" where
  "struck p c \<longleftrightarrow> p < c \<and> p dvd c"

lemma smod_zero_iff: "1 < p \<Longrightarrow> 0 < c \<Longrightarrow> c smod p = 0 \<longleftrightarrow> p dvd c" for p c :: int
  by (simp add: signed_modulo_int_def dvd_eq_mod_eq_0)

lemma hits_exact:
  assumes "integer_domain d"
  shows "segmented_sieve_mark_candidate_hits c p d \<longleftrightarrow> 1 < int_value d p \<and> struck (int_value d p) (int_value d c)"
proof -
  note agree = operator_integers_agree [OF assms]
  let ?c = "int_value d c" and ?p = "int_value d p"
  have cmp: "sim_operator_integer_compare c p d \<le> 0 \<longleftrightarrow> ?c \<le> ?p"
    unfolding compare_sgn [OF assms] by (auto simp: sgn_if)
  show ?thesis
  proof (cases "sd_is_signed d")
    case True
    then have v: "int_value d w = sint (sim_ir_integer_as_i64 w d)" for w by (simp add: int_value_def)
    then show ?thesis
      using True cmp smod_zero_iff [of ?p ?c]
      by (auto simp: segmented_sieve_mark_candidate_hits_def agree struck_def Let_def)
  next
    case False
    then have v: "int_value d w = uint (sim_ir_integer_truncate w d)" for w by (simp add: int_value_def)
    have "sim_ir_integer_truncate c d mod sim_ir_integer_truncate p d = 0 \<longleftrightarrow> ?p dvd ?c"
      by (simp add: v dvd_eq_mod_eq_0 uint_mod flip: uint_0_iff)
    moreover have "sim_ir_integer_truncate p d \<le> 1 \<longleftrightarrow> ?p \<le> 1"
      by (simp add: v word_le_def)
    ultimately show ?thesis
      using False cmp by (auto simp: segmented_sieve_mark_candidate_hits_def agree struck_def)
  qed
qed

lemma batch_hits: "segmented_sieve_mark_batch_candidate_hits = segmented_sieve_mark_candidate_hits"
  by (intro ext)
    (simp add: segmented_sieve_mark_batch_candidate_hits_def segmented_sieve_mark_candidate_hits_def)

lemma batch_prime_raw: "segmented_sieve_mark_batch_prime_to_candidate_raw = segmented_sieve_mark_prime_to_domain_raw"
  by (intro ext)
    (simp add: segmented_sieve_mark_batch_prime_to_candidate_raw_def segmented_sieve_mark_prime_to_domain_raw_def)

text \<open>
  A prime that is accepted is held exactly, but for an eight-bit signed domain, which also accepts the
  largest 128 values of a \<^verbatim>\<open>uint64_t\<close>; they are held as negative integers and strike nothing.
\<close>

lemma accepted_prime:
  assumes "integer_domain d" "segmented_sieve_mark_prime_to_domain_raw p d = Some raw"
  shows "2 \<le> uint p" "int_value d raw = uint p \<or> int_value d raw < 0 \<and> (\<forall>c. int_value d c < uint p)"
proof -
  note agree = operator_integers_agree [OF assms(1)]
  show "2 \<le> uint p"
    using assms(2) by (auto simp: segmented_sieve_mark_prime_to_domain_raw_def word_less_def not_less split: if_splits)
  have raw: "raw = sim_ir_integer_truncate p d"
    using assms(2)
    by (auto simp: segmented_sieve_mark_prime_to_domain_raw_def sim_operator_integer_raw_from_signed_def
        sim_operator_integer_raw_from_unsigned_def agree split: if_splits)
  have v: "int_value d raw = int_wrap d (uint p)"
    unfolding raw int_value_truncate [OF assms(1)] by (rule int_value_wrap [OF assms(1)])
  note range = int_value_range [OF assms(1)]
  show "int_value d raw = uint p \<or> int_value d raw < 0 \<and> (\<forall>c. int_value d c < uint p)"
  proof (cases "if sd_is_signed d then uint p < 2 ^ (int_width d - 1) else uint p < 2 ^ int_width d")
    case True
    then have "int_wrap d (uint p) = uint p"
      using \<open>2 \<le> uint p\<close> by (intro int_wrap_in_range [OF assms(1)]) (auto split: if_splits)
    then show ?thesis using v by simp
  next
    case False
    have "sd_is_signed d \<and> int_width d = 8 \<and> - 128 \<le> sint p \<and> sint p \<le> 127"
      by (cases rule: canonical_integer_domain [OF assms(1)])
        (use assms(2) False unsigned_less [of p, where 'a = int] in
          \<open>simp_all add: scalar_domain_consts int_width_def segmented_sieve_mark_prime_to_domain_raw_def
            sim_operator_integer_raw_from_signed_def sim_operator_integer_raw_from_unsigned_def word_less_def word_le_def
            not_le not_less split: if_splits\<close>)
    then have s: "sd_is_signed d" and w: "int_width d = 8" and p: "- 128 \<le> sint p" "sint p \<le> 127" by simp_all
    have "sint p < 0"
    proof (rule ccontr)
      assume "\<not> sint p < 0"
      then have "uint p = sint p" using p(2) by (simp add: uint_sint take_bit_int_eq_self)
      then show False using False s w p(2) by simp
    qed
    moreover have "int_wrap d (uint p) = int_wrap d (sint p)"
      using w by (simp add: int_wrap_eq_iff [OF assms(1)] sint_uint take_bit_signed_take_bit)
    moreover have "int_wrap d (sint p) = sint p"
      using p \<open>sint p < 0\<close> s w by (intro int_wrap_in_range [OF assms(1)]) simp
    moreover have "int_value d c < uint p" for c
      using range [of c] False s w by simp
    ultimately show ?thesis using v by simp
  qed
qed

section \<open>The loop over the flags\<close>

lemma load_bits: "bit (foldr (\<lambda>b acc. ucast b OR push_bit 8 acc) (bs :: u8 list) (0 :: u64)) i \<Longrightarrow> i < 8 * length bs"
proof (induction bs arbitrary: i)
  case (Cons b bs)
  from Cons.prems have "i < 8 \<or> 8 \<le> i \<and> bit (foldr (\<lambda>b acc. ucast b OR push_bit 8 acc) bs (0 :: u64)) (i - 8)"
    by (auto simp: bit_simps dest: bit_imp_le_length)
  then show ?case using Cons.IH [of "i - 8"] by auto
qed simp

lemma store_loaded:
  "length bs \<le> 8 \<Longrightarrow> bytes_le (length bs) (foldr (\<lambda>b acc. ucast b OR push_bit 8 acc) bs (0 :: u64)) = bs"
proof (induction bs)
  case (Cons b bs)
  let ?acc = "foldr (\<lambda>b acc. ucast b OR push_bit 8 acc) bs (0 :: u64)"
  have acc: "bit ?acc n \<Longrightarrow> n < 56" for n using load_bits [of bs n] Cons.prems by auto
  have b: "\<not> bit b (8 + n)" for n using bit_imp_le_length [of b "8 + n"] by auto
  have "drop_bit 8 (ucast b OR push_bit 8 ?acc) = ?acc"
    using acc b by (intro bit_word_eqI) (auto simp: bit_simps dest: acc)
  moreover have "ucast (ucast b OR push_bit 8 ?acc) = b"
    by (intro bit_word_eqI) (auto simp: bit_simps)
  ultimately show ?case using Cons by simp
qed simp

lemma cleared_zero:
  assumes "integer_domain d" "int_bytes d * i + int_bytes d \<le> length bytes" "stored_int d bytes i = 0"
  shows "cleared (int_bytes d) (\<lambda>j. j = i) bytes = bytes"
proof -
  let ?k = "int_bytes d"
  let ?w = "load_le ?k bytes (?k * i)" and ?bs = "take ?k (drop (?k * i) bytes)"
  note k = int_bytes_width [OF assms(1)]
  have "take_bit (int_width d) (uint ?w) = 0"
    using take_bit_int_value [OF assms(1), of ?w] assms(3) by (simp add: stored_int_def)
  moreover have "int (unat ?w) < int (2 ^ (8 * ?k))"
    using load_le_bound [of ?k bytes "?k * i"] by (simp only: of_nat_less_iff)
  then have "uint ?w < 2 ^ int_width d" by (simp add: k(1))
  ultimately have "?w = 0" by (simp add: take_bit_int_eq_self uint_0_iff)
  have "length ?bs = ?k" using assms(2) by simp
  then have "?bs = replicate ?k 0"
    using store_loaded [of ?bs] \<open>?w = 0\<close> k(3) unfolding load_le_def by simp
  then have "memcpy_at bytes (?k * i) ?bs = cleared ?k (\<lambda>j. j = i) bytes"
    using clear_element_cleared [OF k(2) assms(2)] by simp
  moreover have "memcpy_at bytes (?k * i) ?bs = bytes"
    using assms(2) by (simp add: memcpy_at_def add.commute [of "?k * i"] min_absorb2 flip: drop_drop)
  ultimately show ?thesis by simp
qed

lemma stored_int_cleared:
  assumes "integer_domain d" "int_bytes d * i + int_bytes d \<le> length bytes"
  shows "stored_int d (cleared (int_bytes d) P bytes) i = (if P i then 0 else stored_int d bytes i)"
proof -
  have "int_value d 0 = 0" using int_wrap_in_range [OF assms(1), of 0] by (simp add: int_value_wrap [OF assms(1)])
  then show ?thesis
    by (simp add: stored_int_def load_cleared [OF int_bytes_width(2) [OF assms(1)] assms(2)])
qed

lemma flag_loop_cleared:
  assumes "\<And>i P. i < n \<Longrightarrow> \<not> P i \<Longrightarrow> body i (cleared k P flags) = Some (cleared k (\<lambda>j. P j \<or> j = i \<and> Q i) flags)"
    and "k * n = length flags"
  shows "flag_loop body [0..<n] flags = (SIM_RESULT_OK, cleared k Q flags)"
proof -
  have "flag_loop body [m..<n] (cleared k (\<lambda>j. j < m \<and> Q j) flags) = (SIM_RESULT_OK, cleared k (\<lambda>j. j < n \<and> Q j) flags)"
    if "m \<le> n" for m
    using that
  proof (induction "n - m" arbitrary: m)
    case (Suc x)
    then have "m < n" by simp
    then have "body m (cleared k (\<lambda>j. j < m \<and> Q j) flags) =
        Some (cleared k (\<lambda>j. j < m \<and> Q j \<or> j = m \<and> Q m) flags)"
      by (intro assms(1)) simp_all
    moreover have "(\<lambda>j. j < m \<and> Q j \<or> j = m \<and> Q m) = (\<lambda>j. j < Suc m \<and> Q j)" by (auto simp: less_Suc_eq)
    ultimately show ?case
      using Suc.hyps(1) [of "Suc m"] Suc.hyps(2) \<open>m < n\<close> by (simp add: upt_conv_Cons)
  qed simp
  from this [of 0] show ?thesis
    using cleared_cong [OF assms(2), of "\<lambda>j. j < n \<and> Q j" Q] by simp
qed

lemma element_bound: "i < n \<Longrightarrow> k * i + k \<le> k * n" for i n k :: nat
  using block_before [of i n k] by (simp add: mult.commute)

text \<open>The loop over flags that are integers.\<close>

lemma integer_flag_loop:
  assumes "integer_domain cd" "integer_domain fd"
    and "\<And>raw. hit raw \<longleftrightarrow> H (int_value cd raw)"
    and len: "int_bytes fd * n = length flags" "int_bytes cd * n = length candidate_data"
    and same: "same \<Longrightarrow> flags = candidate_data \<and> fd = cd"
  shows "flag_loop (mark_integer_flag (\<lambda>flags. if same then flags else candidate_data) cd fd hit) [0..<n] flags =
    (SIM_RESULT_OK, cleared (int_bytes fd) (\<lambda>i. H (stored_int cd candidate_data i)) flags)"
proof (rule flag_loop_cleared [OF _ len(1)])
  fix i P
  assume i: "i < n" "\<not> P i"
  let ?k = "int_bytes fd" and ?fl = "cleared (int_bytes fd) P flags"
  let ?cand = "if same then ?fl else candidate_data"
  have bound: "?k * i + ?k \<le> length flags" using element_bound [OF i(1), of ?k] len(1) by simp
  have cand: "stored_int cd ?cand i = stored_int cd candidate_data i"
    using same i(2) stored_int_cleared [OF assms(2) bound, of P] by auto
  have flag: "stored_int fd ?fl i = stored_int fd flags i"
    using stored_int_cleared [OF assms(2) bound, of P] i(2) by simp
  have clear: "memcpy_at ?fl (?k * i) (replicate ?k 0) = cleared ?k (\<lambda>j. P j \<or> j = i) flags"
    using clear_element_cleared [OF int_bytes_width(2) [OF assms(2)], of i ?fl] bound
    by (simp add: cleared_cleared disj_commute)
  obtain f where f: "sim_operator_integer_read (Some ?fl) fd i = Some f" "f = 0 \<longleftrightarrow> stored_int fd flags i = 0"
    using read_exact [OF assms(2), of ?fl i] flag by metis
  obtain x where x: "sim_operator_integer_read (Some ?cand) cd i = Some x"
    "int_value cd x = stored_int cd candidate_data i"
    using read_exact [OF assms(1), of ?cand i] cand by metis
  show "mark_integer_flag (\<lambda>flags. if same then flags else candidate_data) cd fd hit i ?fl =
      Some (cleared ?k (\<lambda>j. P j \<or> j = i \<and> H (stored_int cd candidate_data i)) flags)"
  proof (cases "f = 0")
    case True
    then have "cleared ?k (\<lambda>j. j = i) flags = flags" using cleared_zero [OF assms(2) bound] f(2) by simp
    then have "cleared ?k (\<lambda>j. P j \<or> j = i) flags = ?fl" by (metis cleared_cleared)
    then show ?thesis
      using True f(1) by (cases "H (stored_int cd candidate_data i)") (simp_all add: mark_integer_flag_def)
  next
    case False
    then show ?thesis
      using f(1) x clear write_zero [OF assms(2), of ?fl i] assms(3) by (simp add: mark_integer_flag_def)
  qed
qed

text \<open>The loop over flags that are doubles; a negative zero is a cleared flag and stays.\<close>

definition real_flag :: "u8 list \<Rightarrow> nat \<Rightarrow> bool" where
  "real_flag bytes i \<longleftrightarrow> \<not> f64_eq (load_le 8 bytes (8 * i)) f64_zero"

lemma real_flag_loop:
  assumes "integer_domain cd" "\<And>raw. hit raw \<longleftrightarrow> H (int_value cd raw)" "8 * n = length flags"
  shows "flag_loop (mark_real_flag (\<lambda>flags. candidate_data) cd hit) [0..<n] flags =
    (SIM_RESULT_OK, cleared 8 (\<lambda>i. real_flag flags i \<and> H (stored_int cd candidate_data i)) flags)"
proof (rule flag_loop_cleared [OF _ assms(3)])
  fix i P
  assume i: "i < n" "\<not> P i"
  let ?fl = "cleared 8 P flags"
  have bound: "8 * i + 8 \<le> length flags" using element_bound [OF i(1), of 8] assms(3) by simp
  have flag: "f64_eq (load_le 8 ?fl (8 * i)) f64_zero \<longleftrightarrow> \<not> real_flag flags i"
    using load_cleared [of 8 i flags P] bound i(2) by (simp add: real_flag_def)
  have clear: "memcpy_at ?fl (8 * i) (replicate 8 0) = cleared 8 (\<lambda>j. P j \<or> j = i) flags"
    using clear_element_cleared [of 8 i ?fl] bound by (simp add: cleared_cleared disj_commute)
  obtain x where x: "sim_operator_integer_read (Some candidate_data) cd i = Some x"
    "int_value cd x = stored_int cd candidate_data i"
    using read_exact [OF assms(1), of candidate_data i] by metis
  show "mark_real_flag (\<lambda>flags. candidate_data) cd hit i ?fl =
      Some (cleared 8 (\<lambda>j. P j \<or> j = i \<and> real_flag flags i \<and> H (stored_int cd candidate_data i)) flags)"
    using flag x clear assms(2) unfolding mark_real_flag_def bytes_le_zero by auto
qed

section \<open>One marking pass\<close>

definition field_count :: "SimField \<Rightarrow> nat" where
  "field_count f = unat (sim_field_element_count (f_layout f))"

definition field_int :: "SimField \<Rightarrow> nat \<Rightarrow> int" where
  "field_int f i = stored_int (sim_field_scalar_domain (Some f)) (the (f_data f)) i"

text \<open>
  Live fields of exact integers, and of doubles in a known domain. The elements of the sources have at
  most 16 bytes; the test that the domain fits the element size multiplies by eight without a check.
\<close>

definition integer_field :: "SimField \<Rightarrow> bool" where
  "integer_field f \<longleftrightarrow> field_ok f \<and> f_element_size f \<le> 16 \<and> sim_operator_domain_is_exact_integer (sim_field_scalar_domain (Some f))"

definition real_field :: "SimField \<Rightarrow> bool" where
  "real_field f \<longleftrightarrow> field_ok f \<and> sim_scalar_domain_equal (f_scalar_domain f) sim_scalar_domain_f64"

lemma integer_field_facts:
  assumes "integer_field f"
  obtains bytes where "integer_domain (sim_field_scalar_domain (Some f))" "f_data f = Some bytes"
    "int_bytes (sim_field_scalar_domain (Some f)) * field_count f = length bytes" "length bytes < 2 ^ 63"
    "f_magic f = SIM_FIELD_MAGIC" "0 < field_count f"
    "unat (f_element_size f) = int_bytes (sim_field_scalar_domain (Some f))"
proof -
  let ?d = "sim_field_scalar_domain (Some f)"
  have ok: "field_ok f" and small: "f_element_size f \<le> 16" and exact: "sim_operator_domain_is_exact_integer ?d" using assms by (simp_all add: integer_field_def)
  have kind: "sd_kind ?d = SIM_SCALAR_DOMAIN_INTEGER"
    using exact by (simp add: sim_operator_domain_is_exact_integer_def sim_scalar_domain_is_integer_def)
  have known: "?d = f_scalar_domain f" "sim_scalar_domain_validate ?d"
    using kind
    by (auto simp: sim_field_scalar_domain_def sim_scalar_domain_from_field_def Let_def scalar_domain_consts
        sim_scalar_domain_from_field_representation_def split: if_splits)
  then have int: "integer_domain ?d"
    using exact kind exact_integer_domain [OF exact] by (simp add: sim_scalar_domain_validate_def)
  have "sim_field_storage_matches_scalar_domain (f_element_size f) ?d"
    using ok kind known by (simp add: field_ok_def field_metadata_ok_def)
  then have "ucast (sd_bit_width ?d) = f_element_size f * 8"
    using kind by (auto simp: sim_field_storage_matches_scalar_domain_def split: if_splits)
  obtain bytes where bytes: "f_data f = Some bytes" "length bytes < 2 ^ 63" "f_magic f = SIM_FIELD_MAGIC"
    using ok by (auto simp: field_ok_def field_storage_ok_def)
  note sizes = field_bytes_exact [OF ok]
  have len: "field_count f * unat (f_element_size f) = length bytes"
    using sizes(1,2) bytes(1) by (simp add: field_count_def)
  have count: "0 < field_count f" using sizes(4) by (simp add: field_count_def unat_gt_0)
  have "unat (f_element_size f * 8) = unat (f_element_size f) * 8"
    using small by (simp add: word_le_nat_alt unat_mult_exact)
  moreover have "unat (ucast (sd_bit_width ?d) :: u64) = int_width ?d"
    by (cases rule: integer_domain_cases [OF int]) (simp_all add: int_width_def)
  ultimately have "unat (f_element_size f) = int_bytes ?d"
    using \<open>ucast (sd_bit_width ?d) = f_element_size f * 8\<close> by (simp add: int_bytes_def)
  then show thesis using that int bytes len count by (simp add: mult.commute)
qed

lemma real_field_facts:
  assumes "real_field f"
  obtains bytes where "sim_field_scalar_domain (Some f) = f_scalar_domain f"
    "\<not> sim_operator_domain_is_exact_integer (sim_field_scalar_domain (Some f))"
    "sim_field_real_data (Some f) = Some bytes" "f_data f = Some bytes" "8 * field_count f = length bytes"
proof -
  have ok: "field_ok f" and d: "f_scalar_domain f = sim_scalar_domain_f64"
    using assms by (auto simp: real_field_def sim_scalar_domain_equal_def)
  obtain bytes where bytes: "f_data f = Some bytes" "f_magic f = SIM_FIELD_MAGIC"
    using ok by (auto simp: field_ok_def field_storage_ok_def)
  have eight: "f_element_size f = 8"
    using ok d
    by (auto simp: field_ok_def field_metadata_ok_def scalar_domain_consts sim_field_storage_matches_scalar_domain_def
        sim_scalar_domain_validate_def split: if_splits)
  have "field_count f * unat (f_element_size f) = length bytes"
    using field_bytes_exact(1,2) [OF ok] bytes(1) by (simp add: field_count_def)
  then show thesis
    using that bytes d eight
    by (simp add: sim_field_real_data_def sim_field_scalar_domain_def sim_scalar_domain_from_field_def
        sim_operator_domain_is_exact_integer_def sim_scalar_domain_is_integer_def sim_scalar_domain_is_complex_def
        sim_scalar_domain_validate_def scalar_domain_consts)
qed

definition flag_field :: "SimField \<Rightarrow> bool" where
  "flag_field f \<longleftrightarrow> integer_field f \<or> real_field f"

text \<open>The width of a flag, and whether it is set.\<close>

definition flag_width :: "SimField \<Rightarrow> nat" where
  "flag_width f =
     (if sim_operator_domain_is_exact_integer (sim_field_scalar_domain (Some f))
      then int_bytes (sim_field_scalar_domain (Some f)) else 8)"

definition flag_set :: "SimField \<Rightarrow> nat \<Rightarrow> bool" where
  "flag_set f i =
     (if sim_operator_domain_is_exact_integer (sim_field_scalar_domain (Some f)) then field_int f i \<noteq> 0
      else real_flag (the (f_data f)) i)"

text \<open>The flags that are set and whose candidate satisfies \<open>H\<close> are cleared.\<close>

definition strike :: "(int \<Rightarrow> bool) \<Rightarrow> SimField \<Rightarrow> SimField \<Rightarrow> SimField" where
  "strike H cf ff = ff\<lparr>f_data := Some (cleared (flag_width ff) (\<lambda>i. flag_set ff i \<and> H (field_int cf i)) (the (f_data ff)))\<rparr>"

lemma cleared_unset:
  assumes "integer_domain d" "int_bytes d * n = length bytes"
  shows "cleared (int_bytes d) (\<lambda>i. stored_int d bytes i \<noteq> 0 \<and> P i) bytes = cleared (int_bytes d) P bytes"
proof (rule nth_equalityI)
  fix j
  let ?k = "int_bytes d" and ?i = "j div int_bytes d"
  assume "j < length (cleared ?k (\<lambda>i. stored_int d bytes i \<noteq> 0 \<and> P i) bytes)"
  then have j: "j < length bytes" by simp
  then have "?i < n"
    using assms(2) by (metis mult.commute div_less_iff_less_mult gr0I mult_0 not_less0)
  then have bound: "?k * ?i + ?k \<le> length bytes" using element_bound [of ?i n ?k] assms(2) by simp
  have "bytes ! j = 0" if "stored_int d bytes ?i = 0"
    using nth_cleared [OF j, of ?k "\<lambda>i. i = ?i"] cleared_zero [OF assms(1) bound that] by simp
  then show "cleared ?k (\<lambda>i. stored_int d bytes i \<noteq> 0 \<and> P i) bytes ! j = cleared ?k P bytes ! j"
    using j by (simp add: nth_cleared)
qed simp

lemma strike_integer:
  assumes "integer_field ff"
  shows "strike H cf ff = ff\<lparr>f_data := Some (cleared (flag_width ff) (\<lambda>i. H (field_int cf i)) (the (f_data ff)))\<rparr>"
proof -
  obtain bytes where "integer_domain (sim_field_scalar_domain (Some ff))" "f_data ff = Some bytes"
    "int_bytes (sim_field_scalar_domain (Some ff)) * field_count ff = length bytes"
    by (rule integer_field_facts [OF assms])
  then show ?thesis
    using assms cleared_unset [of "sim_field_scalar_domain (Some ff)" "field_count ff" bytes "\<lambda>i. H (field_int cf i)"]
    by (simp add: strike_def flag_width_def flag_set_def field_int_def integer_field_def)
qed

lemma mark_flags_exact:
  assumes "integer_field cf" "flag_field ff" "field_count cf = field_count ff"
    and "sim_context_field c i = Some cf" "sim_context_field c j = Some ff"
    and "\<And>raw. hit raw \<longleftrightarrow> H (int_value (sim_field_scalar_domain (Some cf)) raw)"
  shows "mark_flags c i j (the (f_data cf)) (sim_field_scalar_domain (Some cf)) (field_count cf) hit =
    (SIM_RESULT_OK, set_field j (strike H cf ff) c)"
proof -
  let ?cd = "sim_field_scalar_domain (Some cf)" and ?fd = "sim_field_scalar_domain (Some ff)"
  obtain cb where cb: "integer_domain ?cd" "f_data cf = Some cb" "int_bytes ?cd * field_count cf = length cb"
    "f_magic cf = SIM_FIELD_MAGIC"
    by (rule integer_field_facts [OF assms(1)])
  show ?thesis
  proof (cases "integer_field ff")
    case True
    obtain fb where fb: "integer_domain ?fd" "f_data ff = Some fb" "int_bytes ?fd * field_count ff = length fb"
      "f_magic ff = SIM_FIELD_MAGIC"
      by (rule integer_field_facts [OF True])
    have exact: "sim_operator_domain_is_exact_integer ?fd" using True by (simp add: integer_field_def)
    have same: "i = j \<Longrightarrow> fb = cb \<and> ?fd = ?cd" using assms(4,5) cb(2) fb(2) by auto
    have "flag_loop (mark_integer_flag (\<lambda>flags. if i = j then flags else cb) ?cd ?fd hit) [0..<field_count cf] fb =
        (SIM_RESULT_OK, cleared (int_bytes ?fd) (\<lambda>i. H (stored_int ?cd cb i)) fb)"
      using integer_flag_loop [of ?cd ?fd hit H "field_count cf" fb cb "i = j", OF cb(1) fb(1) assms(6)] same cb(3) fb(3) assms(3) by simp
    then show ?thesis
      using exact fb cb(2) assms(5)
      by (simp add: mark_flags_def strike_integer [OF True] flag_width_def field_int_def sim_field_data_def
          sim_field_is_initialized_def)
  next
    case False
    then have real: "real_field ff" using assms(2) by (simp add: flag_field_def)
    obtain fb where fb: "\<not> sim_operator_domain_is_exact_integer ?fd" "sim_field_real_data (Some ff) = Some fb"
      "f_data ff = Some fb" "8 * field_count ff = length fb"
      using real_field_facts [OF real] by metis
    have "i \<noteq> j" using assms(1,4,5) fb(1) by (auto simp: integer_field_def)
    moreover have "flag_loop (mark_real_flag (\<lambda>flags. cb) ?cd hit) [0..<field_count cf] fb =
        (SIM_RESULT_OK, cleared 8 (\<lambda>i. real_flag fb i \<and> H (stored_int ?cd cb i)) fb)"
      using real_flag_loop [of ?cd hit H "field_count cf" fb cb, OF cb(1) assms(6)] fb(4) assms(3) by simp
    ultimately show ?thesis
      using fb cb(2) assms(5)
      by (simp add: mark_flags_def strike_def flag_width_def flag_set_def field_int_def)
  qed
qed

lemma validated_fields:
  assumes "segmented_sieve_mark_validate_fields (Some cf) (Some ff) conf = SIM_RESULT_OK" "field_ok cf" "field_ok ff"
    and "f_element_size cf \<le> 16" "f_element_size ff \<le> 16" "sd_kind (f_scalar_domain ff) \<noteq> SIM_SCALAR_DOMAIN_UNKNOWN"
  shows "integer_field cf" "flag_field ff" "field_count cf = field_count ff"
    "segmented_sieve_mark_prime_to_domain_raw (sm_prime conf) (sim_field_scalar_domain (Some cf)) \<noteq> None"
proof -
  note facts = assms(1) [unfolded segmented_sieve_mark_validate_fields_def, simplified]
  show "integer_field cf" "field_count cf = field_count ff"
    "segmented_sieve_mark_prime_to_domain_raw (sm_prime conf) (sim_field_scalar_domain (Some cf)) \<noteq> None"
    using facts assms(2,4) by (auto simp: integer_field_def field_count_def Let_def split: if_splits)
  have "sim_field_scalar_domain (Some ff) = f_scalar_domain ff"
    using assms(3,6) by (auto simp: field_ok_def field_metadata_ok_def sim_field_scalar_domain_def)
  then show "flag_field ff"
    using facts assms(3,5)
    by (auto simp: flag_field_def integer_field_def real_field_def segmented_sieve_mark_flag_domain_supported_def Let_def
        split: if_splits)
qed

lemma hits_struck:
  assumes "integer_domain d" "segmented_sieve_mark_prime_to_domain_raw p d = Some raw"
  shows "segmented_sieve_mark_candidate_hits c raw d \<longleftrightarrow> struck (uint p) (int_value d c)"
proof -
  have "\<not> uint p < int_value d c" if "\<forall>c. int_value d c < uint p" using that by (meson less_asym)
  then show ?thesis
    using accepted_prime [OF assms] hits_exact [OF assms(1), of c raw] by (auto simp: struck_def)
qed

lemma mark_apply_exact:
  assumes "sim_context_field c (sm_candidate_field conf) = Some cf" "sim_context_field c (sm_flags_field conf) = Some ff"
    and "integer_field cf" "flag_field ff" "field_count cf = field_count ff"
    and "segmented_sieve_mark_prime_to_domain_raw (sm_prime conf) (sim_field_scalar_domain (Some cf)) \<noteq> None"
    and "segmented_sieve_mark_validate_fields (Some cf) (Some ff) conf = SIM_RESULT_OK"
  shows "segmented_sieve_mark_apply conf c =
    (SIM_RESULT_OK, set_field (sm_flags_field conf) (strike (struck (uint (sm_prime conf))) cf ff) c)"
proof -
  let ?d = "sim_field_scalar_domain (Some cf)"
  obtain raw where raw: "segmented_sieve_mark_prime_to_domain_raw (sm_prime conf) ?d = Some raw" using assms(6) by blast
  obtain cb where cb: "integer_domain ?d" "f_data cf = Some cb" "f_magic cf = SIM_FIELD_MAGIC"
    by (rule integer_field_facts [OF assms(3)])
  note hits = hits_struck [OF cb(1) raw]
  show ?thesis
    using assms(1,2,7) raw cb
      mark_flags_exact [OF assms(3,4,5,1,2), of "\<lambda>x. segmented_sieve_mark_candidate_hits x raw ?d", OF hits]
    by (simp add: segmented_sieve_mark_apply_def sim_field_data_const_def sim_field_is_initialized_def field_count_def Let_def)
qed

section \<open>The strided path\<close>

lemma stride_loop_exact:
  assumes "0 < stride" "unat bound + unat stride \<le> 2 ^ 64" "0 < k" "k * unat bound \<le> length flags"
  shows "stride_loop bound stride (clear_element k) index flags =
    Some (cleared k (\<lambda>i. unat index \<le> i \<and> i < unat bound \<and> unat stride dvd (i - unat index)) flags)"
  using assms(4)
proof (induction "unat bound - unat index" arbitrary: index flags rule: less_induct)
  case less
  let ?P = "\<lambda>index i. unat index \<le> i \<and> i < unat bound \<and> unat stride dvd (i - unat index)"
  show ?case
  proof (cases "index < bound")
    case True
    then have lt: "unat index < unat bound" by (simp add: word_less_nat_alt)
    have stride: "0 < unat stride" using assms(1) by (simp add: unat_gt_0 word_gt_0)
    have step: "unat (index + stride) = unat index + unat stride"
      using lt assms(2) by (intro unat_add_exact) simp
    have bound: "k * unat index + k \<le> length flags"
      using element_bound [OF lt, of k] less.prems by simp
    have "clear_element k index flags = cleared k (\<lambda>i. i = unat index) flags"
      using clear_element_cleared [OF assms(3) bound] by (simp add: clear_element_def)
    moreover have "stride_loop bound stride (clear_element k) (index + stride) (cleared k (\<lambda>i. i = unat index) flags) =
        Some (cleared k (?P (index + stride)) (cleared k (\<lambda>i. i = unat index) flags))"
      using less.prems lt step stride by (intro less.hyps) simp_all
    moreover have "?P (index + stride) i \<or> i = unat index \<longleftrightarrow> ?P index i" for i
    proof -
      have "unat stride dvd (i - unat index) \<longleftrightarrow> unat stride dvd (i - (unat index + unat stride))"
        if "unat index + unat stride \<le> i"
      proof -
        have "i - unat index = i - (unat index + unat stride) + unat stride" using that by simp
        then show ?thesis by (metis dvd_add_triv_right_iff)
      qed
      moreover have "i = unat index \<or> unat index + unat stride \<le> i"
        if "unat index \<le> i" "unat stride dvd (i - unat index)"
        using that dvd_imp_le [of "unat stride" "i - unat index"] by (cases "i = unat index") simp_all
      ultimately show ?thesis using lt unfolding step by auto
    qed
    ultimately show ?thesis
      using True by (simp add: stride_loop.simps [of bound stride _ index] cleared_cleared)
  next
    case False
    then have "\<not> ?P index i" for i by (simp add: word_less_nat_alt)
    then show ?thesis using False by (simp add: stride_loop.simps [of bound stride _ index] cong: conj_cong)
  qed
qed

text \<open>The least multiple of a number from a bound on.\<close>

lemma next_multiple:
  fixes f p :: int
  assumes "2 \<le> p" "0 \<le> f"
  defines "g \<equiv> (if f mod p = 0 then f else f + (p - f mod p))"
  shows "f \<le> g" "g < f + p" "p dvd g" "\<And>v. f \<le> v \<Longrightarrow> p dvd v \<Longrightarrow> g \<le> v"
proof -
  define m where "m = f mod p"
  have m: "0 \<le> m" "m < p" "g = (if m = 0 then f else f + (p - m))" using assms(1) by (simp_all add: m_def g_def)
  then show "f \<le> g" "g < f + p" by auto
  show dvd: "p dvd g"
  proof -
    have "f + (p - f mod p) = p * (f div p + 1)" using mult_div_mod_eq [of p f] by (simp add: algebra_simps)
    then show ?thesis by (simp add: g_def dvd_eq_mod_eq_0)
  qed
  fix v
  assume v: "f \<le> v" "p dvd v"
  show "g \<le> v"
  proof (rule ccontr)
    assume "\<not> g \<le> v"
    then have "0 < g - v" "g - v < p" using v(1) \<open>g < f + p\<close> by simp_all
    moreover have "p dvd g - v" using dvd v(2) by (rule dvd_diff)
    ultimately show False using zdvd_imp_le by fastforce
  qed
qed

definition first_multiple :: "int \<Rightarrow> int \<Rightarrow> int" where
  "first_multiple s p = (let f = max s (p + 1) in if f mod p = 0 then f else f + (p - f mod p))"

lemma first_hit_value:
  assumes "s \<le> e" "2 \<le> uint p"
  shows "segmented_sieve_mark_batch_first_hit s e p =
    (if uint e < first_multiple (uint s) (uint p) then None
     else Some (word_of_int (first_multiple (uint s) (uint p) - uint s)))"
proof -
  let ?g = "first_multiple (uint s) (uint p)"
  let ?f = "max (uint s) (uint p + 1)"
  have p2: "\<not> p < 2" and se: "\<not> s > e" using assms by (simp_all add: word_less_def word_le_def)
  note g = next_multiple [of "uint p" ?f, folded first_multiple_def [unfolded Let_def], OF assms(2)]
  have f: "0 \<le> ?f" by (simp add: le_max_iff_disj)
  show ?thesis
  proof (cases "e \<le> p")
    case True
    then have "uint e < ?g" using g(1) [OF f] by (simp add: word_le_def)
    then show ?thesis using True p2 se by (simp add: segmented_sieve_mark_batch_first_hit_def)
  next
    case False
    then have pe: "uint p < uint e" by (simp add: word_le_def)
    have e: "uint e < 2 ^ 64" using unsigned_less [of e, where 'a = int] by simp
    define first where "first = (if s \<le> p then p + 1 else s)"
    have "p \<noteq> - 1" using False by auto
    have first: "uint first = ?f"
      using pe e by (auto simp: first_def word_le_def uint_word_ariths max_def)
    define rem where "rem = first mod p"
    have rem: "uint rem = ?f mod uint p" by (simp add: rem_def uint_mod first)
    have rp: "?f mod uint p < uint p" using assms(2) by simp
    then have delta: "uint (p - rem) = uint p - ?f mod uint p"
      by (simp add: uint_sub_lem [THEN iffD1] rem)
    have zero: "rem = 0 \<longleftrightarrow> ?f mod uint p = 0" using rem by (simp flip: uint_0_iff)
    have over: "- 1 - first < p - rem \<longleftrightarrow> 2 ^ 64 \<le> ?f + (uint p - ?f mod uint p)"
    proof -
      have "uint (- 1 - first) = 2 ^ 64 - 1 - ?f"
        using unsigned_less [of first, where 'a = int] first by (simp add: uint_sub_lem [THEN iffD1] unsigned_minus_1_eq_mask mask_eq_exp_minus_1)
      then show ?thesis by (auto simp: word_less_def delta)
    qed
    define last where "last = (if rem \<noteq> 0 then first + (p - rem) else first)"
    have hit: "segmented_sieve_mark_batch_first_hit s e p =
        (if rem \<noteq> 0 \<and> - 1 - first < p - rem then None
         else if last > e \<or> last < s then None else Some (last - s))"
      unfolding segmented_sieve_mark_batch_first_hit_def first_def [symmetric] rem_def [symmetric] last_def
      using p2 se False \<open>p \<noteq> - 1\<close> by (simp add: Let_def flip: first_def rem_def)
    have multiple: "?g = (if rem = 0 then ?f else ?f + (uint p - ?f mod uint p))"
      by (simp add: first_multiple_def zero Let_def)
    show ?thesis
    proof (cases "rem \<noteq> 0 \<and> - 1 - first < p - rem")
      case True
      then have "uint e < ?g" using over multiple e by simp
      then show ?thesis using True hit by simp
    next
      case fits: False
      have "uint last = ?g"
        using fits over multiple by (auto simp: last_def first uint_add_lem [THEN iffD1] delta)
      then have "last > e \<longleftrightarrow> uint e < ?g" "\<not> last < s" "last - s = word_of_int (?g - uint s)"
        using g(1) [OF f] by (simp_all add: word_less_def) (metis of_int_diff word_of_int_uint)
      then show ?thesis using fits hit by auto
    qed
  qed
qed

lemma first_hit_exact:
  assumes "s \<le> e" "2 \<le> uint p" "0 \<le> v" "v \<le> uint e - uint s"
  shows "segmented_sieve_mark_batch_first_hit s e p = None \<Longrightarrow> \<not> struck (uint p) (uint s + v)"
    and "segmented_sieve_mark_batch_first_hit s e p = Some i \<Longrightarrow>
      2 * uint p \<le> uint e \<and> (struck (uint p) (uint s + v) \<longleftrightarrow> uint i \<le> v \<and> uint p dvd v - uint i)"
proof -
  let ?g = "first_multiple (uint s) (uint p)" and ?f = "max (uint s) (uint p + 1)"
  have f: "0 \<le> ?f" by (simp add: le_max_iff_disj)
  note g = next_multiple [of "uint p" ?f, folded first_multiple_def [unfolded Let_def], OF assms(2) f]
  have struck: "struck (uint p) (uint s + v) \<Longrightarrow> ?g \<le> uint s + v"
    using g(4) [of "uint s + v"] assms(3) by (simp add: struck_def)
  then show "segmented_sieve_mark_batch_first_hit s e p = None \<Longrightarrow> \<not> struck (uint p) (uint s + v)"
    using first_hit_value [OF assms(1,2)] assms(4) by (fastforce split: if_splits)
  assume hit: "segmented_sieve_mark_batch_first_hit s e p = Some i"
  then have i: "i = word_of_int (?g - uint s)" and le: "?g \<le> uint e"
    using first_hit_value [OF assms(1,2)] by (auto split: if_splits)
  have bounds: "uint s \<le> ?g" "uint p < ?g" using g(1) by simp_all
  have u: "uint e < 2 ^ 64" "0 \<le> uint s" using unsigned_less [of e, where 'a = int] by simp_all
  then have "?g - uint s < 2 ^ 64" using le by linarith
  then have "take_bit 64 (?g - uint s) = ?g - uint s"
    using bounds(1) by (intro take_bit_int_eq_self) simp_all
  then have ui: "uint i = ?g - uint s" unfolding i by (simp only: uint_word_of_int_eq len_num1 len_bit0 mult_1_right) simp
  have "2 * uint p \<le> ?g"
  proof -
    obtain q where q: "?g = uint p * q" using g(3) by (rule dvdE)
    have "1 < q" using q bounds(2) assms(2) by (metis mult.right_neutral mult_less_cancel_left_pos zero_less_numeral order_less_le_trans)
    then have "uint p * 2 \<le> uint p * q" using assms(2) by (intro mult_left_mono) simp_all
    then show ?thesis using q by simp
  qed
  moreover have "struck (uint p) (uint s + v) \<longleftrightarrow> ?g \<le> uint s + v \<and> uint p dvd uint s + v - ?g"
    using struck bounds(2) dvd_add_right_iff [OF g(3), of "uint s + v - ?g"] by (auto simp: struck_def)
  moreover have "uint s + v - ?g = v - uint i" "?g \<le> uint s + v \<longleftrightarrow> uint i \<le> v" using ui by auto
  ultimately show "2 * uint p \<le> uint e \<and> (struck (uint p) (uint s + v) \<longleftrightarrow> uint i \<le> v \<and> uint p dvd v - uint i)"
    using le by simp
qed

lemma uint_nonneg: "0 \<le> sint w \<Longrightarrow> uint w = sint w" for w :: u64
  using sint_lt [of w] by (simp add: uint_sint take_bit_int_eq_self)

lemma nonnegative_value_exact:
  assumes "integer_domain d" "segmented_sieve_mark_batch_nonnegative_value raw d = Some v"
  shows "uint v = int_value d raw"
  using assms(2) operator_integers_agree [OF assms(1)]
  by (auto simp: segmented_sieve_mark_batch_nonnegative_value_def int_value_def Let_def not_less uint_nonneg
      split: if_splits)

lemma fold_option_snoc:
  "fold_option f (xs @ [y]) s = (case fold_option f xs s of None \<Rightarrow> None | Some s' \<Rightarrow> f y s')"
  by (simp add: fold_option_append split: option.split)

lemma detect_unit_range_exact:
  assumes "integer_domain d" "segmented_sieve_mark_batch_detect_unit_range (Some data) d n = Some (s, e)"
  shows "0 < n" "uint e = uint s + int (n - 1)" "i < n \<Longrightarrow> stored_int d data i = uint s + int i"
proof -
  show n: "0 < n" using assms(2) by (auto simp: segmented_sieve_mark_batch_detect_unit_range_def split: if_splits)
  have step: "uint (prev + 1) = uint prev + 1" if "prev \<noteq> - 1" for prev :: u64
  proof -
    have "uint prev \<noteq> uint (- 1 :: u64)" using that by (simp only: word_uint_eq_iff [symmetric] not_False_eq_True)
    then have "uint prev + 1 < 2 ^ 64"
      using unsigned_less [of prev, where 'a = int] by (simp add: unsigned_minus_1_eq_mask mask_eq_exp_minus_1)
    then show ?thesis by (simp add: uint_word_ariths)
  qed
  have "\<forall>i\<le>m. stored_int d data i = uint a + int i \<and> uint z = uint a + int m"
    if "fold_option (unit_range_step data d) [0..<Suc m] (0, 0) = Some (a, z)" for m a z
    using that
  proof (induction m arbitrary: a z)
    case 0
    obtain raw where raw: "sim_operator_integer_read (Some data) d 0 = Some raw" "int_value d raw = stored_int d data 0"
      using read_exact [OF assms(1), of data 0] by metis
    have "segmented_sieve_mark_batch_nonnegative_value raw d = Some a" "z = a"
      using 0 raw(1) by (auto simp: unit_range_step_def split: option.splits)
    then show ?case using nonnegative_value_exact [OF assms(1), of raw a] raw(2) by simp
  next
    case (Suc m)
    have upt: "[0..<Suc (Suc m)] = [0..<Suc m] @ [Suc m]" by simp
    define F where "F = fold_option (unit_range_step data d) [0..<Suc m] (0, 0)"
    have "(case F of None \<Rightarrow> None | Some x \<Rightarrow> unit_range_step data d (Suc m) x) = Some (a, z)"
      using Suc.prems unfolding upt fold_option_snoc F_def .
    then obtain a' z' where F: "F = Some (a', z')" and last: "unit_range_step data d (Suc m) (a', z') = Some (a, z)"
      by (cases F) auto
    have prev: "fold_option (unit_range_step data d) [0..<Suc m] (0, 0) = Some (a', z')" using F unfolding F_def .
    obtain raw where raw: "sim_operator_integer_read (Some data) d (Suc m) = Some raw"
      "int_value d raw = stored_int d data (Suc m)"
      using read_exact [OF assms(1), of data "Suc m"] by metis
    obtain v where v: "segmented_sieve_mark_batch_nonnegative_value raw d = Some v"
      using last raw(1) by (cases "segmented_sieve_mark_batch_nonnegative_value raw d") (simp_all add: unit_range_step_def)
    have w: "z' \<noteq> - 1 \<and> v = z' + 1" "a = a'" "z = v"
      using last raw(1) v by (simp_all add: unit_range_step_def split: if_splits)
    have "stored_int d data (Suc m) = uint v" using nonnegative_value_exact [OF assms(1) v] raw(2) by simp
    moreover have "uint v = uint z' + 1" using step w(1) by blast
    ultimately show ?case using Suc.IH [OF prev] w(2,3) by (auto simp: le_Suc_eq)
  qed
  moreover have "fold_option (unit_range_step data d) [0..<Suc (n - 1)] (0, 0) = Some (s, e)"
    using assms(2) n by (simp add: segmented_sieve_mark_batch_detect_unit_range_def del: upt_Suc)
  ultimately have *: "\<forall>i\<le>n - 1. stored_int d data i = uint s + int i \<and> uint e = uint s + int (n - 1)" by blast
  show "uint e = uint s + int (n - 1)" using * by blast
  show "stored_int d data i = uint s + int i" if "i < n" using * that by simp
qed

lemma flag_type_size_exact: "integer_domain d \<Longrightarrow> flag_type_size d = Some (int_bytes d)"
  by (erule canonical_integer_domain) (simp_all add: flag_type_size_def sim_scalar_domain_equal_def scalar_domain_consts)

lemma unit_range_loop_exact:
  assumes "integer_domain d" "int_bytes d * n = length flags" "length flags < 2 ^ 63"
    and "0 < n" "uint e = uint s + int (n - 1)" "\<forall>p \<in> set ps. 2 \<le> uint p"
  shows "unit_range_loop d s e (word_of_nat n) ps flags =
    Some (SIM_RESULT_OK, cleared (int_bytes d) (\<lambda>i. \<exists>p \<in> set ps. struck (uint p) (uint s + int i)) flags)"
  using assms(2,3,6)
proof (induction ps arbitrary: flags)
  case (Cons p ps)
  let ?k = "int_bytes d" and ?P = "\<lambda>i. \<exists>p \<in> set ps. struck (uint p) (uint s + int i)"
  note k = int_bytes_width [OF assms(1)]
  have "n \<le> ?k * n" using k(2) by simp
  then have n: "n < 2 ^ 63" using Cons.prems(1,2) by simp
  then have wn: "unat (word_of_nat n :: u64) = n" by (simp add: unat_word_of_nat_64)
  have se: "s \<le> e" using assms(5) by (simp add: word_le_def)
  have p2: "2 \<le> uint p" using Cons.prems(3) by simp
  have hit: "0 \<le> int i" "int i \<le> uint e - uint s" if "i < n" for i using that assms(4,5) by simp_all
  show ?case
  proof (cases "segmented_sieve_mark_batch_first_hit s e p")
    case None
    then have "\<not> struck (uint p) (uint s + int i)" if "i < n" for i
      using first_hit_exact(1) [OF se p2 hit [OF that]] by blast
    then have "cleared ?k (\<lambda>i. \<exists>q \<in> set (p # ps). struck (uint q) (uint s + int i)) flags = cleared ?k ?P flags"
      by (intro cleared_cong [OF Cons.prems(1)]) auto
    then show ?thesis using None Cons.IH [OF Cons.prems(1,2)] Cons.prems(3) by simp
  next
    case (Some i0)
    let ?Q = "\<lambda>i. unat i0 \<le> i \<and> i < n \<and> unat p dvd (i - unat i0)"
    have strike: "struck (uint p) (uint s + int i) \<longleftrightarrow> ?Q i" if "i < n" for i
    proof -
      have "struck (uint p) (uint s + int i) \<longleftrightarrow> uint i0 \<le> int i \<and> uint p dvd int i - uint i0"
        using first_hit_exact(2) [OF se p2 hit [OF that] Some] by blast
      also have "\<dots> \<longleftrightarrow> unat i0 \<le> i \<and> unat p dvd (i - unat i0)"
      proof (cases "unat i0 \<le> i")
        case True
        then have "int i - uint i0 = int (i - unat i0)" by simp
        then show ?thesis using True by (simp only: uint_nat int_dvd_int_iff of_nat_le_iff)
      qed (simp only: uint_nat of_nat_le_iff simp_thms)
      finally show ?thesis using that by simp
    qed
    have "2 * uint p < 2 ^ 64"
      using first_hit_exact(2) [OF se p2 hit [OF assms(4)] Some] unsigned_less [of e, where 'a = int] by simp
    then have "int (unat p) < int (2 ^ 63)" by simp
    then have "unat p < 2 ^ 63" by (simp only: of_nat_less_iff)
    then have wrap: "unat (word_of_nat n :: u64) + unat p \<le> 2 ^ 64" using n wn by simp
    have "0 < p" using p2 by (simp add: word_less_def)
    then have "stride_loop (word_of_nat n) p (clear_element ?k) i0 flags = Some (cleared ?k ?Q flags)"
      using stride_loop_exact [OF _ wrap k(2), of flags i0] Cons.prems(1) wn by simp
    moreover have "unit_range_loop d s e (word_of_nat n) ps (cleared ?k ?Q flags) =
        Some (SIM_RESULT_OK, cleared ?k ?P (cleared ?k ?Q flags))"
      using Cons.prems by (intro Cons.IH) simp_all
    moreover have "cleared ?k ?P (cleared ?k ?Q flags) =
        cleared ?k (\<lambda>i. \<exists>q \<in> set (p # ps). struck (uint q) (uint s + int i)) flags"
      unfolding cleared_cleared using strike by (intro cleared_cong [OF Cons.prems(1)]) auto
    ultimately show ?thesis using Some flag_type_size_exact [OF assms(1)] by simp
  qed
qed simp

section \<open>The operator for one prime\<close>

text \<open>
  C28. On live fields that pass the validation the marking operator for a prime returns success, changes
  nothing but the bytes of the flag field, and clears exactly the set flags of the candidates that are
  proper multiples of the prime; every other flag keeps its bytes.
\<close>

theorem sieve_mark_exact:
  fixes conf :: SimSegmentedSieveMarkOperatorConfig
  defines "p \<equiv> uint (sm_prime conf)"
  assumes "sim_context_field c (sm_candidate_field conf) = Some cf" "sim_context_field c (sm_flags_field conf) = Some ff"
    and "field_ok cf" "field_ok ff" "f_element_size cf \<le> 16" "f_element_size ff \<le> 16"
    and "sd_kind (f_scalar_domain ff) \<noteq> SIM_SCALAR_DOMAIN_UNKNOWN"
    and "segmented_sieve_mark_validate_fields (Some cf) (Some ff) conf = SIM_RESULT_OK"
  shows "\<exists>bytes. segmented_sieve_mark_apply conf c =
        (SIM_RESULT_OK, set_field (sm_flags_field conf) (ff\<lparr>f_data := Some bytes\<rparr>) c) \<and>
      length bytes = length (the (f_data ff)) \<and>
      (let w = flag_width ff in \<forall>i < field_count cf.
         take w (drop (w * i) bytes) =
           (if flag_set ff i \<and> p < field_int cf i \<and> p dvd field_int cf i then replicate w 0
            else take w (drop (w * i) (the (f_data ff)))))"
proof -
  note v = validated_fields [OF assms(9) assms(4,5,6,7,8)]
  let ?w = "flag_width ff" and ?data = "the (f_data ff)"
  let ?bytes = "cleared ?w (\<lambda>i. flag_set ff i \<and> struck p (field_int cf i)) ?data"
  have "?w * field_count ff = length ?data \<and> 0 < ?w"
  proof (cases "integer_field ff")
    case True
    then show ?thesis
      using integer_field_facts [OF True] int_bytes_width(2)
      by (metis flag_width_def integer_field_def option.sel)
  next
    case False
    then have real: "real_field ff" using v(2) by (simp add: flag_field_def)
    show ?thesis
      by (rule real_field_facts [OF real]) (simp add: flag_width_def)
  qed
  then have len: "?w * field_count cf = length ?data" "0 < ?w" using v(3) by simp_all
  have element: "take ?w (drop (?w * i) ?bytes) =
      (if flag_set ff i \<and> struck p (field_int cf i) then replicate ?w 0 else take ?w (drop (?w * i) ?data))"
    if "i < field_count cf" for i
    using element_bound [OF that, of ?w] len by (intro element_cleared) simp_all
  have "segmented_sieve_mark_apply conf c =
      (SIM_RESULT_OK, set_field (sm_flags_field conf) (ff\<lparr>f_data := Some ?bytes\<rparr>) c)"
    using mark_apply_exact [OF assms(2,3) v(1,2,3,4) assms(9)] by (simp add: strike_def p_def)
  then show ?thesis
    using element by (intro exI [of _ ?bytes]) (simp add: struck_def Let_def)
qed

definition u8_field :: "u8 list \<Rightarrow> SimField" where
  "u8_field bytes = (demo_field 1 sim_scalar_domain_u8)\<lparr>f_data := Some bytes\<rparr>"

lemma u8_field_data [simp]: "f_data (u8_field bytes) = Some bytes" "(u8_field a)\<lparr>f_data := Some bytes\<rparr> = u8_field bytes"
  by (simp_all add: u8_field_def)

lemma u8_field_ok:
  assumes "length bytes = 6"
  shows "integer_field (u8_field bytes)" "field_count (u8_field bytes) = 6"
    "field_ok (u8_field bytes)" "sim_field_scalar_domain (Some (u8_field bytes)) = sim_scalar_domain_u8"
proof -
  have "field_ok (u8_field bytes)"
    using assms demo_heap_bounded
    by (simp add: u8_field_def field_ok_def field_storage_ok_def field_metadata_ok_def field_shape_def row_major_layout_def
        scalar_domain_consts sim_scalar_domain_validate_def sim_field_storage_matches_scalar_domain_def
        sim_scalar_domain_is_complex_def sim_field_representation_def value_kind_defs initial_repr_def Let_def)
  moreover have "sim_field_scalar_domain (Some (u8_field bytes)) = sim_scalar_domain_u8"
    by (simp add: u8_field_def sim_field_scalar_domain_def scalar_domain_consts sim_scalar_domain_validate_def)
  ultimately show "field_ok (u8_field bytes)" "sim_field_scalar_domain (Some (u8_field bytes)) = sim_scalar_domain_u8"
    "integer_field (u8_field bytes)"
    by (simp_all add: integer_field_def sim_operator_domain_is_exact_integer_def sim_scalar_domain_is_integer_def
        scalar_domain_consts u8_field_def)
  show "field_count (u8_field bytes) = 6"
    by (simp add: field_count_def u8_field_def sim_field_element_count_def)
qed

text \<open>Candidates, primes and flags.\<close>

definition sieve_fields :: "SimField list" where
  "sieve_fields = [u8_field [2, 3, 4, 5, 6, 9], u8_field [2, 3, 2, 3, 2, 3], u8_field [1, 1, 1, 1, 1, 1]]"

definition sieve_context :: SimContext where
  "sieve_context = new_context\<lparr>cx_world := (cx_world new_context)\<lparr>w_fields := sieve_fields\<rparr>\<rparr>"

lemma sieve_context_field [simp]:
  "sim_context_field sieve_context 0 = Some (u8_field [2, 3, 4, 5, 6, 9])"
  "sim_context_field sieve_context (Suc 0) = Some (u8_field [2, 3, 2, 3, 2, 3])"
  "sim_context_field sieve_context 2 = Some (u8_field [1, 1, 1, 1, 1, 1])"
  by (simp_all add: sim_context_field_def sieve_context_def sieve_fields_def)

lemma u8_field_int:
  assumes "length bytes = 6" "i < 6"
  shows "field_int (u8_field bytes) i = uint (bytes ! i)"
proof -
  have "take (Suc 0) (drop i bytes) = [bytes ! i]"
    using assms by (simp add: take_Suc_conv_app_nth)
  then have "load_le (Suc 0) bytes i = ucast (bytes ! i)" by (simp add: load_le_def)
  moreover have "integer_domain sim_scalar_domain_u8"
    by (rule integer_field_facts [OF u8_field_ok(1) [OF assms(1)]]) (simp add: u8_field_ok(4) [OF assms(1)])
  then have "int_value sim_scalar_domain_u8 raw = take_bit 8 (uint raw)" for raw
    by (simp add: int_value_wrap int_wrap_def int_width_def scalar_domain_consts)
  moreover have "take_bit 8 (uint (bytes ! i)) = uint (bytes ! i)"
    using unsigned_less [of "bytes ! i", where 'a = int] by (intro take_bit_int_eq_self) simp_all
  ultimately show ?thesis
    unfolding field_int_def stored_int_def u8_field_ok(4) [OF assms(1)]
    by (simp add: int_bytes_def int_width_def unsigned_ucast_eq) (simp add: scalar_domain_consts unsigned_ucast_eq)
qed

text \<open>With the prime 3 the candidates 6 and 9 are struck.\<close>

theorem sieve_mark_exact_witness:
  "\<exists>bytes. segmented_sieve_mark_apply \<lparr>sm_candidate_field = 0, sm_flags_field = 2, sm_prime = 3\<rparr> sieve_context =
     (SIM_RESULT_OK, set_field 2 (u8_field bytes) sieve_context) \<and>
     length bytes = 6 \<and> take 1 (drop 3 bytes) = [1] \<and> take 1 (drop 4 bytes) = [0] \<and> take 1 (drop 5 bytes) = [0]"
proof -
  let ?conf = "\<lparr>sm_candidate_field = 0, sm_flags_field = 2, sm_prime = 3\<rparr>"
  let ?cf = "u8_field [2, 3, 4, 5, 6, 9]" and ?ff = "u8_field [1, 1, 1, 1, 1, 1]"
  have ok: "integer_field ?cf" "integer_field ?ff" "field_count ?cf = 6" "field_count ?ff = 6" "field_ok ?cf" "field_ok ?ff"
    "sim_field_scalar_domain (Some ?cf) = sim_scalar_domain_u8" "sim_field_scalar_domain (Some ?ff) = sim_scalar_domain_u8"
    using u8_field_ok by simp_all
  have small: "f_element_size (u8_field bs) = 1" "f_scalar_domain (u8_field bs) = sim_scalar_domain_u8" for bs
    by (simp_all add: u8_field_def)
  have exact: "sim_operator_domain_is_exact_integer sim_scalar_domain_u8"
    by (simp add: sim_operator_domain_is_exact_integer_def sim_scalar_domain_is_integer_def scalar_domain_consts)
  have count: "sim_field_element_count (f_layout ?cf) = sim_field_element_count (f_layout ?ff)"
    using ok(3,4) by (simp add: field_count_def word_unat_eq_iff)
  have valid: "segmented_sieve_mark_validate_fields (Some ?cf) (Some ?ff) ?conf = SIM_RESULT_OK"
    using ok(7,8) exact small count
    by (simp add: segmented_sieve_mark_validate_fields_def sim_field_is_complex_def
        sim_field_storage_is_complex_def segmented_sieve_mark_flag_domain_supported_def
        segmented_sieve_mark_prime_to_domain_raw_def sim_operator_integer_raw_from_unsigned_def)
      (simp add: scalar_domain_consts)
  have known: "sd_kind (f_scalar_domain ?ff) \<noteq> SIM_SCALAR_DOMAIN_UNKNOWN" by (simp add: small(2) scalar_domain_consts)
  have w: "flag_width ?ff = 1"
    by (simp add: flag_width_def ok(8) exact) (simp add: int_bytes_def int_width_def scalar_domain_consts)
  have set: "flag_set ?ff i" if "i < 6" for i
    using that u8_field_int [of "[1, 1, 1, 1, 1, 1]" i]
    by (simp add: flag_set_def ok(8) exact) (auto simp: less_Suc_eq numeral_eq_Suc)
  have size: "f_element_size ?cf \<le> 16" "f_element_size ?ff \<le> 16" by (simp_all add: small(1))
  obtain bytes where b: "segmented_sieve_mark_apply ?conf sieve_context =
        (SIM_RESULT_OK, set_field 2 (u8_field bytes) sieve_context)" "length bytes = 6"
    "\<forall>i < 6. take 1 (drop i bytes) = (if 3 < field_int ?cf i \<and> 3 dvd field_int ?cf i then [0]
       else take 1 (drop i [1, 1, 1, 1, 1, 1]))"
    using sieve_mark_exact [of sieve_context ?conf ?cf ?ff, OF _ _ ok(5,6) size known valid] w set
    by (auto simp: ok(3) Let_def)
  have ints: "field_int ?cf 3 = 5" "field_int ?cf 4 = 6" "field_int ?cf 5 = 9" by (simp_all add: u8_field_int)
  then show ?thesis
    using b ints b(3) [rule_format, of 3] b(3) [rule_format, of 4] b(3) [rule_format, of 5]
    by (intro exI [of _ bytes]) simp
qed

end
