(* ===== verification/Sieve_Batch.thy ===== *)
theory Sieve_Batch
  imports Sieve_Correct
begin

text \<open>
  The batch marking operator: the cache of primes, the two paths, what a step computes and how it compares
  with the operators for one prime and with the primes themselves.
\<close>

unbundle bit_operations_syntax

section \<open>The cache of primes\<close>

definition batch_state_ok :: "SimSegmentedSieveMarkBatchOperatorState \<Rightarrow> bool" where
  "batch_state_ok s \<longleftrightarrow>
     bs_prime_cache_capacity s \<le> length (bs_prime_cache s) \<and> bs_prime_cache_capacity s \<le> length (bs_prime_values s)"

lemma length_regrown: "length xs \<le> n \<Longrightarrow> length (regrown fresh n xs) = n"
  by (simp add: regrown_def)

lemma regrown_length: "n \<le> length (regrown fresh n xs)"
  by (simp add: regrown_def)

lemma grow_prime_cache_ok:
  assumes "batch_state_ok s" "grow_prime_cache heap fresh n s = (result, s')"
  shows "bs_config s' = bs_config s"
    "result = (if bs_prime_cache_capacity s < n \<and> \<not> malloc_ok heap (n * 8) then SIM_RESULT_OUT_OF_MEMORY else SIM_RESULT_OK)"
    "batch_state_ok s'" "result = SIM_RESULT_OK \<Longrightarrow> n \<le> bs_prime_cache_capacity s'"
  using assms
  by (auto simp: grow_prime_cache_def batch_state_ok_def Let_def regrown_length
      intro: le_trans less_imp_le split: if_splits)

definition filled_entry ::
  "nat \<Rightarrow> u64 \<Rightarrow> u64 \<Rightarrow> SimSegmentedSieveMarkBatchOperatorState \<Rightarrow> SimSegmentedSieveMarkBatchOperatorState" where
  "filled_entry i raw p s =
     s\<lparr>bs_prime_cache := (bs_prime_cache s)[i := raw], bs_prime_values := (bs_prime_values s)[i := p]\<rparr>"

lemma fill_prime_cache_exact:
  assumes "fill_prime_cache prime to_raw is s = (result, s')" "distinct is"
  shows "bs_config s' = bs_config s \<and> bs_prime_cache_capacity s' = bs_prime_cache_capacity s \<and>
      length (bs_prime_cache s') = length (bs_prime_cache s) \<and>
      length (bs_prime_values s') = length (bs_prime_values s)"
    and "result = (if \<forall>i \<in> set is. \<exists>p. prime i = Some p \<and> to_raw p \<noteq> None then SIM_RESULT_OK
      else SIM_RESULT_INVALID_ARGUMENT)"
    and "result = SIM_RESULT_OK \<Longrightarrow> i < length (bs_prime_cache s) \<Longrightarrow> bs_prime_cache s' ! i =
      (if i \<in> set is then the (to_raw (the (prime i))) else bs_prime_cache s ! i)"
    and "result = SIM_RESULT_OK \<Longrightarrow> i < length (bs_prime_values s) \<Longrightarrow> bs_prime_values s' ! i =
      (if i \<in> set is then the (prime i) else bs_prime_values s ! i)"
  using assms
proof (induction "is" arbitrary: s)
  case (Cons j "is")
  {
    case 1 then show ?case using Cons.IH(1) by (auto split: option.splits)
  next
    case 2
    show ?case
    proof (cases "\<exists>p. prime j = Some p \<and> to_raw p \<noteq> None")
      case True
      then obtain p raw where pq: "prime j = Some p" "to_raw p = Some raw" by blast
      let ?s = "s\<lparr>bs_prime_cache := (bs_prime_cache s)[j := raw], bs_prime_values := (bs_prime_values s)[j := p]\<rparr>"
      have "fill_prime_cache prime to_raw is ?s = (result, s')" "distinct is" using 2 pq by simp_all
      then show ?thesis using Cons.IH(2) [of ?s] pq by simp
    next
      case False
      then show ?thesis using 2 by (auto split: option.splits)
    qed
  next
    case 3
    then obtain p raw where pq: "prime j = Some p" "to_raw p = Some raw"
      and rest: "fill_prime_cache prime to_raw is (filled_entry j raw p s) = (result, s')"
      by (auto simp: filled_entry_def split: option.splits)
    show ?case using Cons.IH(3) [OF 3(1) _ rest] 3 pq by (auto simp: filled_entry_def)
  next
    case 4
    then obtain p raw where pq: "prime j = Some p" "to_raw p = Some raw"
      and rest: "fill_prime_cache prime to_raw is (filled_entry j raw p s) = (result, s')"
      by (auto simp: filled_entry_def split: option.splits)
    show ?case using Cons.IH(4) [OF 4(1) _ rest] 4 pq by (auto simp: filled_entry_def)
  }
qed auto

text \<open>The primes of a field, and whether they can be used with candidates of a domain.\<close>

definition field_primes :: "SimField \<Rightarrow> u64 list" where
  "field_primes f = map (\<lambda>i. word_of_int (field_int f i)) [0..<field_count f]"

definition primes_accepted :: "SimScalarDomain \<Rightarrow> SimField \<Rightarrow> bool" where
  "primes_accepted d f \<longleftrightarrow>
     (\<forall>i < field_count f. 2 \<le> field_int f i \<and>
        segmented_sieve_mark_prime_to_domain_raw (word_of_int (field_int f i)) d \<noteq> None)"

lemma uint_of_int_value:
  assumes "integer_domain d" "0 \<le> int_value d raw"
  shows "uint (word_of_int (int_value d raw) :: u64) = int_value d raw"
proof -
  have "(2 :: int) ^ (int_width d - 1) \<le> 2 ^ int_width d" by (intro power_increasing) simp_all
  moreover have "int_value d raw < 2 ^ (int_width d - 1) \<or> int_value d raw < 2 ^ int_width d"
    using int_value_range [OF assms(1), of raw] by (auto split: if_splits)
  ultimately have "int_value d raw < 2 ^ int_width d" by linarith
  moreover have "(2 :: int) ^ int_width d \<le> 2 ^ 64"
    using int_width_bounds [OF assms(1)] by (intro power_increasing) simp_all
  ultimately show ?thesis using assms(2) by (simp add: unsigned_of_int take_bit_int_eq_self)
qed

lemma read_prime_exact:
  assumes "integer_domain d"
  shows "segmented_sieve_mark_batch_read_positive_prime (Some data) d i =
    (if stored_int d data i < 2 then None else Some (word_of_int (stored_int d data i)))"
proof -
  note agree = operator_integers_agree [OF assms]
  obtain raw where raw: "sim_operator_integer_read (Some data) d i = Some raw" "int_value d raw = stored_int d data i"
    using read_exact [OF assms, of data i] by metis
  show ?thesis
  proof (cases "sd_is_signed d")
    case True
    then have v: "sint (sim_ir_integer_as_i64 raw d) = stored_int d data i" using raw(2) by (simp add: int_value_def)
    have "sim_ir_integer_as_i64 raw d = word_of_int (stored_int d data i)" unfolding v [symmetric] by simp
    then show ?thesis using True raw(1) agree v
      by (simp add: segmented_sieve_mark_batch_read_positive_prime_def Let_def)
  next
    case False
    then have v: "uint (sim_ir_integer_truncate raw d) = stored_int d data i" using raw(2) by (simp add: int_value_def)
    have "sim_ir_integer_truncate raw d = word_of_int (stored_int d data i)" unfolding v [symmetric] by simp
    moreover have "sim_ir_integer_truncate raw d < 2 \<longleftrightarrow> uint (sim_ir_integer_truncate raw d) < 2" by (simp add: word_less_def)
    ultimately show ?thesis using False raw(1) agree v
      by (simp add: segmented_sieve_mark_batch_read_positive_prime_def Let_def)
  qed
qed

lemma ensure_prime_cache_exact:
  assumes "integer_field pf" "batch_state_ok s"
    and "segmented_sieve_mark_batch_ensure_prime_cache heap fresh s (Some cf) (Some pf) = (result, s', n)"
  defines "d \<equiv> sim_field_scalar_domain (Some cf)"
  shows "bs_config s' = bs_config s" "batch_state_ok s'"
    "result = (if bs_prime_cache_capacity s < field_count pf \<and> \<not> malloc_ok heap (field_count pf * 8) then SIM_RESULT_OUT_OF_MEMORY
       else if primes_accepted d pf then SIM_RESULT_OK else SIM_RESULT_INVALID_ARGUMENT)"
    "result = SIM_RESULT_OK \<Longrightarrow> n = field_count pf \<and> take n (bs_prime_values s') = field_primes pf \<and>
       take n (bs_prime_cache s') = map (\<lambda>p. the (segmented_sieve_mark_prime_to_domain_raw p d)) (field_primes pf)"
proof -
  let ?dp = "sim_field_scalar_domain (Some pf)" and ?n = "field_count pf"
  obtain pb where pb: "integer_domain ?dp" "f_data pf = Some pb" "f_magic pf = SIM_FIELD_MAGIC" "0 < ?n"
    by (rule integer_field_facts [OF assms(1)])
  let ?prime = "segmented_sieve_mark_batch_read_positive_prime (Some pb) ?dp"
  have prime: "?prime i = (if field_int pf i < 2 then None else Some (word_of_int (field_int pf i)))" for i
    using read_prime_exact [OF pb(1), of pb i] pb(2) by (simp add: field_int_def)
  let ?raw = "\<lambda>p. segmented_sieve_mark_prime_to_domain_raw p d"
  obtain g s1 where g: "grow_prime_cache heap fresh ?n s = (g, s1)" by fastforce
  obtain h s2 where h: "fill_prime_cache ?prime ?raw [0..<?n] s1 = (h, s2)" by fastforce
  note grown = grow_prime_cache_ok [OF assms(2) g] and filled = fill_prime_cache_exact [OF h distinct_upt]
  have r: "(result, s', n) = (if g \<noteq> SIM_RESULT_OK then (g, s1, 0) else if h \<noteq> SIM_RESULT_OK then (h, s2, 0) else (SIM_RESULT_OK, s2, ?n))"
    using assms(3) pb g h
    by (simp add: segmented_sieve_mark_batch_ensure_prime_cache_def sim_field_data_const_def sim_field_is_initialized_def
        field_count_def batch_prime_raw d_def Let_def split: if_splits)
  have accepted: "(\<forall>i \<in> set [0..<?n]. \<exists>p. ?prime i = Some p \<and> ?raw p \<noteq> None) \<longleftrightarrow> primes_accepted d pf"
    unfolding prime primes_accepted_def by (auto simp: not_less split: if_splits)
  show "bs_config s' = bs_config s" "batch_state_ok s'"
    using r grown(1,3) filled(1) by (auto simp: batch_state_ok_def split: if_splits)
  show "result = (if bs_prime_cache_capacity s < ?n \<and> \<not> malloc_ok heap (?n * 8) then SIM_RESULT_OUT_OF_MEMORY
       else if primes_accepted d pf then SIM_RESULT_OK else SIM_RESULT_INVALID_ARGUMENT)"
    using r grown(2) filled(2) accepted by (auto split: if_splits)
  assume ok: "result = SIM_RESULT_OK"
  then have *: "g = SIM_RESULT_OK" "h = SIM_RESULT_OK" "s' = s2" "n = ?n" using r by (auto split: if_splits)
  have acc: "primes_accepted d pf" using *(2) filled(2) accepted by (metis SimResult.distinct(1))
  have len: "?n \<le> length (bs_prime_cache s1)" "?n \<le> length (bs_prime_values s1)"
    using grown(3,4) *(1) by (auto simp: batch_state_ok_def)
  have "take ?n (bs_prime_values s2) = field_primes pf"
    using filled(1,4) *(2) len acc
    by (intro nth_equalityI) (simp_all add: field_primes_def prime primes_accepted_def not_less [symmetric])
  moreover have "take ?n (bs_prime_cache s2) = map (\<lambda>p. the (?raw p)) (field_primes pf)"
    using filled(1,3) *(2) len acc
    by (intro nth_equalityI) (simp_all add: field_primes_def prime primes_accepted_def not_less [symmetric])
  ultimately show "n = ?n \<and> take n (bs_prime_values s') = field_primes pf \<and>
      take n (bs_prime_cache s') = map (\<lambda>p. the (?raw p)) (field_primes pf)" using * by simp
qed

section \<open>A step\<close>

definition batch_struck :: "SimField \<Rightarrow> int \<Rightarrow> bool" where
  "batch_struck pf z \<longleftrightarrow> (\<exists>i < field_count pf. struck (field_int pf i) z)"

lemma field_primes_exact:
  assumes "integer_field pf" "primes_accepted d pf"
  shows "\<forall>p \<in> set (field_primes pf). 2 \<le> uint p \<and> segmented_sieve_mark_prime_to_domain_raw p d \<noteq> None"
    and "(\<exists>p \<in> set (field_primes pf). struck (uint p) z) \<longleftrightarrow> batch_struck pf z"
proof -
  let ?dp = "sim_field_scalar_domain (Some pf)"
  have dp: "integer_domain ?dp" by (rule integer_field_facts [OF assms(1)])
  have u: "uint (word_of_int (field_int pf i) :: u64) = field_int pf i" if "i < field_count pf" for i
    using assms(2) that uint_of_int_value [OF dp, of "load_le (int_bytes ?dp) (the (f_data pf)) (int_bytes ?dp * i)"]
    by (simp add: primes_accepted_def field_int_def stored_int_def) (metis dual_order.trans zero_le_numeral)
  show "\<forall>p \<in> set (field_primes pf). 2 \<le> uint p \<and> segmented_sieve_mark_prime_to_domain_raw p d \<noteq> None"
    using assms(2) u by (auto simp: field_primes_def primes_accepted_def)
  show "(\<exists>p \<in> set (field_primes pf). struck (uint p) z) \<longleftrightarrow> batch_struck pf z"
    using u by (auto simp: field_primes_def batch_struck_def)
qed

lemma batch_hit_exact:
  assumes "integer_domain d" "integer_field pf" "primes_accepted d pf"
  shows "list_ex (\<lambda>r. segmented_sieve_mark_candidate_hits raw r d)
      (map (\<lambda>p. the (segmented_sieve_mark_prime_to_domain_raw p d)) (field_primes pf)) \<longleftrightarrow>
    batch_struck pf (int_value d raw)"
proof -
  note primes = field_primes_exact [OF assms(2,3)]
  have "segmented_sieve_mark_candidate_hits raw (the (segmented_sieve_mark_prime_to_domain_raw p d)) d \<longleftrightarrow>
      struck (uint p) (int_value d raw)" if "p \<in> set (field_primes pf)" for p
    using primes(1) that hits_struck [OF assms(1), of p _ raw] by fastforce
  then show ?thesis using primes(2) [of "int_value d raw"] by (auto simp: list_ex_iff)
qed

lemma not_complex_integer:
  assumes "integer_field f"
  shows "\<not> sim_field_is_complex (Some f)"
proof -
  have "integer_domain (sim_field_scalar_domain (Some f))" "unat (f_element_size f) = int_bytes (sim_field_scalar_domain (Some f))"
    by (rule integer_field_facts [OF assms], assumption)+
  then have "unat (f_element_size f) \<le> 8" using int_bytes_width(3) by metis
  then show ?thesis by (auto simp: sim_field_is_complex_def sim_field_storage_is_complex_def)
qed

lemma unit_range_path:
  assumes "integer_field cf" "integer_field pf" "integer_field ff" "field_count cf = field_count ff"
    and "primes_accepted (sim_field_scalar_domain (Some cf)) pf"
    and "segmented_sieve_mark_batch_detect_unit_range (f_data cf) (sim_field_scalar_domain (Some cf)) (field_count cf) = Some (a, z)"
  shows "segmented_sieve_mark_batch_apply_unit_range_integer_flags (sim_field_data (Some ff))
      (sim_field_scalar_domain (Some ff)) a z (field_count cf) (field_primes pf) =
    Some (SIM_RESULT_OK, f_data (strike (batch_struck pf) cf ff))"
proof -
  let ?cd = "sim_field_scalar_domain (Some cf)" and ?fd = "sim_field_scalar_domain (Some ff)"
  obtain cb where cb: "integer_domain ?cd" "f_data cf = Some cb"
    by (rule integer_field_facts [OF assms(1)])
  obtain fb where fb: "integer_domain ?fd" "f_data ff = Some fb" "int_bytes ?fd * field_count ff = length fb"
    "length fb < 2 ^ 63" "f_magic ff = SIM_FIELD_MAGIC"
    by (rule integer_field_facts [OF assms(3)])
  have exact: "sim_operator_domain_is_exact_integer ?fd" using assms(3) by (simp add: integer_field_def)
  note range = detect_unit_range_exact [OF cb(1) assms(6) [unfolded cb(2)]]
  note primes = field_primes_exact [OF assms(2,5)]
  have len: "int_bytes ?fd * field_count cf = length fb" using fb(3) assms(4) by simp
  have "unit_range_loop ?fd a z (word_of_nat (field_count cf)) (field_primes pf) fb =
      Some (SIM_RESULT_OK, cleared (int_bytes ?fd) (\<lambda>i. \<exists>p \<in> set (field_primes pf). struck (uint p) (uint a + int i)) fb)"
    using primes(1) by (intro unit_range_loop_exact [OF fb(1) len fb(4) range(1,2)]) blast
  also have "cleared (int_bytes ?fd) (\<lambda>i. \<exists>p \<in> set (field_primes pf). struck (uint p) (uint a + int i)) fb =
      cleared (int_bytes ?fd) (\<lambda>i. batch_struck pf (field_int cf i)) fb"
    using range(3) primes(2) by (intro cleared_cong [OF len]) (simp add: field_int_def cb(2))
  finally show ?thesis
    using exact fb
    by (simp add: segmented_sieve_mark_batch_apply_unit_range_integer_flags_def sim_field_data_def
        sim_field_is_initialized_def strike_integer [OF assms(3)] flag_width_def)
qed

lemma batch_apply_exact:
  fixes s :: SimSegmentedSieveMarkBatchOperatorState
  defines "conf \<equiv> bs_config s"
  assumes "sim_context_field c (sb_candidate_field conf) = Some cf" "sim_context_field c (sb_primes_field conf) = Some pf"
    "sim_context_field c (sb_flags_field conf) = Some ff"
    and "integer_field cf" "integer_field pf" "integer_field ff" "field_count cf = field_count ff" "batch_state_ok s"
  obtains s' where "batch_state_ok s'" "bs_config s' = conf"
    "segmented_sieve_mark_batch_apply heap fresh s c = Some
       (if bs_prime_cache_capacity s < field_count pf \<and> \<not> malloc_ok heap (field_count pf * 8)
          then (SIM_RESULT_OUT_OF_MEMORY, s', c)
        else if \<not> primes_accepted (sim_field_scalar_domain (Some cf)) pf then (SIM_RESULT_INVALID_ARGUMENT, s', c)
        else (SIM_RESULT_OK, s', set_field (sb_flags_field conf) (strike (batch_struck pf) cf ff) c))"
proof -
  let ?cd = "sim_field_scalar_domain (Some cf)" and ?n = "field_count pf"
  note facts = integer_field_facts
  obtain cb where cb: "integer_domain ?cd" "f_data cf = Some cb" "f_magic cf = SIM_FIELD_MAGIC" "0 < field_count cf"
    by (rule facts [OF assms(5)])
  have n: "0 < ?n" by (rule facts [OF assms(6)])
  have exact: "sim_operator_domain_is_exact_integer (sim_field_scalar_domain (Some f))" if "integer_field f" for f
    using that by (simp add: integer_field_def)
  have valid: "segmented_sieve_mark_batch_validate_fields (Some cf) (Some pf) (Some ff) = SIM_RESULT_OK"
    using assms(5-8) exact not_complex_integer
    by (simp add: segmented_sieve_mark_batch_validate_fields_def field_count_def
        segmented_sieve_mark_batch_flag_domain_supported_def word_unat_eq_iff)
  obtain result s' k where e: "segmented_sieve_mark_batch_ensure_prime_cache heap fresh s (Some cf) (Some pf) = (result, s', k)"
    using prod_cases3 by blast
  note ens = ensure_prime_cache_exact [OF assms(6,9) e]
  have start: "segmented_sieve_mark_batch_apply heap fresh s c =
     (if result \<noteq> SIM_RESULT_OK \<or> k = 0 then Some (result, s', c)
      else (case segmented_sieve_mark_batch_detect_unit_range (Some cb) ?cd (field_count cf) of
         Some (a, z) \<Rightarrow>
           map_option (\<lambda>(result, flags). (result, s', set_field (sb_flags_field conf) (ff\<lparr>f_data := flags\<rparr>) c))
             (segmented_sieve_mark_batch_apply_unit_range_integer_flags (sim_field_data (Some ff))
                (sim_field_scalar_domain (Some ff)) a z (field_count cf) (take k (bs_prime_values s')))
       | None \<Rightarrow>
           (case mark_flags c (sb_candidate_field conf) (sb_flags_field conf) cb ?cd (field_count cf)
                  (\<lambda>raw. list_ex (\<lambda>p. segmented_sieve_mark_candidate_hits raw p ?cd) (take k (bs_prime_cache s'))) of
              (result, c) \<Rightarrow> Some (result, s', c))))"
    using assms(2-4) valid e cb exact [OF assms(7)] unfolding conf_def
    by (simp add: segmented_sieve_mark_batch_apply_def batch_hits sim_field_data_const_def
        sim_field_is_initialized_def field_count_def Let_def cong: option.case_cong)
  have "segmented_sieve_mark_batch_apply heap fresh s c =
      Some (SIM_RESULT_OK, s', set_field (sb_flags_field conf) (strike (batch_struck pf) cf ff) c)"
    if ok: "result = SIM_RESULT_OK" and acc: "primes_accepted ?cd pf"
  proof -
    have k: "k = ?n" "take k (bs_prime_values s') = field_primes pf"
      "take k (bs_prime_cache s') = map (\<lambda>p. the (segmented_sieve_mark_prime_to_domain_raw p ?cd)) (field_primes pf)"
      using ens(4) [OF ok] by blast+
    have flag: "flag_field ff" using assms(7) by (simp add: flag_field_def)
    show ?thesis
    proof (cases "segmented_sieve_mark_batch_detect_unit_range (Some cb) ?cd (field_count cf)")
      case None
      then show ?thesis
        using start ok k n cb(2)
          mark_flags_exact [where H = "batch_struck pf",
            OF assms(5) flag assms(8,2,4) batch_hit_exact [OF cb(1) assms(6) acc]]
        by simp
    next
      case (Some az)
      obtain a z where az: "az = (a, z)" by fastforce
      have "ff\<lparr>f_data := f_data (strike (batch_struck pf) cf ff)\<rparr> = strike (batch_struck pf) cf ff"
        by (simp add: strike_def)
      then show ?thesis
        using start ok k n Some az cb(2) unit_range_path [OF assms(5-8) acc, of a z] by simp
    qed
  qed
  then show thesis
    using that [of s'] ens(1,2,3) start by (auto simp: conf_def split: if_splits)
qed

section \<open>The batch and the single operators\<close>

lemma strike_fields:
  assumes "integer_field ff"
  shows "integer_field (strike H cf ff)" "field_count (strike H cf ff) = field_count ff"
    "sim_field_scalar_domain (Some (strike H cf ff)) = sim_field_scalar_domain (Some ff)"
    "f_element_size (strike H cf ff) = f_element_size ff" "f_layout (strike H cf ff) = f_layout ff"
proof -
  show d: "sim_field_scalar_domain (Some (strike H cf ff)) = sim_field_scalar_domain (Some ff)"
    by (simp add: strike_def sim_field_scalar_domain_def sim_scalar_domain_from_field_def sim_field_representation_def
        sim_field_is_initialized_def Let_def)
  have "field_ok (strike H cf ff)"
    using assms
    by (auto simp: integer_field_def strike_def field_ok_def field_storage_ok_def field_shape_def field_metadata_ok_def
        sim_field_representation_def sim_field_is_initialized_def)
  then show "integer_field (strike H cf ff)"
    using assms d by (simp add: integer_field_def strike_def)
  show "field_count (strike H cf ff) = field_count ff" "f_element_size (strike H cf ff) = f_element_size ff"
    "f_layout (strike H cf ff) = f_layout ff"
    by (simp_all add: strike_def field_count_def)
qed

lemma strike_strike:
  assumes "integer_field ff"
  shows "strike H cf (strike G cf ff) = strike (\<lambda>z. G z \<or> H z) cf ff"
proof -
  note ff = strike_fields [OF assms, of G cf]
  have "strike H cf (strike G cf ff) = (strike G cf ff)\<lparr>f_data :=
      Some (cleared (flag_width ff) (\<lambda>i. H (field_int cf i)) (the (f_data (strike G cf ff))))\<rparr>"
    using strike_integer [OF ff(1), of H cf] ff(3) by (simp add: flag_width_def)
  then show ?thesis
    unfolding strike_integer [OF assms] by (simp add: cleared_cleared disj_commute)
qed

lemma strike_nothing: "f_data ff \<noteq> None \<Longrightarrow> strike (\<lambda>z. False) cf ff = ff"
  by (cases "f_data ff") (simp_all add: strike_def)

lemma set_field_lookup:
  "j < length (w_fields (cx_world c)) \<Longrightarrow> sim_context_field (set_field j f c) j = Some f"
  "i \<noteq> j \<Longrightarrow> sim_context_field (set_field j f c) i = sim_context_field c i"
  "set_field j g (set_field j f c) = set_field j g c"
  by (simp_all add: sim_context_field_def set_field_def)

lemma lookup_length: "sim_context_field c i = Some f \<Longrightarrow> i < length (w_fields (cx_world c)) \<and> w_fields (cx_world c) ! i = f"
  by (auto simp: sim_context_field_def split: if_splits)

lemma marks_in_turn:
  assumes "sim_context_field c i = Some cf" "sim_context_field c j = Some ff" "i \<noteq> j"
    and "integer_field cf" "integer_field ff" "field_count cf = field_count ff"
    and "\<forall>p \<in> set ps. segmented_sieve_mark_prime_to_domain_raw p (sim_field_scalar_domain (Some cf)) \<noteq> None"
  shows "fold (\<lambda>p c. snd (segmented_sieve_mark_apply \<lparr>sm_candidate_field = i, sm_flags_field = j, sm_prime = p\<rparr> c)) ps c =
    set_field j (strike (\<lambda>z. \<exists>p \<in> set ps. struck (uint p) z) cf ff) c"
  using assms(7)
proof (induction ps rule: rev_induct)
  case Nil
  have "f_data ff \<noteq> None" by (rule integer_field_facts [OF assms(5)]) simp
  moreover have "set_field j ff c = c" using lookup_length [OF assms(2)] by (auto simp: set_field_def)
  ultimately show ?case by (simp add: strike_nothing)
next
  case (snoc p ps)
  let ?G = "\<lambda>z. \<exists>p \<in> set ps. struck (uint p) z"
  let ?c = "set_field j (strike ?G cf ff) c" and ?ff = "strike ?G cf ff"
  let ?conf = "\<lparr>sm_candidate_field = i, sm_flags_field = j, sm_prime = p\<rparr>"
  note ff = strike_fields [OF assms(5), of ?G cf]
  have raw: "segmented_sieve_mark_prime_to_domain_raw (sm_prime ?conf) (sim_field_scalar_domain (Some cf)) \<noteq> None"
    using snoc.prems by simp
  have look: "sim_context_field ?c i = Some cf" "sim_context_field ?c j = Some ?ff"
    using set_field_lookup(1,2) lookup_length [OF assms(2)] assms(1,3) by simp_all
  have exact: "sim_operator_domain_is_exact_integer (sim_field_scalar_domain (Some f))" if "integer_field f" for f
    using that by (simp add: integer_field_def)
  have count: "sim_field_element_count (f_layout cf) = sim_field_element_count (f_layout ?ff)"
    using assms(6) ff(5) by (simp add: field_count_def word_unat_eq_iff)
  have valid: "segmented_sieve_mark_validate_fields (Some cf) (Some ?ff) ?conf = SIM_RESULT_OK"
    using count raw exact [OF assms(4)] exact [OF ff(1)] not_complex_integer [OF assms(4)] not_complex_integer [OF ff(1)]
    by (simp add: segmented_sieve_mark_validate_fields_def segmented_sieve_mark_flag_domain_supported_def)
  have flag: "flag_field ?ff" using ff(1) by (simp add: flag_field_def)
  have "snd (segmented_sieve_mark_apply ?conf ?c) = set_field j (strike (struck (uint p)) cf ?ff) ?c"
    using mark_apply_exact [of ?c ?conf cf ?ff, OF _ _ assms(4) flag _ raw valid] look ff(2) assms(6) by simp
  also have "\<dots> = set_field j (strike (\<lambda>z. \<exists>q \<in> set (ps @ [p]). struck (uint q) z) cf ff) c"
    unfolding strike_strike [OF assms(5)] set_field_lookup(3)
    by (rule arg_cong [where f = "\<lambda>H. set_field j (strike H cf ff) c"]) auto
  finally show ?case using snoc by simp
qed

text \<open>
  C18. A step of the batch operator, by its strided path or its direct one, always returns, and leaves the
  context that the operators for the single primes of its field leave when they run one after the other.
\<close>

theorem sieve_batch_equals_marks:
  fixes s :: SimSegmentedSieveMarkBatchOperatorState
  defines "i \<equiv> sb_candidate_field (bs_config s)" and "j \<equiv> sb_flags_field (bs_config s)"
  assumes "sim_context_field c i = Some cf" "sim_context_field c (sb_primes_field (bs_config s)) = Some pf"
    "sim_context_field c j = Some ff" "i \<noteq> j"
    and "integer_field cf" "integer_field pf" "integer_field ff" "field_count cf = field_count ff" "batch_state_ok s"
    and "primes_accepted (sim_field_scalar_domain (Some cf)) pf" "malloc_ok heap (field_count pf * 8)"
  shows "\<exists>s'. batch_state_ok s' \<and> bs_config s' = bs_config s \<and>
    segmented_sieve_mark_batch_apply heap fresh s c = Some (SIM_RESULT_OK, s',
      fold (\<lambda>p c. snd (segmented_sieve_mark_apply \<lparr>sm_candidate_field = i, sm_flags_field = j, sm_prime = p\<rparr> c))
        (field_primes pf) c)"
proof -
  obtain s' where s': "batch_state_ok s'" "bs_config s' = bs_config s"
    "segmented_sieve_mark_batch_apply heap fresh s c =
       Some (SIM_RESULT_OK, s', set_field j (strike (batch_struck pf) cf ff) c)"
    using batch_apply_exact [of c s cf pf ff heap fresh] assms by (auto simp: i_def j_def)
  note primes = field_primes_exact [OF assms(8,12)]
  have "(\<lambda>z. \<exists>p \<in> set (field_primes pf). struck (uint p) z) = batch_struck pf"
    by (rule ext) (rule primes(2))
  then have "fold (\<lambda>p c. snd (segmented_sieve_mark_apply \<lparr>sm_candidate_field = i, sm_flags_field = j, sm_prime = p\<rparr> c))
      (field_primes pf) c = set_field j (strike (batch_struck pf) cf ff) c"
    using marks_in_turn [OF assms(3,5,6,7,9,10), of "field_primes pf"] primes(1) by simp
  then show ?thesis using s' by auto
qed

text \<open>The state of an operator that has just been created.\<close>

definition sieve_state :: SimSegmentedSieveMarkBatchOperatorState where
  "sieve_state = \<lparr>bs_config = \<lparr>sb_candidate_field = 0, sb_primes_field = Suc 0, sb_flags_field = 2\<rparr>,
     bs_prime_cache = [], bs_prime_values = [], bs_prime_cache_capacity = 0\<rparr>"

lemma below_six: "i < 6 \<Longrightarrow> i \<in> {0, 1, 2, 3, 4, 5 :: nat}" by auto

lemma sieve_primes:
  "primes_accepted (sim_field_scalar_domain (Some (u8_field [2, 3, 4, 5, 6, 9]))) (u8_field [2, 3, 2, 3, 2, 3])"
proof -
  have "segmented_sieve_mark_prime_to_domain_raw p sim_scalar_domain_u8 \<noteq> None" if "p = 2 \<or> p = 3" for p
    using that
    by (auto simp: segmented_sieve_mark_prime_to_domain_raw_def sim_operator_integer_raw_from_unsigned_def
        sim_operator_domain_is_exact_integer_def sim_scalar_domain_is_integer_def scalar_domain_consts)
  then show ?thesis
    using u8_field_ok by (auto simp: primes_accepted_def u8_field_int dest!: below_six)
qed

theorem sieve_batch_equals_marks_witness:
  "\<exists>s'. segmented_sieve_mark_batch_apply granted (\<lambda>i. 0) sieve_state sieve_context = Some (SIM_RESULT_OK, s',
     fold (\<lambda>p c. snd (segmented_sieve_mark_apply \<lparr>sm_candidate_field = 0, sm_flags_field = 2, sm_prime = p\<rparr> c))
       [2, 3, 2, 3, 2, 3] sieve_context)"
proof -
  let ?p = "u8_field [2, 3, 2, 3, 2, 3]"
  have primes: "field_primes ?p = [2, 3, 2, 3, 2, 3]"
    using u8_field_ok(2) [of "[2, 3, 2, 3, 2, 3]"] by (simp add: field_primes_def u8_field_int upt_rec)
  have state: "batch_state_ok sieve_state" by (simp add: batch_state_ok_def sieve_state_def)
  have heap: "malloc_ok granted (field_count ?p * 8)" by (simp add: malloc_ok_def granted_def)
  show ?thesis
    using sieve_batch_equals_marks [of sieve_context sieve_state "u8_field [2, 3, 4, 5, 6, 9]" ?p
        "u8_field [1, 1, 1, 1, 1, 1]", OF _ _ _ _ u8_field_ok(1) u8_field_ok(1) u8_field_ok(1) _ state sieve_primes heap,
        of "\<lambda>i. 0"]
    by (auto simp: sieve_state_def u8_field_ok(2) primes)
qed

section \<open>The primes that remain\<close>

definition prime_number :: "int \<Rightarrow> bool" where
  "prime_number z \<longleftrightarrow> 2 \<le> z \<and> (\<forall>d. 1 < d \<and> d dvd z \<longrightarrow> d = z)"

lemma small_prime_divisor:
  assumes "2 \<le> z" "\<not> prime_number z"
  shows "\<exists>q. prime_number q \<and> q * q \<le> z \<and> q dvd z \<and> q < z"
proof -
  define n where "n = (LEAST d. 1 < d \<and> int d dvd z)"
  have "1 < nat z \<and> int (nat z) dvd z" using assms(1) by simp
  then have n: "1 < n" "int n dvd z" and least: "\<And>d. 1 < d \<Longrightarrow> int d dvd z \<Longrightarrow> n \<le> d"
    unfolding n_def by (metis (mono_tags, lifting) LeastI Least_le)+
  have least': "int n \<le> d" if "1 < d" "d dvd z" for d
    using least [of "nat d"] that by simp
  obtain d where d: "1 < d" "d dvd z" "d \<noteq> z" using assms by (auto simp: prime_number_def)
  then have "d < z" using assms(1) zdvd_imp_le [of d z] by simp
  then have less: "int n < z" using least' [OF d(1,2)] by simp
  obtain e where e: "z = int n * e" using n(2) by (rule dvdE)
  have "1 < e" using e less n(1) assms(1)
    by (metis mult.right_neutral mult_less_cancel_left_pos of_nat_0_less_iff less_trans zero_less_one)
  then have "int n \<le> e" using least' [of e] e by simp
  then have "int n * int n \<le> z" unfolding e using n(1) by (intro mult_left_mono) simp_all
  moreover have "prime_number (int n)"
    unfolding prime_number_def
  proof (intro conjI allI impI)
    fix d
    assume d: "1 < d \<and> d dvd int n"
    then have "int n \<le> d" using least' n(2) dvd_trans by blast
    moreover have "d \<le> int n" using d n(1) by (intro zdvd_imp_le) simp_all
    ultimately show "d = int n" by simp
  qed (use n(1) in simp)
  ultimately show ?thesis using n(2) less by blast
qed

lemma struck_composite: "2 \<le> p \<Longrightarrow> struck p z \<Longrightarrow> \<not> prime_number z"
  by (auto simp: struck_def prime_number_def intro!: exI [of _ p])

lemma flag_set_strike:
  assumes "integer_field ff" "i < field_count ff"
  shows "flag_set (strike H cf ff) i \<longleftrightarrow> flag_set ff i \<and> \<not> H (field_int cf i)"
proof -
  let ?d = "sim_field_scalar_domain (Some ff)"
  obtain bytes where ff: "integer_domain ?d" "f_data ff = Some bytes" "int_bytes ?d * field_count ff = length bytes"
    by (rule integer_field_facts [OF assms(1)])
  have "int_bytes ?d * i + int_bytes ?d \<le> length bytes" using element_bound [OF assms(2), of "int_bytes ?d"] ff(3) by simp
  moreover have exact: "sim_operator_domain_is_exact_integer ?d" using assms(1) by (simp add: integer_field_def)
  moreover have "field_int (strike H cf ff) i = stored_int ?d (cleared (int_bytes ?d) (\<lambda>i. H (field_int cf i)) bytes) i"
    using exact ff(2) strike_fields(3) [OF assms(1), of H cf]
    by (simp add: field_int_def) (simp add: strike_integer [OF assms(1)] flag_width_def field_int_def)
  ultimately show ?thesis
    using strike_fields(3) [OF assms(1), of H cf] ff(2) stored_int_cleared [OF ff(1), of i bytes]
    by (simp add: flag_set_def field_int_def)
qed

text \<open>
  C23. When the candidates are at least two and the field of primes holds the primes up to the square root
  of every candidate, a step of the batch operator leaves set exactly those set flags whose candidate is a
  prime number.
\<close>

theorem sieve_leaves_primes:
  fixes s :: SimSegmentedSieveMarkBatchOperatorState
  defines "conf \<equiv> bs_config s"
  assumes "sim_context_field c (sb_candidate_field conf) = Some cf" "sim_context_field c (sb_primes_field conf) = Some pf"
    "sim_context_field c (sb_flags_field conf) = Some ff"
    and "integer_field cf" "integer_field pf" "integer_field ff" "field_count cf = field_count ff" "batch_state_ok s"
    and "primes_accepted (sim_field_scalar_domain (Some cf)) pf" "malloc_ok heap (field_count pf * 8)"
    and "\<forall>i < field_count cf. 2 \<le> field_int cf i \<and>
      (\<forall>q. prime_number q \<and> q * q \<le> field_int cf i \<longrightarrow> (\<exists>j < field_count pf. field_int pf j = q))"
  shows "\<exists>s' c' ff'. segmented_sieve_mark_batch_apply heap fresh s c = Some (SIM_RESULT_OK, s', c') \<and>
    sim_context_field c' (sb_flags_field conf) = Some ff' \<and>
    (\<forall>i < field_count cf. flag_set ff' i \<longleftrightarrow> flag_set ff i \<and> prime_number (field_int cf i))"
proof -
  let ?ff = "strike (batch_struck pf) cf ff"
  obtain s' where s': "segmented_sieve_mark_batch_apply heap fresh s c =
       Some (SIM_RESULT_OK, s', set_field (sb_flags_field conf) ?ff c)"
    by (rule batch_apply_exact [of c s cf pf ff heap fresh, folded conf_def, OF assms(2-9)]) (use assms(10,11) in auto)
  have "batch_struck pf (field_int cf i) \<longleftrightarrow> \<not> prime_number (field_int cf i)" if i: "i < field_count cf" for i
  proof
    assume "batch_struck pf (field_int cf i)"
    then show "\<not> prime_number (field_int cf i)"
      using assms(10) struck_composite by (auto simp: batch_struck_def primes_accepted_def)
  next
    assume "\<not> prime_number (field_int cf i)"
    then obtain q where "prime_number q" "q * q \<le> field_int cf i" "struck q (field_int cf i)"
      using small_prime_divisor [of "field_int cf i"] assms(12) i unfolding struck_def by blast
    then show "batch_struck pf (field_int cf i)" using assms(12) i by (auto simp: batch_struck_def)
  qed
  moreover have "sim_context_field (set_field (sb_flags_field conf) ?ff c) (sb_flags_field conf) = Some ?ff"
    using set_field_lookup(1) lookup_length [OF assms(4)] by simp
  ultimately show ?thesis
    using s' flag_set_strike [OF assms(7), of _ "batch_struck pf" cf] assms(8) by auto
qed

theorem sieve_leaves_primes_witness:
  "\<exists>s' c' ff'. segmented_sieve_mark_batch_apply granted (\<lambda>i. 0) sieve_state sieve_context = Some (SIM_RESULT_OK, s', c') \<and>
    sim_context_field c' 2 = Some ff' \<and> flag_set ff' 0 \<and> flag_set ff' 3 \<and> \<not> flag_set ff' 2 \<and> \<not> flag_set ff' 5"
proof -
  let ?c = "u8_field [2, 3, 4, 5, 6, 9]" and ?p = "u8_field [2, 3, 2, 3, 2, 3]" and ?f = "u8_field [1, 1, 1, 1, 1, 1]"
  have state: "batch_state_ok sieve_state" by (simp add: batch_state_ok_def sieve_state_def)
  have heap: "malloc_ok granted (field_count ?p * 8)" by (simp add: malloc_ok_def granted_def)
  have counts: "field_count ?c = 6" "field_count ?p = 6" "field_count ?f = 6" by (simp_all add: u8_field_ok(2))
  have q: "q = 2 \<or> q = 3" if "prime_number q" "q * q \<le> 9" for q
  proof -
    have "q < 4" using that(2) mult_mono [of 4 q 4 q] by fastforce
    then show ?thesis using that(1) by (auto simp: prime_number_def)
  qed
  have enough: "2 \<le> field_int ?c i \<and>
      (\<forall>q. prime_number q \<and> q * q \<le> field_int ?c i \<longrightarrow> (\<exists>j < field_count ?p. field_int ?p j = q))" if "i < 6" for i
  proof -
    have c: "2 \<le> field_int ?c i \<and> field_int ?c i \<le> 9" using below_six [OF that] by (auto simp: u8_field_int)
    have "field_int ?p 0 = 2" "field_int ?p 1 = 3" by (simp_all add: u8_field_int)
    then have two: "\<exists>j < field_count ?p. field_int ?p j = q" if "q = 2 \<or> q = 3" for q
      using that counts(2) by (auto intro: exI [of _ "0 :: nat"] exI [of _ "1 :: nat"])
    have "\<exists>j < field_count ?p. field_int ?p j = q" if "prime_number q" "q * q \<le> field_int ?c i" for q
      using that(2) c by (intro two q [OF that(1)]) linarith
    then show ?thesis using c by blast
  qed
  have set: "flag_set ?f i" if "i < 6" for i
    using below_six [OF that] u8_field_ok(1,4) [of "[1, 1, 1, 1, 1, 1]"]
    by (auto simp: flag_set_def integer_field_def u8_field_int)
  have prime: "prime_number (field_int ?c 0)" "prime_number (field_int ?c 3)"
    "\<not> prime_number (field_int ?c 2)" "\<not> prime_number (field_int ?c 5)"
  proof -
    have "d = 5" if "1 < d" "d dvd 5" for d :: int
    proof -
      have "d \<le> 5" using that by (intro zdvd_imp_le) simp_all
      then have "d \<in> {2, 3, 4, 5}" using that(1) by auto
      then show ?thesis using that(2) by auto
    qed
    moreover have "d = 2" if "1 < d" "d dvd 2" for d :: int
      using zdvd_imp_le [OF that(2)] that(1) by simp
    ultimately show "prime_number (field_int ?c 0)" "prime_number (field_int ?c 3)"
      by (auto simp: u8_field_int prime_number_def)
    show "\<not> prime_number (field_int ?c 2)" "\<not> prime_number (field_int ?c 5)"
      using struck_composite [of 2 4] struck_composite [of 3 9] by (simp_all add: u8_field_int struck_def)
  qed
  obtain s' c' ff' where "segmented_sieve_mark_batch_apply granted (\<lambda>i. 0) sieve_state sieve_context = Some (SIM_RESULT_OK, s', c')"
    "sim_context_field c' 2 = Some ff'" "\<forall>i < 6. flag_set ff' i \<longleftrightarrow> flag_set ?f i \<and> prime_number (field_int ?c i)"
    using sieve_leaves_primes [of sieve_context sieve_state ?c ?p ?f, OF _ _ _ u8_field_ok(1) u8_field_ok(1) u8_field_ok(1) _ state
        sieve_primes heap, of "\<lambda>i. 0"] enough
    by (auto simp: sieve_state_def counts)
  then show ?thesis using set prime by auto
qed

end
