(* ===== verification/Operator_Split.thy ===== *)
theory Operator_Split
  imports Operator_Utils Context_Execute
begin

text \<open>
  Split operators, \<^verbatim>\<open>core/src/operator_split.c\<close>: a descriptor is registered as one operator per substep,
  and all of them refer to one shared block that the last of them to be destroyed releases. The blocks are
  modelled with their addresses, so that a use of a released block and a second release are visible:
  the outcome \<open>None\<close> of a function is a use of a block that is not live. An array with its count is a list.
\<close>

unbundle bit_operations_syntax

section \<open>Descriptors\<close>

definition SIM_ACCESS_READ :: u8 where "SIM_ACCESS_READ = 0"
definition SIM_ACCESS_WRITE :: u8 where "SIM_ACCESS_WRITE = 1"
definition SIM_ACCESS_RW :: u8 where "SIM_ACCESS_RW = 2"

record SimSplitAccess =
  ac_port :: u16
  ac_mode :: u8

record SimSplitSubstep =
  ss_name :: "string option"
  ss_fn :: nat
  ss_accesses :: "SimSplitAccess list"
  ss_dt_scale :: f64
  ss_barrier_after :: bool
  ss_error_measure :: "nat option"
  ss_required_features :: u64

record SimSplitPort =
  pt_context_field_index :: nat
  pt_require_complex :: bool

record SimSplitScratchRequest =
  rq_bytes_per_worker :: size_t
  rq_alignment :: size_t

record SimSplitDescriptor =
  de_name :: "string option"
  de_ports :: "SimSplitPort list"
  de_substeps :: "SimSplitSubstep list"
  de_state :: "nat option"
  de_symbolic :: "nat option"
  de_save_state :: "nat option"
  de_restore_state :: "nat option"
  de_destroy :: "nat option"
  de_info :: SimOperatorInfo
  de_config :: SimOperatorConfig
  de_catalog_metadata :: "nat option"
  de_scratch :: SimSplitScratchRequest

text \<open>The buffer is that of the calling thread.\<close>

record SimSplitShared =
  sh_desc :: SimSplitDescriptor
  sh_substep_reads :: "u64 list"
  sh_substep_writes :: "u64 list"
  sh_refcount :: nat
  sh_scratch_size :: size_t
  sh_scratch_alignment :: size_t
  sh_scratch_tls_ready :: bool
  sh_scratch_buffer :: bool
  sh_scratch_accounted :: bool

text \<open>
  The live blocks. A reference holds the index of its substep and the address of the shared block; the
  magic numbers of the sources tell the three kinds apart.
\<close>

datatype split_object =
    Split_Ref nat nat
  | Split_Shared SimSplitShared
  | Other_Object

type_synonym split_memory = "nat \<Rightarrow> split_object option"

definition shared_at :: "split_memory \<Rightarrow> nat \<Rightarrow> SimSplitShared option" where
  "shared_at mem a = (case mem a of Some (Split_Shared s) \<Rightarrow> Some s | _ \<Rightarrow> None)"

definition sizeof_SimSplitShared :: nat where "sizeof_SimSplitShared = 80"
definition sizeof_SimSplitDescriptor :: nat where "sizeof_SimSplitDescriptor = 456"
definition sizeof_SimSplitSubstep :: nat where "sizeof_SimSplitSubstep = 64"
definition sizeof_SimSplitPort :: nat where "sizeof_SimSplitPort = 16"
definition sizeof_SimSplitAccess :: nat where "sizeof_SimSplitAccess = 4"
definition sizeof_SimSplitOperatorRef :: nat where "sizeof_SimSplitOperatorRef = 24"

text \<open>The functions of the file that it registers as callbacks.\<close>

record split_functions =
  fn_eval :: nat
  fn_destroy :: nat
  fn_save_state :: nat
  fn_restore_state :: nat
  fn_symbolic :: nat

section \<open>Lookups\<close>

text \<open>The address of the shared block, not yet read, and the substep; the inner \<open>None\<close> is \<^verbatim>\<open>NULL\<close>.\<close>

definition sim_split_shared_from_userdata :: "split_memory \<Rightarrow> nat option \<Rightarrow> (nat \<times> nat) option option" where
  "sim_split_shared_from_userdata mem userdata =
     (case userdata of
        None \<Rightarrow> Some None
      | Some a \<Rightarrow>
          (case mem a of
             None \<Rightarrow> None
           | Some (Split_Ref i sh) \<Rightarrow> Some (Some (sh, i))
           | Some (Split_Shared s) \<Rightarrow> Some (Some (a, 0))
           | Some Other_Object \<Rightarrow> Some None))"

definition sim_split_release_scratch_budget :: "SimSplitShared \<Rightarrow> SimContext \<Rightarrow> SimSplitShared \<times> SimContext" where
  "sim_split_release_scratch_budget s c =
     (if \<not> sh_scratch_accounted s then (s, c)
      else (s\<lparr>sh_scratch_accounted := False\<rparr>,
            if sh_scratch_size s > 0 then sim_context_release_scratch c (sh_scratch_size s) else c))"

definition sim_split_append_unique :: "nat \<Rightarrow> nat \<Rightarrow> nat list \<Rightarrow> nat list option" where
  "sim_split_append_unique capacity val array =
     (if length array > capacity then None
      else if val \<in> set array then Some array
      else if length array = capacity then None
      else Some (array @ [val]))"

section \<open>Copies of descriptors\<close>

definition sim_split_clone_descriptor :: "heap \<Rightarrow> SimSplitDescriptor \<Rightarrow> SimSplitDescriptor option" where
  "sim_split_clone_descriptor heap desc =
     (if \<not> calloc_ok heap 1 sizeof_SimSplitDescriptor then None
      else if de_ports desc \<noteq> [] \<and> \<not> calloc_ok heap (length (de_ports desc)) sizeof_SimSplitPort then None
      else if de_substeps desc = [] then Some desc
      else if \<not> calloc_ok heap (length (de_substeps desc)) sizeof_SimSplitSubstep then None
      else if list_ex (\<lambda>ss. ss_accesses ss \<noteq> [] \<and>
                \<not> calloc_ok heap (length (ss_accesses ss)) sizeof_SimSplitAccess) (de_substeps desc) then None
      else Some desc)"

section \<open>Evaluation\<close>

text \<open>
  What evaluation calls: \<open>se_fn\<close> is the callback of a substep with the memory \<open>'u\<close> of the callbacks,
  \<open>se_error\<close> the error measure; \<open>se_key\<close> and \<open>se_memalign\<close> say whether the thread key and the aligned
  block are granted.
\<close>

record 'u split_env =
  se_fpu :: fpu
  se_key :: bool
  se_memalign :: "size_t \<Rightarrow> size_t \<Rightarrow> bool"
  se_fn :: "nat \<Rightarrow> nat option \<Rightarrow> 'u \<Rightarrow> SimContext \<Rightarrow> nat \<Rightarrow> nat \<Rightarrow> f64 \<Rightarrow> bool \<Rightarrow> size_t \<Rightarrow> SimResult \<times> SimContext \<times> 'u"
  se_error :: "nat \<Rightarrow> nat option \<Rightarrow> 'u \<Rightarrow> f64"

definition sim_split_acquire_scratch :: "'u split_env \<Rightarrow> SimSplitShared \<Rightarrow> bool \<times> SimSplitShared" where
  "sim_split_acquire_scratch env s =
     (if sh_scratch_size s = 0 then (False, s)
      else if \<not> sh_scratch_tls_ready s \<and> \<not> se_key env then (False, s)
      else
        let s = s\<lparr>sh_scratch_tls_ready := True\<rparr>
        in if sh_scratch_buffer s then (True, s)
           else
             let alignment = (if sh_scratch_alignment s > 0 then sh_scratch_alignment s else 64);
                 alignment = (if alignment < 8 then 8 else alignment)
             in if \<not> se_memalign env alignment (sh_scratch_size s) then (False, s)
                else (True, s\<lparr>sh_scratch_buffer := True\<rparr>))"

definition f64_trillionth :: f64 where "f64_trillionth = 0x3D719799812DEA11"

text \<open>
  The result with the memory of the blocks, the context, the memory of the callbacks and the feedback for
  the integrators. \<open>self\<close> is the index of the operator.
\<close>

definition sim_split_eval ::
  "'u split_env \<Rightarrow> split_memory \<Rightarrow> 'u \<Rightarrow> (nat \<Rightarrow> split_feedback) \<Rightarrow> SimContext \<Rightarrow> nat \<Rightarrow> nat option \<Rightarrow>
     (SimResult \<times> split_memory \<times> SimContext \<times> 'u \<times> (nat \<Rightarrow> split_feedback)) option" where
  "sim_split_eval env mem u fbs c self userdata =
     (case sim_split_shared_from_userdata mem userdata of
        None \<Rightarrow> None
      | Some None \<Rightarrow> Some (SIM_RESULT_INVALID_ARGUMENT, mem, c, u, fbs)
      | Some (Some (sh, substep_index)) \<Rightarrow>
          (case shared_at mem sh of
             None \<Rightarrow> None
           | Some s \<Rightarrow>
               let desc = sh_desc s
               in if substep_index \<ge> length (de_substeps desc)
                  then Some (SIM_RESULT_INVALID_STATE, mem, c, u, fbs)
                  else
                    let sub = de_substeps desc ! substep_index;
                        base_dt = sim_context_timestep (Some c);
                        base_dt = (if f64_le base_dt f64_zero then f64_trillionth else base_dt);
                        dt_sub = fp_mul (se_fpu env) base_dt
                                   (if f64_less f64_zero (ss_dt_scale sub) then ss_dt_scale sub else f64_one);
                        (scratch, s) = sim_split_acquire_scratch env s;
                        mem = mem(sh \<mapsto> Split_Shared s);
                        (r, c, u) = se_fn env (ss_fn sub) (de_state desc) u c self substep_index dt_sub scratch
                                      (sh_scratch_size s)
                    in (case (de_state desc, ss_error_measure sub) of
                          (Some st, Some em) \<Rightarrow>
                            Some (r, mem, c, u, sim_split_notify_integrator (se_fpu env) c dt_sub
                                    (se_error env em (Some st) u) fbs)
                        | _ \<Rightarrow> Some (r, mem, c, u, fbs))))"

text \<open>\<open>hook\<close> is the snapshot or the restore callback of the descriptor, called with the shared state.\<close>

definition run_state_hook ::
  "split_memory \<Rightarrow> (SimSplitDescriptor \<Rightarrow> nat option) \<Rightarrow> operator_callback \<Rightarrow> SimContext \<Rightarrow> nat \<Rightarrow> nat option \<Rightarrow>
     (SimResult \<times> SimContext) option" where
  "run_state_hook mem hook call c self userdata =
     (case sim_split_shared_from_userdata mem userdata of
        None \<Rightarrow> None
      | Some None \<Rightarrow> Some (SIM_RESULT_OK, c)
      | Some (Some (sh, _)) \<Rightarrow>
          (case shared_at mem sh of
             None \<Rightarrow> None
           | Some s \<Rightarrow>
               (case hook (sh_desc s) of
                  None \<Rightarrow> Some (SIM_RESULT_OK, c)
                | Some f \<Rightarrow> Some (call f (de_state (sh_desc s)) c self))))"

definition sim_split_save_state ::
  "split_memory \<Rightarrow> operator_callback \<Rightarrow> SimContext \<Rightarrow> nat \<Rightarrow> nat option \<Rightarrow> (SimResult \<times> SimContext) option" where
  "sim_split_save_state mem call c self userdata = run_state_hook mem de_save_state call c self userdata"

definition sim_split_restore_state ::
  "split_memory \<Rightarrow> operator_callback \<Rightarrow> SimContext \<Rightarrow> nat \<Rightarrow> nat option \<Rightarrow> (SimResult \<times> SimContext) option" where
  "sim_split_restore_state mem call c self userdata = run_state_hook mem de_restore_state call c self userdata"

section \<open>Destruction\<close>

text \<open>The calls of the destructor of the descriptor, the memory and the context.\<close>

definition sim_split_destroy ::
  "split_memory \<Rightarrow> SimContext \<Rightarrow> nat option \<Rightarrow> (destroy_call list \<times> split_memory \<times> SimContext) option" where
  "sim_split_destroy mem c userdata =
     (case sim_split_shared_from_userdata mem userdata of
        None \<Rightarrow> None
      | Some None \<Rightarrow> Some ([], mem, c)
      | Some (Some (sh, _)) \<Rightarrow>
          let mem = (case userdata of
                       Some a \<Rightarrow> (case mem a of Some (Split_Ref _ _) \<Rightarrow> mem(a := None) | _ \<Rightarrow> mem)
                     | None \<Rightarrow> mem)
          in (case shared_at mem sh of
                None \<Rightarrow> None
              | Some s \<Rightarrow>
                  let s = s\<lparr>sh_refcount := sh_refcount s - 1\<rparr>
                  in if sh_refcount s > 0 then Some ([], mem(sh \<mapsto> Split_Shared s), c)
                     else
                       let calls = (case de_destroy (sh_desc s) of None \<Rightarrow> [] | Some f \<Rightarrow> [(f, de_state (sh_desc s))]);
                           (s, c) = sim_split_release_scratch_budget s c
                       in Some (calls, mem(sh := None), c)))"

section \<open>Field accesses\<close>

text \<open>The masks and the field lists of a substep.\<close>

record split_access_sets =
  as_rmask :: u64
  as_wmask :: u64
  as_reads :: "nat list"
  as_writes :: "nat list"

definition no_accesses :: split_access_sets where
  "no_accesses = \<lparr>as_rmask = 0, as_wmask = 0, as_reads = [], as_writes = []\<rparr>"

definition note_access ::
  "SimSplitDescriptor \<Rightarrow> SimSplitAccess \<Rightarrow> split_access_sets \<Rightarrow> SimResult + split_access_sets" where
  "note_access desc access s =
     (let port = unat (ac_port access);
          port_count = length (de_ports desc);
          mode = ac_mode access
      in if port \<ge> port_count then Inl SIM_RESULT_INVALID_ARGUMENT
         else
           let field_index = pt_context_field_index (de_ports desc ! port);
               b = push_bit field_index 1;
               s = (if field_index < 64 then
                      if mode = SIM_ACCESS_READ then s\<lparr>as_rmask := as_rmask s OR b\<rparr>
                      else if mode = SIM_ACCESS_WRITE then s\<lparr>as_wmask := as_wmask s OR b\<rparr>
                      else s\<lparr>as_rmask := as_rmask s OR b, as_wmask := as_wmask s OR b\<rparr>
                    else s);
               reads = (if mode = SIM_ACCESS_READ \<or> mode = SIM_ACCESS_RW
                        then sim_split_append_unique port_count field_index (as_reads s) else Some (as_reads s));
               writes = (if mode = SIM_ACCESS_WRITE \<or> mode = SIM_ACCESS_RW
                         then sim_split_append_unique port_count field_index (as_writes s) else Some (as_writes s))
           in (case (reads, writes) of
                 (Some r, Some w) \<Rightarrow> Inr (s\<lparr>as_reads := r, as_writes := w\<rparr>)
               | _ \<Rightarrow> Inl SIM_RESULT_OUT_OF_MEMORY))"

text \<open>The barrier ignores a failure to append.\<close>

definition barrier_port :: "nat \<Rightarrow> SimSplitPort \<Rightarrow> split_access_sets \<Rightarrow> split_access_sets" where
  "barrier_port port_count p s =
     (let field_index = pt_context_field_index p;
          b = push_bit field_index 1;
          s = (if field_index < 64 then s\<lparr>as_rmask := as_rmask s OR b, as_wmask := as_wmask s OR b\<rparr> else s)
      in s\<lparr>as_reads := (case sim_split_append_unique port_count field_index (as_reads s) of None \<Rightarrow> as_reads s | Some r \<Rightarrow> r),
           as_writes := (case sim_split_append_unique port_count field_index (as_writes s) of None \<Rightarrow> as_writes s | Some w \<Rightarrow> w)\<rparr>)"

definition substep_accesses :: "SimSplitDescriptor \<Rightarrow> SimSplitSubstep \<Rightarrow> SimResult + split_access_sets" where
  "substep_accesses desc ss =
     (case fold_sum (note_access desc) (ss_accesses ss) no_accesses of
        Inl e \<Rightarrow> Inl e
      | Inr s \<Rightarrow>
          Inr (if ss_barrier_after ss then fold (barrier_port (length (de_ports desc))) (de_ports desc) s else s))"

section \<open>Registration\<close>

definition check_port :: "SimContext \<Rightarrow> SimSplitPort \<Rightarrow> SimResult" where
  "check_port c p =
     (case sim_context_field c (pt_context_field_index p) of
        None \<Rightarrow> SIM_RESULT_INVALID_ARGUMENT
      | Some f \<Rightarrow>
          if pt_require_complex p \<and> \<not> sim_field_is_complex (Some f) then SIM_RESULT_TYPE_MISMATCH else SIM_RESULT_OK)"

definition check_ports :: "SimContext \<Rightarrow> SimSplitPort list \<Rightarrow> SimResult" where
  "check_ports c ports =
     (case dropWhile (\<lambda>r. r = SIM_RESULT_OK) (map (check_port c) ports) of [] \<Rightarrow> SIM_RESULT_OK | r # _ \<Rightarrow> r)"

definition substep_info :: "split_functions \<Rightarrow> SimSplitDescriptor \<Rightarrow> SimOperatorInfo" where
  "substep_info fns desc =
     (let info = de_info desc;
          info = (if oi_abstract_id info = None then info\<lparr>oi_abstract_id := de_name desc\<rparr> else info)
      in if oi_abstract_id_fn info = None \<and> de_symbolic desc \<noteq> None
         then info\<lparr>oi_abstract_id_fn := Some (fn_symbolic fns)\<rparr> else info)"

definition substep_descriptor ::
  "split_functions \<Rightarrow> SimSplitDescriptor \<Rightarrow> nat \<Rightarrow> split_access_sets \<Rightarrow> nat list \<Rightarrow> nat \<Rightarrow> SimOperatorDescriptor" where
  "substep_descriptor fns desc i acc deps ref =
     \<lparr>dc_name = Some (take SIM_OPERATOR_NAME_MAX (the (de_name desc) @ ''#'' @ decimal i)),
      dc_config = de_config desc,
      dc_evaluate = Some (fn_eval fns), dc_destroy = Some (fn_destroy fns), dc_userdata = Some ref,
      dc_dependencies = deps, dc_kernel = None, dc_info = substep_info fns desc,
      dc_read_mask = as_rmask acc, dc_write_mask = as_wmask acc,
      dc_read_indices = as_reads acc, dc_write_indices = as_writes acc,
      dc_required_features = ss_required_features (de_substeps desc ! i),
      dc_catalog_metadata = de_catalog_metadata desc,
      dc_save_state = (if de_save_state desc \<noteq> None then Some (fn_save_state fns) else None),
      dc_restore_state = (if de_restore_state desc \<noteq> None then Some (fn_restore_state fns) else None),
      dc_config_adapter = None, dc_graph_ir_view = None\<rparr>"

text \<open>
  What registration changes: the memory, the context, the counter of identifiers, the calls of the
  destructor, and the locals that hold the index of the previous substep and of the first one.
\<close>

record split_run =
  sr_memory :: split_memory
  sr_context :: SimContext
  sr_counter :: u64
  sr_calls :: "destroy_call list"
  sr_previous :: nat
  sr_first :: "nat option"
  sr_last :: "nat option"

text \<open>
  The clean-up of an early return: the shared block and its descriptor are released, the operators that
  are registered already are left as they are.
\<close>

definition abandon :: "nat \<Rightarrow> split_run \<Rightarrow> split_run option" where
  "abandon sh run =
     (case shared_at (sr_memory run) sh of
        None \<Rightarrow> None
      | Some s \<Rightarrow>
          (case sim_split_release_scratch_budget s (sr_context run) of
             (s, c) \<Rightarrow> Some (run\<lparr>sr_memory := (sr_memory run)(sh := None), sr_context := c\<rparr>)))"

definition give_up :: "SimResult \<Rightarrow> nat \<Rightarrow> split_run \<Rightarrow> (SimResult \<times> split_run) option" where
  "give_up result sh run = map_option (Pair result) (abandon sh run)"

text \<open>The calls of \<^verbatim>\<open>destroy\<close> that a failed registration has made.\<close>

fun run_destroyed :: "destroy_call list \<Rightarrow> split_run \<Rightarrow> split_run option" where
  "run_destroyed [] run = Some run"
| "run_destroyed ((f, userdata) # calls) run =
     (case sim_split_destroy (sr_memory run) (sr_context run) userdata of
        None \<Rightarrow> None
      | Some (made, mem, c) \<Rightarrow>
          run_destroyed calls (run\<lparr>sr_memory := mem, sr_context := c, sr_calls := sr_calls run @ made\<rparr>))"

definition free_block :: "nat \<Rightarrow> split_run \<Rightarrow> split_run option" where
  "free_block a run = (if sr_memory run a = None then None else Some (run\<lparr>sr_memory := (sr_memory run)(a := None)\<rparr>))"

text \<open>
  One substep; \<open>Inl\<close> is an early return. \<open>fresh\<close> is the address that \<^verbatim>\<open>calloc\<close> returns for the
  reference.
\<close>

definition register_substep ::
  "split_functions \<Rightarrow> heap \<Rightarrow> u64 \<Rightarrow> (nat \<Rightarrow> nat) \<Rightarrow> nat list \<Rightarrow> nat \<Rightarrow> nat \<Rightarrow> split_run \<Rightarrow>
     ((SimResult \<times> split_run) + split_run) option" where
  "register_substep fns heap epoch fresh dependencies sh i run =
     (let stop = (\<lambda>result run. map_option Inl (give_up result sh run))
      in case shared_at (sr_memory run) sh of
           None \<Rightarrow> None
         | Some s \<Rightarrow>
             let desc = sh_desc s; ss = de_substeps desc ! i; port_count = length (de_ports desc)
             in if port_count > 0 \<and> \<not> calloc_ok heap port_count 8 then stop SIM_RESULT_OUT_OF_MEMORY run
                else (case substep_accesses desc ss of
                  Inl e \<Rightarrow> stop e run
                | Inr acc \<Rightarrow>
                    let s = s\<lparr>sh_substep_reads := (sh_substep_reads s)[i := as_rmask acc],
                              sh_substep_writes := (sh_substep_writes s)[i := as_wmask acc]\<rparr>;
                        run = run\<lparr>sr_memory := (sr_memory run)(sh \<mapsto> Split_Shared s)\<rparr>
                    in if \<not> calloc_ok heap 1 sizeof_SimSplitOperatorRef then stop SIM_RESULT_OUT_OF_MEMORY run
                       else
                         let ref = fresh i;
                             run = run\<lparr>sr_memory := (sr_memory run)(ref \<mapsto> Split_Ref i sh)\<rparr>;
                             deps = (if i = 0 then dependencies else [sr_previous run]);
                             d = substep_descriptor fns desc i acc deps ref
                         in (case sim_context_register_operator heap epoch (sr_counter run) (sr_context run) (Some d) of
                               None \<Rightarrow> None
                             | Some (rn, c) \<Rightarrow>
                                 let run = run\<lparr>sr_context := c, sr_counter := rn_counter rn\<rparr>
                                 in if rn_result rn \<noteq> SIM_RESULT_OK then
                                      (case run_destroyed (rn_destroyed rn) run of
                                         None \<Rightarrow> None
                                       | Some run \<Rightarrow>
                                           (case free_block ref run of
                                              None \<Rightarrow> None
                                            | Some run \<Rightarrow> stop (rn_result rn) run))
                                    else
                                      let index = (case rn_index rn of None \<Rightarrow> sr_previous run | Some k \<Rightarrow> k)
                                      in Some (Inr (run\<lparr>sr_previous := index,
                                                        sr_first := (if i = 0 then Some index else sr_first run)\<rparr>)))))"

fun register_substeps ::
  "split_functions \<Rightarrow> heap \<Rightarrow> u64 \<Rightarrow> (nat \<Rightarrow> nat) \<Rightarrow> nat list \<Rightarrow> nat \<Rightarrow> nat list \<Rightarrow> split_run \<Rightarrow> (SimResult \<times> split_run) option" where
  "register_substeps fns heap epoch fresh dependencies sh [] run =
     Some (SIM_RESULT_OK, run\<lparr>sr_last := Some (sr_previous run)\<rparr>)"
| "register_substeps fns heap epoch fresh dependencies sh (i # is) run =
     (case register_substep fns heap epoch fresh dependencies sh i run of
        None \<Rightarrow> None
      | Some (Inl r) \<Rightarrow> Some r
      | Some (Inr run) \<Rightarrow> register_substeps fns heap epoch fresh dependencies sh is run)"

text \<open>
  \<open>fresh_shared\<close> is the address of the shared block. A previous index of \<^verbatim>\<open>(size_t) -1\<close> is never used.
\<close>

definition sim_split_register ::
  "split_functions \<Rightarrow> heap \<Rightarrow> u64 \<Rightarrow> u64 \<Rightarrow> nat \<Rightarrow> (nat \<Rightarrow> nat) \<Rightarrow> split_memory \<Rightarrow> SimContext \<Rightarrow>
     SimSplitDescriptor \<Rightarrow> nat list \<Rightarrow> (SimResult \<times> split_run) option" where
  "sim_split_register fns heap epoch counter fresh_shared fresh mem c desc dependencies =
     (let run = \<lparr>sr_memory = mem, sr_context = c, sr_counter = counter, sr_calls = [],
                 sr_previous = 2 ^ 64 - 1, sr_first = None, sr_last = None\<rparr>
      in if de_name desc = None \<or> de_substeps desc = [] then Some (SIM_RESULT_INVALID_ARGUMENT, run)
         else if \<not> calloc_ok heap 1 sizeof_SimSplitShared then Some (SIM_RESULT_OUT_OF_MEMORY, run)
         else (case sim_split_clone_descriptor heap desc of
                 None \<Rightarrow> Some (SIM_RESULT_OUT_OF_MEMORY, run)
               | Some copy \<Rightarrow>
                   let n = length (de_substeps copy);
                       size = rq_bytes_per_worker (de_scratch copy);
                       limit = ml_max_scratch_bytes_per_operator (cx_memory_limits c);
                       s = \<lparr>sh_desc = copy, sh_substep_reads = replicate n 0, sh_substep_writes = replicate n 0,
                            sh_refcount = n, sh_scratch_size = size,
                            sh_scratch_alignment = rq_alignment (de_scratch copy), sh_scratch_tls_ready = False,
                            sh_scratch_buffer = False, sh_scratch_accounted = size > 0\<rparr>;
                       (scratch_result, c) = (if size > 0 \<and> limit > 0 \<and> size > limit then (SIM_RESULT_OUT_OF_MEMORY, c)
                                              else if size > 0 then sim_context_reserve_scratch c size
                                              else (SIM_RESULT_OK, c))
                   in if scratch_result \<noteq> SIM_RESULT_OK then Some (scratch_result, run)
                      else
                        let run = run\<lparr>sr_memory := mem(fresh_shared \<mapsto> Split_Shared s), sr_context := c\<rparr>
                        in if \<not> calloc_ok heap n 8 then give_up SIM_RESULT_OUT_OF_MEMORY fresh_shared run
                           else if check_ports c (de_ports copy) \<noteq> SIM_RESULT_OK
                             then give_up (check_ports c (de_ports copy)) fresh_shared run
                           else register_substeps fns heap epoch fresh dependencies fresh_shared [0..<n] run))"

section \<open>Queries\<close>

text \<open>The call of the symbolic callback, where there is one.\<close>

definition sim_split_symbolic :: "split_memory \<Rightarrow> SimOperatorEntry option \<Rightarrow> (nat \<times> nat option) option option" where
  "sim_split_symbolic mem op =
     (case op of
        None \<Rightarrow> Some None
      | Some e \<Rightarrow>
          if op_userdata e = None then Some None
          else (case sim_split_shared_from_userdata mem (op_userdata e) of
                  None \<Rightarrow> None
                | Some None \<Rightarrow> Some None
                | Some (Some (sh, _)) \<Rightarrow>
                    map_option (\<lambda>s. map_option (\<lambda>f. (f, de_state (sh_desc s))) (de_symbolic (sh_desc s))) (shared_at mem sh)))"

definition sim_split_state :: "split_memory \<Rightarrow> SimOperatorEntry option \<Rightarrow> nat option option" where
  "sim_split_state mem op =
     (case op of
        None \<Rightarrow> Some None
      | Some e \<Rightarrow>
          if op_userdata e = None then Some None
          else (case sim_split_shared_from_userdata mem (op_userdata e) of
                  None \<Rightarrow> None
                | Some None \<Rightarrow> Some None
                | Some (Some (sh, _)) \<Rightarrow> map_option (\<lambda>s. de_state (sh_desc s)) (shared_at mem sh)))"

definition sim_operator_state :: "split_memory \<Rightarrow> SimOperatorEntry option \<Rightarrow> nat option option" where
  "sim_operator_state mem op =
     (case sim_split_state mem op of
        None \<Rightarrow> None
      | Some (Some st) \<Rightarrow> Some (Some st)
      | Some None \<Rightarrow> Some (sim_operator_payload op))"

end
