(* ===== verification/Split_Correct.thy ===== *)
theory Split_Correct
  imports Operator_Split Execution_Correct
begin

text \<open>
  What \<open>Operator_Split\<close> guarantees: the field sets of a substep are those of its accesses, a registration
  appends one operator per substep, each after the one before, execution keeps that order, and the
  destructor runs once, when the last of the operators is destroyed.
\<close>

unbundle bit_operations_syntax

section \<open>Field accesses\<close>

lemma append_unique_exact:
  assumes "distinct xs" "set xs \<subseteq> F" "finite F" "card F \<le> n" "x \<in> F"
  obtains ys where "sim_split_append_unique n x xs = Some ys" "distinct ys" "set ys = insert x (set xs)"
proof (cases "x \<in> set xs")
  case True
  have "length xs \<le> n" using assms by (metis card_mono distinct_card order_trans)
  then show thesis using that [of xs] True assms(1) by (auto simp: sim_split_append_unique_def)
next
  case False
  then have "card (set xs) < card F" using assms(2,3,5) by (intro psubset_card_mono) auto
  then have "length xs < n" using assms(1,4) by (simp add: distinct_card)
  then show thesis using that [of "xs @ [x]"] False assms(1) by (auto simp: sim_split_append_unique_def)
qed

text \<open>The fields that the ports of a descriptor name, and those that a list of accesses reads or writes.\<close>

definition port_fields :: "SimSplitDescriptor \<Rightarrow> nat set" where
  "port_fields desc = pt_context_field_index ` set (de_ports desc)"

definition access_field :: "SimSplitDescriptor \<Rightarrow> SimSplitAccess \<Rightarrow> nat" where
  "access_field desc a = pt_context_field_index (de_ports desc ! unat (ac_port a))"

definition reading :: "SimSplitAccess \<Rightarrow> bool" where
  "reading a \<longleftrightarrow> ac_mode a = SIM_ACCESS_READ \<or> ac_mode a = SIM_ACCESS_RW"

definition writing :: "SimSplitAccess \<Rightarrow> bool" where
  "writing a \<longleftrightarrow> ac_mode a = SIM_ACCESS_WRITE \<or> ac_mode a = SIM_ACCESS_RW"

definition declared_reads :: "SimSplitDescriptor \<Rightarrow> SimSplitSubstep \<Rightarrow> nat set" where
  "declared_reads desc ss =
     access_field desc ` {a \<in> set (ss_accesses ss). reading a} \<union> (if ss_barrier_after ss then port_fields desc else {})"

definition declared_writes :: "SimSplitDescriptor \<Rightarrow> SimSplitSubstep \<Rightarrow> nat set" where
  "declared_writes desc ss =
     access_field desc ` {a \<in> set (ss_accesses ss). writing a} \<union> (if ss_barrier_after ss then port_fields desc else {})"

definition known_mode :: "SimSplitAccess \<Rightarrow> bool" where
  "known_mode a \<longleftrightarrow> reading a \<or> writing a"

definition sets_exact :: "nat set \<Rightarrow> nat set \<Rightarrow> split_access_sets \<Rightarrow> bool" where
  "sets_exact R W s \<longleftrightarrow>
     distinct (as_reads s) \<and> set (as_reads s) = R \<and> distinct (as_writes s) \<and> set (as_writes s) = W \<and>
     (\<forall>f < 64. bit (as_rmask s) f \<longleftrightarrow> f \<in> R) \<and> (\<forall>f < 64. bit (as_wmask s) f \<longleftrightarrow> f \<in> W)"

lemma bit_flag: "i < 64 \<Longrightarrow> bit (m OR 2 ^ f :: u64) i \<longleftrightarrow> bit m i \<or> i = f"
  by (auto simp: bit_simps)

lemmas mode_defs = SIM_ACCESS_READ_def SIM_ACCESS_WRITE_def SIM_ACCESS_RW_def reading_def writing_def known_mode_def

lemma card_port_fields: "finite (port_fields desc)" "card (port_fields desc) \<le> length (de_ports desc)"
  unfolding port_fields_def by (simp_all add: card_image_le le_trans [OF card_image_le card_length])

lemma note_access_exact:
  assumes "sets_exact R W s" "R \<subseteq> port_fields desc" "W \<subseteq> port_fields desc" "known_mode a"
    and "unat (ac_port a) < length (de_ports desc)"
  obtains s' where "note_access desc a s = Inr s'"
    "sets_exact (if reading a then insert (access_field desc a) R else R)
       (if writing a then insert (access_field desc a) W else W) s'"
proof -
  let ?f = "access_field desc a" and ?n = "length (de_ports desc)"
  have f: "?f \<in> port_fields desc" using assms(5) by (simp add: port_fields_def access_field_def)
  note fits = append_unique_exact [OF _ _ card_port_fields f]
  obtain r where r: "sim_split_append_unique ?n ?f (as_reads s) = Some r" "distinct r" "set r = insert ?f R"
    using fits [of "as_reads s"] assms(1,2) by (auto simp: sets_exact_def)
  obtain w where w: "sim_split_append_unique ?n ?f (as_writes s) = Some w" "distinct w" "set w = insert ?f W"
    using fits [of "as_writes s"] assms(1,3) by (auto simp: sets_exact_def)
  let ?b = "push_bit ?f 1 :: u64"
  let ?s = "\<lparr>as_rmask = (if ?f < 64 \<and> reading a then as_rmask s OR ?b else as_rmask s),
    as_wmask = (if ?f < 64 \<and> writing a then as_wmask s OR ?b else as_wmask s),
    as_reads = (if reading a then r else as_reads s), as_writes = (if writing a then w else as_writes s)\<rparr>"
  have "ac_mode a = 0 \<or> ac_mode a = 1 \<or> ac_mode a = 2" using assms(4) by (auto simp: mode_defs)
  then have "note_access desc a s = Inr ?s"
  proof (elim disjE)
    assume "ac_mode a = 0"
    then show ?thesis
      using assms(5) r(1) by (simp add: note_access_def access_field_def [symmetric] mode_defs Let_def)
  next
    assume "ac_mode a = 1"
    then show ?thesis
      using assms(5) w(1) by (simp add: note_access_def access_field_def [symmetric] mode_defs Let_def)
  next
    assume "ac_mode a = 2"
    then show ?thesis
      using assms(5) r(1) w(1) by (simp add: note_access_def access_field_def [symmetric] mode_defs Let_def)
  qed
  moreover have "sets_exact (if reading a then insert ?f R else R) (if writing a then insert ?f W else W) ?s"
    using assms(1) r(2,3) w(2,3) by (auto simp: sets_exact_def bit_flag)
  ultimately show thesis by (rule that)
qed

lemma note_accesses_exact:
  assumes "sets_exact R W s" "R \<subseteq> port_fields desc" "W \<subseteq> port_fields desc"
    and "\<forall>a \<in> set as. known_mode a \<and> unat (ac_port a) < length (de_ports desc)"
  obtains s' where "fold_sum (note_access desc) as s = Inr s'"
    "sets_exact (R \<union> access_field desc ` {a \<in> set as. reading a}) (W \<union> access_field desc ` {a \<in> set as. writing a}) s'"
  using assms
proof (induction as arbitrary: s R W thesis)
  case (Cons a as)
  let ?R = "if reading a then insert (access_field desc a) R else R"
  let ?W = "if writing a then insert (access_field desc a) W else W"
  have f: "access_field desc a \<in> port_fields desc"
    using Cons.prems(5) by (simp add: port_fields_def access_field_def)
  obtain s1 where s1: "note_access desc a s = Inr s1" "sets_exact ?R ?W s1"
    using note_access_exact [of R W s desc a] Cons.prems by auto
  have sub: "?R \<subseteq> port_fields desc" "?W \<subseteq> port_fields desc" using Cons.prems(3,4) f by auto
  obtain s2 where s2: "fold_sum (note_access desc) as s1 = Inr s2"
    "sets_exact (?R \<union> access_field desc ` {a \<in> set as. reading a}) (?W \<union> access_field desc ` {a \<in> set as. writing a}) s2"
    using Cons.IH [OF _ s1(2) sub] Cons.prems(5) by auto
  have "?R \<union> access_field desc ` {x \<in> set as. reading x} = R \<union> access_field desc ` {x \<in> set (a # as). reading x}"
    "?W \<union> access_field desc ` {x \<in> set as. writing x} = W \<union> access_field desc ` {x \<in> set (a # as). writing x}" by auto
  then show ?case using Cons.prems(1) [of s2] s1(1) s2 by simp
qed simp

lemma barrier_exact:
  assumes "sets_exact R W s" "R \<subseteq> port_fields desc" "W \<subseteq> port_fields desc" "set ps \<subseteq> set (de_ports desc)"
  shows "sets_exact (R \<union> pt_context_field_index ` set ps) (W \<union> pt_context_field_index ` set ps)
    (fold (barrier_port (length (de_ports desc))) ps s)"
  using assms
proof (induction ps arbitrary: s R W)
  case (Cons p ps)
  let ?f = "pt_context_field_index p" and ?n = "length (de_ports desc)"
  have f: "?f \<in> port_fields desc" using Cons.prems(4) by (auto simp: port_fields_def)
  note fits = append_unique_exact [OF _ _ card_port_fields f]
  obtain r where r: "sim_split_append_unique ?n ?f (as_reads s) = Some r" "distinct r" "set r = insert ?f R"
    using fits [of "as_reads s"] Cons.prems(1,2) by (auto simp: sets_exact_def)
  obtain w where w: "sim_split_append_unique ?n ?f (as_writes s) = Some w" "distinct w" "set w = insert ?f W"
    using fits [of "as_writes s"] Cons.prems(1,3) by (auto simp: sets_exact_def)
  have "sets_exact (insert ?f R) (insert ?f W) (barrier_port ?n p s)"
    using Cons.prems(1) r w by (auto simp: barrier_port_def sets_exact_def bit_flag Let_def)
  then have "sets_exact (insert ?f R \<union> pt_context_field_index ` set ps) (insert ?f W \<union> pt_context_field_index ` set ps)
      (fold (barrier_port ?n) ps (barrier_port ?n p s))"
    using Cons.prems f by (intro Cons.IH) auto
  then show ?case by simp
qed simp

lemma accesses_exact:
  assumes "\<forall>a \<in> set (ss_accesses ss). known_mode a \<and> unat (ac_port a) < length (de_ports desc)"
  shows "\<exists>acc. substep_accesses desc ss = Inr acc \<and>
    distinct (as_reads acc) \<and> set (as_reads acc) = declared_reads desc ss \<and>
    distinct (as_writes acc) \<and> set (as_writes acc) = declared_writes desc ss \<and>
    (\<forall>f < 64. (bit (as_rmask acc) f \<longleftrightarrow> f \<in> declared_reads desc ss) \<and>
              (bit (as_wmask acc) f \<longleftrightarrow> f \<in> declared_writes desc ss))"
proof -
  let ?R = "access_field desc ` {a \<in> set (ss_accesses ss). reading a}"
  let ?W = "access_field desc ` {a \<in> set (ss_accesses ss). writing a}"
  have start: "sets_exact {} {} no_accesses" by (simp add: sets_exact_def no_accesses_def)
  obtain s where s: "fold_sum (note_access desc) (ss_accesses ss) no_accesses = Inr s" "sets_exact ?R ?W s"
    using note_accesses_exact [OF start _ _ assms] by auto
  have sub: "?R \<subseteq> port_fields desc" "?W \<subseteq> port_fields desc"
    using assms by (auto simp: port_fields_def access_field_def)
  have "sets_exact (?R \<union> port_fields desc) (?W \<union> port_fields desc)
      (fold (barrier_port (length (de_ports desc))) (de_ports desc) s)"
    using barrier_exact [OF s(2) sub subset_refl] by (simp add: port_fields_def)
  then have "sets_exact (declared_reads desc ss) (declared_writes desc ss)
      (if ss_barrier_after ss then fold (barrier_port (length (de_ports desc))) (de_ports desc) s else s)"
    using s(2) by (simp add: declared_reads_def declared_writes_def)
  then show ?thesis using s(1) by (auto simp: substep_accesses_def sets_exact_def)
qed

text \<open>
  C29. The accesses of a substep are accepted when their ports exist, however many there are: the read and
  write lists hold each declared field once, a barrier adds the fields of all ports, and the masks are the
  lists restricted to the first 64 fields.
\<close>

theorem substep_accesses_exact:
  assumes "\<forall>a \<in> set (ss_accesses ss). known_mode a \<and> unat (ac_port a) < length (de_ports desc)"
  shows "\<exists>acc. substep_accesses desc ss = Inr acc \<and>
    distinct (as_reads acc) \<and> set (as_reads acc) = declared_reads desc ss \<and>
    distinct (as_writes acc) \<and> set (as_writes acc) = declared_writes desc ss \<and>
    (\<forall>f < 64. (bit (as_rmask acc) f \<longleftrightarrow> f \<in> declared_reads desc ss) \<and>
              (bit (as_wmask acc) f \<longleftrightarrow> f \<in> declared_writes desc ss))"
  by (rule accesses_exact [OF assms])

section \<open>One registration\<close>

definition records :: "SimContext \<Rightarrow> SimOperatorEntry list" where
  "records c = rg_records (w_operators (cx_world c))"

text \<open>A context with its operators and the validity of its plan left out.\<close>

definition same_but_operators :: "SimContext \<Rightarrow> SimContext \<Rightarrow> bool" where
  "same_but_operators c c' \<longleftrightarrow>
     w_fields (cx_world c') = w_fields (cx_world c) \<and> cx_memory_limits c' = cx_memory_limits c \<and>
     cx_bytes_fields_in_use c' = cx_bytes_fields_in_use c \<and> cx_bytes_scratch_in_use c' = cx_bytes_scratch_in_use c \<and>
     cx_bytes_total_in_use c' = cx_bytes_total_in_use c \<and> cx_runtime c' = cx_runtime c"

text \<open>What the operators of a split descriptor keep of the descriptor they are registered with.\<close>

definition entry_of :: "SimOperatorDescriptor \<Rightarrow> SimOperatorEntry \<Rightarrow> bool" where
  "entry_of d op \<longleftrightarrow>
     op_evaluate op = dc_evaluate d \<and> op_destroy op = dc_destroy d \<and> op_userdata op = dc_userdata d \<and>
     op_save_state op = dc_save_state d \<and> op_restore_state op = dc_restore_state d \<and>
     op_read_mask op = dc_read_mask d \<and> op_write_mask op = dc_write_mask d \<and>
     op_read_indices op = dc_read_indices d \<and> op_write_indices op = dc_write_indices d \<and>
     op_dependencies op = dc_dependencies d \<and> op_required_features op = dc_required_features d \<and>
     (op_kernel op = None \<longleftrightarrow> dc_kernel d = None)"

lemma context_register_cases:
  obtains
    (failed) rn c' where "sim_context_register_operator heap epoch counter c (Some d) = Some (rn, c')"
      "rn_result rn \<noteq> SIM_RESULT_OK" "records c' = records c" "same_but_operators c c'"
      "rn_destroyed rn = (if fst (sim_operator_grow heap (w_operators (cx_world c))) = SIM_RESULT_OK \<and> descriptor_valid d
         then payload_released d else [])"
  | (registered) rn c' op where "sim_context_register_operator heap epoch counter c (Some d) = Some (rn, c')"
      "rn_result rn = SIM_RESULT_OK" "rn_index rn = Some (length (records c))" "records c' = records c @ [op]"
      "entry_of d op" "same_but_operators c c'"
proof (cases rule: register_cases [of heap epoch counter "w_operators (cx_world c)" d])
  case (failed rn)
  then show thesis
    by (intro that(1) [of rn "set_operators (rn_registry rn) c"]) (auto simp: sim_context_register_operator_def records_def set_operators_def same_but_operators_def
        grow_records)
next
  case (registered rn op)
  have entry: "entry_of d op" using registered(8)
    by (auto simp: registered_from_def kernel_registered_def entry_of_def split: option.splits)
  moreover have "entry_of d (sim_context_apply_override_to_operator c' op)" for c'
    using entry by (simp add: entry_of_def sim_context_apply_override_to_operator_def sim_operator_config_set_def)
  moreover
  let ?c = "invalidate_plan (set_operators (rn_registry rn) c)"
  let ?op = "if cx_continuity_override_enabled c then sim_context_apply_override_to_operator ?c op else op"
  let ?c' = "if cx_continuity_override_enabled c
    then set_operators ((rn_registry rn)\<lparr>rg_records := (rg_records (rn_registry rn))[length (records c) := ?op]\<rparr>) ?c else ?c"
  have "sim_context_register_operator heap epoch counter c (Some d) = Some (rn, ?c')"
    using registered(1-4)
    by (simp add: sim_context_register_operator_def sim_operator_registry_get_def records_def invalidate_plan_def
        set_operators_def Let_def)
  moreover have "records ?c' = records c @ [?op]"
    using registered(4) by (simp add: records_def set_operators_def invalidate_plan_def)
  moreover have "same_but_operators c ?c'"
    by (simp add: same_but_operators_def set_operators_def invalidate_plan_def)
  ultimately show thesis
    using registered(2,3) by (intro that(2) [of rn ?c' ?op]) (simp_all add: records_def)
qed

section \<open>The loop over the substeps\<close>

definition substep_entry ::
  "split_functions \<Rightarrow> SimSplitDescriptor \<Rightarrow> (nat \<Rightarrow> nat) \<Rightarrow> nat list \<Rightarrow> nat \<Rightarrow> nat \<Rightarrow> SimOperatorEntry \<Rightarrow> bool" where
  "substep_entry fns desc fresh deps start i op \<longleftrightarrow>
     (\<exists>acc. substep_accesses desc (de_substeps desc ! i) = Inr acc \<and>
        entry_of (substep_descriptor fns desc i acc (if i = 0 then deps else [start + i - 1]) (fresh i)) op)"

text \<open>\<open>m\<close> operators have been appended to those of \<open>c\<close>.\<close>

definition appended ::
  "split_functions \<Rightarrow> SimSplitDescriptor \<Rightarrow> (nat \<Rightarrow> nat) \<Rightarrow> nat list \<Rightarrow> SimContext \<Rightarrow> nat \<Rightarrow> SimContext \<Rightarrow> bool" where
  "appended fns desc fresh deps c m c' \<longleftrightarrow>
     (\<exists>ops. records c' = records c @ ops \<and> length ops = m \<and>
        (\<forall>i < m. substep_entry fns desc fresh deps (length (records c)) i (ops ! i)))"

definition shared_of :: "SimSplitDescriptor \<Rightarrow> nat \<Rightarrow> SimSplitShared \<Rightarrow> bool" where
  "shared_of desc k s \<longleftrightarrow> sh_desc s = desc \<and> sh_refcount s = k \<and>
     sh_scratch_size s = rq_bytes_per_worker (de_scratch desc) \<and>
     sh_scratch_accounted s = (rq_bytes_per_worker (de_scratch desc) > 0)"

text \<open>The memory with the references of the first \<open>m\<close> substeps and \<open>b\<close> at the shared address.\<close>

definition split_memory_is ::
  "(nat \<Rightarrow> nat) \<Rightarrow> nat \<Rightarrow> split_memory \<Rightarrow> nat \<Rightarrow> (split_object option \<Rightarrow> bool) \<Rightarrow> split_memory \<Rightarrow> bool" where
  "split_memory_is fresh sh mem0 m b mem \<longleftrightarrow>
     b (mem sh) \<and> (\<forall>i < m. mem (fresh i) = Some (Split_Ref i sh)) \<and>
     (\<forall>a. a \<noteq> sh \<and> (\<forall>i < m. a \<noteq> fresh i) \<longrightarrow> mem a = mem0 a)"

definition in_progress ::
  "split_functions \<Rightarrow> SimSplitDescriptor \<Rightarrow> (nat \<Rightarrow> nat) \<Rightarrow> nat list \<Rightarrow> nat \<Rightarrow> split_memory \<Rightarrow> SimContext \<Rightarrow> nat \<Rightarrow> split_run \<Rightarrow> bool" where
  "in_progress fns desc fresh deps sh mem0 c m run \<longleftrightarrow>
     split_memory_is fresh sh mem0 m
       (\<lambda>x. \<exists>s. x = Some (Split_Shared s) \<and> shared_of desc (length (de_substeps desc)) s) (sr_memory run) \<and>
     appended fns desc fresh deps c m (sr_context run) \<and> same_but_operators c (sr_context run) \<and> sr_calls run = [] \<and>
     (0 < m \<longrightarrow> sr_previous run = length (records c) + m - 1 \<and> sr_first run = Some (length (records c)))"

text \<open>A run that has been given up after \<open>m\<close> registrations.\<close>

definition given_up ::
  "split_functions \<Rightarrow> SimSplitDescriptor \<Rightarrow> (nat \<Rightarrow> nat) \<Rightarrow> nat list \<Rightarrow> nat \<Rightarrow> split_memory \<Rightarrow> SimContext \<Rightarrow> nat \<Rightarrow> split_run \<Rightarrow> bool" where
  "given_up fns desc fresh deps sh mem0 c m run \<longleftrightarrow>
     split_memory_is fresh sh mem0 m (\<lambda>x. x = None) (sr_memory run) \<and> sr_calls run = [] \<and>
     (\<exists>c1. appended fns desc fresh deps c m c1 \<and> same_but_operators c c1 \<and>
        sr_context run = (let size = rq_bytes_per_worker (de_scratch desc)
          in if size > 0 then sim_context_release_scratch c1 size else c1))"

lemma abandon_progress:
  assumes "in_progress fns desc fresh deps sh mem0 c m run"
  obtains run' where "abandon sh run = Some run'" "given_up fns desc fresh deps sh mem0 c m run'"
proof -
  obtain s where s: "sr_memory run sh = Some (Split_Shared s)" "shared_of desc (length (de_substeps desc)) s"
    using assms by (auto simp: in_progress_def split_memory_is_def)
  let ?size = "rq_bytes_per_worker (de_scratch desc)"
  let ?c = "if ?size > 0 then sim_context_release_scratch (sr_context run) ?size else sr_context run"
  let ?run = "run\<lparr>sr_memory := (sr_memory run)(sh := None), sr_context := ?c\<rparr>"
  have "abandon sh run = Some ?run"
    using s by (auto simp: abandon_def shared_at_def sim_split_release_scratch_budget_def shared_of_def)
  moreover have "given_up fns desc fresh deps sh mem0 c m ?run"
    unfolding given_up_def
  proof (intro conjI exI [of _ "sr_context run"])
    show "split_memory_is fresh sh mem0 m (\<lambda>x. x = None) (sr_memory ?run)"
      using assms s(1) by (auto simp: in_progress_def split_memory_is_def)
  qed (use assms in \<open>simp_all add: in_progress_def Let_def\<close>)
  ultimately show thesis by (rule that)
qed

lemma give_up_progress:
  assumes "in_progress fns desc fresh deps sh mem0 c m run"
  obtains run' where "give_up result sh run = Some (result, run')" "given_up fns desc fresh deps sh mem0 c m run'"
  using abandon_progress [OF assms] by (auto simp: give_up_def)

lemma accesses_error: "substep_accesses desc ss = Inl e \<Longrightarrow> e \<noteq> SIM_RESULT_OK"
proof -
  have "fold_sum (note_access desc) as s = Inl e \<Longrightarrow> e \<noteq> SIM_RESULT_OK" for as s
    by (induction as arbitrary: s) (auto simp: note_access_def Let_def split: if_splits option.splits sum.splits)
  then show "substep_accesses desc ss = Inl e \<Longrightarrow> e \<noteq> SIM_RESULT_OK"
    by (auto simp: substep_accesses_def split: sum.splits)
qed

lemma register_substep_cases:
  assumes "in_progress fns desc fresh deps sh mem0 c m run" "m < length (de_substeps desc)"
    and "fresh m \<noteq> sh" "\<forall>i < m. fresh i \<noteq> fresh m" "mem0 (fresh m) = None"
  obtains
    (unsafe) "register_substep fns heap epoch fresh deps sh m run = None"
  | (stopped) result run' where "register_substep fns heap epoch fresh deps sh m run = Some (Inl (result, run'))"
      "result \<noteq> SIM_RESULT_OK" "given_up fns desc fresh deps sh mem0 c m run'"
  | (continued) run' where "register_substep fns heap epoch fresh deps sh m run = Some (Inr run')"
      "in_progress fns desc fresh deps sh mem0 c (Suc m) run'"
proof -
  obtain s where s: "sr_memory run sh = Some (Split_Shared s)" "shared_of desc (length (de_substeps desc)) s"
    using assms(1) by (auto simp: in_progress_def split_memory_is_def)
  have desc: "sh_desc s = desc" using s(2) by (simp add: shared_of_def)
  have at: "shared_at (sr_memory run) sh = Some s" using s(1) by (simp add: shared_at_def)
  note unfolded = register_substep_def [of fns heap epoch fresh deps sh m run, unfolded at option.case desc Let_def]
  show thesis
  proof (cases "0 < length (de_ports desc) \<and> \<not> calloc_ok heap (length (de_ports desc)) 8")
    case True
    obtain run' where g: "give_up SIM_RESULT_OUT_OF_MEMORY sh run = Some (SIM_RESULT_OUT_OF_MEMORY, run')"
      "given_up fns desc fresh deps sh mem0 c m run'" by (rule give_up_progress [OF assms(1)])
    then have "register_substep fns heap epoch fresh deps sh m run = Some (Inl (SIM_RESULT_OUT_OF_MEMORY, run'))"
      using True by (simp add: unfolded)
    then show thesis by (rule stopped) (simp_all add: g(2))
  next
    case ports: False
    show thesis
    proof (cases "substep_accesses desc (de_substeps desc ! m)")
      case (Inl e)
      obtain run' where g: "give_up e sh run = Some (e, run')"
        "given_up fns desc fresh deps sh mem0 c m run'" by (rule give_up_progress [OF assms(1)])
      then have "register_substep fns heap epoch fresh deps sh m run = Some (Inl (e, run'))"
        using ports Inl by (auto simp: unfolded)
      then show thesis by (rule stopped) (use accesses_error [OF Inl] g(2) in simp_all)
    next
      case (Inr acc)
      define s1 where "s1 = s\<lparr>sh_substep_reads := (sh_substep_reads s)[m := as_rmask acc],
        sh_substep_writes := (sh_substep_writes s)[m := as_wmask acc]\<rparr>"
      define run1 where "run1 = run\<lparr>sr_memory := (sr_memory run)(sh \<mapsto> Split_Shared s1)\<rparr>"
      have s1: "shared_of desc (length (de_substeps desc)) s1" using s(2) by (simp add: s1_def shared_of_def)
      have apart: "i < m \<Longrightarrow> fresh i \<noteq> sh" for i
        using assms(1) s(1) by (auto simp: in_progress_def split_memory_is_def)
      have p1: "in_progress fns desc fresh deps sh mem0 c m run1"
        using assms(1) s1 apart by (auto simp: run1_def in_progress_def split_memory_is_def)
      show thesis
      proof (cases "calloc_ok heap 1 sizeof_SimSplitOperatorRef")
        case False
        obtain run' where g: "give_up SIM_RESULT_OUT_OF_MEMORY sh run1 = Some (SIM_RESULT_OUT_OF_MEMORY, run')"
          "given_up fns desc fresh deps sh mem0 c m run'" by (rule give_up_progress [OF p1])
        then have "register_substep fns heap epoch fresh deps sh m run = Some (Inl (SIM_RESULT_OUT_OF_MEMORY, run'))"
          using ports Inr False by (auto simp: unfolded run1_def s1_def)
        then show thesis by (rule stopped) (simp_all add: g(2))
      next
        case True
        define run2 where "run2 = run1\<lparr>sr_memory := (sr_memory run1)(fresh m \<mapsto> Split_Ref m sh)\<rparr>"
        define d where "d = substep_descriptor fns desc m acc (if m = 0 then deps else [sr_previous run2]) (fresh m)"
        have keep: "sr_counter run2 = sr_counter run" "sr_context run2 = sr_context run" "sr_previous run2 = sr_previous run"
          by (simp_all add: run2_def run1_def)
        have step: "register_substep fns heap epoch fresh deps sh m run =
            (case sim_context_register_operator heap epoch (sr_counter run2) (sr_context run2) (Some d) of
               None \<Rightarrow> None
             | Some (rn, c) \<Rightarrow>
                 let run = run2\<lparr>sr_context := c, sr_counter := rn_counter rn\<rparr>
                 in if rn_result rn \<noteq> SIM_RESULT_OK then
                      (case run_destroyed (rn_destroyed rn) run of
                         None \<Rightarrow> None
                       | Some run \<Rightarrow>
                           (case free_block (fresh m) run of
                              None \<Rightarrow> None
                            | Some run \<Rightarrow> map_option Inl (give_up (rn_result rn) sh run)))
                    else
                      let index = (case rn_index rn of None \<Rightarrow> sr_previous run | Some k \<Rightarrow> k)
                      in Some (Inr (run\<lparr>sr_previous := index, sr_first := (if m = 0 then Some index else sr_first run)\<rparr>)))"
          unfolding unfolded if_not_P [OF ports] Inr sum.case d_def run2_def run1_def s1_def Let_def using True by simp
        show thesis
        proof (cases rule: context_register_cases [of heap epoch "sr_counter run" "sr_context run" d])
          case (failed rn c')
          have run2: "sr_memory run2 (fresh m) = Some (Split_Ref m sh)" "sr_memory run2 sh = Some (Split_Shared s1)"
            using assms(3) by (simp_all add: run2_def run1_def)
          show thesis
          proof (cases "rn_destroyed rn = []")
            case True
            define run3 where "run3 = run2\<lparr>sr_context := c', sr_counter := rn_counter rn,
              sr_memory := (sr_memory run2)(fresh m := None)\<rparr>"
            have "in_progress fns desc fresh deps sh mem0 c m run3"
              using p1 failed(3,4) assms(3,4,5)
              by (auto simp: in_progress_def split_memory_is_def appended_def run3_def run2_def run1_def
                  same_but_operators_def)
            then obtain run' where g: "give_up (rn_result rn) sh run3 = Some (rn_result rn, run')"
              "given_up fns desc fresh deps sh mem0 c m run'" by (rule give_up_progress)
            have "register_substep fns heap epoch fresh deps sh m run = Some (Inl (rn_result rn, run'))"
              using failed(1,2) True run2(1) g(1) unfolding step keep by (simp add: free_block_def run3_def)
            then show thesis by (rule stopped) (use failed(2) g(2) in simp_all)
          next
            case False
            then have "rn_destroyed rn = [(fn_destroy fns, Some (fresh m))]"
              using failed(5) by (auto simp: payload_released_def d_def substep_descriptor_def split: if_splits)
            then have "register_substep fns heap epoch fresh deps sh m run = None"
              using failed(1,2) run2 assms(3) unfolding step keep
              by (simp add: free_block_def sim_split_destroy_def sim_split_shared_from_userdata_def shared_at_def
                  sim_split_release_scratch_budget_def Let_def)
            then show thesis by (rule unsafe)
          qed
        next
          case (registered rn c' op)
          define run' where "run' = run2\<lparr>sr_context := c', sr_counter := rn_counter rn,
            sr_previous := length (records (sr_context run)),
            sr_first := (if m = 0 then Some (length (records (sr_context run))) else sr_first run)\<rparr>"
          have reg: "register_substep fns heap epoch fresh deps sh m run = Some (Inr run')"
            using registered(1-3) unfolding step keep by (simp add: run'_def Let_def run2_def run1_def)
          obtain ops where ops: "records (sr_context run) = records c @ ops" "length ops = m"
            "\<forall>i < m. substep_entry fns desc fresh deps (length (records c)) i (ops ! i)"
            using assms(1) by (auto simp: in_progress_def appended_def)
          have previous: "m \<noteq> 0 \<Longrightarrow> sr_previous run = length (records c) + m - 1"
            using assms(1) by (simp add: in_progress_def)
          then have "substep_entry fns desc fresh deps (length (records c)) m op"
            using registered(5) Inr unfolding substep_entry_def d_def keep by (cases "m = 0") auto
          then have "appended fns desc fresh deps c (Suc m) c'"
            unfolding appended_def using ops registered(4)
            by (intro exI [of _ "ops @ [op]"]) (auto simp: nth_append less_Suc_eq)
          moreover have "same_but_operators c c'"
            using assms(1) registered(6) by (auto simp: in_progress_def same_but_operators_def)
          moreover have "split_memory_is fresh sh mem0 (Suc m)
              (\<lambda>x. \<exists>s. x = Some (Split_Shared s) \<and> shared_of desc (length (de_substeps desc)) s) (sr_memory run2)"
            using p1 assms(3,4) s1 by (auto simp: in_progress_def split_memory_is_def run2_def run1_def less_Suc_eq)
          moreover have "0 < m \<longrightarrow> sr_first run = Some (length (records c))" "sr_calls run = []"
            using assms(1) by (auto simp: in_progress_def)
          ultimately have "in_progress fns desc fresh deps sh mem0 c (Suc m) run'"
            using ops(1,2) by (simp add: in_progress_def run'_def run2_def run1_def)
          then show thesis by (rule continued [OF reg])
        qed
      qed
    qed
  qed
qed

text \<open>The addresses that the allocator returns are not in use.\<close>

definition fresh_blocks :: "split_memory \<Rightarrow> nat \<Rightarrow> (nat \<Rightarrow> nat) \<Rightarrow> nat \<Rightarrow> bool" where
  "fresh_blocks mem sh fresh n \<longleftrightarrow>
     mem sh = None \<and> (\<forall>i < n. mem (fresh i) = None \<and> fresh i \<noteq> sh \<and> (\<forall>j < i. fresh j \<noteq> fresh i))"

lemma register_substeps_result:
  assumes "register_substeps fns heap epoch fresh deps sh [m..<length (de_substeps desc)] run = Some (result, run')"
    and "in_progress fns desc fresh deps sh mem0 c m run" "m \<le> length (de_substeps desc)"
    and "fresh_blocks mem0 sh fresh (length (de_substeps desc))"
  shows "if result = SIM_RESULT_OK
    then in_progress fns desc fresh deps sh mem0 c (length (de_substeps desc)) run' \<and> sr_last run' = Some (sr_previous run')
    else \<exists>k < length (de_substeps desc). given_up fns desc fresh deps sh mem0 c k run'"
  using assms(1-3)
proof (induction "length (de_substeps desc) - m" arbitrary: m run)
  case 0
  then show ?case by (auto simp: in_progress_def)
next
  case (Suc x)
  then have m: "m < length (de_substeps desc)" by simp
  have fresh: "fresh m \<noteq> sh" "\<forall>i < m. fresh i \<noteq> fresh m" "mem0 (fresh m) = None"
    using assms(4) m by (auto simp: fresh_blocks_def)
  show ?case
  proof (rule register_substep_cases [OF Suc.prems(2) m fresh, of heap epoch])
    assume "register_substep fns heap epoch fresh deps sh m run = None"
    then show ?thesis using Suc.prems(1) m by (simp add: upt_conv_Cons)
  next
    fix r run1
    assume "register_substep fns heap epoch fresh deps sh m run = Some (Inl (r, run1))" "r \<noteq> SIM_RESULT_OK"
      "given_up fns desc fresh deps sh mem0 c m run1"
    then show ?thesis using Suc.prems(1) m by (auto simp: upt_conv_Cons)
  next
    fix run1
    assume "register_substep fns heap epoch fresh deps sh m run = Some (Inr run1)"
      "in_progress fns desc fresh deps sh mem0 c (Suc m) run1"
    then show ?thesis
      using Suc.prems(1) Suc.hyps(1) [of "Suc m" run1] Suc.hyps(2) m by (simp add: upt_conv_Cons)
  qed
qed

lemma clone_same: "sim_split_clone_descriptor heap desc = Some copy \<Longrightarrow> copy = desc"
  by (auto simp: sim_split_clone_descriptor_def split: if_splits)

text \<open>The state before the first substep, and the loop that a registration comes down to.\<close>

definition start_run :: "SimSplitDescriptor \<Rightarrow> nat \<Rightarrow> split_memory \<Rightarrow> SimContext \<Rightarrow> u64 \<Rightarrow> split_run" where
  "start_run desc sh mem c counter =
     \<lparr>sr_memory = mem(sh \<mapsto> Split_Shared
        \<lparr>sh_desc = desc, sh_substep_reads = replicate (length (de_substeps desc)) 0,
         sh_substep_writes = replicate (length (de_substeps desc)) 0, sh_refcount = length (de_substeps desc),
         sh_scratch_size = rq_bytes_per_worker (de_scratch desc), sh_scratch_alignment = rq_alignment (de_scratch desc),
         sh_scratch_tls_ready = False, sh_scratch_buffer = False,
         sh_scratch_accounted = rq_bytes_per_worker (de_scratch desc) > 0\<rparr>),
      sr_context = c, sr_counter = counter, sr_calls = [], sr_previous = 2 ^ 64 - 1, sr_first = None, sr_last = None\<rparr>"

lemma start_in_progress: "in_progress fns desc fresh deps sh mem c 0 (start_run desc sh mem c counter)"
  by (simp add: start_run_def in_progress_def split_memory_is_def appended_def same_but_operators_def shared_of_def)

definition reserved_scratch :: "SimSplitDescriptor \<Rightarrow> SimContext \<Rightarrow> SimResult \<times> SimContext" where
  "reserved_scratch desc c =
     (let bytes = rq_bytes_per_worker (de_scratch desc); limit = ml_max_scratch_bytes_per_operator (cx_memory_limits c)
      in if bytes > 0 \<and> limit > 0 \<and> bytes > limit then (SIM_RESULT_OUT_OF_MEMORY, c)
         else if bytes > 0 then sim_context_reserve_scratch c bytes else (SIM_RESULT_OK, c))"

lemma register_loop:
  assumes "de_name desc \<noteq> None" "de_substeps desc \<noteq> []" "calloc_ok heap 1 sizeof_SimSplitShared"
    and clone: "sim_split_clone_descriptor heap desc = Some desc" and scratch: "reserved_scratch desc c = (SIM_RESULT_OK, c1)"
  shows "sim_split_register fns heap epoch counter sh fresh mem c desc deps =
    (let run = start_run desc sh mem c1 counter
     in if \<not> calloc_ok heap (length (de_substeps desc)) 8 then give_up SIM_RESULT_OUT_OF_MEMORY sh run
        else if check_ports c1 (de_ports desc) \<noteq> SIM_RESULT_OK then give_up (check_ports c1 (de_ports desc)) sh run
        else register_substeps fns heap epoch fresh deps sh [0..<length (de_substeps desc)] run)"
proof -
  have guard: "\<not> (de_name desc = None \<or> de_substeps desc = [])" using assms(1,2) by simp
  show ?thesis
    using assms(3)
    unfolding sim_split_register_def if_not_P [OF guard] clone option.case Let_def
      scratch [unfolded reserved_scratch_def Let_def] prod.case start_run_def
    by (simp cong del: if_weak_cong)
qed

text \<open>The outcome of a registration, with \<open>k\<close> operators appended.\<close>

definition registered_split ::
  "split_functions \<Rightarrow> SimSplitDescriptor \<Rightarrow> (nat \<Rightarrow> nat) \<Rightarrow> nat list \<Rightarrow> nat \<Rightarrow> split_memory \<Rightarrow> SimContext \<Rightarrow> SimResult \<Rightarrow> nat \<Rightarrow>
     split_run \<Rightarrow> bool" where
  "registered_split fns desc fresh deps sh mem c result k run \<longleftrightarrow>
     appended fns desc fresh deps c k (sr_context run) \<and> sr_calls run = [] \<and>
     w_fields (cx_world (sr_context run)) = w_fields (cx_world c) \<and>
     (if result = SIM_RESULT_OK
      then k = length (de_substeps desc) \<and> sr_first run = Some (length (records c)) \<and>
        sr_last run = Some (length (records c) + k - 1) \<and>
        unat (cx_bytes_scratch_in_use (sr_context run)) =
          unat (cx_bytes_scratch_in_use c) + unat (rq_bytes_per_worker (de_scratch desc)) \<and>
        split_memory_is fresh sh mem k (\<lambda>x. \<exists>s. x = Some (Split_Shared s) \<and> shared_of desc k s) (sr_memory run)
      else (k = 0 \<or> k < length (de_substeps desc)) \<and>
        cx_bytes_scratch_in_use (sr_context run) = cx_bytes_scratch_in_use c \<and>
        split_memory_is fresh sh mem k (\<lambda>x. x = None) (sr_memory run))"

lemma reserve_scratch_exact:
  assumes "sim_context_reserve_scratch c bytes = (SIM_RESULT_OK, c')" "bytes > 0"
  shows "unat (cx_bytes_scratch_in_use c') = unat (cx_bytes_scratch_in_use c) + unat bytes"
    "cx_bytes_scratch_in_use c' \<ge> bytes" "cx_bytes_scratch_in_use c' = bytes \<Longrightarrow> cx_bytes_scratch_in_use c = 0"
    "cx_bytes_scratch_in_use c' - bytes = cx_bytes_scratch_in_use c"
    "records c' = records c" "w_fields (cx_world c') = w_fields (cx_world c)"
proof -
  let ?a = "cx_bytes_scratch_in_use c"
  have fits: "\<not> ?a > size_max - bytes" and c': "cx_bytes_scratch_in_use c' = ?a + bytes"
    and rest: "records c' = records c" "w_fields (cx_world c') = w_fields (cx_world c)"
    using assms by (auto simp: sim_context_reserve_scratch_def sim_context_add_size_def records_def split: if_splits)
  have "unat (size_max - bytes) = 2 ^ 64 - 1 - unat bytes"
    by (simp add: unat_sub unat_size_max)
  then have "unat ?a + unat bytes < 2 ^ 64" using fits unat_lt_64 [of bytes] by (simp add: word_less_nat_alt)
  then have sum: "unat (?a + bytes) = unat ?a + unat bytes" by (rule unat_add_exact)
  then show "unat (cx_bytes_scratch_in_use c') = unat ?a + unat bytes" "cx_bytes_scratch_in_use c' \<ge> bytes"
    "cx_bytes_scratch_in_use c' = bytes \<Longrightarrow> ?a = 0" "cx_bytes_scratch_in_use c' - bytes = ?a"
    using c' by (simp_all add: word_le_nat_alt)
  show "records c' = records c" "w_fields (cx_world c') = w_fields (cx_world c)" by (rule rest)+
qed

lemma register_refused:
  assumes "sim_split_register fns heap epoch counter sh fresh mem c desc deps = Some (result, run)"
    and "reserved_scratch desc c = (sr, c1)"
    and "de_name desc = None \<or> de_substeps desc = [] \<or> \<not> calloc_ok heap 1 sizeof_SimSplitShared \<or>
      sim_split_clone_descriptor heap desc = None \<or> sr \<noteq> SIM_RESULT_OK"
  shows "result \<noteq> SIM_RESULT_OK \<and> sr_context run = c \<and> sr_memory run = mem \<and> sr_calls run = []"
  using assms clone_same [of heap desc]
  by (auto simp: sim_split_register_def reserved_scratch_def Let_def split: option.splits if_splits)

lemma split_registration:
  assumes "fresh_blocks mem sh fresh (length (de_substeps desc))"
    and "sim_split_register fns heap epoch counter sh fresh mem c desc deps = Some (result, run)"
  shows "\<exists>k. registered_split fns desc fresh deps sh mem c result k run"
proof -
  let ?n = "length (de_substeps desc)" and ?size = "rq_bytes_per_worker (de_scratch desc)"
  have none: "registered_split fns desc fresh deps sh mem c result 0 run"
    if "result \<noteq> SIM_RESULT_OK" "sr_context run = c" "sr_memory run = mem" "sr_calls run = []"
    using that assms(1) by (simp add: registered_split_def appended_def split_memory_is_def fresh_blocks_def)
  obtain sr c1 where r: "reserved_scratch desc c = (sr, c1)" by fastforce
  show ?thesis
  proof (cases "de_name desc = None \<or> de_substeps desc = [] \<or> \<not> calloc_ok heap 1 sizeof_SimSplitShared \<or>
      sim_split_clone_descriptor heap desc = None \<or> sr \<noteq> SIM_RESULT_OK")
    case True
    then have "result \<noteq> SIM_RESULT_OK \<and> sr_context run = c \<and> sr_memory run = mem \<and> sr_calls run = []"
      using register_refused [OF assms(2) r] by blast
    then show ?thesis using none by blast
  next
    case False
    then have clone: "sim_split_clone_descriptor heap desc = Some desc" using clone_same [of heap desc] by auto
    have ok: "sr = SIM_RESULT_OK" using False by simp
    let ?run = "start_run desc sh mem c1 counter"
    have run: "(if \<not> calloc_ok heap ?n 8 then give_up SIM_RESULT_OUT_OF_MEMORY sh ?run
        else if check_ports c1 (de_ports desc) \<noteq> SIM_RESULT_OK then give_up (check_ports c1 (de_ports desc)) sh ?run
        else register_substeps fns heap epoch fresh deps sh [0..<?n] ?run) = Some (result, run)"
      using assms(2) register_loop [OF _ _ _ clone r [unfolded ok]] False by (simp add: Let_def)
    have c1: "records c1 = records c" "w_fields (cx_world c1) = w_fields (cx_world c)"
      using r ok reserve_scratch_exact(5,6) [of c ?size c1] by (auto simp: reserved_scratch_def Let_def split: if_splits)
    note start = start_in_progress [of fns desc fresh deps sh mem c1 counter]
    have restored: "cx_bytes_scratch_in_use (if ?size > 0 then sim_context_release_scratch c2 ?size else c2) =
        cx_bytes_scratch_in_use c" if "same_but_operators c1 c2" for c2
      using that r ok reserve_scratch_exact(2-4) [of c ?size c1]
      by (auto simp: reserved_scratch_def Let_def same_but_operators_def sim_context_release_scratch_def word_gt_0 split: if_splits)
    have same: "appended fns desc fresh deps c k c2 = appended fns desc fresh deps c1 k c2" for k c2
      using c1(1) by (simp add: appended_def)
    have released: "records (sim_context_release_scratch c2 x) = records c2"
      "w_fields (cx_world (sim_context_release_scratch c2 x)) = w_fields (cx_world c2)" for c2 x
      by (simp_all add: records_def sim_context_release_scratch_def Let_def)
    have failed: "registered_split fns desc fresh deps sh mem c result k run"
      if left: "given_up fns desc fresh deps sh mem c1 k run" "result \<noteq> SIM_RESULT_OK" "k = 0 \<or> k < ?n" for k
    proof -
      obtain c2 where c2: "appended fns desc fresh deps c1 k c2" "same_but_operators c1 c2"
        and final: "sr_context run = (if ?size > 0 then sim_context_release_scratch c2 ?size else c2)"
        using left(1) by (auto simp: given_up_def Let_def)
      have "w_fields (cx_world (sr_context run)) = w_fields (cx_world c)"
        using c1(2) c2(2) released(2) [of c2 ?size] unfolding final by (simp add: same_but_operators_def)
      moreover have "appended fns desc fresh deps c k (sr_context run)"
        using c2(1) same [of k c2] released(1) [of c2 ?size] unfolding final by (simp add: appended_def)
      moreover have "cx_bytes_scratch_in_use (sr_context run) = cx_bytes_scratch_in_use c"
        using restored [OF c2(2)] final by simp
      ultimately show ?thesis using left by (auto simp: given_up_def registered_split_def)
    qed
    have stop: "\<exists>k. registered_split fns desc fresh deps sh mem c result k run"
      if "give_up e sh ?run = Some (result, run)" "e \<noteq> SIM_RESULT_OK" for e
    proof -
      obtain run' where "give_up e sh ?run = Some (e, run')" "given_up fns desc fresh deps sh mem c1 0 run'"
        by (rule give_up_progress [OF start])
      then show ?thesis using that failed [of 0] by auto
    qed
    show ?thesis
    proof (cases "calloc_ok heap ?n 8 \<and> check_ports c1 (de_ports desc) = SIM_RESULT_OK")
      case False
      then show ?thesis using run stop by (auto split: if_splits)
    next
      case True
      then have "register_substeps fns heap epoch fresh deps sh [0..<?n] ?run = Some (result, run)" using run by simp
      note result = register_substeps_result [OF this start _ assms(1)]
      show ?thesis
      proof (cases "result = SIM_RESULT_OK")
        case False
        then show ?thesis using result failed by auto
      next
        case fin: True
        then have progress: "in_progress fns desc fresh deps sh mem c1 ?n run" "sr_last run = Some (sr_previous run)"
          using result by simp_all
        have "unat (cx_bytes_scratch_in_use c1) = unat (cx_bytes_scratch_in_use c) + unat ?size"
          using r ok reserve_scratch_exact(1) [of c ?size c1]
          by (auto simp: reserved_scratch_def Let_def word_gt_0 split: if_splits)
        then show ?thesis
          using fin progress c1 same False
          by (intro exI [of _ ?n]) (auto simp: registered_split_def in_progress_def same_but_operators_def)
      qed
    qed
  qed
qed

lemma register_started:
  assumes "sim_split_register fns heap epoch counter sh fresh mem c desc deps = Some (SIM_RESULT_OK, run)"
  obtains c1 where "reserved_scratch desc c = (SIM_RESULT_OK, c1)"
    "register_substeps fns heap epoch fresh deps sh [0..<length (de_substeps desc)] (start_run desc sh mem c1 counter) =
       Some (SIM_RESULT_OK, run)"
proof -
  obtain sr c1 where scratch: "reserved_scratch desc c = (sr, c1)" by fastforce
  have ok: "\<not> (de_name desc = None \<or> de_substeps desc = [] \<or> \<not> calloc_ok heap 1 sizeof_SimSplitShared \<or>
      sim_split_clone_descriptor heap desc = None \<or> sr \<noteq> SIM_RESULT_OK)"
    using register_refused [OF assms scratch] by blast
  then have clone: "sim_split_clone_descriptor heap desc = Some desc" using clone_same [of heap desc] by auto
  have sr: "reserved_scratch desc c = (SIM_RESULT_OK, c1)" using scratch ok by simp
  have "de_name desc \<noteq> None" "de_substeps desc \<noteq> []" "calloc_ok heap 1 sizeof_SimSplitShared" using ok by simp_all
  note loop = register_loop [OF this clone sr, of fns epoch counter sh fresh mem deps]
  show thesis
    by (rule that [OF sr]) (use assms in \<open>auto simp: loop Let_def give_up_def split: if_splits\<close>)
qed

section \<open>A registration succeeds\<close>

text \<open>The counts of a descriptor fit the address space.\<close>

definition split_fits :: "SimSplitDescriptor \<Rightarrow> nat list \<Rightarrow> bool" where
  "split_fits desc deps \<longleftrightarrow>
     length (de_ports desc) * sizeof_SimSplitPort < 2 ^ 64 \<and>
     length (de_substeps desc) * sizeof_SimSplitSubstep < 2 ^ 64 \<and> length deps * 8 < 2 ^ 64 \<and>
     (\<forall>ss \<in> set (de_substeps desc). length (ss_accesses ss) * sizeof_SimSplitAccess < 2 ^ 64)"

lemma granted_register:
  assumes "dc_name d \<noteq> None" "dc_evaluate d \<noteq> None" "dc_kernel d = None"
    and "length (dc_read_indices d) * 8 < 2 ^ 64" "length (dc_write_indices d) * 8 < 2 ^ 64"
    and "length (dc_dependencies d) * 8 < 2 ^ 64"
    and "sim_context_register_operator granted epoch counter c (Some d) = Some (rn, c')"
  shows "rn_result rn = SIM_RESULT_OK"
proof -
  have fits: "calloc_ok granted (length (dc_read_indices d)) 8" "calloc_ok granted (length (dc_write_indices d)) 8"
    "calloc_ok granted (length (dc_dependencies d)) 8"
    using assms(4-6) by (simp_all add: calloc_ok_def granted_def)
  have kernel: "assign_kernel granted op d = Some (Inr op)" for op using assms(3) by (simp add: assign_kernel_def)
  obtain name where "dc_name d = Some name" using assms(1) by auto
  then obtain op where "sim_operator_assign granted epoch counter d = Some (Inr op, counter + 1)"
    using assms(2) fits kernel
    by (cases "dc_dependencies d = []")
      (simp_all add: sim_operator_assign_def sim_operator_next_guid_def assign_dependencies_def Let_def)
  moreover have "fst (sim_operator_grow granted (w_operators (cx_world c))) = SIM_RESULT_OK"
    by (simp add: sim_operator_grow_def malloc_ok_def granted_def Let_def)
  then obtain reg where "sim_operator_grow granted (w_operators (cx_world c)) = (SIM_RESULT_OK, reg)"
    by (metis prod.collapse)
  ultimately obtain rn' where "sim_operator_registry_register granted epoch counter (w_operators (cx_world c)) (Some d) = Some rn'"
    "rn_result rn' = SIM_RESULT_OK"
    by (simp add: sim_operator_registry_register_def)
  then show ?thesis
    using assms(7) by (auto simp: sim_context_register_operator_def Let_def split: option.splits if_splits)
qed

text \<open>The ports of a descriptor are fields of the context, and its accesses are of known modes through them.\<close>

definition split_valid :: "SimContext \<Rightarrow> SimSplitDescriptor \<Rightarrow> bool" where
  "split_valid c desc \<longleftrightarrow> de_name desc \<noteq> None \<and> de_substeps desc \<noteq> [] \<and> check_ports c (de_ports desc) = SIM_RESULT_OK \<and>
     (\<forall>ss \<in> set (de_substeps desc). \<forall>a \<in> set (ss_accesses ss).
        known_mode a \<and> unat (ac_port a) < length (de_ports desc))"

lemma declared_in_ports:
  assumes "\<forall>a \<in> set (ss_accesses ss). known_mode a \<and> unat (ac_port a) < length (de_ports desc)"
  shows "declared_reads desc ss \<subseteq> port_fields desc" "declared_writes desc ss \<subseteq> port_fields desc"
  using assms by (auto simp: declared_reads_def declared_writes_def port_fields_def access_field_def)

lemma distinct_in_ports:
  assumes "distinct xs" "set xs \<subseteq> port_fields desc"
  shows "length xs \<le> length (de_ports desc)"
proof -
  have "card (set xs) \<le> card (port_fields desc)" using assms(2) by (intro card_mono) (simp_all add: port_fields_def)
  also have "\<dots> \<le> length (de_ports desc)"
    unfolding port_fields_def by (meson card_image_le card_length finite_set order_trans)
  finally show ?thesis using assms(1) by (simp add: distinct_card)
qed

lemma granted_substep:
  assumes "in_progress fns desc fresh deps sh mem0 c m run" "m < length (de_substeps desc)"
    and "fresh m \<noteq> sh" "\<forall>i < m. fresh i \<noteq> fresh m" "mem0 (fresh m) = None"
    and "split_fits desc deps"
    and known: "\<forall>a \<in> set (ss_accesses (de_substeps desc ! m)). known_mode a \<and> unat (ac_port a) < length (de_ports desc)"
  obtains run' where "register_substep fns granted epoch fresh deps sh m run = Some (Inr run')"
    "in_progress fns desc fresh deps sh mem0 c (Suc m) run'"
proof -
  obtain s where s: "sr_memory run sh = Some (Split_Shared s)" "shared_of desc (length (de_substeps desc)) s"
    using assms(1) by (auto simp: in_progress_def split_memory_is_def)
  have at: "shared_at (sr_memory run) sh = Some s" and desc: "sh_desc s = desc"
    using s by (simp_all add: shared_at_def shared_of_def)
  obtain acc where acc: "substep_accesses desc (de_substeps desc ! m) = Inr acc"
    "length (as_reads acc) \<le> length (de_ports desc)" "length (as_writes acc) \<le> length (de_ports desc)"
    using accesses_exact [OF known] declared_in_ports [OF known] distinct_in_ports by metis
  have ports: "length (de_ports desc) * 16 < 2 ^ 64" "length deps * 8 < 2 ^ 64"
    using assms(6) by (simp_all add: split_fits_def sizeof_SimSplitPort_def)
  have grants: "calloc_ok granted (length (de_ports desc)) 8" "calloc_ok granted 1 sizeof_SimSplitOperatorRef"
    using ports(1) by (simp_all add: calloc_ok_def granted_def sizeof_SimSplitOperatorRef_def)
  have registers: "\<exists>rn c'. sim_context_register_operator granted epoch counter c2 (Some d) = Some (rn, c') \<and>
      rn_result rn = SIM_RESULT_OK"
    if d: "d = substep_descriptor fns desc m acc (if m = 0 then deps else [p]) r" for counter c2 p r d
  proof -
    obtain rn c' where reg: "sim_context_register_operator granted epoch counter c2 (Some d) = Some (rn, c')"
      using context_register_cases [of granted epoch counter c2 d] by metis
    moreover have "rn_result rn = SIM_RESULT_OK"
      by (rule granted_register [OF _ _ _ _ _ _ reg]) (use ports acc(2,3) d in \<open>simp_all add: substep_descriptor_def\<close>)
    ultimately show ?thesis by blast
  qed
  obtain rn c' where "sim_context_register_operator granted epoch (sr_counter run) (sr_context run)
      (Some (substep_descriptor fns desc m acc (if m = 0 then deps else [sr_previous run]) (fresh m))) = Some (rn, c')"
    "rn_result rn = SIM_RESULT_OK" using registers by blast
  then have "\<exists>run'. register_substep fns granted epoch fresh deps sh m run = Some (Inr run')"
    using acc(1) grants by (cases "m = 0") (simp_all add: register_substep_def at desc Let_def)
  then obtain run' where run': "register_substep fns granted epoch fresh deps sh m run = Some (Inr run')" by blast
  show thesis
  proof (rule register_substep_cases [OF assms(1-5), of granted epoch])
    fix run1
    assume "register_substep fns granted epoch fresh deps sh m run = Some (Inr run1)"
      "in_progress fns desc fresh deps sh mem0 c (Suc m) run1"
    then show thesis by (rule that)
  qed (use run' in simp_all)
qed

lemma granted_substeps:
  assumes "in_progress fns desc fresh deps sh mem0 c m run" "m \<le> length (de_substeps desc)"
    and "fresh_blocks mem0 sh fresh (length (de_substeps desc))" "split_fits desc deps" "split_valid c0 desc"
  shows "\<exists>run'. register_substeps fns granted epoch fresh deps sh [m..<length (de_substeps desc)] run =
    Some (SIM_RESULT_OK, run')"
  using assms(1,2)
proof (induction "length (de_substeps desc) - m" arbitrary: m run)
  case (Suc x)
  then have m: "m < length (de_substeps desc)" by simp
  have fresh: "fresh m \<noteq> sh" "\<forall>i < m. fresh i \<noteq> fresh m" "mem0 (fresh m) = None"
    using assms(3) m by (auto simp: fresh_blocks_def)
  obtain run1 where "register_substep fns granted epoch fresh deps sh m run = Some (Inr run1)"
    "in_progress fns desc fresh deps sh mem0 c (Suc m) run1"
    by (rule granted_substep [OF Suc.prems(1) m fresh assms(4)])
      (use nth_mem [OF m] assms(5) in \<open>auto simp: split_valid_def\<close>)
  then show ?case using Suc.hyps(1) [of "Suc m" run1] Suc.hyps(2) m by (simp add: upt_conv_Cons)
qed simp

text \<open>The scratch memory that a descriptor asks for is within the limits of the context.\<close>

definition scratch_available :: "SimContext \<Rightarrow> size_t \<Rightarrow> bool" where
  "scratch_available c bytes \<longleftrightarrow> bytes = 0 \<or>
     (ml_max_scratch_bytes_per_operator (cx_memory_limits c) = 0 \<or>
      bytes \<le> ml_max_scratch_bytes_per_operator (cx_memory_limits c)) \<and>
     fst (sim_context_reserve_scratch c bytes) = SIM_RESULT_OK"

lemma split_registration_succeeds:
  assumes "fresh_blocks mem sh fresh (length (de_substeps desc))" "split_valid c desc" "split_fits desc deps"
    and "scratch_available c (rq_bytes_per_worker (de_scratch desc))"
  shows "\<exists>run. sim_split_register fns granted epoch counter sh fresh mem c desc deps = Some (SIM_RESULT_OK, run)"
proof -
  let ?n = "length (de_substeps desc)" and ?size = "rq_bytes_per_worker (de_scratch desc)"
  let ?limit = "ml_max_scratch_bytes_per_operator (cx_memory_limits c)"
  have grants: "calloc_ok granted 1 sizeof_SimSplitShared" "calloc_ok granted ?n 8"
    using assms(3) by (simp_all add: calloc_ok_def granted_def sizeof_SimSplitShared_def split_fits_def sizeof_SimSplitSubstep_def)
  have clone: "sim_split_clone_descriptor granted desc = Some desc"
    using assms(3) by (auto simp: sim_split_clone_descriptor_def calloc_ok_def granted_def split_fits_def list_ex_iff
        sizeof_SimSplitDescriptor_def)
  obtain c1 where scratch: "reserved_scratch desc c = (SIM_RESULT_OK, c1)"
    and c1: "w_fields (cx_world c1) = w_fields (cx_world c)"
  proof (cases "?size = 0")
    case True
    then show thesis by (intro that [of c]) (simp_all add: reserved_scratch_def)
  next
    case False
    then obtain c1 where "sim_context_reserve_scratch c ?size = (SIM_RESULT_OK, c1)" "?limit = 0 \<or> ?size \<le> ?limit"
      using assms(4) by (cases "sim_context_reserve_scratch c ?size") (auto simp: scratch_available_def)
    then show thesis using False reserve_scratch_exact(6) [of c ?size c1]
      by (intro that [of c1]) (auto simp: reserved_scratch_def word_gt_0 Let_def)
  qed
  have ports: "check_ports c1 (de_ports desc) = SIM_RESULT_OK"
  proof -
    have "check_port c1 = check_port c" using c1 by (auto simp: fun_eq_iff check_port_def sim_context_field_def)
    then show ?thesis using assms(2) by (simp add: split_valid_def check_ports_def)
  qed
  obtain run' where "register_substeps fns granted epoch fresh deps sh [0..<?n] (start_run desc sh mem c1 counter) =
      Some (SIM_RESULT_OK, run')"
    using granted_substeps [OF start_in_progress _ assms(1,3,2)] by blast
  then have "sim_split_register fns granted epoch counter sh fresh mem c desc deps = Some (SIM_RESULT_OK, run')"
    using assms(2) grants ports register_loop [OF _ _ grants(1) clone scratch] by (simp add: split_valid_def Let_def)
  then show ?thesis by blast
qed

section \<open>The shared block is released once\<close>

text \<open>The destructors of the operators with the given payloads, one after the other.\<close>

fun destroy_refs :: "split_memory \<Rightarrow> SimContext \<Rightarrow> nat list \<Rightarrow> (destroy_call list \<times> split_memory \<times> SimContext) option" where
  "destroy_refs mem c [] = Some ([], mem, c)"
| "destroy_refs mem c (a # as) =
     (case sim_split_destroy mem c (Some a) of
        None \<Rightarrow> None
      | Some (calls, mem, c) \<Rightarrow> map_option (\<lambda>(calls', mem, c). (calls @ calls', mem, c)) (destroy_refs mem c as))"

text \<open>The references of the substeps \<open>is\<close> are left.\<close>

definition references_left ::
  "SimSplitDescriptor \<Rightarrow> (nat \<Rightarrow> nat) \<Rightarrow> nat \<Rightarrow> split_memory \<Rightarrow> nat list \<Rightarrow> split_memory \<Rightarrow> bool" where
  "references_left desc fresh sh mem0 is mem \<longleftrightarrow>
     (\<exists>s. mem sh = Some (Split_Shared s) \<and> shared_of desc (length is) s) \<and>
     (\<forall>i \<in> set is. mem (fresh i) = Some (Split_Ref i sh)) \<and>
     (\<forall>a. a \<noteq> sh \<and> a \<notin> fresh ` set is \<longrightarrow> mem a = mem0 a)"

definition last_calls :: "SimSplitDescriptor \<Rightarrow> destroy_call list" where
  "last_calls desc = (case de_destroy desc of None \<Rightarrow> [] | Some f \<Rightarrow> [(f, de_state desc)])"

lemma destroy_reference:
  assumes "references_left desc fresh sh mem0 (i # is) mem" "inj_on fresh (set (i # is))" "i \<notin> set is"
    and "mem0 (fresh i) = None" "fresh i \<noteq> sh" "sh \<notin> fresh ` set is" "mem0 sh = None"
  shows "\<exists>mem'. sim_split_destroy mem c (Some (fresh i)) =
      (if is = [] then Some (last_calls desc, mem0, if rq_bytes_per_worker (de_scratch desc) > 0
         then sim_context_release_scratch c (rq_bytes_per_worker (de_scratch desc)) else c)
       else Some ([], mem', c)) \<and> (is \<noteq> [] \<longrightarrow> references_left desc fresh sh mem0 is mem')"
proof -
  obtain s where s: "mem sh = Some (Split_Shared s)" "shared_of desc (Suc (length is)) s"
    and at: "mem (fresh i) = Some (Split_Ref i sh)"
    using assms(1) by (auto simp: references_left_def)
  have apart: "fresh i \<notin> fresh ` set is" using assms(2,3) by (auto simp: inj_on_def)
  show ?thesis
  proof (cases "is = []")
    case True
    have "mem(fresh i := None, sh := None) = mem0"
      using assms(1,4,7) True by (auto simp: references_left_def fun_eq_iff)
    then show ?thesis
      using s at assms(5) True
      by (simp add: sim_split_destroy_def sim_split_shared_from_userdata_def shared_at_def shared_of_def
          sim_split_release_scratch_budget_def last_calls_def Let_def split: option.split)
  next
    case False
    let ?mem = "mem(fresh i := None, sh \<mapsto> Split_Shared (s\<lparr>sh_refcount := length is\<rparr>))"
    have "sim_split_destroy mem c (Some (fresh i)) = Some ([], ?mem, c)"
      using s at assms(5) False
      by (simp add: sim_split_destroy_def sim_split_shared_from_userdata_def shared_at_def shared_of_def Let_def)
    moreover have "references_left desc fresh sh mem0 is ?mem"
      unfolding references_left_def
    proof (intro conjI exI allI ballI impI)
      show "?mem sh = Some (Split_Shared (s\<lparr>sh_refcount := length is\<rparr>))" by simp
      show "shared_of desc (length is) (s\<lparr>sh_refcount := length is\<rparr>)" using s(2) by (simp add: shared_of_def)
      show "?mem (fresh j) = Some (Split_Ref j sh)" if "j \<in> set is" for j
      proof -
        have "fresh j \<noteq> sh" "fresh j \<noteq> fresh i" using that assms(6) apart by (metis imageI)+
        then show ?thesis using that assms(1) by (simp add: references_left_def)
      qed
      show "?mem a = mem0 a" if "a \<noteq> sh \<and> a \<notin> fresh ` set is" for a
        using that assms(1,4) by (cases "a = fresh i") (simp_all add: references_left_def)
    qed
    ultimately show ?thesis using False by (intro exI [of _ ?mem]) simp
  qed
qed

lemma destroy_references:
  assumes "references_left desc fresh sh mem0 is mem" "inj_on fresh (set is)" "distinct is" "is \<noteq> []"
    and "\<forall>i \<in> set is. mem0 (fresh i) = None" "sh \<notin> fresh ` set is" "mem0 sh = None"
  shows "destroy_refs mem c (map fresh is) = Some (last_calls desc, mem0,
    if rq_bytes_per_worker (de_scratch desc) > 0
    then sim_context_release_scratch c (rq_bytes_per_worker (de_scratch desc)) else c)"
  using assms
proof (induction "is" arbitrary: mem)
  case (Cons i "is")
  have "fresh i \<noteq> sh" "sh \<notin> fresh ` set is" "i \<notin> set is" "mem0 (fresh i) = None" using Cons.prems by auto
  then obtain mem' where first: "sim_split_destroy mem c (Some (fresh i)) =
      (if is = [] then Some (last_calls desc, mem0, if rq_bytes_per_worker (de_scratch desc) > 0
         then sim_context_release_scratch c (rq_bytes_per_worker (de_scratch desc)) else c)
       else Some ([], mem', c))" "is \<noteq> [] \<longrightarrow> references_left desc fresh sh mem0 is mem'"
    using destroy_reference [OF Cons.prems(1,2)] Cons.prems(7) by metis
  show ?case
  proof (cases "is = []")
    case False
    have "destroy_refs mem' c (map fresh is) = Some (last_calls desc, mem0,
      if rq_bytes_per_worker (de_scratch desc) > 0
      then sim_context_release_scratch c (rq_bytes_per_worker (de_scratch desc)) else c)"
      using first(2) False Cons.prems by (intro Cons.IH) auto
    then show ?thesis using first(1) False by simp
  qed (use first(1) in simp)
qed simp

lemma release_after_register:
  assumes "fresh_blocks mem sh fresh (length (de_substeps desc))"
    and "sim_split_register fns heap epoch counter sh fresh mem c desc deps = Some (SIM_RESULT_OK, run)"
    and "distinct order" "set order = {..<length (de_substeps desc)}"
  shows "\<exists>c'. destroy_refs (sr_memory run) (sr_context run) (map fresh order) = Some (last_calls desc, mem, c') \<and>
    cx_bytes_scratch_in_use c' = cx_bytes_scratch_in_use c"
proof -
  let ?n = "length (de_substeps desc)" and ?size = "rq_bytes_per_worker (de_scratch desc)"
  have reg: "registered_split fns desc fresh deps sh mem c SIM_RESULT_OK ?n run"
    using split_registration [OF assms(1,2)] by (auto simp: registered_split_def)
  have n: "length order = ?n" using assms(3,4) by (metis card_lessThan distinct_card)
  have "de_substeps desc \<noteq> []" using assms(2) by (auto simp: sim_split_register_def)
  then have "order \<noteq> []" using n by auto
  have blocks: "fresh i \<noteq> sh \<and> mem (fresh i) = None" if "i < ?n" for i
    using assms(1) that by (auto simp: fresh_blocks_def)
  have inj: "inj_on fresh {..<?n}"
    using assms(1) by (auto simp: inj_on_def fresh_blocks_def) (metis linorder_neqE_nat)
  have "references_left desc fresh sh mem order (sr_memory run)"
    using reg assms(4) n
    by (auto simp: references_left_def registered_split_def split_memory_is_def image_iff)
  then have "destroy_refs (sr_memory run) (sr_context run) (map fresh order) = Some (last_calls desc, mem,
      if ?size > 0 then sim_context_release_scratch (sr_context run) ?size else sr_context run)"
    using assms(1,3,4) inj blocks \<open>order \<noteq> []\<close>
    by (intro destroy_references) (auto simp: fresh_blocks_def)
  moreover have "cx_bytes_scratch_in_use (if ?size > 0 then sim_context_release_scratch (sr_context run) ?size
      else sr_context run) = cx_bytes_scratch_in_use c"
  proof -
    have sum: "unat (cx_bytes_scratch_in_use (sr_context run)) = unat (cx_bytes_scratch_in_use c) + unat ?size"
      using reg by (simp add: registered_split_def)
    then have "?size \<le> cx_bytes_scratch_in_use (sr_context run)" by (simp add: word_le_nat_alt)
    moreover have "cx_bytes_scratch_in_use (sr_context run) - ?size = cx_bytes_scratch_in_use c"
      using sum calculation by (simp add: word_unat_eq_iff unat_sub)
    ultimately show ?thesis
      using sum by (auto simp: sim_context_release_scratch_def Let_def word_gt_0 unat_eq_0)
  qed
  ultimately show ?thesis by blast
qed

section \<open>Properties\<close>

text \<open>
  C20. A registration that returns has appended operators at the end of the registry, one for each substep
  in order, with its declared accesses, each after the first depending on the one before and the first on
  the given operators. On success all substeps are there, the shared block counts them, and the scratch is
  reserved once; on failure the shared block is released and the scratch is given back, while the operators
  of earlier substeps stay.
\<close>

theorem split_register_exact:
  assumes "fresh_blocks mem sh fresh (length (de_substeps desc))"
    and "sim_split_register fns heap epoch counter sh fresh mem c desc deps = Some (result, run)"
  shows "\<exists>k. registered_split fns desc fresh deps sh mem c result k run"
  by (rule split_registration [OF assms])

text \<open>
  C26. A descriptor whose ports are fields and whose accesses are of known modes through existing ports is
  registered when memory is granted and its scratch is available: the registration returns, reports success
  and uses no block that is not live.
\<close>

theorem split_register_succeeds:
  assumes "fresh_blocks mem sh fresh (length (de_substeps desc))" "split_valid c desc" "split_fits desc deps"
    and "scratch_available c (rq_bytes_per_worker (de_scratch desc))"
  shows "\<exists>run. sim_split_register fns granted epoch counter sh fresh mem c desc deps = Some (SIM_RESULT_OK, run)"
  by (rule split_registration_succeeds [OF assms])

text \<open>
  C22. The operators of a registered descriptor may be destroyed in any order: no block is used after its
  release, the destructor of the descriptor runs exactly once, with its state, and at the end the memory and
  the scratch in use are those from before the registration.
\<close>

theorem split_released_once:
  assumes "fresh_blocks mem sh fresh (length (de_substeps desc))"
    and "sim_split_register fns heap epoch counter sh fresh mem c desc deps = Some (SIM_RESULT_OK, run)"
    and "distinct order" "set order = {..<length (de_substeps desc)}"
  shows "\<exists>c'. destroy_refs (sr_memory run) (sr_context run) (map fresh order) = Some (last_calls desc, mem, c') \<and>
    cx_bytes_scratch_in_use c' = cx_bytes_scratch_in_use c"
  by (rule release_after_register [OF assms])

section \<open>Witnesses\<close>

definition split_context :: SimContext where
  "split_context = new_context\<lparr>cx_world := (cx_world new_context)\<lparr>w_fields := [demo_field 8 sim_scalar_domain_f64]\<rparr>\<rparr>"

definition demo_access :: "u16 \<Rightarrow> u8 \<Rightarrow> SimSplitAccess" where
  "demo_access p m = \<lparr>ac_port = p, ac_mode = m\<rparr>"

definition demo_substep :: "nat \<Rightarrow> SimSplitAccess list \<Rightarrow> bool \<Rightarrow> SimSplitSubstep" where
  "demo_substep f as barrier = \<lparr>ss_name = Some ''step'', ss_fn = f, ss_accesses = as, ss_dt_scale = 0,
     ss_barrier_after = barrier, ss_error_measure = None, ss_required_features = 0\<rparr>"

definition demo_split :: "SimSplitSubstep list \<Rightarrow> size_t \<Rightarrow> SimSplitDescriptor" where
  "demo_split substeps bytes =
     \<lparr>de_name = Some ''split'', de_ports = [\<lparr>pt_context_field_index = 0, pt_require_complex = False\<rparr>],
      de_substeps = substeps, de_state = Some 7, de_symbolic = None, de_save_state = None, de_restore_state = None,
      de_destroy = Some 5, de_info = sim_operator_info_defaults, de_config = sim_operator_config_defaults,
      de_catalog_metadata = None, de_scratch = \<lparr>rq_bytes_per_worker = bytes, rq_alignment = 8\<rparr>\<rparr>"

definition two_substeps :: SimSplitDescriptor where
  "two_substeps = demo_split [demo_substep 1 [demo_access 0 SIM_ACCESS_RW] False,
     demo_substep 2 [demo_access 0 SIM_ACCESS_READ] True] 64"

lemma two_substeps:
  "length (de_substeps two_substeps) = 2" "split_valid split_context two_substeps" "split_fits two_substeps []"
  "scratch_available split_context (rq_bytes_per_worker (de_scratch two_substeps))"
proof -
  show "length (de_substeps two_substeps) = 2" by (simp add: two_substeps_def demo_split_def)
  show "split_valid split_context two_substeps"
    by (simp add: split_valid_def two_substeps_def demo_split_def check_ports_def check_port_def sim_context_field_def
        split_context_def demo_substep_def demo_access_def known_mode_def reading_def writing_def
        SIM_ACCESS_RW_def SIM_ACCESS_READ_def SIM_ACCESS_WRITE_def)
  show "split_fits two_substeps []"
    by (simp add: split_fits_def two_substeps_def demo_split_def demo_substep_def demo_access_def
        sizeof_SimSplitPort_def sizeof_SimSplitSubstep_def sizeof_SimSplitAccess_def)
  show "scratch_available split_context (rq_bytes_per_worker (de_scratch two_substeps))"
    by (simp add: scratch_available_def split_context_def two_substeps_def demo_split_def
        sim_context_memory_limits_default_def SIM_CONTEXT_MAX_SCRATCH_BYTES_PER_OPERATOR_DEFAULT_def
        sim_context_reserve_scratch_def sim_context_add_size_def)
qed

definition demo_functions :: split_functions where
  "demo_functions = \<lparr>fn_eval = 1, fn_destroy = 2, fn_save_state = 3, fn_restore_state = 4, fn_symbolic = 5\<rparr>"

lemma empty_fresh: "fresh_blocks Map.empty 0 Suc n" by (simp add: fresh_blocks_def)

theorem split_register_succeeds_witness:
  "\<exists>run. sim_split_register demo_functions granted 0 0 0 Suc Map.empty split_context two_substeps [] = Some (SIM_RESULT_OK, run)"
  by (rule split_register_succeeds [OF empty_fresh two_substeps(2,3,4)])

lemma two_substeps_registered:
  obtains run where "sim_split_register demo_functions granted 0 0 0 Suc Map.empty split_context two_substeps [] =
    Some (SIM_RESULT_OK, run)"
  using split_registration_succeeds [OF empty_fresh two_substeps(2,3,4)] by blast

theorem split_register_exact_witness:
  "\<exists>run k. sim_split_register demo_functions granted 0 0 0 Suc Map.empty split_context two_substeps [] =
     Some (SIM_RESULT_OK, run) \<and>
     registered_split demo_functions two_substeps Suc [] 0 Map.empty split_context SIM_RESULT_OK k run"
proof -
  obtain run where "sim_split_register demo_functions granted 0 0 0 Suc Map.empty split_context two_substeps [] =
    Some (SIM_RESULT_OK, run)" by (rule two_substeps_registered)
  then show ?thesis using split_register_exact [OF empty_fresh] by blast
qed

theorem split_released_once_witness:
  "\<exists>run c'. sim_split_register demo_functions granted 0 0 0 Suc Map.empty split_context two_substeps [] =
     Some (SIM_RESULT_OK, run) \<and>
     destroy_refs (sr_memory run) (sr_context run) [2, 1] = Some ([(5, Some 7)], Map.empty, c') \<and>
     cx_bytes_scratch_in_use c' = 0"
proof -
  obtain run where run: "sim_split_register demo_functions granted 0 0 0 Suc Map.empty split_context two_substeps [] =
    Some (SIM_RESULT_OK, run)" by (rule two_substeps_registered)
  have "distinct [1, 0 :: nat]" "set [1, 0] = {..<length (de_substeps two_substeps)}"
    by (auto simp: two_substeps(1))
  then obtain c' where "destroy_refs (sr_memory run) (sr_context run) (map Suc [1, 0]) =
      Some (last_calls two_substeps, Map.empty, c')" "cx_bytes_scratch_in_use c' = cx_bytes_scratch_in_use split_context"
    using split_released_once [OF empty_fresh run] by blast
  then show ?thesis
    using run by (intro exI [of _ run] exI [of _ c'])
      (simp add: last_calls_def two_substeps_def demo_split_def split_context_def numeral_2_eq_2)
qed

theorem substep_accesses_exact_witness:
  "\<exists>acc. substep_accesses two_substeps (de_substeps two_substeps ! 1) = Inr acc \<and>
     set (as_reads acc) = {0} \<and> set (as_writes acc) = {0} \<and> bit (as_rmask acc) 0 \<and> bit (as_wmask acc) 0"
proof -
  let ?ss = "de_substeps two_substeps ! 1"
  have declared: "declared_reads two_substeps ?ss = {0}" "declared_writes two_substeps ?ss = {0}"
    by (auto simp: declared_reads_def declared_writes_def port_fields_def access_field_def reading_def writing_def
        two_substeps_def demo_split_def demo_substep_def demo_access_def SIM_ACCESS_READ_def SIM_ACCESS_WRITE_def
        SIM_ACCESS_RW_def)
  have "\<forall>a \<in> set (ss_accesses ?ss). known_mode a \<and> unat (ac_port a) < length (de_ports two_substeps)"
    by (simp add: two_substeps_def demo_split_def demo_substep_def demo_access_def known_mode_def reading_def
        SIM_ACCESS_READ_def)
  from substep_accesses_exact [OF this] show ?thesis unfolding declared by fastforce
qed

section \<open>A failure at a later substep\<close>

text \<open>
  The operators that a failed registration leaves behind refer to the released block: their destructor
  reads it.
\<close>

lemma left_behind_unsafe:
  assumes "registered_split fns desc fresh deps sh mem c result k run" "result \<noteq> SIM_RESULT_OK" "i < k"
  shows "sim_split_destroy (sr_memory run) c' (Some (fresh i)) = None"
proof -
  have at: "sr_memory run sh = None" "sr_memory run (fresh i) = Some (Split_Ref i sh)"
    using assms by (auto simp: registered_split_def split_memory_is_def)
  then have "fresh i \<noteq> sh" by auto
  then show ?thesis
    using at by (simp add: sim_split_destroy_def sim_split_shared_from_userdata_def shared_at_def Let_def)
qed

definition second_port_missing :: SimSplitDescriptor where
  "second_port_missing = demo_split [demo_substep 1 [demo_access 0 SIM_ACCESS_RW] False,
     demo_substep 2 [demo_access 1 SIM_ACCESS_READ] False] 0"

lemma second_port_missing_unsafe:
  "\<exists>run. sim_split_register demo_functions granted 0 0 0 Suc Map.empty split_context second_port_missing [] =
     Some (SIM_RESULT_INVALID_ARGUMENT, run) \<and> length (records (sr_context run)) = 1 \<and>
     sim_split_destroy (sr_memory run) (sr_context run) (Some 1) = None"
proof -
  let ?desc = second_port_missing
  let ?run = "start_run ?desc 0 Map.empty split_context 0"
  note demo = second_port_missing_def demo_split_def demo_substep_def demo_access_def
  have n: "length (de_substeps ?desc) = 2" and bytes: "rq_bytes_per_worker (de_scratch ?desc) = 0"
    by (simp_all add: demo)
  have fits: "split_fits ?desc []"
    by (simp add: split_fits_def demo sizeof_SimSplitPort_def sizeof_SimSplitSubstep_def sizeof_SimSplitAccess_def)
  have known: "\<forall>a \<in> set (ss_accesses (de_substeps ?desc ! 0)). known_mode a \<and> unat (ac_port a) < length (de_ports ?desc)"
    by (simp add: demo known_mode_def writing_def reading_def SIM_ACCESS_RW_def)
  have first: "0 < length (de_substeps ?desc)" "Suc 0 \<noteq> 0" "\<forall>i < (0 :: nat). Suc i \<noteq> Suc 0"
      "Map.empty (Suc 0) = (None :: split_object option)" using n by simp_all
  obtain run1 where run1: "register_substep demo_functions granted 0 Suc [] 0 0 ?run = Some (Inr run1)"
      "in_progress demo_functions ?desc Suc [] 0 Map.empty split_context (Suc 0) run1"
    by (rule granted_substep [OF start_in_progress first fits known])
  obtain run2 where run2: "give_up SIM_RESULT_INVALID_ARGUMENT 0 run1 = Some (SIM_RESULT_INVALID_ARGUMENT, run2)"
      "given_up demo_functions ?desc Suc [] 0 Map.empty split_context (Suc 0) run2"
    by (rule give_up_progress [OF run1(2)])
  obtain s1 where s1: "shared_at (sr_memory run1) 0 = Some s1" "sh_desc s1 = ?desc"
    using run1(2) by (auto simp: in_progress_def split_memory_is_def shared_at_def shared_of_def)
  have "substep_accesses ?desc (de_substeps ?desc ! 1) = Inl SIM_RESULT_INVALID_ARGUMENT"
    by (simp add: substep_accesses_def note_access_def demo)
  then have "register_substep demo_functions granted 0 Suc [] 0 1 run1 = Some (Inl (SIM_RESULT_INVALID_ARGUMENT, run2))"
    using run2(1) s1 fits
    by (simp add: register_substep_def calloc_ok_def granted_def split_fits_def sizeof_SimSplitPort_def Let_def)
  then have loop: "register_substeps demo_functions granted 0 Suc [] 0 [0..<2] ?run = Some (SIM_RESULT_INVALID_ARGUMENT, run2)"
    using run1(1) by (simp add: numeral_2_eq_2)
  have "sim_split_register demo_functions granted 0 0 0 Suc Map.empty split_context ?desc [] =
      Some (SIM_RESULT_INVALID_ARGUMENT, run2)"
  proof -
    have "sim_split_clone_descriptor granted ?desc = Some ?desc" "reserved_scratch ?desc split_context = (SIM_RESULT_OK, split_context)"
      "calloc_ok granted 1 sizeof_SimSplitShared" "check_ports split_context (de_ports ?desc) = SIM_RESULT_OK"
      by (simp_all add: sim_split_clone_descriptor_def reserved_scratch_def demo calloc_ok_def granted_def
          sizeof_SimSplitShared_def sizeof_SimSplitDescriptor_def sizeof_SimSplitPort_def sizeof_SimSplitSubstep_def
          sizeof_SimSplitAccess_def check_ports_def check_port_def sim_context_field_def split_context_def)
    then show ?thesis
      using loop n register_loop [of ?desc granted split_context split_context]
      by (simp add: Let_def calloc_ok_def granted_def) (simp add: demo)
  qed
  moreover have "length (records (sr_context run2)) = 1"
    using run2(2) bytes by (auto simp: given_up_def appended_def split_context_def records_def empty_registry_def)
  moreover have "sim_split_destroy (sr_memory run2) (sr_context run2) (Some 1) = None"
  proof -
    have "sr_memory run2 0 = None" "sr_memory run2 1 = Some (Split_Ref 0 0)"
      using run2(2) by (auto simp: given_up_def split_memory_is_def)
    then show ?thesis
      by (simp add: sim_split_destroy_def sim_split_shared_from_userdata_def shared_at_def Let_def)
  qed
  ultimately show ?thesis by blast
qed

end
