(* ===== verification/Split_Order.thy ===== *)
theory Split_Order
  imports Split_Correct Context_Reach
begin

text \<open>
  Registration of a split operator and execution of the context put together: the substeps run one after the
  other.
\<close>

lemma substep_context_ok:
  assumes "register_substep fns heap epoch fresh deps sh i run = Some (Inr run')" "context_ok (sr_context run)"
  shows "context_ok (sr_context run')"
  using assms register_operator_ok
  by (auto simp: register_substep_def Let_def split: option.splits sum.splits if_splits prod.splits)

lemma substeps_context_ok:
  assumes "register_substeps fns heap epoch fresh deps sh is run = Some (SIM_RESULT_OK, run')" "context_ok (sr_context run)"
    and "in_progress fns desc fresh deps sh mem0 c m run" "is = [m..<length (de_substeps desc)]"
    and "fresh_blocks mem0 sh fresh (length (de_substeps desc))"
  shows "context_ok (sr_context run')"
  using assms
proof (induction "is" arbitrary: m run)
  case (Cons i "is")
  have "i = m \<and> m < length (de_substeps desc) \<and> is = [Suc m..<length (de_substeps desc)]"
    using Cons.prems(4) [symmetric] unfolding upt_eq_Cons_conv by auto
  then have i: "i = m" "m < length (de_substeps desc)" "is = [Suc m..<length (de_substeps desc)]" by simp_all
  have fresh: "fresh m \<noteq> sh" "\<forall>j < m. fresh j \<noteq> fresh m" "mem0 (fresh m) = None"
    using Cons.prems(5) i(2) by (auto simp: fresh_blocks_def)
  show ?case
  proof (rule register_substep_cases [OF Cons.prems(3) i(2) fresh, of heap epoch])
    fix run1
    assume step: "register_substep fns heap epoch fresh deps sh m run = Some (Inr run1)"
      "in_progress fns desc fresh deps sh mem0 c (Suc m) run1"
    show ?thesis
      using Cons.IH [OF _ substep_context_ok [OF step(1) Cons.prems(2)] step(2) i(3) Cons.prems(5)] Cons.prems(1) step(1) i(1)
      by simp
  qed (use Cons.prems(1) i(1) in auto)
qed auto

lemma register_context_ok:
  assumes "sim_split_register fns heap epoch counter sh fresh mem c desc deps = Some (SIM_RESULT_OK, run)" "context_ok c"
    and "fresh_blocks mem sh fresh (length (de_substeps desc))"
  shows "context_ok (sr_context run)"
proof -
  obtain c1 where scratch: "reserved_scratch desc c = (SIM_RESULT_OK, c1)"
    and loop: "register_substeps fns heap epoch fresh deps sh [0..<length (de_substeps desc)] (start_run desc sh mem c1 counter) =
      Some (SIM_RESULT_OK, run)" by (rule register_started [OF assms(1)])
  have "context_ok c1"
    using scratch assms(2) reserve_scratch_ok [OF assms(2)]
    by (auto simp: reserved_scratch_def Let_def split: if_splits)
  then have start: "context_ok (sr_context (start_run desc sh mem c1 counter))" by (simp add: start_run_def)
  show ?thesis
    by (rule substeps_context_ok [OF loop start start_in_progress refl assms(3)])
qed
section \<open>Properties\<close>

text \<open>
  C19. The substeps of a registered split operator run in their order: an execution of the context that
  succeeds applies each substep after the one before it.
\<close>

theorem split_runs_in_order:
  assumes "sim_split_register fns heap epoch counter sh fresh mem c desc deps = Some (SIM_RESULT_OK, run)" "context_ok c"
    and "fresh_blocks mem sh fresh (length (de_substeps desc))"
    and "env_ok env" "registry_fits (registered_operators (sr_context run))"
  shows "\<exists>result c' applied. sim_context_execute env clock (sr_context run) = Some (result, c', applied) \<and>
    (result = SIM_RESULT_OK \<longrightarrow> (\<forall>i. Suc i < length (de_substeps desc) \<longrightarrow>
       precedes applied (length (records c) + i) (length (records c) + Suc i)))"
proof -
  let ?ops = "registered_operators (sr_context run)" and ?n = "length (records c)"
  obtain result c' applied where run: "sim_context_execute env clock (sr_context run) = Some (result, c', applied)"
      "result = SIM_RESULT_OK \<longrightarrow> set applied = {..<length ?ops}"
      "\<forall>(i, j) \<in> depends ?ops \<union> conflict ?ops. j \<in> set applied \<longrightarrow> precedes applied i j"
    using execute_ok [OF assms(4) register_context_ok [OF assms(1-3)] assms(5), of clock] by blast
  obtain ops where ops: "records (sr_context run) = records c @ ops" "length ops = length (de_substeps desc)"
      "\<forall>i < length ops. substep_entry fns desc fresh deps ?n i (ops ! i)"
    using split_registration [OF assms(3,1)] by (auto simp: registered_split_def appended_def)
  have waits: "(?n + i, ?n + Suc i) \<in> depends ?ops" and known: "?n + Suc i < length ?ops"
    if "Suc i < length (de_substeps desc)" for i
  proof -
    have "op_dependencies (ops ! Suc i) = [?n + i]"
      using ops(2,3) that by (auto simp: substep_entry_def entry_of_def substep_descriptor_def)
    then show "(?n + i, ?n + Suc i) \<in> depends ?ops" "?n + Suc i < length ?ops"
      using ops(1,2) that
      by (auto simp: Plan_Correct.depends_def registered_operators_def scheduled_operators_def records_def nth_append
          SimOperator.truncate_def)
  qed
  have "precedes applied (?n + i) (?n + Suc i)"
    if "result = SIM_RESULT_OK" "Suc i < length (de_substeps desc)" for i
  proof -
    have "?n + Suc i \<in> set applied" using run(2) that known by simp
    then show ?thesis using run(3) waits [OF that(2)] by blast
  qed
  then show ?thesis using run(1) by blast
qed

definition bare_substeps :: SimSplitDescriptor where
  "bare_substeps = (demo_split [demo_substep 1 [] False, demo_substep 2 [] True] 64)\<lparr>de_ports := []\<rparr>"

lemma bare_substeps:
  "length (de_substeps bare_substeps) = 2" "split_valid new_context bare_substeps" "split_fits bare_substeps []"
  "scratch_available new_context (rq_bytes_per_worker (de_scratch bare_substeps))"
  "substep_accesses bare_substeps (de_substeps bare_substeps ! i) = Inr no_accesses \<or> \<not> i < 2"
proof -
  note demo = bare_substeps_def demo_split_def demo_substep_def
  show "length (de_substeps bare_substeps) = 2" by (simp add: demo)
  show "split_valid new_context bare_substeps" by (simp add: split_valid_def demo check_ports_def)
  show "split_fits bare_substeps []"
    by (simp add: split_fits_def demo sizeof_SimSplitPort_def sizeof_SimSplitSubstep_def)
  show "scratch_available new_context (rq_bytes_per_worker (de_scratch bare_substeps))"
    by (simp add: scratch_available_def demo sim_context_memory_limits_default_def
        SIM_CONTEXT_MAX_SCRATCH_BYTES_PER_OPERATOR_DEFAULT_def sim_context_reserve_scratch_def sim_context_add_size_def)
  show "substep_accesses bare_substeps (de_substeps bare_substeps ! i) = Inr no_accesses \<or> \<not> i < 2"
    by (cases "i = 0"; cases "i = 1") (simp_all add: demo substep_accesses_def)
qed

theorem split_runs_in_order_witness:
  "\<exists>run. sim_split_register demo_functions granted 0 0 0 Suc Map.empty new_context bare_substeps [] =
       Some (SIM_RESULT_OK, run) \<and>
     (\<forall>m clock. \<exists>result c' applied. sim_context_execute (demo_env m) clock (sr_context run) = Some (result, c', applied) \<and>
       (result = SIM_RESULT_OK \<longrightarrow> precedes applied 0 1))"
proof -
  obtain run where reg: "sim_split_register demo_functions granted 0 0 0 Suc Map.empty new_context bare_substeps [] =
    Some (SIM_RESULT_OK, run)"
    using split_registration_succeeds [OF empty_fresh bare_substeps(2,3,4)] by blast
  have none: "records new_context = []" by (simp add: records_def empty_registry_def)
  obtain ops where ops: "records (sr_context run) = ops" "length ops = 2"
      "\<forall>i < 2. substep_entry demo_functions bare_substeps Suc [] 0 i (ops ! i)"
    using split_registration [OF empty_fresh reg] none by (auto simp: registered_split_def appended_def bare_substeps(1))
  have "op_read_indices (ops ! i) = [] \<and> op_write_indices (ops ! i) = []" if "i < 2" for i
    using ops(3) that bare_substeps(5) [of i]
    by (auto simp: substep_entry_def entry_of_def substep_descriptor_def no_accesses_def)
  then have "\<forall>op \<in> set ops. op_read_indices op = [] \<and> op_write_indices op = []"
    using ops(2) by (metis in_set_conv_nth)
  then have fits: "registry_fits (registered_operators (sr_context run))"
    using ops(1,2)
    by (auto simp: registry_fits_def registered_operators_def scheduled_operators_def records_def no_writer_def
        SimOperator.truncate_def)
  have "\<exists>result c' applied. sim_context_execute (demo_env m) clock (sr_context run) = Some (result, c', applied) \<and>
      (result = SIM_RESULT_OK \<longrightarrow> precedes applied 0 1)" for m clock
    using split_runs_in_order [OF reg new_context_ok(1) empty_fresh demo_env_ok fits, of m clock] none
    by (auto simp: bare_substeps(1))
  then show ?thesis using reg by blast
qed

end
