(* ===== verification/Spec2Isabelle.thy ===== *)
theory Spec2Isabelle
  imports Sim_Seed Plan_Correct Patch_Correct Logger_Steps IR_Eval_Correct Operator_Registry
    Runtime_State Sim_World Integrator_State Context_Reach Sieve_Batch Split_Order
begin

text \<open>
  A model of the core of Oakfield, a field simulator written in C (\<^verbatim>\<open>src/core\<close>), and the theorems
  that make it correct.

  \<^bold>\<open>The program.\<close> A simulation is a context: a world (fields, an operator registry, a universe
  specification), a runtime state (time, counters, histories) and the integrators bound to it. A field
  (\<^verbatim>\<open>core/src/field.c\<close>) is a multidimensional array that owns a typed buffer (\<^verbatim>\<open>core/src/sim_buffer.c\<close>);
  patches (\<^verbatim>\<open>core/src/field_patch.c\<close>) are views on rectangles of a field. Operators are registered from
  descriptors (\<^verbatim>\<open>core/src/operator.c\<close>); a resolver turns their dependencies and the fields they read and
  write into an execution order, the plan. An operator may carry a kernel, an expression graph built with
  \<^verbatim>\<open>core/src/kernel_ir_builder.c\<close> and evaluated by \<^verbatim>\<open>core/src/kernel_ir_eval*.c\<close> or by a backend. Random
  streams start from \<^verbatim>\<open>core/src/sim_seed.c\<close>; log records pass through the ring of
  \<^verbatim>\<open>core/src/async_logger.c\<close>.

  \<^bold>\<open>Theories.\<close> Definitions carry the names of the C functions and types; a record names its fields with
  a two-letter prefix before the name of the C member.

  \<^item> \<open>Oak_Prelude\<close>: C scalar types, \<^verbatim>\<open>SimResult\<close>, the allocation oracle, checked \<^verbatim>\<open>size_t\<close> arithmetic
    (the collection \<open>size_arith\<close>), loops with early exits.
  \<^item> \<open>Bounded_History\<close>, \<open>Capacity_Loop\<close>, \<open>Row_Major\<close>, \<open>Float_Bits\<close>: what several components share.
    Rings that keep the newest entries (a locale, interpreted by the logger and by the step metrics), the
    doubling loop of growing arrays (a partial function: it does not end for requests above \<open>2^63\<close>), the
    row-major reference semantics (a locale, interpreted by buffers and fields), the bit patterns of doubles.
  \<^item> \<open>Sim_Seed\<close>: \<^verbatim>\<open>sim_seed.c\<close>; the mixer is a permutation, derived seeds differ.
  \<^item> \<open>Scalar_Domain\<close>: the enumerations of \<^verbatim>\<open>field.h\<close>, their names and parsers, the storage types. Names
    parse back (the locale \<open>name_codec\<close>, interpreted on every pair of functions).
  \<^item> \<open>Sim_Buffer\<close>, \<open>Buffer_Correct\<close>: \<^verbatim>\<open>sim_buffer.c\<close>; a block of memory is the list of its bytes. Creation is
    exact or fails, views address elements in row-major order, writes are read back and touch nothing else.
  \<^item> \<open>Sim_Field\<close>, \<open>Field_Correct\<close>: \<^verbatim>\<open>field.c\<close>; the invariant of a live field, its preservation, promotion to
    complex storage, typed access, and two places where the code leaves the invariant: an element count
    that wraps, which the invariant excludes, and 64-bit integers that are promoted as if they were doubles.
  \<^item> \<open>Field_Patch\<close>, \<open>Patch_Correct\<close>: \<^verbatim>\<open>field_patch.c\<close>; patches as sets of cells, intersection, row iteration,
    tilings that partition.
  \<^item> \<open>Plan_Graph\<close>, \<open>Operator_Plan\<close>, \<open>Plan_Correct\<close>: the resolver of \<^verbatim>\<open>operator.c\<close>. The constraints of an
    operator list are stated declaratively; the resolver always returns, accepts exactly the acyclic lists,
    and its plan is a permutation that respects every constraint.
  \<^item> \<open>Operator_Info\<close>, \<open>Operator_Registry\<close>: the metadata of operators with their normal forms, and
    registration: when it succeeds, and that the operator it appends has every member as described, its
    kernel included, while the operators before stay as they are.
  \<^item> \<open>Async_Logger\<close>, \<open>Logger_Steps\<close>: \<^verbatim>\<open>async_logger.c\<close> run by one thread, as a refinement of a queue that
    drops its oldest entry, and by several: every atomic access is a step of an inductive relation, and the
    properties hold for all interleavings.
  \<^item> \<open>Kernel_IR\<close>, \<open>Kernel_IR_Builder\<close>, \<open>IR_Correct\<close>, \<open>IR_Reach\<close>: the expression graphs of \<^verbatim>\<open>kernel_ir.h\<close>
    and the functions that build, tag and traverse them; every graph the builder makes is well-typed and
    acyclic, the traversals visit exactly the reachable nodes.
  \<^item> \<open>Kernel_IR_Eval\<close>, \<open>IR_Integer\<close>, \<open>IR_Eval_Correct\<close>: the real, complex and integer evaluators. One
    locale, \<open>memoized_dag\<close>, relates the cached recursion to the denotation of a node; it is interpreted on
    all three. Integer nodes compute arithmetic modulo a power of two with the division of C.
  \<^item> \<open>Runtime_State\<close>: \<^verbatim>\<open>sim_runtime_state.c\<close>; the ring of step metrics, the per-field arrays, the metadata of
    run loops.
  \<^item> \<open>Sim_World\<close>: \<^verbatim>\<open>sim_world.c\<close>; fields, their continuity overrides, the universe.
  \<^item> \<open>Integrator_State\<close>: \<^verbatim>\<open>integrator_registry.c\<close> and \<^verbatim>\<open>sim_integrator_state.c\<close>; the table of factories (the
    locale \<open>factory_table\<close>) and the integrators bound to a context.
  \<^item> \<open>Sim_Profiler\<close>: \<^verbatim>\<open>field/sim_profiler.c\<close>; timing counters of one frame.
  \<^item> \<open>Kernel_Dispatch\<close>: the backend handle of \<^verbatim>\<open>backend.h\<close>, the dispatch of \<^verbatim>\<open>backend_cpu.c\<close> over the
    compiled-in backends, the tests that send a kernel to the CPU, the diagnostics.
  \<^item> \<open>Sim_Context\<close>, \<open>Context_Plan\<close>, \<open>Context_Execute\<close>: \<^verbatim>\<open>sim_context.c\<close> and \<^verbatim>\<open>sim_scheduler_state.c\<close>. A
    context is the record of its world, runtime state, scheduler, integrators and counters; every function
    that changes it returns it updated. Execution takes an environment: the allocator, arithmetic, the
    backends and the callbacks.
  \<^item> \<open>Context_Correct\<close>, \<open>Execution_Correct\<close>, \<open>Dispatch_Correct\<close>, \<open>Context_Reach\<close>: the invariant of a context
    (exact byte counters, a plan that fits the operators, a slot for every field), its preservation by every
    operation and callback, the order in which operators are applied, what drift evaluation changes, which
    kernels reach which backend, and the invariant of every context that sixteen calls of the interface lead
    to. A field changed through the pointer that the interface hands out is outside of these calls: the
    promotion node of \<^verbatim>\<open>graph_ir.c\<close> does that, and the byte counters are wrong afterwards (the last lemma
    of \<open>Context_Reach\<close>).
  \<^item> \<open>Operator_Utils\<close>: \<^verbatim>\<open>core/src/operators/common/operator_utils.c\<close>, exact integers in the representation of a
    domain and the choices operators share.
  \<^item> \<open>Sieve_Mark\<close>, \<open>Sieve_Correct\<close>, \<open>Sieve_Batch\<close>: \<^verbatim>\<open>core/src/operators/coupling/segmented_sieve_mark.c\<close> and
    \<^verbatim>\<open>segmented_sieve_mark_batch.c\<close>: what marking clears, that a batch with its cache and its fast path is
    the marking of each prime in turn, and that enough primes leave the primes.
  \<^item> \<open>Operator_Split\<close>, \<open>Split_Correct\<close>, \<open>Split_Order\<close>: \<^verbatim>\<open>core/src/operator_split.c\<close> with the blocks that its
    operators share; the outcome \<open>None\<close> is a use of a released block. What a registration leaves, when it
    succeeds, the release of the shared block in any order, and the order of the substeps in an execution.

  \<^bold>\<open>Conventions.\<close> A nullable pointer is an \<open>option\<close>; a guard that only tests an out-parameter for null is
  left out, its result being the value returned. A \<^verbatim>\<open>size_t\<close> whose overflow matters is a \<open>64 word\<close>, the
  length of an array in memory a \<open>nat\<close>. Doubles are their bit patterns; rounded arithmetic and \<^verbatim>\<open>libm\<close> are
  function arguments. Multi-byte values in buffers are little-endian. Function pointers and payloads are
  handles; what a callback does is an argument, and calls of destructors are returned as a list.

  \<^bold>\<open>Hypotheses about the environment.\<close> The allocator is a parameter \<open>heap\<close>, which says for each size
  whether it is granted; \<open>bounded_heap\<close> states that no request of half the address space is granted. Some
  theorems about growth assume counts below \<open>2^62\<close>, which memory cannot exceed. \<open>env_ok\<close> states what
  execution relies on: a launch writes the data of fields and nothing else of them, and a callback keeps
  the invariant of the context, its plan and the scheduling members of its operators; callbacks that promote
  a field through its pointer do not. The lemma on drift evaluation also assumes that callbacks leave the
  runtime state alone.

  \<^bold>\<open>Fuel and termination.\<close> The recursive evaluators and traversals of the kernel representation run on
  a bound of one more than the number of nodes; \<open>IR_Reach\<close> and \<open>IR_Eval_Correct\<close> prove that it is never
  exhausted on a builder made by the operations. The queue loop of the resolver is a \<open>while_option\<close> with a
  termination theorem. The retry loop of the logger is a step relation with a bound on the retries. The loop
  over a plan reads the length of the plan in every round and is a partial function; that it returns is
  part of the theorem on execution.

  \<^bold>\<open>Not modelled.\<close> Of the context: the synthesis of fields from poles, the caches for viewers, field
  statistics, the flux lens, neural models and the messages it prints. The backends (SIMD, CUDA, Metal), the operator library, special functions, integrator
  kernels, noise generators and field statistics are rounded floating-point programs. The math view renders
  kernels as text. Neural models adapt an external provider. The language bindings, the command line and
  the viewers are outside the core.
\<close>

end
